(* ===== verification/Kong_Prelude.thy ===== *)
theory Kong_Prelude
  imports Main "HOL-Library.Word" "HOL-Library.AList" "HOL-Library.Multiset"
begin

text \<open>
  Shared vocabulary of the development: machine integers and Rust's checked arithmetic on them,
  durations and wall-clock times, panics as values, Rust's \<open>Ordering\<close> with the stable
  \<open>sort_by\<close> of slices, and the association lists that stand for hash maps.
  The locale \<open>comparator\<close> states what \<open>sort_by\<close> needs of a comparison function;
  every sort of the program is an interpretation of it.
\<close>

section \<open>Machine integers\<close>

type_synonym u16 = "16 word"
type_synonym u32 = "32 word"
type_synonym u64 = "64 word"
type_synonym u128 = "128 word"
type_synonym usize = "64 word"
type_synonym uuid = "128 word"

named_theorems arith_defs \<comment> \<open>definitions of the checked arithmetic\<close>

definition checked_add :: "'l::len word \<Rightarrow> 'l word \<Rightarrow> 'l word option" where
  [arith_defs]: "checked_add a b = (if unat a + unat b < 2 ^ LENGTH('l) then Some (a + b) else None)"

definition checked_sub :: "'l::len word \<Rightarrow> 'l word \<Rightarrow> 'l word option" where
  [arith_defs]: "checked_sub a b = (if b \<le> a then Some (a - b) else None)"

definition saturating_sub :: "'l::len word \<Rightarrow> 'l word \<Rightarrow> 'l word" where
  [arith_defs]: "saturating_sub a b = (if b \<le> a then a - b else 0)"

definition saturating_add :: "'l::len word \<Rightarrow> 'l word \<Rightarrow> 'l word" where
  [arith_defs]: "saturating_add a b = (if unat a + unat b < 2 ^ LENGTH('l) then a + b else - 1)"

text \<open>
  A \<open>Duration\<close> is a number of nanoseconds below the largest one (\<open>u64\<close> seconds and
  999999999 nanoseconds); a \<open>SystemTime\<close> is a signed number of nanoseconds around the epoch
  whose seconds fit an \<open>i64\<close>.
\<close>

type_synonym duration = nat
type_synonym system_time = int

definition DURATION_MAX :: nat where
  "DURATION_MAX = (2 ^ 64 - 1) * 1000000000 + 999999999"

definition SYSTEM_TIME_MAX :: int where
  "SYSTEM_TIME_MAX = (2 ^ 63 - 1) * 1000000000 + 999999999"

definition duration_checked_add :: "duration \<Rightarrow> duration \<Rightarrow> duration option" where
  [arith_defs]: "duration_checked_add a b = (if a + b \<le> DURATION_MAX then Some (a + b) else None)"

definition system_time_checked_add :: "system_time \<Rightarrow> duration \<Rightarrow> system_time option" where
  [arith_defs]: "system_time_checked_add t d = (if t + int d \<le> SYSTEM_TIME_MAX then Some (t + int d) else None)"

definition from_secs :: "nat \<Rightarrow> duration" where
  "from_secs n = n * 1000000000"

section \<open>Panics\<close>

datatype 'a outcome = Ret 'a | Panic

section \<open>Orderings and stable sorting\<close>

datatype ordering = Less | Equal | Greater

definition cmp :: "'a::linorder \<Rightarrow> 'a \<Rightarrow> ordering" where
  "cmp a b = (if a < b then Less else if a = b then Equal else Greater)"

fun then_with :: "ordering \<Rightarrow> ordering \<Rightarrow> ordering" where
  "then_with Equal o2 = o2"
| "then_with o1 o2 = o1"

fun insert_by :: "('a \<Rightarrow> 'a \<Rightarrow> ordering) \<Rightarrow> 'a \<Rightarrow> 'a list \<Rightarrow> 'a list" where
  "insert_by c x [] = [x]"
| "insert_by c x (y # ys) = (if c x y = Greater then y # insert_by c x ys else x # y # ys)"

definition sort_by :: "('a \<Rightarrow> 'a \<Rightarrow> ordering) \<Rightarrow> 'a list \<Rightarrow> 'a list" where
  "sort_by c xs = foldr (insert_by c) xs []"

lemma cmp_simps [simp]:
  "cmp a b = Less \<longleftrightarrow> a < b" "cmp a b = Equal \<longleftrightarrow> a = b" "cmp a b = Greater \<longleftrightarrow> b < a"
  by (auto simp: cmp_def)

lemma then_with_eq [simp]:
  "then_with p q = Less \<longleftrightarrow> p = Less \<or> p = Equal \<and> q = Less"
  "then_with p q = Equal \<longleftrightarrow> p = Equal \<and> q = Equal"
  "then_with p q = Greater \<longleftrightarrow> p = Greater \<or> p = Equal \<and> q = Greater"
  by (cases p; simp)+

lemma mset_insert_by [simp]: "mset (insert_by c x ys) = add_mset x (mset ys)"
  by (induction ys) auto

lemma mset_sort_by [simp]: "mset (sort_by c xs) = mset xs"
  by (induction xs) (auto simp: sort_by_def)

lemma set_sort_by [simp]: "set (sort_by c xs) = set xs"
  by (metis mset_sort_by set_mset_mset)

lemma length_sort_by [simp]: "length (sort_by c xs) = length xs"
  by (metis mset_sort_by size_mset)

lemma set_insert_by [simp]: "set (insert_by c x ys) = insert x (set ys)"
  by (metis mset_insert_by set_mset_mset set_mset_add_mset_insert)

lemma sort_by_Nil [simp]: "sort_by c [] = []"
  by (simp add: sort_by_def)

locale comparator =
  fixes c :: "'a \<Rightarrow> 'a \<Rightarrow> ordering"
  assumes c_refl: "c x x = Equal"
    and c_swap: "c x y = Greater \<longleftrightarrow> c y x = Less"
    and c_trans: "c x y \<noteq> Greater \<Longrightarrow> c y z \<noteq> Greater \<Longrightarrow> c x z \<noteq> Greater"
begin

lemma c_total: "c x y \<noteq> Greater \<or> c y x \<noteq> Greater"
  using c_swap [of x y] by auto

lemma sorted_insert_by:
  "sorted_wrt (\<lambda>p q. c p q \<noteq> Greater) ys \<Longrightarrow> sorted_wrt (\<lambda>p q. c p q \<noteq> Greater) (insert_by c x ys)"
proof (induction ys)
  case (Cons y ys)
  show ?case
  proof (cases "c x y = Greater")
    case True
    then have "c y x \<noteq> Greater" using c_total by blast
    with True Cons show ?thesis by simp
  next
    case False
    with Cons.prems show ?thesis by (auto dest: c_trans)
  qed
qed simp

lemma sorted_sort_by: "sorted_wrt (\<lambda>p q. c p q \<noteq> Greater) (sort_by c xs)"
  by (induction xs) (auto simp: sort_by_def intro: sorted_insert_by)

text \<open>The first element of the sorted list that satisfies \<open>P\<close> is a best one.\<close>

lemma find_sorted_best:
  assumes "sorted_wrt (\<lambda>p q. c p q \<noteq> Greater) ys" "List.find P ys = Some x"
  shows "x \<in> set ys \<and> P x \<and> (\<forall>y \<in> set ys. P y \<longrightarrow> c x y \<noteq> Greater)"
  using assms by (induction ys) (auto simp: c_refl split: if_splits)

lemma find_sort_by_best:
  assumes "List.find P (sort_by c xs) = Some x"
  shows "x \<in> set xs \<and> P x \<and> (\<forall>y \<in> set xs. P y \<longrightarrow> c x y \<noteq> Greater)"
  using find_sorted_best [OF sorted_sort_by assms] by simp

text \<open>Stability: elements that compare equal to one another keep their order.\<close>

lemma insert_by_front: "\<forall>y \<in> set ys. c x y \<noteq> Greater \<Longrightarrow> insert_by c x ys = x # ys"
  by (cases ys) auto

lemma filter_insert_by:
  assumes "sorted_wrt (\<lambda>p q. c p q \<noteq> Greater) ys"
  shows "filter (\<lambda>y. c y k = Equal) (insert_by c x ys) =
    (if c x k = Equal then [x] else []) @ filter (\<lambda>y. c y k = Equal) ys"
  using assms
proof (induction ys)
  case (Cons y ys)
  have "c y k = Equal \<Longrightarrow> c x k = Equal \<Longrightarrow> c x y \<noteq> Greater"
    using c_trans [of x k y] c_swap [of k y] by auto
  with Cons show ?case by auto
qed simp

lemma sort_by_stable: "filter (\<lambda>y. c y k = Equal) (sort_by c xs) = filter (\<lambda>y. c y k = Equal) xs"
proof (induction xs)
  case (Cons x xs)
  have "sort_by c (x # xs) = insert_by c x (sort_by c xs)" by (simp add: sort_by_def)
  with Cons show ?case by (simp add: filter_insert_by [OF sorted_sort_by])
qed simp

text \<open>A sorted list with given equivalence classes is unique: stable sorting is determined.\<close>

lemma stable_unique:
  assumes "sorted_wrt (\<lambda>p q. c p q \<noteq> Greater) xs" "sorted_wrt (\<lambda>p q. c p q \<noteq> Greater) ys"
    and "\<And>k. filter (\<lambda>y. c y k = Equal) xs = filter (\<lambda>y. c y k = Equal) ys"
  shows "xs = ys"
  using assms
proof (induction xs arbitrary: ys)
  case Nil
  show ?case
  proof (cases ys)
    case (Cons y ys')
    with Nil.prems(3) [of y] show ?thesis by (simp add: c_refl)
  qed simp
next
  case (Cons x xs)
  have mem: "z \<in> set (x # xs) \<longleftrightarrow> z \<in> set ys" for z
  proof -
    have "z \<in> set zs \<longleftrightarrow> z \<in> set (filter (\<lambda>y. c y z = Equal) zs)" for zs by (simp add: c_refl)
    then show ?thesis using Cons.prems(3) [of z] by metis
  qed
  then obtain y ys' where ys: "ys = y # ys'" by (cases ys) auto
  have "c x y \<noteq> Greater" "c y x \<noteq> Greater"
    using mem [of y] mem [of x] Cons.prems(1,2) ys by (auto simp: c_refl)
  then have "c x y = Equal" "c y x = Equal"
    using c_swap [of x y] c_swap [of y x] by (cases "c x y"; cases "c y x"; auto)+
  with Cons.prems(3) [of x] ys have xy: "x = y" by (simp add: c_refl)
  have "filter (\<lambda>y. c y k = Equal) xs = filter (\<lambda>y. c y k = Equal) ys'" for k
    using Cons.prems(3) [of k] ys xy by (simp split: if_splits)
  with Cons.IH [of ys'] Cons.prems(1,2) ys xy show ?case by simp
qed

lemma sort_by_unique:
  assumes "sorted_wrt (\<lambda>p q. c p q \<noteq> Greater) ys"
    and "\<And>k. filter (\<lambda>y. c y k = Equal) ys = filter (\<lambda>y. c y k = Equal) xs"
  shows "ys = sort_by c xs"
  by (rule stable_unique [OF assms(1) sorted_sort_by]) (simp add: sort_by_stable assms(2))

text \<open>Sorting by a strict order on the list's elements forgets the order they came in.\<close>

lemma sort_by_order_irrelevant:
  assumes "mset xs = mset ys" "\<And>p q. p \<in> set xs \<Longrightarrow> q \<in> set xs \<Longrightarrow> c p q = Equal \<Longrightarrow> p = q" "distinct xs"
  shows "sort_by c xs = sort_by c ys"
proof (rule stable_unique [OF sorted_sort_by sorted_sort_by])
  fix k
  have ys: "distinct ys" "set ys = set xs"
    using assms(1,3) by (metis mset_eq_imp_distinct_iff) (metis assms(1) set_mset_mset)
  have one: "filter (\<lambda>y. c y k = Equal) zs = filter (\<lambda>y. y = z) zs"
    if "set zs = set xs" "z \<in> set xs" "c z k = Equal" for zs z
  proof (rule filter_cong [OF refl])
    fix y assume "y \<in> set zs"
    then show "(c y k = Equal) = (y = z)"
      using that assms(2) [of y z] c_trans [of y k z] c_trans [of z k y] c_swap [of k y] c_swap [of k z] c_swap [of y z] c_swap [of z y]
      by (cases "c y z") auto
  qed
  have uniq: "distinct zs \<Longrightarrow> z \<in> set zs \<Longrightarrow> filter (\<lambda>y. y = z) zs = [z]" for zs z
  proof (induction zs)
    case (Cons w zs)
    then show ?case by (cases "w = z") (auto simp: filter_empty_conv)
  qed simp
  show "filter (\<lambda>y. c y k = Equal) (sort_by c xs) = filter (\<lambda>y. c y k = Equal) (sort_by c ys)"
  proof (cases "\<exists>z \<in> set xs. c z k = Equal")
    case True
    then obtain z where "z \<in> set xs" "c z k = Equal" by blast
    with assms(3) ys show ?thesis unfolding sort_by_stable by (simp add: one uniq)
  next
    case False
    with ys show ?thesis unfolding sort_by_stable by (simp add: filter_False)
  qed
qed

end

lemma comparator_cmp_key: "comparator (\<lambda>p q. cmp (f p) (f q))"
  by unfold_locales auto

context comparator
begin

lemma c_eq_sym: "c x y = Equal \<Longrightarrow> c y x = Equal"
  using c_swap [of x y] c_swap [of y x] by (cases "c y x") auto

lemma c_eq_iff: "c x y = Equal \<longleftrightarrow> c x y \<noteq> Greater \<and> c y x \<noteq> Greater"
  using c_swap [of x y] c_swap [of y x] by (cases "c x y"; cases "c y x") auto

lemma flip: "comparator (\<lambda>p q. c q p)"
proof unfold_locales
  fix x y z
  show "c x x = Equal" by (rule c_refl)
  show "(c y x = Greater) = (c x y = Less)" by (rule c_swap)
  assume "c y x \<noteq> Greater" "c z y \<noteq> Greater"
  then show "c z x \<noteq> Greater" using c_trans [of z y x] by blast
qed

end

lemma comparator_then_with:
  assumes c: "comparator c" and d: "comparator d"
  shows "comparator (\<lambda>p q. then_with (c p q) (d p q))"
proof unfold_locales
  fix x show "then_with (c x x) (d x x) = Equal"
    by (simp add: comparator.c_refl [OF c] comparator.c_refl [OF d])
next
  fix x y show "then_with (c x y) (d x y) = Greater \<longleftrightarrow> then_with (c y x) (d y x) = Less"
    using comparator.c_swap [OF c] comparator.c_swap [OF d] comparator.c_eq_sym [OF c] by auto
next
  fix x y z
  assume a: "then_with (c x y) (d x y) \<noteq> Greater" "then_with (c y z) (d y z) \<noteq> Greater"
  note tr = comparator.c_trans [OF c] and eqs = comparator.c_eq_iff [OF c]
  from a have xy: "c x y \<noteq> Greater" and yz: "c y z \<noteq> Greater" by auto
  have "d x z \<noteq> Greater" if "c x z = Equal"
  proof -
    from that have zx: "c z x \<noteq> Greater" by (simp add: eqs)
    have "c y x \<noteq> Greater" "c z y \<noteq> Greater" by (rule tr [OF yz zx]) (rule tr [OF zx xy])
    with xy yz have "c x y = Equal" "c y z = Equal" by (simp_all add: eqs)
    with a show ?thesis using comparator.c_trans [OF d, of x y z] by auto
  qed
  with tr [OF xy yz] show "then_with (c x z) (d x z) \<noteq> Greater" by auto
qed

section \<open>Association lists as hash maps\<close>

definition asum :: "('v \<Rightarrow> nat) \<Rightarrow> ('k \<times> 'v) list \<Rightarrow> nat" where
  "asum f al = sum_list (map (\<lambda>e. f (snd e)) al)"

definition retain :: "('v \<Rightarrow> bool) \<Rightarrow> ('k \<times> 'v) list \<Rightarrow> ('k \<times> 'v) list" where
  "retain keep al = filter (\<lambda>e. keep (snd e)) al"

named_theorems alist_simps \<comment> \<open>sums and lookups of updated association lists\<close>

lemma asum_simps [simp]:
  "asum f [] = 0" "asum f (e # al) = f (snd e) + asum f al" "asum f (al @ bl) = asum f al + asum f bl"
  by (simp_all add: asum_def)

lemma update_fresh [alist_simps]: "map_of al k = None \<Longrightarrow> AList.update k v al = al @ [(k, v)]"
  by (induction al) (auto split: if_splits)

lemma asum_update_Some:
  "map_of al k = Some w \<Longrightarrow> asum f (AList.update k v al) + f w = asum f al + f v"
  by (induction al) (auto split: if_splits)

lemma asum_update_le:
  "map_of al k = Some w \<Longrightarrow> f w \<le> asum f al"
  by (induction al) (auto split: if_splits)

lemma asum_delete:
  "distinct (map fst al) \<Longrightarrow> map_of al k = Some w \<Longrightarrow> asum f (AList.delete k al) + f w = asum f al"
proof (induction al)
  case (Cons e al)
  have "k \<notin> set (map fst al) \<Longrightarrow> AList.delete k al = al"
    by (simp add: AList.delete_id)
  with Cons show ?case by (auto split: if_splits)
qed simp

lemma asum_retain: "asum f (retain keep al) + asum (\<lambda>v. if keep v then 0 else f v) al = asum f al"
  by (induction al) (auto simp: retain_def)

lemma asum_mono: "(\<And>k v. (k, v) \<in> set al \<Longrightarrow> f v \<le> g v) \<Longrightarrow> asum f al \<le> asum g al"
  unfolding asum_def by (rule sum_list_mono) auto

lemma asum_cong: "(\<And>k v. (k, v) \<in> set al \<Longrightarrow> f v = g v) \<Longrightarrow> asum f al = asum g al"
  unfolding asum_def by (rule arg_cong [where f = sum_list]) auto

lemma asum_length [simp]: "asum (\<lambda>_. Suc 0) al = length al"
  by (induction al) auto

lemma asum_zero [simp]: "asum (\<lambda>_. 0) al = 0"
  by (simp add: asum_def)

lemma map_of_retain:
  "distinct (map fst al) \<Longrightarrow>
    map_of (retain keep al) k = (case map_of al k of None \<Rightarrow> None | Some v \<Rightarrow> if keep v then Some v else None)"
proof (induction al)
  case (Cons e al)
  have "fst e \<notin> fst ` set al \<Longrightarrow> map_of (filter p al) (fst e) = None" for p
    by (auto simp: map_of_eq_None_iff)
  with Cons show ?case by (auto simp: retain_def)
qed (simp add: retain_def)

lemma distinct_retain [simp]: "distinct (map fst al) \<Longrightarrow> distinct (map fst (retain keep al))"
  by (simp add: retain_def distinct_map_filter)

lemma set_update_subset: "set (AList.update k v al) \<subseteq> insert (k, v) (set al)"
  by (induction al) auto

lemma set_retain: "e \<in> set (retain keep al) \<longleftrightarrow> e \<in> set al \<and> keep (snd e)"
  by (auto simp: retain_def)

lemma update_update [simp]: "AList.update k v (AList.update k w al) = AList.update k v al"
  by (induction al) auto

lemma update_append_same [simp]: "k \<notin> fst ` set al \<Longrightarrow> AList.update k v (al @ [(k, w)]) = al @ [(k, v)]"
  by (induction al) auto

lemma update_self: "map_of al k = Some v \<Longrightarrow> AList.update k v al = al"
  by (induction al) (auto split: if_splits)

lemma fst_update_Some: "map_of al k = Some w \<Longrightarrow> map fst (AList.update k v al) = map fst al"
  by (induction al) (auto split: if_splits)

lemma length_update_Some: "map_of al k = Some w \<Longrightarrow> length (AList.update k v al) = length al"
  by (induction al) (auto split: if_splits)

lemma in_update_distinct:
  "distinct (map fst al) \<Longrightarrow> map_of al k = Some w \<Longrightarrow>
    (k', v') \<in> set (AList.update k v al) \<longleftrightarrow> (if k' = k then v' = v else (k', v') \<in> set al)"
proof (induction al)
  case (Cons e al)
  have "fst e \<notin> fst ` set al" using Cons.prems by simp
  then have "(fst e, x) \<notin> set al" for x by (metis fst_conv image_eqI)
  with Cons show ?case by (cases e) (auto split: if_splits)
qed simp

lemma of_nat_diff_word: "n + m = (k :: nat) \<Longrightarrow> (of_nat n :: 'l::len word) = of_nat k - of_nat m"
  by auto

definition acount :: "('v \<Rightarrow> bool) \<Rightarrow> ('k \<times> 'v) list \<Rightarrow> nat" where
  "acount P al = length (retain P al)"

lemma acount_asum: "acount P al = asum (\<lambda>v. of_bool (P v)) al"
  by (induction al) (auto simp: acount_def retain_def)

lemma acount_retain: "acount P (retain Q al) = acount (\<lambda>v. P v \<and> Q v) al"
  by (simp add: acount_def retain_def conj_commute)

lemma acount_split: "acount P al = acount (\<lambda>v. P v \<and> Q v) al + acount (\<lambda>v. P v \<and> \<not> Q v) al"
  unfolding acount_def retain_def by (induction al) auto

lemma acount_cong: "(\<And>k v. (k, v) \<in> set al \<Longrightarrow> P v = Q v) \<Longrightarrow> acount P al = acount Q al"
  unfolding acount_asum by (rule asum_cong) auto

lemma acount_append [simp]:
  "acount P [] = 0" "acount P (al @ bl) = acount P al + acount P bl"
  "acount P (e # al) = of_bool (P (snd e)) + acount P al"
  by (simp_all add: acount_def retain_def)

text \<open>The iteration order of a hash map is some order of its entries.\<close>

definition iterates :: "('e list \<Rightarrow> 'e list) \<Rightarrow> 'e list \<Rightarrow> bool" where
  "iterates iter m = (mset (iter m) = mset m)"

lemma iterates_set: "iterates iter m \<Longrightarrow> set (iter m) = set m"
  unfolding iterates_def by (rule mset_eq_setD)

lemma iterates_distinct: "iterates iter m \<Longrightarrow> distinct (iter m) = distinct m"
  unfolding iterates_def by (rule mset_eq_imp_distinct_iff)

lemma iterates_distinct_fst: "iterates iter m \<Longrightarrow> distinct (map fst m) \<Longrightarrow> distinct (map fst (iter m))"
  using mset_eq_imp_distinct_iff [of "map fst (iter m)" "map fst m"] by (simp add: iterates_def)

lemma iterates_map_of:
  assumes "iterates iter m" "distinct (map fst m)"
  shows "map_of (iter m) = map_of m"
  using assms by (simp add: map_of_inject_set iterates_distinct_fst iterates_set)

lemma filter_key:
  "distinct (map fst m) \<Longrightarrow> filter (\<lambda>e. fst e = k) m = (case map_of m k of None \<Rightarrow> [] | Some v \<Rightarrow> [(k, v)])"
proof (induction m)
  case (Cons e m)
  have "fst e \<notin> fst ` set m \<Longrightarrow> filter (\<lambda>x. fst x = fst e) m = []"
    by (auto simp: filter_empty_conv) (metis fst_conv image_eqI)
  with Cons show ?case by (cases e) auto
qed simp

lemma filter_one: "distinct xs \<Longrightarrow> filter (\<lambda>x. x = a) xs = (if a \<in> set xs then [a] else [])"
  by (induction xs) (auto simp: filter_empty_conv)

lemma find_append: "List.find P (xs @ ys) = (case List.find P xs of None \<Rightarrow> List.find P ys | Some x \<Rightarrow> Some x)"
  by (induction xs) auto

end
