(* ===== verification/RL_Types.thy ===== *)
theory RL_Types
  imports Kong_Prelude
begin

text \<open>
  The back-end independent data of the AI gateway's quota store:
  \<open>kong-ai/src/ratelimit/types.rs\<close> (keys, windows, limits, reservations, commands and
  decisions), the error type of \<open>store.rs\<close>, the clock reading of \<open>clock.rs\<close> and the
  statistics of \<open>metrics.rs\<close>. A \<open>NonZeroU64\<close> limit is an \<open>u64\<close>; an
  \<open>Arc<str>\<close> is a \<open>string\<close>; a reservation token is the envelope it points to.
\<close>

section \<open>Keys, windows, limits and charges\<close>

definition RATE_LIMIT_SCHEMA_VERSION :: u16 where
  "RATE_LIMIT_SCHEMA_VERSION = 1"

datatype RateLimitSubject =
    VirtualKey uuid
  | Global
  | RouteSubject uuid
  | ConsumerSubject "uuid option"

record RateLimitKey =
  rk_schema_version :: u16
  rk_namespace :: string
  rk_subject :: RateLimitSubject

definition RateLimitKey_new :: "string \<Rightarrow> RateLimitSubject \<Rightarrow> RateLimitKey" where
  "RateLimitKey_new ns sub =
     \<lparr>rk_schema_version = RATE_LIMIT_SCHEMA_VERSION, rk_namespace = ns, rk_subject = sub\<rparr>"

datatype WindowAlgorithm = FixedFirstHit

record WindowSpec =
  ws_algorithm :: WindowAlgorithm
  ws_duration :: duration

definition WindowSpec_fixed :: "duration \<Rightarrow> WindowSpec" where
  "WindowSpec_fixed d = \<lparr>ws_algorithm = FixedFirstHit, ws_duration = d\<rparr>"

record QuotaLimits =
  ql_requests :: "u64 option"
  ql_tokens :: "u64 option"

record QuotaCharge =
  qc_requests :: u64
  qc_tokens :: u64

record WindowIdentity =
  wi_id :: uuid
  wi_generation :: u64

record RateLimitNow =
  now_mono :: duration
  now_wall :: system_time

section \<open>Snapshots\<close>

record WindowSnapshot =
  wn_identity :: "WindowIdentity option"
  wn_algorithm :: WindowAlgorithm
  wn_duration :: duration
  wn_started_at :: system_time
  wn_reset_at :: system_time
  wn_reset_after :: duration

record DimensionSnapshot =
  ds_limit :: u64
  ds_used :: u64
  ds_remaining :: u64

record RateLimitSnapshot =
  sn_window :: WindowSnapshot
  sn_requests :: "DimensionSnapshot option"
  sn_tokens :: "DimensionSnapshot option"

datatype ExceededDimension = Requests | Tokens | RequestsAndTokens

section \<open>Reservations, commands and decisions\<close>

record ReservationEnvelope =
  re_schema_version :: u16
  re_backend_instance_id :: uuid
  re_reservation_id :: uuid
  re_request_id :: string
  re_key :: RateLimitKey
  re_window :: WindowIdentity
  re_limits_at_admission :: QuotaLimits
  re_reserved :: QuotaCharge

type_synonym ReservationToken = ReservationEnvelope

record AdmitCommand =
  ac_request_id :: string
  ac_key :: RateLimitKey
  ac_window :: WindowSpec
  ac_limits :: QuotaLimits
  ac_reserve :: QuotaCharge

datatype AdmissionDecision =
    Allowed ReservationToken RateLimitSnapshot bool
  | Rejected ExceededDimension RateLimitSnapshot bool

fun as_replayed :: "AdmissionDecision \<Rightarrow> AdmissionDecision" where
  "as_replayed (Allowed reservation snapshot _) = Allowed reservation snapshot True"
| "as_replayed (Rejected reason snapshot _) = Rejected reason snapshot True"

record SettleCommand =
  sc_operation_id :: string
  sc_reservation :: ReservationToken
  sc_final_charge :: QuotaCharge

datatype SettlementDisposition = Applied | StaleWindowNoop | Replayed

record SettlementResult =
  sr_disposition :: SettlementDisposition
  sr_snapshot :: "RateLimitSnapshot option"

datatype InspectQuery =
    QCurrent RateLimitKey WindowSpec QuotaLimits
  | QAdmission RateLimitKey string
  | QSettlement ReservationToken string

datatype InspectResult =
    NotFound
  | RCurrent RateLimitSnapshot
  | RAdmission AdmissionDecision
  | RSettlement SettlementResult

section \<open>Errors\<close>

datatype RateLimitStoreErrorKind =
  Unavailable | Timeout | OutcomeUnknown | Overloaded | Corrupt | Unsupported

record RateLimitStoreError =
  er_kind :: RateLimitStoreErrorKind
  er_message :: string

definition corrupt_error :: "string \<Rightarrow> RateLimitStoreError" where
  "corrupt_error m = \<lparr>er_kind = Corrupt, er_message = m\<rparr>"

definition overloaded_error :: "string \<Rightarrow> RateLimitStoreError" where
  "overloaded_error m = \<lparr>er_kind = Overloaded, er_message = m\<rparr>"

lemma kind_simps [simp]: "er_kind (corrupt_error m) = Corrupt" "er_kind (overloaded_error m) = Overloaded"
  by (simp_all add: corrupt_error_def overloaded_error_def)

text \<open>
  What a call of the store can end in beside a value: an error it returns, or a panic
  (\<open>unreachable!\<close>, \<open>expect\<close>, an arithmetic underflow).
\<close>

datatype failure = Err RateLimitStoreError | Panicked

type_synonym 'a rl_result = "failure + 'a"

section \<open>Statistics\<close>

record RateLimitStoreStats =
  st_buckets :: usize
  st_idempotency_records :: usize
  st_live_reservations :: usize
  st_rejected_records :: usize
  st_recovery_records :: usize
  st_admissions_allowed :: u64
  st_admissions_rejected :: u64
  st_admission_replays :: u64
  st_settlements_applied :: u64
  st_settlements_stale :: u64
  st_settlement_replays :: u64
  st_overloads :: u64
  st_cleanup_runs :: u64
  st_cleanup_records_removed :: u64
  st_cleanup_buckets_removed :: u64

definition stats_default :: RateLimitStoreStats where
  "stats_default = \<lparr>st_buckets = 0, st_idempotency_records = 0, st_live_reservations = 0,
     st_rejected_records = 0, st_recovery_records = 0, st_admissions_allowed = 0,
     st_admissions_rejected = 0, st_admission_replays = 0, st_settlements_applied = 0,
     st_settlements_stale = 0, st_settlement_replays = 0, st_overloads = 0,
     st_cleanup_runs = 0, st_cleanup_records_removed = 0, st_cleanup_buckets_removed = 0\<rparr>"

end
