(* ===== verification/RL_Memory.thy ===== *)
theory RL_Memory
  imports RL_Types
begin

text \<open>
  The in-process quota store of \<open>kong-ai/src/ratelimit/memory.rs\<close>: fixed windows that start at
  the first hit, idempotent admission, settlement of reservations, and bounded cleanup.

  A public call (\<open>admit\<close>, \<open>settle\<close>, \<open>inspect\<close>, \<open>cleanup_now\<close>) is one atomic step on the
  store. The clock reading and the random identifiers of a call are arguments of it. A hash map is
  an association list with distinct keys; an \<open>Arc<BucketCell>\<close> is known by its \<open>bc_id\<close>,
  which the store hands out once, so that a \<open>Weak\<close> pointer upgrades exactly when the cell is still
  in the map. The poisoned branch of a lock is taken only after a panic inside a critical section;
  the operations below never panic (\<open>RL_Quota\<close>), so locks are not poisoned here.
\<close>

section \<open>Configuration\<close>

record MemoryRateLimitConfig =
  max_buckets :: usize
  max_idempotency_records :: usize
  max_records_per_bucket :: usize
  max_live_reservations :: usize
  recovery_record_headroom :: usize
  max_request_lifetime :: duration
  settlement_retry_grace :: duration
  cleanup_interval :: duration
  cleanup_scan_batch :: usize

definition config_default :: MemoryRateLimitConfig where
  "config_default = \<lparr>max_buckets = 100000, max_idempotency_records = 2000000,
     max_records_per_bucket = 100000, max_live_reservations = 200000,
     recovery_record_headroom = 50000, max_request_lifetime = from_secs (15 * 60),
     settlement_retry_grace = from_secs (5 * 60), cleanup_interval = from_secs 30,
     cleanup_scan_batch = 4096\<rparr>"

record MemoryRateLimitConfigError =
  ce_field :: string
  ce_message :: string

fun first_zero :: "(string \<times> usize) list \<Rightarrow> string option" where
  "first_zero [] = None"
| "first_zero ((f, v) # rest) = (if v = 0 then Some f else first_zero rest)"

definition validate :: "MemoryRateLimitConfig \<Rightarrow> MemoryRateLimitConfigError option" where
  "validate cfg =
     (case first_zero [(''max_buckets'', max_buckets cfg),
          (''max_idempotency_records'', max_idempotency_records cfg),
          (''max_records_per_bucket'', max_records_per_bucket cfg),
          (''max_live_reservations'', max_live_reservations cfg),
          (''cleanup_scan_batch'', cleanup_scan_batch cfg)] of
        Some f \<Rightarrow> Some \<lparr>ce_field = f, ce_message = ''must be greater than 0''\<rparr>
      | None \<Rightarrow>
          if max_idempotency_records cfg \<le> recovery_record_headroom cfg
          then Some \<lparr>ce_field = ''recovery_record_headroom'',
                 ce_message = ''must be less than max_idempotency_records''\<rparr>
          else if cleanup_interval cfg = 0
          then Some \<lparr>ce_field = ''cleanup_interval'', ce_message = ''must be greater than 0''\<rparr>
          else (case duration_checked_add (max_request_lifetime cfg) (settlement_retry_grace cfg) of
                  None \<Rightarrow> Some \<lparr>ce_field = ''max_request_lifetime'',
                    ce_message = ''overflow with settlement_retry_grace''\<rparr>
                | Some _ \<Rightarrow> None))"

section \<open>State\<close>

record WindowState =
  w_identity :: WindowIdentity
  w_spec :: WindowSpec
  w_started_wall :: system_time
  w_reset_mono :: duration
  w_reset_wall :: system_time
  w_requests_used :: u64
  w_tokens_used :: u64

record AdmitFingerprint =
  fp_window :: WindowSpec
  fp_limits :: QuotaLimits
  fp_reserve :: QuotaCharge

record SettlementRecord =
  se_operation_id :: string
  se_final_charge :: QuotaCharge
  se_result :: SettlementResult

record AdmissionRecord =
  ar_fingerprint :: AdmitFingerprint
  ar_decision :: AdmissionDecision
  ar_settlement :: "SettlementRecord option"
  ar_retain_until :: duration

record BucketState =
  active_window :: "WindowState option"
  generation :: u64
  admissions :: "(string \<times> AdmissionRecord) list"
  last_touched_mono :: duration

record BucketCell =
  bc_id :: nat
  active_ops :: usize
  cleanup_queued :: bool
  bc_state :: BucketState

record CleanupTicket =
  ct_key :: RateLimitKey
  ct_cell :: nat

record Store =
  instance_id :: uuid
  buckets :: "(RateLimitKey \<times> BucketCell) list"
  config :: MemoryRateLimitConfig
  stats :: RateLimitStoreStats
  next_cleanup_at :: duration
  cleanup_queue :: "CleanupTicket list"
  next_cell :: nat \<comment> \<open>allocator of cell identities\<close>

record MemoryCleanupReport =
  scanned_buckets :: nat
  removed_records :: nat
  removed_buckets :: nat

datatype AdmitAttempt = Decision AdmissionDecision | Capacity

definition store_new ::
    "MemoryRateLimitConfig \<Rightarrow> RateLimitNow \<Rightarrow> uuid \<Rightarrow> MemoryRateLimitConfigError + Store" where
  "store_new cfg now iid =
     (case validate cfg of
        Some e \<Rightarrow> Inl e
      | None \<Rightarrow>
          (case duration_checked_add (now_mono now) (cleanup_interval cfg) of
             None \<Rightarrow> Inl \<lparr>ce_field = ''cleanup_interval'', ce_message = ''overflow with the monotonic clock''\<rparr>
           | Some next \<Rightarrow> Inr \<lparr>instance_id = iid, buckets = [], config = cfg, stats = stats_default,
               next_cleanup_at = next, cleanup_queue = [], next_cell = 0\<rparr>))"

section \<open>Validation of commands\<close>

definition validate_key :: "RateLimitKey \<Rightarrow> RateLimitStoreError option" where
  "validate_key key =
     (if rk_schema_version key \<noteq> RATE_LIMIT_SCHEMA_VERSION
      then Some (corrupt_error ''unsupported rate limit key schema version'')
      else if rk_namespace key = []
      then Some (corrupt_error ''deployment namespace must not be empty'')
      else None)"

definition validate_window :: "WindowSpec \<Rightarrow> RateLimitStoreError option" where
  "validate_window w =
     (if ws_duration w = 0 then Some (corrupt_error ''rate limit window duration must be positive'')
      else None)"

definition validate_admit :: "AdmitCommand \<Rightarrow> RateLimitStoreError option" where
  "validate_admit command =
     (case validate_key (ac_key command) of
        Some e \<Rightarrow> Some e
      | None \<Rightarrow>
          (case validate_window (ac_window command) of
             Some e \<Rightarrow> Some e
           | None \<Rightarrow>
               if ac_request_id command = []
               then Some (corrupt_error ''rate limit request id must not be empty'')
               else None))"

definition validate_envelope :: "uuid \<Rightarrow> ReservationEnvelope \<Rightarrow> RateLimitStoreError option" where
  "validate_envelope iid envelope =
     (if re_schema_version envelope \<noteq> RATE_LIMIT_SCHEMA_VERSION
      then Some (corrupt_error ''unsupported reservation schema version'')
      else if re_backend_instance_id envelope \<noteq> iid
      then Some (corrupt_error ''reservation belongs to a different backend instance'')
      else validate_key (re_key envelope))"

section \<open>Helper functions\<close>

definition try_reserve :: "usize \<Rightarrow> usize \<Rightarrow> usize option" where
  "try_reserve counter limit = (if limit \<le> counter then None else Some (counter + 1))"

definition retention_duration :: "WindowSpec \<Rightarrow> MemoryRateLimitConfig \<Rightarrow> duration option" where
  "retention_duration window cfg =
     (case duration_checked_add (ws_duration window) (max_request_lifetime cfg) of
        None \<Rightarrow> None
      | Some d \<Rightarrow> duration_checked_add d (settlement_retry_grace cfg))"

definition adjusted_count :: "u64 \<Rightarrow> u64 \<Rightarrow> u64 \<Rightarrow> bool \<Rightarrow> u64 option" where
  "adjusted_count current reserved final_charge enabled =
     (if \<not> enabled then Some current
      else (case checked_sub current reserved of
              None \<Rightarrow> None
            | Some cnt \<Rightarrow> checked_add cnt final_charge))"

definition dimension_snapshot :: "u64 option \<Rightarrow> u64 \<Rightarrow> DimensionSnapshot option" where
  "dimension_snapshot limit used =
     map_option (\<lambda>l. \<lparr>ds_limit = l, ds_used = used, ds_remaining = saturating_sub l used\<rparr>) limit"

definition snapshot :: "WindowState \<Rightarrow> QuotaLimits \<Rightarrow> RateLimitNow \<Rightarrow> RateLimitSnapshot" where
  "snapshot window limits now =
     \<lparr>sn_window = \<lparr>wn_identity = Some (w_identity window), wn_algorithm = ws_algorithm (w_spec window),
        wn_duration = ws_duration (w_spec window), wn_started_at = w_started_wall window,
        wn_reset_at = w_reset_wall window, wn_reset_after = w_reset_mono window - now_mono now\<rparr>,
      sn_requests = dimension_snapshot (ql_requests limits) (w_requests_used window),
      sn_tokens = dimension_snapshot (ql_tokens limits) (w_tokens_used window)\<rparr>"

definition prospective_snapshot ::
    "WindowSpec \<Rightarrow> QuotaLimits \<Rightarrow> RateLimitNow \<Rightarrow> RateLimitSnapshot option" where
  "prospective_snapshot window limits now =
     map_option (\<lambda>reset_at.
       \<lparr>sn_window = \<lparr>wn_identity = None, wn_algorithm = ws_algorithm window,
          wn_duration = ws_duration window, wn_started_at = now_wall now,
          wn_reset_at = reset_at, wn_reset_after = ws_duration window\<rparr>,
        sn_requests = dimension_snapshot (ql_requests limits) 0,
        sn_tokens = dimension_snapshot (ql_tokens limits) 0\<rparr>)
     (system_time_checked_add (now_wall now) (ws_duration window))"

definition ensure_window ::
    "BucketState \<Rightarrow> WindowSpec \<Rightarrow> RateLimitNow \<Rightarrow> uuid \<Rightarrow> (WindowState \<times> BucketState) rl_result" where
  "ensure_window b spec now wid =
     (let opened =
        (if active_window b = None
         then
           (case checked_add (generation b) 1 of
              None \<Rightarrow> Inl (corrupt_error ''window generation overflow'')
            | Some gen \<Rightarrow>
                (case duration_checked_add (now_mono now) (ws_duration spec) of
                   None \<Rightarrow> Inl (corrupt_error ''window monotonic time overflow'')
                 | Some reset_mono \<Rightarrow>
                     (case system_time_checked_add (now_wall now) (ws_duration spec) of
                        None \<Rightarrow> Inl (corrupt_error ''window wall time overflow'')
                      | Some reset_wall \<Rightarrow>
                          Inr (b\<lparr>generation := gen,
                                 active_window := Some \<lparr>w_identity = \<lparr>wi_id = wid, wi_generation = gen\<rparr>, w_spec = spec,
                                   w_started_wall = now_wall now, w_reset_mono = reset_mono,
                                   w_reset_wall = reset_wall, w_requests_used = 0, w_tokens_used = 0\<rparr>\<rparr>))))
         else Inr b)
      in case opened of
           Inl e \<Rightarrow> Inl (Err e)
         | Inr b1 \<Rightarrow> (case active_window b1 of None \<Rightarrow> Inl Panicked | Some w \<Rightarrow> Inr (w, b1)))"

definition rollback_new_window :: "BucketState \<Rightarrow> bool \<Rightarrow> BucketState option" where
  "rollback_new_window b created =
     (if created
      then (case checked_sub (generation b) 1 of
              None \<Rightarrow> None
            | Some g \<Rightarrow> Some (b\<lparr>active_window := None, generation := g\<rparr>))
      else Some b)"

definition is_rejected :: "AdmissionRecord \<Rightarrow> bool" where
  "is_rejected r = (case ar_decision r of Rejected _ _ _ \<Rightarrow> True | Allowed _ _ _ \<Rightarrow> False)"

definition is_settled :: "AdmissionRecord \<Rightarrow> bool" where
  "is_settled r = (ar_settlement r \<noteq> None)"

definition removable :: "duration \<Rightarrow> AdmissionRecord \<Rightarrow> bool" where
  "removable now r = ((is_settled r \<or> is_rejected r) \<and> ar_retain_until r \<le> now)"

definition purge_expired ::
    "BucketState \<Rightarrow> duration \<Rightarrow> RateLimitStoreStats \<Rightarrow> nat \<times> BucketState \<times> RateLimitStoreStats" where
  "purge_expired b now st =
     (let aw = (case active_window b of None \<Rightarrow> None
                | Some w \<Rightarrow> if w_reset_mono w \<le> now then None else Some w);
          gone = retain (removable now) (admissions b);
          recovery = length (retain is_settled gone);
          rejected = length (retain (\<lambda>r. \<not> is_settled r) gone);
          removed = rejected + recovery
      in (removed,
          b\<lparr>active_window := aw, admissions := retain (\<lambda>r. \<not> removable now r) (admissions b)\<rparr>,
          st\<lparr>st_idempotency_records := st_idempotency_records st - of_nat removed,
             st_rejected_records := st_rejected_records st - of_nat rejected,
             st_recovery_records := st_recovery_records st - of_nat recovery\<rparr>))"

section \<open>Buckets\<close>

definition set_cell :: "Store \<Rightarrow> RateLimitKey \<Rightarrow> BucketCell \<Rightarrow> Store" where
  "set_cell s key cell = s\<lparr>buckets := AList.update key cell (buckets s)\<rparr>"

definition acquire_bucket ::
    "Store \<Rightarrow> RateLimitKey \<Rightarrow> bool \<Rightarrow> (RateLimitStoreError + BucketCell option) \<times> Store" where
  "acquire_bucket s key create =
     (case map_of (buckets s) key of
        Some cell \<Rightarrow>
          let cell' = cell\<lparr>active_ops := active_ops cell + 1\<rparr>
          in (Inr (Some cell'), set_cell s key cell')
      | None \<Rightarrow>
          if \<not> create then (Inr None, s)
          else (case try_reserve (st_buckets (stats s)) (max_buckets (config s)) of
                  None \<Rightarrow> (Inl (overloaded_error ''memory rate limit bucket capacity exhausted''), s)
                | Some n \<Rightarrow>
                    let cell = \<lparr>bc_id = next_cell s, active_ops = 1, cleanup_queued = False,
                          bc_state = \<lparr>active_window = None, generation = 0, admissions = [],
                            last_touched_mono = 0\<rparr>\<rparr>
                    in (Inr (Some cell),
                        (set_cell s key cell)\<lparr>stats := (stats s)\<lparr>st_buckets := n\<rparr>,
                          next_cell := next_cell s + 1\<rparr>)))"

definition release_lease :: "Store \<Rightarrow> RateLimitKey \<Rightarrow> Store" where
  "release_lease s key =
     (case map_of (buckets s) key of
        None \<Rightarrow> s
      | Some cell \<Rightarrow> set_cell s key (cell\<lparr>active_ops := active_ops cell - 1\<rparr>))"

definition bucket_removable :: "BucketCell \<Rightarrow> bool" where
  "bucket_removable cell =
     (active_ops cell = 0 \<and> active_window (bc_state cell) = None \<and> admissions (bc_state cell) = [])"

definition remove_empty_bucket :: "Store \<Rightarrow> RateLimitKey \<Rightarrow> Store" where
  "remove_empty_bucket s key =
     (case map_of (buckets s) key of
        None \<Rightarrow> s
      | Some cell \<Rightarrow>
          if bucket_removable cell
          then s\<lparr>buckets := AList.delete key (buckets s),
                 stats := (stats s)\<lparr>st_buckets := st_buckets (stats s) - 1\<rparr>\<rparr>
          else s)"

definition schedule_cleanup ::
    "Store \<Rightarrow> RateLimitKey \<Rightarrow> BucketCell \<Rightarrow> BucketCell \<times> Store" where
  "schedule_cleanup s key cell =
     (if cleanup_queued cell then (cell, s)
      else let cell' = cell\<lparr>cleanup_queued := True\<rparr>
           in (cell', (set_cell s key cell')
                 \<lparr>cleanup_queue := cleanup_queue s @ [\<lparr>ct_key = key, ct_cell = bc_id cell\<rparr>]\<rparr>))"

text \<open>
  A bucket operation under a lease: it runs on the locked bucket and the shared statistics, and
  the lease is dropped when it returns.
\<close>

definition run_leased ::
    "Store \<Rightarrow> RateLimitKey \<Rightarrow> BucketCell \<Rightarrow>
     (BucketState \<Rightarrow> RateLimitStoreStats \<Rightarrow> 'a \<times> BucketState \<times> RateLimitStoreStats) \<Rightarrow> 'a \<times> Store" where
  "run_leased s key cell f =
     (let (r, b, st) = f (bc_state cell) (stats s)
      in (r, release_lease ((set_cell s key (cell\<lparr>bc_state := b\<rparr>))\<lparr>stats := st\<rparr>) key))"

section \<open>Cleanup\<close>

definition upgrade :: "Store \<Rightarrow> nat \<Rightarrow> bool" where
  "upgrade s cid = list_ex (\<lambda>e. bc_id (snd e) = cid) (buckets s)"

definition clear_queued :: "Store \<Rightarrow> nat \<Rightarrow> Store" where
  "clear_queued s cid =
     s\<lparr>buckets := map (\<lambda>e. if bc_id (snd e) = cid then (fst e, (snd e)\<lparr>cleanup_queued := False\<rparr>) else e)
        (buckets s)\<rparr>"

text \<open>
  One ticket of the cleanup loop: the store after it, the number of records removed, whether the
  bucket was removed, and whether the ticket goes back to the queue.
\<close>

definition cleanup_ticket ::
    "Store \<Rightarrow> duration \<Rightarrow> CleanupTicket \<Rightarrow> Store \<times> nat \<times> nat \<times> CleanupTicket list" where
  "cleanup_ticket s now ticket =
     (if \<not> upgrade s (ct_cell ticket) then (s, 0, 0, [])
      else
        (case map_of (buckets s) (ct_key ticket) of
           None \<Rightarrow> (clear_queued s (ct_cell ticket), 0, 0, [])
         | Some cell \<Rightarrow>
             if bc_id cell \<noteq> ct_cell ticket then (clear_queued s (ct_cell ticket), 0, 0, [])
             else if active_ops cell \<noteq> 0 then (s, 0, 0, [ticket])
             else
               (let (removed, b, st) = purge_expired (bc_state cell) now (stats s);
                    cell' = cell\<lparr>bc_state := b\<rparr>;
                    s' = (set_cell s (ct_key ticket) cell')\<lparr>stats := st\<rparr>
                in if active_window b = None \<and> admissions b = []
                   then (s'\<lparr>buckets := AList.delete (ct_key ticket) (buckets s'),
                           stats := st\<lparr>st_buckets := st_buckets st - 1\<rparr>\<rparr>, removed, 1, [])
                   else (s', removed, 0, [ticket]))))"

fun cleanup_tickets ::
    "Store \<Rightarrow> duration \<Rightarrow> CleanupTicket list \<Rightarrow> Store \<times> nat \<times> nat \<times> CleanupTicket list" where
  "cleanup_tickets s now [] = (s, 0, 0, [])"
| "cleanup_tickets s now (t # ts) =
     (let (s1, r1, b1, q1) = cleanup_ticket s now t;
          (s2, r2, b2, q2) = cleanup_tickets s1 now ts
      in (s2, r1 + r2, b1 + b2, q1 @ q2))"

definition cleanup_at :: "Store \<Rightarrow> RateLimitNow \<Rightarrow> MemoryCleanupReport \<times> Store" where
  "cleanup_at s now =
     (let s0 = s\<lparr>stats := (stats s)\<lparr>st_cleanup_runs := st_cleanup_runs (stats s) + 1\<rparr>\<rparr>;
          scan_count = min (length (cleanup_queue s)) (unat (cleanup_scan_batch (config s)));
          tickets = take scan_count (cleanup_queue s);
          s1 = s0\<lparr>cleanup_queue := drop scan_count (cleanup_queue s)\<rparr>;
          (s2, records, bucks, requeue) = cleanup_tickets s1 (now_mono now) tickets
      in (\<lparr>scanned_buckets = length tickets, removed_records = records, removed_buckets = bucks\<rparr>,
          s2\<lparr>cleanup_queue := cleanup_queue s2 @ requeue,
             stats := (stats s2)
               \<lparr>st_cleanup_records_removed := st_cleanup_records_removed (stats s2) + of_nat records,
                st_cleanup_buckets_removed := st_cleanup_buckets_removed (stats s2) + of_nat bucks\<rparr>\<rparr>))"

definition cleanup_now :: "Store \<Rightarrow> RateLimitNow \<Rightarrow> MemoryCleanupReport \<times> Store" where
  "cleanup_now s now = cleanup_at s now"

definition maybe_cleanup :: "Store \<Rightarrow> RateLimitNow \<Rightarrow> Store" where
  "maybe_cleanup s now =
     (if now_mono now < next_cleanup_at s then s
      else snd (cleanup_at
        (s\<lparr>next_cleanup_at :=
             (case duration_checked_add (now_mono now) (cleanup_interval (config s)) of
                None \<Rightarrow> now_mono now | Some t \<Rightarrow> t)\<rparr>) now))"

section \<open>Admission\<close>

definition fingerprint_of :: "AdmitCommand \<Rightarrow> AdmitFingerprint" where
  "fingerprint_of command =
     \<lparr>fp_window = ac_window command, fp_limits = ac_limits command, fp_reserve = ac_reserve command\<rparr>"

definition quota_candidate :: "u64 option \<Rightarrow> u64 \<Rightarrow> u64 \<Rightarrow> u64 option" where
  "quota_candidate limit used reserve =
     (case limit of None \<Rightarrow> Some used | Some _ \<Rightarrow> checked_add used reserve)"

definition exceeds :: "u64 option \<Rightarrow> u64 \<Rightarrow> bool" where
  "exceeds limit candidate = (case limit of None \<Rightarrow> False | Some l \<Rightarrow> l < candidate)"

text \<open>\<open>None\<close> is the branch marked \<open>unreachable!\<close>.\<close>

fun exceeded_reason :: "bool \<Rightarrow> bool \<Rightarrow> ExceededDimension option" where
  "exceeded_reason True True = Some RequestsAndTokens"
| "exceeded_reason True False = Some Requests"
| "exceeded_reason False True = Some Tokens"
| "exceeded_reason False False = None"

text \<open>
  The end of \<open>admit_once\<close>, from the point where an idempotency record has been reserved:
  open the window if there is none, compute the candidate counts, reject or charge.
\<close>

definition admit_reserved ::
    "uuid \<Rightarrow> MemoryRateLimitConfig \<Rightarrow> AdmitCommand \<Rightarrow> RateLimitNow \<Rightarrow> uuid \<Rightarrow> uuid \<Rightarrow> duration \<Rightarrow>
     BucketState \<Rightarrow> RateLimitStoreStats \<Rightarrow> AdmitAttempt rl_result \<times> BucketState \<times> RateLimitStoreStats" where
  "admit_reserved iid cfg command now wid rid retain_until b st =
     (let created = (active_window b = None);
          undo = st\<lparr>st_idempotency_records := st_idempotency_records st - 1\<rparr>;
          limits = ac_limits command; reserve = ac_reserve command;
          mk_record = (\<lambda>d. \<lparr>ar_fingerprint = fingerprint_of command, ar_decision = d,
             ar_settlement = None, ar_retain_until = retain_until\<rparr>)
      in case ensure_window b (ac_window command) now wid of
           Inl (Err e) \<Rightarrow> (Inl (Err e), b, undo)
         | Inl Panicked \<Rightarrow> (Inl Panicked, b, st)
         | Inr (window, b1) \<Rightarrow>
             let roll = (\<lambda>r. case rollback_new_window b1 created of
                   None \<Rightarrow> (Inl Panicked, b1, undo) | Some b2 \<Rightarrow> (r, b2, undo))
             in case quota_candidate (ql_requests limits) (w_requests_used window) (qc_requests reserve) of
                  None \<Rightarrow> roll (Inl (Err (corrupt_error ''request quota counter overflow'')))
                | Some requests_candidate \<Rightarrow>
                    (case quota_candidate (ql_tokens limits) (w_tokens_used window) (qc_tokens reserve) of
                       None \<Rightarrow> roll (Inl (Err (corrupt_error ''token quota counter overflow'')))
                     | Some tokens_candidate \<Rightarrow>
                         let requests_exceeded = exceeds (ql_requests limits) requests_candidate;
                             tokens_exceeded = exceeds (ql_tokens limits) tokens_candidate
                         in if requests_exceeded \<or> tokens_exceeded
                            then (case exceeded_reason requests_exceeded tokens_exceeded of
                                    None \<Rightarrow> (Inl Panicked, b1, st)
                                  | Some reason \<Rightarrow>
                                      let decision = Rejected reason (snapshot window limits now) False
                                      in (Inr (Decision decision),
                                          b1\<lparr>admissions :=
                                              AList.update (ac_request_id command) (mk_record decision) (admissions b1)\<rparr>,
                                          st\<lparr>st_rejected_records := st_rejected_records st + 1,
                                             st_admissions_rejected := st_admissions_rejected st + 1\<rparr>))
                            else (case try_reserve (st_live_reservations st) (max_live_reservations cfg) of
                                    None \<Rightarrow> roll (Inr Capacity)
                                  | Some n \<Rightarrow>
                                      let window' = window\<lparr>w_requests_used := requests_candidate,
                                                           w_tokens_used := tokens_candidate\<rparr>;
                                          token = \<lparr>re_schema_version = RATE_LIMIT_SCHEMA_VERSION,
                                            re_backend_instance_id = iid, re_reservation_id = rid,
                                            re_request_id = ac_request_id command, re_key = ac_key command,
                                            re_window = w_identity window',
                                            re_limits_at_admission = limits, re_reserved = reserve\<rparr>;
                                          decision = Allowed token (snapshot window' limits now) False
                                      in (Inr (Decision decision),
                                          b1\<lparr>active_window := Some window', admissions :=
                                              AList.update (ac_request_id command) (mk_record decision) (admissions b1)\<rparr>,
                                          st\<lparr>st_live_reservations := n,
                                             st_admissions_allowed := st_admissions_allowed st + 1\<rparr>))))"

definition admit_bucket ::
    "uuid \<Rightarrow> MemoryRateLimitConfig \<Rightarrow> AdmitCommand \<Rightarrow> RateLimitNow \<Rightarrow> uuid \<Rightarrow> uuid \<Rightarrow>
     BucketState \<Rightarrow> RateLimitStoreStats \<Rightarrow> AdmitAttempt rl_result \<times> BucketState \<times> RateLimitStoreStats" where
  "admit_bucket iid cfg command now wid rid b0 st0 =
     (let (_, b, st) = purge_expired (b0\<lparr>last_touched_mono := now_mono now\<rparr>) (now_mono now) st0
      in case map_of (admissions b) (ac_request_id command) of
           Some record \<Rightarrow>
             if ar_fingerprint record \<noteq> fingerprint_of command
             then (Inl (Err (corrupt_error ''admit idempotency payload conflict'')), b, st)
             else (Inr (Decision (as_replayed (ar_decision record))), b,
                   st\<lparr>st_admission_replays := st_admission_replays st + 1\<rparr>)
         | None \<Rightarrow>
             (case retention_duration
                     (case active_window b of None \<Rightarrow> ac_window command | Some w \<Rightarrow> w_spec w) cfg of
                None \<Rightarrow> (Inl (Err (corrupt_error ''idempotency retention duration overflow'')), b, st)
              | Some retention \<Rightarrow>
                  (case duration_checked_add (now_mono now) retention of
                     None \<Rightarrow> (Inl (Err (corrupt_error ''idempotency retention overflow'')), b, st)
                   | Some retain_until \<Rightarrow>
                       if unat (max_records_per_bucket cfg) \<le> length (admissions b)
                       then (Inr Capacity, b, st)
                       else (case try_reserve (st_idempotency_records st)
                                 (saturating_sub (max_idempotency_records cfg) (recovery_record_headroom cfg)) of
                               None \<Rightarrow> (Inr Capacity, b, st)
                             | Some n \<Rightarrow>
                                 admit_reserved iid cfg command now wid rid retain_until b
                                   (st\<lparr>st_idempotency_records := n\<rparr>)))))"

definition admit_once ::
    "Store \<Rightarrow> AdmitCommand \<Rightarrow> RateLimitNow \<Rightarrow> uuid \<Rightarrow> uuid \<Rightarrow> AdmitAttempt rl_result \<times> Store" where
  "admit_once s command now wid rid =
     (case acquire_bucket s (ac_key command) True of
        (Inl e, s1) \<Rightarrow> (Inl (Err e), s1)
      | (Inr None, s1) \<Rightarrow> (Inl Panicked, s1)
      | (Inr (Some cell), s1) \<Rightarrow>
          let (cell', s2) = schedule_cleanup s1 (ac_key command) cell
          in run_leased s2 (ac_key command) cell'
               (admit_bucket (instance_id s) (config s) command now wid rid))"

definition note_overload :: "Store \<Rightarrow> Store" where
  "note_overload s = s\<lparr>stats := (stats s)\<lparr>st_overloads := st_overloads (stats s) + 1\<rparr>\<rparr>"

text \<open>
  The loop over the attempts; the end of it is marked \<open>unreachable!\<close>. \<open>ids n\<close> are the window and
  reservation identifiers that attempt \<open>n\<close> draws.
\<close>

fun admit_attempts ::
    "Store \<Rightarrow> AdmitCommand \<Rightarrow> RateLimitNow \<Rightarrow> (nat \<Rightarrow> uuid \<times> uuid) \<Rightarrow> nat list \<Rightarrow> AdmissionDecision rl_result \<times> Store" where
  "admit_attempts s command now ids [] = (Inl Panicked, s)"
| "admit_attempts s command now ids (attempt # attempts) =
     (let again = (\<lambda>s1. admit_attempts (snd (cleanup_at s1 now)) command now ids attempts)
      in case admit_once s command now (fst (ids attempt)) (snd (ids attempt)) of
           (Inr (Decision d), s1) \<Rightarrow> (Inr d, s1)
         | (Inr Capacity, s1) \<Rightarrow>
             if attempt = 0 then again s1
             else (Inl (Err (overloaded_error ''memory rate limit admission capacity exhausted'')),
                   remove_empty_bucket (note_overload s1) (ac_key command))
         | (Inl (Err e), s1) \<Rightarrow>
             if er_kind e = Overloaded \<and> attempt = 0 then again s1
             else if er_kind e = Overloaded then (Inl (Err e), note_overload s1)
             else (Inl (Err e), s1)
         | (Inl Panicked, s1) \<Rightarrow> (Inl Panicked, s1))"

definition admit ::
    "Store \<Rightarrow> AdmitCommand \<Rightarrow> RateLimitNow \<Rightarrow> (nat \<Rightarrow> uuid \<times> uuid) \<Rightarrow> AdmissionDecision rl_result \<times> Store" where
  "admit s command now ids =
     (case validate_admit command of
        Some e \<Rightarrow> (Inl (Err e), s)
      | None \<Rightarrow> admit_attempts (maybe_cleanup s now) command now ids [0, 1])"

text \<open>The loop unrolled: the first attempt and the one retry.\<close>

definition admit_retry ::
    "Store \<Rightarrow> AdmitCommand \<Rightarrow> RateLimitNow \<Rightarrow> uuid \<Rightarrow> uuid \<Rightarrow> AdmissionDecision rl_result \<times> Store" where
  "admit_retry s command now wid rid =
     (case admit_once s command now wid rid of
        (Inr (Decision d), s1) \<Rightarrow> (Inr d, s1)
      | (Inr Capacity, s1) \<Rightarrow>
          (Inl (Err (overloaded_error ''memory rate limit admission capacity exhausted'')),
           remove_empty_bucket (note_overload s1) (ac_key command))
      | (Inl (Err e), s1) \<Rightarrow> (Inl (Err e), if er_kind e = Overloaded then note_overload s1 else s1)
      | (Inl Panicked, s1) \<Rightarrow> (Inl Panicked, s1))"

lemma admit_eq:
  "admit s command now ids =
     (case validate_admit command of
        Some e \<Rightarrow> (Inl (Err e), s)
      | None \<Rightarrow>
          (let retry = (\<lambda>s1. admit_retry (snd (cleanup_at s1 now)) command now (fst (ids 1)) (snd (ids 1)))
           in case admit_once (maybe_cleanup s now) command now (fst (ids 0)) (snd (ids 0)) of
                (Inr (Decision d), s1) \<Rightarrow> (Inr d, s1)
              | (Inr Capacity, s1) \<Rightarrow> retry s1
              | (Inl (Err e), s1) \<Rightarrow> if er_kind e = Overloaded then retry s1 else (Inl (Err e), s1)
              | (Inl Panicked, s1) \<Rightarrow> (Inl Panicked, s1)))"
proof -
  have "admit_attempts s1 command now ids [1] = admit_retry s1 command now (fst (ids 1)) (snd (ids 1))" for s1
    by (simp add: admit_retry_def Let_def split: prod.split sum.split failure.split AdmitAttempt.split)
  then show ?thesis
    by (simp add: admit_def Let_def split: option.split prod.split sum.split failure.split AdmitAttempt.split)
qed

section \<open>Settlement\<close>

definition settle_window ::
    "BucketState \<Rightarrow> ReservationEnvelope \<Rightarrow> QuotaCharge \<Rightarrow> RateLimitNow \<Rightarrow>
     (SettlementResult \<times> BucketState) rl_result" where
  "settle_window b envelope final now =
     (let limits = re_limits_at_admission envelope;
          same_window =
            (case active_window b of
               None \<Rightarrow> False
             | Some window \<Rightarrow> w_identity window = re_window envelope \<and> now_mono now < w_reset_mono window)
      in if same_window
         then
           (case active_window b of
              None \<Rightarrow> Inl Panicked
            | Some window \<Rightarrow>
                (case adjusted_count (w_requests_used window) (qc_requests (re_reserved envelope))
                        (qc_requests final) (ql_requests limits \<noteq> None) of
                   None \<Rightarrow> Inl (Err (corrupt_error ''request quota settlement arithmetic invalid''))
                 | Some requests \<Rightarrow>
                     (case adjusted_count (w_tokens_used window) (qc_tokens (re_reserved envelope))
                             (qc_tokens final) (ql_tokens limits \<noteq> None) of
                        None \<Rightarrow> Inl (Err (corrupt_error ''token quota settlement arithmetic invalid''))
                      | Some tokens \<Rightarrow>
                          let window' = window\<lparr>w_requests_used := requests, w_tokens_used := tokens\<rparr>
                          in Inr (\<lparr>sr_disposition = Applied, sr_snapshot = Some (snapshot window' limits now)\<rparr>,
                                  b\<lparr>active_window := Some window'\<rparr>))))
         else Inr (\<lparr>sr_disposition = StaleWindowNoop, sr_snapshot = None\<rparr>, b))"

definition settle_bucket ::
    "MemoryRateLimitConfig \<Rightarrow> SettleCommand \<Rightarrow> RateLimitNow \<Rightarrow> BucketState \<Rightarrow> RateLimitStoreStats \<Rightarrow>
     SettlementResult rl_result \<times> BucketState \<times> RateLimitStoreStats" where
  "settle_bucket cfg command now b0 st0 =
     (let envelope = sc_reservation command;
          (_, b, st) = purge_expired (b0\<lparr>last_touched_mono := now_mono now\<rparr>) (now_mono now) st0
      in case map_of (admissions b) (re_request_id envelope) of
           None \<Rightarrow> (Inl (Err (corrupt_error ''reservation admission not found'')), b, st)
         | Some record \<Rightarrow>
             (case ar_decision record of
                Rejected _ _ _ \<Rightarrow> (Inl (Err (corrupt_error ''rejected admission has no reservation'')), b, st)
              | Allowed stored _ _ \<Rightarrow>
                  if stored \<noteq> envelope
                  then (Inl (Err (corrupt_error ''reservation token does not match admission'')), b, st)
                  else
                    (case ar_settlement record of
                       Some settlement \<Rightarrow>
                         if se_operation_id settlement \<noteq> sc_operation_id command \<or>
                            se_final_charge settlement \<noteq> sc_final_charge command
                         then (Inl (Err (corrupt_error ''settlement idempotency payload conflict'')), b, st)
                         else (Inr \<lparr>sr_disposition = Replayed, sr_snapshot = sr_snapshot (se_result settlement)\<rparr>,
                               b, st\<lparr>st_settlement_replays := st_settlement_replays st + 1\<rparr>)
                     | None \<Rightarrow>
                         (case settle_window b envelope (sc_final_charge command) now of
                            Inl e \<Rightarrow> (Inl e, b, st)
                          | Inr (result, b1) \<Rightarrow>
                              (case duration_checked_add (now_mono now) (settlement_retry_grace cfg) of
                                 None \<Rightarrow> (Inl (Err (corrupt_error ''settlement retention overflow'')), b1, st)
                               | Some retry_until \<Rightarrow>
                                   (case map_of (admissions b1) (re_request_id envelope) of
                                      None \<Rightarrow> (Inl Panicked, b1, st)
                                    | Some record1 \<Rightarrow>
                                        let record' = record1\<lparr>ar_retain_until := max (ar_retain_until record1) retry_until,
                                              ar_settlement := Some \<lparr>se_operation_id = sc_operation_id command,
                                                se_final_charge = sc_final_charge command, se_result = result\<rparr>\<rparr>;
                                            b2 = b1\<lparr>admissions :=
                                              AList.update (re_request_id envelope) record' (admissions b1)\<rparr>;
                                            st1 = st\<lparr>st_live_reservations := st_live_reservations st - 1,
                                                     st_recovery_records := st_recovery_records st + 1\<rparr>
                                        in (case sr_disposition result of
                                              Applied \<Rightarrow> (Inr result, b2,
                                                st1\<lparr>st_settlements_applied := st_settlements_applied st1 + 1\<rparr>)
                                            | StaleWindowNoop \<Rightarrow> (Inr result, b2,
                                                st1\<lparr>st_settlements_stale := st_settlements_stale st1 + 1\<rparr>)
                                            | Replayed \<Rightarrow> (Inl Panicked, b2, st1))))))))"

definition settle_inner ::
    "Store \<Rightarrow> SettleCommand \<Rightarrow> RateLimitNow \<Rightarrow> SettlementResult rl_result \<times> Store" where
  "settle_inner s command now =
     (let envelope = sc_reservation command
      in if sc_operation_id command = []
         then (Inl (Err (corrupt_error ''settlement operation id must not be empty'')), s)
         else (case validate_envelope (instance_id s) envelope of
                 Some e \<Rightarrow> (Inl (Err e), s)
               | None \<Rightarrow>
                   (case acquire_bucket s (re_key envelope) False of
                      (Inl e, s1) \<Rightarrow> (Inl (Err e), s1)
                    | (Inr None, s1) \<Rightarrow> (Inl (Err (corrupt_error ''reservation bucket no longer exists'')), s1)
                    | (Inr (Some cell), s1) \<Rightarrow>
                        run_leased s1 (re_key envelope) cell (settle_bucket (config s) command now))))"

definition settle ::
    "Store \<Rightarrow> SettleCommand \<Rightarrow> RateLimitNow \<Rightarrow> SettlementResult rl_result \<times> Store" where
  "settle s command now = settle_inner (maybe_cleanup s now) command now"

section \<open>Inspection\<close>

definition touch_purge ::
    "RateLimitNow \<Rightarrow> BucketState \<Rightarrow> RateLimitStoreStats \<Rightarrow> BucketState \<times> RateLimitStoreStats" where
  "touch_purge now b st =
     snd (purge_expired (b\<lparr>last_touched_mono := now_mono now\<rparr>) (now_mono now) st)"

definition prospective_result ::
    "WindowSpec \<Rightarrow> QuotaLimits \<Rightarrow> RateLimitNow \<Rightarrow> InspectResult rl_result" where
  "prospective_result window limits now =
     (case prospective_snapshot window limits now of
        None \<Rightarrow> Inl (Err (corrupt_error ''window wall time overflow''))
      | Some sn \<Rightarrow> Inr (RCurrent sn))"

definition inspect_settlement_record ::
    "BucketState \<Rightarrow> ReservationToken \<Rightarrow> string \<Rightarrow> InspectResult rl_result" where
  "inspect_settlement_record b reservation operation_id =
     (case map_of (admissions b) (re_request_id reservation) of
        None \<Rightarrow> Inr NotFound
      | Some record \<Rightarrow>
          (case ar_decision record of
             Rejected _ _ _ \<Rightarrow> Inl (Err (corrupt_error ''rejected admission has no reservation''))
           | Allowed stored _ _ \<Rightarrow>
               if stored \<noteq> reservation
               then Inl (Err (corrupt_error ''reservation token does not match admission''))
               else (case ar_settlement record of
                       Some settlement \<Rightarrow>
                         if se_operation_id settlement = operation_id
                         then Inr (RSettlement (se_result settlement)) else Inr NotFound
                     | None \<Rightarrow> Inr NotFound)))"

definition inspect_leased ::
    "Store \<Rightarrow> RateLimitKey \<Rightarrow> RateLimitNow \<Rightarrow> InspectResult rl_result \<Rightarrow>
     (BucketState \<Rightarrow> InspectResult rl_result) \<Rightarrow> InspectResult rl_result \<times> Store" where
  "inspect_leased s key now absent f =
     (case acquire_bucket s key False of
        (Inl e, s1) \<Rightarrow> (Inl (Err e), s1)
      | (Inr None, s1) \<Rightarrow> (absent, s1)
      | (Inr (Some cell), s1) \<Rightarrow>
          run_leased s1 key cell (\<lambda>b st. let (b', st') = touch_purge now b st in (f b', b', st')))"

fun inspect_inner ::
    "Store \<Rightarrow> InspectQuery \<Rightarrow> RateLimitNow \<Rightarrow> InspectResult rl_result \<times> Store" where
  "inspect_inner s (QCurrent key window limits) now =
     (case validate_key key of
        Some e \<Rightarrow> (Inl (Err e), s)
      | None \<Rightarrow>
          (case validate_window window of
             Some e \<Rightarrow> (Inl (Err e), s)
           | None \<Rightarrow>
               inspect_leased s key now (prospective_result window limits now)
                 (\<lambda>b. case active_window b of
                        Some active \<Rightarrow> Inr (RCurrent (snapshot active limits now))
                      | None \<Rightarrow> prospective_result window limits now)))"
| "inspect_inner s (QAdmission key request_id) now =
     (case validate_key key of
        Some e \<Rightarrow> (Inl (Err e), s)
      | None \<Rightarrow>
          if request_id = [] then (Inl (Err (corrupt_error ''rate limit request id must not be empty'')), s)
          else inspect_leased s key now (Inr NotFound)
                 (\<lambda>b. case map_of (admissions b) request_id of
                        Some record \<Rightarrow> Inr (RAdmission (as_replayed (ar_decision record)))
                      | None \<Rightarrow> Inr NotFound))"
| "inspect_inner s (QSettlement reservation operation_id) now =
     (if operation_id = []
      then (Inl (Err (corrupt_error ''settlement operation id must not be empty'')), s)
      else (case validate_envelope (instance_id s) reservation of
              Some e \<Rightarrow> (Inl (Err e), s)
            | None \<Rightarrow>
                inspect_leased s (re_key reservation) now (Inr NotFound)
                  (\<lambda>b. inspect_settlement_record b reservation operation_id)))"

definition inspect ::
    "Store \<Rightarrow> InspectQuery \<Rightarrow> RateLimitNow \<Rightarrow> InspectResult rl_result \<times> Store" where
  "inspect s query now = inspect_inner (maybe_cleanup s now) query now"

end
