(* ===== verification/RL_Bucket.thy ===== *)
theory RL_Bucket
  imports RL_Memory
begin

text \<open>
  The invariant of one bucket of the quota store and the operations that run under its lock.

  \<open>bucket_ok\<close>: request identifiers are distinct, a stored token belongs to its bucket and
  request, and the counters of the active window cover everything that its unsettled reservations
  still hold. \<open>bucket_step\<close> is what purging, admission and settlement do to a bucket as seen by
  the rest of the store: the invariant holds again, the statistics move by what the bucket gained or
  lost, and it grew only within the configured capacities.
\<close>

section \<open>Predicates\<close>

definition live :: "AdmissionRecord \<Rightarrow> bool" where
  "live r = (\<not> is_rejected r \<and> \<not> is_settled r)"

definition token_ok :: "uuid \<Rightarrow> RateLimitKey \<Rightarrow> u64 \<Rightarrow> string \<Rightarrow> AdmissionRecord \<Rightarrow> ReservationToken \<Rightarrow> bool" where
  "token_ok iid key gen q r t =
     (re_schema_version t = RATE_LIMIT_SCHEMA_VERSION \<and> re_backend_instance_id t = iid \<and>
      re_request_id t = q \<and> re_key t = key \<and> wi_generation (re_window t) \<le> gen \<and>
      re_limits_at_admission t = fp_limits (ar_fingerprint r) \<and> re_reserved t = fp_reserve (ar_fingerprint r))"

definition record_ok :: "uuid \<Rightarrow> RateLimitKey \<Rightarrow> u64 \<Rightarrow> string \<Rightarrow> AdmissionRecord \<Rightarrow> bool" where
  "record_ok iid key gen q r =
     (case ar_decision r of
        Rejected _ _ replayed \<Rightarrow> \<not> replayed \<and> \<not> is_settled r
      | Allowed t _ replayed \<Rightarrow> \<not> replayed \<and> token_ok iid key gen q r t)"

text \<open>What an unsettled reservation of window \<open>wid\<close> holds of a dimension that it is limited in.\<close>

definition share ::
    "(QuotaLimits \<Rightarrow> u64 option) \<Rightarrow> (QuotaCharge \<Rightarrow> u64) \<Rightarrow> WindowIdentity \<Rightarrow> AdmissionRecord \<Rightarrow> nat" where
  "share lim chg wid r =
     (case ar_decision r of
        Rejected _ _ _ \<Rightarrow> 0
      | Allowed t _ _ \<Rightarrow>
          if \<not> is_settled r \<and> re_window t = wid \<and> lim (re_limits_at_admission t) \<noteq> None
          then unat (chg (re_reserved t)) else 0)"

definition covered :: "WindowState \<Rightarrow> (string \<times> AdmissionRecord) list \<Rightarrow> bool" where
  "covered w al =
     (asum (share ql_requests qc_requests (w_identity w)) al \<le> unat (w_requests_used w) \<and>
      asum (share ql_tokens qc_tokens (w_identity w)) al \<le> unat (w_tokens_used w))"

definition bucket_ok :: "uuid \<Rightarrow> RateLimitKey \<Rightarrow> BucketState \<Rightarrow> bool" where
  "bucket_ok iid key b =
     (distinct (map fst (admissions b)) \<and>
      (\<forall>(q, r) \<in> set (admissions b). record_ok iid key (generation b) q r) \<and>
      (case active_window b of
         None \<Rightarrow> True
       | Some w \<Rightarrow> wi_generation (w_identity w) = generation b \<and> covered w (admissions b)))"

abbreviation n_all :: "BucketState \<Rightarrow> nat" where
  "n_all b \<equiv> length (admissions b)"

definition n_live :: "BucketState \<Rightarrow> nat" where
  "n_live b = acount live (admissions b)"

definition n_rejected :: "BucketState \<Rightarrow> nat" where
  "n_rejected b = acount is_rejected (admissions b)"

definition n_settled :: "BucketState \<Rightarrow> nat" where
  "n_settled b = acount is_settled (admissions b)"

text \<open>The statistics move by exactly what the bucket gains or loses.\<close>

definition balanced ::
    "BucketState \<Rightarrow> RateLimitStoreStats \<Rightarrow> BucketState \<Rightarrow> RateLimitStoreStats \<Rightarrow> bool" where
  "balanced b st b' st' =
     (st_buckets st' = st_buckets st \<and>
      st_idempotency_records st' + of_nat (n_all b) = st_idempotency_records st + of_nat (n_all b') \<and>
      st_live_reservations st' + of_nat (n_live b) = st_live_reservations st + of_nat (n_live b') \<and>
      st_rejected_records st' + of_nat (n_rejected b) = st_rejected_records st + of_nat (n_rejected b') \<and>
      st_recovery_records st' + of_nat (n_settled b) = st_recovery_records st + of_nat (n_settled b'))"

definition grows_within :: "nat \<Rightarrow> nat \<Rightarrow> usize \<Rightarrow> usize \<Rightarrow> bool" where
  "grows_within n n' counter cap = (n' \<le> n \<or> n' \<le> n + 1 \<and> 0 < counter \<and> counter \<le> cap)"

definition admission_capacity :: "MemoryRateLimitConfig \<Rightarrow> usize" where
  "admission_capacity cfg = saturating_sub (max_idempotency_records cfg) (recovery_record_headroom cfg)"

definition within ::
    "MemoryRateLimitConfig \<Rightarrow> BucketState \<Rightarrow> BucketState \<Rightarrow> RateLimitStoreStats \<Rightarrow> bool" where
  "within cfg b b' st' =
     (grows_within (n_all b) (n_all b') (st_idempotency_records st') (admission_capacity cfg) \<and>
      grows_within (n_live b) (n_live b') (st_live_reservations st') (max_live_reservations cfg) \<and>
      n_all b' \<le> max (n_all b) (unat (max_records_per_bucket cfg)))"

definition bucket_step ::
    "uuid \<Rightarrow> MemoryRateLimitConfig \<Rightarrow> RateLimitKey \<Rightarrow>
     BucketState \<Rightarrow> RateLimitStoreStats \<Rightarrow> BucketState \<Rightarrow> RateLimitStoreStats \<Rightarrow> bool" where
  "bucket_step iid cfg key b st b' st' =
     (bucket_ok iid key b' \<and> balanced b st b' st' \<and> within cfg b b' st')"

lemmas bucket_defs = bucket_step_def balanced_def within_def

section \<open>Purging\<close>

lemma bucket_okD:
  assumes "bucket_ok iid key b"
  shows "distinct (map fst (admissions b))"
    and "\<And>q r. (q, r) \<in> set (admissions b) \<Longrightarrow> record_ok iid key (generation b) q r"
    and "\<And>q r. map_of (admissions b) q = Some r \<Longrightarrow> record_ok iid key (generation b) q r"
  using assms by (auto simp: bucket_ok_def dest: map_of_SomeD)

lemma record_class:
  assumes "record_ok iid key gen q r"
  shows "is_rejected r \<longleftrightarrow> \<not> is_settled r \<and> \<not> live r" and "is_settled r \<Longrightarrow> \<not> is_rejected r"
  using assms by (auto simp: record_ok_def is_rejected_def live_def split: AdmissionDecision.splits)

lemma share_removable: "record_ok iid key gen q r \<Longrightarrow> removable now r \<Longrightarrow> share lim chg wid r = 0"
  by (auto simp: removable_def share_def is_rejected_def split: AdmissionDecision.splits)

lemma covered_retain:
  assumes "covered w al" shows "covered w (retain keep al)"
proof -
  have "asum f (retain keep al) \<le> asum f al" for f :: "AdmissionRecord \<Rightarrow> nat"
    using asum_retain [of f keep al] by linarith
  then show ?thesis using assms order_trans by (fastforce simp: covered_def)
qed

lemma purge_window:
  assumes "purge_expired b now st = (n, b', st')"
  shows "generation b' = generation b"
    and "admissions b' = retain (\<lambda>r. \<not> removable now r) (admissions b)"
    and "active_window b' = None \<or> active_window b' = active_window b"
    and "active_window b' = Some w \<Longrightarrow> now < w_reset_mono w"
    and "last_touched_mono b' = last_touched_mono b"
  using assms by (auto simp: purge_expired_def Let_def split: option.splits if_splits)

lemma purge_bucket_ok:
  assumes ok: "bucket_ok iid key b" and p: "purge_expired b now st = (n, b', st')"
  shows "bucket_ok iid key b'"
  using ok purge_window [OF p] by (auto simp: bucket_ok_def set_retain covered_retain split: option.splits)

lemma live_not_removable: "live r \<Longrightarrow> \<not> removable now r"
  by (auto simp: live_def removable_def)

lemma purge_counts:
  assumes ok: "bucket_ok iid key b" and p: "purge_expired b now st = (n, b', st')"
  shows "balanced b st b' st'" "n_all b' \<le> n_all b" "n_live b' = n_live b"
    "st_live_reservations st' = st_live_reservations st"
proof -
  let ?al = "admissions b" and ?rm = "removable now"
  note al' = purge_window(2) [OF p]
  have cl: "r \<in> snd ` set ?al \<Longrightarrow> is_rejected r \<longleftrightarrow> \<not> is_settled r \<and> \<not> live r" for r
    using bucket_okD(2) [OF ok] record_class(1) by fastforce
  show live: "n_live b' = n_live b"
    unfolding n_live_def al' acount_retain by (rule acount_cong) (auto dest: live_not_removable)
  have sums: "acount P ?al = acount P (admissions b') + acount (\<lambda>r. P r \<and> ?rm r) ?al" for P
    unfolding al' acount_retain by (subst acount_split [of P _ ?rm]) simp
  have all: "n_all b = n_all b' + acount ?rm ?al"
    using sums [of "\<lambda>_. True"] by (simp add: acount_def retain_def)
  then show "n_all b' \<le> n_all b" by simp
  have set: "acount is_settled (retain ?rm ?al) = acount (\<lambda>r. is_settled r \<and> ?rm r) ?al"
    by (simp add: acount_retain)
  have rej: "acount (\<lambda>r. \<not> is_settled r) (retain ?rm ?al) = acount (\<lambda>r. is_rejected r \<and> ?rm r) ?al"
    unfolding acount_retain
  proof (rule acount_cong)
    fix q r assume "(q, r) \<in> set ?al"
    then have "r \<in> snd ` set ?al" by force
    then show "(\<not> is_settled r \<and> ?rm r) = (is_rejected r \<and> ?rm r)"
      using cl live_not_removable by blast
  qed
  have n: "acount ?rm ?al = acount (\<lambda>r. is_rejected r \<and> ?rm r) ?al + acount (\<lambda>r. is_settled r \<and> ?rm r) ?al"
    using acount_split [of ?rm ?al is_settled] acount_split [of "\<lambda>_. True" "retain ?rm ?al" is_settled] rej set
    by (simp add: acount_def retain_def conj_commute)
  have st': "st' = st\<lparr>st_idempotency_records := st_idempotency_records st - of_nat (acount ?rm ?al),
      st_rejected_records := st_rejected_records st - of_nat (acount (\<lambda>r. is_rejected r \<and> ?rm r) ?al),
      st_recovery_records := st_recovery_records st - of_nat (acount (\<lambda>r. is_settled r \<and> ?rm r) ?al)\<rparr>"
    using p set rej n unfolding purge_expired_def acount_def by (auto simp: Let_def simp del: of_nat_add)
  then show "st_live_reservations st' = st_live_reservations st" by simp
  show "balanced b st b' st'"
    using sums [of is_rejected] sums [of is_settled] all live
    by (simp add: balanced_def st' n_rejected_def n_settled_def algebra_simps flip: of_nat_add)
qed

section \<open>Admission\<close>

lemma checked_add_one:
  assumes "checked_add (g :: u64) 1 = Some g'"
  shows "g' = g + 1" "g < g'" "checked_sub g' 1 = Some g"
proof -
  from assms show g': "g' = g + 1" by (auto simp: checked_add_def split: if_splits)
  from assms have "unat g + 1 < 2 ^ 64" by (auto simp: checked_add_def split: if_splits)
  then have "unat g' = unat g + 1" by (simp add: g' unat_word_ariths)
  then show "g < g'" by (simp add: word_less_nat_alt)
  then have "1 \<le> g'" by (simp add: word_less_nat_alt word_le_nat_alt)
  then show "checked_sub g' 1 = Some g" by (simp add: checked_sub_def g')
qed

lemma record_ok_mono: "record_ok iid key gen q r \<Longrightarrow> gen \<le> gen' \<Longrightarrow> record_ok iid key gen' q r"
  by (auto simp: record_ok_def token_ok_def split: AdmissionDecision.splits)

lemma share_fresh:
  "record_ok iid key gen q r \<Longrightarrow> gen < wi_generation wid \<Longrightarrow> share lim chg wid r = 0"
  by (auto simp: record_ok_def token_ok_def share_def split: AdmissionDecision.splits)

lemma ensure_window_old:
  "ensure_window b spec now wid = Inr (w, b1) \<Longrightarrow> active_window b = Some w0 \<Longrightarrow> w = w0 \<and> b1 = b"
  by (simp add: ensure_window_def)

lemma ensure_window_no_panic: "ensure_window b spec now wid \<noteq> Inl Panicked"
  by (auto simp: ensure_window_def Let_def split: option.split)

lemma ensure_window_new:
  assumes "ensure_window b spec now wid = Inr (w, b1)" "active_window b = None"
  shows "b1 = b\<lparr>generation := wi_generation (w_identity w), active_window := Some w\<rparr>"
    and "checked_add (generation b) 1 = Some (wi_generation (w_identity w))"
    and "w_requests_used w = 0" "w_tokens_used w = 0" "w_spec w = spec"
    and "w_reset_mono w = now_mono now + ws_duration spec"
  using assms by (auto simp: ensure_window_def Let_def duration_checked_add_def split: option.splits if_splits)

lemma ensure_window_ok:
  assumes e: "ensure_window b spec now wid = Inr (w, b1)" and ok: "bucket_ok iid key b"
  shows "bucket_ok iid key b1" "active_window b1 = Some w" "admissions b1 = admissions b"
    "generation b \<le> generation b1"
proof -
  have "bucket_ok iid key b1 \<and> active_window b1 = Some w \<and> admissions b1 = admissions b \<and> generation b \<le> generation b1"
  proof (cases "active_window b")
    case None
    note new = ensure_window_new [OF e None]
    have lt: "generation b < wi_generation (w_identity w)" by (rule checked_add_one(2) [OF new(2)])
    have "asum (share lim chg (w_identity w)) (admissions b) = asum (\<lambda>_. 0) (admissions b)" for lim chg
      by (rule asum_cong) (rule share_fresh [OF bucket_okD(2) [OF ok] lt])
    then have "covered w (admissions b)" by (simp add: covered_def)
    with ok lt show ?thesis
      unfolding bucket_ok_def new(1) by (auto intro: record_ok_mono)
  next
    case (Some w0)
    with ensure_window_old [OF e Some] ok show ?thesis by simp
  qed
  then show "bucket_ok iid key b1" "active_window b1 = Some w" "admissions b1 = admissions b"
    "generation b \<le> generation b1" by auto
qed

lemma rollback_restores:
  assumes "ensure_window b spec now wid = Inr (w, b1)"
  shows "rollback_new_window b1 (active_window b = None) = Some b"
proof (cases "active_window b")
  case None
  note new = ensure_window_new [OF assms None]
  with None checked_add_one(3) [OF new(2)] show ?thesis by (simp add: rollback_new_window_def)
next
  case (Some w0)
  with ensure_window_old [OF assms Some] show ?thesis by (simp add: rollback_new_window_def)
qed

definition reserved_record :: "AdmitCommand \<Rightarrow> duration \<Rightarrow> AdmissionDecision \<Rightarrow> AdmissionRecord" where
  "reserved_record command retain_until d =
     \<lparr>ar_fingerprint = fingerprint_of command, ar_decision = d, ar_settlement = None, ar_retain_until = retain_until\<rparr>"

definition charged :: "WindowState \<Rightarrow> u64 \<Rightarrow> u64 \<Rightarrow> WindowState" where
  "charged w rc tc = w\<lparr>w_requests_used := rc, w_tokens_used := tc\<rparr>"

definition issued_token :: "uuid \<Rightarrow> AdmitCommand \<Rightarrow> uuid \<Rightarrow> WindowState \<Rightarrow> ReservationToken" where
  "issued_token iid command rid w =
     \<lparr>re_schema_version = RATE_LIMIT_SCHEMA_VERSION, re_backend_instance_id = iid, re_reservation_id = rid,
      re_request_id = ac_request_id command, re_key = ac_key command, re_window = w_identity w,
      re_limits_at_admission = ac_limits command, re_reserved = ac_reserve command\<rparr>"

text \<open>The three ways \<open>admit_reserved\<close> ends: everything undone, a recorded rejection, a reservation.\<close>

lemma admit_reserved_cases:
  assumes "admit_reserved iid cfg command now wid rid ru b st = (r, b', st')"
  obtains
    (undone) "b' = b" "st' = st\<lparr>st_idempotency_records := st_idempotency_records st - 1\<rparr>"
      "r \<noteq> Inl Panicked" "\<And>d. r \<noteq> Inr (Decision d)"
  | (rejected) w b1 rc tc reason where
      "ensure_window b (ac_window command) now wid = Inr (w, b1)"
      "quota_candidate (ql_requests (ac_limits command)) (w_requests_used w) (qc_requests (ac_reserve command)) = Some rc"
      "quota_candidate (ql_tokens (ac_limits command)) (w_tokens_used w) (qc_tokens (ac_reserve command)) = Some tc"
      "exceeds (ql_requests (ac_limits command)) rc \<or> exceeds (ql_tokens (ac_limits command)) tc"
      "exceeded_reason (exceeds (ql_requests (ac_limits command)) rc) (exceeds (ql_tokens (ac_limits command)) tc) = Some reason"
      "r = Inr (Decision (Rejected reason (snapshot w (ac_limits command) now) False))"
      "b' = b1\<lparr>admissions := AList.update (ac_request_id command)
         (reserved_record command ru (Rejected reason (snapshot w (ac_limits command) now) False)) (admissions b1)\<rparr>"
      "st' = st\<lparr>st_rejected_records := st_rejected_records st + 1,
         st_admissions_rejected := st_admissions_rejected st + 1\<rparr>"
  | (allowed) w b1 rc tc n where
      "ensure_window b (ac_window command) now wid = Inr (w, b1)"
      "quota_candidate (ql_requests (ac_limits command)) (w_requests_used w) (qc_requests (ac_reserve command)) = Some rc"
      "quota_candidate (ql_tokens (ac_limits command)) (w_tokens_used w) (qc_tokens (ac_reserve command)) = Some tc"
      "\<not> exceeds (ql_requests (ac_limits command)) rc" "\<not> exceeds (ql_tokens (ac_limits command)) tc"
      "try_reserve (st_live_reservations st) (max_live_reservations cfg) = Some n"
      "r = Inr (Decision (Allowed (issued_token iid command rid w) (snapshot (charged w rc tc) (ac_limits command) now) False))"
      "b' = b1\<lparr>active_window := Some (charged w rc tc), admissions := AList.update (ac_request_id command)
         (reserved_record command ru
           (Allowed (issued_token iid command rid w) (snapshot (charged w rc tc) (ac_limits command) now) False))
         (admissions b1)\<rparr>"
      "st' = st\<lparr>st_live_reservations := n, st_admissions_allowed := st_admissions_allowed st + 1\<rparr>"
proof -
  note defs = admit_reserved_def Let_def reserved_record_def [symmetric]
  show thesis
  proof (cases "ensure_window b (ac_window command) now wid")
    case (Inl e)
    with ensure_window_no_panic [of b "ac_window command" now wid] obtain x where "e = Err x" by (cases e) auto
    with Inl assms show ?thesis by (intro undone) (auto simp: admit_reserved_def Let_def)
  next
    case (Inr p)
    obtain w b1 where p: "p = (w, b1)" by (cases p)
    note e = Inr [unfolded p]
    note rb = rollback_restores [OF e]
    let ?rc = "quota_candidate (ql_requests (ac_limits command)) (w_requests_used w) (qc_requests (ac_reserve command))"
    let ?tc = "quota_candidate (ql_tokens (ac_limits command)) (w_tokens_used w) (qc_tokens (ac_reserve command))"
    show ?thesis
    proof (cases "?rc = None \<or> ?tc = None")
      case True
      with assms e rb show ?thesis
        by (intro undone) (auto simp: admit_reserved_def Let_def split: option.splits)
    next
      case False
      then obtain rc tc where c: "?rc = Some rc" "?tc = Some tc" by auto
      let ?ex = "exceeds (ql_requests (ac_limits command)) rc \<or> exceeds (ql_tokens (ac_limits command)) tc"
      consider (x) ?ex | (f) "\<not> ?ex" "try_reserve (st_live_reservations st) (max_live_reservations cfg) = None"
        | (g) n where "\<not> ?ex" "try_reserve (st_live_reservations st) (max_live_reservations cfg) = Some n"
        by blast
      then show ?thesis
      proof cases
        case x
        then obtain reason where reason: "exceeded_reason (exceeds (ql_requests (ac_limits command)) rc) (exceeds (ql_tokens (ac_limits command)) tc) = Some reason"
          by (cases "exceeds (ql_requests (ac_limits command)) rc"; cases "exceeds (ql_tokens (ac_limits command)) tc") auto
        with assms e c x show ?thesis
          by (intro rejected [OF e c x reason])
            (auto simp: admit_reserved_def Let_def reserved_record_def split: if_splits)
      next
        case f
        with assms e c rb show ?thesis
          by (intro undone) (auto simp: admit_reserved_def Let_def)
      next
        case g
        with assms e c show ?thesis
          by (intro allowed [OF e c _ _ g(2)])
            (auto simp: admit_reserved_def Let_def reserved_record_def charged_def issued_token_def)
      qed
    qed
  qed
qed

lemma try_reserve_Some:
  assumes "try_reserve c cap = Some n" shows "n = c + 1" "0 < n" "n \<le> cap"
proof -
  from assms show n: "n = c + 1" by (auto simp: try_reserve_def split: if_splits)
  from assms have "c < cap" by (auto simp: try_reserve_def split: if_splits)
  then have "unat c + 1 \<le> unat cap" by (simp add: word_less_nat_alt)
  moreover have "unat cap < 2 ^ 64" using unsigned_less [of cap] by simp
  ultimately have "unat n = unat c + 1" by (simp add: n unat_word_ariths)
  then show "0 < n" "n \<le> cap"
    using \<open>unat c + 1 \<le> unat cap\<close> by (simp_all add: word_less_nat_alt word_le_nat_alt)
qed

lemma quota_candidate_covers:
  "quota_candidate lim used reserve = Some c \<Longrightarrow>
     unat c = unat used + (if lim \<noteq> None then unat reserve else 0)"
  by (auto simp: quota_candidate_def checked_add_def unat_word_ariths split: option.splits if_splits)

lemma reserved_record_classes [simp]:
  "is_settled (reserved_record c ru d) = False"
  "is_rejected (reserved_record c ru (Rejected a sn rp)) = True"
  "is_rejected (reserved_record c ru (Allowed t sn rp)) = False"
  "live (reserved_record c ru (Rejected a sn rp)) = False"
  "live (reserved_record c ru (Allowed t sn rp)) = True"
  by (simp_all add: is_settled_def is_rejected_def live_def reserved_record_def)

lemma charged_simps [simp]:
  "w_identity (charged w rc tc) = w_identity w" "w_requests_used (charged w rc tc) = rc"
  "w_tokens_used (charged w rc tc) = tc" "w_spec (charged w rc tc) = w_spec w"
  "w_reset_mono (charged w rc tc) = w_reset_mono w"
  by (simp_all add: charged_def)

lemma bucket_step_refl:
  assumes "bucket_ok iid key b" "st_buckets st' = st_buckets st"
    "st_idempotency_records st' = st_idempotency_records st"
    "st_live_reservations st' = st_live_reservations st"
    "st_rejected_records st' = st_rejected_records st" "st_recovery_records st' = st_recovery_records st"
  shows "bucket_step iid cfg key b st b st'"
  using assms by (simp add: bucket_defs grows_within_def)

lemma bucket_ok_touch [simp]:
  "bucket_ok iid key (b\<lparr>last_touched_mono := t\<rparr>) = bucket_ok iid key b"
  by (simp add: bucket_ok_def split: option.split)

lemma bucket_step_touch [simp]:
  "bucket_step iid cfg key (b\<lparr>last_touched_mono := t\<rparr>) st b' st' = bucket_step iid cfg key b st b' st'"
  by (simp add: bucket_defs n_live_def n_rejected_def n_settled_def)

lemma bucket_step_purge:
  assumes ok: "bucket_ok iid key b0" and p: "purge_expired b0 now st0 = (n, b, st)"
    and s: "bucket_step iid cfg key b st b' st'"
  shows "bucket_step iid cfg key b0 st0 b' st'"
proof -
  note c = purge_counts [OF ok p]
  have step: "x2 + (n :: usize) = x + n2" if "x1 + n = x + n1" "x2 + n1 = x1 + n2" for x x1 x2 n n1 n2
  proof -
    from that have "x1 = x + n1 - n" "x2 = x1 + n2 - n1" by (simp_all add: eq_diff_eq)
    then show ?thesis by simp
  qed
  have "balanced b0 st0 b' st'"
    using c(1) s unfolding bucket_step_def balanced_def
    by (elim conjE, intro conjI) (simp, (rule step, assumption, assumption)+)
  moreover have "within cfg b0 b' st'"
    using c(2,3) s unfolding bucket_step_def within_def grows_within_def by auto
  ultimately show ?thesis using s by (simp add: bucket_step_def)
qed

lemma bucket_ok_insert_rejected:
  assumes ok: "bucket_ok iid key b" and fresh: "map_of (admissions b) q = None"
  shows "bucket_ok iid key (b\<lparr>admissions := AList.update q
    (reserved_record c ru (Rejected reason sn False)) (admissions b)\<rparr>)"
  using ok fresh
  by (auto simp: bucket_ok_def update_fresh covered_def share_def reserved_record_def record_ok_def
      is_settled_def map_of_eq_None_iff split: option.splits)

lemma bucket_ok_insert_allowed:
  assumes ok: "bucket_ok iid (ac_key c) b" and fresh: "map_of (admissions b) (ac_request_id c) = None"
    and w: "active_window b = Some w"
    and q: "quota_candidate (ql_requests (ac_limits c)) (w_requests_used w) (qc_requests (ac_reserve c)) = Some rc"
      "quota_candidate (ql_tokens (ac_limits c)) (w_tokens_used w) (qc_tokens (ac_reserve c)) = Some tc"
  shows "bucket_ok iid (ac_key c) (b\<lparr>active_window := Some (charged w rc tc), admissions :=
    AList.update (ac_request_id c) (reserved_record c ru (Allowed (issued_token iid c rid w) sn False)) (admissions b)\<rparr>)"
proof -
  let ?r = "reserved_record c ru (Allowed (issued_token iid c rid w) sn False)"
  have gen: "wi_generation (w_identity w) = generation b" and cov: "covered w (admissions b)"
    using ok w by (auto simp: bucket_ok_def)
  have sh: "share lim chg (w_identity w) ?r = (if lim (ac_limits c) \<noteq> None then unat (chg (ac_reserve c)) else 0)"
    for lim chg
    by (simp add: share_def reserved_record_def issued_token_def is_settled_def)
  have "covered (charged w rc tc) (admissions b @ [(ac_request_id c, ?r)])"
    using cov quota_candidate_covers [OF q(1)] quota_candidate_covers [OF q(2)] unfolding covered_def
    by (simp add: sh)
  moreover have "record_ok iid (ac_key c) (generation b) (ac_request_id c) ?r"
    by (simp add: record_ok_def token_ok_def reserved_record_def issued_token_def fingerprint_of_def gen)
  ultimately show ?thesis
    using ok fresh gen by (auto simp: bucket_ok_def update_fresh map_of_eq_None_iff)
qed

lemma admit_reserved_step:
  assumes ok: "bucket_ok iid (ac_key command) b"
    and fresh: "map_of (admissions b) (ac_request_id command) = None"
    and room: "\<not> unat (max_records_per_bucket cfg) \<le> length (admissions b)"
    and tr: "try_reserve (st_idempotency_records st) (admission_capacity cfg) = Some n"
    and run: "admit_reserved iid cfg command now wid rid ru b (st\<lparr>st_idempotency_records := n\<rparr>) = (r, b', st')"
  shows "bucket_step iid cfg (ac_key command) b st b' st'"
  using run
proof (cases rule: admit_reserved_cases)
  case undone
  with ok try_reserve_Some(1) [OF tr] show ?thesis by (simp add: bucket_step_refl)
next
  case (rejected w b1 rc tc reason)
  note e = ensure_window_ok [OF rejected(1) ok]
  have "bucket_ok iid (ac_key command) b'"
    unfolding rejected(7) by (rule bucket_ok_insert_rejected) (use e fresh in auto)
  then show ?thesis
    using try_reserve_Some [OF tr] room fresh unfolding rejected(7,8) e(3)
    by (auto simp: bucket_defs grows_within_def update_fresh e(3) n_live_def n_rejected_def n_settled_def)
next
  case (allowed w b1 rc tc n')
  note e = ensure_window_ok [OF allowed(1) ok]
  have "bucket_ok iid (ac_key command) b'"
    unfolding allowed(8) by (rule bucket_ok_insert_allowed) (use e fresh allowed in auto)
  then show ?thesis
    using try_reserve_Some [OF tr] try_reserve_Some [OF allowed(6)] room fresh unfolding allowed(8,9) e(3)
    by (auto simp: bucket_defs grows_within_def update_fresh e(3) n_live_def n_rejected_def n_settled_def)
qed

lemma admit_bucket_step:
  assumes ok: "bucket_ok iid (ac_key command) b0"
    and run: "admit_bucket iid cfg command now wid rid b0 st0 = (r, b', st')"
  shows "bucket_step iid cfg (ac_key command) b0 st0 b' st'"
proof -
  let ?b0 = "b0\<lparr>last_touched_mono := now_mono now\<rparr>"
  obtain k b st where p: "purge_expired ?b0 (now_mono now) st0 = (k, b, st)" by (metis prod_cases3)
  have ok0: "bucket_ok iid (ac_key command) ?b0" using ok by simp
  have okb: "bucket_ok iid (ac_key command) b" by (rule purge_bucket_ok [OF ok0 p])
  have "bucket_step iid cfg (ac_key command) b st b' st'"
    using run okb unfolding admit_bucket_def p
    by (auto simp: Let_def admission_capacity_def [symmetric] intro: bucket_step_refl admit_reserved_step
        split: option.splits if_splits)
  from bucket_step_purge [OF ok0 p this] show ?thesis by simp
qed

section \<open>Settlement\<close>

lemma checked_sub_unat: "checked_sub a b = Some c \<Longrightarrow> unat c + unat b = unat (a :: 'l::len word)"
  by (auto simp: checked_sub_def unat_sub_if' word_le_nat_alt split: if_splits)

lemma checked_add_unat: "checked_add a b = Some c \<Longrightarrow> unat c = unat a + unat (b :: 'l::len word)"
  by (auto simp: checked_add_def unat_word_ariths split: if_splits)

lemma adjusted_count_unat:
  "adjusted_count cur res fin en = Some c \<Longrightarrow>
     unat c + (if en then unat res else 0) = unat cur + (if en then unat fin else 0)"
  by (auto simp: adjusted_count_def dest!: checked_sub_unat checked_add_unat split: option.splits if_splits)

definition settled_record :: "SettleCommand \<Rightarrow> SettlementResult \<Rightarrow> duration \<Rightarrow> AdmissionRecord \<Rightarrow> AdmissionRecord" where
  "settled_record command result retry_until r =
     r\<lparr>ar_retain_until := max (ar_retain_until r) retry_until,
       ar_settlement := Some \<lparr>se_operation_id = sc_operation_id command,
         se_final_charge = sc_final_charge command, se_result = result\<rparr>\<rparr>"

lemma settled_record_simps [simp]:
  "ar_decision (settled_record c res t r) = ar_decision r"
  "ar_fingerprint (settled_record c res t r) = ar_fingerprint r"
  "is_settled (settled_record c res t r) = True" "live (settled_record c res t r) = False"
  "is_rejected (settled_record c res t r) = is_rejected r"
  "share lim chg wid (settled_record c res t r) = 0"
  by (auto simp: settled_record_def is_settled_def live_def is_rejected_def share_def
      split: AdmissionDecision.split)

lemma settle_window_cases:
  assumes "settle_window b envelope final now = Inr (result, b1)"
  obtains
    (stale) "b1 = b" "result = \<lparr>sr_disposition = StaleWindowNoop, sr_snapshot = None\<rparr>"
      "\<And>w. active_window b = Some w \<Longrightarrow> w_identity w \<noteq> re_window envelope \<or> w_reset_mono w \<le> now_mono now"
  | (applied) w rq tk where
      "active_window b = Some w" "w_identity w = re_window envelope" "now_mono now < w_reset_mono w"
      "adjusted_count (w_requests_used w) (qc_requests (re_reserved envelope)) (qc_requests final)
         (ql_requests (re_limits_at_admission envelope) \<noteq> None) = Some rq"
      "adjusted_count (w_tokens_used w) (qc_tokens (re_reserved envelope)) (qc_tokens final)
         (ql_tokens (re_limits_at_admission envelope) \<noteq> None) = Some tk"
      "b1 = b\<lparr>active_window := Some (charged w rq tk)\<rparr>"
      "result = \<lparr>sr_disposition = Applied,
         sr_snapshot = Some (snapshot (charged w rq tk) (re_limits_at_admission envelope) now)\<rparr>"
  using assms unfolding settle_window_def Let_def charged_def
  by (auto split: option.splits if_splits)

lemma settle_window_no_panic: "settle_window b envelope final now \<noteq> Inl Panicked"
  by (auto simp: settle_window_def Let_def split: option.split)

text \<open>The ways \<open>settle_bucket\<close> ends on a purged bucket: nothing changes, or the record is settled.\<close>

lemma settle_bucket_cases:
  assumes run: "settle_bucket cfg command now b0 st0 = (r, b', st')"
    and clock: "now_mono now + settlement_retry_grace cfg \<le> DURATION_MAX"
    and p: "purge_expired (b0\<lparr>last_touched_mono := now_mono now\<rparr>) (now_mono now) st0 = (k, b, st)"
  obtains
    (unchanged) "b' = b" "r \<noteq> Inl Panicked" "\<And>res. r = Inr res \<Longrightarrow> sr_disposition res = Replayed"
      "st' = st \<or> st' = st\<lparr>st_settlement_replays := st_settlement_replays st + 1\<rparr>"
  | (settled) ar sn rp result b1 st1 where
      "map_of (admissions b) (re_request_id (sc_reservation command)) = Some ar"
      "ar_decision ar = Allowed (sc_reservation command) sn rp" "ar_settlement ar = None"
      "settle_window b (sc_reservation command) (sc_final_charge command) now = Inr (result, b1)"
      "r = Inr result" "b' = b1\<lparr>admissions := AList.update (re_request_id (sc_reservation command))
         (settled_record command result (now_mono now + settlement_retry_grace cfg) ar) (admissions b1)\<rparr>"
      "st1 = st\<lparr>st_live_reservations := st_live_reservations st - 1,
         st_recovery_records := st_recovery_records st + 1\<rparr>"
      "st' = st1\<lparr>st_settlements_applied := st_settlements_applied st1 + 1\<rparr> \<or>
       st' = st1\<lparr>st_settlements_stale := st_settlements_stale st1 + 1\<rparr>"
proof -
  have c: "duration_checked_add (now_mono now) (settlement_retry_grace cfg) =
      Some (now_mono now + settlement_retry_grace cfg)"
    using clock by (simp add: duration_checked_add_def)
  note body = run [unfolded settle_bucket_def p Let_def prod.case c]
  show thesis
  proof (cases "map_of (admissions b) (re_request_id (sc_reservation command))")
    case None
    with body show ?thesis by (intro unchanged) auto
  next
    case (Some ar)
    show ?thesis
    proof (cases "\<exists>sn rp. ar_decision ar = Allowed (sc_reservation command) sn rp \<and> ar_settlement ar = None")
      case False
      with body Some show ?thesis
        by (intro unchanged) (auto split: AdmissionDecision.splits option.splits if_splits)
    next
      case True
      then obtain sn rp where a: "ar_decision ar = Allowed (sc_reservation command) sn rp"
        "ar_settlement ar = None" by blast
      show ?thesis
      proof (cases "settle_window b (sc_reservation command) (sc_final_charge command) now")
        case (Inl e)
        moreover have "e \<noteq> Panicked" using settle_window_no_panic Inl by blast
        ultimately show ?thesis using body Some a by (intro unchanged) auto
      next
        case (Inr q)
        obtain result b1 where q: "q = (result, b1)" by (cases q)
        have "sr_disposition result = Applied \<or> sr_disposition result = StaleWindowNoop"
          by (rule settle_window_cases [OF Inr [unfolded q]]) auto
        moreover have "admissions b1 = admissions b" by (rule settle_window_cases [OF Inr [unfolded q]]) auto
        ultimately show ?thesis using body Some a Inr q
          by (intro settled [OF Some a _ _ _ refl]) (auto simp: settled_record_def)
      qed
    qed
  qed
qed

lemma settled_covered:
  assumes cov: "covered w al" and r: "map_of al q = Some r" and a: "ar_decision r = Allowed t sn rp"
    and ns: "ar_settlement r = None" and id: "w_identity w = re_window t"
    and adj: "adjusted_count (w_requests_used w) (qc_requests (re_reserved t)) frq (ql_requests (re_limits_at_admission t) \<noteq> None) = Some rq"
      "adjusted_count (w_tokens_used w) (qc_tokens (re_reserved t)) ftk (ql_tokens (re_limits_at_admission t) \<noteq> None) = Some tk"
  shows "covered (charged w rq tk) (AList.update q (settled_record c res u r) al)"
proof -
  have sh: "share lim chg (w_identity w) r = (if lim (re_limits_at_admission t) \<noteq> None then unat (chg (re_reserved t)) else 0)"
    for lim chg using a ns id by (simp add: share_def is_settled_def)
  have up: "asum (share lim chg (w_identity w)) (AList.update q (settled_record c res u r) al) +
      share lim chg (w_identity w) r = asum (share lim chg (w_identity w)) al" for lim chg
    using asum_update_Some [OF r, of "share lim chg (w_identity w)" "settled_record c res u r"] by simp
  show ?thesis
    using cov up [of ql_requests qc_requests] up [of ql_tokens qc_tokens]
      adjusted_count_unat [OF adj(1)] adjusted_count_unat [OF adj(2)]
    unfolding covered_def charged_simps sh by (auto split: if_splits)
qed

lemma covered_update_settled:
  assumes "covered w al" "map_of al q = Some r"
  shows "covered w (AList.update q (settled_record c res u r) al)"
  using assms asum_update_Some [OF assms(2), where v = "settled_record c res u r"]
  unfolding covered_def by (metis add_leD1 settled_record_simps(6) add_0_right)

lemma settle_bucket_step:
  assumes ok: "bucket_ok iid key b0"
    and clock: "now_mono now + settlement_retry_grace cfg \<le> DURATION_MAX"
    and run: "settle_bucket cfg command now b0 st0 = (r, b', st')"
  shows "bucket_step iid cfg key b0 st0 b' st'"
proof -
  let ?b0 = "b0\<lparr>last_touched_mono := now_mono now\<rparr>"
  obtain k b st where p: "purge_expired ?b0 (now_mono now) st0 = (k, b, st)" by (metis prod_cases3)
  have ok0: "bucket_ok iid key ?b0" using ok by simp
  have okb: "bucket_ok iid key b" by (rule purge_bucket_ok [OF ok0 p])
  have "bucket_step iid cfg key b st b' st'"
    using run clock p
  proof (cases rule: settle_bucket_cases)
    case unchanged
    with okb show ?thesis by (auto intro: bucket_step_refl)
  next
    case (settled ar sn rp result b1 st1)
    let ?r' = "settled_record command result (now_mono now + settlement_retry_grace cfg) ar"
    let ?q = "re_request_id (sc_reservation command)" and ?t = "sc_reservation command"
    note cls = record_class [OF bucket_okD(3) [OF okb settled(1)]]
    have lv: "live ar" "\<not> is_rejected ar" "\<not> is_settled ar"
      using settled(2,3) by (auto simp: live_def is_rejected_def is_settled_def)
    have adm: "admissions b1 = admissions b" "generation b1 = generation b"
      by (rule settle_window_cases [OF settled(4)]; simp)+
    have rec: "record_ok iid key (generation b) ?q ?r'"
      using bucket_okD(3) [OF okb settled(1)] settled(2)
      by (simp add: record_ok_def token_ok_def)
    have cov: "\<forall>w'. active_window b1 = Some w' \<longrightarrow>
        wi_generation (w_identity w') = generation b \<and> covered w' (AList.update ?q ?r' (admissions b))"
      using settled(4)
    proof (cases rule: settle_window_cases)
      case stale
      with okb show ?thesis by (auto simp: bucket_ok_def intro: covered_update_settled [OF _ settled(1)])
    next
      case (applied w rq tk)
      with okb show ?thesis
        by (auto simp: bucket_ok_def intro: settled_covered [OF _ settled(1,2,3)])
    qed
    have "bucket_ok iid key b'"
      using bucket_okD(1,2) [OF okb] rec cov
      by (auto simp: bucket_ok_def settled(6) adm in_update_distinct [OF bucket_okD(1) [OF okb] settled(1)]
          fst_update_Some [OF settled(1)] split: option.splits if_splits)
    moreover have counts: "n_live b = Suc (n_live b')" "n_rejected b' = n_rejected b"
        "n_settled b' = Suc (n_settled b)" "n_all b' = n_all b"
      using lv asum_update_Some [OF settled(1), of "\<lambda>v. of_bool (live v)" ?r']
        asum_update_Some [OF settled(1), of "\<lambda>v. of_bool (is_rejected v)" ?r']
        asum_update_Some [OF settled(1), of "\<lambda>v. of_bool (is_settled v)" ?r']
      by (simp_all add: settled(6) adm acount_asum n_live_def n_rejected_def n_settled_def
          length_update_Some [OF settled(1)])
    moreover have "balanced b st b' st'" "within cfg b b' st'"
      using settled(7,8) by (auto simp: balanced_def within_def grows_within_def counts)
    ultimately show ?thesis by (simp add: bucket_step_def)
  qed
  from bucket_step_purge [OF ok0 p this] show ?thesis by simp
qed

section \<open>Unsettled reservations survive\<close>

text \<open>
  \<open>spares own b b'\<close>: every unsettled reservation of \<open>b\<close> is in \<open>b'\<close> with the same
  record, except possibly those whose request is in \<open>own\<close>.
\<close>

definition spares :: "(string \<Rightarrow> bool) \<Rightarrow> BucketState \<Rightarrow> BucketState \<Rightarrow> bool" where
  "spares own b b' =
     (\<forall>q r. map_of (admissions b) q = Some r \<and> live r \<and> \<not> own q \<longrightarrow> map_of (admissions b') q = Some r)"

lemma spares_refl [simp]: "spares own b b"
  by (simp add: spares_def)

lemma spares_trans: "spares own b b' \<Longrightarrow> spares own b' b'' \<Longrightarrow> spares own b b''"
  by (simp add: spares_def)

lemma spares_touch [simp]: "spares own (b\<lparr>last_touched_mono := t\<rparr>) b' = spares own b b'"
  by (simp add: spares_def)

lemma purge_spares:
  assumes "bucket_ok iid key b" "purge_expired b now st = (n, b', st')"
  shows "spares own b b'"
  using purge_window(2) [OF assms(2)] bucket_okD(1) [OF assms(1)]
  by (auto simp: spares_def map_of_retain live_not_removable)

lemma spares_update:
  assumes "admissions b' = AList.update q r (admissions b)" "map_of (admissions b) q = None \<or> own q"
  shows "spares own b b'"
  using assms by (auto simp: spares_def update_conv')

lemma admit_reserved_spares:
  assumes fresh: "map_of (admissions b) (ac_request_id command) = None"
    and run: "admit_reserved iid cfg command now wid rid ru b st = (r, b', st')"
  shows "spares own b b'"
  using run
proof (cases rule: admit_reserved_cases)
  case (rejected w b1 rc tc reason)
  have "admissions b1 = admissions b"
    using rejected(1) ensure_window_old ensure_window_new(1) by (cases "active_window b") fastforce+
  with rejected(7) fresh show ?thesis by (intro spares_update) auto
next
  case (allowed w b1 rc tc n)
  have "admissions b1 = admissions b"
    using allowed(1) ensure_window_old ensure_window_new(1) by (cases "active_window b") fastforce+
  with allowed(8) fresh show ?thesis by (intro spares_update) auto
qed simp

lemma admit_bucket_spares:
  assumes ok: "bucket_ok iid (ac_key command) b0"
    and run: "admit_bucket iid cfg command now wid rid b0 st0 = (r, b', st')"
  shows "spares own b0 b'"
proof -
  let ?b0 = "b0\<lparr>last_touched_mono := now_mono now\<rparr>"
  obtain k b st where p: "purge_expired ?b0 (now_mono now) st0 = (k, b, st)" by (metis prod_cases3)
  have "spares own b b'"
    using run unfolding admit_bucket_def p
    by (auto simp: Let_def intro: admit_reserved_spares split: option.splits if_splits)
  moreover have "spares own ?b0 b" by (rule purge_spares [OF _ p]) (use ok in simp)
  ultimately have "spares own ?b0 b'" by (rule spares_trans [rotated])
  then show ?thesis by simp
qed

lemma settle_bucket_spares:
  assumes ok: "bucket_ok iid key b0"
    and clock: "now_mono now + settlement_retry_grace cfg \<le> DURATION_MAX"
    and run: "settle_bucket cfg command now b0 st0 = (r, b', st')"
    and own: "own (re_request_id (sc_reservation command))"
  shows "spares own b0 b'"
proof -
  let ?b0 = "b0\<lparr>last_touched_mono := now_mono now\<rparr>"
  obtain k b st where p: "purge_expired ?b0 (now_mono now) st0 = (k, b, st)" by (metis prod_cases3)
  have "spares own b b'"
    using run clock p
  proof (cases rule: settle_bucket_cases)
    case (settled ar sn rp result b1 st1)
    have "admissions b1 = admissions b" by (rule settle_window_cases [OF settled(4)]; simp)
    with settled(6) own show ?thesis by (intro spares_update) auto
  qed simp
  moreover have "spares own ?b0 b" by (rule purge_spares [OF _ p]) (use ok in simp)
  ultimately have "spares own ?b0 b'" by (rule spares_trans [rotated])
  then show ?thesis by simp
qed

end
