(* ===== verification/RL_Invariant.thy ===== *)
theory RL_Invariant
  imports RL_Bucket
begin

text \<open>
  The invariant of the whole quota store and its preservation by every public operation.
  \<open>store_ok\<close> adds to the bucket invariant what ties the buckets to the shared statistics, to
  the capacity limits and to the cleanup queue. The locale \<open>bucket_operation\<close> is the contract
  between the store and the code that runs under a bucket's lock; its lemma lifts any operation that
  meets the contract to the store.
\<close>

section \<open>The store invariant\<close>

abbreviation ticket_of :: "RateLimitKey \<Rightarrow> BucketCell \<Rightarrow> CleanupTicket" where
  "ticket_of k cell \<equiv> \<lparr>ct_key = k, ct_cell = bc_id cell\<rparr>"

definition cell_ok :: "Store \<Rightarrow> RateLimitKey \<Rightarrow> BucketCell \<Rightarrow> bool" where
  "cell_ok s k cell =
     (bucket_ok (instance_id s) k (bc_state cell) \<and> active_ops cell = 0 \<and> bc_id cell < next_cell s \<and>
      cleanup_queued cell \<and> n_all (bc_state cell) \<le> unat (max_records_per_bucket (config s)))"

definition total_of :: "(BucketState \<Rightarrow> nat) \<Rightarrow> Store \<Rightarrow> nat" where
  "total_of f s = asum (\<lambda>cell. f (bc_state cell)) (buckets s)"

definition counters_ok :: "Store \<Rightarrow> bool" where
  "counters_ok s =
     (st_buckets (stats s) = of_nat (length (buckets s)) \<and>
      st_idempotency_records (stats s) = of_nat (total_of n_all s) \<and>
      st_live_reservations (stats s) = of_nat (total_of n_live s) \<and>
      st_rejected_records (stats s) = of_nat (total_of n_rejected s) \<and>
      st_recovery_records (stats s) = of_nat (total_of n_settled s))"

definition capacity_ok :: "Store \<Rightarrow> bool" where
  "capacity_ok s =
     (length (buckets s) \<le> unat (max_buckets (config s)) \<and>
      total_of n_all s \<le> unat (admission_capacity (config s)) \<and>
      total_of n_live s \<le> unat (max_live_reservations (config s)))"

text \<open>
  \<open>T\<close> are the tickets that a running cleanup holds: every bucket has a ticket in the queue
  or there, and no ticket names the cell of another key.
\<close>

definition cell_ids :: "Store \<Rightarrow> (RateLimitKey \<times> nat) set" where
  "cell_ids s = (\<lambda>e. (fst e, bc_id (snd e))) ` set (buckets s)"

definition tickets_ok :: "CleanupTicket set \<Rightarrow> Store \<Rightarrow> bool" where
  "tickets_ok T s =
     ((\<forall>(k, i) \<in> cell_ids s. \<lparr>ct_key = k, ct_cell = i\<rparr> \<in> set (cleanup_queue s) \<union> T) \<and>
      (\<forall>t \<in> set (cleanup_queue s) \<union> T. ct_cell t < next_cell s \<and>
         (\<forall>k. (k, ct_cell t) \<in> cell_ids s \<longrightarrow> ct_key t = k)))"

definition store_ok_with :: "CleanupTicket set \<Rightarrow> Store \<Rightarrow> bool" where
  "store_ok_with T s =
     (distinct (map fst (buckets s)) \<and> (\<forall>(k, cell) \<in> set (buckets s). cell_ok s k cell) \<and>
      counters_ok s \<and> capacity_ok s \<and> tickets_ok T s)"

abbreviation store_ok :: "Store \<Rightarrow> bool" where
  "store_ok \<equiv> store_ok_with {}"

definition same_shape :: "Store \<Rightarrow> Store \<Rightarrow> bool" where
  "same_shape s s' = (instance_id s' = instance_id s \<and> config s' = config s)"

definition put :: "Store \<Rightarrow> RateLimitKey \<Rightarrow> BucketCell \<Rightarrow> BucketState \<Rightarrow> RateLimitStoreStats \<Rightarrow> Store" where
  "put s key cell b st =
     s\<lparr>buckets := AList.update key (cell\<lparr>bc_state := b\<rparr>) (buckets s), stats := st\<rparr>"

lemma same_shape_refl [simp]: "same_shape s s"
  by (simp add: same_shape_def)

lemma store_new_ok: "store_new cfg now iid = Inr s \<Longrightarrow> store_ok s"
  by (auto simp: store_new_def store_ok_with_def counters_ok_def capacity_ok_def total_of_def tickets_ok_def
      cell_ids_def stats_default_def split: option.splits)

lemma store_okD:
  assumes "store_ok_with T s" "map_of (buckets s) key = Some cell"
  shows "cell_ok s key cell" "distinct (map fst (buckets s))"
  using assms by (auto simp: store_ok_with_def dest: map_of_SomeD)

section \<open>Lookup of admission records\<close>

definition lookup_record :: "Store \<Rightarrow> RateLimitKey \<Rightarrow> string \<Rightarrow> AdmissionRecord option" where
  "lookup_record s key q =
     (case map_of (buckets s) key of None \<Rightarrow> None | Some cell \<Rightarrow> map_of (admissions (bc_state cell)) q)"

definition keeps :: "(RateLimitKey \<Rightarrow> string \<Rightarrow> bool) \<Rightarrow> Store \<Rightarrow> Store \<Rightarrow> bool" where
  "keeps own s s' =
     (\<forall>k q r. lookup_record s k q = Some r \<and> live r \<and> \<not> own k q \<longrightarrow> lookup_record s' k q = Some r)"

lemma keeps_same: "buckets s' = buckets s \<Longrightarrow> keeps own s s'"
  by (simp add: keeps_def lookup_record_def)

lemma keeps_refl [simp]: "keeps own s s"
  by (simp add: keeps_same)

lemma keeps_trans: "keeps own s s' \<Longrightarrow> keeps own s' s'' \<Longrightarrow> keeps own s s''"
  by (simp add: keeps_def)

lemma keeps_mono: "keeps own s s' \<Longrightarrow> (\<And>k q. own k q \<Longrightarrow> own' k q) \<Longrightarrow> keeps own' s s'"
  unfolding keeps_def by blast

lemma put_keeps:
  assumes "map_of (buckets s) key = Some cell" "spares (own key) (bc_state cell) b"
  shows "keeps own s (put s key cell b st)"
  using assms by (auto simp: keeps_def lookup_record_def put_def update_conv' spares_def split: option.splits)

lemma delete_keeps:
  assumes "map_of (buckets s) key = Some cell" "admissions (bc_state cell) = []"
  shows "keeps own s (s\<lparr>buckets := AList.delete key (buckets s), stats := st\<rparr>)"
  using assms by (auto simp: keeps_def lookup_record_def delete_conv' split: option.splits)

text \<open>Purging at time \<open>now\<close> retains every record that is not yet removable then.\<close>

definition retains :: "duration \<Rightarrow> Store \<Rightarrow> Store \<Rightarrow> bool" where
  "retains now s s' =
     (\<forall>k q r. lookup_record s k q = Some r \<and> \<not> removable now r \<longrightarrow> lookup_record s' k q = Some r)"

lemma retains_same: "buckets s' = buckets s \<Longrightarrow> retains now s s'"
  by (simp add: retains_def lookup_record_def)

lemma retains_trans: "retains now s s' \<Longrightarrow> retains now s' s'' \<Longrightarrow> retains now s s''"
  by (simp add: retains_def)

lemma retains_keeps: "retains now s s' \<Longrightarrow> keeps own s s'"
  by (auto simp: retains_def keeps_def live_not_removable)

lemma put_retains:
  assumes "map_of (buckets s) key = Some cell" "bucket_ok iid key (bc_state cell)"
    "purge_expired (bc_state cell) now st0 = (n, b, st')"
  shows "retains now s (put s key cell b st)"
  using assms purge_window(2) [OF assms(3)] bucket_okD(1) [OF assms(2)]
  by (auto simp: retains_def lookup_record_def put_def update_conv' map_of_retain simp del: map_of_eq_Some_iff
      split: option.splits)

lemma delete_retains:
  assumes "map_of (buckets s) key = Some cell" "admissions (bc_state cell) = []"
  shows "retains now s (s\<lparr>buckets := AList.delete key (buckets s), stats := st\<rparr>)"
  using assms by (auto simp: retains_def lookup_record_def delete_conv' split: option.splits)

section \<open>Active windows\<close>

definition window_of :: "Store \<Rightarrow> RateLimitKey \<Rightarrow> WindowState option" where
  "window_of s key =
     (case map_of (buckets s) key of None \<Rightarrow> None | Some cell \<Rightarrow> active_window (bc_state cell))"

text \<open>Windows are untouched, except that those that have expired may be gone.\<close>

definition windows_kept :: "duration \<Rightarrow> Store \<Rightarrow> Store \<Rightarrow> bool" where
  "windows_kept now s s' =
     (\<forall>k. window_of s' k = window_of s k \<or>
        (\<exists>w. window_of s k = Some w \<and> w_reset_mono w \<le> now \<and> window_of s' k = None))"

lemma windows_kept_same: "buckets s' = buckets s \<Longrightarrow> windows_kept now s s'"
  by (simp add: windows_kept_def window_of_def)

lemma windows_kept_trans: "windows_kept now s s' \<Longrightarrow> windows_kept now s' s'' \<Longrightarrow> windows_kept now s s''"
  unfolding windows_kept_def by (metis option.distinct(1))

lemma put_windows:
  assumes "map_of (buckets s) key = Some cell"
    "active_window b = active_window (bc_state cell) \<or>
     (\<exists>w. active_window (bc_state cell) = Some w \<and> w_reset_mono w \<le> now \<and> active_window b = None)"
  shows "windows_kept now s (put s key cell b st)"
  using assms by (auto simp: windows_kept_def window_of_def put_def update_conv')

lemma delete_windows:
  assumes "map_of (buckets s) key = Some cell" "active_window (bc_state cell) = None"
  shows "windows_kept now s (s\<lparr>buckets := AList.delete key (buckets s), stats := st\<rparr>)"
  using assms by (auto simp: windows_kept_def window_of_def delete_conv')

lemma purge_keeps_window:
  assumes "purge_expired b now st = (n, b', st')"
  shows "active_window b' = active_window b \<or>
    (\<exists>w. active_window b = Some w \<and> w_reset_mono w \<le> now \<and> active_window b' = None)"
  using assms by (auto simp: purge_expired_def Let_def split: option.splits if_splits)

section \<open>Replacing, adding and removing a bucket\<close>

lemma tickets_ok_mono:
  assumes "tickets_ok T s" "cell_ids s' \<subseteq> cell_ids s" "cleanup_queue s' = cleanup_queue s"
    "next_cell s' = next_cell s"
  shows "tickets_ok T s'"
  using assms by (fastforce simp: tickets_ok_def)

lemma capacity_step:
  assumes g: "grows_within n n' (of_nat t') cap" and t: "t' + n = t + n'" and c: "t \<le> unat cap"
  shows "t' \<le> unat (cap :: usize)"
  using g unfolding grows_within_def
proof
  assume "n' \<le> n" with t c show ?thesis by linarith
next
  assume a: "n' \<le> n + 1 \<and> 0 < (of_nat t' :: usize) \<and> of_nat t' \<le> cap"
  have lim: "unat cap < 2 ^ 64" using unsigned_less [of cap] by simp
  with a t c have "t' \<le> 2 ^ 64" by linarith
  moreover have "t' \<noteq> 2 ^ 64" using a by auto
  ultimately have "unat (of_nat t' :: usize) = t'" by (simp add: unat_of_nat)
  with a show ?thesis by (metis word_le_nat_alt)
qed

lemma total_put:
  "map_of (buckets s) key = Some cell \<Longrightarrow> total_of f (put s key cell b st) + f (bc_state cell) = total_of f s + f b"
  using asum_update_Some [of "buckets s" key cell "\<lambda>c. f (bc_state c)" "cell\<lparr>bc_state := b\<rparr>"]
  by (simp add: total_of_def put_def)

lemma counter_step:
  assumes "(c' :: usize) + of_nat n = c + of_nat n'" "c = of_nat t" "t' + n = t + n'"
  shows "c' = of_nat t'"
proof -
  have "c' + of_nat n = of_nat (t + n')" using assms(1,2) by simp
  also have "\<dots> = of_nat t' + of_nat n" by (simp flip: assms(3))
  finally show ?thesis by simp
qed

lemma put_ok:
  assumes ok: "store_ok_with T s" and key: "map_of (buckets s) key = Some cell"
    and st: "bucket_step (instance_id s) (config s) key (bc_state cell) (stats s) b st"
  shows "store_ok_with T (put s key cell b st)"
proof -
  let ?s' = "put s key cell b st"
  note d = store_okD [OF ok key] and tp = total_put [OF key, of _ b st]
  have els: "(k, c) \<in> set (buckets ?s') \<longleftrightarrow>
      (if k = key then c = cell\<lparr>bc_state := b\<rparr> else (k, c) \<in> set (buckets s))" for k c
    by (simp add: put_def in_update_distinct [OF d(2) key])
  have [simp]: "config ?s' = config s" "instance_id ?s' = instance_id s" "next_cell ?s' = next_cell s"
    "stats ?s' = st" "cleanup_queue ?s' = cleanup_queue s" "length (buckets ?s') = length (buckets s)"
    using key by (simp_all add: put_def length_update_Some)
  have "cell_ok ?s' k c" if "(k, c) \<in> set (buckets ?s')" for k c
    using that ok d st unfolding els
    by (auto simp: cell_ok_def store_ok_with_def bucket_step_def within_def split: if_splits)
  moreover have cnt: "counters_ok ?s'"
    using ok st counter_step [OF _ _ tp [of n_all]] counter_step [OF _ _ tp [of n_live]]
      counter_step [OF _ _ tp [of n_rejected]] counter_step [OF _ _ tp [of n_settled]]
    by (auto simp: store_ok_with_def counters_ok_def bucket_step_def balanced_def)
  moreover have "capacity_ok ?s'"
    using ok st cnt capacity_step [OF _ tp [of n_all]] capacity_step [OF _ tp [of n_live]]
    by (auto simp: store_ok_with_def capacity_ok_def counters_ok_def bucket_step_def within_def)
  moreover have "tickets_ok T ?s'"
  proof (rule tickets_ok_mono)
    show "tickets_ok T s" using ok by (simp add: store_ok_with_def)
    show "cell_ids ?s' \<subseteq> cell_ids s"
      using map_of_SomeD [OF key] by (force simp: cell_ids_def els split: if_splits)
  qed simp_all
  moreover have "distinct (map fst (buckets ?s'))"
    using d(2) by (simp add: put_def fst_update_Some [OF key])
  ultimately show ?thesis unfolding store_ok_with_def by blast
qed

lemma delete_ok:
  assumes ok: "store_ok_with T s" and key: "map_of (buckets s) key = Some cell"
    and empty: "admissions (bc_state cell) = []"
  shows "store_ok_with T (s\<lparr>buckets := AList.delete key (buckets s),
    stats := (stats s)\<lparr>st_buckets := st_buckets (stats s) - 1\<rparr>\<rparr>)" (is "store_ok_with T ?s'")
proof -
  note d = store_okD [OF ok key]
  have tot: "total_of f ?s' = total_of f s" if "f (bc_state cell) = 0" for f
    using asum_delete [OF d(2) key, of "\<lambda>c. f (bc_state c)"] that by (simp add: total_of_def)
  have z: "n_all (bc_state cell) = 0" "n_live (bc_state cell) = 0" "n_rejected (bc_state cell) = 0"
    "n_settled (bc_state cell) = 0"
    using empty by (simp_all add: n_live_def n_rejected_def n_settled_def)
  have len: "length (buckets s) = Suc (length (AList.delete key (buckets s)))"
    using asum_delete [OF d(2) key, of "\<lambda>_. Suc 0"] by simp
  have sub: "(k, c) \<in> set (AList.delete key (buckets s)) \<Longrightarrow> (k, c) \<in> set (buckets s)" for k c
    by (auto simp: AList.delete_eq)
  have "tickets_ok T ?s'"
    using ok sub by (intro tickets_ok_mono [of T s ?s']) (force simp: store_ok_with_def cell_ids_def)+
  moreover have "cell_ok ?s' k c" if "(k, c) \<in> set (AList.delete key (buckets s))" for k c
    using sub [OF that] ok by (auto simp: cell_ok_def store_ok_with_def)
  ultimately show ?thesis
    using ok len tot [of n_all, OF z(1)] tot [of n_live, OF z(2)] tot [of n_rejected, OF z(3)]
      tot [of n_settled, OF z(4)]
    unfolding store_ok_with_def counters_ok_def capacity_ok_def
    by (auto simp: AList.distinct_delete)
qed

definition new_cell :: "Store \<Rightarrow> BucketCell" where
  "new_cell s = \<lparr>bc_id = next_cell s, active_ops = 0, cleanup_queued = True,
     bc_state = \<lparr>active_window = None, generation = 0, admissions = [], last_touched_mono = 0\<rparr>\<rparr>"

definition new_bucket :: "Store \<Rightarrow> RateLimitKey \<Rightarrow> usize \<Rightarrow> Store" where
  "new_bucket s key n =
     s\<lparr>buckets := buckets s @ [(key, new_cell s)], stats := (stats s)\<lparr>st_buckets := n\<rparr>,
       cleanup_queue := cleanup_queue s @ [ticket_of key (new_cell s)], next_cell := next_cell s + 1\<rparr>"

lemma new_bucket_simps [simp]:
  "buckets (new_bucket s key n) = buckets s @ [(key, new_cell s)]"
  "config (new_bucket s key n) = config s" "instance_id (new_bucket s key n) = instance_id s"
  "stats (new_bucket s key n) = (stats s)\<lparr>st_buckets := n\<rparr>"
  "next_cell (new_bucket s key n) = Suc (next_cell s)"
  "cleanup_queue (new_bucket s key n) = cleanup_queue s @ [\<lparr>ct_key = key, ct_cell = next_cell s\<rparr>]"
  by (simp_all add: new_bucket_def new_cell_def)

lemma new_bucket_tickets:
  assumes ok: "store_ok_with T s"
  shows "tickets_ok T (new_bucket s key n)"
proof -
  have ids: "cell_ids (new_bucket s key n) = insert (key, next_cell s) (cell_ids s)"
    by (auto simp: cell_ids_def new_cell_def)
  have lt: "(k, i) \<in> cell_ids s \<Longrightarrow> i < next_cell s" for k i
    using ok by (fastforce simp: cell_ids_def store_ok_with_def cell_ok_def)
  have old: "tickets_ok T s" using ok by (simp add: store_ok_with_def)
  have ne: "ct_cell t \<noteq> next_cell s" if "t \<in> set (cleanup_queue s) \<union> T" for t
  proof -
    have "ct_cell t < next_cell s" using old that unfolding tickets_ok_def by blast
    then show ?thesis by simp
  qed
  with old lt show ?thesis unfolding tickets_ok_def ids
    by (auto simp: less_SucI)
qed

lemma new_bucket_ok:
  assumes ok: "store_ok_with T s" and key: "map_of (buckets s) key = None"
    and tr: "try_reserve (st_buckets (stats s)) (max_buckets (config s)) = Some n"
  shows "store_ok_with T (new_bucket s key n)"
proof -
  let ?s' = "new_bucket s key n"
  have tot: "total_of f ?s' = total_of f s" if "f (bc_state (new_cell s)) = 0" for f
    using that by (simp add: total_of_def)
  have z: "n_all (bc_state (new_cell s)) = 0" "n_live (bc_state (new_cell s)) = 0"
    "n_rejected (bc_state (new_cell s)) = 0" "n_settled (bc_state (new_cell s)) = 0"
    by (simp_all add: new_cell_def n_live_def n_rejected_def n_settled_def)
  note tots = tot [of n_all, OF z(1)] tot [of n_live, OF z(2)] tot [of n_rejected, OF z(3)] tot [of n_settled, OF z(4)]
  have n: "n = of_nat (Suc (length (buckets s)))"
    using try_reserve_Some(1) [OF tr] ok by (simp add: store_ok_with_def counters_ok_def)
  have "Suc (length (buckets s)) \<le> unat (max_buckets (config s))"
  proof (rule capacity_step [where n = 0 and n' = 1 and t = "length (buckets s)"])
    show "grows_within 0 1 (of_nat (Suc (length (buckets s)))) (max_buckets (config s))"
      using try_reserve_Some(2,3) [OF tr] unfolding n grows_within_def by (auto simp del: of_nat_Suc)
    show "length (buckets s) \<le> unat (max_buckets (config s))"
      using ok by (simp add: store_ok_with_def capacity_ok_def)
  qed simp
  then have "capacity_ok ?s'" using ok by (simp add: store_ok_with_def capacity_ok_def tots)
  moreover have "counters_ok ?s'"
    unfolding counters_ok_def tots using ok n by (simp add: store_ok_with_def counters_ok_def)
  moreover have "cell_ok ?s' key (new_cell s)"
    by (simp add: cell_ok_def bucket_ok_def new_cell_def)
  moreover have "cell_ok ?s' k c" if "cell_ok s k c" for k c
    using that by (simp add: cell_ok_def)
  moreover have "distinct (map fst (buckets ?s'))"
    using ok key by (simp add: store_ok_with_def map_of_eq_None_iff)
  ultimately show ?thesis
    using ok new_bucket_tickets [OF ok] unfolding store_ok_with_def by auto
qed

lemma new_bucket_keeps: "keeps own s (new_bucket s key n)"
  by (auto simp: keeps_def lookup_record_def map_add_def split: option.splits)

section \<open>Operations under a lease\<close>

definition leased :: "BucketCell \<Rightarrow> BucketCell" where
  "leased cell = cell\<lparr>active_ops := active_ops cell + 1\<rparr>"

lemma acquire_existing:
  "map_of (buckets s) key = Some cell \<Longrightarrow>
     acquire_bucket s key create = (Inr (Some (leased cell)), set_cell s key (leased cell))"
  by (simp add: acquire_bucket_def leased_def Let_def)

lemma run_leased_existing:
  assumes "op (bc_state cell) (stats s) = (r, b, st)"
  shows "run_leased (set_cell s key (leased cell)) key (leased cell) op = (r, put s key cell b st)"
  using assms by (simp add: run_leased_def release_lease_def set_cell_def leased_def put_def update_conv')

lemma admit_once_existing:
  assumes ok: "store_ok_with T s" and key: "map_of (buckets s) (ac_key command) = Some cell"
    and run: "admit_bucket (instance_id s) (config s) command now wid rid (bc_state cell) (stats s) = (r, b, st)"
  shows "admit_once s command now wid rid = (r, put s (ac_key command) cell b st)"
proof -
  have "cleanup_queued (leased cell)" using store_okD(1) [OF ok key] by (simp add: leased_def cell_ok_def)
  then show ?thesis
    using run_leased_existing [where op = "admit_bucket (instance_id s) (config s) command now wid rid", OF run]
    by (simp add: admit_once_def acquire_existing [OF key] schedule_cleanup_def)
qed

lemma admit_once_new:
  assumes key: "map_of (buckets s) (ac_key command) = None"
    and tr: "try_reserve (st_buckets (stats s)) (max_buckets (config s)) = Some n"
    and run: "admit_bucket (instance_id s) (config s) command now wid rid
      (bc_state (new_cell s)) ((stats s)\<lparr>st_buckets := n\<rparr>) = (r, b, st)"
  shows "admit_once s command now wid rid = (r, put (new_bucket s (ac_key command) n) (ac_key command) (new_cell s) b st)"
proof -
  have "ac_key command \<notin> fst ` set (buckets s)" using key by (simp add: map_of_eq_None_iff)
  with key tr run show ?thesis
    by (simp add: admit_once_def acquire_bucket_def set_cell_def schedule_cleanup_def update_fresh run_leased_def
        new_cell_def release_lease_def put_def new_bucket_def Let_def map_add_def)
qed

text \<open>
  The contract of code that runs under a bucket's lock. \<open>pre\<close> is what it needs of the clock,
  \<open>own\<close> the requests whose reservations it may settle.
\<close>

locale bucket_operation =
  fixes op :: "BucketState \<Rightarrow> RateLimitStoreStats \<Rightarrow> 'a \<times> BucketState \<times> RateLimitStoreStats"
    and iid :: uuid and cfg :: MemoryRateLimitConfig and key :: RateLimitKey and pre :: bool
    and own :: "string \<Rightarrow> bool"
  assumes step: "pre \<Longrightarrow> bucket_ok iid key b \<Longrightarrow> op b st = (r, b', st') \<Longrightarrow> bucket_step iid cfg key b st b' st'"
    and sparing: "pre \<Longrightarrow> bucket_ok iid key b \<Longrightarrow> op b st = (r, b', st') \<Longrightarrow> spares own b b'"
begin

lemma store_step:
  assumes "pre" "store_ok_with T s" "instance_id s = iid" "config s = cfg"
    "map_of (buckets s) key = Some cell" "op (bc_state cell) (stats s) = (r, b, st)"
  shows "store_ok_with T (put s key cell b st)"
proof (rule put_ok [OF assms(2,5)])
  have "bucket_ok iid key (bc_state cell)"
    using store_okD(1) [OF assms(2,5)] assms(3) by (simp add: cell_ok_def)
  then show "bucket_step (instance_id s) (config s) key (bc_state cell) (stats s) b st"
    using step [OF assms(1) _ assms(6)] assms(3,4) by simp
qed

lemma store_keeps:
  assumes "pre" "store_ok_with T s" "instance_id s = iid" "map_of (buckets s) key = Some cell"
    "op (bc_state cell) (stats s) = (r, b, st)" "\<forall>q. own q \<longrightarrow> o_key key q"
  shows "keeps o_key s (put s key cell b st)"
proof (rule put_keeps [OF assms(4)])
  have "bucket_ok iid key (bc_state cell)"
    using store_okD(1) [OF assms(2,4)] assms(3) by (simp add: cell_ok_def)
  then have "spares own (bc_state cell) b" using sparing [OF assms(1) _ assms(5)] by simp
  then show "spares (o_key key) (bc_state cell) b" using assms(6) by (auto simp: spares_def)
qed

lemma run_leased_ok:
  assumes "pre" "store_ok_with T s" "instance_id s = iid" "config s = cfg" "map_of (buckets s) key = Some cell"
    "\<forall>q. own q \<longrightarrow> o_key key q"
  shows "store_ok_with T (snd (run_leased (set_cell s key (leased cell)) key (leased cell) op))"
    and "keeps o_key s (snd (run_leased (set_cell s key (leased cell)) key (leased cell) op))"
proof -
  obtain r b st where run: "op (bc_state cell) (stats s) = (r, b, st)" by (metis prod_cases3)
  show "store_ok_with T (snd (run_leased (set_cell s key (leased cell)) key (leased cell) op))"
    unfolding run_leased_existing [of op, OF run] snd_conv by (rule store_step [OF assms(1-5) run])
  show "keeps o_key s (snd (run_leased (set_cell s key (leased cell)) key (leased cell) op))"
    unfolding run_leased_existing [of op, OF run] snd_conv 
    by (rule store_keeps [where o_key = o_key, OF assms(1-3,5) run assms(6)])
qed

end

interpretation admit_op: bucket_operation "admit_bucket iid cfg command now wid rid" iid cfg "ac_key command" True "\<lambda>_. False"
  for iid cfg command now wid rid
  by unfold_locales (erule admit_bucket_step admit_bucket_spares, assumption)+

interpretation settle_op: bucket_operation "settle_bucket cfg command now" iid cfg key
    "now_mono now + settlement_retry_grace cfg \<le> DURATION_MAX" "(=) (re_request_id (sc_reservation command))"
  for iid cfg key command now
  by unfold_locales (auto intro: settle_bucket_step settle_bucket_spares)

lemma touch_purge_step:
  assumes "bucket_ok iid key b" "touch_purge now b st = (b', st')"
  shows "bucket_step iid cfg key b st b' st'"
proof -
  let ?b = "b\<lparr>last_touched_mono := now_mono now\<rparr>"
  obtain n where p: "purge_expired ?b (now_mono now) st = (n, b', st')"
    using assms(2) unfolding touch_purge_def by (metis prod.collapse)
  have ok: "bucket_ok iid key ?b" using assms(1) by simp
  have "bucket_step iid cfg key b' st' b' st'"
    by (rule bucket_step_refl [OF purge_bucket_ok [OF ok p]]) simp_all
  from bucket_step_purge [OF ok p this] show ?thesis by simp
qed

lemma touch_purge_spares:
  assumes "bucket_ok iid key b" "touch_purge now b st = (b', st')"
  shows "spares own b b'"
proof -
  let ?b = "b\<lparr>last_touched_mono := now_mono now\<rparr>"
  obtain n where p: "purge_expired ?b (now_mono now) st = (n, b', st')"
    using assms(2) unfolding touch_purge_def by (metis prod.collapse)
  have "spares own ?b b'" by (rule purge_spares [OF _ p]) (use assms(1) in simp)
  then show ?thesis by simp
qed

interpretation inspect_op: bucket_operation "\<lambda>b st. let (b', st') = touch_purge now b st in (f b', b', st')" iid cfg key True
    "\<lambda>_. False"
  for iid cfg key now f
  by unfold_locales (auto simp: Let_def split: prod.splits intro: touch_purge_step touch_purge_spares)

section \<open>Cleanup\<close>

lemma store_ok_cong:
  assumes "store_ok_with T s" "buckets s' = buckets s" "config s' = config s" "instance_id s' = instance_id s"
    "next_cell s' = next_cell s" "set (cleanup_queue s') \<union> T' = set (cleanup_queue s) \<union> T"
    "st_buckets (stats s') = st_buckets (stats s)"
    "st_idempotency_records (stats s') = st_idempotency_records (stats s)"
    "st_live_reservations (stats s') = st_live_reservations (stats s)"
    "st_rejected_records (stats s') = st_rejected_records (stats s)"
    "st_recovery_records (stats s') = st_recovery_records (stats s)"
  shows "store_ok_with T' s'"
proof -
  have tot: "total_of f s' = total_of f s" for f by (simp add: total_of_def assms(2))
  have ids: "cell_ids s' = cell_ids s" by (simp add: cell_ids_def assms(2))
  have "cell_ok s' k c = cell_ok s k c" for k c by (simp add: cell_ok_def assms(3-5))
  moreover have "counters_ok s' = counters_ok s" unfolding counters_ok_def tot assms(2) assms(7-) by (rule refl)
  moreover have "capacity_ok s' = capacity_ok s" unfolding capacity_ok_def tot assms(2,3) by (rule refl)
  moreover have "tickets_ok T' s' = tickets_ok T s" unfolding tickets_ok_def ids assms(5,6) by (rule refl)
  ultimately show ?thesis using assms(1) unfolding store_ok_with_def assms(2) by auto
qed

lemma drop_ticket:
  assumes "store_ok_with (insert t T) s" "(ct_key t, ct_cell t) \<notin> cell_ids s"
  shows "store_ok_with T s"
proof -
  have old: "tickets_ok (insert t T) s" using assms(1) by (simp add: store_ok_with_def)
  have "\<lparr>ct_key = k, ct_cell = i\<rparr> \<in> set (cleanup_queue s) \<union> T" if "(k, i) \<in> cell_ids s" for k i
  proof -
    have "\<lparr>ct_key = k, ct_cell = i\<rparr> \<noteq> t" using that assms(2) by auto
    with old that show ?thesis unfolding tickets_ok_def by blast
  qed
  with old have "tickets_ok T s" unfolding tickets_ok_def by blast
  with assms(1) show ?thesis by (simp add: store_ok_with_def)
qed

lemma purge_step:
  assumes ok: "bucket_ok iid key b" and p: "purge_expired b now st = (n, b', st')"
  shows "bucket_step iid cfg key b st b' st'"
  by (rule bucket_step_purge [OF ok p], rule bucket_step_refl [OF purge_bucket_ok [OF ok p]]) simp_all

lemma upgrade_cell:
  assumes ok: "store_ok_with (insert t T) s" and up: "upgrade s (ct_cell t)"
  obtains cell where "map_of (buckets s) (ct_key t) = Some cell" "bc_id cell = ct_cell t"
proof -
  obtain k cell where c: "(k, cell) \<in> set (buckets s)" "bc_id cell = ct_cell t"
    using up by (auto simp: upgrade_def list_ex_iff)
  then have "(k, ct_cell t) \<in> cell_ids s" by (force simp: cell_ids_def)
  then have "ct_key t = k" using ok by (auto simp: store_ok_with_def tickets_ok_def)
  then have "map_of (buckets s) (ct_key t) = Some cell"
    using c(1) ok by (simp add: store_ok_with_def)
  with c(2) show ?thesis by (intro that)
qed

lemma cleanup_ticket_purges:
  assumes ok: "store_ok_with (insert t T) s" and up: "upgrade s (ct_cell t)"
    and p: "purge_expired (bc_state cell) now (stats s) = (n, b, st)"
    and cell: "map_of (buckets s) (ct_key t) = Some cell" "bc_id cell = ct_cell t"
  shows "cleanup_ticket s now t =
    (if active_window b = None \<and> admissions b = []
     then ((put s (ct_key t) cell b st)\<lparr>buckets := AList.delete (ct_key t) (buckets (put s (ct_key t) cell b st)),
             stats := st\<lparr>st_buckets := st_buckets st - 1\<rparr>\<rparr>, n, 1, [])
     else (put s (ct_key t) cell b st, n, 0, [t]))"
proof -
  have "active_ops cell = 0" using store_okD(1) [OF ok cell(1)] by (simp add: cell_ok_def)
  then show ?thesis using up p cell by (simp add: cleanup_ticket_def put_def set_cell_def Let_def)
qed

lemma cleanup_ticket_ok:
  assumes ok: "store_ok_with (insert t T) s" and run: "cleanup_ticket s now t = (s', r, n, q)"
  shows "store_ok_with (T \<union> set q) s' \<and> retains now s s' \<and> windows_kept now s s'"
proof (cases "upgrade s (ct_cell t)")
  case False
  then have "(ct_key t, ct_cell t) \<notin> cell_ids s"
    by (auto simp: upgrade_def list_ex_iff cell_ids_def)
  with False run drop_ticket [OF ok] show ?thesis by (simp add: cleanup_ticket_def windows_kept_same retains_same)
next
  case True
  obtain cell where c: "map_of (buckets s) (ct_key t) = Some cell" "bc_id cell = ct_cell t"
    by (rule upgrade_cell [OF ok True])
  obtain m b st where p: "purge_expired (bc_state cell) now (stats s) = (m, b, st)" by (metis prod_cases3)
  let ?s = "put s (ct_key t) cell b st"
  have bo: "bucket_ok (instance_id s) (ct_key t) (bc_state cell)"
    using store_okD(1) [OF ok c(1)] by (simp add: cell_ok_def)
  have ok1: "store_ok_with (insert t T) ?s" by (rule put_ok [OF ok c(1) purge_step [OF bo p]])
  note eq = cleanup_ticket_purges [OF ok True p c]
  have k1: "retains now s ?s" by (rule put_retains [OF c(1) bo p])
  have w1: "windows_kept now s ?s" by (rule put_windows [OF c(1) purge_keeps_window [OF p]])
  show ?thesis
  proof (cases "active_window b = None \<and> admissions b = []")
    case True
    let ?s2 = "?s\<lparr>buckets := AList.delete (ct_key t) (buckets ?s), stats := (stats ?s)\<lparr>st_buckets := st_buckets (stats ?s) - 1\<rparr>\<rparr>"
    have m: "map_of (buckets ?s) (ct_key t) = Some (cell\<lparr>bc_state := b\<rparr>)"
      by (simp add: put_def update_conv')
    then have "store_ok_with (insert t T) ?s2" by (rule delete_ok [OF ok1]) (simp add: True)
    moreover have "(ct_key t, ct_cell t) \<notin> cell_ids ?s2"
      by (auto simp: cell_ids_def AList.delete_eq)
    ultimately have "store_ok_with T ?s2" by (rule drop_ticket)
    moreover have "stats ?s = st" by (simp add: put_def)
    moreover have "retains now s ?s2" by (rule retains_trans [OF k1 delete_retains [OF m]]) (simp add: True)
    moreover have "windows_kept now s ?s2" by (rule windows_kept_trans [OF w1 delete_windows [OF m]]) (simp add: True)
    ultimately show ?thesis using run True unfolding eq by simp
  next
    case False
    with run ok1 k1 w1 show ?thesis unfolding eq by auto
  qed
qed

lemma cleanup_tickets_ok:
  "store_ok_with (set ts \<union> T) s \<Longrightarrow> cleanup_tickets s now ts = (s', r, n, q) \<Longrightarrow>
     store_ok_with (T \<union> set q) s' \<and> retains now s s' \<and> windows_kept now s s'"
proof (induction s now ts arbitrary: T s' r n q rule: cleanup_tickets.induct)
  case (2 s now t ts)
  obtain s1 r1 n1 q1 where 1: "cleanup_ticket s now t = (s1, r1, n1, q1)" by (metis prod_cases4)
  obtain s2 r2 n2 q2 where 2: "cleanup_tickets s1 now ts = (s2, r2, n2, q2)" by (metis prod_cases4)
  have "store_ok_with (insert t (set ts \<union> T)) s" using "2.prems"(1) by simp
  from cleanup_ticket_ok [OF this 1] have s1: "store_ok_with (set ts \<union> (T \<union> set q1)) s1"
      "retains now s s1" "windows_kept now s s1"
    by (simp_all add: Un_assoc)
  from "2.IH" [OF 1 [symmetric] refl refl refl s1(1)] 2
  have "store_ok_with (T \<union> set q1 \<union> set q2) s2" "retains now s1 s2" "windows_kept now s1 s2" by simp_all
  with "2.prems"(2) 1 2 retains_trans [OF s1(2)] windows_kept_trans [OF s1(3)] show ?case by (auto simp: Un_assoc)
qed (simp add: windows_kept_same retains_same)

lemma cleanup_at_ok:
  assumes ok: "store_ok s"
  shows "store_ok (snd (cleanup_at s now)) \<and> retains (now_mono now) s (snd (cleanup_at s now)) \<and>
    windows_kept (now_mono now) s (snd (cleanup_at s now))"
proof -
  define n where "n = min (length (cleanup_queue s)) (unat (cleanup_scan_batch (config s)))"
  let ?s1 = "s\<lparr>stats := (stats s)\<lparr>st_cleanup_runs := st_cleanup_runs (stats s) + 1\<rparr>,
    cleanup_queue := drop n (cleanup_queue s)\<rparr>"
  obtain s2 r m q where run: "cleanup_tickets ?s1 (now_mono now) (take n (cleanup_queue s)) = (s2, r, m, q)"
    by (metis prod_cases4)
  have "store_ok_with (set (take n (cleanup_queue s)) \<union> {}) ?s1"
  proof (rule store_ok_cong [OF ok])
    show "set (cleanup_queue ?s1) \<union> (set (take n (cleanup_queue s)) \<union> {}) = set (cleanup_queue s) \<union> {}"
      using set_append [of "take n (cleanup_queue s)" "drop n (cleanup_queue s)"] by auto
  qed simp_all
  from cleanup_tickets_ok [OF this run] have s2: "store_ok_with (set q) s2" "retains (now_mono now) ?s1 s2"
    "windows_kept (now_mono now) ?s1 s2" by simp_all
  from s2(1) have "store_ok (s2\<lparr>cleanup_queue := cleanup_queue s2 @ q, stats := (stats s2)
     \<lparr>st_cleanup_records_removed := st_cleanup_records_removed (stats s2) + of_nat r,
      st_cleanup_buckets_removed := st_cleanup_buckets_removed (stats s2) + of_nat m\<rparr>\<rparr>)"
    by (rule store_ok_cong) auto
  with run s2(2,3) show ?thesis
    by (simp add: cleanup_at_def Let_def n_def [symmetric] retains_def lookup_record_def windows_kept_def window_of_def)
qed

lemma maybe_cleanup_ok:
  assumes "store_ok s"
  shows "store_ok (maybe_cleanup s now) \<and> retains (now_mono now) s (maybe_cleanup s now) \<and>
    windows_kept (now_mono now) s (maybe_cleanup s now)"
proof -
  have "store_ok (s\<lparr>next_cleanup_at := t\<rparr>)" for t by (rule store_ok_cong [OF assms]) simp_all
  from cleanup_at_ok [OF this] assms show ?thesis
    by (simp add: maybe_cleanup_def retains_def lookup_record_def windows_kept_def window_of_def)
qed

lemma remove_empty_bucket_ok:
  assumes "store_ok s"
  shows "store_ok (remove_empty_bucket s key) \<and> keeps own s (remove_empty_bucket s key)"
  using assms delete_ok [OF assms] delete_keeps
  by (auto simp: remove_empty_bucket_def bucket_removable_def split: option.splits)

section \<open>Identity and configuration never change\<close>

lemma put_shape [simp]: "same_shape s (put s' key cell b st) = same_shape s s'"
  by (simp add: same_shape_def put_def)

lemma set_cell_shape [simp]: "same_shape s (set_cell s' key cell) = same_shape s s'"
  by (simp add: same_shape_def set_cell_def)

lemma new_bucket_shape [simp]: "same_shape s (new_bucket s' key n) = same_shape s s'"
  by (simp add: same_shape_def)

lemma same_shape_trans: "same_shape s s' \<Longrightarrow> same_shape s' s'' \<Longrightarrow> same_shape s s''"
  by (simp add: same_shape_def)

lemma same_shape_upd [simp]:
  "same_shape s (s'\<lparr>buckets := bs\<rparr>) = same_shape s s'" "same_shape s (s'\<lparr>stats := st\<rparr>) = same_shape s s'"
  "same_shape s (s'\<lparr>cleanup_queue := q\<rparr>) = same_shape s s'" "same_shape s (s'\<lparr>next_cell := n\<rparr>) = same_shape s s'"
  "same_shape s (s'\<lparr>next_cleanup_at := t\<rparr>) = same_shape s s'"
  by (simp_all add: same_shape_def)

lemma cleanup_ticket_shape: "cleanup_ticket s now t = (s', x) \<Longrightarrow> same_shape s s'"
  unfolding cleanup_ticket_def clear_queued_def
  by (cases "purge_expired (bc_state (the (map_of (buckets s) (ct_key t)))) now (stats s)")
    (auto simp: Let_def split: if_splits option.splits)

lemma cleanup_tickets_shape: "cleanup_tickets s now ts = (s', x) \<Longrightarrow> same_shape s s'"
proof (induction s now ts arbitrary: s' x rule: cleanup_tickets.induct)
  case (2 s now t ts)
  then show ?case by (auto simp: Let_def split: prod.splits intro: same_shape_trans dest: cleanup_ticket_shape)
qed simp

lemma cleanup_at_shape: "same_shape s (snd (cleanup_at s now))"
  unfolding cleanup_at_def Let_def
  by (auto split: prod.splits dest!: cleanup_tickets_shape simp: same_shape_def)

lemma maybe_cleanup_shape: "same_shape s (maybe_cleanup s now)"
  using cleanup_at_shape by (auto simp: maybe_cleanup_def same_shape_def)

lemma remove_empty_bucket_shape [simp]: "same_shape s (remove_empty_bucket s' key) = same_shape s s'"
  by (auto simp: remove_empty_bucket_def split: option.split)

lemma run_leased_shape: "same_shape s (snd (run_leased s key cell f))"
  unfolding run_leased_def release_lease_def by (auto simp: Let_def split: prod.splits option.splits)

lemma leased_shape [simp]: "same_shape s (snd (run_leased (set_cell s key c) k cell f))"
  using run_leased_shape [of "set_cell s key c"] by (simp add: same_shape_def set_cell_def)

section \<open>The public operations keep the invariant\<close>

text \<open>
  What a store operation promises: the invariant again, on the same instance and configuration, and
  that it keeps every unsettled reservation except those of the requests it owns.
\<close>

definition safe :: "(RateLimitKey \<Rightarrow> string \<Rightarrow> bool) \<Rightarrow> Store \<Rightarrow> Store \<Rightarrow> bool" where
  "safe own s s' = (store_ok s' \<and> same_shape s s' \<and> keeps own s s')"

lemma safeD: "safe own s s' \<Longrightarrow> store_ok s'" "safe own s s' \<Longrightarrow> instance_id s' = instance_id s"
  "safe own s s' \<Longrightarrow> config s' = config s" "safe own s s' \<Longrightarrow> keeps own s s'"
  by (simp_all add: safe_def same_shape_def)

lemma safe_trans: "safe own s s' \<Longrightarrow> safe own s' s'' \<Longrightarrow> safe own s s''"
  by (auto simp: safe_def intro: same_shape_trans keeps_trans)

lemma safe_refl: "store_ok s \<Longrightarrow> safe own s s"
  by (simp add: safe_def)

lemma admit_once_safe:
  assumes ok: "store_ok s" shows "safe own s (snd (admit_once s command now wid rid))"
proof (cases "map_of (buckets s) (ac_key command)")
  case (Some cell)
  obtain r b st where run: "admit_bucket (instance_id s) (config s) command now wid rid (bc_state cell) (stats s) = (r, b, st)"
    by (metis prod_cases3)
  show ?thesis
    using admit_op.store_step [OF TrueI ok refl refl Some run] admit_op.store_keeps [OF TrueI ok refl Some run]
      admit_once_existing [OF ok Some run]
    by (simp add: safe_def)
next
  case None
  show ?thesis
  proof (cases "try_reserve (st_buckets (stats s)) (max_buckets (config s))")
    case None
    with \<open>map_of _ _ = None\<close> ok show ?thesis by (simp add: admit_once_def acquire_bucket_def safe_refl)
  next
    case (Some n)
    let ?s = "new_bucket s (ac_key command) n"
    obtain r b st where run: "admit_bucket (instance_id s) (config s) command now wid rid
        (bc_state (new_cell s)) ((stats s)\<lparr>st_buckets := n\<rparr>) = (r, b, st)"
      by (metis prod_cases3)
    have m: "map_of (buckets ?s) (ac_key command) = Some (new_cell s)" using None by (simp add: map_add_def)
    have new: "store_ok ?s" by (rule new_bucket_ok [OF ok None Some])
    have "store_ok (put ?s (ac_key command) (new_cell s) b st)"
      by (rule admit_op.store_step [OF TrueI new _ _ m]) (use run in simp_all)
    moreover have "keeps own ?s (put ?s (ac_key command) (new_cell s) b st)"
      by (rule admit_op.store_keeps [OF TrueI new _ m]) (use run in simp_all)
    ultimately show ?thesis
      using admit_once_new [OF None Some run] keeps_trans [OF new_bucket_keeps] by (simp add: safe_def)
  qed
qed

lemma note_overload_safe: "store_ok s \<Longrightarrow> safe own s (note_overload s)"
  unfolding safe_def note_overload_def by (auto elim: store_ok_cong intro: keeps_same)

lemma remove_empty_safe: "store_ok s \<Longrightarrow> safe own s (remove_empty_bucket s key)"
  by (simp add: safe_def remove_empty_bucket_ok)

lemma cleanup_at_safe: "store_ok s \<Longrightarrow> safe own s (snd (cleanup_at s now))"
  using cleanup_at_ok by (auto simp: safe_def cleanup_at_shape intro: retains_keeps)

lemma maybe_cleanup_safe: "store_ok s \<Longrightarrow> safe own s (maybe_cleanup s now)"
  using maybe_cleanup_ok by (auto simp: safe_def maybe_cleanup_shape intro: retains_keeps)

lemma admit_retry_safe:
  assumes ok: "store_ok s" shows "safe own s (snd (admit_retry s command now wid rid))"
proof -
  obtain r s1 where run: "admit_once s command now wid rid = (r, s1)" by force
  have s1: "safe own s s1" using admit_once_safe [OF ok] run by (metis snd_conv)
  have n: "safe own s (note_overload s1)" by (rule safe_trans [OF s1 note_overload_safe [OF safeD(1) [OF s1]]])
  have "safe own s (remove_empty_bucket (note_overload s1) k)" for k
    by (rule safe_trans [OF n remove_empty_safe [OF safeD(1) [OF n]]])
  with s1 n run show ?thesis
    by (auto simp: admit_retry_def split: sum.split failure.split AdmitAttempt.split)
qed

lemma admit_safe:
  assumes ok: "store_ok s" shows "safe own s (snd (admit s command now ids))"
proof -
  note m = maybe_cleanup_safe [OF ok, of own now]
  obtain r s1 where run: "admit_once (maybe_cleanup s now) command now (fst (ids 0)) (snd (ids 0)) = (r, s1)" by force
  have s1: "safe own s s1" using safe_trans [OF m admit_once_safe [OF safeD(1) [OF m]]] run by (metis snd_conv)
  have "safe own s (snd (admit_retry (snd (cleanup_at s1 now)) command now w q))" for w q
    by (meson s1 safe_trans cleanup_at_safe admit_retry_safe safeD(1))
  with s1 run safe_refl [OF ok] show ?thesis
    by (auto simp: admit_eq Let_def split: sum.split failure.split AdmitAttempt.split option.split)
qed

definition settles :: "SettleCommand \<Rightarrow> RateLimitKey \<Rightarrow> string \<Rightarrow> bool" where
  "settles command k q = (k = re_key (sc_reservation command) \<and> q = re_request_id (sc_reservation command))"

lemma settle_inner_safe:
  assumes ok: "store_ok s" and clock: "now_mono now + settlement_retry_grace (config s) \<le> DURATION_MAX"
  shows "safe (settles command) s (snd (settle_inner s command now))"
proof (cases "map_of (buckets s) (re_key (sc_reservation command))")
  case None
  with ok show ?thesis
    by (auto simp: settle_inner_def Let_def acquire_bucket_def safe_refl split: option.split)
next
  case (Some cell)
  have "\<forall>q. re_request_id (sc_reservation command) = q \<longrightarrow> settles command (re_key (sc_reservation command)) q"
    by (simp add: settles_def)
  note r = settle_op.run_leased_ok [where o_key = "settles command", OF clock ok refl refl Some this]
  show ?thesis
    using r ok by (simp add: settle_inner_def Let_def acquire_existing [OF Some] safe_def split: option.split)
qed

lemma settle_safe:
  assumes ok: "store_ok s" and clock: "now_mono now + settlement_retry_grace (config s) \<le> DURATION_MAX"
  shows "safe (settles command) s (snd (settle s command now))"
proof -
  note m = maybe_cleanup_safe [OF ok, of "settles command" now]
  show ?thesis unfolding settle_def
    by (rule safe_trans [OF m settle_inner_safe]) (use clock safeD(1,3) [OF m] in simp_all)
qed

lemma inspect_leased_safe:
  assumes ok: "store_ok s" shows "safe own s (snd (inspect_leased s key now absent f))"
proof (cases "map_of (buckets s) key")
  case None
  with ok show ?thesis by (simp add: inspect_leased_def acquire_bucket_def safe_refl)
next
  case (Some cell)
  note r = inspect_op.run_leased_ok [where now = now and f = f and o_key = own, OF TrueI ok refl refl Some]
  show ?thesis
    using r by (simp add: inspect_leased_def acquire_existing [OF Some] safe_def)
qed

lemma inspect_safe:
  assumes ok: "store_ok s" shows "safe own s (snd (inspect s query now))"
proof -
  have "safe own s1 (snd (inspect_inner s1 query now))" if "store_ok s1" for s1
    using that inspect_leased_safe [OF that] by (cases query) (auto simp: safe_refl split: option.split)
  with maybe_cleanup_safe [OF ok] show ?thesis unfolding inspect_def by (meson safe_trans safeD(1))
qed

section \<open>Reachable stores\<close>

text \<open>A step is labelled with the settlement command when it is one.\<close>

inductive store_step :: "Store \<Rightarrow> SettleCommand option \<Rightarrow> Store \<Rightarrow> bool" where
  step_admit: "store_step s None (snd (admit s command now ids))"
| step_settle: "now_mono now + settlement_retry_grace (config s) \<le> DURATION_MAX \<Longrightarrow>
    store_step s (Some command) (snd (settle s command now))"
| step_inspect: "store_step s None (snd (inspect s query now))"
| step_cleanup: "store_step s None (snd (cleanup_now s now))"

inductive reachable :: "Store \<Rightarrow> bool" where
  reach_new: "store_new cfg now iid = Inr s \<Longrightarrow> reachable s"
| reach_step: "reachable s \<Longrightarrow> store_step s l s' \<Longrightarrow> reachable s'"

text \<open>Runs in which nobody settles the reservation of request \<open>q\<close> in bucket \<open>key\<close>.\<close>

inductive undisturbed :: "RateLimitKey \<Rightarrow> string \<Rightarrow> Store \<Rightarrow> Store \<Rightarrow> bool" for key q where
  undisturbed_refl: "undisturbed key q s s"
| undisturbed_step: "undisturbed key q s s1 \<Longrightarrow> store_step s1 l s2 \<Longrightarrow>
    (case l of None \<Rightarrow> True | Some command \<Rightarrow> \<not> settles command key q) \<Longrightarrow> undisturbed key q s s2"

inductive_cases store_stepE: "store_step s l s'"

lemma store_step_safe:
  assumes "store_step s l s'" "store_ok s"
  shows "safe (\<lambda>k q. case l of None \<Rightarrow> False | Some command \<Rightarrow> settles command k q) s s'"
  using assms by (elim store_stepE) (auto simp: cleanup_now_def admit_safe inspect_safe cleanup_at_safe settle_safe)

lemma reachable_ok: "reachable s \<Longrightarrow> store_ok s"
  by (induction rule: reachable.induct) (auto intro: store_new_ok dest: store_step_safe safeD(1))

lemma undisturbed_keeps:
  assumes "undisturbed key q s s'" "store_ok s" "lookup_record s key q = Some r" "live r"
  shows "store_ok s' \<and> same_shape s s' \<and> lookup_record s' key q = Some r"
  using assms
proof (induction rule: undisturbed.induct)
  case (undisturbed_step s s1 l s2)
  then have s1: "store_ok s1" "same_shape s s1" "lookup_record s1 key q = Some r" by auto
  have "safe (\<lambda>k q. case l of None \<Rightarrow> False | Some command \<Rightarrow> settles command k q) s1 s2"
    by (rule store_step_safe [OF undisturbed_step(2) s1(1)])
  with s1 undisturbed_step(3) \<open>live r\<close> show ?case
    by (auto simp: safe_def keeps_def intro: same_shape_trans split: option.splits)
qed simp

end
