(* ===== verification/RL_Examples.thy ===== *)
theory RL_Examples
  imports RL_Invariant
begin

text \<open>
  A concrete run of the quota store, at which the general theorems are instantiated: a new store
  with the default configuration, one granted request of 60 tokens in a window of one minute, and
  its settlement. The bundle \<open>rl_eval\<close> evaluates the operations.
\<close>

definition ex_now :: "nat \<Rightarrow> RateLimitNow" where
  "ex_now t = \<lparr>now_mono = t, now_wall = int t\<rparr>"

definition ex_store :: Store where
  "ex_store = \<lparr>instance_id = 7, buckets = [], config = config_default, stats = stats_default,
     next_cleanup_at = from_secs 30, cleanup_queue = [], next_cell = 0\<rparr>"

definition ex_key :: RateLimitKey where
  "ex_key = RateLimitKey_new ''ns'' Global"

definition ex_admit :: "string \<Rightarrow> u64 \<Rightarrow> AdmitCommand" where
  "ex_admit q n = \<lparr>ac_request_id = q, ac_key = ex_key, ac_window = WindowSpec_fixed (from_secs 60),
     ac_limits = \<lparr>ql_requests = Some 2, ql_tokens = Some 100\<rparr>, ac_reserve = \<lparr>qc_requests = 1, qc_tokens = n\<rparr>\<rparr>"

definition ex_ids :: "nat \<Rightarrow> uuid \<times> uuid" where
  "ex_ids n = (1, 2)"

definition ex_token :: ReservationToken where
  "ex_token = \<lparr>re_schema_version = 1, re_backend_instance_id = 7, re_reservation_id = 2, re_request_id = ''r1'',
     re_key = ex_key, re_window = \<lparr>wi_id = 1, wi_generation = 1\<rparr>,
     re_limits_at_admission = \<lparr>ql_requests = Some 2, ql_tokens = Some 100\<rparr>,
     re_reserved = \<lparr>qc_requests = 1, qc_tokens = 60\<rparr>\<rparr>"

definition ex_window :: WindowState where
  "ex_window = \<lparr>w_identity = \<lparr>wi_id = 1, wi_generation = 1\<rparr>, w_spec = WindowSpec_fixed (from_secs 60),
     w_started_wall = 10, w_reset_mono = 60000000010, w_reset_wall = 60000000010,
     w_requests_used = 1, w_tokens_used = 60\<rparr>"

definition ex_snapshot :: RateLimitSnapshot where
  "ex_snapshot = snapshot ex_window \<lparr>ql_requests = Some 2, ql_tokens = Some 100\<rparr> (ex_now 10)"

definition ex_record :: AdmissionRecord where
  "ex_record = \<lparr>ar_fingerprint = fingerprint_of (ex_admit ''r1'' 60), ar_decision = Allowed ex_token ex_snapshot False,
     ar_settlement = None, ar_retain_until = 1260000000010\<rparr>"

definition ex_bucket :: BucketState where
  "ex_bucket = \<lparr>active_window = Some ex_window, generation = 1, admissions = [(''r1'', ex_record)], last_touched_mono = 10\<rparr>"

definition ex_store1 :: Store where
  "ex_store1 = ex_store\<lparr>
     buckets := [(ex_key, \<lparr>bc_id = 0, active_ops = 0, cleanup_queued = True, bc_state = ex_bucket\<rparr>)],
     stats := stats_default\<lparr>st_buckets := 1, st_idempotency_records := 1, st_live_reservations := 1, st_admissions_allowed := 1\<rparr>,
     cleanup_queue := [\<lparr>ct_key = ex_key, ct_cell = 0\<rparr>], next_cell := 1\<rparr>"

definition ex_settle :: SettleCommand where
  "ex_settle = \<lparr>sc_operation_id = ''op'', sc_reservation = ex_token, sc_final_charge = \<lparr>qc_requests = 1, qc_tokens = 45\<rparr>\<rparr>"

lemmas rl_eval = ex_now_def ex_store_def ex_key_def ex_admit_def ex_ids_def ex_token_def ex_window_def ex_snapshot_def
  ex_record_def ex_bucket_def ex_store1_def ex_settle_def config_default_def stats_default_def
  RateLimitKey_new_def WindowSpec_fixed_def from_secs_def admit_eq validate_admit_def validate_key_def validate_window_def
  RATE_LIMIT_SCHEMA_VERSION_def maybe_cleanup_def admit_once_def acquire_bucket_def try_reserve_def Let_def set_cell_def
  schedule_cleanup_def run_leased_def admit_bucket_def purge_expired_def retain_def retention_duration_def
  duration_checked_add_def DURATION_MAX_def saturating_sub_def admit_reserved_def ensure_window_def checked_add_def
  checked_sub_def system_time_checked_add_def SYSTEM_TIME_MAX_def quota_candidate_def exceeds_def snapshot_def
  dimension_snapshot_def release_lease_def fingerprint_of_def store_new_def validate_def removable_def is_settled_def
  is_rejected_def word_le_nat_alt word_less_nat_alt settle_def settle_inner_def validate_envelope_def settle_bucket_def
  settle_window_def adjusted_count_def

lemma ex_new: "store_new config_default (ex_now 0) 7 = Inr ex_store"
  by (simp add: rl_eval)

lemma ex_admitted: "admit ex_store (ex_admit ''r1'' 60) (ex_now 10) ex_ids = (Inr (Allowed ex_token ex_snapshot False), ex_store1)"
  by (simp add: rl_eval)

lemma ex_reachable: "reachable ex_store" "reachable ex_store1"
proof -
  show r: "reachable ex_store" by (rule reach_new [OF ex_new])
  show "reachable ex_store1"
    using reach_step [OF r step_admit [of ex_store "ex_admit ''r1'' 60" "ex_now 10" ex_ids]] by (simp add: ex_admitted)
qed

lemma ex_lookup: "lookup_record ex_store1 ex_key ''r1'' = Some ex_record" "window_of ex_store1 ex_key = Some ex_window"
  by (simp_all add: lookup_record_def window_of_def ex_store1_def ex_bucket_def)

lemma ex_live: "live ex_record"
  by (simp add: live_def is_rejected_def is_settled_def ex_record_def)

lemma ex_settled:
  "fst (settle ex_store1 ex_settle (ex_now 20)) =
     Inr \<lparr>sr_disposition = Applied, sr_snapshot =
       Some (snapshot (ex_window\<lparr>w_tokens_used := 45\<rparr>) \<lparr>ql_requests = Some 2, ql_tokens = Some 100\<rparr> (ex_now 20))\<rparr>"
  by (simp add: rl_eval)

lemma ex_clock: "now_mono (ex_now 20) + settlement_retry_grace (config ex_store1) \<le> DURATION_MAX"
  by (simp add: ex_now_def ex_store1_def ex_store_def config_default_def from_secs_def DURATION_MAX_def)

lemma ex_bucket_ok: "bucket_ok 7 ex_key ex_bucket"
  using store_okD(1) [OF reachable_ok [OF ex_reachable(2)], of ex_key]
  by (simp add: ex_store1_def ex_store_def cell_ok_def)

end
