(* ===== verification/RL_Quota.thy ===== *)
theory RL_Quota
  imports RL_Examples
begin

text \<open>
  What the quota store promises to its callers: quotas are not oversold, requests and settlements
  are idempotent, a settlement corrects the window by exactly the difference between the final and
  the reserved charge, unsettled reservations survive every other operation, the statistics are
  exact, and no call panics.
\<close>

section \<open>What a successful admission did\<close>

lemma admit_once_returns:
  assumes ok: "store_ok s" and run: "admit_once s command now wid rid = (Inr (Decision d), s')"
  obtains cell b st0 st where "bucket_ok (instance_id s) (ac_key command) (bc_state cell)"
    "admit_bucket (instance_id s) (config s) command now wid rid (bc_state cell) st0 = (Inr (Decision d), b, st)"
    "map_of (buckets s') (ac_key command) = Some (cell\<lparr>bc_state := b\<rparr>)"
proof (cases "map_of (buckets s) (ac_key command)")
  case (Some cell)
  obtain r b st where bk: "admit_bucket (instance_id s) (config s) command now wid rid (bc_state cell) (stats s) = (r, b, st)"
    by (metis prod_cases3)
  from admit_once_existing [OF ok Some bk] run have s': "r = Inr (Decision d)" "s' = put s (ac_key command) cell b st"
    by simp_all
  show ?thesis
    by (rule that [OF _ bk [unfolded s'(1)]])
      (use store_okD(1) [OF ok Some] s'(2) in \<open>simp_all add: cell_ok_def put_def update_conv'\<close>)
next
  case None
  then obtain n where tr: "try_reserve (st_buckets (stats s)) (max_buckets (config s)) = Some n"
    using run by (cases "try_reserve (st_buckets (stats s)) (max_buckets (config s))")
      (simp_all add: admit_once_def acquire_bucket_def)
  obtain r b st where bk: "admit_bucket (instance_id s) (config s) command now wid rid
      (bc_state (new_cell s)) ((stats s)\<lparr>st_buckets := n\<rparr>) = (r, b, st)" by (metis prod_cases3)
  from admit_once_new [OF None tr bk] run have s': "r = Inr (Decision d)"
    "s' = put (new_bucket s (ac_key command) n) (ac_key command) (new_cell s) b st" by simp_all
  show ?thesis
    by (rule that [OF _ bk [unfolded s'(1)]])
      (use s'(2) in \<open>simp_all add: new_cell_def bucket_ok_def put_def update_conv'\<close>)
qed

lemma admit_retry_decision:
  "admit_retry s command now wid rid = (Inr d, s') \<longleftrightarrow>
     admit_once s command now wid rid = (Inr (Decision d), s')"
  by (auto simp: admit_retry_def split: prod.splits sum.splits failure.splits AdmitAttempt.splits)

lemma admit_returns:
  assumes ok: "store_ok s" and run: "admit s command now ids = (Inr d, s')"
  obtains wid rid cell b st0 st where "bucket_ok (instance_id s) (ac_key command) (bc_state cell)"
    "admit_bucket (instance_id s) (config s) command now wid rid (bc_state cell) st0 = (Inr (Decision d), b, st)"
    "map_of (buckets s') (ac_key command) = Some (cell\<lparr>bc_state := b\<rparr>)"
proof -
  note m = maybe_cleanup_safe [OF ok, of "\<lambda>_ _. True" now]
  obtain r s1 where r: "admit_once (maybe_cleanup s now) command now (fst (ids 0)) (snd (ids 0)) = (r, s1)" by force
  have s1: "safe (\<lambda>_ _. True) s s1" using safe_trans [OF m admit_once_safe [OF safeD(1) [OF m]]] r by (metis snd_conv)
  note c = safe_trans [OF s1 cleanup_at_safe [OF safeD(1) [OF s1], of "\<lambda>_ _. True" now]]
  have "\<exists>s0 wid rid. safe (\<lambda>_ _. True) s s0 \<and> admit_once s0 command now wid rid = (Inr (Decision d), s')"
    using run r m c
    by (auto simp: admit_eq Let_def admit_retry_decision
        split: option.splits sum.splits failure.splits AdmitAttempt.splits if_splits)
  then obtain s0 wid rid where s0: "safe (\<lambda>_ _. True) s s0"
    "admit_once s0 command now wid rid = (Inr (Decision d), s')" by blast
  show ?thesis
    by (rule admit_once_returns [OF safeD(1) [OF s0(1)] s0(2)]) (rule that, simp_all add: safeD(2,3) [OF s0(1)])
qed

lemma admit_bucket_decision:
  assumes ok: "bucket_ok iid (ac_key command) b0"
    and run: "admit_bucket iid cfg command now wid rid b0 st0 = (Inr (Decision d), b', st')"
  obtains
    (replay) n b st r where "purge_expired (b0\<lparr>last_touched_mono := now_mono now\<rparr>) (now_mono now) st0 = (n, b, st)"
      "bucket_ok iid (ac_key command) b"
      "map_of (admissions b) (ac_request_id command) = Some r" "ar_fingerprint r = fingerprint_of command"
      "d = as_replayed (ar_decision r)" "b' = b"
  | (fresh) n b st ru where "purge_expired (b0\<lparr>last_touched_mono := now_mono now\<rparr>) (now_mono now) st0 = (n, b, st)"
      "bucket_ok iid (ac_key command) b" "map_of (admissions b) (ac_request_id command) = None"
      "now_mono now \<le> ru"
      "admit_reserved iid cfg command now wid rid ru b (st\<lparr>st_idempotency_records := st_idempotency_records st + 1\<rparr>) =
         (Inr (Decision d), b', st')"
proof -
  obtain n b st where p: "purge_expired (b0\<lparr>last_touched_mono := now_mono now\<rparr>) (now_mono now) st0 = (n, b, st)"
    by (metis prod_cases3)
  have okb: "bucket_ok iid (ac_key command) b" by (rule purge_bucket_ok [OF _ p]) (use ok in simp)
  show thesis
  proof (cases "map_of (admissions b) (ac_request_id command)")
    case None
    obtain ru k where "now_mono now \<le> ru" "try_reserve (st_idempotency_records st) (admission_capacity cfg) = Some k"
      "admit_reserved iid cfg command now wid rid ru b (st\<lparr>st_idempotency_records := k\<rparr>) = (Inr (Decision d), b', st')"
      using run None unfolding admit_bucket_def p
      by (auto simp: Let_def duration_checked_add_def simp flip: admission_capacity_def split: option.splits if_splits)
        (blast intro: le_add1)+
    with None show ?thesis using try_reserve_Some(1) by (intro fresh [OF p okb None]) auto
  next
    case (Some r)
    with run show ?thesis unfolding admit_bucket_def p
      by (intro replay [OF p okb Some]) (auto simp: Let_def split: if_splits)
  qed
qed

lemma as_replayed_flag [simp]: "as_replayed d \<noteq> Allowed t sn False" "as_replayed d \<noteq> Rejected reason sn False"
  by (cases d; simp)+

section \<open>Quotas are never oversold\<close>

text \<open>What the unsettled reservations of a bucket hold of a window, per limited dimension.\<close>

definition held ::
    "(QuotaLimits \<Rightarrow> u64 option) \<Rightarrow> (QuotaCharge \<Rightarrow> u64) \<Rightarrow> Store \<Rightarrow> RateLimitKey \<Rightarrow> WindowIdentity \<Rightarrow> nat" where
  "held lim chg s key wid =
     (case map_of (buckets s) key of
        None \<Rightarrow> 0 | Some cell \<Rightarrow> asum (share lim chg wid) (admissions (bc_state cell)))"

lemma not_exceeds: "\<not> exceeds (Some l) c \<Longrightarrow> unat c \<le> unat l"
  by (simp add: exceeds_def word_less_nat_alt)

lemma exceeds_iff: "exceeds lim c \<longleftrightarrow> (\<exists>l. lim = Some l \<and> unat l < unat c)"
  by (auto simp: exceeds_def word_less_nat_alt split: option.splits)

lemma admit_bucket_allowed:
  assumes ok: "bucket_ok iid (ac_key command) b0"
    and run: "admit_bucket iid cfg command now wid rid b0 st0 = (Inr (Decision (Allowed t sn False)), b', st')"
  obtains w ru where "active_window b' = Some w" "bucket_ok iid (ac_key command) b'" "t = issued_token iid command rid w"
    "sn = snapshot w (ac_limits command) now"
    "\<not> exceeds (ql_requests (ac_limits command)) (w_requests_used w)"
    "\<not> exceeds (ql_tokens (ac_limits command)) (w_tokens_used w)"
    "map_of (admissions b') (ac_request_id command) = Some (reserved_record command ru (Allowed t sn False))"
    "now_mono now \<le> ru"
proof -
  have okb': "bucket_ok iid (ac_key command) b'"
    using admit_bucket_step [OF ok run] by (simp add: bucket_step_def)
  show thesis
    using ok run
  proof (cases rule: admit_bucket_decision)
    case (fresh n b st ru)
    from fresh(5) show ?thesis
    proof (cases rule: admit_reserved_cases)
      case (allowed w b1 rc tc n)
      have "t = issued_token iid command rid (charged w rc tc)" using allowed(7) by (simp add: issued_token_def)
      with allowed fresh(4) okb' show ?thesis
        by (intro that [of "charged w rc tc" ru]) (simp_all add: update_conv')
    qed auto
  qed (metis as_replayed_flag(1))
qed

text \<open>
  C1. When \<open>admit\<close> grants a reservation, the reservation is recorded under its request, and all
  unsettled reservations of the granted window together hold no more than the limits of the request
  in either dimension.
\<close>

theorem admit_never_oversells:
  assumes "reachable s" and "admit s command now ids = (Inr (Allowed t sn False), s')"
  shows "(\<forall>l. ql_requests (ac_limits command) = Some l \<longrightarrow>
            held ql_requests qc_requests s' (ac_key command) (re_window t) \<le> unat l) \<and>
         (\<forall>l. ql_tokens (ac_limits command) = Some l \<longrightarrow>
            held ql_tokens qc_tokens s' (ac_key command) (re_window t) \<le> unat l) \<and>
         re_reserved t = ac_reserve command \<and> re_key t = ac_key command \<and>
         (\<exists>r. lookup_record s' (ac_key command) (ac_request_id command) = Some r \<and> live r \<and>
              ar_decision r = Allowed t sn False)"
proof -
  have ok: "store_ok s" by (rule reachable_ok [OF assms(1)])
  obtain wid rid cell b st0 st where bk: "bucket_ok (instance_id s) (ac_key command) (bc_state cell)"
    "admit_bucket (instance_id s) (config s) command now wid rid (bc_state cell) st0 = (Inr (Decision (Allowed t sn False)), b, st)"
    "map_of (buckets s') (ac_key command) = Some (cell\<lparr>bc_state := b\<rparr>)"
    by (rule admit_returns [OF ok assms(2)])
  obtain w ru where w: "active_window b = Some w" "bucket_ok (instance_id s) (ac_key command) b"
    "t = issued_token (instance_id s) command rid w"
    "\<not> exceeds (ql_requests (ac_limits command)) (w_requests_used w)"
    "\<not> exceeds (ql_tokens (ac_limits command)) (w_tokens_used w)"
    "map_of (admissions b) (ac_request_id command) = Some (reserved_record command ru (Allowed t sn False))"
    by (rule admit_bucket_allowed [OF bk(1,2)])
  have cov: "covered w (admissions b)" using w(1,2) by (simp add: bucket_ok_def)
  have "held lim chg s' (ac_key command) (re_window t) = asum (share lim chg (w_identity w)) (admissions b)" for lim chg
    using bk(3) by (simp add: held_def w(3) issued_token_def)
  with cov w(4,5) have "\<forall>l. ql_requests (ac_limits command) = Some l \<longrightarrow>
      held ql_requests qc_requests s' (ac_key command) (re_window t) \<le> unat l"
    "\<forall>l. ql_tokens (ac_limits command) = Some l \<longrightarrow>
      held ql_tokens qc_tokens s' (ac_key command) (re_window t) \<le> unat l"
    by (auto simp: covered_def dest!: not_exceeds)
  with w(3,6) bk(3) show ?thesis
    by (auto simp: lookup_record_def issued_token_def) (auto simp: reserved_record_def)
qed

theorem admit_never_oversells_witness:
  "admit ex_store (ex_admit ''r1'' 60) (ex_now 10) ex_ids = (Inr (Allowed ex_token ex_snapshot False), ex_store1) \<and>
   held ql_tokens qc_tokens ex_store1 ex_key (re_window ex_token) \<le> 100"
  using admit_never_oversells [OF ex_reachable(1) ex_admitted] ex_admitted by (simp add: ex_admit_def)

section \<open>Rejections charge nothing\<close>

lemma exceeded_reason_iff:
  "exceeded_reason p q = Some r \<Longrightarrow> r \<noteq> Tokens \<longleftrightarrow> p" "exceeded_reason p q = Some r \<Longrightarrow> r \<noteq> Requests \<longleftrightarrow> q"
  by (cases p; cases q; simp)+

lemma exceeds_candidate:
  "quota_candidate lim used reserve = Some c \<Longrightarrow>
     exceeds lim c \<longleftrightarrow> (\<exists>l. lim = Some l \<and> unat l < unat used + unat reserve)"
  using quota_candidate_covers [of lim used reserve c] by (auto simp: exceeds_iff)

text \<open>
  A request that \<open>admit_bucket\<close> rejects is one that does not fit: the reason names exactly the
  dimensions in which the window's count plus the reservation is above the limit, the snapshot shows
  the window, and the window is the one that was there (or a new one with zero counts).
\<close>

theorem rejection_justified_and_free:
  assumes "bucket_ok iid (ac_key command) b0"
    and "admit_bucket iid cfg command now wid rid b0 st0 = (Inr (Decision (Rejected reason sn False)), b', st')"
  shows "\<exists>w. active_window b' = Some w \<and> sn = snapshot w (ac_limits command) now \<and>
     (active_window b0 = Some w \<or> w_requests_used w = 0 \<and> w_tokens_used w = 0) \<and>
     (reason \<noteq> Tokens \<longleftrightarrow> (\<exists>l. ql_requests (ac_limits command) = Some l \<and>
        unat l < unat (w_requests_used w) + unat (qc_requests (ac_reserve command)))) \<and>
     (reason \<noteq> Requests \<longleftrightarrow> (\<exists>l. ql_tokens (ac_limits command) = Some l \<and>
        unat l < unat (w_tokens_used w) + unat (qc_tokens (ac_reserve command))))"
  using assms
proof (cases rule: admit_bucket_decision)
  case (fresh n b st ru)
  from fresh(5) show ?thesis
  proof (cases rule: admit_reserved_cases)
    case (rejected w b1 rc tc why)
    have w1: "active_window b1 = Some w" by (rule ensure_window_ok(2) [OF rejected(1) fresh(2)])
    have "active_window b0 = Some w \<or> w_requests_used w = 0 \<and> w_tokens_used w = 0"
    proof (cases "active_window b")
      case None
      then show ?thesis using ensure_window_new(3,4) [OF rejected(1) None] by simp
    next
      case (Some w0)
      then show ?thesis using ensure_window_old [OF rejected(1) Some] purge_keeps_window [OF fresh(1)] by auto
    qed
    with rejected w1 show ?thesis
      by (simp add: exceeded_reason_iff [OF rejected(5)] exceeds_candidate [OF rejected(2)] exceeds_candidate [OF rejected(3)])
  qed auto
qed (metis as_replayed_flag(2))

theorem rejection_justified_and_free_witness:
  "\<exists>sn b' st'. admit_bucket 7 config_default (ex_admit ''r2'' 60) (ex_now 12) 3 4 ex_bucket (stats ex_store1) =
     (Inr (Decision (Rejected Tokens sn False)), b', st') \<and> active_window b' = Some ex_window"
proof -
  obtain sn b' st' where run: "admit_bucket 7 config_default (ex_admit ''r2'' 60) (ex_now 12) 3 4 ex_bucket (stats ex_store1) =
      (Inr (Decision (Rejected Tokens sn False)), b', st')" and w: "active_window b' = Some ex_window"
    by (simp add: rl_eval)
  have "bucket_ok 7 (ac_key (ex_admit ''r2'' 60)) ex_bucket" using ex_bucket_ok by (simp add: ex_admit_def)
  from rejection_justified_and_free [OF this run] run w show ?thesis by blast
qed

section \<open>Admission is idempotent\<close>

lemma purge_live:
  assumes "bucket_ok iid key b" "purge_expired (b\<lparr>last_touched_mono := t\<rparr>) now st = (n, b', st')"
    "map_of (admissions b) q = Some r" "\<not> removable now r"
  shows "map_of (admissions b') q = Some r"
  using purge_window(2) [OF assms(2)] bucket_okD(1) [OF assms(1)] assms(3,4)
  by (simp add: map_of_retain del: map_of_eq_Some_iff)

lemma admit_bucket_replays:
  assumes ok: "bucket_ok iid key b0" and r: "map_of (admissions b0) (ac_request_id command) = Some r"
    and keep: "\<not> removable (now_mono now) r" and fp: "ar_fingerprint r = fingerprint_of command"
  obtains n b st st' where
    "purge_expired (b0\<lparr>last_touched_mono := now_mono now\<rparr>) (now_mono now) st0 = (n, b, st)"
    "admit_bucket iid cfg command now wid rid b0 st0 = (Inr (Decision (as_replayed (ar_decision r))), b, st')"
proof -
  obtain n b st where p: "purge_expired (b0\<lparr>last_touched_mono := now_mono now\<rparr>) (now_mono now) st0 = (n, b, st)"
    by (metis prod_cases3)
  from purge_live [OF ok p r keep] fp show ?thesis by (intro that [OF p]) (simp add: admit_bucket_def p)
qed

lemma lookup_cell:
  assumes "lookup_record s key q = Some r"
  obtains cell where "map_of (buckets s) key = Some cell" "map_of (admissions (bc_state cell)) q = Some r"
  using assms by (auto simp: lookup_record_def split: option.splits)

lemma touch_put_windows:
  assumes "map_of (buckets s) key = Some cell"
    "purge_expired (bc_state cell\<lparr>last_touched_mono := t\<rparr>) now st0 = (n, b, st)"
  shows "windows_kept now s (put s key cell b st')"
  using put_windows [OF assms(1), of b now] purge_keeps_window [OF assms(2)] by simp

lemma admit_replays:
  assumes ok: "store_ok s" and r: "lookup_record s (ac_key command) (ac_request_id command) = Some r"
    and keep: "\<not> removable (now_mono now) r" and fp: "ar_fingerprint r = fingerprint_of command"
    and v: "validate_admit command = None"
  shows "\<exists>s'. admit s command now ids = (Inr (as_replayed (ar_decision r)), s') \<and>
     windows_kept (now_mono now) s s'"
proof -
  let ?s = "maybe_cleanup s now" and ?k = "ac_key command"
  have m: "store_ok ?s" "retains (now_mono now) s ?s" "windows_kept (now_mono now) s ?s"
    using maybe_cleanup_ok [OF ok] by auto
  from m(2) r keep have "lookup_record ?s ?k (ac_request_id command) = Some r" by (simp add: retains_def)
  then obtain cell where c: "map_of (buckets ?s) ?k = Some cell"
    "map_of (admissions (bc_state cell)) (ac_request_id command) = Some r" by (rule lookup_cell)
  have "bucket_ok (instance_id ?s) ?k (bc_state cell)" using store_okD(1) [OF m(1) c(1)] by (simp add: cell_ok_def)
  then obtain n b st st' where
    p: "purge_expired (bc_state cell\<lparr>last_touched_mono := now_mono now\<rparr>) (now_mono now) (stats ?s) = (n, b, st)" and
    a: "admit_bucket (instance_id ?s) (config ?s) command now (fst (ids 0)) (snd (ids 0)) (bc_state cell) (stats ?s) =
      (Inr (Decision (as_replayed (ar_decision r))), b, st')"
    by (rule admit_bucket_replays [OF _ c(2) keep fp])
  show ?thesis
    using admit_once_existing [OF m(1) c(1) a] v windows_kept_trans [OF m(3) touch_put_windows [OF c(1) p]]
    by (simp add: admit_eq)
qed

lemma admit_records_grant:
  assumes ok: "store_ok s" and run: "admit s command now ids = (Inr (Allowed t sn False), s1)"
  obtains ru where "lookup_record s1 (ac_key command) (ac_request_id command) =
      Some (reserved_record command ru (Allowed t sn False))"
proof -
  obtain wid rid cell b st0 st where bk: "bucket_ok (instance_id s) (ac_key command) (bc_state cell)"
    "admit_bucket (instance_id s) (config s) command now wid rid (bc_state cell) st0 = (Inr (Decision (Allowed t sn False)), b, st)"
    "map_of (buckets s1) (ac_key command) = Some (cell\<lparr>bc_state := b\<rparr>)"
    by (rule admit_returns [OF ok run])
  obtain ru where "map_of (admissions b) (ac_request_id command) = Some (reserved_record command ru (Allowed t sn False))"
    by (rule admit_bucket_allowed [OF bk(1,2)])
  with bk(3) show ?thesis by (intro that) (simp add: lookup_record_def)
qed

text \<open>
  Retrying a granted request is safe. However many calls on any buckets come in between, as long
  as nobody settles this reservation, the same request is granted again with the same token and the
  same snapshot, and no window is charged for it.
\<close>

theorem granted_request_replays:
  assumes "reachable s" and "admit s command now ids = (Inr (Allowed t sn False), s1)"
    and "undisturbed (ac_key command) (ac_request_id command) s1 s2"
  shows "\<exists>s3. admit s2 command now2 ids2 = (Inr (Allowed t sn True), s3) \<and>
     windows_kept (now_mono now2) s2 s3"
proof -
  have ok: "store_ok s" by (rule reachable_ok [OF assms(1)])
  have ok1: "store_ok s1" using safeD(1) [OF admit_safe [OF ok]] assms(2) by (metis snd_conv)
  obtain ru where "lookup_record s1 (ac_key command) (ac_request_id command) =
      Some (reserved_record command ru (Allowed t sn False))" by (rule admit_records_grant [OF ok assms(2)])
  from undisturbed_keeps [OF assms(3) ok1 this]
  have "store_ok s2" "lookup_record s2 (ac_key command) (ac_request_id command) =
      Some (reserved_record command ru (Allowed t sn False))" by auto
  moreover have "validate_admit command = None" using assms(2) by (simp add: admit_eq split: option.splits)
  ultimately show ?thesis
    using admit_replays [of s2 command "reserved_record command ru (Allowed t sn False)"]
    by (simp add: live_not_removable) (simp add: reserved_record_def)
qed

theorem granted_request_replays_witness:
  "\<exists>s3. admit (snd (cleanup_now ex_store1 (ex_now 30))) (ex_admit ''r1'' 60) (ex_now 90000000000) ex_ids =
     (Inr (Allowed ex_token ex_snapshot True), s3)"
proof -
  have "undisturbed (ac_key (ex_admit ''r1'' 60)) (ac_request_id (ex_admit ''r1'' 60)) ex_store1
      (snd (cleanup_now ex_store1 (ex_now 30)))"
    by (rule undisturbed_step [OF undisturbed_refl step_cleanup]) simp
  from granted_request_replays [OF ex_reachable(1) ex_admitted this] show ?thesis by blast
qed

section \<open>Settlement\<close>

text \<open>What is left of a window at time \<open>now\<close>.\<close>

definition still_open :: "duration \<Rightarrow> WindowState option \<Rightarrow> WindowState option" where
  "still_open now ow =
     (case ow of None \<Rightarrow> None | Some w \<Rightarrow> if w_reset_mono w \<le> now then None else Some w)"

lemma purge_still_open: "purge_expired b now st = (n, b', st') \<Longrightarrow> active_window b' = still_open now (active_window b)"
  by (auto simp: purge_expired_def Let_def still_open_def)

lemma windows_kept_still_open:
  assumes "windows_kept now s s'" shows "still_open now (window_of s' k) = still_open now (window_of s k)"
proof -
  have "window_of s' k = window_of s k \<or> (\<exists>w. window_of s k = Some w \<and> w_reset_mono w \<le> now \<and> window_of s' k = None)"
    using assms by (simp add: windows_kept_def)
  then show ?thesis by (auto simp: still_open_def)
qed

text \<open>
  The state in which \<open>settle\<close> works on a record that is still retained: \<open>b\<close> is the purged
  bucket.
\<close>

lemma settle_reaches:
  assumes ok: "store_ok s" and r: "lookup_record s (re_key t) (re_request_id t) = Some r"
    and keep: "\<not> removable (now_mono now) r"
    and d: "ar_decision r = Allowed t sn rp" and t: "sc_reservation command = t"
    and v: "sc_operation_id command \<noteq> []" "validate_key (re_key t) = None"
  obtains s0 cell n b st where "windows_kept (now_mono now) s s0"
    "map_of (buckets s0) (re_key t) = Some cell" "bucket_ok (instance_id s0) (re_key t) b"
    "purge_expired (bc_state cell\<lparr>last_touched_mono := now_mono now\<rparr>) (now_mono now) (stats s0) = (n, b, st)"
    "map_of (admissions b) (re_request_id t) = Some r"
    "active_window b = still_open (now_mono now) (window_of s (re_key t))"
    "\<And>res b st. settle_bucket (config s) command now (bc_state cell) (stats s0) = (res, b, st) \<Longrightarrow>
       settle s command now = (res, put s0 (re_key t) cell b st)"
proof -
  let ?s = "maybe_cleanup s now"
  have m: "store_ok ?s" "retains (now_mono now) s ?s" "windows_kept (now_mono now) s ?s"
    using maybe_cleanup_ok [OF ok] by auto
  have sh: "config ?s = config s" "instance_id ?s = instance_id s"
    using maybe_cleanup_shape by (simp_all add: same_shape_def)
  from m(2) r keep have "lookup_record ?s (re_key t) (re_request_id t) = Some r" by (simp add: retains_def)
  then obtain cell where c: "map_of (buckets ?s) (re_key t) = Some cell"
    "map_of (admissions (bc_state cell)) (re_request_id t) = Some r" by (rule lookup_cell)
  have bo: "bucket_ok (instance_id ?s) (re_key t) (bc_state cell)"
    using store_okD(1) [OF m(1) c(1)] by (simp add: cell_ok_def)
  obtain n b st where
    p: "purge_expired (bc_state cell\<lparr>last_touched_mono := now_mono now\<rparr>) (now_mono now) (stats ?s) = (n, b, st)"
    by (metis prod_cases3)
  have "validate_envelope (instance_id ?s) t = None"
    using bucket_okD(3) [OF bo c(2)] d v(2) by (simp add: record_ok_def token_ok_def validate_envelope_def)
  then have run: "settle s command now = (res, put ?s (re_key t) cell b st)"
    if "settle_bucket (config s) command now (bc_state cell) (stats ?s) = (res, b, st)" for res b st
    using run_leased_existing [where op = "settle_bucket (config s) command now", OF that] v(1) t
    by (simp add: settle_def settle_inner_def Let_def acquire_existing [OF c(1)] sh)
  have aw: "active_window b = still_open (now_mono now) (window_of s (re_key t))"
    using purge_still_open [OF p] windows_kept_still_open [OF m(3), of "re_key t"] c(1) by (simp add: window_of_def)
  have bob: "bucket_ok (instance_id ?s) (re_key t) b" by (rule purge_bucket_ok [OF _ p]) (use bo in simp)
  show thesis by (rule that [OF m(3) c(1) bob p purge_live [OF bo p c(2) keep] aw run])
qed

lemma settle_bucket_live:
  assumes m: "map_of (admissions b) (re_request_id t) = Some r"
    and d: "ar_decision r = Allowed t sn rp" "live r" "sc_reservation command = t"
    and clock: "now_mono now + settlement_retry_grace cfg \<le> DURATION_MAX"
    and p: "purge_expired (b0\<lparr>last_touched_mono := now_mono now\<rparr>) (now_mono now) st0 = (n, b, st)"
    and w: "settle_window b t (sc_final_charge command) now = Inr (result, b1)"
  obtains st' where "settle_bucket cfg command now b0 st0 = (Inr result,
    b1\<lparr>admissions := AList.update (re_request_id t)
      (settled_record command result (now_mono now + settlement_retry_grace cfg) r) (admissions b1)\<rparr>, st')"
proof -
  have c: "duration_checked_add (now_mono now) (settlement_retry_grace cfg) =
      Some (now_mono now + settlement_retry_grace cfg)"
    using clock by (simp add: duration_checked_add_def)
  have disp: "sr_disposition result = Applied \<or> sr_disposition result = StaleWindowNoop"
    by (rule settle_window_cases [OF w]) auto
  have "admissions b1 = admissions b" by (rule settle_window_cases [OF w]) auto
  with m have m1: "map_of (admissions b1) (re_request_id t) = Some r" by simp
  have "ar_settlement r = None" using d(2) by (simp add: live_def is_settled_def)
  with disp m m1 d(1,3) w show ?thesis
    by (elim disjE) (intro that, simp add: settle_bucket_def p c Let_def settled_record_def)+
qed

lemma adjusted_count_fits:
  assumes "en \<Longrightarrow> unat res \<le> unat cur" "en \<Longrightarrow> unat cur - unat res + unat fin < 2 ^ 64"
  obtains c where "adjusted_count cur res fin en = Some c"
    "unat c = (if en then unat cur - unat res + unat fin else unat cur)"
proof (cases en)
  case True
  with assms have le: "res \<le> cur" "unat (cur - res) = unat cur - unat res"
    by (simp_all add: word_le_nat_alt unat_sub)
  with True assms(2) have "adjusted_count cur res fin en = Some (cur - res + fin)"
    "unat (cur - res + fin) = unat cur - unat res + unat fin"
    by (simp_all add: adjusted_count_def checked_sub_def checked_add_def unat_word_ariths)
  with True show ?thesis by (intro that) auto
qed (auto intro: that simp: adjusted_count_def)

lemma share_covered:
  assumes "covered w al" "map_of al q = Some r" "ar_decision r = Allowed t sn rp" "live r" "w_identity w = re_window t"
  shows "ql_requests (re_limits_at_admission t) \<noteq> None \<Longrightarrow> unat (qc_requests (re_reserved t)) \<le> unat (w_requests_used w)"
    and "ql_tokens (re_limits_at_admission t) \<noteq> None \<Longrightarrow> unat (qc_tokens (re_reserved t)) \<le> unat (w_tokens_used w)"
  using assms asum_update_le [OF assms(2), of "share ql_requests qc_requests (w_identity w)"]
    asum_update_le [OF assms(2), of "share ql_tokens qc_tokens (w_identity w)"]
  unfolding covered_def by (fastforce simp: share_def live_def)+

lemma settle_open_window:
  assumes "reachable s" and "lookup_record s (re_key t) (re_request_id t) = Some r"
    and "ar_decision r = Allowed t sn rp" and "live r"
    and "window_of s (re_key t) = Some w" and "w_identity w = re_window t" and "now_mono now < w_reset_mono w"
    and "sc_reservation command = t" and "sc_operation_id command \<noteq> []" and "validate_key (re_key t) = None"
    and "now_mono now + settlement_retry_grace (config s) \<le> DURATION_MAX"
    and "unat (w_requests_used w) - unat (qc_requests (re_reserved t)) + unat (qc_requests (sc_final_charge command)) < 2 ^ 64"
    and "unat (w_tokens_used w) - unat (qc_tokens (re_reserved t)) + unat (qc_tokens (sc_final_charge command)) < 2 ^ 64"
  shows "\<exists>s' w'. settle s command now =
       (Inr \<lparr>sr_disposition = Applied, sr_snapshot = Some (snapshot w' (re_limits_at_admission t) now)\<rparr>, s') \<and>
     window_of s' (re_key t) = Some w' \<and> w_identity w' = w_identity w \<and>
     unat (w_requests_used w') = (if ql_requests (re_limits_at_admission t) = None then unat (w_requests_used w)
        else unat (w_requests_used w) - unat (qc_requests (re_reserved t)) + unat (qc_requests (sc_final_charge command))) \<and>
     unat (w_tokens_used w') = (if ql_tokens (re_limits_at_admission t) = None then unat (w_tokens_used w)
        else unat (w_tokens_used w) - unat (qc_tokens (re_reserved t)) + unat (qc_tokens (sc_final_charge command)))"
proof -
  note live = live_not_removable [OF assms(4)]
  obtain s0 cell n b st where s0: "map_of (buckets s0) (re_key t) = Some cell" "bucket_ok (instance_id s0) (re_key t) b"
    and p: "purge_expired (bc_state cell\<lparr>last_touched_mono := now_mono now\<rparr>) (now_mono now) (stats s0) = (n, b, st)"
    and rb: "map_of (admissions b) (re_request_id t) = Some r"
    and aw: "active_window b = still_open (now_mono now) (window_of s (re_key t))"
    and run: "\<And>res b st. settle_bucket (config s) command now (bc_state cell) (stats s0) = (res, b, st) \<Longrightarrow>
       settle s command now = (res, put s0 (re_key t) cell b st)"
    using settle_reaches [OF reachable_ok [OF assms(1)] assms(2) live assms(3,8,9,10)] by metis
  have w: "active_window b = Some w" using aw assms(5,7) by (simp add: still_open_def)
  then have cov: "covered w (admissions b)" using s0(2) by (simp add: bucket_ok_def)
  note sh = share_covered [OF cov rb assms(3,4,6)]
  obtain rq where rq: "adjusted_count (w_requests_used w) (qc_requests (re_reserved t)) (qc_requests (sc_final_charge command))
      (ql_requests (re_limits_at_admission t) \<noteq> None) = Some rq"
    "unat rq = (if ql_requests (re_limits_at_admission t) \<noteq> None
      then unat (w_requests_used w) - unat (qc_requests (re_reserved t)) + unat (qc_requests (sc_final_charge command))
      else unat (w_requests_used w))"
    by (rule adjusted_count_fits [OF sh(1) assms(12)])
  obtain tk where tk: "adjusted_count (w_tokens_used w) (qc_tokens (re_reserved t)) (qc_tokens (sc_final_charge command))
      (ql_tokens (re_limits_at_admission t) \<noteq> None) = Some tk"
    "unat tk = (if ql_tokens (re_limits_at_admission t) \<noteq> None
      then unat (w_tokens_used w) - unat (qc_tokens (re_reserved t)) + unat (qc_tokens (sc_final_charge command))
      else unat (w_tokens_used w))"
    by (rule adjusted_count_fits [OF sh(2) assms(13)])
  let ?res = "\<lparr>sr_disposition = Applied, sr_snapshot = Some (snapshot (charged w rq tk) (re_limits_at_admission t) now)\<rparr>"
  let ?r = "settled_record command ?res (now_mono now + settlement_retry_grace (config s)) r"
  have "settle_window b t (sc_final_charge command) now = Inr (?res, b\<lparr>active_window := Some (charged w rq tk)\<rparr>)"
    using w assms(6,7) rq(1) tk(1) by (simp add: settle_window_def Let_def charged_def)
  then obtain st' where "settle_bucket (config s) command now (bc_state cell) (stats s0) = (Inr ?res,
      b\<lparr>active_window := Some (charged w rq tk), admissions := AList.update (re_request_id t) ?r (admissions b)\<rparr>, st')"
    using settle_bucket_live [OF rb assms(3,4,8,11) p] by fastforce
  from run [OF this] rq(2) tk(2) show ?thesis
    by (intro exI [of _ "put _ _ _ _ _"] exI [of _ "charged w rq tk"]) (auto simp: window_of_def put_def update_conv')
qed

text \<open>
  C10. Settling an unsettled reservation whose window is still open succeeds whenever the corrected
  counts fit in 64 bits (in particular it never underflows), and replaces in each limited dimension
  exactly the reserved charge by the final one.
\<close>

theorem settlement_corrects_exactly:
  assumes "reachable s" and "lookup_record s (re_key t) (re_request_id t) = Some r"
    and "ar_decision r = Allowed t sn rp" and "live r"
    and "window_of s (re_key t) = Some w" and "w_identity w = re_window t" and "now_mono now < w_reset_mono w"
    and "sc_reservation command = t" and "sc_operation_id command \<noteq> []" and "validate_key (re_key t) = None"
    and "now_mono now + settlement_retry_grace (config s) \<le> DURATION_MAX"
    and "unat (w_requests_used w) - unat (qc_requests (re_reserved t)) + unat (qc_requests (sc_final_charge command)) < 2 ^ 64"
    and "unat (w_tokens_used w) - unat (qc_tokens (re_reserved t)) + unat (qc_tokens (sc_final_charge command)) < 2 ^ 64"
  shows "\<exists>s' w'. settle s command now =
       (Inr \<lparr>sr_disposition = Applied, sr_snapshot = Some (snapshot w' (re_limits_at_admission t) now)\<rparr>, s') \<and>
     window_of s' (re_key t) = Some w' \<and> w_identity w' = w_identity w \<and>
     unat (w_requests_used w') = (if ql_requests (re_limits_at_admission t) = None then unat (w_requests_used w)
        else unat (w_requests_used w) - unat (qc_requests (re_reserved t)) + unat (qc_requests (sc_final_charge command))) \<and>
     unat (w_tokens_used w') = (if ql_tokens (re_limits_at_admission t) = None then unat (w_tokens_used w)
        else unat (w_tokens_used w) - unat (qc_tokens (re_reserved t)) + unat (qc_tokens (sc_final_charge command)))"
  by (rule settle_open_window [OF assms])

theorem settlement_corrects_exactly_witness:
  "\<exists>s' w'. settle ex_store1 ex_settle (ex_now 20) =
      (Inr \<lparr>sr_disposition = Applied, sr_snapshot = Some (snapshot w' (re_limits_at_admission ex_token) (ex_now 20))\<rparr>, s') \<and>
     window_of s' ex_key = Some w' \<and> unat (w_tokens_used w') = 45"
proof -
  have t: "re_key ex_token = ex_key" "re_request_id ex_token = ''r1''" by (simp_all add: ex_token_def)
  have "ar_decision ex_record = Allowed ex_token ex_snapshot False" by (simp add: ex_record_def)
  from settlement_corrects_exactly [of ex_store1 ex_token, unfolded t,
      OF ex_reachable(2) ex_lookup(1) this ex_live ex_lookup(2) _ _ _ _ _ ex_clock, of ex_settle]
  show ?thesis by (force simp: ex_token_def ex_window_def ex_settle_def ex_now_def ex_key_def RateLimitKey_new_def validate_key_def)
qed

text \<open>
  Settling an unsettled reservation whose window is gone or expired changes no window: the call
  succeeds and says so.
\<close>

theorem stale_settlement_is_noop:
  assumes "reachable s" and "lookup_record s (re_key t) (re_request_id t) = Some r"
    and "ar_decision r = Allowed t sn rp" and "live r"
    and "\<forall>w. window_of s (re_key t) = Some w \<longrightarrow> w_identity w \<noteq> re_window t \<or> w_reset_mono w \<le> now_mono now"
    and "sc_reservation command = t" and "sc_operation_id command \<noteq> []" and "validate_key (re_key t) = None"
    and "now_mono now + settlement_retry_grace (config s) \<le> DURATION_MAX"
  shows "\<exists>s'. settle s command now = (Inr \<lparr>sr_disposition = StaleWindowNoop, sr_snapshot = None\<rparr>, s') \<and>
     windows_kept (now_mono now) s s'"
proof -
  note live = live_not_removable [OF assms(4)]
  obtain s0 cell n b st where wk: "windows_kept (now_mono now) s s0" and c: "map_of (buckets s0) (re_key t) = Some cell"
    and p: "purge_expired (bc_state cell\<lparr>last_touched_mono := now_mono now\<rparr>) (now_mono now) (stats s0) = (n, b, st)"
    and rb: "map_of (admissions b) (re_request_id t) = Some r"
    and aw: "active_window b = still_open (now_mono now) (window_of s (re_key t))"
    and run: "\<And>res b st. settle_bucket (config s) command now (bc_state cell) (stats s0) = (res, b, st) \<Longrightarrow>
       settle s command now = (res, put s0 (re_key t) cell b st)"
    using settle_reaches [OF reachable_ok [OF assms(1)] assms(2) live assms(3,6,7,8)] by metis
  let ?res = "\<lparr>sr_disposition = StaleWindowNoop, sr_snapshot = None\<rparr>"
  let ?r = "settled_record command ?res (now_mono now + settlement_retry_grace (config s)) r"
  have "settle_window b t (sc_final_charge command) now = Inr (?res, b)"
    using aw assms(5) by (auto simp: settle_window_def Let_def still_open_def split: option.splits)
  then obtain st' where "settle_bucket (config s) command now (bc_state cell) (stats s0) =
      (Inr ?res, b\<lparr>admissions := AList.update (re_request_id t) ?r (admissions b)\<rparr>, st')"
    by (rule settle_bucket_live [OF rb assms(3,4,6,9) p])
  from run [OF this] windows_kept_trans [OF wk put_windows [OF c]] purge_keeps_window [OF p]
  show ?thesis by fastforce
qed

theorem stale_settlement_is_noop_witness:
  "\<exists>s'. settle ex_store1 ex_settle (ex_now 60000000010) = (Inr \<lparr>sr_disposition = StaleWindowNoop, sr_snapshot = None\<rparr>, s')"
proof -
  have t: "re_key ex_token = ex_key" "re_request_id ex_token = ''r1''" by (simp_all add: ex_token_def)
  have d: "ar_decision ex_record = Allowed ex_token ex_snapshot False" by (simp add: ex_record_def)
  have late: "\<forall>w. window_of ex_store1 ex_key = Some w \<longrightarrow> w_identity w \<noteq> re_window ex_token \<or> w_reset_mono w \<le> now_mono (ex_now 60000000010)"
    by (simp add: ex_lookup(2) ex_window_def ex_now_def)
  have clock: "now_mono (ex_now 60000000010) + settlement_retry_grace (config ex_store1) \<le> DURATION_MAX"
    by (simp add: ex_now_def ex_store1_def ex_store_def config_default_def from_secs_def DURATION_MAX_def)
  from stale_settlement_is_noop [of ex_store1 ex_token, unfolded t,
      OF ex_reachable(2) ex_lookup(1) d ex_live late, of ex_settle] clock
  show ?thesis by (force simp: ex_settle_def ex_key_def RateLimitKey_new_def validate_key_def)
qed

lemma settle_settled:
  assumes ok: "store_ok s" and run: "settle s command now = (Inr res, s')" and fresh: "sr_disposition res \<noteq> Replayed"
    and clock: "now_mono now + settlement_retry_grace (config s) \<le> DURATION_MAX"
  obtains r sn rp where "sc_operation_id command \<noteq> []" "validate_key (re_key (sc_reservation command)) = None"
    "ar_decision r = Allowed (sc_reservation command) sn rp"
    "lookup_record s' (re_key (sc_reservation command)) (re_request_id (sc_reservation command)) =
       Some (settled_record command res (now_mono now + settlement_retry_grace (config s)) r)"
proof -
  let ?s = "maybe_cleanup s now" and ?t = "sc_reservation command"
  have sh: "config ?s = config s" using maybe_cleanup_shape by (simp add: same_shape_def)
  from run have v: "sc_operation_id command \<noteq> []" "validate_envelope (instance_id ?s) ?t = None"
    and "map_of (buckets ?s) (re_key ?t) \<noteq> None"
    by (auto simp: settle_def settle_inner_def Let_def acquire_bucket_def split: if_splits option.splits)
  then obtain cell where c: "map_of (buckets ?s) (re_key ?t) = Some cell" by auto
  obtain x b' st' where bk: "settle_bucket (config s) command now (bc_state cell) (stats ?s) = (x, b', st')"
    by (metis prod_cases3)
  from run_leased_existing [where op = "settle_bucket (config s) command now", OF bk] run v
  have x: "x = Inr res" "s' = put ?s (re_key ?t) cell b' st'"
    by (simp_all add: settle_def settle_inner_def Let_def acquire_existing [OF c] sh)
  obtain n b st where
    p: "purge_expired (bc_state cell\<lparr>last_touched_mono := now_mono now\<rparr>) (now_mono now) (stats ?s) = (n, b, st)"
    by (metis prod_cases3)
  from bk clock p show thesis
  proof (cases rule: settle_bucket_cases)
    case unchanged
    with x fresh show ?thesis by simp
  next
    case (settled ar sn rp result b1 st1)
    with x v show ?thesis
      by (intro that [of ar sn rp])
        (auto simp: validate_envelope_def lookup_record_def put_def update_conv' split: if_splits)
  qed
qed

text \<open>
  A settlement may be retried for as long as its record is retained: within the grace period
  the same command answers \<open>Replayed\<close> with the snapshot of the first answer and changes no window.
\<close>

theorem settlement_replays:
  assumes "reachable s" and "settle s command now = (Inr res, s1)" and "sr_disposition res \<noteq> Replayed"
    and "now_mono now + settlement_retry_grace (config s) \<le> DURATION_MAX"
    and "now_mono now2 < now_mono now + settlement_retry_grace (config s)"
  shows "\<exists>s2. settle s1 command now2 = (Inr \<lparr>sr_disposition = Replayed, sr_snapshot = sr_snapshot res\<rparr>, s2) \<and>
     windows_kept (now_mono now2) s1 s2"
proof -
  let ?t = "sc_reservation command"
  have ok: "store_ok s" by (rule reachable_ok [OF assms(1)])
  have ok1: "store_ok s1" using safeD(1) [OF settle_safe [OF ok assms(4)]] assms(2) by (metis snd_conv)
  obtain r sn rp where r: "sc_operation_id command \<noteq> []" "validate_key (re_key ?t) = None"
    "ar_decision r = Allowed ?t sn rp"
    "lookup_record s1 (re_key ?t) (re_request_id ?t) =
       Some (settled_record command res (now_mono now + settlement_retry_grace (config s)) r)"
    by (rule settle_settled [OF ok assms(2-4)])
  let ?r = "settled_record command res (now_mono now + settlement_retry_grace (config s)) r"
  have keep: "\<not> removable (now_mono now2) ?r" using assms(5) by (simp add: removable_def settled_record_def)
  have d: "ar_decision ?r = Allowed ?t sn rp" using r(3) by simp
  obtain s0 cell n b st where wk: "windows_kept (now_mono now2) s1 s0" and c: "map_of (buckets s0) (re_key ?t) = Some cell"
    and p: "purge_expired (bc_state cell\<lparr>last_touched_mono := now_mono now2\<rparr>) (now_mono now2) (stats s0) = (n, b, st)"
    and rb: "map_of (admissions b) (re_request_id ?t) = Some ?r"
    and run: "\<And>res b st. settle_bucket (config s1) command now2 (bc_state cell) (stats s0) = (res, b, st) \<Longrightarrow>
       settle s1 command now2 = (res, put s0 (re_key ?t) cell b st)"
    using settle_reaches [OF ok1 r(4) keep d refl r(1,2)] by metis
  obtain st' where "settle_bucket (config s1) command now2 (bc_state cell) (stats s0) =
      (Inr \<lparr>sr_disposition = Replayed, sr_snapshot = sr_snapshot res\<rparr>, b, st')"
    using rb r(3) unfolding settle_bucket_def p by (simp add: Let_def) (simp add: settled_record_def)
  from run [OF this] windows_kept_trans [OF wk touch_put_windows [OF c p]] show ?thesis by blast
qed

theorem settlement_replays_witness:
  "\<exists>res s1 s2. settle ex_store1 ex_settle (ex_now 20) = (Inr res, s1) \<and> sr_disposition res = Applied \<and>
     settle s1 ex_settle (ex_now 25) = (Inr \<lparr>sr_disposition = Replayed, sr_snapshot = sr_snapshot res\<rparr>, s2)"
proof -
  obtain res s1 where run: "settle ex_store1 ex_settle (ex_now 20) = (Inr res, s1)" and a: "sr_disposition res = Applied"
    using ex_settled by (cases "settle ex_store1 ex_settle (ex_now 20)") auto
  have soon: "now_mono (ex_now 25) < now_mono (ex_now 20) + settlement_retry_grace (config ex_store1)"
    by (simp add: ex_now_def ex_store1_def ex_store_def config_default_def from_secs_def)
  from settlement_replays [OF ex_reachable(2) run _ ex_clock soon] run a show ?thesis by auto
qed

section \<open>Statistics, capacities and panics\<close>

lemma total_le: "(\<And>b. f b \<le> g b) \<Longrightarrow> total_of f s \<le> total_of g s"
  unfolding total_of_def by (rule asum_mono) simp

lemma acount_le: "acount P al \<le> length al"
  by (simp add: acount_def retain_def)

lemma unat_of_nat_le: "n \<le> unat (cap :: usize) \<Longrightarrow> unat (of_nat n :: usize) = n"
proof -
  have "unat cap < 2 ^ 64" using unsigned_less [of cap] by simp
  then show "n \<le> unat cap \<Longrightarrow> ?thesis" by (simp add: unat_of_nat)
qed

text \<open>
  In every reachable store the counters of the statistics are exactly the numbers of buckets,
  records, unsettled, rejected and settled reservations, and none exceeds its configured capacity.
\<close>

theorem statistics_exact_and_bounded:
  assumes "reachable s"
  shows "unat (st_buckets (stats s)) = length (buckets s) \<and> length (buckets s) \<le> unat (max_buckets (config s)) \<and>
     unat (st_idempotency_records (stats s)) = total_of n_all s \<and>
     total_of n_all s \<le> unat (saturating_sub (max_idempotency_records (config s)) (recovery_record_headroom (config s))) \<and>
     unat (st_live_reservations (stats s)) = total_of n_live s \<and>
     total_of n_live s \<le> unat (max_live_reservations (config s)) \<and>
     unat (st_rejected_records (stats s)) = total_of n_rejected s \<and>
     unat (st_recovery_records (stats s)) = total_of n_settled s \<and>
     (\<forall>(k, cell) \<in> set (buckets s). length (admissions (bc_state cell)) \<le> unat (max_records_per_bucket (config s)))"
proof -
  have ok: "counters_ok s" "capacity_ok s" "\<forall>(k, cell) \<in> set (buckets s). cell_ok s k cell"
    using reachable_ok [OF assms] by (auto simp: store_ok_with_def)
  have cap: "total_of n_all s \<le> unat (admission_capacity (config s))" using ok(2) by (simp add: capacity_ok_def)
  have "total_of n_rejected s \<le> total_of n_all s" "total_of n_settled s \<le> total_of n_all s"
    by (rule total_le, simp add: n_rejected_def n_settled_def acount_le)+
  with cap have "unat (of_nat (total_of n_rejected s) :: usize) = total_of n_rejected s"
    "unat (of_nat (total_of n_settled s) :: usize) = total_of n_settled s"
    "unat (of_nat (total_of n_all s) :: usize) = total_of n_all s"
    by (meson order_trans unat_of_nat_le)+
  with ok cap show ?thesis
    by (auto simp: counters_ok_def capacity_ok_def admission_capacity_def cell_ok_def unat_of_nat_le)
qed

theorem statistics_exact_and_bounded_witness:
  "unat (st_live_reservations (stats ex_store1)) = total_of n_live ex_store1 \<and> total_of n_live ex_store1 \<le> 200000"
  using statistics_exact_and_bounded [OF ex_reachable(2)] by (simp add: ex_store1_def ex_store_def config_default_def)

lemma admit_bucket_no_panic: "fst (admit_bucket iid cfg command now wid rid b st) \<noteq> Inl Panicked"
proof -
  have "r \<noteq> Inl Panicked" if "admit_reserved iid cfg command now wid rid ru b' st1 = (r, b2, st2)" for r ru b' st1 b2 st2
    using that by (cases rule: admit_reserved_cases) auto
  then show ?thesis unfolding admit_bucket_def
    by (auto simp: Let_def split: prod.splits option.splits) (metis fst_conv prod.collapse)+
qed

lemma admit_once_no_panic:
  assumes ok: "store_ok s" shows "fst (admit_once s command now wid rid) \<noteq> Inl Panicked"
proof -
  have "fst (run_leased s2 k cell f) = fst (f (bc_state cell) (stats s2))" for s2 k cell
    and f :: "BucketState \<Rightarrow> RateLimitStoreStats \<Rightarrow> AdmitAttempt rl_result \<times> BucketState \<times> RateLimitStoreStats"
    by (simp add: run_leased_def split: prod.split)
  then show ?thesis
    by (auto simp: admit_once_def acquire_bucket_def Let_def admit_bucket_no_panic split: option.splits prod.splits if_splits)
qed

lemma settle_inner_no_panic:
  "fst (settle_inner s command now) \<noteq> Inl Panicked"
proof -
  have w: "sr_disposition res \<noteq> Replayed" if "settle_window b t final now = Inr (res, b1)" for b t final res b1
    using that by (cases rule: settle_window_cases) auto
  have found: "admissions b1 = admissions b" if "settle_window b t final now = Inr (res, b1)" for b t final res b1
    using that by (cases rule: settle_window_cases) auto
  have "fst (settle_bucket cfg command now b st) \<noteq> Inl Panicked" for cfg b st
    unfolding settle_bucket_def Let_def
    by (auto split: prod.splits option.splits sum.splits AdmissionDecision.splits SettlementDisposition.splits
        simp: settle_window_no_panic dest: w found)
  then show ?thesis
    by (auto simp: settle_inner_def acquire_bucket_def Let_def run_leased_def split: option.splits prod.splits)
      (metis fst_conv)+
qed

lemma inspect_inner_no_panic: "fst (inspect_inner s query now) \<noteq> Inl Panicked"
proof -
  have l: "fst (inspect_leased s key now absent f) \<noteq> Inl Panicked"
    if "absent \<noteq> Inl Panicked" "\<And>b. f b \<noteq> Inl Panicked" for key absent f
    using that by (auto simp: inspect_leased_def acquire_bucket_def Let_def run_leased_def split: option.splits prod.splits)
  have "prospective_result w lim now \<noteq> Inl Panicked" for w lim
    by (simp add: prospective_result_def split: option.split)
  moreover have "inspect_settlement_record b t q \<noteq> Inl Panicked" for b t q
    by (simp add: inspect_settlement_record_def split: option.split AdmissionDecision.split)
  ultimately show ?thesis
    by (cases query) (simp_all add: l split: option.split)
qed

text \<open>
  C37. No admission, settlement and inspection panics in a reachable store. The branches of the code that would panic are
  branches of the model and none of them is taken: the \<open>unreachable!\<close> for a bucket that was not created,
  for a rejection without a reason, for a settlement that is a replay and at the end of the loop over
  the attempts, the \<open>expect\<close> on the window just opened, on the window of the settlement and on the record
  of the settlement, and the subtraction that undoes the generation of a new window.
\<close>

theorem operations_never_panic:
  assumes "reachable s"
  shows "fst (admit s command now ids) \<noteq> Inl Panicked \<and> fst (settle s sc now) \<noteq> Inl Panicked \<and>
     fst (inspect s query now) \<noteq> Inl Panicked"
proof -
  have ok: "store_ok s" by (rule reachable_ok [OF assms])
  note m = maybe_cleanup_safe [OF ok, of "\<lambda>_ _. True" now]
  obtain r s1 where run: "admit_once (maybe_cleanup s now) command now (fst (ids 0)) (snd (ids 0)) = (r, s1)" by force
  have s1: "store_ok s1" using safeD(1) [OF admit_once_safe [OF safeD(1) [OF m]]] run by (metis snd_conv)
  have "fst (admit_retry s2 command now w q) \<noteq> Inl Panicked" if "store_ok s2" for s2 w q
    using admit_once_no_panic [OF that, of command now w q] unfolding admit_retry_def
    by (auto split: prod.splits sum.splits failure.splits AdmitAttempt.splits)
  then have "fst (admit s command now ids) \<noteq> Inl Panicked"
    using admit_once_no_panic [OF safeD(1) [OF m], of command now "fst (ids 0)" "snd (ids 0)"] run
      safeD(1) [OF cleanup_at_safe [OF s1]]
    by (auto simp: admit_eq Let_def split: option.splits sum.splits failure.splits AdmitAttempt.splits)
  then show ?thesis by (simp add: settle_def settle_inner_no_panic inspect_def inspect_inner_no_panic)
qed

theorem operations_never_panic_witness: "fst (settle ex_store1 ex_settle (ex_now 20)) \<noteq> Inl Panicked"
  using operations_never_panic [OF ex_reachable(2)] by blast

section \<open>Cleanup reclaims everything that has expired\<close>

definition swept :: "duration \<Rightarrow> BucketCell \<Rightarrow> bool" where
  "swept now cell =
     ((\<forall>w. active_window (bc_state cell) = Some w \<longrightarrow> now < w_reset_mono w) \<and>
      (\<forall>(q, r) \<in> set (admissions (bc_state cell)). \<not> removable now r) \<and>
      (active_window (bc_state cell) \<noteq> None \<or> admissions (bc_state cell) \<noteq> []))"

lemma cleanup_ticket_sweeps:
  assumes ok: "store_ok_with (insert t T) s" and run: "cleanup_ticket s now t = (s', r, n, q)"
    and c': "map_of (buckets s') k = Some c'"
  shows "\<exists>c. map_of (buckets s) k = Some c \<and> bc_id c' = bc_id c \<and> (swept now c \<or> t = ticket_of k c \<longrightarrow> swept now c')"
proof (cases "upgrade s (ct_cell t)")
  case False
  have "t \<noteq> ticket_of k c" if "map_of (buckets s) k = Some c" for c
    using False map_of_SomeD [OF that] by (auto simp: upgrade_def list_ex_iff)
  with False run c' show ?thesis by (auto simp: cleanup_ticket_def)
next
  case True
  obtain cell where c: "map_of (buckets s) (ct_key t) = Some cell" "bc_id cell = ct_cell t"
    by (rule upgrade_cell [OF ok True])
  obtain m b st where p: "purge_expired (bc_state cell) now (stats s) = (m, b, st)" by (metis prod_cases3)
  have sw: "swept now (cell\<lparr>bc_state := b\<rparr>)" if "active_window b \<noteq> None \<or> admissions b \<noteq> []"
    using that purge_window(2,4) [OF p] by (auto simp: swept_def set_retain)
  show ?thesis
  proof (cases "k = ct_key t")
    case True
    with run c' c sw show ?thesis unfolding cleanup_ticket_purges [OF ok \<open>upgrade s (ct_cell t)\<close> p c]
      by (auto simp: put_def update_conv' delete_conv' split: if_splits)
  next
    case False
    with run c' have "map_of (buckets s) k = Some c'" unfolding cleanup_ticket_purges [OF ok \<open>upgrade s (ct_cell t)\<close> p c]
      by (auto simp: put_def update_conv' delete_conv' split: if_splits)
    with False show ?thesis by auto
  qed
qed

lemma cleanup_tickets_sweep:
  "store_ok_with (set ts \<union> T) s \<Longrightarrow> cleanup_tickets s now ts = (s', r, n, q) \<Longrightarrow> map_of (buckets s') k = Some c' \<Longrightarrow>
     \<exists>c. map_of (buckets s) k = Some c \<and> bc_id c' = bc_id c \<and> (swept now c \<or> ticket_of k c \<in> set ts \<longrightarrow> swept now c')"
proof (induction s now ts arbitrary: T s' r n q rule: cleanup_tickets.induct)
  case (2 s now t ts)
  obtain s1 r1 n1 q1 where 1: "cleanup_ticket s now t = (s1, r1, n1, q1)" by (metis prod_cases4)
  obtain s2 r2 n2 q2 where 2: "cleanup_tickets s1 now ts = (s2, r2, n2, q2)" by (metis prod_cases4)
  have ok: "store_ok_with (insert t (set ts \<union> T)) s" using "2.prems"(1) by simp
  from cleanup_ticket_ok [OF this 1] have s1: "store_ok_with (set ts \<union> (T \<union> set q1)) s1" by (simp add: Un_assoc)
  have "s' = s2" using "2.prems"(2) 1 2 by simp
  with "2.IH" [OF 1 [symmetric] refl refl refl s1] 2 "2.prems"(3)
  obtain c1 where c1: "map_of (buckets s1) k = Some c1" "bc_id c' = bc_id c1"
    "swept now c1 \<or> ticket_of k c1 \<in> set ts \<longrightarrow> swept now c'" by auto
  from cleanup_ticket_sweeps [OF ok 1 c1(1)] c1 show ?case by auto
qed auto

text \<open>
  C38. A cleanup pass whose batch covers the queue reclaims everything: afterwards no bucket holds an
  expired window or a removable record, and none is empty.
\<close>

theorem cleanup_reclaims_expired:
  assumes "reachable s" and "length (cleanup_queue s) \<le> unat (cleanup_scan_batch (config s))"
    and "(k, cell) \<in> set (buckets (snd (cleanup_now s now)))"
  shows "swept (now_mono now) cell"
proof -
  have ok: "store_ok s" by (rule reachable_ok [OF assms(1)])
  let ?s1 = "s\<lparr>stats := (stats s)\<lparr>st_cleanup_runs := st_cleanup_runs (stats s) + 1\<rparr>, cleanup_queue := []\<rparr>"
  obtain s2 r m q where run: "cleanup_tickets ?s1 (now_mono now) (cleanup_queue s) = (s2, r, m, q)" by (metis prod_cases4)
  have ok1: "store_ok_with (set (cleanup_queue s) \<union> {}) ?s1" by (rule store_ok_cong [OF ok]) simp_all
  have bs: "buckets (snd (cleanup_now s now)) = buckets s2"
    using assms(2) run by (simp add: cleanup_now_def cleanup_at_def Let_def)
  have "distinct (map fst (buckets s2))"
    using cleanup_tickets_ok [OF ok1 run] by (simp add: store_ok_with_def)
  then have "map_of (buckets s2) k = Some cell" using assms(3) bs by simp
  from cleanup_tickets_sweep [OF ok1 run this] obtain c where c: "map_of (buckets s) k = Some c"
    "ticket_of k c \<in> set (cleanup_queue s) \<longrightarrow> swept (now_mono now) cell" by auto
  have "(k, bc_id c) \<in> cell_ids s" using map_of_SomeD [OF c(1)] by (force simp: cell_ids_def)
  then have "ticket_of k c \<in> set (cleanup_queue s)" using ok by (auto simp: store_ok_with_def tickets_ok_def)
  with c(2) show ?thesis by simp
qed

theorem cleanup_reclaims_expired_witness:
  "map fst (buckets (snd (cleanup_now ex_store1 (ex_now 70000000000)))) = [ex_key] \<and>
   list_all (\<lambda>e. swept (now_mono (ex_now 70000000000)) (snd e)) (buckets (snd (cleanup_now ex_store1 (ex_now 70000000000))))"
proof
  have "length (cleanup_queue ex_store1) \<le> unat (cleanup_scan_batch (config ex_store1))"
    by (simp add: ex_store1_def ex_store_def config_default_def)
  from cleanup_reclaims_expired [OF ex_reachable(2) this]
  show "list_all (\<lambda>e. swept (now_mono (ex_now 70000000000)) (snd e)) (buckets (snd (cleanup_now ex_store1 (ex_now 70000000000))))"
    by (auto simp: list_all_iff)
  show "map fst (buckets (snd (cleanup_now ex_store1 (ex_now 70000000000)))) = [ex_key]"
    by (simp add: rl_eval cleanup_now_def cleanup_at_def cleanup_ticket_def upgrade_def bucket_removable_def)
qed

end
