(* ===== verification/RL_Recovery.thy ===== *)
theory RL_Recovery
  imports RL_Quota
begin

text \<open>
  \<open>kong-ai/src/ratelimit/orchestration.rs\<close>: what a client of a quota store does when the outcome
  of a call is unknown (the acknowledgement was lost): ask the store what it recorded, then repeat
  the identical command at most once. The trait \<open>RateLimitStore\<close> is the record
  \<open>quota_store\<close>; the locales state what the client relies on, and the memory store is shown to
  provide it.
\<close>

section \<open>The client\<close>

record 's quota_store =
  qs_admit :: "'s \<Rightarrow> AdmitCommand \<Rightarrow> AdmissionDecision rl_result \<times> 's"
  qs_settle :: "'s \<Rightarrow> SettleCommand \<Rightarrow> SettlementResult rl_result \<times> 's"
  qs_inspect :: "'s \<Rightarrow> InspectQuery \<Rightarrow> InspectResult rl_result \<times> 's"

definition outcome_unknown :: "'a rl_result \<Rightarrow> bool" where
  "outcome_unknown r = (case r of Inl (Err e) \<Rightarrow> er_kind e = OutcomeUnknown | _ \<Rightarrow> False)"

definition inspect_admission ::
    "'s quota_store \<Rightarrow> 's \<Rightarrow> AdmitCommand \<Rightarrow> AdmissionDecision option rl_result \<times> 's" where
  "inspect_admission store s command =
     (case qs_inspect store s (QAdmission (ac_key command) (ac_request_id command)) of
        (Inl f, s') \<Rightarrow> (Inl f, s')
      | (Inr NotFound, s') \<Rightarrow> (Inr None, s')
      | (Inr (RAdmission d), s') \<Rightarrow> (Inr (Some d), s')
      | (Inr _, s') \<Rightarrow> (Inl (Err (corrupt_error ''quota admission inspect returned an incompatible result'')), s'))"

definition inspect_settlement ::
    "'s quota_store \<Rightarrow> 's \<Rightarrow> SettleCommand \<Rightarrow> SettlementResult option rl_result \<times> 's" where
  "inspect_settlement store s command =
     (case qs_inspect store s (QSettlement (sc_reservation command) (sc_operation_id command)) of
        (Inl f, s') \<Rightarrow> (Inl f, s')
      | (Inr NotFound, s') \<Rightarrow> (Inr None, s')
      | (Inr (RSettlement r), s') \<Rightarrow> (Inr (Some r), s')
      | (Inr _, s') \<Rightarrow> (Inl (Err (corrupt_error ''quota settlement inspect returned an incompatible result'')), s'))"

definition recover_admission ::
    "'s quota_store \<Rightarrow> 's \<Rightarrow> AdmitCommand \<Rightarrow> RateLimitStoreError \<Rightarrow> AdmissionDecision rl_result \<times> 's" where
  "recover_admission store s command initial_error =
     (let retry = (\<lambda>s1.
            case qs_admit store s1 command of
              (r, s2) \<Rightarrow>
                if outcome_unknown r
                then (case inspect_admission store s2 command of
                        (Inr (Some d), s3) \<Rightarrow> (Inr d, s3)
                      | (Inr None, s3) \<Rightarrow> (Inl (Err initial_error), s3)
                      | (Inl f, s3) \<Rightarrow>
                          (Inl (if outcome_unknown (Inl f :: AdmissionDecision option rl_result) then Err initial_error else f), s3))
                else (r, s2))
      in case inspect_admission store s command of
           (Inr (Some d), s1) \<Rightarrow> (Inr d, s1)
         | (Inr None, s1) \<Rightarrow> retry s1
         | (Inl f, s1) \<Rightarrow> if outcome_unknown (Inl f :: AdmissionDecision option rl_result) then retry s1 else (Inl f, s1))"

definition recover_settlement ::
    "'s quota_store \<Rightarrow> 's \<Rightarrow> SettleCommand \<Rightarrow> RateLimitStoreError \<Rightarrow> SettlementResult rl_result \<times> 's" where
  "recover_settlement store s command initial_error =
     (let retry = (\<lambda>s1.
            case qs_settle store s1 command of
              (r, s2) \<Rightarrow>
                if outcome_unknown r
                then (case inspect_settlement store s2 command of
                        (Inr (Some d), s3) \<Rightarrow> (Inr d, s3)
                      | (Inr None, s3) \<Rightarrow> (Inl (Err initial_error), s3)
                      | (Inl f, s3) \<Rightarrow>
                          (Inl (if outcome_unknown (Inl f :: SettlementResult option rl_result) then Err initial_error else f), s3))
                else (r, s2))
      in case inspect_settlement store s command of
           (Inr (Some d), s1) \<Rightarrow> (Inr d, s1)
         | (Inr None, s1) \<Rightarrow> retry s1
         | (Inl f, s1) \<Rightarrow> if outcome_unknown (Inl f :: SettlementResult option rl_result) then retry s1 else (Inl f, s1))"

definition admit_with_recovery ::
    "'s quota_store \<Rightarrow> 's \<Rightarrow> AdmitCommand \<Rightarrow> AdmissionDecision rl_result \<times> 's" where
  "admit_with_recovery store s command =
     (case qs_admit store s command of
        (Inl (Err e), s1) \<Rightarrow>
          if er_kind e = OutcomeUnknown then recover_admission store s1 command e else (Inl (Err e), s1)
      | (r, s1) \<Rightarrow> (r, s1))"

definition settle_with_recovery ::
    "'s quota_store \<Rightarrow> 's \<Rightarrow> SettleCommand \<Rightarrow> SettlementResult rl_result \<times> 's" where
  "settle_with_recovery store s command =
     (case qs_settle store s command of
        (Inl (Err e), s1) \<Rightarrow>
          if er_kind e = OutcomeUnknown then recover_settlement store s1 command e else (Inl (Err e), s1)
      | (r, s1) \<Rightarrow> (r, s1))"

section \<open>What the client relies on\<close>

text \<open>
  \<open>granted s command d\<close>: the store holds an unsettled reservation for the command.
  \<open>uncharged s s'\<close>: no quota was charged between the two states. A store may answer any call with
  \<open>OutcomeUnknown\<close> (whether or not it took effect).
\<close>

locale admission_store =
  fixes store :: "'s quota_store" and good :: "'s \<Rightarrow> bool"
    and granted :: "'s \<Rightarrow> AdmitCommand \<Rightarrow> AdmissionDecision \<Rightarrow> bool"
    and uncharged :: "'s \<Rightarrow> 's \<Rightarrow> bool"
  assumes uncharged_trans: "uncharged s s1 \<Longrightarrow> uncharged s1 s2 \<Longrightarrow> uncharged s s2"
    and admit_again: "good s \<Longrightarrow> granted s command d \<Longrightarrow> qs_admit store s command = (r, s') \<Longrightarrow>
      (r = Inr (as_replayed d) \<or> outcome_unknown r) \<and> good s' \<and> granted s' command d \<and> uncharged s s'"
    and inspect_granted: "good s \<Longrightarrow> granted s command d \<Longrightarrow>
      qs_inspect store s (QAdmission (ac_key command) (ac_request_id command)) = (q, s') \<Longrightarrow>
      (q = Inr (RAdmission (as_replayed d)) \<or> outcome_unknown q) \<and> good s' \<and> granted s' command d \<and> uncharged s s'"
begin

lemma inspect_admission_granted:
  assumes "good s" "granted s command d" "inspect_admission store s command = (r, s')"
  shows "(r = Inr (Some (as_replayed d)) \<or> outcome_unknown r) \<and> good s' \<and> granted s' command d \<and> uncharged s s'"
  using assms(3) inspect_granted [OF assms(1,2)]
  by (auto simp: inspect_admission_def outcome_unknown_def split: prod.splits sum.splits InspectResult.splits)

text \<open>
  After a grant whose acknowledgement was lost, recovery answers with that grant or with an unknown
  outcome, and charges nothing again.
\<close>

lemma recover_granted:
  assumes "good s" "granted s command d" "er_kind e = OutcomeUnknown" "recover_admission store s command e = (r, s')"
  shows "(r = Inr (as_replayed d) \<or> outcome_unknown r) \<and> granted s' command d \<and> uncharged s s'"
proof -
  obtain i1 s1 where i: "inspect_admission store s command = (i1, s1)" by force
  note g1 = inspect_admission_granted [OF assms(1,2) i]
  obtain r2 s2 where a: "qs_admit store s1 command = (r2, s2)" by force
  have g2: "(r2 = Inr (as_replayed d) \<or> outcome_unknown r2) \<and> good s2 \<and> granted s2 command d \<and> uncharged s s2"
    using admit_again [OF _ _ a] g1 uncharged_trans by blast
  obtain i3 s3 where i3: "inspect_admission store s2 command = (i3, s3)" by force
  have g3: "(i3 = Inr (Some (as_replayed d)) \<or> outcome_unknown i3) \<and> granted s3 command d \<and> uncharged s s3"
    using inspect_admission_granted [OF _ _ i3] g2 uncharged_trans by blast
  have "s' = s1 \<and> r = Inr (as_replayed d) \<or> s' = s2 \<and> r = Inr (as_replayed d) \<or>
      s' = s3 \<and> (r = Inr (as_replayed d) \<or> outcome_unknown r)"
    using assms(3,4) i a i3 g1 g2 g3 unfolding recover_admission_def Let_def
    by (auto simp: outcome_unknown_def split: sum.splits failure.splits option.splits if_splits)
  then show ?thesis using g1 g2 g3 by blast
qed

lemma admit_with_recovery_granted:
  assumes "good s" "granted s command d" "admit_with_recovery store s command = (r, s')"
  shows "(r = Inr (as_replayed d) \<or> outcome_unknown r) \<and> granted s' command d \<and> uncharged s s'"
proof -
  obtain r1 s1 where a: "qs_admit store s command = (r1, s1)" by force
  note g1 = admit_again [OF assms(1,2) a]
  show ?thesis
  proof (cases "outcome_unknown r1")
    case True
    then obtain e where e: "r1 = Inl (Err e)" "er_kind e = OutcomeUnknown"
      by (auto simp: outcome_unknown_def split: sum.splits failure.splits)
    with a assms(3) have "recover_admission store s1 command e = (r, s')" by (simp add: admit_with_recovery_def)
    from recover_granted [OF _ _ e(2) this] g1 uncharged_trans show ?thesis by blast
  next
    case False
    with g1 a assms(3) show ?thesis by (auto simp: admit_with_recovery_def)
  qed
qed

end

section \<open>The memory store provides it\<close>

lemma inspect_leased_finds:
  assumes ok: "store_ok s" and r: "lookup_record s key q = Some r" and keep: "\<not> removable (now_mono now) r"
  obtains b s' where "inspect_leased (maybe_cleanup s now) key now absent f = (f b, s')"
    "map_of (admissions b) q = Some r" "windows_kept (now_mono now) s s'"
proof -
  let ?s = "maybe_cleanup s now"
  have m: "store_ok ?s" "retains (now_mono now) s ?s" "windows_kept (now_mono now) s ?s"
    using maybe_cleanup_ok [OF ok] by auto
  from m(2) r keep have "lookup_record ?s key q = Some r" by (simp add: retains_def)
  then obtain cell where c: "map_of (buckets ?s) key = Some cell" "map_of (admissions (bc_state cell)) q = Some r"
    by (rule lookup_cell)
  have bo: "bucket_ok (instance_id ?s) key (bc_state cell)" using store_okD(1) [OF m(1) c(1)] by (simp add: cell_ok_def)
  obtain n b st where
    p: "purge_expired (bc_state cell\<lparr>last_touched_mono := now_mono now\<rparr>) (now_mono now) (stats ?s) = (n, b, st)"
    by (metis prod_cases3)
  let ?op = "\<lambda>b st. let (b', st') = touch_purge now b st in (f b', b', st')"
  have "?op (bc_state cell) (stats ?s) = (f b, b, st)" by (simp add: touch_purge_def p)
  from run_leased_existing [where op = ?op, OF this]
  have "inspect_leased ?s key now absent f = (f b, put ?s key cell b st)"
    by (simp add: inspect_leased_def acquire_existing [OF c(1)])
  then show thesis
    by (rule that [OF _ purge_live [OF bo p c(2) keep] windows_kept_trans [OF m(3) touch_put_windows [OF c(1) p]]])
qed

lemma inspect_finds_admission:
  assumes "store_ok s" "lookup_record s key q = Some r" "\<not> removable (now_mono now) r"
    "validate_key key = None" "q \<noteq> []"
  shows "\<exists>s'. inspect s (QAdmission key q) now = (Inr (RAdmission (as_replayed (ar_decision r))), s') \<and>
    windows_kept (now_mono now) s s'"
proof -
  let ?f = "\<lambda>b :: BucketState. case map_of (admissions b) q of
      Some r \<Rightarrow> Inr (RAdmission (as_replayed (ar_decision r))) | None \<Rightarrow> (Inr NotFound :: InspectResult rl_result)"
  obtain b s' where "inspect_leased (maybe_cleanup s now) key now (Inr NotFound) ?f = (?f b, s')"
    "map_of (admissions b) q = Some r" "windows_kept (now_mono now) s s'"
    by (rule inspect_leased_finds [where f = ?f and absent = "Inr NotFound", OF assms(1-3)])
  with assms(4,5) show ?thesis by (simp add: inspect_def)
qed

lemma inspect_finds_settlement:
  assumes "store_ok s" "lookup_record s (re_key t) (re_request_id t) = Some r" "\<not> removable (now_mono now) r"
    "validate_envelope (instance_id s) t = None" "se_operation_id se \<noteq> []"
    "ar_decision r = Allowed t sn rp" "ar_settlement r = Some se"
  shows "\<exists>s'. inspect s (QSettlement t (se_operation_id se)) now = (Inr (RSettlement (se_result se)), s') \<and>
    windows_kept (now_mono now) s s'"
proof -
  let ?f = "\<lambda>b. inspect_settlement_record b t (se_operation_id se)"
  obtain b s' where "inspect_leased (maybe_cleanup s now) (re_key t) now (Inr NotFound) ?f = (?f b, s')"
    "map_of (admissions b) (re_request_id t) = Some r" "windows_kept (now_mono now) s s'"
    by (rule inspect_leased_finds [where f = ?f and absent = "Inr NotFound", OF assms(1-3)])
  moreover have "instance_id (maybe_cleanup s now) = instance_id s"
    using maybe_cleanup_shape by (simp add: same_shape_def)
  ultimately show ?thesis using assms(4-7) by (simp add: inspect_def inspect_settlement_record_def)
qed

text \<open>
  The memory store behind a link that may lose a call or its acknowledgement. \<open>clock n\<close>,
  \<open>ids n\<close> and \<open>fate n\<close> are the clock reading, the drawn identifiers and the fate of call
  \<open>n\<close>; with \<open>fate\<close> constantly \<open>Answered\<close> it is the memory store itself.
\<close>

datatype fate = Answered | AckLost | CallLost

definition deliver :: "fate \<Rightarrow> 'a rl_result \<times> Store \<Rightarrow> Store \<Rightarrow> nat \<Rightarrow> 'a rl_result \<times> Store \<times> nat" where
  "deliver fa rs s n =
     (let unknown = Inl (Err \<lparr>er_kind = OutcomeUnknown, er_message = ''acknowledgement lost''\<rparr>)
      in case fa of
           Answered \<Rightarrow> (fst rs, snd rs, Suc n)
         | AckLost \<Rightarrow> (unknown, snd rs, Suc n)
         | CallLost \<Rightarrow> (unknown, s, Suc n))"

definition memory_store ::
    "(nat \<Rightarrow> RateLimitNow) \<Rightarrow> (nat \<Rightarrow> nat \<Rightarrow> uuid \<times> uuid) \<Rightarrow> (nat \<Rightarrow> fate) \<Rightarrow> (Store \<times> nat) quota_store" where
  "memory_store clock ids fate =
     \<lparr>qs_admit = (\<lambda>(s, n) command. deliver (fate n) (admit s command (clock n) (ids n)) s n),
      qs_settle = (\<lambda>(s, n) command. deliver (fate n) (settle s command (clock n)) s n),
      qs_inspect = (\<lambda>(s, n) query. deliver (fate n) (inspect s query (clock n)) s n)\<rparr>"

definition granted_in :: "Store \<times> nat \<Rightarrow> AdmitCommand \<Rightarrow> AdmissionDecision \<Rightarrow> bool" where
  "granted_in sn command d =
     (validate_admit command = None \<and>
      (\<exists>r. lookup_record (fst sn) (ac_key command) (ac_request_id command) = Some r \<and> live r \<and>
         ar_fingerprint r = fingerprint_of command \<and> ar_decision r = d))"

definition uncharged_between :: "Store \<times> nat \<Rightarrow> Store \<times> nat \<Rightarrow> bool" where
  "uncharged_between sn sn' =
     (\<forall>k. window_of (fst sn') k = window_of (fst sn) k \<or> window_of (fst sn') k = None)"

lemma uncharged_windows: "windows_kept now s s' \<Longrightarrow> uncharged_between (s, n) (s', m)"
  unfolding windows_kept_def uncharged_between_def by auto

lemma granted_keeps: "keeps (\<lambda>_ _. False) s s' \<Longrightarrow> granted_in (s, n) command d \<Longrightarrow> granted_in (s', m) command d"
  by (auto simp: granted_in_def keeps_def)

lemma memory_admit_again:
  assumes "store_ok s" "granted_in (s, n) command d"
  shows "\<exists>s'. admit s command now is = (Inr (as_replayed d), s') \<and> store_ok s' \<and>
    granted_in (s', m) command d \<and> uncharged_between (s, n) (s', m)"
proof -
  obtain r where r: "lookup_record s (ac_key command) (ac_request_id command) = Some r" "live r"
    "ar_fingerprint r = fingerprint_of command" "ar_decision r = d" "validate_admit command = None"
    using assms(2) by (auto simp: granted_in_def)
  from admit_replays [OF assms(1) r(1) live_not_removable [OF r(2)] r(3,5)] obtain s' where
    s': "admit s command now is = (Inr (as_replayed d), s')" "windows_kept (now_mono now) s s'"
    using r(4) by blast
  have "safe (\<lambda>_ _. False) s s'" using admit_safe [OF assms(1)] s'(1) by (metis snd_conv)
  with s' show ?thesis
    using granted_keeps [OF _ assms(2)] uncharged_windows by (auto simp: safe_def)
qed

lemma memory_inspect_granted:
  assumes "store_ok s" "granted_in (s, n) command d"
  shows "\<exists>s'. inspect s (QAdmission (ac_key command) (ac_request_id command)) now = (Inr (RAdmission (as_replayed d)), s') \<and>
    store_ok s' \<and> granted_in (s', m) command d \<and> uncharged_between (s, n) (s', m)"
proof -
  obtain r where r: "lookup_record s (ac_key command) (ac_request_id command) = Some r" "live r"
    "ar_decision r = d" "validate_admit command = None" using assms(2) by (auto simp: granted_in_def)
  have "validate_key (ac_key command) = None" "ac_request_id command \<noteq> []"
    using r(4) by (auto simp: validate_admit_def split: option.splits if_splits)
  with inspect_finds_admission [OF assms(1) r(1) live_not_removable [OF r(2)]] r(3) obtain s' where
    s': "inspect s (QAdmission (ac_key command) (ac_request_id command)) now = (Inr (RAdmission (as_replayed d)), s')"
      "windows_kept (now_mono now) s s'" by blast
  have "safe (\<lambda>_ _. False) s s'" using inspect_safe [OF assms(1)] s'(1) by (metis snd_conv)
  with s' show ?thesis
    using granted_keeps [OF _ assms(2)] uncharged_windows by (auto simp: safe_def)
qed

lemma deliver_law:
  assumes "rs = (x, s')" "P s'" "P s" "deliver fa rs s n = (r, sn')"
  shows "(r = x \<or> outcome_unknown r) \<and> P (fst sn') \<and> snd sn' = Suc n"
  using assms by (auto simp: deliver_def Let_def outcome_unknown_def split: fate.splits)

interpretation memory: admission_store "memory_store clock ids fate" "\<lambda>sn. store_ok (fst sn)" granted_in uncharged_between
  for clock ids fate
proof unfold_locales
  show "uncharged_between s s2" if "uncharged_between s s1" "uncharged_between s1 s2" for s s1 s2
    using that unfolding uncharged_between_def by metis
next
  fix sn command d r sn'
  assume a: "store_ok (fst sn)" "granted_in sn command d" "qs_admit (memory_store clock ids fate) sn command = (r, sn')"
  obtain s n where sn: "sn = (s, n)" by force
  let ?P = "\<lambda>s1. store_ok s1 \<and> granted_in (s1, Suc n) command d \<and> uncharged_between (s, n) (s1, Suc n)"
  from memory_admit_again [of s n command d "clock n" "ids n" "Suc n"] a(1,2) sn obtain s' where
    s': "admit s command (clock n) (ids n) = (Inr (as_replayed d), s')" "?P s'" by auto
  have p: "?P s" using a(1,2) sn by (simp add: granted_in_def uncharged_between_def)
  have "deliver (fate n) (admit s command (clock n) (ids n)) s n = (r, sn')" using a(3) sn by (simp add: memory_store_def)
  from deliver_law [where P = ?P, OF s'(1,2) p this] sn
  show "(r = Inr (as_replayed d) \<or> outcome_unknown r) \<and> store_ok (fst sn') \<and> granted_in sn' command d \<and> uncharged_between sn sn'"
    by (cases sn') auto
next
  fix sn command d q sn'
  assume a: "store_ok (fst sn)" "granted_in sn command d"
    "qs_inspect (memory_store clock ids fate) sn (QAdmission (ac_key command) (ac_request_id command)) = (q, sn')"
  obtain s n where sn: "sn = (s, n)" by force
  let ?P = "\<lambda>s1. store_ok s1 \<and> granted_in (s1, Suc n) command d \<and> uncharged_between (s, n) (s1, Suc n)"
  from memory_inspect_granted [of s n command d "clock n" "Suc n"] a(1,2) sn obtain s' where
    s': "inspect s (QAdmission (ac_key command) (ac_request_id command)) (clock n) = (Inr (RAdmission (as_replayed d)), s')" "?P s'"
    by auto
  have p: "?P s" using a(1,2) sn by (simp add: granted_in_def uncharged_between_def)
  have "deliver (fate n) (inspect s (QAdmission (ac_key command) (ac_request_id command)) (clock n)) s n = (q, sn')"
    using a(3) sn by (simp add: memory_store_def)
  from deliver_law [where P = ?P, OF s'(1,2) p this] sn
  show "(q = Inr (RAdmission (as_replayed d)) \<or> outcome_unknown q) \<and> store_ok (fst sn') \<and> granted_in sn' command d \<and>
      uncharged_between sn sn'"
    by (cases sn') auto
qed

text \<open>
  C7. Exactly-once admission over a link that loses calls and acknowledgements: once a request has
  been granted (whether or not the client learned of it), \<open>admit_with_recovery\<close> answers with the
  same grant or reports an unknown outcome, the reservation stays recorded, and no window is charged
  a second time.
\<close>

theorem recovery_charges_once:
  assumes "reachable s" and "admit s command now i = (Inr (Allowed t sn False), s1)"
    and "admit_with_recovery (memory_store clock ids fate) (s1, n) command = (r, s2, m)"
  shows "(r = Inr (Allowed t sn True) \<or> outcome_unknown r) \<and>
     (\<exists>rec. lookup_record s2 (ac_key command) (ac_request_id command) = Some rec \<and> ar_decision rec = Allowed t sn False) \<and>
     (\<forall>k. window_of s2 k = window_of s1 k \<or> window_of s2 k = None)"
proof -
  have ok: "store_ok s" by (rule reachable_ok [OF assms(1)])
  have ok1: "store_ok s1" using safeD(1) [OF admit_safe [OF ok]] assms(2) by (metis snd_conv)
  obtain ru where "lookup_record s1 (ac_key command) (ac_request_id command) =
      Some (reserved_record command ru (Allowed t sn False))"
    by (rule admit_records_grant [OF ok assms(2)])
  moreover have "validate_admit command = None" using assms(2) by (simp add: admit_eq split: option.splits)
  ultimately have "granted_in (s1, n) command (Allowed t sn False)"
    by (simp add: granted_in_def) (simp add: reserved_record_def)
  from memory.admit_with_recovery_granted [OF _ this assms(3)] ok1
  show ?thesis by (auto simp: granted_in_def uncharged_between_def)
qed

theorem recovery_charges_once_witness:
  "\<exists>r s2 m. admit_with_recovery (memory_store (\<lambda>n. ex_now (20 + n)) (\<lambda>_. ex_ids) (\<lambda>n. if n = 0 then AckLost else Answered))
      (ex_store1, 0) (ex_admit ''r1'' 60) = (r, s2, m) \<and>
    (r = Inr (Allowed ex_token ex_snapshot True) \<or> outcome_unknown r) \<and>
    (\<forall>k. window_of s2 k = window_of ex_store1 k \<or> window_of s2 k = None)"
proof -
  obtain r s2 m where run: "admit_with_recovery
      (memory_store (\<lambda>n. ex_now (20 + n)) (\<lambda>_. ex_ids) (\<lambda>n. if n = 0 then AckLost else Answered))
      (ex_store1, 0) (ex_admit ''r1'' 60) = (r, s2, m)" by (metis prod_cases3)
  from recovery_charges_once [OF ex_reachable(1) ex_admitted run] run show ?thesis by blast
qed

text \<open>
  A settlement whose acknowledgement was lost is recovered from the store's record: within the
  grace period \<open>recover_settlement\<close> answers with the result of the first call and changes no
  window.
\<close>

theorem recovery_finds_settlement:
  assumes "reachable s" and "settle s command now = (Inr res, s1)" and "sr_disposition res \<noteq> Replayed"
    and "now_mono now + settlement_retry_grace (config s) \<le> DURATION_MAX"
    and "now_mono (clock n) < now_mono now + settlement_retry_grace (config s)" and "fate n = Answered"
  shows "\<exists>s2. recover_settlement (memory_store clock ids fate) (s1, n) command e = (Inr res, s2, Suc n) \<and>
     windows_kept (now_mono (clock n)) s1 s2"
proof -
  let ?t = "sc_reservation command"
  have ok: "store_ok s" by (rule reachable_ok [OF assms(1)])
  have sf: "safe (settles command) s s1" using settle_safe [OF ok assms(4)] assms(2) by (metis snd_conv)
  obtain r sn rp where r: "sc_operation_id command \<noteq> []" "validate_key (re_key ?t) = None"
    "ar_decision r = Allowed ?t sn rp"
    "lookup_record s1 (re_key ?t) (re_request_id ?t) =
       Some (settled_record command res (now_mono now + settlement_retry_grace (config s)) r)"
    by (rule settle_settled [OF ok assms(2-4)])
  let ?r = "settled_record command res (now_mono now + settlement_retry_grace (config s)) r"
  let ?se = "\<lparr>se_operation_id = sc_operation_id command, se_final_charge = sc_final_charge command, se_result = res\<rparr>"
  have keep: "\<not> removable (now_mono (clock n)) ?r" using assms(5) by (simp add: removable_def settled_record_def)
  obtain cell where "map_of (buckets s1) (re_key ?t) = Some cell" "map_of (admissions (bc_state cell)) (re_request_id ?t) = Some ?r"
    by (rule lookup_cell [OF r(4)])
  then have "record_ok (instance_id s1) (re_key ?t) (generation (bc_state cell)) (re_request_id ?t) ?r"
    using store_okD(1) [OF safeD(1) [OF sf]] bucket_okD(3) by (auto simp: cell_ok_def)
  then have "validate_envelope (instance_id s1) ?t = None"
    using r(2,3) by (simp add: record_ok_def token_ok_def validate_envelope_def)
  from inspect_finds_settlement [OF safeD(1) [OF sf] r(4) keep this, of ?se sn rp] r(1,3)
  obtain s2 where "inspect s1 (QSettlement ?t (sc_operation_id command)) (clock n) = (Inr (RSettlement res), s2)"
    "windows_kept (now_mono (clock n)) s1 s2" by (auto simp: settled_record_def)
  with assms(6) show ?thesis
    by (simp add: recover_settlement_def inspect_settlement_def memory_store_def deliver_def)
qed

theorem recovery_finds_settlement_witness:
  "\<exists>res s1 s2. settle ex_store1 ex_settle (ex_now 20) = (Inr res, s1) \<and> sr_disposition res = Applied \<and>
     recover_settlement (memory_store (\<lambda>_. ex_now 25) (\<lambda>_. ex_ids) (\<lambda>_. Answered)) (s1, 0) ex_settle
       (corrupt_error ''x'') = (Inr res, s2, 1)"
proof -
  obtain res s1 where run: "settle ex_store1 ex_settle (ex_now 20) = (Inr res, s1)" and a: "sr_disposition res = Applied"
    using ex_settled by (cases "settle ex_store1 ex_settle (ex_now 20)") auto
  have soon: "now_mono (ex_now 25) < now_mono (ex_now 20) + settlement_retry_grace (config ex_store1)"
    by (simp add: ex_now_def ex_store1_def ex_store_def config_default_def from_secs_def)
  from recovery_finds_settlement [OF ex_reachable(2) run _ ex_clock,
      of "\<lambda>_. ex_now 25" 0 "\<lambda>_. Answered" "\<lambda>_. ex_ids" "corrupt_error ''x''"] soon run a
  show ?thesis by auto
qed

end
