(* ===== verification/RL_Legacy.thy ===== *)
theory RL_Legacy
  imports Kong_Prelude
begin

text \<open>
  The synchronous fixed-window limiter of \<open>kong-ai/src/ratelimit/memory.rs\<close>
  (\<open>MemoryRateLimiter\<close>), kept for plugins that do not use the quota store. The sharded map is an
  association list, an \<open>Instant\<close> a number of nanoseconds (\<open>duration_since\<close> saturates at
  zero), and a compare-and-exchange loop is its successful iteration. Counters are 64-bit: the
  increment after a passed check is the machine addition.
\<close>

record WindowEntry =
  we_start :: duration
  we_count :: u64

record MemoryRateLimiter =
  windows :: "(string \<times> WindowEntry) list"
  window_duration :: duration

definition limiter_new :: "duration \<Rightarrow> MemoryRateLimiter" where
  "limiter_new d = \<lparr>windows = [], window_duration = d\<rparr>"

definition get_or_reset :: "MemoryRateLimiter \<Rightarrow> string \<Rightarrow> duration \<Rightarrow> WindowEntry \<times> MemoryRateLimiter" where
  "get_or_reset l key now =
     (case map_of (windows l) key of
        Some entry \<Rightarrow>
          if now - we_start entry < window_duration l then (entry, l)
          else (let entry' = \<lparr>we_start = now, we_count = 0\<rparr>
                in (entry', l\<lparr>windows := AList.update key entry' (windows l)\<rparr>))
      | None \<Rightarrow>
          let entry' = \<lparr>we_start = now, we_count = 0\<rparr>
          in (entry', l\<lparr>windows := AList.update key entry' (windows l)\<rparr>))"

definition set_count :: "MemoryRateLimiter \<Rightarrow> string \<Rightarrow> WindowEntry \<Rightarrow> u64 \<Rightarrow> MemoryRateLimiter" where
  "set_count l key entry c = l\<lparr>windows := AList.update key (entry\<lparr>we_count := c\<rparr>) (windows l)\<rparr>"

definition check :: "MemoryRateLimiter \<Rightarrow> string \<Rightarrow> u64 \<Rightarrow> duration \<Rightarrow> (bool \<times> u64) \<times> MemoryRateLimiter" where
  "check l key limit now =
     (let (entry, l1) = get_or_reset l key now
      in ((we_count entry < limit, we_count entry), l1))"

definition check_and_increment ::
    "MemoryRateLimiter \<Rightarrow> string \<Rightarrow> u64 \<Rightarrow> u64 \<Rightarrow> duration \<Rightarrow> (bool \<times> u64) \<times> MemoryRateLimiter" where
  "check_and_increment l key limit amount now =
     (let (entry, l1) = get_or_reset l key now; current = we_count entry
      in if limit < saturating_add current amount then ((False, current), l1)
         else ((True, current + amount), set_count l1 key entry (current + amount)))"

definition decrement :: "MemoryRateLimiter \<Rightarrow> string \<Rightarrow> u64 \<Rightarrow> duration \<Rightarrow> MemoryRateLimiter" where
  "decrement l key amount now =
     (let (entry, l1) = get_or_reset l key now
      in set_count l1 key entry (saturating_sub (we_count entry) amount))"

definition increment :: "MemoryRateLimiter \<Rightarrow> string \<Rightarrow> u64 \<Rightarrow> duration \<Rightarrow> MemoryRateLimiter" where
  "increment l key amount now =
     (let (entry, l1) = get_or_reset l key now
      in set_count l1 key entry (we_count entry + amount))"

text \<open>The count of a key in its current window.\<close>

definition count_at :: "MemoryRateLimiter \<Rightarrow> string \<Rightarrow> duration \<Rightarrow> u64" where
  "count_at l key now =
     (case map_of (windows l) key of
        Some entry \<Rightarrow> if now - we_start entry < window_duration l then we_count entry else 0
      | None \<Rightarrow> 0)"

lemma get_or_reset_count: "we_count (fst (get_or_reset l key now)) = count_at l key now"
  by (auto simp: get_or_reset_def count_at_def Let_def split: option.split)

lemma get_or_reset_stored:
  assumes "get_or_reset l key now = (entry, l1)" "0 < window_duration l"
  shows "map_of (windows l1) key = Some entry" "window_duration l1 = window_duration l" "now - we_start entry < window_duration l"
    "k \<noteq> key \<Longrightarrow> map_of (windows l1) k = map_of (windows l) k"
  using assms by (auto simp: get_or_reset_def Let_def update_conv' split: option.splits if_splits)

lemma get_or_reset_count_at:
  assumes "get_or_reset l key now = (entry, l1)" "0 < window_duration l"
  shows "count_at l1 k now = count_at l k now"
  using assms by (auto simp: get_or_reset_def count_at_def Let_def update_conv' split: option.splits if_splits)

lemma set_count_at:
  assumes "get_or_reset l key now = (entry, l1)" "0 < window_duration l"
  shows "count_at (set_count l1 key entry c) k now = (if k = key then c else count_at l k now)"
  using get_or_reset_stored(2-4) [OF assms] by (simp add: set_count_def count_at_def update_conv' split: option.split)

lemma saturating_add_max: "saturating_add (a :: u64) b = (if unat a + unat b < 2 ^ 64 then a + b else - 1)"
  by (simp add: saturating_add_def)

lemma saturating_fits:
  assumes "saturating_add (a :: u64) b \<le> limit" "limit \<noteq> - 1"
  shows "unat (a + b) = unat a + unat b" "unat a + unat b \<le> unat limit"
proof -
  have fits: "unat a + unat b < 2 ^ 64"
  proof (rule ccontr)
    assume "\<not> unat a + unat b < 2 ^ 64"
    with assms(1) have "- 1 \<le> limit" by (simp add: saturating_add_max)
    with assms(2) show False by (simp add: word_order.extremum_uniqueI)
  qed
  then show "unat (a + b) = unat a + unat b" by (simp add: unat_word_ariths)
  with assms(1) fits show "unat a + unat b \<le> unat limit" by (simp add: saturating_add_max word_le_nat_alt)
qed

text \<open>
  \<open>check_and_increment\<close> is exact below the largest limit: it passes precisely when the current
  count plus the amount is within the limit, then stores and returns that sum, and otherwise leaves
  the count as it was. Other keys are not touched.
\<close>

theorem check_and_increment_exact:
  assumes "limit \<noteq> - 1" and "0 < window_duration l"
    and "check_and_increment l key limit amount now = ((allowed, n), l')"
  shows "(allowed \<longleftrightarrow> unat (count_at l key now) + unat amount \<le> unat limit) \<and>
     count_at l' key now = n \<and>
     unat n = (if allowed then unat (count_at l key now) + unat amount else unat (count_at l key now)) \<and>
     (\<forall>k. k \<noteq> key \<longrightarrow> count_at l' k now = count_at l k now)"
proof -
  obtain entry l1 where g: "get_or_reset l key now = (entry, l1)" by force
  have c: "we_count entry = count_at l key now" using get_or_reset_count [of l key now] g by simp
  have le: "unat (we_count entry) + unat amount \<le> unat limit \<Longrightarrow> saturating_add (we_count entry) amount \<le> limit"
  proof -
    assume a: "unat (we_count entry) + unat amount \<le> unat limit"
    have "unat limit < 2 ^ 64" using unsigned_less [of limit] by simp
    with a show ?thesis by (simp add: saturating_add_max word_le_nat_alt unat_word_ariths)
  qed
  show ?thesis
  proof (cases "limit < saturating_add (we_count entry) amount")
    case True
    then have "\<not> unat (count_at l key now) + unat amount \<le> unat limit" using le c by auto
    moreover have "\<not> allowed" "n = we_count entry" "l' = l1"
      using True assms(3) g by (simp_all add: check_and_increment_def)
    ultimately show ?thesis by (simp add: c get_or_reset_count_at [OF g assms(2)])
  next
    case False
    then have "saturating_add (we_count entry) amount \<le> limit" by simp
    from saturating_fits [OF this assms(1)] have "unat (count_at l key now + amount) = unat (count_at l key now) + unat amount"
      "unat (count_at l key now) + unat amount \<le> unat limit" by (simp_all add: c)
    moreover have "allowed" "n = count_at l key now + amount" "l' = set_count l1 key entry (count_at l key now + amount)"
      using False assms(3) g c by (auto simp: check_and_increment_def Let_def)
    ultimately show ?thesis by (simp add: set_count_at [OF g assms(2)])
  qed
qed

theorem check_and_increment_exact_witness:
  "check_and_increment (limiter_new 1000) ''k'' 10 7 5 = ((True, 7), \<lparr>windows = [(''k'', \<lparr>we_start = 5, we_count = 7\<rparr>)], window_duration = 1000\<rparr>) \<and>
   count_at \<lparr>windows = [(''k'', \<lparr>we_start = 5, we_count = 7\<rparr>)], window_duration = 1000\<rparr> ''k'' 5 = 7"
proof -
  have run: "check_and_increment (limiter_new 1000) ''k'' 10 7 5 =
      ((True, 7), \<lparr>windows = [(''k'', \<lparr>we_start = 5, we_count = 7\<rparr>)], window_duration = 1000\<rparr>)"
    by (simp add: check_and_increment_def limiter_new_def get_or_reset_def set_count_def saturating_add_def Let_def)
  have "(10 :: u64) \<noteq> - 1" "0 < window_duration (limiter_new 1000)" by (simp_all add: limiter_new_def)
  from check_and_increment_exact [OF this run] run show ?thesis by blast
qed

text \<open>
  With the largest limit the check passes although the sum does not fit: the saturated sum equals
  the limit, and the stored count wraps around to a smaller value than before.
\<close>

theorem largest_limit_wraps:
  "check_and_increment \<lparr>windows = [(''k'', \<lparr>we_start = 0, we_count = - 1\<rparr>)], window_duration = 1000\<rparr> ''k'' (- 1) 5 10 =
     ((True, 4), \<lparr>windows = [(''k'', \<lparr>we_start = 0, we_count = 4\<rparr>)], window_duration = 1000\<rparr>)"
  by (simp add: check_and_increment_def get_or_reset_def set_count_def saturating_add_def Let_def)

text \<open>
  Refunding what was charged restores the count, as long as the charge did not wrap and both
  happen in one window.
\<close>

theorem decrement_refunds_increment:
  assumes "0 < window_duration l" and "unat (count_at l key now) + unat amount < 2 ^ 64"
  shows "count_at (decrement (increment l key amount now) key amount now) key now = count_at l key now"
proof -
  obtain entry l1 where g: "get_or_reset l key now = (entry, l1)" by force
  note st = get_or_reset_stored [OF g assms(1)]
  have c: "we_count entry = count_at l key now" using get_or_reset_count [of l key now] g by simp
  have "amount \<le> we_count entry + amount"
    using assms(2) c by (simp add: word_le_nat_alt unat_word_ariths)
  then have "saturating_sub (we_count entry + amount) amount = we_count entry" by (simp add: saturating_sub_def)
  moreover have "get_or_reset (set_count l1 key entry x) key now = (entry\<lparr>we_count := x\<rparr>, set_count l1 key entry x)" for x
    using st by (simp add: get_or_reset_def set_count_def update_conv')
  ultimately have "decrement (increment l key amount now) key amount now =
      set_count (set_count l1 key entry (we_count entry + amount)) key (entry\<lparr>we_count := we_count entry + amount\<rparr>) (we_count entry)"
    by (simp add: decrement_def increment_def g)
  also have "\<dots> = set_count l1 key entry (we_count entry)" by (simp add: set_count_def)
  finally show ?thesis by (simp add: set_count_at [OF g assms(1)] c)
qed

theorem decrement_refunds_increment_witness:
  "count_at (decrement (increment (limiter_new 1000) ''k'' 7 5) ''k'' 7 5) ''k'' 5 = count_at (limiter_new 1000) ''k'' 5"
  by (rule decrement_refunds_increment) (simp_all add: limiter_new_def count_at_def)

end
