(* ===== verification/Kong_Strings.thy ===== *)
theory Kong_Strings
  imports Kong_Prelude "HOL-Library.Sublist"
begin

text \<open>
  The string functions of Rust's standard library that the routers and parsers use, on byte strings
  (a \<open>string\<close> is a list of bytes). Letter case and white space are those of ASCII; strings with
  other letters are outside this model.
\<close>

definition lower_char :: "char \<Rightarrow> char" where
  "lower_char c = (let n = of_char c :: nat in if 65 \<le> n \<and> n \<le> 90 then char_of (n + 32) else c)"

definition upper_char :: "char \<Rightarrow> char" where
  "upper_char c = (let n = of_char c :: nat in if 97 \<le> n \<and> n \<le> 122 then char_of (n - 32) else c)"

definition to_lowercase :: "string \<Rightarrow> string" where
  "to_lowercase s = map lower_char s"

definition to_uppercase :: "string \<Rightarrow> string" where
  "to_uppercase s = map upper_char s"

definition starts_with :: "string \<Rightarrow> string \<Rightarrow> bool" where
  "starts_with s p = prefix p s"

definition ends_with :: "string \<Rightarrow> string \<Rightarrow> bool" where
  "ends_with s p = suffix p s"

definition strip_prefix_str :: "string \<Rightarrow> string \<Rightarrow> string option" where
  "strip_prefix_str p s = (if prefix p s then Some (drop (length p) s) else None)"

definition strip_suffix_str :: "string \<Rightarrow> string \<Rightarrow> string option" where
  "strip_suffix_str p s = (if suffix p s then Some (take (length s - length p) s) else None)"

definition trim_end_matches :: "char \<Rightarrow> string \<Rightarrow> string" where
  "trim_end_matches c s = rev (dropWhile (\<lambda>x. x = c) (rev s))"

definition is_space :: "char \<Rightarrow> bool" where
  "is_space c = (let n = of_char c :: nat in n = 32 \<or> 9 \<le> n \<and> n \<le> 13)"

definition trim :: "string \<Rightarrow> string" where
  "trim s = rev (dropWhile is_space (rev (dropWhile is_space s)))"

text \<open>\<open>s.split(c)\<close>: always at least one piece.\<close>

fun split_char :: "char \<Rightarrow> string \<Rightarrow> string list" where
  "split_char c [] = [[]]"
| "split_char c (x # xs) =
     (if x = c then [] # split_char c xs
      else case split_char c xs of [] \<Rightarrow> [[x]] | p # ps \<Rightarrow> (x # p) # ps)"

text \<open>\<open>s.replace(c, r)\<close> for a single character.\<close>

definition replace_char :: "char \<Rightarrow> string \<Rightarrow> string \<Rightarrow> string" where
  "replace_char c r s = concat (map (\<lambda>x. if x = c then r else [x]) s)"

text \<open>\<open>s.find(p)\<close>: the least position at which \<open>p\<close> occurs.\<close>

fun find_sub :: "string \<Rightarrow> string \<Rightarrow> nat option" where
  "find_sub p [] = (if p = [] then Some 0 else None)"
| "find_sub p (x # xs) = (if prefix p (x # xs) then Some 0 else map_option Suc (find_sub p xs))"

text \<open>\<open>join\<close> of a slice of strings.\<close>

fun join :: "string \<Rightarrow> string list \<Rightarrow> string" where
  "join sep [] = []"
| "join sep [s] = s"
| "join sep (s # ss) = s @ sep @ join sep ss"

fun cmp_string :: "string \<Rightarrow> string \<Rightarrow> ordering" where
  "cmp_string [] [] = Equal"
| "cmp_string [] (_ # _) = Less"
| "cmp_string (_ # _) [] = Greater"
| "cmp_string (x # xs) (y # ys) = then_with (cmp (of_char x :: nat) (of_char y)) (cmp_string xs ys)"

text \<open>Digits of a radix, and the longest run of them with its value.\<close>

fun digit_value :: "nat \<Rightarrow> char \<Rightarrow> nat option" where
  "digit_value radix c =
     (let n = of_char c :: nat;
          d = (if 48 \<le> n \<and> n \<le> 57 then Some (n - 48)
               else if 97 \<le> n \<and> n \<le> 102 then Some (n - 87)
               else if 65 \<le> n \<and> n \<le> 70 then Some (n - 55) else None)
      in case d of None \<Rightarrow> None | Some v \<Rightarrow> if v < radix then Some v else None)"

fun read_digits :: "nat \<Rightarrow> nat \<Rightarrow> nat \<Rightarrow> string \<Rightarrow> nat \<times> nat \<times> string" where
  "read_digits radix acc n [] = (acc, n, [])"
| "read_digits radix acc n (c # cs) =
     (case digit_value radix c of
        None \<Rightarrow> (acc, n, c # cs)
      | Some d \<Rightarrow> read_digits radix (acc * radix + d) (Suc n) cs)"

definition read_char :: "char \<Rightarrow> string \<Rightarrow> string option" where
  "read_char c s = (case s of [] \<Rightarrow> None | x # xs \<Rightarrow> if x = c then Some xs else None)"

text \<open>
  \<open>str::parse\<close> for an unsigned type with a largest value: an optional plus sign, at least one
  decimal digit, nothing else, and a value that fits.
\<close>

definition parse_unsigned :: "nat \<Rightarrow> string \<Rightarrow> nat option" where
  "parse_unsigned max_value s =
     (let body = (case read_char (CHR ''+'') s of Some r \<Rightarrow> r | None \<Rightarrow> s);
          (v, n, rest) = read_digits 10 0 0 body
      in if n = 0 \<or> rest \<noteq> [] \<or> max_value < v then None else Some v)"

text \<open>\<open>s.split_whitespace()\<close>: the maximal runs of other characters.\<close>

fun split_whitespace :: "string \<Rightarrow> string list" where
  "split_whitespace [] = []"
| "split_whitespace (x # xs) =
     (if is_space x then split_whitespace xs
      else case xs of
        [] \<Rightarrow> [[x]]
      | y # _ \<Rightarrow> if is_space y then [x] # split_whitespace xs
                 else (case split_whitespace xs of [] \<Rightarrow> [[x]] | p # ps \<Rightarrow> (x # p) # ps))"

lemma split_char_not_Nil [simp]: "split_char c s \<noteq> []"
  by (induction s) (auto split: list.splits)

lemma hd_split_char: "hd (split_char c s) = takeWhile (\<lambda>x. x \<noteq> c) s"
proof (induction s)
  case (Cons x xs)
  then show ?case using split_char_not_Nil [of c xs] by (cases "split_char c xs") auto
qed simp

lemma split_char_id: "c \<notin> set s \<Longrightarrow> split_char c s = [s]"
  by (induction s) auto

lemma split_char_append:
  "c \<notin> set s \<Longrightarrow> split_char c (s @ c # t) = s # split_char c t"
  by (induction s) auto

text \<open>Splitting undoes joining with a separator that occurs in no piece.\<close>

lemma split_join:
  "ss \<noteq> [] \<Longrightarrow> \<forall>s \<in> set ss. c \<notin> set s \<Longrightarrow> split_char c (join [c] ss) = ss"
proof (induction "[c]" ss rule: join.induct)
  case (3 s v va)
  then show ?case using split_char_append [of c s "join [c] (v # va)"] by simp
qed (auto simp: split_char_id)

lemma find_sub_Some:
  "find_sub p s = Some n \<Longrightarrow> n \<le> length s \<and> prefix p (drop n s)"
  by (induction s arbitrary: n) (auto split: if_splits)

lemma find_sub_least:
  "find_sub p s = Some n \<Longrightarrow> m < n \<Longrightarrow> \<not> prefix p (drop m s)"
proof (induction s arbitrary: m n)
  case (Cons x xs)
  then show ?case by (cases m) (auto split: if_splits)
qed (auto split: if_splits)

lemma find_sub_None: "find_sub p s = None \<longleftrightarrow> (\<forall>n \<le> length s. \<not> prefix p (drop n s))"
proof (induction s)
  case (Cons x xs)
  show ?case
  proof
    assume a: "find_sub p (x # xs) = None"
    show "\<forall>n \<le> length (x # xs). \<not> prefix p (drop n (x # xs))"
    proof (intro allI impI)
      fix n assume "n \<le> length (x # xs)"
      with a Cons.IH show "\<not> prefix p (drop n (x # xs))" by (cases n) (auto split: if_splits)
    qed
  next
    assume a: "\<forall>n \<le> length (x # xs). \<not> prefix p (drop n (x # xs))"
    then have "\<not> prefix p (x # xs)" by (metis drop0 le0)
    moreover have "\<forall>n \<le> length xs. \<not> prefix p (drop n xs)"
      using a by (metis Suc_le_mono drop_Suc_Cons length_Cons)
    ultimately show "find_sub p (x # xs) = None" using Cons.IH by simp
  qed
qed auto

lemma lower_char_idem [simp]: "lower_char (lower_char c) = lower_char c"
  by (simp add: lower_char_def Let_def)

lemma to_lowercase_idem [simp]: "to_lowercase (to_lowercase s) = to_lowercase s"
  by (simp add: to_lowercase_def)

lemma length_case [simp]: "length (to_lowercase s) = length s" "length (to_uppercase s) = length s"
  by (simp_all add: to_lowercase_def to_uppercase_def)

end
