(* ===== verification/Routing_Types.thy ===== *)
theory Routing_Types
  imports Kong_Strings
begin

text \<open>
  The data that the routers share: the route entity and its parts
  (\<open>kong-core/src/models/route.rs\<close>, \<open>common.rs\<close>), the request context and the match result
  (\<open>kong-router/src/lib.rs\<close>), and the interface of the \<open>regex\<close> crate, which is a parameter of
  the model. A header map is an association list.
\<close>

datatype Protocol = Http | Https | Tcp | Tls | Udp | Grpc | Grpcs | TlsPassthrough | Ws | Wss

fun protocol_to_string :: "Protocol \<Rightarrow> string" where
  "protocol_to_string Http = ''http''"
| "protocol_to_string Https = ''https''"
| "protocol_to_string Tcp = ''tcp''"
| "protocol_to_string Tls = ''tls''"
| "protocol_to_string Udp = ''udp''"
| "protocol_to_string Grpc = ''grpc''"
| "protocol_to_string Grpcs = ''grpcs''"
| "protocol_to_string TlsPassthrough = ''tls_passthrough''"
| "protocol_to_string Ws = ''ws''"
| "protocol_to_string Wss = ''wss''"

datatype LbAlgorithm = RoundRobin | ConsistentHashing | LeastConnections | Latency

datatype HashOn = HashNone | HashConsumer | HashIp | HashHeader | HashCookie | HashPath | HashQueryArg | HashUriCapture

datatype PathHandling = V0 | V1

record CidrPort =
  cp_ip :: "string option"
  cp_port :: "u16 option"

record Route =
  rt_id :: uuid
  rt_created_at :: int
  rt_updated_at :: int
  rt_name :: "string option"
  rt_protocols :: "Protocol list"
  rt_https_redirect_status_code :: u16
  rt_strip_path :: bool
  rt_preserve_host :: bool
  rt_request_buffering :: bool
  rt_response_buffering :: bool
  rt_tags :: "string list option"
  rt_service :: "uuid option"
  rt_snis :: "string list option"
  rt_sources :: "CidrPort list option"
  rt_destinations :: "CidrPort list option"
  rt_methods :: "string list option"
  rt_hosts :: "string list option"
  rt_paths :: "string list option"
  rt_headers :: "(string \<times> string list) list option"
  rt_regex_priority :: int
  rt_path_handling :: PathHandling
  rt_expression :: "string option"
  rt_priority :: "int option"
  rt_ws_id :: "uuid option"

definition route_default :: "uuid \<Rightarrow> Route" where
  "route_default new_id = \<lparr>rt_id = new_id, rt_created_at = 0, rt_updated_at = 0, rt_name = None,
     rt_protocols = [Http, Https], rt_https_redirect_status_code = 426, rt_strip_path = True,
     rt_preserve_host = False, rt_request_buffering = True, rt_response_buffering = True, rt_tags = None,
     rt_service = None, rt_snis = None, rt_sources = None, rt_destinations = None, rt_methods = None,
     rt_hosts = None, rt_paths = None, rt_headers = None, rt_regex_priority = 0, rt_path_handling = V0,
     rt_expression = None, rt_priority = None, rt_ws_id = None\<rparr>"

record UriCaptures =
  uc_named :: "(string \<times> string) list"
  uc_unnamed :: "string list"

definition no_captures :: UriCaptures where
  "no_captures = \<lparr>uc_named = [], uc_unnamed = []\<rparr>"

record RequestContext =
  rc_method :: string
  rc_uri :: string
  rc_host :: string
  rc_scheme :: string
  rc_headers :: "(string \<times> string) list"
  rc_sni :: "string option"

record RouteMatch =
  rm_route_id :: uuid
  rm_service_id :: "uuid option"
  rm_route_name :: "string option"
  rm_strip_path :: bool
  rm_preserve_host :: bool
  rm_path_handling :: PathHandling
  rm_matched_path :: "string option"
  rm_protocols :: "string list"
  rm_request_buffering :: bool
  rm_response_buffering :: bool
  rm_uri_captures :: UriCaptures

text \<open>
  The regular expression engine: compilation, matching, the capture groups of a match (group 0 is
  the whole match) and the names of the groups.
\<close>

record 're regex_engine =
  rx_new :: "string \<Rightarrow> 're option"
  rx_is_match :: "'re \<Rightarrow> string \<Rightarrow> bool"
  rx_captures :: "'re \<Rightarrow> string \<Rightarrow> string option list option"
  rx_names :: "'re \<Rightarrow> string option list"

text \<open>
  The route match cache of the \<open>moka\<close> crate: what was inserted, less what the cache chooses to
  evict.
\<close>

type_synonym route_cache = "(string \<times> RouteMatch option) list"

definition cache_insert :: "(route_cache \<Rightarrow> route_cache) \<Rightarrow> string \<Rightarrow> RouteMatch option \<Rightarrow> route_cache \<Rightarrow> route_cache" where
  "cache_insert evict k v c = evict (AList.update k v c)"

definition evicting :: "(route_cache \<Rightarrow> route_cache) \<Rightarrow> bool" where
  "evicting evict = (\<forall>c. map_of (evict c) \<subseteq>\<^sub>m map_of c)"

text \<open>
  A cache is coherent for the requests \<open>X\<close> when every entry is what the lookup \<open>f\<close> gives for
  one of them with the entry's key.
\<close>

definition coherent ::
    "RequestContext set \<Rightarrow> (RequestContext \<Rightarrow> string) \<Rightarrow> (RequestContext \<Rightarrow> RouteMatch option) \<Rightarrow> route_cache \<Rightarrow> bool" where
  "coherent X key f c = (\<forall>k v. map_of c k = Some v \<longrightarrow> (\<exists>ctx \<in> X. key ctx = k \<and> f ctx = v))"

definition cached_lookup ::
    "(route_cache \<Rightarrow> route_cache) \<Rightarrow> (RequestContext \<Rightarrow> string) \<Rightarrow> (RequestContext \<Rightarrow> RouteMatch option) \<Rightarrow>
     RequestContext \<Rightarrow> route_cache \<Rightarrow> RouteMatch option \<times> route_cache" where
  "cached_lookup evict key f ctx c =
     (case map_of c (key ctx) of
        Some v \<Rightarrow> (v, c)
      | None \<Rightarrow> (f ctx, cache_insert evict (key ctx) (f ctx) c))"

lemma coherent_Nil [simp]: "coherent X key f []"
  by (simp add: coherent_def)

lemma cached_lookup_coherent:
  assumes "evicting evict" "coherent X key f c" "ctx \<in> X" "cached_lookup evict key f ctx c = (r, c')"
  shows "coherent X key f c'" "\<exists>ctx' \<in> X. key ctx' = key ctx \<and> f ctx' = r"
proof -
  have sub: "map_of (evict d) \<subseteq>\<^sub>m map_of d" for d using assms(1) by (simp add: evicting_def)
  have ins: "coherent X key f (evict (AList.update (key ctx) (f ctx) c))"
    unfolding coherent_def
  proof (intro allI impI)
    fix k v assume "map_of (evict (AList.update (key ctx) (f ctx) c)) k = Some v"
    then have "map_of (AList.update (key ctx) (f ctx) c) k = Some v"
      using sub unfolding map_le_def by (metis domI)
    with assms(2,3) show "\<exists>ctx' \<in> X. key ctx' = k \<and> f ctx' = v"
      by (auto simp: coherent_def update_conv' split: if_splits)
  qed
  show "coherent X key f c'" "\<exists>ctx' \<in> X. key ctx' = key ctx \<and> f ctx' = r"
    using assms(2-4) ins by (auto simp: cached_lookup_def cache_insert_def coherent_def split: option.splits)
qed

end
