(* ===== verification/Stream_Router.thy ===== *)
theory Stream_Router
  imports Routing_Types
begin

text \<open>
  The layer-4 router of \<open>kong-router/src/stream.rs\<close>: routes for TCP and TLS are matched on the
  server name, the source and the destination of a connection, the most specific route first.
  Addresses are 32- and 128-bit words; parsing of addresses is that of Rust's standard library.

  Shown: CIDR membership is equality of the leading bits, wildcard server names stand for exactly one
  label, and the chosen route has the most criteria among those that match. Two theorems record what
  is surprising: an address that does not parse restricts nothing, and an exact server name is not
  preferred to a wildcard.
\<close>

unbundle bit_operations_syntax

section \<open>IP addresses\<close>

datatype IpAddr = V4 u32 | V6 u128

text \<open>
  \<open>read_number\<close> of the address parser: at most \<open>max_digits\<close> digits, a value of at most
  \<open>max_value\<close>, no redundant leading zero unless allowed.
\<close>

definition read_number :: "nat \<Rightarrow> nat \<Rightarrow> nat \<Rightarrow> bool \<Rightarrow> string \<Rightarrow> (nat \<times> string) option" where
  "read_number radix max_digits max_value allow_zero_prefix s =
     (let (v, n, rest) = read_digits radix 0 0 s
      in if n = 0 \<or> max_digits < n \<or> max_value < v \<or> \<not> allow_zero_prefix \<and> 1 < n \<and> hd s = CHR ''0''
         then None else Some (v, rest))"

definition read_separator :: "char \<Rightarrow> nat \<Rightarrow> (string \<Rightarrow> ('a \<times> string) option) \<Rightarrow> string \<Rightarrow> ('a \<times> string) option" where
  "read_separator sep i p s =
     (if i = 0 then p s else case read_char sep s of None \<Rightarrow> None | Some s' \<Rightarrow> p s')"

fun read_octets :: "nat \<Rightarrow> nat \<Rightarrow> nat \<Rightarrow> string \<Rightarrow> (nat \<times> string) option" where
  "read_octets 0 i acc s = Some (acc, s)"
| "read_octets (Suc k) i acc s =
     (case read_separator (CHR ''.'') i (read_number 10 3 255 False) s of
        None \<Rightarrow> None
      | Some (v, rest) \<Rightarrow> read_octets k (Suc i) (acc * 256 + v) rest)"

definition read_ipv4_addr :: "string \<Rightarrow> (nat \<times> string) option" where
  "read_ipv4_addr s = read_octets 4 0 0 s"

text \<open>
  \<open>read_groups\<close>: up to \<open>k\<close> sixteen-bit groups, or fewer followed by an IPv4 tail that takes
  the place of two; the groups read, whether they end in an IPv4 address, and the rest.
\<close>

fun read_groups :: "nat \<Rightarrow> nat \<Rightarrow> string \<Rightarrow> nat list \<times> bool \<times> string" where
  "read_groups 0 i s = ([], False, s)"
| "read_groups (Suc k) i s =
     (case (if 0 < k then read_separator (CHR '':'') i read_ipv4_addr s else None) of
        Some (a, rest) \<Rightarrow> ([a div 65536, a mod 65536], True, rest)
      | None \<Rightarrow>
          (case read_separator (CHR '':'') i (read_number 16 4 65535 True) s of
             Some (g, rest) \<Rightarrow> (let (gs, v4, rest') = read_groups k (Suc i) rest in (g # gs, v4, rest'))
           | None \<Rightarrow> ([], False, s)))"

definition read_ipv6_addr :: "string \<Rightarrow> (nat list \<times> string) option" where
  "read_ipv6_addr s =
     (let (hd_groups, v4, rest) = read_groups 8 0 s
      in if length hd_groups = 8 then Some (hd_groups, rest)
         else if v4 then None
         else (case read_char (CHR '':'') rest of
                 None \<Rightarrow> None
               | Some r1 \<Rightarrow>
                   (case read_char (CHR '':'') r1 of
                      None \<Rightarrow> None
                    | Some r2 \<Rightarrow>
                        let (tl_groups, _, rest') = read_groups (8 - (length hd_groups + 1)) 0 r2
                        in Some (hd_groups @ replicate (8 - length hd_groups - length tl_groups) 0 @ tl_groups, rest'))))"

definition parse_ip :: "string \<Rightarrow> IpAddr option" where
  "parse_ip s =
     (case read_ipv4_addr s of
        Some (v, rest) \<Rightarrow> if rest = [] then Some (V4 (of_nat v)) else None
      | None \<Rightarrow>
          (case read_ipv6_addr s of
             Some (gs, rest) \<Rightarrow>
               if rest = [] then Some (V6 (of_nat (foldl (\<lambda>a g. a * 65536 + g) 0 gs))) else None
           | None \<Rightarrow> None))"

definition parse_u8 :: "string \<Rightarrow> nat option" where
  "parse_u8 s = parse_unsigned 255 s"

definition split_once :: "char \<Rightarrow> string \<Rightarrow> (string \<times> string) option" where
  "split_once c s =
     (if c \<in> set s then Some (takeWhile (\<lambda>x. x \<noteq> c) s, tl (dropWhile (\<lambda>x. x \<noteq> c) s)) else None)"

section \<open>CIDR blocks\<close>

definition parse_cidr :: "string \<Rightarrow> (IpAddr \<times> nat) option" where
  "parse_cidr cidr =
     (case split_once (CHR ''/'') cidr of
        Some (ip_str, prefix_str) \<Rightarrow>
          (case parse_ip ip_str of
             None \<Rightarrow> None
           | Some ip \<Rightarrow> (case parse_u8 prefix_str of None \<Rightarrow> None | Some p \<Rightarrow> Some (ip, p)))
      | None \<Rightarrow>
          (case parse_ip cidr of
             None \<Rightarrow> None
           | Some ip \<Rightarrow> Some (ip, case ip of V4 _ \<Rightarrow> 32 | V6 _ \<Rightarrow> 128)))"

fun ip_in_cidr :: "IpAddr \<Rightarrow> IpAddr \<Rightarrow> nat \<Rightarrow> bool" where
  "ip_in_cidr (V4 ip) (V4 net) prefix_len =
     (if prefix_len = 0 then True
      else if 32 < prefix_len then False
      else let mask = push_bit (32 - prefix_len) (NOT 0) in ip AND mask = net AND mask)"
| "ip_in_cidr (V6 ip) (V6 net) prefix_len =
     (if prefix_len = 0 then True
      else if 128 < prefix_len then False
      else let mask = push_bit (128 - prefix_len) (NOT 0) in ip AND mask = net AND mask)"
| "ip_in_cidr _ _ prefix_len = False"

record CidrPortMatcher =
  cm_network :: "(IpAddr \<times> nat) option"
  cm_port :: "u16 option"

definition from_cidr_port :: "CidrPort \<Rightarrow> CidrPortMatcher" where
  "from_cidr_port cp =
     \<lparr>cm_network = (case cp_ip cp of None \<Rightarrow> None | Some s \<Rightarrow> parse_cidr s), cm_port = cp_port cp\<rparr>"

definition cidr_matches :: "CidrPortMatcher \<Rightarrow> IpAddr option \<Rightarrow> u16 option \<Rightarrow> bool" where
  "cidr_matches m ip port =
     (if (case cm_network m of
            None \<Rightarrow> False
          | Some (net, len) \<Rightarrow> (case ip of Some a \<Rightarrow> \<not> ip_in_cidr a net len | None \<Rightarrow> True)) then False
      else if (case cm_port m of None \<Rightarrow> False | Some e \<Rightarrow> port \<noteq> Some e) then False
      else True)"

section \<open>Routes\<close>

record StreamRequestContext =
  sx_source_ip :: "IpAddr option"
  sx_source_port :: "u16 option"
  sx_dest_ip :: "IpAddr option"
  sx_dest_port :: "u16 option"
  sx_sni :: "string option"

record StreamRouteMatch =
  sm_route_id :: uuid
  sm_service_id :: "uuid option"
  sm_route_name :: "string option"
  sm_protocols :: "Protocol list"

definition STREAM_MATCH_SNI :: u32 where "STREAM_MATCH_SNI = 0x08"
definition STREAM_MATCH_SOURCE :: u32 where "STREAM_MATCH_SOURCE = 0x04"
definition STREAM_MATCH_DEST :: u32 where "STREAM_MATCH_DEST = 0x02"

record ProcessedStreamRoute =
  ps_route_id :: uuid
  ps_service_id :: "uuid option"
  ps_name :: "string option"
  ps_protocols :: "Protocol list"
  ps_match_rules :: u32
  ps_match_weight :: u32
  ps_snis :: "string list"
  ps_sources :: "CidrPortMatcher list"
  ps_destinations :: "CidrPortMatcher list"
  ps_created_at :: int

definition is_stream_route :: "Route \<Rightarrow> bool" where
  "is_stream_route r = list_ex (\<lambda>p. p \<in> {Tcp, Tls, TlsPassthrough}) (rt_protocols r)"

definition process_stream_route :: "Route \<Rightarrow> ProcessedStreamRoute option" where
  "process_stream_route r =
     (let snis = map to_lowercase (case rt_snis r of None \<Rightarrow> [] | Some l \<Rightarrow> l);
          sources = map from_cidr_port (case rt_sources r of None \<Rightarrow> [] | Some l \<Rightarrow> l);
          destinations = map from_cidr_port (case rt_destinations r of None \<Rightarrow> [] | Some l \<Rightarrow> l);
          bit = (\<lambda>b v. if b then v else 0 :: u32)
      in Some \<lparr>ps_route_id = rt_id r, ps_service_id = rt_service r, ps_name = rt_name r, ps_protocols = rt_protocols r,
           ps_match_rules = bit (snis \<noteq> []) STREAM_MATCH_SNI OR bit (sources \<noteq> []) STREAM_MATCH_SOURCE OR
             bit (destinations \<noteq> []) STREAM_MATCH_DEST,
           ps_match_weight = bit (snis \<noteq> []) 1 + bit (sources \<noteq> []) 1 + bit (destinations \<noteq> []) 1,
           ps_snis = snis, ps_sources = sources, ps_destinations = destinations, ps_created_at = rt_created_at r\<rparr>)"

definition sni_pattern_matches :: "string \<Rightarrow> string \<Rightarrow> bool" where
  "sni_pattern_matches sni_lower pattern =
     (pattern = sni_lower \<or>
      (case strip_prefix_str ''*.'' pattern of
         None \<Rightarrow> False
       | Some suf \<Rightarrow>
           (case find_sub ''.'' sni_lower of None \<Rightarrow> False | Some dot_pos \<Rightarrow> drop (dot_pos + 1) sni_lower = suf)))"

definition stream_match_sni :: "string list \<Rightarrow> string \<Rightarrow> bool" where
  "stream_match_sni patterns sni = list_ex (sni_pattern_matches (to_lowercase sni)) patterns"

definition stream_match_route :: "ProcessedStreamRoute \<Rightarrow> StreamRequestContext \<Rightarrow> bool" where
  "stream_match_route r ctx =
     (if ps_match_rules r AND STREAM_MATCH_SNI \<noteq> 0 \<and>
         (case sx_sni ctx of Some sni \<Rightarrow> \<not> stream_match_sni (ps_snis r) sni | None \<Rightarrow> True) then False
      else if ps_match_rules r AND STREAM_MATCH_SOURCE \<noteq> 0 \<and>
         \<not> list_ex (\<lambda>m. cidr_matches m (sx_source_ip ctx) (sx_source_port ctx)) (ps_sources r) then False
      else if ps_match_rules r AND STREAM_MATCH_DEST \<noteq> 0 \<and>
         \<not> list_ex (\<lambda>m. cidr_matches m (sx_dest_ip ctx) (sx_dest_port ctx)) (ps_destinations r) then False
      else True)"

definition stream_order :: "ProcessedStreamRoute \<Rightarrow> ProcessedStreamRoute \<Rightarrow> ordering" where
  "stream_order a b =
     then_with (cmp (ps_match_weight b) (ps_match_weight a)) (cmp (ps_created_at a) (ps_created_at b))"

type_synonym StreamRouter = "ProcessedStreamRoute list"

definition stream_processed :: "Route list \<Rightarrow> ProcessedStreamRoute list" where
  "stream_processed routes = List.map_filter (\<lambda>r. if is_stream_route r then process_stream_route r else None) routes"

definition stream_new :: "Route list \<Rightarrow> StreamRouter" where
  "stream_new routes = sort_by stream_order (stream_processed routes)"

definition stream_rebuild :: "StreamRouter \<Rightarrow> Route list \<Rightarrow> StreamRouter" where
  "stream_rebuild t routes = stream_new routes"

definition stream_route_count :: "StreamRouter \<Rightarrow> nat" where
  "stream_route_count t = length t"

definition stream_result :: "ProcessedStreamRoute \<Rightarrow> StreamRouteMatch" where
  "stream_result r = \<lparr>sm_route_id = ps_route_id r, sm_service_id = ps_service_id r, sm_route_name = ps_name r,
     sm_protocols = ps_protocols r\<rparr>"

fun stream_find_route :: "StreamRouter \<Rightarrow> StreamRequestContext \<Rightarrow> StreamRouteMatch option" where
  "stream_find_route [] ctx = None"
| "stream_find_route (r # rs) ctx =
     (if stream_match_route r ctx then Some (stream_result r) else stream_find_route rs ctx)"

section \<open>Theorems\<close>

lemma mask_eq_iff:
  fixes a b :: "'l::len word"
  shows "a AND push_bit n (NOT 0) = b AND push_bit n (NOT 0) \<longleftrightarrow> drop_bit n a = drop_bit n b"
proof
  assume eq: "a AND push_bit n (NOT 0) = b AND push_bit n (NOT 0)"
  show "drop_bit n a = drop_bit n b"
  proof (rule bit_word_eqI)
    fix i assume i: "i < LENGTH('l)"
    have "bit (a AND push_bit n (NOT 0)) (n + i) = bit (b AND push_bit n (NOT 0)) (n + i)" by (simp only: eq)
    then show "bit (drop_bit n a) i = bit (drop_bit n b) i"
      by (cases "n + i < LENGTH('l)") (auto simp: bit_simps dest: bit_imp_le_length)
  qed
next
  assume eq: "drop_bit n a = drop_bit n b"
  show "a AND push_bit n (NOT 0) = b AND push_bit n (NOT 0)"
  proof (rule bit_word_eqI)
    fix i assume i: "i < LENGTH('l)"
    have "bit (drop_bit n a) (i - n) = bit (drop_bit n b) (i - n)" by (simp only: eq)
    with i show "bit (a AND push_bit n (NOT 0)) i = bit (b AND push_bit n (NOT 0)) i"
      by (auto simp: bit_simps)
  qed
qed

lemma leading_bits_div: "drop_bit n a = drop_bit n b \<longleftrightarrow> unat a div 2 ^ n = unat b div 2 ^ n" for a b :: "'l::len word"
  by (simp flip: unsigned_drop_bit_eq drop_bit_eq_div add: word_unat_eq_iff unsigned_drop_bit_eq take_bit_nat_eq_self)

text \<open>
  Membership in a CIDR block is equality of the leading bits: an IPv4 address is in a block of
  prefix length \<open>p\<close> (at most 32) exactly when the two addresses agree after division by
  \<open>2 ^ (32 - p)\<close>.
\<close>

theorem cidr_is_leading_bits:
  assumes "p \<le> 32"
  shows "ip_in_cidr (V4 a) (V4 net) p \<longleftrightarrow> unat a div 2 ^ (32 - p) = unat net div 2 ^ (32 - p)"
proof (cases "p = 0")
  case True
  have "unat (x :: u32) div 2 ^ 32 = 0" for x
  proof -
    have "unat x < 2 ^ 32" using unsigned_less [of x] by simp
    then show ?thesis by simp
  qed
  with True show ?thesis by simp
next
  case False
  with assms mask_eq_iff [of a "32 - p" net] leading_bits_div [of "32 - p" a net] show ?thesis by (simp add: Let_def)
qed

theorem cidr_is_leading_bits_witness:
  "(ip_in_cidr (V4 0xC0A80105) (V4 0xC0A80000) 16 \<longleftrightarrow>
      unat (0xC0A80105 :: u32) div 2 ^ (32 - 16) = unat (0xC0A80000 :: u32) div 2 ^ (32 - 16)) \<and>
   ip_in_cidr (V4 0xC0A80105) (V4 0xC0A80000) 16"
  using cidr_is_leading_bits [of 16 "0xC0A80105" "0xC0A80000"] by simp

lemma find_sub_char: "find_sub [c] s = (if c \<in> set s then Some (length (takeWhile (\<lambda>x. x \<noteq> c) s)) else None)"
  by (induction s) auto

text \<open>
  A wildcard server name \<open>*.suffix\<close> stands for exactly one label in front of the suffix:
  it matches \<open>label.suffix\<close> where the label has no dot, and (apart from its own text) nothing
  else.
\<close>

theorem wildcard_sni_is_one_label:
  "sni_pattern_matches sni (''*.'' @ suf) \<longleftrightarrow>
     sni = ''*.'' @ suf \<or> (\<exists>label. CHR ''.'' \<notin> set label \<and> sni = label @ ''.'' @ suf)"
proof -
  have strip: "strip_prefix_str ''*.'' (''*.'' @ suf) = Some suf" by (simp add: strip_prefix_str_def)
  have "(case find_sub ''.'' sni of None \<Rightarrow> False | Some d \<Rightarrow> drop (d + 1) sni = suf) \<longleftrightarrow>
      (\<exists>label. CHR ''.'' \<notin> set label \<and> sni = label @ ''.'' @ suf)" (is "?L \<longleftrightarrow> ?R")
  proof
    assume ?L
    then have dot: "CHR ''.'' \<in> set sni" and d: "drop (Suc (length (takeWhile (\<lambda>x. x \<noteq> CHR ''.'') sni))) sni = suf"
      by (auto simp: find_sub_char split: if_splits)
    have dw: "dropWhile (\<lambda>x. x \<noteq> CHR ''.'') sni = CHR ''.'' # suf"
      using dot d by (induction sni) auto
    have "sni = takeWhile (\<lambda>x. x \<noteq> CHR ''.'') sni @ ''.'' @ suf"
      using takeWhile_dropWhile_id [of "\<lambda>x. x \<noteq> CHR ''.''" sni] by (simp add: dw)
    then show ?R by (metis (mono_tags, lifting) set_takeWhileD)
  next
    assume ?R
    then obtain label where l: "CHR ''.'' \<notin> set label" "sni = label @ CHR ''.'' # suf" by auto
    then have "takeWhile (\<lambda>x. x \<noteq> CHR ''.'') sni = label" by (induction label arbitrary: sni) auto
    with l show ?L by (simp add: find_sub_char)
  qed
  then show ?thesis using strip by (auto simp: sni_pattern_matches_def)
qed

interpretation by_stream: comparator stream_order
  unfolding stream_order_def
  by (intro comparator_then_with comparator_cmp_key)
    (use comparator.flip [OF comparator_cmp_key [of ps_match_weight]] in simp)

lemma stream_find_route_find: "stream_find_route rs ctx = map_option stream_result (List.find (\<lambda>r. stream_match_route r ctx) rs)"
  by (induction rs) auto

text \<open>
  The stream router finds a route exactly when one of the stream routes matches the connection,
  and it takes one with the most criteria, the earliest created among those.
\<close>

theorem stream_route_is_best:
  "case stream_find_route (stream_new routes) ctx of
     None \<Rightarrow> \<forall>r \<in> set (stream_processed routes). \<not> stream_match_route r ctx
   | Some m \<Rightarrow> \<exists>r \<in> set (stream_processed routes). m = stream_result r \<and> stream_match_route r ctx \<and>
       (\<forall>q \<in> set (stream_processed routes). stream_match_route q ctx \<longrightarrow>
          ps_match_weight q < ps_match_weight r \<or> ps_match_weight q = ps_match_weight r \<and> ps_created_at r \<le> ps_created_at q)"
proof (cases "List.find (\<lambda>r. stream_match_route r ctx) (stream_new routes)")
  case None
  then have "\<forall>r \<in> set (stream_processed routes). \<not> stream_match_route r ctx" by (simp add: find_None_iff stream_new_def)
  then show ?thesis unfolding stream_find_route_find None by simp
next
  case (Some r)
  have o: "stream_order r q \<noteq> Greater \<Longrightarrow>
      ps_match_weight q < ps_match_weight r \<or> ps_match_weight q = ps_match_weight r \<and> ps_created_at r \<le> ps_created_at q" for q
    by (auto simp: stream_order_def)
  from by_stream.find_sort_by_best [OF Some [unfolded stream_new_def]] o show ?thesis
    unfolding stream_find_route_find Some by auto
qed

theorem stream_route_is_best_witness:
  "stream_find_route (stream_new [(route_default 5)\<lparr>rt_protocols := [Tcp]\<rparr>])
     \<lparr>sx_source_ip = None, sx_source_port = None, sx_dest_ip = None, sx_dest_port = None, sx_sni = None\<rparr> \<noteq> None \<and>
   stream_processed [(route_default 5)\<lparr>rt_protocols := [Tcp]\<rparr>] \<noteq> []"
proof -
  let ?rs = "[(route_default 5)\<lparr>rt_protocols := [Tcp]\<rparr>]"
  let ?x = "\<lparr>sx_source_ip = None, sx_source_port = None, sx_dest_ip = None, sx_dest_port = None, sx_sni = None\<rparr>"
  have m: "\<exists>r \<in> set (stream_processed ?rs). stream_match_route r ?x" by code_simp
  from stream_route_is_best [of ?rs ?x] have "stream_find_route (stream_new ?rs) ?x = None \<Longrightarrow>
      \<forall>r \<in> set (stream_processed ?rs). \<not> stream_match_route r ?x" by simp
  with m show ?thesis by auto
qed

text \<open>
  A source or destination whose address is not a valid CIDR restricts no address: the matcher
  accepts every client with the right port.
\<close>

theorem invalid_cidr_matches_any_address:
  assumes "cp_ip cp = Some s" and "parse_cidr s = None"
  shows "cidr_matches (from_cidr_port cp) ip port \<longleftrightarrow> (case cp_port cp of None \<Rightarrow> True | Some e \<Rightarrow> port = Some e)"
  using assms by (simp add: cidr_matches_def from_cidr_port_def split: option.splits)

theorem invalid_cidr_matches_any_address_witness:
  "cidr_matches (from_cidr_port \<lparr>cp_ip = Some ''x'', cp_port = None\<rparr>) (Some (V4 0x01010101)) None"
proof -
  have v4: "read_ipv4_addr ''x'' = None"
    using read_octets.simps(2) [of 3 0 0 "''x''"] by (simp add: read_ipv4_addr_def read_separator_def read_number_def)
  have "read_groups 8 0 ''x'' = ([], False, ''x'')"
    using read_groups.simps(2) [of 7 0 "''x''"] v4 by (simp add: read_separator_def read_number_def)
  with v4 have "parse_cidr ''x'' = None"
    by (simp add: parse_cidr_def split_once_def parse_ip_def read_ipv6_addr_def read_char_def)
  then show ?thesis using invalid_cidr_matches_any_address [of "\<lparr>cp_ip = Some ''x'', cp_port = None\<rparr>" "''x''"] by simp
qed

text \<open>
  An exact server name is not preferred to a wildcard: with equally many criteria the route created
  first wins, even when it matches by wildcard and the other by the exact name.
\<close>

theorem exact_sni_not_preferred:
  "let wild = (route_default 1)\<lparr>rt_protocols := [Tls], rt_snis := Some [''*.example.com''], rt_created_at := 1\<rparr>;
       exact = (route_default 2)\<lparr>rt_protocols := [Tls], rt_snis := Some [''a.example.com''], rt_created_at := 2\<rparr>
   in map_option sm_route_id (stream_find_route (stream_new [exact, wild])
        \<lparr>sx_source_ip = None, sx_source_port = None, sx_dest_ip = None, sx_dest_port = None, sx_sni = Some ''a.example.com''\<rparr>) = Some 1"
  by code_simp

end
