(* ===== verification/AI_Weighted.thy ===== *)
theory AI_Weighted
  imports Kong_Prelude
begin

text \<open>
  The interleaved weighted round robin of the AI gateway (\<open>kong-ai/src/provider/weighted.rs\<close>).
  \<open>weighted_round_robin_index\<close> computes the target of one request from a sequence number, with a
  binary search over rounds and without building the schedule; \<open>schedule\<close> is the schedule it stands
  for: round \<open>r\<close> serves, in order, every target whose reduced weight is at least \<open>r\<close>.
\<close>

section \<open>The code\<close>

function gcd_u32 :: "u32 \<Rightarrow> u32 \<Rightarrow> u32" where
  "gcd_u32 left right = (if right = 0 then left else gcd_u32 right (left mod right))"
  by pat_completeness auto

termination gcd_u32
  by (relation "measure (\<lambda>(l, r). unat r)") (auto simp: unat_mod word_less_nat_alt unat_gt_0)

declare gcd_u32.simps [simp del]

definition sum_u64 :: "u64 list \<Rightarrow> u64" where
  "sum_u64 ws = foldl (+) 0 ws"

definition slots_through_round :: "u32 list \<Rightarrow> u32 \<Rightarrow> u64" where
  "slots_through_round weights round = sum_u64 (map (\<lambda>weight. ucast (min weight round)) weights)"

text \<open>The binary search for the round that contains a slot.\<close>

function find_round :: "u32 list \<Rightarrow> u64 \<Rightarrow> u32 \<Rightarrow> u32 \<Rightarrow> u32" where
  "find_round reduced slot low high =
     (if low < high
      then
        (let middle = low + (high - low) div 2
         in if slot < slots_through_round reduced middle then find_round reduced slot low middle
            else find_round reduced slot (middle + 1) high)
      else low)"
  by pat_completeness auto

lemma middle_bounds:
  assumes "low < (high :: u32)"
  shows "unat (low + (high - low) div 2) = unat low + (unat high - unat low) div 2"
    "unat low \<le> unat (low + (high - low) div 2)" "unat (low + (high - low) div 2) < unat high"
    "unat (low + (high - low) div 2 + 1) = unat (low + (high - low) div 2) + 1"
proof -
  have lt: "unat low < unat high" "unat high < 2 ^ 32"
    using assms unsigned_less [of high] by (simp_all add: word_less_nat_alt)
  have d: "unat ((high - low) div 2) = (unat high - unat low) div 2"
    using lt by (simp add: unat_div unat_sub word_le_nat_alt)
  show m: "unat (low + (high - low) div 2) = unat low + (unat high - unat low) div 2"
    using lt by (subst unat_add_lem [THEN iffD1]) (auto simp: d)
  show "unat low \<le> unat (low + (high - low) div 2)" "unat (low + (high - low) div 2) < unat high"
    using lt by (auto simp: m)
  then show "unat (low + (high - low) div 2 + 1) = unat (low + (high - low) div 2) + 1"
    using lt by (subst unat_add_lem [THEN iffD1]) auto
qed

termination find_round
  by (relation "measure (\<lambda>(ws, s, low, high). unat high - unat low)")
    (auto simp: middle_bounds word_less_nat_alt)

declare find_round.simps [simp del]

definition weighted_round_robin_index :: "u32 list \<Rightarrow> u64 \<Rightarrow> nat option" where
  "weighted_round_robin_index weights sequence =
     (let divisor = foldl gcd_u32 0 weights
      in if divisor = 0 then None
         else
           (let reduced = map (\<lambda>weight. weight div divisor) weights;
                total_weight = sum_u64 (map ucast reduced);
                slot = sequence mod total_weight
            in if reduced = [] then None
               else
                 (let max_weight = Max (set reduced);
                      round = find_round reduced slot 1 max_weight;
                      offset = slot - slots_through_round reduced (round - 1);
                      picked = filter (\<lambda>e. round \<le> snd e) (enumerate 0 reduced)
                  in if unat offset < length picked then Some (fst (picked ! unat offset)) else None)))"

section \<open>The schedule\<close>

definition round_of :: "nat list \<Rightarrow> nat \<Rightarrow> nat list" where
  "round_of ws r = filter (\<lambda>i. r \<le> ws ! i) [0..<length ws]"

definition rounds :: "nat list \<Rightarrow> nat \<Rightarrow> nat list" where
  "rounds ws n = concat (map (round_of ws) [1..<Suc n])"

definition schedule :: "nat list \<Rightarrow> nat list" where
  "schedule ws = rounds ws (Max (set ws))"

lemma rounds_Suc: "rounds ws (Suc n) = rounds ws n @ round_of ws (Suc n)"
  by (simp add: rounds_def)

lemma count_distinct: "distinct xs \<Longrightarrow> count_list xs x = of_bool (x \<in> set xs)"
  by (induction xs) auto

lemma count_round: "count_list (round_of ws r) i = of_bool (i < length ws \<and> r \<le> ws ! i)"
  by (subst count_distinct) (auto simp: round_of_def)

lemma count_rounds: "count_list (rounds ws n) i = (if i < length ws then min (ws ! i) n else 0)"
  by (induction n) (auto simp: rounds_Suc count_round, simp_all add: rounds_def)

lemma count_schedule: "count_list (schedule ws) i = (if i < length ws then ws ! i else 0)"
  by (auto simp: schedule_def count_rounds intro!: min_absorb1 Max_ge)

lemma length_round: "length (round_of ws r) = sum_list (map (\<lambda>w. of_bool (r \<le> w)) ws)"
proof -
  have "length (round_of ws r) = length (filter (\<lambda>w. r \<le> w) (map (\<lambda>i. ws ! i) [0..<length ws]))"
    by (simp add: round_of_def filter_map o_def)
  also have "\<dots> = length (filter (\<lambda>w. r \<le> w) ws)" by (simp add: map_nth)
  also have "\<dots> = sum_list (map (\<lambda>w. of_bool (r \<le> w)) ws)" by (induction ws) auto
  finally show ?thesis .
qed

lemma length_rounds: "length (rounds ws n) = sum_list (map (\<lambda>w. min w n) ws)"
proof (induction n)
  case (Suc n)
  have "min w (Suc n) = min w n + of_bool (Suc n \<le> w)" for w by auto
  with Suc show ?case by (simp add: rounds_Suc length_round sum_list_addf)
qed (simp add: rounds_def)

lemma length_schedule: "length (schedule ws) = sum_list ws"
proof -
  have "map (\<lambda>w. min w (Max (set ws))) ws = ws" by (auto intro!: map_idI min_absorb1 Max_ge)
  then show ?thesis by (simp add: schedule_def length_rounds)
qed

lemma rounds_prefix: "m \<le> n \<Longrightarrow> \<exists>rest. rounds ws n = rounds ws m @ rest"
  by (induction n) (auto simp: le_Suc_eq rounds_Suc)

text \<open>A slot of round \<open>r\<close> is found at its offset in that round.\<close>

lemma nth_schedule:
  assumes "1 \<le> r" "r \<le> Max (set ws)" and "length (rounds ws (r - 1)) \<le> k" "k < length (rounds ws r)"
  shows "k - length (rounds ws (r - 1)) < length (round_of ws r) \<and>
    schedule ws ! k = round_of ws r ! (k - length (rounds ws (r - 1)))"
proof -
  have r: "rounds ws r = rounds ws (r - 1) @ round_of ws r" using rounds_Suc [of ws "r - 1"] assms(1) by simp
  obtain rest where "schedule ws = rounds ws r @ rest" using rounds_prefix [OF assms(2)] by (auto simp: schedule_def)
  then have "schedule ws ! k = rounds ws r ! k" using assms(4) by (simp add: nth_append)
  then show ?thesis using assms(3,4) by (auto simp: r nth_append)
qed

section \<open>The code computes the schedule\<close>

lemma gcd_u32_exact: "unat (gcd_u32 a b) = gcd (unat a) (unat b)"
proof (induction a b rule: gcd_u32.induct)
  case (1 a b)
  show ?case
  proof (cases "b = 0")
    case True
    then show ?thesis by (subst gcd_u32.simps) simp
  next
    case False
    with 1 show ?thesis by (simp add: gcd_u32.simps [of a b] unat_mod gcd_red_nat [symmetric])
  qed
qed

lemma foldl_gcd_u32: "unat (foldl gcd_u32 a ws) = foldl gcd (unat a) (map unat ws)"
  by (induction ws arbitrary: a) (simp_all add: gcd_u32_exact)

lemma divisor_exact: "unat (foldl gcd_u32 0 ws) = Gcd (set (map unat ws))"
  unfolding foldl_gcd_u32 by (simp add: foldl_conv_fold Gcd_set_eq_fold gcd.commute del: set_map)

lemma sum_u64_exact_aux:
  "unat (acc :: u64) + sum_list (map unat ws) < 2 ^ 64 \<Longrightarrow> unat (foldl (+) acc ws) = unat acc + sum_list (map unat ws)"
proof (induction ws arbitrary: acc)
  case (Cons w ws)
  have "unat (acc + w) = unat acc + unat w" using Cons.prems by (simp add: unat_word_ariths(1))
  with Cons show ?case by simp
qed simp

lemma sum_u64_exact: "sum_list (map unat ws) < 2 ^ 64 \<Longrightarrow> unat (sum_u64 ws) = sum_list (map unat ws)"
  using sum_u64_exact_aux [of 0 ws] by (simp add: sum_u64_def)

lemma sum_u32_bound: "length ws < 2 ^ 32 \<Longrightarrow> sum_list (map f (ws :: u32 list)) < (2 :: nat) ^ 64"
  if "\<And>w. f w < 2 ^ 32"
proof -
  assume "length ws < 2 ^ 32"
  have "f w \<le> 2 ^ 32 - 1" for w using that [of w] by simp
  then have "sum_list (map f ws) \<le> sum_list (map (\<lambda>_. 2 ^ 32 - 1) ws)" by (intro sum_list_mono) auto
  also have "\<dots> = length ws * (2 ^ 32 - 1)" by (simp add: sum_list_triv)
  also have "\<dots> \<le> (2 ^ 32 - 1) * (2 ^ 32 - 1)" using \<open>length ws < 2 ^ 32\<close> by (intro mult_le_mono) auto
  finally show "sum_list (map f ws) < 2 ^ 64" by simp
qed

lemma unat_min: "unat (min a b) = min (unat a) (unat (b :: 'l::len word))"
  by (simp add: min_def word_le_nat_alt)

lemma unat_ucast_u64: "unat (ucast (w :: u32) :: u64) = unat w"
  proof -
  have "unat w < 2 ^ 32" using unsigned_less [of w] by simp
  then show ?thesis by (simp add: unsigned_ucast_eq take_bit_nat_eq_self)
qed

lemma slots_exact:
  assumes "length ws < 2 ^ 32"
  shows "unat (slots_through_round ws r) = length (rounds (map unat ws) (unat r))"
proof -
  have lt: "unat w < 2 ^ 32" for w :: u32 using unsigned_less [of w] by simp
  have "sum_list (map (\<lambda>w. unat (min w r)) ws) < 2 ^ 64" by (rule sum_u32_bound [OF lt assms])
  then show ?thesis
    unfolding slots_through_round_def by (subst sum_u64_exact) (simp_all add: o_def unat_ucast_u64 length_rounds unat_min)
qed

lemma rounds_mono: "m \<le> n \<Longrightarrow> length (rounds ws m) \<le> length (rounds ws n)"
  using rounds_prefix [of m n ws] by auto

lemma find_round_spec:
  assumes "length ws < 2 ^ 32" and "low \<le> high" and "1 \<le> unat low"
    and "length (rounds (map unat ws) (unat low - 1)) \<le> unat slot"
    and "unat slot < length (rounds (map unat ws) (unat high))"
    and "r = unat (find_round ws slot low high)"
  shows "1 \<le> r \<and> r \<le> unat high \<and> length (rounds (map unat ws) (r - 1)) \<le> unat slot \<and>
    unat slot < length (rounds (map unat ws) r)"
  using assms
proof (induction ws slot low high rule: find_round.induct)
  case (1 ws slot low high)
  show ?case
  proof (cases "low < high")
    case False
    then have "find_round ws slot low high = low" by (simp add: find_round.simps [of ws slot low high])
    moreover have "low = high" using 1 False by simp
    ultimately show ?thesis using 1 by simp
  next
    case True
    let ?m = "low + (high - low) div 2"
    note m = middle_bounds [OF True]
    show ?thesis
    proof (cases "slot < slots_through_round ws ?m")
      case hit: True
      then have "unat slot < length (rounds (map unat ws) (unat ?m))"
        using 1(3) by (simp add: word_less_nat_alt slots_exact)
      moreover have "r = unat (find_round ws slot low ?m)"
        using 1 True hit by (simp add: find_round.simps [of ws slot low high])
      ultimately show ?thesis
        using 1(1) [OF True refl hit 1(3) _ 1(5,6)] m by (auto simp: word_le_nat_alt)
    next
      case miss: False
      then have "length (rounds (map unat ws) (unat ?m)) \<le> unat slot"
        using 1(3) by (simp add: word_less_nat_alt slots_exact not_less)
      moreover have "r = unat (find_round ws slot (?m + 1) high)"
        using 1 True miss by (simp add: find_round.simps [of ws slot low high])
      ultimately show ?thesis
        using 1(2) [OF True refl miss 1(3) _ _ _ 1(7)] m by (auto simp: word_le_nat_alt)
    qed
  qed
qed

lemma unat_Max: "ws \<noteq> [] \<Longrightarrow> unat (Max (set (ws :: u32 list))) = Max (set (map unat ws))"
  by (subst set_map, subst mono_Max_commute) (auto simp: mono_def word_le_nat_alt)

lemma picked_round:
  "map fst (filter (\<lambda>e. r \<le> snd e) (enumerate 0 (ws :: u32 list))) = round_of (map unat ws) (unat r)"
proof -
  have "enumerate 0 ws = map (\<lambda>i. (i, ws ! i)) [0..<length ws]"
    by (rule nth_equalityI) (auto simp: nth_enumerate_eq)
  then show ?thesis by (auto simp: round_of_def filter_map o_def word_le_nat_alt intro!: filter_cong)
qed

lemma index_reduced:
  assumes len: "length ws < 2 ^ 32" and pos: "0 < sum_list (map unat ws)"
    and slot: "unat slot < sum_list (map unat ws)"
    and round: "r = find_round ws slot 1 (Max (set ws))"
    and picked: "picked = filter (\<lambda>e. r \<le> snd e) (enumerate 0 ws)"
    and off: "offset = slot - slots_through_round ws (r - 1)"
  shows "unat offset < length picked \<and> fst (picked ! unat offset) = schedule (map unat ws) ! unat slot"
proof -
  let ?ws = "map unat ws"
  have ne: "ws \<noteq> []" using pos by auto
  have max: "unat (Max (set ws)) = Max (set ?ws)" by (rule unat_Max [OF ne])
  have ends: "unat slot < length (rounds ?ws (unat (Max (set ws))))"
    using slot length_schedule [of ?ws] by (simp add: max schedule_def)
  then have "1 \<le> unat (Max (set ws))" by (cases "unat (Max (set ws))") (auto simp: rounds_def)
  then have "1 \<le> Max (set ws)" by (simp add: word_le_nat_alt)
  with ends have f: "1 \<le> unat r \<and> unat r \<le> unat (Max (set ws)) \<and> length (rounds ?ws (unat r - 1)) \<le> unat slot \<and>
      unat slot < length (rounds ?ws (unat r))"
    unfolding round by (intro find_round_spec [OF len _ _ _ _ refl]) (simp_all add: rounds_def)
  then have r1: "unat (r - 1) = unat r - 1" by (simp add: unat_sub word_le_nat_alt)
  have s: "unat (slots_through_round ws (r - 1)) = length (rounds ?ws (unat r - 1))"
    by (simp add: slots_exact [OF len] r1)
  have o: "unat offset = unat slot - length (rounds ?ws (unat r - 1))"
    using f by (simp add: off unat_sub word_le_nat_alt s)
  have m: "round_of ?ws (unat r) = map fst picked" by (simp only: picked picked_round)
  have p: "length picked = length (round_of ?ws (unat r))" "i < length picked \<Longrightarrow> fst (picked ! i) = round_of ?ws (unat r) ! i" for i
    by (simp_all add: m)
  show ?thesis using nth_schedule [of "unat r" ?ws "unat slot"] f by (auto simp: o p max)
qed

lemma weighted_index_nonzero:
  assumes "length ws < 2 ^ 32" and nz: "\<exists>w \<in> set ws. w \<noteq> 0"
    and g: "g = Gcd (set (map unat ws))" and s: "s = schedule (map (\<lambda>w. unat w div g) ws)"
  shows "weighted_round_robin_index ws seq = Some (s ! (unat seq mod length s)) \<and> 0 < length s"
proof -
  let ?d = "foldl gcd_u32 0 ws"
  have d: "unat ?d = g" by (simp only: divisor_exact g)
  define rs where "rs = map (\<lambda>w. w div ?d) ws"
  have gp: "g \<noteq> 0" using nz by (auto simp: g unat_eq_zero)
  then have dn: "?d \<noteq> 0" using d by auto
  have rsu: "map unat rs = map (\<lambda>w. unat w div g) ws" by (simp add: rs_def unat_div d)
  have ls: "length s = sum_list (map unat rs)" unfolding s rsu by (rule length_schedule)
  obtain w where w: "w \<in> set ws" "w \<noteq> 0" using nz by auto
  then have "g dvd unat w" by (auto simp: g)
  moreover have "0 < unat w" using w(2) by (simp add: unat_gt_0)
  ultimately have "0 < unat w div g" using gp by (simp add: dvd_imp_le div_greater_zero_iff)
  then have pos: "0 < sum_list (map unat rs)" unfolding rsu using w(1) by (auto simp: sum_list_eq_0_iff simp flip: neq0_conv)
  have lt: "unat w < 2 ^ 32" for w :: u32 using unsigned_less [of w] by simp
  have tot: "unat (sum_u64 (map ucast rs)) = length s"
    using sum_u32_bound [OF lt, of rs] assms(1) rs_def unfolding ls
    by (subst sum_u64_exact) (simp_all add: o_def unat_ucast_u64)
  let ?slot = "seq mod sum_u64 (map ucast rs)"
  have slot: "unat ?slot = unat seq mod length s" by (simp add: unat_mod tot)
  have sl: "unat ?slot < sum_list (map unat rs)" using pos by (simp add: slot ls)
  have "length rs < 2 ^ 32" using assms(1) by (simp add: rs_def)
  from index_reduced [OF this pos sl refl refl refl] have "weighted_round_robin_index ws seq = Some (s ! (unat seq mod length s))"
    using dn pos by (auto simp: weighted_round_robin_index_def Let_def s rsu [symmetric] slot rs_def [symmetric])
  moreover have "0 < length s" using pos by (simp add: ls)
  ultimately show ?thesis ..
qed

text \<open>What the callers rely on: an index in range, of a target with a positive weight.\<close>

lemma weighted_index_member:
  assumes "length ws < 2 ^ 32" and "\<exists>w \<in> set ws. w \<noteq> 0"
  shows "\<exists>i < length ws. weighted_round_robin_index ws seq = Some i \<and> ws ! i \<noteq> 0"
proof -
  define g s where "g = Gcd (set (map unat ws))" and "s = schedule (map (\<lambda>w. unat w div g) ws)"
  have w: "weighted_round_robin_index ws seq = Some (s ! (unat seq mod length s))" "0 < length s"
    using weighted_index_nonzero [OF assms g_def s_def] by auto
  let ?i = "s ! (unat seq mod length s)"
  have "?i \<in> set s" using w(2) by simp
  then have "count_list s ?i \<noteq> 0" by (simp add: count_list_0_iff)
  then have "?i < length ws" "unat (ws ! ?i) div g \<noteq> 0" by (auto simp: s_def count_schedule split: if_splits)
  then show ?thesis using w(1) by (intro exI [of _ ?i]) auto
qed

text \<open>
  C23. The closed computation is the schedule: for weights that are not all zero,
  \<open>weighted_round_robin_index\<close> answers with the entry of the interleaved schedule at the sequence
  number, cyclically, and one turn of the schedule holds every target exactly its weight divided by
  the greatest common divisor of the weights times. For zero weights there is no answer.
\<close>

theorem weighted_index_is_schedule:
  assumes "length ws < 2 ^ 32"
    and g: "g = Gcd (set (map unat ws))" and s: "s = schedule (map (\<lambda>w. unat w div g) ws)"
  shows "weighted_round_robin_index ws seq = (if \<forall>w \<in> set ws. w = 0 then None else Some (s ! (unat seq mod length s))) \<and>
    (\<forall>i < length ws. count_list s i = unat (ws ! i) div g)"
proof
  show "\<forall>i < length ws. count_list s i = unat (ws ! i) div g" by (simp add: s count_schedule)
  show "weighted_round_robin_index ws seq = (if \<forall>w \<in> set ws. w = 0 then None else Some (s ! (unat seq mod length s)))"
  proof (cases "\<forall>w \<in> set ws. w = 0")
    case True
    then have "unat (foldl gcd_u32 0 ws) = 0" unfolding divisor_exact by (auto simp: Gcd_0_iff)
    then show ?thesis using True by (simp add: weighted_round_robin_index_def unat_eq_zero)
  next
    case False
    then show ?thesis using weighted_index_nonzero [OF assms(1) _ g s] by auto
  qed
qed

theorem weighted_index_is_schedule_witness:
  "map (weighted_round_robin_index [40, 10, 0]) [0, 1, 2, 3, 4, 5] = map Some [0, 1, 0, 0, 0, 0]"
proof -
  have g: "Gcd (set (map unat [40, 10, 0 :: u32])) = 10" by (simp add: gcd_non_0_nat)
  have s: "schedule (map (\<lambda>w. unat w div 10) [40, 10, 0 :: u32]) = [0, 1, 0, 0, 0]"
    by (simp add: schedule_def rounds_def round_of_def upt_rec)
  show ?thesis using weighted_index_is_schedule [OF _ g [symmetric] s [symmetric]] by simp
qed

end
