(* ===== verification/AI_Models.thy ===== *)
theory AI_Models
  imports AI_Weighted Routing_Types
begin

text \<open>
  Model selection of the AI gateway: the group balancer with priorities, weights and cooldowns
  (\<open>kong-ai/src/provider/balancer.rs\<close>) and the model router with regular expressions
  (\<open>kong-ai/src/provider/router.rs\<close>). Of the entities the model has the fields that selection reads
  or fills in; JSON values are a type parameter. Time is a number of nanoseconds of the monotonic
  clock, read once per operation. Regular expressions are the parameter \<open>regex_engine\<close> of the
  routers.
\<close>

section \<open>Group balancer\<close>

record AiModel =
  am_id :: uuid
  am_name :: string
  am_model_name :: string
  am_priority :: int
  am_weight :: int
  am_max_input_tokens :: "int option"
  am_enabled :: bool

record 'j AiProviderConfig =
  ap_id :: uuid
  ap_name :: string
  ap_provider_type :: string
  ap_endpoint_url :: "string option"
  ap_auth_config :: 'j
  ap_enabled :: bool

record ModelHealth =
  mh_consecutive_failures :: u32
  mh_cooldown_until :: "duration option"

definition health_reset :: ModelHealth where
  "health_reset = \<lparr>mh_consecutive_failures = 0, mh_cooldown_until = None\<rparr>"

definition is_available :: "ModelHealth \<Rightarrow> duration \<Rightarrow> bool" where
  "is_available h now = (case mh_cooldown_until h of Some t \<Rightarrow> t \<le> now | None \<Rightarrow> True)"

definition enter_cooldown :: "ModelHealth \<Rightarrow> duration \<Rightarrow> duration \<Rightarrow> ModelHealth" where
  "enter_cooldown h now d = h\<lparr>mh_cooldown_until := Some (now + d)\<rparr>"

record 'j ModelEntry =
  me_model :: AiModel
  me_provider_config :: "'j AiProviderConfig"
  me_health :: ModelHealth

record 'j ModelGroupBalancer =
  mb_entries :: "'j ModelEntry list"
  mb_counter :: u64

datatype GroupError = GroupEmpty | AllUnavailable

definition entry_order :: "'j ModelEntry \<Rightarrow> 'j ModelEntry \<Rightarrow> ordering" where
  "entry_order a b =
     then_with (cmp (am_priority (me_model b)) (am_priority (me_model a))) (cmp (am_id (me_model a)) (am_id (me_model b)))"

definition group_new :: "(AiModel \<times> 'j AiProviderConfig) list \<Rightarrow> 'j ModelGroupBalancer" where
  "group_new models =
     \<lparr>mb_entries = sort_by entry_order
        (map (\<lambda>(m, p). \<lparr>me_model = m, me_provider_config = p, me_health = health_reset\<rparr>) models),
      mb_counter = 0\<rparr>"

definition fits_token_budget :: "AiModel \<Rightarrow> u64 option \<Rightarrow> bool" where
  "fits_token_budget model prompt_tokens =
     (case prompt_tokens of
        None \<Rightarrow> True
      | Some pt \<Rightarrow>
          (case am_max_input_tokens model of
             None \<Rightarrow> True
           | Some cap \<Rightarrow> if cap \<le> 0 then True else pt \<le> word_of_int cap))"

definition usable :: "duration \<Rightarrow> u64 option \<Rightarrow> 'j ModelEntry \<Rightarrow> bool" where
  "usable now prompt_tokens e =
     (am_enabled (me_model e) \<and> is_available (me_health e) now \<and> fits_token_budget (me_model e) prompt_tokens)"

definition entry_weight :: "'j ModelEntry \<Rightarrow> u32" where
  "entry_weight e = word_of_int (max (am_weight (me_model e)) 0)"

text \<open>The choice among the candidates of a tier.\<close>

definition pick_candidate :: "'j ModelEntry list \<Rightarrow> u64 \<Rightarrow> 'j ModelEntry outcome" where
  "pick_candidate candidates sequence =
     (let weights = map entry_weight candidates
      in if \<forall>w \<in> set weights. w = 0 then Ret (candidates ! (unat sequence mod length candidates))
         else (case weighted_round_robin_index weights sequence of
                 None \<Rightarrow> Panic
               | Some i \<Rightarrow> if i < length candidates then Ret (candidates ! i) else Panic))"

fun select_tiers ::
    "'j ModelGroupBalancer \<Rightarrow> duration \<Rightarrow> u64 option \<Rightarrow> int list \<Rightarrow>
     (GroupError + 'j ModelEntry) outcome \<times> 'j ModelGroupBalancer" where
  "select_tiers b now prompt_tokens [] = (Ret (Inl AllUnavailable), b)"
| "select_tiers b now prompt_tokens (priority # ps) =
     (let candidates = filter (\<lambda>e. am_priority (me_model e) = priority \<and> usable now prompt_tokens e) (mb_entries b)
      in if candidates = [] then select_tiers b now prompt_tokens ps
         else
           (let sequence = mb_counter b
            in (case pick_candidate candidates sequence of Panic \<Rightarrow> Panic | Ret e \<Rightarrow> Ret (Inr e),
                b\<lparr>mb_counter := sequence + 1\<rparr>)))"

definition select_for ::
    "'j ModelGroupBalancer \<Rightarrow> duration \<Rightarrow> u64 option \<Rightarrow> (GroupError + 'j ModelEntry) outcome \<times> 'j ModelGroupBalancer" where
  "select_for b now prompt_tokens =
     (if mb_entries b = [] then (Ret (Inl GroupEmpty), b)
      else select_tiers b now prompt_tokens (remdups_adj (map (\<lambda>e. am_priority (me_model e)) (mb_entries b))))"

definition group_select :: "'j ModelGroupBalancer \<Rightarrow> duration \<Rightarrow> (GroupError + 'j ModelEntry) outcome \<times> 'j ModelGroupBalancer" where
  "group_select b now = select_for b now None"

text \<open>An update of the first entry with an identifier.\<close>

fun update_first :: "('a \<Rightarrow> bool) \<Rightarrow> ('a \<Rightarrow> 'a) \<Rightarrow> 'a list \<Rightarrow> 'a list" where
  "update_first p f [] = []"
| "update_first p f (x # xs) = (if p x then f x # xs else x # update_first p f xs)"

definition on_model :: "(ModelHealth \<Rightarrow> ModelHealth) \<Rightarrow> 'j ModelGroupBalancer \<Rightarrow> uuid \<Rightarrow> 'j ModelGroupBalancer" where
  "on_model f b model_id =
     b\<lparr>mb_entries := update_first (\<lambda>e. am_id (me_model e) = model_id) (\<lambda>e. e\<lparr>me_health := f (me_health e)\<rparr>) (mb_entries b)\<rparr>"

definition model_success :: "'j ModelGroupBalancer \<Rightarrow> uuid \<Rightarrow> 'j ModelGroupBalancer" where
  "model_success b model_id = on_model (\<lambda>_. health_reset) b model_id"

definition fail_health :: "u16 option \<Rightarrow> duration \<Rightarrow> ModelHealth \<Rightarrow> ModelHealth" where
  "fail_health status now h =
     (if status = Some 429 then enter_cooldown h now (from_secs 10)
      else
        (let failures = mh_consecutive_failures h + 1;
             h' = h\<lparr>mh_consecutive_failures := failures\<rparr>
         in if 3 \<le> failures then enter_cooldown h' now (from_secs 30) else h'))"

definition model_failure :: "'j ModelGroupBalancer \<Rightarrow> uuid \<Rightarrow> u16 option \<Rightarrow> duration \<Rightarrow> 'j ModelGroupBalancer" where
  "model_failure b model_id status now = on_model (fail_health status now) b model_id"

definition group_is_empty :: "'j ModelGroupBalancer \<Rightarrow> bool" where
  "group_is_empty b = (mb_entries b = [])"

section \<open>Model router\<close>

definition MAX_MODEL_WEIGHT :: int where
  "MAX_MODEL_WEIGHT = 10000"

record 'j ModelTargetConfig =
  mt_provider_type :: string
  mt_model_name :: string
  mt_endpoint_url :: "string option"
  mt_auth_config :: 'j
  mt_weight :: u32

record 'j ModelRouteConfig =
  mr_pattern :: string
  mr_targets :: "'j ModelTargetConfig list"

record ('j, 're) CompiledRoute =
  cr_pattern :: 're
  cr_pattern_str :: string
  cr_targets :: "'j ModelTargetConfig list"

record 'j RouteResolution =
  rr_provider_type :: string
  rr_model :: AiModel
  rr_provider_config :: "'j AiProviderConfig"

record ('j, 're) ModelRouter =
  mx_rules :: "('j, 're) CompiledRoute list"
  mx_counter :: u64

datatype RouterError = NoTargets string | WeightTooLarge string | InvalidPattern string

fun compile_rules :: "'re regex_engine \<Rightarrow> 'j ModelRouteConfig list \<Rightarrow> RouterError + ('j, 're) CompiledRoute list" where
  "compile_rules rx [] = Inr []"
| "compile_rules rx (cfg # cfgs) =
     (if mr_targets cfg = [] then Inl (NoTargets (mr_pattern cfg))
      else if \<exists>t \<in> set (mr_targets cfg). word_of_int MAX_MODEL_WEIGHT < mt_weight t then Inl (WeightTooLarge (mr_pattern cfg))
      else
        (case rx_new rx (mr_pattern cfg) of
           None \<Rightarrow> Inl (InvalidPattern (mr_pattern cfg))
         | Some re \<Rightarrow>
             (case compile_rules rx cfgs of
                Inl e \<Rightarrow> Inl e
              | Inr rules \<Rightarrow>
                  Inr (\<lparr>cr_pattern = re, cr_pattern_str = mr_pattern cfg, cr_targets = mr_targets cfg\<rparr> # rules))))"

definition from_configs :: "'re regex_engine \<Rightarrow> 'j ModelRouteConfig list \<Rightarrow> RouterError + ('j, 're) ModelRouter" where
  "from_configs rx cfgs =
     (case compile_rules rx cfgs of Inl e \<Rightarrow> Inl e | Inr rules \<Rightarrow> Inr \<lparr>mx_rules = rules, mx_counter = 0\<rparr>)"

definition build_resolution :: "string \<Rightarrow> 'j ModelTargetConfig \<Rightarrow> 'j RouteResolution" where
  "build_resolution model_name target =
     \<lparr>rr_provider_type = mt_provider_type target,
      rr_model = \<lparr>am_id = 0, am_name = model_name, am_model_name = mt_model_name target, am_priority = 0,
                  am_weight = 0, am_max_input_tokens = None, am_enabled = True\<rparr>,
      rr_provider_config = \<lparr>ap_id = 0, ap_name = mt_provider_type target, ap_provider_type = mt_provider_type target,
                  ap_endpoint_url = mt_endpoint_url target, ap_auth_config = mt_auth_config target, ap_enabled = True\<rparr>\<rparr>"

definition resolve ::
    "'re regex_engine \<Rightarrow> ('j, 're) ModelRouter \<Rightarrow> string \<Rightarrow> 'j RouteResolution option outcome \<times> ('j, 're) ModelRouter" where
  "resolve rx router model_name =
     (case find (\<lambda>r. rx_is_match rx (cr_pattern r) model_name) (mx_rules router) of
        None \<Rightarrow> (Ret None, router)
      | Some rule \<Rightarrow>
          (let targets = cr_targets rule;
               weights = map mt_weight targets
           in if targets = [] then (Panic, router)
              else if length targets = 1 \<or> (\<forall>w \<in> set weights. w = 0)
              then (Ret (Some (build_resolution model_name (hd targets))), router)
              else
                (let sequence = mx_counter router
                 in (case weighted_round_robin_index weights sequence of
                       None \<Rightarrow> Panic
                     | Some i \<Rightarrow>
                         if i < length targets then Ret (Some (build_resolution model_name (targets ! i))) else Panic,
                     router\<lparr>mx_counter := sequence + 1\<rparr>))))"

section \<open>Selection from the best tier\<close>

interpretation by_entry: comparator "entry_order :: 'j ModelEntry \<Rightarrow> 'j ModelEntry \<Rightarrow> ordering"
  unfolding entry_order_def by (intro comparator_then_with comparator_cmp_key) (rule comparator.flip [OF comparator_cmp_key, simplified])

definition group_ok :: "'j ModelGroupBalancer \<Rightarrow> bool" where
  "group_ok b = (sorted_wrt (\<ge>) (map (\<lambda>e. am_priority (me_model e)) (mb_entries b)) \<and> length (mb_entries b) < 2 ^ 32)"

lemma group_new_ok: "length models < 2 ^ 32 \<Longrightarrow> group_ok (group_new models)"
proof -
  assume "length models < 2 ^ 32"
  moreover have "sorted_wrt (\<ge>) (map (\<lambda>e. am_priority (me_model e)) (sort_by entry_order es))" for es :: "'j ModelEntry list"
    using by_entry.sorted_sort_by [of es]
    by (auto simp: sorted_wrt_map entry_order_def not_less intro: sorted_wrt_mono_rel [rotated])
  ultimately show ?thesis by (simp add: group_ok_def group_new_def)
qed

lemma map_update_first: "(\<And>x. g (f x) = g x) \<Longrightarrow> map g (update_first p f xs) = map g xs"
  by (induction xs) auto

lemma on_model_priorities: "map (\<lambda>e. am_priority (me_model e)) (mb_entries (on_model f b i)) = map (\<lambda>e. am_priority (me_model e)) (mb_entries b)"
  by (simp add: on_model_def map_update_first)

lemma group_ok_cong:
  "map (\<lambda>e. am_priority (me_model e)) (mb_entries b') = map (\<lambda>e. am_priority (me_model e)) (mb_entries b) \<Longrightarrow> group_ok b' = group_ok b"
proof -
  assume a: "map (\<lambda>e. am_priority (me_model e)) (mb_entries b') = map (\<lambda>e. am_priority (me_model e)) (mb_entries b)"
  then have "length (mb_entries b') = length (mb_entries b)" by (rule map_eq_imp_length_eq)
  with a show ?thesis by (simp add: group_ok_def)
qed

lemma group_ok_report: "group_ok (on_model f b i) = group_ok b"
  by (rule group_ok_cong [OF on_model_priorities])

lemma pick_candidate_spec:
  assumes "cs \<noteq> []" and "length cs < 2 ^ 32"
  shows "\<exists>e \<in> set cs. pick_candidate cs sequence = Ret e \<and> (entry_weight e \<noteq> 0 \<or> (\<forall>c \<in> set cs. entry_weight c = 0))"
proof (cases "\<forall>w \<in> set (map entry_weight cs). w = 0")
  case True
  have "cs ! (unat sequence mod length cs) \<in> set cs" using assms(1) by simp
  with True show ?thesis by (auto simp: pick_candidate_def Let_def)
next
  case False
  then obtain i where "i < length cs" "weighted_round_robin_index (map entry_weight cs) sequence = Some i" "entry_weight (cs ! i) \<noteq> 0"
    using weighted_index_member [of "map entry_weight cs" sequence] assms(2) by auto
  with False show ?thesis by (auto simp: pick_candidate_def Let_def intro!: bexI [of _ "cs ! i"])
qed

definition tier :: "'j ModelGroupBalancer \<Rightarrow> duration \<Rightarrow> u64 option \<Rightarrow> int \<Rightarrow> 'j ModelEntry list" where
  "tier b now pt p = filter (\<lambda>e. am_priority (me_model e) = p \<and> usable now pt e) (mb_entries b)"

lemma select_tiers_spec:
  "select_tiers b now pt ps =
     (case find (\<lambda>p. tier b now pt p \<noteq> []) ps of
        None \<Rightarrow> (Ret (Inl AllUnavailable), b)
      | Some p \<Rightarrow> (case pick_candidate (tier b now pt p) (mb_counter b) of Panic \<Rightarrow> Panic | Ret e \<Rightarrow> Ret (Inr e),
                   b\<lparr>mb_counter := mb_counter b + 1\<rparr>))"
  by (induction ps) (auto simp: tier_def Let_def)

lemma find_sorted_Max:
  assumes "sorted_wrt (\<ge>) ps" and "find P ps = Some p" and "q \<in> set ps" "P q"
  shows "q \<le> (p :: int)"
  using assms by (induction ps) (auto split: if_splits)

lemma sorted_remdups_adj: "sorted_wrt (\<ge>) ps \<Longrightarrow> sorted_wrt (\<ge>) (remdups_adj (ps :: int list))"
  by (induction ps rule: remdups_adj.induct) auto

text \<open>
  C36. The group balancer serves the best tier: a selection fails only if no model of the group is
  enabled, out of cooldown and large enough for the prompt; otherwise it answers (and never panics)
  with such a model of the highest priority among them, and with one of positive weight if that
  tier has any.
\<close>

theorem group_serves_best_tier:
  assumes "group_ok b"
  shows "case fst (select_for b now pt) of
      Panic \<Rightarrow> False
    | Ret (Inl err) \<Rightarrow> (\<forall>e \<in> set (mb_entries b). \<not> usable now pt e)
    | Ret (Inr m) \<Rightarrow> m \<in> set (mb_entries b) \<and> usable now pt m \<and>
        (\<forall>e \<in> set (mb_entries b). usable now pt e \<longrightarrow>
           am_priority (me_model e) < am_priority (me_model m) \<or>
           am_priority (me_model e) = am_priority (me_model m) \<and> (entry_weight e = 0 \<or> entry_weight m \<noteq> 0))"
proof (cases "mb_entries b = []")
  case False
  let ?ps = "remdups_adj (map (\<lambda>e. am_priority (me_model e)) (mb_entries b))"
  have sorted: "sorted_wrt (\<ge>) ?ps" using assms by (intro sorted_remdups_adj) (simp add: group_ok_def)
  have sel: "select_for b now pt = select_tiers b now pt ?ps" using False by (simp add: select_for_def)
  have in_ps: "am_priority (me_model e) \<in> set ?ps" if "e \<in> set (mb_entries b)" for e using that by simp
  have in_tier: "tier b now pt (am_priority (me_model e)) \<noteq> []" if "e \<in> set (mb_entries b)" "usable now pt e" for e
    using that by (auto simp: tier_def filter_empty_conv)
  show ?thesis
  proof (cases "find (\<lambda>p. tier b now pt p \<noteq> []) ?ps")
    case None
    then have "\<not> usable now pt e" if "e \<in> set (mb_entries b)" for e
      using in_ps [OF that] in_tier [OF that] by (auto simp: find_None_iff)
    with None show ?thesis by (simp add: sel select_tiers_spec)
  next
    case (Some p)
    then have ne: "tier b now pt p \<noteq> []" by (auto simp: find_Some_iff)
    have "length (tier b now pt p) < 2 ^ 32"
      using assms length_filter_le [of _ "mb_entries b"] unfolding tier_def group_ok_def by (meson le_less_trans)
    from pick_candidate_spec [OF ne this] obtain m where m: "m \<in> set (tier b now pt p)"
      "pick_candidate (tier b now pt p) (mb_counter b) = Ret m"
      "entry_weight m \<noteq> 0 \<or> (\<forall>c \<in> set (tier b now pt p). entry_weight c = 0)" by blast
    have mm: "m \<in> set (mb_entries b)" "usable now pt m" "am_priority (me_model m) = p" using m(1) by (auto simp: tier_def)
    have "am_priority (me_model e) < p \<or> am_priority (me_model e) = p \<and> (entry_weight e = 0 \<or> entry_weight m \<noteq> 0)"
      if e: "e \<in> set (mb_entries b)" "usable now pt e" for e
    proof -
      have "am_priority (me_model e) \<le> p" by (rule find_sorted_Max [OF sorted Some in_ps [OF e(1)] in_tier [OF e]])
      moreover have "am_priority (me_model e) = p \<Longrightarrow> e \<in> set (tier b now pt p)" using e by (simp add: tier_def)
      ultimately show ?thesis using m(3) by fastforce
    qed
    with mm Some m(2) show ?thesis by (simp add: sel select_tiers_spec)
  qed
qed (simp add: select_for_def)

definition ex_model :: "uuid \<Rightarrow> int \<Rightarrow> int \<Rightarrow> int option \<Rightarrow> AiModel" where
  "ex_model i p w cap = \<lparr>am_id = i, am_name = ''chat'', am_model_name = ''m'', am_priority = p, am_weight = w,
     am_max_input_tokens = cap, am_enabled = True\<rparr>"

definition ex_provider :: "unit AiProviderConfig" where
  "ex_provider = \<lparr>ap_id = 9, ap_name = ''p'', ap_provider_type = ''openai'', ap_endpoint_url = None, ap_auth_config = (),
     ap_enabled = True\<rparr>"

text \<open>Two models in the upper tier, the first with a small context window, and one in the lower tier.\<close>

definition ex_group :: "unit ModelGroupBalancer" where
  "ex_group = group_new
     [(ex_model 3 1 5 None, ex_provider), (ex_model 1 7 5 (Some 100), ex_provider), (ex_model 2 7 0 None, ex_provider)]"

theorem group_serves_best_tier_witness:
  "group_ok ex_group \<and>
   (case fst (select_for ex_group 0 (Some 4000)) of
      Panic \<Rightarrow> False | Ret (Inl err) \<Rightarrow> False | Ret (Inr m) \<Rightarrow> am_id (me_model m) = 2 \<and> usable 0 (Some 4000) m)"
proof -
  have ok: "group_ok ex_group" unfolding ex_group_def by (rule group_new_ok) simp
  have "fst (select_for ex_group 0 (Some 4000)) =
      Ret (Inr \<lparr>me_model = ex_model 2 7 0 None, me_provider_config = ex_provider, me_health = health_reset\<rparr>)"
    by code_simp
  with ok group_serves_best_tier [OF ok, of 0 "Some 4000"] show ?thesis by (simp add: ex_model_def)
qed

section \<open>Cooldowns\<close>

text \<open>
  The reports of the proxy, in their order: a success, or a failure with its status at a moment.
  What the reports of one model say is read from the newest one back to the last success.
\<close>

datatype model_report = Succeeded uuid | Failed uuid "u16 option" duration

fun report_id :: "model_report \<Rightarrow> uuid" where
  "report_id (Succeeded i) = i"
| "report_id (Failed i _ _) = i"

fun is_failure :: "model_report \<Rightarrow> bool" where
  "is_failure (Succeeded _) = False"
| "is_failure (Failed _ _ _) = True"

fun is_counted :: "model_report \<Rightarrow> bool" where
  "is_counted (Failed _ status _) = (status \<noteq> Some 429)"
| "is_counted (Succeeded _) = False"

fun apply_report :: "model_report \<Rightarrow> 'j ModelGroupBalancer \<Rightarrow> 'j ModelGroupBalancer" where
  "apply_report (Succeeded i) b = model_success b i"
| "apply_report (Failed i status now) b = model_failure b i status now"

definition since_success :: "uuid \<Rightarrow> model_report list \<Rightarrow> model_report list" where
  "since_success i rs = takeWhile is_failure (filter (\<lambda>r. report_id r = i) (rev rs))"

fun cooldown_end :: "model_report list \<Rightarrow> duration option" where
  "cooldown_end (Failed _ status t # older) =
     (if status = Some 429 then Some (t + from_secs 10)
      else if 2 \<le> length (filter is_counted older) then Some (t + from_secs 30)
      else cooldown_end older)"
| "cooldown_end _ = None"

definition health_of :: "model_report list \<Rightarrow> ModelHealth" where
  "health_of rs = \<lparr>mh_consecutive_failures = of_nat (length (filter is_counted rs)), mh_cooldown_until = cooldown_end rs\<rparr>"

lemma since_success_snoc:
  "since_success i (rs @ [r]) =
     (if report_id r = i then if is_failure r then r # since_success i rs else [] else since_success i rs)"
  by (simp add: since_success_def)

lemma length_since_success: "length (filter is_counted (since_success i rs)) \<le> length rs"
  unfolding since_success_def
  by (metis length_filter_le length_rev length_takeWhile_le order_trans)

lemma health_of_failure:
  assumes "length (filter is_counted older) < 2 ^ 32 - 1"
  shows "health_of (Failed i status t # older) = fail_health status t (health_of older)"
proof -
  let ?n = "length (filter is_counted older)"
  have "unat (of_nat (Suc ?n) :: u32) = Suc ?n" by (rule trans [OF unat_of_nat mod_less]) (use assms in simp)
  then have "unat (of_nat ?n + 1 :: u32) = Suc ?n" by (simp add: add.commute)
  then have "3 \<le> (of_nat ?n + 1 :: u32) \<longleftrightarrow> 2 \<le> ?n" by (simp add: word_le_nat_alt)
  then show ?thesis by (simp add: health_of_def fail_health_def enter_cooldown_def Let_def add.commute)
qed

lemma update_first_distinct:
  "distinct (map k xs) \<Longrightarrow> update_first (\<lambda>x. k x = i) f xs = map (\<lambda>x. if k x = i then f x else x) xs"
proof (induction xs)
  case (Cons x xs)
  then have "map (\<lambda>y. if k y = k x then f y else y) xs = xs" by (intro map_idI) (auto simp: image_iff)
  with Cons show ?case by auto
qed simp

definition group_ids :: "'j ModelGroupBalancer \<Rightarrow> uuid list" where
  "group_ids b = map (\<lambda>e. am_id (me_model e)) (mb_entries b)"

lemma mset_group_ids_new: "mset (group_ids (group_new ms)) = mset (map (am_id \<circ> fst) ms)"
proof -
  have "mset (map f (sort_by entry_order es)) = mset (map f es)" for f :: "'j ModelEntry \<Rightarrow> uuid" and es
    by (simp add: mset_map)
  then show ?thesis
    by (simp add: group_ids_def group_new_def comp_def case_prod_beta multiset.map_comp)
qed

lemma apply_report_entries:
  assumes "distinct (group_ids b)"
  shows "mb_entries (apply_report r b) =
     map (\<lambda>e. if am_id (me_model e) = report_id r
              then e\<lparr>me_health := (case r of Succeeded i \<Rightarrow> health_reset | Failed i s t \<Rightarrow> fail_health s t (me_health e))\<rparr> else e)
       (mb_entries b)"
  using assms by (cases r) (simp_all add: group_ids_def model_success_def model_failure_def on_model_def update_first_distinct)

lemma group_ids_report: "distinct (group_ids b) \<Longrightarrow> group_ids (apply_report r b) = group_ids b"
  by (simp add: group_ids_def apply_report_entries)

lemma reports_health:
  assumes "distinct (map (am_id \<circ> fst) ms)" and "length rs < 2 ^ 32"
  shows "distinct (group_ids (fold apply_report rs (group_new ms))) \<and>
    (\<forall>e \<in> set (mb_entries (fold apply_report rs (group_new ms))). me_health e = health_of (since_success (am_id (me_model e)) rs))"
  using assms(2)
proof (induction rs rule: rev_induct)
  case Nil
  have "distinct (group_ids (group_new ms))"
    using assms(1) mset_group_ids_new [of ms] by (metis mset_eq_imp_distinct_iff)
  then show ?case by (auto simp: group_new_def since_success_def health_of_def health_reset_def)
next
  case (snoc r rs)
  let ?b = "fold apply_report rs (group_new ms)"
  have d: "distinct (group_ids ?b)" and h: "\<forall>e \<in> set (mb_entries ?b). me_health e = health_of (since_success (am_id (me_model e)) rs)"
    using snoc by auto
  have n: "length (filter is_counted (since_success i rs)) < 2 ^ 32 - 1" for i
    using length_since_success [of i rs] snoc.prems by simp
  have "health_of (since_success i (rs @ [r])) =
      (if i = report_id r then (case r of Succeeded i \<Rightarrow> health_reset | Failed _ s t \<Rightarrow> fail_health s t (health_of (since_success i rs)))
       else health_of (since_success i rs))" for i
    by (cases r) (auto simp: since_success_snoc health_of_failure [OF n], simp add: health_of_def health_reset_def)
  then have "\<forall>e \<in> set (mb_entries (apply_report r ?b)). me_health e = health_of (since_success (am_id (me_model e)) (rs @ [r]))"
    using h by (auto simp: apply_report_entries [OF d] split: model_report.split)
  then show ?case by (simp add: d group_ids_report)
qed

text \<open>
  Cooldowns: after any reports about the models of a group, a model is available at a moment
  exactly if the reports since its last success do not put it in cooldown then. The newest report
  that triggers decides: a 429 stops the model for ten seconds from then, another failure for thirty
  seconds if at least two counted failures came before it since the last success.
\<close>

theorem cooldown_follows_reports:
  assumes "distinct (map (am_id \<circ> fst) models)" and "length reports < 2 ^ 32"
    and "e \<in> set (mb_entries (fold apply_report reports (group_new models)))"
  shows "is_available (me_health e) now =
    (case cooldown_end (since_success (am_id (me_model e)) reports) of None \<Rightarrow> True | Some t \<Rightarrow> t \<le> now)"
  using reports_health [OF assms(1,2)] assms(3) by (simp add: is_available_def health_of_def)

definition ex_reports :: "model_report list" where
  "ex_reports = [Failed 2 None 5, Succeeded 2, Failed 1 (Some 500) 10, Failed 1 None 20, Failed 2 (Some 429) 25, Failed 1 (Some 502) 30]"

theorem cooldown_follows_reports_witness:
  "map (\<lambda>e. (am_id (me_model e), is_available (me_health e) (10000000025), is_available (me_health e) (30000000030)))
     (mb_entries (fold apply_report ex_reports ex_group)) = [(1, False, True), (2, True, True), (3, True, True)]"
proof -
  let ?ms = "[(ex_model 3 1 5 None, ex_provider), (ex_model 1 7 5 (Some 100), ex_provider), (ex_model 2 7 0 None, ex_provider)]"
  have ids: "map (\<lambda>e. am_id (me_model e)) (mb_entries (fold apply_report ex_reports ex_group)) = [1, 2, 3]"
  proof -
    have "map (\<lambda>e. am_id (me_model e)) (mb_entries ex_group) = [1, 2, 3]" by code_simp
    then show ?thesis
      by (simp add: ex_reports_def model_success_def model_failure_def on_model_def map_update_first)
  qed
  have av: "is_available (me_health e) now =
      (case cooldown_end (since_success (am_id (me_model e)) ex_reports) of None \<Rightarrow> True | Some t \<Rightarrow> t \<le> now)"
    if "e \<in> set (mb_entries (fold apply_report ex_reports ex_group))" for e now
    using cooldown_follows_reports [of ?ms ex_reports e now] that
    by (simp add: ex_group_def ex_model_def ex_reports_def)
  have "map (\<lambda>e. (am_id (me_model e), is_available (me_health e) 10000000025, is_available (me_health e) 30000000030))
     (mb_entries (fold apply_report ex_reports ex_group)) =
     map (\<lambda>i. (i, (case cooldown_end (since_success i ex_reports) of None \<Rightarrow> True | Some t \<Rightarrow> t \<le> 10000000025),
        (case cooldown_end (since_success i ex_reports) of None \<Rightarrow> True | Some t \<Rightarrow> t \<le> 30000000030)))
     (map (\<lambda>e. am_id (me_model e)) (mb_entries (fold apply_report ex_reports ex_group)))"
    by (simp add: av)
  also have "\<dots> = [(1, False, True), (2, True, True), (3, True, True)]" unfolding ids by (simp add: ex_reports_def since_success_def from_secs_def)
  finally show ?thesis .
qed

section \<open>Routing by model name\<close>

lemma compile_rules_targets:
  "compile_rules rx cfgs = Inr rules \<Longrightarrow>
     list_all2 (\<lambda>cfg rule. rx_new rx (mr_pattern cfg) = Some (cr_pattern rule) \<and> cr_targets rule = mr_targets cfg \<and>
       mr_targets cfg \<noteq> [] \<and> (\<forall>t \<in> set (mr_targets cfg). mt_weight t \<le> 10000)) cfgs rules"
  by (induction cfgs arbitrary: rules)
     (auto simp: MAX_MODEL_WEIGHT_def not_less split: if_splits option.splits sum.splits)

lemma resolve_rule:
  assumes "find (\<lambda>r. rx_is_match rx (cr_pattern r) name) (mx_rules router) = Some rule"
    and "cr_targets rule \<noteq> []" and "length (cr_targets rule) < 2 ^ 32"
  shows "\<exists>t \<in> set (cr_targets rule). fst (resolve rx router name) = Ret (Some (build_resolution name t)) \<and>
    (mt_weight t \<noteq> 0 \<or> length (cr_targets rule) = 1 \<or> (\<forall>u \<in> set (cr_targets rule). mt_weight u = 0))"
proof (cases "length (cr_targets rule) = 1 \<or> (\<forall>w \<in> set (map mt_weight (cr_targets rule)). w = 0)")
  case True
  then have "fst (resolve rx router name) = Ret (Some (build_resolution name (hd (cr_targets rule))))"
    using assms by (simp add: resolve_def Let_def)
  moreover have "hd (cr_targets rule) \<in> set (cr_targets rule)" using assms(2) by simp
  ultimately show ?thesis using True by auto
next
  case False
  then obtain i where i: "i < length (cr_targets rule)"
    "weighted_round_robin_index (map mt_weight (cr_targets rule)) (mx_counter router) = Some i" "mt_weight (cr_targets rule ! i) \<noteq> 0"
    using weighted_index_member [of "map mt_weight (cr_targets rule)" "mx_counter router"] assms(3) by auto
  then have "fst (resolve rx router name) = Ret (Some (build_resolution name (cr_targets rule ! i)))"
    using assms False by (auto simp: resolve_def Let_def)
  with i show ?thesis by (intro bexI [of _ "cr_targets rule ! i"]) auto
qed

definition pattern_matches :: "'re regex_engine \<Rightarrow> string \<Rightarrow> 'j ModelRouteConfig \<Rightarrow> bool" where
  "pattern_matches rx name cfg = (case rx_new rx (mr_pattern cfg) of None \<Rightarrow> False | Some re \<Rightarrow> rx_is_match rx re name)"

lemma find_rule:
  assumes "list_all2 R cfgs rules" and "\<And>c r. R c r \<Longrightarrow> P c = Q r"
  shows "case find P cfgs of None \<Rightarrow> find Q rules = None | Some c \<Rightarrow> (\<exists>r. find Q rules = Some r \<and> R c r)"
  using assms(1) by (induction rule: list_all2_induct) (auto simp: assms(2) split: option.splits)

text \<open>
  The model router is first match: a router built from a configuration (which happens only if
  every pattern compiles and every rule has targets with weights of at most 10000) resolves a name, at
  any position of its counter, with a target of the first rule of the configuration whose pattern
  matches the name, and has no answer if no pattern does. The target has a positive weight unless it
  is the only one or all weights of the rule are zero. Resolving never panics.
\<close>

theorem model_router_first_match:
  assumes "from_configs rx cfgs = Inr router" and "\<And>cfg. cfg \<in> set cfgs \<Longrightarrow> length (mr_targets cfg) < 2 ^ 32"
  shows "list_all (\<lambda>cfg. rx_new rx (mr_pattern cfg) \<noteq> None \<and> mr_targets cfg \<noteq> [] \<and> list_all (\<lambda>t. mt_weight t \<le> 10000) (mr_targets cfg)) cfgs \<and>
    (case find (pattern_matches rx name) cfgs of
       None \<Rightarrow> fst (resolve rx (router\<lparr>mx_counter := n\<rparr>) name) = Ret None
     | Some cfg \<Rightarrow>
         (\<exists>t \<in> set (mr_targets cfg).
            fst (resolve rx (router\<lparr>mx_counter := n\<rparr>) name) = Ret (Some (build_resolution name t)) \<and>
            (mt_weight t \<noteq> 0 \<or> length (mr_targets cfg) = 1 \<or> (\<forall>u \<in> set (mr_targets cfg). mt_weight u = 0))))"
proof -
  have l: "list_all2 (\<lambda>cfg rule. rx_new rx (mr_pattern cfg) = Some (cr_pattern rule) \<and> cr_targets rule = mr_targets cfg \<and>
       mr_targets cfg \<noteq> [] \<and> (\<forall>t \<in> set (mr_targets cfg). mt_weight t \<le> 10000)) cfgs (mx_rules router)"
    using assms(1) by (intro compile_rules_targets) (auto simp: from_configs_def split: sum.splits)
  let ?Q = "\<lambda>r. rx_is_match rx (cr_pattern r) name"
  have cfgs: "list_all (\<lambda>cfg. rx_new rx (mr_pattern cfg) \<noteq> None \<and> mr_targets cfg \<noteq> [] \<and> list_all (\<lambda>t. mt_weight t \<le> 10000) (mr_targets cfg)) cfgs"
    using l by (induction rule: list_all2_induct) (auto simp: list_all_iff)
  show ?thesis
  proof (cases "find (pattern_matches rx name) cfgs")
    case None
    with find_rule [OF l, of "pattern_matches rx name" ?Q] have "find ?Q (mx_rules router) = None"
      by (simp add: pattern_matches_def)
    with None cfgs show ?thesis by (simp add: resolve_def)
  next
    case (Some cfg)
    with find_rule [OF l, of "pattern_matches rx name" ?Q] obtain rule where rule: "find ?Q (mx_rules router) = Some rule"
      "cr_targets rule = mr_targets cfg" "mr_targets cfg \<noteq> []" by (auto simp: pattern_matches_def)
    have "length (mr_targets cfg) < 2 ^ 32" using Some by (intro assms(2)) (auto simp: find_Some_iff)
    then show ?thesis using Some cfgs resolve_rule [of rx name "router\<lparr>mx_counter := n\<rparr>" rule] rule by simp
  qed
qed

definition ex_engine :: "string regex_engine" where
  "ex_engine = \<lparr>rx_new = (\<lambda>p. if p = ''('' then None else Some p), rx_is_match = (\<lambda>p s. prefix p s),
     rx_captures = (\<lambda>p s. None), rx_names = (\<lambda>p. [])\<rparr>"

definition ex_target :: "string \<Rightarrow> u32 \<Rightarrow> unit ModelTargetConfig" where
  "ex_target m w = \<lparr>mt_provider_type = ''openai'', mt_model_name = m, mt_endpoint_url = None, mt_auth_config = (), mt_weight = w\<rparr>"

definition ex_configs :: "unit ModelRouteConfig list" where
  "ex_configs = [\<lparr>mr_pattern = ''gpt-4'', mr_targets = [ex_target ''a'' 0, ex_target ''b'' 3]\<rparr>,
     \<lparr>mr_pattern = ''gpt'', mr_targets = [ex_target ''c'' 1]\<rparr>]"

theorem model_router_first_match_witness:
  "case from_configs ex_engine ex_configs of
     Inl err \<Rightarrow> False
   | Inr router \<Rightarrow> fst (resolve ex_engine (router\<lparr>mx_counter := 5\<rparr>) ''gpt-4o'') = Ret (Some (build_resolution ''gpt-4o'' (ex_target ''b'' 3)))"
proof -
  obtain router where r: "from_configs ex_engine ex_configs = Inr router"
    by (cases "from_configs ex_engine ex_configs")
       (auto simp: from_configs_def ex_engine_def ex_configs_def ex_target_def MAX_MODEL_WEIGHT_def)
  have "length (mr_targets cfg) < 2 ^ 32" if "cfg \<in> set ex_configs" for cfg using that by (auto simp: ex_configs_def)
  from model_router_first_match [OF r this, of 5 "''gpt-4o''"]
  have "fst (resolve ex_engine (router\<lparr>mx_counter := 5\<rparr>) ''gpt-4o'') = Ret (Some (build_resolution ''gpt-4o'' (ex_target ''b'' 3)))"
    by (auto simp: ex_configs_def pattern_matches_def ex_engine_def ex_target_def)
  then show ?thesis by (simp add: r)
qed

end
