(* ===== verification/Kong_Text.thy ===== *)
theory Kong_Text
  imports Kong_Strings
begin

text \<open>
  More of Rust's string functions: lines, trimming at the start, the last occurrence of a
  character, decimal numbers. With it the laws the text formats rest on: a number is read back as it was
  printed, words joined by spaces are split into the same words, a separator that was found stays the
  first one when text is appended.
\<close>

abbreviation newline :: char where
  "newline \<equiv> CHR 0x0A"

definition trim_start :: "string \<Rightarrow> string" where
  "trim_start s = dropWhile is_space s"

definition strip_cr :: "string \<Rightarrow> string" where
  "strip_cr l = (if l \<noteq> [] \<and> last l = CHR 0x0D then butlast l else l)"

text \<open>\<open>s.lines()\<close>: a line ends at a line feed, with a carriage return before it dropped; a last line need not end.\<close>

fun lines_from :: "string \<Rightarrow> string \<Rightarrow> string list" where
  "lines_from acc [] = (if acc = [] then [] else [rev acc])"
| "lines_from acc (c # cs) =
     (if c = newline then strip_cr (rev acc) # lines_from [] cs else lines_from (c # acc) cs)"

definition lines :: "string \<Rightarrow> string list" where
  "lines s = lines_from [] s"

text \<open>\<open>s.rfind(c)\<close> for one character.\<close>

fun rfind_char :: "char \<Rightarrow> string \<Rightarrow> nat option" where
  "rfind_char c [] = None"
| "rfind_char c (x # xs) =
     (case rfind_char c xs of Some n \<Rightarrow> Some (Suc n) | None \<Rightarrow> if x = c then Some 0 else None)"

text \<open>The decimal form of a number.\<close>

fun nat_to_string :: "nat \<Rightarrow> string" where
  "nat_to_string n = (if n < 10 then [char_of (48 + n)] else nat_to_string (n div 10) @ [char_of (48 + n mod 10)])"

declare nat_to_string.simps [simp del]

lemma digit_value_char: "d < 10 \<Longrightarrow> digit_value 10 (char_of (48 + d)) = Some d"
  by (simp add: Let_def)

definition is_digit :: "char \<Rightarrow> bool" where
  "is_digit c = (digit_value 10 c \<noteq> None)"

lemma is_digit_code: "is_digit c \<longleftrightarrow> 48 \<le> (of_char c :: nat) \<and> of_char c \<le> (57 :: nat)"
  by (auto simp: is_digit_def Let_def split: if_splits)

lemma digits_nat_to_string: "\<forall>c \<in> set (nat_to_string n). is_digit c"
proof (induction n rule: nat_to_string.induct)
  case (1 n)
  then show ?case
    by (subst nat_to_string.simps) (auto simp: is_digit_def digit_value_char simp del: digit_value.simps)
qed

lemma nat_to_string_not_Nil [simp]: "nat_to_string n \<noteq> []"
  by (subst nat_to_string.simps) simp

lemma read_digits_append:
  "\<forall>c \<in> set s. is_digit c \<Longrightarrow>
   read_digits 10 acc n (s @ t) = (let (a, m, _) = read_digits 10 acc n s in read_digits 10 a m t)"
  by (induction s arbitrary: acc n) (auto simp: is_digit_def simp del: digit_value.simps split: option.splits)

lemma read_digits_print:
  "read_digits 10 0 0 (nat_to_string n) = (n, length (nat_to_string n), [])"
proof (induction n rule: nat_to_string.induct)
  case (1 n)
  show ?case
  proof (cases "n < 10")
    case True
    then show ?thesis by (simp add: nat_to_string.simps [of n] digit_value_char del: digit_value.simps)
  next
    case False
    note p = nat_to_string.simps [of n, unfolded if_not_P [OF False]]
    from False have "read_digits 10 0 0 (nat_to_string n) =
        read_digits 10 (n div 10) (length (nat_to_string (n div 10))) [char_of (48 + n mod 10)]"
      unfolding p using 1 by (simp add: read_digits_append digits_nat_to_string del: read_digits.simps)
    then show ?thesis unfolding p using digit_value_char [of "n mod 10"]
      by (simp del: digit_value.simps)
  qed
qed

lemma not_digit: "\<not> is_digit (CHR ''+'')" "\<not> is_digit (CHR '':'')" "\<not> is_digit (CHR '' '')" "\<not> is_digit (CHR '']'')"
  by (simp_all add: is_digit_code)

lemma read_plus_number: "read_char (CHR ''+'') (nat_to_string n) = None"
  using digits_nat_to_string [of n] not_digit(1) by (auto simp: read_char_def split: list.splits)

lemma parse_print: "n \<le> m \<Longrightarrow> parse_unsigned m (nat_to_string n) = Some n"
  by (simp add: parse_unsigned_def read_plus_number read_digits_print)

lemma number_not_space: "c \<in> set (nat_to_string n) \<Longrightarrow> \<not> is_space c"
  using digits_nat_to_string [of n] by (auto simp: is_digit_code is_space_def Let_def)

section \<open>Words and separators\<close>

lemma dropWhile_none: "\<forall>c \<in> set s. \<not> P c \<Longrightarrow> dropWhile P s = s"
  by (induction s) auto

lemma trim_idle: "s = [] \<or> \<not> is_space (hd s) \<and> \<not> is_space (last s) \<Longrightarrow> trim s = s"
  using dropWhile_eq_self_iff [of is_space s] dropWhile_eq_self_iff [of is_space "rev s"]
  by (auto simp: trim_def hd_rev)

lemma split_whitespace_word:
  "w \<noteq> [] \<Longrightarrow> \<forall>c \<in> set w. \<not> is_space c \<Longrightarrow> split_whitespace w = [w]"
proof (induction w)
  case (Cons x w)
  then show ?case by (cases w) auto
qed simp

lemma split_whitespace_cons:
  assumes "w \<noteq> []" "\<forall>c \<in> set w. \<not> is_space c" "is_space c"
  shows "split_whitespace (w @ c # s) = w # split_whitespace s"
  using assms
proof (induction w)
  case (Cons x w)
  then show ?case by (cases w) auto
qed simp

lemma split_whitespace_join:
  assumes "\<forall>w \<in> set ws. w \<noteq> [] \<and> (\<forall>c \<in> set w. \<not> is_space c)"
  shows "split_whitespace (join '' '' ws) = ws"
  using assms
proof (induction "'' ''" ws rule: join.induct)
  case (3 w v va)
  then show ?case
    using split_whitespace_cons [of w "CHR '' ''" "join '' '' (v # va)"] by (simp add: is_space_def)
qed (simp_all add: split_whitespace_word)

lemma rfind_char_none: "c \<notin> set s \<Longrightarrow> rfind_char c s = None"
  by (induction s) auto

lemma rfind_char_last: "c \<notin> set t \<Longrightarrow> rfind_char c (s @ c # t) = Some (length s)"
  by (induction s) (auto simp: rfind_char_none)

lemma find_sub_single_None: "find_sub [c] s = None \<longleftrightarrow> c \<notin> set s"
  by (induction s) auto

lemma find_sub_single: "c \<notin> set s \<Longrightarrow> find_sub [c] (s @ c # t) = Some (length s)"
  by (induction s) auto

lemma find_sub_bound: "find_sub p s = Some n \<Longrightarrow> n + length p \<le> length s"
  using find_sub_Some [of p s n] prefix_length_le [of p "drop n s"] by auto

text \<open>What was found first is still first when text is appended.\<close>

lemma prefix_appendI: "prefix p s \<Longrightarrow> prefix p (s @ t)"
  by (auto simp: prefix_def)

lemma find_sub_append: "p \<noteq> [] \<Longrightarrow> find_sub p s = Some n \<Longrightarrow> find_sub p (s @ t) = Some n"
proof (induction s arbitrary: n)
  case (Cons x xs)
  show ?case
  proof (cases "prefix p (x # xs)")
    case True
    then show ?thesis using Cons.prems prefix_appendI [OF True, of t] by simp
  next
    case False
    then obtain m where m: "find_sub p xs = Some m" "n = Suc m" using Cons.prems by auto
    have "length p \<le> length xs" using find_sub_bound [OF m(1)] by simp
    then have "\<not> prefix p (x # xs @ t)" using False by (cases p) (auto simp: prefix_append)
    then show ?thesis using Cons.IH [OF Cons.prems(1) m(1)] m(2) by simp
  qed
qed simp

text \<open>What was found is found in the text up to its end.\<close>

lemma find_sub_take: "p \<noteq> [] \<Longrightarrow> find_sub p s = Some n \<Longrightarrow> find_sub p (take (n + length p) s) = Some n"
proof (induction s arbitrary: n)
  case (Cons x xs)
  show ?case
  proof (cases "prefix p (x # xs)")
    case True
    then obtain t where "x # xs = p @ t" by (auto simp: prefix_def)
    then show ?thesis using Cons.prems True by (cases p) auto
  next
    case False
    then obtain m where m: "find_sub p xs = Some m" "n = Suc m" using Cons.prems by auto
    have "\<not> prefix p (x # take (m + length p) xs)"
      using False prefix_order.trans [of p "x # take (m + length p) xs" "x # xs"] by (auto simp: take_is_prefix)
    then show ?thesis using Cons.IH [OF Cons.prems(1) m(1)] m(2) by simp
  qed
qed simp

lemma lines_from_line: "newline \<notin> set l \<Longrightarrow> lines_from acc (l @ newline # s) = strip_cr (rev acc @ l) # lines_from [] s"
  by (induction l arbitrary: acc) auto

lemma join_split_char: "join [c] (split_char c s) = s"
proof (induction s)
  case (Cons x s)
  obtain p ps where p: "split_char c s = p # ps" using split_char_not_Nil [of c s] by (cases "split_char c s") auto
  then show ?case using Cons by (cases ps) auto
qed simp

lemma split_char_pieces: "l \<in> set (split_char c s) \<Longrightarrow> c \<notin> set l"
proof (induction s arbitrary: l)
  case (Cons x s)
  obtain p ps where p: "split_char c s = p # ps" using split_char_not_Nil [of c s] by (cases "split_char c s") auto
  then show ?case using Cons by (auto split: if_splits)
qed simp

end
