(* ===== verification/Plugin_Config.thy ===== *)
theory Plugin_Config
  imports Kong_Strings
begin

text \<open>
  Validation of plugin configurations (\<open>kong-plugin-system/src/config_validation.rs\<close>), which the
  administration interface and the executor of plugins share. JSON values are those of the
  \<open>serde_json\<close> crate: a number is an unsigned or a negative integer of 64 bits or a float (kept as its
  bits), an object is a map with its keys in byte order.
\<close>

section \<open>JSON values\<close>

datatype Number = PosInt u64 | NegInt u64 | Float u64

datatype Value =
    JNull
  | JBool bool
  | JNumber Number
  | JString string
  | JArray "Value list"
  | JObject "(string \<times> Value) list"

type_synonym json_map = "(string \<times> Value) list"

fun as_u64 :: "Value \<Rightarrow> u64 option" where
  "as_u64 (JNumber (PosInt n)) = Some n"
| "as_u64 _ = None"

fun as_object :: "Value \<Rightarrow> json_map option" where
  "as_object (JObject m) = Some m"
| "as_object _ = None"

fun is_string :: "Value \<Rightarrow> bool" where
  "is_string (JString _) = True"
| "is_string _ = False"

fun is_boolean :: "Value \<Rightarrow> bool" where
  "is_boolean (JBool _) = True"
| "is_boolean _ = False"

definition entry_or_insert :: "string \<Rightarrow> Value \<Rightarrow> json_map \<Rightarrow> json_map" where
  "entry_or_insert k v m = (if map_of m k = None then insert_by (\<lambda>a b. cmp_string (fst a) (fst b)) (k, v) m else m)"

text \<open>Rust's operator \<open>?\<close>.\<close>

fun and_then :: "'e + 'a \<Rightarrow> ('a \<Rightarrow> 'e + 'b) \<Rightarrow> 'e + 'b" where
  "and_then (Inl e) f = Inl e"
| "and_then (Inr a) f = f a"

section \<open>Validation\<close>

definition AI_RATE_LIMIT_MAX_LIMIT :: u64 where
  "AI_RATE_LIMIT_MAX_LIMIT = 2147483647"

definition AI_CONTEXT_COMPRESSION_MAX_INPUT_BYTES :: u64 where
  "AI_CONTEXT_COMPRESSION_MAX_INPUT_BYTES = 16 * 1024 * 1024"

definition AI_CONTEXT_COMPRESSION_DEFAULT_MAX_INPUT_BYTES :: u64 where
  "AI_CONTEXT_COMPRESSION_DEFAULT_MAX_INPUT_BYTES = 4 * 1024 * 1024"

record PluginConfigValidationError =
  ve_field :: string
  ve_message :: string

definition verror :: "string \<Rightarrow> string \<Rightarrow> PluginConfigValidationError" where
  "verror field message = \<lparr>ve_field = field, ve_message = message\<rparr>"

definition verror_to_string :: "PluginConfigValidationError \<Rightarrow> string" where
  "verror_to_string e =
     (if ve_field e = ''@entity'' then ''config: '' @ ve_message e
      else ''config.'' @ ve_field e @ '': '' @ ve_message e)"

definition apply_ai_rate_limit_config_defaults :: "json_map \<Rightarrow> json_map" where
  "apply_ai_rate_limit_config_defaults =
     entry_or_insert ''error_message'' (JString ''AI rate limit exceeded'') \<circ>
     entry_or_insert ''error_code'' (JNumber (PosInt 429)) \<circ>
     entry_or_insert ''header_name'' (JString ''X-AI-Key'') \<circ>
     entry_or_insert ''rpm_limit'' JNull \<circ>
     entry_or_insert ''tpm_limit'' JNull \<circ>
     entry_or_insert ''limit_by'' (JString ''consumer'')"

definition apply_ai_context_compression_config_defaults :: "json_map \<Rightarrow> json_map" where
  "apply_ai_context_compression_config_defaults =
     entry_or_insert ''expose_metrics_headers'' (JBool False) \<circ>
     entry_or_insert ''streaming'' (JString ''bypass'') \<circ>
     entry_or_insert ''on_unavailable'' (JString ''pass_through'') \<circ>
     entry_or_insert ''max_input_bytes'' (JNumber (PosInt AI_CONTEXT_COMPRESSION_DEFAULT_MAX_INPUT_BYTES)) \<circ>
     entry_or_insert ''min_input_tokens'' (JNumber (PosInt 2000))"

text \<open>The shapes of the checks of one field: absent is fine, present must satisfy a predicate.\<close>

definition check_unknown :: "string list \<Rightarrow> json_map \<Rightarrow> PluginConfigValidationError + unit" where
  "check_unknown known m =
     (case find (\<lambda>field. field \<notin> set known) (map fst m) of
        Some field \<Rightarrow> Inl (verror field ''unknown field'') | None \<Rightarrow> Inr ())"

definition check_field :: "string \<Rightarrow> string \<Rightarrow> (Value \<Rightarrow> bool) \<Rightarrow> json_map \<Rightarrow> PluginConfigValidationError + unit" where
  "check_field field message valid m =
     (case map_of m field of
        None \<Rightarrow> Inr ()
      | Some v \<Rightarrow> if valid v then Inr () else Inl (verror field message))"

definition check_choice :: "string \<Rightarrow> string \<Rightarrow> string list \<Rightarrow> json_map \<Rightarrow> PluginConfigValidationError + unit" where
  "check_choice field message choices m =
     (case map_of m field of
        None \<Rightarrow> Inr ()
      | Some (JString v) \<Rightarrow> if v \<in> set choices then Inr () else Inl (verror field message)
      | Some _ \<Rightarrow> Inl (verror field ''expected a string''))"

definition u64_between :: "u64 \<Rightarrow> u64 \<Rightarrow> Value \<Rightarrow> bool" where
  "u64_between lo hi v = (case as_u64 v of Some n \<Rightarrow> lo \<le> n \<and> n \<le> hi | None \<Rightarrow> False)"

definition validate_ai_context_compression_config :: "Value \<Rightarrow> PluginConfigValidationError + unit" where
  "validate_ai_context_compression_config config =
     (case as_object config of
        None \<Rightarrow> Inl (verror '''' ''expected a record'')
      | Some m \<Rightarrow>
          and_then (check_unknown [''min_input_tokens'', ''max_input_bytes'', ''on_unavailable'', ''streaming'', ''expose_metrics_headers''] m) (\<lambda>_.
          and_then (check_field ''min_input_tokens'' ''expected an integer between 0 and 2147483647'' (u64_between 0 2147483647) m) (\<lambda>_.
          and_then (check_field ''max_input_bytes'' ''expected an integer between 1 and 16777216''
             (u64_between 1 AI_CONTEXT_COMPRESSION_MAX_INPUT_BYTES) m) (\<lambda>_.
          and_then (check_choice ''on_unavailable'' ''expected one of: pass_through, reject'' [''pass_through'', ''reject''] m) (\<lambda>_.
          and_then (check_choice ''streaming'' ''expected: bypass'' [''bypass''] m) (\<lambda>_.
          check_field ''expose_metrics_headers'' ''expected a boolean'' is_boolean m))))))"

definition validate_optional_limit :: "json_map \<Rightarrow> string \<Rightarrow> PluginConfigValidationError + unit" where
  "validate_optional_limit config field =
     (case map_of config field of
        None \<Rightarrow> Inr ()
      | Some value \<Rightarrow>
          if value = JNull then Inr ()
          else if u64_between 1 AI_RATE_LIMIT_MAX_LIMIT value then Inr ()
          else Inl (verror field ''expected an integer between 1 and 2147483647 or null''))"

definition limit_by_of :: "json_map \<Rightarrow> string" where
  "limit_by_of m = (case map_of m ''limit_by'' of Some (JString v) \<Rightarrow> v | _ \<Rightarrow> ''consumer'')"

definition configured :: "json_map \<Rightarrow> string \<Rightarrow> bool" where
  "configured m field = (case map_of m field of Some v \<Rightarrow> v \<noteq> JNull | None \<Rightarrow> False)"

definition check_entity :: "json_map \<Rightarrow> PluginConfigValidationError + unit" where
  "check_entity m =
     (if limit_by_of m = ''virtual_key'' then
        if configured m ''tpm_limit'' \<or> configured m ''rpm_limit''
        then Inl (verror ''@entity'' ''tpm_limit and rpm_limit must be null when limit_by is virtual_key'') else Inr ()
      else if \<not> configured m ''tpm_limit'' \<and> \<not> configured m ''rpm_limit''
      then Inl (verror ''@entity'' ''at least one of tpm_limit or rpm_limit must be configured'')
      else Inr ())"

definition validate_ai_rate_limit_config :: "Value \<Rightarrow> PluginConfigValidationError + unit" where
  "validate_ai_rate_limit_config config =
     (case as_object config of
        None \<Rightarrow> Inl (verror '''' ''expected a record'')
      | Some m \<Rightarrow>
          and_then (check_unknown [''limit_by'', ''tpm_limit'', ''rpm_limit'', ''header_name'', ''error_code'', ''error_message''] m) (\<lambda>_.
          and_then (check_choice ''limit_by'' ''expected one of: global, route, consumer, virtual_key''
             [''global'', ''route'', ''consumer'', ''virtual_key''] m) (\<lambda>_.
          and_then (validate_optional_limit m ''tpm_limit'') (\<lambda>_.
          and_then (validate_optional_limit m ''rpm_limit'') (\<lambda>_.
          and_then (check_field ''header_name'' ''expected a string'' is_string m) (\<lambda>_.
          and_then (check_field ''error_code'' ''expected an integer between 0 and 65535'' (u64_between 0 65535) m) (\<lambda>_.
          and_then (check_field ''error_message'' ''expected a string'' is_string m) (\<lambda>_.
          check_entity m))))))))"

definition validate_plugin_config :: "string \<Rightarrow> Value \<Rightarrow> PluginConfigValidationError + unit" where
  "validate_plugin_config plugin_name config =
     (if plugin_name = ''ai-rate-limit'' then validate_ai_rate_limit_config config
      else if plugin_name = ''ai-context-compression'' then validate_ai_context_compression_config config
      else Inr ())"

section \<open>Defaults\<close>

lemma map_of_insert_by_fst:
  "map_of m k = None \<Longrightarrow> map_of (insert_by c (k, v) m) = (map_of m)(k \<mapsto> v)"
  by (induction m) (auto split: if_splits)

lemma map_of_entry_or_insert:
  "map_of (entry_or_insert k v m) k' =
     (if k' = k then Some (case map_of m k of None \<Rightarrow> v | Some w \<Rightarrow> w) else map_of m k')"
  by (simp add: entry_or_insert_def map_of_insert_by_fst split: option.split)

lemma find_insert_by: "\<not> P (f x) \<Longrightarrow> find P (map f (insert_by c x xs)) = find P (map f xs)"
  by (induction xs) auto

lemma check_unknown_entry: "k \<in> set known \<Longrightarrow> check_unknown known (entry_or_insert k v m) = check_unknown known m"
  by (simp add: check_unknown_def entry_or_insert_def find_insert_by)

lemmas map_of_defaults =
  apply_ai_rate_limit_config_defaults_def apply_ai_context_compression_config_defaults_def map_of_entry_or_insert

text \<open>
  Missing fields mean their defaults: writing the defaults into a configuration never changes the
  verdict of the validation, neither acceptance nor the field and message of the error, for both
  plugins with validated configurations. The administration interface (which writes them) and the
  executor (which does not) therefore agree.
\<close>

theorem defaults_keep_verdict:
  "validate_ai_rate_limit_config (JObject (apply_ai_rate_limit_config_defaults m)) = validate_ai_rate_limit_config (JObject m) \<and>
   validate_ai_context_compression_config (JObject (apply_ai_context_compression_config_defaults m)) =
   validate_ai_context_compression_config (JObject m)"
proof
  let ?d = "apply_ai_rate_limit_config_defaults m"
  have "check_unknown [''limit_by'', ''tpm_limit'', ''rpm_limit'', ''header_name'', ''error_code'', ''error_message''] ?d =
      check_unknown [''limit_by'', ''tpm_limit'', ''rpm_limit'', ''header_name'', ''error_code'', ''error_message''] m"
    by (simp add: apply_ai_rate_limit_config_defaults_def check_unknown_entry)
  moreover have "check_choice ''limit_by'' msg [''global'', ''route'', ''consumer'', ''virtual_key''] ?d =
      check_choice ''limit_by'' msg [''global'', ''route'', ''consumer'', ''virtual_key''] m" for msg
    by (simp add: check_choice_def map_of_defaults split: option.split)
  moreover have "validate_optional_limit ?d ''tpm_limit'' = validate_optional_limit m ''tpm_limit''"
    "validate_optional_limit ?d ''rpm_limit'' = validate_optional_limit m ''rpm_limit''"
    by (simp_all add: validate_optional_limit_def map_of_defaults split: option.split)
  moreover have "check_field ''header_name'' msg is_string ?d = check_field ''header_name'' msg is_string m"
    "check_field ''error_code'' msg (u64_between 0 65535) ?d = check_field ''error_code'' msg (u64_between 0 65535) m"
    "check_field ''error_message'' msg is_string ?d = check_field ''error_message'' msg is_string m" for msg
    by (simp_all add: check_field_def map_of_defaults u64_between_def split: option.split)
  moreover have "check_entity ?d = check_entity m"
    by (simp add: check_entity_def limit_by_of_def configured_def map_of_defaults split: option.split)
  ultimately show "validate_ai_rate_limit_config (JObject ?d) = validate_ai_rate_limit_config (JObject m)"
    by (simp add: validate_ai_rate_limit_config_def)
next
  let ?d = "apply_ai_context_compression_config_defaults m"
  let ?known = "[''min_input_tokens'', ''max_input_bytes'', ''on_unavailable'', ''streaming'', ''expose_metrics_headers'']"
  have "check_unknown ?known ?d = check_unknown ?known m"
    by (simp add: apply_ai_context_compression_config_defaults_def check_unknown_entry)
  moreover have "check_field ''min_input_tokens'' msg (u64_between 0 2147483647) ?d = check_field ''min_input_tokens'' msg (u64_between 0 2147483647) m"
    "check_field ''max_input_bytes'' msg (u64_between 1 AI_CONTEXT_COMPRESSION_MAX_INPUT_BYTES) ?d =
     check_field ''max_input_bytes'' msg (u64_between 1 AI_CONTEXT_COMPRESSION_MAX_INPUT_BYTES) m"
    "check_field ''expose_metrics_headers'' msg is_boolean ?d = check_field ''expose_metrics_headers'' msg is_boolean m" for msg
    by (simp_all add: check_field_def map_of_defaults u64_between_def AI_CONTEXT_COMPRESSION_MAX_INPUT_BYTES_def
        AI_CONTEXT_COMPRESSION_DEFAULT_MAX_INPUT_BYTES_def split: option.split)
  moreover have "check_choice ''on_unavailable'' msg [''pass_through'', ''reject''] ?d = check_choice ''on_unavailable'' msg [''pass_through'', ''reject''] m"
    "check_choice ''streaming'' msg [''bypass''] ?d = check_choice ''streaming'' msg [''bypass''] m" for msg
    by (simp_all add: check_choice_def map_of_defaults split: option.split)
  ultimately show "validate_ai_context_compression_config (JObject ?d) = validate_ai_context_compression_config (JObject m)"
    by (simp add: validate_ai_context_compression_config_def)
qed

end
