(* ===== verification/Request_Lifecycle.thy ===== *)
theory Request_Lifecycle
  imports Kong_Strings
begin

text \<open>
  The life of a request as the gateway records it (\<open>kong-core/src/traits/plugin.rs\<close>, with the
  errors of \<open>kong-core/src/error.rs\<close>): phases, the reason a request ended, transport errors, and the
  context that plugins and hooks read and write. Of \<open>RequestCtx\<close> the model has the fields that the
  gateway itself reads or writes in the components of this development; everything that only
  plugins exchange (shared data, captures, snapshots of headers and bodies, typed extensions) is the
  type parameter of the record. The wall clock belongs to the \<open>chrono\<close> crate, a parameter of
  \<open>finish\<close>.
\<close>

section \<open>Errors\<close>

datatype KongError =
    DatabaseError string
  | NotFound string string
  | ValidationError string
  | UniqueViolation string
  | ForeignKeyViolation string
  | PluginError string string
  | LuaError string
  | ConfigError string
  | KRouterError string
  | UpstreamError string
  | TlsError string
  | CacheError string
  | SerializationError string
  | IoError string
  | InternalError string

fun error_to_string :: "KongError \<Rightarrow> string" where
  "error_to_string (DatabaseError e) = ''database error: '' @ e"
| "error_to_string (NotFound t i) = t @ '' not found: '' @ i"
| "error_to_string (ValidationError e) = ''schema violation: '' @ e"
| "error_to_string (UniqueViolation e) = ''UNIQUE violation detected on '' @ [CHR 0x27] @ e @ [CHR 0x27]"
| "error_to_string (ForeignKeyViolation e) = ''foreign key violation: '' @ e"
| "error_to_string (PluginError p e) = ''plugin error ['' @ p @ '']: '' @ e"
| "error_to_string (LuaError e) = ''Lua runtime error: '' @ e"
| "error_to_string (ConfigError e) = ''configuration error: '' @ e"
| "error_to_string (KRouterError e) = ''router error: '' @ e"
| "error_to_string (UpstreamError e) = ''upstream connection error: '' @ e"
| "error_to_string (TlsError e) = ''TLS error: '' @ e"
| "error_to_string (CacheError e) = ''cache error: '' @ e"
| "error_to_string (SerializationError e) = ''serialization error: '' @ e"
| "error_to_string (IoError e) = ''IO error: '' @ e"
| "error_to_string (InternalError e) = ''internal error: '' @ e"

fun error_name :: "KongError \<Rightarrow> string" where
  "error_name (NotFound _ _) = ''not found''"
| "error_name (ValidationError _) = ''schema violation''"
| "error_name (UniqueViolation _) = ''unique constraint violation''"
| "error_name (ForeignKeyViolation _) = ''foreign key violation''"
| "error_name _ = ''internal error''"

fun status_code :: "KongError \<Rightarrow> u16" where
  "status_code (NotFound _ _) = 404"
| "status_code (ValidationError _) = 400"
| "status_code (UniqueViolation _) = 409"
| "status_code (ForeignKeyViolation _) = 409"
| "status_code (PluginError _ _) = 500"
| "status_code (LuaError _) = 500"
| "status_code (ConfigError _) = 400"
| "status_code _ = 500"

fun error_code :: "KongError \<Rightarrow> u32" where
  "error_code (ValidationError _) = 2"
| "error_code (UniqueViolation _) = 5"
| "error_code (ForeignKeyViolation _) = 4"
| "error_code (NotFound _ _) = 3"
| "error_code _ = 1"

section \<open>Phases and reasons\<close>

datatype LifecyclePhase =
    LInitialization | LCertificate | LRouting | LService | LRequestBody | LRewrite | LAccess | LUpstream
  | LResponse | LHeaderFilter | LBodyFilter | LLogging | LInternal

datatype Phase = InitWorker | Certificate | Rewrite | Access | Response | HeaderFilter | BodyFilter | Log

fun lifecycle_phase :: "Phase \<Rightarrow> LifecyclePhase" where
  "lifecycle_phase InitWorker = LInitialization"
| "lifecycle_phase Certificate = LCertificate"
| "lifecycle_phase Rewrite = LRewrite"
| "lifecycle_phase Access = LAccess"
| "lifecycle_phase Response = LResponse"
| "lifecycle_phase HeaderFilter = LHeaderFilter"
| "lifecycle_phase BodyFilter = LBodyFilter"
| "lifecycle_phase Log = LLogging"

datatype RequestTerminationHint =
    PolicyRejected Phase string
  | GatewayError LifecyclePhase string
  | UpstreamSemanticError "string option"

fun hint_priority :: "RequestTerminationHint \<Rightarrow> nat" where
  "hint_priority (PolicyRejected _ _) = 3"
| "hint_priority (GatewayError _ _) = 2"
| "hint_priority (UpstreamSemanticError _) = 1"

datatype RequestTransportSource = FromUpstream | FromDownstream | FromInternal | FromUnknown

fun source_priority :: "RequestTransportSource \<Rightarrow> nat" where
  "source_priority FromDownstream = 4"
| "source_priority FromUpstream = 3"
| "source_priority FromInternal = 2"
| "source_priority FromUnknown = 1"

datatype RequestTransportErrorKind =
    ConnectTimeout | ConnectRefused | ConnectNoRoute | KTls | KConnect | KBind | KAccept | KSocket | KProtocol
  | KRead | KWrite | ReadTimeout | WriteTimeout | ConnectionClosed | HttpStatus u16 | KFile | KInternal
  | KUnknown | KCustom

record RequestTransportError =
  te_source :: RequestTransportSource
  te_kind :: RequestTransportErrorKind

record RequestLifecycle =
  lc_request_id :: string
  lc_started_at :: int
  lc_started_mono :: duration
  lc_finished_at :: "int option"
  lc_final_status :: "u16 option"
  lc_upstream_status :: "u16 option"
  lc_upstream_attempted :: bool
  lc_upstream_response_started :: bool
  lc_downstream_send_attempted :: bool
  lc_downstream_response_completed :: bool
  lc_termination_hint :: "RequestTerminationHint option"
  lc_transport_error :: "RequestTransportError option"

definition lifecycle_new :: "string \<Rightarrow> int \<Rightarrow> duration \<Rightarrow> RequestLifecycle" where
  "lifecycle_new request_id now instant =
     \<lparr>lc_request_id = request_id, lc_started_at = now, lc_started_mono = instant, lc_finished_at = None,
      lc_final_status = None, lc_upstream_status = None, lc_upstream_attempted = False,
      lc_upstream_response_started = False, lc_downstream_send_attempted = False,
      lc_downstream_response_completed = False, lc_termination_hint = None, lc_transport_error = None\<rparr>"

definition set_termination_hint :: "RequestTerminationHint \<Rightarrow> RequestLifecycle \<Rightarrow> RequestLifecycle" where
  "set_termination_hint hint l =
     (if case lc_termination_hint l of Some current \<Rightarrow> hint_priority current < hint_priority hint | None \<Rightarrow> True
      then l\<lparr>lc_termination_hint := Some hint\<rparr> else l)"

definition mark_policy_rejected :: "Phase \<Rightarrow> string \<Rightarrow> RequestLifecycle \<Rightarrow> RequestLifecycle" where
  "mark_policy_rejected phase plugin = set_termination_hint (PolicyRejected phase plugin)"

definition mark_gateway_error :: "LifecyclePhase \<Rightarrow> string \<Rightarrow> RequestLifecycle \<Rightarrow> RequestLifecycle" where
  "mark_gateway_error phase component = set_termination_hint (GatewayError phase component)"

definition mark_upstream_semantic_error :: "string option \<Rightarrow> RequestLifecycle \<Rightarrow> RequestLifecycle" where
  "mark_upstream_semantic_error provider_type = set_termination_hint (UpstreamSemanticError provider_type)"

definition mark_upstream_attempted :: "RequestLifecycle \<Rightarrow> RequestLifecycle" where
  "mark_upstream_attempted l = l\<lparr>lc_upstream_attempted := True\<rparr>"

definition mark_upstream_started :: "RequestLifecycle \<Rightarrow> RequestLifecycle" where
  "mark_upstream_started l = l\<lparr>lc_upstream_attempted := True, lc_upstream_response_started := True\<rparr>"

definition mark_upstream_status :: "u16 \<Rightarrow> RequestLifecycle \<Rightarrow> RequestLifecycle" where
  "mark_upstream_status status l = (mark_upstream_started l)\<lparr>lc_upstream_status := Some status\<rparr>"

definition mark_downstream_send_attempted :: "RequestLifecycle \<Rightarrow> RequestLifecycle" where
  "mark_downstream_send_attempted l = l\<lparr>lc_downstream_send_attempted := True\<rparr>"

definition mark_downstream_completed :: "RequestLifecycle \<Rightarrow> RequestLifecycle" where
  "mark_downstream_completed l = l\<lparr>lc_downstream_send_attempted := True, lc_downstream_response_completed := True\<rparr>"

definition mark_transport_error :: "RequestTransportError \<Rightarrow> RequestLifecycle \<Rightarrow> RequestLifecycle" where
  "mark_transport_error error l =
     (if case lc_transport_error l of
           Some current \<Rightarrow> source_priority (te_source current) < source_priority (te_source error) | None \<Rightarrow> True
      then l\<lparr>lc_transport_error := Some error\<rparr> else l)"

text \<open>The calendar of the \<open>chrono\<close> crate: conversion of a duration, addition, and the two largest values.\<close>

record calendar =
  cal_from_std :: "duration \<Rightarrow> int option"
  cal_duration_max :: int
  cal_checked_add :: "int \<Rightarrow> int \<Rightarrow> int option"
  cal_max_utc :: int

definition finish :: "calendar \<Rightarrow> duration \<Rightarrow> u16 option \<Rightarrow> RequestLifecycle \<Rightarrow> RequestLifecycle" where
  "finish cal instant final_status l =
     (if lc_finished_at l \<noteq> None then l
      else
        (let elapsed = (case cal_from_std cal (instant - lc_started_mono l) of Some d \<Rightarrow> d | None \<Rightarrow> cal_duration_max cal);
             finished = (case cal_checked_add cal (lc_started_at l) elapsed of Some t \<Rightarrow> t | None \<Rightarrow> cal_max_utc cal)
         in l\<lparr>lc_final_status := final_status, lc_finished_at := Some finished\<rparr>))"

section \<open>Request context\<close>

text \<open>The typed extension that the proxy reads: the protocol of the error body.\<close>

datatype DispatchFailureResponseFormat = Generic | OpenAi | Anthropic

record 'x RequestCtx =
  rq_lifecycle :: RequestLifecycle
  rq_route_id :: "uuid option"
  rq_route_name :: "string option"
  rq_service_id :: "uuid option"
  rq_service_name :: "string option"
  rq_workspace_id :: "uuid option"
  rq_consumer_id :: "uuid option"
  rq_short_circuited :: bool
  rq_exit_status :: "u16 option"
  rq_exit_body :: "string option"
  rq_exit_headers :: "(string \<times> string) list option"
  rq_upstream_scheme :: "string option"
  rq_upstream_target_host :: "string option"
  rq_upstream_target_port :: "u16 option"
  rq_upstream_dispatch_forbidden :: bool
  rq_response_headers_to_set :: "(string \<times> string) list"
  rq_response_headers_to_remove :: "string list"
  rq_request_path :: string
  rq_request_headers :: "(string \<times> string) list"
  rq_client_ip :: string
  rq_response_status :: "u16 option"
  rq_response_headers :: "(string \<times> string) list"
  rq_failure_format :: "DispatchFailureResponseFormat option"
  rq_extensions :: 'x

definition request_ctx_new :: "RequestLifecycle \<Rightarrow> 'x \<Rightarrow> 'x RequestCtx" where
  "request_ctx_new l x =
     \<lparr>rq_lifecycle = l, rq_route_id = None, rq_route_name = None, rq_service_id = None, rq_service_name = None,
      rq_workspace_id = None, rq_consumer_id = None, rq_short_circuited = False, rq_exit_status = None,
      rq_exit_body = None, rq_exit_headers = None, rq_upstream_scheme = None, rq_upstream_target_host = None,
      rq_upstream_target_port = None, rq_upstream_dispatch_forbidden = False, rq_response_headers_to_set = [],
      rq_response_headers_to_remove = [], rq_request_path = [], rq_request_headers = [], rq_client_ip = [],
      rq_response_status = None, rq_response_headers = [], rq_failure_format = None,
      rq_extensions = x\<rparr>"

definition forbid_upstream_dispatch :: "'x RequestCtx \<Rightarrow> 'x RequestCtx" where
  "forbid_upstream_dispatch ctx = ctx\<lparr>rq_upstream_dispatch_forbidden := True\<rparr>"

definition mark_lifecycle :: "(RequestLifecycle \<Rightarrow> RequestLifecycle) \<Rightarrow> 'x RequestCtx \<Rightarrow> 'x RequestCtx" where
  "mark_lifecycle f ctx = ctx\<lparr>rq_lifecycle := f (rq_lifecycle ctx)\<rparr>"

section \<open>The strongest report wins\<close>

text \<open>The first report among those with the highest priority.\<close>

definition strongest :: "('h \<Rightarrow> nat) \<Rightarrow> 'h list \<Rightarrow> 'h option" where
  "strongest prio hs = find (\<lambda>h. \<forall>g \<in> set hs. prio g \<le> prio h) hs"

lemma strongest_snoc:
  "strongest prio (hs @ [h]) =
     (case strongest prio hs of None \<Rightarrow> Some h | Some g \<Rightarrow> if prio g < prio h then Some h else Some g)"
proof (cases "strongest prio hs")
  case None
  have "hs = []"
  proof (rule ccontr)
    assume "hs \<noteq> []"
    then have "Max (prio ` set hs) \<in> prio ` set hs" by simp
    then obtain g where "g \<in> set hs" "prio g = Max (prio ` set hs)" by auto
    then have "\<forall>f \<in> set hs. prio f \<le> prio g" by simp
    with None \<open>g \<in> set hs\<close> show False by (auto simp: strongest_def find_None_iff)
  qed
  then show ?thesis by (simp add: strongest_def)
next
  case (Some g)
  then have g: "g \<in> set hs" "\<forall>f \<in> set hs. prio f \<le> prio g" by (auto simp: strongest_def find_Some_iff)
  show ?thesis
  proof (cases "prio g < prio h")
    case True
    then have "find (\<lambda>f. \<forall>e \<in> set (hs @ [h]). prio e \<le> prio f) hs = None" using g by (auto simp: find_None_iff)
    then have "strongest prio (hs @ [h]) = Some h"
      using g True by (auto simp: strongest_def find_append)
    with Some True show ?thesis by simp
  next
    case False
    have "find (\<lambda>f. \<forall>e \<in> set (hs @ [h]). prio e \<le> prio f) hs = find (\<lambda>f. \<forall>e \<in> set hs. prio e \<le> prio f) hs"
      using g False by (intro find_cong) (auto intro: order_trans)
    then show ?thesis using Some False by (simp add: strongest_def find_append)
  qed
qed

locale keeps_strongest =
  fixes prio :: "'h \<Rightarrow> nat" and mark :: "'h \<Rightarrow> 's \<Rightarrow> 's" and shown :: "'s \<Rightarrow> 'h option"
  assumes shown_mark: "shown (mark h s) =
    (case shown s of None \<Rightarrow> Some h | Some g \<Rightarrow> if prio g < prio h then Some h else Some g)"
begin

lemma mark_strongest: "shown s = strongest prio hs \<Longrightarrow> shown (mark h s) = strongest prio (hs @ [h])"
  by (simp add: shown_mark strongest_snoc)

end

interpretation hint: keeps_strongest hint_priority set_termination_hint lc_termination_hint
  by unfold_locales (auto simp: set_termination_hint_def split: option.splits)

interpretation transport: keeps_strongest "\<lambda>e. source_priority (te_source e)" mark_transport_error lc_transport_error
  by unfold_locales (auto simp: mark_transport_error_def split: option.splits)

text \<open>All that happens to the record of a request, in any order.\<close>

datatype lifecycle_op =
    Hint RequestTerminationHint
  | Transport RequestTransportError
  | UpstreamAttempted
  | UpstreamStarted
  | UpstreamStatus u16
  | DownstreamSendAttempted
  | DownstreamCompleted
  | Finish duration "u16 option"

fun apply_op :: "calendar \<Rightarrow> lifecycle_op \<Rightarrow> RequestLifecycle \<Rightarrow> RequestLifecycle" where
  "apply_op cal (Hint (PolicyRejected p c)) l = mark_policy_rejected p c l"
| "apply_op cal (Hint (GatewayError p c)) l = mark_gateway_error p c l"
| "apply_op cal (Hint (UpstreamSemanticError t)) l = mark_upstream_semantic_error t l"
| "apply_op cal (Transport e) l = mark_transport_error e l"
| "apply_op cal UpstreamAttempted l = mark_upstream_attempted l"
| "apply_op cal UpstreamStarted l = mark_upstream_started l"
| "apply_op cal (UpstreamStatus s) l = mark_upstream_status s l"
| "apply_op cal DownstreamSendAttempted l = mark_downstream_send_attempted l"
| "apply_op cal DownstreamCompleted l = mark_downstream_completed l"
| "apply_op cal (Finish instant s) l = finish cal instant s l"

definition hints :: "lifecycle_op list \<Rightarrow> RequestTerminationHint list" where
  "hints ops = List.map_filter (\<lambda>op. case op of Hint h \<Rightarrow> Some h | _ \<Rightarrow> None) ops"

definition transports :: "lifecycle_op list \<Rightarrow> RequestTransportError list" where
  "transports ops = List.map_filter (\<lambda>op. case op of Transport e \<Rightarrow> Some e | _ \<Rightarrow> None) ops"

definition finishes :: "lifecycle_op list \<Rightarrow> u16 option list" where
  "finishes ops = List.map_filter (\<lambda>op. case op of Finish _ s \<Rightarrow> Some s | _ \<Rightarrow> None) ops"

lemma map_filter_snoc: "List.map_filter f (xs @ [x]) = List.map_filter f xs @ (case f x of None \<Rightarrow> [] | Some y \<Rightarrow> [y])"
  by (simp add: List.map_filter_def split: option.split)

lemma ops_snoc:
  "hints (ops @ [op]) = hints ops @ (case op of Hint h \<Rightarrow> [h] | _ \<Rightarrow> [])"
  "transports (ops @ [op]) = transports ops @ (case op of Transport e \<Rightarrow> [e] | _ \<Rightarrow> [])"
  "finishes (ops @ [op]) = finishes ops @ (case op of Finish _ s \<Rightarrow> [s] | _ \<Rightarrow> [])"
  by (simp_all add: hints_def transports_def finishes_def map_filter_snoc split: lifecycle_op.split)

lemmas lifecycle_defs =
  mark_policy_rejected_def mark_gateway_error_def mark_upstream_semantic_error_def mark_upstream_attempted_def
  mark_upstream_started_def mark_upstream_status_def mark_downstream_send_attempted_def mark_downstream_completed_def
  finish_def Let_def

lemma set_hint_frame [simp]:
  "lc_transport_error (set_termination_hint h l) = lc_transport_error l"
  "lc_finished_at (set_termination_hint h l) = lc_finished_at l"
  "lc_final_status (set_termination_hint h l) = lc_final_status l"
  "lc_upstream_status (set_termination_hint h l) = lc_upstream_status l"
  "lc_upstream_attempted (set_termination_hint h l) = lc_upstream_attempted l"
  "lc_upstream_response_started (set_termination_hint h l) = lc_upstream_response_started l"
  "lc_downstream_send_attempted (set_termination_hint h l) = lc_downstream_send_attempted l"
  "lc_downstream_response_completed (set_termination_hint h l) = lc_downstream_response_completed l"
  by (simp_all add: set_termination_hint_def)

lemma mark_transport_frame [simp]:
  "lc_termination_hint (mark_transport_error e l) = lc_termination_hint l"
  "lc_finished_at (mark_transport_error e l) = lc_finished_at l"
  "lc_final_status (mark_transport_error e l) = lc_final_status l"
  "lc_upstream_status (mark_transport_error e l) = lc_upstream_status l"
  "lc_upstream_attempted (mark_transport_error e l) = lc_upstream_attempted l"
  "lc_upstream_response_started (mark_transport_error e l) = lc_upstream_response_started l"
  "lc_downstream_send_attempted (mark_transport_error e l) = lc_downstream_send_attempted l"
  "lc_downstream_response_completed (mark_transport_error e l) = lc_downstream_response_completed l"
  by (simp_all add: mark_transport_error_def)

lemma apply_hint: "apply_op cal (Hint h) l = set_termination_hint h l"
  by (cases h) (simp_all add: lifecycle_defs)

definition lifecycle_ok :: "RequestLifecycle \<Rightarrow> bool" where
  "lifecycle_ok l =
     ((lc_upstream_status l \<noteq> None \<longrightarrow> lc_upstream_response_started l) \<and>
      (lc_upstream_response_started l \<longrightarrow> lc_upstream_attempted l) \<and>
      (lc_downstream_response_completed l \<longrightarrow> lc_downstream_send_attempted l) \<and>
      (lc_final_status l \<noteq> None \<longrightarrow> lc_finished_at l \<noteq> None))"

lemma apply_op_ok: "lifecycle_ok l \<Longrightarrow> lifecycle_ok (apply_op cal op l)"
  by (cases op) (auto simp: lifecycle_ok_def apply_hint lifecycle_defs)

text \<open>
  What the record of a request says at its end: whatever is reported about a request and in
  whatever order, the record holds the first termination reason among those of the highest priority
  (a policy rejection before a gateway error before an upstream error) and the first transport error
  of the strongest source, the final status is that of the first \<open>finish\<close>, and the flags are
  consistent: a status implies that the response had started, which implies that the upstream was
  attempted, a completed response was attempted, and only a finished request has a final status.
\<close>

theorem lifecycle_keeps_strongest:
  "let l = fold (apply_op cal) ops (lifecycle_new request_id now instant)
   in lc_termination_hint l = strongest hint_priority (hints ops) \<and>
      lc_transport_error l = strongest (\<lambda>e. source_priority (te_source e)) (transports ops) \<and>
      lc_final_status l = (case finishes ops of [] \<Rightarrow> None | s # _ \<Rightarrow> s) \<and>
      (lc_finished_at l = None) = (finishes ops = []) \<and> lifecycle_ok l"
  unfolding Let_def
proof (induction ops rule: rev_induct)
  case Nil
  show ?case by (simp add: lifecycle_new_def lifecycle_ok_def hints_def transports_def finishes_def strongest_def List.map_filter_def)
next
  case (snoc op ops)
  let ?l = "fold (apply_op cal) ops (lifecycle_new request_id now instant)"
  have ok: "lifecycle_ok (apply_op cal op ?l)" using snoc by (intro apply_op_ok) blast
  show ?case
  proof (cases op)
    case (Hint h)
    with snoc ok hint.mark_strongest [of ?l "hints ops" h] show ?thesis by (simp add: ops_snoc apply_hint)
  next
    case (Transport e)
    with snoc ok transport.mark_strongest [of ?l "transports ops" e] show ?thesis by (simp add: ops_snoc)
  next
    case (Finish t s)
    with snoc ok show ?thesis by (auto simp: ops_snoc lifecycle_defs split: list.splits)
  qed (use snoc ok in \<open>simp_all add: ops_snoc lifecycle_defs\<close>)
qed

end
