(* ===== verification/Plugin_System.thy ===== *)
theory Plugin_System
  imports Plugin_Config Request_Lifecycle
begin

text \<open>
  The plugin framework (\<open>kong-plugin-system/src/lib.rs\<close>, with the entity of
  \<open>kong-core/src/models/plugin.rs\<close> and the trait of \<open>kong-core/src/traits/plugin.rs\<close>): which plugins
  apply to a request, in which order they run, and how a phase ends. A handler is any code with the
  interface of the trait: a record of functions from a configuration and a context to a result and
  the context it leaves, also when it fails. Hash maps are association lists with an iteration order
  as parameter. The functions are total: a handler or an observer that panics is outside of the model
  (\<open>execute_phase\<close> does not catch a panic, it ends the task of the request).
\<close>

section \<open>Data\<close>

record Plugin =
  pl_id :: uuid
  pl_name :: string
  pl_route :: "uuid option"
  pl_service :: "uuid option"
  pl_consumer :: "uuid option"
  pl_config :: Value
  pl_enabled :: bool

record PluginConfig =
  pc_name :: string
  pc_config :: Value

type_synonym 'x handler_fn = "PluginConfig \<Rightarrow> 'x RequestCtx \<Rightarrow> (KongError + unit) \<times> 'x RequestCtx"

record 'x PluginHandler =
  ph_priority :: int
  ph_init_worker :: "PluginConfig \<Rightarrow> KongError + unit"
  ph_certificate :: "'x handler_fn"
  ph_rewrite :: "'x handler_fn"
  ph_access :: "'x handler_fn"
  ph_response :: "'x handler_fn"
  ph_header_filter :: "'x handler_fn"
  ph_body_filter :: "PluginConfig \<Rightarrow> bool \<Rightarrow> 'x RequestCtx \<times> string option \<Rightarrow> (KongError + unit) \<times> 'x RequestCtx \<times> string option"
  ph_log :: "'x handler_fn"

text \<open>The default methods of the trait do nothing.\<close>

definition handler_default :: "int \<Rightarrow> 'x PluginHandler" where
  "handler_default priority =
     \<lparr>ph_priority = priority, ph_init_worker = (\<lambda>_. Inr ()), ph_certificate = (\<lambda>_ ctx. (Inr (), ctx)),
      ph_rewrite = (\<lambda>_ ctx. (Inr (), ctx)), ph_access = (\<lambda>_ ctx. (Inr (), ctx)), ph_response = (\<lambda>_ ctx. (Inr (), ctx)),
      ph_header_filter = (\<lambda>_ ctx. (Inr (), ctx)), ph_body_filter = (\<lambda>_ _ s. (Inr (), s)), ph_log = (\<lambda>_ ctx. (Inr (), ctx))\<rparr>"

record 'x ResolvedPlugin =
  rp_handler :: "'x PluginHandler"
  rp_config :: PluginConfig
  rp_plugin_id :: uuid
  rp_route_id :: "uuid option"
  rp_service_id :: "uuid option"
  rp_consumer_id :: "uuid option"

type_synonym 'x PluginRegistry = "(string \<times> 'x PluginHandler) list"

definition register :: "'x PluginRegistry \<Rightarrow> string \<Rightarrow> 'x PluginHandler \<Rightarrow> 'x PluginRegistry" where
  "register registry name handler = AList.update name handler registry"

definition registry_get :: "'x PluginRegistry \<Rightarrow> string \<Rightarrow> 'x PluginHandler option" where
  "registry_get registry name = map_of registry name"

definition is_registered :: "'x PluginRegistry \<Rightarrow> string \<Rightarrow> bool" where
  "is_registered registry name = (map_of registry name \<noteq> None)"

section \<open>Resolution\<close>

definition fk_matches :: "uuid option \<Rightarrow> uuid option \<Rightarrow> bool" where
  "fk_matches fk request_id = (case fk of None \<Rightarrow> True | Some i \<Rightarrow> request_id = Some i)"

definition plugin_matches :: "Plugin \<Rightarrow> uuid option \<Rightarrow> uuid option \<Rightarrow> uuid option \<Rightarrow> bool" where
  "plugin_matches plugin route_id service_id consumer_id =
     (fk_matches (pl_route plugin) route_id \<and> fk_matches (pl_service plugin) service_id \<and>
      fk_matches (pl_consumer plugin) consumer_id)"

definition has :: "'a option \<Rightarrow> nat" where
  "has v = (case v of Some _ \<Rightarrow> 1 | None \<Rightarrow> 0)"

definition specificity_order :: "Plugin \<Rightarrow> Plugin \<Rightarrow> ordering" where
  "specificity_order p q =
     then_with (cmp (has (pl_consumer p)) (has (pl_consumer q)))
       (then_with (cmp (has (pl_route p)) (has (pl_route q))) (cmp (has (pl_service p)) (has (pl_service q))))"

definition resolved_plugin :: "'x PluginHandler \<Rightarrow> Plugin \<Rightarrow> 'x ResolvedPlugin" where
  "resolved_plugin handler plugin =
     \<lparr>rp_handler = handler, rp_config = \<lparr>pc_name = pl_name plugin, pc_config = pl_config plugin\<rparr>,
      rp_plugin_id = pl_id plugin, rp_route_id = pl_route plugin, rp_service_id = pl_service plugin,
      rp_consumer_id = pl_consumer plugin\<rparr>"

definition add_resolved ::
    "'x PluginRegistry \<Rightarrow> uuid option \<Rightarrow> uuid option \<Rightarrow> uuid option \<Rightarrow> (string \<times> 'x ResolvedPlugin) list \<Rightarrow> Plugin \<Rightarrow>
     (string \<times> 'x ResolvedPlugin) list" where
  "add_resolved registry route_id service_id consumer_id resolved plugin =
     (if \<not> plugin_matches plugin route_id service_id consumer_id then resolved
      else
        (case registry_get registry (pl_name plugin) of
           None \<Rightarrow> resolved
         | Some handler \<Rightarrow> AList.update (pl_name plugin) (resolved_plugin handler plugin) resolved))"

definition priority_order :: "'x ResolvedPlugin \<Rightarrow> 'x ResolvedPlugin \<Rightarrow> ordering" where
  "priority_order a b = cmp (ph_priority (rp_handler b)) (ph_priority (rp_handler a))"

definition resolve_plugins ::
    "((string \<times> 'x ResolvedPlugin) list \<Rightarrow> (string \<times> 'x ResolvedPlugin) list) \<Rightarrow> 'x PluginRegistry \<Rightarrow> Plugin list \<Rightarrow>
     uuid option \<Rightarrow> uuid option \<Rightarrow> uuid option \<Rightarrow> 'x ResolvedPlugin list" where
  "resolve_plugins iter registry plugins route_id service_id consumer_id =
     (let candidates = sort_by specificity_order (filter pl_enabled plugins);
          resolved = foldl (add_resolved registry route_id service_id consumer_id) [] candidates
      in sort_by priority_order (map snd (iter resolved)))"

section \<open>Execution\<close>

definition call_phase :: "'x ResolvedPlugin \<Rightarrow> Phase \<Rightarrow> 'x RequestCtx \<Rightarrow> (KongError + unit) \<times> 'x RequestCtx" where
  "call_phase plugin phase ctx =
     (let h = rp_handler plugin; c = rp_config plugin in
      case phase of
        InitWorker \<Rightarrow> (ph_init_worker h c, ctx)
      | Certificate \<Rightarrow> ph_certificate h c ctx
      | Rewrite \<Rightarrow> ph_rewrite h c ctx
      | Access \<Rightarrow> ph_access h c ctx
      | Response \<Rightarrow> ph_response h c ctx
      | HeaderFilter \<Rightarrow> ph_header_filter h c ctx
      | BodyFilter \<Rightarrow> (Inr (), ctx)
      | Log \<Rightarrow> ph_log h c ctx)"

definition note_failure :: "Phase \<Rightarrow> string \<Rightarrow> 'x RequestCtx \<Rightarrow> 'x RequestCtx" where
  "note_failure phase name ctx =
     (if phase \<noteq> Log then mark_lifecycle (mark_gateway_error (lifecycle_phase phase) name) ctx else ctx)"

text \<open>A plugin that short-circuits without saying why is recorded as the one that rejected.\<close>

definition note_rejection :: "Phase \<Rightarrow> string \<Rightarrow> 'x RequestCtx \<Rightarrow> 'x RequestCtx \<Rightarrow> 'x RequestCtx" where
  "note_rejection phase name before after =
     (if \<not> rq_short_circuited before \<and> rq_short_circuited after \<and>
         lc_termination_hint (rq_lifecycle after) = lc_termination_hint (rq_lifecycle before)
      then mark_lifecycle (mark_policy_rejected phase name) after else after)"

definition continues_after_short_circuit :: "Phase \<Rightarrow> bool" where
  "continues_after_short_circuit phase = (phase \<in> {Log, HeaderFilter, BodyFilter})"

fun execute_phase :: "'x ResolvedPlugin list \<Rightarrow> Phase \<Rightarrow> 'x RequestCtx \<Rightarrow> (KongError + unit) \<times> 'x RequestCtx" where
  "execute_phase [] phase ctx = (Inr (), ctx)"
| "execute_phase (plugin # plugins) phase ctx =
     (if rq_short_circuited ctx \<and> \<not> continues_after_short_circuit phase then (Inr (), ctx)
      else
        (let name = pc_name (rp_config plugin) in
         case validate_plugin_config name (pc_config (rp_config plugin)) of
           Inl error \<Rightarrow> (Inl (PluginError name (''invalid plugin config: '' @ verror_to_string error)), note_failure phase name ctx)
         | Inr _ \<Rightarrow>
             (case call_phase plugin phase ctx of
                (Inl e, ctx') \<Rightarrow> (Inl (PluginError name (error_to_string e)), note_failure phase name ctx')
              | (Inr _, ctx') \<Rightarrow> execute_phase plugins phase (note_rejection phase name ctx ctx'))))"

fun execute_body_filter ::
    "'x ResolvedPlugin list \<Rightarrow> bool \<Rightarrow> 'x RequestCtx \<times> string option \<Rightarrow> (KongError + unit) \<times> 'x RequestCtx \<times> string option" where
  "execute_body_filter [] end_of_stream (ctx, body) = (Inr (), ctx, body)"
| "execute_body_filter (plugin # plugins) end_of_stream (ctx, body) =
     (if rq_short_circuited ctx then (Inr (), ctx, body)
      else
        (let name = pc_name (rp_config plugin) in
         case validate_plugin_config name (pc_config (rp_config plugin)) of
           Inl error \<Rightarrow>
             (Inl (PluginError name (''invalid plugin config: '' @ verror_to_string error)), note_failure BodyFilter name ctx, body)
         | Inr _ \<Rightarrow>
             (case ph_body_filter (rp_handler plugin) (rp_config plugin) end_of_stream (ctx, body) of
                (Inl e, ctx', body') \<Rightarrow> (Inl (PluginError name (error_to_string e)), note_failure BodyFilter name ctx', body')
              | (Inr _, ctx', body') \<Rightarrow>
                  execute_body_filter plugins end_of_stream (note_rejection BodyFilter name ctx ctx', body'))))"

definition run_rewrite :: "'x ResolvedPlugin list \<Rightarrow> 'x RequestCtx \<Rightarrow> (KongError + unit) \<times> 'x RequestCtx" where
  "run_rewrite plugins = execute_phase plugins Rewrite"

definition run_access :: "'x ResolvedPlugin list \<Rightarrow> 'x RequestCtx \<Rightarrow> (KongError + unit) \<times> 'x RequestCtx" where
  "run_access plugins = execute_phase plugins Access"

definition run_header_filter :: "'x ResolvedPlugin list \<Rightarrow> 'x RequestCtx \<Rightarrow> (KongError + unit) \<times> 'x RequestCtx" where
  "run_header_filter plugins = execute_phase plugins HeaderFilter"

definition run_log :: "'x ResolvedPlugin list \<Rightarrow> 'x RequestCtx \<Rightarrow> (KongError + unit) \<times> 'x RequestCtx" where
  "run_log plugins = execute_phase plugins Log"

section \<open>The chain of a request\<close>

interpretation by_specificity: comparator specificity_order
  unfolding specificity_order_def by (intro comparator_then_with comparator_cmp_key)

interpretation by_priority: comparator "priority_order :: 'x ResolvedPlugin \<Rightarrow> 'x ResolvedPlugin \<Rightarrow> ordering"
  unfolding priority_order_def by (rule comparator.flip [OF comparator_cmp_key, simplified])

lemma map_of_Some_split: "map_of xs k = Some v \<Longrightarrow> \<exists>as bs. xs = as @ (k, v) # bs \<and> k \<notin> fst ` set as"
proof (induction xs)
  case (Cons e xs)
  show ?case
  proof (cases "fst e = k")
    case True
    with Cons.prems show ?thesis by (cases e) (auto intro: exI [of _ "[]"])
  next
    case False
    with Cons obtain as bs where "xs = as @ (k, v) # bs" "k \<notin> fst ` set as" by auto
    with False show ?thesis by (intro exI [of _ "e # as"] exI [of _ bs]) auto
  qed
qed simp

lemma foldl_update:
  "map_of (foldl (\<lambda>m e. AList.update (fst e) (snd e) m) m es) = map_of m ++ map_of (rev es)"
  by (induction es arbitrary: m) (auto simp: update_conv' map_add_def fun_eq_iff split: option.splits)

definition applies :: "'x PluginRegistry \<Rightarrow> uuid option \<Rightarrow> uuid option \<Rightarrow> uuid option \<Rightarrow> Plugin \<Rightarrow> bool" where
  "applies registry route_id service_id consumer_id p =
     (pl_enabled p \<and> plugin_matches p route_id service_id consumer_id \<and> is_registered registry (pl_name p))"

definition entry_of :: "'x PluginRegistry \<Rightarrow> Plugin \<Rightarrow> string \<times> 'x ResolvedPlugin" where
  "entry_of registry p = (pl_name p, resolved_plugin (the (registry_get registry (pl_name p))) p)"

lemma resolved_entries:
  "foldl (add_resolved registry r s c) m (sort_by specificity_order (filter pl_enabled plugins)) =
   foldl (\<lambda>m e. AList.update (fst e) (snd e) m) m
     (map (entry_of registry) (filter (applies registry r s c) (sort_by specificity_order (filter pl_enabled plugins))))"
proof -
  have "\<forall>p \<in> set ps. pl_enabled p \<Longrightarrow>
      foldl (add_resolved registry r s c) m ps =
      foldl (\<lambda>m e. AList.update (fst e) (snd e) m) m (map (entry_of registry) (filter (applies registry r s c) ps))" for ps m
    by (induction ps arbitrary: m)
       (auto simp: add_resolved_def applies_def is_registered_def registry_get_def entry_of_def split: option.splits)
  then show ?thesis by simp
qed

lemma distinct_foldl_update:
  "distinct (map fst m) \<Longrightarrow> distinct (map fst (foldl (\<lambda>m e. AList.update (fst e) (snd e) m) m es))"
  by (induction es arbitrary: m) (auto simp: distinct_update)

lemma resolved_map_of:
  assumes "map_of (foldl (add_resolved registry r s c) [] (sort_by specificity_order (filter pl_enabled plugins))) n = Some v"
  shows "\<exists>q \<in> set plugins. applies registry r s c q \<and> pl_name q = n \<and> v = snd (entry_of registry q) \<and>
    (\<forall>q' \<in> set plugins. applies registry r s c q' \<and> pl_name q' = n \<longrightarrow> specificity_order q' q \<noteq> Greater)"
proof -
  let ?c = "filter (applies registry r s c) (sort_by specificity_order (filter pl_enabled plugins))"
  have "map_of (rev (map (entry_of registry) ?c)) n = Some v"
    using assms unfolding resolved_entries foldl_update by simp
  then obtain as bs where split: "rev (map (entry_of registry) ?c) = as @ (n, v) # bs" "n \<notin> fst ` set as"
    using map_of_Some_split by metis
  then have "map (entry_of registry) ?c = rev bs @ (n, v) # rev as" by (metis rev_append rev_rev_ident append.assoc append_Cons append_Nil rev.simps)
  then obtain xs q ys where q: "?c = xs @ q # ys" "entry_of registry q = (n, v)" "map (entry_of registry) ys = rev as"
    by (auto simp: map_eq_append_conv map_eq_Cons_conv)
  have sorted: "sorted_wrt (\<lambda>p q. specificity_order p q \<noteq> Greater) ?c"
    by (rule sorted_wrt_filter [OF by_specificity.sorted_sort_by])
  have mem: "q' \<in> set ?c" if "q' \<in> set plugins" "applies registry r s c q'" for q'
    using that by (simp add: applies_def)
  have "specificity_order q' q \<noteq> Greater" if q': "q' \<in> set plugins" "applies registry r s c q'" "pl_name q' = n" for q'
  proof -
    have "q' \<notin> set ys"
    proof
      assume "q' \<in> set ys"
      then have "entry_of registry q' \<in> set (rev as)" using q(3) by (metis image_eqI list.set_map)
      then show False using split(2) q'(3) by (force simp: entry_of_def)
    qed
    with mem [OF q'(1,2)] have "q' \<in> set xs \<or> q' = q" by (auto simp: q(1))
    then show ?thesis using sorted by_specificity.c_refl [of q] by (auto simp: q(1) sorted_wrt_append)
  qed
  moreover have "q \<in> set ?c" by (simp add: q(1))
  ultimately show ?thesis using q(2) by (intro bexI [of _ q]) (auto simp: entry_of_def)
qed

lemma resolved_complete:
  assumes "q \<in> set plugins" and "applies registry r s c q"
  shows "map_of (foldl (add_resolved registry r s c) [] (sort_by specificity_order (filter pl_enabled plugins))) (pl_name q) \<noteq> None"
proof -
  have "q \<in> set (filter (applies registry r s c) (sort_by specificity_order (filter pl_enabled plugins)))"
    using assms by (simp add: applies_def)
  then have "pl_name q \<in> fst ` set (rev (map (entry_of registry) (filter (applies registry r s c) (sort_by specificity_order (filter pl_enabled plugins)))))"
    by (force simp: entry_of_def)
  then show ?thesis unfolding resolved_entries foldl_update by (simp add: map_of_eq_None_iff)
qed

lemma resolve_plugins_spec:
  assumes "\<And>m. iterates iter m" and "chain = resolve_plugins iter registry plugins route_id service_id consumer_id"
  shows "sorted_wrt (\<lambda>a b. ph_priority (rp_handler b) \<le> ph_priority (rp_handler a)) chain \<and>
    distinct (map (\<lambda>p. pc_name (rp_config p)) chain) \<and>
    (\<forall>p \<in> set chain. \<exists>q h. q \<in> set plugins \<and> applies registry route_id service_id consumer_id q \<and>
       registry_get registry (pl_name q) = Some h \<and> p = resolved_plugin h q \<and>
       (\<forall>q' \<in> set plugins. applies registry route_id service_id consumer_id q' \<and> pl_name q' = pl_name q \<longrightarrow>
          specificity_order q' q \<noteq> Greater)) \<and>
    (\<forall>q \<in> set plugins. applies registry route_id service_id consumer_id q \<longrightarrow>
       (\<exists>p \<in> set chain. pc_name (rp_config p) = pl_name q))"
proof -
  define m where "m = foldl (add_resolved registry route_id service_id consumer_id) [] (sort_by specificity_order (filter pl_enabled plugins))"
  have chain: "chain = sort_by priority_order (map snd (iter m))"
    unfolding assms(2) resolve_plugins_def Let_def m_def ..
  have dist: "distinct (map fst m)" unfolding m_def resolved_entries by (rule distinct_foldl_update) simp
  have it: "set (iter m) = set m" "distinct (map fst (iter m))"
    using assms(1) dist by (simp_all add: iterates_set iterates_distinct_fst)
  have best: "\<exists>q \<in> set plugins. applies registry route_id service_id consumer_id q \<and> pl_name q = n \<and> v = snd (entry_of registry q) \<and>
      (\<forall>q' \<in> set plugins. applies registry route_id service_id consumer_id q' \<and> pl_name q' = n \<longrightarrow> specificity_order q' q \<noteq> Greater)"
    if "(n, v) \<in> set m" for n v
    using that dist unfolding m_def by (intro resolved_map_of) (simp add: m_def)
  have name: "pc_name (rp_config v) = n" if "(n, v) \<in> set m" for n v
    using best [OF that] by (auto simp: entry_of_def resolved_plugin_def)
  have "map (\<lambda>p. pc_name (rp_config p)) (map snd (iter m)) = map fst (iter m)"
    using it(1) name by auto
  then have "distinct (map (\<lambda>p. pc_name (rp_config p)) (map snd (iter m)))" using it(2) by metis
  then have "distinct (map (\<lambda>p. pc_name (rp_config p)) chain)"
    unfolding chain by (metis mset_eq_imp_distinct_iff mset_map mset_sort_by)
  moreover have "sorted_wrt (\<lambda>a b. ph_priority (rp_handler b) \<le> ph_priority (rp_handler a)) chain"
    using by_priority.sorted_sort_by [of "map snd (iter m)"] by (simp add: chain priority_order_def not_less)
  moreover have "\<exists>q h. q \<in> set plugins \<and> applies registry route_id service_id consumer_id q \<and>
       registry_get registry (pl_name q) = Some h \<and> p = resolved_plugin h q \<and>
       (\<forall>q' \<in> set plugins. applies registry route_id service_id consumer_id q' \<and> pl_name q' = pl_name q \<longrightarrow>
          specificity_order q' q \<noteq> Greater)" if "p \<in> set chain" for p
  proof -
    from that obtain n where "(n, p) \<in> set m" by (auto simp: chain it(1))
    from best [OF this] obtain q where q: "q \<in> set plugins" "applies registry route_id service_id consumer_id q" "pl_name q = n"
      "p = snd (entry_of registry q)"
      "\<forall>q' \<in> set plugins. applies registry route_id service_id consumer_id q' \<and> pl_name q' = n \<longrightarrow> specificity_order q' q \<noteq> Greater" by blast
    moreover obtain h where "registry_get registry (pl_name q) = Some h"
      using q(2) by (auto simp: applies_def is_registered_def registry_get_def)
    ultimately show ?thesis by (intro exI [of _ q] exI [of _ h]) (simp add: entry_of_def)
  qed
  moreover have "\<exists>p \<in> set chain. pc_name (rp_config p) = pl_name q"
    if q: "q \<in> set plugins" "applies registry route_id service_id consumer_id q" for q
  proof -
    obtain v where "map_of m (pl_name q) = Some v" using resolved_complete [OF q] unfolding m_def by auto
    then have "(pl_name q, v) \<in> set m" by (rule map_of_SomeD)
    then show ?thesis using name by (force simp: chain it(1) intro: bexI [of _ v])
  qed
  ultimately show ?thesis by blast
qed

text \<open>
  The rank of a configuration without a consumer: global, for a service, for a route, for a route of a
  service.
\<close>

fun rank :: "Plugin \<Rightarrow> nat" where
  "rank p = (case (pl_route p, pl_service p) of (None, None) \<Rightarrow> 0 | (None, Some _) \<Rightarrow> 1 | (Some _, None) \<Rightarrow> 2 | (Some _, Some _) \<Rightarrow> 3)"

text \<open>
  A configuration concerns a request without a consumer: it is enabled, its handler is registered, and
  it is bound to no consumer, to no route but that of the request and to no service but that of the
  request.
\<close>

definition concerns :: "'x PluginRegistry \<Rightarrow> uuid option \<Rightarrow> uuid option \<Rightarrow> Plugin \<Rightarrow> bool" where
  "concerns registry route_id service_id p =
     (pl_enabled p \<and> pl_name p \<in> dom (map_of registry) \<and> pl_consumer p = None \<and>
      (pl_route p = None \<or> pl_route p = route_id) \<and> (pl_service p = None \<or> pl_service p = service_id))"

lemma concerns_iff_applies: "concerns registry route_id service_id p \<longleftrightarrow> applies registry route_id service_id None p"
  by (auto simp: concerns_def applies_def is_registered_def plugin_matches_def fk_matches_def split: option.splits)

lemma specificity_rank:
  "pl_consumer p = None \<Longrightarrow> pl_consumer q = None \<Longrightarrow> specificity_order p q \<noteq> Greater \<longleftrightarrow> rank p \<le> rank q"
  by (simp add: specificity_order_def has_def cmp_def split: option.splits)

text \<open>
  C22. The plugin chain of a request without a consumer (the proxy resolves no other): it holds, for each
  plugin name with a configuration that is enabled, bound to no other route and service than those of
  the request and has a registered handler, exactly one configuration, and that one is the most
  specific of its name: one for a route of a service goes before one for a route, that before one for
  a service, and that before a global one. The chain is in descending priority of the handlers, for
  every iteration order of the hash maps.
\<close>

theorem chain_is_most_specific:
  assumes "\<And>m. iterates iter m" and "chain = resolve_plugins iter registry plugins route_id service_id None"
  shows "sorted_wrt (\<lambda>a b. ph_priority (rp_handler b) \<le> ph_priority (rp_handler a)) chain \<and>
    distinct (map (\<lambda>p. pc_name (rp_config p)) chain) \<and>
    (\<forall>p \<in> set chain. \<exists>q h. q \<in> set plugins \<and> concerns registry route_id service_id q \<and>
       map_of registry (pl_name q) = Some h \<and> p = resolved_plugin h q \<and>
       (\<forall>q' \<in> set plugins. concerns registry route_id service_id q' \<and> pl_name q' = pl_name q \<longrightarrow> rank q' \<le> rank q)) \<and>
    (\<forall>q \<in> set plugins. concerns registry route_id service_id q \<longrightarrow> (\<exists>p \<in> set chain. pc_name (rp_config p) = pl_name q))"
proof -
  have order: "specificity_order q' q \<noteq> Greater \<longleftrightarrow> rank q' \<le> rank q"
    if "concerns registry route_id service_id q" "concerns registry route_id service_id q'" for q q'
    using that by (simp add: concerns_def specificity_rank del: rank.simps)
  note spec = resolve_plugins_spec [OF assms, folded concerns_iff_applies, unfolded registry_get_def]
  show ?thesis
  proof (intro conjI)
    show "\<forall>p \<in> set chain. \<exists>q h. q \<in> set plugins \<and> concerns registry route_id service_id q \<and>
       map_of registry (pl_name q) = Some h \<and> p = resolved_plugin h q \<and>
       (\<forall>q' \<in> set plugins. concerns registry route_id service_id q' \<and> pl_name q' = pl_name q \<longrightarrow> rank q' \<le> rank q)"
      using spec order by (metis (no_types, lifting))
  qed (use spec in blast)+
qed

text \<open>
  With a consumer the order of the code is not that of its documentation, which ranks a combination
  highest: a configuration for a consumer alone is ranked above one for a route of a service.
\<close>

theorem consumer_alone_beats_combination:
  "specificity_order
     \<lparr>pl_id = 1, pl_name = ''limit'', pl_route = Some 1, pl_service = Some 2, pl_consumer = None, pl_config = JNull, pl_enabled = True\<rparr>
     \<lparr>pl_id = 2, pl_name = ''limit'', pl_route = None, pl_service = None, pl_consumer = Some 3, pl_config = JNull, pl_enabled = True\<rparr> = Less"
  by (simp add: specificity_order_def has_def cmp_def)

text \<open>A global limiter, one for the route 1, and a cache; the handler of the cache runs last.\<close>

definition ex_plugin :: "uuid \<Rightarrow> string \<Rightarrow> uuid option \<Rightarrow> Plugin" where
  "ex_plugin i name route = \<lparr>pl_id = i, pl_name = name, pl_route = route, pl_service = None, pl_consumer = None,
     pl_config = JNull, pl_enabled = True\<rparr>"

definition ex_plugins :: "Plugin list" where
  "ex_plugins = [ex_plugin 11 ''limit'' (Some 1), ex_plugin 12 ''cache'' None, ex_plugin 13 ''limit'' None, ex_plugin 14 ''gone'' None]"

text \<open>The limiter rejects in the access phase.\<close>

definition ex_reject :: "unit handler_fn" where
  "ex_reject c ctx = (Inr (), ctx\<lparr>rq_short_circuited := True, rq_exit_status := Some 429\<rparr>)"

definition ex_registry :: "unit PluginRegistry" where
  "ex_registry = register (register [] ''cache'' (handler_default 10)) ''limit'' ((handler_default 900)\<lparr>ph_access := ex_reject\<rparr>)"

theorem chain_is_most_specific_witness:
  "map rp_plugin_id (resolve_plugins rev ex_registry ex_plugins (Some 1) None None) = [11, 12] \<and>
   distinct (map (\<lambda>p. pc_name (rp_config p)) (resolve_plugins rev ex_registry ex_plugins (Some 1) None None))"
proof
  have "map_of ex_registry = [''limit'' \<mapsto> (handler_default 900)\<lparr>ph_access := ex_reject\<rparr>, ''cache'' \<mapsto> handler_default 10]"
    by (simp add: ex_registry_def register_def)
  then show "map rp_plugin_id (resolve_plugins rev ex_registry ex_plugins (Some 1) None None) = [11, 12]"
    by (simp add: resolve_plugins_def ex_plugins_def ex_plugin_def sort_by_def specificity_order_def has_def cmp_def add_resolved_def
        plugin_matches_def fk_matches_def registry_get_def resolved_plugin_def priority_order_def handler_default_def)
  have "iterates rev m" for m :: "(string \<times> unit ResolvedPlugin) list" by (simp add: iterates_def)
  from chain_is_most_specific [OF this refl]
  show "distinct (map (\<lambda>p. pc_name (rp_config p)) (resolve_plugins rev ex_registry ex_plugins (Some 1) None None))" by blast
qed

section \<open>The run of a phase\<close>

definition runs :: "Phase \<Rightarrow> 'x RequestCtx \<Rightarrow> bool" where
  "runs phase ctx = (\<not> rq_short_circuited ctx \<or> continues_after_short_circuit phase)"

text \<open>
  \<open>chain_run phase ctx ps ctx'\<close>: every plugin of \<open>ps\<close> is called once, in order, each with a valid
  configuration and in a context where the phase goes on, and each succeeds.
\<close>

inductive chain_run :: "Phase \<Rightarrow> 'x RequestCtx \<Rightarrow> 'x ResolvedPlugin list \<Rightarrow> 'x RequestCtx \<Rightarrow> bool" for phase :: Phase where
  chain_nil: "chain_run phase ctx [] ctx"
| chain_step: "runs phase ctx \<Longrightarrow> validate_plugin_config (pc_name (rp_config p)) (pc_config (rp_config p)) = Inr u \<Longrightarrow>
    call_phase p phase ctx = (Inr v, ctx') \<Longrightarrow> chain_run phase (note_rejection phase (pc_name (rp_config p)) ctx ctx') ps ctx'' \<Longrightarrow>
    chain_run phase ctx (p # ps) ctx''"

inductive_cases chain_nilE: "chain_run phase ctx [] ctx'"
inductive_cases chain_consE: "chain_run phase ctx (p # ps) ctx'"

text \<open>A plugin fails in a context: its configuration is invalid, or its handler answers with an error.\<close>

inductive plugin_fails :: "Phase \<Rightarrow> 'x RequestCtx \<Rightarrow> 'x ResolvedPlugin \<Rightarrow> 'x RequestCtx \<Rightarrow> bool" for phase :: Phase where
  fails_config: "validate_plugin_config (pc_name (rp_config p)) (pc_config (rp_config p)) = Inl err \<Longrightarrow>
    plugin_fails phase ctx p (note_failure phase (pc_name (rp_config p)) ctx)"
| fails_handler: "validate_plugin_config (pc_name (rp_config p)) (pc_config (rp_config p)) = Inr u \<Longrightarrow>
    call_phase p phase ctx = (Inl err, ctx') \<Longrightarrow> plugin_fails phase ctx p (note_failure phase (pc_name (rp_config p)) ctx')"

lemma execute_phase_run:
  "case execute_phase ps phase ctx of
     (Inr _, ctx') \<Rightarrow>
       (\<exists>called rest. ps = called @ rest \<and> chain_run phase ctx called ctx' \<and> (rest = [] \<or> \<not> runs phase ctx'))
   | (Inl e, ctx') \<Rightarrow>
       (\<exists>called p rest ctx1 msg. ps = called @ p # rest \<and> chain_run phase ctx called ctx1 \<and> runs phase ctx1 \<and>
          plugin_fails phase ctx1 p ctx' \<and> e = PluginError (pc_name (rp_config p)) msg)"
proof (induction ps arbitrary: ctx)
  case Nil
  show ?case by (auto intro: chain_nil)
next
  case (Cons p ps)
  let ?name = "pc_name (rp_config p)"
  let ?v = "validate_plugin_config ?name (pc_config (rp_config p))"
  show ?case
  proof (cases "runs phase ctx")
    case False
    then have "execute_phase (p # ps) phase ctx = (Inr (), ctx)" by (simp add: runs_def)
    with False show ?thesis by (auto intro: chain_nil)
  next
    case True
    note r = True
    show ?thesis
    proof (cases ?v)
      case (Inl err)
      then have "plugin_fails phase ctx p (note_failure phase ?name ctx)" by (rule fails_config)
      with Inl r show ?thesis
        by (auto simp: runs_def Let_def intro!: exI [of _ "[]"] chain_nil)
    next
      case (Inr u)
      note valid = Inr
      obtain res ctx1 where call: "call_phase p phase ctx = (res, ctx1)" by force
      show ?thesis
      proof (cases res)
        case (Inl err)
        then have "plugin_fails phase ctx p (note_failure phase ?name ctx1)" using valid call by (auto intro: fails_handler)
        with Inl valid call r show ?thesis by (auto simp: runs_def Let_def intro!: exI [of _ "[]"] chain_nil)
      next
        case (Inr v)
        have ex: "execute_phase (p # ps) phase ctx = execute_phase ps phase (note_rejection phase ?name ctx ctx1)"
          using r valid call Inr by (auto simp: runs_def Let_def)
        have step: "chain_run phase (note_rejection phase ?name ctx ctx1) called ctx'' \<Longrightarrow> chain_run phase ctx (p # called) ctx''" for called ctx''
          using chain_step [OF r valid] call Inr by blast
        obtain res' ctx' where res: "execute_phase ps phase (note_rejection phase ?name ctx ctx1) = (res', ctx')" by force
        note IH = Cons.IH [of "note_rejection phase ?name ctx ctx1", unfolded res]
        show ?thesis
        proof (cases res')
          case (Inl e)
          with IH obtain called q rest ctx2 msg where "ps = called @ q # rest" "chain_run phase (note_rejection phase ?name ctx ctx1) called ctx2"
            "runs phase ctx2" "plugin_fails phase ctx2 q ctx'" "e = PluginError (pc_name (rp_config q)) msg" by auto
          then show ?thesis unfolding ex res using Inl step by (auto intro!: exI [of _ "p # called"] exI [of _ ctx2])
        next
          case (Inr w)
          with IH obtain called rest where "ps = called @ rest" "chain_run phase (note_rejection phase ?name ctx ctx1) called ctx'"
            "rest = [] \<or> \<not> runs phase ctx'" by auto
          then show ?thesis unfolding ex res using Inr step by (simp, intro exI [of _ "p # called"] exI [of _ rest]) simp
        qed
      qed
    qed
  qed
qed

lemma note_rejection_short [simp]: "rq_short_circuited (note_rejection phase name before after) = rq_short_circuited after"
  by (simp add: note_rejection_def mark_lifecycle_def)

lemma chain_run_stopped: "chain_run phase ctx ps ctx' \<Longrightarrow> \<not> runs phase ctx \<Longrightarrow> ps = [] \<and> ctx' = ctx"
  by (induction rule: chain_run.induct) auto

lemma chain_run_culprit:
  "chain_run phase ctx ps ctx' \<Longrightarrow> \<not> continues_after_short_circuit phase \<Longrightarrow> \<not> rq_short_circuited ctx \<Longrightarrow> rq_short_circuited ctx' \<Longrightarrow>
     \<exists>called p ctx1 ctx2. ps = called @ [p] \<and> chain_run phase ctx called ctx1 \<and> \<not> rq_short_circuited ctx1 \<and>
       call_phase p phase ctx1 = (Inr (), ctx2) \<and> rq_short_circuited ctx2 \<and>
       ctx' = note_rejection phase (pc_name (rp_config p)) ctx1 ctx2"
proof (induction rule: chain_run.induct)
  case (chain_step ctx p u v ctx' ps ctx'')
  show ?case
  proof (cases "rq_short_circuited ctx'")
    case True
    then have "\<not> runs phase (note_rejection phase (pc_name (rp_config p)) ctx ctx')" using chain_step.prems(1) by (simp add: runs_def)
    with chain_run_stopped [OF chain_step.hyps(4)] True chain_step.hyps(3) chain_step.prems(2) show ?thesis
      by (intro exI [of _ "[]"] exI [of _ p] exI [of _ ctx] exI [of _ ctx']) (simp add: chain_nil)
  next
    case False
    with chain_step.IH chain_step.prems obtain called q ctx1 ctx2 where
      "ps = called @ [q]" and c: "chain_run phase (note_rejection phase (pc_name (rp_config p)) ctx ctx') called ctx1"
      and "\<not> rq_short_circuited ctx1" "call_phase q phase ctx1 = (Inr (), ctx2)" "rq_short_circuited ctx2"
      "ctx'' = note_rejection phase (pc_name (rp_config q)) ctx1 ctx2" by auto
    with chain_run.chain_step [OF chain_step.hyps(1-3) c] show ?thesis
      by (intro exI [of _ "p # called"] exI [of _ q] exI [of _ ctx1] exI [of _ ctx2]) simp
  qed
qed simp

lemma note_rejection_hint:
  assumes "\<not> rq_short_circuited before" "rq_short_circuited after"
  shows "lc_termination_hint (rq_lifecycle after) \<noteq> lc_termination_hint (rq_lifecycle before) \<or>
    (\<exists>ph n. lc_termination_hint (rq_lifecycle before) = Some (PolicyRejected ph n)) \<or>
    lc_termination_hint (rq_lifecycle (note_rejection phase name before after)) = Some (PolicyRejected phase name)"
proof (cases "lc_termination_hint (rq_lifecycle before)")
  case (Some h)
  with assms show ?thesis
    by (cases h) (auto simp: note_rejection_def mark_lifecycle_def mark_policy_rejected_def set_termination_hint_def)
qed (use assms in \<open>auto simp: note_rejection_def mark_lifecycle_def mark_policy_rejected_def set_termination_hint_def\<close>)

text \<open>
  C40. \<open>execute_phase\<close> runs a prefix of the chain: the plugins are called once each and in order, and the
  configuration of a plugin is looked at and its handler called only while the phase goes on: before
  the request is short-circuited, or in the response phases (header filter, body filter, log), which
  go on afterwards. A phase that succeeds has called all plugins, or has stopped because the request was
  short-circuited in another phase. A phase that fails has stopped, while it went on, at the plugin that
  failed, by an invalid configuration or by its handler, and the error names it. (In the body filter
  phase \<open>execute_phase\<close> only checks the configurations; the handlers are called by
  \<open>execute_body_filter\<close>, of which this says nothing.)
\<close>

theorem phase_calls_prefix_in_order:
  "case execute_phase plugins phase ctx of
     (Inr _, ctx') \<Rightarrow>
       (\<exists>called rest. plugins = called @ rest \<and> chain_run phase ctx called ctx' \<and>
          (rest = [] \<or> rq_short_circuited ctx' \<and> phase \<notin> {HeaderFilter, BodyFilter, Log}))
   | (Inl e, ctx') \<Rightarrow>
       (\<exists>called p rest ctx1 msg. plugins = called @ p # rest \<and> chain_run phase ctx called ctx1 \<and>
          (\<not> rq_short_circuited ctx1 \<or> phase \<in> {HeaderFilter, BodyFilter, Log}) \<and>
          plugin_fails phase ctx1 p ctx' \<and> e = PluginError (pc_name (rp_config p)) msg)"
proof -
  have runs: "runs phase c \<longleftrightarrow> \<not> rq_short_circuited c \<or> phase \<in> {HeaderFilter, BodyFilter, Log}" for c :: "'a RequestCtx"
    by (auto simp: runs_def continues_after_short_circuit_def)
  from execute_phase_run [of plugins phase ctx, unfolded runs de_Morgan_disj not_not] show ?thesis .
qed

text \<open>
  Every rejection has one author: if a phase of request processing short-circuits a request that
  was not, one plugin of the chain did it; the plugins before it had run without short-circuiting,
  none after it is called, and the record of the request names it as the plugin that rejected in
  this phase, unless the handler itself recorded a reason or an earlier rejection stands.
\<close>

theorem short_circuit_has_author:
  assumes "execute_phase plugins phase ctx = (Inr u, ctx')" and "\<not> continues_after_short_circuit phase"
    and "\<not> rq_short_circuited ctx" and "rq_short_circuited ctx'"
  shows "\<exists>called p rest ctx1 ctx2. plugins = called @ p # rest \<and> chain_run phase ctx called ctx1 \<and> \<not> rq_short_circuited ctx1 \<and>
    call_phase p phase ctx1 = (Inr (), ctx2) \<and> rq_short_circuited ctx2 \<and>
    ctx' = note_rejection phase (pc_name (rp_config p)) ctx1 ctx2 \<and>
    (lc_termination_hint (rq_lifecycle ctx2) \<noteq> lc_termination_hint (rq_lifecycle ctx1) \<or>
     (\<exists>ph n. lc_termination_hint (rq_lifecycle ctx1) = Some (PolicyRejected ph n)) \<or>
     lc_termination_hint (rq_lifecycle ctx') = Some (PolicyRejected phase (pc_name (rp_config p))))"
proof -
  obtain all rest where "plugins = all @ rest" and all: "chain_run phase ctx all ctx'"
    using execute_phase_run [of plugins phase ctx] unfolding assms(1) by auto
  moreover from chain_run_culprit [OF all assms(2-4)] obtain called p ctx1 ctx2 where
    p: "all = called @ [p]" "chain_run phase ctx called ctx1" "\<not> rq_short_circuited ctx1" "call_phase p phase ctx1 = (Inr (), ctx2)"
      "rq_short_circuited ctx2" "ctx' = note_rejection phase (pc_name (rp_config p)) ctx1 ctx2" by blast
  ultimately show ?thesis
    using note_rejection_hint [OF p(3,5), of phase "pc_name (rp_config p)"]
    by (intro exI [of _ called] exI [of _ p] exI [of _ rest] exI [of _ ctx1] exI [of _ ctx2]) simp
qed

definition ex_request_ctx :: "unit RequestCtx" where
  "ex_request_ctx = request_ctx_new (lifecycle_new ''r1'' 0 0) ()"

definition ex_chain :: "unit ResolvedPlugin list" where
  "ex_chain = [resolved_plugin (handler_default 1000) (ex_plugin 1 ''trace'' None),
     resolved_plugin ((handler_default 900)\<lparr>ph_access := ex_reject\<rparr>) (ex_plugin 2 ''limit'' None),
     resolved_plugin (handler_default 10) (ex_plugin 3 ''cache'' None)]"

definition ex_rejected_ctx :: "unit RequestCtx" where
  "ex_rejected_ctx = ex_request_ctx\<lparr>rq_short_circuited := True, rq_exit_status := Some 429,
    rq_lifecycle := (rq_lifecycle ex_request_ctx)\<lparr>lc_termination_hint := Some (PolicyRejected Access ''limit'')\<rparr>\<rparr>"

lemma ex_chain_rejects: "execute_phase ex_chain Access ex_request_ctx = (Inr (), ex_rejected_ctx)"
  by (simp add: ex_chain_def ex_request_ctx_def ex_rejected_ctx_def request_ctx_new_def lifecycle_new_def resolved_plugin_def ex_plugin_def
      handler_default_def continues_after_short_circuit_def validate_plugin_config_def call_phase_def ex_reject_def note_rejection_def
      mark_lifecycle_def mark_policy_rejected_def set_termination_hint_def)

theorem phase_calls_prefix_in_order_witness:
  "\<exists>called rest. ex_chain = called @ rest \<and> chain_run Access ex_request_ctx called ex_rejected_ctx"
  using phase_calls_prefix_in_order [of ex_chain Access ex_request_ctx] unfolding ex_chain_rejects by auto

theorem short_circuit_has_author_witness:
  "lc_termination_hint (rq_lifecycle (snd (execute_phase ex_chain Access ex_request_ctx))) = Some (PolicyRejected Access ''limit'') \<and>
   (\<exists>called p rest. ex_chain = called @ p # rest \<and> rp_plugin_id p = 2)"
proof -
  have "\<not> continues_after_short_circuit Access" "\<not> rq_short_circuited ex_request_ctx" "rq_short_circuited ex_rejected_ctx"
    by (simp_all add: continues_after_short_circuit_def ex_request_ctx_def ex_rejected_ctx_def request_ctx_new_def)
  from short_circuit_has_author [OF ex_chain_rejects this] obtain called p rest ctx1 ctx2 where
    p: "ex_chain = called @ p # rest" "call_phase p Access ctx1 = (Inr (), ctx2)" "\<not> rq_short_circuited ctx1" "rq_short_circuited ctx2" by blast
  have "p \<in> set ex_chain" by (simp add: p(1))
  then have "rp_plugin_id p = 2"
    using p(2-4) by (auto simp: ex_chain_def resolved_plugin_def ex_plugin_def call_phase_def handler_default_def)
  with p(1) show ?thesis by (auto simp: ex_chain_rejects ex_rejected_ctx_def)
qed

end
