(* ===== verification/Dispatch_Hooks.thy ===== *)
theory Dispatch_Hooks
  imports Plugin_System
begin

text \<open>
  The last gate before a request leaves for its upstream (\<open>run_dispatch_hooks\<close> and
  \<open>run_request_finalizers\<close> of \<open>kong-proxy/src/lib.rs\<close>, with the types of the module \<open>lifecycle\<close> of
  \<open>kong-plugin-system/src/lib.rs\<close>). A hook is any code: it changes the context and then succeeds, fails,
  panics or is cut off by its timeout, and the proxy sees only which of these happened. How a JSON
  value is printed is the parameter \<open>print\<close> (the \<open>serde_json\<close> crate).
\<close>

section \<open>Types\<close>

record LifecycleHookError =
  he_code :: string
  he_message :: string

record DispatchFailureResponse =
  fr_status :: u16
  fr_code :: string
  fr_message :: string

datatype DispatchFailurePolicy = Continue | FailClosed DispatchFailureResponse

datatype DispatchAbortKind = AbortError | AbortTimeout | AbortPanic | AbortExplicit

record DispatchAbortCause =
  ac_hook_name :: string
  ac_kind :: DispatchAbortKind

text \<open>What \<open>timeout(catch_unwind(..))\<close> reports of a call.\<close>

datatype hook_outcome = HookOk | HookErr LifecycleHookError | HookPanic | HookTimeout

record 'x RequestDispatchHook =
  dh_name :: string
  dh_domain :: string
  dh_policy :: DispatchFailurePolicy
  dh_before :: "'x ResolvedPlugin list \<Rightarrow> 'x RequestCtx \<Rightarrow> hook_outcome \<times> 'x RequestCtx"

record 'x RequestDispatchAbortHandler =
  ah_name :: string
  ah_domain :: string
  ah_compensate :: "DispatchAbortCause \<Rightarrow> 'x RequestCtx \<Rightarrow> hook_outcome \<times> 'x RequestCtx"

record 'x RequestFinalizer =
  fin_name :: string
  fin_finalize :: "'x ResolvedPlugin list \<Rightarrow> 'x RequestCtx \<Rightarrow> hook_outcome \<times> 'x RequestCtx"

record 'x lifecycle_hooks =
  hk_dispatch :: "'x RequestDispatchHook list"
  hk_abort :: "'x RequestDispatchAbortHandler list"
  hk_finalizers :: "'x RequestFinalizer list"

section \<open>Operations\<close>

fun fails_closed :: "DispatchFailurePolicy \<Rightarrow> bool" where
  "fails_closed (FailClosed _) = True"
| "fails_closed Continue = False"

definition try_with_async_lifecycle_hooks ::
    "'x RequestDispatchHook list \<Rightarrow> 'x RequestDispatchAbortHandler list \<Rightarrow> 'x RequestFinalizer list \<Rightarrow> string + 'x lifecycle_hooks" where
  "try_with_async_lifecycle_hooks dispatch aborts finalizers =
     (if \<exists>hook \<in> set dispatch. fails_closed (dh_policy hook) \<and> (\<forall>h \<in> set aborts. ah_domain h \<noteq> dh_domain hook)
      then Inl ''critical dispatch hook without abort handler''
      else Inr \<lparr>hk_dispatch = dispatch, hk_abort = aborts, hk_finalizers = finalizers\<rparr>)"

definition dispatch_error_type :: "u16 \<Rightarrow> string" where
  "dispatch_error_type status =
     (if status = 401 then ''invalid_request_error''
      else if status = 403 then ''insufficient_quota''
      else if status = 429 then ''rate_limit_error''
      else if 500 \<le> status \<and> status \<le> 599 then ''server_error''
      else ''gateway_error'')"

definition dispatch_failure_body :: "DispatchFailureResponseFormat \<Rightarrow> string \<Rightarrow> DispatchFailureResponse \<Rightarrow> Value" where
  "dispatch_failure_body format request_id response =
     (case format of
        Generic \<Rightarrow> JObject [(''error'', JObject [(''code'', JString (fr_code response)), (''message'', JString (fr_message response))])]
      | OpenAi \<Rightarrow>
          JObject [(''error'', JObject [(''code'', JString (fr_code response)), (''message'', JString (fr_message response)),
            (''param'', JNull), (''type'', JString (dispatch_error_type (fr_status response)))])]
      | Anthropic \<Rightarrow>
          JObject [(''error'', JObject [(''message'', JString (fr_message response)), (''type'', JString (fr_code response))]),
            (''request_id'', JString request_id), (''type'', JString ''error'')])"

definition set_dispatch_failure_response :: "(Value \<Rightarrow> string) \<Rightarrow> DispatchFailureResponse \<Rightarrow> 'x RequestCtx \<Rightarrow> 'x RequestCtx" where
  "set_dispatch_failure_response print response ctx =
     (let format = (case rq_failure_format ctx of Some f \<Rightarrow> f | None \<Rightarrow> Generic);
          body = dispatch_failure_body format (lc_request_id (rq_lifecycle ctx)) response
      in ctx\<lparr>rq_short_circuited := True, rq_exit_status := Some (fr_status response), rq_exit_body := Some (print body)\<rparr>)"

fun hook_failure_kind :: "hook_outcome \<Rightarrow> DispatchAbortKind option" where
  "hook_failure_kind HookOk = None"
| "hook_failure_kind (HookErr _) = Some AbortError"
| "hook_failure_kind HookPanic = Some AbortPanic"
| "hook_failure_kind HookTimeout = Some AbortTimeout"

definition forbidden_response :: DispatchFailureResponse where
  "forbidden_response =
     \<lparr>fr_status = 503, fr_code = ''upstream_dispatch_forbidden'', fr_message = ''Upstream dispatch unavailable''\<rparr>"

type_synonym abort = "(DispatchAbortCause \<times> DispatchFailureResponse) option"

definition or_abort :: "abort \<Rightarrow> string \<Rightarrow> DispatchAbortKind \<Rightarrow> DispatchFailureResponse \<Rightarrow> abort" where
  "or_abort abort name kind response =
     (case abort of None \<Rightarrow> Some (\<lparr>ac_hook_name = name, ac_kind = kind\<rparr>, response) | Some a \<Rightarrow> Some a)"

definition run_hook :: "'x ResolvedPlugin list \<Rightarrow> 'x RequestDispatchHook \<Rightarrow> abort \<times> 'x RequestCtx \<Rightarrow> abort \<times> 'x RequestCtx" where
  "run_hook plugins hook st =
     (let (abort, ctx) = st;
          (result, ctx1) = dh_before hook plugins ctx;
          (abort1, ctx2) =
            (case (hook_failure_kind result, dh_policy hook) of
               (Some kind, FailClosed response) \<Rightarrow> (or_abort abort (dh_name hook) kind response, forbid_upstream_dispatch ctx1)
             | _ \<Rightarrow> (abort, ctx1))
      in if rq_short_circuited ctx2 \<or> rq_upstream_dispatch_forbidden ctx2
         then (or_abort abort1 (dh_name hook) AbortExplicit
                 (case dh_policy hook of FailClosed response \<Rightarrow> response | Continue \<Rightarrow> forbidden_response),
               forbid_upstream_dispatch ctx2)
         else (abort1, ctx2))"

definition run_compensators :: "'x RequestDispatchAbortHandler list \<Rightarrow> DispatchAbortCause \<Rightarrow> 'x RequestCtx \<Rightarrow> 'x RequestCtx" where
  "run_compensators handlers cause ctx = foldl (\<lambda>c h. snd (ah_compensate h cause c)) ctx handlers"

definition abort_dispatch ::
    "(Value \<Rightarrow> string) \<Rightarrow> 'x RequestDispatchAbortHandler list \<Rightarrow> DispatchAbortCause \<Rightarrow> DispatchFailureResponse \<Rightarrow> 'x RequestCtx \<Rightarrow> 'x RequestCtx" where
  "abort_dispatch print handlers cause response ctx =
     (let ctx1 = forbid_upstream_dispatch ctx;
          root = (if rq_short_circuited ctx1 then ctx1 else set_dispatch_failure_response print response ctx1);
          ctx2 = run_compensators handlers cause root
      in mark_lifecycle (mark_gateway_error LUpstream ''request_dispatch_hook'')
           (ctx2\<lparr>rq_short_circuited := True, rq_exit_status := rq_exit_status root, rq_exit_body := rq_exit_body root,
                 rq_exit_headers := rq_exit_headers root\<rparr>))"

definition run_dispatch_hooks ::
    "(Value \<Rightarrow> string) \<Rightarrow> 'x lifecycle_hooks \<Rightarrow> 'x ResolvedPlugin list \<Rightarrow> 'x RequestCtx \<Rightarrow> bool \<times> 'x RequestCtx" where
  "run_dispatch_hooks print hooks plugins ctx =
     (case fold (run_hook plugins) (hk_dispatch hooks) (None, ctx) of
        (None, ctx') \<Rightarrow> (\<not> rq_upstream_dispatch_forbidden ctx', ctx')
      | (Some (cause, response), ctx') \<Rightarrow> (False, abort_dispatch print (hk_abort hooks) cause response ctx'))"

definition run_request_finalizers :: "'x lifecycle_hooks \<Rightarrow> 'x ResolvedPlugin list \<Rightarrow> 'x RequestCtx \<Rightarrow> 'x RequestCtx" where
  "run_request_finalizers hooks plugins ctx = foldl (\<lambda>c f. snd (fin_finalize f plugins c)) ctx (hk_finalizers hooks)"

section \<open>Fail closed\<close>

definition blocked :: "'x RequestCtx \<Rightarrow> bool" where
  "blocked ctx = (rq_short_circuited ctx \<or> rq_upstream_dispatch_forbidden ctx)"

text \<open>
  \<open>hooks_clear plugins ctx hooks ctx'\<close>: every hook is called once, in order, each succeeds unless its
  policy is to continue, and none leaves the context short-circuited or dispatch forbidden.
\<close>

inductive hooks_clear ::
    "'x ResolvedPlugin list \<Rightarrow> 'x RequestCtx \<Rightarrow> 'x RequestDispatchHook list \<Rightarrow> 'x RequestCtx \<Rightarrow> bool" for plugins where
  clear_nil: "hooks_clear plugins ctx [] ctx"
| clear_step: "dh_before h plugins ctx = (result, ctx1) \<Longrightarrow> result = HookOk \<or> dh_policy h = Continue \<Longrightarrow> \<not> blocked ctx1 \<Longrightarrow>
    hooks_clear plugins ctx1 hs ctx' \<Longrightarrow> hooks_clear plugins ctx (h # hs) ctx'"

inductive_simps hooks_clear_nil [simp]: "hooks_clear plugins ctx [] ctx'"
inductive_simps hooks_clear_cons: "hooks_clear plugins ctx (h # hs) ctx'"

text \<open>
  \<open>compensated cause ctx handlers ctx'\<close>: every handler of the list is called exactly once, in order, with
  the cause and with the context the handler before it left (the first with \<open>ctx\<close>), whatever the outcome
  of the calls before it was: success, error, panic or timeout. The last one leaves \<open>ctx'\<close>.
\<close>

inductive compensated ::
    "DispatchAbortCause \<Rightarrow> 'x RequestCtx \<Rightarrow> 'x RequestDispatchAbortHandler list \<Rightarrow> 'x RequestCtx \<Rightarrow> bool" for cause where
  comp_nil: "compensated cause ctx [] ctx"
| comp_step: "ah_compensate h cause ctx = (result, ctx1) \<Longrightarrow> compensated cause ctx1 hs ctx' \<Longrightarrow> compensated cause ctx (h # hs) ctx'"

inductive_simps compensated_nil [simp]: "compensated cause ctx [] ctx'"
inductive_simps compensated_cons: "compensated cause ctx (h # hs) ctx'"

lemma run_compensators_calls_all: "compensated cause ctx handlers (run_compensators handlers cause ctx)"
  by (induction handlers arbitrary: ctx) (auto simp: run_compensators_def compensated_cons prod_eq_iff)

text \<open>The call of one hook is clear, or it sets the abort with its own name.\<close>

definition clear_call :: "'x ResolvedPlugin list \<Rightarrow> 'x RequestDispatchHook \<Rightarrow> 'x RequestCtx \<Rightarrow> bool" where
  "clear_call plugins h ctx =
     (case dh_before h plugins ctx of (result, ctx1) \<Rightarrow> (result = HookOk \<or> dh_policy h = Continue) \<and> \<not> blocked ctx1)"

lemma hook_failure_kind_None [simp]: "hook_failure_kind r = None \<longleftrightarrow> r = HookOk"
  by (cases r) auto

lemma run_hook_clear:
  "clear_call plugins h ctx \<Longrightarrow> run_hook plugins h (abort, ctx) = (abort, snd (dh_before h plugins ctx))"
  by (auto simp: clear_call_def run_hook_def blocked_def Let_def split: prod.splits option.splits DispatchFailurePolicy.splits)

lemma run_hook_blocked:
  assumes "\<not> clear_call plugins h ctx"
  shows "\<exists>cause response ctx'. run_hook plugins h (None, ctx) = (Some (cause, response), ctx') \<and> ac_hook_name cause = dh_name h \<and>
    (case dh_policy h of FailClosed r \<Rightarrow> response = r | Continue \<Rightarrow> response = forbidden_response) \<and>
    ac_kind cause = (case (hook_failure_kind (fst (dh_before h plugins ctx)), dh_policy h) of (Some k, FailClosed _) \<Rightarrow> k | _ \<Rightarrow> AbortExplicit)"
  using assms
  by (auto simp: clear_call_def run_hook_def blocked_def or_abort_def forbid_upstream_dispatch_def Let_def
      split: prod.splits option.splits DispatchFailurePolicy.splits)

lemma run_hook_keeps_abort: "fst (run_hook plugins h (Some a, ctx)) = Some a"
  by (auto simp: run_hook_def or_abort_def Let_def split: prod.splits option.splits DispatchFailurePolicy.splits)

lemma fold_keeps_abort: "fst (fold (run_hook plugins) hs (Some a, ctx)) = Some a"
proof (induction hs arbitrary: ctx)
  case (Cons h hs)
  obtain ctx' where "run_hook plugins h (Some a, ctx) = (Some a, ctx')"
    using run_hook_keeps_abort [of plugins h a ctx] by (metis prod.collapse)
  with Cons show ?case by simp
qed simp

lemma clear_call_step:
  "clear_call plugins h ctx \<Longrightarrow> hooks_clear plugins (snd (dh_before h plugins ctx)) hs ctx' \<Longrightarrow> hooks_clear plugins ctx (h # hs) ctx'"
  by (auto simp: clear_call_def hooks_clear_cons split: prod.splits)

lemma hooks_dichotomy:
  "(\<exists>ctx'. fold (run_hook plugins) hs (None, ctx) = (None, ctx') \<and> hooks_clear plugins ctx hs ctx') \<or>
   (\<exists>pre h post c cause response ctx'. hs = pre @ h # post \<and> hooks_clear plugins ctx pre c \<and> \<not> clear_call plugins h c \<and>
      fold (run_hook plugins) hs (None, ctx) = (Some (cause, response), ctx') \<and> ac_hook_name cause = dh_name h \<and>
      (case dh_policy h of FailClosed r \<Rightarrow> response = r | Continue \<Rightarrow> response = forbidden_response))"
proof (induction hs arbitrary: ctx)
  case (Cons h hs)
  show ?case
  proof (cases "clear_call plugins h ctx")
    case True
    note step = run_hook_clear [OF True]
    from Cons.IH [of "snd (dh_before h plugins ctx)"] show ?thesis
    proof (elim disjE exE conjE)
      fix ctx' assume "fold (run_hook plugins) hs (None, snd (dh_before h plugins ctx)) = (None, ctx')"
        "hooks_clear plugins (snd (dh_before h plugins ctx)) hs ctx'"
      then show ?thesis using step clear_call_step [OF True] by (intro disjI1) simp
    next
      fix pre g post c cause response ctx'
      assume IH: "hs = pre @ g # post" "hooks_clear plugins (snd (dh_before h plugins ctx)) pre c" "\<not> clear_call plugins g c"
        "fold (run_hook plugins) hs (None, snd (dh_before h plugins ctx)) = (Some (cause, response), ctx')" "ac_hook_name cause = dh_name g"
        "case dh_policy g of FailClosed r \<Rightarrow> response = r | Continue \<Rightarrow> response = forbidden_response"
      show ?thesis
      proof (intro disjI2 exI conjI)
        show "h # hs = (h # pre) @ g # post" by (simp add: IH(1))
        show "hooks_clear plugins ctx (h # pre) c" by (rule clear_call_step [OF True IH(2)])
        show "fold (run_hook plugins) (h # hs) (None, ctx) = (Some (cause, response), ctx')" using IH(4) step by simp
      qed (use IH in simp_all)
    qed
  next
    case False
    from run_hook_blocked [OF False] obtain cause response ctx1 where h: "run_hook plugins h (None, ctx) = (Some (cause, response), ctx1)"
      "ac_hook_name cause = dh_name h" "case dh_policy h of FailClosed r \<Rightarrow> response = r | Continue \<Rightarrow> response = forbidden_response" by blast
    obtain ctx' where "fold (run_hook plugins) hs (Some (cause, response), ctx1) = (Some (cause, response), ctx')"
      using fold_keeps_abort [of plugins hs "(cause, response)" ctx1] by (metis prod.collapse)
    then have "fold (run_hook plugins) (h # hs) (None, ctx) = (Some (cause, response), ctx')" by (simp add: h(1))
    with h(2,3) False show ?thesis by (metis append_Nil clear_nil)
  qed
qed simp

lemma abort_dispatch_root:
  "\<exists>root. blocked root \<and> rq_short_circuited root \<and> rq_upstream_dispatch_forbidden root \<and>
     (rq_short_circuited ctx \<and> root = forbid_upstream_dispatch ctx \<or>
      \<not> rq_short_circuited ctx \<and> root = set_dispatch_failure_response print response (forbid_upstream_dispatch ctx)) \<and>
     (\<exists>c. compensated cause root handlers c \<and>
       (let ctx' = abort_dispatch print handlers cause response ctx
        in rq_short_circuited ctx' \<and> rq_exit_status ctx' = rq_exit_status root \<and> rq_exit_body ctx' = rq_exit_body root \<and>
           rq_exit_headers ctx' = rq_exit_headers root \<and> rq_extensions ctx' = rq_extensions c \<and>
           lc_termination_hint (rq_lifecycle ctx') \<noteq> None))"
  by (intro exI [of _ "if rq_short_circuited ctx then forbid_upstream_dispatch ctx
        else set_dispatch_failure_response print response (forbid_upstream_dispatch ctx)"] conjI
      exI [of _ "run_compensators handlers cause (if rq_short_circuited ctx then forbid_upstream_dispatch ctx
        else set_dispatch_failure_response print response (forbid_upstream_dispatch ctx))"] run_compensators_calls_all)
     (auto simp: abort_dispatch_def Let_def blocked_def forbid_upstream_dispatch_def set_dispatch_failure_response_def mark_lifecycle_def
        mark_gateway_error_def set_termination_hint_def split: option.splits)

lemma run_dispatch_hooks_clear:
  "run_dispatch_hooks print hooks plugins ctx = (True, ctx') \<longleftrightarrow>
     hooks_clear plugins ctx (hk_dispatch hooks) ctx' \<and> \<not> rq_upstream_dispatch_forbidden ctx'"
proof -
  have det: "hooks_clear plugins ctx hs c1 \<Longrightarrow> fold (run_hook plugins) hs (None, ctx) = (None, c1)" for hs c1
    by (induction rule: hooks_clear.induct) (auto simp: run_hook_clear clear_call_def)
  show ?thesis
    using hooks_dichotomy [of plugins "hk_dispatch hooks" ctx] det [of "hk_dispatch hooks" ctx']
    by (auto simp: run_dispatch_hooks_def)
qed

text \<open>
  Dispatch fails closed: the proxy may go on to the upstream exactly if every dispatch hook was
  called and cleared the request (it succeeded or may fail by its policy, and left the request
  neither short-circuited nor forbidden) and dispatch is not forbidden in the end; the context is then
  what the hooks made of it.
\<close>

theorem dispatch_only_if_clear:
  "run_dispatch_hooks print hooks plugins ctx = (True, ctx') \<longleftrightarrow>
     hooks_clear plugins ctx (hk_dispatch hooks) ctx' \<and> \<not> rq_upstream_dispatch_forbidden ctx'"
  by (rule run_dispatch_hooks_clear)

text \<open>
  C9. A refused dispatch has one cause and one answer: if a dispatch hook does not clear the request,
  the proxy answers without contacting the upstream, and the cause names the first such hook. Before
  the compensation the request is short-circuited and forbidden, with the answer the hooks wrote
  themselves, or else the response of the policy of the hook that failed. From that context on every
  compensator is called exactly once, in order and with that cause, each in the context the one before
  it left, even after one that failed, panicked or timed out; one of them has the domain of the hook
  that failed, if its policy is to fail closed. Whatever the compensators do to the request, status,
  body and headers of the answer are those from before the compensation; what they did to the
  extensions of the request is kept. The reason for the end of the request is recorded.
\<close>

theorem refused_dispatch_keeps_root_cause:
  assumes "try_with_async_lifecycle_hooks dispatch aborts finalizers = Inr hooks"
    and "\<nexists>ctx'. hooks_clear plugins ctx (hk_dispatch hooks) ctx'"
  shows "\<exists>pre h post c cause response ctx1 root comp ctx'.
    hk_dispatch hooks = pre @ h # post \<and> hooks_clear plugins ctx pre c \<and> \<not> clear_call plugins h c \<and> ac_hook_name cause = dh_name h \<and>
    (case dh_policy h of
       FailClosed r \<Rightarrow> response = r \<and> (\<exists>a \<in> set (hk_abort hooks). ah_domain a = dh_domain h)
     | Continue \<Rightarrow> response = forbidden_response) \<and>
    fold (run_hook plugins) (hk_dispatch hooks) (None, ctx) = (Some (cause, response), ctx1) \<and>
    (rq_short_circuited ctx1 \<and> root = forbid_upstream_dispatch ctx1 \<or>
     \<not> rq_short_circuited ctx1 \<and> root = set_dispatch_failure_response print response (forbid_upstream_dispatch ctx1)) \<and>
    rq_short_circuited root \<and> rq_upstream_dispatch_forbidden root \<and>
    run_dispatch_hooks print hooks plugins ctx = (False, ctx') \<and> rq_short_circuited ctx' \<and>
    rq_exit_status ctx' = rq_exit_status root \<and> rq_exit_body ctx' = rq_exit_body root \<and> rq_exit_headers ctx' = rq_exit_headers root \<and>
    compensated cause root (hk_abort hooks) comp \<and> rq_extensions ctx' = rq_extensions comp \<and>
    lc_termination_hint (rq_lifecycle ctx') \<noteq> None"
proof -
  from hooks_dichotomy [of plugins "hk_dispatch hooks" ctx] assms(2) obtain pre h post c cause response ctx1 where
    h: "hk_dispatch hooks = pre @ h # post" "hooks_clear plugins ctx pre c" "\<not> clear_call plugins h c" "ac_hook_name cause = dh_name h"
      "case dh_policy h of FailClosed r \<Rightarrow> response = r | Continue \<Rightarrow> response = forbidden_response"
    and f: "fold (run_hook plugins) (hk_dispatch hooks) (None, ctx) = (Some (cause, response), ctx1)" by auto
  have run: "run_dispatch_hooks print hooks plugins ctx = (False, abort_dispatch print (hk_abort hooks) cause response ctx1)"
    by (simp add: run_dispatch_hooks_def f)
  have "case dh_policy h of
       FailClosed r \<Rightarrow> response = r \<and> (\<exists>a \<in> set (hk_abort hooks). ah_domain a = dh_domain h)
     | Continue \<Rightarrow> response = forbidden_response"
    using h(1,5) assms(1) by (auto simp: try_with_async_lifecycle_hooks_def split: if_splits DispatchFailurePolicy.splits)
  with abort_dispatch_root [where ctx = ctx1 and print = print and response = response and handlers = "hk_abort hooks" and cause = cause] h(1-4) f run show ?thesis
    unfolding Let_def by (elim exE conjE, intro exI conjI) assumption+
qed

text \<open>
  A budget hook that fails closed and times out after counting one, and a compensator that gives the
  count back and tries to answer 200.
\<close>

definition ex_response :: DispatchFailureResponse where
  "ex_response = \<lparr>fr_status = 503, fr_code = ''budget_unavailable'', fr_message = ''Budget unavailable''\<rparr>"

definition ex_hook :: "nat RequestDispatchHook" where
  "ex_hook = \<lparr>dh_name = ''budget'', dh_domain = ''budget'', dh_policy = FailClosed ex_response,
     dh_before = (\<lambda>ps ctx. (HookTimeout, ctx\<lparr>rq_extensions := rq_extensions ctx + 1\<rparr>))\<rparr>"

definition ex_compensator :: "nat RequestDispatchAbortHandler" where
  "ex_compensator = \<lparr>ah_name = ''quota'', ah_domain = ''budget'',
     ah_compensate = (\<lambda>cause ctx. (HookOk, ctx\<lparr>rq_exit_status := Some 200, rq_extensions := rq_extensions ctx - 1\<rparr>))\<rparr>"

definition ex_hooks :: "nat lifecycle_hooks" where
  "ex_hooks = \<lparr>hk_dispatch = [ex_hook], hk_abort = [ex_compensator], hk_finalizers = []\<rparr>"

theorem refused_dispatch_keeps_root_cause_witness:
  "\<exists>ctx'. run_dispatch_hooks (\<lambda>v. ''{}'') ex_hooks [] (request_ctx_new (lifecycle_new ''r1'' 0 0) 7) = (False, ctx') \<and>
     rq_short_circuited ctx' \<and> rq_exit_status ctx' = Some 503 \<and> rq_extensions ctx' = 7"
proof -
  let ?ctx = "request_ctx_new (lifecycle_new ''r1'' 0 0) 7 :: nat RequestCtx"
  have built: "try_with_async_lifecycle_hooks [ex_hook] [ex_compensator] [] = Inr ex_hooks"
    by (simp add: try_with_async_lifecycle_hooks_def ex_hooks_def ex_hook_def ex_compensator_def)
  have stuck: "\<nexists>ctx'. hooks_clear [] ?ctx (hk_dispatch ex_hooks) ctx'"
    by (auto simp: ex_hooks_def ex_hook_def hooks_clear_cons)
  have f: "fold (run_hook []) (hk_dispatch ex_hooks) (None, ?ctx) =
      (Some (\<lparr>ac_hook_name = ''budget'', ac_kind = AbortTimeout\<rparr>, ex_response),
       ?ctx\<lparr>rq_extensions := 8, rq_upstream_dispatch_forbidden := True\<rparr>)"
    by (simp add: ex_hooks_def ex_hook_def run_hook_def or_abort_def forbid_upstream_dispatch_def request_ctx_new_def)
  show ?thesis
    using refused_dispatch_keeps_root_cause [OF built stuck, of "\<lambda>v. ''{}''"] unfolding f
    by (auto simp: request_ctx_new_def set_dispatch_failure_response_def forbid_upstream_dispatch_def ex_response_def
        compensated_cons ex_hooks_def ex_compensator_def)
qed

end
