(* ===== verification/Traditional_Router.thy ===== *)
theory Traditional_Router
  imports Routing_Types
begin

text \<open>
  The traditional router of \<open>kong-router/src/traditional.rs\<close>: routes are compiled to
  \<open>ProcessedRoute\<close>s, sorted, grouped into categories by their match rules, and searched category
  by category; a cache sits in front of the search.

  The regular expression engine \<open>rx\<close>, the iteration order \<open>iter\<close> of the hash map of
  categories and the eviction of the cache are parameters. The main results: the category search is
  a linear search of the routes in one fixed order, whatever the hash map's order; the comparison
  functions are total preorders; prefix paths match whole segments, the longest first; and what the
  cache may and may not return.
\<close>

unbundle bit_operations_syntax

section \<open>Processed routes\<close>

definition MATCH_HOST :: u32 where "MATCH_HOST = 0x40"
definition MATCH_HEADER :: u32 where "MATCH_HEADER = 0x20"
definition MATCH_URI :: u32 where "MATCH_URI = 0x10"
definition MATCH_METHOD :: u32 where "MATCH_METHOD = 0x08"
definition MATCH_SNI :: u32 where "MATCH_SNI = 0x04"
definition SUB_HAS_REGEX_URI :: u32 where "SUB_HAS_REGEX_URI = 0x01"
definition SUB_PLAIN_HOSTS_ONLY :: u32 where "SUB_PLAIN_HOSTS_ONLY = 0x02"

lemmas match_consts = MATCH_HOST_def MATCH_HEADER_def MATCH_URI_def MATCH_METHOD_def MATCH_SNI_def

record 're HeaderMatcher =
  hm_name :: string
  hm_values :: "string list"
  hm_regex_pattern :: "'re option"

record 're ProcessedRoute =
  pr_route_id :: uuid
  pr_service_id :: "uuid option"
  pr_name :: "string option"
  pr_match_weight :: u32
  pr_submatch_weight :: u32
  pr_match_rules :: u32
  pr_plain_hosts :: "string list"
  pr_wildcard_hosts :: "(string \<times> 're) list"
  pr_plain_hosts_only :: bool
  pr_prefix_paths :: "string list"
  pr_regex_paths :: "(string \<times> 're) list"
  pr_max_uri_length :: nat
  pr_methods :: "string list"
  pr_headers :: "'re HeaderMatcher list"
  pr_header_count :: nat
  pr_snis :: "string list"
  pr_regex_priority :: int
  pr_created_at :: int
  pr_strip_path :: bool
  pr_preserve_host :: bool
  pr_path_handling :: PathHandling
  pr_protocols :: "string list"
  pr_request_buffering :: bool
  pr_response_buffering :: bool

record Category =
  cat_match_rules :: u32
  cat_match_weight :: u32
  cat_routes :: "nat list"

record 're TraditionalRouter =
  tr_routes :: "'re ProcessedRoute list"
  tr_categories :: "Category list"
  tr_host_index :: "(string \<times> nat list) list"
  tr_path_index :: "(string \<times> nat list) list"
  tr_method_index :: "(string \<times> nat list) list"
  tr_sni_index :: "(string \<times> nat list) list"

text \<open>A criterion counts when its list is given and not empty.\<close>

definition given :: "'a list option \<Rightarrow> bool" where
  "given xs = (case xs of None \<Rightarrow> False | Some l \<Rightarrow> l \<noteq> [])"

definition items :: "'a list option \<Rightarrow> 'a list" where
  "items xs = (case xs of None \<Rightarrow> [] | Some l \<Rightarrow> l)"

definition wildcard_regex :: "string \<Rightarrow> string" where
  "wildcard_regex host_lower = ''^'' @ replace_char (CHR ''*'') ''.+'' (replace_char (CHR ''.'') [CHR 0x5C, CHR ''.''] host_lower) @ ''$''"

definition is_wildcard :: "string \<Rightarrow> bool" where
  "is_wildcard host = (CHR ''*'' \<in> set host)"

definition plain_hosts_of :: "string list option \<Rightarrow> string list" where
  "plain_hosts_of hosts = filter (\<lambda>h. \<not> is_wildcard h) (map to_lowercase (items hosts))"

definition wildcard_hosts_of :: "'re regex_engine \<Rightarrow> string list option \<Rightarrow> (string \<times> 're) list" where
  "wildcard_hosts_of rx hosts =
     List.map_filter (\<lambda>h. map_option (\<lambda>re. (h, re)) (rx_new rx (wildcard_regex h)))
       (filter is_wildcard (map to_lowercase (items hosts)))"

definition plain_hosts_only_of :: "string list option \<Rightarrow> bool" where
  "plain_hosts_only_of hosts = (\<not> list_ex is_wildcard (map to_lowercase (items hosts)))"

definition prefix_paths_of :: "string list option \<Rightarrow> string list" where
  "prefix_paths_of paths =
     sort_by (\<lambda>a b. cmp (length b) (length a)) (filter (\<lambda>p. strip_prefix_str ''~'' p = None) (items paths))"

definition regex_paths_of :: "'re regex_engine \<Rightarrow> string list option \<Rightarrow> (string \<times> 're) list" where
  "regex_paths_of rx paths =
     List.map_filter (\<lambda>p. case strip_prefix_str ''~'' p of
         None \<Rightarrow> None
       | Some pattern \<Rightarrow> map_option (\<lambda>re. (pattern, re)) (rx_new rx pattern)) (items paths)"

definition max_uri_length_of :: "string list option \<Rightarrow> nat" where
  "max_uri_length_of paths =
     foldl (\<lambda>m p. if strip_prefix_str ''~'' p = None then max m (length p) else m) 0 (items paths)"

definition header_matcher :: "'re regex_engine \<Rightarrow> string \<times> string list \<Rightarrow> 're HeaderMatcher" where
  "header_matcher rx e =
     \<lparr>hm_name = to_lowercase (fst e),
      hm_values = map to_lowercase (filter (\<lambda>v. strip_prefix_str ''~*'' v = None) (snd e)),
      hm_regex_pattern = foldl (\<lambda>re v. case strip_prefix_str ''~*'' v of
          Some pattern \<Rightarrow> rx_new rx pattern | None \<Rightarrow> re) None (snd e)\<rparr>"

definition flag :: "bool \<Rightarrow> u32 \<Rightarrow> u32" where
  "flag b v = (if b then v else 0)"

definition match_rules_of :: "Route \<Rightarrow> u32" where
  "match_rules_of r =
     flag (given (rt_hosts r)) MATCH_HOST OR flag (given (rt_paths r)) MATCH_URI OR
     flag (given (rt_methods r)) MATCH_METHOD OR flag (given (rt_headers r)) MATCH_HEADER OR
     flag (given (rt_snis r)) MATCH_SNI"

definition match_weight_of :: "Route \<Rightarrow> u32" where
  "match_weight_of r =
     flag (given (rt_hosts r)) 1 + flag (given (rt_paths r)) 1 + flag (given (rt_methods r)) 1 +
     flag (given (rt_headers r)) 1 + flag (given (rt_snis r)) 1"

definition submatch_weight_of :: "Route \<Rightarrow> u32" where
  "submatch_weight_of r =
     flag (plain_hosts_only_of (rt_hosts r) \<and> plain_hosts_of (rt_hosts r) \<noteq> []) SUB_PLAIN_HOSTS_ONLY OR
     flag (list_ex (\<lambda>p. strip_prefix_str ''~'' p \<noteq> None) (items (rt_paths r))) SUB_HAS_REGEX_URI"

definition process_route :: "'re regex_engine \<Rightarrow> Route \<Rightarrow> 're ProcessedRoute option" where
  "process_route rx r = Some
     \<lparr>pr_route_id = rt_id r, pr_service_id = rt_service r, pr_name = rt_name r,
      pr_match_weight = match_weight_of r, pr_submatch_weight = submatch_weight_of r,
      pr_match_rules = match_rules_of r,
      pr_plain_hosts = plain_hosts_of (rt_hosts r), pr_wildcard_hosts = wildcard_hosts_of rx (rt_hosts r),
      pr_plain_hosts_only = plain_hosts_only_of (rt_hosts r),
      pr_prefix_paths = prefix_paths_of (rt_paths r), pr_regex_paths = regex_paths_of rx (rt_paths r),
      pr_max_uri_length = max_uri_length_of (rt_paths r),
      pr_methods = map to_uppercase (items (rt_methods r)),
      pr_headers = map (header_matcher rx) (items (rt_headers r)),
      pr_header_count = length (items (rt_headers r)),
      pr_snis = map (trim_end_matches (CHR ''.'')) (items (rt_snis r)),
      pr_regex_priority = rt_regex_priority r, pr_created_at = rt_created_at r,
      pr_strip_path = rt_strip_path r, pr_preserve_host = rt_preserve_host r,
      pr_path_handling = rt_path_handling r, pr_protocols = map protocol_to_string (rt_protocols r),
      pr_request_buffering = rt_request_buffering r, pr_response_buffering = rt_response_buffering r\<rparr>"

definition sort_routes :: "'re ProcessedRoute \<Rightarrow> 're ProcessedRoute \<Rightarrow> ordering" where
  "sort_routes a b =
     (let c1 = cmp (pr_submatch_weight b) (pr_submatch_weight a)
      in if c1 \<noteq> Equal then c1
         else let c2 = cmp (pr_header_count b) (pr_header_count a)
              in if c2 \<noteq> Equal then c2
                 else let c3 = (if pr_submatch_weight a AND SUB_HAS_REGEX_URI \<noteq> 0
                                then cmp (pr_regex_priority b) (pr_regex_priority a) else Equal)
                      in if c3 \<noteq> Equal then c3
                         else let c4 = cmp (pr_max_uri_length b) (pr_max_uri_length a)
                              in if c4 \<noteq> Equal then c4 else cmp (pr_created_at a) (pr_created_at b))"

section \<open>Building the router\<close>

definition is_http_route :: "Route \<Rightarrow> bool" where
  "is_http_route r = list_ex (\<lambda>p. p \<in> {Http, Https, Grpc, Grpcs, Ws, Wss}) (rt_protocols r)"

definition processed_routes :: "'re regex_engine \<Rightarrow> Route list \<Rightarrow> 're ProcessedRoute list" where
  "processed_routes rx routes = List.map_filter (\<lambda>r. if is_http_route r then process_route rx r else None) routes"

definition push_entry :: "'k \<Rightarrow> nat \<Rightarrow> ('k \<times> nat list) list \<Rightarrow> ('k \<times> nat list) list" where
  "push_entry k i m = AList.update k ((case map_of m k of None \<Rightarrow> [] | Some is \<Rightarrow> is) @ [i]) m"

definition build_index :: "('a \<Rightarrow> 'k list) \<Rightarrow> 'a list \<Rightarrow> ('k \<times> nat list) list" where
  "build_index keys xs =
     foldl (\<lambda>m (i, x). foldl (\<lambda>m' k. push_entry k i m') m (keys x)) [] (List.enumerate 0 xs)"

definition make_category :: "'re ProcessedRoute list \<Rightarrow> u32 \<times> nat list \<Rightarrow> Category" where
  "make_category rs e =
     \<lparr>cat_match_rules = fst e, cat_match_weight = pr_match_weight (rs ! hd (snd e)), cat_routes = snd e\<rparr>"

definition cmp_category :: "Category \<Rightarrow> Category \<Rightarrow> ordering" where
  "cmp_category a b =
     then_with (cmp (cat_match_weight b) (cat_match_weight a)) (cmp (cat_match_rules b) (cat_match_rules a))"

definition router_new ::
    "'re regex_engine \<Rightarrow> ((u32 \<times> nat list) list \<Rightarrow> (u32 \<times> nat list) list) \<Rightarrow> Route list \<Rightarrow> 're TraditionalRouter" where
  "router_new rx iter routes =
     (let processed = sort_by sort_routes (processed_routes rx routes);
          category_map = build_index (\<lambda>r. [pr_match_rules r]) processed
      in \<lparr>tr_routes = processed,
          tr_categories = sort_by cmp_category (map (make_category processed) (iter category_map)),
          tr_host_index = build_index pr_plain_hosts processed,
          tr_path_index = build_index pr_prefix_paths processed,
          tr_method_index = build_index (\<lambda>r. remdups (pr_methods r)) processed,
          tr_sni_index = build_index (\<lambda>r. remdups (pr_snis r)) processed\<rparr>)"

definition route_count :: "'re TraditionalRouter \<Rightarrow> nat" where
  "route_count t = length (tr_routes t)"

section \<open>Matching a request\<close>

definition match_host :: "'re regex_engine \<Rightarrow> 're ProcessedRoute \<Rightarrow> string \<Rightarrow> string \<Rightarrow> bool" where
  "match_host rx r req_host req_host_no_port =
     (req_host \<in> set (pr_plain_hosts r) \<or> req_host_no_port \<in> set (pr_plain_hosts r) \<or>
      list_ex (\<lambda>e. rx_is_match rx (snd e) req_host \<or> rx_is_match rx (snd e) req_host_no_port) (pr_wildcard_hosts r))"

definition match_header :: "'re regex_engine \<Rightarrow> (string \<times> string) list \<Rightarrow> 're HeaderMatcher \<Rightarrow> bool" where
  "match_header rx req_headers h =
     (case map_of req_headers (hm_name h) of
        None \<Rightarrow> False
      | Some val \<Rightarrow>
          to_lowercase val \<in> set (hm_values h) \<or>
          (case hm_regex_pattern h of None \<Rightarrow> False | Some re \<Rightarrow> rx_is_match rx re (to_lowercase val)))"

definition match_headers :: "'re regex_engine \<Rightarrow> 're ProcessedRoute \<Rightarrow> (string \<times> string) list \<Rightarrow> bool" where
  "match_headers rx r req_headers = list_all (match_header rx req_headers) (pr_headers r)"

definition prefix_path_matches :: "string \<Rightarrow> string \<Rightarrow> bool" where
  "prefix_path_matches req_uri path =
     (req_uri = path \<or> starts_with req_uri (trim_end_matches (CHR ''/'') path @ ''/'') \<or> path = ''/'')"

definition match_uri :: "'re regex_engine \<Rightarrow> 're ProcessedRoute \<Rightarrow> string \<Rightarrow> bool" where
  "match_uri rx r req_uri =
     (list_ex (\<lambda>e. rx_is_match rx (snd e) req_uri) (pr_regex_paths r) \<or>
      list_ex (prefix_path_matches req_uri) (pr_prefix_paths r))"

definition protocol_matches :: "string \<Rightarrow> string \<Rightarrow> bool" where
  "protocol_matches scheme p =
     (p = scheme \<or> p = ''grpc'' \<and> scheme = ''http'' \<or> p = ''grpcs'' \<and> scheme = ''https'' \<or>
      p = ''ws'' \<and> scheme = ''http'' \<or> p = ''wss'' \<and> scheme = ''https'')"

definition match_sni :: "'re ProcessedRoute \<Rightarrow> RequestContext \<Rightarrow> bool" where
  "match_sni r ctx =
     (if rc_scheme ctx \<noteq> ''http'' \<and> rc_scheme ctx \<noteq> ''https''
      then (case rc_sni ctx of Some sni \<Rightarrow> sni \<in> set (pr_snis r) | None \<Rightarrow> False)
      else True)"

definition match_route ::
    "'re regex_engine \<Rightarrow> 're ProcessedRoute \<Rightarrow> RequestContext \<Rightarrow> string \<Rightarrow> string \<Rightarrow> bool" where
  "match_route rx r ctx req_host req_host_no_port =
     (if pr_match_rules r AND MATCH_HOST \<noteq> 0 \<and> \<not> match_host rx r req_host req_host_no_port then False
      else if pr_match_rules r AND MATCH_HEADER \<noteq> 0 \<and> \<not> match_headers rx r (rc_headers ctx) then False
      else if pr_match_rules r AND MATCH_URI \<noteq> 0 \<and> \<not> match_uri rx r (rc_uri ctx) then False
      else if pr_match_rules r AND MATCH_METHOD \<noteq> 0 \<and> to_uppercase (rc_method ctx) \<notin> set (pr_methods r) then False
      else if pr_match_rules r AND MATCH_SNI \<noteq> 0 \<and> \<not> match_sni r ctx then False
      else if pr_protocols r \<noteq> [] \<and> \<not> list_ex (protocol_matches (rc_scheme ctx)) (pr_protocols r) then False
      else True)"

text \<open>The groups of a match that took part in it, in order, and the named ones among them.\<close>

definition captures_of :: "string option list \<Rightarrow> string option list \<Rightarrow> UriCaptures" where
  "captures_of names caps =
     (let groups = List.map_filter (\<lambda>(name, g). map_option (\<lambda>v. (name, v)) g) (zip (tl names) (tl caps))
      in \<lparr>uc_named = foldl (\<lambda>m (name, v). case name of None \<Rightarrow> m | Some n \<Rightarrow> AList.update n v m) [] groups,
          uc_unnamed = map snd groups\<rparr>)"

fun regex_match :: "'re regex_engine \<Rightarrow> (string \<times> 're) list \<Rightarrow> string \<Rightarrow> (string \<times> UriCaptures) option" where
  "regex_match rx [] req_uri = None"
| "regex_match rx ((pattern, re) # rest) req_uri =
     (case rx_captures rx re req_uri of
        None \<Rightarrow> regex_match rx rest req_uri
      | Some caps \<Rightarrow> Some ((case caps of Some m # _ \<Rightarrow> m | _ \<Rightarrow> pattern), captures_of (rx_names rx re) caps))"

definition longest_prefix :: "string \<Rightarrow> string list \<Rightarrow> string option" where
  "longest_prefix req_uri paths =
     foldl (\<lambda>best path. if prefix_path_matches req_uri path \<and>
         (case best of None \<Rightarrow> True | Some b \<Rightarrow> length b < length path) then Some path else best) None paths"

definition find_matched_path_and_captures ::
    "'re regex_engine \<Rightarrow> 're ProcessedRoute \<Rightarrow> string \<Rightarrow> string option \<times> UriCaptures" where
  "find_matched_path_and_captures rx r req_uri =
     (case regex_match rx (pr_regex_paths r) req_uri of
        Some (m, caps) \<Rightarrow> (Some m, caps)
      | None \<Rightarrow> (longest_prefix req_uri (pr_prefix_paths r), no_captures))"

definition route_match :: "'re regex_engine \<Rightarrow> 're ProcessedRoute \<Rightarrow> RequestContext \<Rightarrow> RouteMatch" where
  "route_match rx r ctx =
     (let (matched_path, caps) = find_matched_path_and_captures rx r (rc_uri ctx)
      in \<lparr>rm_route_id = pr_route_id r, rm_service_id = pr_service_id r, rm_route_name = pr_name r,
          rm_strip_path = pr_strip_path r, rm_preserve_host = pr_preserve_host r,
          rm_path_handling = pr_path_handling r, rm_matched_path = matched_path, rm_protocols = pr_protocols r,
          rm_request_buffering = pr_request_buffering r, rm_response_buffering = pr_response_buffering r,
          rm_uri_captures = caps\<rparr>)"

fun search_categories ::
    "'re regex_engine \<Rightarrow> 're ProcessedRoute list \<Rightarrow> RequestContext \<Rightarrow> string \<Rightarrow> string \<Rightarrow> Category list \<Rightarrow> RouteMatch option" where
  "search_categories rx rs ctx h hn [] = None"
| "search_categories rx rs ctx h hn (cat # cats) =
     (case List.find (\<lambda>i. match_route rx (rs ! i) ctx h hn) (cat_routes cat) of
        Some i \<Rightarrow> Some (route_match rx (rs ! i) ctx)
      | None \<Rightarrow> search_categories rx rs ctx h hn cats)"

definition find_route_uncached ::
    "'re regex_engine \<Rightarrow> 're TraditionalRouter \<Rightarrow> RequestContext \<Rightarrow> string \<Rightarrow> string \<Rightarrow> RouteMatch option" where
  "find_route_uncached rx t ctx h hn = search_categories rx (tr_routes t) ctx h hn (tr_categories t)"

section \<open>The cache in front of the search\<close>

definition host_lower :: "RequestContext \<Rightarrow> string" where
  "host_lower ctx = to_lowercase (rc_host ctx)"

definition host_no_port :: "RequestContext \<Rightarrow> string" where
  "host_no_port ctx = hd (split_char (CHR '':'') (host_lower ctx))"

definition header_part :: "RequestContext \<Rightarrow> string" where
  "header_part ctx =
     join ''&'' (map (\<lambda>(k, v). k @ ''='' @ v) (sort_by (\<lambda>a b. cmp_string (fst a) (fst b)) (rc_headers ctx)))"

definition cache_key :: "RequestContext \<Rightarrow> string" where
  "cache_key ctx =
     rc_method ctx @ [CHR 0x00] @ host_no_port ctx @ [CHR 0x00] @ rc_uri ctx @ [CHR 0x00] @ header_part ctx"

definition find_route ::
    "'re regex_engine \<Rightarrow> (route_cache \<Rightarrow> route_cache) \<Rightarrow> 're TraditionalRouter \<Rightarrow> RequestContext \<Rightarrow> route_cache \<Rightarrow>
     RouteMatch option \<times> route_cache" where
  "find_route rx evict t ctx c =
     cached_lookup evict cache_key (\<lambda>q. find_route_uncached rx t q (host_lower q) (host_no_port q)) ctx c"

section \<open>The orders are total preorders\<close>

lemma comparator_cmp_key_rev: "comparator (\<lambda>p q. cmp (f q) (f p))"
  using comparator.flip [OF comparator_cmp_key [of f]] by simp

definition effective_priority :: "'re ProcessedRoute \<Rightarrow> int" where
  "effective_priority r = (if pr_submatch_weight r AND SUB_HAS_REGEX_URI \<noteq> 0 then pr_regex_priority r else 0)"

lemma sort_routes_lex:
  "sort_routes a b =
     then_with (cmp (pr_submatch_weight b) (pr_submatch_weight a))
      (then_with (cmp (pr_header_count b) (pr_header_count a))
       (then_with (cmp (effective_priority b) (effective_priority a))
        (then_with (cmp (pr_max_uri_length b) (pr_max_uri_length a)) (cmp (pr_created_at a) (pr_created_at b)))))"
proof -
  have t: "(if c \<noteq> Equal then c else d) = then_with c d" for c d by (cases c) auto
  have e: "cmp x x = Equal" for x :: int by simp
  show ?thesis
    by (cases "pr_submatch_weight b = pr_submatch_weight a")
      (auto simp: sort_routes_def Let_def t effective_priority_def e cmp_def)
qed

interpretation by_route: comparator "sort_routes :: 're ProcessedRoute \<Rightarrow> 're ProcessedRoute \<Rightarrow> ordering"
  unfolding sort_routes_lex
  by (intro comparator_then_with comparator_cmp_key comparator_cmp_key_rev)

interpretation by_category: comparator cmp_category
  unfolding cmp_category_def by (intro comparator_then_with comparator_cmp_key_rev)

interpretation by_length: comparator "\<lambda>a b :: string. cmp (length b) (length a)"
  by (rule comparator_cmp_key_rev)

text \<open>
  The order in which the router prefers routes: number of criteria, then the criteria themselves,
  then \<open>sort_routes\<close>.
\<close>

definition route_order :: "'re ProcessedRoute \<Rightarrow> 're ProcessedRoute \<Rightarrow> ordering" where
  "route_order a b =
     then_with (cmp (pr_match_weight b) (pr_match_weight a))
       (then_with (cmp (pr_match_rules b) (pr_match_rules a)) (sort_routes a b))"

interpretation by_order: comparator "route_order :: 're ProcessedRoute \<Rightarrow> 're ProcessedRoute \<Rightarrow> ordering"
  unfolding route_order_def
  by (intro comparator_then_with comparator_cmp_key_rev by_route.comparator_axioms)

section \<open>Grouping into categories\<close>

lemma build_index_snoc:
  "build_index (\<lambda>r. [key r]) (xs @ [x]) = push_entry (key x) (length xs) (build_index (\<lambda>r. [key r]) xs)"
  by (simp add: build_index_def enumerate_append_eq)

lemma build_index_groups:
  "map_of (build_index (\<lambda>r. [key r]) xs) k =
     (if k \<in> key ` set xs then Some (filter (\<lambda>i. key (xs ! i) = k) [0..<length xs]) else None)"
proof (induction xs rule: rev_induct)
  case (snoc x xs)
  have same: "filter (\<lambda>i. key ((xs @ [x]) ! i) = k) [0..<length xs] = filter (\<lambda>i. key (xs ! i) = k) [0..<length xs]"
    by (rule filter_cong [OF refl]) (simp add: nth_append)
  have none: "k \<notin> key ` set xs \<Longrightarrow> filter (\<lambda>i. key (xs ! i) = k) [0..<length xs] = []"
    by (auto simp: filter_empty_conv)
  show ?case
    using snoc none same unfolding build_index_snoc push_entry_def by (auto simp: update_conv')
qed (simp add: build_index_def)

lemma build_index_distinct: "distinct (map fst (build_index (\<lambda>r. [key r]) xs))"
proof (induction xs rule: rev_induct)
  case (snoc x xs)
  then show ?case unfolding build_index_snoc push_entry_def by (rule distinct_update)
qed (simp add: build_index_def)

lemma filter_by_index: "map (nth xs) (filter (\<lambda>i. P (xs ! i)) [0..<length xs]) = filter P xs"
proof (induction xs rule: rev_induct)
  case (snoc x xs)
  have "filter (\<lambda>i. P ((xs @ [x]) ! i)) [0..<length xs] = filter (\<lambda>i. P (xs ! i)) [0..<length xs]"
    by (rule filter_cong [OF refl]) (simp add: nth_append)
  moreover have "map ((!) (xs @ [x])) (filter (\<lambda>i. P (xs ! i)) [0..<length xs]) = map ((!) xs) (filter (\<lambda>i. P (xs ! i)) [0..<length xs])"
    by (rule map_cong [OF refl]) (auto simp: nth_append)
  ultimately show ?case using snoc by simp
qed simp

text \<open>The categories of a sorted list of routes, as the constructor computes them.\<close>

definition categories_of ::
    "((u32 \<times> nat list) list \<Rightarrow> (u32 \<times> nat list) list) \<Rightarrow> 're ProcessedRoute list \<Rightarrow> Category list" where
  "categories_of iter rs = sort_by cmp_category (map (make_category rs) (iter (build_index (\<lambda>r. [pr_match_rules r]) rs)))"

definition weight_by_rules :: "'re ProcessedRoute list \<Rightarrow> bool" where
  "weight_by_rules rs = (\<forall>a \<in> set rs. \<forall>b \<in> set rs. pr_match_rules a = pr_match_rules b \<longrightarrow> pr_match_weight a = pr_match_weight b)"

lemma category_facts:
  assumes it: "iterates iter (build_index (\<lambda>r. [pr_match_rules r]) rs)"
    and c: "c \<in> set (categories_of iter rs)"
  shows "map (nth rs) (cat_routes c) = filter (\<lambda>r. pr_match_rules r = cat_match_rules c) rs"
    and "weight_by_rules rs \<Longrightarrow> r \<in> set rs \<Longrightarrow> pr_match_rules r = cat_match_rules c \<Longrightarrow> pr_match_weight r = cat_match_weight c"
proof -
  let ?m = "build_index (\<lambda>r. [pr_match_rules r]) rs"
  have "set (iter ?m) = set ?m" using it unfolding iterates_def by (rule mset_eq_setD)
  with c have "c \<in> make_category rs ` set ?m" unfolding categories_of_def set_sort_by set_map by simp
  then obtain k "is" where e: "(k, is) \<in> set ?m" "c = make_category rs (k, is)" by (elim imageE) auto
  have "map_of ?m k = Some is" by (rule map_of_is_SomeI [OF build_index_distinct e(1)])
  then have is_eq: "is = filter (\<lambda>i. pr_match_rules (rs ! i) = k) [0..<length rs]" and ex: "k \<in> pr_match_rules ` set rs"
    unfolding build_index_groups by (simp_all split: if_splits)
  show 1: "map (nth rs) (cat_routes c) = filter (\<lambda>r. pr_match_rules r = cat_match_rules c) rs"
    using filter_by_index [of rs "\<lambda>r. pr_match_rules r = k"] by (simp add: e(2) make_category_def is_eq)
  assume w: "weight_by_rules rs" "r \<in> set rs" "pr_match_rules r = cat_match_rules c"
  have "filter (\<lambda>r. pr_match_rules r = k) rs \<noteq> []" using ex by (auto simp: filter_empty_conv)
  moreover have nth: "map (nth rs) is = filter (\<lambda>r. pr_match_rules r = k) rs"
    using 1 unfolding e(2) make_category_def by simp
  ultimately have "is \<noteq> []" by (metis list.simps(8))
  then have "rs ! hd is \<in> set (map (nth rs) is)" by simp
  then have "rs ! hd is \<in> set rs" "pr_match_rules (rs ! hd is) = k" unfolding nth by simp_all
  moreover have "pr_match_rules r = k" using w(3) unfolding e(2) make_category_def by simp
  ultimately have "pr_match_weight r = pr_match_weight (rs ! hd is)" using w(1,2) unfolding weight_by_rules_def by blast
  then show "pr_match_weight r = cat_match_weight c" unfolding e(2) make_category_def by simp
qed

lemma categories_distinct:
  assumes "iterates iter (build_index (\<lambda>r. [pr_match_rules r]) rs)"
  shows "distinct (map cat_match_rules (categories_of iter rs))"
    and "cat_match_rules ` set (categories_of iter rs) = pr_match_rules ` set rs"
proof -
  let ?m = "build_index (\<lambda>r. [pr_match_rules r]) rs"
  have "mset (map cat_match_rules (categories_of iter rs)) = mset (map fst (iter ?m))"
    by (simp add: categories_of_def mset_map image_mset.compositionality comp_def make_category_def)
  also have "\<dots> = mset (map fst ?m)" using assms by (simp add: mset_map iterates_def)
  finally have m: "mset (map cat_match_rules (categories_of iter rs)) = mset (map fst ?m)" .
  then show "distinct (map cat_match_rules (categories_of iter rs))"
    using build_index_distinct mset_eq_imp_distinct_iff by blast
  have "cat_match_rules ` set (categories_of iter rs) = fst ` set ?m"
    using m by (metis mset_eq_setD set_map)
  also have "\<dots> = pr_match_rules ` set rs"
  proof -
    have "k \<in> fst ` set ?m \<longleftrightarrow> k \<in> pr_match_rules ` set rs" for k
      using map_of_eq_None_iff [of ?m k] build_index_groups [of pr_match_rules rs k] by (auto split: if_splits)
    then show ?thesis by blast
  qed
  finally show "cat_match_rules ` set (categories_of iter rs) = pr_match_rules ` set rs" .
qed

section \<open>The category search is a search in one fixed order\<close>

lemma concat_classes:
  assumes "distinct (map f cs)" "\<And>y. y \<in> set S \<Longrightarrow> Q y \<Longrightarrow> key y = k0"
    and "k0 \<in> f ` set cs \<or> (\<forall>y \<in> set S. \<not> Q y)"
  shows "concat (map (\<lambda>c. filter Q (filter (\<lambda>y. key y = f c) S)) cs) = filter Q S"
proof (cases "\<forall>y \<in> set S. \<not> Q y")
  case True
  then show ?thesis by (induction cs) (simp_all add: filter_False)
next
  case False
  have one: "filter Q (filter (\<lambda>y. key y = f c) S) = (if f c = k0 then filter Q S else [])" for c
  proof (cases "f c = k0")
    case True
    then show ?thesis using assms(2) by (auto intro!: filter_cong)
  next
    case False
    then show ?thesis using assms(2) by (auto simp: filter_empty_conv)
  qed
  have "concat (map (\<lambda>c. if f c = k0 then filter Q S else []) ds) = (if k0 \<in> f ` set ds then filter Q S else [])"
    if "distinct (map f ds)" for ds
    using that by (induction ds) auto
  with assms False show ?thesis unfolding one by simp
qed

lemma sorted_concat:
  assumes "sorted_wrt R cs" "\<And>c. c \<in> set cs \<Longrightarrow> sorted_wrt P (g c)"
    and "\<And>c d x y. c \<in> set cs \<Longrightarrow> d \<in> set cs \<Longrightarrow> R c d \<Longrightarrow> x \<in> set (g c) \<Longrightarrow> y \<in> set (g d) \<Longrightarrow> P x y"
  shows "sorted_wrt P (concat (map g cs))"
  using assms
proof (induction cs)
  case (Cons c cs)
  then show ?case by (simp add: sorted_wrt_append) blast
qed simp

lemma in_order:
  assumes "weight_by_rules rs"
    and it: "iterates iter (build_index (\<lambda>r. [pr_match_rules r]) rs)"
    and "c \<in> set (categories_of iter rs)" "d \<in> set (categories_of iter rs)"
    and "x \<in> set rs" "pr_match_rules x = cat_match_rules c" "y \<in> set rs" "pr_match_rules y = cat_match_rules d"
  shows "route_order x y = then_with (cmp_category c d) (sort_routes x y)"
proof -
  have "pr_match_weight x = cat_match_weight c" "pr_match_weight y = cat_match_weight d"
    by (rule category_facts(2) [OF it assms(3,1,5,6)]) (rule category_facts(2) [OF it assms(4,1,7,8)])
  moreover have "then_with (then_with p q) r = then_with p (then_with q r)" for p q r by (cases p) auto
  ultimately show ?thesis by (simp add: route_order_def cmp_category_def assms(6,8))
qed

lemma categories_sorted:
  fixes ps :: "'re ProcessedRoute list"
  assumes rs: "rs = sort_by sort_routes ps" and w: "weight_by_rules rs"
    and it: "iterates iter (build_index (\<lambda>r. [pr_match_rules r]) rs)"
  shows "concat (map (\<lambda>c. map (nth rs) (cat_routes c)) (categories_of iter rs)) = sort_by route_order ps"
proof -
  let ?cs = "categories_of iter rs" and ?g = "\<lambda>c. filter (\<lambda>r. pr_match_rules r = cat_match_rules c) rs"
  note d = categories_distinct [OF it]
  have "concat (map (\<lambda>c. map (nth rs) (cat_routes c)) ?cs) = concat (map ?g ?cs)"
    by (rule arg_cong [where f = concat], rule map_cong [OF refl], rule category_facts(1) [OF it])
  also have "\<dots> = sort_by route_order ps"
  proof (rule by_order.sort_by_unique)
    show "sorted_wrt (\<lambda>p q. route_order p q \<noteq> Greater) (concat (map ?g ?cs))"
    proof (rule sorted_concat [where R = "\<lambda>c d. cmp_category c d \<noteq> Greater \<and> cat_match_rules c \<noteq> cat_match_rules d"])
      have "sorted_wrt (\<lambda>c d. cmp_category c d \<noteq> Greater) ?cs" unfolding categories_of_def by (rule by_category.sorted_sort_by)
      moreover have "sorted_wrt (\<lambda>c d. cat_match_rules c \<noteq> cat_match_rules d) ?cs"
        using d(1) by (simp add: distinct_conv_nth sorted_wrt_iff_nth_less)
      ultimately show "sorted_wrt (\<lambda>c d. cmp_category c d \<noteq> Greater \<and> cat_match_rules c \<noteq> cat_match_rules d) ?cs"
        by (simp add: sorted_wrt_iff_nth_less)
    next
      fix c assume c: "c \<in> set ?cs"
      have "sorted_wrt (\<lambda>p q. sort_routes p q \<noteq> Greater) (?g c)"
        unfolding rs by (rule sorted_wrt_filter [OF by_route.sorted_sort_by])
      then show "sorted_wrt (\<lambda>p q. route_order p q \<noteq> Greater) (?g c)"
        by (rule sorted_wrt_mono_rel [rotated]) (auto simp: in_order [OF w it c c] by_category.c_refl)
    next
      fix c d x y
      assume "c \<in> set ?cs" "d \<in> set ?cs" "cmp_category c d \<noteq> Greater \<and> cat_match_rules c \<noteq> cat_match_rules d"
        "x \<in> set (?g c)" "y \<in> set (?g d)"
      then show "route_order x y \<noteq> Greater" using in_order [OF w it, of c d x y] by (auto simp: cmp_category_def)
    qed
  next
    fix k :: "'re ProcessedRoute"
    let ?Q = "\<lambda>y. route_order y k = Equal"
    have "filter ?Q (concat (map ?g ?cs)) = concat (map (\<lambda>c. filter ?Q (?g c)) ?cs)"
      by (simp add: filter_concat comp_def)
    also have "\<dots> = filter ?Q rs"
    proof (rule concat_classes [OF d(1), where ?k0.0 = "pr_match_rules k"])
      show "pr_match_rules y = pr_match_rules k" if "?Q y" for y using that by (simp add: route_order_def)
      show "pr_match_rules k \<in> cat_match_rules ` set ?cs \<or> (\<forall>y \<in> set rs. \<not> ?Q y)"
        unfolding d(2) by (auto simp: route_order_def)
    qed
    also have "\<dots> = filter ?Q ps"
    proof -
      let ?A = "\<lambda>y. pr_match_weight k = pr_match_weight y \<and> pr_match_rules k = pr_match_rules y"
      have "filter ?Q zs = filter ?A (filter (\<lambda>y. sort_routes y k = Equal) zs)" for zs
        by (auto simp: route_order_def intro: filter_cong)
      then show ?thesis by (simp only: rs by_route.sort_by_stable)
    qed
    finally show "filter ?Q (concat (map ?g ?cs)) = filter ?Q ps" .
  qed
  finally show ?thesis .
qed

section \<open>A small routing table\<close>

text \<open>An engine that compiles no expression is enough for routes without regular expressions.\<close>

definition ex_rx :: "unit regex_engine" where
  "ex_rx = \<lparr>rx_new = (\<lambda>_. None), rx_is_match = (\<lambda>_ _. False), rx_captures = (\<lambda>_ _. None), rx_names = (\<lambda>_. [])\<rparr>"

definition ex_route :: "uuid \<Rightarrow> string \<Rightarrow> Protocol list \<Rightarrow> Route" where
  "ex_route i path ps = (route_default i)\<lparr>rt_paths := Some [path], rt_protocols := ps\<rparr>"

definition ex_request :: "string \<Rightarrow> string \<Rightarrow> RequestContext" where
  "ex_request scheme uri = \<lparr>rc_method = ''GET'', rc_uri = uri, rc_host = ''Example.com:80'', rc_scheme = scheme,
     rc_headers = [], rc_sni = None\<rparr>"

definition ex_routes :: "Route list" where
  "ex_routes = [ex_route 1 ''/api'' [Http, Https], ex_route 2 ''/api/v2'' [Https],
     (ex_route 3 ''/'' [Http])\<lparr>rt_methods := Some [''get'']\<rparr>]"

lemma iterates_rev [simp]: "iterates rev m" "iterates id m"
  by (simp_all add: iterates_def)

section \<open>What the routers of this file guarantee\<close>

lemma flag_bits:
  "(flag h MATCH_HOST OR flag u MATCH_URI OR flag m MATCH_METHOD OR flag d MATCH_HEADER OR flag n MATCH_SNI) AND MATCH_HOST \<noteq> 0 \<longleftrightarrow> h"
  "(flag h MATCH_HOST OR flag u MATCH_URI OR flag m MATCH_METHOD OR flag d MATCH_HEADER OR flag n MATCH_SNI) AND MATCH_URI \<noteq> 0 \<longleftrightarrow> u"
  "(flag h MATCH_HOST OR flag u MATCH_URI OR flag m MATCH_METHOD OR flag d MATCH_HEADER OR flag n MATCH_SNI) AND MATCH_METHOD \<noteq> 0 \<longleftrightarrow> m"
  "(flag h MATCH_HOST OR flag u MATCH_URI OR flag m MATCH_METHOD OR flag d MATCH_HEADER OR flag n MATCH_SNI) AND MATCH_HEADER \<noteq> 0 \<longleftrightarrow> d"
  "(flag h MATCH_HOST OR flag u MATCH_URI OR flag m MATCH_METHOD OR flag d MATCH_HEADER OR flag n MATCH_SNI) AND MATCH_SNI \<noteq> 0 \<longleftrightarrow> n"
  by (cases h; cases u; cases m; cases d; cases n; simp add: flag_def match_consts)+

lemma rules_given:
  "match_rules_of r AND MATCH_HOST \<noteq> 0 \<longleftrightarrow> given (rt_hosts r)" "match_rules_of r AND MATCH_URI \<noteq> 0 \<longleftrightarrow> given (rt_paths r)"
  "match_rules_of r AND MATCH_METHOD \<noteq> 0 \<longleftrightarrow> given (rt_methods r)"
  "match_rules_of r AND MATCH_HEADER \<noteq> 0 \<longleftrightarrow> given (rt_headers r)" "match_rules_of r AND MATCH_SNI \<noteq> 0 \<longleftrightarrow> given (rt_snis r)"
  unfolding match_rules_of_def by (rule flag_bits)+

lemma weight_determined: "match_rules_of r = match_rules_of q \<Longrightarrow> match_weight_of r = match_weight_of q"
  using rules_given [of r] rules_given [of q] by (simp add: match_weight_of_def)

lemma processed_routeE:
  assumes "p \<in> set (processed_routes rx routes)"
  obtains r where "r \<in> set routes" "is_http_route r" "process_route rx r = Some p"
  using assms by (auto simp: processed_routes_def List.map_filter_def split: if_splits)

lemma processed_weights: "weight_by_rules (sort_by sort_routes (processed_routes rx routes))"
  unfolding weight_by_rules_def
proof (intro ballI impI)
  fix a b
  assume "a \<in> set (sort_by sort_routes (processed_routes rx routes))" "b \<in> set (sort_by sort_routes (processed_routes rx routes))"
    and eq: "pr_match_rules a = pr_match_rules b"
  then have ab: "a \<in> set (processed_routes rx routes)" "b \<in> set (processed_routes rx routes)" by simp_all
  obtain r q where "process_route rx r = Some a" "process_route rx q = Some b"
    by (rule processed_routeE [OF ab(1)], rule processed_routeE [OF ab(2)])
  then have "pr_match_rules a = match_rules_of r" "pr_match_weight a = match_weight_of r"
    "pr_match_rules b = match_rules_of q" "pr_match_weight b = match_weight_of q" by (auto simp: process_route_def)
  with eq show "pr_match_weight a = pr_match_weight b" using weight_determined by metis
qed

lemma find_map: "List.find P (map f xs) = map_option f (List.find (\<lambda>x. P (f x)) xs)"
  by (induction xs) auto

lemma search_categories_find:
  "search_categories rx rs ctx h hn cs =
     map_option (\<lambda>r. route_match rx r ctx)
       (List.find (\<lambda>r. match_route rx r ctx h hn) (concat (map (\<lambda>c. map (nth rs) (cat_routes c)) cs)))"
  by (induction cs) (auto simp: find_append find_map split: option.splits)

lemma router_categories:
  "tr_categories (router_new rx iter routes) = categories_of iter (sort_by sort_routes (processed_routes rx routes))"
  "tr_routes (router_new rx iter routes) = sort_by sort_routes (processed_routes rx routes)"
  by (simp_all add: router_new_def categories_of_def Let_def)

text \<open>
  C19. Searching the categories is searching the routes one by one in the order of
  \<open>route_order\<close>: the grouping is an optimisation that changes no answer, whatever the iteration
  order of the hash map it is built from.
\<close>

theorem category_search_is_ordered_search:
  assumes "iterates iter (build_index (\<lambda>r. [pr_match_rules r]) (sort_by sort_routes (processed_routes rx routes)))"
  shows "find_route_uncached rx (router_new rx iter routes) ctx h hn =
     map_option (\<lambda>r. route_match rx r ctx)
       (List.find (\<lambda>r. match_route rx r ctx h hn) (sort_by route_order (processed_routes rx routes)))"
  unfolding find_route_uncached_def search_categories_find router_categories
  by (simp only: categories_sorted [OF refl processed_weights assms])

theorem category_search_is_ordered_search_witness:
  "map_option rm_route_id (find_route_uncached ex_rx (router_new ex_rx rev ex_routes) (ex_request ''http'' ''/api/x'')
     ''example.com:80'' ''example.com'') = Some 3"
  unfolding category_search_is_ordered_search [of rev ex_rx ex_routes, OF iterates_rev(1)] by code_simp

text \<open>
  C35. The router takes the best route there is: it finds a route exactly when some HTTP route
  matches, and no matching route comes before the chosen one in the order of preference; in
  particular none has more criteria.
\<close>

theorem chosen_route_is_best:
  assumes "iterates iter (build_index (\<lambda>r. [pr_match_rules r]) (sort_by sort_routes (processed_routes rx routes)))"
  shows "case find_route_uncached rx (router_new rx iter routes) ctx h hn of
       None \<Rightarrow> \<forall>r \<in> set (processed_routes rx routes). \<not> match_route rx r ctx h hn
     | Some m \<Rightarrow> \<exists>r \<in> set (processed_routes rx routes). m = route_match rx r ctx \<and> match_route rx r ctx h hn \<and>
         (\<forall>q \<in> set (processed_routes rx routes). match_route rx q ctx h hn \<longrightarrow>
            route_order r q \<noteq> Greater \<and> pr_match_weight q \<le> pr_match_weight r)"
proof -
  let ?P = "\<lambda>r. match_route rx r ctx h hn" and ?L = "sort_by route_order (processed_routes rx routes)"
  have w: "route_order r q \<noteq> Greater \<Longrightarrow> pr_match_weight q \<le> pr_match_weight r" for r q :: "'a ProcessedRoute"
    by (auto simp: route_order_def not_less)
  have eq: "find_route_uncached rx (router_new rx iter routes) ctx h hn = map_option (\<lambda>r. route_match rx r ctx) (List.find ?P ?L)"
    unfolding find_route_uncached_def search_categories_find router_categories
    by (simp only: categories_sorted [OF refl processed_weights assms])
  show ?thesis
  proof (cases "List.find ?P ?L")
    case None
    then have "\<forall>r \<in> set (processed_routes rx routes). \<not> ?P r" by (simp add: find_None_iff)
    then show ?thesis unfolding eq None by simp
  next
    case (Some r)
    from by_order.find_sort_by_best [OF Some] w eq Some show ?thesis by auto
  qed
qed

theorem chosen_route_is_best_witness:
  "\<exists>r \<in> set (processed_routes ex_rx ex_routes). pr_route_id r = 2 \<and>
     (\<forall>q \<in> set (processed_routes ex_rx ex_routes).
        match_route ex_rx q (ex_request ''https'' ''/api/v2/x'') ''example.com:80'' ''example.com'' \<longrightarrow> route_order r q \<noteq> Greater)"
proof -
  have "map_option rm_route_id (find_route_uncached ex_rx (router_new ex_rx rev ex_routes) (ex_request ''https'' ''/api/v2/x'')
      ''example.com:80'' ''example.com'') = Some 2" by code_simp
  then obtain m where m: "find_route_uncached ex_rx (router_new ex_rx rev ex_routes) (ex_request ''https'' ''/api/v2/x'')
      ''example.com:80'' ''example.com'' = Some m" "rm_route_id m = 2" by auto
  have "rm_route_id (route_match ex_rx r ctx) = pr_route_id r" for r ctx by (simp add: route_match_def split: prod.split)
  with chosen_route_is_best [of rev ex_rx ex_routes "ex_request ''https'' ''/api/v2/x''" "''example.com:80''" "''example.com''",
      OF iterates_rev(1), unfolded m(1)] m(2)
  show ?thesis by fastforce
qed

text \<open>
  The order in which the hash map of categories is walked does not show: any two orders build the
  same router.
\<close>

theorem router_independent_of_hash_order:
  assumes "iterates iter (build_index (\<lambda>r. [pr_match_rules r]) (sort_by sort_routes (processed_routes rx routes)))"
    and "iterates iter' (build_index (\<lambda>r. [pr_match_rules r]) (sort_by sort_routes (processed_routes rx routes)))"
  shows "router_new rx iter routes = router_new rx iter' routes"
proof -
  let ?rs = "sort_by sort_routes (processed_routes rx routes)"
  let ?m = "build_index (\<lambda>r. [pr_match_rules r]) ?rs"
  have "categories_of iter ?rs = categories_of iter' ?rs"
    unfolding categories_of_def
  proof (rule by_category.sort_by_order_irrelevant)
    show "mset (map (make_category ?rs) (iter ?m)) = mset (map (make_category ?rs) (iter' ?m))"
      using assms by (simp add: mset_map iterates_def)
    have "mset (map fst (iter ?m)) = mset (map fst ?m)" using assms(1) by (simp add: iterates_def mset_map)
    then have d: "distinct (map fst (iter ?m))"
      using build_index_distinct [of pr_match_rules ?rs] mset_eq_imp_distinct_iff by blast
    then have inj: "inj_on fst (set (iter ?m))" "distinct (iter ?m)" by (simp_all add: distinct_map)
    from inj(1) have "inj_on (make_category ?rs) (set (iter ?m))" by (simp add: inj_on_def make_category_def)
    with inj(2) show "distinct (map (make_category ?rs) (iter ?m))" by (simp add: distinct_map)
    fix p q assume "p \<in> set (map (make_category ?rs) (iter ?m))" "q \<in> set (map (make_category ?rs) (iter ?m))"
      and eq: "cmp_category p q = Equal"
    then obtain e f where e: "e \<in> set (iter ?m)" "f \<in> set (iter ?m)" "p = make_category ?rs e" "q = make_category ?rs f" by auto
    have "fst e = fst f" using eq unfolding e(3,4) by (simp add: cmp_category_def make_category_def)
    from inj_onD [OF inj(1) this e(1,2)] have "e = f" .
    with e(3,4) show "p = q" by simp
  qed
  then show ?thesis by (simp add: router_new_def Let_def categories_of_def)
qed

theorem router_independent_of_hash_order_witness: "router_new ex_rx rev ex_routes = router_new ex_rx id ex_routes"
  by (rule router_independent_of_hash_order) simp_all

text \<open>
  A compiled route matches a request exactly when every criterion that the route gives holds (and
  criteria it does not give are ignored), and the request's scheme is one of the route's protocols.
\<close>

theorem match_route_criteria:
  assumes "process_route rx r = Some p"
  shows "match_route rx p ctx h hn \<longleftrightarrow>
     (given (rt_hosts r) \<longrightarrow> match_host rx p h hn) \<and>
     (given (rt_headers r) \<longrightarrow> match_headers rx p (rc_headers ctx)) \<and>
     (given (rt_paths r) \<longrightarrow> match_uri rx p (rc_uri ctx)) \<and>
     (given (rt_methods r) \<longrightarrow> to_uppercase (rc_method ctx) \<in> to_uppercase ` set (items (rt_methods r))) \<and>
     (given (rt_snis r) \<longrightarrow> match_sni p ctx) \<and>
     (rt_protocols r \<noteq> [] \<longrightarrow> (\<exists>q \<in> set (rt_protocols r). protocol_matches (rc_scheme ctx) (protocol_to_string q)))"
proof -
  have "pr_match_rules p = match_rules_of r" "pr_methods p = map to_uppercase (items (rt_methods r))"
    "pr_protocols p = map protocol_to_string (rt_protocols r)" using assms by (auto simp: process_route_def)
  then show ?thesis by (simp add: match_route_def rules_given list_ex_iff)
qed

theorem match_route_criteria_witness:
  "\<exists>p. process_route ex_rx (ex_route 2 ''/api/v2'' [Https]) = Some p \<and>
     \<not> match_route ex_rx p (ex_request ''http'' ''/api/v2'') ''h'' ''h''"
proof -
  obtain p where p: "process_route ex_rx (ex_route 2 ''/api/v2'' [Https]) = Some p" by (simp add: process_route_def)
  have "\<not> protocol_matches ''http'' (protocol_to_string Https)" by code_simp
  with match_route_criteria [OF p, of "ex_request ''http'' ''/api/v2''" "''h''" "''h''"] p show ?thesis
    by (auto simp: ex_route_def ex_request_def)
qed

text \<open>
  Prefix paths match whole segments: a path that does not end in a slash matches itself and what
  continues it after a slash, and nothing else (\<open>/api\<close> does not match \<open>/apis\<close>).
\<close>

theorem prefix_path_whole_segments:
  assumes "path \<noteq> []" and "last path \<noteq> CHR ''/''"
  shows "prefix_path_matches req_uri path \<longleftrightarrow> req_uri = path \<or> (\<exists>rest. req_uri = path @ ''/'' @ rest)"
proof -
  have "trim_end_matches (CHR ''/'') path = path"
    using assms by (cases path rule: rev_cases) (simp_all add: trim_end_matches_def)
  moreover have "path \<noteq> ''/''" using assms(2) by auto
  ultimately show ?thesis by (auto simp: prefix_path_matches_def starts_with_def prefix_def)
qed

theorem prefix_path_whole_segments_witness:
  "(prefix_path_matches ''/apis'' ''/api'' \<longleftrightarrow> ''/apis'' = ''/api'' \<or> (\<exists>rest. ''/apis'' = ''/api'' @ ''/'' @ rest)) \<and>
   \<not> prefix_path_matches ''/apis'' ''/api''"
  using prefix_path_whole_segments [of "''/api''" "''/apis''"] by simp

lemma longest_prefix_step:
  "longest_prefix u (paths @ [p]) =
     (if prefix_path_matches u p \<and> (case longest_prefix u paths of None \<Rightarrow> True | Some b \<Rightarrow> length b < length p)
      then Some p else longest_prefix u paths)"
  by (simp add: longest_prefix_def)

lemma longest_prefix_best:
  "(longest_prefix u paths = None \<longrightarrow> (\<forall>p \<in> set paths. \<not> prefix_path_matches u p)) \<and>
   (\<forall>b. longest_prefix u paths = Some b \<longrightarrow> b \<in> set paths \<and> prefix_path_matches u b \<and>
      (\<forall>p \<in> set paths. prefix_path_matches u p \<longrightarrow> length p \<le> length b))"
proof (induction paths rule: rev_induct)
  case (snoc p paths)
  then show ?case unfolding longest_prefix_step by (cases "longest_prefix u paths") (auto split: if_splits)
qed (simp add: longest_prefix_def)

lemma prefix_paths_mem: "q \<in> set (prefix_paths_of paths) \<longleftrightarrow> q \<in> set (items paths) \<and> strip_prefix_str ''~'' q = None"
  by (auto simp: prefix_paths_of_def)

text \<open>
  The path that will be stripped from a request matched by a prefix path is the longest prefix
  path of the route that matches.
\<close>

theorem matched_path_is_longest:
  assumes "process_route rx r = Some p" and "regex_match rx (pr_regex_paths p) (rc_uri ctx) = None"
    and "rm_matched_path (route_match rx p ctx) = Some b"
  shows "b \<in> set (items (rt_paths r)) \<and> prefix_path_matches (rc_uri ctx) b \<and>
     (\<forall>q \<in> set (items (rt_paths r)). strip_prefix_str ''~'' q = None \<and> prefix_path_matches (rc_uri ctx) q \<longrightarrow> length q \<le> length b)"
proof -
  have "pr_prefix_paths p = prefix_paths_of (rt_paths r)" using assms(1) by (auto simp: process_route_def)
  with assms(2,3) have "longest_prefix (rc_uri ctx) (prefix_paths_of (rt_paths r)) = Some b"
    by (simp add: route_match_def find_matched_path_and_captures_def)
  with longest_prefix_best [of "rc_uri ctx" "prefix_paths_of (rt_paths r)"] show ?thesis
    by (auto simp: prefix_paths_mem)
qed

theorem matched_path_is_longest_witness:
  "\<exists>p. process_route ex_rx ((ex_route 1 ''/a'' [Http])\<lparr>rt_paths := Some [''/a'', ''/a/b'']\<rparr>) = Some p \<and>
     rm_matched_path (route_match ex_rx p (ex_request ''http'' ''/a/b/c'')) = Some ''/a/b'' \<and>
     prefix_path_matches ''/a/b/c'' ''/a/b''"
proof -
  let ?r = "(ex_route 1 ''/a'' [Http])\<lparr>rt_paths := Some [''/a'', ''/a/b'']\<rparr>"
  define p where "p = the (process_route ex_rx ?r)"
  have p: "process_route ex_rx ?r = Some p" by (simp add: process_route_def p_def)
  have m: "rm_matched_path (route_match ex_rx p (ex_request ''http'' ''/a/b/c'')) = Some ''/a/b''"
    "regex_match ex_rx (pr_regex_paths p) (rc_uri (ex_request ''http'' ''/a/b/c'')) = None"
    unfolding p_def by code_simp+
  from matched_path_is_longest [OF p m(2,1)] p m show ?thesis by (auto simp: ex_request_def)
qed

lemma lower_char_nul: "lower_char x = CHR 0x00 \<Longrightarrow> x = CHR 0x00"
proof -
  assume "lower_char x = CHR 0x00"
  then have "of_char (lower_char x) = (0 :: nat)" by simp
  then have "of_char x = (of_char (CHR 0x00) :: nat)" by (simp add: lower_char_def Let_def split: if_splits)
  then show ?thesis by (simp only: of_char_eq_iff)
qed

lemma nul_split:
  assumes "a @ [z] @ b = a' @ [z] @ b'" "z \<notin> set a" "z \<notin> set a'"
  shows "a = a' \<and> b = b'"
proof -
  have "z \<notin> set d \<Longrightarrow> takeWhile (\<lambda>x. x \<noteq> z) (d @ [z] @ e) = d" for d e by (induction d) auto
  from this [OF assms(2), of b] this [OF assms(3), of b'] assms(1) show ?thesis by auto
qed

text \<open>
  What a cached answer is worth: if no method, host or path contains a NUL byte, the router
  answers a request with what the search gives for some earlier request of the same method, host name
  and path (and the same header string); entries of different methods, hosts or paths never mix.
\<close>

theorem cached_answer_from_same_target:
  assumes "evicting evict" and "\<forall>q \<in> X. CHR 0x00 \<notin> set (rc_method q) \<union> set (rc_host q) \<union> set (rc_uri q)"
    and "coherent X cache_key (\<lambda>q. find_route_uncached rx t q (host_lower q) (host_no_port q)) c" and "ctx \<in> X"
    and "find_route rx evict t ctx c = (res, c')"
  shows "coherent X cache_key (\<lambda>q. find_route_uncached rx t q (host_lower q) (host_no_port q)) c' \<and>
     (\<exists>q \<in> X. rc_method q = rc_method ctx \<and> host_no_port q = host_no_port ctx \<and> rc_uri q = rc_uri ctx \<and>
        header_part q = header_part ctx \<and> res = find_route_uncached rx t q (host_lower q) (host_no_port q))"
proof -
  have host: "CHR 0x00 \<notin> set (host_no_port q)" if "q \<in> X" for q
  proof
    assume "CHR 0x00 \<in> set (host_no_port q)"
    then have "CHR 0x00 \<in> set (host_lower q)" unfolding host_no_port_def hd_split_char by (meson set_takeWhileD)
    then obtain x where "x \<in> set (rc_host q)" "lower_char x = CHR 0x00" by (auto simp: host_lower_def to_lowercase_def)
    then show False using lower_char_nul [of x] assms(2) that by auto
  qed
  have parts: "rc_method q = rc_method ctx \<and> host_no_port q = host_no_port ctx \<and> rc_uri q = rc_uri ctx \<and> header_part q = header_part ctx"
    if q: "q \<in> X" "cache_key q = cache_key ctx" for q
  proof -
    have nul: "CHR 0x00 \<notin> set (rc_method w)" "CHR 0x00 \<notin> set (rc_uri w)" if "w \<in> X" for w using that assms(2) by auto
    note key = q(2) [unfolded cache_key_def]
    note 1 = nul_split [OF key nul(1) [OF q(1)] nul(1) [OF assms(4)]]
    note 2 = nul_split [OF 1 [THEN conjunct2] host [OF q(1)] host [OF assms(4)]]
    note 3 = nul_split [OF 2 [THEN conjunct2] nul(2) [OF q(1)] nul(2) [OF assms(4)]]
    from 1 2 3 show ?thesis by simp
  qed
  have lk: "cached_lookup evict cache_key (\<lambda>q. find_route_uncached rx t q (host_lower q) (host_no_port q)) ctx c = (res, c')"
    using assms(5) by (simp add: find_route_def)
  show ?thesis using cached_lookup_coherent [OF assms(1,3,4) lk] parts by blast
qed

theorem cached_answer_from_same_target_witness:
  "\<exists>q \<in> {ex_request ''https'' ''/api''}. rc_uri q = ''/api'' \<and>
     fst (find_route ex_rx id (router_new ex_rx rev ex_routes) (ex_request ''https'' ''/api'') []) =
       find_route_uncached ex_rx (router_new ex_rx rev ex_routes) q (host_lower q) (host_no_port q)"
proof -
  have ev: "evicting id" by (simp add: evicting_def)
  have nul: "\<forall>q \<in> {ex_request ''https'' ''/api''}. CHR 0x00 \<notin> set (rc_method q) \<union> set (rc_host q) \<union> set (rc_uri q)"
    by (simp add: ex_request_def)
  obtain res c' where run: "find_route ex_rx id (router_new ex_rx rev ex_routes) (ex_request ''https'' ''/api'') [] = (res, c')"
    by force
  from cached_answer_from_same_target [OF ev nul coherent_Nil _ run] run show ?thesis by (auto simp: ex_request_def)
qed

text \<open>
  The cache key leaves out the scheme: after an HTTPS request for a route that is reserved to
  HTTPS, the same request over plain HTTP is answered from the cache with that route, although the
  search finds none for it.
\<close>

theorem cache_ignores_scheme:
  "let t = router_new ex_rx id [ex_route 2 ''/api/v2'' [Https]];
       (first, c) = find_route ex_rx id t (ex_request ''https'' ''/api/v2'') [];
       (second, _) = find_route ex_rx id t (ex_request ''http'' ''/api/v2'') c
   in map_option rm_route_id second = Some 2 \<and>
      find_route_uncached ex_rx t (ex_request ''http'' ''/api/v2'') ''example.com:80'' ''example.com'' = None"
  by code_simp

text \<open>
  For HTTP and HTTPS requests the server name of the TLS handshake plays no part in matching, so a
  route's SNI list restricts neither.
\<close>

theorem sni_ignored_for_https:
  assumes "rc_scheme ctx = ''http'' \<or> rc_scheme ctx = ''https''"
  shows "match_route rx r (ctx\<lparr>rc_sni := sni\<rparr>) h hn = match_route rx r ctx h hn"
  using assms by (auto simp: match_route_def match_sni_def)

theorem sni_ignored_for_https_witness:
  "\<forall>r. match_route ex_rx r ((ex_request ''https'' ''/'')\<lparr>rc_sni := Some ''a''\<rparr>) ''h'' ''h'' =
     match_route ex_rx r (ex_request ''https'' ''/'') ''h'' ''h''"
  by (intro allI, rule sni_ignored_for_https) (simp add: ex_request_def)

end
