(* ===== verification/Expression_Router.thy ===== *)
theory Expression_Router
  imports Traditional_Router
begin

text \<open>
  The expression router of \<open>kong-router/src/expressions.rs\<close>: a recursive descent parser for
  routing expressions, their evaluation, and the search by priority; and the \<open>Router\<close> of
  \<open>lib.rs\<close> that selects between the two routers. Slicing a string may panic (an empty range
  turned around, an index inside a UTF-8 sequence), so parsing yields an \<open>outcome\<close>.

  Shown: the parser terminates, an equality with a quoted value is parsed back to that value, the
  route of the highest priority wins; that \<open>not in\<close> is never parsed, on which input the parser
  panics, and that the cache confuses requests that differ in their headers.
\<close>

section \<open>Expressions\<close>

datatype Field = HttpMethod | HttpHost | HttpPath | HttpHeader string | NetProtocol | TlsSni

datatype 're CompiledExpression =
    EAnd "'re CompiledExpression" "'re CompiledExpression"
  | EOr "'re CompiledExpression" "'re CompiledExpression"
  | EEq Field string
  | ENe Field string
  | ERegex Field 're
  | EIn Field "string list"
  | ENotIn Field "string list"
  | ETrue

datatype ExprError = UnknownField string | InvalidRegex string | CannotParse string

type_synonym 're parsed = "(ExprError + 're CompiledExpression) outcome"

fun get_field_value :: "Field \<Rightarrow> RequestContext \<Rightarrow> string option" where
  "get_field_value HttpMethod ctx = Some (rc_method ctx)"
| "get_field_value HttpHost ctx = Some (rc_host ctx)"
| "get_field_value HttpPath ctx = Some (rc_uri ctx)"
| "get_field_value (HttpHeader name) ctx = map_of (rc_headers ctx) name"
| "get_field_value NetProtocol ctx = Some (rc_scheme ctx)"
| "get_field_value TlsSni ctx = rc_sni ctx"

fun evaluate :: "'re regex_engine \<Rightarrow> 're CompiledExpression \<Rightarrow> RequestContext \<Rightarrow> bool" where
  "evaluate rx ETrue ctx = True"
| "evaluate rx (EAnd a b) ctx = (evaluate rx a ctx \<and> evaluate rx b ctx)"
| "evaluate rx (EOr a b) ctx = (evaluate rx a ctx \<or> evaluate rx b ctx)"
| "evaluate rx (EEq field v) ctx = (get_field_value field ctx = Some v)"
| "evaluate rx (ENe field v) ctx = (get_field_value field ctx \<noteq> Some v)"
| "evaluate rx (ERegex field re) ctx =
     (case get_field_value field ctx of None \<Rightarrow> False | Some v \<Rightarrow> rx_is_match rx re v)"
| "evaluate rx (EIn field vs) ctx = (case get_field_value field ctx of None \<Rightarrow> False | Some v \<Rightarrow> v \<in> set vs)"
| "evaluate rx (ENotIn field vs) ctx = (case get_field_value field ctx of None \<Rightarrow> True | Some v \<Rightarrow> v \<notin> set vs)"

section \<open>Parsing\<close>

definition parse_field :: "string \<Rightarrow> ExprError + Field" where
  "parse_field name0 =
     (let name = trim name0
      in if name = ''http.method'' then Inr HttpMethod
         else if name = ''http.host'' then Inr HttpHost
         else if name = ''http.path'' then Inr HttpPath
         else if name = ''net.protocol'' then Inr NetProtocol
         else if name = ''tls.sni'' then Inr TlsSni
         else (case strip_prefix_str ''http.headers.'' name of
                 Some header_name \<Rightarrow> Inr (HttpHeader (to_lowercase header_name))
               | None \<Rightarrow> Inl (UnknownField name)))"

text \<open>\<open>s[1..s.len() - 1]\<close> panics on a string of one character.\<close>

definition strip_quotes :: "string \<Rightarrow> string outcome" where
  "strip_quotes s0 =
     (let s = trim s0
      in if starts_with s [CHR 0x22] \<and> ends_with s [CHR 0x22] \<or> starts_with s [CHR 0x27] \<and> ends_with s [CHR 0x27]
         then (if length s < 2 then Panic else Ret (take (length s - 2) (drop 1 s)))
         else Ret s)"

fun strip_all :: "string list \<Rightarrow> string list outcome" where
  "strip_all [] = Ret []"
| "strip_all (s # ss) =
     (case strip_quotes (trim s) of
        Panic \<Rightarrow> Panic
      | Ret v \<Rightarrow> (case strip_all ss of Panic \<Rightarrow> Panic | Ret vs \<Rightarrow> Ret (v # vs)))"

text \<open>
  The scan of \<open>find_operator\<close> from position \<open>i\<close>: \<open>rest\<close> is the input from there on,
  \<open>prev\<close> the byte before it. Slicing at a continuation byte of a UTF-8 sequence panics.
\<close>

definition is_continuation :: "char \<Rightarrow> bool" where
  "is_continuation c = (let n = of_char c :: nat in 128 \<le> n \<and> n \<le> 191)"

fun scan_operator :: "string \<Rightarrow> nat \<Rightarrow> char option \<Rightarrow> int \<Rightarrow> bool \<Rightarrow> string \<Rightarrow> nat option outcome" where
  "scan_operator op i prev depth in_quote [] = Ret None"
| "scan_operator op i prev depth in_quote (c # cs) =
     (if c = CHR 0x22 \<and> depth = 0 then scan_operator op (Suc i) (Some c) depth (\<not> in_quote) cs
      else if c = CHR ''('' \<and> \<not> in_quote then scan_operator op (Suc i) (Some c) (depth + 1) in_quote cs
      else if c = CHR '')'' \<and> \<not> in_quote then scan_operator op (Suc i) (Some c) (depth - 1) in_quote cs
      else if \<not> in_quote \<and> depth = 0
      then (if is_continuation c then Panic
            else if starts_with (c # cs) op \<and> (prev = None \<or> prev = Some (CHR '' '')) \<and>
                 (length (c # cs) \<le> length op \<or> (c # cs) ! length op = CHR '' '')
            then Ret (Some i)
            else scan_operator op (Suc i) (Some c) depth in_quote cs)
      else scan_operator op (Suc i) (Some c) depth in_quote cs)"

definition find_operator :: "string \<Rightarrow> string \<Rightarrow> nat option outcome" where
  "find_operator input op = scan_operator op 0 None 0 False input"

definition comparison_value :: "string \<Rightarrow> (string \<Rightarrow> ExprError + 're CompiledExpression) \<Rightarrow> 're parsed" where
  "comparison_value value_str k = (case strip_quotes value_str of Panic \<Rightarrow> Panic | Ret v \<Rightarrow> Ret (k v))"

definition parse_list ::
    "string \<Rightarrow> nat \<Rightarrow> nat \<Rightarrow> (Field \<Rightarrow> string list \<Rightarrow> 're CompiledExpression) \<Rightarrow> 're parsed" where
  "parse_list input pos op_len mk =
     (case parse_field (trim (take pos input)) of
        Inl e \<Rightarrow> Ret (Inl e)
      | Inr field \<Rightarrow>
          (case strip_all (split_char (CHR '','') (trim (drop (pos + op_len) input))) of
             Panic \<Rightarrow> Panic
           | Ret vs \<Rightarrow> Ret (Inr (mk field vs))))"

definition parse_comparison :: "'re regex_engine \<Rightarrow> string \<Rightarrow> 're parsed" where
  "parse_comparison rx input0 =
     (let input = trim input0;
          binary = (\<lambda>pos op_len mk.
            case parse_field (trim (take pos input)) of
              Inl e \<Rightarrow> Ret (Inl e)
            | Inr field \<Rightarrow> comparison_value (trim (drop (pos + op_len) input)) (mk field));
          lists =
            (case find_sub '' in '' input of
               Some pos \<Rightarrow> parse_list input pos 4 EIn
             | None \<Rightarrow>
                 (case find_sub '' not in '' input of
                    Some pos \<Rightarrow> parse_list input pos 8 ENotIn
                  | None \<Rightarrow> Ret (Inl (CannotParse input))))
      in case find_sub ''=='' input of
           Some pos \<Rightarrow> binary pos 2 (\<lambda>field v. Inr (EEq field v))
         | None \<Rightarrow>
             (case find_sub ''!='' input of
                Some pos \<Rightarrow> binary pos 2 (\<lambda>field v. Inr (ENe field v))
              | None \<Rightarrow>
                  (case find_sub ''~'' input of
                     Some pos \<Rightarrow>
                       if ends_with (take pos input) ''!'' \<or> starts_with (drop (pos + 1) input) ''='' then lists
                       else binary pos 1 (\<lambda>field v. case rx_new rx v of
                              None \<Rightarrow> Inl (InvalidRegex v) | Some re \<Rightarrow> Inr (ERegex field re))
                   | None \<Rightarrow> lists)))"

definition both ::
    "('re CompiledExpression \<Rightarrow> 're CompiledExpression \<Rightarrow> 're CompiledExpression) \<Rightarrow> 're parsed \<Rightarrow> 're parsed \<Rightarrow> 're parsed" where
  "both mk left right =
     (case left of
        Panic \<Rightarrow> Panic
      | Ret (Inl e) \<Rightarrow> Ret (Inl e)
      | Ret (Inr a) \<Rightarrow>
          (case right of Panic \<Rightarrow> Panic | Ret (Inl e) \<Rightarrow> Ret (Inl e) | Ret (Inr b) \<Rightarrow> Ret (Inr (mk a b))))"

lemma length_trim: "length (trim s) \<le> length s"
  unfolding trim_def by (metis dual_order.trans length_dropWhile_le length_rev)

lemma scan_operator_bound:
  "scan_operator op i prev depth q s = Ret (Some n) \<Longrightarrow> i \<le> n \<and> n < i + length s"
proof (induction s arbitrary: i prev depth q)
  case (Cons c cs)
  have "n = i \<or> (\<exists>p d r. scan_operator op (Suc i) p d r cs = Ret (Some n))"
    using Cons.prems by (simp split: if_splits) blast+
  with Cons.IH show ?case by fastforce
qed simp

lemma find_operator_bound: "find_operator s op = Ret (Some n) \<Longrightarrow> n < length s"
  using scan_operator_bound [of op 0 None 0 False s n] by (simp add: find_operator_def)

lemma operator_position: "find_operator (trim s) op = Ret (Some n) \<Longrightarrow> n < length s"
  using find_operator_bound [of "trim s" op n] length_trim [of s] by linarith

lemma trimmed_rest: "trim s \<noteq> [] \<Longrightarrow> 0 < m \<Longrightarrow> length (trim s) - m < length s"
  using length_trim [of s] by (cases "trim s") auto

function parse_expression :: "'re regex_engine \<Rightarrow> string \<Rightarrow> 're parsed" where
  "parse_expression rx input0 =
     (let input = trim input0
      in if input = [] then Ret (Inr ETrue)
         else
           (case find_operator input ''||'' of
              Panic \<Rightarrow> Panic
            | Ret (Some pos) \<Rightarrow>
                both EOr (parse_expression rx (take pos input)) (parse_expression rx (drop (pos + 2) input))
            | Ret None \<Rightarrow>
                (case find_operator input ''&&'' of
                   Panic \<Rightarrow> Panic
                 | Ret (Some pos) \<Rightarrow>
                     both EAnd (parse_expression rx (take pos input)) (parse_expression rx (drop (pos + 2) input))
                 | Ret None \<Rightarrow>
                     if starts_with input ''('' \<and> ends_with input '')''
                     then parse_expression rx (take (length input - 2) (drop 1 input))
                     else parse_comparison rx input)))"
  by pat_completeness auto

termination parse_expression
  by (relation "measure (\<lambda>(rx, s). length s)")
    (auto intro: min.strict_coboundedI1 min.strict_coboundedI2 operator_position trimmed_rest)

declare parse_expression.simps [simp del]

section \<open>The router\<close>

record 're ExpressionRoute =
  er_route_id :: uuid
  er_service_id :: "uuid option"
  er_route_name :: "string option"
  er_priority :: int
  er_expression :: "'re CompiledExpression"
  er_strip_path :: bool
  er_preserve_host :: bool
  er_path_handling :: PathHandling
  er_protocols :: "string list"
  er_request_buffering :: bool
  er_response_buffering :: bool

definition compile_route :: "Route \<Rightarrow> 're CompiledExpression \<Rightarrow> 're ExpressionRoute" where
  "compile_route r e =
     \<lparr>er_route_id = rt_id r, er_service_id = rt_service r, er_route_name = rt_name r,
      er_priority = (case rt_priority r of None \<Rightarrow> 0 | Some p \<Rightarrow> p), er_expression = e,
      er_strip_path = rt_strip_path r, er_preserve_host = rt_preserve_host r,
      er_path_handling = rt_path_handling r, er_protocols = map protocol_to_string (rt_protocols r),
      er_request_buffering = rt_request_buffering r, er_response_buffering = rt_response_buffering r\<rparr>"

text \<open>Routes without an expression, or whose expression is rejected, are left out.\<close>

fun compile_routes :: "'re regex_engine \<Rightarrow> Route list \<Rightarrow> 're ExpressionRoute list outcome" where
  "compile_routes rx [] = Ret []"
| "compile_routes rx (r # rs) =
     (let keep = (\<lambda>xs. case compile_routes rx rs of Panic \<Rightarrow> Panic | Ret ys \<Rightarrow> Ret (xs @ ys))
      in if \<not> is_http_route r then keep []
         else (case rt_expression r of
                 None \<Rightarrow> keep []
               | Some src \<Rightarrow>
                   (case parse_expression rx src of
                      Panic \<Rightarrow> Panic
                    | Ret (Inl _) \<Rightarrow> keep []
                    | Ret (Inr e) \<Rightarrow> keep [compile_route r e])))"

definition by_priority :: "'re ExpressionRoute \<Rightarrow> 're ExpressionRoute \<Rightarrow> ordering" where
  "by_priority a b = cmp (er_priority b) (er_priority a)"

definition expr_new :: "'re regex_engine \<Rightarrow> Route list \<Rightarrow> 're ExpressionRoute list outcome" where
  "expr_new rx routes =
     (case compile_routes rx routes of Panic \<Rightarrow> Panic | Ret rs \<Rightarrow> Ret (sort_by by_priority rs))"

definition expr_match :: "'re ExpressionRoute \<Rightarrow> RouteMatch" where
  "expr_match r =
     \<lparr>rm_route_id = er_route_id r, rm_service_id = er_service_id r, rm_route_name = er_route_name r,
      rm_strip_path = er_strip_path r, rm_preserve_host = er_preserve_host r,
      rm_path_handling = er_path_handling r, rm_matched_path = None, rm_protocols = er_protocols r,
      rm_request_buffering = er_request_buffering r, rm_response_buffering = er_response_buffering r,
      rm_uri_captures = no_captures\<rparr>"

fun expr_find_route_uncached ::
    "'re regex_engine \<Rightarrow> 're ExpressionRoute list \<Rightarrow> RequestContext \<Rightarrow> RouteMatch option" where
  "expr_find_route_uncached rx [] ctx = None"
| "expr_find_route_uncached rx (r # rs) ctx =
     (if evaluate rx (er_expression r) ctx then Some (expr_match r) else expr_find_route_uncached rx rs ctx)"

definition expr_cache_key :: "RequestContext \<Rightarrow> string" where
  "expr_cache_key ctx = rc_method ctx @ [CHR 0x00] @ host_no_port ctx @ [CHR 0x00] @ rc_uri ctx"

definition expr_find_route ::
    "'re regex_engine \<Rightarrow> (route_cache \<Rightarrow> route_cache) \<Rightarrow> 're ExpressionRoute list \<Rightarrow> RequestContext \<Rightarrow> route_cache \<Rightarrow>
     RouteMatch option \<times> route_cache" where
  "expr_find_route rx evict rs ctx c = cached_lookup evict expr_cache_key (expr_find_route_uncached rx rs) ctx c"

section \<open>The unified router\<close>

datatype 're Router =
    Traditional "'re TraditionalRouter" route_cache
  | Expressions "'re ExpressionRoute list" route_cache

definition unified_new ::
    "'re regex_engine \<Rightarrow> ((u32 \<times> nat list) list \<Rightarrow> (u32 \<times> nat list) list) \<Rightarrow> Route list \<Rightarrow> string \<Rightarrow> 're Router outcome" where
  "unified_new rx iter routes router_flavor =
     (if router_flavor = ''expressions''
      then (case expr_new rx routes of Panic \<Rightarrow> Panic | Ret rs \<Rightarrow> Ret (Expressions rs []))
      else Ret (Traditional (router_new rx iter routes) []))"

fun unified_find_route ::
    "'re regex_engine \<Rightarrow> (route_cache \<Rightarrow> route_cache) \<Rightarrow> 're Router \<Rightarrow> RequestContext \<Rightarrow> RouteMatch option \<times> 're Router" where
  "unified_find_route rx evict (Traditional t c) ctx =
     (let (m, c') = find_route rx evict t ctx c in (m, Traditional t c'))"
| "unified_find_route rx evict (Expressions rs c) ctx =
     (let (m, c') = expr_find_route rx evict rs ctx c in (m, Expressions rs c'))"

fun unified_route_count :: "'re Router \<Rightarrow> nat" where
  "unified_route_count (Traditional t c) = route_count t"
| "unified_route_count (Expressions rs c) = length rs"

fun unified_rebuild ::
    "'re regex_engine \<Rightarrow> ((u32 \<times> nat list) list \<Rightarrow> (u32 \<times> nat list) list) \<Rightarrow> 're Router \<Rightarrow> Route list \<Rightarrow> 're Router outcome" where
  "unified_rebuild rx iter (Traditional t c) routes = Ret (Traditional (router_new rx iter routes) [])"
| "unified_rebuild rx iter (Expressions rs c) routes =
     (case expr_new rx routes of Panic \<Rightarrow> Panic | Ret rs' \<Rightarrow> Ret (Expressions rs' []))"

section \<open>Theorems\<close>

interpretation by_prio: comparator "by_priority :: 're ExpressionRoute \<Rightarrow> 're ExpressionRoute \<Rightarrow> ordering"
  unfolding by_priority_def by (rule comparator_cmp_key_rev)

lemma expr_search_find:
  "expr_find_route_uncached rx rs ctx = map_option expr_match (List.find (\<lambda>r. evaluate rx (er_expression r) ctx) rs)"
  by (induction rs) auto

text \<open>
  The expression router answers with a compiled route whose expression holds of the request, and
  no route whose expression holds has a higher priority; it finds none only if no expression holds.
\<close>

theorem expression_route_highest_priority:
  assumes "expr_new rx routes = Ret rs" and "compile_routes rx routes = Ret cs"
  shows "case expr_find_route_uncached rx rs ctx of
     None \<Rightarrow> \<forall>r \<in> set cs. \<not> evaluate rx (er_expression r) ctx
   | Some m \<Rightarrow> \<exists>r \<in> set cs. m = expr_match r \<and> evaluate rx (er_expression r) ctx \<and>
       (\<forall>q \<in> set cs. evaluate rx (er_expression q) ctx \<longrightarrow> er_priority q \<le> er_priority r)"
proof -
  have rs: "rs = sort_by by_priority cs" using assms by (simp add: expr_new_def)
  show ?thesis
  proof (cases "List.find (\<lambda>r. evaluate rx (er_expression r) ctx) rs")
    case None
    then have "\<forall>r \<in> set cs. \<not> evaluate rx (er_expression r) ctx" by (simp add: find_None_iff rs)
    then show ?thesis unfolding expr_search_find None by simp
  next
    case (Some r)
    from by_prio.find_sort_by_best [OF Some [unfolded rs]] show ?thesis
      unfolding expr_search_find Some by (auto simp: by_priority_def not_less)
  qed
qed

theorem expression_route_highest_priority_witness:
  "\<exists>rs cs. expr_new ex_rx [(route_default 1)\<lparr>rt_expression := Some []\<rparr>] = Ret rs \<and>
     compile_routes ex_rx [(route_default 1)\<lparr>rt_expression := Some []\<rparr>] = Ret cs \<and>
     (case expr_find_route_uncached ex_rx rs (ex_request ''http'' ''/'') of
        None \<Rightarrow> \<forall>r \<in> set cs. \<not> evaluate ex_rx (er_expression r) (ex_request ''http'' ''/'')
      | Some m \<Rightarrow> \<exists>r \<in> set cs. m = expr_match r \<and>
          (\<forall>q \<in> set cs. evaluate ex_rx (er_expression q) (ex_request ''http'' ''/'') \<longrightarrow> er_priority q \<le> er_priority r))"
proof -
  have "parse_expression ex_rx [] = Ret (Inr ETrue)" by code_simp
  then obtain rs cs where r: "expr_new ex_rx [(route_default 1)\<lparr>rt_expression := Some []\<rparr>] = Ret rs"
    "compile_routes ex_rx [(route_default 1)\<lparr>rt_expression := Some []\<rparr>] = Ret cs"
    by (auto simp: expr_new_def route_default_def is_http_route_def)
  from expression_route_highest_priority [OF r, of "ex_request ''http'' ''/''"] r show ?thesis
    by (fastforce split: option.splits)
qed

text \<open>A quoted comparison is read back as written.\<close>

lemma trim_id: "s \<noteq> [] \<Longrightarrow> \<not> is_space (hd s) \<Longrightarrow> \<not> is_space (last s) \<Longrightarrow> trim s = s"
proof -
  assume a: "s \<noteq> []" "\<not> is_space (hd s)" "\<not> is_space (last s)"
  then have "dropWhile is_space s = s" by (cases s) auto
  moreover have "dropWhile is_space (rev s) = rev s" using a by (cases s rule: rev_cases) auto
  ultimately show ?thesis by (simp add: trim_def)
qed

lemma find_sub_at: "hd p \<notin> set a \<Longrightarrow> p \<noteq> [] \<Longrightarrow> find_sub p (a @ p @ b) = Some (length a)"
proof (induction a)
  case Nil
  then show ?case by (cases p) (auto simp: prefix_def)
next
  case (Cons x a)
  then have "\<not> prefix p (x # a @ p @ b)" by (cases p) auto
  with Cons show ?case by simp
qed

definition plain_char :: "char \<Rightarrow> char \<Rightarrow> bool" where
  "plain_char o1 c = (c \<noteq> CHR 0x22 \<and> c \<noteq> CHR ''('' \<and> c \<noteq> CHR '')'' \<and> \<not> is_continuation c \<and> c \<noteq> o1)"

lemma scan_plain:
  "list_all (plain_char o1) xs \<Longrightarrow> \<exists>p. scan_operator [o1, o2] i prev 0 False (xs @ ys) = scan_operator [o1, o2] (i + length xs) p 0 False ys"
proof (induction xs arbitrary: i prev)
  case (Cons x xs)
  then have step: "scan_operator [o1, o2] i prev 0 False ((x # xs) @ ys) = scan_operator [o1, o2] (Suc i) (Some x) 0 False (xs @ ys)"
    by (auto simp: plain_char_def starts_with_def)
  have "list_all (plain_char o1) xs" using Cons.prems by simp
  from Cons.IH [OF this, of "Suc i" "Some x"] show ?case unfolding step by simp
qed auto

lemma scan_quoted:
  "CHR 0x22 \<notin> set v \<Longrightarrow> scan_operator op i prev 0 True (v @ [CHR 0x22]) = Ret None"
  by (induction v arbitrary: i prev) auto

lemma find_operator_quoted:
  assumes "list_all (plain_char o1) xs" "CHR 0x22 \<notin> set v"
  shows "find_operator (xs @ [CHR 0x22] @ v @ [CHR 0x22]) [o1, o2] = Ret None"
proof -
  obtain p where "scan_operator [o1, o2] 0 None 0 False (xs @ [CHR 0x22] @ v @ [CHR 0x22]) =
      scan_operator [o1, o2] (length xs) p 0 False ([CHR 0x22] @ v @ [CHR 0x22])"
    using scan_plain [OF assms(1), of o2 0 None "[CHR 0x22] @ v @ [CHR 0x22]"] by auto
  then show ?thesis using scan_quoted [OF assms(2)] by (simp add: find_operator_def)
qed

text \<open>
  An equality with a quoted value is parsed to the comparison it shows, for every field name
  without white space, quotes, parentheses or operator characters and every value without a double
  quote; operators and parentheses inside the quotes are not interpreted.
\<close>

theorem quoted_equality_parses:
  assumes "parse_field name = Inr f" and "name \<noteq> []" and "CHR 0x22 \<notin> set v"
    and "list_all (\<lambda>c. plain_char (CHR ''|'') c \<and> plain_char (CHR ''&'') c \<and> \<not> is_space c \<and> c \<noteq> CHR ''='') name"
  shows "parse_expression rx (name @ '' == '' @ [CHR 0x22] @ v @ [CHR 0x22]) = Ret (Inr (EEq f v))"
proof -
  define q where "q = [CHR 0x22] @ v @ [CHR 0x22]"
  define s where "s = name @ '' == '' @ q"
  have sp: "is_space (CHR '' '')" "\<not> is_space (CHR 0x22)" by (simp_all add: is_space_def)
  have nm: "\<not> is_space (hd name)" "\<not> is_space (last name)" "hd name \<noteq> CHR ''(''" "CHR ''='' \<notin> set name"
    using assms(2,4) by (auto simp: list_all_iff plain_char_def)
  have ne: "s \<noteq> []" using assms(2) by (simp add: s_def)
  have t: "trim s = s" by (rule trim_id) (use assms(2) nm sp in \<open>simp_all add: s_def q_def\<close>)
  have pl: "list_all (plain_char (CHR ''|'')) (name @ '' == '')" "list_all (plain_char (CHR ''&'')) (name @ '' == '')"
    using assms(4) by (auto simp: list_all_iff plain_char_def is_continuation_def)
  have op: "find_operator s ''||'' = Ret None" "find_operator s ''&&'' = Ret None"
    using find_operator_quoted [OF pl(1) assms(3), of "CHR ''|''"] find_operator_quoted [OF pl(2) assms(3), of "CHR ''&''"]
    by (simp_all add: s_def q_def)
  have par: "\<not> starts_with s ''(''" using nm(3) assms(2) by (cases name) (auto simp: starts_with_def s_def)
  have pos: "find_sub ''=='' s = Some (length name + 1)"
    using find_sub_at [of "''==''" "name @ '' ''" "'' '' @ q"] nm(4) by (simp add: s_def)
  have tn: "trim (name @ '' '') = name"
  proof -
    have "dropWhile is_space (name @ '' '') = name @ '' ''" using nm(1) assms(2) by (cases name) auto
    moreover have "dropWhile is_space (rev name) = rev name" using nm(2) assms(2) by (cases name rule: rev_cases) auto
    ultimately show ?thesis by (simp add: trim_def sp)
  qed
  have "take (length name + 1) s = name @ '' ''" by (simp add: s_def)
  then have fld: "parse_field (trim (take (length name + 1) s)) = Inr f" using assms(1) tn by simp
  have tq: "trim q = q" by (rule trim_id) (simp_all add: sp q_def)
  have "drop (length name + 1 + 2) s = '' '' @ q" by (simp add: s_def)
  moreover have "trim ('' '' @ q) = trim q" by (simp add: trim_def sp)
  moreover have "strip_quotes q = Ret v"
    unfolding strip_quotes_def Let_def tq by (simp add: q_def starts_with_def ends_with_def suffix_def)
  ultimately have "comparison_value (trim (drop (length name + 1 + 2) s)) k = Ret (k v)" for k
    using tq by (simp add: comparison_value_def)
  then have "parse_comparison rx s = Ret (Inr (EEq f v))"
    unfolding parse_comparison_def t Let_def pos option.case fld sum.case by (rule trans) (rule refl)
  then have "parse_expression rx s = Ret (Inr (EEq f v))"
    unfolding parse_expression.simps [of rx s] t Let_def using op par ne by simp
  then show ?thesis by (simp add: s_def q_def)
qed

theorem quoted_equality_parses_witness:
  "parse_expression ex_rx (''http.path'' @ '' == '' @ [CHR 0x22] @ ''/a || (b'' @ [CHR 0x22]) = Ret (Inr (EEq HttpPath ''/a || (b''))"
proof (rule quoted_equality_parses)
  show "parse_field ''http.path'' = Inr HttpPath" by code_simp
  show "list_all (\<lambda>c. plain_char (CHR ''|'') c \<and> plain_char (CHR ''&'') c \<and> \<not> is_space c \<and> c \<noteq> CHR ''='') ''http.path''"
    by (simp add: plain_char_def is_continuation_def is_space_def)
qed simp_all

primrec uses_not_in :: "'re CompiledExpression \<Rightarrow> bool" where
  "uses_not_in (EAnd a b) = (uses_not_in a \<or> uses_not_in b)"
| "uses_not_in (EOr a b) = (uses_not_in a \<or> uses_not_in b)"
| "uses_not_in (EEq f v) = False"
| "uses_not_in (ENe f v) = False"
| "uses_not_in (ERegex f re) = False"
| "uses_not_in (EIn f vs) = False"
| "uses_not_in (ENotIn f vs) = True"
| "uses_not_in ETrue = False"

lemma not_in_contains_in: "find_sub '' in '' s = None \<Longrightarrow> find_sub '' not in '' s = None"
proof (rule ccontr)
  assume n: "find_sub '' in '' s = None" and "find_sub '' not in '' s \<noteq> None"
  then obtain k where "find_sub '' not in '' s = Some k" by auto
  from find_sub_Some [OF this] obtain r where "drop k s = '' not in '' @ r" by (auto simp: prefix_def)
  then have "drop 4 (drop k s) = '' in '' @ r" by simp
  then have p: "prefix '' in '' (drop (4 + k) s)" by (simp add: drop_drop)
  have "4 + k \<le> length s"
  proof (rule ccontr)
    assume "\<not> 4 + k \<le> length s"
    then have "drop (4 + k) s = []" by simp
    with p show False by simp
  qed
  with p n show False by (auto simp: find_sub_None)
qed

lemma parse_comparison_no_not_in: "parse_comparison rx s = Ret (Inr e) \<Longrightarrow> \<not> uses_not_in e"
  using not_in_contains_in [of "trim s"] unfolding parse_comparison_def comparison_value_def parse_list_def Let_def
  by (auto split: option.splits sum.splits outcome.splits if_splits)

lemma both_no_not_in:
  assumes "both mk l r = Ret (Inr e)" "\<And>a. l = Ret (Inr a) \<Longrightarrow> \<not> uses_not_in a" "\<And>a. r = Ret (Inr a) \<Longrightarrow> \<not> uses_not_in a"
    "\<And>a b. uses_not_in (mk a b) = (uses_not_in a \<or> uses_not_in b)"
  shows "\<not> uses_not_in e"
  using assms by (auto simp: both_def split: outcome.splits sum.splits)

text \<open>
  The parser never produces a \<open>not in\<close> test: the search for \<open>in\<close> with blanks around it
  comes first and also finds it inside \<open>not in\<close>, so such a comparison is rejected or read as
  another one.
\<close>

theorem not_in_never_parsed:
  "parse_expression rx src = Ret (Inr e) \<Longrightarrow> \<not> uses_not_in e"
proof (induction rx src arbitrary: e rule: parse_expression.induct)
  case (1 rx src)
  let ?s = "trim src"
  note body = 1(6) [unfolded parse_expression.simps [of rx src] Let_def]
  show ?case
  proof (cases "?s = []")
    case True
    with body show ?thesis by auto
  next
    case ne: False
    consider (none) "find_operator ?s ''||'' = Ret None" | (some) n where "find_operator ?s ''||'' = Ret (Some n)"
      using body ne by (cases "find_operator ?s ''||''") (auto split: option.splits)
    then show ?thesis
    proof cases
      case (some n)
      with body ne have "both EOr (parse_expression rx (take n ?s)) (parse_expression rx (drop (n + 2) ?s)) = Ret (Inr e)" by simp
      then show ?thesis by (rule both_no_not_in) (use 1(4,5) [OF refl ne some refl] in auto)
    next
      case or: none
      consider (none) "find_operator ?s ''&&'' = Ret None" | (some) n where "find_operator ?s ''&&'' = Ret (Some n)"
        using body ne or by (cases "find_operator ?s ''&&''") (auto split: option.splits)
      then show ?thesis
      proof cases
        case (some n)
        with body ne or have "both EAnd (parse_expression rx (take n ?s)) (parse_expression rx (drop (n + 2) ?s)) = Ret (Inr e)" by simp
        then show ?thesis by (rule both_no_not_in) (use 1(2,3) [OF refl ne or refl some refl] in auto)
      next
        case none
        with body ne or 1(1) [OF refl ne or refl none refl] show ?thesis
          by (auto split: if_splits dest: parse_comparison_no_not_in)
      qed
    qed
  qed
qed

theorem not_in_never_parsed_witness:
  "\<exists>e. parse_expression ex_rx ''http.method in GET, POST'' = Ret (Inr e) \<and> \<not> uses_not_in e"
proof -
  have run: "parse_expression ex_rx ''http.method in GET, POST'' = Ret (Inr (EIn HttpMethod [''GET'', ''POST'']))" by code_simp
  from not_in_never_parsed [OF run] run show ?thesis by blast
qed

text \<open>
  A comparison whose value is a single quote character makes the parser panic, and with it the
  construction of the router, instead of dropping the route.
\<close>

theorem lone_quote_panics:
  "parse_expression ex_rx (''http.host == '' @ [CHR 0x22]) = Panic \<and>
   expr_new ex_rx [(route_default 1)\<lparr>rt_expression := Some (''http.host == '' @ [CHR 0x22])\<rparr>] = Panic"
  by code_simp

text \<open>
  The cache key of the expression router leaves out the headers: after a request with a header that
  a route requires, the same request without it is answered with that route, although the search
  finds none.
\<close>

theorem expression_cache_ignores_headers:
  "let routes = [(route_default 9)\<lparr>rt_expression := Some (''http.headers.x == '' @ [CHR 0x22] @ ''1'' @ [CHR 0x22])\<rparr>];
       with_header = (ex_request ''https'' ''/'')\<lparr>rc_headers := [(''x'', ''1'')]\<rparr>
   in case expr_new ex_rx routes of
        Panic \<Rightarrow> False
      | Ret rs \<Rightarrow>
          (let (_, c) = expr_find_route ex_rx id rs with_header [];
               (second, _) = expr_find_route ex_rx id rs (ex_request ''https'' ''/'') c
           in map_option rm_route_id second = Some 9 \<and>
              expr_find_route_uncached ex_rx rs (ex_request ''https'' ''/'') = None)"
  by code_simp

end
