(* ===== verification/Health.thy ===== *)
theory Health
  imports Complex_Main Kong_Strings
begin

text \<open>
  The health checker of the proxy (\<open>kong-proxy/src/health.rs\<close>): per upstream a configuration
  and per target four counters and a status, changed by passive reports and by rounds of active
  probes. The network is a parameter (\<open>exchange\<close>): what a probe's connection answers. Counters
  are 32-bit integers that wrap, thresholds are signed. The section on histories gives the abstract
  specification, a verdict on the list of events of one target, and the refinement of the checker
  to it. The locks are never poisoned, since no closure under a write lock panics.
\<close>

section \<open>State\<close>

type_synonym i32 = "32 word"

datatype HealthStatus = Healthy | Unhealthy | DnsError

record TargetHealth =
  th_status :: HealthStatus
  th_successes :: i32
  th_tcp_failures :: i32
  th_timeouts :: i32
  th_http_failures :: i32

definition target_health_default :: TargetHealth where
  "target_health_default =
     \<lparr>th_status = Healthy, th_successes = 0, th_tcp_failures = 0, th_timeouts = 0, th_http_failures = 0\<rparr>"

record HealthCheckerConfig =
  hc_active_interval :: real
  hc_active_http_path :: string
  hc_healthy_successes :: i32
  hc_unhealthy_tcp_failures :: i32
  hc_unhealthy_timeouts :: i32
  hc_unhealthy_http_failures :: i32
  hc_passive_healthy_statuses :: "i32 list"
  hc_passive_unhealthy_statuses :: "i32 list"

definition health_config_default :: HealthCheckerConfig where
  "health_config_default =
     \<lparr>hc_active_interval = 0, hc_active_http_path = ''/'', hc_healthy_successes = 0,
      hc_unhealthy_tcp_failures = 0, hc_unhealthy_timeouts = 0, hc_unhealthy_http_failures = 0,
      hc_passive_healthy_statuses =
        [200, 201, 202, 203, 204, 205, 206, 207, 208, 226, 300, 301, 302, 303, 304, 305, 306, 307, 308],
      hc_passive_unhealthy_statuses = [429, 500, 503]\<rparr>"

record HealthChecker =
  hk_targets :: "(string \<times> (string \<times> TargetHealth) list) list"
  hk_configs :: "(string \<times> HealthCheckerConfig) list"

definition health_new :: HealthChecker where
  "health_new = \<lparr>hk_targets = [], hk_configs = []\<rparr>"

section \<open>Operations\<close>

definition register_upstream ::
    "HealthChecker \<Rightarrow> string \<Rightarrow> string list \<Rightarrow> HealthCheckerConfig \<Rightarrow> HealthChecker" where
  "register_upstream hc upstream_name target_addrs config =
     (let target_map = foldl (\<lambda>m addr. AList.update addr target_health_default m) [] target_addrs
      in hc\<lparr>hk_targets := AList.update upstream_name target_map (hk_targets hc),
            hk_configs := AList.update upstream_name config (hk_configs hc)\<rparr>)"

definition target_health :: "HealthChecker \<Rightarrow> string \<Rightarrow> string \<Rightarrow> TargetHealth option" where
  "target_health hc upstream_name target_addr =
     (case map_of (hk_targets hc) upstream_name of
        None \<Rightarrow> None
      | Some target_map \<Rightarrow> map_of target_map target_addr)"

text \<open>Targets that were never registered count as healthy.\<close>

definition is_healthy :: "HealthChecker \<Rightarrow> string \<Rightarrow> string \<Rightarrow> bool" where
  "is_healthy hc upstream_name target_addr =
     (case target_health hc upstream_name target_addr of
        None \<Rightarrow> True
      | Some health \<Rightarrow> th_status health = Healthy)"

definition update_health ::
    "HealthChecker \<Rightarrow> string \<Rightarrow> string \<Rightarrow> (TargetHealth \<Rightarrow> HealthCheckerConfig \<Rightarrow> TargetHealth) \<Rightarrow> HealthChecker" where
  "update_health hc upstream_name target_addr f =
     (case map_of (hk_configs hc) upstream_name of
        None \<Rightarrow> hc
      | Some config \<Rightarrow>
          (case map_of (hk_targets hc) upstream_name of
             None \<Rightarrow> hc
           | Some target_map \<Rightarrow>
               (case map_of target_map target_addr of
                  None \<Rightarrow> hc
                | Some health \<Rightarrow>
                    hc\<lparr>hk_targets := AList.update upstream_name
                         (AList.update target_addr (f health config) target_map) (hk_targets hc)\<rparr>)))"

text \<open>\<open>threshold > 0 && count >= threshold\<close>.\<close>

definition reached :: "i32 \<Rightarrow> i32 \<Rightarrow> bool" where
  "reached threshold n = (0 < sint threshold \<and> sint threshold \<le> sint n)"

definition on_success :: "TargetHealth \<Rightarrow> HealthCheckerConfig \<Rightarrow> TargetHealth" where
  "on_success health config =
     (let h = health\<lparr>th_successes := th_successes health + 1, th_tcp_failures := 0, th_timeouts := 0,
                     th_http_failures := 0\<rparr>
      in if reached (hc_healthy_successes config) (th_successes h) then h\<lparr>th_status := Healthy\<rparr> else h)"

definition on_http_status :: "u16 \<Rightarrow> TargetHealth \<Rightarrow> HealthCheckerConfig \<Rightarrow> TargetHealth" where
  "on_http_status status_code health config =
     (if ucast status_code \<in> set (hc_passive_unhealthy_statuses config)
      then
        (let h = health\<lparr>th_http_failures := th_http_failures health + 1, th_successes := 0\<rparr>
         in if reached (hc_unhealthy_http_failures config) (th_http_failures h)
            then h\<lparr>th_status := Unhealthy\<rparr> else h)
      else if ucast status_code \<in> set (hc_passive_healthy_statuses config)
      then
        (let h = health\<lparr>th_successes := th_successes health + 1, th_http_failures := 0\<rparr>
         in if reached (hc_healthy_successes config) (th_successes h) then h\<lparr>th_status := Healthy\<rparr> else h)
      else health)"

definition on_tcp_failure :: "TargetHealth \<Rightarrow> HealthCheckerConfig \<Rightarrow> TargetHealth" where
  "on_tcp_failure health config =
     (let h = health\<lparr>th_tcp_failures := th_tcp_failures health + 1, th_successes := 0\<rparr>
      in if reached (hc_unhealthy_tcp_failures config) (th_tcp_failures h)
         then h\<lparr>th_status := Unhealthy\<rparr> else h)"

definition on_timeout :: "TargetHealth \<Rightarrow> HealthCheckerConfig \<Rightarrow> TargetHealth" where
  "on_timeout health config =
     (let h = health\<lparr>th_timeouts := th_timeouts health + 1, th_successes := 0\<rparr>
      in if reached (hc_unhealthy_timeouts config) (th_timeouts h)
         then h\<lparr>th_status := Unhealthy\<rparr> else h)"

definition report_success :: "HealthChecker \<Rightarrow> string \<Rightarrow> string \<Rightarrow> HealthChecker" where
  "report_success hc upstream_name target_addr = update_health hc upstream_name target_addr on_success"

definition report_http_status :: "HealthChecker \<Rightarrow> string \<Rightarrow> string \<Rightarrow> u16 \<Rightarrow> HealthChecker" where
  "report_http_status hc upstream_name target_addr status_code =
     update_health hc upstream_name target_addr (on_http_status status_code)"

definition report_tcp_failure :: "HealthChecker \<Rightarrow> string \<Rightarrow> string \<Rightarrow> HealthChecker" where
  "report_tcp_failure hc upstream_name target_addr = update_health hc upstream_name target_addr on_tcp_failure"

definition report_timeout :: "HealthChecker \<Rightarrow> string \<Rightarrow> string \<Rightarrow> HealthChecker" where
  "report_timeout hc upstream_name target_addr = update_health hc upstream_name target_addr on_timeout"

definition get_upstream_health :: "HealthChecker \<Rightarrow> string \<Rightarrow> (string \<times> HealthStatus) list" where
  "get_upstream_health hc upstream_name =
     (case map_of (hk_targets hc) upstream_name of
        None \<Rightarrow> []
      | Some target_map \<Rightarrow> map (\<lambda>(addr, health). (addr, th_status health)) target_map)"

section \<open>Active probes\<close>

text \<open>
  What the connection to an address answers to a request within the five seconds: the text that was
  read (at most 1024 bytes), an error, or nothing in time.
\<close>

datatype reply = Reply string | IoError | NoReply

datatype check_result = Checked u16 | CheckFailed | CheckTimeout

definition crlf :: string where
  "crlf = [CHR 0x0D, CHR 0x0A]"

definition http_request :: "string \<Rightarrow> string \<Rightarrow> string" where
  "http_request path host =
     ''GET '' @ path @ '' HTTP/1.1'' @ crlf @ ''Host: '' @ host @ crlf @ ''Connection: close'' @ crlf @
     ''User-Agent: kong-rust-healthcheck/0.1'' @ crlf @ crlf"

text \<open>The second word of the first line.\<close>

definition parse_status :: "string \<Rightarrow> u16 option" where
  "parse_status response =
     (let line = takeWhile (\<lambda>c. c \<noteq> CHR 0x0A) response
      in case split_whitespace line of
           _ # status_str # _ \<Rightarrow> map_option of_nat (parse_unsigned 65535 status_str)
         | _ \<Rightarrow> None)"

definition split_url :: "string \<Rightarrow> string \<times> string" where
  "split_url url =
     (let rest = (case strip_prefix_str ''http://'' url of Some r \<Rightarrow> r | None \<Rightarrow> url)
      in case find_sub ''/'' rest of
           Some i \<Rightarrow> (take i rest, drop i rest)
         | None \<Rightarrow> (rest, ''/''))"

definition do_http_check :: "(string \<Rightarrow> string \<Rightarrow> reply) \<Rightarrow> string \<Rightarrow> check_result" where
  "do_http_check exchange url =
     (let (addr, path) = split_url url;
          host = hd (split_char (CHR '':'') addr)
      in case exchange addr (http_request path host) of
           NoReply \<Rightarrow> CheckTimeout
         | IoError \<Rightarrow> CheckFailed
         | Reply response \<Rightarrow>
             if response = [] then CheckFailed
             else (case parse_status response of None \<Rightarrow> CheckFailed | Some s \<Rightarrow> Checked s))"

text \<open>
  The tasks of a round, collected under the read locks: every target of every upstream with a
  positive interval. The iteration orders of the two hash maps are parameters.
\<close>

definition check_tasks ::
    "((string \<times> HealthCheckerConfig) list \<Rightarrow> (string \<times> HealthCheckerConfig) list) \<Rightarrow>
     (string list \<Rightarrow> string list) \<Rightarrow> HealthChecker \<Rightarrow> (string \<times> string \<times> string) list" where
  "check_tasks iter_configs iter_keys hc =
     concat (map (\<lambda>(upstream_name, config).
       if hc_active_interval config \<le> 0 then []
       else case map_of (hk_targets hc) upstream_name of
              None \<Rightarrow> []
            | Some target_map \<Rightarrow>
                map (\<lambda>addr. (upstream_name, addr, hc_active_http_path config)) (iter_keys (map fst target_map)))
     (iter_configs (hk_configs hc)))"

definition run_check ::
    "(string \<Rightarrow> string \<Rightarrow> reply) \<Rightarrow> HealthChecker \<Rightarrow> string \<times> string \<times> string \<Rightarrow> HealthChecker" where
  "run_check exchange hc task =
     (case task of (upstream_name, addr, path) \<Rightarrow>
        (case do_http_check exchange (''http://'' @ addr @ path) of
           Checked status \<Rightarrow> report_http_status hc upstream_name addr status
         | CheckFailed \<Rightarrow> report_tcp_failure hc upstream_name addr
         | CheckTimeout \<Rightarrow> report_timeout hc upstream_name addr))"

definition run_active_checks ::
    "((string \<times> HealthCheckerConfig) list \<Rightarrow> (string \<times> HealthCheckerConfig) list) \<Rightarrow>
     (string list \<Rightarrow> string list) \<Rightarrow> (string \<Rightarrow> string \<Rightarrow> reply) \<Rightarrow> HealthChecker \<Rightarrow> HealthChecker" where
  "run_active_checks iter_configs iter_keys exchange hc =
     foldl (run_check exchange) hc (check_tasks iter_configs iter_keys hc)"

section \<open>Histories: the abstract specification\<close>

datatype health_event = Ev_success | Ev_http u16 | Ev_tcp | Ev_timeout

fun on_event :: "health_event \<Rightarrow> TargetHealth \<Rightarrow> HealthCheckerConfig \<Rightarrow> TargetHealth" where
  "on_event Ev_success = on_success"
| "on_event (Ev_http code) = on_http_status code"
| "on_event Ev_tcp = on_tcp_failure"
| "on_event Ev_timeout = on_timeout"

fun report :: "HealthChecker \<Rightarrow> string \<times> string \<times> health_event \<Rightarrow> HealthChecker" where
  "report hc (u, a, Ev_success) = report_success hc u a"
| "report hc (u, a, Ev_http code) = report_http_status hc u a code"
| "report hc (u, a, Ev_tcp) = report_tcp_failure hc u a"
| "report hc (u, a, Ev_timeout) = report_timeout hc u a"

definition bad_http :: "HealthCheckerConfig \<Rightarrow> health_event \<Rightarrow> bool" where
  "bad_http config e = (case e of Ev_http code \<Rightarrow> ucast code \<in> set (hc_passive_unhealthy_statuses config) | _ \<Rightarrow> False)"

definition good_http :: "HealthCheckerConfig \<Rightarrow> health_event \<Rightarrow> bool" where
  "good_http config e =
     (case e of
        Ev_http code \<Rightarrow> ucast code \<in> set (hc_passive_healthy_statuses config) \<and> \<not> bad_http config e
      | _ \<Rightarrow> False)"

definition good :: "HealthCheckerConfig \<Rightarrow> health_event \<Rightarrow> bool" where
  "good config e = (e = Ev_success \<or> good_http config e)"

definition bad :: "HealthCheckerConfig \<Rightarrow> health_event \<Rightarrow> bool" where
  "bad config e = (e = Ev_tcp \<or> e = Ev_timeout \<or> bad_http config e)"

text \<open>
  A history lists the events of one target, the latest first. \<open>tally P R h\<close> counts the events
  of kind \<open>P\<close> since the last one of kind \<open>R\<close>.
\<close>

definition tally :: "('e \<Rightarrow> bool) \<Rightarrow> ('e \<Rightarrow> bool) \<Rightarrow> 'e list \<Rightarrow> nat" where
  "tally P R h = length (filter P (takeWhile (\<lambda>e. \<not> R e) h))"

definition at_least :: "i32 \<Rightarrow> nat \<Rightarrow> bool" where
  "at_least threshold n = (0 < sint threshold \<and> sint threshold \<le> int n)"

fun verdict :: "HealthCheckerConfig \<Rightarrow> health_event list \<Rightarrow> HealthStatus" where
  "verdict config [] = Healthy"
| "verdict config (e # h) =
     (if e = Ev_tcp \<and> at_least (hc_unhealthy_tcp_failures config) (tally (\<lambda>x. x = Ev_tcp) (\<lambda>x. x = Ev_success) (e # h))
         \<or> e = Ev_timeout \<and> at_least (hc_unhealthy_timeouts config) (tally (\<lambda>x. x = Ev_timeout) (\<lambda>x. x = Ev_success) (e # h))
         \<or> bad_http config e \<and> at_least (hc_unhealthy_http_failures config) (tally (bad_http config) (good config) (e # h))
      then Unhealthy
      else if good config e \<and> at_least (hc_healthy_successes config) (tally (good config) (bad config) (e # h))
      then Healthy
      else verdict config h)"

definition history :: "string \<Rightarrow> string \<Rightarrow> (string \<times> string \<times> health_event) list \<Rightarrow> health_event list" where
  "history u a es = rev (map (\<lambda>(_, _, e). e) (filter (\<lambda>(u', a', _). u' = u \<and> a' = a) es))"

section \<open>Lookups and updates\<close>

lemma target_health_update:
  "target_health (update_health hc u a f) u' a' =
     (if u' = u \<and> a' = a
      then (case map_of (hk_configs hc) u of
              None \<Rightarrow> target_health hc u a
            | Some config \<Rightarrow> map_option (\<lambda>h. f h config) (target_health hc u a))
      else target_health hc u' a')"
  by (auto simp: update_health_def target_health_def update_conv' split: option.splits)

lemma configs_update [simp]: "hk_configs (update_health hc u a f) = hk_configs hc"
  by (simp add: update_health_def split: option.splits)

lemma report_update: "report hc (u, a, e) = update_health hc u a (on_event e)"
  by (cases e) (simp_all add: report_success_def report_http_status_def report_tcp_failure_def report_timeout_def)

lemma map_of_fresh_targets:
  "map_of (foldl (\<lambda>m addr. AList.update addr v m) m0 addrs) a = (if a \<in> set addrs then Some v else map_of m0 a)"
  by (induction addrs arbitrary: m0) (auto simp: update_conv')

lemma register_lookup:
  "map_of (hk_configs (register_upstream hc u addrs config)) u = Some config"
  "target_health (register_upstream hc u addrs config) u a = (if a \<in> set addrs then Some target_health_default else None)"
  by (simp_all add: register_upstream_def target_health_def map_of_fresh_targets update_conv')

text \<open>Well-formed tables: every key once, as in a hash map. Every operation keeps this.\<close>

definition health_ok :: "HealthChecker \<Rightarrow> bool" where
  "health_ok hc =
     (distinct (map fst (hk_configs hc)) \<and> distinct (map fst (hk_targets hc)) \<and>
      (\<forall>(u, m) \<in> set (hk_targets hc). distinct (map fst m)))"

lemma health_ok_targets:
  "health_ok hc \<Longrightarrow> distinct (map fst m) \<Longrightarrow> health_ok (hc\<lparr>hk_targets := AList.update u m (hk_targets hc)\<rparr>)"
  using set_update_subset [of u m "hk_targets hc"] by (auto simp: health_ok_def distinct_update)

lemma health_ok_lookup: "health_ok hc \<Longrightarrow> map_of (hk_targets hc) u = Some m \<Longrightarrow> distinct (map fst m)"
  by (auto simp: health_ok_def dest: map_of_SomeD)

lemma health_ok_update: "health_ok hc \<Longrightarrow> health_ok (update_health hc u a f)"
  unfolding update_health_def
  by (auto split: option.splits intro!: health_ok_targets distinct_update intro: health_ok_lookup)

lemma health_ok_report: "health_ok hc \<Longrightarrow> health_ok (report hc ev)"
  by (cases ev) (simp only: report_update health_ok_update)

lemma distinct_fresh_targets:
  "distinct (map fst m0) \<Longrightarrow> distinct (map fst (foldl (\<lambda>m addr. AList.update addr v m) m0 addrs))"
  by (induction addrs arbitrary: m0) (auto intro: distinct_update)

lemma health_ok_register: "health_ok hc \<Longrightarrow> health_ok (register_upstream hc u addrs config)"
proof -
  assume "health_ok hc"
  then have "health_ok (hc\<lparr>hk_configs := AList.update u config (hk_configs hc)\<rparr>)"
    by (simp add: health_ok_def distinct_update)
  from health_ok_targets [OF this distinct_fresh_targets [of "[]" target_health_default addrs], of u] show ?thesis
    by (simp add: register_upstream_def Let_def health_ok_def)
qed

lemma health_ok_new: "health_ok health_new"
  by (simp add: health_ok_def health_new_def)

section \<open>Refinement\<close>

lemma reached_of_nat: "n < 2 ^ 31 \<Longrightarrow> reached t (of_nat n) = at_least t n"
proof -
  assume n: "n < 2 ^ 31"
  then have "sint (of_nat n :: i32) = int n"
    by (simp add: signed_of_nat signed_take_bit_int_eq_self)
  then show ?thesis by (simp add: reached_def at_least_def)
qed

lemma tally_Cons: "tally P R (e # h) = (if R e then 0 else of_bool (P e) + tally P R h)"
  by (simp add: tally_def)

lemma tally_le: "tally P R h \<le> length h"
  unfolding tally_def using length_filter_le [of P] length_takeWhile_le [of _ h] by (meson le_trans)

definition summary :: "HealthCheckerConfig \<Rightarrow> health_event list \<Rightarrow> TargetHealth" where
  "summary config h =
     \<lparr>th_status = verdict config h,
      th_successes = of_nat (tally (good config) (bad config) h),
      th_tcp_failures = of_nat (tally (\<lambda>x. x = Ev_tcp) (\<lambda>x. x = Ev_success) h),
      th_timeouts = of_nat (tally (\<lambda>x. x = Ev_timeout) (\<lambda>x. x = Ev_success) h),
      th_http_failures = of_nat (tally (bad_http config) (good config) h)\<rparr>"

lemma reached_tally:
  "length h < 2 ^ 31 - 1 \<Longrightarrow> reached t (of_nat (tally P R h) + 1) = at_least t (Suc (tally P R h))"
  using reached_of_nat [of "Suc (tally P R h)" t] tally_le [of P R h] by (simp add: add.commute)

lemma on_event_summary:
  assumes "length h < 2 ^ 31 - 1"
  shows "on_event e (summary config h) config = summary config (e # h)"
proof (cases e)
  case Ev_success
  then show ?thesis
    using assms by (simp add: summary_def on_success_def tally_Cons reached_tally good_def bad_def good_http_def bad_http_def)
next
  case (Ev_http code)
  then show ?thesis
    using assms by (simp add: summary_def on_http_status_def tally_Cons reached_tally good_def bad_def good_http_def bad_http_def)
next
  case Ev_tcp
  then show ?thesis
    using assms by (simp add: summary_def on_tcp_failure_def tally_Cons reached_tally good_def bad_def good_http_def bad_http_def)
next
  case Ev_timeout
  then show ?thesis
    using assms by (simp add: summary_def on_timeout_def tally_Cons reached_tally good_def bad_def good_http_def bad_http_def)
qed

definition tracks :: "HealthChecker \<Rightarrow> string \<Rightarrow> string \<Rightarrow> HealthCheckerConfig \<Rightarrow> health_event list \<Rightarrow> bool" where
  "tracks hc u a config h =
     (map_of (hk_configs hc) u = Some config \<and> target_health hc u a = Some (summary config h))"

lemma tracks_register: "a \<in> set addrs \<Longrightarrow> tracks (register_upstream hc u addrs config) u a config []"
  by (simp add: tracks_def register_lookup summary_def tally_def target_health_default_def)

lemma history_snoc: "history u a (es @ [(u', a', e)]) = (if u' = u \<and> a' = a then [e] else []) @ history u a es"
  by (simp add: history_def)

lemma history_append: "history u a (es @ fs) = history u a fs @ history u a es"
  by (simp add: history_def)

lemma length_history: "length (history u a es) \<le> length es"
  by (simp add: history_def)

lemma tracks_reports:
  assumes "tracks hc u a config []" and "length es < 2 ^ 31"
  shows "tracks (foldl report hc es) u a config (history u a es)"
  using assms(2)
proof (induction es rule: rev_induct)
  case Nil
  then show ?case using assms(1) by (simp add: history_def)
next
  case (snoc ev es)
  obtain u' a' e where ev: "ev = (u', a', e)" by (metis prod_cases3)
  have "tracks (foldl report hc es) u a config (history u a es)" using snoc by simp
  moreover have "length (history u a es) < 2 ^ 31 - 1" using snoc.prems length_history [of u a es] by simp
  ultimately show ?case
    by (auto simp: tracks_def ev report_update target_health_update history_snoc on_event_summary)
qed

lemma tracked_health: "tracks hc u a config h \<Longrightarrow> is_healthy hc u a = (verdict config h = Healthy)"
  by (simp add: tracks_def is_healthy_def summary_def)

lemmas registered_reports = tracked_health [OF tracks_reports [OF tracks_register]]

text \<open>
  The checker implements its specification: after an upstream is registered, whatever reports
  about whatever targets arrive in whatever order (fewer than \<open>2 ^ 31\<close> of them), a target of the
  upstream is healthy exactly when the verdict on the history of its own events is. The verdict
  counts what the code counts, which is not always a number of consecutive failures (see below).
\<close>

theorem checker_refines_verdict:
  assumes "a \<in> set addrs" and "length es < 2 ^ 31"
  shows "is_healthy (foldl report (register_upstream hc u addrs config) es) u a =
    (verdict config (history u a es) = Healthy)"
  by (rule registered_reports [OF assms])

definition ex_health_config :: HealthCheckerConfig where
  "ex_health_config = health_config_default
     \<lparr>hc_active_interval := 5, hc_healthy_successes := 2, hc_unhealthy_tcp_failures := 2, hc_unhealthy_http_failures := 3\<rparr>"

lemmas health_eval = ex_health_config_def health_config_default_def history_def tally_def at_least_def
  good_def bad_def good_http_def bad_http_def

theorem checker_refines_verdict_witness:
  "is_healthy (foldl report (register_upstream health_new ''up'' [''a'', ''b''] ex_health_config)
     [(''up'', ''a'', Ev_tcp), (''up'', ''b'', Ev_http 500), (''up'', ''b'', Ev_tcp), (''up'', ''b'', Ev_http 200)]) ''up'' ''a''"
  by (subst checker_refines_verdict) (simp_all add: health_eval)

lemma tally_run: "list_all P fs \<Longrightarrow> list_all (\<lambda>e. \<not> R e) fs \<Longrightarrow> tally P R (fs @ h) = length fs + tally P R h"
  by (induction fs) (simp_all add: tally_Cons)

lemma at_least_mono: "at_least t n \<Longrightarrow> n \<le> m \<Longrightarrow> at_least t m"
  by (simp add: at_least_def)

definition failure_kind :: "HealthCheckerConfig \<Rightarrow> (health_event \<Rightarrow> bool) \<Rightarrow> i32 \<Rightarrow> bool" where
  "failure_kind config P t =
     (P = (\<lambda>e. e = Ev_tcp) \<and> t = hc_unhealthy_tcp_failures config \<or>
      P = (\<lambda>e. e = Ev_timeout) \<and> t = hc_unhealthy_timeouts config \<or>
      P = bad_http config \<and> t = hc_unhealthy_http_failures config)"

lemma bad_http_not_good: "bad_http config e \<Longrightarrow> \<not> good config e"
  by (auto simp: good_def good_http_def bad_http_def split: health_event.splits)

lemma good_not_bad: "good config e \<Longrightarrow> \<not> bad config e"
  by (auto simp: good_def bad_def good_http_def bad_http_def split: health_event.splits)

lemma verdict_failures:
  assumes "failure_kind config P t" and "list_all P fs" and "at_least t (length fs)"
  shows "verdict config (fs @ h) = Unhealthy"
proof -
  obtain e fs' where fs: "fs = e # fs'" using assms(3) by (cases fs) (auto simp: at_least_def)
  have n: "at_least t (tally P R (fs @ h))" if "list_all (\<lambda>e. \<not> R e) fs" for R
    using at_least_mono [OF assms(3)] tally_run [OF assms(2) that, of h] by simp
  consider "P = (\<lambda>e. e = Ev_tcp)" "t = hc_unhealthy_tcp_failures config"
    | "P = (\<lambda>e. e = Ev_timeout)" "t = hc_unhealthy_timeouts config"
    | "P = bad_http config" "t = hc_unhealthy_http_failures config"
    using assms(1) by (auto simp: failure_kind_def)
  then show ?thesis
  proof cases
    case 1
    then have "list_all (\<lambda>e. e \<noteq> Ev_success) fs" using assms(2) by (auto simp: list_all_iff)
    from n [OF this] show ?thesis using 1 assms(2) by (simp add: fs)
  next
    case 2
    then have "list_all (\<lambda>e. e \<noteq> Ev_success) fs" using assms(2) by (auto simp: list_all_iff)
    from n [OF this] show ?thesis using 2 assms(2) by (simp add: fs)
  next
    case 3
    then have "list_all (\<lambda>e. \<not> good config e) fs" using assms(2) bad_http_not_good by (auto simp: list_all_iff)
    from n [OF this] show ?thesis using 3 assms(2) by (simp add: fs)
  qed
qed

lemma verdict_successes:
  assumes "list_all (good config) gs" and "at_least (hc_healthy_successes config) (length gs)"
  shows "verdict config (gs @ h) = Healthy"
proof -
  obtain e gs' where gs: "gs = e # gs'" using assms(2) by (cases gs) (auto simp: at_least_def)
  have "list_all (\<lambda>e. \<not> bad config e) gs" using assms(1) good_not_bad by (auto simp: list_all_iff)
  from tally_run [OF assms(1) this, of h]
  have "at_least (hc_healthy_successes config) (tally (good config) (bad config) (gs @ h))"
    using at_least_mono [OF assms(2)] by simp
  moreover have "good config e" using assms(1) by (simp add: gs)
  moreover from this have "\<not> bad config e" by (rule good_not_bad)
  ultimately show ?thesis by (simp add: gs bad_def)
qed

lemma failure_kinds:
  "failure_kind config (\<lambda>e. e = Ev_tcp) (hc_unhealthy_tcp_failures config)"
  "failure_kind config (\<lambda>e. e = Ev_timeout) (hc_unhealthy_timeouts config)"
  "failure_kind config (bad_http config) (hc_unhealthy_http_failures config)"
  by (auto simp: failure_kind_def)

lemma verdict_needs_failures:
  "verdict config h \<noteq> Healthy \<Longrightarrow> \<exists>P t. failure_kind config P t \<and> at_least t (length (filter P h))"
proof (induction h)
  case (Cons e h)
  have le: "tally P R (e # h) \<le> length (filter P (e # h))" for P R
    unfolding tally_def by (metis append_take_drop_id filter_append le_add1 length_append takeWhile_eq_take)
  note up = at_least_mono [OF _ le]
  show ?case
  proof (cases "verdict config h = Healthy")
    case False
    with Cons.IH obtain P t where P: "failure_kind config P t" "at_least t (length (filter P h))" by blast
    have "at_least t (length (filter P (e # h)))" by (rule at_least_mono [OF P(2)]) simp
    with P(1) show ?thesis by blast
  next
    case True
    have guard: "p1 \<or> p2 \<or> p3"
      if "(if q1 \<and> p1 \<or> q2 \<and> p2 \<or> q3 \<and> p3 then y else if d then x else x) \<noteq> x" for p1 p2 p3 q1 q2 q3 d and x y :: HealthStatus
      using that by presburger
    from guard [OF Cons.prems [unfolded verdict.simps(2) True]] consider
        "at_least (hc_unhealthy_tcp_failures config) (tally (\<lambda>x. x = Ev_tcp) (\<lambda>x. x = Ev_success) (e # h))"
      | "at_least (hc_unhealthy_timeouts config) (tally (\<lambda>x. x = Ev_timeout) (\<lambda>x. x = Ev_success) (e # h))"
      | "at_least (hc_unhealthy_http_failures config) (tally (bad_http config) (good config) (e # h))"
      by blast
    then show ?thesis
    proof cases
      case 1
      from failure_kinds(1) up [OF this] show ?thesis by blast
    next
      case 2
      from failure_kinds(2) up [OF this] show ?thesis by blast
    next
      case 3
      from failure_kinds(3) up [OF this] show ?thesis by blast
    qed
  qed
qed simp

text \<open>
  C20. The thresholds do what they say. Take a target of a registered upstream, after any reports about
  any targets. If the reports that then arrive about it are all failures of one kind (TCP failures,
  timeouts or unhealthy HTTP statuses) and at least as many as the threshold of that kind, it is
  unhealthy, whatever happened before; and if all reports about it after those are successes and at
  least as many as the threshold for recovery, it is healthy again. Reports about other targets may come
  in between. And a target is only ever found unhealthy if the failures of one kind ever reported of
  it are at least as many as the threshold of that kind. All this for fewer than \<open>2 ^ 31\<close> reports,
  since the counters wrap, and for thresholds above zero: a threshold of zero switches a check off.
\<close>

theorem thresholds_mark_and_recover:
  assumes "a \<in> set addrs" and "failure_kind config P t"
    and "list_all P (history u a fs)" and "at_least t (length (history u a fs))"
    and "list_all (good config) (history u a gs)" and "at_least (hc_healthy_successes config) (length (history u a gs))"
    and "length es + length fs + length gs < 2 ^ 31"
    and "hc1 = foldl report (register_upstream hc u addrs config) es"
  shows "\<not> is_healthy (foldl report hc1 fs) u a \<and> is_healthy (foldl report (foldl report hc1 fs) gs) u a \<and>
    (\<not> is_healthy hc1 u a \<longrightarrow> (\<exists>Q s. failure_kind config Q s \<and> at_least s (length (filter Q (history u a es)))))"
proof (intro conjI impI)
  note run = registered_reports [OF assms(1)]
  show "\<not> is_healthy (foldl report hc1 fs) u a"
    using run [of "es @ fs" hc u config] assms(7) verdict_failures [OF assms(2-4)] by (simp add: assms(8) history_append)
  show "is_healthy (foldl report (foldl report hc1 fs) gs) u a"
    using run [of "es @ fs @ gs" hc u config] assms(7) verdict_successes [OF assms(5,6)] by (simp add: assms(8) history_append)
  assume "\<not> is_healthy hc1 u a"
  then show "\<exists>Q s. failure_kind config Q s \<and> at_least s (length (filter Q (history u a es)))"
    using run [of es hc u config] assms(7) verdict_needs_failures by (simp add: assms(8))
qed

theorem thresholds_mark_and_recover_witness:
  "\<not> is_healthy (foldl report (register_upstream health_new ''up'' [''a''] ex_health_config)
     [(''up'', ''a'', Ev_tcp), (''up'', ''b'', Ev_http 200), (''up'', ''a'', Ev_tcp)]) ''up'' ''a'' \<and>
   is_healthy (foldl report (foldl report (register_upstream health_new ''up'' [''a''] ex_health_config)
     [(''up'', ''a'', Ev_tcp), (''up'', ''b'', Ev_http 200), (''up'', ''a'', Ev_tcp)]) [(''up'', ''a'', Ev_http 200), (''up'', ''a'', Ev_success)]) ''up'' ''a''"
  using thresholds_mark_and_recover [where a = "''a''" and addrs = "[''a'']" and config = ex_health_config and P = "\<lambda>e. e = Ev_tcp" and t = 2
      and u = "''up''" and fs = "[(''up'', ''a'', Ev_tcp), (''up'', ''b'', Ev_http 200), (''up'', ''a'', Ev_tcp)]"
      and gs = "[(''up'', ''a'', Ev_http 200), (''up'', ''a'', Ev_success)]" and es = "[]" and hc = health_new]
  by (simp add: failure_kind_def health_eval del: foldl_Cons)

text \<open>
  The counters of TCP failures and timeouts are not counts of consecutive failures: healthy
  responses do not reset them. With a threshold of two, two TCP failures between which the target
  answered as often as it takes to be declared healthy take it out of rotation.
\<close>

theorem tcp_failures_not_consecutive:
  "\<not> is_healthy (foldl report (register_upstream health_new ''up'' [''a''] ex_health_config)
      [(''up'', ''a'', Ev_tcp), (''up'', ''a'', Ev_http 200), (''up'', ''a'', Ev_http 200), (''up'', ''a'', Ev_tcp)]) ''up'' ''a''"
  by (subst registered_reports) (simp_all add: health_eval)

section \<open>A round of active checks\<close>

definition probe_event :: "(string \<Rightarrow> string \<Rightarrow> reply) \<Rightarrow> string \<Rightarrow> string \<Rightarrow> health_event" where
  "probe_event exchange addr path =
     (case do_http_check exchange (''http://'' @ addr @ path) of
        Checked status \<Rightarrow> Ev_http status | CheckFailed \<Rightarrow> Ev_tcp | CheckTimeout \<Rightarrow> Ev_timeout)"

lemma run_check_report: "run_check exchange hc (u, a, path) = report hc (u, a, probe_event exchange a path)"
  by (simp add: run_check_def probe_event_def split: check_result.splits)

lemma target_health_report:
  "target_health (report hc (u, a, e)) u' a' =
     (if u' = u \<and> a' = a
      then (case map_of (hk_configs hc) u of
              None \<Rightarrow> target_health hc u a
            | Some config \<Rightarrow> map_option (\<lambda>h. on_event e h config) (target_health hc u a))
      else target_health hc u' a')"
  by (simp only: report_update target_health_update)

lemma configs_report [simp]: "hk_configs (report hc ev) = hk_configs hc"
  by (cases ev) (simp only: report_update configs_update)

lemma configs_run_check [simp]: "hk_configs (run_check exchange hc task) = hk_configs hc"
  by (cases task) (simp only: run_check_report configs_report)

text \<open>Only the tasks of a target change it.\<close>

definition tasks_of :: "string \<Rightarrow> string \<Rightarrow> (string \<times> string \<times> string) list \<Rightarrow> (string \<times> string \<times> string) list" where
  "tasks_of u a ts = filter (\<lambda>(u', a', _). u' = u \<and> a' = a) ts"

lemma run_checks_target:
  "map_of (hk_configs hc) u = Some config \<Longrightarrow>
   target_health (foldl (run_check exchange) hc ts) u a =
     foldl (\<lambda>h (_, _, path). map_option (\<lambda>h. on_event (probe_event exchange a path) h config) h)
       (target_health hc u a) (tasks_of u a ts)"
proof (induction ts arbitrary: hc)
  case (Cons t ts)
  obtain u' a' path where "t = (u', a', path)" by (metis prod_cases3)
  with Cons show ?case by (auto simp: tasks_of_def run_check_report target_health_report)
qed (simp add: tasks_of_def)

lemma tasks_of_round:
  assumes ok: "health_ok hc" and it: "\<And>m. iterates iter_configs m" "\<And>m. iterates iter_keys m"
    and c: "map_of (hk_configs hc) u = Some config" and h: "target_health hc u a = Some h"
  shows "tasks_of u a (check_tasks iter_configs iter_keys hc) =
    (if hc_active_interval config \<le> 0 then [] else [(u, a, hc_active_http_path config)])"
proof -
  obtain m where m: "map_of (hk_targets hc) u = Some m" "map_of m a = Some h"
    using h by (auto simp: target_health_def split: option.splits)
  let ?f = "\<lambda>(v, cf). if hc_active_interval cf \<le> 0 then []
       else case map_of (hk_targets hc) v of
              None \<Rightarrow> []
            | Some tm \<Rightarrow> map (\<lambda>addr. (v, addr, hc_active_http_path cf)) (iter_keys (map fst tm))"
  have skip: "tasks_of u a (?f e) = []" if "fst e \<noteq> u" for e
    using that by (auto simp: tasks_of_def filter_empty_conv split: option.splits prod.splits)
  have concat: "tasks_of u a (concat (map ?f es)) = concat (map (\<lambda>e. tasks_of u a (?f e)) (filter (\<lambda>e. fst e = u) es))" for es
  proof (induction es)
    case (Cons e es)
    then show ?case using skip [of e] by (auto simp: tasks_of_def)
  qed (simp add: tasks_of_def)
  have "distinct (map fst (iter_configs (hk_configs hc)))" "map_of (iter_configs (hk_configs hc)) u = Some config"
    using ok c it(1) by (simp_all add: health_ok_def iterates_distinct_fst iterates_map_of)
  then have "filter (\<lambda>e. fst e = u) (iter_configs (hk_configs hc)) = [(u, config)]" by (simp add: filter_key)
  moreover have "distinct (iter_keys (map fst m))" "a \<in> set (iter_keys (map fst m))"
    using health_ok_lookup [OF ok m(1)] m(2)
    by (auto simp: iterates_distinct [OF it(2)] iterates_set [OF it(2)] dest: map_of_SomeD intro: rev_image_eqI)
  then have "filter (\<lambda>x. x = a) (iter_keys (map fst m)) = [a]" by (simp add: filter_one)
  ultimately show ?thesis
    using m by (simp add: check_tasks_def concat) (simp add: tasks_of_def filter_map o_def)
qed

text \<open>
  A round of active checks reports every target exactly once, in whatever order the hash maps
  are walked: each registered target of an upstream with a positive interval is changed by the one
  event its own probe gives (a status, a failure or a timeout), and no other target changes.
\<close>

theorem active_round_checks_each_once:
  assumes "health_ok hc" and "\<And>m. iterates iter_configs m" and "\<And>m. iterates iter_keys m"
    and "map_of (hk_configs hc) u = Some config" and "target_health hc u a = Some h"
  shows "target_health (run_active_checks iter_configs iter_keys exchange hc) u a =
    Some (if hc_active_interval config \<le> 0 then h
          else case do_http_check exchange (''http://'' @ a @ hc_active_http_path config) of
                 Checked status \<Rightarrow> on_http_status status h config
               | CheckFailed \<Rightarrow> on_tcp_failure h config
               | CheckTimeout \<Rightarrow> on_timeout h config)"
  unfolding run_active_checks_def run_checks_target [OF assms(4)] tasks_of_round [OF assms]
  by (simp add: assms(5) probe_event_def split: check_result.splits)

theorem active_round_checks_each_once_witness:
  "target_health (run_active_checks rev rev (\<lambda>addr request. Reply ''HTTP/1.1 500 Oops'')
     (register_upstream health_new ''up'' [''a:80'', ''b:80''] ex_health_config)) ''up'' ''b:80'' =
   Some \<lparr>th_status = Healthy, th_successes = 0, th_tcp_failures = 0, th_timeouts = 0, th_http_failures = 1\<rparr>"
proof -
  let ?hc = "register_upstream health_new ''up'' [''a:80'', ''b:80''] ex_health_config"
  have ok: "health_ok ?hc" by (rule health_ok_register [OF health_ok_new])
  have t: "target_health ?hc ''up'' ''b:80'' = Some target_health_default" by (simp add: register_lookup)
  have c: "map_of (hk_configs ?hc) ''up'' = Some ex_health_config" by (rule register_lookup)
  have "do_http_check (\<lambda>addr request. Reply ''HTTP/1.1 500 Oops'') (''http://b:80/'') = Checked 500"
    by (simp add: do_http_check_def split_url_def strip_prefix_str_def parse_status_def is_space_def
        parse_unsigned_def read_char_def)
  then show ?thesis
    using active_round_checks_each_once [OF ok _ _ c t, of rev rev "\<lambda>addr request. Reply ''HTTP/1.1 500 Oops''"]
    by (simp add: iterates_def ex_health_config_def health_config_default_def on_http_status_def
        target_health_default_def reached_def)
qed

end
