(* ===== verification/Load_Balancer.thy ===== *)
theory Load_Balancer
  imports Health Routing_Types Request_Lifecycle "HOL-Library.Signed_Division"
begin

text \<open>
  The load balancer of the proxy (\<open>kong-proxy/src/balancer.rs\<close>): weighted round robin on a wheel,
  consistent hashing on a ring, and least connections, all over the targets that the health checker
  reports healthy. Parameters: the hash function of the standard library (\<open>hasher\<close>).
  An \<open>i32\<close> is an \<open>int\<close> with the wrap-around written out (\<open>wrap32\<close>, release builds);
  connection counts, the round-robin index and the hashes are 64-bit words. The health checker is
  shared with the proxy: the field stands for its state at the time of the call.
\<close>

section \<open>State\<close>

record BalancerTarget =
  bt_address :: string
  bt_weight :: int

record HashRingNode =
  hn_hash :: u64
  hn_target_index :: nat

record LoadBalancer =
  lb_targets :: "BalancerTarget list"
  lb_algorithm :: LbAlgorithm
  lb_rr_index :: usize
  lb_host_header :: "string option"
  lb_upstream_name :: string
  lb_health_checker :: "HealthChecker option"
  lb_hash_on :: HashOn
  lb_hash_on_header :: "string option"
  lb_hash_ring :: "HashRingNode list"
  lb_connection_counts :: "usize list"

text \<open>The fields of the entities that the balancer reads.\<close>

record Upstream =
  up_id :: uuid
  up_name :: string
  up_algorithm :: LbAlgorithm
  up_hash_on :: HashOn
  up_hash_on_header :: "string option"
  up_slots :: int
  up_host_header :: "string option"

record Target =
  tg_upstream :: uuid
  tg_target :: string
  tg_weight :: int

definition wrap32 :: "int \<Rightarrow> int" where
  "wrap32 n = signed_take_bit 31 n"

definition sum32 :: "int list \<Rightarrow> int" where
  "sum32 ws = foldl (\<lambda>acc w. wrap32 (acc + w)) 0 ws"

section \<open>The hash ring\<close>

definition decimal_digit :: "nat \<Rightarrow> char" where
  "decimal_digit d = char_of (48 + d)"

fun show_nat :: "nat \<Rightarrow> string" where
  "show_nat n = (if n < 10 then [decimal_digit n] else show_nat (n div 10) @ [decimal_digit (n mod 10)])"

declare show_nat.simps [simp del]

definition vnodes :: "usize \<Rightarrow> int \<Rightarrow> BalancerTarget \<Rightarrow> usize" where
  "vnodes total_slots total_weight target =
     max ((word_of_int (bt_weight target) * total_slots) div word_of_int total_weight) 1"

definition ring_nodes :: "(string \<Rightarrow> u64) \<Rightarrow> usize \<Rightarrow> int \<Rightarrow> nat \<times> BalancerTarget \<Rightarrow> HashRingNode list" where
  "ring_nodes hasher total_slots total_weight e =
     (case e of (idx, target) \<Rightarrow>
        map (\<lambda>i. \<lparr>hn_hash = hasher (bt_address target @ ''-'' @ show_nat i), hn_target_index = idx\<rparr>)
          [0..<unat (vnodes total_slots total_weight target)])"

definition by_hash :: "HashRingNode \<Rightarrow> HashRingNode \<Rightarrow> ordering" where
  "by_hash a b = cmp (hn_hash a) (hn_hash b)"

text \<open>\<open>Vec::with_capacity\<close> panics when the 16-byte nodes would take more than \<open>isize::MAX\<close> bytes.\<close>

definition build_hash_ring ::
    "(string \<Rightarrow> u64) \<Rightarrow> BalancerTarget list \<Rightarrow> usize \<Rightarrow> HashRingNode list outcome" where
  "build_hash_ring hasher targets total_slots =
     (let total_weight = sum32 (map bt_weight targets)
      in if targets = [] \<or> total_weight = 0 then Ret []
         else if 2 ^ 59 \<le> total_slots then Panic
         else Ret (sort_by by_hash
                (concat (map (ring_nodes hasher total_slots total_weight) (enumerate 0 targets)))))"

definition active_targets :: "Target list \<Rightarrow> BalancerTarget list" where
  "active_targets ts = map (\<lambda>t. \<lparr>bt_address = tg_target t, bt_weight = tg_weight t\<rparr>) (filter (\<lambda>t. 0 < tg_weight t) ts)"

definition lb_new :: "(string \<Rightarrow> u64) \<Rightarrow> Upstream \<Rightarrow> Target list \<Rightarrow> LoadBalancer outcome" where
  "lb_new hasher upstream targets =
     (let bt = active_targets targets;
          ring = (if up_algorithm upstream = ConsistentHashing
                  then build_hash_ring hasher bt (word_of_int (up_slots upstream)) else Ret [])
      in case ring of
           Panic \<Rightarrow> Panic
         | Ret hash_ring \<Rightarrow>
             Ret \<lparr>lb_targets = bt, lb_algorithm = up_algorithm upstream, lb_rr_index = 0,
                  lb_host_header = up_host_header upstream, lb_upstream_name = up_name upstream,
                  lb_health_checker = None, lb_hash_on = up_hash_on upstream,
                  lb_hash_on_header = up_hash_on_header upstream, lb_hash_ring = hash_ring,
                  lb_connection_counts = replicate (length bt) 0\<rparr>)"

definition set_health_checker :: "LoadBalancer \<Rightarrow> HealthChecker \<Rightarrow> LoadBalancer" where
  "set_health_checker lb checker = lb\<lparr>lb_health_checker := Some checker\<rparr>"

text \<open>\<open>update_targets\<close> rebuilds the ring with 10000 slots, whatever the upstream says.\<close>

definition update_targets :: "(string \<Rightarrow> u64) \<Rightarrow> LoadBalancer \<Rightarrow> Target list \<Rightarrow> LoadBalancer outcome" where
  "update_targets hasher lb targets =
     (let bt = active_targets targets;
          lb' = lb\<lparr>lb_targets := bt, lb_connection_counts := replicate (length bt) 0\<rparr>
      in if lb_algorithm lb = ConsistentHashing
         then (case build_hash_ring hasher bt 10000 of Panic \<Rightarrow> Panic | Ret ring \<Rightarrow> Ret (lb'\<lparr>lb_hash_ring := ring\<rparr>))
         else Ret lb')"

section \<open>Selection\<close>

definition get_healthy_indices :: "LoadBalancer \<Rightarrow> nat list" where
  "get_healthy_indices lb =
     (case lb_health_checker lb of
        None \<Rightarrow> [0..<length (lb_targets lb)]
      | Some checker \<Rightarrow>
          filter (\<lambda>i. is_healthy checker (lb_upstream_name lb) (bt_address (lb_targets lb ! i)))
            [0..<length (lb_targets lb)])"

definition address_of :: "LoadBalancer \<Rightarrow> nat \<Rightarrow> string" where
  "address_of lb i = bt_address (lb_targets lb ! i)"

text \<open>The loop of \<open>gcd\<close> on the absolute values.\<close>

function gcd_loop :: "int \<Rightarrow> int \<Rightarrow> int" where
  "gcd_loop a b = (if b = 0 then a else gcd_loop b (a smod b))"
  by pat_completeness auto

termination gcd_loop
  by (relation "measure (\<lambda>(a, b). nat \<bar>b\<bar>)") (auto simp: signed_modulo_int_def abs_mult)

declare gcd_loop.simps [simp del]

definition gcd32 :: "int \<Rightarrow> int \<Rightarrow> int" where
  "gcd32 a b = gcd_loop (wrap32 \<bar>a\<bar>) (wrap32 \<bar>b\<bar>)"

text \<open>\<open>Iterator::max_by_key\<close>: the last of the largest elements.\<close>

fun max_by_key :: "('a \<Rightarrow> int) \<Rightarrow> 'a list \<Rightarrow> 'a option" where
  "max_by_key key [] = None"
| "max_by_key key (x # xs) = Some (foldl (\<lambda>b y. if key b \<le> key y then y else b) x xs)"

definition best_slot :: "int list \<Rightarrow> nat" where
  "best_slot remaining =
     (case max_by_key snd (enumerate 0 remaining) of Some (i, _) \<Rightarrow> i | None \<Rightarrow> 0)"

text \<open>The wheel as positions in the list of healthy indices.\<close>

fun build_wheel :: "nat \<Rightarrow> int list \<Rightarrow> nat list" where
  "build_wheel 0 remaining = []"
| "build_wheel (Suc n) remaining =
     (let best = best_slot remaining
      in best # build_wheel n (remaining[best := wrap32 (remaining ! best - 1)]))"

definition wheel_of :: "int list \<Rightarrow> nat list outcome" where
  "wheel_of weights =
     (let total_weight = sum32 weights;
          g0 = foldl gcd32 0 weights;
          g = (if 0 < g0 then g0 else 1);
          wheel_size = wrap32 (total_weight sdiv g)
      in if wheel_size < 0 then Panic
         else Ret (build_wheel (nat wheel_size) (map (\<lambda>w. wrap32 (w sdiv g)) weights)))"

definition weighted_round_robin ::
    "LoadBalancer \<Rightarrow> nat list \<Rightarrow> string option outcome \<times> LoadBalancer" where
  "weighted_round_robin lb healthy_indices =
     (case healthy_indices of
        [] \<Rightarrow> (Ret None, lb)
      | [i] \<Rightarrow> (Ret (Some (address_of lb i)), lb)
      | _ \<Rightarrow>
          (let weights = map (\<lambda>i. bt_weight (lb_targets lb ! i)) healthy_indices
           in if sum32 weights = 0 then (Ret None, lb)
              else
                (case wheel_of weights of
                   Panic \<Rightarrow> (Panic, lb)
                 | Ret wheel \<Rightarrow>
                     (let idx = lb_rr_index lb;
                          lb' = lb\<lparr>lb_rr_index := idx + 1\<rparr>
                      in if wheel = [] then (Panic, lb')
                         else (Ret (Some (address_of lb (healthy_indices ! (wheel ! (unat idx mod length wheel))))), lb')))))"

text \<open>\<open>slice::binary_search_by_key\<close>: \<open>Inr\<close> a position of the key, \<open>Inl\<close> where to insert it.\<close>

function bsearch_loop :: "u64 list \<Rightarrow> u64 \<Rightarrow> nat \<Rightarrow> nat \<Rightarrow> nat" where
  "bsearch_loop xs key base len =
     (if 1 < len
      then
        (let half = len div 2; mid = base + half
         in bsearch_loop xs key (if key < xs ! mid then base else mid) (len - half))
      else base)"
  by pat_completeness auto

termination bsearch_loop
  by (relation "measure (\<lambda>(xs, key, base, len). len)") auto

declare bsearch_loop.simps [simp del]

definition binary_search :: "u64 list \<Rightarrow> u64 \<Rightarrow> nat + nat" where
  "binary_search xs key =
     (if xs = [] then Inl 0
      else
        (let base = bsearch_loop xs key 0 (length xs)
         in if xs ! base = key then Inr base
            else Inl (if xs ! base < key then base + 1 else base)))"

definition ring_position :: "HashRingNode list \<Rightarrow> u64 \<Rightarrow> nat" where
  "ring_position ring hash =
     (case binary_search (map hn_hash ring) hash of Inr i \<Rightarrow> i | Inl i \<Rightarrow> i mod length ring)"

definition ring_walk :: "HashRingNode list \<Rightarrow> nat \<Rightarrow> nat list" where
  "ring_walk ring pos = map (\<lambda>offset. hn_target_index (ring ! ((pos + offset) mod length ring))) [0..<length ring]"

definition consistent_hash_select ::
    "(string \<Rightarrow> u64) \<Rightarrow> string option \<Rightarrow> LoadBalancer \<Rightarrow> nat list \<Rightarrow> string option outcome \<times> LoadBalancer" where
  "consistent_hash_select hasher hash_key lb healthy_indices =
     (if healthy_indices = [] then (Ret None, lb)
      else
        (let key = (case hash_key of Some k \<Rightarrow> k | None \<Rightarrow> ''default'');
             hash = hasher key;
             ring = lb_hash_ring lb
         in if ring = [] then weighted_round_robin lb healthy_indices
            else
              (case find (\<lambda>i. i \<in> set healthy_indices) (ring_walk ring (ring_position ring hash)) of
                 Some target_idx \<Rightarrow> (Ret (Some (address_of lb target_idx)), lb)
               | None \<Rightarrow> (Ret (Some (address_of lb (hd healthy_indices))), lb))))"

definition effective_load :: "LoadBalancer \<Rightarrow> nat \<Rightarrow> usize" where
  "effective_load lb i =
     (let weight = bt_weight (lb_targets lb ! i)
      in if 0 < weight then (lb_connection_counts lb ! i * 100) div word_of_int weight else - 1)"

definition least_index :: "LoadBalancer \<Rightarrow> nat list \<Rightarrow> nat" where
  "least_index lb healthy_indices =
     snd (foldl (\<lambda>(min_conns, min_idx) i.
            if effective_load lb i < min_conns then (effective_load lb i, i) else (min_conns, min_idx))
          (- 1, hd healthy_indices) healthy_indices)"

definition least_connections_select ::
    "LoadBalancer \<Rightarrow> nat list \<Rightarrow> string option outcome \<times> LoadBalancer" where
  "least_connections_select lb healthy_indices =
     (if healthy_indices = [] then (Ret None, lb)
      else (Ret (Some (address_of lb (least_index lb healthy_indices))), lb))"

definition select_from_all :: "LoadBalancer \<Rightarrow> string option outcome \<times> LoadBalancer" where
  "select_from_all lb =
     (if lb_targets lb = [] then (Ret None, lb)
      else weighted_round_robin lb [0..<length (lb_targets lb)])"

definition pick ::
    "(string \<Rightarrow> u64) \<Rightarrow> string option \<Rightarrow> LoadBalancer \<Rightarrow> nat list \<Rightarrow> string option outcome \<times> LoadBalancer" where
  "pick hasher hash_key lb healthy_indices =
     (case lb_algorithm lb of
        RoundRobin \<Rightarrow> weighted_round_robin lb healthy_indices
      | ConsistentHashing \<Rightarrow> consistent_hash_select hasher hash_key lb healthy_indices
      | LeastConnections \<Rightarrow> least_connections_select lb healthy_indices
      | Latency \<Rightarrow> weighted_round_robin lb healthy_indices)"

definition select_with_key ::
    "(string \<Rightarrow> u64) \<Rightarrow> LoadBalancer \<Rightarrow> string option \<Rightarrow> string option outcome \<times> LoadBalancer" where
  "select_with_key hasher lb hash_key =
     (if lb_targets lb = [] then (Ret None, lb)
      else
        (let healthy_indices = get_healthy_indices lb
         in if healthy_indices = [] then select_from_all lb else pick hasher hash_key lb healthy_indices))"

definition select :: "(string \<Rightarrow> u64) \<Rightarrow> LoadBalancer \<Rightarrow> string option outcome \<times> LoadBalancer" where
  "select hasher lb = select_with_key hasher lb None"

section \<open>Connection counts\<close>

definition position :: "('a \<Rightarrow> bool) \<Rightarrow> 'a list \<Rightarrow> nat option" where
  "position p xs = find (\<lambda>i. p (xs ! i)) [0..<length xs]"

definition adjust_connections :: "(usize \<Rightarrow> usize) \<Rightarrow> LoadBalancer \<Rightarrow> string \<Rightarrow> LoadBalancer" where
  "adjust_connections f lb addr =
     (case position (\<lambda>t. bt_address t = addr) (lb_targets lb) of
        None \<Rightarrow> lb
      | Some i \<Rightarrow>
          if i < length (lb_connection_counts lb)
          then lb\<lparr>lb_connection_counts := (lb_connection_counts lb)[i := f (lb_connection_counts lb ! i)]\<rparr>
          else lb)"

definition increment_connections :: "LoadBalancer \<Rightarrow> string \<Rightarrow> LoadBalancer" where
  "increment_connections lb addr = adjust_connections (\<lambda>v. v + 1) lb addr"

definition decrement_connections :: "LoadBalancer \<Rightarrow> string \<Rightarrow> LoadBalancer" where
  "decrement_connections lb addr = adjust_connections (\<lambda>v. if 0 < v then v - 1 else 0) lb addr"

section \<open>Hash keys\<close>

definition hex_digit :: "nat \<Rightarrow> char" where
  "hex_digit d = (if d < 10 then char_of (48 + d) else char_of (87 + d))"

text \<open>The hyphenated form of a UUID: 32 digits in groups of 8, 4, 4, 4 and 12.\<close>

definition uuid_to_string :: "uuid \<Rightarrow> string" where
  "uuid_to_string uid =
     (let digits = map (\<lambda>k. hex_digit (unat uid div 16 ^ (31 - k) mod 16)) [0..<32]
      in join ''-'' [take 8 digits, take 4 (drop 8 digits), take 4 (drop 12 digits), take 4 (drop 16 digits), drop 20 digits])"

definition extract_hash_key :: "LoadBalancer \<Rightarrow> 'x RequestCtx \<Rightarrow> string option" where
  "extract_hash_key lb ctx =
     (case lb_hash_on lb of
        HashNone \<Rightarrow> None
      | HashConsumer \<Rightarrow> map_option uuid_to_string (rq_consumer_id ctx)
      | HashIp \<Rightarrow> if rq_client_ip ctx = [] then None else Some (rq_client_ip ctx)
      | HashHeader \<Rightarrow>
          (case lb_hash_on_header lb of
             Some header_name \<Rightarrow> map_of (rq_request_headers ctx) (to_lowercase header_name)
           | None \<Rightarrow> None)
      | HashPath \<Rightarrow> if rq_request_path ctx = [] then None else Some (rq_request_path ctx)
      | HashCookie \<Rightarrow> None
      | HashQueryArg \<Rightarrow> None
      | HashUriCapture \<Rightarrow> None)"

definition target_count :: "LoadBalancer \<Rightarrow> nat" where
  "target_count lb = length (lb_targets lb)"

end
