(* ===== verification/Balancer_Fairness.thy ===== *)
theory Balancer_Fairness
  imports Load_Balancer
begin

text \<open>
  The weighted round robin of the load balancer: what the wheel contains, and that a full turn of it
  serves every healthy target in proportion to its weight. The lemmas on \<open>wrap32\<close>, \<open>sum32\<close> and
  \<open>gcd32\<close> show that the 32-bit arithmetic is exact for weights whose sum is below \<open>2 ^ 31\<close>.
\<close>

section \<open>Arithmetic on weights\<close>

lemma wrap32_id: "- (2 ^ 31) \<le> n \<Longrightarrow> n < 2 ^ 31 \<Longrightarrow> wrap32 n = n"
  unfolding wrap32_def by (rule signed_take_bit_int_eq_self) simp_all

definition weights_ok :: "int list \<Rightarrow> bool" where
  "weights_ok ws = (list_all (\<lambda>w. 0 < w) ws \<and> sum_list ws < 2 ^ 31)"

lemma sum32_exact_aux:
  "list_all (\<lambda>w. 0 < w) ws \<Longrightarrow> 0 \<le> acc \<Longrightarrow> acc + sum_list ws < 2 ^ 31 \<Longrightarrow>
    foldl (\<lambda>acc w. wrap32 (acc + w)) acc ws = acc + sum_list ws"
proof (induction ws arbitrary: acc)
  case (Cons w ws)
  have "0 \<le> sum_list ws" using Cons.prems(1) by (intro sum_list_nonneg) (auto simp: list_all_iff)
  with Cons.prems have "wrap32 (acc + w) = acc + w" by (intro wrap32_id) auto
  with Cons show ?case by (simp add: add.assoc)
qed simp

lemma sum32_exact: "weights_ok ws \<Longrightarrow> sum32 ws = sum_list ws"
  unfolding sum32_def weights_ok_def using sum32_exact_aux [of ws 0] by simp

lemma weights_range: "weights_ok ws \<Longrightarrow> w \<in> set ws \<Longrightarrow> 0 < w \<and> w < 2 ^ 31"
proof -
  assume ok: "weights_ok ws" and w: "w \<in> set ws"
  have "w \<le> sum_list ws"
    using ok by (intro member_le_sum_list w) (auto simp: weights_ok_def list_all_iff)
  with ok w show ?thesis by (auto simp: weights_ok_def list_all_iff)
qed

lemma gcd_loop_exact: "0 \<le> a \<Longrightarrow> 0 \<le> b \<Longrightarrow> gcd_loop a b = gcd a b"
proof (induction a b rule: gcd_loop.induct)
  case (1 a b)
  show ?case
  proof (cases "b = 0")
    case True
    then show ?thesis using 1 by (subst gcd_loop.simps) simp
  next
    case False
    have s: "a smod b = a mod b" using 1 False by (cases "a = 0") (auto simp: signed_modulo_int_def)
    have "gcd_loop b (a mod b) = gcd b (a mod b)" using 1 False by (simp add: s)
    also have "\<dots> = gcd a b" by (simp add: gcd_red_int [symmetric])
    finally show ?thesis using False by (simp add: gcd_loop.simps [of a b] s)
  qed
qed

lemma gcd32_exact: "0 \<le> a \<Longrightarrow> a < 2 ^ 31 \<Longrightarrow> 0 \<le> b \<Longrightarrow> b < 2 ^ 31 \<Longrightarrow> gcd32 a b = gcd a b"
  by (simp add: gcd32_def wrap32_id gcd_loop_exact)

lemma gcd_fold_exact:
  "\<forall>w \<in> set ws. 0 < w \<and> w < 2 ^ 31 \<Longrightarrow> 0 \<le> g \<Longrightarrow> g < 2 ^ 31 \<Longrightarrow> foldl gcd32 g ws = foldl gcd g ws"
proof (induction ws arbitrary: g)
  case (Cons w ws)
  have "gcd g w \<le> w" using Cons.prems by (intro zdvd_imp_le) auto
  then have "gcd g w < 2 ^ 31" by (rule le_less_trans) (use Cons.prems in auto)
  moreover have "gcd32 g w = gcd g w" using Cons.prems by (intro gcd32_exact) auto
  ultimately show ?case using Cons by simp
qed simp

lemma foldl_gcd: "foldl gcd (0 :: int) ws = Gcd (set ws)"
  by (simp add: foldl_conv_fold Gcd_set_eq_fold gcd.commute)

lemma gcd_weights: "weights_ok ws \<Longrightarrow> foldl gcd32 0 ws = Gcd (set ws)"
  using gcd_fold_exact [of ws 0] weights_range by (simp add: foldl_gcd)

lemma Gcd_pos: "weights_ok ws \<Longrightarrow> ws \<noteq> [] \<Longrightarrow> 0 < Gcd (set ws)"
proof -
  assume ok: "weights_ok ws" and "ws \<noteq> []"
  then obtain w where "w \<in> set ws" by (cases ws) auto
  then have "Gcd (set ws) dvd w" "w \<noteq> 0" using weights_range [OF ok] by auto
  then have "Gcd (set ws) \<noteq> 0" by auto
  with Gcd_int_greater_eq_0 [of "set ws"] show ?thesis by (rule le_neq_trans [OF _ not_sym])
qed

lemma sum_list_div: "\<forall>w \<in> set ws. g dvd w \<Longrightarrow> sum_list (map (\<lambda>w. w div g) ws) = sum_list ws div (g :: int)"
  by (induction ws) (auto simp: div_plus_div_distrib_dvd_left)

lemma sum_list_pos: "list_all (\<lambda>w. 0 < w) ws \<Longrightarrow> ws \<noteq> [] \<Longrightarrow> 0 < sum_list (ws :: int list)"
proof (induction ws)
  case (Cons w ws)
  then show ?case by (cases "ws = []") auto
qed simp

lemma dvd_sum_list: "\<forall>w \<in> set ws. g dvd w \<Longrightarrow> g dvd sum_list (ws :: int list)"
  by (induction ws) auto

lemma sum_list_decrease: "i < length rs \<Longrightarrow> sum_list (rs[i := rs ! i - 1]) = sum_list rs - (1 :: int)"
  by (induction rs arbitrary: i) (auto split: nat.splits)

lemma exact_quotient: "0 < g \<Longrightarrow> g dvd w \<Longrightarrow> 0 < w \<Longrightarrow> 0 < w div g \<and> w div g \<le> (w :: int)"
  by (elim dvdE) (simp add: zero_less_mult_iff)

section \<open>The wheel\<close>

lemma foldl_last_max:
  "foldl (\<lambda>b y. if key b \<le> key y then y else b) x xs \<in> set (x # xs) \<and>
   (\<forall>y \<in> set (x # xs). (key y :: int) \<le> key (foldl (\<lambda>b y. if key b \<le> key y then y else b) x xs))"
proof (induction xs arbitrary: x)
  case (Cons y xs)
  show ?case using Cons.IH [of "if key x \<le> key y then y else x"] by (auto split: if_splits)
qed simp

lemma best_slot_max:
  assumes "rs \<noteq> []"
  shows "best_slot rs < length rs" "\<forall>r \<in> set rs. r \<le> rs ! best_slot rs"
proof -
  obtain e es where e: "enumerate 0 rs = e # es" using assms by (cases "enumerate 0 rs") (auto simp: enumerate_eq_zip)
  let ?m = "foldl (\<lambda>b y. if snd b \<le> snd y then y else b) e es"
  have m: "?m \<in> set (enumerate 0 rs)" "\<forall>y \<in> set (enumerate 0 rs). snd y \<le> snd ?m"
    unfolding e by (rule foldl_last_max [THEN conjunct1], rule foldl_last_max [THEN conjunct2])
  have b: "best_slot rs = fst ?m" by (simp add: best_slot_def e split: prod.splits)
  have "fst ?m < length rs \<and> rs ! fst ?m = snd ?m" using m(1) by (auto simp: in_set_enumerate_eq)
  moreover have "rs ! i \<le> snd ?m" if "i < length rs" for i
    using bspec [OF m(2), of "(i, rs ! i)"] that by (simp add: in_set_enumerate_eq)
  ultimately show "best_slot rs < length rs" "\<forall>r \<in> set rs. r \<le> rs ! best_slot rs"
    by (auto simp: b in_set_conv_nth)
qed

lemma wheel_counts:
  assumes "rs \<noteq> []" and "\<forall>r \<in> set rs. 0 \<le> r \<and> r < 2 ^ 31" and "sum_list rs = int n"
  shows "count_list (build_wheel n rs) i = (if i < length rs then nat (rs ! i) else 0)"
  using assms
proof (induction n arbitrary: rs)
  case 0
  then have "\<forall>r \<in> set rs. r = 0" using sum_list_nonneg_eq_0_iff [of rs] by auto
  then have "i < length rs \<Longrightarrow> rs ! i = 0" by simp
  then show ?case by auto
next
  case (Suc n)
  let ?b = "best_slot rs"
  note b = best_slot_max [OF Suc.prems(1)]
  have pos: "0 < rs ! ?b"
  proof (rule ccontr)
    assume "\<not> 0 < rs ! ?b"
    then have "\<forall>r \<in> set rs. r \<le> 0" using b(2) by force
    then have "sum_list rs \<le> 0" by (intro sum_list_nonpos) auto
    then show False using Suc.prems(3) by simp
  qed
  have lt: "rs ! ?b < 2 ^ 31" using Suc.prems(2) b(1) by simp
  let ?rs = "rs[?b := rs ! ?b - 1]"
  have w: "wrap32 (rs ! ?b - 1) = rs ! ?b - 1" using pos lt by (intro wrap32_id) auto
  have "sum_list ?rs = int n" using b(1) Suc.prems(3) by (simp add: sum_list_decrease)
  moreover have "\<forall>r \<in> set ?rs. 0 \<le> r \<and> r < 2 ^ 31"
    using Suc.prems(2) pos lt set_update_subset_insert [of rs ?b "rs ! ?b - 1"] by auto
  ultimately have "count_list (build_wheel n ?rs) i = (if i < length rs then nat (?rs ! i) else 0)"
    using Suc.IH [of ?rs] Suc.prems(1) by simp
  then show ?case using b(1) pos by (auto simp: Let_def w nth_list_update nat_diff_distrib)
qed

lemma length_build_wheel [simp]: "length (build_wheel n rs) = n"
  by (induction n arbitrary: rs) (simp_all add: Let_def)

definition shares :: "int list \<Rightarrow> nat list" where
  "shares ws = map (\<lambda>w. nat (w div Gcd (set ws))) ws"

lemma wheel_of_ok:
  assumes ok: "weights_ok ws" and ne: "ws \<noteq> []"
  obtains wheel where "wheel_of ws = Ret wheel" and "length wheel = nat (sum_list ws div Gcd (set ws))"
    and "0 < length wheel" and "\<forall>i. count_list wheel i = (if i < length ws then shares ws ! i else 0)"
proof -
  let ?g = "Gcd (set ws)" and ?s = "sum_list ws"
  have g: "0 < ?g" by (rule Gcd_pos [OF ok ne])
  have dv: "\<forall>w \<in> set ws. ?g dvd w" by simp
  have w: "0 < w div ?g \<and> w div ?g \<le> w" if w: "w \<in> set ws" for w
    by (rule exact_quotient [OF g]) (use dv w weights_range [OF ok w] in auto)
  have sum: "sum_list (map (\<lambda>w. w div ?g) ws) = ?s div ?g" by (rule sum_list_div [OF dv])
  have nn: "0 < ?s" using sum_list_pos [OF _ ne] ok by (simp add: weights_ok_def)
  have "?g dvd ?s" by (rule dvd_sum_list [OF dv])
  from exact_quotient [OF g this nn] have s0: "0 < ?s div ?g" and s31: "?s div ?g < 2 ^ 31"
    using ok by (simp_all add: weights_ok_def)
  have sd: "w sdiv ?g = w div ?g" if "0 \<le> w" for w using that g by (cases "w = 0") (auto simp: signed_divide_int_def)
  let ?rs = "map (\<lambda>w. w div ?g) ws"
  have rs: "map (\<lambda>w. wrap32 (w sdiv ?g)) ws = ?rs"
  proof (rule map_cong [OF refl])
    fix x assume x: "x \<in> set ws"
    then show "wrap32 (x sdiv ?g) = x div ?g"
      using w [OF x] weights_range [OF ok x] by (subst sd) (auto intro!: wrap32_id)
  qed
  have "wheel_of ws = Ret (build_wheel (nat (?s div ?g)) ?rs)"
    using g s0 s31 by (simp add: wheel_of_def Let_def gcd_weights [OF ok] sum32_exact [OF ok] sd less_imp_le [OF nn] wrap32_id rs)
  moreover have "count_list (build_wheel (nat (?s div ?g)) ?rs) i = (if i < length ws then shares ws ! i else 0)" for i
    by (subst wheel_counts) (use ne w weights_range [OF ok] sum s0 in \<open>force simp: shares_def\<close>)+
  ultimately show ?thesis using that s0 by simp
qed

section \<open>A turn of the wheel\<close>

lemma mset_by_counts:
  assumes "\<And>i. count_list xs i = (if i < length ns then ns ! i else 0)"
  shows "mset xs = mset (concat (map (\<lambda>i. replicate (ns ! i) i) [0..<length ns]))"
proof (rule multiset_eqI)
  fix i
  have "count (mset (concat (map (\<lambda>i. replicate (ns ! i) i) [0..<n]))) i = (if i < n then ns ! i else 0)" for n
    by (induction n) (auto simp: count_replicate_mset)
  then show "count (mset xs) i = count (mset (concat (map (\<lambda>i. replicate (ns ! i) i) [0..<length ns]))) i"
    using assms [of i] by (simp add: count_mset)
qed

lemma turn_is_rotation: "xs \<noteq> [] \<Longrightarrow> map (\<lambda>k. xs ! ((r + k) mod length xs)) [0..<length xs] = rotate r xs"
  by (rule nth_equalityI) (auto simp: nth_rotate)

lemma mset_turn: "xs \<noteq> [] \<Longrightarrow> mset (map (\<lambda>k. xs ! ((r + k) mod length xs)) [0..<length xs]) = mset xs"
proof -
  assume "xs \<noteq> []"
  have "mset (rotate r xs) = mset (take (r mod length xs) xs @ drop (r mod length xs) xs)"
    unfolding rotate_drop_take mset_append by (rule add.commute)
  then show ?thesis using turn_is_rotation [OF \<open>xs \<noteq> []\<close>, of r] by simp
qed

fun selections :: "('s \<Rightarrow> 'a \<times> 's) \<Rightarrow> nat \<Rightarrow> 's \<Rightarrow> 'a list" where
  "selections f 0 s = []"
| "selections f (Suc n) s = (let (a, s') = f s in a # selections f n s')"

lemma same_target_view [simp]:
  "address_of (lb\<lparr>lb_rr_index := r\<rparr>) i = address_of lb i"
  "get_healthy_indices (lb\<lparr>lb_rr_index := r\<rparr>) = get_healthy_indices lb"
  by (simp_all add: address_of_def get_healthy_indices_def cong: option.case_cong)

lemma round_robin_step:
  assumes "2 \<le> length hs" and ws: "ws = map (\<lambda>i. bt_weight (lb_targets lb ! i)) hs" and ok: "weights_ok ws"
    and wheel: "wheel_of ws = Ret wheel" "wheel \<noteq> []"
  shows "weighted_round_robin (lb\<lparr>lb_rr_index := r\<rparr>) hs =
    (Ret (Some (address_of lb (hs ! (wheel ! (unat r mod length wheel))))), lb\<lparr>lb_rr_index := r + 1\<rparr>)"
proof -
  obtain i j js where hs: "hs = i # j # js" using assms(1) by (metis Suc_le_length_iff numeral_2_eq_2)
  have "0 < sum32 ws" using sum_list_pos [of ws] ok by (simp add: sum32_exact [OF ok] weights_ok_def) (simp add: ws hs)
  then show ?thesis using wheel by (simp add: weighted_round_robin_def hs ws Let_def)
qed

lemma round_robin_run:
  assumes "2 \<le> length hs" and "ws = map (\<lambda>i. bt_weight (lb_targets lb ! i)) hs" and "weights_ok ws"
    and "wheel_of ws = Ret wheel" "wheel \<noteq> []" and "unat r + n \<le> 2 ^ 64"
  shows "selections (\<lambda>lb. weighted_round_robin lb hs) n (lb\<lparr>lb_rr_index := r\<rparr>) =
    map (\<lambda>k. Ret (Some (address_of lb (hs ! (wheel ! ((unat r + k) mod length wheel)))))) [0..<n]"
  using assms(6)
proof (induction n arbitrary: r)
  case (Suc n)
  show ?case
  proof (cases n)
    case 0
    then show ?thesis by (simp add: round_robin_step [OF assms(1-5)])
  next
    case (Suc m)
    then have "unat r + 1 < 2 ^ 64" using Suc.prems by simp
    then have u: "unat (r + 1) = unat r + 1" by (simp add: unat_word_ariths(1))
    have "selections (\<lambda>lb. weighted_round_robin lb hs) n (lb\<lparr>lb_rr_index := r + 1\<rparr>) =
      map (\<lambda>k. Ret (Some (address_of lb (hs ! (wheel ! ((unat r + 1 + k) mod length wheel)))))) [0..<n]"
      using Suc.IH [of "r + 1"] Suc.prems by (simp add: u)
    then show ?thesis
      by (simp add: round_robin_step [OF assms(1-5)] upt_rec [of 0] map_Suc_upt [symmetric] del: upt_Suc)
  qed
qed simp

lemma select_round_robin:
  assumes "lb_algorithm lb = RoundRobin" and "get_healthy_indices lb \<noteq> []"
  shows "select hasher (lb\<lparr>lb_rr_index := r\<rparr>) = weighted_round_robin (lb\<lparr>lb_rr_index := r\<rparr>) (get_healthy_indices lb)"
proof -
  have "lb_targets lb \<noteq> []" using assms(2) by (auto simp: get_healthy_indices_def split: option.splits)
  then show ?thesis using assms by (simp add: select_def select_with_key_def pick_def)
qed

lemma selections_round_robin:
  assumes "lb_algorithm lb = RoundRobin" and "2 \<le> length (get_healthy_indices lb)"
    and "ws = map (\<lambda>i. bt_weight (lb_targets lb ! i)) (get_healthy_indices lb)" and "weights_ok ws"
    and "wheel_of ws = Ret wheel" "wheel \<noteq> []"
  shows "selections (select hasher) n (lb\<lparr>lb_rr_index := r\<rparr>) =
    selections (\<lambda>lb'. weighted_round_robin lb' (get_healthy_indices lb)) n (lb\<lparr>lb_rr_index := r\<rparr>)"
proof -
  have ne: "get_healthy_indices lb \<noteq> []" using assms(2) by auto
  show ?thesis
    by (induction n arbitrary: r) (simp_all add: select_round_robin [OF assms(1) ne] round_robin_step [OF assms(2-6)])
qed

text \<open>
  C21. Weighted round robin is fair: while the set of healthy targets does not change, the selections
  of one turn (as many as the sum of the healthy weights divided by their greatest common divisor)
  are, up to order, every healthy target exactly its weight divided by that divisor times.
\<close>

theorem round_robin_turn_is_fair:
  assumes "lb_algorithm lb = RoundRobin" and hs: "hs = get_healthy_indices lb" "2 \<le> length hs"
    and ws: "ws = map (\<lambda>i. bt_weight (lb_targets lb ! i)) hs" and ok: "weights_ok ws"
    and turn: "turn = nat (sum_list ws div Gcd (set ws))" and "unat (lb_rr_index lb) + turn \<le> 2 ^ 64"
  shows "mset (selections (select hasher) turn lb) =
    mset (concat (map (\<lambda>i. replicate (nat (bt_weight (lb_targets lb ! i) div Gcd (set ws))) (Ret (Some (address_of lb i)))) hs))"
proof -
  let ?f = "\<lambda>i. Ret (Some (address_of lb i)) :: string option outcome"
  have "ws \<noteq> []" using hs ws by auto
  then obtain wheel where w: "wheel_of ws = Ret wheel" "length wheel = nat (sum_list ws div Gcd (set ws))" "0 < length wheel"
    and c: "\<forall>i. count_list wheel i = (if i < length ws then shares ws ! i else 0)"
    by (metis wheel_of_ok [OF ok])
  have wheel: "wheel_of ws = Ret wheel" "length wheel = turn" "wheel \<noteq> []" using w by (auto simp: turn)
  have cnt: "count_list wheel i = (if i < length (shares ws) then shares ws ! i else 0)" for i
    using c by (simp add: shares_def)
  have lb: "lb = lb\<lparr>lb_rr_index := lb_rr_index lb\<rparr>" by simp
  let ?p = "\<lambda>j. ?f (hs ! j)"
  have "selections (select hasher) turn lb = map (\<lambda>k. ?p (wheel ! ((unat (lb_rr_index lb) + k) mod length wheel))) [0..<turn]"
    by (subst lb, subst selections_round_robin [OF assms(1) hs(2) [unfolded hs(1)] ws [unfolded hs(1)] ok wheel(1,3)])
      (simp only: hs(1) round_robin_run [OF hs(2) [unfolded hs(1)] ws [unfolded hs(1)] ok wheel(1,3) assms(7)])
  then have "selections (select hasher) turn lb = map ?p (map (\<lambda>k. wheel ! ((unat (lb_rr_index lb) + k) mod length wheel)) [0..<length wheel])"
    by (simp add: wheel(2) o_def)
  then have "mset (selections (select hasher) turn lb) = image_mset ?p (mset wheel)"
    using mset_turn [OF wheel(3), of "unat (lb_rr_index lb)"] by (metis mset_map)
  also have "\<dots> = mset (map ?p (concat (map (\<lambda>i. replicate (shares ws ! i) i) [0..<length ws])))"
    unfolding mset_by_counts [OF cnt] by (simp add: shares_def)
  also have "map ?p (concat (map (\<lambda>i. replicate (shares ws ! i) i) [0..<length ws])) =
      concat (map (\<lambda>i. replicate (nat (bt_weight (lb_targets lb ! i) div Gcd (set ws))) (?f i)) hs)"
  proof -
    have "map (\<lambda>j. replicate (shares ws ! j) (?p j)) [0..<length ws] =
        map (\<lambda>i. replicate (nat (bt_weight (lb_targets lb ! i) div Gcd (set ws))) (?f i)) hs"
      by (rule nth_equalityI) (auto simp: shares_def ws)
    then show ?thesis by (simp add: map_concat o_def map_replicate)
  qed
  finally show ?thesis .
qed

definition ex_upstream :: "LbAlgorithm \<Rightarrow> Upstream" where
  "ex_upstream algorithm =
     \<lparr>up_id = 5, up_name = ''up'', up_algorithm = algorithm, up_hash_on = HashNone, up_hash_on_header = None,
      up_slots = 10, up_host_header = None\<rparr>"

definition ex_balancer :: "LbAlgorithm \<Rightarrow> HashRingNode list \<Rightarrow> LoadBalancer" where
  "ex_balancer algorithm ring =
     \<lparr>lb_targets = [\<lparr>bt_address = ''a:80'', bt_weight = 200\<rparr>, \<lparr>bt_address = ''b:80'', bt_weight = 100\<rparr>],
      lb_algorithm = algorithm, lb_rr_index = 0, lb_host_header = None, lb_upstream_name = ''up'',
      lb_health_checker = None, lb_hash_on = HashNone, lb_hash_on_header = None, lb_hash_ring = ring,
      lb_connection_counts = [0, 0]\<rparr>"

lemma replicate_2: "replicate 2 x = [x, x]"
  by (simp add: numeral_2_eq_2)

theorem round_robin_turn_is_fair_witness:
  "mset (selections (select (\<lambda>_. 0)) 3 (ex_balancer RoundRobin [])) =
   {#Ret (Some ''a:80''), Ret (Some ''a:80''), Ret (Some ''b:80'')#}"
  by (subst round_robin_turn_is_fair [of _ "[0, 1]" "[200, 100]" 3])
    (simp_all add: ex_balancer_def get_healthy_indices_def weights_ok_def address_of_def upt_rec replicate_2)

end
