(* ===== verification/Balancer_Selection.thy ===== *)
theory Balancer_Selection
  imports Balancer_Fairness
begin

text \<open>
  What every selection algorithm of the load balancer promises. The locale \<open>target_selector\<close> is the
  interface between \<open>select_with_key\<close> and the algorithms: from a non-empty list of candidates an
  algorithm answers with the address of a candidate and changes at most the round-robin index. It is
  interpreted on the round robin, on consistent hashing, on least connections and on the dispatch
  between them. The section on runs has the operations as steps and the invariant of the reachable
  balancers.
\<close>

section \<open>Invariant\<close>

definition ring_ok :: "LbAlgorithm \<Rightarrow> nat \<Rightarrow> HashRingNode list \<Rightarrow> bool" where
  "ring_ok algorithm n ring =
     (sorted (map hn_hash ring) \<and>
      hn_target_index ` set ring = (if algorithm = ConsistentHashing then {..<n} else {}))"

definition balancer_ok :: "LoadBalancer \<Rightarrow> bool" where
  "balancer_ok lb =
     (weights_ok (map bt_weight (lb_targets lb)) \<and>
      length (lb_connection_counts lb) = length (lb_targets lb) \<and>
      ring_ok (lb_algorithm lb) (length (lb_targets lb)) (lb_hash_ring lb))"

definition candidates :: "LoadBalancer \<Rightarrow> nat list \<Rightarrow> bool" where
  "candidates lb hs = (hs \<noteq> [] \<and> distinct hs \<and> set hs \<subseteq> {..<length (lb_targets lb)})"

lemma candidates_healthy: "get_healthy_indices lb \<noteq> [] \<Longrightarrow> candidates lb (get_healthy_indices lb)"
  by (auto simp: candidates_def get_healthy_indices_def split: option.splits)

lemma candidates_all: "lb_targets lb \<noteq> [] \<Longrightarrow> candidates lb [0..<length (lb_targets lb)]"
  by (auto simp: candidates_def)

lemma sum_of_selection:
  assumes "distinct hs" and "set hs \<subseteq> {..<length ws}" and "\<forall>w \<in> set ws. 0 \<le> w"
  shows "sum_list (map (\<lambda>i. ws ! i) hs) \<le> sum_list (ws :: int list)"
proof -
  have "sum_list (map (\<lambda>i. ws ! i) hs) = (\<Sum>i \<in> set hs. ws ! i)"
    by (rule sum_list_distinct_conv_sum_set [OF assms(1)])
  also have "\<dots> \<le> (\<Sum>i \<in> {..<length ws}. ws ! i)" by (rule sum_mono2) (use assms in auto)
  also have "\<dots> = sum_list ws" by (simp add: sum_list_sum_nth atLeast0LessThan)
  finally show ?thesis .
qed

lemma candidate_weights:
  assumes "weights_ok (map bt_weight (lb_targets lb))" and "candidates lb hs"
  shows "weights_ok (map (\<lambda>i. bt_weight (lb_targets lb ! i)) hs)"
proof -
  have eq: "map (\<lambda>i. bt_weight (lb_targets lb ! i)) hs = map (\<lambda>i. map bt_weight (lb_targets lb) ! i) hs"
    using assms(2) by (auto simp: candidates_def)
  have "sum_list (map (\<lambda>i. bt_weight (lb_targets lb ! i)) hs) \<le> sum_list (map bt_weight (lb_targets lb))"
    unfolding eq using assms
    by (intro sum_of_selection) (auto simp: candidates_def weights_ok_def list_all_iff dest: less_imp_le)
  moreover have "list_all (\<lambda>w. 0 < w) (map (\<lambda>i. bt_weight (lb_targets lb ! i)) hs)"
    using assms by (auto simp: candidates_def weights_ok_def list_all_iff)
  ultimately show ?thesis using assms(1) by (simp add: weights_ok_def)
qed

lemma same_index: "\<exists>r. lb = lb\<lparr>lb_rr_index := r\<rparr>"
  by (rule exI [of _ "lb_rr_index lb"]) simp

section \<open>The interface of the algorithms\<close>

locale target_selector =
  fixes chooser :: "LoadBalancer \<Rightarrow> nat list \<Rightarrow> string option outcome \<times> LoadBalancer"
  assumes choose_candidate:
    "balancer_ok lb \<Longrightarrow> candidates lb hs \<Longrightarrow>
      \<exists>i \<in> set hs. \<exists>r. chooser lb hs = (Ret (Some (address_of lb i)), lb\<lparr>lb_rr_index := r\<rparr>)"
begin

lemma choose_ok: "balancer_ok lb \<Longrightarrow> candidates lb hs \<Longrightarrow> balancer_ok (snd (chooser lb hs))"
  using choose_candidate [of lb hs] by (auto simp: balancer_ok_def)

lemma choose_never_panics: "balancer_ok lb \<Longrightarrow> candidates lb hs \<Longrightarrow> fst (chooser lb hs) \<noteq> Panic"
  using choose_candidate [of lb hs] by auto

lemma choose_repeatedly:
  assumes "balancer_ok lb" and "candidates lb hs"
  shows "set (selections (\<lambda>lb. chooser lb hs) n lb) \<subseteq> (\<lambda>i. Ret (Some (address_of lb i))) ` set hs"
  using assms
proof (induction n arbitrary: lb)
  case (Suc n)
  obtain i r where i: "i \<in> set hs" "chooser lb hs = (Ret (Some (address_of lb i)), lb\<lparr>lb_rr_index := r\<rparr>)"
    using choose_candidate [OF Suc.prems] by blast
  have "balancer_ok (lb\<lparr>lb_rr_index := r\<rparr>)" "candidates (lb\<lparr>lb_rr_index := r\<rparr>) hs"
    using Suc.prems by (simp_all add: balancer_ok_def candidates_def)
  from Suc.IH [OF this] show ?case using i by auto
qed simp

end

lemma round_robin_candidate:
  assumes "balancer_ok lb" and "candidates lb hs"
  shows "\<exists>i \<in> set hs. \<exists>r. weighted_round_robin lb hs = (Ret (Some (address_of lb i)), lb\<lparr>lb_rr_index := r\<rparr>)"
proof (cases "2 \<le> length hs")
  case False
  then obtain i where "hs = [i]" using assms(2) by (cases hs; cases "tl hs") (auto simp: candidates_def)
  then show ?thesis by (auto simp: weighted_round_robin_def intro!: exI [of _ "lb_rr_index lb"])
next
  case True
  let ?ws = "map (\<lambda>i. bt_weight (lb_targets lb ! i)) hs"
  have ok: "weights_ok ?ws" using assms by (intro candidate_weights) (simp_all add: balancer_ok_def)
  have "?ws \<noteq> []" using True by auto
  then obtain wheel where w: "wheel_of ?ws = Ret wheel" "0 < length wheel"
    and c: "\<forall>i. count_list wheel i = (if i < length ?ws then shares ?ws ! i else 0)"
    by (metis wheel_of_ok [OF ok])
  let ?k = "wheel ! (unat (lb_rr_index lb) mod length wheel)"
  have "?k \<in> set wheel" using w(2) by simp
  then have "count_list wheel ?k \<noteq> 0" by (simp add: count_list_0_iff)
  then have "?k < length hs" using c by (metis length_map)
  then have "hs ! ?k \<in> set hs" by simp
  moreover have "weighted_round_robin (lb\<lparr>lb_rr_index := lb_rr_index lb\<rparr>) hs =
      (Ret (Some (address_of lb (hs ! ?k))), lb\<lparr>lb_rr_index := lb_rr_index lb + 1\<rparr>)"
    by (rule round_robin_step [OF True refl ok w(1)]) (use w(2) in auto)
  ultimately show ?thesis by auto
qed

interpretation rr: target_selector weighted_round_robin
  by unfold_locales (rule round_robin_candidate)

lemma set_ring_walk: "ring \<noteq> [] \<Longrightarrow> set (ring_walk ring pos) = hn_target_index ` set ring"
proof -
  assume "ring \<noteq> []"
  then have "ring_walk ring pos = map hn_target_index (rotate pos ring)"
    by (subst turn_is_rotation [symmetric]) (simp_all add: ring_walk_def o_def)
  then show ?thesis by simp
qed

lemma hash_candidate:
  assumes "balancer_ok lb" and "candidates lb hs"
  shows "\<exists>i \<in> set hs. \<exists>r. consistent_hash_select hasher key lb hs = (Ret (Some (address_of lb i)), lb\<lparr>lb_rr_index := r\<rparr>)"
proof (cases "lb_hash_ring lb = []")
  case True
  then show ?thesis
    using round_robin_candidate [OF assms] assms(2) by (simp add: consistent_hash_select_def candidates_def)
next
  case False
  let ?w = "ring_walk (lb_hash_ring lb) (ring_position (lb_hash_ring lb) (hasher (case key of Some k \<Rightarrow> k | None \<Rightarrow> ''default'')))"
  have hs: "hs \<noteq> []" using assms(2) by (simp add: candidates_def)
  show ?thesis
  proof (cases "find (\<lambda>i. i \<in> set hs) ?w")
    case None
    then show ?thesis using hs False same_index [of lb] by (auto simp: consistent_hash_select_def Let_def intro!: bexI [of _ "hd hs"])
  next
    case (Some i)
    then have "i \<in> set hs" by (auto simp: find_Some_iff)
    then show ?thesis using hs False same_index [of lb] Some by (auto simp: consistent_hash_select_def Let_def intro!: bexI [of _ i])
  qed
qed

interpretation ch: target_selector "consistent_hash_select hasher key"
  by unfold_locales (rule hash_candidate)

definition least_step :: "('i \<Rightarrow> 'a::linorder) \<Rightarrow> 'a \<times> 'i \<Rightarrow> 'i \<Rightarrow> 'a \<times> 'i" where
  "least_step f acc i = (if f i < fst acc then (f i, i) else acc)"

lemma least_fold:
  assumes "f j0 \<le> m0" and "j = snd (foldl (least_step f) (m0, j0) hs)"
  shows "j = j0 \<and> (\<forall>i \<in> set hs. m0 \<le> f i) \<or> j \<in> set hs \<and> f j < m0 \<and> (\<forall>i \<in> set hs. f j \<le> f i)"
  using assms
proof (induction hs arbitrary: m0 j0)
  case (Cons i hs)
  show ?case
  proof (cases "f i < m0")
    case True
    then show ?thesis using Cons.IH [of i "f i"] Cons.prems(2) by (auto simp: least_step_def)
  next
    case False
    then show ?thesis using Cons.IH [of j0 m0] Cons.prems by (auto simp: least_step_def)
  qed
qed simp

lemma least_index_step: "least_index lb hs = snd (foldl (least_step (effective_load lb)) (- 1, hd hs) hs)"
proof -
  have "(\<lambda>(min_conns, min_idx) i. if effective_load lb i < min_conns then (effective_load lb i, i) else (min_conns, min_idx)) =
      least_step (effective_load lb)"
    by (auto simp: fun_eq_iff least_step_def)
  then show ?thesis by (simp only: least_index_def)
qed

lemma least_index_minimal:
  assumes "hs \<noteq> []"
  shows "least_index lb hs \<in> set hs \<and> (\<forall>i \<in> set hs. effective_load lb (least_index lb hs) \<le> effective_load lb i)"
proof -
  have top: "x \<le> - 1" for x :: usize by simp
  have "hd hs \<in> set hs" using assms by simp
  with least_fold [OF top least_index_step, of lb hs] show ?thesis
    using top [of "effective_load lb (hd hs)"] by (auto intro: order_trans)
qed

lemma least_candidate:
  assumes "balancer_ok lb" and "candidates lb hs"
  shows "\<exists>i \<in> set hs. \<exists>r. least_connections_select lb hs = (Ret (Some (address_of lb i)), lb\<lparr>lb_rr_index := r\<rparr>)"
  using assms(2) least_index_minimal [of hs lb]
  by (auto simp: candidates_def least_connections_select_def intro!: exI [of _ "lb_rr_index lb"])

interpretation lc: target_selector least_connections_select
  by unfold_locales (rule least_candidate)

interpretation pk: target_selector "pick hasher key"
proof
  fix lb hs
  assume "balancer_ok lb" "candidates lb hs"
  then show "\<exists>i \<in> set hs. \<exists>r. pick hasher key lb hs = (Ret (Some (address_of lb i)), lb\<lparr>lb_rr_index := r\<rparr>)"
    by (cases "lb_algorithm lb") (simp_all add: pick_def round_robin_candidate hash_candidate least_candidate)
qed

section \<open>Runs\<close>

interpretation by_hash: comparator by_hash
  unfolding by_hash_def by (rule comparator_cmp_key)

lemma ring_sorted: "build_hash_ring hasher ts slots = Ret ring \<Longrightarrow> sorted (map hn_hash ring)"
proof -
  have "sorted (map hn_hash (sort_by by_hash ns))" for ns
    using by_hash.sorted_sort_by [of ns] by (simp add: sorted_map by_hash_def not_less)
  then show "build_hash_ring hasher ts slots = Ret ring \<Longrightarrow> sorted (map hn_hash ring)"
    by (auto simp: build_hash_ring_def Let_def split: if_splits)
qed

lemma vnodes_pos: "0 < unat (vnodes slots w t)"
proof -
  have "vnodes slots w t \<noteq> 0" by (auto simp: vnodes_def max_def)
  then show ?thesis by (simp add: unat_gt_0)
qed

lemma ring_nodes_index: "hn_target_index ` set (ring_nodes hasher slots w (i, t)) = {i}"
  using vnodes_pos [of slots w t] by (auto simp: ring_nodes_def image_image)

lemma ring_covers:
  assumes "build_hash_ring hasher ts slots = Ret ring" and "weights_ok (map bt_weight ts)"
  shows "hn_target_index ` set ring = {..<length ts}"
proof (cases "ts = []")
  case False
  then have "sum32 (map bt_weight ts) \<noteq> 0"
    using sum_list_pos [of "map bt_weight ts"] assms(2) by (simp add: sum32_exact weights_ok_def)
  with assms(1) False have "set ring =
      (\<Union>e \<in> set (enumerate 0 ts). set (ring_nodes hasher slots (sum32 (map bt_weight ts)) e))"
    by (auto simp: build_hash_ring_def Let_def split: if_splits)
  moreover have "hn_target_index ` set (ring_nodes hasher slots w e) = {fst e}" for w e
    by (cases e) (simp add: ring_nodes_index)
  ultimately have "hn_target_index ` set ring = fst ` set (enumerate 0 ts)"
    by (simp add: image_UN) blast
  also have "\<dots> = {..<length ts}" by (simp flip: set_map add: map_fst_enumerate atLeast0LessThan)
  finally show ?thesis .
qed (use assms(1) in \<open>simp add: build_hash_ring_def\<close>)

lemma ring_ok_built:
  "build_hash_ring hasher ts slots = Ret ring \<Longrightarrow> weights_ok (map bt_weight ts) \<Longrightarrow> ring_ok ConsistentHashing (length ts) ring"
  by (simp add: ring_ok_def ring_sorted ring_covers)

lemma ring_ok_none: "algorithm \<noteq> ConsistentHashing \<Longrightarrow> ring_ok algorithm n ring = (ring = [])"
  by (auto simp: ring_ok_def)

lemma active_weights:
  "sum_list (map bt_weight (active_targets ts)) < 2 ^ 31 \<Longrightarrow> weights_ok (map bt_weight (active_targets ts))"
  by (auto simp: weights_ok_def active_targets_def list_all_iff)

lemma lb_new_ok:
  assumes "lb_new hasher up ts = Ret lb" and "sum_list (map bt_weight (active_targets ts)) < 2 ^ 31"
  shows "balancer_ok lb"
  using assms(1) active_weights [OF assms(2)]
  by (auto simp: lb_new_def Let_def balancer_ok_def split: outcome.splits if_splits
      simp: ring_ok_built ring_ok_none)

lemma update_targets_ok:
  assumes "balancer_ok lb" and "update_targets hasher lb ts = Ret lb'"
    and "sum_list (map bt_weight (active_targets ts)) < 2 ^ 31"
  shows "balancer_ok lb'"
  using assms(1,2) active_weights [OF assms(3)]
  by (auto simp: update_targets_def Let_def balancer_ok_def split: outcome.splits if_splits
      simp: ring_ok_built ring_ok_none)

lemma adjust_ok: "balancer_ok lb \<Longrightarrow> balancer_ok (adjust_connections f lb addr)"
  by (simp add: adjust_connections_def balancer_ok_def split: option.splits)

lemma checker_ok: "balancer_ok lb \<Longrightarrow> balancer_ok (set_health_checker lb checker)"
  by (simp add: set_health_checker_def balancer_ok_def)

lemma select_candidate:
  assumes "balancer_ok lb" and "lb_targets lb \<noteq> []"
  shows "\<exists>i < length (lb_targets lb). \<exists>r. (i \<in> set (get_healthy_indices lb) \<or> get_healthy_indices lb = []) \<and>
    select_with_key hasher lb key = (Ret (Some (address_of lb i)), lb\<lparr>lb_rr_index := r\<rparr>)"
proof (cases "get_healthy_indices lb = []")
  case True
  obtain i r where "i \<in> set [0..<length (lb_targets lb)]"
    "weighted_round_robin lb [0..<length (lb_targets lb)] = (Ret (Some (address_of lb i)), lb\<lparr>lb_rr_index := r\<rparr>)"
    using rr.choose_candidate [OF assms(1) candidates_all [OF assms(2)]] by blast
  then show ?thesis using True assms(2) by (auto simp: select_with_key_def select_from_all_def)
next
  case False
  have c: "candidates lb (get_healthy_indices lb)" by (rule candidates_healthy [OF False])
  obtain i r where i: "i \<in> set (get_healthy_indices lb)"
    "pick hasher key lb (get_healthy_indices lb) = (Ret (Some (address_of lb i)), lb\<lparr>lb_rr_index := r\<rparr>)"
    using pk.choose_candidate [OF assms(1) c] by blast
  moreover have "i < length (lb_targets lb)" using i(1) c by (auto simp: candidates_def)
  ultimately show ?thesis using False assms(2) by (auto simp: select_with_key_def)
qed

lemma select_ok: "balancer_ok lb \<Longrightarrow> balancer_ok (snd (select_with_key hasher lb key))"
proof (cases "lb_targets lb = []")
  case False
  assume ok: "balancer_ok lb"
  from select_candidate [OF ok False, of hasher key] show ?thesis using ok by (auto simp: balancer_ok_def)
qed (simp add: select_with_key_def)

inductive balancer_reachable :: "(string \<Rightarrow> u64) \<Rightarrow> LoadBalancer \<Rightarrow> bool" for hasher where
  lb_built: "lb_new hasher up ts = Ret lb \<Longrightarrow> sum_list (map bt_weight (active_targets ts)) < 2 ^ 31 \<Longrightarrow>
    balancer_reachable hasher lb"
| lb_updated: "balancer_reachable hasher lb \<Longrightarrow> update_targets hasher lb ts = Ret lb' \<Longrightarrow>
    sum_list (map bt_weight (active_targets ts)) < 2 ^ 31 \<Longrightarrow> balancer_reachable hasher lb'"
| lb_selected: "balancer_reachable hasher lb \<Longrightarrow> balancer_reachable hasher (snd (select_with_key hasher lb key))"
| lb_opened: "balancer_reachable hasher lb \<Longrightarrow> balancer_reachable hasher (increment_connections lb addr)"
| lb_closed: "balancer_reachable hasher lb \<Longrightarrow> balancer_reachable hasher (decrement_connections lb addr)"
| lb_checked: "balancer_reachable hasher lb \<Longrightarrow> balancer_reachable hasher (set_health_checker lb checker)"

lemma reachable_balancer_ok: "balancer_reachable hasher lb \<Longrightarrow> balancer_ok lb"
  by (induction rule: balancer_reachable.induct)
    (simp_all add: lb_new_ok update_targets_ok select_ok checker_ok adjust_ok increment_connections_def decrement_connections_def)

text \<open>
  Requests go to healthy targets: in every balancer that the operations can build (with weights
  that sum below \<open>2 ^ 31\<close>), with any algorithm and key, selection succeeds if there is a target at
  all, and answers with a target that the attached health checker calls healthy, unless it calls none
  of them healthy.
\<close>

theorem selection_is_healthy:
  assumes "balancer_reachable hasher lb" and "lb_targets lb \<noteq> []" and "lb_health_checker lb = Some checker"
  shows "\<exists>t \<in> set (lb_targets lb).
    fst (select_with_key hasher lb key) = Ret (Some (bt_address t)) \<and>
    (is_healthy checker (lb_upstream_name lb) (bt_address t) \<or>
     (\<forall>t' \<in> set (lb_targets lb). \<not> is_healthy checker (lb_upstream_name lb) (bt_address t')))"
proof -
  obtain i r where i: "i < length (lb_targets lb)" "i \<in> set (get_healthy_indices lb) \<or> get_healthy_indices lb = []"
    "select_with_key hasher lb key = (Ret (Some (address_of lb i)), lb\<lparr>lb_rr_index := r\<rparr>)"
    using select_candidate [OF reachable_balancer_ok [OF assms(1)] assms(2)] by blast
  show ?thesis
    using i assms(3) by (intro bexI [of _ "lb_targets lb ! i"])
      (auto simp: address_of_def get_healthy_indices_def filter_empty_conv in_set_conv_nth)
qed

lemma ex_built:
  "lb_new hasher (ex_upstream RoundRobin) [\<lparr>tg_upstream = 5, tg_target = ''a:80'', tg_weight = 200\<rparr>, \<lparr>tg_upstream = 5, tg_target = ''c:80'', tg_weight = 0\<rparr>,
     \<lparr>tg_upstream = 5, tg_target = ''b:80'', tg_weight = 100\<rparr>] = Ret (ex_balancer RoundRobin [])"
  by (simp add: lb_new_def ex_upstream_def ex_balancer_def active_targets_def replicate_2)

definition ex_sick :: HealthChecker where
  "ex_sick = report (report (register_upstream health_new ''up'' [''a:80'', ''b:80''] ex_health_config)
     (''up'', ''a:80'', Ev_tcp)) (''up'', ''a:80'', Ev_tcp)"

lemma ex_sick_health: "\<not> is_healthy ex_sick ''up'' ''a:80''" "is_healthy ex_sick ''up'' ''b:80''"
proof -
  have s: "ex_sick = foldl report (register_upstream health_new ''up'' [''a:80'', ''b:80''] ex_health_config)
     [(''up'', ''a:80'', Ev_tcp), (''up'', ''a:80'', Ev_tcp)]" by (simp add: ex_sick_def)
  show "\<not> is_healthy ex_sick ''up'' ''a:80''" unfolding s by (subst registered_reports) (simp_all add: health_eval)
  show "is_healthy ex_sick ''up'' ''b:80''" unfolding s by (subst registered_reports) (simp_all add: health_eval)
qed

theorem selection_is_healthy_witness:
  "fst (select_with_key (\<lambda>_. 0) (set_health_checker (ex_balancer RoundRobin []) ex_sick) None) = Ret (Some ''b:80'')"
proof -
  have "balancer_reachable (\<lambda>_. 0) (set_health_checker (ex_balancer RoundRobin []) ex_sick)"
    by (rule lb_checked, rule lb_built [OF ex_built]) (simp add: active_targets_def)
  from selection_is_healthy [OF this] show ?thesis
    by (auto simp: set_health_checker_def ex_balancer_def ex_sick_health)
qed

section \<open>Consistent hashing\<close>

lemma bsearch_loop_spec:
  assumes "sorted xs" and "1 \<le> len" and "base + len \<le> length xs"
    and "base = 0 \<or> xs ! base \<le> key" and "\<forall>i. base + len \<le> i \<longrightarrow> i < length xs \<longrightarrow> key < xs ! i"
    and "b = bsearch_loop xs key base len"
  shows "b < length xs \<and> (b = 0 \<or> xs ! b \<le> key) \<and> (\<forall>i. b < i \<longrightarrow> i < length xs \<longrightarrow> key < xs ! i)"
  using assms
proof (induction xs key base len rule: bsearch_loop.induct)
  case (1 xs key base len)
  show ?case
  proof (cases "1 < len")
    case False
    then have "b = base" "len = 1" using 1 by (simp_all add: bsearch_loop.simps [of xs key base len])
    then show ?thesis using 1 by (auto simp: Suc_le_eq)
  next
    case True
    define half mid where "half = len div 2" and "mid = base + half"
    have h: "1 \<le> half" "half < len" using True by (auto simp: half_def)
    have up: "key < xs ! i" if "key < xs ! mid" "mid \<le> i" "i < length xs" for i
      by (rule less_le_trans [OF that(1) sorted_nth_mono [OF 1(2) that(2,3)]])
    show ?thesis
    proof (rule 1(1) [OF True refl refl 1(2)])
      show "1 \<le> len - len div 2" using h by (simp add: half_def)
      show "(if key < xs ! (base + len div 2) then base else base + len div 2) + (len - len div 2) \<le> length xs"
        using 1(4) h by (auto simp: half_def)
      show "(if key < xs ! (base + len div 2) then base else base + len div 2) = 0 \<or>
            xs ! (if key < xs ! (base + len div 2) then base else base + len div 2) \<le> key"
        using 1(5) by (auto simp: not_less)
      show "\<forall>i. (if key < xs ! (base + len div 2) then base else base + len div 2) + (len - len div 2) \<le> i \<longrightarrow>
              i < length xs \<longrightarrow> key < xs ! i"
        using 1(6) up h by (auto simp: half_def mid_def)
      show "b = bsearch_loop xs key (if key < xs ! (base + len div 2) then base else base + len div 2) (len - len div 2)"
        using 1(7) True by (simp add: bsearch_loop.simps [of xs key base len] Let_def)
    qed
  qed
qed

lemma binary_search_spec:
  assumes "sorted xs"
  shows "case binary_search xs key of
           Inr i \<Rightarrow> i < length xs \<and> xs ! i = key
         | Inl i \<Rightarrow> i \<le> length xs \<and> (\<forall>j < i. xs ! j < key) \<and> (\<forall>j. i \<le> j \<longrightarrow> j < length xs \<longrightarrow> key < xs ! j)"
proof (cases "xs = []")
  case False
  define b where "b = bsearch_loop xs key 0 (length xs)"
  have b: "b < length xs" "b = 0 \<or> xs ! b \<le> key" "\<forall>i. b < i \<longrightarrow> i < length xs \<longrightarrow> key < xs ! i"
    using bsearch_loop_spec [OF assms, of "length xs" 0 key b] False by (auto simp: b_def Suc_le_eq)
  have lo: "xs ! j < key" if "xs ! b < key" "j < b + 1" for j
    using that b(1) sorted_nth_mono [OF assms, of j b] by (auto intro: le_less_trans)
  have hi: "key < xs ! j" if "\<not> xs ! b < key" "xs ! b \<noteq> key" "j < length xs" for j
    using that b by (cases "j = b") (auto simp: not_less intro: less_le_trans)
  show ?thesis using b(1,3) b(2) lo hi False by (auto simp: binary_search_def b_def [symmetric] Let_def)
qed (simp add: binary_search_def)

text \<open>
  The ring lookup finds the successor of a hash: the node whose hash is the least among those at
  or after the hash of the key, and the first node of the ring when there is none (the binary search
  of the standard library, wrapped around).
\<close>

theorem ring_position_is_successor:
  assumes "balancer_reachable hasher lb" and "ring = lb_hash_ring lb" and "ring \<noteq> []"
  shows "ring_position ring h < length ring \<and>
    (if \<exists>node \<in> set ring. h \<le> hn_hash node
     then h \<le> hn_hash (ring ! ring_position ring h) \<and>
          (\<forall>node \<in> set ring. h \<le> hn_hash node \<longrightarrow> hn_hash (ring ! ring_position ring h) \<le> hn_hash node)
     else ring_position ring h = 0)"
proof -
  have sorted: "sorted (map hn_hash ring)"
    using reachable_balancer_ok [OF assms(1)] assms(2) by (simp add: balancer_ok_def ring_ok_def)
  note spec = binary_search_spec [OF sorted, of h]
  have nth: "j < length ring \<Longrightarrow> map hn_hash ring ! j = hn_hash (ring ! j)" for j by simp
  show ?thesis
  proof (cases "binary_search (map hn_hash ring) h")
    case (Inr i)
    then show ?thesis using spec by (auto simp: ring_position_def)
  next
    case (Inl i)
    with spec have i: "i \<le> length ring" "\<forall>j < i. hn_hash (ring ! j) < h"
      "\<forall>j. i \<le> j \<longrightarrow> j < length ring \<longrightarrow> h < hn_hash (ring ! j)" by auto
    show ?thesis
    proof (cases "i = length ring")
      case True
      then have "\<forall>node \<in> set ring. \<not> h \<le> hn_hash node" using i(2) by (auto simp: in_set_conv_nth not_le)
      then show ?thesis using Inl True assms(3) by (auto simp: ring_position_def)
    next
      case False
      have p: "ring_position ring h = i" "i < length ring" using Inl False i(1) by (simp_all add: ring_position_def)
      have "hn_hash (ring ! i) \<le> hn_hash (ring ! j)" if "j < length ring" "h \<le> hn_hash (ring ! j)" for j
      proof -
        have "i \<le> j" using that i(2) by (meson not_le)
        from sorted_nth_mono [OF sorted this] that p(2) show ?thesis by simp
      qed
      moreover have "h \<le> hn_hash (ring ! i)" using p(2) i(3) by (simp add: less_imp_le)
      moreover from this have "\<exists>node \<in> set ring. h \<le> hn_hash node" using p(2) by (meson nth_mem)
      ultimately show ?thesis using p by (auto simp: in_set_conv_nth)
    qed
  qed
qed

definition ex_hasher :: "string \<Rightarrow> u64" where
  "ex_hasher key = of_nat (sum_list (map of_char key))"

definition ex_hash_lb :: LoadBalancer where
  "ex_hash_lb = (ex_balancer ConsistentHashing
     [\<lparr>hn_hash = 190, hn_target_index = 0\<rparr>, \<lparr>hn_hash = 191, hn_target_index = 0\<rparr>, \<lparr>hn_hash = 191, hn_target_index = 1\<rparr>])
     \<lparr>lb_targets := [\<lparr>bt_address = ''a'', bt_weight = 2\<rparr>, \<lparr>bt_address = ''b'', bt_weight = 1\<rparr>]\<rparr>"

lemma ex_hash_built:
  "lb_new ex_hasher ((ex_upstream ConsistentHashing)\<lparr>up_slots := 3\<rparr>)
     [\<lparr>tg_upstream = 5, tg_target = ''a'', tg_weight = 2\<rparr>, \<lparr>tg_upstream = 5, tg_target = ''b'', tg_weight = 1\<rparr>] = Ret ex_hash_lb"
  by (simp add: lb_new_def ex_upstream_def ex_balancer_def ex_hash_lb_def active_targets_def replicate_2 build_hash_ring_def
      sum32_def wrap32_def vnodes_def ring_nodes_def ex_hasher_def show_nat.simps decimal_digit_def
      sort_by_def by_hash_def cmp_def upt_rec)

lemma ex_hash_reachable: "balancer_reachable ex_hasher ex_hash_lb"
  by (rule lb_built [OF ex_hash_built]) (simp add: active_targets_def)

theorem ring_position_is_successor_witness:
  "hn_hash (lb_hash_ring ex_hash_lb ! ring_position (lb_hash_ring ex_hash_lb) 191) = 191"
proof -
  have "lb_hash_ring ex_hash_lb \<noteq> []" by (simp add: ex_hash_lb_def ex_balancer_def)
  from ring_position_is_successor [OF ex_hash_reachable refl this, of 191]
  show ?thesis by (auto simp: ex_hash_lb_def ex_balancer_def)
qed

definition key_hash :: "(string \<Rightarrow> u64) \<Rightarrow> string option \<Rightarrow> u64" where
  "key_hash hasher key = hasher (case key of Some k \<Rightarrow> k | None \<Rightarrow> ''default'')"

definition walk :: "(string \<Rightarrow> u64) \<Rightarrow> string option \<Rightarrow> LoadBalancer \<Rightarrow> nat list" where
  "walk hasher key lb = ring_walk (lb_hash_ring lb) (ring_position (lb_hash_ring lb) (key_hash hasher key))"

text \<open>With a healthy target there is one on the ring, and the first on the way from the key is taken.\<close>

lemma hash_selects_first:
  assumes ok: "balancer_ok lb" and alg: "lb_algorithm lb = ConsistentHashing" and ne: "get_healthy_indices lb \<noteq> []"
  obtains i where "find (\<lambda>i. i \<in> set (get_healthy_indices lb)) (walk hasher key lb) = Some i"
    and "select_with_key hasher lb key = (Ret (Some (address_of lb i)), lb)"
proof -
  let ?hs = "get_healthy_indices lb"
  have c: "candidates lb ?hs" by (rule candidates_healthy [OF ne])
  have t: "lb_targets lb \<noteq> []" using c ne by (cases ?hs) (auto simp: candidates_def)
  have cover: "hn_target_index ` set (lb_hash_ring lb) = {..<length (lb_targets lb)}"
    using ok alg by (simp add: balancer_ok_def ring_ok_def)
  then have ring: "lb_hash_ring lb \<noteq> []" using t by auto
  have "hd ?hs \<in> set (walk hasher key lb)"
    using ne c by (simp add: walk_def set_ring_walk [OF ring] cover candidates_def subset_iff)
  then obtain i where i: "find (\<lambda>i. i \<in> set ?hs) (walk hasher key lb) = Some i"
    using ne by (cases "find (\<lambda>i. i \<in> set ?hs) (walk hasher key lb)") (auto simp: find_None_iff)
  moreover have "select_with_key hasher lb key = (Ret (Some (address_of lb i)), lb)"
    using t ne ring alg i
    by (simp add: select_with_key_def pick_def consistent_hash_select_def Let_def walk_def key_hash_def)
  ultimately show ?thesis by (rule that)
qed

lemma find_subset:
  assumes "find P xs = Some x" and "\<And>y. Q y \<Longrightarrow> P y" and "Q x"
  shows "find Q xs = Some x"
  using assms by (induction xs) (auto split: if_splits)

lemma with_checker [simp]:
  "lb_targets (set_health_checker lb c) = lb_targets lb" "address_of (set_health_checker lb c) i = address_of lb i"
  "lb_algorithm (set_health_checker lb c) = lb_algorithm lb" "walk hasher key (set_health_checker lb c) = walk hasher key lb"
  "lb_upstream_name (set_health_checker lb c) = lb_upstream_name lb"
  by (simp_all add: set_health_checker_def address_of_def walk_def)

lemma healthy_with_checker:
  "set (get_healthy_indices (set_health_checker lb c)) =
     {i. i < length (lb_targets lb) \<and> is_healthy c (lb_upstream_name lb) (address_of lb i)}"
  by (auto simp: get_healthy_indices_def set_health_checker_def address_of_def)

text \<open>
  Consistent hashing disturbs as little as possible: when targets fail, a key whose target is
  still healthy keeps it. (Here \<open>c2\<close> is the checker's state after the failures: what is healthy in
  it was healthy before.)
\<close>

theorem failures_move_only_their_keys:
  assumes "balancer_reachable hasher lb" and "lb_algorithm lb = ConsistentHashing"
    and "fst (select_with_key hasher (set_health_checker lb c1) key) = Ret (Some addr)"
    and "is_healthy c2 (lb_upstream_name lb) addr"
    and fewer: "\<And>a. is_healthy c2 (lb_upstream_name lb) a \<Longrightarrow> is_healthy c1 (lb_upstream_name lb) a"
  shows "fst (select_with_key hasher (set_health_checker lb c2) key) = Ret (Some addr)"
proof -
  let ?l = "\<lambda>c. set_health_checker lb c"
  let ?hs = "\<lambda>c. get_healthy_indices (?l c)"
  have ok: "balancer_ok (?l c)" for c by (rule checker_ok [OF reachable_balancer_ok [OF assms(1)]])
  have "lb_targets (?l c1) \<noteq> []" using assms(3) by (auto simp: select_with_key_def)
  from select_candidate [OF ok this, of hasher key] obtain i0 where
    "i0 < length (lb_targets lb)" "address_of lb i0 = addr" using assms(3) by auto
  then have "i0 \<in> set (?hs c2)" "i0 \<in> set (?hs c1)"
    using assms(4) fewer [of addr] by (auto simp: healthy_with_checker)
  then have "?hs c1 \<noteq> []" "?hs c2 \<noteq> []" by auto
  then obtain i j where i: "find (\<lambda>i. i \<in> set (?hs c1)) (walk hasher key lb) = Some i"
      "select_with_key hasher (?l c1) key = (Ret (Some (address_of lb i)), ?l c1)"
    and j: "find (\<lambda>i. i \<in> set (?hs c2)) (walk hasher key lb) = Some j"
      "select_with_key hasher (?l c2) key = (Ret (Some (address_of lb j)), ?l c2)"
    using hash_selects_first [OF ok, of c1 hasher key] hash_selects_first [OF ok, of c2 hasher key] assms(2)
    by (metis with_checker(2-4))
  have a: "address_of lb i = addr" using i(2) assms(3) by simp
  have "i \<in> set (?hs c1)" using i(1) by (auto simp: find_Some_iff)
  then have "i \<in> set (?hs c2)" using assms(4) a by (simp add: healthy_with_checker)
  then have "find (\<lambda>i. i \<in> set (?hs c2)) (walk hasher key lb) = Some i"
    by (intro find_subset [OF i(1)]) (use fewer in \<open>auto simp: healthy_with_checker\<close>)
  with j a show ?thesis by simp
qed

definition ex_well :: HealthChecker where
  "ex_well = register_upstream health_new ''up'' [''a'', ''b''] ex_health_config"

definition ex_ill :: HealthChecker where
  "ex_ill = foldl report ex_well [(''up'', ''a'', Ev_tcp), (''up'', ''a'', Ev_tcp)]"

lemma ex_well_health: "is_healthy ex_well ''up'' x"
  by (simp add: ex_well_def is_healthy_def register_lookup target_health_default_def)

lemma ex_ill_health: "is_healthy ex_ill ''up'' ''b''" "\<not> is_healthy ex_ill ''up'' ''a''"
  unfolding ex_ill_def ex_well_def by (subst registered_reports; simp add: health_eval)+

theorem failures_move_only_their_keys_witness:
  "\<not> is_healthy ex_ill ''up'' ''a'' \<and>
   fst (select_with_key ex_hasher (set_health_checker ex_hash_lb ex_ill) (Some ''a-1'')) = Ret (Some ''b'')"
proof
  have n: "lb_upstream_name ex_hash_lb = ''up''" "lb_algorithm ex_hash_lb = ConsistentHashing"
    by (simp_all add: ex_hash_lb_def ex_balancer_def)
  have "fst (select_with_key ex_hasher (set_health_checker ex_hash_lb ex_well) (Some ''a-1'')) = Ret (Some ''b'')"
    by (simp add: select_with_key_def get_healthy_indices_def set_health_checker_def ex_well_health ex_hash_lb_def ex_balancer_def
        pick_def consistent_hash_select_def ex_hasher_def ring_walk_def ring_position_def binary_search_def bsearch_loop.simps
        upt_rec address_of_def)
  from failures_move_only_their_keys [OF ex_hash_reachable n(2) this, of ex_ill]
  show "fst (select_with_key ex_hasher (set_health_checker ex_hash_lb ex_ill) (Some ''a-1'')) = Ret (Some ''b'')"
    by (simp add: n ex_well_health ex_ill_health)
qed (rule ex_ill_health)

text \<open>
  Without a key, consistent hashing sends everything to one target: \<open>select\<close>, the call that the
  proxy makes, hashes a constant, so every request gets the same answer while the health of the
  targets does not change.
\<close>

theorem select_without_key_pins:
  assumes "balancer_reachable hasher lb" and "lb_algorithm lb = ConsistentHashing" and "get_healthy_indices lb \<noteq> []"
  shows "\<exists>i < length (lb_targets lb). selections (select hasher) n lb = replicate n (Ret (Some (address_of lb i)))"
proof -
  from hash_selects_first [OF reachable_balancer_ok [OF assms(1)] assms(2,3), of hasher None] obtain i where
    i: "find (\<lambda>i. i \<in> set (get_healthy_indices lb)) (walk hasher None lb) = Some i"
      "select hasher lb = (Ret (Some (address_of lb i)), lb)" by (auto simp: select_def)
  have "i \<in> set (get_healthy_indices lb)" using i(1) by (auto simp: find_Some_iff)
  then have "i < length (lb_targets lb)" using candidates_healthy [OF assms(3)] by (auto simp: candidates_def)
  moreover have "selections (select hasher) n lb = replicate n (Ret (Some (address_of lb i)))"
    by (induction n) (simp_all add: i(2))
  ultimately show ?thesis by blast
qed

theorem select_without_key_pins_witness:
  "selections (select ex_hasher) 3 ex_hash_lb = replicate 3 (Ret (Some ''a'')) \<or>
   selections (select ex_hasher) 3 ex_hash_lb = replicate 3 (Ret (Some ''b''))"
  using select_without_key_pins [OF ex_hash_reachable, of 3]
  by (auto simp: ex_hash_lb_def ex_balancer_def get_healthy_indices_def address_of_def less_Suc_eq upt_rec)

section \<open>Least connections\<close>

text \<open>
  Least connections takes a least loaded target: no healthy target has a smaller ratio of
  connections to weight (in percent, rounded down), as long as the counts are below \<open>2 ^ 57\<close>.
\<close>

theorem least_connections_is_least:
  assumes "balancer_reachable hasher lb" and "lb_algorithm lb = LeastConnections" and "get_healthy_indices lb \<noteq> []"
    and small: "\<And>c. c \<in> set (lb_connection_counts lb) \<Longrightarrow> unat c < 2 ^ 57"
    and load: "\<And>i. load i = unat (lb_connection_counts lb ! i) * 100 div nat (bt_weight (lb_targets lb ! i))"
  shows "\<exists>j \<in> set (get_healthy_indices lb).
    select_with_key hasher lb key = (Ret (Some (address_of lb j)), lb) \<and>
    (\<forall>i \<in> set (get_healthy_indices lb). load j \<le> load i)"
proof -
  let ?hs = "get_healthy_indices lb" and ?j = "least_index lb (get_healthy_indices lb)"
  have ok: "balancer_ok lb" by (rule reachable_balancer_ok [OF assms(1)])
  have c: "candidates lb ?hs" by (rule candidates_healthy [OF assms(3)])
  have eff: "unat (effective_load lb i) = load i" if "i \<in> set ?hs" for i
  proof -
    let ?w = "bt_weight (lb_targets lb ! i)"
    have i: "i < length (lb_targets lb)" using c that by (auto simp: candidates_def)
    have w: "0 < ?w" "?w < 2 ^ 31"
      using ok i weights_range [of "map bt_weight (lb_targets lb)" ?w] by (auto simp: balancer_ok_def)
    have "unat (lb_connection_counts lb ! i) < 2 ^ 57" using small ok i by (simp add: balancer_ok_def)
    then have "unat (lb_connection_counts lb ! i * 100) = unat (lb_connection_counts lb ! i) * 100"
      by (simp add: unat_word_ariths)
    moreover have "unat (word_of_int ?w :: usize) = nat ?w" using w by (simp add: unat_eq_nat_uint take_bit_int_eq_self unsigned_of_int)
    ultimately show ?thesis using w(1) by (simp add: effective_load_def load unat_div)
  qed
  have "lb_targets lb \<noteq> []" using c assms(3) by (cases ?hs) (auto simp: candidates_def)
  then have "select_with_key hasher lb key = (Ret (Some (address_of lb ?j)), lb)"
    using assms(2,3) by (simp add: select_with_key_def pick_def least_connections_select_def)
  moreover have "\<forall>i \<in> set ?hs. load ?j \<le> load i"
    using least_index_minimal [OF assms(3), of lb] by (auto simp: eff [symmetric] word_le_nat_alt)
  ultimately show ?thesis using least_index_minimal [OF assms(3)] by blast
qed

theorem least_connections_is_least_witness:
  "fst (select_with_key (\<lambda>_. 0) (increment_connections (increment_connections (ex_balancer LeastConnections []) ''a:80'') ''a:80'') None) = Ret (Some ''b:80'')"
proof -
  let ?lb = "increment_connections (increment_connections (ex_balancer LeastConnections []) ''a:80'') ''a:80''"
  have b: "lb_new (\<lambda>_. 0) (ex_upstream LeastConnections) [\<lparr>tg_upstream = 5, tg_target = ''a:80'', tg_weight = 200\<rparr>, \<lparr>tg_upstream = 5, tg_target = ''b:80'', tg_weight = 100\<rparr>] =
      Ret (ex_balancer LeastConnections [])"
    by (simp add: lb_new_def ex_upstream_def ex_balancer_def active_targets_def replicate_2)
  have r: "balancer_reachable (\<lambda>_. 0) ?lb"
    by (rule lb_opened, rule lb_opened, rule lb_built [OF b]) (simp add: active_targets_def)
  have lb: "?lb = (ex_balancer LeastConnections [])\<lparr>lb_connection_counts := [2, 0]\<rparr>"
    by (simp add: increment_connections_def adjust_connections_def position_def ex_balancer_def upt_rec)
  have h: "get_healthy_indices ?lb = [0, 1]" by (simp only: lb) (simp add: get_healthy_indices_def ex_balancer_def upt_rec)
  have f: "lb_algorithm ?lb = LeastConnections" "lb_connection_counts ?lb = [2, 0]"
    "bt_weight (lb_targets ?lb ! 0) = 200" "address_of ?lb 1 = ''b:80''"
    by (simp_all only: lb) (simp_all add: ex_balancer_def address_of_def)
  have ne: "get_healthy_indices ?lb \<noteq> []" by (simp add: h)
  have small: "unat c < 2 ^ 57" if "c \<in> set (lb_connection_counts ?lb)" for c using that by (auto simp: f)
  let ?load = "\<lambda>i. unat (lb_connection_counts ?lb ! i) * 100 div nat (bt_weight (lb_targets ?lb ! i))"
  obtain j where j: "j = 0 \<or> j = 1" "select_with_key (\<lambda>_. 0) ?lb None = (Ret (Some (address_of ?lb j)), ?lb)" "?load j \<le> ?load 1"
    using least_connections_is_least [OF r f(1) ne small refl, of None] unfolding h by auto
  have "?load 0 = 1" "?load 1 = 0" by (simp_all add: f)
  with j have "j = 1" by auto
  with j(2) show ?thesis by (simp add: f(4) [simplified])
qed

section \<open>Rebuilding the ring\<close>

lemma single_ring_length:
  "slots < 2 ^ 59 \<Longrightarrow> 1 \<le> slots \<Longrightarrow>
   (case build_hash_ring hasher [\<lparr>bt_address = a, bt_weight = 1\<rparr>] slots of Ret ring \<Rightarrow> length ring = unat slots | Panic \<Rightarrow> False)"
  by (simp add: build_hash_ring_def Let_def sum32_def wrap32_def ring_nodes_def vnodes_def max_def not_le [symmetric])

text \<open>
  Updating the targets forgets the configured number of slots: for an upstream with ten slots the
  ring has ten nodes when the balancer is built, and ten thousand after \<open>update_targets\<close> with the
  same target.
\<close>

theorem update_targets_ignores_slots:
  "case lb_new hasher (ex_upstream ConsistentHashing) [\<lparr>tg_upstream = 5, tg_target = ''a'', tg_weight = 1\<rparr>] of
     Panic \<Rightarrow> False
   | Ret lb \<Rightarrow>
       length (lb_hash_ring lb) = 10 \<and>
       (case update_targets hasher lb [\<lparr>tg_upstream = 5, tg_target = ''a'', tg_weight = 1\<rparr>] of
          Panic \<Rightarrow> False
        | Ret lb' \<Rightarrow> length (lb_hash_ring lb') = 10000)"
  using single_ring_length [of 10 hasher "''a''"] single_ring_length [of 10000 hasher "''a''"]
  by (auto simp: lb_new_def update_targets_def ex_upstream_def active_targets_def Let_def split: outcome.splits)

end
