(* ===== verification/Proxy_Pipeline.thy ===== *)
theory Proxy_Pipeline
  imports Kong_Text Dispatch_Hooks Expression_Router Balancer_Selection
begin

text \<open>
  The proxy engine (\<open>KongProxy\<close> of \<open>kong-proxy/src/lib.rs\<close> with \<open>grpc.rs\<close> and \<open>phases.rs\<close>): the updates of its
  tables, the choice of the plugin chain and of the upstream address, the answers it makes itself
  and the request filter, which takes a request from route matching to the decision to forward it.
  Reading the request from the connection and writing the answer to it belong to the \<open>pingora\<close>
  crate; the model starts from the request as the router sees it and ends with the answer to write.
  What it takes from outside is in \<open>proxy_env\<close>: the libraries for regular expressions, headers,
  hashing and JSON, the order of hash maps, the preload of the request body (an effect on the
  connection) and what the match adds to the plugin data.
\<close>

section \<open>State\<close>

record Service =
  sv_id :: uuid
  sv_name :: "string option"
  sv_protocol :: Protocol
  sv_host :: string
  sv_port :: u16
  sv_enabled :: bool

record 'x RequestLifecycleObserver =
  ob_on_plugins_resolved :: "'x ResolvedPlugin list \<Rightarrow> 'x RequestCtx \<Rightarrow> 'x RequestCtx"
  ob_on_request_finalizing :: "'x ResolvedPlugin list \<Rightarrow> 'x RequestCtx \<Rightarrow> 'x RequestCtx"

record ('x, 're) KongProxy =
  kp_headers :: "string list"
  kp_proxy_response_headers :: "string list"
  kp_router :: "'re Router"
  kp_routes_by_id :: "(uuid \<times> Route) list"
  kp_plugin_registry :: "'x PluginRegistry"
  kp_balancers :: "(string \<times> LoadBalancer) list"
  kp_services :: "(uuid \<times> Service) list"
  kp_plugins :: "Plugin list"
  kp_plugin_chains :: "((uuid option \<times> uuid option) \<times> 'x ResolvedPlugin list) list"
  kp_observers :: "'x RequestLifecycleObserver list"
  kp_hooks :: "'x lifecycle_hooks"

record 'x KongCtx =
  kx_route_match :: "RouteMatch option"
  kx_service :: "Service option"
  kx_upstream_addr :: "string option"
  kx_upstream_tls :: bool
  kx_upstream_is_grpc :: bool
  kx_is_grpc_request :: bool
  kx_upstream_sni :: string
  kx_plugin_ctx :: "'x RequestCtx"
  kx_resolved_plugins :: "'x ResolvedPlugin list"

record http_lib =
  hl_status_ok :: "u16 \<Rightarrow> bool"
  hl_header_ok :: "string \<Rightarrow> string \<Rightarrow> bool"
  hl_name_ok :: "string \<Rightarrow> bool"
  hl_to_str_ok :: "string \<Rightarrow> bool"
  hl_percent_encode :: "string \<Rightarrow> string"

record ('x, 're) proxy_env =
  pe_rx :: "'re regex_engine"
  pe_evict :: "route_cache \<Rightarrow> route_cache"
  pe_categories :: "(u32 \<times> nat list) list \<Rightarrow> (u32 \<times> nat list) list"
  pe_hasher :: "string \<Rightarrow> u64"
  pe_resolved :: "(string \<times> 'x ResolvedPlugin) list \<Rightarrow> (string \<times> 'x ResolvedPlugin) list"
  pe_print :: "Value \<Rightarrow> string"
  pe_http :: http_lib
  pe_preload :: "'x RequestCtx \<Rightarrow> (RequestTransportError + unit) \<times> 'x RequestCtx"
  pe_note_match :: "RouteMatch \<Rightarrow> Route option \<Rightarrow> 'x \<Rightarrow> 'x"

definition new_ctx :: "'x RequestCtx \<Rightarrow> 'x KongCtx" where
  "new_ctx plugin_ctx =
     \<lparr>kx_route_match = None, kx_service = None, kx_upstream_addr = None, kx_upstream_tls = False, kx_upstream_is_grpc = False,
      kx_is_grpc_request = False, kx_upstream_sni = [], kx_plugin_ctx = plugin_ctx, kx_resolved_plugins = []\<rparr>"

section \<open>Updates of the tables\<close>

definition chain_keys :: "Plugin list \<Rightarrow> (uuid option \<times> uuid option) list" where
  "chain_keys plugins =
     remdups ((None, None) #
       concat (map (\<lambda>p. [(pl_route p, pl_service p)] @ (if pl_route p \<noteq> None then [(pl_route p, None)] else []) @
                        (if pl_service p \<noteq> None then [(None, pl_service p)] else [])) plugins))"

definition rebuild_plugin_chains :: "('x, 're) proxy_env \<Rightarrow> ('x, 're) KongProxy \<Rightarrow> ('x, 're) KongProxy" where
  "rebuild_plugin_chains env p =
     p\<lparr>kp_plugin_chains :=
        map (\<lambda>(r, s). ((r, s), resolve_plugins (pe_resolved env) (kp_plugin_registry p) (kp_plugins p) r s None))
          (chain_keys (kp_plugins p))\<rparr>"

definition update_plugins :: "('x, 're) proxy_env \<Rightarrow> ('x, 're) KongProxy \<Rightarrow> Plugin list \<Rightarrow> ('x, 're) KongProxy" where
  "update_plugins env p plugins = rebuild_plugin_chains env (p\<lparr>kp_plugins := plugins\<rparr>)"

definition collect_last :: "('k \<times> 'v) list \<Rightarrow> ('k \<times> 'v) list" where
  "collect_last es = foldl (\<lambda>m e. AList.update (fst e) (snd e) m) [] es"

definition update_routes :: "('x, 're) proxy_env \<Rightarrow> ('x, 're) KongProxy \<Rightarrow> Route list \<Rightarrow> ('x, 're) KongProxy outcome" where
  "update_routes env p routes =
     (case unified_rebuild (pe_rx env) (pe_categories env) (kp_router p) routes of
        Panic \<Rightarrow> Panic
      | Ret router \<Rightarrow>
          Ret (rebuild_plugin_chains env
            (p\<lparr>kp_router := router, kp_routes_by_id := collect_last (map (\<lambda>r. (rt_id r, r)) routes)\<rparr>)))"

definition update_services :: "('x, 're) KongProxy \<Rightarrow> Service list \<Rightarrow> ('x, 're) KongProxy" where
  "update_services p services = p\<lparr>kp_services := collect_last (map (\<lambda>s. (sv_id s, s)) services)\<rparr>"

fun build_balancers :: "(string \<Rightarrow> u64) \<Rightarrow> Target list \<Rightarrow> Upstream list \<Rightarrow> (string \<times> LoadBalancer) list \<Rightarrow> (string \<times> LoadBalancer) list outcome" where
  "build_balancers hasher targets [] bs = Ret bs"
| "build_balancers hasher targets (u # us) bs =
     (case lb_new hasher u (filter (\<lambda>t. tg_upstream t = up_id u) targets) of
        Panic \<Rightarrow> Panic
      | Ret lb \<Rightarrow> build_balancers hasher targets us (AList.update (up_name u) lb bs))"

definition update_upstreams :: "('x, 're) proxy_env \<Rightarrow> ('x, 're) KongProxy \<Rightarrow> Upstream list \<Rightarrow> Target list \<Rightarrow> ('x, 're) KongProxy outcome" where
  "update_upstreams env p upstreams targets =
     (case build_balancers (pe_hasher env) targets upstreams [] of
        Panic \<Rightarrow> Panic | Ret bs \<Rightarrow> Ret (p\<lparr>kp_balancers := bs\<rparr>))"

section \<open>Plugin chain and upstream\<close>

definition find_route_with_snapshot ::
    "('x, 're) proxy_env \<Rightarrow> ('x, 're) KongProxy \<Rightarrow> RequestContext \<Rightarrow> (RouteMatch \<times> Route option) option \<times> ('x, 're) KongProxy" where
  "find_route_with_snapshot env p request =
     (case unified_find_route (pe_rx env) (pe_evict env) (kp_router p) request of
        (m, router) \<Rightarrow>
          (map_option (\<lambda>rm. (rm, map_of (kp_routes_by_id p) (rm_route_id rm))) m, p\<lparr>kp_router := router\<rparr>))"

definition plugin_chain :: "('x, 're) proxy_env \<Rightarrow> ('x, 're) KongProxy \<Rightarrow> RouteMatch \<Rightarrow> 'x ResolvedPlugin list" where
  "plugin_chain env p rm =
     (case map_of (kp_plugin_chains p) (Some (rm_route_id rm), rm_service_id rm) of
        Some chain \<Rightarrow> chain
      | None \<Rightarrow> resolve_plugins (pe_resolved env) (kp_plugin_registry p) (kp_plugins p) (Some (rm_route_id rm)) (rm_service_id rm) None)"

definition host_port :: "string \<Rightarrow> u16 \<Rightarrow> string" where
  "host_port host port = host @ '':'' @ nat_to_string (unat port)"

record upstream =
  us_addr :: string
  us_tls :: bool
  us_sni :: string
  us_grpc :: bool

definition resolve_upstream :: "('x, 're) proxy_env \<Rightarrow> ('x, 're) KongProxy \<Rightarrow> Service \<Rightarrow> upstream outcome \<times> ('x, 're) KongProxy" where
  "resolve_upstream env p service =
     (let tls = sv_protocol service \<in> {Https, Grpcs, Tls};
          grpc = sv_protocol service \<in> {Grpc, Grpcs};
          direct = \<lparr>us_addr = host_port (sv_host service) (sv_port service), us_tls = tls, us_sni = sv_host service, us_grpc = grpc\<rparr>
      in case map_of (kp_balancers p) (sv_host service) of
           None \<Rightarrow> (Ret direct, p)
         | Some lb \<Rightarrow>
             (case select (pe_hasher env) lb of
                (selected, lb') \<Rightarrow>
                  (case selected of
                     Panic \<Rightarrow> Panic
                   | Ret None \<Rightarrow> Ret direct
                   | Ret (Some addr) \<Rightarrow>
                       Ret \<lparr>us_addr = addr, us_tls = tls,
                            us_sni = (case lb_host_header lb' of Some h \<Rightarrow> h | None \<Rightarrow> hd (split_char (CHR '':'') addr)), us_grpc = grpc\<rparr>,
                   p\<lparr>kp_balancers := AList.update (sv_host service) lb' (kp_balancers p)\<rparr>)))"

definition apply_plugin_upstream_overrides :: "'x RequestCtx \<Rightarrow> upstream \<Rightarrow> upstream" where
  "apply_plugin_upstream_overrides ctx u =
     (let u1 = (case rq_upstream_target_host ctx of
                  None \<Rightarrow> u
                | Some host \<Rightarrow>
                    u\<lparr>us_addr := host_port host (case rq_upstream_target_port ctx of Some port \<Rightarrow> port | None \<Rightarrow> if us_tls u then 443 else 80),
                      us_sni := host\<rparr>)
      in case rq_upstream_scheme ctx of
           None \<Rightarrow> u1
         | Some scheme \<Rightarrow>
             (let u2 = u1\<lparr>us_tls := scheme \<in> {''https'', ''grpcs'', ''tls''}\<rparr>
              in if rq_upstream_target_host ctx = None \<and> us_sni u2 \<noteq> [] \<and> CHR '':'' \<notin> set (us_addr u2)
                 then u2\<lparr>us_addr := host_port (us_addr u2) (if us_tls u2 then 443 else 80)\<rparr>
                 else u2))"

section \<open>Answers\<close>

record ResponseHeader =
  rh_status :: u16
  rh_headers :: "(string \<times> string) list"

datatype answer = Respond ResponseHeader string | PingoraError | Forward

definition insert_header :: "http_lib \<Rightarrow> string \<Rightarrow> string \<Rightarrow> ResponseHeader \<Rightarrow> ResponseHeader option" where
  "insert_header hl name value resp =
     (if hl_header_ok hl name value then Some (resp\<lparr>rh_headers := AList.update (to_lowercase name) value (rh_headers resp)\<rparr>) else None)"

text \<open>The code's \<open>let _ = resp.insert_header(..)\<close>: an invalid header is left out.\<close>

definition try_header :: "http_lib \<Rightarrow> string \<Rightarrow> string \<Rightarrow> ResponseHeader \<Rightarrow> ResponseHeader" where
  "try_header hl name value resp = (case insert_header hl name value resp of Some r \<Rightarrow> r | None \<Rightarrow> resp)"

definition remove_header :: "http_lib \<Rightarrow> string \<Rightarrow> ResponseHeader \<Rightarrow> ResponseHeader" where
  "remove_header hl name resp =
     (if hl_name_ok hl name then resp\<lparr>rh_headers := AList.delete (to_lowercase name) (rh_headers resp)\<rparr> else resp)"

definition has_header_feature :: "('x, 're) KongProxy \<Rightarrow> string \<Rightarrow> bool" where
  "has_header_feature p feature = (\<exists>h \<in> set (kp_headers p). to_lowercase h = to_lowercase feature)"

definition apply_proxy_response_headers :: "http_lib \<Rightarrow> string list \<Rightarrow> ResponseHeader \<Rightarrow> ResponseHeader" where
  "apply_proxy_response_headers hl headers resp =
     foldl (\<lambda>r h. case find_sub '':'' h of
                    None \<Rightarrow> r
                  | Some i \<Rightarrow> try_header hl (trim (take i h)) (trim (drop (Suc i) h)) r) resp headers"

definition build_response_header :: "http_lib \<Rightarrow> ('x, 're) KongProxy \<Rightarrow> u16 \<Rightarrow> nat \<Rightarrow> ResponseHeader option" where
  "build_response_header hl p status body_len =
     (if \<not> hl_status_ok hl status then None
      else
        Option.bind (if status \<noteq> 204
           then Option.bind (insert_header hl ''content-length'' (nat_to_string body_len) \<lparr>rh_status = status, rh_headers = []\<rparr>)
                  (insert_header hl ''content-type'' ''application/json; charset=utf-8'')
           else Some \<lparr>rh_status = status, rh_headers = []\<rparr>) (\<lambda>resp1.
        Option.bind (if has_header_feature p ''server_tokens'' \<or> has_header_feature p ''server''
           then insert_header hl ''server'' ''kong/3.10.0'' resp1 else Some resp1) (\<lambda>resp2.
        Option.bind (if has_header_feature p ''latency_tokens'' \<or> has_header_feature p ''x-kong-response-latency''
           then insert_header hl ''x-kong-response-latency'' ''0'' resp2 else Some resp2) (\<lambda>resp3.
        Some (apply_proxy_response_headers hl (kp_proxy_response_headers p) resp3)))))"

definition with_request_id :: "http_lib \<Rightarrow> ('x, 're) KongProxy \<Rightarrow> string \<Rightarrow> ResponseHeader \<Rightarrow> ResponseHeader" where
  "with_request_id hl p request_id resp =
     (if has_header_feature p ''x-kong-request-id'' then try_header hl ''x-kong-request-id'' request_id resp else resp)"

definition send_error_response :: "http_lib \<Rightarrow> ('x, 're) KongProxy \<Rightarrow> u16 \<Rightarrow> string \<Rightarrow> string \<Rightarrow> answer" where
  "send_error_response hl p status message request_id =
     (let body = [CHR 0x7B, CHR 0x22] @ ''message'' @ [CHR 0x22, CHR 0x3A, CHR 0x22] @ message @ [CHR 0x22, CHR 0x7D]
      in case build_response_header hl p status (length body) of
           None \<Rightarrow> PingoraError
         | Some resp \<Rightarrow> Respond (with_request_id hl p request_id resp) body)"

datatype GrpcStatus =
    GrpcCancelled | GrpcInvalidArgument | GrpcDeadlineExceeded | GrpcNotFound | GrpcAlreadyExists | GrpcPermissionDenied
  | GrpcResourceExhausted | GrpcUnimplemented | GrpcInternal | GrpcUnavailable | GrpcUnauthenticated

fun grpc_code :: "GrpcStatus \<Rightarrow> nat" where
  "grpc_code GrpcCancelled = 1"
| "grpc_code GrpcInvalidArgument = 3"
| "grpc_code GrpcDeadlineExceeded = 4"
| "grpc_code GrpcNotFound = 5"
| "grpc_code GrpcAlreadyExists = 6"
| "grpc_code GrpcPermissionDenied = 7"
| "grpc_code GrpcResourceExhausted = 8"
| "grpc_code GrpcUnimplemented = 12"
| "grpc_code GrpcInternal = 13"
| "grpc_code GrpcUnavailable = 14"
| "grpc_code GrpcUnauthenticated = 16"

definition http_status_to_grpc :: "u16 \<Rightarrow> GrpcStatus" where
  "http_status_to_grpc s =
     (if s = 400 then GrpcInvalidArgument else if s = 401 then GrpcUnauthenticated else if s = 403 then GrpcPermissionDenied
      else if s = 404 then GrpcUnimplemented else if s = 405 then GrpcUnimplemented else if s = 408 then GrpcDeadlineExceeded
      else if s = 409 then GrpcAlreadyExists else if s = 429 then GrpcResourceExhausted else if s = 499 then GrpcCancelled
      else if s = 500 then GrpcInternal else if s = 501 then GrpcUnimplemented else if s = 502 then GrpcUnavailable
      else if s = 503 then GrpcUnavailable else if s = 504 then GrpcDeadlineExceeded else GrpcInternal)"

definition send_grpc_error :: "http_lib \<Rightarrow> u16 \<Rightarrow> string \<Rightarrow> string \<Rightarrow> bool \<Rightarrow> answer" where
  "send_grpc_error hl status message request_id include_request_id =
     (if \<not> hl_status_ok hl 200 then PingoraError
      else
        (case Option.bind (insert_header hl ''content-type'' ''application/grpc'' \<lparr>rh_status = 200, rh_headers = []\<rparr>) (\<lambda>r1.
              Option.bind (insert_header hl ''grpc-status'' (nat_to_string (grpc_code (http_status_to_grpc status))) r1) (\<lambda>r2.
              insert_header hl ''grpc-message'' (hl_percent_encode hl message) r2)) of
           None \<Rightarrow> PingoraError
         | Some resp \<Rightarrow> Respond (if include_request_id then try_header hl ''x-kong-request-id'' request_id resp else resp) []))"

definition on_plugin_ctx :: "('x RequestCtx \<Rightarrow> 'x RequestCtx) \<Rightarrow> 'x KongCtx \<Rightarrow> 'x KongCtx" where
  "on_plugin_ctx f ctx = ctx\<lparr>kx_plugin_ctx := f (kx_plugin_ctx ctx)\<rparr>"

definition send_error_or_grpc :: "http_lib \<Rightarrow> ('x, 're) KongProxy \<Rightarrow> u16 \<Rightarrow> string \<Rightarrow> 'x KongCtx \<Rightarrow> answer \<times> 'x KongCtx" where
  "send_error_or_grpc hl p status message ctx =
     (let ctx1 = on_plugin_ctx (mark_lifecycle mark_downstream_send_attempted) ctx;
          request_id = lc_request_id (rq_lifecycle (kx_plugin_ctx ctx))
      in (if kx_is_grpc_request ctx then send_grpc_error hl status message request_id (has_header_feature p ''x-kong-request-id'')
          else send_error_response hl p status message request_id, ctx1))"

definition send_short_circuit_response ::
    "http_lib \<Rightarrow> ('x, 're) KongProxy \<Rightarrow> 'x ResolvedPlugin list \<Rightarrow> 'x RequestCtx \<Rightarrow> answer \<times> 'x RequestCtx" where
  "send_short_circuit_response hl p plugins ctx =
     (let ctx1 = mark_lifecycle mark_downstream_send_attempted ctx;
          status = (case rq_exit_status ctx1 of Some s \<Rightarrow> s | None \<Rightarrow> 200);
          body = (case rq_exit_body ctx1 of Some b \<Rightarrow> b | None \<Rightarrow> []);
          headers = (case rq_exit_headers ctx1 of Some h \<Rightarrow> h | None \<Rightarrow> []);
          ctx2 = ctx1\<lparr>rq_exit_body := None, rq_exit_headers := None\<rparr>
      in case build_response_header hl p status (length body) of
           None \<Rightarrow> (PingoraError, ctx2)
         | Some resp \<Rightarrow>
             (let resp1 = foldl (\<lambda>r (n, v). try_header hl n v r) (with_request_id hl p (lc_request_id (rq_lifecycle ctx)) resp) headers;
                  ctx3 = ctx2\<lparr>rq_response_status := Some status,
                              rq_response_headers := filter (\<lambda>(n, v). hl_to_str_ok hl v) (rh_headers resp1)\<rparr>;
                  ctx4 = snd (run_header_filter plugins ctx3);
                  resp2 = foldl (\<lambda>r (n, v). try_header hl n v r) resp1 (rq_response_headers_to_set ctx4);
                  resp3 = foldl (\<lambda>r n. remove_header hl n r) resp2 (rq_response_headers_to_remove ctx4)
              in (Respond resp3 body, ctx4\<lparr>rq_response_headers_to_set := [], rq_response_headers_to_remove := []\<rparr>)))"

section \<open>The request filter\<close>

type_synonym ('x, 're) filter_result = "answer outcome \<times> 'x KongCtx \<times> ('x, 're) KongProxy"

definition answer_error :: "('x, 're) proxy_env \<Rightarrow> ('x, 're) KongProxy \<Rightarrow> u16 \<Rightarrow> string \<Rightarrow> 'x KongCtx \<Rightarrow> ('x, 're) filter_result" where
  "answer_error env p status message ctx =
     (case send_error_or_grpc (pe_http env) p status message ctx of (a, ctx') \<Rightarrow> (Ret a, ctx', p))"

definition answer_short_circuit :: "('x, 're) proxy_env \<Rightarrow> ('x, 're) KongProxy \<Rightarrow> 'x ResolvedPlugin list \<Rightarrow> 'x KongCtx \<Rightarrow> ('x, 're) filter_result" where
  "answer_short_circuit env p plugins ctx =
     (case send_short_circuit_response (pe_http env) p plugins (kx_plugin_ctx ctx) of (a, c) \<Rightarrow> (Ret a, ctx\<lparr>kx_plugin_ctx := c\<rparr>, p))"

definition mark_gateway :: "LifecyclePhase \<Rightarrow> string \<Rightarrow> 'x KongCtx \<Rightarrow> 'x KongCtx" where
  "mark_gateway phase component = on_plugin_ctx (mark_lifecycle (mark_gateway_error phase component))"

text \<open>Steps 4 to 6: the context learns the route, the service and the plugin chain, and the observers see them.\<close>

definition notify_plugins_resolved :: "('x, 're) KongProxy \<Rightarrow> 'x ResolvedPlugin list \<Rightarrow> 'x RequestCtx \<Rightarrow> 'x RequestCtx" where
  "notify_plugins_resolved p plugins ctx = foldl (\<lambda>c ob. ob_on_plugins_resolved ob plugins c) ctx (kp_observers p)"

definition notify_request_finalizing :: "('x, 're) KongProxy \<Rightarrow> 'x ResolvedPlugin list \<Rightarrow> 'x RequestCtx \<Rightarrow> 'x RequestCtx" where
  "notify_request_finalizing p plugins ctx = foldl (\<lambda>c ob. ob_on_request_finalizing ob plugins c) ctx (kp_observers p)"

definition enter_route ::
    "('x, 're) proxy_env \<Rightarrow> ('x, 're) KongProxy \<Rightarrow> RouteMatch \<Rightarrow> Route option \<Rightarrow> Service option \<Rightarrow> 'x KongCtx \<Rightarrow> 'x KongCtx" where
  "enter_route env p rm route service ctx =
     (let c = kx_plugin_ctx ctx;
          c1 = c\<lparr>rq_route_id := Some (rm_route_id rm), rq_route_name := rm_route_name rm, rq_service_id := rm_service_id rm,
                 rq_service_name := Option.bind service sv_name\<rparr>;
          c2 = (case route of
                  None \<Rightarrow> c1
                | Some r \<Rightarrow>
                    c1\<lparr>rq_workspace_id := rt_ws_id r,
                       rq_route_name := (if rq_route_name c1 = None then rt_name r else rq_route_name c1)\<rparr>);
          c3 = c2\<lparr>rq_extensions := pe_note_match env rm route (rq_extensions c2)\<rparr>;
          plugins = plugin_chain env p rm
      in ctx\<lparr>kx_route_match := Some rm, kx_service := service, kx_resolved_plugins := plugins,
             kx_plugin_ctx := notify_plugins_resolved p plugins c3\<rparr>)"

text \<open>From the end of the access phase: service, upstream and the dispatch hooks.\<close>

definition dispatch_request :: "('x, 're) proxy_env \<Rightarrow> ('x, 're) KongProxy \<Rightarrow> Service option \<Rightarrow> 'x KongCtx \<Rightarrow> ('x, 're) filter_result" where
  "dispatch_request env p service ctx =
     (case service of
        None \<Rightarrow> answer_error env p 503 ''no Service found for the requested route'' (mark_gateway LService ''service_lookup'' ctx)
      | Some sv \<Rightarrow>
          if \<not> sv_enabled sv then answer_error env p 503 ''Service unavailable'' (mark_gateway LService ''service_disabled'' ctx)
          else
            (case resolve_upstream env p sv of
               (Panic, p1) \<Rightarrow> (Panic, ctx, p1)
             | (Ret u, p1) \<Rightarrow>
                 (let u1 = apply_plugin_upstream_overrides (kx_plugin_ctx ctx) u;
                      ctx1 = ctx\<lparr>kx_service := Some sv, kx_upstream_addr := Some (us_addr u1), kx_upstream_tls := us_tls u1,
                                 kx_upstream_sni := us_sni u1, kx_upstream_is_grpc := us_grpc u1\<rparr>
                  in case run_dispatch_hooks (pe_print env) (kp_hooks p1) (kx_resolved_plugins ctx1) (kx_plugin_ctx ctx1) of
                       (True, c) \<Rightarrow> (Ret Forward, ctx1\<lparr>kx_plugin_ctx := c\<rparr>, p1)
                     | (False, c) \<Rightarrow> answer_short_circuit env p1 (kx_resolved_plugins ctx1) (ctx1\<lparr>kx_plugin_ctx := c\<rparr>))))"

text \<open>A phase of the chain with its two exits: an error is a 500, a short circuit is answered.\<close>

definition after_phase ::
    "('x, 're) proxy_env \<Rightarrow> ('x, 're) KongProxy \<Rightarrow> ('x ResolvedPlugin list \<Rightarrow> 'x RequestCtx \<Rightarrow> (KongError + unit) \<times> 'x RequestCtx) \<Rightarrow>
     'x KongCtx \<Rightarrow> ('x KongCtx \<Rightarrow> ('x, 're) filter_result) \<Rightarrow> ('x, 're) filter_result" where
  "after_phase env p run ctx k =
     (case run (kx_resolved_plugins ctx) (kx_plugin_ctx ctx) of
        (Inl e, c) \<Rightarrow> answer_error env p 500 ''An unexpected error occurred'' (ctx\<lparr>kx_plugin_ctx := c\<rparr>)
      | (Inr _, c) \<Rightarrow>
          if rq_short_circuited c then answer_short_circuit env p (kx_resolved_plugins ctx) (ctx\<lparr>kx_plugin_ctx := c\<rparr>)
          else k (ctx\<lparr>kx_plugin_ctx := c\<rparr>))"

definition reject_body :: "('x, 're) proxy_env \<Rightarrow> ('x, 're) KongProxy \<Rightarrow> RequestTransportError \<Rightarrow> 'x KongCtx \<Rightarrow> ('x, 're) filter_result" where
  "reject_body env p e ctx =
     answer_error env p 400 ''Bad request body''
       (mark_gateway LRequestBody ''request_body_preload''
          (if te_source e \<noteq> FromUnknown then on_plugin_ctx (mark_lifecycle (mark_transport_error e)) ctx else ctx))"

definition request_filter ::
    "('x, 're) proxy_env \<Rightarrow> ('x, 're) KongProxy \<Rightarrow> RequestContext \<Rightarrow> bool \<Rightarrow> 'x KongCtx \<Rightarrow> ('x, 're) filter_result" where
  "request_filter env p request is_grpc ctx =
     (let ctx0 = ctx\<lparr>kx_is_grpc_request := is_grpc\<rparr>
      in case find_route_with_snapshot env p request of
           (None, p1) \<Rightarrow> answer_error env p1 404 ''no Route matched with those values'' ctx0
         | (Some (rm, route), p1) \<Rightarrow>
             (let service = Option.bind (rm_service_id rm) (map_of (kp_services p1));
                  ctx1 = enter_route env p1 rm route service ctx0
              in case pe_preload env (kx_plugin_ctx ctx1) of
                   (Inl e, c) \<Rightarrow> reject_body env p1 e (ctx1\<lparr>kx_plugin_ctx := c\<rparr>)
                 | (Inr _, c) \<Rightarrow>
                     after_phase env p1 run_rewrite (ctx1\<lparr>kx_plugin_ctx := c\<rparr>) (\<lambda>ctx2.
                     after_phase env p1 run_access ctx2 (\<lambda>ctx3.
                     dispatch_request env p1 service ctx3))))"

section \<open>The precomputed chains are the resolved chains\<close>

definition chains_current :: "('x, 're) proxy_env \<Rightarrow> ('x, 're) KongProxy \<Rightarrow> bool" where
  "chains_current env p =
     (\<forall>((r, s), chain) \<in> set (kp_plugin_chains p).
        chain = resolve_plugins (pe_resolved env) (kp_plugin_registry p) (kp_plugins p) r s None)"

lemma chains_current_rebuild: "chains_current env (rebuild_plugin_chains env p)"
  by (auto simp: chains_current_def rebuild_plugin_chains_def)

lemma chains_current_router: "chains_current env (p\<lparr>kp_router := router\<rparr>) = chains_current env p"
  "chains_current env (p\<lparr>kp_balancers := bs\<rparr>) = chains_current env p"
  "chains_current env (p\<lparr>kp_services := ss\<rparr>) = chains_current env p"
  by (simp_all add: chains_current_def)

lemma plugin_chain_current:
  assumes "chains_current env p"
  shows "plugin_chain env p rm =
    resolve_plugins (pe_resolved env) (kp_plugin_registry p) (kp_plugins p) (Some (rm_route_id rm)) (rm_service_id rm) None"
  using assms by (auto simp: plugin_chain_def chains_current_def split: option.split dest!: map_of_SomeD)

section \<open>Reachable states\<close>

text \<open>
  The states of a proxy: it starts with a router and no plugins, and then its tables are updated and
  requests go through the filter, in any order. The target weights of an upstream are taken to sum
  below \<open>2 ^ 31\<close>; the administration interface checks single weights, no code checks the sum. Handlers and observers are total functions, so their own panics
  (which nothing catches) are outside of the model.
\<close>

definition weights_small :: "Upstream list \<Rightarrow> Target list \<Rightarrow> bool" where
  "weights_small upstreams targets =
     (\<forall>u \<in> set upstreams. sum_list (map bt_weight (active_targets (filter (\<lambda>t. tg_upstream t = up_id u) targets))) < 2 ^ 31)"

inductive proxy_reachable :: "('x, 're) proxy_env \<Rightarrow> ('x, 're) KongProxy \<Rightarrow> bool" for env where
  proxy_started: "kp_plugins p = [] \<Longrightarrow> kp_plugin_chains p = [] \<Longrightarrow> kp_balancers p = [] \<Longrightarrow> proxy_reachable env p"
| proxy_plugins: "proxy_reachable env p \<Longrightarrow> proxy_reachable env (update_plugins env p plugins)"
| proxy_routes: "proxy_reachable env p \<Longrightarrow> update_routes env p routes = Ret p' \<Longrightarrow> proxy_reachable env p'"
| proxy_services: "proxy_reachable env p \<Longrightarrow> proxy_reachable env (update_services p services)"
| proxy_upstreams: "proxy_reachable env p \<Longrightarrow> update_upstreams env p upstreams targets = Ret p' \<Longrightarrow> weights_small upstreams targets \<Longrightarrow>
    proxy_reachable env p'"
| proxy_request: "proxy_reachable env p \<Longrightarrow> request_filter env p request is_grpc ctx = (a, ctx', p') \<Longrightarrow> proxy_reachable env p'"

definition proxy_ok :: "('x, 're) proxy_env \<Rightarrow> ('x, 're) KongProxy \<Rightarrow> bool" where
  "proxy_ok env p = (chains_current env p \<and> (\<forall>(name, lb) \<in> set (kp_balancers p). balancer_ok lb))"

lemma build_balancers_ok:
  "build_balancers hasher targets us bs = Ret bs' \<Longrightarrow> weights_small us targets \<Longrightarrow> \<forall>(name, lb) \<in> set bs. balancer_ok lb \<Longrightarrow>
     \<forall>(name, lb) \<in> set bs'. balancer_ok lb"
proof (induction us arbitrary: bs)
  case (Cons u us)
  from Cons.prems(1) obtain lb where lb: "lb_new hasher u (filter (\<lambda>t. tg_upstream t = up_id u) targets) = Ret lb"
    "build_balancers hasher targets us (AList.update (up_name u) lb bs) = Ret bs'" by (auto split: outcome.splits)
  have "balancer_ok lb" using Cons.prems(2) by (intro lb_new_ok [OF lb(1)]) (simp add: weights_small_def)
  then have "\<forall>(name, lb) \<in> set (AList.update (up_name u) lb bs). balancer_ok lb"
    using Cons.prems(3) set_update_subset [of "up_name u" lb bs] by auto
  with Cons.IH [OF lb(2)] Cons.prems(2) show ?case by (simp add: weights_small_def)
qed simp

lemma resolve_upstream_ok: "proxy_ok env p \<Longrightarrow> resolve_upstream env p sv = (r, p') \<Longrightarrow> proxy_ok env p'"
proof -
  assume ok: "proxy_ok env p" and r: "resolve_upstream env p sv = (r, p')"
  show ?thesis
  proof (cases "map_of (kp_balancers p) (sv_host sv)")
    case None
    with ok r show ?thesis by (simp add: resolve_upstream_def Let_def)
  next
    case (Some lb)
    then have "balancer_ok lb" using ok by (auto simp: proxy_ok_def dest: map_of_SomeD)
    then have "balancer_ok (snd (select (pe_hasher env) lb))" by (simp add: select_def select_ok)
    then have "\<forall>(name, lb) \<in> set (AList.update (sv_host sv) (snd (select (pe_hasher env) lb)) (kp_balancers p)). balancer_ok lb"
      using ok set_update_subset [of "sv_host sv" "snd (select (pe_hasher env) lb)" "kp_balancers p"] by (auto simp: proxy_ok_def)
    moreover have "p' = p\<lparr>kp_balancers := AList.update (sv_host sv) (snd (select (pe_hasher env) lb)) (kp_balancers p)\<rparr>"
      using r Some by (auto simp: resolve_upstream_def Let_def split: prod.splits)
    ultimately show ?thesis using ok by (simp add: proxy_ok_def chains_current_router)
  qed
qed

lemmas answer_defs = answer_error_def answer_short_circuit_def reject_body_def

lemma answers_keep_proxy [simp]:
  "snd (snd (answer_error env p s m c)) = p" "snd (snd (answer_short_circuit env p ps c)) = p" "snd (snd (reject_body env p e c)) = p"
  by (simp_all add: answer_defs split: prod.split)

lemma after_phase_proxy:
  "snd (snd (after_phase env p run ctx k)) = p \<or>
   (\<exists>c. run (kx_resolved_plugins ctx) (kx_plugin_ctx ctx) = (Inr (), c) \<and> \<not> rq_short_circuited c \<and>
        after_phase env p run ctx k = k (ctx\<lparr>kx_plugin_ctx := c\<rparr>))"
  by (auto simp: after_phase_def split: prod.splits sum.splits)

lemma dispatch_request_ok: "proxy_ok env p \<Longrightarrow> proxy_ok env (snd (snd (dispatch_request env p sv ctx)))"
  by (auto simp: dispatch_request_def Let_def split: option.splits prod.splits outcome.splits bool.splits dest: resolve_upstream_ok)

lemma find_route_proxy:
  "find_route_with_snapshot env p request = (m, p1) \<Longrightarrow> \<exists>router. p1 = p\<lparr>kp_router := router\<rparr>"
  by (auto simp: find_route_with_snapshot_def split: prod.splits)

lemma request_filter_ok: "proxy_ok env p \<Longrightarrow> proxy_ok env (snd (snd (request_filter env p request is_grpc ctx)))"
proof -
  assume ok: "proxy_ok env p"
  obtain m p1 where f: "find_route_with_snapshot env p request = (m, p1)" by force
  have ok1: "proxy_ok env p1" using find_route_proxy [OF f] ok by (auto simp: proxy_ok_def chains_current_router)
  have "proxy_ok env (snd (snd (after_phase env p1 run_rewrite c (\<lambda>c2. after_phase env p1 run_access c2 (dispatch_request env p1 sv)))))" for c sv
    using after_phase_proxy [of env p1 run_rewrite c "\<lambda>c2. after_phase env p1 run_access c2 (dispatch_request env p1 sv)"]
      after_phase_proxy [of env p1 run_access _ "dispatch_request env p1 sv"] ok1 dispatch_request_ok [OF ok1]
    by metis
  then show ?thesis by (auto simp: request_filter_def Let_def f ok1 split: option.splits prod.splits sum.splits)
qed

lemma reachable_proxy_ok: "proxy_reachable env p \<Longrightarrow> proxy_ok env p"
proof (induction rule: proxy_reachable.induct)
  case (proxy_upstreams p upstreams targets p')
  then obtain bs where bs: "build_balancers (pe_hasher env) targets upstreams [] = Ret bs" "p' = p\<lparr>kp_balancers := bs\<rparr>"
    by (auto simp: update_upstreams_def split: outcome.splits)
  then show ?case using proxy_upstreams build_balancers_ok [OF bs(1)] by (simp add: proxy_ok_def chains_current_router)
next
  case (proxy_routes p routes p')
  then show ?case
    by (auto simp: update_routes_def proxy_ok_def rebuild_plugin_chains_def chains_current_def split: outcome.splits)
next
  case (proxy_request p request is_grpc ctx a ctx' p')
  then show ?case using request_filter_ok by (metis snd_conv)
qed (auto simp: proxy_ok_def chains_current_def update_plugins_def rebuild_plugin_chains_def update_services_def)

section \<open>Complete mediation\<close>

text \<open>
  The precomputed plugin chains never go stale: in every reachable state of the proxy, whatever
  updates and requests came before, the chain used for a matched route is the chain that
  \<open>resolve_plugins\<close> computes from the current plugins for that route and its service.
\<close>

theorem plugin_chains_stay_current:
  assumes "proxy_reachable env p"
  shows "plugin_chain env p rm =
    resolve_plugins (pe_resolved env) (kp_plugin_registry p) (kp_plugins p) (Some (rm_route_id rm)) (rm_service_id rm) None"
  using reachable_proxy_ok [OF assms] by (intro plugin_chain_current) (simp add: proxy_ok_def)

lemma case_answer: "(case x of None \<Rightarrow> PingoraError | Some resp \<Rightarrow> Respond (f resp) body) \<noteq> Forward"
  by (cases x) auto

lemma never_forward [simp]:
  "send_error_response hl p s m i \<noteq> Forward" "send_grpc_error hl s m i b \<noteq> Forward"
  "fst (send_error_or_grpc hl p s m ctx) \<noteq> Forward" "fst (send_short_circuit_response hl p ps c) \<noteq> Forward"
proof -
  show e: "send_error_response hl p s m i \<noteq> Forward" for i by (simp add: send_error_response_def Let_def split: option.split)
  show g: "send_grpc_error hl s m i b \<noteq> Forward" for i b 
    unfolding send_grpc_error_def by (split if_split) (simp only: case_answer answer.distinct simp_thms)
  show "fst (send_error_or_grpc hl p s m ctx) \<noteq> Forward" using e g by (simp add: send_error_or_grpc_def Let_def)
  show "fst (send_short_circuit_response hl p ps c) \<noteq> Forward"
    unfolding send_short_circuit_response_def Let_def by (simp split: option.split)
qed

lemma answers_never_forward [simp]:
  "answer_error env p s m c \<noteq> (Ret Forward, r)" "answer_short_circuit env p ps c \<noteq> (Ret Forward, r)" "reject_body env p e c \<noteq> (Ret Forward, r)"
proof -
  show e: "answer_error env p s m c \<noteq> (Ret Forward, r)" for s m c
    using never_forward(3) [of "pe_http env" p s m c] by (auto simp: answer_error_def split: prod.splits simp del: never_forward)
  show "answer_short_circuit env p ps c \<noteq> (Ret Forward, r)"
    using never_forward(4) [of "pe_http env" p ps "kx_plugin_ctx c"]
    by (auto simp: answer_short_circuit_def split: prod.splits simp del: never_forward)
  show "reject_body env p e c \<noteq> (Ret Forward, r)" unfolding reject_body_def by (rule e)
qed

lemma after_phase_forward:
  assumes "after_phase env p run ctx k = (Ret Forward, r)"
  obtains c where "run (kx_resolved_plugins ctx) (kx_plugin_ctx ctx) = (Inr (), c)" "\<not> rq_short_circuited c"
    "k (ctx\<lparr>kx_plugin_ctx := c\<rparr>) = (Ret Forward, r)"
  using assms by (auto simp: after_phase_def split: prod.splits sum.splits if_splits)

lemma phase_runs_all:
  assumes "execute_phase ps phase ctx = (Inr u, c)" and "\<not> rq_short_circuited c"
  shows "chain_run phase ctx ps c"
  using execute_phase_run [of ps phase ctx] assms by (auto simp: runs_def)

lemma dispatch_request_forward:
  assumes "dispatch_request env p service ctx = (Ret Forward, ctx', p')"
  obtains sv u where "service = Some sv" "sv_enabled sv" "resolve_upstream env p sv = (Ret u, p')"
    "kx_upstream_addr ctx' = Some (us_addr (apply_plugin_upstream_overrides (kx_plugin_ctx ctx) u))"
    "kx_resolved_plugins ctx' = kx_resolved_plugins ctx"
    "run_dispatch_hooks (pe_print env) (kp_hooks p') (kx_resolved_plugins ctx) (kx_plugin_ctx ctx) = (True, kx_plugin_ctx ctx')"
  using assms
  by (auto simp: dispatch_request_def Let_def split: option.splits if_splits prod.splits outcome.splits bool.splits)

lemma resolve_upstream_hooks: "resolve_upstream env p sv = (r, p') \<Longrightarrow> kp_hooks p' = kp_hooks p"
  by (auto simp: resolve_upstream_def Let_def split: option.splits prod.splits)

text \<open>
  C3. Complete mediation: a request leaves for the upstream only if a route matched, the route's
  service exists and is enabled, every plugin of the current chain ran in the rewrite and then in the
  access phase, in order and without an error, the request was not short-circuited, and every
  dispatch hook cleared it. The address is the one resolved for the service, with the overrides that
  the plugins staged.
\<close>

theorem forwarded_request_is_mediated:
  assumes "proxy_reachable env p" and "request_filter env p request is_grpc ctx = (Ret Forward, ctx', p')"
  shows "\<exists>rm route sv u p1 c0 c1 c2.
    find_route_with_snapshot env p request = (Some (rm, route), p1) \<and>
    Option.bind (rm_service_id rm) (map_of (kp_services p)) = Some sv \<and> sv_enabled sv \<and>
    kx_resolved_plugins ctx' =
      resolve_plugins (pe_resolved env) (kp_plugin_registry p) (kp_plugins p) (Some (rm_route_id rm)) (rm_service_id rm) None \<and>
    chain_run Rewrite c0 (kx_resolved_plugins ctx') c1 \<and> \<not> rq_short_circuited c1 \<and>
    chain_run Access c1 (kx_resolved_plugins ctx') c2 \<and> \<not> rq_short_circuited c2 \<and>
    hooks_clear (kx_resolved_plugins ctx') c2 (hk_dispatch (kp_hooks p)) (kx_plugin_ctx ctx') \<and>
    \<not> rq_upstream_dispatch_forbidden (kx_plugin_ctx ctx') \<and>
    resolve_upstream env p1 sv = (Ret u, p') \<and> kx_upstream_addr ctx' = Some (us_addr (apply_plugin_upstream_overrides c2 u))"
proof -
  obtain m p1 where f: "find_route_with_snapshot env p request = (m, p1)" by force
  then obtain router where p1: "p1 = p\<lparr>kp_router := router\<rparr>" using find_route_proxy by blast
  from assms(2) f obtain rm route where m: "m = Some (rm, route)"
    by (cases m) (auto simp: request_filter_def Let_def)
  let ?sv = "Option.bind (rm_service_id rm) (map_of (kp_services p1))"
  let ?ctx1 = "enter_route env p1 rm route ?sv (ctx\<lparr>kx_is_grpc_request := is_grpc\<rparr>)"
  from assms(2) f m obtain c0 where c0:
    "after_phase env p1 run_rewrite (?ctx1\<lparr>kx_plugin_ctx := c0\<rparr>) (\<lambda>ctx2. after_phase env p1 run_access ctx2 (\<lambda>ctx3. dispatch_request env p1 ?sv ctx3)) =
     (Ret Forward, ctx', p')"
    by (auto simp: request_filter_def Let_def split: prod.splits sum.splits)
  let ?ps = "kx_resolved_plugins ?ctx1"
  from after_phase_forward [OF c0] obtain c1 where c1: "run_rewrite ?ps c0 = (Inr (), c1)" "\<not> rq_short_circuited c1"
    "after_phase env p1 run_access (?ctx1\<lparr>kx_plugin_ctx := c1\<rparr>) (\<lambda>ctx3. dispatch_request env p1 ?sv ctx3) = (Ret Forward, ctx', p')" by auto
  from after_phase_forward [OF c1(3)] obtain c2 where c2: "run_access ?ps c1 = (Inr (), c2)" "\<not> rq_short_circuited c2"
    "dispatch_request env p1 ?sv (?ctx1\<lparr>kx_plugin_ctx := c2\<rparr>) = (Ret Forward, ctx', p')" by auto
  from dispatch_request_forward [OF c2(3)] obtain sv u where sv: "?sv = Some sv" "sv_enabled sv" "resolve_upstream env p1 sv = (Ret u, p')"
    "kx_upstream_addr ctx' = Some (us_addr (apply_plugin_upstream_overrides c2 u))" "kx_resolved_plugins ctx' = ?ps"
    "run_dispatch_hooks (pe_print env) (kp_hooks p') ?ps c2 = (True, kx_plugin_ctx ctx')" by auto
  have hooks: "hooks_clear ?ps c2 (hk_dispatch (kp_hooks p)) (kx_plugin_ctx ctx')" "\<not> rq_upstream_dispatch_forbidden (kx_plugin_ctx ctx')"
    using sv(6) resolve_upstream_hooks [OF sv(3)] by (simp_all add: run_dispatch_hooks_clear p1)
  have "?ps = plugin_chain env p rm" by (simp add: enter_route_def Let_def plugin_chain_def p1 split: option.split)
  also have "\<dots> = resolve_plugins (pe_resolved env) (kp_plugin_registry p) (kp_plugins p) (Some (rm_route_id rm)) (rm_service_id rm) None"
    using reachable_proxy_ok [OF assms(1)] by (intro plugin_chain_current) (simp add: proxy_ok_def)
  finally have ps: "?ps = \<dots>" .
  have run: "chain_run Rewrite c0 ?ps c1" "chain_run Access c1 ?ps c2"
    using phase_runs_all c1(1,2) c2(1,2) by (auto simp: run_rewrite_def run_access_def)
  show ?thesis
  proof (intro exI conjI)
    show "find_route_with_snapshot env p request = (Some (rm, route), p1)" using f m by simp
    show "Option.bind (rm_service_id rm) (map_of (kp_services p)) = Some sv" using sv(1) by (simp add: p1)
    show "kx_resolved_plugins ctx' =
        resolve_plugins (pe_resolved env) (kp_plugin_registry p) (kp_plugins p) (Some (rm_route_id rm)) (rm_service_id rm) None"
      using sv(5) ps by simp
    show "chain_run Rewrite c0 (kx_resolved_plugins ctx') c1" "chain_run Access c1 (kx_resolved_plugins ctx') c2"
      "hooks_clear (kx_resolved_plugins ctx') c2 (hk_dispatch (kp_hooks p)) (kx_plugin_ctx ctx')"
      unfolding sv(5) by (rule run hooks(1))+
  qed (rule sv c1(2) c2(2) hooks(2))+
qed

lemma select_no_panic: "balancer_ok lb \<Longrightarrow> fst (select hasher lb) \<noteq> Panic"
proof (cases "lb_targets lb = []")
  case True
  then show ?thesis by (simp add: select_def select_with_key_def)
next
  case False
  assume "balancer_ok lb"
  from select_candidate [OF this False, of hasher None] show ?thesis by (auto simp: select_def)
qed

lemma resolve_upstream_no_panic: "proxy_ok env p \<Longrightarrow> fst (resolve_upstream env p sv) \<noteq> Panic"
proof (cases "map_of (kp_balancers p) (sv_host sv)")
  case (Some lb)
  assume "proxy_ok env p"
  then have "balancer_ok lb" using Some by (auto simp: proxy_ok_def dest: map_of_SomeD)
  from select_no_panic [OF this, of "pe_hasher env"] show ?thesis
    using Some by (auto simp: resolve_upstream_def Let_def split: prod.splits outcome.splits option.splits)
qed (simp add: resolve_upstream_def Let_def)

lemma answers_no_panic [simp]:
  "fst (answer_error env p s m c) \<noteq> Panic" "fst (answer_short_circuit env p ps c) \<noteq> Panic" "fst (reject_body env p e c) \<noteq> Panic"
  by (simp_all add: answer_defs split: prod.split)

lemma dispatch_request_no_panic: "proxy_ok env p \<Longrightarrow> fst (dispatch_request env p sv ctx) \<noteq> Panic"
proof (cases sv)
  case (Some s)
  assume "proxy_ok env p"
  from resolve_upstream_no_panic [OF this, of s] Some show ?thesis
    by (auto simp: dispatch_request_def Let_def split: prod.splits outcome.splits bool.splits)
qed (simp add: dispatch_request_def)

lemma after_phase_no_panic: "(\<And>c. fst (k c) \<noteq> Panic) \<Longrightarrow> fst (after_phase env p run ctx k) \<noteq> Panic"
  by (auto simp: after_phase_def split: prod.splits sum.splits)

text \<open>
  C39. Every request gets a decision: in every reachable state the request filter does not panic but
  ends with an answer or with the request forwarded. In the states meant here the target weights of
  each upstream sum below \<open>2 ^ 31\<close> (the administration interface checks single weights, nothing checks
  their sum, which is a 32-bit integer of the code),
  and plugin handlers, observers and hooks are code that does not panic itself or, for hooks, whose
  panic is caught: what the theorem excludes are the panics of the proxy, the indexing and the division
  of the balancer that chooses the target.
\<close>

theorem request_filter_never_panics:
  assumes "proxy_reachable env p" and "request_filter env p request is_grpc ctx = (a, ctx', p')"
  shows "\<exists>decision. a = Ret decision"
proof -
  have ok: "proxy_ok env p" by (rule reachable_proxy_ok [OF assms(1)])
  obtain m p1 where f: "find_route_with_snapshot env p request = (m, p1)" by force
  have ok1: "proxy_ok env p1" using find_route_proxy [OF f] ok by (auto simp: proxy_ok_def chains_current_router)
  have "fst (after_phase env p1 run_rewrite c (\<lambda>c2. after_phase env p1 run_access c2 (\<lambda>c3. dispatch_request env p1 sv c3))) \<noteq> Panic" for c sv
    by (intro after_phase_no_panic dispatch_request_no_panic ok1)
  then have "fst (request_filter env p request is_grpc ctx) \<noteq> Panic"
    by (auto simp: request_filter_def Let_def f split: option.splits prod.splits sum.splits simp del: prod.collapse)
  with assms(2) show ?thesis by (cases a) simp_all
qed

section \<open>What the pipeline leaves out\<close>

text \<open>
  Plugins of a consumer never run: whatever consumer a request is authenticated as, the chain of
  the proxy holds no configuration that is bound to a consumer, since chains are resolved before
  authentication and never again.
\<close>

theorem consumer_plugins_never_run:
  assumes "proxy_reachable env p" and "\<And>m. iterates (pe_resolved env) m" and "rp \<in> set (plugin_chain env p rm)"
  shows "rp_consumer_id rp = None"
proof -
  have "plugin_chain env p rm =
      resolve_plugins (pe_resolved env) (kp_plugin_registry p) (kp_plugins p) (Some (rm_route_id rm)) (rm_service_id rm) None"
    using reachable_proxy_ok [OF assms(1)] by (intro plugin_chain_current) (simp add: proxy_ok_def)
  from resolve_plugins_spec [OF assms(2) this] assms(3) obtain q h where
    "applies (kp_plugin_registry p) (Some (rm_route_id rm)) (rm_service_id rm) None q" "rp = resolved_plugin h q" by blast
  then show ?thesis by (auto simp: applies_def plugin_matches_def fk_matches_def resolved_plugin_def split: option.splits)
qed

text \<open>A proxy with one route, a service behind an upstream, a plugin for everyone and one for a consumer.\<close>

definition ex_http :: http_lib where
  "ex_http = \<lparr>hl_status_ok = (\<lambda>s. 100 \<le> s \<and> s \<le> 999), hl_header_ok = (\<lambda>n v. n \<noteq> []), hl_name_ok = (\<lambda>n. n \<noteq> []),
     hl_to_str_ok = (\<lambda>v. True), hl_percent_encode = id\<rparr>"

definition ex_env :: "(unit, unit) proxy_env" where
  "ex_env = \<lparr>pe_rx = ex_rx, pe_evict = id, pe_categories = id, pe_hasher = (\<lambda>s. 0), pe_resolved = rev, pe_print = (\<lambda>v. ''{}''),
     pe_http = ex_http, pe_preload = (\<lambda>c. (Inr (), c)), pe_note_match = (\<lambda>m r x. x)\<rparr>"

definition ex_proxy_start :: "(unit, unit) KongProxy" where
  "ex_proxy_start = \<lparr>kp_headers = [], kp_proxy_response_headers = [],
     kp_router = Expressions [compile_route ((route_default 1)\<lparr>rt_service := Some 7\<rparr>) (EEq HttpPath ''/api'')] [], kp_routes_by_id = [],
     kp_plugin_registry = ex_registry, kp_balancers = [], kp_services = [], kp_plugins = [], kp_plugin_chains = [], kp_observers = [],
     kp_hooks = \<lparr>hk_dispatch = [], hk_abort = [], hk_finalizers = []\<rparr>\<rparr>"

definition ex_proxy_plugins :: "Plugin list" where
  "ex_proxy_plugins = [ex_plugin 12 ''cache'' None, (ex_plugin 13 ''limit'' None)\<lparr>pl_consumer := Some 8\<rparr>]"

definition ex_service :: Service where
  "ex_service = \<lparr>sv_id = 7, sv_name = None, sv_protocol = Http, sv_host = ''up'', sv_port = 80, sv_enabled = True\<rparr>"

definition ex_targets :: "Target list" where
  "ex_targets = [\<lparr>tg_upstream = 5, tg_target = ''a:80'', tg_weight = 200\<rparr>, \<lparr>tg_upstream = 5, tg_target = ''b:80'', tg_weight = 100\<rparr>]"

definition ex_proxy :: "(unit, unit) KongProxy" where
  "ex_proxy = (update_services (update_plugins ex_env ex_proxy_start ex_proxy_plugins) [ex_service])
     \<lparr>kp_balancers := [(''up'', ex_balancer RoundRobin [])]\<rparr>"

lemma ex_proxy_reachable: "proxy_reachable ex_env ex_proxy"
proof -
  let ?p = "update_services (update_plugins ex_env ex_proxy_start ex_proxy_plugins) [ex_service]"
  have "proxy_reachable ex_env ?p"
    by (intro proxy_services proxy_plugins proxy_started) (simp_all add: ex_proxy_start_def)
  moreover have "update_upstreams ex_env ?p [ex_upstream RoundRobin] ex_targets = Ret ex_proxy"
    by (simp add: update_upstreams_def ex_proxy_def lb_new_def ex_upstream_def ex_balancer_def ex_targets_def active_targets_def replicate_2)
  moreover have "weights_small [ex_upstream RoundRobin] ex_targets"
    by (simp add: weights_small_def ex_targets_def ex_upstream_def active_targets_def)
  ultimately show ?thesis by (rule proxy_upstreams)
qed

lemma ex_forwarded:
  "\<exists>ctx' p'. request_filter ex_env ex_proxy (ex_request ''http'' ''/api'') False (new_ctx ex_request_ctx) = (Ret Forward, ctx', p') \<and>
     kx_upstream_addr ctx' = Some ''a:80'' \<and> map rp_plugin_id (kx_resolved_plugins ctx') = [12]"
proof -
  have "case request_filter ex_env ex_proxy (ex_request ''http'' ''/api'') False (new_ctx ex_request_ctx) of
     (a, ctx', p') \<Rightarrow> a = Ret Forward \<and> kx_upstream_addr ctx' = Some ''a:80'' \<and> map rp_plugin_id (kx_resolved_plugins ctx') = [12]"
    by code_simp
  then show ?thesis by (auto split: prod.splits)
qed

definition ex_match :: RouteMatch where
  "ex_match = expr_match (compile_route ((route_default 1)\<lparr>rt_service := Some 7\<rparr>) (EEq HttpPath ''/api'' :: unit CompiledExpression))"

theorem plugin_chains_stay_current_witness:
  "proxy_reachable ex_env ex_proxy \<and> map rp_plugin_id (plugin_chain ex_env ex_proxy ex_match) = [12]"
proof
  show "proxy_reachable ex_env ex_proxy" by (rule ex_proxy_reachable)
  show "map rp_plugin_id (plugin_chain ex_env ex_proxy ex_match) = [12]"
    unfolding plugin_chains_stay_current [OF ex_proxy_reachable] by code_simp
qed

theorem forwarded_request_is_mediated_witness:
  "\<exists>(sv :: Service) ctx' p' c0 c1 c2.
     request_filter ex_env ex_proxy (ex_request ''http'' ''/api'') False (new_ctx ex_request_ctx) = (Ret Forward, ctx', p') \<and>
     sv_enabled sv \<and> chain_run Rewrite c0 (kx_resolved_plugins ctx') c1 \<and> chain_run Access c1 (kx_resolved_plugins ctx') c2 \<and>
     map rp_plugin_id (kx_resolved_plugins ctx') = [12] \<and> kx_upstream_addr ctx' = Some ''a:80''"
proof -
  from ex_forwarded obtain ctx' p' where
    f: "request_filter ex_env ex_proxy (ex_request ''http'' ''/api'') False (new_ctx ex_request_ctx) = (Ret Forward, ctx', p')"
    and "kx_upstream_addr ctx' = Some ''a:80''" "map rp_plugin_id (kx_resolved_plugins ctx') = [12]" by (elim exE conjE) (rule that)
  with forwarded_request_is_mediated [OF ex_proxy_reachable f] show ?thesis by (elim exE conjE, intro exI conjI)
qed

theorem request_filter_never_panics_witness:
  "\<exists>decision ctx' p'. request_filter ex_env ex_proxy (ex_request ''http'' ''/api'') False (new_ctx ex_request_ctx) = (Ret decision, ctx', p')"
proof -
  obtain a ctx' p' where
    f: "request_filter ex_env ex_proxy (ex_request ''http'' ''/api'') False (new_ctx ex_request_ctx) = (a, ctx', p')" by (metis prod_cases3)
  from request_filter_never_panics [OF ex_proxy_reachable f] f show ?thesis by blast
qed

theorem consumer_plugins_never_run_witness:
  "map pl_consumer (kp_plugins ex_proxy) = [None, Some 8] \<and>
   list_all (\<lambda>rp. rp_consumer_id rp = None) (plugin_chain ex_env ex_proxy ex_match)"
proof
  show "map pl_consumer (kp_plugins ex_proxy) = [None, Some 8]" by code_simp
  have "iterates (pe_resolved ex_env) m" for m by (simp add: ex_env_def)
  with consumer_plugins_never_run [OF ex_proxy_reachable, of _ ex_match] show "list_all (\<lambda>rp. rp_consumer_id rp = None) (plugin_chain ex_env ex_proxy ex_match)"
    by (simp add: list_all_iff)
qed

text \<open>The balancers of the proxy as \<open>update_upstreams\<close> leaves them: no health checker, no connection counted.\<close>

definition balancer_blind :: "LoadBalancer \<Rightarrow> bool" where
  "balancer_blind lb = (lb_health_checker lb = None \<and> set (lb_connection_counts lb) \<subseteq> {0})"

lemma lb_new_blind: "lb_new hasher u ts = Ret lb \<Longrightarrow> balancer_blind lb"
  by (auto simp: lb_new_def Let_def balancer_blind_def split: outcome.splits if_splits)

lemma build_balancers_blind:
  "build_balancers hasher targets us bs = Ret bs' \<Longrightarrow> \<forall>(name, lb) \<in> set bs. balancer_blind lb \<Longrightarrow> \<forall>(name, lb) \<in> set bs'. balancer_blind lb"
proof (induction us arbitrary: bs)
  case (Cons u us)
  from Cons.prems(1) obtain lb where lb: "lb_new hasher u (filter (\<lambda>t. tg_upstream t = up_id u) targets) = Ret lb"
    "build_balancers hasher targets us (AList.update (up_name u) lb bs) = Ret bs'" by (auto split: outcome.splits)
  have "\<forall>(name, lb) \<in> set (AList.update (up_name u) lb bs). balancer_blind lb"
    using Cons.prems(2) lb_new_blind [OF lb(1)] set_update_subset [of "up_name u" lb bs] by auto
  with Cons.IH [OF lb(2)] show ?case by blast
qed simp

lemma select_blind:
  assumes "balancer_ok lb" "balancer_blind lb"
  shows "balancer_blind (snd (select hasher lb))"
proof (cases "lb_targets lb = []")
  case True
  then show ?thesis using assms(2) by (simp add: select_def select_with_key_def)
next
  case False
  from select_candidate [OF assms(1) this, of hasher None] assms(2) show ?thesis by (auto simp: select_def balancer_blind_def)
qed

lemma resolve_upstream_blind:
  assumes "proxy_ok env p" "\<forall>(name, lb) \<in> set (kp_balancers p). balancer_blind lb"
  shows "\<forall>(name, lb) \<in> set (kp_balancers (snd (resolve_upstream env p sv))). balancer_blind lb"
proof (cases "map_of (kp_balancers p) (sv_host sv)")
  case (Some lb)
  then have "(sv_host sv, lb) \<in> set (kp_balancers p)" by (rule map_of_SomeD)
  then have "balancer_blind (snd (select (pe_hasher env) lb))" using assms by (intro select_blind) (auto simp: proxy_ok_def)
  then show ?thesis
    using Some assms(2) set_update_subset [of "sv_host sv" "snd (select (pe_hasher env) lb)" "kp_balancers p"]
    by (auto simp: resolve_upstream_def Let_def split: prod.splits)
qed (use assms in \<open>simp add: resolve_upstream_def Let_def\<close>)

lemma dispatch_request_balancers:
  "kp_balancers (snd (snd (dispatch_request env p service ctx))) = kp_balancers p \<or>
   (\<exists>sv. snd (snd (dispatch_request env p service ctx)) = snd (resolve_upstream env p sv))"
  by (auto simp: dispatch_request_def Let_def split: option.splits prod.splits outcome.splits bool.splits) (metis snd_conv)+

lemma request_filter_balancers:
  "\<exists>router. kp_balancers (snd (snd (request_filter env p request is_grpc ctx))) = kp_balancers p \<or>
   (\<exists>sv. snd (snd (request_filter env p request is_grpc ctx)) = snd (resolve_upstream env (p\<lparr>kp_router := router\<rparr>) sv))"
proof -
  obtain m p1 where f: "find_route_with_snapshot env p request = (m, p1)" by force
  then obtain router where p1: "p1 = p\<lparr>kp_router := router\<rparr>" using find_route_proxy by blast
  have "kp_balancers (snd (snd (after_phase env p1 run_rewrite c (\<lambda>c2. after_phase env p1 run_access c2 (dispatch_request env p1 service))))) = kp_balancers p1 \<or>
     (\<exists>sv. snd (snd (after_phase env p1 run_rewrite c (\<lambda>c2. after_phase env p1 run_access c2 (dispatch_request env p1 service)))) = snd (resolve_upstream env p1 sv))" for c service
    using after_phase_proxy [of env p1 run_rewrite c "\<lambda>c2. after_phase env p1 run_access c2 (dispatch_request env p1 service)"]
      after_phase_proxy [of env p1 run_access _ "dispatch_request env p1 service"] dispatch_request_balancers [of env p1 service]
    by metis
  then have "kp_balancers (snd (snd (request_filter env p request is_grpc ctx))) = kp_balancers p1 \<or>
     (\<exists>sv. snd (snd (request_filter env p request is_grpc ctx)) = snd (resolve_upstream env p1 sv))"
    by (auto simp: request_filter_def Let_def f split: option.splits prod.splits sum.splits)
  then show ?thesis by (auto simp: p1)
qed

text \<open>
  The proxy balances blindly: in every reachable state no balancer of the proxy has a health
  checker or a counted connection, so a target that fails is never left out and the least-connections
  algorithm sees no load. (The proxy is the only owner of balancers; it never calls the operations that
  attach a checker or count connections.)
\<close>

theorem proxy_balances_blindly:
  assumes "proxy_reachable env p" and "(name, lb) \<in> set (kp_balancers p)"
  shows "lb_health_checker lb = None \<and> set (lb_connection_counts lb) \<subseteq> {0} \<and> get_healthy_indices lb = [0..<length (lb_targets lb)]"
proof -
  from assms(1) have "\<forall>(name, lb) \<in> set (kp_balancers p). balancer_blind lb"
  proof (induction rule: proxy_reachable.induct)
    case (proxy_upstreams p upstreams targets p')
    then show ?case using build_balancers_blind by (fastforce simp: update_upstreams_def split: outcome.splits)
  next
    case (proxy_request p request is_grpc ctx a ctx' p')
    obtain router where "kp_balancers p' = kp_balancers p \<or> (\<exists>sv. p' = snd (resolve_upstream env (p\<lparr>kp_router := router\<rparr>) sv))"
      using request_filter_balancers [of env p request is_grpc ctx] unfolding proxy_request.hyps(2) by auto
    moreover have "proxy_ok env (p\<lparr>kp_router := router\<rparr>)"
      using reachable_proxy_ok [OF proxy_request.hyps(1)] by (simp add: proxy_ok_def chains_current_router)
    ultimately show ?case using resolve_upstream_blind [of env "p\<lparr>kp_router := router\<rparr>"] proxy_request.IH by auto
  qed (auto simp: update_plugins_def rebuild_plugin_chains_def update_routes_def update_services_def split: outcome.splits)
  then have "balancer_blind lb" using assms(2) by blast
  then show ?thesis by (auto simp: balancer_blind_def get_healthy_indices_def)
qed

theorem proxy_balances_blindly_witness:
  "map (\<lambda>(name, lb). (name, lb_health_checker lb = None, get_healthy_indices lb)) (kp_balancers ex_proxy) = [(''up'', True, [0, 1])]"
proof -
  have "(''up'', ex_balancer RoundRobin []) \<in> set (kp_balancers ex_proxy)" by (simp add: ex_proxy_def)
  from proxy_balances_blindly [OF ex_proxy_reachable this] show ?thesis
    by (simp add: ex_proxy_def ex_balancer_def upt_rec)
qed

end
