(* ===== verification/SSE_Parser.thy ===== *)
theory SSE_Parser
  imports Kong_Text
begin

text \<open>
  The decoder of streamed answers (\<open>kong-ai/src/codec/sse.rs\<close>): server-sent events and newline-delimited JSON,
  reassembled from the chunks the network delivers. A chunk is text (the callers decode the bytes
  first). The laws of a framing that both formats share are the locale \<open>framing\<close>.
\<close>

section \<open>The parser\<close>

record SseEvent =
  event_type :: string
  event_data :: string
  event_id :: "string option"

definition is_done :: "SseEvent \<Rightarrow> bool" where
  "is_done e = (trim (event_data e) = ''[DONE]'')"

datatype SseFormat = Standard | Ndjson

record SseParser =
  sp_format :: SseFormat
  sp_buffer :: string

definition sse_new :: "SseFormat \<Rightarrow> SseParser" where
  "sse_new fmt = \<lparr>sp_format = fmt, sp_buffer = []\<rparr>"

text \<open>The fields of one block: type, data lines and id so far.\<close>

definition parse_line :: "string \<times> string list \<times> string option \<Rightarrow> string \<Rightarrow> string \<times> string list \<times> string option" where
  "parse_line st line =
     (case st of (ty, data_lines, i) \<Rightarrow>
        if line = [] then st
        else case strip_prefix_str ''data:'' line of
          Some v \<Rightarrow> (ty, data_lines @ [trim_start v], i)
        | None \<Rightarrow>
            (case strip_prefix_str ''event:'' line of
               Some v \<Rightarrow> (trim_start v, data_lines, i)
             | None \<Rightarrow>
                 (case strip_prefix_str ''id:'' line of
                    Some v \<Rightarrow> (ty, data_lines, Some (trim_start v))
                  | None \<Rightarrow> st)))"

definition parse_single_event :: "string \<Rightarrow> SseEvent" where
  "parse_single_event text =
     (case foldl parse_line (''message'', [], None) (lines text) of
        (ty, data_lines, i) \<Rightarrow> \<lparr>event_type = ty, event_data = join [newline] data_lines, event_id = i\<rparr>)"

definition message :: "string \<Rightarrow> SseEvent" where
  "message d = \<lparr>event_type = ''message'', event_data = d, event_id = None\<rparr>"

text \<open>The events one block gives: none without data, none for a blank line.\<close>

definition standard_events :: "string \<Rightarrow> SseEvent list" where
  "standard_events text = (let e = parse_single_event text in if event_data e = [] then [] else [e])"

definition ndjson_events :: "string \<Rightarrow> SseEvent list" where
  "ndjson_events line = (let trimmed = trim line in if trimmed = [] then [] else [message trimmed])"

text \<open>The two loops; each turn takes a block off the front of the buffer.\<close>

function parse_standard :: "string \<Rightarrow> SseEvent list \<times> string" where
  "parse_standard buffer =
     (case find_sub [newline, newline] buffer of
        None \<Rightarrow> ([], buffer)
      | Some pos \<Rightarrow>
          (case parse_standard (drop (pos + 2) buffer) of
             (events, rest) \<Rightarrow> (standard_events (take (pos + 2) buffer) @ events, rest)))"
  by pat_completeness auto

termination parse_standard
  by (relation "measure length") (auto dest: find_sub_bound)

function parse_ndjson :: "string \<Rightarrow> SseEvent list \<times> string" where
  "parse_ndjson buffer =
     (case find_sub [newline] buffer of
        None \<Rightarrow> ([], buffer)
      | Some pos \<Rightarrow>
          (case parse_ndjson (drop (pos + 1) buffer) of
             (events, rest) \<Rightarrow> (ndjson_events (take (pos + 1) buffer) @ events, rest)))"
  by pat_completeness auto

termination parse_ndjson
  by (relation "measure length") (auto dest: find_sub_bound)

declare parse_standard.simps [simp del] parse_ndjson.simps [simp del]

definition feed :: "SseParser \<Rightarrow> string \<Rightarrow> SseEvent list \<times> SseParser" where
  "feed p chunk =
     (let buffer = sp_buffer p @ chunk;
          (events, rest) = (case sp_format p of Standard \<Rightarrow> parse_standard buffer | Ndjson \<Rightarrow> parse_ndjson buffer)
      in (events, p\<lparr>sp_buffer := rest\<rparr>))"

definition flush :: "SseParser \<Rightarrow> SseEvent list \<times> SseParser" where
  "flush p =
     (case sp_format p of
        Standard \<Rightarrow>
          if trim (sp_buffer p) = [] then ([], p)
          else (standard_events (sp_buffer p), p\<lparr>sp_buffer := []\<rparr>)
      | Ndjson \<Rightarrow> (ndjson_events (sp_buffer p), p\<lparr>sp_buffer := []\<rparr>))"

text \<open>A stream: its chunks in order, then the end.\<close>

fun feed_all :: "SseParser \<Rightarrow> string list \<Rightarrow> SseEvent list \<times> SseParser" where
  "feed_all p [] = ([], p)"
| "feed_all p (c # cs) =
     (case feed p c of (es, p1) \<Rightarrow> (case feed_all p1 cs of (es', p2) \<Rightarrow> (es @ es', p2)))"

definition decode_stream :: "SseFormat \<Rightarrow> string list \<Rightarrow> SseEvent list" where
  "decode_stream fmt chunks =
     (case feed_all (sse_new fmt) chunks of (es, p) \<Rightarrow> es @ fst (flush p))"

section \<open>Framing\<close>

text \<open>
  A framing cuts a first frame off the front of a buffer, or waits for more text. It is sound for
  streaming if a cut is a proper one and is not moved by text that arrives later; the parser is the
  loop that takes frames as long as there are any.
\<close>

locale framing =
  fixes cut :: "string \<Rightarrow> nat option" and emit :: "string \<Rightarrow> 'e list" and parse :: "string \<Rightarrow> 'e list \<times> string"
  assumes cut_proper: "cut s = Some n \<Longrightarrow> 0 < n \<and> n \<le> length s"
    and cut_stable: "cut s = Some n \<Longrightarrow> cut (s @ t) = Some n"
    and cut_exact: "cut s = Some n \<Longrightarrow> cut (take n s) = Some n"
    and parse_stop: "cut s = None \<Longrightarrow> parse s = ([], s)"
    and parse_step: "cut s = Some n \<Longrightarrow>
      parse s = (emit (take n s) @ fst (parse (drop n s)), snd (parse (drop n s)))"
begin

lemma frame_induct [case_names stop step]:
  assumes "\<And>s. cut s = None \<Longrightarrow> P s" and "\<And>s n. cut s = Some n \<Longrightarrow> P (drop n s) \<Longrightarrow> P s"
  shows "P s"
proof (induction "length s" arbitrary: s rule: less_induct)
  case less
  then show ?case
  proof (cases "cut s")
    case (Some n)
    then have "length (drop n s) < length s" using cut_proper [OF Some] by auto
    with less Some assms(2) show ?thesis by blast
  qed (use assms(1) in blast)
qed

lemma parse_append:
  "parse (s @ t) = (fst (parse s) @ fst (parse (snd (parse s) @ t)), snd (parse (snd (parse s) @ t)))"
proof (induction s rule: frame_induct)
  case (stop s)
  then show ?case by (simp add: parse_stop)
next
  case (step s n)
  have "n \<le> length s" using cut_proper [OF step(1)] by simp
  then show ?case
    using step(2) parse_step [OF step(1)] parse_step [OF cut_stable [OF step(1), of t]] by simp
qed

text \<open>What is left in the buffer has no complete frame.\<close>

lemma parse_rest: "cut (snd (parse s)) = None"
  by (induction s rule: frame_induct) (auto simp: parse_stop parse_step)

text \<open>The text is cut into frames and the rest: nothing is lost and nothing is read twice.\<close>

lemma parse_frames:
  "\<exists>frames. s = concat frames @ snd (parse s) \<and> fst (parse s) = concat (map emit frames) \<and>
     (\<forall>f \<in> set frames. cut f = Some (length f))"
proof (induction s rule: frame_induct)
  case (stop s)
  then show ?case by (intro exI [of _ "[]"]) (simp add: parse_stop)
next
  case (step s n)
  then obtain frames where f: "drop n s = concat frames @ snd (parse (drop n s))"
    "fst (parse (drop n s)) = concat (map emit frames)" "\<forall>f \<in> set frames. cut f = Some (length f)" by blast
  have "n \<le> length s" using cut_proper [OF step(1)] by simp
  moreover have "s = concat (take n s # frames) @ snd (parse s)"
    using f(1) append_take_drop_id [of n s] by (simp add: parse_step [OF step(1)])
  ultimately show ?case
    using f(2,3) parse_step [OF step(1)] cut_exact [OF step(1)] by (intro exI [of _ "take n s # frames"]) auto
qed

lemma parse_frame: "cut f = Some (length f) \<Longrightarrow> parse (f @ t) = (emit f @ fst (parse t), snd (parse t))"
  using parse_step [OF cut_stable, of f "length f" t] by simp

lemma parse_all_frames:
  "\<forall>f \<in> set frames. cut f = Some (length f) \<Longrightarrow>
   parse (concat frames @ t) = (concat (map emit frames) @ fst (parse t), snd (parse t))"
  by (induction frames) (auto simp: parse_frame)

end

interpretation standard: framing "\<lambda>s. map_option (\<lambda>p. p + 2) (find_sub [newline, newline] s)" standard_events parse_standard
proof
  fix s t n
  assume a: "map_option (\<lambda>p. p + 2) (find_sub [newline, newline] s) = Some n"
  then show "0 < n \<and> n \<le> length s" by (auto dest: find_sub_bound)
  from a show "map_option (\<lambda>p. p + 2) (find_sub [newline, newline] (s @ t)) = Some n"
    by (auto simp: find_sub_append)
  from a show "map_option (\<lambda>p. p + 2) (find_sub [newline, newline] (take n s)) = Some n"
    using find_sub_take [of "[newline, newline]" s "n - 2"] by auto
  from a show "parse_standard s = (standard_events (take n s) @ fst (parse_standard (drop n s)), snd (parse_standard (drop n s)))"
    by (subst parse_standard.simps) (auto split: prod.splits)
qed (simp add: parse_standard.simps)

interpretation ndjson: framing "\<lambda>s. map_option Suc (find_sub [newline] s)" ndjson_events parse_ndjson
proof
  fix s t n
  assume a: "map_option Suc (find_sub [newline] s) = Some n"
  then show "0 < n \<and> n \<le> length s" by (auto dest: find_sub_bound)
  from a show "map_option Suc (find_sub [newline] (s @ t)) = Some n" by (auto simp: find_sub_append)
  from a show "map_option Suc (find_sub [newline] (take n s)) = Some n"
    using find_sub_take [of "[newline]" s "n - 1"] by auto
  from a show "parse_ndjson s = (ndjson_events (take n s) @ fst (parse_ndjson (drop n s)), snd (parse_ndjson (drop n s)))"
    by (subst parse_ndjson.simps) (auto split: prod.splits)
qed (simp add: parse_ndjson.simps)

section \<open>Chunking does not matter\<close>

lemma parse_Nil [simp]: "parse_standard [] = ([], [])" "parse_ndjson [] = ([], [])"
  by (simp_all add: parse_standard.simps parse_ndjson.simps)

lemma feed_append:
  "feed p (s @ t) = (fst (feed p s) @ fst (feed (snd (feed p s)) t), snd (feed (snd (feed p s)) t))"
  using standard.parse_append [of "sp_buffer p @ s" t] ndjson.parse_append [of "sp_buffer p @ s" t]
  by (cases "sp_format p") (simp_all add: feed_def Let_def split_beta)

lemma feed_all_feed: "feed_all (snd (feed p s)) cs = (drop (length (fst (feed p s))) (fst (feed p (s @ concat cs))), snd (feed p (s @ concat cs)))"
proof (induction cs arbitrary: s)
  case (Cons c cs)
  have "feed_all (snd (feed p s)) (c # cs) =
      (fst (feed (snd (feed p s)) c) @ fst (feed_all (snd (feed p (s @ c))) cs), snd (feed_all (snd (feed p (s @ c))) cs))"
    by (simp add: split_beta feed_append [of p s c])
  then show ?case using Cons [of "s @ c"] feed_append [of p s c] feed_append [of p "s @ c" "concat cs"] by simp
qed simp

lemma feed_new_Nil: "feed (sse_new fmt) [] = ([], sse_new fmt)"
  by (cases fmt) (simp_all add: feed_def sse_new_def)

lemma feed_all_new: "feed_all (sse_new fmt) cs = feed (sse_new fmt) (concat cs)"
  using feed_all_feed [of "sse_new fmt" "[]" cs] by (simp add: feed_new_Nil)

lemma feed_all_parts:
  assumes "feed_all (sse_new fmt) chunks = (events, p)"
  shows "(events, sp_buffer p) = (case fmt of Standard \<Rightarrow> parse_standard (concat chunks) | Ndjson \<Rightarrow> parse_ndjson (concat chunks))"
  using assms unfolding feed_all_new
  by (cases fmt) (auto simp: feed_def sse_new_def split_beta Let_def)

lemma decode_standard:
  "decode_stream Standard chunks =
     (case parse_standard (concat chunks) of (es, rest) \<Rightarrow> es @ (if trim rest = [] then [] else standard_events rest))"
  unfolding decode_stream_def feed_all_new by (simp add: feed_def sse_new_def flush_def split_beta Let_def)

text \<open>
  C24. However the network cuts a stream into chunks, the decoder gives the same events in the
  same order and ends with the same buffer, in both formats: a stream fed chunk by chunk is the stream
  fed at once, at the end of the stream too.
\<close>

theorem chunking_does_not_matter:
  "feed_all (sse_new fmt) chunks = feed (sse_new fmt) (concat chunks) \<and>
   decode_stream fmt chunks = decode_stream fmt [concat chunks]"
  by (simp add: decode_stream_def feed_all_new split_beta del: feed_all.simps)

text \<open>
  Between two chunks the decoder holds back nothing that is complete and loses nothing: the text fed
  so far is the blocks it has turned into events, each ending with the first separator in it, followed by
  the buffer, in which no separator occurs.
\<close>

theorem decoder_loses_nothing:
  assumes "feed_all (sse_new fmt) chunks = (events, p)" and "sep = (case fmt of Standard \<Rightarrow> [newline, newline] | Ndjson \<Rightarrow> [newline])"
  shows "\<exists>blocks. concat chunks = concat blocks @ sp_buffer p \<and>
     events = concat (map (case fmt of Standard \<Rightarrow> standard_events | Ndjson \<Rightarrow> ndjson_events) blocks) \<and>
     (\<forall>b \<in> set blocks. find_sub sep b = Some (length b - length sep) \<and> length sep \<le> length b) \<and>
     find_sub sep (sp_buffer p) = None"
proof (cases fmt)
  case Standard
  then have "(events, sp_buffer p) = parse_standard (concat chunks)" using feed_all_parts [OF assms(1)] by simp
  then have "events = fst (parse_standard (concat chunks))" "sp_buffer p = snd (parse_standard (concat chunks))"
    by (metis fst_conv, metis snd_conv)
  then show ?thesis
    using standard.parse_frames [of "concat chunks"] standard.parse_rest [of "concat chunks"] Standard assms(2)
    by (fastforce dest: find_sub_bound)
next
  case Ndjson
  then have "(events, sp_buffer p) = parse_ndjson (concat chunks)" using feed_all_parts [OF assms(1)] by simp
  then have "events = fst (parse_ndjson (concat chunks))" "sp_buffer p = snd (parse_ndjson (concat chunks))"
    by (metis fst_conv, metis snd_conv)
  then show ?thesis
    using ndjson.parse_frames [of "concat chunks"] ndjson.parse_rest [of "concat chunks"] Ndjson assms(2)
    by (fastforce dest: find_sub_bound)
qed

section \<open>Events survive the wire\<close>

text \<open>An event as a server writes it.\<close>

definition wire_lines :: "SseEvent \<Rightarrow> string list" where
  "wire_lines e =
     (''event: '' @ event_type e) # (case event_id e of None \<Rightarrow> [] | Some i \<Rightarrow> [''id: '' @ i]) @
     map (\<lambda>l. ''data: '' @ l) (split_char newline (event_data e))"

definition end_line :: "string \<Rightarrow> string" where
  "end_line l = l @ [newline]"

definition wire :: "SseEvent \<Rightarrow> string" where
  "wire e = concat (map end_line (wire_lines e)) @ [newline]"

text \<open>A field that fits a line: no line feed, no white space in front, no carriage return at the end.\<close>

definition plain_field :: "string \<Rightarrow> bool" where
  "plain_field l = (newline \<notin> set l \<and> (l = [] \<or> \<not> is_space (hd l) \<and> last l \<noteq> CHR 0x0D))"

definition plain_event :: "SseEvent \<Rightarrow> bool" where
  "plain_event e =
     (plain_field (event_type e) \<and> (case event_id e of None \<Rightarrow> True | Some i \<Rightarrow> plain_field i) \<and>
      event_data e \<noteq> [] \<and> list_all plain_field (split_char newline (event_data e)))"

lemma plain_trim: "plain_field l \<Longrightarrow> trim_start (CHR '' '' # l) = l"
  by (cases l) (auto simp: plain_field_def trim_start_def is_space_def)

lemma parse_data_lines:
  "list_all plain_field ls \<Longrightarrow>
   foldl parse_line (ty, acc, i) (map (\<lambda>l. ''data: '' @ l) ls) = (ty, acc @ ls, i)"
  by (induction ls arbitrary: acc) (simp_all add: parse_line_def strip_prefix_str_def plain_trim)

lemma parse_wire_lines:
  assumes "plain_event e"
  shows "foldl parse_line (''message'', [], None) (wire_lines e) =
    (event_type e, split_char newline (event_data e), event_id e)"
proof -
  have d: "foldl parse_line (event_type e, [], event_id e) (map (\<lambda>l. ''data: '' @ l) (split_char newline (event_data e))) =
      (event_type e, split_char newline (event_data e), event_id e)"
    using assms parse_data_lines [of "split_char newline (event_data e)" "event_type e" "[]" "event_id e"]
    by (simp add: plain_event_def)
  show ?thesis
    using assms d
    by (cases "event_id e")
      (simp_all add: wire_lines_def plain_event_def parse_line_def strip_prefix_str_def plain_trim)
qed

lemma lines_ended:
  "\<forall>l \<in> set ls. newline \<notin> set l \<and> strip_cr l = l \<Longrightarrow>
   lines_from [] (concat (map end_line ls) @ s) = ls @ lines_from [] s"
  by (induction ls) (simp_all add: end_line_def lines_from_line)

lemma wire_lines_plain:
  assumes "plain_event e"
  shows "\<forall>l \<in> set (wire_lines e). l \<noteq> [] \<and> newline \<notin> set l \<and> strip_cr l = l" "wire_lines e \<noteq> []"
  using assms
  by (auto simp: plain_event_def wire_lines_def plain_field_def strip_cr_def list_all_iff split: option.splits)

lemma parse_wire:
  assumes "plain_event e"
  shows "standard_events (wire e) = [e]" "standard_events (butlast (wire e)) = [e]"
proof -
  have ls: "lines (wire e) = wire_lines e @ [[]]" "lines (butlast (wire e)) = wire_lines e"
    using lines_ended [of "wire_lines e" "[newline]"] lines_ended [of "wire_lines e" "[]"] wire_lines_plain(1) [OF assms]
    by (simp_all add: wire_def lines_def strip_cr_def [of "[]"])
  show "standard_events (wire e) = [e]" "standard_events (butlast (wire e)) = [e]"
    using assms
    by (simp_all add: standard_events_def parse_single_event_def ls parse_wire_lines join_split_char plain_event_def
        parse_line_def)
qed

lemma find_blank_skip:
  assumes "newline \<notin> set l" "l \<noteq> []" "s = [] \<or> hd s \<noteq> newline"
  shows "find_sub [newline, newline] (l @ newline # s) = map_option (\<lambda>n. n + length l + 1) (find_sub [newline, newline] s)"
  using assms
proof (induction l)
  case (Cons x l)
  have "find_sub [newline, newline] (newline # s) = map_option Suc (find_sub [newline, newline] s)"
    using Cons.prems(3) by (cases s) auto
  then show ?case using Cons by (cases "l = []") (auto simp: option.map_comp o_def)
qed simp

lemma hd_ended:
  assumes "\<forall>l \<in> set ls. l \<noteq> [] \<and> newline \<notin> set l" "ls \<noteq> []"
  shows "hd (concat (map end_line ls) @ s) \<noteq> newline"
  using assms by (cases ls) (auto simp: end_line_def dest: hd_in_set)

lemma find_blank_none:
  "\<forall>l \<in> set ls. l \<noteq> [] \<and> newline \<notin> set l \<Longrightarrow> find_sub [newline, newline] (concat (map end_line ls)) = None"
proof (induction ls)
  case (Cons l ls)
  have "concat (map end_line ls) = [] \<or> hd (concat (map end_line ls)) \<noteq> newline"
    using Cons.prems hd_ended [of ls "[]"] by (cases "ls = []") auto
  then show ?case using Cons find_blank_skip [of l "concat (map end_line ls)"] by (simp add: end_line_def [of l])
qed simp

lemma find_blank_end:
  assumes "newline \<notin> set l"
  shows "find_sub [newline, newline] (l @ [newline, newline]) = Some (length l)"
  using assms by (induction l) auto

lemma find_blank_block:
  "ls \<noteq> [] \<Longrightarrow> \<forall>l \<in> set ls. l \<noteq> [] \<and> newline \<notin> set l \<Longrightarrow>
   find_sub [newline, newline] (concat (map end_line ls) @ [newline]) = Some (length (concat (map end_line ls)) - 1)"
proof (induction ls)
  case (Cons l ls)
  show ?case
  proof (cases "ls = []")
    case True
    then show ?thesis using Cons.prems find_blank_end [of l] by (simp add: end_line_def)
  next
    case False
    define s where "s = concat (map end_line ls)"
    have "hd (s @ [newline]) \<noteq> newline" "0 < length s"
      using False Cons.prems hd_ended [of ls "[newline]"] by (auto simp: s_def end_line_def neq_Nil_conv)
    moreover have "find_sub [newline, newline] (s @ [newline]) = Some (length s - 1)"
      unfolding s_def using Cons False by simp
    ultimately show ?thesis
      using Cons.prems find_blank_skip [of l "s @ [newline]"] by (simp add: end_line_def [of l] s_def [symmetric])
  qed
qed simp

lemma wire_frame:
  assumes "plain_event e"
  shows "map_option (\<lambda>p. p + 2) (find_sub [newline, newline] (wire e)) = Some (length (wire e))"
    "find_sub [newline, newline] (butlast (wire e)) = None"
proof -
  have "0 < length (concat (map end_line (wire_lines e)))" by (simp add: wire_lines_def end_line_def)
  then show "map_option (\<lambda>p. p + 2) (find_sub [newline, newline] (wire e)) = Some (length (wire e))"
    using find_blank_block [of "wire_lines e"] wire_lines_plain [OF assms] by (simp add: wire_def)
  show "find_sub [newline, newline] (butlast (wire e)) = None"
    using find_blank_none [of "wire_lines e"] wire_lines_plain [OF assms] by (simp add: wire_def)
qed

lemma parse_wire_events:
  assumes "list_all plain_event evs"
  shows "parse_standard (concat (map wire evs) @ t) = (evs @ fst (parse_standard t), snd (parse_standard t))"
  using assms
proof (induction evs)
  case (Cons e evs)
  then show ?case
    using standard.parse_frame [OF wire_frame(1), of e "concat (map wire evs) @ t"] parse_wire(1) [of e] by simp
qed simp

lemma wire_not_blank: "trim (butlast (wire e)) \<noteq> []"
proof -
  have "butlast (wire e) = CHR ''e'' # tl (butlast (wire e))"
    by (simp add: wire_def wire_lines_def end_line_def)
  moreover have "\<not> is_space (CHR ''e'')" by (simp add: is_space_def)
  ultimately have d: "dropWhile is_space (butlast (wire e)) = CHR ''e'' # tl (butlast (wire e))" by (metis dropWhile.simps(2))
  show ?thesis unfolding trim_def d using \<open>\<not> is_space (CHR ''e'')\<close> by (simp add: dropWhile_append)
qed

text \<open>
  C32. A stream of events in the wire format is decoded to exactly these events, however it is cut into
  chunks, as long as the events are ones the format can carry: data that is not empty, and no type, id or line of data that
  contains a line feed, starts with white space or ends with a carriage return (the decoder trims these). Then type,
  id and every line of data arrive as they were written. The end of the stream delivers a
  last event whose blank line is missing.
\<close>

theorem events_survive_the_wire:
  assumes "list_all plain_event evs"
  shows "(concat chunks = concat (map wire evs) \<longrightarrow> decode_stream Standard chunks = evs) \<and>
    (plain_event e \<and> concat chunks = concat (map wire evs) @ butlast (wire e) \<longrightarrow>
     decode_stream Standard chunks = evs @ [e])"
proof (intro conjI impI)
  assume "concat chunks = concat (map wire evs)"
  then show "decode_stream Standard chunks = evs"
    using parse_wire_events [OF assms, of "[]"] by (simp add: decode_standard trim_def)
next
  assume "plain_event e \<and> concat chunks = concat (map wire evs) @ butlast (wire e)"
  then show "decode_stream Standard chunks = evs @ [e]"
    using parse_wire_events [OF assms, of "butlast (wire e)"] standard.parse_stop [of "butlast (wire e)"]
    by (simp add: decode_standard wire_frame(2) parse_wire(2) wire_not_blank)
qed

definition ex_event :: SseEvent where
  "ex_event = \<lparr>event_type = ''delta'', event_data = ''a: 1'' @ [newline] @ ''b'', event_id = Some ''7''\<rparr>"

theorem events_survive_the_wire_witness:
  "decode_stream Standard [take 20 (wire ex_event), drop 20 (wire ex_event) @ take 9 (wire ex_event), drop 9 (butlast (wire ex_event))] =
     [ex_event, ex_event]"
proof -
  have "list_all plain_event [ex_event]" "plain_event ex_event"
    by (simp_all add: ex_event_def plain_event_def plain_field_def is_space_def)
  moreover have "take 9 (wire ex_event) @ drop 9 (butlast (wire ex_event)) = butlast (wire ex_event)"
    by (simp add: wire_def wire_lines_def end_line_def ex_event_def)
  ultimately show ?thesis
    using events_survive_the_wire [of "[ex_event]" _ ex_event] by simp
qed

theorem decoder_loses_nothing_witness:
  "\<exists>blocks. concat [''data: a'', [newline, newline], ''id:''] = concat blocks @ ''id:'' \<and>
     (\<forall>b \<in> set blocks. find_sub [newline, newline] b = Some (length b - 2) \<and> 2 \<le> length b)"
proof -
  have "feed_all (sse_new Standard) [''data: a'', [newline, newline], ''id:''] =
      ([message ''a''], \<lparr>sp_format = Standard, sp_buffer = ''id:''\<rparr>)"
    unfolding feed_all_new
    by (simp add: feed_def sse_new_def parse_standard.simps standard_events_def parse_single_event_def
        lines_def strip_cr_def parse_line_def strip_prefix_str_def trim_start_def is_space_def message_def)
  from decoder_loses_nothing [OF this refl] obtain blocks where
    "concat [''data: a'', [newline, newline], ''id:''] = concat blocks @ ''id:''"
    "\<forall>b \<in> set blocks. find_sub [newline, newline] b = Some (length b - 2) \<and> 2 \<le> length b"
    by (auto simp: numeral_2_eq_2)
  then show ?thesis by blast
qed

text \<open>
  A server that ends its lines with carriage return and line feed separates events by a blank line too,
  but no two line feeds are adjacent: nothing is delivered before the end of the stream, and then all
  events as one.
\<close>

lemma crlf_events_are_merged:
  "decode_stream Standard [''data: a'' @ cr @ cr, ''data: b'' @ cr @ cr] = [message (''a'' @ [newline] @ ''b'')]"
  if "cr = [CHR 0x0D, newline]"
  using that
  by (simp add: decode_standard parse_standard.simps standard_events_def parse_single_event_def trim_def
      lines_def strip_cr_def parse_line_def strip_prefix_str_def trim_start_def is_space_def message_def)

end
