(* ===== verification/Usage_Types.thy ===== *)
theory Usage_Types
  imports Kong_Strings Complex_Main
begin

text \<open>
  The facts the AI gateway records of a call and the prices it applies (\<open>kong-ai/src/usage/model.rs\<close>), with
  the budget amounts of \<open>kong-ai/src/models.rs\<close>. Decimal numbers come from the \<open>rust_decimal\<close>
  crate: a number is an integer and a power of ten to divide it by, compared by value; what its
  arithmetic does is the parameter \<open>decimal_lib\<close>, and \<open>decimal_lib_ok\<close> states what its documentation
  promises. A date and a time of the \<open>chrono\<close> crate are integers (days, instants).
\<close>

section \<open>Decimal numbers\<close>

record Decimal =
  dec_mantissa :: int
  dec_scale :: nat

definition dec_zero :: Decimal where
  "dec_zero = \<lparr>dec_mantissa = 0, dec_scale = 0\<rparr>"

definition dec_of_int :: "int \<Rightarrow> Decimal" where
  "dec_of_int n = \<lparr>dec_mantissa = n, dec_scale = 0\<rparr>"

definition dec_le :: "Decimal \<Rightarrow> Decimal \<Rightarrow> bool" where
  "dec_le a b = (dec_mantissa a * 10 ^ dec_scale b \<le> dec_mantissa b * 10 ^ dec_scale a)"

definition dec_eq :: "Decimal \<Rightarrow> Decimal \<Rightarrow> bool" where
  "dec_eq a b = (dec_mantissa a * 10 ^ dec_scale b = dec_mantissa b * 10 ^ dec_scale a)"

definition dec_val :: "Decimal \<Rightarrow> rat" where
  "dec_val d = of_int (dec_mantissa d) / 10 ^ dec_scale d"

lemma dec_le_val: "dec_le a b \<longleftrightarrow> dec_val a \<le> dec_val b"
proof -
  have "dec_val a \<le> dec_val b \<longleftrightarrow>
      (of_int (dec_mantissa a * 10 ^ dec_scale b) :: rat) \<le> of_int (dec_mantissa b * 10 ^ dec_scale a)"
    by (simp add: dec_val_def field_simps)
  then show ?thesis by (simp only: dec_le_def of_int_le_iff)
qed

lemma dec_eq_val: "dec_eq a b \<longleftrightarrow> dec_val a = dec_val b"
proof -
  have "dec_val a = dec_val b \<longleftrightarrow>
      (of_int (dec_mantissa a * 10 ^ dec_scale b) :: rat) = of_int (dec_mantissa b * 10 ^ dec_scale a)"
    by (simp add: dec_val_def field_simps)
  then show ?thesis by (simp only: dec_eq_def of_int_eq_iff)
qed

lemma dec_val_simps [simp]: "dec_val dec_zero = 0" "dec_val (dec_of_int n) = of_int n"
  by (simp_all add: dec_val_def dec_zero_def dec_of_int_def)

record decimal_lib =
  dl_checked_mul :: "Decimal \<Rightarrow> Decimal \<Rightarrow> Decimal option"
  dl_checked_add :: "Decimal \<Rightarrow> Decimal \<Rightarrow> Decimal option"
  dl_checked_div :: "Decimal \<Rightarrow> Decimal \<Rightarrow> Decimal option"
  dl_round12 :: "Decimal \<Rightarrow> Decimal" \<comment> \<open>\<open>round_dp_with_strategy(12, MidpointAwayFromZero)\<close>\<close>
  dl_normalize :: "Decimal \<Rightarrow> Decimal"
  dl_rescale12 :: "Decimal \<Rightarrow> Decimal"
  dl_from_str :: "string \<Rightarrow> Decimal option"
  dl_to_string :: "Decimal \<Rightarrow> string"

text \<open>A value is representable with 96 bits and at most 28 places.\<close>

definition representable :: "rat \<Rightarrow> bool" where
  "representable x = (\<exists>d. \<bar>dec_mantissa d\<bar> < 2 ^ 96 \<and> dec_scale d \<le> 28 \<and> dec_val d = x)"

definition round12 :: "rat \<Rightarrow> rat" where
  "round12 x = (if 0 \<le> x then of_int \<lfloor>x * 10 ^ 12 + 1 / 2\<rfloor> / 10 ^ 12 else - (of_int \<lfloor>- x * 10 ^ 12 + 1 / 2\<rfloor> / 10 ^ 12))"

definition exact_on :: "(rat \<Rightarrow> rat \<Rightarrow> rat) \<Rightarrow> (Decimal \<Rightarrow> Decimal \<Rightarrow> Decimal option) \<Rightarrow> bool" where
  "exact_on f op = (\<forall>a b. representable (f (dec_val a) (dec_val b)) \<longrightarrow> (\<exists>d. op a b = Some d \<and> dec_val d = f (dec_val a) (dec_val b)))"

text \<open>
  Arithmetic is exact where the result is representable; rounding is to twelve places, away from zero at the midpoint.
  Normalising strips trailing zeros and rescaling to twelve places adds them, where the mantissa has room: both keep the value.
\<close>

definition decimal_lib_ok :: "decimal_lib \<Rightarrow> bool" where
  "decimal_lib_ok dl =
     (exact_on (*) (dl_checked_mul dl) \<and> exact_on (+) (dl_checked_add dl) \<and>
      (\<forall>a b. dec_val b \<noteq> 0 \<and> representable (dec_val a / dec_val b) \<longrightarrow>
         (\<exists>d. dl_checked_div dl a b = Some d \<and> dec_val d = dec_val a / dec_val b)) \<and>
      (\<forall>a. dec_scale (dl_round12 dl a) \<le> 12 \<and> dec_val (dl_round12 dl a) = round12 (dec_val a)) \<and>
      (\<forall>a. dec_scale (dl_normalize dl a) \<le> dec_scale a \<and> dec_val (dl_normalize dl a) = dec_val a) \<and>
      (\<forall>a. dec_scale a \<le> 12 \<and> 0 \<le> dec_val a \<and> dec_val a < 10 ^ 16 \<longrightarrow>
         dec_scale (dl_rescale12 dl a) = 12 \<and> dec_val (dl_rescale12 dl a) = dec_val a))"

text \<open>The largest value of a \<open>NUMERIC(28,12)\<close> column and the test for it.\<close>

definition MAX_NUMERIC_28_12 :: Decimal where
  "MAX_NUMERIC_28_12 = \<lparr>dec_mantissa = 9999999999999999999999999999, dec_scale = 12\<rparr>"

definition fits_numeric_28_12 :: "Decimal \<Rightarrow> bool" where
  "fits_numeric_28_12 value = (dec_le dec_zero value \<and> dec_scale value \<le> 12 \<and> dec_le value MAX_NUMERIC_28_12)"

definition normalize_budget_amount :: "decimal_lib \<Rightarrow> Decimal \<Rightarrow> string + Decimal" where
  "normalize_budget_amount dl value =
     (if \<not> dec_le dec_zero value then Inl ''budget amount must not be negative''
      else
        (let normalized = dl_normalize dl value
         in if 12 < dec_scale normalized then Inl ''budget amount has more than 12 decimal places''
            else if dec_le (dec_of_int (10 ^ 16)) normalized then Inl ''budget amount exceeds NUMERIC(28,12)''
            else Inr (dl_rescale12 dl normalized)))"

section \<open>Facts and prices\<close>

datatype TokenFieldSource = ProviderField | EstimatedField | MixedField

datatype UsageSource = ProviderUsage | EstimatedUsage | MixedUsage | UnavailableUsage

datatype PricingStatus = Matched | Unmatched | UnsupportedPricing | NotApplicable

datatype CostStatus = Calculated | Estimated | NotIncurred | CostUnavailable

fun cost_status_str :: "CostStatus \<Rightarrow> string" where
  "cost_status_str Calculated = ''calculated''"
| "cost_status_str Estimated = ''estimated''"
| "cost_status_str NotIncurred = ''not_incurred''"
| "cost_status_str CostUnavailable = ''unavailable''"

record TokenField =
  tf_value :: int
  tf_source :: TokenFieldSource
  tf_derived :: bool

record PriceSnapshot =
  ps_usd_per_million :: Decimal
  ps_source :: string
  ps_version :: string
  ps_snapshot_date :: int
  ps_effective_from :: int
  ps_effective_to :: "int option"

record FrozenPricingSnapshot =
  fp_fingerprint :: string
  fp_provider_type :: string
  fp_model :: string
  fp_input :: "PriceSnapshot option"
  fp_output :: "PriceSnapshot option"
  fp_max_prompt_tokens :: "int option"

text \<open>The fields of a usage fact that pricing and settlement read.\<close>

record AiUsageFact =
  uf_id :: uuid
  uf_request_id :: string
  uf_virtual_key_id :: "uuid option"
  uf_prompt_tokens :: "TokenField option"
  uf_completion_tokens :: "TokenField option"
  uf_total_tokens :: "TokenField option"
  uf_usage_source :: UsageSource
  uf_usage_unavailable_reasons :: "string list"
  uf_input_price :: "PriceSnapshot option"
  uf_output_price :: "PriceSnapshot option"
  uf_pricing_fingerprint :: "string option"
  uf_pricing_status :: PricingStatus
  uf_cost_usd :: "Decimal option"
  uf_cost_status :: CostStatus
  uf_cost_unavailable_reasons :: "string list"

end
