(* ===== verification/Budget_Registry.thy ===== *)
theory Budget_Registry
  imports Usage_Types Kong_Text
begin

text \<open>
  The registry of requests whose budget intent is not yet settled
  (\<open>kong-ai/src/enforcement/budget_registry.rs\<close>, with the commands of \<open>kong-ai/src/budget/model.rs\<close>).
  A request reserves an entry and works on it through a guard; when the request task ends without having
  settled (an error, a timeout, a cancelled task) the guard is dropped and the entry stays for the recovery
  task. An operation under the locks of the map and of an entry is one step; the counter of entries is changed in a
  step of its own. (Where a reservation or an acknowledgement is used as one step, nothing else comes between its two
  halves; \<open>Registry_Interleaving\<close> lets the halves interleave.) Nothing panics while a
  lock is held, so the branches for a poisoned lock do not occur. How a pricing snapshot is serialised
  (\<open>serde_json\<close>, it may fail) is the parameter \<open>json\<close>.
\<close>

section \<open>Commands\<close>

record BudgetUnitPriceSnapshot =
  bu_usd_per_million :: Decimal
  bu_source :: string
  bu_version :: string
  bu_snapshot_date :: int
  bu_effective_from :: int
  bu_effective_to :: "int option"

record BudgetPricingSnapshot =
  bp_schema_version :: u16
  bp_provider_type :: string
  bp_model :: string
  bp_input :: "BudgetUnitPriceSnapshot option"
  bp_output :: "BudgetUnitPriceSnapshot option"
  bp_max_prompt_tokens :: "int option"

record CreateBudgetIntent =
  cb_intent_id :: uuid
  cb_virtual_key_id :: uuid
  cb_request_id :: string
  cb_operation_id :: string
  cb_command_fingerprint :: string
  cb_pricing_fingerprint :: string
  cb_pricing_snapshot :: BudgetPricingSnapshot
  cb_node_id :: uuid
  cb_owner_session_id :: uuid
  cb_stale_after :: duration

record BudgetCostOutcome =
  co_status :: CostStatus
  co_amount_usd :: "Decimal option"
  co_reasons :: "string list"

record SettleBudgetIntent =
  sb_intent_id :: uuid
  sb_virtual_key_id :: uuid
  sb_request_id :: string
  sb_operation_id :: string
  sb_command_fingerprint :: string
  sb_pricing_fingerprint :: string
  sb_usage_fact_id :: "uuid option"
  sb_cost :: BudgetCostOutcome

section \<open>Entries and registry\<close>

definition MAX_REQUEST_ID_BYTES :: nat where "MAX_REQUEST_ID_BYTES = 256"
definition MAX_OPERATION_ID_BYTES :: nat where "MAX_OPERATION_ID_BYTES = 256"
definition MAX_FINGERPRINT_BYTES :: nat where "MAX_FINGERPRINT_BYTES = 128"
definition MAX_PRICING_SNAPSHOT_BYTES :: nat where "MAX_PRICING_SNAPSHOT_BYTES = 4 * 1024"
definition MAX_COST_REASONS :: nat where "MAX_COST_REASONS = 8"
definition MAX_COST_REASON_BYTES :: nat where "MAX_COST_REASON_BYTES = 256"
definition ESTIMATED_FIXED_BYTES :: nat where "ESTIMATED_FIXED_BYTES = 1024"

definition ESTIMATED_WORST_CASE_BYTES :: nat where
  "ESTIMATED_WORST_CASE_BYTES =
     ESTIMATED_FIXED_BYTES + MAX_REQUEST_ID_BYTES * 3 + MAX_OPERATION_ID_BYTES * 2 + MAX_FINGERPRINT_BYTES * 4 +
     MAX_PRICING_SNAPSHOT_BYTES + MAX_COST_REASONS * MAX_COST_REASON_BYTES"

lemmas registry_limits = MAX_REQUEST_ID_BYTES_def MAX_OPERATION_ID_BYTES_def MAX_FINGERPRINT_BYTES_def
  MAX_PRICING_SNAPSHOT_BYTES_def MAX_COST_REASONS_def MAX_COST_REASON_BYTES_def ESTIMATED_FIXED_BYTES_def
  ESTIMATED_WORST_CASE_BYTES_def

record ActiveBudgetIntentCapacityEstimate =
  ce_max_entries :: usize
  ce_estimated_bytes_per_entry :: nat
  ce_estimated_total_bytes :: nat

definition estimate_active_budget_intent_capacity :: "usize \<Rightarrow> ActiveBudgetIntentCapacityEstimate option" where
  "estimate_active_budget_intent_capacity max_entries =
     (let total = ESTIMATED_WORST_CASE_BYTES * unat max_entries
      in if total < 2 ^ 64
         then Some \<lparr>ce_max_entries = max_entries, ce_estimated_bytes_per_entry = ESTIMATED_WORST_CASE_BYTES,
                    ce_estimated_total_bytes = total\<rparr>
         else None)"

datatype ActiveBudgetIntentState =
    Preparing | ActivePrepared | DispatchCommitPending | ActiveDispatching
  | RetryWithFact | NeedsIntentLookup | NeedsSafeZero | NeedsUnresolved

record ActiveBudgetIntentData =
  bd_intent_id :: "uuid option"
  bd_state :: ActiveBudgetIntentState
  bd_guard_alive :: bool
  bd_create_command :: "CreateBudgetIntent option"
  bd_settlement :: "SettleBudgetIntent option"

record ActiveBudgetIntentRegistry =
  rg_max_entries :: usize
  rg_entries :: "(string \<times> ActiveBudgetIntentData) list"
  rg_active_entries :: usize
  rg_rejected_entries :: u64
  rg_field_limit_rejections :: u64

record BudgetIntentGuard =
  gd_request_id :: string
  gd_completed :: bool

datatype BudgetIntentRegistryField =
  RequestIdField | OperationIdField | CommandFingerprint | PricingFingerprint | PricingSnapshot | CostReason

datatype BudgetIntentRegistryError =
    InvalidCapacity
  | EmptyRequestId
  | RequestMismatch
  | FieldTooLarge BudgetIntentRegistryField nat nat
  | TooManyCostReasons nat nat
  | InvalidPricingSnapshot
  | RegistryOverloaded
  | DuplicateRequest
  | MissingEntry
  | Poisoned
  | IntentMismatch
  | InvalidTransition ActiveBudgetIntentState ActiveBudgetIntentState

type_synonym 'a registry_result = "BudgetIntentRegistryError + 'a"

fun is_field_limit :: "BudgetIntentRegistryError \<Rightarrow> bool" where
  "is_field_limit (FieldTooLarge _ _ _) = True"
| "is_field_limit (TooManyCostReasons _ _) = True"
| "is_field_limit _ = False"

section \<open>Validation\<close>

definition validate_field_size :: "BudgetIntentRegistryField \<Rightarrow> nat \<Rightarrow> nat \<Rightarrow> unit registry_result" where
  "validate_field_size field actual_bytes max_bytes =
     (if max_bytes < actual_bytes then Inl (FieldTooLarge field actual_bytes max_bytes) else Inr ())"

definition validate_text_field :: "BudgetIntentRegistryField \<Rightarrow> string \<Rightarrow> nat \<Rightarrow> unit registry_result" where
  "validate_text_field field value max_bytes = validate_field_size field (length value) max_bytes"

definition and_try :: "unit registry_result \<Rightarrow> 'a registry_result \<Rightarrow> 'a registry_result" where
  "and_try r k = (case r of Inl e \<Rightarrow> Inl e | Inr _ \<Rightarrow> k)"

definition validate_request_identity :: "string \<Rightarrow> string \<Rightarrow> unit registry_result" where
  "validate_request_identity request_id command_request_id =
     and_try (validate_text_field RequestIdField command_request_id MAX_REQUEST_ID_BYTES)
       (if request_id \<noteq> command_request_id then Inl RequestMismatch else Inr ())"

definition validate_create_command ::
    "(BudgetPricingSnapshot \<Rightarrow> string option) \<Rightarrow> string \<Rightarrow> CreateBudgetIntent \<Rightarrow> unit registry_result" where
  "validate_create_command json request_id command =
     and_try (validate_request_identity request_id (cb_request_id command))
       (and_try (validate_text_field OperationIdField (cb_operation_id command) MAX_OPERATION_ID_BYTES)
         (and_try (validate_text_field CommandFingerprint (cb_command_fingerprint command) MAX_FINGERPRINT_BYTES)
           (and_try (validate_text_field PricingFingerprint (cb_pricing_fingerprint command) MAX_FINGERPRINT_BYTES)
             (case json (cb_pricing_snapshot command) of
                None \<Rightarrow> Inl InvalidPricingSnapshot
              | Some bytes \<Rightarrow> validate_field_size PricingSnapshot (length bytes) MAX_PRICING_SNAPSHOT_BYTES))))"

fun validate_reasons :: "string list \<Rightarrow> unit registry_result" where
  "validate_reasons [] = Inr ()"
| "validate_reasons (r # rs) = and_try (validate_text_field CostReason r MAX_COST_REASON_BYTES) (validate_reasons rs)"

definition validate_settlement_command :: "string \<Rightarrow> SettleBudgetIntent \<Rightarrow> unit registry_result" where
  "validate_settlement_command request_id command =
     and_try (validate_request_identity request_id (sb_request_id command))
       (and_try (validate_text_field OperationIdField (sb_operation_id command) MAX_OPERATION_ID_BYTES)
         (and_try (validate_text_field CommandFingerprint (sb_command_fingerprint command) MAX_FINGERPRINT_BYTES)
           (and_try (validate_text_field PricingFingerprint (sb_pricing_fingerprint command) MAX_FINGERPRINT_BYTES)
             (if MAX_COST_REASONS < length (co_reasons (sb_cost command))
              then Inl (TooManyCostReasons (length (co_reasons (sb_cost command))) MAX_COST_REASONS)
              else validate_reasons (co_reasons (sb_cost command))))))"

section \<open>Operations of the registry\<close>

definition registry_new :: "usize \<Rightarrow> ActiveBudgetIntentRegistry registry_result" where
  "registry_new max_entries =
     (if max_entries = 0 then Inl InvalidCapacity
      else Inr \<lparr>rg_max_entries = max_entries, rg_entries = [], rg_active_entries = 0, rg_rejected_entries = 0,
                rg_field_limit_rejections = 0\<rparr>)"

definition record_rejection :: "bool \<Rightarrow> ActiveBudgetIntentRegistry \<Rightarrow> ActiveBudgetIntentRegistry" where
  "record_rejection field_limit rg =
     (let rg1 = rg\<lparr>rg_rejected_entries := rg_rejected_entries rg + 1\<rparr>
      in if field_limit then rg1\<lparr>rg_field_limit_rejections := rg_field_limit_rejections rg1 + 1\<rparr> else rg1)"

definition fresh_entry :: ActiveBudgetIntentData where
  "fresh_entry = \<lparr>bd_intent_id = None, bd_state = Preparing, bd_guard_alive = True, bd_create_command = None, bd_settlement = None\<rparr>"

text \<open>
  The counter of active entries and the map are changed one after the other: a reservation counts first and enters
  the map then, an acknowledgement leaves the map first. Each of these four is one step.
\<close>

definition claim_slot :: "ActiveBudgetIntentRegistry \<Rightarrow> ActiveBudgetIntentRegistry option" where
  "claim_slot rg =
     (if rg_active_entries rg < rg_max_entries rg then Some (rg\<lparr>rg_active_entries := rg_active_entries rg + 1\<rparr>) else None)"

definition enter_entry :: "string \<Rightarrow> ActiveBudgetIntentRegistry \<Rightarrow> ActiveBudgetIntentRegistry option" where
  "enter_entry request_id rg =
     (case map_of (rg_entries rg) request_id of
        None \<Rightarrow> Some (rg\<lparr>rg_entries := AList.update request_id fresh_entry (rg_entries rg)\<rparr>)
      | Some _ \<Rightarrow> None)"

definition take_entry :: "string \<Rightarrow> ActiveBudgetIntentRegistry \<Rightarrow> ActiveBudgetIntentRegistry option" where
  "take_entry request_id rg =
     (case map_of (rg_entries rg) request_id of
        None \<Rightarrow> None
      | Some _ \<Rightarrow> Some (rg\<lparr>rg_entries := AList.delete request_id (rg_entries rg)\<rparr>))"

definition release_slot :: "ActiveBudgetIntentRegistry \<Rightarrow> ActiveBudgetIntentRegistry" where
  "release_slot rg = rg\<lparr>rg_active_entries := rg_active_entries rg - 1\<rparr>"

definition registry_try_reserve ::
    "ActiveBudgetIntentRegistry \<Rightarrow> string \<Rightarrow> BudgetIntentGuard registry_result \<times> ActiveBudgetIntentRegistry" where
  "registry_try_reserve rg request_id =
     (if request_id = [] then (Inl EmptyRequestId, record_rejection False rg)
      else case validate_text_field RequestIdField request_id MAX_REQUEST_ID_BYTES of
        Inl e \<Rightarrow> (Inl e, record_rejection True rg)
      | Inr _ \<Rightarrow>
          (case claim_slot rg of
             None \<Rightarrow> (Inl RegistryOverloaded, record_rejection False rg)
           | Some rg1 \<Rightarrow>
               (case enter_entry request_id rg1 of
                  Some rg2 \<Rightarrow> (Inr \<lparr>gd_request_id = request_id, gd_completed = False\<rparr>, rg2)
                | None \<Rightarrow> (Inl DuplicateRequest, record_rejection False (release_slot rg1)))))"

definition transition ::
    "string \<Rightarrow> ActiveBudgetIntentState list \<Rightarrow> ActiveBudgetIntentState \<Rightarrow> uuid option \<Rightarrow> SettleBudgetIntent option \<Rightarrow>
     ActiveBudgetIntentRegistry \<Rightarrow> unit registry_result \<times> ActiveBudgetIntentRegistry" where
  "transition request_id expected next_state intent_id settlement rg =
     (case map_of (rg_entries rg) request_id of
        None \<Rightarrow> (Inl MissingEntry, rg)
      | Some d \<Rightarrow>
          if bd_state d \<notin> set expected then (Inl (InvalidTransition (bd_state d) next_state), rg)
          else if intent_id \<noteq> None \<and> bd_intent_id d \<noteq> None \<and> bd_intent_id d \<noteq> intent_id then (Inl IntentMismatch, rg)
          else
            (let d1 = (if intent_id \<noteq> None then d\<lparr>bd_intent_id := intent_id\<rparr> else d);
                 d2 = (if settlement \<noteq> None then d1\<lparr>bd_settlement := settlement\<rparr> else d1)
             in (Inr (), rg\<lparr>rg_entries := AList.update request_id (d2\<lparr>bd_state := next_state\<rparr>) (rg_entries rg)\<rparr>)))"

definition registry_acknowledge :: "string \<Rightarrow> ActiveBudgetIntentRegistry \<Rightarrow> ActiveBudgetIntentRegistry" where
  "registry_acknowledge request_id rg = (case take_entry request_id rg of None \<Rightarrow> rg | Some rg1 \<Rightarrow> release_slot rg1)"

definition mark_recovered_intent ::
    "string \<Rightarrow> uuid \<Rightarrow> bool \<Rightarrow> ActiveBudgetIntentRegistry \<Rightarrow> unit registry_result \<times> ActiveBudgetIntentRegistry" where
  "mark_recovered_intent request_id intent_id dispatched =
     transition request_id [NeedsIntentLookup, NeedsSafeZero]
       (if dispatched then NeedsUnresolved else NeedsSafeZero) (Some intent_id) None"

definition checked_settlement ::
    "string \<Rightarrow> SettleBudgetIntent \<Rightarrow> ActiveBudgetIntentState list \<Rightarrow> ActiveBudgetIntentState \<Rightarrow>
     ActiveBudgetIntentRegistry \<Rightarrow> unit registry_result \<times> ActiveBudgetIntentRegistry" where
  "checked_settlement request_id command expected next_state rg =
     (case validate_settlement_command request_id command of
        Inl e \<Rightarrow> (Inl e, record_rejection (is_field_limit e) rg)
      | Inr _ \<Rightarrow> transition request_id expected next_state (Some (sb_intent_id command)) (Some command) rg)"

definition record_recovery_settlement ::
    "string \<Rightarrow> SettleBudgetIntent \<Rightarrow> bool \<Rightarrow> ActiveBudgetIntentRegistry \<Rightarrow> unit registry_result \<times> ActiveBudgetIntentRegistry" where
  "record_recovery_settlement request_id command unresolved =
     checked_settlement request_id command [NeedsSafeZero, NeedsUnresolved, RetryWithFact]
       (if unresolved then NeedsUnresolved else NeedsSafeZero)"

fun after_drop :: "ActiveBudgetIntentState \<Rightarrow> ActiveBudgetIntentState" where
  "after_drop Preparing = NeedsIntentLookup"
| "after_drop ActivePrepared = NeedsSafeZero"
| "after_drop DispatchCommitPending = NeedsUnresolved"
| "after_drop ActiveDispatching = NeedsUnresolved"
| "after_drop RetryWithFact = RetryWithFact"
| "after_drop NeedsIntentLookup = NeedsIntentLookup"
| "after_drop NeedsSafeZero = NeedsSafeZero"
| "after_drop NeedsUnresolved = NeedsUnresolved"

definition guard_dropped :: "string \<Rightarrow> ActiveBudgetIntentRegistry \<Rightarrow> ActiveBudgetIntentRegistry" where
  "guard_dropped request_id rg =
     (case map_of (rg_entries rg) request_id of
        None \<Rightarrow> rg
      | Some d \<Rightarrow>
          rg\<lparr>rg_entries :=
               AList.update request_id (d\<lparr>bd_guard_alive := False, bd_state := after_drop (bd_state d)\<rparr>) (rg_entries rg)\<rparr>)"

text \<open>What monitoring sees; \<open>iter\<close> is the order of the map.\<close>

record ActiveBudgetIntentSnapshot =
  as_request_id :: string
  as_intent_id :: "uuid option"
  as_state :: ActiveBudgetIntentState
  as_guard_alive :: bool
  as_create_command :: "CreateBudgetIntent option"
  as_settlement :: "SettleBudgetIntent option"

type_synonym registry_order = "(string \<times> ActiveBudgetIntentData) list \<Rightarrow> (string \<times> ActiveBudgetIntentData) list"

definition snapshot_of :: "string \<times> ActiveBudgetIntentData \<Rightarrow> ActiveBudgetIntentSnapshot" where
  "snapshot_of e =
     (case e of (r, d) \<Rightarrow>
        \<lparr>as_request_id = r, as_intent_id = bd_intent_id d, as_state = bd_state d, as_guard_alive = bd_guard_alive d,
         as_create_command = bd_create_command d, as_settlement = bd_settlement d\<rparr>)"

definition snapshots :: "registry_order \<Rightarrow> ActiveBudgetIntentRegistry \<Rightarrow> ActiveBudgetIntentSnapshot list" where
  "snapshots iter rg = map snapshot_of (iter (rg_entries rg))"

record BudgetRegistryMetricsSnapshot =
  ms_active_entries :: usize
  ms_rejected_entries :: u64
  ms_field_limit_rejections :: u64
  ms_states :: "ActiveBudgetIntentState \<Rightarrow> nat"

definition metrics_snapshot :: "ActiveBudgetIntentRegistry \<Rightarrow> BudgetRegistryMetricsSnapshot" where
  "metrics_snapshot rg =
     \<lparr>ms_active_entries = rg_active_entries rg, ms_rejected_entries = rg_rejected_entries rg,
      ms_field_limit_rejections = rg_field_limit_rejections rg,
      ms_states = (\<lambda>s. acount (\<lambda>d. bd_state d = s) (rg_entries rg))\<rparr>"

section \<open>Operations of a guard\<close>

type_synonym guard_op = "BudgetIntentGuard \<Rightarrow> ActiveBudgetIntentRegistry \<Rightarrow> unit registry_result \<times> ActiveBudgetIntentRegistry"

definition mark_prepared :: "uuid \<Rightarrow> guard_op" where
  "mark_prepared intent_id g = transition (gd_request_id g) [Preparing] ActivePrepared (Some intent_id) None"

definition guard_acknowledge ::
    "BudgetIntentGuard \<Rightarrow> ActiveBudgetIntentRegistry \<Rightarrow> BudgetIntentGuard \<times> ActiveBudgetIntentRegistry" where
  "guard_acknowledge g rg =
     (if gd_completed g then (g, rg) else (g\<lparr>gd_completed := True\<rparr>, registry_acknowledge (gd_request_id g) rg))"

definition record_create_command ::
    "(BudgetPricingSnapshot \<Rightarrow> string option) \<Rightarrow> CreateBudgetIntent \<Rightarrow> BudgetIntentGuard \<Rightarrow> ActiveBudgetIntentRegistry \<Rightarrow>
     unit registry_result \<times> BudgetIntentGuard \<times> ActiveBudgetIntentRegistry" where
  "record_create_command json command g rg =
     (case validate_create_command json (gd_request_id g) command of
        Inl e \<Rightarrow>
          (Inl e, g\<lparr>gd_completed := True\<rparr>, registry_acknowledge (gd_request_id g) (record_rejection (is_field_limit e) rg))
      | Inr _ \<Rightarrow>
          (case map_of (rg_entries rg) (gd_request_id g) of
             None \<Rightarrow> (Inl MissingEntry, g, rg)
           | Some d \<Rightarrow>
               if bd_state d \<noteq> Preparing then (Inl (InvalidTransition (bd_state d) Preparing), g, rg)
               else if bd_create_command d \<noteq> None then (Inl DuplicateRequest, g, rg)
               else (Inr (), g, rg\<lparr>rg_entries :=
                 AList.update (gd_request_id g) (d\<lparr>bd_create_command := Some command\<rparr>) (rg_entries rg)\<rparr>)))"

definition mark_dispatch_commit_pending :: guard_op where
  "mark_dispatch_commit_pending g = transition (gd_request_id g) [ActivePrepared] DispatchCommitPending None None"

definition mark_dispatch_rolled_back :: guard_op where
  "mark_dispatch_rolled_back g = transition (gd_request_id g) [DispatchCommitPending] ActivePrepared None None"

definition mark_dispatching :: guard_op where
  "mark_dispatching g = transition (gd_request_id g) [DispatchCommitPending] ActiveDispatching None None"

definition record_settlement :: "SettleBudgetIntent \<Rightarrow> guard_op" where
  "record_settlement command g =
     checked_settlement (gd_request_id g) command [ActiveDispatching, RetryWithFact] RetryWithFact"

definition mark_needs_safe_zero :: guard_op where
  "mark_needs_safe_zero g =
     transition (gd_request_id g) [ActivePrepared, DispatchCommitPending, ActiveDispatching, NeedsSafeZero] NeedsSafeZero None None"

definition record_safe_zero_settlement :: "SettleBudgetIntent \<Rightarrow> guard_op" where
  "record_safe_zero_settlement command g =
     checked_settlement (gd_request_id g) command [ActivePrepared, DispatchCommitPending, ActiveDispatching, NeedsSafeZero] NeedsSafeZero"

definition mark_needs_unresolved :: guard_op where
  "mark_needs_unresolved g =
     transition (gd_request_id g) [DispatchCommitPending, ActiveDispatching, RetryWithFact] NeedsUnresolved None None"

definition drop_guard :: "BudgetIntentGuard \<Rightarrow> ActiveBudgetIntentRegistry \<Rightarrow> ActiveBudgetIntentRegistry" where
  "drop_guard g rg = (if gd_completed g then rg else guard_dropped (gd_request_id g) rg)"

text \<open>The two compound operations when nothing else happens in between.\<close>

lemma registry_try_reserve_eq:
  "registry_try_reserve rg request_id =
     (if request_id = [] then (Inl EmptyRequestId, record_rejection False rg)
      else case validate_text_field RequestIdField request_id MAX_REQUEST_ID_BYTES of
        Inl e \<Rightarrow> (Inl e, record_rejection True rg)
      | Inr _ \<Rightarrow>
          if \<not> rg_active_entries rg < rg_max_entries rg then (Inl RegistryOverloaded, record_rejection False rg)
          else case map_of (rg_entries rg) request_id of
            None \<Rightarrow>
              (Inr \<lparr>gd_request_id = request_id, gd_completed = False\<rparr>,
               rg\<lparr>rg_active_entries := rg_active_entries rg + 1, rg_entries := AList.update request_id fresh_entry (rg_entries rg)\<rparr>)
          | Some _ \<Rightarrow> (Inl DuplicateRequest, record_rejection False rg))"
  by (simp add: registry_try_reserve_def claim_slot_def enter_entry_def release_slot_def split: sum.split option.split)

lemma registry_acknowledge_eq:
  "registry_acknowledge request_id rg =
     (case map_of (rg_entries rg) request_id of
        None \<Rightarrow> rg
      | Some _ \<Rightarrow> rg\<lparr>rg_entries := AList.delete request_id (rg_entries rg), rg_active_entries := rg_active_entries rg - 1\<rparr>)"
  by (simp add: registry_acknowledge_def take_entry_def release_slot_def split: option.split)

section \<open>Runs\<close>

text \<open>
  What a request task does through its guard between reserving and settling, and what the recovery task
  does to entries whose guard is gone. A guard that has acknowledged is not used again (its owner moves it
  out of the request context), and the recovery task skips entries with a living guard.
\<close>

datatype guard_action =
    MarkPrepared uuid | MarkCommitPending | MarkRolledBack | MarkDispatching | RecordSettlement SettleBudgetIntent
  | MarkSafeZero | RecordSafeZero SettleBudgetIntent | MarkUnresolved

fun perform :: "guard_action \<Rightarrow> guard_op" where
  "perform (MarkPrepared i) = mark_prepared i"
| "perform MarkCommitPending = mark_dispatch_commit_pending"
| "perform MarkRolledBack = mark_dispatch_rolled_back"
| "perform MarkDispatching = mark_dispatching"
| "perform (RecordSettlement c) = record_settlement c"
| "perform MarkSafeZero = mark_needs_safe_zero"
| "perform (RecordSafeZero c) = record_safe_zero_settlement c"
| "perform MarkUnresolved = mark_needs_unresolved"

datatype recovery_action = Recovered uuid bool | Resettle SettleBudgetIntent bool

fun recover :: "recovery_action \<Rightarrow> string \<Rightarrow> ActiveBudgetIntentRegistry \<Rightarrow> unit registry_result \<times> ActiveBudgetIntentRegistry" where
  "recover (Recovered i dispatched) r = mark_recovered_intent r i dispatched"
| "recover (Resettle c unresolved) r = record_recovery_settlement r c unresolved"

type_synonym registry_system = "ActiveBudgetIntentRegistry \<times> BudgetIntentGuard list"

definition abandoned :: "ActiveBudgetIntentRegistry \<Rightarrow> string \<Rightarrow> bool" where
  "abandoned rg r = (case map_of (rg_entries rg) r of None \<Rightarrow> False | Some d \<Rightarrow> \<not> bd_guard_alive d)"

datatype registry_label =
    Reserve string | Create string CreateBudgetIntent | Act string guard_action | Acknowledge string
  | DropGuard string | Recover string recovery_action | RecoveryAck string

inductive registry_step ::
    "(BudgetPricingSnapshot \<Rightarrow> string option) \<Rightarrow> registry_system \<Rightarrow> registry_label \<Rightarrow> registry_system \<Rightarrow> bool" for json where
  reserved: "registry_try_reserve rg r = (Inr g, rg') \<Longrightarrow> registry_step json (rg, gs) (Reserve r) (rg', g # gs)"
| refused: "registry_try_reserve rg r = (Inl e, rg') \<Longrightarrow> registry_step json (rg, gs) (Reserve r) (rg', gs)"
| created: "g \<in> set gs \<Longrightarrow> \<not> gd_completed g \<Longrightarrow> record_create_command json c g rg = (res, g', rg') \<Longrightarrow>
    registry_step json (rg, gs) (Create (gd_request_id g) c) (rg', g' # remove1 g gs)"
| acted: "g \<in> set gs \<Longrightarrow> \<not> gd_completed g \<Longrightarrow> perform a g rg = (res, rg') \<Longrightarrow>
    registry_step json (rg, gs) (Act (gd_request_id g) a) (rg', gs)"
| acknowledged: "g \<in> set gs \<Longrightarrow> guard_acknowledge g rg = (g', rg') \<Longrightarrow>
    registry_step json (rg, gs) (Acknowledge (gd_request_id g)) (rg', g' # remove1 g gs)"
| dropped: "g \<in> set gs \<Longrightarrow> registry_step json (rg, gs) (DropGuard (gd_request_id g)) (drop_guard g rg, remove1 g gs)"
| recovered: "abandoned rg r \<Longrightarrow> recover a r rg = (res, rg') \<Longrightarrow> registry_step json (rg, gs) (Recover r a) (rg', gs)"
| recovery_ack: "abandoned rg r \<Longrightarrow> registry_step json (rg, gs) (RecoveryAck r) (registry_acknowledge r rg, gs)"

inductive registry_reachable :: "(BudgetPricingSnapshot \<Rightarrow> string option) \<Rightarrow> registry_system \<Rightarrow> bool" for json where
  start: "registry_new n = Inr rg \<Longrightarrow> registry_reachable json (rg, [])"
| step: "registry_reachable json s \<Longrightarrow> registry_step json s l s' \<Longrightarrow> registry_reachable json s'"

section \<open>The invariant\<close>

definition recoverable :: "ActiveBudgetIntentState \<Rightarrow> bool" where
  "recoverable s = (s \<in> {RetryWithFact, NeedsIntentLookup, NeedsSafeZero, NeedsUnresolved})"

definition unidentified :: "ActiveBudgetIntentState \<Rightarrow> bool" where
  "unidentified s = (s \<in> {Preparing, NeedsIntentLookup})"

definition settlement_ok :: "string \<Rightarrow> ActiveBudgetIntentData \<Rightarrow> bool" where
  "settlement_ok r d =
     (case bd_settlement d of
        None \<Rightarrow> bd_state d \<noteq> RetryWithFact
      | Some c \<Rightarrow> validate_settlement_command r c = Inr () \<and> bd_intent_id d = Some (sb_intent_id c))"

definition entry_ok :: "(BudgetPricingSnapshot \<Rightarrow> string option) \<Rightarrow> string \<Rightarrow> ActiveBudgetIntentData \<Rightarrow> bool" where
  "entry_ok json r d =
     (r \<noteq> [] \<and> length r \<le> MAX_REQUEST_ID_BYTES \<and>
      (case bd_create_command d of None \<Rightarrow> True | Some c \<Rightarrow> validate_create_command json r c = Inr ()) \<and>
      settlement_ok r d \<and> unidentified (bd_state d) = (bd_intent_id d = None) \<and>
      (bd_guard_alive d \<longrightarrow> bd_state d \<noteq> NeedsIntentLookup) \<and> (\<not> bd_guard_alive d \<longrightarrow> recoverable (bd_state d)))"

definition live_ids :: "BudgetIntentGuard list \<Rightarrow> string list" where
  "live_ids gs = map gd_request_id (filter (\<lambda>g. \<not> gd_completed g) gs)"

definition registry_ok :: "(BudgetPricingSnapshot \<Rightarrow> string option) \<Rightarrow> registry_system \<Rightarrow> bool" where
  "registry_ok json s =
     (case s of (rg, gs) \<Rightarrow>
        distinct (map fst (rg_entries rg)) \<and> unat (rg_active_entries rg) = length (rg_entries rg) \<and>
        length (rg_entries rg) \<le> unat (rg_max_entries rg) \<and>
        (\<forall>r d. map_of (rg_entries rg) r = Some d \<longrightarrow> entry_ok json r d) \<and>
        distinct (live_ids gs) \<and>
        (\<forall>r. r \<in> set (live_ids gs) \<longleftrightarrow> (\<exists>d. map_of (rg_entries rg) r = Some d \<and> bd_guard_alive d)))"

lemma registry_okD:
  assumes "registry_ok json (rg, gs)"
  shows "distinct (map fst (rg_entries rg))" "unat (rg_active_entries rg) = length (rg_entries rg)"
    "length (rg_entries rg) \<le> unat (rg_max_entries rg)"
    "map_of (rg_entries rg) r = Some d \<Longrightarrow> entry_ok json r d" "distinct (live_ids gs)"
    "r \<in> set (live_ids gs) \<longleftrightarrow> (\<exists>d. map_of (rg_entries rg) r = Some d \<and> bd_guard_alive d)"
  using assms by (auto simp: registry_ok_def)

lemma rejection_ok: "registry_ok json (rg, gs) \<Longrightarrow> registry_ok json (record_rejection b rg, gs)"
  by (simp add: registry_ok_def record_rejection_def Let_def)

lemma entries_rejection [simp]: "rg_entries (record_rejection b rg) = rg_entries rg"
  by (simp add: record_rejection_def Let_def)

text \<open>Changing one entry, its guard apart.\<close>

lemma update_entry_ok:
  assumes ok: "registry_ok json (rg, gs)" and d: "map_of (rg_entries rg) r = Some d"
    and d': "entry_ok json r d'" "bd_guard_alive d' = bd_guard_alive d"
  shows "registry_ok json (rg\<lparr>rg_entries := AList.update r d' (rg_entries rg)\<rparr>, gs)"
  using registry_okD [OF ok] d d'
  by (auto simp: registry_ok_def update_conv' length_update_Some [OF d] distinct_update fst_update_Some [OF d]
      simp del: map_of_eq_Some_iff)

text \<open>The transition table: what a transition may not do to keep an entry well-formed.\<close>

definition lawful :: "ActiveBudgetIntentState list \<Rightarrow> ActiveBudgetIntentState \<Rightarrow> uuid option \<Rightarrow> SettleBudgetIntent option \<Rightarrow> string \<Rightarrow> bool" where
  "lawful expected next_state intent_id settlement r =
     (\<not> unidentified next_state \<and>
      (intent_id \<noteq> None \<or> \<not> list_ex unidentified expected) \<and>
      (case settlement of
         None \<Rightarrow> next_state \<noteq> RetryWithFact
       | Some c \<Rightarrow> validate_settlement_command r c = Inr () \<and> intent_id = Some (sb_intent_id c)))"

lemma transition_ok:
  assumes ok: "registry_ok json (rg, gs)" and l: "lawful expected next_state intent_id settlement r"
    and g: "recoverable next_state \<or> r \<in> set (live_ids gs)"
  shows "registry_ok json (snd (transition r expected next_state intent_id settlement rg), gs)"
proof (cases "map_of (rg_entries rg) r")
  case (Some d)
  have e: "entry_ok json r d" by (rule registry_okD(4) [OF ok Some])
  have alive: "\<not> bd_guard_alive d \<Longrightarrow> recoverable next_state" using g registry_okD(6) [OF ok, of r] Some by auto
  show ?thesis
  proof (cases "bd_state d \<in> set expected \<and> (intent_id = None \<or> bd_intent_id d = None \<or> bd_intent_id d = intent_id)")
    case True
    let ?d1 = "if intent_id \<noteq> None then d\<lparr>bd_intent_id := intent_id\<rparr> else d"
    let ?d2 = "if settlement \<noteq> None then ?d1\<lparr>bd_settlement := settlement\<rparr> else ?d1"
    have "next_state \<noteq> NeedsIntentLookup" "bd_intent_id (?d2\<lparr>bd_state := next_state\<rparr>) \<noteq> None"
      using l e True by (auto simp: lawful_def unidentified_def list_ex_iff entry_ok_def)
    moreover have "settlement_ok r (?d2\<lparr>bd_state := next_state\<rparr>)"
      using l e True by (auto simp: lawful_def settlement_ok_def entry_ok_def split: option.splits)
    ultimately have "entry_ok json r (?d2\<lparr>bd_state := next_state\<rparr>)"
      using l e alive by (auto simp: entry_ok_def lawful_def)
    then show ?thesis
      using True Some update_entry_ok [OF ok Some, of "?d2\<lparr>bd_state := next_state\<rparr>"]
      by (auto simp: transition_def Let_def)
  qed (use ok Some in \<open>auto simp: transition_def\<close>)
qed (use ok in \<open>simp add: transition_def\<close>)

lemma checked_settlement_ok:
  assumes "registry_ok json (rg, gs)" "\<not> unidentified next_state" "recoverable next_state \<or> r \<in> set (live_ids gs)"
  shows "registry_ok json (snd (checked_settlement r command expected next_state rg), gs)"
proof (cases "validate_settlement_command r command")
  case (Inr u)
  then have "lawful expected next_state (Some (sb_intent_id command)) (Some command) r"
    using assms(2) by (simp add: lawful_def)
  from transition_ok [OF assms(1) this assms(3)] show ?thesis by (simp add: checked_settlement_def Inr)
qed (simp add: checked_settlement_def rejection_ok assms)

lemma perform_ok:
  assumes "registry_ok json (rg, gs)" "gd_request_id g \<in> set (live_ids gs)"
  shows "registry_ok json (snd (perform a g rg), gs)"
  using assms
  by (cases a)
    (auto simp: mark_prepared_def mark_dispatch_commit_pending_def mark_dispatch_rolled_back_def mark_dispatching_def
      record_settlement_def mark_needs_safe_zero_def record_safe_zero_settlement_def mark_needs_unresolved_def
      lawful_def unidentified_def intro!: transition_ok checked_settlement_ok)

lemma recover_ok:
  assumes "registry_ok json (rg, gs)"
  shows "registry_ok json (snd (recover a r rg), gs)"
  using assms
  by (cases a)
    (auto simp: mark_recovered_intent_def record_recovery_settlement_def lawful_def unidentified_def recoverable_def
      intro!: transition_ok checked_settlement_ok)

lemma length_delete: "distinct (map fst al) \<Longrightarrow> map_of al k = Some v \<Longrightarrow> Suc (length (AList.delete k al)) = length al"
  using asum_delete [of al k v "\<lambda>_. Suc 0"] by simp

lemma live_ids_simps [simp]:
  "live_ids (g # gs) = (if gd_completed g then live_ids gs else gd_request_id g # live_ids gs)"
  by (simp add: live_ids_def)

lemma live_ids_remove:
  "g \<in> set gs \<Longrightarrow> mset (live_ids gs) =
    (if gd_completed g then {#} else {#gd_request_id g#}) + mset (live_ids (remove1 g gs))"
  by (induction gs) (auto simp: live_ids_def)

lemma live_ids_without:
  assumes "registry_ok json (rg, gs)" "g \<in> set gs"
  shows "distinct (live_ids (remove1 g gs))"
    "set (live_ids (remove1 g gs)) = (if gd_completed g then set (live_ids gs) else set (live_ids gs) - {gd_request_id g})"
proof -
  have d: "distinct (live_ids gs)" by (rule registry_okD(5) [OF assms(1)])
  note m = live_ids_remove [OF assms(2)]
  have p: "mset (live_ids gs) = mset ((if gd_completed g then [] else [gd_request_id g]) @ live_ids (remove1 g gs))"
    using m by simp
  have "distinct ((if gd_completed g then [] else [gd_request_id g]) @ live_ids (remove1 g gs))"
    using d mset_eq_imp_distinct_iff [OF p] by simp
  then show "distinct (live_ids (remove1 g gs))"
    "set (live_ids (remove1 g gs)) = (if gd_completed g then set (live_ids gs) else set (live_ids gs) - {gd_request_id g})"
    using mset_eq_setD [OF p] by (auto split: if_splits)
qed

lemma live_guard: "g \<in> set gs \<Longrightarrow> \<not> gd_completed g \<Longrightarrow> gd_request_id g \<in> set (live_ids gs)"
  by (auto simp: live_ids_def)

text \<open>Only the ids of the living guards matter.\<close>

lemma guards_ok:
  assumes "registry_ok json (rg, gs)" "distinct (live_ids gs')" "set (live_ids gs') = set (live_ids gs)"
  shows "registry_ok json (rg, gs')"
  using assms unfolding registry_ok_def by simp

lemma swap_ok:
  assumes "registry_ok json (rg, gs)" "g \<in> set gs"
  shows "registry_ok json (rg, g # remove1 g gs)"
proof (rule guards_ok [OF assms(1)])
  show "distinct (live_ids (g # remove1 g gs))" "set (live_ids (g # remove1 g gs)) = set (live_ids gs)"
    using live_ids_without [OF assms] live_guard [OF assms(2)] by (simp_all split: if_splits) blast
qed

text \<open>An entry is taken out; if it had a guard, that guard is completed or gone.\<close>

lemma acknowledge_ok:
  assumes ok: "registry_ok json (rg, gs)" and "distinct (live_ids gs')" and "set (live_ids gs') = set (live_ids gs) - {r}"
  shows "registry_ok json (registry_acknowledge r rg, gs')"
proof (cases "map_of (rg_entries rg) r")
  case None
  then have "r \<notin> set (live_ids gs)" using registry_okD(6) [OF ok, of r] by simp
  then show ?thesis using registry_okD [OF ok] assms(2,3) None
    by (auto simp: registry_ok_def registry_acknowledge_eq simp del: map_of_eq_Some_iff)
next
  case (Some d)
  note D = registry_okD [OF ok]
  have n: "Suc (length (AList.delete r (rg_entries rg))) = length (rg_entries rg)" by (rule length_delete [OF D(1) Some])
  then have "1 \<le> rg_active_entries rg" using D(2) by (simp add: word_le_nat_alt)
  then have "unat (rg_active_entries rg - 1) = length (AList.delete r (rg_entries rg))"
    using n D(2) by (simp add: unat_sub)
  then show ?thesis using D n assms(2,3) Some
    by (auto simp: registry_ok_def registry_acknowledge_eq delete_conv' distinct_delete simp del: map_of_eq_Some_iff split: if_splits)
qed

lemma reserve_ok:
  assumes ok: "registry_ok json (rg, gs)"
  shows "registry_try_reserve rg r = (Inr g, rg') \<Longrightarrow> registry_ok json (rg', g # gs)"
    "registry_try_reserve rg r = (Inl e, rg') \<Longrightarrow> registry_ok json (rg', gs)"
proof -
  note D = registry_okD [OF ok]
  assume a: "registry_try_reserve rg r = (Inr g, rg')"
  then have r: "r \<noteq> []" "length r \<le> MAX_REQUEST_ID_BYTES" "rg_active_entries rg < rg_max_entries rg"
    "map_of (rg_entries rg) r = None"
    and g: "g = \<lparr>gd_request_id = r, gd_completed = False\<rparr>"
    and rg': "rg' = rg\<lparr>rg_active_entries := rg_active_entries rg + 1, rg_entries := rg_entries rg @ [(r, fresh_entry)]\<rparr>"
    by (auto simp: registry_try_reserve_eq Let_def validate_text_field_def validate_field_size_def update_fresh
        split: if_splits option.splits sum.splits)
  have m64: "unat (rg_max_entries rg) < 2 ^ 64" using unsigned_less [of "rg_max_entries rg"] by simp
  have "unat (rg_active_entries rg + 1) = Suc (unat (rg_active_entries rg))"
    using r(3) m64 by (simp add: unat_word_ariths word_less_nat_alt)
  then have c: "unat (rg_active_entries rg + 1) = length (rg_entries rg @ [(r, fresh_entry)])" "unat (rg_active_entries rg + 1) \<le> unat (rg_max_entries rg)"
    using D(2) r(3) by (auto simp: word_less_nat_alt)
  have fresh: "r \<notin> fst ` set (rg_entries rg)" using r(4) by (simp add: map_of_eq_None_iff)
  have m: "map_of (rg_entries rg @ [(r, fresh_entry)]) = (map_of (rg_entries rg))(r \<mapsto> fresh_entry)"
    using r(4) by (auto simp: map_add_def fun_eq_iff split: option.splits)
  have "entry_ok json r fresh_entry"
    using r by (simp add: entry_ok_def fresh_entry_def settlement_ok_def unidentified_def)
  moreover have "r \<notin> set (live_ids gs)" "bd_guard_alive fresh_entry"
    using D(6) [of r] r(4) by (simp_all add: fresh_entry_def)
  ultimately show "registry_ok json (rg', g # gs)"
    using D c fresh r(4) unfolding registry_ok_def g rg'
    by (auto simp: m simp del: map_of_eq_Some_iff map_of_append)
next
  assume "registry_try_reserve rg r = (Inl e, rg')"
  then show "registry_ok json (rg', gs)"
    using ok by (auto simp: registry_try_reserve_eq Let_def intro!: rejection_ok split: if_splits option.splits sum.splits)
qed

text \<open>The guard is completed with its entry.\<close>

lemma complete_ok:
  assumes "registry_ok json (rg, gs)" "g \<in> set gs" "\<not> gd_completed g"
  shows "registry_ok json (registry_acknowledge (gd_request_id g) rg, g\<lparr>gd_completed := True\<rparr> # remove1 g gs)"
  by (rule acknowledge_ok [OF assms(1)]) (simp_all add: live_ids_without [OF assms(1,2)] assms(3))

lemma create_cases:
  assumes "record_create_command json c g rg = (res, g', rg')"
  shows "(\<exists>e. g' = g\<lparr>gd_completed := True\<rparr> \<and> rg' = registry_acknowledge (gd_request_id g) (record_rejection (is_field_limit e) rg)) \<or>
    (\<exists>d. g' = g \<and> res = Inr () \<and> map_of (rg_entries rg) (gd_request_id g) = Some d \<and> validate_create_command json (gd_request_id g) c = Inr () \<and>
       bd_state d = Preparing \<and>
       rg' = rg\<lparr>rg_entries := AList.update (gd_request_id g) (d\<lparr>bd_create_command := Some c\<rparr>) (rg_entries rg)\<rparr>) \<or>
    g' = g \<and> rg' = rg"
  using assms unfolding record_create_command_def by (auto split: sum.splits option.splits if_splits)

lemma create_ok:
  assumes ok: "registry_ok json (rg, gs)" and g: "g \<in> set gs" "\<not> gd_completed g"
    and c: "record_create_command json c g rg = (res, g', rg')"
  shows "registry_ok json (rg', g' # remove1 g gs)"
  using create_cases [OF c]
proof (elim disjE exE conjE)
  fix e
  assume "g' = g\<lparr>gd_completed := True\<rparr>" "rg' = registry_acknowledge (gd_request_id g) (record_rejection (is_field_limit e) rg)"
  then show ?thesis using complete_ok [OF rejection_ok [OF ok] g] by simp
next
  fix d
  assume d: "map_of (rg_entries rg) (gd_request_id g) = Some d" and v: "validate_create_command json (gd_request_id g) c = Inr ()"
    and r: "g' = g" "rg' = rg\<lparr>rg_entries := AList.update (gd_request_id g) (d\<lparr>bd_create_command := Some c\<rparr>) (rg_entries rg)\<rparr>"
  have "entry_ok json (gd_request_id g) (d\<lparr>bd_create_command := Some c\<rparr>)"
    using registry_okD(4) [OF ok d] v by (simp add: entry_ok_def settlement_ok_def split: option.splits)
  from swap_ok [OF update_entry_ok [OF ok d this] g(1)] r show ?thesis by simp
next
  assume "g' = g" "rg' = rg"
  then show ?thesis using swap_ok [OF ok g(1)] by simp
qed

lemma drop_ok:
  assumes ok: "registry_ok json (rg, gs)" and g: "g \<in> set gs"
  shows "registry_ok json (drop_guard g rg, remove1 g gs)"
proof (cases "gd_completed g")
  case True
  then show ?thesis using guards_ok [OF ok, of "remove1 g gs"] live_ids_without [OF ok g] by (simp add: drop_guard_def)
next
  case False
  let ?r = "gd_request_id g"
  note D = registry_okD [OF ok]
  obtain d where d: "map_of (rg_entries rg) ?r = Some d" "bd_guard_alive d" using D(6) [of ?r] live_guard [OF g False] by blast
  let ?d = "d\<lparr>bd_guard_alive := False, bd_state := after_drop (bd_state d)\<rparr>"
  have "entry_ok json ?r ?d"
    using D(4) [OF d(1)] d(2)
    by (cases "bd_state d") (auto simp: entry_ok_def settlement_ok_def unidentified_def recoverable_def split: option.splits)
  then show ?thesis
    using D live_ids_without [OF ok g] False d
    by (auto simp: registry_ok_def drop_guard_def guard_dropped_def update_conv' length_update_Some [OF d(1)]
        distinct_update fst_update_Some [OF d(1)] simp del: map_of_eq_Some_iff split: if_splits)
qed

lemma registry_step_ok:
  assumes "registry_step json s l s'" "registry_ok json s"
  shows "registry_ok json s'"
  using assms
proof (induction rule: registry_step.induct)
  case (reserved rg r g rg' gs)
  then show ?case using reserve_ok(1) by blast
next
  case (refused rg r e rg' gs)
  then show ?case using reserve_ok(2) by blast
next
  case (created g gs c rg res g' rg')
  then show ?case using create_ok by blast
next
  case (acted g gs a rg res rg')
  then show ?case using perform_ok [OF acted(4) live_guard [OF acted(1,2)], of a] by simp
next
  case (acknowledged g gs rg g' rg')
  then show ?case
    using swap_ok [OF acknowledged(3,1)] complete_ok [OF acknowledged(3,1)]
    by (auto simp: guard_acknowledge_def split: if_splits)
next
  case (dropped g gs rg)
  then show ?case using drop_ok by blast
next
  case (recovered rg r a res rg' gs)
  then show ?case using recover_ok [OF recovered(3), of a r] by simp
next
  case (recovery_ack rg r gs)
  have "r \<notin> set (live_ids gs)"
    using registry_okD(6) [OF recovery_ack(2), of r] recovery_ack(1) by (auto simp: abandoned_def split: option.splits)
  then show ?case using acknowledge_ok [OF recovery_ack(2), of gs r] registry_okD(5) [OF recovery_ack(2)] by auto
qed

lemma registry_reachable_ok: "registry_reachable json s \<Longrightarrow> registry_ok json s"
proof (induction rule: registry_reachable.induct)
  case (start n rg)
  then show ?case by (auto simp: registry_new_def registry_ok_def live_ids_def split: if_splits)
qed (use registry_step_ok in blast)

section \<open>Capacity and memory\<close>

definition create_bytes :: "(BudgetPricingSnapshot \<Rightarrow> string option) \<Rightarrow> CreateBudgetIntent option \<Rightarrow> nat" where
  "create_bytes json c =
     (case c of
        None \<Rightarrow> 0
      | Some c \<Rightarrow> length (cb_request_id c) + length (cb_operation_id c) + length (cb_command_fingerprint c) +
          length (cb_pricing_fingerprint c) + (case json (cb_pricing_snapshot c) of None \<Rightarrow> 0 | Some bytes \<Rightarrow> length bytes))"

definition settlement_bytes :: "SettleBudgetIntent option \<Rightarrow> nat" where
  "settlement_bytes c =
     (case c of
        None \<Rightarrow> 0
      | Some c \<Rightarrow> length (sb_request_id c) + length (sb_operation_id c) + length (sb_command_fingerprint c) +
          length (sb_pricing_fingerprint c) + sum_list (map length (co_reasons (sb_cost c))))"

definition entry_bytes :: "(BudgetPricingSnapshot \<Rightarrow> string option) \<Rightarrow> string \<times> ActiveBudgetIntentData \<Rightarrow> nat" where
  "entry_bytes json e =
     ESTIMATED_FIXED_BYTES + length (fst e) + create_bytes json (bd_create_command (snd e)) + settlement_bytes (bd_settlement (snd e))"

lemma and_try_Inr: "and_try r k = Inr x \<longleftrightarrow> r = Inr () \<and> k = Inr x"
  by (cases r) (auto simp: and_try_def)

lemma text_field_Inr: "validate_text_field f v m = Inr u \<longleftrightarrow> length v \<le> m"
  by (simp add: validate_text_field_def validate_field_size_def)

lemma reasons_Inr: "validate_reasons rs = Inr () \<longleftrightarrow> (\<forall>r \<in> set rs. length r \<le> MAX_COST_REASON_BYTES)"
  by (induction rs) (auto simp: and_try_Inr text_field_Inr)

lemma create_bytes_bound:
  "validate_create_command json r c = Inr () \<Longrightarrow>
   create_bytes json (Some c) \<le> MAX_REQUEST_ID_BYTES + MAX_OPERATION_ID_BYTES + 2 * MAX_FINGERPRINT_BYTES + MAX_PRICING_SNAPSHOT_BYTES"
  by (auto simp: validate_create_command_def validate_request_identity_def and_try_Inr text_field_Inr create_bytes_def
      validate_field_size_def split: option.splits if_splits)

lemma settlement_bytes_bound:
  assumes "validate_settlement_command r c = Inr ()"
  shows "settlement_bytes (Some c) \<le>
    MAX_REQUEST_ID_BYTES + MAX_OPERATION_ID_BYTES + 2 * MAX_FINGERPRINT_BYTES + MAX_COST_REASONS * MAX_COST_REASON_BYTES"
proof -
  let ?rs = "co_reasons (sb_cost c)"
  have a: "length ?rs \<le> MAX_COST_REASONS" "\<forall>r \<in> set ?rs. length r \<le> MAX_COST_REASON_BYTES"
    using assms by (auto simp: validate_settlement_command_def and_try_Inr reasons_Inr split: if_splits)
  have "sum_list (map length ?rs) \<le> sum_list (map (\<lambda>_. MAX_COST_REASON_BYTES) ?rs)"
    by (rule sum_list_mono) (use a in simp)
  also have "\<dots> \<le> MAX_COST_REASONS * MAX_COST_REASON_BYTES" using a(1) by (simp add: sum_list_triv)
  finally show ?thesis
    using assms by (simp add: validate_settlement_command_def validate_request_identity_def and_try_Inr text_field_Inr settlement_bytes_def)
qed

lemma entry_bytes_bound: "entry_ok json r d \<Longrightarrow> entry_bytes json (r, d) \<le> ESTIMATED_WORST_CASE_BYTES"
  using create_bytes_bound [of json r] settlement_bytes_bound [of r]
  by (fastforce simp: entry_ok_def settlement_ok_def entry_bytes_def create_bytes_def settlement_bytes_def ESTIMATED_WORST_CASE_BYTES_def
      split: option.splits)

text \<open>The limits of the fields, written out.\<close>

definition create_within_limits :: "(BudgetPricingSnapshot \<Rightarrow> string option) \<Rightarrow> string \<Rightarrow> CreateBudgetIntent \<Rightarrow> bool" where
  "create_within_limits json r c \<longleftrightarrow>
     cb_request_id c = r \<and> length (cb_operation_id c) \<le> 256 \<and> length (cb_command_fingerprint c) \<le> 128 \<and>
     length (cb_pricing_fingerprint c) \<le> 128 \<and> (\<exists>bytes. json (cb_pricing_snapshot c) = Some bytes \<and> length bytes \<le> 4096)"

definition settlement_within_limits :: "string \<Rightarrow> SettleBudgetIntent \<Rightarrow> bool" where
  "settlement_within_limits r c \<longleftrightarrow>
     sb_request_id c = r \<and> length (sb_operation_id c) \<le> 256 \<and> length (sb_command_fingerprint c) \<le> 128 \<and>
     length (sb_pricing_fingerprint c) \<le> 128 \<and> length (co_reasons (sb_cost c)) \<le> 8 \<and>
     (\<forall>reason \<in> set (co_reasons (sb_cost c)). length reason \<le> 256)"

definition entry_within_limits :: "(BudgetPricingSnapshot \<Rightarrow> string option) \<Rightarrow> string \<times> ActiveBudgetIntentData \<Rightarrow> bool" where
  "entry_within_limits json e \<longleftrightarrow>
     length (fst e) \<le> 256 \<and> pred_option (create_within_limits json (fst e)) (bd_create_command (snd e)) \<and>
     pred_option (settlement_within_limits (fst e)) (bd_settlement (snd e))"

lemma validated_create_limits: "validate_create_command json r c = Inr () \<Longrightarrow> create_within_limits json r c"
  by (auto simp: validate_create_command_def validate_request_identity_def and_try_Inr text_field_Inr create_within_limits_def
      validate_field_size_def registry_limits split: option.splits if_splits)

lemma validated_settlement_limits: "validate_settlement_command r c = Inr () \<Longrightarrow> settlement_within_limits r c"
  by (auto simp: validate_settlement_command_def validate_request_identity_def and_try_Inr text_field_Inr reasons_Inr
      settlement_within_limits_def registry_limits split: if_splits)

lemma entry_ok_limits: "entry_ok json r d \<Longrightarrow> entry_within_limits json (r, d)"
  using validated_create_limits [of json r] validated_settlement_limits [of r]
  by (auto simp: entry_ok_def settlement_ok_def entry_within_limits_def registry_limits split: option.splits)

text \<open>
  C34. The capacity estimate is a bound: whatever commands the requests and the recovery task put
  into it, the text the registry holds, with the fixed share of each entry, is at most the estimated
  total of 8960 bytes for each possible entry. Every entry is within the limits of its fields: the id of the request has at most 256
  bytes, a create command that is stored belongs to it and has at most 256 bytes of operation id, 128 of each fingerprint and 4096 of
  the serialised prices, and a stored settlement has at most eight reasons of at most 256 bytes.
\<close>

theorem registry_memory_is_bounded:
  assumes "registry_reachable json (rg, gs)" and "estimate_active_budget_intent_capacity (rg_max_entries rg) = Some est"
  shows "list_all (entry_within_limits json) (rg_entries rg) \<and>
    sum_list (map (entry_bytes json) (rg_entries rg)) \<le> ce_estimated_total_bytes est \<and>
    ce_estimated_total_bytes est = 8960 * unat (rg_max_entries rg)"
proof -
  note D = registry_okD [OF registry_reachable_ok [OF assms(1)]]
  have ok: "entry_ok json r d" if "(r, d) \<in> set (rg_entries rg)" for r d using D(1,4) that by simp
  have "list_all (entry_within_limits json) (rg_entries rg)" using ok entry_ok_limits by (fastforce simp: list_all_iff)
  moreover have "\<forall>e \<in> set (rg_entries rg). entry_bytes json e \<le> ESTIMATED_WORST_CASE_BYTES"
    using ok entry_bytes_bound by fastforce
  then have "sum_list (map (entry_bytes json) (rg_entries rg)) \<le> sum_list (map (\<lambda>_. ESTIMATED_WORST_CASE_BYTES) (rg_entries rg))"
    by (intro sum_list_mono) simp
  then have "sum_list (map (entry_bytes json) (rg_entries rg)) \<le> length (rg_entries rg) * ESTIMATED_WORST_CASE_BYTES"
    by (simp add: sum_list_triv)
  then have "sum_list (map (entry_bytes json) (rg_entries rg)) \<le> unat (rg_max_entries rg) * ESTIMATED_WORST_CASE_BYTES"
    using mult_le_mono1 [OF D(3), of ESTIMATED_WORST_CASE_BYTES] by linarith
  ultimately show ?thesis
    using assms(2) by (auto simp: estimate_active_budget_intent_capacity_def Let_def registry_limits split: if_splits)
qed

section \<open>Cancelled requests\<close>

inductive registry_run ::
    "(BudgetPricingSnapshot \<Rightarrow> string option) \<Rightarrow> registry_system \<Rightarrow> registry_label list \<Rightarrow> registry_system \<Rightarrow> bool" for json where
  nothing: "registry_run json s [] s"
| more: "registry_step json s l s1 \<Longrightarrow> registry_run json s1 ls s' \<Longrightarrow> registry_run json s (l # ls) s'"

text \<open>
  What a step may do to an abandoned entry that it does not take out: it stays abandoned and keeps its
  create command and its intent; only a recovery settlement declares it free of cost.
\<close>

definition abandoned_kept :: "registry_label \<Rightarrow> string \<Rightarrow> ActiveBudgetIntentData \<Rightarrow> ActiveBudgetIntentData \<Rightarrow> bool" where
  "abandoned_kept l r d d' =
     (\<not> bd_guard_alive d' \<and> bd_create_command d' = bd_create_command d \<and>
      (bd_intent_id d \<noteq> None \<longrightarrow> bd_intent_id d' = bd_intent_id d) \<and>
      (bd_settlement d \<noteq> None \<longrightarrow> bd_settlement d' \<noteq> None) \<and>
      (bd_state d = NeedsUnresolved \<longrightarrow> bd_state d' = NeedsUnresolved \<or> (\<exists>c. l = Recover r (Resettle c False))))"

lemma transition_kept:
  assumes "map_of (rg_entries rg) r = Some d" "transition q expected next_state i c rg = (res, rg')"
  shows "\<exists>d'. map_of (rg_entries rg') r = Some d' \<and> bd_guard_alive d' = bd_guard_alive d \<and> bd_create_command d' = bd_create_command d \<and>
    (bd_intent_id d \<noteq> None \<longrightarrow> bd_intent_id d' = bd_intent_id d) \<and> (bd_settlement d \<noteq> None \<longrightarrow> bd_settlement d' \<noteq> None) \<and>
    (bd_state d' = bd_state d \<or> q = r \<and> bd_state d \<in> set expected \<and> bd_state d' = next_state) \<and> (q \<noteq> r \<longrightarrow> d' = d)"
  using assms by (auto simp: transition_def Let_def update_conv' split: option.splits if_splits)

lemma checked_kept:
  assumes "map_of (rg_entries rg) r = Some d" "checked_settlement q c expected next_state rg = (res, rg')"
  shows "\<exists>d'. map_of (rg_entries rg') r = Some d' \<and> bd_guard_alive d' = bd_guard_alive d \<and> bd_create_command d' = bd_create_command d \<and>
    (bd_intent_id d \<noteq> None \<longrightarrow> bd_intent_id d' = bd_intent_id d) \<and> (bd_settlement d \<noteq> None \<longrightarrow> bd_settlement d' \<noteq> None) \<and>
    (bd_state d' = bd_state d \<or> q = r \<and> bd_state d \<in> set expected \<and> bd_state d' = next_state) \<and> (q \<noteq> r \<longrightarrow> d' = d)"
  using assms transition_kept [OF assms(1)] by (auto simp: checked_settlement_def split: sum.splits)

lemma perform_other:
  assumes "map_of (rg_entries rg) r = Some d" "perform a g rg = (res, rg')" "gd_request_id g \<noteq> r"
  shows "map_of (rg_entries rg') r = Some d"
  using assms transition_kept [OF assms(1)] checked_kept [OF assms(1)]
  by (cases a)
    (fastforce simp: mark_prepared_def mark_dispatch_commit_pending_def mark_dispatch_rolled_back_def mark_dispatching_def
      record_settlement_def mark_needs_safe_zero_def record_safe_zero_settlement_def mark_needs_unresolved_def)+

lemma recover_kept:
  assumes "map_of (rg_entries rg) r = Some d" "\<not> bd_guard_alive d" "recover a q rg = (res, rg')"
  shows "\<exists>d'. map_of (rg_entries rg') r = Some d' \<and> abandoned_kept (Recover q a) r d d'"
proof (cases a)
  case (Recovered i dispatched)
  then have "transition q [NeedsIntentLookup, NeedsSafeZero] (if dispatched then NeedsUnresolved else NeedsSafeZero) (Some i) None rg = (res, rg')"
    using assms(3) by (simp add: mark_recovered_intent_def)
  from transition_kept [OF assms(1) this] assms(2) show ?thesis by (auto simp: abandoned_kept_def)
next
  case (Resettle c unresolved)
  then have "checked_settlement q c [NeedsSafeZero, NeedsUnresolved, RetryWithFact] (if unresolved then NeedsUnresolved else NeedsSafeZero) rg = (res, rg')"
    using assms(3) by (simp add: record_recovery_settlement_def)
  from checked_kept [OF assms(1) this] assms(2) Resettle show ?thesis by (auto simp: abandoned_kept_def split: if_splits)
qed

lemma step_kept:
  assumes "registry_step json s l s'" "registry_ok json s" "map_of (rg_entries (fst s)) r = Some d" "\<not> bd_guard_alive d" "l \<noteq> RecoveryAck r"
  shows "\<exists>d'. map_of (rg_entries (fst s')) r = Some d' \<and> abandoned_kept l r d d'"
proof -
  have same: "abandoned_kept l r d d" using assms(4) by (simp add: abandoned_kept_def)
  have other: "gd_request_id g \<noteq> r" if "s = (rg, gs)" "g \<in> set gs" "\<not> gd_completed g" for rg gs g
    using registry_okD(6) [of json rg gs r] live_guard [OF that(2,3)] assms(2-4) that(1) by auto
  show ?thesis
    using assms(1)
  proof (cases rule: registry_step.cases)
    case (reserved rg q g rg' gs)
    then show ?thesis using assms(3) same
      by (auto simp: registry_try_reserve_eq Let_def update_conv' split: if_splits option.splits sum.splits)
  next
    case (refused rg q e rg' gs)
    then show ?thesis using assms(3) same
      by (auto simp: registry_try_reserve_eq Let_def split: if_splits option.splits sum.splits)
  next
    case (created g gs c rg res g' rg')
    then have "map_of (rg_entries rg') r = Some d"
      using create_cases [OF created(6)] other [OF created(1,4,5)] assms(3)
      by (auto simp: registry_acknowledge_eq delete_conv' update_conv' split: option.splits)
    then show ?thesis using created same by auto
  next
    case (acted g gs a rg res rg')
    then show ?thesis using perform_other [OF _ acted(6)] other [OF acted(1,4,5)] assms(3) same by auto
  next
    case (acknowledged g gs rg g' rg')
    then have "map_of (rg_entries rg') r = Some d"
      using other [OF acknowledged(1,4)] assms(3)
      by (auto simp: guard_acknowledge_def registry_acknowledge_eq delete_conv' split: option.splits if_splits)
    then show ?thesis using acknowledged same by auto
  next
    case (dropped g gs rg)
    then have "map_of (rg_entries (drop_guard g rg)) r = Some d"
      using other [OF dropped(1) dropped(4)] assms(3)
      by (auto simp: drop_guard_def guard_dropped_def update_conv' split: option.splits if_splits)
    then show ?thesis using dropped same by auto
  next
    case (recovered rg q a res rg' gs)
    then show ?thesis using recover_kept [OF _ assms(4) recovered(5)] assms(3) by auto
  next
    case (recovery_ack rg q gs)
    then show ?thesis using assms(3,5) same by (auto simp: registry_acknowledge_eq delete_conv' split: option.splits)
  qed
qed

lemma run_kept:
  assumes "registry_run json s ls s'" "registry_ok json s" "map_of (rg_entries (fst s)) r = Some d" "\<not> bd_guard_alive d"
    "RecoveryAck r \<notin> set ls"
  shows "\<exists>d'. map_of (rg_entries (fst s')) r = Some d' \<and> \<not> bd_guard_alive d' \<and> recoverable (bd_state d') \<and>
    bd_create_command d' = bd_create_command d \<and> (bd_intent_id d \<noteq> None \<longrightarrow> bd_intent_id d' = bd_intent_id d) \<and>
    (bd_settlement d \<noteq> None \<longrightarrow> bd_settlement d' \<noteq> None) \<and>
    (bd_state d = NeedsUnresolved \<and> (\<forall>c. Recover r (Resettle c False) \<notin> set ls) \<longrightarrow> bd_state d' = NeedsUnresolved)"
  using assms
proof (induction arbitrary: d rule: registry_run.induct)
  case (nothing s)
  then show ?case using registry_okD(4) [of json "fst s" "snd s" r d] by (auto simp: entry_ok_def)
next
  case (more s l s1 ls s')
  obtain d1 where d1: "map_of (rg_entries (fst s1)) r = Some d1" "abandoned_kept l r d d1"
    using step_kept [OF more.hyps(1) more.prems(1-3)] more.prems(4) by auto
  obtain d' where d': "map_of (rg_entries (fst s')) r = Some d'" "\<not> bd_guard_alive d'" "recoverable (bd_state d')"
    "bd_create_command d' = bd_create_command d1" "bd_intent_id d1 \<noteq> None \<longrightarrow> bd_intent_id d' = bd_intent_id d1"
    "bd_settlement d1 \<noteq> None \<longrightarrow> bd_settlement d' \<noteq> None"
    "bd_state d1 = NeedsUnresolved \<and> (\<forall>c. Recover r (Resettle c False) \<notin> set ls) \<longrightarrow> bd_state d' = NeedsUnresolved"
    using more.IH [OF registry_step_ok [OF more.hyps(1) more.prems(1)] d1(1)] d1(2) more.prems(4)
    by (auto simp: abandoned_kept_def)
  then show ?case using d1(2) unfolding abandoned_kept_def by (intro exI [of _ d']) auto
qed

text \<open>
  A request that is cancelled leaves its intent to the recovery task, at whatever point it was:
  when its guard is dropped the entry stays, and through every later interleaving it stays until the
  recovery task acknowledges it, in a state the recovery task handles, with its create command, its intent
  id and a settlement if there was one. If the dispatch may have been committed the entry is unresolved and
  remains so; only a settlement by the recovery task can declare it free of cost.
\<close>

theorem cancelled_request_stays_recoverable:
  assumes "registry_reachable json (rg, gs)" and "g \<in> set gs" "\<not> gd_completed g" and "r = gd_request_id g"
    and "registry_run json (drop_guard g rg, remove1 g gs) ls (rg', gs')" and "RecoveryAck r \<notin> set ls"
  shows "\<exists>d d'. map_of (rg_entries rg) r = Some d \<and> map_of (rg_entries rg') r = Some d' \<and>
    bd_state d' \<in> {RetryWithFact, NeedsIntentLookup, NeedsSafeZero, NeedsUnresolved} \<and>
    bd_create_command d' = bd_create_command d \<and> (bd_intent_id d \<noteq> None \<longrightarrow> bd_intent_id d' = bd_intent_id d) \<and>
    (bd_settlement d \<noteq> None \<longrightarrow> bd_settlement d' \<noteq> None) \<and>
    (bd_state d \<in> {DispatchCommitPending, ActiveDispatching, NeedsUnresolved} \<and> (\<forall>c. Recover r (Resettle c False) \<notin> set ls) \<longrightarrow>
       bd_state d' = NeedsUnresolved)"
proof -
  have ok: "registry_ok json (rg, gs)" by (rule registry_reachable_ok [OF assms(1)])
  obtain d where d: "map_of (rg_entries rg) r = Some d"
    using registry_okD(6) [OF ok, of r] live_guard [OF assms(2,3)] assms(4) by auto
  let ?d = "d\<lparr>bd_guard_alive := False, bd_state := after_drop (bd_state d)\<rparr>"
  have "map_of (rg_entries (fst (drop_guard g rg, remove1 g gs))) r = Some ?d"
    using d assms(3,4) by (simp add: drop_guard_def guard_dropped_def update_conv')
  from run_kept [OF assms(5) drop_ok [OF ok assms(2)] this _ assms(6)] d show ?thesis
    by (auto simp: recoverable_def)
qed

definition ex_json :: "BudgetPricingSnapshot \<Rightarrow> string option" where
  "ex_json _ = Some ''{}''"

definition ex_guard :: BudgetIntentGuard where
  "ex_guard = \<lparr>gd_request_id = ''r1'', gd_completed = False\<rparr>"

definition ex_budget_registry :: ActiveBudgetIntentRegistry where
  "ex_budget_registry = \<lparr>rg_max_entries = 1, rg_entries = [(''r1'', fresh_entry)], rg_active_entries = 1, rg_rejected_entries = 0,
     rg_field_limit_rejections = 0\<rparr>"

lemma ex_registry_reachable: "registry_reachable ex_json (ex_budget_registry, [ex_guard])"
proof -
  let ?rg = "\<lparr>rg_max_entries = 1, rg_entries = [], rg_active_entries = 0, rg_rejected_entries = 0, rg_field_limit_rejections = 0\<rparr>"
  have "registry_reachable ex_json (?rg, [])" by (rule registry_reachable.start [of 1]) (simp add: registry_new_def)
  moreover have "registry_try_reserve ?rg ''r1'' = (Inr ex_guard, ex_budget_registry)"
    by (simp add: registry_try_reserve_eq validate_text_field_def validate_field_size_def registry_limits ex_guard_def ex_budget_registry_def)
  ultimately show ?thesis by (metis registry_reachable.step registry_step.reserved)
qed

theorem registry_memory_is_bounded_witness:
  "sum_list (map (entry_bytes ex_json) (rg_entries ex_budget_registry)) \<le> 8960"
proof -
  have "estimate_active_budget_intent_capacity (rg_max_entries ex_budget_registry) =
      Some \<lparr>ce_max_entries = 1, ce_estimated_bytes_per_entry = 8960, ce_estimated_total_bytes = 8960\<rparr>"
    by (simp add: estimate_active_budget_intent_capacity_def registry_limits ex_budget_registry_def)
  from registry_memory_is_bounded [OF ex_registry_reachable this] show ?thesis by simp
qed

theorem cancelled_request_stays_recoverable_witness:
  "\<exists>d. map_of (rg_entries (drop_guard ex_guard ex_budget_registry)) ''r1'' = Some d \<and>
     bd_state d \<in> {RetryWithFact, NeedsIntentLookup, NeedsSafeZero, NeedsUnresolved}"
proof -
  have "ex_guard \<in> set [ex_guard]" "\<not> gd_completed ex_guard" "''r1'' = gd_request_id ex_guard" by (simp_all add: ex_guard_def)
  from cancelled_request_stays_recoverable [OF ex_registry_reachable this registry_run.nothing] show ?thesis by auto
qed

end
