(* ===== verification/AI_Pricing.thy ===== *)
theory AI_Pricing
  imports Usage_Types Kong_Text
begin

text \<open>
  The price list and the cost of a call (\<open>kong-ai/src/usage/pricing.rs\<close>). Parsing the JSON file, dates
  and hashes belongs to libraries: the model starts from the raw entries, with times as integers; \<open>max_utc\<close>
  is the largest time of the \<open>chrono\<close> crate.
\<close>

section \<open>The price list\<close>

record PriceEntry =
  pe_provider_type :: string
  pe_model_ids :: "string list"
  pe_aliases :: "string list"
  pe_prefixes :: "string list"
  pe_input :: Decimal
  pe_output :: Decimal
  pe_effective_from :: int
  pe_effective_to :: "int option"
  pe_max_prompt_tokens :: "int option"
  pe_source_url :: string

record PriceCatalog =
  pc_schema_version :: u32
  pc_catalog_version :: string
  pc_snapshot_date :: int
  pc_entries :: "PriceEntry list"

record RawPriceEntry =
  rw_provider_type :: string
  rw_model_ids :: "string list"
  rw_aliases :: "string list"
  rw_prefixes :: "string list"
  rw_input_usd_per_million :: string
  rw_output_usd_per_million :: string
  rw_effective_from :: int
  rw_effective_to :: "int option"
  rw_max_prompt_tokens :: "int option"
  rw_source_url :: string

record RawCatalog =
  rc_schema_version :: u32
  rc_catalog_version :: string
  rc_snapshot_date :: string
  rc_entries :: "RawPriceEntry list"

datatype matcher_kind = MatchId | MatchAlias | MatchPrefix

text \<open>The reasons a price list is refused for.\<close>

datatype catalog_error =
    InvalidJson | BadSchemaVersion | EmptyVersion | BadSnapshotDate | NoEntries
  | EmptyProvider | NoMatcher | DynamicAlias string | EmptyPrefix | EmptySource | BadPeriod | BadRate string | NegativeTokens
  | Conflict string matcher_kind matcher_kind string
  | MissingRequired string string | WrongPrice string string | WrongEnd string string | WrongTokens string string
  | MissingAlias string string string | PrefixNotAllowed string string | WrongSource string string
  | SonnetEntries | SonnetSwitch

definition eq_ignore_ascii_case :: "string \<Rightarrow> string \<Rightarrow> bool" where
  "eq_ignore_ascii_case a b = (to_lowercase a = to_lowercase b)"

definition validate_matchers :: "RawPriceEntry \<Rightarrow> catalog_error option" where
  "validate_matchers e =
     (if trim (rw_provider_type e) = [] then Some EmptyProvider
      else if rw_model_ids e = [] \<and> rw_aliases e = [] \<and> rw_prefixes e = [] then Some NoMatcher
      else case List.find (\<lambda>a. CHR ''*'' \<in> set a \<or> eq_ignore_ascii_case a ''latest'' \<or> ends_with a ''-latest'') (rw_aliases e) of
        Some a \<Rightarrow> Some (DynamicAlias a)
      | None \<Rightarrow> if list_ex (\<lambda>p. p = []) (rw_prefixes e) then Some EmptyPrefix else None)"

definition parse_rate :: "decimal_lib \<Rightarrow> string \<Rightarrow> catalog_error + Decimal" where
  "parse_rate dl value =
     (case dl_from_str dl value of
        None \<Rightarrow> Inl (BadRate value)
      | Some parsed \<Rightarrow> if fits_numeric_28_12 parsed then Inr parsed else Inl (BadRate value))"

definition read_entry :: "decimal_lib \<Rightarrow> RawPriceEntry \<Rightarrow> catalog_error + PriceEntry" where
  "read_entry dl e =
     (case validate_matchers e of
        Some err \<Rightarrow> Inl err
      | None \<Rightarrow>
          if trim (rw_source_url e) = [] then Inl EmptySource
          else if (case rw_effective_to e of None \<Rightarrow> False | Some end_time \<Rightarrow> end_time \<le> rw_effective_from e) then Inl BadPeriod
          else
            (case parse_rate dl (rw_input_usd_per_million e) of
               Inl err \<Rightarrow> Inl err
             | Inr inp \<Rightarrow>
                 (case parse_rate dl (rw_output_usd_per_million e) of
                    Inl err \<Rightarrow> Inl err
                  | Inr out \<Rightarrow>
                      if (case rw_max_prompt_tokens e of None \<Rightarrow> False | Some v \<Rightarrow> v < 0) then Inl NegativeTokens
                      else Inr \<lparr>pe_provider_type = rw_provider_type e, pe_model_ids = rw_model_ids e, pe_aliases = rw_aliases e,
                                pe_prefixes = rw_prefixes e, pe_input = inp, pe_output = out,
                                pe_effective_from = rw_effective_from e, pe_effective_to = rw_effective_to e,
                                pe_max_prompt_tokens = rw_max_prompt_tokens e, pe_source_url = rw_source_url e\<rparr>)))"

fun read_entries :: "decimal_lib \<Rightarrow> RawPriceEntry list \<Rightarrow> catalog_error + PriceEntry list" where
  "read_entries dl [] = Inr []"
| "read_entries dl (e # es) =
     (case read_entry dl e of
        Inl err \<Rightarrow> Inl err
      | Inr p \<Rightarrow> (case read_entries dl es of Inl err \<Rightarrow> Inl err | Inr ps \<Rightarrow> Inr (p # ps)))"

definition periods_overlap :: "int \<Rightarrow> PriceEntry \<Rightarrow> PriceEntry \<Rightarrow> bool" where
  "periods_overlap max_utc left right =
     (let end_of = (\<lambda>e. case pe_effective_to e of Some t \<Rightarrow> t | None \<Rightarrow> max_utc)
      in pe_effective_from left < end_of right \<and> pe_effective_from right < end_of left)"

text \<open>All matchers of the list, in order, under the provider and the text they match.\<close>

definition entry_matchers :: "PriceEntry \<Rightarrow> ((string \<times> string) \<times> matcher_kind \<times> PriceEntry) list" where
  "entry_matchers e =
     map (\<lambda>m. ((pe_provider_type e, m), MatchId, e)) (pe_model_ids e) @
     map (\<lambda>m. ((pe_provider_type e, m), MatchAlias, e)) (pe_aliases e) @
     map (\<lambda>m. ((pe_provider_type e, m), MatchPrefix, e)) (pe_prefixes e)"

definition matchers :: "PriceEntry list \<Rightarrow> ((string \<times> string) \<times> matcher_kind \<times> PriceEntry) list" where
  "matchers entries = concat (map entry_matchers entries)"

fun first_overlap :: "int \<Rightarrow> (matcher_kind \<times> PriceEntry) list \<Rightarrow> (matcher_kind \<times> matcher_kind) option" where
  "first_overlap max_utc [] = None"
| "first_overlap max_utc (c # cs) =
     (case List.find (\<lambda>d. periods_overlap max_utc (snd c) (snd d)) cs of
        Some d \<Rightarrow> Some (fst c, fst d)
      | None \<Rightarrow> first_overlap max_utc cs)"

definition cmp_key :: "string \<times> string \<Rightarrow> string \<times> string \<Rightarrow> ordering" where
  "cmp_key a b = then_with (cmp_string (fst a) (fst b)) (cmp_string (snd a) (snd b))"

fun first_conflict :: "int \<Rightarrow> ((string \<times> string) \<times> matcher_kind \<times> PriceEntry) list \<Rightarrow> (string \<times> string) list \<Rightarrow> catalog_error option" where
  "first_conflict max_utc ms [] = None"
| "first_conflict max_utc ms (k # ks) =
     (case first_overlap max_utc (map snd (filter (\<lambda>m. fst m = k) ms)) of
        Some (left_kind, right_kind) \<Rightarrow> Some (Conflict (fst k) left_kind right_kind (snd k))
      | None \<Rightarrow> first_conflict max_utc ms ks)"

definition validate_conflicts :: "int \<Rightarrow> PriceEntry list \<Rightarrow> catalog_error option" where
  "validate_conflicts max_utc entries =
     (let ms = matchers entries in first_conflict max_utc ms (sort_by cmp_key (remdups (map fst ms))))"

section \<open>Required entries\<close>

record RequiredPriceSpec =
  rs_provider_type :: string
  rs_model_id :: string
  rs_aliases :: "string list"
  rs_input :: Decimal
  rs_output :: Decimal
  rs_effective_from :: int
  rs_effective_to :: "int option"
  rs_max_prompt_tokens :: "int option"
  rs_source_url :: string

text \<open>Times in nanoseconds since 1970 UTC: the start of 2026-07-26 and of 2026-09-01. Prices in hundredths of a dollar.\<close>

definition PRICES_FROM :: int where "PRICES_FROM = 1785024000 * 10 ^ 9"
definition SONNET_5_PRICE_SWITCH :: int where "SONNET_5_PRICE_SWITCH = 1788220800 * 10 ^ 9"

definition cents :: "int \<Rightarrow> Decimal" where
  "cents n = \<lparr>dec_mantissa = n * 10 ^ 10, dec_scale = 12\<rparr>"

definition spec :: "string \<Rightarrow> string \<Rightarrow> string list \<Rightarrow> int \<Rightarrow> int \<Rightarrow> int \<Rightarrow> int option \<Rightarrow> int option \<Rightarrow> string \<Rightarrow> RequiredPriceSpec" where
  "spec provider model aliases inp out start_time end_time tokens url =
     \<lparr>rs_provider_type = provider, rs_model_id = model, rs_aliases = aliases, rs_input = cents inp, rs_output = cents out,
      rs_effective_from = start_time, rs_effective_to = end_time, rs_max_prompt_tokens = tokens, rs_source_url = url\<rparr>"

definition REQUIRED_PRICE_SPECS :: "RequiredPriceSpec list" where
  "REQUIRED_PRICE_SPECS =
     (let oa = ''https://developers.openai.com/api/docs/models'';
          an = ''https://platform.claude.com/docs/en/about-claude/pricing'';
          ge = ''https://ai.google.dev/gemini-api/docs/pricing''
      in [spec ''openai'' ''gpt-5.6-sol'' [''gpt-5.6''] 500 3000 PRICES_FROM None (Some 272000) oa,
          spec ''openai'' ''gpt-5.6-terra'' [] 250 1500 PRICES_FROM None (Some 272000) oa,
          spec ''openai'' ''gpt-5.6-luna'' [] 100 600 PRICES_FROM None (Some 272000) oa,
          spec ''anthropic'' ''claude-fable-5'' [] 1000 5000 PRICES_FROM None None an,
          spec ''anthropic'' ''claude-opus-4-8'' [] 500 2500 PRICES_FROM None None an,
          spec ''anthropic'' ''claude-sonnet-5'' [] 200 1000 PRICES_FROM (Some SONNET_5_PRICE_SWITCH) None an,
          spec ''anthropic'' ''claude-sonnet-5'' [] 300 1500 SONNET_5_PRICE_SWITCH None None an,
          spec ''anthropic'' ''claude-haiku-4-5-20251001'' [''claude-haiku-4-5''] 100 500 PRICES_FROM None None an,
          spec ''gemini'' ''gemini-3.6-flash'' [] 150 750 PRICES_FROM None None ge,
          spec ''gemini'' ''gemini-3.5-flash'' [] 150 900 PRICES_FROM None None ge,
          spec ''gemini'' ''gemini-3.5-flash-lite'' [] 30 250 PRICES_FROM None None ge])"

definition validate_required_entry :: "PriceEntry list \<Rightarrow> RequiredPriceSpec \<Rightarrow> catalog_error option" where
  "validate_required_entry entries required =
     (let p = rs_provider_type required; m = rs_model_id required in
      case List.find (\<lambda>e. pe_provider_type e = p \<and> m \<in> set (pe_model_ids e) \<and> pe_effective_from e = rs_effective_from required) entries of
        None \<Rightarrow> Some (MissingRequired p m)
      | Some entry \<Rightarrow>
          if \<not> dec_eq (pe_input entry) (rs_input required) \<or> \<not> dec_eq (pe_output entry) (rs_output required) then Some (WrongPrice p m)
          else if pe_effective_to entry \<noteq> rs_effective_to required then Some (WrongEnd p m)
          else if pe_max_prompt_tokens entry \<noteq> rs_max_prompt_tokens required then Some (WrongTokens p m)
          else case List.find (\<lambda>a. a \<notin> set (pe_aliases entry)) (rs_aliases required) of
            Some a \<Rightarrow> Some (MissingAlias p m a)
          | None \<Rightarrow>
              if pe_prefixes entry \<noteq> [] then Some (PrefixNotAllowed p m)
              else if pe_source_url entry \<noteq> rs_source_url required then Some (WrongSource p m)
              else None)"

fun validate_specs :: "PriceEntry list \<Rightarrow> RequiredPriceSpec list \<Rightarrow> catalog_error option" where
  "validate_specs entries [] = None"
| "validate_specs entries (r # rs) =
     (case validate_required_entry entries r of Some e \<Rightarrow> Some e | None \<Rightarrow> validate_specs entries rs)"

definition validate_required_entries :: "PriceEntry list \<Rightarrow> catalog_error option" where
  "validate_required_entries entries =
     (case validate_specs entries REQUIRED_PRICE_SPECS of
        Some e \<Rightarrow> Some e
      | None \<Rightarrow>
          (case sort_by (\<lambda>a b. cmp (pe_effective_from a) (pe_effective_from b))
                  (filter (\<lambda>e. pe_provider_type e = ''anthropic'' \<and> ''claude-sonnet-5'' \<in> set (pe_model_ids e)) entries) of
             [s0, s1] \<Rightarrow>
               if pe_effective_to s0 \<noteq> Some SONNET_5_PRICE_SWITCH \<or> pe_effective_from s1 \<noteq> SONNET_5_PRICE_SWITCH \<or>
                  pe_effective_to s0 \<noteq> Some (pe_effective_from s1)
               then Some SonnetSwitch else None
           | _ \<Rightarrow> Some SonnetEntries))"

text \<open>\<open>from_json\<close>, after \<open>serde_json\<close> has read the file; \<open>date\<close> parses a date.\<close>

definition catalog_from_raw :: "decimal_lib \<Rightarrow> (string \<Rightarrow> int option) \<Rightarrow> int \<Rightarrow> RawCatalog option \<Rightarrow> catalog_error + PriceCatalog" where
  "catalog_from_raw dl date max_utc json =
     (case json of
        None \<Rightarrow> Inl InvalidJson
      | Some raw \<Rightarrow>
          if rc_schema_version raw \<noteq> 1 then Inl BadSchemaVersion
          else if trim (rc_catalog_version raw) = [] then Inl EmptyVersion
          else case date (rc_snapshot_date raw) of
            None \<Rightarrow> Inl BadSnapshotDate
          | Some snapshot_date \<Rightarrow>
              if rc_entries raw = [] then Inl NoEntries
              else (case read_entries dl (rc_entries raw) of
                Inl err \<Rightarrow> Inl err
              | Inr entries \<Rightarrow>
                  (case validate_conflicts max_utc entries of
                     Some err \<Rightarrow> Inl err
                   | None \<Rightarrow>
                       (case validate_required_entries entries of
                          Some err \<Rightarrow> Inl err
                        | None \<Rightarrow> Inr \<lparr>pc_schema_version = rc_schema_version raw, pc_catalog_version = rc_catalog_version raw,
                                       pc_snapshot_date = snapshot_date, pc_entries = entries\<rparr>))))"

section \<open>Resolving a price\<close>

definition price_active :: "string \<Rightarrow> int \<Rightarrow> PriceEntry \<Rightarrow> bool" where
  "price_active provider_type started_at e =
     (pe_provider_type e = provider_type \<and> pe_effective_from e \<le> started_at \<and>
      (case pe_effective_to e of None \<Rightarrow> True | Some end_time \<Rightarrow> started_at < end_time))"

fun better_prefix :: "string \<Rightarrow> PriceEntry \<Rightarrow> string list \<Rightarrow> (PriceEntry \<times> nat) option \<Rightarrow> (PriceEntry \<times> nat) option" where
  "better_prefix model e [] best = best"
| "better_prefix model e (p # ps) best =
     better_prefix model e ps
       (if starts_with model p \<and> (case best of None \<Rightarrow> True | Some (_, current) \<Rightarrow> current < length p)
        then Some (e, length p) else best)"

definition find_entry :: "PriceCatalog \<Rightarrow> string \<Rightarrow> string \<Rightarrow> int \<Rightarrow> PriceEntry option" where
  "find_entry catalog provider_type model started_at =
     (let active = filter (price_active provider_type started_at) (pc_entries catalog)
      in case List.find (\<lambda>e. model \<in> set (pe_model_ids e)) active of
           Some e \<Rightarrow> Some e
         | None \<Rightarrow>
             (case List.find (\<lambda>e. model \<in> set (pe_aliases e)) active of
                Some e \<Rightarrow> Some e
              | None \<Rightarrow> map_option fst (foldl (\<lambda>best e. better_prefix model e (pe_prefixes e) best) None active)))"

record ModelPriceOverrides =
  mo_input :: "Decimal option"
  mo_output :: "Decimal option"
  mo_input_version :: "string option"
  mo_output_version :: "string option"
  mo_version :: "string option"
  mo_effective_from :: "int option"

record PricingFeatures =
  pf_provider_cache_tokens :: bool
  pf_non_standard_service_tier :: bool
  pf_built_in_tools :: bool
  pf_non_text_modality :: bool
  pf_additional_pricing :: bool

record ResolvedPricing =
  rp_input :: "PriceSnapshot option"
  rp_output :: "PriceSnapshot option"
  rp_status :: PricingStatus
  rp_unsupported_reasons :: "string list"

definition catalog_snapshot :: "PriceCatalog \<Rightarrow> Decimal \<Rightarrow> PriceEntry \<Rightarrow> PriceSnapshot" where
  "catalog_snapshot catalog rate entry =
     \<lparr>ps_usd_per_million = rate, ps_source = ''builtin'', ps_version = pc_catalog_version catalog,
      ps_snapshot_date = pc_snapshot_date catalog, ps_effective_from = pe_effective_from entry, ps_effective_to = pe_effective_to entry\<rparr>"

text \<open>A sorted set of reasons (\<open>BTreeSet\<close>) from the conditions that hold.\<close>

definition reason_set :: "(bool \<times> string) list \<Rightarrow> string list" where
  "reason_set conditions = sort_by cmp_string (remdups (map snd (filter fst conditions)))"

definition override_snapshot :: "(int \<Rightarrow> int) \<Rightarrow> int \<Rightarrow> string \<Rightarrow> Decimal \<Rightarrow> PriceSnapshot" where
  "override_snapshot date_naive effective_from version rate =
     \<lparr>ps_usd_per_million = rate, ps_source = ''model_override'', ps_version = version,
      ps_snapshot_date = date_naive effective_from, ps_effective_from = effective_from, ps_effective_to = None\<rparr>"

definition or_version :: "string option \<Rightarrow> string option \<Rightarrow> string \<Rightarrow> string" where
  "or_version own common fallback = (case own of Some v \<Rightarrow> v | None \<Rightarrow> (case common of Some v \<Rightarrow> v | None \<Rightarrow> fallback))"

definition resolve_snapshot ::
    "(int \<Rightarrow> int) \<Rightarrow> PriceCatalog \<Rightarrow> string \<Rightarrow> string \<Rightarrow> int \<Rightarrow> int option \<Rightarrow> ModelPriceOverrides \<Rightarrow> PricingFeatures \<Rightarrow> ResolvedPricing" where
  "resolve_snapshot date_naive catalog provider_type model started_at prompt_tokens overrides features =
     (let entry = find_entry catalog provider_type model started_at;
          from_time = (case mo_effective_from overrides of Some t \<Rightarrow> t | None \<Rightarrow> started_at);
          own = (\<lambda>rate version fallback.
            map_option (override_snapshot date_naive from_time (or_version version (mo_version overrides) fallback)) rate);
          inp = (case own (mo_input overrides) (mo_input_version overrides) ''model_override:input'' of
                   Some s \<Rightarrow> Some s | None \<Rightarrow> map_option (\<lambda>e. catalog_snapshot catalog (pe_input e) e) entry);
          out = (case own (mo_output overrides) (mo_output_version overrides) ''model_override:output'' of
                   Some s \<Rightarrow> Some s | None \<Rightarrow> map_option (\<lambda>e. catalog_snapshot catalog (pe_output e) e) entry);
          has_full_override = (mo_input overrides \<noteq> None \<and> mo_output overrides \<noteq> None);
          long_context =
            (\<not> has_full_override \<and>
             (case (Option.bind entry pe_max_prompt_tokens, prompt_tokens) of
                (Some maximum, Some actual) \<Rightarrow> maximum < actual | _ \<Rightarrow> False));
          unsupported = reason_set
            [(pf_provider_cache_tokens features, ''provider_cache_pricing''),
             (pf_non_standard_service_tier features, ''service_tier_pricing''),
             (pf_built_in_tools features, ''built_in_tool_pricing''),
             (pf_non_text_modality features, ''non_text_modality_pricing''),
             (pf_additional_pricing features, ''additional_pricing''),
             (long_context, ''long_context_pricing'')]
      in \<lparr>rp_input = inp, rp_output = out,
          rp_status = (if unsupported \<noteq> [] then UnsupportedPricing
                       else if inp \<noteq> None \<and> out \<noteq> None then Matched else Unmatched),
          rp_unsupported_reasons = unsupported\<rparr>)"

definition resolve_price ::
    "(int \<Rightarrow> int) \<Rightarrow> PriceCatalog \<Rightarrow> string \<Rightarrow> string \<Rightarrow> int \<Rightarrow> int option \<Rightarrow> ModelPriceOverrides \<Rightarrow> PricingFeatures \<Rightarrow> bool \<Rightarrow> ResolvedPricing" where
  "resolve_price date_naive catalog provider_type model started_at prompt_tokens overrides features upstream_attempted =
     (if \<not> upstream_attempted
      then \<lparr>rp_input = None, rp_output = None, rp_status = NotApplicable, rp_unsupported_reasons = []\<rparr>
      else resolve_snapshot date_naive catalog provider_type model started_at prompt_tokens overrides features)"

definition max_prompt_tokens :: "PriceCatalog \<Rightarrow> string \<Rightarrow> string \<Rightarrow> int \<Rightarrow> int option" where
  "max_prompt_tokens catalog provider_type model started_at =
     Option.bind (find_entry catalog provider_type model started_at) pe_max_prompt_tokens"

section \<open>The cost of a call\<close>

record CostComputation =
  cc_cost_usd :: "Decimal option"
  cc_status :: CostStatus
  cc_unavailable_reasons :: "string list"

definition cost_arithmetic :: "decimal_lib \<Rightarrow> Decimal \<Rightarrow> Decimal \<Rightarrow> int \<Rightarrow> int \<Rightarrow> Decimal option" where
  "cost_arithmetic dl input_rate output_rate prompt completion =
     (case Option.bind (dl_checked_mul dl (dec_of_int prompt) input_rate)
             (\<lambda>inp. Option.bind (dl_checked_mul dl (dec_of_int completion) output_rate)
               (\<lambda>out. Option.bind (dl_checked_add dl inp out)
                 (\<lambda>total. dl_checked_div dl total (dec_of_int 1000000)))) of
        None \<Rightarrow> None
      | Some value \<Rightarrow> let r = dl_round12 dl value in if fits_numeric_28_12 r then Some r else None)"

definition calculate_cost ::
    "decimal_lib \<Rightarrow> ResolvedPricing \<Rightarrow> TokenField option \<Rightarrow> TokenField option \<Rightarrow> UsageSource \<Rightarrow> bool \<Rightarrow> bool \<Rightarrow> CostComputation" where
  "calculate_cost dl pricing prompt completion usage_source upstream_attempted invalid_provider_usage =
     (if \<not> upstream_attempted
      then \<lparr>cc_cost_usd = Some dec_zero, cc_status = NotIncurred, cc_unavailable_reasons = []\<rparr>
      else
        (let reasons = reason_set
               [(invalid_provider_usage, ''invalid_provider_usage''),
                (rp_input pricing = None, ''unmatched_input_price''),
                (rp_output pricing = None, ''unmatched_output_price''),
                (rp_status pricing = UnsupportedPricing, ''unsupported_pricing''),
                (prompt = None, ''missing_prompt_usage''),
                (completion = None, ''missing_completion_usage'')]
         in if reasons \<noteq> []
            then \<lparr>cc_cost_usd = None, cc_status = CostUnavailable, cc_unavailable_reasons = reasons\<rparr>
            else
              (case cost_arithmetic dl (ps_usd_per_million (the (rp_input pricing))) (ps_usd_per_million (the (rp_output pricing)))
                      (tf_value (the prompt)) (tf_value (the completion)) of
                 None \<Rightarrow> \<lparr>cc_cost_usd = None, cc_status = CostUnavailable, cc_unavailable_reasons = [''arithmetic_overflow'']\<rparr>
               | Some cost \<Rightarrow>
                   \<lparr>cc_cost_usd = Some cost, cc_status = (if usage_source = ProviderUsage then Calculated else Estimated),
                    cc_unavailable_reasons = []\<rparr>)))"

end
