(* ===== verification/AI_Policy.thy ===== *)
theory AI_Policy
  imports Dispatch_Hooks RL_Types Kong_Text
begin

text \<open>
  The policy of an AI request, read once from its plugin chain (\<open>kong-ai/src/enforcement/policy.rs\<close>, with
  the protocol choice of \<open>plugins/ai_proxy.rs\<close>), and the answers of the enforcement layer
  (\<open>enforcement/response.rs\<close>): error bodies in the client's protocol and the quota headers. How the
  configuration of \<open>ai-proxy\<close> is read from JSON (\<open>serde\<close>) is the parameter \<open>read_proxy\<close>, how a JSON value
  is printed the parameter \<open>print\<close>.
\<close>

section \<open>The policy snapshot\<close>

datatype AiRateLimitMode = GlobalMode | RouteMode | ConsumerMode | VirtualKeyMode

definition parse_rate_limit_mode :: "string \<Rightarrow> AiRateLimitMode option" where
  "parse_rate_limit_mode s =
     (if s = ''global'' then Some GlobalMode else if s = ''route'' then Some RouteMode
      else if s = ''consumer'' then Some ConsumerMode else if s = ''virtual_key'' then Some VirtualKeyMode else None)"

datatype AiClientProtocol = ProtoOpenAi | ProtoAnthropic

definition parse_client_protocol :: "string \<Rightarrow> AiClientProtocol option" where
  "parse_client_protocol s =
     (if s = ''openai'' then Some ProtoOpenAi else if s = ''anthropic'' then Some ProtoAnthropic else None)"

datatype AiPolicyConfigErrorCode = InvalidRateLimitMode | InvalidAiProxyConfig | InvalidClientProtocol | MissingAiProxy

record AiPolicyConfigError =
  pce_plugin_name :: string
  pce_code :: AiPolicyConfigErrorCode

record AiPolicyChainSnapshot =
  pol_has_ai_key_auth :: bool
  pol_has_ai_proxy :: bool
  pol_rate_limit_mode :: "AiRateLimitMode option"
  pol_client_protocol :: "AiClientProtocol option"
  pol_config_error :: "AiPolicyConfigError option"

definition policy_default :: AiPolicyChainSnapshot where
  "policy_default = \<lparr>pol_has_ai_key_auth = False, pol_has_ai_proxy = False, pol_rate_limit_mode = None, pol_client_protocol = None, pol_config_error = None\<rparr>"

text \<open>The two fields of the configuration of \<open>ai-proxy\<close> that fix the protocol.\<close>

record AiProxyConfig =
  ap_client_protocol :: string
  ap_llm_format :: "string option"

definition effective_client_protocol :: "AiProxyConfig \<Rightarrow> string" where
  "effective_client_protocol c =
     (if ap_client_protocol c \<noteq> ''openai'' then ap_client_protocol c
      else case ap_llm_format c of Some fmt \<Rightarrow> fmt | None \<Rightarrow> ap_client_protocol c)"

definition note_config_error :: "string \<Rightarrow> AiPolicyConfigErrorCode \<Rightarrow> AiPolicyChainSnapshot \<Rightarrow> AiPolicyChainSnapshot" where
  "note_config_error plugin code s =
     (case pol_config_error s of
        Some _ \<Rightarrow> s
      | None \<Rightarrow> s\<lparr>pol_config_error := Some \<lparr>pce_plugin_name = plugin, pce_code = code\<rparr>\<rparr>)"

definition json_field :: "string \<Rightarrow> Value \<Rightarrow> Value option" where
  "json_field key v = (case v of JObject m \<Rightarrow> map_of m key | _ \<Rightarrow> None)"

definition as_str :: "Value \<Rightarrow> string option" where
  "as_str v = (case v of JString s \<Rightarrow> Some s | _ \<Rightarrow> None)"

definition snapshot_plugin :: "(Value \<Rightarrow> AiProxyConfig option) \<Rightarrow> AiPolicyChainSnapshot \<Rightarrow> PluginConfig \<Rightarrow> AiPolicyChainSnapshot" where
  "snapshot_plugin read_proxy s c =
     (if pc_name c = ''ai-key-auth'' then s\<lparr>pol_has_ai_key_auth := True\<rparr>
      else if pc_name c = ''ai-proxy'' then
        (let s1 = s\<lparr>pol_has_ai_proxy := True\<rparr>
         in case read_proxy (pc_config c) of
              None \<Rightarrow> note_config_error ''ai-proxy'' InvalidAiProxyConfig s1
            | Some cfg \<Rightarrow>
                (let p = parse_client_protocol (effective_client_protocol cfg);
                     s2 = s1\<lparr>pol_client_protocol := p\<rparr>
                 in if p = None then note_config_error ''ai-proxy'' InvalidClientProtocol s2 else s2))
      else if pc_name c = ''ai-rate-limit'' then
        (let limit_by = (case Option.bind (json_field ''limit_by'' (pc_config c)) as_str of Some v \<Rightarrow> v | None \<Rightarrow> ''consumer'');
             m = parse_rate_limit_mode limit_by;
             s1 = s\<lparr>pol_rate_limit_mode := m\<rparr>
         in if m = None then note_config_error ''ai-rate-limit'' InvalidRateLimitMode s1 else s1)
      else s)"

definition build_policy_snapshot :: "(Value \<Rightarrow> AiProxyConfig option) \<Rightarrow> 'x ResolvedPlugin list \<Rightarrow> AiPolicyChainSnapshot" where
  "build_policy_snapshot read_proxy plugins =
     (let s = foldl (snapshot_plugin read_proxy) policy_default (map rp_config plugins)
      in if pol_rate_limit_mode s = Some VirtualKeyMode \<and> \<not> pol_has_ai_proxy s
         then note_config_error ''ai-rate-limit'' MissingAiProxy s else s)"

text \<open>The observer's warnings: each configuration and plugin version is named once.\<close>

definition should_warn_deprecated_header_name ::
    "('x ResolvedPlugin \<Rightarrow> string) \<Rightarrow> (uuid \<times> string) list \<Rightarrow> 'x ResolvedPlugin \<Rightarrow> bool \<times> (uuid \<times> string) list" where
  "should_warn_deprecated_header_name version warned plugin =
     (if pc_name (rp_config plugin) \<noteq> ''ai-rate-limit'' \<or> json_field ''header_name'' (pc_config (rp_config plugin)) = None
      then (False, warned)
      else
        (let key = (rp_plugin_id plugin, version plugin)
         in if key \<in> set warned then (False, warned) else (True, key # warned)))"

fun warn_deprecated_config ::
    "('x ResolvedPlugin \<Rightarrow> string) \<Rightarrow> (uuid \<times> string) list \<Rightarrow> 'x ResolvedPlugin list \<Rightarrow> (uuid \<times> string) list \<times> (uuid \<times> string) list" where
  "warn_deprecated_config version warned [] = ([], warned)"
| "warn_deprecated_config version warned (p # ps) =
     (case should_warn_deprecated_header_name version warned p of
        (now, warned1) \<Rightarrow>
          (case warn_deprecated_config version warned1 ps of
             (ws, warned2) \<Rightarrow> ((if now then [(rp_plugin_id p, version p)] else []) @ ws, warned2)))"

fun failure_format :: "AiClientProtocol \<Rightarrow> DispatchFailureResponseFormat" where
  "failure_format ProtoOpenAi = OpenAi"
| "failure_format ProtoAnthropic = Anthropic"

text \<open>The part of \<open>on_plugins_resolved\<close> that the request keeps.\<close>

definition on_plugins_resolved ::
    "(Value \<Rightarrow> AiProxyConfig option) \<Rightarrow> 'x ResolvedPlugin list \<Rightarrow> 'x RequestCtx \<Rightarrow> AiPolicyChainSnapshot \<times> 'x RequestCtx" where
  "on_plugins_resolved read_proxy plugins ctx =
     (let s = build_policy_snapshot read_proxy plugins
      in (s, case pol_client_protocol s of None \<Rightarrow> ctx | Some p \<Rightarrow> ctx\<lparr>rq_failure_format := Some (failure_format p)\<rparr>))"

section \<open>Answers\<close>

definition QUOTA_HEADERS :: "string list" where
  "QUOTA_HEADERS =
     [''x-ratelimit-limit-requests'', ''x-ratelimit-remaining-requests'', ''x-ratelimit-reset-requests'',
      ''x-ratelimit-limit-tokens'', ''x-ratelimit-remaining-tokens'', ''x-ratelimit-reset-tokens'', ''retry-after'']"

datatype QuotaHeaderMode = AllowedHeaders | RejectedHeaders ExceededDimension

definition protocol_error_body :: "AiClientProtocol \<Rightarrow> string \<Rightarrow> u16 \<Rightarrow> string \<Rightarrow> string \<Rightarrow> Value" where
  "protocol_error_body protocol request_id status code message =
     (let error_type =
            (if status = 401 then ''invalid_request_error'' else if status = 403 then ''insufficient_quota''
             else if status = 429 then ''rate_limit_error'' else if 500 \<le> status \<and> status \<le> 599 then ''server_error'' else ''gateway_error'')
      in case protocol of
           ProtoOpenAi \<Rightarrow>
             JObject [(''error'', JObject [(''code'', JString code), (''message'', JString message), (''param'', JNull), (''type'', JString error_type)])]
         | ProtoAnthropic \<Rightarrow>
             JObject [(''error'', JObject [(''message'', JString message), (''type'', JString code)]), (''request_id'', JString request_id),
               (''type'', JString ''error'')])"

definition reject_with_protocol_error ::
    "(Value \<Rightarrow> string) \<Rightarrow> AiClientProtocol \<Rightarrow> u16 \<Rightarrow> string \<Rightarrow> string \<Rightarrow> 'x RequestCtx \<Rightarrow> 'x RequestCtx" where
  "reject_with_protocol_error print protocol status code message ctx =
     ctx\<lparr>rq_short_circuited := True, rq_exit_status := Some status,
         rq_exit_body := Some (print (protocol_error_body protocol (lc_request_id (rq_lifecycle ctx)) status code message))\<rparr>"

definition same_header :: "string \<Rightarrow> string \<Rightarrow> bool" where
  "same_header a b = (to_lowercase a = to_lowercase b)"

definition quota_header :: "string \<Rightarrow> bool" where
  "quota_header name = list_ex (same_header name) QUOTA_HEADERS"

definition clear_quota_headers :: "'x RequestCtx \<Rightarrow> 'x RequestCtx" where
  "clear_quota_headers ctx =
     (let removed = foldl (\<lambda>rs name. if list_ex (\<lambda>v. same_header v name) rs then rs else rs @ [name])
            (rq_response_headers_to_remove ctx) QUOTA_HEADERS
      in ctx\<lparr>rq_response_headers_to_set := filter (\<lambda>h. \<not> quota_header (fst h)) (rq_response_headers_to_set ctx),
             rq_response_headers_to_remove := removed\<rparr>)"

definition upsert_header :: "string \<Rightarrow> string \<Rightarrow> 'x RequestCtx \<Rightarrow> 'x RequestCtx" where
  "upsert_header name value ctx =
     ctx\<lparr>rq_response_headers_to_set := filter (\<lambda>h. \<not> same_header (fst h) name) (rq_response_headers_to_set ctx) @ [(name, value)]\<rparr>"

text \<open>Whole seconds, rounded up from milliseconds, at least one.\<close>

definition reset_seconds :: "duration \<Rightarrow> nat" where
  "reset_seconds d = min (max ((d div 1000000 + 999) div 1000) 1) (2 ^ 64 - 1)"

definition u64_string :: "u64 \<Rightarrow> string" where
  "u64_string n = nat_to_string (unat n)"

definition dimension_headers :: "string \<Rightarrow> string \<Rightarrow> DimensionSnapshot option \<Rightarrow> (string \<times> string) list" where
  "dimension_headers dim reset d =
     (case d of
        None \<Rightarrow> []
      | Some v \<Rightarrow> [(''X-RateLimit-Limit-'' @ dim, u64_string (ds_limit v)), (''X-RateLimit-Remaining-'' @ dim, u64_string (ds_remaining v)),
                  (''X-RateLimit-Reset-'' @ dim, reset)])"

definition retry_after_headers :: "RateLimitSnapshot \<Rightarrow> QuotaHeaderMode \<Rightarrow> string \<Rightarrow> (string \<times> string) list" where
  "retry_after_headers snapshot mode reset =
     (case mode of
        AllowedHeaders \<Rightarrow> []
      | RejectedHeaders reason \<Rightarrow>
          (case reason of
             Requests \<Rightarrow> if sn_requests snapshot \<noteq> None then [(''Retry-After'', reset)] else []
           | Tokens \<Rightarrow> if sn_tokens snapshot \<noteq> None then [(''Retry-After'', reset)] else []
           | RequestsAndTokens \<Rightarrow>
               if sn_requests snapshot \<noteq> None \<or> sn_tokens snapshot \<noteq> None then [(''Retry-After'', reset)] else []))"

definition apply_quota_headers :: "RateLimitSnapshot \<Rightarrow> QuotaHeaderMode \<Rightarrow> 'x RequestCtx \<Rightarrow> 'x RequestCtx" where
  "apply_quota_headers snapshot mode ctx =
     (let ctx1 = clear_quota_headers ctx;
          ctx2 = ctx1\<lparr>rq_response_headers_to_remove := filter (\<lambda>n. \<not> quota_header n) (rq_response_headers_to_remove ctx1)\<rparr>;
          reset = nat_to_string (reset_seconds (wn_reset_after (sn_window snapshot)))
      in foldl (\<lambda>c h. upsert_header (fst h) (snd h) c) ctx2
           (dimension_headers ''Requests'' reset (sn_requests snapshot) @ dimension_headers ''Tokens'' reset (sn_tokens snapshot) @
            retry_after_headers snapshot mode reset))"

section \<open>Properties\<close>

text \<open>The enforcement layer and the dispatch gate write the same error bodies.\<close>

lemma same_error_body:
  "protocol_error_body protocol request_id status code message =
   dispatch_failure_body (failure_format protocol) request_id \<lparr>fr_status = status, fr_code = code, fr_message = message\<rparr>"
  by (cases protocol) (simp_all add: protocol_error_body_def dispatch_failure_body_def dispatch_error_type_def Let_def)

lemma quota_header_case: "same_header a b \<Longrightarrow> quota_header a = quota_header b"
  by (simp add: quota_header_def same_header_def list_ex_iff)

lemma upsert_all:
  assumes "distinct (map (\<lambda>h. to_lowercase (fst h)) hs)"
    and "\<forall>h \<in> set hs. \<forall>k \<in> set (rq_response_headers_to_set ctx). \<not> same_header (fst k) (fst h)"
  shows "foldl (\<lambda>c h. upsert_header (fst h) (snd h) c) ctx hs =
    ctx\<lparr>rq_response_headers_to_set := rq_response_headers_to_set ctx @ hs\<rparr>"
  using assms
proof (induction hs arbitrary: ctx)
  case (Cons h hs)
  have "filter (\<lambda>k. \<not> same_header (fst k) (fst h)) (rq_response_headers_to_set ctx) = rq_response_headers_to_set ctx"
    using Cons.prems(2) by (simp add: filter_id_conv)
  then have u: "upsert_header (fst h) (snd h) ctx = ctx\<lparr>rq_response_headers_to_set := rq_response_headers_to_set ctx @ [h]\<rparr>"
    by (simp add: upsert_header_def)
  have "\<not> same_header (fst h) (fst k)" if "k \<in> set hs" for k
    using Cons.prems(1) that by (auto simp: same_header_def rev_image_eqI)
  then show ?case using Cons.IH [of "upsert_header (fst h) (snd h) ctx"] Cons.prems u by auto
qed simp

lemma lower_names:
  "to_lowercase ''X-RateLimit-Limit-Requests'' = ''x-ratelimit-limit-requests''"
  "to_lowercase ''X-RateLimit-Remaining-Requests'' = ''x-ratelimit-remaining-requests''"
  "to_lowercase ''X-RateLimit-Reset-Requests'' = ''x-ratelimit-reset-requests''"
  "to_lowercase ''X-RateLimit-Limit-Tokens'' = ''x-ratelimit-limit-tokens''"
  "to_lowercase ''X-RateLimit-Remaining-Tokens'' = ''x-ratelimit-remaining-tokens''"
  "to_lowercase ''X-RateLimit-Reset-Tokens'' = ''x-ratelimit-reset-tokens''"
  "to_lowercase ''Retry-After'' = ''retry-after''"
  by code_simp+

lemma quota_header_lower: "to_lowercase n \<in> set QUOTA_HEADERS \<Longrightarrow> quota_header n"
  unfolding quota_header_def same_header_def list_ex_iff by (rule bexI [of _ "to_lowercase n"]) simp_all

lemma snapshot_headers:
  "\<forall>h \<in> set (dimension_headers ''Requests'' r q @ dimension_headers ''Tokens'' r t @ retry_after_headers sn mode r). quota_header (fst h)"
  "distinct (map (\<lambda>h. to_lowercase (fst h)) (dimension_headers ''Requests'' r q @ dimension_headers ''Tokens'' r t @ retry_after_headers sn mode r))"
proof -
  have ra: "retry_after_headers sn mode r = [] \<or> retry_after_headers sn mode r = [(''Retry-After'', r)]"
    by (auto simp: retry_after_headers_def split: QuotaHeaderMode.splits ExceededDimension.splits)
  show "\<forall>h \<in> set (dimension_headers ''Requests'' r q @ dimension_headers ''Tokens'' r t @ retry_after_headers sn mode r). quota_header (fst h)"
    using ra by (auto simp: dimension_headers_def lower_names QUOTA_HEADERS_def intro!: quota_header_lower split: option.splits)
  show "distinct (map (\<lambda>h. to_lowercase (fst h)) (dimension_headers ''Requests'' r q @ dimension_headers ''Tokens'' r t @ retry_after_headers sn mode r))"
    using ra by (auto simp: dimension_headers_def lower_names split: option.splits)
qed

text \<open>
  The quota headers of an answer are those of one snapshot of the store: whatever the response
  carried before, it then has limit, remaining and reset of each limited dimension exactly once, a retry
  time exactly if the refused dimension is limited, no stale quota header in any spelling and no order
  to remove one; all other headers are untouched. The time to wait is at least a second and never
  less than the time until the window resets.
\<close>

theorem quota_headers_are_snapshot:
  "rq_response_headers_to_set (apply_quota_headers snapshot mode ctx) =
     filter (\<lambda>h. \<not> quota_header (fst h)) (rq_response_headers_to_set ctx) @
     (let reset = nat_to_string (reset_seconds (wn_reset_after (sn_window snapshot)))
      in dimension_headers ''Requests'' reset (sn_requests snapshot) @ dimension_headers ''Tokens'' reset (sn_tokens snapshot) @
         retry_after_headers snapshot mode reset) \<and>
   rq_response_headers_to_remove (apply_quota_headers snapshot mode ctx) =
     filter (\<lambda>n. \<not> quota_header n) (rq_response_headers_to_remove ctx) \<and>
   (1 \<le> reset_seconds d \<and> (d \<le> (2 ^ 64 - 1) * 10 ^ 9 \<longrightarrow> d div 1000000 \<le> reset_seconds d * 1000))"
proof -
  let ?r = "nat_to_string (reset_seconds (wn_reset_after (sn_window snapshot)))"
  let ?hs = "dimension_headers ''Requests'' ?r (sn_requests snapshot) @ dimension_headers ''Tokens'' ?r (sn_tokens snapshot) @
         retry_after_headers snapshot mode ?r"
  let ?c = "(clear_quota_headers ctx)\<lparr>rq_response_headers_to_remove :=
    filter (\<lambda>n. \<not> quota_header n) (rq_response_headers_to_remove (clear_quota_headers ctx))\<rparr>"
  have "\<forall>h \<in> set ?hs. \<forall>k \<in> set (rq_response_headers_to_set ?c). \<not> same_header (fst k) (fst h)"
    using snapshot_headers(1) quota_header_case by (fastforce simp: clear_quota_headers_def Let_def)
  then have f: "apply_quota_headers snapshot mode ctx = ?c\<lparr>rq_response_headers_to_set := rq_response_headers_to_set ?c @ ?hs\<rparr>"
    unfolding apply_quota_headers_def Let_def by (rule upsert_all [OF snapshot_headers(2)])
  have "filter (\<lambda>n. \<not> quota_header n) (foldl (\<lambda>rs name. if list_ex (\<lambda>v. same_header v name) rs then rs else rs @ [name]) rs ns) =
      filter (\<lambda>n. \<not> quota_header n) rs" if "\<forall>n \<in> set ns. quota_header n" for rs ns
    using that by (induction ns arbitrary: rs) auto
  moreover have "\<forall>n \<in> set QUOTA_HEADERS. quota_header n" by (auto simp: quota_header_def list_ex_iff same_header_def)
  ultimately have "rq_response_headers_to_remove ?c = filter (\<lambda>n. \<not> quota_header n) (rq_response_headers_to_remove ctx)"
    by (simp add: clear_quota_headers_def Let_def)
  moreover have "d \<le> (2 ^ 64 - 1) * 10 ^ 9 \<Longrightarrow> d div 1000000 \<le> reset_seconds d * 1000"
    unfolding reset_seconds_def by simp
  moreover have "1 \<le> reset_seconds d" by (simp add: reset_seconds_def)
  ultimately show ?thesis unfolding f by (simp add: clear_quota_headers_def Let_def)
qed

definition ex_window_snapshot :: WindowSnapshot where
  "ex_window_snapshot = \<lparr>wn_identity = None, wn_algorithm = FixedFirstHit, wn_duration = from_secs 60, wn_started_at = 0, wn_reset_at = 60,
     wn_reset_after = 1500000000\<rparr>"

theorem quota_headers_are_snapshot_witness:
  "1500 \<le> reset_seconds 1500000000 * 1000"
proof -
  have "(1500000000 :: nat) \<le> (2 ^ 64 - 1) * 10 ^ 9" by simp
  then show ?thesis
    using quota_headers_are_snapshot [of "\<lparr>sn_window = ex_window_snapshot, sn_requests = None, sn_tokens = None\<rparr>" AllowedHeaders
        "request_ctx_new (lifecycle_new ''r1'' 0 0) ()" 1500000000] by simp
qed

text \<open>The chain's protocol is that of its \<open>ai-proxy\<close>, and a configuration error is the first one found.\<close>

lemma snapshot_plugin_error: "pol_config_error s \<noteq> None \<Longrightarrow> pol_config_error (snapshot_plugin rp s c) = pol_config_error s"
  by (auto simp: snapshot_plugin_def note_config_error_def Let_def split: option.splits)

lemma first_config_error_stays:
  "pol_config_error s \<noteq> None \<Longrightarrow> pol_config_error (foldl (snapshot_plugin rp) s cs) = pol_config_error s"
proof (induction cs arbitrary: s)
  case (Cons c cs)
  from Cons.IH [of "snapshot_plugin rp s c"] Cons.prems show ?case by (simp add: snapshot_plugin_error)
qed simp

text \<open>A configuration is reported as deprecated at most once.\<close>

lemma warned_once:
  assumes "warn_deprecated_config version warned ps = (ws, warned')"
  shows "distinct ws \<and> set ws \<inter> set warned = {} \<and> set warned' = set warned \<union> set ws"
  using assms
proof (induction ps arbitrary: warned ws warned')
  case (Cons p ps)
  obtain now warned1 where w: "should_warn_deprecated_header_name version warned p = (now, warned1)" by (metis surj_pair)
  obtain ws1 warned2 where r: "warn_deprecated_config version warned1 ps = (ws1, warned2)" by (metis surj_pair)
  from Cons.IH [OF r] Cons.prems w r show ?case
    by (auto simp: should_warn_deprecated_header_name_def Let_def split: if_splits)
qed simp

end
