(* ===== verification/Budget_Enforcement.thy ===== *)
theory Budget_Enforcement
  imports Budget_Registry AI_Pricing AI_Policy
begin

text \<open>
  The budget of a virtual key around one request (\<open>kong-ai/src/enforcement/budget.rs\<close>): the inspection before the
  quota, the dispatch hook that creates an intent and commits the dispatch, the compensation of a
  refused dispatch, the settlement at the end, and the recovery of requests that were cut off.

  The authoritative ledger is behind the trait \<open>BudgetStore\<close>; it is the parameter \<open>budget_store\<close>. A call of
  it may not come back to the caller (its task is cut off by a timeout or cancelled), then it answers
  \<open>None\<close>; it may have taken effect all the same. \<open>budget_env\<close> has the ledger, the price list and what comes
  from libraries: JSON, hashing, decimals, the calendar and the texts of errors. Counting for telemetry
  is left out. The registry and the ledger are shared; they are carried in the extensions of the request
  with the data the request keeps there, so that hooks, compensators and finalizers have the types the
  proxy runs them with.
\<close>

section \<open>The ledger\<close>

datatype BudgetErrorKind =
    Exhausted | AccountingUnavailable | AccountingUnresolved | BudgetUnsupported | PricingUnavailable | BudgetOutcomeUnknown
  | BudgetCorrupt | NumericOverflow | BudgetNotFound | BudgetConflict | ReconciliationRequired | IntentActive
  | AlreadyReconciled | AccountBusy

record BudgetStoreError =
  bse_kind :: BudgetErrorKind
  bse_message :: string

datatype BudgetEligibility = Eligible | PausedBudget | ExhaustedBudget

datatype BudgetIntentState = IntentPrepared | IntentDispatching | IntentUnresolved | IntentSettled | IntentResolved

record BudgetIntentRecord =
  ir_id :: uuid
  ir_request_id :: string
  ir_state :: BudgetIntentState

datatype BudgetIntentDisposition = Created | CreateReplayed | PausedIntent | DispatchApplied | DispatchReplayed

record BudgetIntent =
  bi_disposition :: BudgetIntentDisposition
  bi_record :: "BudgetIntentRecord option"

record LookupBudgetIntent =
  lk_intent_id :: uuid
  lk_virtual_key_id :: uuid
  lk_request_id :: string
  lk_operation_id :: string
  lk_command_fingerprint :: string
  lk_pricing_fingerprint :: string
  lk_node_id :: uuid
  lk_owner_session_id :: uuid

definition lookup_of :: "CreateBudgetIntent \<Rightarrow> LookupBudgetIntent" where
  "lookup_of c =
     \<lparr>lk_intent_id = cb_intent_id c, lk_virtual_key_id = cb_virtual_key_id c, lk_request_id = cb_request_id c,
      lk_operation_id = cb_operation_id c, lk_command_fingerprint = cb_command_fingerprint c,
      lk_pricing_fingerprint = cb_pricing_fingerprint c, lk_node_id = cb_node_id c, lk_owner_session_id = cb_owner_session_id c\<rparr>"

record MarkBudgetDispatching =
  md_intent_id :: uuid
  md_virtual_key_id :: uuid
  md_request_id :: string
  md_operation_id :: string
  md_node_id :: uuid
  md_owner_session_id :: uuid

datatype BudgetSettlementDisposition = SettlementApplied | SettlementReplayed | MarkedUnresolved | AlreadyUnresolved | ReconciledBefore

type_synonym 'a store_answer = "(BudgetStoreError + 'a) option"

record 's budget_store =
  bs_inspect :: "uuid \<Rightarrow> 's \<Rightarrow> BudgetEligibility store_answer \<times> 's"
  bs_create_intent :: "CreateBudgetIntent \<Rightarrow> 's \<Rightarrow> BudgetIntent store_answer \<times> 's"
  bs_lookup_intent :: "LookupBudgetIntent \<Rightarrow> 's \<Rightarrow> BudgetIntentRecord option store_answer \<times> 's"
  bs_mark_dispatching :: "MarkBudgetDispatching \<Rightarrow> 's \<Rightarrow> BudgetIntent store_answer \<times> 's"
  bs_settle :: "SettleBudgetIntent \<Rightarrow> 's \<Rightarrow> BudgetSettlementDisposition store_answer \<times> 's"

section \<open>The request\<close>

datatype BudgetRequestState =
    InspectedEligible | RequestPreparing | RequestPrepared | RequestCommitPending | RequestDispatching | RequestPaused
  | RetryRequired | RequestSettled

record AiBudgetRequestContext =
  br_virtual_key_id :: uuid
  br_protocol :: AiClientProtocol
  br_state :: BudgetRequestState
  br_intent_id :: "uuid option"
  br_pricing_fingerprint :: "string option"
  br_create_command :: "CreateBudgetIntent option"
  br_settlement_command :: "SettleBudgetIntent option"
  br_guard :: "BudgetIntentGuard option"

definition inspected :: "uuid \<Rightarrow> AiClientProtocol \<Rightarrow> AiBudgetRequestContext" where
  "inspected virtual_key_id protocol =
     \<lparr>br_virtual_key_id = virtual_key_id, br_protocol = protocol, br_state = InspectedEligible, br_intent_id = None,
      br_pricing_fingerprint = None, br_create_command = None, br_settlement_command = None, br_guard = None\<rparr>"

text \<open>The model that was chosen, with what pricing reads of it, and the usage context.\<close>

record AiModelPrices =
  am_id :: uuid
  am_model_name :: string
  am_input_cost :: "Decimal option"
  am_output_cost :: "Decimal option"
  am_created_at :: "int option"
  am_updated_at :: "int option"

record AiRequestState =
  ms_provider_type :: string
  ms_model :: AiModelPrices
  ms_estimated_prompt_tokens :: u64

record AiUsageContext =
  uc_pricing_features :: PricingFeatures
  uc_frozen_pricing :: "FrozenPricingSnapshot option"
  uc_finalized :: bool

record 's budget_ext =
  bx_registry :: ActiveBudgetIntentRegistry
  bx_store :: 's
  bx_request :: "AiBudgetRequestContext option"
  bx_model :: "AiRequestState option"
  bx_usage :: "AiUsageContext option"
  bx_fact :: "AiUsageFact option"

type_synonym 's budget_ctx = "'s budget_ext RequestCtx"

record 's budget_env =
  en_store :: "'s budget_store"
  en_catalog :: PriceCatalog
  en_node_id :: uuid
  en_owner_session_id :: uuid
  en_stale_after :: duration
  en_decimal :: decimal_lib
  en_print :: "Value \<Rightarrow> string"
  en_json :: "BudgetPricingSnapshot \<Rightarrow> string option"
  en_sha256_hex :: "string \<Rightarrow> string"
  en_uuid :: "uuid \<Rightarrow> string"
  en_rate12 :: "Decimal \<Rightarrow> string"
  en_date_naive :: "int \<Rightarrow> int"
  en_timestamp :: "int \<Rightarrow> int option"
  en_timestamp_millis :: "int \<Rightarrow> string"
  en_show_registry :: "BudgetIntentRegistryError \<Rightarrow> string"
  en_show_store :: "BudgetStoreError \<Rightarrow> string"

text \<open>How a piece of a hook ends: it goes on, it fails, it panics, or it never comes back from a call.\<close>

datatype 'a ran = Done 'a | Fail LifecycleHookError | Crash | Cut

fun hook_result :: "unit ran \<Rightarrow> hook_outcome" where
  "hook_result (Done _) = HookOk"
| "hook_result (Fail e) = HookErr e"
| "hook_result Crash = HookPanic"
| "hook_result Cut = HookTimeout"

definition then_run :: "'a ran \<times> 'c \<Rightarrow> ('a \<Rightarrow> 'c \<Rightarrow> 'b ran \<times> 'c) \<Rightarrow> 'b ran \<times> 'c" where
  "then_run r k =
     (case r of (Done x, c) \<Rightarrow> k x c | (Fail e, c) \<Rightarrow> (Fail e, c) | (Crash, c) \<Rightarrow> (Crash, c) | (Cut, c) \<Rightarrow> (Cut, c))"

definition hook_error :: "string \<Rightarrow> string \<Rightarrow> LifecycleHookError" where
  "hook_error code message = \<lparr>he_code = code, he_message = message\<rparr>"

definition ext :: "('s budget_ext \<Rightarrow> 's budget_ext) \<Rightarrow> 's budget_ctx \<Rightarrow> 's budget_ctx" where
  "ext f ctx = ctx\<lparr>rq_extensions := f (rq_extensions ctx)\<rparr>"

definition with_request :: "(AiBudgetRequestContext \<Rightarrow> AiBudgetRequestContext) \<Rightarrow> 's budget_ctx \<Rightarrow> 's budget_ctx" where
  "with_request f = ext (\<lambda>x. x\<lparr>bx_request := map_option f (bx_request x)\<rparr>)"

definition set_registry :: "ActiveBudgetIntentRegistry \<Rightarrow> 's budget_ctx \<Rightarrow> 's budget_ctx" where
  "set_registry rg = ext (\<lambda>x. x\<lparr>bx_registry := rg\<rparr>)"

definition set_store :: "'s \<Rightarrow> 's budget_ctx \<Rightarrow> 's budget_ctx" where
  "set_store s = ext (\<lambda>x. x\<lparr>bx_store := s\<rparr>)"

abbreviation request_of :: "'s budget_ctx \<Rightarrow> AiBudgetRequestContext option" where
  "request_of ctx \<equiv> bx_request (rq_extensions ctx)"

abbreviation registry_of :: "'s budget_ctx \<Rightarrow> ActiveBudgetIntentRegistry" where
  "registry_of ctx \<equiv> bx_registry (rq_extensions ctx)"

abbreviation store_of :: "'s budget_ctx \<Rightarrow> 's" where
  "store_of ctx \<equiv> bx_store (rq_extensions ctx)"

abbreviation id_of :: "'s budget_ctx \<Rightarrow> string" where
  "id_of ctx \<equiv> lc_request_id (rq_lifecycle ctx)"

section \<open>Errors\<close>

datatype BudgetRuntimeUnavailable = DbLessMode | HybridMode | RuntimeUnavailable | OwnerFenced

fun budget_runtime_error :: "BudgetRuntimeUnavailable \<Rightarrow> string \<times> string" where
  "budget_runtime_error DbLessMode = (''budget_accounting_unsupported'', ''Budget accounting is not supported in this deployment mode.'')"
| "budget_runtime_error HybridMode = (''budget_accounting_unsupported'', ''Budget accounting is not supported in this deployment mode.'')"
| "budget_runtime_error RuntimeUnavailable = (''budget_accounting_unavailable'', ''Budget accounting is temporarily unavailable.'')"
| "budget_runtime_error OwnerFenced = (''budget_accounting_unavailable'', ''Budget accounting is temporarily unavailable.'')"

definition unresolved_kinds :: "BudgetErrorKind list" where
  "unresolved_kinds = [AccountingUnresolved, BudgetCorrupt, NumericOverflow, BudgetConflict, ReconciliationRequired, IntentActive, AlreadyReconciled, AccountBusy]"

definition budget_error_code :: "BudgetErrorKind \<Rightarrow> string" where
  "budget_error_code kind =
     (if kind = Exhausted then ''budget_exhausted''
      else if kind \<in> set unresolved_kinds then ''budget_accounting_unresolved''
      else if kind = BudgetUnsupported then ''budget_accounting_unsupported''
      else if kind = PricingUnavailable then ''budget_pricing_unavailable''
      else ''budget_accounting_unavailable'')"

definition store_error_answer :: "BudgetErrorKind \<Rightarrow> u16 \<times> string \<times> string" where
  "store_error_answer kind =
     (if kind = Exhausted then (403, ''budget_exhausted'', ''The virtual key budget has been exhausted.'')
      else if kind \<in> set unresolved_kinds then (503, ''budget_accounting_unresolved'', ''Budget accounting requires reconciliation.'')
      else if kind = BudgetUnsupported then (503, ''budget_accounting_unsupported'', ''Budget accounting is not supported in this deployment mode.'')
      else if kind = PricingUnavailable then (503, ''budget_pricing_unavailable'', ''Budget pricing is unavailable for this request.'')
      else (503, ''budget_accounting_unavailable'', ''Budget accounting is temporarily unavailable.''))"

definition reject_store_error :: "'s budget_env \<Rightarrow> AiClientProtocol \<Rightarrow> BudgetStoreError \<Rightarrow> 's budget_ctx \<Rightarrow> 's budget_ctx" where
  "reject_store_error env protocol e ctx =
     (case store_error_answer (bse_kind e) of (status, code, message) \<Rightarrow> reject_with_protocol_error (en_print env) protocol status code message ctx)"

text \<open>Refuse with 503 and keep the request from its upstream.\<close>

definition refuse :: "'s budget_env \<Rightarrow> AiClientProtocol \<Rightarrow> string \<Rightarrow> string \<Rightarrow> 's budget_ctx \<Rightarrow> 's budget_ctx" where
  "refuse env protocol code message ctx =
     forbid_upstream_dispatch (reject_with_protocol_error (en_print env) protocol 503 code message ctx)"

definition refuse_pricing :: "'s budget_env \<Rightarrow> AiClientProtocol \<Rightarrow> 's budget_ctx \<Rightarrow> 's budget_ctx" where
  "refuse_pricing env protocol =
     refuse env protocol ''budget_pricing_unavailable'' ''Budget pricing is unavailable for this request.''"

definition refuse_unavailable :: "'s budget_env \<Rightarrow> AiClientProtocol \<Rightarrow> 's budget_ctx \<Rightarrow> 's budget_ctx" where
  "refuse_unavailable env protocol =
     refuse env protocol ''budget_accounting_unavailable'' ''Budget accounting is temporarily unavailable.''"

section \<open>Before the quota\<close>

datatype BudgetInspectionOutcome = InspectContinue | InspectExhausted | InspectRejected

text \<open>\<open>runtime\<close> is the runtime or why there is none, \<open>permit\<close> whether the semaphore admits in time.\<close>

definition inspect_budget_before_quota ::
    "'s budget_env \<Rightarrow> bool \<Rightarrow> (BudgetRuntimeUnavailable + unit) \<Rightarrow> (BudgetRuntimeUnavailable + unit) \<Rightarrow> uuid \<Rightarrow> AiClientProtocol \<Rightarrow>
     's budget_ctx \<Rightarrow> BudgetInspectionOutcome ran \<times> 's budget_ctx" where
  "inspect_budget_before_quota env guard_required runtime permit virtual_key_id protocol ctx =
     (let unavailable = (\<lambda>reason. case budget_runtime_error reason of (code, message) \<Rightarrow>
            (Done InspectRejected, reject_with_protocol_error (en_print env) protocol 503 code message ctx))
      in if \<not> guard_required then (Done InspectContinue, ctx)
         else case runtime of
           Inl reason \<Rightarrow> unavailable reason
         | Inr _ \<Rightarrow>
             (case permit of
                Inl reason \<Rightarrow> unavailable reason
              | Inr _ \<Rightarrow>
                  (case bs_inspect (en_store env) virtual_key_id (store_of ctx) of
                     (answer, s) \<Rightarrow>
                       (let ctx1 = set_store s ctx
                        in case answer of
                             None \<Rightarrow> (Cut, ctx1)
                           | Some (Inr Eligible) \<Rightarrow>
                               (Done InspectContinue, ext (\<lambda>x. x\<lparr>bx_request := Some (inspected virtual_key_id protocol)\<rparr>) ctx1)
                           | Some (Inr PausedBudget) \<Rightarrow> (Done InspectContinue, ctx1)
                           | Some (Inr ExhaustedBudget) \<Rightarrow> (Done InspectExhausted, ctx1)
                           | Some (Inl e) \<Rightarrow>
                               if bse_kind e = Exhausted then (Done InspectExhausted, ctx1)
                               else (Done InspectRejected, reject_store_error env protocol e ctx1)))))"

section \<open>Prices\<close>

definition model_override_version ::
    "'s budget_env \<Rightarrow> string option \<Rightarrow> int option \<Rightarrow> string \<Rightarrow> string \<Rightarrow> string \<Rightarrow> Decimal \<Rightarrow> string" where
  "model_override_version env model_id updated_at provider_type model direction rate =
     (let canonical = to_lowercase (trim provider_type) @ [newline] @ trim model @ [newline] @ direction @ [newline] @ en_rate12 env rate;
          revision = (case updated_at of Some t \<Rightarrow> en_timestamp_millis env t | None \<Rightarrow> ''unknown'')
      in ''model:'' @ (case model_id of Some i \<Rightarrow> i | None \<Rightarrow> ''inline'') @ '':'' @ revision @ '':'' @ direction @ '':'' @
         en_sha256_hex env canonical)"

definition model_price_overrides :: "'s budget_env \<Rightarrow> AiModelPrices \<Rightarrow> string \<Rightarrow> string \<Rightarrow> int \<Rightarrow> ModelPriceOverrides" where
  "model_price_overrides env model provider_type actual_model fallback_effective_from =
     (let model_id = (if am_id model \<noteq> 0 then Some (en_uuid env (am_id model)) else None);
          effective_from =
            (case Option.bind (am_updated_at model) (en_timestamp env) of
               Some t \<Rightarrow> t
             | None \<Rightarrow> (case Option.bind (am_created_at model) (en_timestamp env) of Some t \<Rightarrow> t | None \<Rightarrow> fallback_effective_from));
          version = (\<lambda>direction. map_option (model_override_version env model_id (Some effective_from) provider_type actual_model direction))
      in \<lparr>mo_input = am_input_cost model, mo_output = am_output_cost model, mo_input_version = version ''input'' (am_input_cost model),
          mo_output_version = version ''output'' (am_output_cost model), mo_version = None, mo_effective_from = Some effective_from\<rparr>)"

definition unit_price :: "PriceSnapshot \<Rightarrow> BudgetUnitPriceSnapshot" where
  "unit_price p =
     \<lparr>bu_usd_per_million = ps_usd_per_million p, bu_source = ps_source p, bu_version = ps_version p,
      bu_snapshot_date = ps_snapshot_date p, bu_effective_from = ps_effective_from p, bu_effective_to = ps_effective_to p\<rparr>"

definition price_of_unit :: "BudgetUnitPriceSnapshot \<Rightarrow> PriceSnapshot" where
  "price_of_unit u =
     \<lparr>ps_usd_per_million = bu_usd_per_million u, ps_source = bu_source u, ps_version = bu_version u,
      ps_snapshot_date = bu_snapshot_date u, ps_effective_from = bu_effective_from u, ps_effective_to = bu_effective_to u\<rparr>"

definition default_features :: PricingFeatures where
  "default_features = \<lparr>pf_provider_cache_tokens = False, pf_non_standard_service_tier = False, pf_built_in_tools = False,
     pf_non_text_modality = False, pf_additional_pricing = False\<rparr>"

definition build_pricing_snapshot :: "'s budget_env \<Rightarrow> 's budget_ctx \<Rightarrow> LifecycleHookError + BudgetPricingSnapshot" where
  "build_pricing_snapshot env ctx =
     (let x = rq_extensions ctx; unavailable = (\<lambda>m. Inl (hook_error ''budget_pricing_unavailable'' m)) in
      case bx_model x of
        None \<Rightarrow> unavailable ''no model selected''
      | Some state \<Rightarrow>
          (let provider_type = trim (ms_provider_type state); model = trim (am_model_name (ms_model state));
               started = lc_started_at (rq_lifecycle ctx)
           in if provider_type = [] \<or> model = [] then unavailable ''empty model or provider''
              else
                (let features = (case bx_usage x of Some u \<Rightarrow> uc_pricing_features u | None \<Rightarrow> default_features);
                     overrides = model_price_overrides env (ms_model state) provider_type model started
                 in if 2 ^ 63 \<le> unat (ms_estimated_prompt_tokens state) then unavailable ''prompt token estimate out of range''
                    else
                      (let pricing = resolve_snapshot (en_date_naive env) (en_catalog env) provider_type model started
                             (Some (int (unat (ms_estimated_prompt_tokens state)))) overrides features
                       in if rp_status pricing \<noteq> Matched \<or> rp_input pricing = None \<or> rp_output pricing = None
                          then unavailable (if rp_unsupported_reasons pricing = [] then ''no complete price'' else join '','' (rp_unsupported_reasons pricing))
                          else Inr \<lparr>bp_schema_version = 1, bp_provider_type = provider_type, bp_model = model,
                                    bp_input = map_option unit_price (rp_input pricing), bp_output = map_option unit_price (rp_output pricing),
                                    bp_max_prompt_tokens =
                                      (if mo_input overrides \<noteq> None \<and> mo_output overrides \<noteq> None then None
                                       else max_prompt_tokens (en_catalog env) provider_type model started)\<rparr>))))"

text \<open>Prices are compared by value.\<close>

fun opt_eq :: "('a \<Rightarrow> 'a \<Rightarrow> bool) \<Rightarrow> 'a option \<Rightarrow> 'a option \<Rightarrow> bool" where
  "opt_eq eq None None = True"
| "opt_eq eq (Some a) (Some b) = eq a b"
| "opt_eq eq _ _ = False"

definition price_eq :: "PriceSnapshot \<Rightarrow> PriceSnapshot \<Rightarrow> bool" where
  "price_eq a b =
     (dec_eq (ps_usd_per_million a) (ps_usd_per_million b) \<and>
      a\<lparr>ps_usd_per_million := dec_zero\<rparr> = b\<lparr>ps_usd_per_million := dec_zero\<rparr>)"

definition frozen_eq :: "FrozenPricingSnapshot \<Rightarrow> FrozenPricingSnapshot \<Rightarrow> bool" where
  "frozen_eq a b =
     (opt_eq price_eq (fp_input a) (fp_input b) \<and> opt_eq price_eq (fp_output a) (fp_output b) \<and>
      a\<lparr>fp_input := None, fp_output := None\<rparr> = b\<lparr>fp_input := None, fp_output := None\<rparr>)"

definition freeze_pricing_snapshot :: "FrozenPricingSnapshot \<Rightarrow> 's budget_ctx \<Rightarrow> (string + unit) \<times> 's budget_ctx" where
  "freeze_pricing_snapshot snapshot ctx =
     (case bx_usage (rq_extensions ctx) of
        None \<Rightarrow> (Inl ''usage_context_missing'', ctx)
      | Some u \<Rightarrow>
          if uc_finalized u then (Inl ''usage_context_finalized'', ctx)
          else case uc_frozen_pricing u of
            Some existing \<Rightarrow> if frozen_eq existing snapshot then (Inr (), ctx) else (Inl ''pricing_snapshot_already_frozen'', ctx)
          | None \<Rightarrow> (Inr (), ext (\<lambda>x. x\<lparr>bx_usage := Some (u\<lparr>uc_frozen_pricing := Some snapshot\<rparr>)\<rparr>) ctx))"

section \<open>The dispatch hook\<close>

text \<open>What the hook reads at its start: the fence of the owner, the semaphore, a new id.\<close>

record dispatch_input =
  di_owner_available :: bool
  di_permit :: "BudgetRuntimeUnavailable + unit"
  di_intent_id :: uuid

definition create_command_of ::
    "'s budget_env \<Rightarrow> uuid \<Rightarrow> uuid \<Rightarrow> string \<Rightarrow> string \<Rightarrow> BudgetPricingSnapshot \<Rightarrow> CreateBudgetIntent" where
  "create_command_of env intent_id virtual_key_id request_id pricing_fingerprint pricing_snapshot =
     \<lparr>cb_intent_id = intent_id, cb_virtual_key_id = virtual_key_id, cb_request_id = request_id,
      cb_operation_id = ''intent:v1:'' @ request_id,
      cb_command_fingerprint = en_sha256_hex env (join [newline]
        [''intent:v1'', request_id, en_uuid env virtual_key_id, en_uuid env intent_id, en_uuid env (en_node_id env),
         en_uuid env (en_owner_session_id env), pricing_fingerprint]),
      cb_pricing_fingerprint = pricing_fingerprint, cb_pricing_snapshot = pricing_snapshot,
      cb_node_id = en_node_id env, cb_owner_session_id = en_owner_session_id env, cb_stale_after = en_stale_after env\<rparr>"

definition frozen_of :: "string \<Rightarrow> BudgetPricingSnapshot \<Rightarrow> FrozenPricingSnapshot" where
  "frozen_of fingerprint p =
     \<lparr>fp_fingerprint = fingerprint, fp_provider_type = bp_provider_type p, fp_model = bp_model p,
      fp_input = map_option price_of_unit (bp_input p), fp_output = map_option price_of_unit (bp_output p),
      fp_max_prompt_tokens = bp_max_prompt_tokens p\<rparr>"

text \<open>
  The entry of the registry and the guard, put into the request before the first call of the ledger.
  When the command is refused the local guard is dropped.
\<close>

definition install_guard ::
    "'s budget_env \<Rightarrow> AiClientProtocol \<Rightarrow> CreateBudgetIntent \<Rightarrow> 's budget_ctx \<Rightarrow> unit ran \<times> 's budget_ctx" where
  "install_guard env protocol command ctx =
     (case registry_try_reserve (registry_of ctx) (cb_request_id command) of
        (Inl e, rg) \<Rightarrow>
          (Fail (hook_error ''budget_registry_overloaded'' (en_show_registry env e)), refuse_unavailable env protocol (set_registry rg ctx))
      | (Inr g, rg) \<Rightarrow>
          (case record_create_command (en_json env) command g rg of
             (Inl e, g1, rg1) \<Rightarrow>
               (Fail (hook_error ''budget_registry_invalid'' (en_show_registry env e)),
                set_registry (drop_guard g1 rg1) (refuse_unavailable env protocol ctx))
           | (Inr _, g1, rg1) \<Rightarrow>
               (Done (), with_request (\<lambda>b. b\<lparr>br_state := RequestPreparing, br_pricing_fingerprint := Some (cb_pricing_fingerprint command),
                  br_create_command := Some command, br_guard := Some g1\<rparr>) (set_registry rg1 ctx))))"

definition prepare_dispatch ::
    "'s budget_env \<Rightarrow> dispatch_input \<Rightarrow> AiBudgetRequestContext \<Rightarrow> 's budget_ctx \<Rightarrow> CreateBudgetIntent ran \<times> 's budget_ctx" where
  "prepare_dispatch env inp b ctx =
     (let protocol = br_protocol b;
          unavailable = (\<lambda>reason. case budget_runtime_error reason of (code, message) \<Rightarrow>
            (Fail (hook_error code message), refuse env protocol code message ctx))
      in if \<not> di_owner_available inp then unavailable OwnerFenced
         else case di_permit inp of
           Inl reason \<Rightarrow> unavailable reason
         | Inr _ \<Rightarrow>
             (case build_pricing_snapshot env ctx of
                Inl e \<Rightarrow> (Fail e, refuse_pricing env protocol ctx)
              | Inr pricing_snapshot \<Rightarrow>
                  (case en_json env pricing_snapshot of
                     None \<Rightarrow> (Fail (hook_error ''budget_pricing_unavailable'' ''serialisation failed''), ctx)
                   | Some pricing_json \<Rightarrow>
                       (let fingerprint = en_sha256_hex env pricing_json
                        in case freeze_pricing_snapshot (frozen_of fingerprint pricing_snapshot) ctx of
                             (Inl reason, ctx1) \<Rightarrow> (Fail (hook_error ''budget_pricing_context_invalid'' reason), refuse_pricing env protocol ctx1)
                           | (Inr _, ctx1) \<Rightarrow>
                               (let command = create_command_of env (di_intent_id inp) (br_virtual_key_id b) (id_of ctx) fingerprint pricing_snapshot
                                in then_run (install_guard env protocol command ctx1) (\<lambda>_ c. (Done command, c)))))))"

definition acknowledge_budget_guard :: "'s budget_ctx \<Rightarrow> 's budget_ctx" where
  "acknowledge_budget_guard ctx =
     (case Option.bind (request_of ctx) br_guard of
        None \<Rightarrow> ctx
      | Some g \<Rightarrow> with_request (\<lambda>b. b\<lparr>br_guard := None\<rparr>) (set_registry (snd (guard_acknowledge g (registry_of ctx))) ctx))"

text \<open>An operation of the guard, with the error of a guard that is missing.\<close>

definition with_guard :: "'s budget_env \<Rightarrow> unit ran \<Rightarrow> guard_op \<Rightarrow> 's budget_ctx \<Rightarrow> unit ran \<times> 's budget_ctx" where
  "with_guard env missing op ctx =
     (case Option.bind (request_of ctx) br_guard of
        None \<Rightarrow> (missing, ctx)
      | Some g \<Rightarrow>
          (case op g (registry_of ctx) of
             (Inr _, rg) \<Rightarrow> (Done (), set_registry rg ctx)
           | (Inl e, rg) \<Rightarrow> (Fail (hook_error ''budget_registry_invalid'' (en_show_registry env e)), set_registry rg ctx)))"

definition guard_missing :: "unit ran" where
  "guard_missing = Fail (hook_error ''budget_registry_missing'' ''budget guard missing'')"

text \<open>The intent is there: note it in the registry and in the request.\<close>

definition note_prepared :: "'s budget_env \<Rightarrow> uuid \<Rightarrow> 's budget_ctx \<Rightarrow> unit ran \<times> 's budget_ctx" where
  "note_prepared env intent_id ctx =
     then_run (with_guard env guard_missing (mark_prepared intent_id) ctx)
       (\<lambda>_ c. (Done (), with_request (\<lambda>b. b\<lparr>br_intent_id := Some intent_id, br_state := RequestPrepared\<rparr>) c))"

definition pause_request :: "'s budget_ctx \<Rightarrow> 's budget_ctx" where
  "pause_request ctx = acknowledge_budget_guard (with_request (\<lambda>b. b\<lparr>br_state := RequestPaused\<rparr>) ctx)"

text \<open>The intent of the request is created; \<open>None\<close> if the budget of the key is paused.\<close>

definition create_intent ::
    "'s budget_env \<Rightarrow> AiClientProtocol \<Rightarrow> CreateBudgetIntent \<Rightarrow> 's budget_ctx \<Rightarrow> uuid option ran \<times> 's budget_ctx" where
  "create_intent env protocol command ctx =
     (case bs_create_intent (en_store env) command (store_of ctx) of
        (answer, s) \<Rightarrow>
          (let ctx1 = set_store s ctx
           in case answer of
                None \<Rightarrow> (Cut, ctx1)
              | Some (Inl e) \<Rightarrow>
                  (let ctx2 = (if bse_kind e \<noteq> BudgetOutcomeUnknown
                               then with_request (\<lambda>b. b\<lparr>br_create_command := None\<rparr>) (acknowledge_budget_guard ctx1) else ctx1)
                   in (Fail (hook_error (budget_error_code (bse_kind e)) (en_show_store env e)),
                       forbid_upstream_dispatch (reject_store_error env protocol e ctx2)))
              | Some (Inr intent) \<Rightarrow>
                  if bi_disposition intent = PausedIntent then (Done None, pause_request ctx1)
                  else case bi_record intent of
                    None \<Rightarrow> (Fail (hook_error ''budget_accounting_invalid'' ''intent without record''), ctx1)
                  | Some r \<Rightarrow> then_run (note_prepared env (ir_id r) ctx1) (\<lambda>_ c. (Done (Some (ir_id r)), c))))"

definition commit_dispatch ::
    "'s budget_env \<Rightarrow> AiClientProtocol \<Rightarrow> uuid \<Rightarrow> uuid \<Rightarrow> 's budget_ctx \<Rightarrow> unit ran \<times> 's budget_ctx" where
  "commit_dispatch env protocol virtual_key_id intent_id ctx =
     then_run (with_guard env Crash mark_dispatch_commit_pending ctx) (\<lambda>_ ctx1.
       let ctx2 = with_request (\<lambda>b. b\<lparr>br_state := RequestCommitPending\<rparr>) ctx1;
           command = \<lparr>md_intent_id = intent_id, md_virtual_key_id = virtual_key_id, md_request_id = id_of ctx2,
             md_operation_id = ''budget-dispatch:v1:'' @ id_of ctx2, md_node_id = en_node_id env, md_owner_session_id = en_owner_session_id env\<rparr>
       in case bs_mark_dispatching (en_store env) command (store_of ctx2) of
            (answer, s) \<Rightarrow>
              (let ctx3 = set_store s ctx2
               in case answer of
                    None \<Rightarrow> (Cut, ctx3)
                  | Some (Inl e) \<Rightarrow>
                      (Fail (hook_error (budget_error_code (bse_kind e)) (en_show_store env e)),
                       forbid_upstream_dispatch (reject_store_error env protocol e ctx3))
                  | Some (Inr _) \<Rightarrow>
                      then_run (with_guard env Crash mark_dispatching ctx3)
                        (\<lambda>_ c. (Done (), with_request (\<lambda>b. b\<lparr>br_state := RequestDispatching\<rparr>) c))))"

definition execute :: "'s budget_env \<Rightarrow> dispatch_input \<Rightarrow> 's budget_ctx \<Rightarrow> unit ran \<times> 's budget_ctx" where
  "execute env inp ctx =
     (case request_of ctx of
        None \<Rightarrow> (Done (), ctx)
      | Some b \<Rightarrow>
          then_run (prepare_dispatch env inp b ctx) (\<lambda>command ctx1.
            then_run (create_intent env (br_protocol b) command ctx1) (\<lambda>intent ctx2.
              case intent of
                None \<Rightarrow> (Done (), ctx2)
              | Some intent_id \<Rightarrow> commit_dispatch env (br_protocol b) (br_virtual_key_id b) intent_id ctx2)))"

definition AiBudgetDispatchHook :: "'s budget_env \<Rightarrow> dispatch_input \<Rightarrow> 's budget_ext RequestDispatchHook" where
  "AiBudgetDispatchHook env inp =
     \<lparr>dh_name = ''ai-budget-dispatch'', dh_domain = ''ai-budget'',
      dh_policy = FailClosed \<lparr>fr_status = 503, fr_code = ''budget_accounting_unavailable'', fr_message = ''Budget accounting is temporarily unavailable.''\<rparr>,
      dh_before = (\<lambda>_ ctx. case execute env inp ctx of (r, c) \<Rightarrow> (hook_result r, c))\<rparr>"

section \<open>Settlement\<close>

definition settlement_command ::
    "'s budget_env \<Rightarrow> uuid \<Rightarrow> uuid \<Rightarrow> string \<Rightarrow> string \<Rightarrow> uuid option \<Rightarrow> BudgetCostOutcome \<Rightarrow> LifecycleHookError + SettleBudgetIntent" where
  "settlement_command env intent_id virtual_key_id request_id pricing_fingerprint usage_fact_id cost =
     (let finish = (\<lambda>c.
            let c1 = (if co_status c = NotIncurred then c\<lparr>co_amount_usd := Some dec_zero\<rparr> else c);
                amount = (case co_amount_usd c1 of Some d \<Rightarrow> dl_to_string (en_decimal env) d | None \<Rightarrow> ''null'')
            in Inr \<lparr>sb_intent_id = intent_id, sb_virtual_key_id = virtual_key_id, sb_request_id = request_id,
                    sb_operation_id = ''budget-settle:v1:'' @ request_id,
                    sb_command_fingerprint = en_sha256_hex env (join [newline]
                      [''budget-settle:v1'', request_id, en_uuid env virtual_key_id, en_uuid env intent_id, cost_status_str (co_status c1),
                       amount, join [CHR 0x1F] (co_reasons c1), (case usage_fact_id of Some i \<Rightarrow> en_uuid env i | None \<Rightarrow> ''null'')]),
                    sb_pricing_fingerprint = pricing_fingerprint, sb_usage_fact_id = usage_fact_id, sb_cost = c1\<rparr>)
      in if co_status cost = Calculated \<or> co_status cost = Estimated
         then (case co_amount_usd cost of
                 None \<Rightarrow> finish (cost\<lparr>co_status := CostUnavailable, co_reasons := co_reasons cost @ [''missing_cost_amount'']\<rparr>)
               | Some amount \<Rightarrow>
                   (case normalize_budget_amount (en_decimal env) amount of
                      Inl e \<Rightarrow> Inl (hook_error ''budget_numeric_invalid'' e)
                    | Inr d \<Rightarrow> finish (cost\<lparr>co_amount_usd := Some d\<rparr>)))
         else finish cost)"

definition unavailable_cost :: "string \<Rightarrow> BudgetCostOutcome" where
  "unavailable_cost reason = \<lparr>co_status = CostUnavailable, co_amount_usd = None, co_reasons = [reason]\<rparr>"

definition zero_cost :: "string \<Rightarrow> BudgetCostOutcome" where
  "zero_cost reason = \<lparr>co_status = NotIncurred, co_amount_usd = Some dec_zero, co_reasons = [reason]\<rparr>"

definition cost_from_fact ::
    "decimal_lib \<Rightarrow> AiUsageFact option \<Rightarrow> string \<Rightarrow> uuid \<Rightarrow> bool \<Rightarrow> string \<Rightarrow> BudgetPricingSnapshot \<Rightarrow> uuid option \<times> BudgetCostOutcome" where
  "cost_from_fact dl usage_fact request_id virtual_key_id upstream_attempted pricing_fingerprint pricing_snapshot =
     (case usage_fact of
        None \<Rightarrow> (None, if upstream_attempted then unavailable_cost ''missing_usage_fact'' else zero_cost ''upstream_not_attempted'')
      | Some f \<Rightarrow>
          (Some (uf_id f),
           if uf_request_id f \<noteq> request_id \<or> uf_virtual_key_id f \<noteq> Some virtual_key_id
           then unavailable_cost ''usage_fact_identity_mismatch''
           else if uf_pricing_fingerprint f \<noteq> Some pricing_fingerprint
           then unavailable_cost ''usage_fact_pricing_fingerprint_mismatch''
           else if (case (bp_max_prompt_tokens pricing_snapshot, uf_prompt_tokens f) of
                      (Some maximum, Some field) \<Rightarrow> maximum < tf_value field | _ \<Rightarrow> False)
           then unavailable_cost ''actual_prompt_exceeds_frozen_pricing_limit''
           else
             (let pricing = \<lparr>rp_input = map_option price_of_unit (bp_input pricing_snapshot),
                    rp_output = map_option price_of_unit (bp_output pricing_snapshot), rp_status = Matched, rp_unsupported_reasons = []\<rparr>
              in if \<not> opt_eq price_eq (uf_input_price f) (rp_input pricing) \<or> \<not> opt_eq price_eq (uf_output_price f) (rp_output pricing) \<or>
                    uf_pricing_status f \<noteq> rp_status pricing
                 then unavailable_cost ''usage_fact_pricing_snapshot_mismatch''
                 else
                   (let computed = calculate_cost dl pricing (uf_prompt_tokens f) (uf_completion_tokens f) (uf_usage_source f)
                          upstream_attempted (''invalid_token_value'' \<in> set (uf_usage_unavailable_reasons f))
                    in if uf_cost_status f \<noteq> cc_status computed \<or> \<not> opt_eq dec_eq (uf_cost_usd f) (cc_cost_usd computed) \<or>
                          uf_cost_unavailable_reasons f \<noteq> cc_unavailable_reasons computed
                       then unavailable_cost ''usage_fact_cost_mismatch''
                       else \<lparr>co_status = cc_status computed, co_amount_usd = cc_cost_usd computed, co_reasons = cc_unavailable_reasons computed\<rparr>))))"

text \<open>After an unknown or interrupted creation the intent is created again, with the same command.\<close>

definition ensure_intent_for_safe_zero :: "'s budget_env \<Rightarrow> 's budget_ctx \<Rightarrow> unit ran \<times> 's budget_ctx" where
  "ensure_intent_for_safe_zero env ctx =
     (case request_of ctx of
        None \<Rightarrow> (Crash, ctx)
      | Some b \<Rightarrow>
          (case (br_intent_id b, br_create_command b) of
             (None, Some command) \<Rightarrow>
               (case bs_create_intent (en_store env) command (store_of ctx) of
                  (answer, s) \<Rightarrow>
                    (let ctx1 = set_store s ctx
                     in case answer of
                          None \<Rightarrow> (Cut, ctx1)
                        | Some (Inl e) \<Rightarrow> (Fail (hook_error (budget_error_code (bse_kind e)) (en_show_store env e)), ctx1)
                        | Some (Inr intent) \<Rightarrow>
                            if bi_disposition intent = PausedIntent then (Done (), pause_request ctx1)
                            else case bi_record intent of
                              None \<Rightarrow> (Fail (hook_error ''budget_accounting_invalid'' ''replayed intent without record''), ctx1)
                            | Some r \<Rightarrow> note_prepared env (ir_id r) ctx1))
           | _ \<Rightarrow> (Done (), ctx)))"

text \<open>The two ways to a settlement; the command is kept in the request and sent again on every retry.\<close>

definition done_states :: "BudgetRequestState list" where
  "done_states = [InspectedEligible, RequestPaused, RequestSettled]"

definition keep_command :: "SettleBudgetIntent \<Rightarrow> 's budget_ctx \<Rightarrow> SettleBudgetIntent option ran \<times> 's budget_ctx" where
  "keep_command command ctx = (Done (Some command), with_request (\<lambda>b. b\<lparr>br_settlement_command := Some command\<rparr>) ctx)"

definition intent_parts :: "AiBudgetRequestContext \<Rightarrow> (uuid \<times> string) ran" where
  "intent_parts b =
     (case br_intent_id b of
        None \<Rightarrow> Fail (hook_error ''budget_intent_missing'' ''budget intent not confirmed'')
      | Some i \<Rightarrow>
          (case br_pricing_fingerprint b of
             None \<Rightarrow> Fail (hook_error ''budget_pricing_fingerprint_missing'' ''pricing fingerprint missing'')
           | Some f \<Rightarrow> Done (i, f)))"

definition prepare_safe_zero_settlement :: "'s budget_env \<Rightarrow> 's budget_ctx \<Rightarrow> SettleBudgetIntent option ran \<times> 's budget_ctx" where
  "prepare_safe_zero_settlement env ctx =
     (case request_of ctx of
        None \<Rightarrow> (Crash, ctx)
      | Some b \<Rightarrow>
          if br_state b \<in> set done_states then (Done None, ctx)
          else if br_intent_id b = None \<and> br_create_command b = None \<and> br_guard b = None then (Done None, ctx)
          else case br_settlement_command b of
            Some command \<Rightarrow> (Done (Some command), ctx)
          | None \<Rightarrow>
              then_run (intent_parts b, ctx) (\<lambda>parts c.
                case settlement_command env (fst parts) (br_virtual_key_id b) (id_of c) (snd parts) None (zero_cost ''upstream_dispatch_aborted'') of
                  Inl e \<Rightarrow> (Fail e, c)
                | Inr command \<Rightarrow>
                    then_run (with_guard env guard_missing mark_needs_safe_zero c) (\<lambda>_ c1.
                      then_run (with_guard env Crash (record_safe_zero_settlement command) c1) (\<lambda>_. keep_command command))))"

definition prepare_final_settlement :: "'s budget_env \<Rightarrow> 's budget_ctx \<Rightarrow> SettleBudgetIntent option ran \<times> 's budget_ctx" where
  "prepare_final_settlement env ctx =
     (case request_of ctx of
        None \<Rightarrow> (Crash, ctx)
      | Some b \<Rightarrow>
          if br_state b \<in> set done_states then (Done None, ctx)
          else if br_intent_id b = None \<and> br_guard b = None then (Done None, ctx)
          else case br_settlement_command b of
            Some command \<Rightarrow> (Done (Some command), ctx)
          | None \<Rightarrow>
              then_run (intent_parts b, ctx) (\<lambda>parts c.
                case br_create_command b of
                  None \<Rightarrow> (Fail (hook_error ''budget_pricing_snapshot_missing'' ''pricing snapshot missing''), c)
                | Some create \<Rightarrow>
                    (case cost_from_fact (en_decimal env) (bx_fact (rq_extensions c)) (id_of c) (br_virtual_key_id b)
                            (lc_upstream_attempted (rq_lifecycle c)) (snd parts) (cb_pricing_snapshot create) of
                       (usage_fact_id, cost) \<Rightarrow>
                         (case settlement_command env (fst parts) (br_virtual_key_id b) (id_of c) (snd parts) usage_fact_id cost of
                            Inl e \<Rightarrow> (Fail e, c)
                          | Inr command \<Rightarrow>
                              then_run (with_guard env guard_missing (record_settlement command) c) (\<lambda>_. keep_command command)))))"

text \<open>The settlement is sent; \<open>settled\<close> is what the request notes of a success.\<close>

definition send_settlement ::
    "'s budget_env \<Rightarrow> ('s budget_ctx \<Rightarrow> 's budget_ctx) \<Rightarrow> SettleBudgetIntent option \<Rightarrow> 's budget_ctx \<Rightarrow> unit ran \<times> 's budget_ctx" where
  "send_settlement env settled command ctx =
     (case command of
        None \<Rightarrow> (Done (), ctx)
      | Some c \<Rightarrow>
          (case bs_settle (en_store env) c (store_of ctx) of
             (answer, s) \<Rightarrow>
               (let ctx1 = set_store s ctx
                in case answer of
                     None \<Rightarrow> (Cut, ctx1)
                   | Some (Inr _) \<Rightarrow> (Done (), settled (acknowledge_budget_guard ctx1))
                   | Some (Inl e) \<Rightarrow>
                       (Fail (hook_error (budget_error_code (bse_kind e)) (en_show_store env e)),
                        with_request (\<lambda>b. b\<lparr>br_state := RetryRequired\<rparr>) ctx1))))"

definition compensate :: "'s budget_env \<Rightarrow> 's budget_ctx \<Rightarrow> unit ran \<times> 's budget_ctx" where
  "compensate env ctx =
     (if request_of ctx = None then (Done (), ctx)
      else then_run (ensure_intent_for_safe_zero env ctx) (\<lambda>_ c1.
        then_run (prepare_safe_zero_settlement env c1) (send_settlement env id)))"

definition finalize :: "'s budget_env \<Rightarrow> 's budget_ctx \<Rightarrow> unit ran \<times> 's budget_ctx" where
  "finalize env ctx =
     (case request_of ctx of
        None \<Rightarrow> (Done (), ctx)
      | Some b \<Rightarrow>
          (let replay = (\<not> lc_upstream_attempted (rq_lifecycle ctx) \<and> br_intent_id b = None \<and> br_create_command b \<noteq> None \<and> br_guard b \<noteq> None);
               settled = with_request (\<lambda>b. b\<lparr>br_state := RequestSettled\<rparr>)
           in if replay
              then then_run (ensure_intent_for_safe_zero env ctx) (\<lambda>_ c1.
                then_run (prepare_safe_zero_settlement env c1) (send_settlement env settled))
              else then_run (prepare_final_settlement env ctx) (send_settlement env settled)))"

definition AiBudgetDispatchAbortCompensator :: "'s budget_env \<Rightarrow> 's budget_ext RequestDispatchAbortHandler" where
  "AiBudgetDispatchAbortCompensator env =
     \<lparr>ah_name = ''ai-budget-dispatch-abort'', ah_domain = ''ai-budget'',
      ah_compensate = (\<lambda>_ ctx. case compensate env ctx of (r, c) \<Rightarrow> (hook_result r, c))\<rparr>"

definition AiBudgetFinalizer :: "'s budget_env \<Rightarrow> 's budget_ext RequestFinalizer" where
  "AiBudgetFinalizer env =
     \<lparr>fin_name = ''ai-budget-finalizer'', fin_finalize = (\<lambda>_ ctx. case finalize env ctx of (r, c) \<Rightarrow> (hook_result r, c))\<rparr>"

section \<open>Recovery\<close>

record BudgetRegistryRecoveryStats =
  bt_scanned :: nat
  bt_settled :: nat
  bt_failed :: nat

text \<open>The intent of an entry: known, or looked up; \<open>None\<close> if the ledger has none that is still open.\<close>

definition identify_intent ::
    "'s budget_env \<Rightarrow> ActiveBudgetIntentSnapshot \<Rightarrow> CreateBudgetIntent \<Rightarrow> ActiveBudgetIntentRegistry \<times> 's \<Rightarrow>
     (uuid \<times> bool) option ran \<times> ActiveBudgetIntentRegistry \<times> 's" where
  "identify_intent env snapshot create w =
     (case as_intent_id snapshot of
        Some i \<Rightarrow> (Done (Some (i, False)), w)
      | None \<Rightarrow>
          (case bs_lookup_intent (en_store env) (lookup_of create) (snd w) of
             (None, s) \<Rightarrow> (Cut, fst w, s)
           | (Some (Inl e), s) \<Rightarrow> (Fail (hook_error (budget_error_code (bse_kind e)) (en_show_store env e)), fst w, s)
           | (Some (Inr None), s) \<Rightarrow> (Done None, fst w, s)
           | (Some (Inr (Some record)), s) \<Rightarrow>
               if ir_state record \<noteq> IntentPrepared \<and> ir_state record \<noteq> IntentDispatching then (Done None, fst w, s)
               else (case mark_recovered_intent (as_request_id snapshot) (ir_id record) (ir_state record = IntentDispatching) (fst w) of
                       (Inl e, rg) \<Rightarrow> (Fail (hook_error ''budget_registry_invalid'' (en_show_registry env e)), rg, s)
                     | (Inr _, rg) \<Rightarrow> (Done (Some (ir_id record, ir_state record = IntentDispatching)), rg, s))))"

text \<open>Its settlement: of unknown cost if the request may have reached the upstream, else free of cost.\<close>

definition recovered_unresolved :: "ActiveBudgetIntentSnapshot \<Rightarrow> bool \<Rightarrow> bool" where
  "recovered_unresolved snapshot recovered_dispatching = (as_state snapshot = NeedsUnresolved \<or> recovered_dispatching)"

definition recovered_cost :: "bool \<Rightarrow> BudgetCostOutcome" where
  "recovered_cost unresolved =
     (if unresolved then unavailable_cost ''request_lifecycle_cancelled_after_dispatch''
      else zero_cost ''request_lifecycle_cancelled_before_dispatch'')"

definition settle_recovered ::
    "'s budget_env \<Rightarrow> ActiveBudgetIntentSnapshot \<Rightarrow> CreateBudgetIntent \<Rightarrow> uuid \<Rightarrow> bool \<Rightarrow> ActiveBudgetIntentRegistry \<times> 's \<Rightarrow>
     SettleBudgetIntent option ran \<times> ActiveBudgetIntentRegistry \<times> 's" where
  "settle_recovered env snapshot create intent_id recovered_dispatching w =
     (let unresolved = recovered_unresolved snapshot recovered_dispatching
      in case settlement_command env intent_id (cb_virtual_key_id create) (as_request_id snapshot) (cb_pricing_fingerprint create) None
                (recovered_cost unresolved) of
           Inl e \<Rightarrow> (Fail e, w)
         | Inr command \<Rightarrow>
             (case record_recovery_settlement (as_request_id snapshot) command unresolved (fst w) of
                (Inl e, rg) \<Rightarrow> (Fail (hook_error ''budget_registry_invalid'' (en_show_registry env e)), rg, snd w)
              | (Inr _, rg) \<Rightarrow> (Done (Some command), rg, snd w)))"

definition recovery_settlement_command ::
    "'s budget_env \<Rightarrow> ActiveBudgetIntentSnapshot \<Rightarrow> ActiveBudgetIntentRegistry \<times> 's \<Rightarrow>
     SettleBudgetIntent option ran \<times> ActiveBudgetIntentRegistry \<times> 's" where
  "recovery_settlement_command env snapshot w =
     (case as_create_command snapshot of
        None \<Rightarrow> (Fail (hook_error ''budget_recovery_missing_create'' ''create command missing''), w)
      | Some create \<Rightarrow>
          then_run (identify_intent env snapshot create w) (\<lambda>known w1.
            case known of
              None \<Rightarrow> (Done None, w1)
            | Some (intent_id, recovered_dispatching) \<Rightarrow> settle_recovered env snapshot create intent_id recovered_dispatching w1))"

definition recover_snapshot ::
    "'s budget_env \<Rightarrow> ActiveBudgetIntentSnapshot \<Rightarrow> ActiveBudgetIntentRegistry \<times> 's \<Rightarrow> bool ran \<times> ActiveBudgetIntentRegistry \<times> 's" where
  "recover_snapshot env snapshot w =
     (let ack = (\<lambda>(rg, s). (Done True, registry_acknowledge (as_request_id snapshot) rg, s));
          command = (case as_settlement snapshot of Some c \<Rightarrow> (Done (Some c), w) | None \<Rightarrow> recovery_settlement_command env snapshot w)
      in case command of
           (Cut, w1) \<Rightarrow> (Cut, w1)
         | (Crash, w1) \<Rightarrow> (Crash, w1)
         | (Fail _, w1) \<Rightarrow> (Done False, w1)
         | (Done None, w1) \<Rightarrow> ack w1
         | (Done (Some c), w1) \<Rightarrow>
             (case bs_settle (en_store env) c (snd w1) of
                (None, s) \<Rightarrow> (Cut, fst w1, s)
              | (Some (Inr _), s) \<Rightarrow> ack (fst w1, s)
              | (Some (Inl _), s) \<Rightarrow> (Done False, fst w1, s)))"

fun recover_snapshots ::
    "'s budget_env \<Rightarrow> ActiveBudgetIntentSnapshot list \<Rightarrow> BudgetRegistryRecoveryStats \<Rightarrow> ActiveBudgetIntentRegistry \<times> 's \<Rightarrow>
     BudgetRegistryRecoveryStats ran \<times> ActiveBudgetIntentRegistry \<times> 's" where
  "recover_snapshots env [] stats w = (Done stats, w)"
| "recover_snapshots env (sn # sns) stats w =
     (if as_guard_alive sn then recover_snapshots env sns stats w
      else then_run (recover_snapshot env sn w) (\<lambda>settled w1.
        let stats1 = stats\<lparr>bt_scanned := bt_scanned stats + 1\<rparr>
        in recover_snapshots env sns
             (if settled then stats1\<lparr>bt_settled := bt_settled stats1 + 1\<rparr> else stats1\<lparr>bt_failed := bt_failed stats1 + 1\<rparr>) w1))"

definition recover_budget_registry_once ::
    "'s budget_env \<Rightarrow> registry_order \<Rightarrow> nat \<Rightarrow> ActiveBudgetIntentRegistry \<times> 's \<Rightarrow>
     BudgetRegistryRecoveryStats ran \<times> ActiveBudgetIntentRegistry \<times> 's" where
  "recover_budget_registry_once env iter max_entries w =
     recover_snapshots env (take max_entries (snapshots iter (fst w))) \<lparr>bt_scanned = 0, bt_settled = 0, bt_failed = 0\<rparr> w"

end
