(* ===== verification/Budget_Safety.thy ===== *)
theory Budget_Safety
  imports Budget_Enforcement
begin

text \<open>
  No intent is lost: whatever the ledger answers and wherever a request is cut off, an intent that is open
  in the ledger has an entry in the registry, with the command that created it, and somebody who will settle
  it: the request that holds its guard or the recovery task. What the ledger promises is \<open>store_contract\<close>;
  a creation that commits late, after a lookup has found nothing, is a step of its own of the whole gateway
  (\<open>commits_late\<close> of \<open>Budget_System\<close>).
\<close>

section \<open>What the ledger promises\<close>

text \<open>
  \<open>opened s r\<close>: request \<open>r\<close> has an intent in the ledger that is neither settled nor handed over to
  reconciliation. Only a creation opens one, and not one that was refused; a paused creation found none; a
  settlement that succeeds closes it; a lookup that finds none, or one that is closed, is right.
\<close>

definition opens_none :: "BudgetIntent store_answer \<Rightarrow> bool" where
  "opens_none a =
     (case a of None \<Rightarrow> False | Some (Inl e) \<Rightarrow> bse_kind e \<noteq> BudgetOutcomeUnknown | Some (Inr i) \<Rightarrow> bi_disposition i = PausedIntent)"

definition found_none :: "BudgetIntentRecord option store_answer \<Rightarrow> bool" where
  "found_none a =
     (case a of
        Some (Inr None) \<Rightarrow> True
      | Some (Inr (Some i)) \<Rightarrow> ir_state i \<noteq> IntentPrepared \<and> ir_state i \<noteq> IntentDispatching
      | _ \<Rightarrow> False)"

definition store_contract :: "'s budget_store \<Rightarrow> ('s \<Rightarrow> string \<Rightarrow> bool) \<Rightarrow> bool" where
  "store_contract st opened =
     ((\<forall>k s r. opened (snd (bs_inspect st k s)) r \<longrightarrow> opened s r) \<and>
      (\<forall>c s r. opened (snd (bs_create_intent st c s)) r \<longrightarrow> opened s r \<or> r = cb_request_id c \<and> \<not> opens_none (fst (bs_create_intent st c s))) \<and>
      (\<forall>c s i. fst (bs_create_intent st c s) = Some (Inr i) \<and> bi_disposition i = PausedIntent \<longrightarrow> \<not> opened (snd (bs_create_intent st c s)) (cb_request_id c)) \<and>
      (\<forall>l s r. opened (snd (bs_lookup_intent st l s)) r \<longrightarrow> opened s r) \<and>
      (\<forall>l s. found_none (fst (bs_lookup_intent st l s)) \<longrightarrow> \<not> opened (snd (bs_lookup_intent st l s)) (lk_request_id l)) \<and>
      (\<forall>c s r. opened (snd (bs_mark_dispatching st c s)) r \<longrightarrow> opened s r) \<and>
      (\<forall>c s r. opened (snd (bs_settle st c s)) r \<longrightarrow> opened s r) \<and>
      (\<forall>c s x. fst (bs_settle st c s) = Some (Inr x) \<longrightarrow> \<not> opened (snd (bs_settle st c s)) (sb_request_id c)))"

lemma store_contractD:
  assumes "store_contract st opened"
  shows "bs_inspect st k s = (a1, s') \<Longrightarrow> opened s' r \<Longrightarrow> opened s r"
    "bs_create_intent st c s = (a2, s') \<Longrightarrow> opened s' r \<Longrightarrow> opened s r \<or> r = cb_request_id c \<and> \<not> opens_none a2"
    "bs_create_intent st c s = (Some (Inr i), s') \<Longrightarrow> bi_disposition i = PausedIntent \<Longrightarrow> \<not> opened s' (cb_request_id c)"
    "bs_lookup_intent st l s = (a3, s') \<Longrightarrow> opened s' r \<Longrightarrow> opened s r"
    "bs_lookup_intent st l s = (a3, s') \<Longrightarrow> found_none a3 \<Longrightarrow> \<not> opened s' (lk_request_id l)"
    "bs_mark_dispatching st d s = (a2, s') \<Longrightarrow> opened s' r \<Longrightarrow> opened s r"
    "bs_settle st e s = (a4, s') \<Longrightarrow> opened s' r \<Longrightarrow> opened s r"
    "bs_settle st e s = (Some (Inr x), s') \<Longrightarrow> \<not> opened s' (sb_request_id e)"
  using assms unfolding store_contract_def by (metis fst_conv snd_conv)+

section \<open>A request and its entry\<close>

text \<open>
  What holds of a request with id \<open>r\<close>: \<open>opn\<close> says whether its intent is open, \<open>entry\<close> is its entry in the
  registry, \<open>req\<close> its budget context. An open intent has an entry; an entry knows the command of its
  intent; a living guard is held by the request.
\<close>

definition slot_ok :: "string \<Rightarrow> ActiveBudgetIntentData \<Rightarrow> bool" where
  "slot_ok r d =
     ((\<exists>c. bd_create_command d = Some c \<and> cb_request_id c = r) \<and> (\<forall>c. bd_settlement d = Some c \<longrightarrow> sb_request_id c = r))"

definition guard_ok :: "string \<Rightarrow> ActiveBudgetIntentData option \<Rightarrow> AiBudgetRequestContext \<Rightarrow> bool" where
  "guard_ok r entry b =
     (case br_guard b of
        None \<Rightarrow> br_create_command b \<noteq> None \<and> br_intent_id b = None \<longrightarrow> br_state b = RequestPaused
      | Some g \<Rightarrow> gd_request_id g = r \<and> \<not> gd_completed g \<and>
          (\<exists>d. entry = Some d \<and> bd_guard_alive d \<and> br_create_command b \<noteq> None \<and> bd_create_command d = br_create_command b))"

definition holds_guard :: "AiBudgetRequestContext option \<Rightarrow> bool" where
  "holds_guard req = (Option.bind req br_guard \<noteq> None)"

definition local_ok :: "string \<Rightarrow> bool \<Rightarrow> ActiveBudgetIntentData option \<Rightarrow> AiBudgetRequestContext option \<Rightarrow> bool" where
  "local_ok r opn entry req =
     ((opn \<longrightarrow> entry \<noteq> None) \<and>
      (\<forall>d. entry = Some d \<longrightarrow> slot_ok r d \<and> (bd_guard_alive d \<longrightarrow> holds_guard req)) \<and>
      (\<forall>b. req = Some b \<longrightarrow> guard_ok r entry b \<and> (\<forall>c. br_settlement_command b = Some c \<longrightarrow> sb_request_id c = r \<and> br_intent_id b \<noteq> None)))"

abbreviation slot_of :: "'s budget_ctx \<Rightarrow> string \<Rightarrow> ActiveBudgetIntentData option" where
  "slot_of ctx \<equiv> map_of (rg_entries (registry_of ctx))"

definition ctx_ok :: "('s \<Rightarrow> string \<Rightarrow> bool) \<Rightarrow> 's budget_ctx \<Rightarrow> bool" where
  "ctx_ok opened ctx =
     (distinct (map fst (rg_entries (registry_of ctx))) \<and>
      local_ok (id_of ctx) (opened (store_of ctx) (id_of ctx)) (slot_of ctx (id_of ctx)) (request_of ctx))"

text \<open>A step of one request leaves the entries and the intents of the others alone.\<close>

definition others_kept :: "('s \<Rightarrow> string \<Rightarrow> bool) \<Rightarrow> 's budget_ctx \<Rightarrow> 's budget_ctx \<Rightarrow> bool" where
  "others_kept opened ctx ctx' =
     (id_of ctx' = id_of ctx \<and>
      (\<forall>q. q \<noteq> id_of ctx \<longrightarrow> slot_of ctx' q = slot_of ctx q \<and> (opened (store_of ctx') q \<longrightarrow> opened (store_of ctx) q)))"

lemma others_refl [simp]: "others_kept opened ctx ctx"
  by (simp add: others_kept_def)

lemma others_trans: "others_kept opened a b \<Longrightarrow> others_kept opened b c \<Longrightarrow> others_kept opened a c"
  by (auto simp: others_kept_def)

definition step_ok :: "('s \<Rightarrow> string \<Rightarrow> bool) \<Rightarrow> 's budget_ctx \<Rightarrow> 's budget_ctx \<Rightarrow> bool" where
  "step_ok opened ctx ctx' = (ctx_ok opened ctx' \<and> others_kept opened ctx ctx')"

lemma ext_simps [simp]:
  "registry_of (set_registry rg ctx) = rg" "store_of (set_registry rg ctx) = store_of ctx" "request_of (set_registry rg ctx) = request_of ctx"
  "registry_of (set_store s ctx) = registry_of ctx" "store_of (set_store s ctx) = s" "request_of (set_store s ctx) = request_of ctx"
  "registry_of (with_request f ctx) = registry_of ctx" "store_of (with_request f ctx) = store_of ctx"
  "request_of (with_request f ctx) = map_option f (request_of ctx)"
  "rq_lifecycle (set_registry rg ctx) = rq_lifecycle ctx" "rq_lifecycle (set_store s ctx) = rq_lifecycle ctx"
  "rq_lifecycle (with_request f ctx) = rq_lifecycle ctx"
  by (simp_all add: set_registry_def set_store_def with_request_def ext_def)

lemma refuse_simps [simp]:
  "rq_extensions (refuse env p c m ctx) = rq_extensions ctx" "rq_lifecycle (refuse env p c m ctx) = rq_lifecycle ctx"
  "rq_extensions (reject_with_protocol_error pr p st c m ctx) = rq_extensions ctx"
  "rq_lifecycle (reject_with_protocol_error pr p st c m ctx) = rq_lifecycle ctx"
  "rq_extensions (forbid_upstream_dispatch ctx) = rq_extensions ctx" "rq_lifecycle (forbid_upstream_dispatch ctx) = rq_lifecycle ctx"
  "rq_extensions (reject_store_error env p e ctx) = rq_extensions ctx" "rq_lifecycle (reject_store_error env p e ctx) = rq_lifecycle ctx"
  by (simp_all add: refuse_def reject_with_protocol_error_def forbid_upstream_dispatch_def reject_store_error_def split_beta)

lemma refuse_more [simp]:
  "rq_extensions (refuse_pricing env p ctx) = rq_extensions ctx" "rq_lifecycle (refuse_pricing env p ctx) = rq_lifecycle ctx"
  "rq_extensions (refuse_unavailable env p ctx) = rq_extensions ctx" "rq_lifecycle (refuse_unavailable env p ctx) = rq_lifecycle ctx"
  by (simp_all add: refuse_pricing_def refuse_unavailable_def)

lemma id_simps [simp]:
  "id_of (set_registry rg ctx) = id_of ctx" "id_of (set_store s ctx) = id_of ctx" "id_of (with_request f ctx) = id_of ctx"
  by simp_all

section \<open>Operations on an entry\<close>

definition same_slot :: "string \<Rightarrow> ActiveBudgetIntentData \<Rightarrow> ActiveBudgetIntentData \<Rightarrow> bool" where
  "same_slot r d d' =
     (bd_guard_alive d' = bd_guard_alive d \<and> bd_create_command d' = bd_create_command d \<and> (slot_ok r d \<longrightarrow> slot_ok r d'))"

text \<open>Only the entry of one request changes, and it keeps its guard and its create command.\<close>

definition only_slot :: "string \<Rightarrow> ActiveBudgetIntentRegistry \<Rightarrow> ActiveBudgetIntentRegistry \<Rightarrow> bool" where
  "only_slot r rg rg' =
     ((distinct (map fst (rg_entries rg)) \<longrightarrow> distinct (map fst (rg_entries rg'))) \<and>
      (\<forall>q. q \<noteq> r \<longrightarrow> map_of (rg_entries rg') q = map_of (rg_entries rg) q) \<and>
      rel_option (same_slot r) (map_of (rg_entries rg) r) (map_of (rg_entries rg') r))"

lemma same_slot_refl [simp]: "same_slot r d d"
  by (simp add: same_slot_def)

lemma only_slot_refl: "rg_entries rg' = rg_entries rg \<Longrightarrow> only_slot r rg rg'"
  by (simp add: only_slot_def option.rel_refl)

lemma rejection_entries [simp]: "rg_entries (record_rejection b rg) = rg_entries rg"
  by (simp add: record_rejection_def Let_def)

lemma transition_entries:
  assumes "transition r expected next_state i c rg = (res, rg')" "\<forall>x. c = Some x \<longrightarrow> sb_request_id x = r"
  shows "only_slot r rg rg'"
proof (cases "map_of (rg_entries rg) r")
  case None
  then show ?thesis using assms by (auto simp: transition_def intro: only_slot_refl)
next
  case (Some d)
  show ?thesis
  proof (cases "rg_entries rg' = rg_entries rg")
    case False
    then show ?thesis using assms Some
      by (auto simp: transition_def Let_def update_conv' distinct_update only_slot_def same_slot_def slot_ok_def split: if_splits)
  qed (rule only_slot_refl)
qed

lemma validate_settlement_id: "validate_settlement_command r c = Inr u \<Longrightarrow> sb_request_id c = r"
  by (auto simp: validate_settlement_command_def validate_request_identity_def and_try_def split: sum.splits if_splits)

lemma checked_entries:
  assumes "checked_settlement r c expected next_state rg = (res, rg')"
  shows "only_slot r rg rg'"
  using assms validate_settlement_id [of r c] transition_entries [of r expected next_state _ "Some c" rg res rg']
  by (auto simp: checked_settlement_def intro: only_slot_refl split: sum.splits)

definition keeps_entries :: "guard_op \<Rightarrow> bool" where
  "keeps_entries op = (\<forall>g rg res rg'. op g rg = (res, rg') \<longrightarrow> only_slot (gd_request_id g) rg rg')"

lemma guard_ops_keep:
  "keeps_entries (mark_prepared i)" "keeps_entries mark_dispatch_commit_pending" "keeps_entries mark_dispatching"
  "keeps_entries mark_needs_safe_zero" "keeps_entries (record_settlement c)" "keeps_entries (record_safe_zero_settlement c)"
  unfolding keeps_entries_def mark_prepared_def mark_dispatch_commit_pending_def mark_dispatching_def mark_needs_safe_zero_def
    record_settlement_def record_safe_zero_settlement_def
  using transition_entries checked_entries by blast+

lemma local_ok_slot:
  assumes "local_ok r opn slot req" "rel_option (same_slot r) slot slot'"
  shows "local_ok r opn slot' req"
  using assms by (cases slot; cases slot') (auto simp: local_ok_def guard_ok_def same_slot_def split: option.splits)

lemma with_guard_ok:
  assumes "keeps_entries op" "ctx_ok opened ctx" "with_guard env missing op ctx = (res, ctx')"
  shows "step_ok opened ctx ctx' \<and> request_of ctx' = request_of ctx \<and> store_of ctx' = store_of ctx \<and>
    rq_lifecycle ctx' = rq_lifecycle ctx \<and> (res = Done () \<or> res = missing \<or> (\<exists>e. res = Fail e)) \<and>
    (\<not> holds_guard (request_of ctx) \<longrightarrow> ctx' = ctx \<and> res = missing)"
proof (cases "Option.bind (request_of ctx) br_guard")
  case None
  then show ?thesis using assms by (simp add: with_guard_def step_ok_def holds_guard_def)
next
  case (Some g)
  then obtain b where b: "request_of ctx = Some b" "br_guard b = Some g" by (cases "request_of ctx") auto
  obtain r rg where op: "op g (registry_of ctx) = (r, rg)" by (metis surj_pair)
  have l: "local_ok (id_of ctx) (opened (store_of ctx) (id_of ctx)) (slot_of ctx (id_of ctx)) (request_of ctx)"
    using assms(2) by (simp add: ctx_ok_def)
  then have g: "gd_request_id g = id_of ctx" using b by (auto simp: local_ok_def guard_ok_def)
  have o: "only_slot (id_of ctx) (registry_of ctx) rg" using assms(1) op g unfolding keeps_entries_def by metis
  have "local_ok (id_of ctx) (opened (store_of ctx) (id_of ctx)) (map_of (rg_entries rg) (id_of ctx)) (request_of ctx)"
    using local_ok_slot [OF l] o by (simp add: only_slot_def)
  moreover have "\<forall>q. q \<noteq> id_of ctx \<longrightarrow> map_of (rg_entries rg) q = slot_of ctx q"
    using o by (simp add: only_slot_def)
  moreover have "distinct (map fst (rg_entries rg))" using o assms(2) by (simp add: only_slot_def ctx_ok_def)
  ultimately show ?thesis
    using assms(3) Some op b by (auto simp: with_guard_def step_ok_def ctx_ok_def others_kept_def holds_guard_def split: sum.splits)
qed

text \<open>Releasing the entry is safe once the intent is closed.\<close>

lemma acknowledge_entries:
  "map_of (rg_entries (registry_acknowledge r rg)) q = (if q = r then None else map_of (rg_entries rg) q)"
  by (auto simp: registry_acknowledge_eq delete_conv' split: option.splits)

lemma acknowledge_distinct [simp]:
  "distinct (map fst (rg_entries rg)) \<Longrightarrow> distinct (map fst (rg_entries (registry_acknowledge r rg)))"
  by (auto simp: registry_acknowledge_eq distinct_delete split: option.splits)

lemma release_ok:
  assumes "ctx_ok opened ctx" "\<not> opened (store_of ctx) (id_of ctx)"
    and f: "\<forall>b. request_of ctx = Some b \<longrightarrow> br_guard (f (b\<lparr>br_guard := None\<rparr>)) = None \<and>
      br_settlement_command (f (b\<lparr>br_guard := None\<rparr>)) = br_settlement_command b \<and> br_intent_id (f (b\<lparr>br_guard := None\<rparr>)) = br_intent_id b \<and>
      (br_create_command (f (b\<lparr>br_guard := None\<rparr>)) = None \<or> br_intent_id (f (b\<lparr>br_guard := None\<rparr>)) \<noteq> None \<or>
       br_state (f (b\<lparr>br_guard := None\<rparr>)) = RequestPaused)"
  shows "step_ok opened ctx (with_request f (acknowledge_budget_guard ctx))"
proof (cases "Option.bind (request_of ctx) br_guard")
  case None
  have "b\<lparr>br_guard := None\<rparr> = b" if "request_of ctx = Some b" for b using None that by (cases b) simp
  then show ?thesis using assms None
    by (cases "request_of ctx") (auto simp: acknowledge_budget_guard_def step_ok_def ctx_ok_def local_ok_def others_kept_def holds_guard_def guard_ok_def)
next
  case (Some g)
  then obtain b where b: "request_of ctx = Some b" "br_guard b = Some g" by (cases "request_of ctx") auto
  have g: "gd_request_id g = id_of ctx" "\<not> gd_completed g"
    using assms(1) b by (auto simp: ctx_ok_def local_ok_def guard_ok_def)
  then show ?thesis
    using assms b Some
    by (auto simp: acknowledge_budget_guard_def guard_acknowledge_def step_ok_def ctx_ok_def local_ok_def others_kept_def
        acknowledge_entries holds_guard_def guard_ok_def)
qed

lemma step_trans: "step_ok opened a b \<Longrightarrow> step_ok opened b c \<Longrightarrow> step_ok opened a c"
  using others_trans by (auto simp: step_ok_def)

lemma step_refl: "ctx_ok opened ctx \<Longrightarrow> step_ok opened ctx ctx"
  by (simp add: step_ok_def)

lemma step_ctx_ok: "step_ok opened a b \<Longrightarrow> ctx_ok opened b"
  by (simp add: step_ok_def)

text \<open>Only extensions and the id of a request matter.\<close>

lemma step_cong:
  "step_ok opened a b \<Longrightarrow> registry_of b' = registry_of b \<Longrightarrow> store_of b' = store_of b \<Longrightarrow> request_of b' = request_of b \<Longrightarrow>
    id_of b' = id_of b \<Longrightarrow> step_ok opened a b'"
  unfolding step_ok_def ctx_ok_def others_kept_def by metis

lemma with_request_ok:
  assumes "ctx_ok opened ctx"
    and f: "\<forall>b. request_of ctx = Some b \<longrightarrow> br_guard (f b) = br_guard b \<and> br_create_command (f b) = br_create_command b \<and>
      (\<forall>c. br_settlement_command (f b) = Some c \<longrightarrow> sb_request_id c = id_of ctx \<and> br_intent_id (f b) \<noteq> None) \<and>
      (br_guard b = None \<and> br_create_command b \<noteq> None \<and> br_intent_id (f b) = None \<longrightarrow> br_state (f b) = RequestPaused)"
  shows "step_ok opened ctx (with_request f ctx)"
  using assms by (cases "request_of ctx") (auto simp: step_ok_def ctx_ok_def local_ok_def others_kept_def holds_guard_def guard_ok_def split: option.splits)

lemma set_store_ok:
  assumes "ctx_ok opened ctx" "\<And>q. opened s q \<Longrightarrow> opened (store_of ctx) q \<or> q = id_of ctx \<and> slot_of ctx q \<noteq> None"
  shows "step_ok opened ctx (set_store s ctx)"
  using assms unfolding step_ok_def ctx_ok_def local_ok_def others_kept_def by auto

lemma then_run_cases:
  assumes "then_run r k = (res, c')"
  obtains (go) x c where "r = (Done x, c)" "k x c = (res, c')"
  | (stop) e where "r = (e, c')" "\<forall>x. e \<noteq> Done x" "\<forall>x. res \<noteq> Done x"
  using assms by (cases r; cases "fst r") (auto simp: then_run_def)

lemma holds_guard_entry: "ctx_ok opened ctx \<Longrightarrow> holds_guard (request_of ctx) \<Longrightarrow> slot_of ctx (id_of ctx) \<noteq> None"
  by (auto simp: ctx_ok_def local_ok_def guard_ok_def holds_guard_def split: Option.bind_splits option.splits)

section \<open>The hook\<close>

lemma try_reserve_entries:
  "registry_try_reserve rg r = (Inl e, rg') \<Longrightarrow> rg_entries rg' = rg_entries rg"
  "registry_try_reserve rg r = (Inr g, rg') \<Longrightarrow> g = \<lparr>gd_request_id = r, gd_completed = False\<rparr> \<and> map_of (rg_entries rg) r = None \<and>
     map_of (rg_entries rg') = (map_of (rg_entries rg))(r \<mapsto> fresh_entry) \<and>
     (distinct (map fst (rg_entries rg)) \<longrightarrow> distinct (map fst (rg_entries rg')))"
  by (auto simp: registry_try_reserve_eq Let_def update_conv' distinct_update split: if_splits option.splits sum.splits)

lemma install_guard_ok:
  assumes ok: "ctx_ok opened ctx" and b: "request_of ctx = Some b" "br_guard b = None" "br_create_command b = None"
    and c: "cb_request_id command = id_of ctx" and i: "install_guard env protocol command ctx = (res, ctx')"
  shows "step_ok opened ctx ctx' \<and> store_of ctx' = store_of ctx \<and>
    (res = Done () \<longrightarrow> holds_guard (request_of ctx') \<and> \<not> opened (store_of ctx) (id_of ctx)) \<and> rq_lifecycle ctx' = rq_lifecycle ctx"
proof -
  obtain rr rg where r: "registry_try_reserve (registry_of ctx) (id_of ctx) = (rr, rg)" by (metis surj_pair)
  show ?thesis
  proof (cases rr)
    case (Inl e)
    then have "rg_entries rg = rg_entries (registry_of ctx)" using try_reserve_entries(1) r by blast
    moreover have "ctx' = refuse_unavailable env protocol (set_registry rg ctx)" "res \<noteq> Done ()"
      using i r Inl by (auto simp: install_guard_def c)
    ultimately show ?thesis using ok by (simp add: step_ok_def ctx_ok_def others_kept_def)
  next
    case (Inr g)
    have g: "g = \<lparr>gd_request_id = id_of ctx, gd_completed = False\<rparr>" "slot_of ctx (id_of ctx) = None"
      "map_of (rg_entries rg) = (map_of (rg_entries (registry_of ctx)))(id_of ctx \<mapsto> fresh_entry)"
      and keys: "distinct (map fst (rg_entries rg))"
      using try_reserve_entries(2) r Inr ok unfolding ctx_ok_def by blast+
    have closed: "\<not> opened (store_of ctx) (id_of ctx)" using ok g(2) by (auto simp: ctx_ok_def local_ok_def)
    show ?thesis
    proof (cases "validate_create_command (en_json env) (id_of ctx) command")
      case (Inl e)
      let ?rg = "registry_acknowledge (id_of ctx) (record_rejection (is_field_limit e) rg)"
      have "ctx' = set_registry ?rg (refuse_unavailable env protocol ctx)" "res \<noteq> Done ()"
        using i r \<open>rr = Inr g\<close> Inl g(1) by (auto simp: install_guard_def c record_create_command_def drop_guard_def)
      moreover have "map_of (rg_entries ?rg) = map_of (rg_entries (registry_of ctx))"
        using g(2,3) by (auto simp: acknowledge_entries fun_eq_iff)
      ultimately show ?thesis using ok keys by (simp add: step_ok_def ctx_ok_def others_kept_def)
    next
      case (Inr u)
      let ?d = "fresh_entry\<lparr>bd_create_command := Some command\<rparr>"
      let ?rg = "rg\<lparr>rg_entries := AList.update (id_of ctx) ?d (rg_entries rg)\<rparr>"
      have "record_create_command (en_json env) command g rg = (Inr (), g, ?rg)"
        using Inr g(1,3) by (simp add: record_create_command_def fresh_entry_def)
      then have x: "res = Done ()" "ctx' = with_request (\<lambda>b. b\<lparr>br_state := RequestPreparing,
          br_pricing_fingerprint := Some (cb_pricing_fingerprint command), br_create_command := Some command, br_guard := Some g\<rparr>) (set_registry ?rg ctx)"
        using i r \<open>rr = Inr g\<close> by (auto simp: install_guard_def c)
      have m: "map_of (rg_entries ?rg) q = (if q = id_of ctx then Some ?d else slot_of ctx q)" for q
        using g(3) by (simp add: update_conv')
      have "ctx_ok opened ctx'"
        using ok b c closed keys unfolding ctx_ok_def x(2)
        by (auto simp: local_ok_def guard_ok_def holds_guard_def slot_ok_def fresh_entry_def update_conv' distinct_update g(1) split: option.splits)
      then show ?thesis using closed x b by (auto simp: step_ok_def others_kept_def holds_guard_def update_conv' g(3))
    qed
  qed
qed

lemma note_prepared_ok:
  assumes "ctx_ok opened ctx" "note_prepared env i ctx = (res, ctx')"
  shows "step_ok opened ctx ctx'"
proof -
  obtain r1 c1 where w: "with_guard env guard_missing (mark_prepared i) ctx = (r1, c1)" by (metis surj_pair)
  note g = with_guard_ok [OF guard_ops_keep(1) assms(1) w]
  from assms(2) show ?thesis unfolding note_prepared_def w
  proof (cases rule: then_run_cases)
    case (go x c)
    have h: "holds_guard (request_of ctx)" using g go by (auto simp: guard_missing_def)
    let ?f = "\<lambda>b. b\<lparr>br_intent_id := Some i, br_state := RequestPrepared\<rparr>"
    have "step_ok opened c1 (with_request ?f c1)"
    proof (rule with_request_ok)
      show "ctx_ok opened c1" using g step_ctx_ok by blast
      show "\<forall>b. request_of c1 = Some b \<longrightarrow> br_guard (?f b) = br_guard b \<and> br_create_command (?f b) = br_create_command b \<and>
        (\<forall>c. br_settlement_command (?f b) = Some c \<longrightarrow> sb_request_id c = id_of c1 \<and> br_intent_id (?f b) \<noteq> None) \<and>
        (br_guard b = None \<and> br_create_command b \<noteq> None \<and> br_intent_id (?f b) = None \<longrightarrow> br_state (?f b) = RequestPaused)"
        using g by (auto simp: step_ok_def ctx_ok_def local_ok_def)
    qed
    then show ?thesis using g go step_trans by fastforce
  next
    case (stop e)
    then show ?thesis using g by simp
  qed
qed

lemma pause_ok:
  assumes "ctx_ok opened ctx" "\<not> opened (store_of ctx) (id_of ctx)"
  shows "step_ok opened ctx (pause_request ctx)"
proof -
  let ?c = "with_request (\<lambda>b. b\<lparr>br_state := RequestPaused\<rparr>) ctx"
  have 1: "step_ok opened ctx ?c"
    using assms(1) by (intro with_request_ok) (auto simp: ctx_ok_def local_ok_def guard_ok_def)
  then have "step_ok opened ?c (with_request id (acknowledge_budget_guard ?c))"
    using assms(2) by (intro release_ok) (auto simp: step_ok_def)
  moreover have "with_request id c = c" for c :: "'a budget_ctx" by (simp add: with_request_def ext_def option.map_id)
  ultimately show ?thesis using 1 step_trans by (simp add: pause_request_def)
qed

text \<open>A creation that a living guard covers, in whatever way it ends.\<close>

lemma covered_creation:
  assumes c: "store_contract (en_store env) opened" and ok: "ctx_ok opened ctx" "holds_guard (request_of ctx)"
    and cmd: "cb_request_id command = id_of ctx" and a: "bs_create_intent (en_store env) command (store_of ctx) = (answer, s)"
  shows "step_ok opened ctx (set_store s ctx)"
    "answer = Some (Inr i) \<Longrightarrow> bi_disposition i = PausedIntent \<Longrightarrow> step_ok opened ctx (pause_request (set_store s ctx))"
proof -
  show 1: "step_ok opened ctx (set_store s ctx)"
    using ok store_contractD(2) [OF c a] holds_guard_entry [OF ok] cmd by (intro set_store_ok) auto
  assume p: "answer = Some (Inr i)" "bi_disposition i = PausedIntent"
  then have "\<not> opened s (id_of ctx)" using store_contractD(3) [OF c] a cmd by metis
  then have "step_ok opened (set_store s ctx) (pause_request (set_store s ctx))"
    using 1 by (intro pause_ok) (auto simp: step_ok_def)
  then show "step_ok opened ctx (pause_request (set_store s ctx))" using 1 step_trans by blast
qed

lemma create_intent_ok:
  assumes c: "store_contract (en_store env) opened" and ok: "ctx_ok opened ctx" "holds_guard (request_of ctx)"
    and cmd: "cb_request_id command = id_of ctx" and fresh: "\<not> opened (store_of ctx) (id_of ctx)"
    and r: "create_intent env protocol command ctx = (res, ctx')"
  shows "step_ok opened ctx ctx'"
proof -
  obtain answer s where a: "bs_create_intent (en_store env) command (store_of ctx) = (answer, s)" by (metis surj_pair)
  note cov = covered_creation [OF c ok cmd a]
  have ok1: "ctx_ok opened (set_store s ctx)" using cov(1) step_ctx_ok by blast
  show ?thesis
  proof (cases answer)
    case None
    then show ?thesis using r a cov(1) by (simp add: create_intent_def)
  next
    case (Some ans)
    show ?thesis
    proof (cases ans)
      case (Inl e)
      let ?c2 = "if bse_kind e \<noteq> BudgetOutcomeUnknown
        then with_request (\<lambda>b. b\<lparr>br_create_command := None\<rparr>) (acknowledge_budget_guard (set_store s ctx)) else set_store s ctx"
      have x: "ctx' = forbid_upstream_dispatch (reject_store_error env protocol e ?c2)"
        using r a Some Inl by (simp add: create_intent_def Let_def split: if_splits)
      have "step_ok opened ctx ?c2"
      proof (cases "bse_kind e = BudgetOutcomeUnknown")
        case False
        then have "\<not> opened s (id_of ctx)" using store_contractD(2) [OF c a] fresh Some Inl by (auto simp: opens_none_def)
        then have "step_ok opened (set_store s ctx) (with_request (\<lambda>b. b\<lparr>br_create_command := None\<rparr>) (acknowledge_budget_guard (set_store s ctx)))"
          using ok1 by (intro release_ok) auto
        then show ?thesis using False cov(1) step_trans by (simp; blast)
      qed (simp add: cov(1))
      then show ?thesis unfolding x by (rule step_cong) simp_all
    next
      case (Inr i)
      show ?thesis
      proof (cases "bi_disposition i = PausedIntent")
        case True
        then show ?thesis using cov(2) r a Some Inr by (simp add: create_intent_def)
      next
        case False
        show ?thesis
        proof (cases "bi_record i")
          case None
          then show ?thesis using r a Some Inr False cov(1) by (simp add: create_intent_def)
        next
          case (Some rec)
          then have "then_run (note_prepared env (ir_id rec) (set_store s ctx)) (\<lambda>_ c. (Done (Some (ir_id rec)), c)) = (res, ctx')"
            using r a \<open>answer = Some ans\<close> Inr False by (simp add: create_intent_def)
          then have "\<exists>q. note_prepared env (ir_id rec) (set_store s ctx) = (q, ctx')" by (cases rule: then_run_cases) auto
          then show ?thesis using note_prepared_ok [OF ok1] cov(1) step_trans by blast
        qed
      qed
    qed
  qed
qed

text \<open>A change of the state of a request with a guard.\<close>

lemma state_change_ok:
  assumes "ctx_ok opened ctx" "holds_guard (request_of ctx)"
  shows "step_ok opened ctx (with_request (\<lambda>b. b\<lparr>br_state := st\<rparr>) ctx)"
  using assms by (intro with_request_ok) (auto simp: ctx_ok_def local_ok_def holds_guard_def)

lemma guarded_ok:
  assumes "keeps_entries op" "ctx_ok opened ctx" "with_guard env Crash op ctx = (res, c1)"
  shows "step_ok opened ctx c1" "res = Done () \<Longrightarrow> holds_guard (request_of c1)" "res = Done () \<or> res = Crash \<or> (\<exists>e. res = Fail e)"
  using with_guard_ok [OF assms] by auto

lemma commit_dispatch_ok:
  assumes c: "store_contract (en_store env) opened" and ok: "ctx_ok opened ctx"
    and r: "commit_dispatch env protocol vk i ctx = (res, ctx')"
  shows "step_ok opened ctx ctx'"
proof -
  obtain r1 c1 where w: "with_guard env Crash mark_dispatch_commit_pending ctx = (r1, c1)" by (metis surj_pair)
  note g = guarded_ok [OF guard_ops_keep(2) ok w]
  show ?thesis
  proof (cases "r1 = Done ()")
    case False
    then show ?thesis using r w g(1,3) by (auto simp: commit_dispatch_def then_run_def)
  next
    case True
    let ?c2 = "with_request (\<lambda>b. b\<lparr>br_state := RequestCommitPending\<rparr>) c1"
    have s2: "step_ok opened ctx ?c2" using state_change_ok g True step_trans step_ctx_ok by metis
    define d where "d = \<lparr>md_intent_id = i, md_virtual_key_id = vk, md_request_id = id_of ?c2,
      md_operation_id = ''budget-dispatch:v1:'' @ id_of ?c2, md_node_id = en_node_id env, md_owner_session_id = en_owner_session_id env\<rparr>"
    obtain a s where a: "bs_mark_dispatching (en_store env) d (store_of ?c2) = (a, s)" by (metis surj_pair)
    let ?c3 = "set_store s ?c2"
    have "step_ok opened ?c2 ?c3" using s2 store_contractD(6) [OF c a] by (intro set_store_ok) (auto simp: step_ok_def)
    then have s3: "step_ok opened ctx ?c3" using s2 step_trans by blast
    show ?thesis
    proof (cases "\<exists>x. a = Some (Inr x)")
      case False
      then have "ctx' = ?c3 \<or> (\<exists>e. ctx' = forbid_upstream_dispatch (reject_store_error env protocol e ?c3))"
        using r w True a unfolding d_def by (auto simp: commit_dispatch_def then_run_def Let_def split: option.splits sum.splits)
      then show ?thesis using s3 step_cong [OF s3] by auto
    next
      case x: True
      obtain r4 c4 where w4: "with_guard env Crash mark_dispatching ?c3 = (r4, c4)" by (metis surj_pair)
      note g4 = guarded_ok [OF guard_ops_keep(3) step_ctx_ok [OF s3] w4]
      have "then_run (r4, c4) (\<lambda>_ c. (Done (), with_request (\<lambda>b. b\<lparr>br_state := RequestDispatching\<rparr>) c)) = (res, ctx')"
        using r w True a x w4 unfolding d_def by (auto simp: commit_dispatch_def then_run_def Let_def)
      then have "step_ok opened c4 ctx'"
        using g4 state_change_ok [of opened c4] step_refl step_ctx_ok by (cases rule: then_run_cases) fastforce+
      then show ?thesis using s3 g4(1) step_trans by blast
    qed
  qed
qed

text \<open>Before the first call of the ledger: either nothing but the answer changed, or the guard is there.\<close>

definition fresh_request :: "'s budget_ctx \<Rightarrow> bool" where
  "fresh_request ctx =
     (\<forall>b. request_of ctx = Some b \<longrightarrow> br_guard b = None \<and> br_create_command b = None)"

lemma freeze_simps [simp]:
  "registry_of (snd (freeze_pricing_snapshot p ctx)) = registry_of ctx" "store_of (snd (freeze_pricing_snapshot p ctx)) = store_of ctx"
  "request_of (snd (freeze_pricing_snapshot p ctx)) = request_of ctx" "rq_lifecycle (snd (freeze_pricing_snapshot p ctx)) = rq_lifecycle ctx"
  by (auto simp: freeze_pricing_snapshot_def ext_def split: option.splits)

lemma same_core:
  "ctx_ok opened ctx \<Longrightarrow> registry_of c = registry_of ctx \<Longrightarrow> store_of c = store_of ctx \<Longrightarrow> request_of c = request_of ctx \<Longrightarrow>
    id_of c = id_of ctx \<Longrightarrow> step_ok opened ctx c"
  using step_cong [OF step_refl] by blast

lemma prepare_dispatch_ok:
  assumes ok: "ctx_ok opened ctx" and b: "request_of ctx = Some b" and f: "fresh_request ctx"
    and r: "prepare_dispatch env inp b ctx = (res, ctx')"
  shows "step_ok opened ctx ctx' \<and>
    (\<forall>command. res = Done command \<longrightarrow>
      cb_request_id command = id_of ctx \<and> holds_guard (request_of ctx') \<and> \<not> opened (store_of ctx') (id_of ctx))"
proof (cases "\<exists>p j fr. build_pricing_snapshot env ctx = Inr p \<and> en_json env p = Some j \<and> di_owner_available inp \<and> (\<exists>u. di_permit inp = Inr u) \<and>
    freeze_pricing_snapshot (frozen_of (en_sha256_hex env j) p) ctx = (Inr (), fr)")
  case False
  then have "registry_of ctx' = registry_of ctx \<and> store_of ctx' = store_of ctx \<and> request_of ctx' = request_of ctx \<and>
      rq_lifecycle ctx' = rq_lifecycle ctx \<and> (\<forall>c. res \<noteq> Done c)"
    using r by (auto simp: prepare_dispatch_def Let_def split_beta prod_eq_iff split: if_splits sum.splits option.splits)
  then show ?thesis using same_core [OF ok, of ctx'] by simp
next
  case True
  then obtain p j fr where x: "build_pricing_snapshot env ctx = Inr p" "en_json env p = Some j" "di_owner_available inp" "(\<exists>u. di_permit inp = Inr u)"
    "freeze_pricing_snapshot (frozen_of (en_sha256_hex env j) p) ctx = (Inr (), fr)" by blast
  have fr: "registry_of fr = registry_of ctx" "store_of fr = store_of ctx" "request_of fr = request_of ctx" "rq_lifecycle fr = rq_lifecycle ctx"
    using freeze_simps [of _ ctx] x(5) by (metis snd_conv)+
  define command where "command = create_command_of env (di_intent_id inp) (br_virtual_key_id b) (id_of ctx) (en_sha256_hex env j) p"
  obtain ri ci where i: "install_guard env (br_protocol b) command fr = (ri, ci)" by (metis surj_pair)
  have sf: "step_ok opened ctx fr" using same_core [OF ok] fr by simp
  have id: "cb_request_id command = id_of ctx" by (simp add: command_def create_command_of_def)
  have "step_ok opened fr ci \<and> store_of ci = store_of fr \<and>
    (ri = Done () \<longrightarrow> holds_guard (request_of ci) \<and> \<not> opened (store_of fr) (id_of fr)) \<and> rq_lifecycle ci = rq_lifecycle fr"
    using b f fr id by (intro install_guard_ok [OF step_ctx_ok [OF sf] _ _ _ _ i]) (auto simp: fresh_request_def)
  moreover have "then_run (ri, ci) (\<lambda>_ c. (Done command, c)) = (res, ctx')"
    using r x i unfolding command_def by (auto simp: prepare_dispatch_def split: sum.splits)
  ultimately show ?thesis
    using sf step_trans id fr by (cases ri) (auto simp: then_run_def)
qed

lemma execute_ok:
  assumes c: "store_contract (en_store env) opened" and ok: "ctx_ok opened ctx" and f: "fresh_request ctx"
    and r: "execute env inp ctx = (res, ctx')"
  shows "step_ok opened ctx ctx'"
proof (cases "request_of ctx")
  case None
  then show ?thesis using r ok by (simp add: execute_def step_refl)
next
  case (Some b)
  obtain rp cp where p: "prepare_dispatch env inp b ctx = (rp, cp)" by (metis surj_pair)
  note prep = prepare_dispatch_ok [OF ok Some f p]
  show ?thesis
  proof (cases "\<exists>command. rp = Done command")
    case False
    then show ?thesis using r Some p prep by (cases rp) (auto simp: execute_def then_run_def)
  next
    case True
    then obtain command where command: "rp = Done command" by blast
    obtain rc cc where i: "create_intent env (br_protocol b) command cp = (rc, cc)" by (metis surj_pair)
    have "id_of cp = id_of ctx" using prep by (simp add: step_ok_def others_kept_def)
    then have cr: "step_ok opened cp cc"
      using prep command by (intro create_intent_ok [OF c _ _ _ _ i]) (auto simp: step_ok_def)
    have "ctx' = cc \<or> (\<exists>intent_id q. commit_dispatch env (br_protocol b) (br_virtual_key_id b) intent_id cc = (q, ctx'))"
      using r Some p command i by (cases rc) (auto simp: execute_def then_run_def split: option.splits)
    then have "step_ok opened cc ctx'" using commit_dispatch_ok [OF c step_ctx_ok [OF cr]] step_refl [OF step_ctx_ok [OF cr]] by blast
    then show ?thesis using prep cr step_trans by blast
  qed
qed

section \<open>Settlement\<close>

lemma settlement_command_id: "settlement_command env i vk r fp u cost = Inr c \<Longrightarrow> sb_request_id c = r"
  by (auto simp: settlement_command_def Let_def split: if_splits option.splits sum.splits)

definition has_command :: "'s budget_ctx \<Rightarrow> SettleBudgetIntent \<Rightarrow> bool" where
  "has_command ctx c = (\<exists>b. request_of ctx = Some b \<and> br_settlement_command b = Some c)"

lemma keep_command_ok:
  assumes "ctx_ok opened ctx" "sb_request_id command = id_of ctx" "request_of ctx = Some b" "br_intent_id b \<noteq> None"
    "keep_command command ctx = (res, ctx')"
  shows "step_ok opened ctx ctx' \<and> (\<forall>c. res = Done (Some c) \<longrightarrow> has_command ctx' c)"
  using assms by (auto simp: keep_command_def has_command_def ctx_ok_def local_ok_def intro!: with_request_ok)

lemma ensure_ok:
  assumes c: "store_contract (en_store env) opened" and ok: "ctx_ok opened ctx"
    and g: "\<forall>b. request_of ctx = Some b \<longrightarrow> br_guard b \<noteq> None \<or> br_state b \<noteq> RequestPaused"
    and r: "ensure_intent_for_safe_zero env ctx = (res, ctx')"
  shows "step_ok opened ctx ctx'"
proof (cases "\<exists>b command. request_of ctx = Some b \<and> br_intent_id b = None \<and> br_create_command b = Some command")
  case False
  then have "ctx' = ctx" using r by (auto simp: ensure_intent_for_safe_zero_def split: option.splits)
  then show ?thesis using ok step_refl by blast
next
  case True
  then obtain b command where b: "request_of ctx = Some b" "br_intent_id b = None" "br_create_command b = Some command" by blast
  then have h: "holds_guard (request_of ctx)" "cb_request_id command = id_of ctx"
    using ok g by (auto simp: ctx_ok_def local_ok_def guard_ok_def holds_guard_def slot_ok_def split: option.splits)
  obtain answer s where a: "bs_create_intent (en_store env) command (store_of ctx) = (answer, s)" by (metis surj_pair)
  note cov = covered_creation [OF c ok h a]
  have "ctx' = set_store s ctx \<or> (\<exists>i. answer = Some (Inr i) \<and> bi_disposition i = PausedIntent \<and> ctx' = pause_request (set_store s ctx)) \<or>
      (\<exists>i q. note_prepared env i (set_store s ctx) = (q, ctx'))"
    using r b a by (auto simp: ensure_intent_for_safe_zero_def Let_def split: option.splits sum.splits if_splits)
  then show ?thesis
    using cov note_prepared_ok [OF step_ctx_ok [OF cov(1)]] step_trans by blast
qed

lemma intent_parts_Done: "intent_parts b = Done p \<Longrightarrow> br_intent_id b \<noteq> None"
  by (auto simp: intent_parts_def split: option.splits)

lemma missing_guard_ok:
  assumes "keeps_entries op" "ctx_ok opened ctx" "with_guard env guard_missing op ctx = (res, c1)"
  shows "step_ok opened ctx c1" "request_of c1 = request_of ctx" "rq_lifecycle c1 = rq_lifecycle ctx"
  using with_guard_ok [OF assms] by auto

lemma prepare_safe_zero_ok:
  assumes ok: "ctx_ok opened ctx" and r: "prepare_safe_zero_settlement env ctx = (res, ctx')"
  shows "step_ok opened ctx ctx' \<and> (\<forall>c. res = Done (Some c) \<longrightarrow> has_command ctx' c)"
proof (cases "ctx' = ctx \<and> (\<forall>c. res = Done (Some c) \<longrightarrow> has_command ctx c)")
  case True
  then show ?thesis using ok step_refl by auto
next
  case False
  then obtain b p command where b: "request_of ctx = Some b" "intent_parts b = Done p"
    and cmd: "settlement_command env (fst p) (br_virtual_key_id b) (id_of ctx) (snd p) None (zero_cost ''upstream_dispatch_aborted'') = Inr command"
    and run: "then_run (with_guard env guard_missing mark_needs_safe_zero ctx) (\<lambda>_ c1.
       then_run (with_guard env Crash (record_safe_zero_settlement command) c1) (\<lambda>_. keep_command command)) = (res, ctx')"
    using r by (auto simp: prepare_safe_zero_settlement_def has_command_def then_run_def [of "(intent_parts _, _)"]
      split: option.splits if_splits ran.splits sum.splits)
  obtain r1 c1 where w1: "with_guard env guard_missing mark_needs_safe_zero ctx = (r1, c1)" by (metis surj_pair)
  note g1 = missing_guard_ok [OF guard_ops_keep(4) ok w1]
  obtain r2 c2 where w2: "with_guard env Crash (record_safe_zero_settlement command) c1 = (r2, c2)" by (metis surj_pair)
  note g2 = with_guard_ok [OF guard_ops_keep(6) step_ctx_ok [OF g1(1)] w2]
  have s2: "step_ok opened ctx c2" using g1 g2 step_trans by blast
  have k: "step_ok opened c2 c3 \<and> (\<forall>c. q = Done (Some c) \<longrightarrow> has_command c3 c)" if "keep_command command c2 = (q, c3)" for q c3
    using that g1 g2 b(1) intent_parts_Done [OF b(2)] settlement_command_id [OF cmd] step_ctx_ok [OF s2] by (intro keep_command_ok) auto
  show ?thesis
  proof (cases "r1 = Done ()")
    case False
    then show ?thesis using run w1 g1(1) by (cases r1) (auto simp: then_run_def)
  next
    case True
    then have "then_run (r2, c2) (\<lambda>_. keep_command command) = (res, ctx')" using run w1 w2 by (simp add: then_run_def)
    then show ?thesis
    proof (cases rule: then_run_cases)
      case (go x c)
      then show ?thesis using k [of res ctx'] s2 step_trans by blast
    next
      case (stop e)
      then show ?thesis using s2 by auto
    qed
  qed
qed

lemma prepare_final_ok:
  assumes ok: "ctx_ok opened ctx" and r: "prepare_final_settlement env ctx = (res, ctx')"
  shows "step_ok opened ctx ctx' \<and> (\<forall>c. res = Done (Some c) \<longrightarrow> has_command ctx' c)"
proof (cases "ctx' = ctx \<and> (\<forall>c. res = Done (Some c) \<longrightarrow> has_command ctx c)")
  case True
  then show ?thesis using ok step_refl by auto
next
  case False
  then obtain b p u cost command where b: "request_of ctx = Some b" "intent_parts b = Done p"
    and cmd: "settlement_command env (fst p) (br_virtual_key_id b) (id_of ctx) (snd p) u cost = Inr command"
    and run: "then_run (with_guard env guard_missing (record_settlement command) ctx) (\<lambda>_. keep_command command) = (res, ctx')"
    using r by (auto simp: prepare_final_settlement_def has_command_def then_run_def [of "(intent_parts _, _)"] split_beta
      split: option.splits if_splits ran.splits sum.splits)
  obtain r1 c1 where w1: "with_guard env guard_missing (record_settlement command) ctx = (r1, c1)" by (metis surj_pair)
  note g1 = missing_guard_ok [OF guard_ops_keep(5) ok w1]
  have k: "step_ok opened c1 c3 \<and> (\<forall>c. q = Done (Some c) \<longrightarrow> has_command c3 c)" if "keep_command command c1 = (q, c3)" for q c3
    using that g1 b(1) intent_parts_Done [OF b(2)] settlement_command_id [OF cmd] step_ctx_ok [OF g1(1)] by (intro keep_command_ok) auto
  from run show ?thesis unfolding w1
  proof (cases rule: then_run_cases)
    case (go x c)
    then show ?thesis using k [of res ctx'] g1(1) step_trans by blast
  next
    case (stop e)
    then show ?thesis using g1(1) by auto
  qed
qed

definition settles :: "('s budget_ctx \<Rightarrow> 's budget_ctx) \<Rightarrow> bool" where
  "settles settled = (settled = with_request id \<or> settled = with_request (\<lambda>b. b\<lparr>br_state := RequestSettled\<rparr>))"

lemma with_request_id: "with_request id = id"
  by (simp add: with_request_def ext_def option.map_id fun_eq_iff)

lemma send_settlement_ok:
  assumes c: "store_contract (en_store env) opened" and ok: "ctx_ok opened ctx" and cmd: "\<forall>c. command = Some c \<longrightarrow> has_command ctx c"
    and st: "settles settled" and r: "send_settlement env settled command ctx = (res, ctx')"
  shows "step_ok opened ctx ctx'"
proof (cases command)
  case None
  then show ?thesis using r ok step_refl by (simp add: send_settlement_def)
next
  case (Some c0)
  then obtain b where b: "request_of ctx = Some b" "br_settlement_command b = Some c0" using cmd by (auto simp: has_command_def)
  then have i: "sb_request_id c0 = id_of ctx" "br_intent_id b \<noteq> None" using ok by (auto simp: ctx_ok_def local_ok_def)
  obtain answer s where a: "bs_settle (en_store env) c0 (store_of ctx) = (answer, s)" by (metis surj_pair)
  let ?c1 = "set_store s ctx"
  have s1: "step_ok opened ctx ?c1" using ok store_contractD(7) [OF c a] by (intro set_store_ok) auto
  show ?thesis
  proof (cases "\<exists>x. answer = Some (Inr x)")
    case True
    then have n: "\<not> opened s (id_of ctx)" using store_contractD(8) [OF c] a i by metis
    have x: "ctx' = settled (acknowledge_budget_guard ?c1)" using r True Some a by (auto simp: send_settlement_def)
    obtain f where f: "settled = with_request f" "f = id \<or> f = (\<lambda>b. b\<lparr>br_state := RequestSettled\<rparr>)"
      using st by (auto simp: settles_def)
    have "step_ok opened ?c1 (with_request f (acknowledge_budget_guard ?c1))"
      using n b i f(2) step_ctx_ok [OF s1] by (intro release_ok) auto
    then show ?thesis using s1 x f(1) step_trans by metis
  next
    case False
    then have "ctx' = ?c1 \<or> ctx' = with_request (\<lambda>b. b\<lparr>br_state := RetryRequired\<rparr>) ?c1"
      using r Some a by (auto simp: send_settlement_def Let_def split: option.splits sum.splits)
    moreover have "step_ok opened ?c1 (with_request (\<lambda>b. b\<lparr>br_state := RetryRequired\<rparr>) ?c1)"
      using b i step_ctx_ok [OF s1] by (intro with_request_ok) auto
    ultimately show ?thesis using s1 step_trans by blast
  qed
qed

lemma then_send_ok:
  assumes c: "store_contract (en_store env) opened" and st: "settles settled"
    and p: "step_ok opened ctx c1 \<and> (\<forall>c. r1 = Done (Some c) \<longrightarrow> has_command c1 c)"
    and r: "then_run (r1, c1) (send_settlement env settled) = (res, ctx')"
  shows "step_ok opened ctx ctx'"
  using r
proof (cases rule: then_run_cases)
  case (go x c2)
  then have "send_settlement env settled x c1 = (res, ctx')" "\<forall>c. x = Some c \<longrightarrow> has_command c1 c" using p by auto
  then show ?thesis using send_settlement_ok [OF c step_ctx_ok _ st] p step_trans by metis
next
  case (stop e)
  then show ?thesis using p by simp
qed

lemma safe_zero_ok:
  assumes c: "store_contract (en_store env) opened" and ok: "ctx_ok opened ctx" and st: "settles settled"
    and g: "\<forall>b. request_of ctx = Some b \<longrightarrow> br_guard b \<noteq> None \<or> br_state b \<noteq> RequestPaused"
    and r: "then_run (ensure_intent_for_safe_zero env ctx) (\<lambda>_ c1.
      then_run (prepare_safe_zero_settlement env c1) (send_settlement env settled)) = (res, ctx')"
  shows "step_ok opened ctx ctx'"
proof -
  obtain r1 c1 where e: "ensure_intent_for_safe_zero env ctx = (r1, c1)" by (metis surj_pair)
  note s1 = ensure_ok [OF c ok g e]
  from r show ?thesis unfolding e
  proof (cases rule: then_run_cases)
    case (go x c2)
    obtain r2 c3 where p: "prepare_safe_zero_settlement env c1 = (r2, c3)" by (metis surj_pair)
    have "step_ok opened c1 ctx'"
      using go p by (intro then_send_ok [OF c st prepare_safe_zero_ok [OF step_ctx_ok [OF s1] p]]) auto
    then show ?thesis using s1 step_trans by blast
  next
    case (stop e)
    then show ?thesis using s1 by simp
  qed
qed

lemma compensate_ok:
  assumes c: "store_contract (en_store env) opened" and ok: "ctx_ok opened ctx"
    and g: "\<forall>b. request_of ctx = Some b \<longrightarrow> br_state b \<noteq> RequestPaused" and r: "compensate env ctx = (res, ctx')"
  shows "step_ok opened ctx ctx'"
proof (cases "request_of ctx = None")
  case True
  then show ?thesis using r ok step_refl by (simp add: compensate_def)
next
  case False
  then show ?thesis using r g by (intro safe_zero_ok [OF c ok, of id]) (auto simp: compensate_def settles_def with_request_id)
qed

lemma finalize_ok:
  assumes c: "store_contract (en_store env) opened" and ok: "ctx_ok opened ctx" and r: "finalize env ctx = (res, ctx')"
  shows "step_ok opened ctx ctx'"
proof (cases "request_of ctx")
  case None
  then show ?thesis using r ok step_refl by (simp add: finalize_def)
next
  case (Some b)
  let ?s = "with_request (\<lambda>b. b\<lparr>br_state := RequestSettled\<rparr>)"
  have st: "settles ?s" by (simp add: settles_def)
  show ?thesis
  proof (cases "\<not> lc_upstream_attempted (rq_lifecycle ctx) \<and> br_intent_id b = None \<and> br_create_command b \<noteq> None \<and> br_guard b \<noteq> None")
    case True
    then show ?thesis using r Some by (intro safe_zero_ok [OF c ok st]) (auto simp: finalize_def)
  next
    case False
    obtain r1 c1 where p: "prepare_final_settlement env ctx = (r1, c1)" by (metis surj_pair)
    have "then_run (r1, c1) (send_settlement env ?s) = (res, ctx')" using r Some False p by (auto simp: finalize_def Let_def)
    then show ?thesis by (rule then_send_ok [OF c st prepare_final_ok [OF ok p]])
  qed
qed

end
