(* ===== verification/AI_Pricing_Laws.thy ===== *)
theory AI_Pricing_Laws
  imports AI_Pricing
begin

text \<open>
  What the checks of the price list buy: at every instant a model has at most one price, whatever the
  order of the list, the required models are always priced, and the cost of a call is exact.
\<close>

section \<open>At most one price\<close>

lemma periods_overlap_sym: "periods_overlap m a b = periods_overlap m b a"
  by (auto simp: periods_overlap_def)

lemma first_overlap_None:
  "first_overlap m cs = None \<Longrightarrow> sorted_wrt (\<lambda>c d. \<not> periods_overlap m (snd c) (snd d)) cs"
  by (induction cs) (auto simp: find_None_iff split: option.splits)

lemma first_conflict_None:
  "first_conflict m ms ks = None \<Longrightarrow> k \<in> set ks \<Longrightarrow> first_overlap m (map snd (filter (\<lambda>x. fst x = k) ms)) = None"
  by (induction ks) (auto split: option.splits)

lemma sorted_wrt_apart:
  assumes "sorted_wrt R xs" "\<And>x y. R x y \<Longrightarrow> R y x" "x \<in> set xs" "y \<in> set xs" "x \<noteq> y"
  shows "R x y"
proof -
  obtain i j where "i < length xs" "j < length xs" "x = xs ! i" "y = xs ! j" using assms(3,4) by (metis in_set_conv_nth)
  then show ?thesis using sorted_wrt_nth_less [OF assms(1)] assms(2,5) by (metis linorder_neqE_nat)
qed

lemma active_overlap:
  assumes "price_active p t a" "price_active p t b" "t < m"
  shows "periods_overlap m a b"
  using assms by (auto simp: price_active_def periods_overlap_def Let_def split: option.splits)

lemma matchers_apart:
  assumes v: "validate_conflicts m entries = None"
    and a: "(key, ka, ea) \<in> set (matchers entries)" and b: "(key, kb, eb) \<in> set (matchers entries)" and d: "(ka, ea) \<noteq> (kb, eb)"
  shows "\<not> periods_overlap m ea eb"
proof -
  let ?cs = "map snd (filter (\<lambda>y. fst y = key) (matchers entries))"
  have "key \<in> set (sort_by cmp_key (remdups (map fst (matchers entries))))" using a by force
  then have "sorted_wrt (\<lambda>c d. \<not> periods_overlap m (snd c) (snd d)) ?cs"
    using v first_overlap_None first_conflict_None by (simp add: validate_conflicts_def Let_def)
  moreover have "(ka, ea) \<in> set ?cs" "(kb, eb) \<in> set ?cs" using a b by force+
  ultimately show ?thesis
    using sorted_wrt_apart [of "\<lambda>c d. \<not> periods_overlap m (snd c) (snd d)" ?cs "(ka, ea)" "(kb, eb)"] periods_overlap_sym d by auto
qed

lemma matcher_unique:
  assumes v: "validate_conflicts m entries = None" and t: "t < m"
    and a: "((p, x), ka, ea) \<in> set (matchers entries)" "price_active p t ea"
    and b: "((p, x), kb, eb) \<in> set (matchers entries)" "price_active p t eb"
  shows "ka = kb \<and> ea = eb"
  using matchers_apart [OF v a(1) b(1)] active_overlap [OF a(2) b(2) t] by blast

lemma in_matchers:
  assumes "e \<in> set entries" "pe_provider_type e = p"
  shows "x \<in> set (pe_model_ids e) \<Longrightarrow> ((p, x), MatchId, e) \<in> set (matchers entries)"
    "x \<in> set (pe_aliases e) \<Longrightarrow> ((p, x), MatchAlias, e) \<in> set (matchers entries)"
    "x \<in> set (pe_prefixes e) \<Longrightarrow> ((p, x), MatchPrefix, e) \<in> set (matchers entries)"
  using assms by (auto simp: matchers_def entry_matchers_def)

lemma find_unique:
  assumes "\<And>x y. x \<in> set xs \<Longrightarrow> y \<in> set xs \<Longrightarrow> P x \<Longrightarrow> P y \<Longrightarrow> x = y"
  shows "List.find P xs = Some x \<longleftrightarrow> x \<in> set xs \<and> P x"
  using assms by (induction xs) auto

lemma find_unique_cong:
  assumes "\<And>x y. x \<in> set xs \<Longrightarrow> y \<in> set xs \<Longrightarrow> P x \<Longrightarrow> P y \<Longrightarrow> x = y" "set xs = set ys"
  shows "List.find P xs = List.find P ys"
proof -
  have "List.find P xs = Some x \<longleftrightarrow> List.find P ys = Some x" for x
    using find_unique [of xs P x] find_unique [of ys P x] assms by auto
  then show ?thesis by (metis option.exhaust)
qed

section \<open>The longest prefix\<close>

fun longer :: "string \<Rightarrow> (PriceEntry \<times> nat) option \<Rightarrow> PriceEntry \<times> string \<Rightarrow> (PriceEntry \<times> nat) option" where
  "longer model best (e, p) =
     (if starts_with model p \<and> (case best of None \<Rightarrow> True | Some (_, current) \<Rightarrow> current < length p)
      then Some (e, length p) else best)"

definition priced_candidates :: "PriceEntry list \<Rightarrow> (PriceEntry \<times> string) list" where
  "priced_candidates es = concat (map (\<lambda>e. map (Pair e) (pe_prefixes e)) es)"

lemma better_prefix_foldl: "better_prefix model e ps best = foldl (longer model) best (map (Pair e) ps)"
  by (induction ps arbitrary: best) simp_all

lemma prefix_search:
  "foldl (\<lambda>best e. better_prefix model e (pe_prefixes e) best) best es = foldl (longer model) best (priced_candidates es)"
  by (induction es arbitrary: best) (auto simp: better_prefix_foldl priced_candidates_def)

definition best_so_far :: "string \<Rightarrow> (PriceEntry \<times> string) set \<Rightarrow> (PriceEntry \<times> nat) option \<Rightarrow> bool" where
  "best_so_far model cs best =
     (case best of
        None \<Rightarrow> \<forall>c \<in> cs. \<not> starts_with model (snd c)
      | Some (e, n) \<Rightarrow> (\<exists>p. (e, p) \<in> cs \<and> starts_with model p \<and> length p = n) \<and>
          (\<forall>c \<in> cs. starts_with model (snd c) \<longrightarrow> length (snd c) \<le> n))"

lemma longer_best: "best_so_far model cs best \<Longrightarrow> best_so_far model (insert c cs) (longer model best c)"
  by (cases c) (fastforce simp: best_so_far_def split: option.splits if_splits)

lemma foldl_longer_best: "best_so_far model cs best \<Longrightarrow> best_so_far model (cs \<union> set xs) (foldl (longer model) best xs)"
proof (induction xs arbitrary: best cs)
  case (Cons x xs)
  from Cons.IH [OF longer_best [OF Cons.prems, of x]] show ?case by simp
qed simp

lemma same_prefix: "starts_with model p \<Longrightarrow> starts_with model q \<Longrightarrow> length p = length q \<Longrightarrow> p = q"
  by (auto simp: starts_with_def prefix_def)

lemma best_unique:
  assumes "best_so_far model cs a" "best_so_far model cs b"
    and "\<And>p e e'. (e, p) \<in> cs \<Longrightarrow> (e', p) \<in> cs \<Longrightarrow> starts_with model p \<Longrightarrow> e = e'"
  shows "map_option fst a = map_option fst b"
proof (cases a)
  case None
  then show ?thesis using assms(1,2) by (cases b) (fastforce simp: best_so_far_def)+
next
  case (Some en)
  obtain e n where en: "en = (e, n)" by (cases en)
  obtain p where p: "(e, p) \<in> cs" "starts_with model p" "length p = n" "\<forall>c \<in> cs. starts_with model (snd c) \<longrightarrow> length (snd c) \<le> n"
    using assms(1) Some en by (auto simp: best_so_far_def)
  then obtain e' n' where b: "b = Some (e', n')" using assms(2) by (cases b) (auto simp: best_so_far_def)
  obtain q where q: "(e', q) \<in> cs" "starts_with model q" "length q = n'" "\<forall>c \<in> cs. starts_with model (snd c) \<longrightarrow> length (snd c) \<le> n'"
    using assms(2) b by (auto simp: best_so_far_def)
  have "n = n'" using p q by (metis le_antisym snd_conv)
  then have "p = q" using same_prefix [OF p(2) q(2)] p(3) q(3) by simp
  then show ?thesis using assms(3) [OF p(1) _ p(2)] q(1) Some en b by simp
qed

section \<open>The price of a model\<close>

lemma active_provider: "e \<in> set (filter (price_active p t) es) \<Longrightarrow> e \<in> set es \<and> pe_provider_type e = p \<and> price_active p t e"
  by (auto simp: price_active_def)

lemma entry_unique:
  assumes "validate_conflicts m es = None" "t < m"
    and "e \<in> set (filter (price_active p t) es)" "e' \<in> set (filter (price_active p t) es)"
    and "x \<in> set (pe_model_ids e) \<and> x \<in> set (pe_model_ids e') \<or> x \<in> set (pe_aliases e) \<and> x \<in> set (pe_aliases e') \<or>
      x \<in> set (pe_prefixes e) \<and> x \<in> set (pe_prefixes e')"
  shows "e = e'"
  using assms(5) matcher_unique [OF assms(1,2)] in_matchers [of e es p x] in_matchers [of e' es p x]
    active_provider [OF assms(3)] active_provider [OF assms(4)] by blast

text \<open>
  A price list that passes the check for conflicts gives a model the same price whatever the
  order of its entries: at every instant at most one entry has the model as an id, as an alias, or as the
  text of its longest matching prefix.
\<close>

theorem price_independent_of_list_order:
  assumes "validate_conflicts max_utc (pc_entries catalog) = None" and "mset entries = mset (pc_entries catalog)" and "t < max_utc"
  shows "find_entry (catalog\<lparr>pc_entries := entries\<rparr>) provider model t = find_entry catalog provider model t"
proof -
  let ?a = "filter (price_active provider t) (pc_entries catalog)" and ?b = "filter (price_active provider t) entries"
  have s: "set ?b = set ?a" using mset_eq_setD [OF assms(2)] by auto
  note u = entry_unique [OF assms(1,3)]
  have "List.find (\<lambda>e. model \<in> set (pe_model_ids e)) ?a = List.find (\<lambda>e. model \<in> set (pe_model_ids e)) ?b"
    "List.find (\<lambda>e. model \<in> set (pe_aliases e)) ?a = List.find (\<lambda>e. model \<in> set (pe_aliases e)) ?b"
    by (rule find_unique_cong; use u s in blast)+
  moreover
  have c: "set (priced_candidates ?b) = set (priced_candidates ?a)" using s unfolding priced_candidates_def by auto
  have "best_so_far model {} None" by (simp add: best_so_far_def)
  then have "best_so_far model (set (priced_candidates ?a)) (foldl (longer model) None (priced_candidates ?a))"
    "best_so_far model (set (priced_candidates ?a)) (foldl (longer model) None (priced_candidates ?b))"
    using foldl_longer_best [of model "{}" None "priced_candidates ?a"] foldl_longer_best [of model "{}" None "priced_candidates ?b"] c by simp_all
  then have "map_option fst (foldl (longer model) None (priced_candidates ?a)) = map_option fst (foldl (longer model) None (priced_candidates ?b))"
  proof (rule best_unique)
    fix p e e' assume "(e, p) \<in> set (priced_candidates ?a)" "(e', p) \<in> set (priced_candidates ?a)"
    then show "e = e'" using u [of e provider e' p] by (auto simp: priced_candidates_def)
  qed
  ultimately show ?thesis unfolding find_entry_def Let_def prefix_search by (simp split: option.split)
qed

section \<open>Required prices\<close>

lemma find_entry_id:
  assumes "validate_conflicts m (pc_entries catalog) = None" "t < m" "e \<in> set (pc_entries catalog)" "price_active p t e"
  shows "x \<in> set (pe_model_ids e) \<Longrightarrow> find_entry catalog p x t = Some e"
    "x \<in> set (pe_aliases e) \<Longrightarrow> find_entry catalog p x t = Some e"
proof -
  let ?a = "filter (price_active p t) (pc_entries catalog)"
  note u = entry_unique [OF assms(1,2)]
  have e: "e \<in> set ?a" using assms(3,4) by simp
  have "List.find (\<lambda>e. x \<in> set (pe_model_ids e)) ?a = Some e" if "x \<in> set (pe_model_ids e)"
    by (rule find_unique [THEN iffD2]) (use u e that in blast)+
  then show "x \<in> set (pe_model_ids e) \<Longrightarrow> find_entry catalog p x t = Some e" by (simp add: find_entry_def)
  assume x: "x \<in> set (pe_aliases e)"
  have "x \<notin> set (pe_model_ids e')" if "e' \<in> set ?a" for e'
    using matcher_unique [OF assms(1,2), of p x MatchAlias e MatchId e'] in_matchers [of e "pc_entries catalog" p x]
      in_matchers [of e' "pc_entries catalog" p x] active_provider [OF e] active_provider [OF that] x by blast
  then have "List.find (\<lambda>e. x \<in> set (pe_model_ids e)) ?a = None" by (auto simp: find_None_iff)
  moreover have "List.find (\<lambda>e. x \<in> set (pe_aliases e)) ?a = Some e"
    by (rule find_unique [THEN iffD2]) (use u e x in blast)+
  ultimately show "find_entry catalog p x t = Some e" by (simp add: find_entry_def)
qed

lemma validate_specs_None: "validate_specs es rs = None \<Longrightarrow> r \<in> set rs \<Longrightarrow> validate_required_entry es r = None"
  by (induction rs) (auto split: option.splits)

lemma required_entry:
  assumes "validate_required_entry es r = None"
  shows "\<exists>e \<in> set es. pe_provider_type e = rs_provider_type r \<and> rs_model_id r \<in> set (pe_model_ids e) \<and>
    pe_effective_from e = rs_effective_from r \<and> pe_effective_to e = rs_effective_to r \<and> set (rs_aliases r) \<subseteq> set (pe_aliases e) \<and>
    dec_eq (pe_input e) (rs_input r) \<and> dec_eq (pe_output e) (rs_output r) \<and> pe_max_prompt_tokens e = rs_max_prompt_tokens r"
proof -
  let ?P = "\<lambda>e. pe_provider_type e = rs_provider_type r \<and> rs_model_id r \<in> set (pe_model_ids e) \<and> pe_effective_from e = rs_effective_from r"
  obtain e where f: "List.find ?P es = Some e" using assms by (auto simp: validate_required_entry_def Let_def split: option.splits)
  have "e \<in> set es" "?P e" using f by (auto simp: find_Some_iff)
  moreover have "List.find (\<lambda>a. a \<notin> set (pe_aliases e)) (rs_aliases r) = None"
    using assms f by (auto simp: validate_required_entry_def Let_def split: option.splits if_splits)
  ultimately show ?thesis
    using assms f by (auto simp: validate_required_entry_def Let_def find_None_iff split: option.splits if_splits)
qed

text \<open>
  In every price list that is accepted the required models are priced at every instant of their
  period, under their id and under each of their aliases, at exactly the prices and the prompt limit the
  program prescribes; so the price of a model with two periods changes at the boundary without a gap.
\<close>

theorem required_prices_always_apply:
  assumes "catalog_from_raw dl date max_utc json = Inr catalog" and "r \<in> set REQUIRED_PRICE_SPECS"
    and "rs_effective_from r \<le> t" "\<forall>e. rs_effective_to r = Some e \<longrightarrow> t < e" "t < max_utc"
    and "model = rs_model_id r \<or> model \<in> set (rs_aliases r)"
  shows "\<exists>e. find_entry catalog (rs_provider_type r) model t = Some e \<and> dec_val (pe_input e) = dec_val (rs_input r) \<and>
    dec_val (pe_output e) = dec_val (rs_output r) \<and>
    max_prompt_tokens catalog (rs_provider_type r) model t = rs_max_prompt_tokens r"
proof -
  have v: "validate_conflicts max_utc (pc_entries catalog) = None" "validate_specs (pc_entries catalog) REQUIRED_PRICE_SPECS = None"
    using assms(1) by (auto simp: catalog_from_raw_def validate_required_entries_def split: option.splits if_splits sum.splits)
  obtain e where e: "e \<in> set (pc_entries catalog)" "pe_provider_type e = rs_provider_type r" "rs_model_id r \<in> set (pe_model_ids e)"
    "pe_effective_from e = rs_effective_from r" "pe_effective_to e = rs_effective_to r" "set (rs_aliases r) \<subseteq> set (pe_aliases e)"
    "dec_eq (pe_input e) (rs_input r)" "dec_eq (pe_output e) (rs_output r)" "pe_max_prompt_tokens e = rs_max_prompt_tokens r"
    using required_entry [OF validate_specs_None [OF v(2) assms(2)]] by blast
  have "price_active (rs_provider_type r) t e" using e assms(3,4) by (auto simp: price_active_def split: option.splits)
  then have "find_entry catalog (rs_provider_type r) model t = Some e"
    using find_entry_id [OF v(1) assms(5) e(1)] assms(6) e(3,6) by blast
  then show ?thesis using e(7-9) by (auto simp: dec_eq_val max_prompt_tokens_def)
qed

section \<open>An accepted list is well-formed\<close>

definition price_entry_wf :: "PriceEntry \<Rightarrow> bool" where
  "price_entry_wf e =
     (trim (pe_provider_type e) \<noteq> [] \<and> pe_model_ids e @ pe_aliases e @ pe_prefixes e \<noteq> [] \<and> [] \<notin> set (pe_prefixes e) \<and> trim (pe_source_url e) \<noteq> [] \<and>
      (\<forall>a \<in> set (pe_aliases e). CHR ''*'' \<notin> set a \<and> \<not> ends_with a ''-latest'') \<and>
      (\<forall>t. pe_effective_to e = Some t \<longrightarrow> pe_effective_from e < t) \<and> (\<forall>n. pe_max_prompt_tokens e = Some n \<longrightarrow> 0 \<le> n) \<and>
      (\<forall>rate \<in> {pe_input e, pe_output e}. dec_scale rate \<le> 12 \<and> 0 \<le> dec_val rate \<and> dec_val rate < 10 ^ 16))"

lemma fits_val: "fits_numeric_28_12 d \<Longrightarrow> dec_scale d \<le> 12 \<and> 0 \<le> dec_val d \<and> dec_val d < 10 ^ 16"
  by (auto simp: fits_numeric_28_12_def dec_le_val MAX_NUMERIC_28_12_def dec_val_def [of "\<lparr>dec_mantissa = _, dec_scale = _\<rparr>"])

lemma parse_rate_wf: "parse_rate dl v = Inr d \<Longrightarrow> dec_scale d \<le> 12 \<and> 0 \<le> dec_val d \<and> dec_val d < 10 ^ 16"
  using fits_val by (auto simp: parse_rate_def split: option.splits if_splits)

lemma validate_matchers_wf:
  "validate_matchers raw = None \<Longrightarrow> trim (rw_provider_type raw) \<noteq> [] \<and> rw_model_ids raw @ rw_aliases raw @ rw_prefixes raw \<noteq> [] \<and>
    [] \<notin> set (rw_prefixes raw) \<and> (\<forall>a \<in> set (rw_aliases raw). CHR ''*'' \<notin> set a \<and> \<not> ends_with a ''-latest'')"
  by (auto simp: validate_matchers_def find_None_iff list_ex_iff split: option.splits if_splits)

lemma read_entry_wf: "read_entry dl raw = Inr e \<Longrightarrow> price_entry_wf e"
  using validate_matchers_wf [of raw] parse_rate_wf [of dl "rw_input_usd_per_million raw"] parse_rate_wf [of dl "rw_output_usd_per_million raw"]
  unfolding read_entry_def price_entry_wf_def
  by (cases "parse_rate dl (rw_input_usd_per_million raw)"; cases "parse_rate dl (rw_output_usd_per_million raw)")
    (auto split: option.splits if_splits)

lemma read_entries_wf: "read_entries dl raws = Inr es \<Longrightarrow> e \<in> set es \<Longrightarrow> price_entry_wf e"
  by (induction raws arbitrary: es) (auto split: sum.splits dest: read_entry_wf)

text \<open>
  C33. A price list that is accepted is well-formed. Every entry has a provider, a source and something it matches, no
  empty prefix and no alias for a moving target; its period is not empty, its token limit is not negative, and its
  prices are non-negative with at most twelve places and below \<open>10 ^ 16\<close>. No two matchers with the same provider and
  text belong to overlapping periods.
\<close>

theorem accepted_catalog_is_wellformed:
  assumes "catalog_from_raw dl date max_utc json = Inr catalog"
  shows "pc_schema_version catalog = 1 \<and> pc_entries catalog \<noteq> [] \<and> (\<forall>e \<in> set (pc_entries catalog). price_entry_wf e) \<and>
    (\<forall>key ka kb ea eb. (key, ka, ea) \<in> set (matchers (pc_entries catalog)) \<and> (key, kb, eb) \<in> set (matchers (pc_entries catalog)) \<and>
       (ka, ea) \<noteq> (kb, eb) \<longrightarrow> \<not> periods_overlap max_utc ea eb)"
proof -
  obtain raw :: RawCatalog where raw: "rc_schema_version raw = 1" "rc_entries raw \<noteq> []" "read_entries dl (rc_entries raw) = Inr (pc_entries catalog)"
    "validate_conflicts max_utc (pc_entries catalog) = None" "pc_schema_version catalog = rc_schema_version raw"
    using assms by (auto simp: catalog_from_raw_def split: option.splits if_splits sum.splits)
  have "pc_entries catalog \<noteq> []" using raw(2,3) by (cases "rc_entries raw") (auto split: sum.splits)
  moreover have "\<forall>e \<in> set (pc_entries catalog). price_entry_wf e" using read_entries_wf [OF raw(3)] by blast
  ultimately show ?thesis using raw(1,5) matchers_apart [OF raw(4)] by auto
qed

section \<open>The cost is exact\<close>

lemma representable_frac: "\<bar>k\<bar> < 2 ^ 96 \<Longrightarrow> n \<le> 28 \<Longrightarrow> representable (of_int k / 10 ^ n)"
  unfolding representable_def by (rule exI [of _ "\<lparr>dec_mantissa = k, dec_scale = n\<rparr>"]) (simp add: dec_val_def)

lemma dec_val_scaled:
  assumes "dec_scale d \<le> n"
  shows "dec_val d = of_int (dec_mantissa d * 10 ^ (n - dec_scale d)) / 10 ^ n"
proof -
  have "(10 :: rat) ^ n = 10 ^ dec_scale d * 10 ^ (n - dec_scale d)" using assms by (metis le_add_diff_inverse power_add)
  then show ?thesis by (simp add: dec_val_def)
qed

lemma decimal_exact:
  assumes "decimal_lib_ok dl" "representable x"
  shows "dec_val a * dec_val b = x \<Longrightarrow> \<exists>d. dl_checked_mul dl a b = Some d \<and> dec_val d = x"
    "dec_val a + dec_val b = x \<Longrightarrow> \<exists>d. dl_checked_add dl a b = Some d \<and> dec_val d = x"
    "dec_val b \<noteq> 0 \<Longrightarrow> dec_val a / dec_val b = x \<Longrightarrow> \<exists>d. dl_checked_div dl a b = Some d \<and> dec_val d = x"
  using assms by (auto simp: decimal_lib_ok_def exact_on_def)

lemma rate_units:
  assumes "dec_scale d \<le> 12" "0 \<le> dec_val d" "dec_val d \<le> 10 ^ 4"
  obtains k where "dec_val d = of_int k / 10 ^ 12" "0 \<le> k" "k \<le> 10 ^ 16"
proof
  let ?k = "dec_mantissa d * 10 ^ (12 - dec_scale d)"
  show v: "dec_val d = of_int ?k / 10 ^ 12" by (rule dec_val_scaled [OF assms(1)])
  have "(of_int 0 :: rat) \<le> of_int ?k" using assms(2) unfolding v by simp
  then show "0 \<le> ?k" by (simp only: of_int_le_iff)
  have "(of_int ?k :: rat) \<le> of_int (10 ^ 16)" using assms(3) unfolding v by (simp add: field_simps)
  then show "?k \<le> 10 ^ 16" by (simp only: of_int_le_iff)
qed

lemma round12_near: "0 \<le> x \<Longrightarrow> 0 \<le> round12 x \<and> \<bar>round12 x - x\<bar> \<le> 1 / (2 * 10 ^ 12)"
proof -
  assume x: "0 \<le> x"
  let ?y = "x * 10 ^ 12 + 1 / 2"
  have r: "round12 x = of_int \<lfloor>?y\<rfloor> / 10 ^ 12" using x by (simp add: round12_def)
  have f: "of_int \<lfloor>?y\<rfloor> \<le> ?y" "?y < of_int \<lfloor>?y\<rfloor> + 1" by linarith+
  have "0 \<le> \<lfloor>?y\<rfloor>" using x by simp
  then have "0 \<le> round12 x" by (simp add: r)
  moreover have "round12 x - x \<le> 1 / (2 * 10 ^ 12)" "x - round12 x \<le> 1 / (2 * 10 ^ 12)"
    using f by (simp_all add: r field_simps)
  ultimately show ?thesis by linarith
qed

text \<open>
  The cost of a call is the exact sum of prompt tokens at the input price and completion tokens
  at the output price per million, rounded once to twelve places; nothing is lost on the way for up to
  a billion tokens each and prices up to ten thousand dollars. It counts as calculated if the
  provider reported the usage and as estimated otherwise.
\<close>

lemma cost_is_exact:
  assumes dl: "decimal_lib_ok dl"
    and pr: "rp_input pricing = Some pin" "rp_output pricing = Some pout" "rp_status pricing \<noteq> UnsupportedPricing"
    and rates: "dec_scale (ps_usd_per_million pin) \<le> 12" "0 \<le> dec_val (ps_usd_per_million pin)" "dec_val (ps_usd_per_million pin) \<le> 10 ^ 4"
      "dec_scale (ps_usd_per_million pout) \<le> 12" "0 \<le> dec_val (ps_usd_per_million pout)" "dec_val (ps_usd_per_million pout) \<le> 10 ^ 4"
    and tok: "0 \<le> tf_value p" "tf_value p \<le> 10 ^ 9" "0 \<le> tf_value c" "tf_value c \<le> 10 ^ 9"
    and exact: "exact = (of_int (tf_value p) * dec_val (ps_usd_per_million pin) + of_int (tf_value c) * dec_val (ps_usd_per_million pout)) / 10 ^ 6"
  shows "\<exists>cost. calculate_cost dl pricing (Some p) (Some c) source True False =
      \<lparr>cc_cost_usd = Some cost, cc_status = (if source = ProviderUsage then Calculated else Estimated), cc_unavailable_reasons = []\<rparr> \<and>
    dec_val cost = round12 exact \<and> \<bar>dec_val cost - exact\<bar> \<le> 1 / (2 * 10 ^ 12)"
proof -
  let ?ri = "ps_usd_per_million pin" and ?ro = "ps_usd_per_million pout"
  obtain i where i: "dec_val ?ri = of_int i / 10 ^ 12" "0 \<le> i" "i \<le> 10 ^ 16" by (rule rate_units [OF rates(1-3)])
  obtain j where j: "dec_val ?ro = of_int j / 10 ^ 12" "0 \<le> j" "j \<le> 10 ^ 16" by (rule rate_units [OF rates(4-6)])
  define a where "a = tf_value p * i"
  define b where "b = tf_value c * j"
  have ab: "0 \<le> a" "a \<le> 10 ^ 25" "0 \<le> b" "b \<le> 10 ^ 25"
    using tok i j mult_mono [of "tf_value p" "10 ^ 9" i "10 ^ 16"] mult_mono [of "tf_value c" "10 ^ 9" j "10 ^ 16"]
    by (simp_all add: a_def b_def)
  have v: "dec_val (dec_of_int (tf_value p)) * dec_val ?ri = of_int a / 10 ^ 12"
    "dec_val (dec_of_int (tf_value c)) * dec_val ?ro = of_int b / 10 ^ 12"
    by (simp_all add: i j a_def b_def)
  have rep: "representable (of_int a / 10 ^ 12)" "representable (of_int b / 10 ^ 12)" "representable (of_int (a + b) / 10 ^ 12)"
    "representable (of_int (a + b) / 10 ^ 18)"
    using ab by (intro representable_frac; simp)+
  obtain d1 where d1: "dl_checked_mul dl (dec_of_int (tf_value p)) ?ri = Some d1" "dec_val d1 = of_int a / 10 ^ 12"
    using decimal_exact(1) [OF dl rep(1) v(1)] by blast
  obtain d2 where d2: "dl_checked_mul dl (dec_of_int (tf_value c)) ?ro = Some d2" "dec_val d2 = of_int b / 10 ^ 12"
    using decimal_exact(1) [OF dl rep(2) v(2)] by blast
  have s: "dec_val d1 + dec_val d2 = of_int (a + b) / 10 ^ 12" by (simp add: d1 d2 add_divide_distrib)
  obtain d3 where d3: "dl_checked_add dl d1 d2 = Some d3" "dec_val d3 = of_int (a + b) / 10 ^ 12"
    using decimal_exact(2) [OF dl rep(3) s] by blast
  have ex: "exact = of_int (a + b) / 10 ^ 18" using v by (simp add: exact add_divide_distrib)
  have q: "dec_val d3 / dec_val (dec_of_int 1000000) = of_int (a + b) / 10 ^ 18" by (simp add: d3)
  obtain d4 where d4: "dl_checked_div dl d3 (dec_of_int 1000000) = Some d4" "dec_val d4 = exact"
    using decimal_exact(3) [OF dl rep(4) _ q] by (auto simp: ex)
  let ?c = "dl_round12 dl d4"
  have c: "dec_val ?c = round12 exact" "dec_scale ?c \<le> 12" using dl d4(2) by (auto simp: decimal_lib_ok_def)
  have n: "0 \<le> round12 exact" "\<bar>round12 exact - exact\<bar> \<le> 1 / (2 * 10 ^ 12)"
    using round12_near [of exact] ab by (auto simp: ex)
  have "exact \<le> 2 * 10 ^ 7"
  proof -
    have "(of_int (a + b) :: rat) \<le> of_int (2 * 10 ^ 25)" using ab by (subst of_int_le_iff) simp
    then show ?thesis by (simp add: ex field_simps)
  qed
  moreover have "round12 exact - exact \<le> 1 / (2 * 10 ^ 12)" using n(2) by linarith
  moreover have "1 / (2 * 10 ^ 12) \<le> (1 :: rat)" by simp
  ultimately have "round12 exact \<le> 2 * 10 ^ 7 + 1" by linarith
  then have "round12 exact \<le> dec_val MAX_NUMERIC_28_12" by (simp add: dec_val_def MAX_NUMERIC_28_12_def)
  then have "fits_numeric_28_12 ?c" using c n(1) by (simp add: fits_numeric_28_12_def dec_le_val)
  then have "cost_arithmetic dl ?ri ?ro (tf_value p) (tf_value c) = Some ?c"
    by (simp add: cost_arithmetic_def d1 d2 d3 d4)
  then have "calculate_cost dl pricing (Some p) (Some c) source True False =
      \<lparr>cc_cost_usd = Some ?c, cc_status = (if source = ProviderUsage then Calculated else Estimated), cc_unavailable_reasons = []\<rparr>"
    using pr by (simp add: calculate_cost_def reason_set_def sort_by_def)
  then show ?thesis using c(1) n(2) by auto
qed

section \<open>Concrete lists and numbers\<close>

text \<open>Decimal arithmetic that is exact up to 28 places.\<close>

definition ex_decimal :: decimal_lib where
  "ex_decimal =
     \<lparr>dl_checked_mul = (\<lambda>a b. Some \<lparr>dec_mantissa = dec_mantissa a * dec_mantissa b, dec_scale = dec_scale a + dec_scale b\<rparr>),
      dl_checked_add = (\<lambda>a b. Some \<lparr>dec_mantissa = dec_mantissa a * 10 ^ dec_scale b + dec_mantissa b * 10 ^ dec_scale a,
        dec_scale = dec_scale a + dec_scale b\<rparr>),
      dl_checked_div = (\<lambda>a b. if dec_mantissa b = 0 then None
        else Some \<lparr>dec_mantissa = (dec_mantissa a * 10 ^ (dec_scale b + 28)) div (dec_mantissa b * 10 ^ dec_scale a), dec_scale = 28\<rparr>),
      dl_round12 = (\<lambda>a. let r = (\<lambda>m. (2 * m * 10 ^ 12 + 10 ^ dec_scale a) div (2 * 10 ^ dec_scale a))
        in \<lparr>dec_mantissa = (if 0 \<le> dec_mantissa a then r (dec_mantissa a) else - r (- dec_mantissa a)), dec_scale = 12\<rparr>),
      dl_normalize = id, dl_rescale12 = (\<lambda>a. \<lparr>dec_mantissa = dec_mantissa a * 10 ^ (12 - dec_scale a), dec_scale = 12\<rparr>),
      dl_from_str = map_of [(''0.3'', cents 30), (''1'', cents 100), (''1.5'', cents 150), (''2'', cents 200), (''2.5'', cents 250),
        (''3'', cents 300), (''5'', cents 500), (''6'', cents 600), (''7.5'', cents 750), (''9'', cents 900), (''10'', cents 1000),
        (''15'', cents 1500), (''25'', cents 2500), (''30'', cents 3000), (''50'', cents 5000)],
      dl_to_string = (\<lambda>d. nat_to_string (nat (dec_mantissa d)))\<rparr>"

lemma ex_round: "of_int ((2 * m * 10 ^ 12 + 10 ^ s) div (2 * 10 ^ s)) / 10 ^ 12 = (of_int \<lfloor>(of_int m :: rat) / 10 ^ s * 10 ^ 12 + 1 / 2\<rfloor> / 10 ^ 12 :: rat)"
proof -
  have "(of_int m :: rat) / 10 ^ s * 10 ^ 12 + 1 / 2 = of_int (2 * m * 10 ^ 12 + 10 ^ s) / of_int (2 * 10 ^ s)"
    by (simp add: field_simps)
  then show ?thesis by (simp only: floor_divide_of_int_eq)
qed

lemma ex_div:
  assumes "dec_mantissa b \<noteq> 0" "representable (dec_val a / dec_val b)"
  shows "of_int ((dec_mantissa a * 10 ^ (dec_scale b + 28)) div (dec_mantissa b * 10 ^ dec_scale a)) / 10 ^ 28 = dec_val a / dec_val b"
proof -
  obtain d where d: "dec_scale d \<le> 28" "dec_val d = dec_val a / dec_val b" using assms(2) by (auto simp: representable_def)
  let ?q = "dec_mantissa d * 10 ^ (28 - dec_scale d)"
  have q: "dec_val a / dec_val b = of_int ?q / 10 ^ 28" using dec_val_scaled [OF d(1)] d(2) by simp
  then have "(of_int (dec_mantissa a * 10 ^ (dec_scale b + 28)) :: rat) = of_int (?q * (dec_mantissa b * 10 ^ dec_scale a))"
    using assms(1) by (simp add: dec_val_def field_simps power_add)
  then have "dec_mantissa a * 10 ^ (dec_scale b + 28) = ?q * (dec_mantissa b * 10 ^ dec_scale a)" by (simp only: of_int_eq_iff)
  then show ?thesis using assms(1) q by simp
qed

lemma ex_decimal_ok: "decimal_lib_ok ex_decimal"
proof -
  have "exact_on (*) (dl_checked_mul ex_decimal)" "exact_on (+) (dl_checked_add ex_decimal)"
    by (simp_all add: exact_on_def ex_decimal_def dec_val_def power_add field_simps)
  moreover have "\<exists>d. dl_checked_div ex_decimal a b = Some d \<and> dec_val d = dec_val a / dec_val b"
    if "dec_val b \<noteq> 0" "representable (dec_val a / dec_val b)" for a b
    using that ex_div [of b a] by (auto simp: ex_decimal_def dec_val_def)
  moreover have "dec_scale (dl_round12 ex_decimal a) \<le> 12 \<and> dec_val (dl_round12 ex_decimal a) = round12 (dec_val a)" for a
    using ex_round [of "dec_mantissa a" "dec_scale a"] ex_round [of "- dec_mantissa a" "dec_scale a"]
    by (auto simp: ex_decimal_def Let_def dec_val_def round12_def pos_le_divide_eq)
  moreover have "dl_normalize ex_decimal a = a" for a by (simp add: ex_decimal_def)
  moreover have "dec_scale (dl_rescale12 ex_decimal a) = 12 \<and> dec_val (dl_rescale12 ex_decimal a) = dec_val a" if "dec_scale a \<le> 12" for a
    using dec_val_scaled [OF that] by (simp add: ex_decimal_def dec_val_def)
  ultimately show ?thesis by (auto simp: decimal_lib_ok_def)
qed

definition ex_entry :: "string list \<Rightarrow> string list \<Rightarrow> int \<Rightarrow> PriceEntry" where
  "ex_entry ids pfs price =
     \<lparr>pe_provider_type = ''p'', pe_model_ids = ids, pe_aliases = [], pe_prefixes = pfs, pe_input = cents price, pe_output = cents price,
      pe_effective_from = 0, pe_effective_to = None, pe_max_prompt_tokens = None, pe_source_url = ''u''\<rparr>"

definition ex_catalog :: PriceCatalog where
  "ex_catalog = \<lparr>pc_schema_version = 1, pc_catalog_version = ''v'', pc_snapshot_date = 0,
     pc_entries = [ex_entry [''a-1''] [''a''] 100, ex_entry [''b''] [''a-''] 200]\<rparr>"

theorem price_independent_of_list_order_witness:
  "find_entry (ex_catalog\<lparr>pc_entries := rev (pc_entries ex_catalog)\<rparr>) ''p'' ''a-2'' 5 = Some (ex_entry [''b''] [''a-''] 200)"
proof -
  have "validate_conflicts 1000 (pc_entries ex_catalog) = None" by code_simp
  moreover have "find_entry ex_catalog ''p'' ''a-2'' 5 = Some (ex_entry [''b''] [''a-''] 200)"
    by (simp add: find_entry_def ex_catalog_def ex_entry_def price_active_def starts_with_def)
  ultimately show ?thesis
    using price_independent_of_list_order [of 1000 ex_catalog "rev (pc_entries ex_catalog)" 5 "''p''" "''a-2''"] by simp
qed

definition raw_of :: "RequiredPriceSpec \<times> string \<times> string \<Rightarrow> RawPriceEntry" where
  "raw_of rp =
     (case rp of (r, inp, out) \<Rightarrow>
        \<lparr>rw_provider_type = rs_provider_type r, rw_model_ids = [rs_model_id r], rw_aliases = rs_aliases r, rw_prefixes = [],
         rw_input_usd_per_million = inp, rw_output_usd_per_million = out,
         rw_effective_from = rs_effective_from r, rw_effective_to = rs_effective_to r, rw_max_prompt_tokens = rs_max_prompt_tokens r,
         rw_source_url = rs_source_url r\<rparr>)"

definition ex_raw :: RawCatalog where
  "ex_raw = \<lparr>rc_schema_version = 1, rc_catalog_version = ''v1'', rc_snapshot_date = ''2026-07-26'',
     rc_entries = map raw_of (zip REQUIRED_PRICE_SPECS
       [(''5'', ''30''), (''2.5'', ''15''), (''1'', ''6''), (''10'', ''50''), (''5'', ''25''), (''2'', ''10''), (''3'', ''15''), (''1'', ''5''),
        (''1.5'', ''7.5''), (''1.5'', ''9''), (''0.3'', ''2.5'')])\<rparr>"

definition ex_entries :: "PriceEntry list" where
  "ex_entries = map (\<lambda>r. \<lparr>pe_provider_type = rs_provider_type r, pe_model_ids = [rs_model_id r], pe_aliases = rs_aliases r, pe_prefixes = [],
     pe_input = rs_input r, pe_output = rs_output r, pe_effective_from = rs_effective_from r, pe_effective_to = rs_effective_to r,
     pe_max_prompt_tokens = rs_max_prompt_tokens r, pe_source_url = rs_source_url r\<rparr>) REQUIRED_PRICE_SPECS"

lemma ex_read: "read_entries ex_decimal (rc_entries ex_raw) = Inr ex_entries"
  by code_simp

lemma conflict_free:
  assumes "list_all (\<lambda>k. first_overlap m (map snd (filter (\<lambda>y. fst y = k) (matchers es))) = None) (map fst (matchers es))"
  shows "validate_conflicts m es = None"
proof -
  have "first_conflict m ms ks = None" if "\<forall>k \<in> set ks. first_overlap m (map snd (filter (\<lambda>y. fst y = k) ms)) = None" for ms ks
    using that by (induction ks) auto
  then show ?thesis using assms by (simp add: validate_conflicts_def Let_def list_all_iff)
qed

lemma ex_conflict_free: "validate_conflicts (10 ^ 20) ex_entries = None"
  by (rule conflict_free) code_simp

lemma ex_required: "validate_required_entries ex_entries = None"
  by code_simp

definition ex_accepted_catalog :: PriceCatalog where
  "ex_accepted_catalog = \<lparr>pc_schema_version = 1, pc_catalog_version = ''v1'', pc_snapshot_date = 0, pc_entries = ex_entries\<rparr>"

lemma ex_accepted: "catalog_from_raw ex_decimal (\<lambda>_. Some 0) (10 ^ 20) (Some ex_raw) = Inr ex_accepted_catalog"
proof -
  have "rc_entries ex_raw \<noteq> []" by (simp add: ex_raw_def REQUIRED_PRICE_SPECS_def Let_def)
  then show ?thesis
    using ex_read ex_conflict_free ex_required
    by (simp add: catalog_from_raw_def ex_accepted_catalog_def) (simp add: ex_raw_def trim_def is_space_def)
qed

lemma accepted_catalog_is_wellformed_witness:
  "\<exists>catalog. catalog_from_raw ex_decimal (\<lambda>_. Some 0) (10 ^ 20) (Some ex_raw) = Inr catalog \<and> (\<forall>e \<in> set (pc_entries catalog). price_entry_wf e)"
  using accepted_catalog_is_wellformed [OF ex_accepted] ex_accepted by blast

theorem required_prices_always_apply_witness:
  "\<exists>catalog e. catalog_from_raw ex_decimal (\<lambda>_. Some 0) (10 ^ 20) (Some ex_raw) = Inr catalog \<and>
     find_entry catalog ''anthropic'' ''claude-sonnet-5'' SONNET_5_PRICE_SWITCH = Some e \<and> dec_val (pe_input e) = 3"
proof -
  define r where "r = spec ''anthropic'' ''claude-sonnet-5'' [] 300 1500 SONNET_5_PRICE_SWITCH None None
    ''https://platform.claude.com/docs/en/about-claude/pricing''"
  have "r \<in> set REQUIRED_PRICE_SPECS" by (simp add: r_def REQUIRED_PRICE_SPECS_def Let_def)
  then show ?thesis
    using required_prices_always_apply [OF ex_accepted, of r SONNET_5_PRICE_SWITCH "''claude-sonnet-5''"] ex_accepted
    by (auto simp: r_def spec_def SONNET_5_PRICE_SWITCH_def dec_val_def cents_def)
qed

definition ex_price :: "int \<Rightarrow> PriceSnapshot" where
  "ex_price n = \<lparr>ps_usd_per_million = cents n, ps_source = ''builtin'', ps_version = ''v1'', ps_snapshot_date = 0, ps_effective_from = 0,
     ps_effective_to = None\<rparr>"

definition ex_tokens :: "int \<Rightarrow> TokenField" where
  "ex_tokens n = \<lparr>tf_value = n, tf_source = ProviderField, tf_derived = False\<rparr>"

lemma ex_cost:
  "\<exists>cost. calculate_cost ex_decimal \<lparr>rp_input = Some (ex_price 500), rp_output = Some (ex_price 3000), rp_status = Matched, rp_unsupported_reasons = []\<rparr>
       (Some (ex_tokens 1000)) (Some (ex_tokens 200)) ProviderUsage True False =
     \<lparr>cc_cost_usd = Some cost, cc_status = Calculated, cc_unavailable_reasons = []\<rparr> \<and> dec_val cost = 11 / 1000"
proof -
  have v: "dec_val (cents 500) = 5" "dec_val (cents 3000) = 30" by (simp_all add: dec_val_def cents_def)
  have "\<lfloor>22000000001 / 2 :: rat\<rfloor> = 11000000000" by (rule floor_unique) simp_all
  then have r: "round12 (11 / 1000) = 11 / 1000" by (simp add: round12_def)
  let ?pr = "\<lparr>rp_input = Some (ex_price 500), rp_output = Some (ex_price 3000), rp_status = Matched, rp_unsupported_reasons = []\<rparr>"
  have p: "ps_usd_per_million (ex_price n) = cents n" "dec_scale (cents n) = 12" "tf_value (ex_tokens n) = n" for n
    by (simp_all add: ex_price_def ex_tokens_def cents_def)
  have "\<exists>cost. calculate_cost ex_decimal ?pr (Some (ex_tokens 1000)) (Some (ex_tokens 200)) ProviderUsage True False =
      \<lparr>cc_cost_usd = Some cost, cc_status = (if ProviderUsage = ProviderUsage then Calculated else Estimated), cc_unavailable_reasons = []\<rparr> \<and>
      dec_val cost = round12 (11 / 1000) \<and> \<bar>dec_val cost - 11 / 1000\<bar> \<le> 1 / (2 * 10 ^ 12)"
    by (rule cost_is_exact [OF ex_decimal_ok, of _ "ex_price 500" "ex_price 3000"]) (simp_all add: p v)
  then show ?thesis unfolding r by auto
qed

end
