(* ===== verification/Budget_System.thy ===== *)
theory Budget_System
  imports Budget_Safety AI_Pricing_Laws
begin

text \<open>
  The budget of all requests together: the requests of a gateway, its registry, the ledger and the recovery
  task, as a step relation, and the theorem that no open intent is orphaned.
\<close>

section \<open>Recovery\<close>

lemma same_slot_trans: "same_slot r a b \<Longrightarrow> same_slot r b c \<Longrightarrow> same_slot r a c"
  by (auto simp: same_slot_def)

lemma only_slot_trans:
  assumes "only_slot r a b" "only_slot r b c"
  shows "only_slot r a c"
proof -
  have "rel_option (same_slot r) (map_of (rg_entries a) r) (map_of (rg_entries c) r)"
    using assms unfolding only_slot_def
    by (cases "map_of (rg_entries a) r"; cases "map_of (rg_entries b) r"; cases "map_of (rg_entries c) r") (auto intro: same_slot_trans)
  then show ?thesis using assms by (auto simp: only_slot_def)
qed

lemma recovery_ops_keep:
  "mark_recovered_intent r i b rg = (res, rg') \<Longrightarrow> only_slot r rg rg'"
  "record_recovery_settlement r c b rg = (res, rg') \<Longrightarrow> only_slot r rg rg'"
  by (auto simp: mark_recovered_intent_def record_recovery_settlement_def intro: transition_entries checked_entries)

text \<open>What a piece of the recovery of request \<open>r\<close> does to the registry and the ledger.\<close>

definition recovery_ok :: "('s \<Rightarrow> string \<Rightarrow> bool) \<Rightarrow> string \<Rightarrow> ActiveBudgetIntentRegistry \<times> 's \<Rightarrow> ActiveBudgetIntentRegistry \<times> 's \<Rightarrow> bool" where
  "recovery_ok opened r w w' = (only_slot r (fst w) (fst w') \<and> (\<forall>q. opened (snd w') q \<longrightarrow> opened (snd w) q))"

lemma recovery_ok_trans: "recovery_ok opened r a b \<Longrightarrow> recovery_ok opened r b c \<Longrightarrow> recovery_ok opened r a c"
  using only_slot_trans by (auto simp: recovery_ok_def)

lemma recovery_ok_refl [simp]: "recovery_ok opened r a a"
  by (simp add: recovery_ok_def only_slot_refl)

lemma identify_ok:
  assumes c: "store_contract (en_store env) opened" and id: "cb_request_id create = as_request_id sn"
    and r: "identify_intent env sn create w = (res, w')"
  shows "recovery_ok opened (as_request_id sn) w w' \<and> (res = Done None \<longrightarrow> \<not> opened (snd w') (as_request_id sn))"
proof (cases "as_intent_id sn")
  case (Some i)
  then show ?thesis using r by (auto simp: identify_intent_def)
next
  case None
  obtain a s where a: "bs_lookup_intent (en_store env) (lookup_of create) (snd w) = (a, s)" by (metis surj_pair)
  have o: "opened s q \<Longrightarrow> opened (snd w) q" for q using store_contractD(4) [OF c a] .
  have n: "found_none a \<Longrightarrow> \<not> opened s (as_request_id sn)"
    using store_contractD(5) [OF c a] id by (simp add: lookup_of_def)
  show ?thesis
  proof (cases "\<exists>rec. a = Some (Inr (Some rec)) \<and> (ir_state rec = IntentPrepared \<or> ir_state rec = IntentDispatching)")
    case False
    then have "w' = (fst w, s) \<and> (res = Done None \<longrightarrow> found_none a)"
      using r None a by (auto simp: identify_intent_def found_none_def split: option.splits sum.splits)
    then show ?thesis using o n by (simp add: recovery_ok_def only_slot_refl)
  next
    case True
    then obtain rec where rec: "a = Some (Inr (Some rec))" "ir_state rec = IntentPrepared \<or> ir_state rec = IntentDispatching" by blast
    obtain m rg where m: "mark_recovered_intent (as_request_id sn) (ir_id rec) (ir_state rec = IntentDispatching) (fst w) = (m, rg)" by (metis surj_pair)
    have "w' = (rg, s) \<and> res \<noteq> Done None" using r None a rec m by (auto simp: identify_intent_def split: sum.splits)
    then show ?thesis using o recovery_ops_keep(1) [OF m] by (simp add: recovery_ok_def)
  qed
qed

lemma settle_recovered_ok:
  assumes "settle_recovered env sn create i b w = (res, w')"
  shows "recovery_ok opened (as_request_id sn) w w' \<and> res \<noteq> Done None \<and> (\<forall>k. res = Done (Some k) \<longrightarrow> sb_request_id k = as_request_id sn)"
proof -
  let ?u = "recovered_unresolved sn b"
  let ?c = "settlement_command env i (cb_virtual_key_id create) (as_request_id sn) (cb_pricing_fingerprint create) None (recovered_cost ?u)"
  show ?thesis
  proof (cases ?c)
    case (Inl e)
    then show ?thesis using assms by (auto simp: settle_recovered_def)
  next
    case (Inr k)
    obtain m rg where m: "record_recovery_settlement (as_request_id sn) k ?u (fst w) = (m, rg)" by (metis surj_pair)
    have "w' = (rg, snd w) \<and> res \<noteq> Done None \<and> (\<forall>j. res = Done (Some j) \<longrightarrow> j = k)"
      using assms Inr m by (auto simp: settle_recovered_def split: sum.splits)
    then show ?thesis using recovery_ops_keep(2) [OF m] settlement_command_id [OF Inr] by (auto simp: recovery_ok_def)
  qed
qed

lemma recovery_command_ok:
  assumes c: "store_contract (en_store env) opened" and create: "as_create_command sn = Some create" "cb_request_id create = as_request_id sn"
    and r: "recovery_settlement_command env sn w = (res, w')"
  shows "recovery_ok opened (as_request_id sn) w w' \<and> (res = Done None \<longrightarrow> \<not> opened (snd w') (as_request_id sn)) \<and>
    (\<forall>k. res = Done (Some k) \<longrightarrow> sb_request_id k = as_request_id sn)"
proof -
  obtain r1 w1 where i: "identify_intent env sn create w = (r1, w1)" by (metis surj_pair)
  note ok1 = identify_ok [OF c create(2) i]
  have run: "then_run (r1, w1) (\<lambda>known w1. case known of None \<Rightarrow> (Done None, w1) | Some (i, b) \<Rightarrow> settle_recovered env sn create i b w1) = (res, w')"
    using r create(1) i by (simp add: recovery_settlement_command_def)
  then show ?thesis
  proof (cases rule: then_run_cases)
    case (go x c)
    show ?thesis
    proof (cases x)
      case None
      then show ?thesis using go ok1 by auto
    next
      case (Some p)
      obtain j b where "p = (j, b)" by (metis surj_pair)
      then have "settle_recovered env sn create j b w1 = (res, w')" using go Some by simp
      from settle_recovered_ok [OF this, of opened] show ?thesis using ok1 recovery_ok_trans by blast
    qed
  next
    case (stop e)
    then show ?thesis using ok1 by simp
  qed
qed

text \<open>An entry that recovery treats is kept, or released once its intent is closed.\<close>

definition released_ok :: "('s \<Rightarrow> string \<Rightarrow> bool) \<Rightarrow> string \<Rightarrow> ActiveBudgetIntentRegistry \<times> 's \<Rightarrow> ActiveBudgetIntentRegistry \<times> 's \<Rightarrow> bool" where
  "released_ok opened r w w' =
     (\<exists>w1. recovery_ok opened r w w1 \<and> \<not> opened (snd w1) r \<and> w' = (registry_acknowledge r (fst w1), snd w1))"

lemma recover_snapshot_ok:
  assumes c: "store_contract (en_store env) opened" and d: "sn = snapshot_of (r, d)" "slot_ok r d"
    and run: "recover_snapshot env sn w = (res, w')"
  shows "recovery_ok opened r w w' \<or> released_ok opened r w w'"
proof -
  have id: "as_request_id sn = r" using d(1) by (simp add: snapshot_of_def)
  define cmd where "cmd = (case as_settlement sn of Some c \<Rightarrow> (Done (Some c), w) | None \<Rightarrow> recovery_settlement_command env sn w)"
  obtain r1 w1 where cw: "cmd = (r1, w1)" by (metis surj_pair)
  have ok1: "recovery_ok opened r w w1 \<and> (r1 = Done None \<longrightarrow> \<not> opened (snd w1) r) \<and> (\<forall>k. r1 = Done (Some k) \<longrightarrow> sb_request_id k = r)"
  proof (cases "as_settlement sn")
    case (Some k)
    then show ?thesis using cw d by (auto simp: cmd_def snapshot_of_def slot_ok_def)
  next
    case None
    obtain create where "as_create_command sn = Some create" "cb_request_id create = as_request_id sn"
      using d by (auto simp: snapshot_of_def slot_ok_def)
    from recovery_command_ok [OF c this] show ?thesis using cw None id by (auto simp: cmd_def)
  qed
  have kept: "w' = w1 \<Longrightarrow> ?thesis" using ok1 by blast
  have run1: "(case (r1, w1) of
           (Cut, w1) \<Rightarrow> (Cut, w1)
         | (Crash, w1) \<Rightarrow> (Crash, w1)
         | (Fail _, w1) \<Rightarrow> (Done False, w1)
         | (Done None, w1) \<Rightarrow> (case w1 of (rg, s) \<Rightarrow> (Done True, registry_acknowledge (as_request_id sn) rg, s))
         | (Done (Some c), w1) \<Rightarrow>
             (case bs_settle (en_store env) c (snd w1) of
                (None, s) \<Rightarrow> (Cut, fst w1, s)
              | (Some (Inr _), s) \<Rightarrow> (case (fst w1, s) of (rg, s) \<Rightarrow> (Done True, registry_acknowledge (as_request_id sn) rg, s))
              | (Some (Inl _), s) \<Rightarrow> (Done False, fst w1, s))) = (res, w')"
    using run cw unfolding recover_snapshot_def cmd_def by (simp add: Let_def)
  show ?thesis
  proof (cases "\<exists>k. r1 = Done (Some k)")
    case False
    show ?thesis
    proof (cases "r1 = Done None")
      case True
      then have "w' = (registry_acknowledge r (fst w1), snd w1)" using run1 id by (auto simp: split_beta)
      then show ?thesis using True ok1 unfolding released_ok_def by blast
    next
      case False
      then show ?thesis using run1 kept \<open>\<nexists>k. r1 = Done (Some k)\<close> by (cases r1) auto
    qed
  next
    case True
    then obtain k where k: "r1 = Done (Some k)" by blast
    obtain a s where a: "bs_settle (en_store env) k (snd w1) = (a, s)" by (metis surj_pair)
    have s: "recovery_ok opened r w (fst w1, s)"
      using ok1 store_contractD(7) [OF c a] recovery_ok_trans [of opened r w w1 "(fst w1, s)"] by (simp add: recovery_ok_def only_slot_refl)
    show ?thesis
    proof (cases "\<exists>x. a = Some (Inr x)")
      case True
      then have "\<not> opened s r" using store_contractD(8) [OF c] a ok1 k by metis
      moreover have "w' = (registry_acknowledge r (fst w1), s)" using run1 k a True id by auto
      ultimately show ?thesis using s by (auto simp: released_ok_def)
    next
      case False
      then have "w' = (fst w1, s)" using run1 k a by (auto split: option.splits sum.splits)
      then show ?thesis using s by simp
    qed
  qed
qed

text \<open>All requests of a gateway; \<open>reqs\<close> gives the budget context of a request that is under way.\<close>

definition world_ok ::
    "('s \<Rightarrow> string \<Rightarrow> bool) \<Rightarrow> (string \<Rightarrow> AiBudgetRequestContext option) \<Rightarrow> ActiveBudgetIntentRegistry \<times> 's \<Rightarrow> bool" where
  "world_ok opened reqs w =
     (distinct (map fst (rg_entries (fst w))) \<and> (\<forall>r. local_ok r (opened (snd w) r) (map_of (rg_entries (fst w)) r) (reqs r)))"

lemma local_ok_closes: "local_ok r opn slot req \<Longrightarrow> (opn' \<longrightarrow> opn) \<Longrightarrow> local_ok r opn' slot req"
  by (auto simp: local_ok_def)

lemma local_ok_release:
  "local_ok r opn (Some d) req \<Longrightarrow> \<not> bd_guard_alive d \<Longrightarrow> local_ok r False None req"
  by (auto simp: local_ok_def guard_ok_def split: option.splits)

lemma recovery_world:
  assumes "world_ok opened reqs w" "recovery_ok opened r w w'"
  shows "world_ok opened reqs w'"
proof -
  have "local_ok q (opened (snd w') q) (map_of (rg_entries (fst w')) q) (reqs q)" for q
  proof -
    have "rel_option (same_slot q) (map_of (rg_entries (fst w)) q) (map_of (rg_entries (fst w')) q)"
      using assms(2) by (cases "q = r") (auto simp: recovery_ok_def only_slot_def option.rel_refl)
    then show ?thesis using assms local_ok_slot local_ok_closes unfolding world_ok_def recovery_ok_def by metis
  qed
  then show ?thesis using assms by (auto simp: world_ok_def recovery_ok_def only_slot_def)
qed

lemma recover_snapshot_world:
  assumes c: "store_contract (en_store env) opened" and ok: "world_ok opened reqs w"
    and d: "map_of (rg_entries (fst w)) r = Some d" "\<not> bd_guard_alive d" and run: "recover_snapshot env (snapshot_of (r, d)) w = (res, w')"
  shows "world_ok opened reqs w' \<and> (\<forall>q. q \<noteq> r \<longrightarrow> map_of (rg_entries (fst w')) q = map_of (rg_entries (fst w)) q)"
proof -
  have "slot_ok r d" using ok d(1) by (auto simp: world_ok_def local_ok_def)
  from recover_snapshot_ok [OF c refl this run] show ?thesis
  proof
    assume "recovery_ok opened r w w'"
    then show ?thesis using recovery_world [OF ok] by (simp add: recovery_ok_def only_slot_def)
  next
    assume "released_ok opened r w w'"
    then obtain w1 where w1: "recovery_ok opened r w w1" "\<not> opened (snd w1) r" "w' = (registry_acknowledge r (fst w1), snd w1)"
      by (auto simp: released_ok_def)
    have ok1: "world_ok opened reqs w1" using recovery_world [OF ok w1(1)] .
    obtain d1 where d1: "map_of (rg_entries (fst w1)) r = Some d1" "\<not> bd_guard_alive d1"
      using w1(1) d by (auto simp: recovery_ok_def only_slot_def same_slot_def option_rel_Some1)
    have "local_ok r (opened (snd w1) r) (Some d1) (reqs r)" using ok1 d1(1) unfolding world_ok_def by metis
    then have "local_ok r False None (reqs r)" using local_ok_release d1(2) by blast
    then have "world_ok opened reqs w'" using w1(2,3) ok1 by (auto simp: world_ok_def acknowledge_entries)
    moreover have "\<forall>q. q \<noteq> r \<longrightarrow> map_of (rg_entries (fst w')) q = map_of (rg_entries (fst w)) q"
      using w1(1,3) by (simp add: acknowledge_entries recovery_ok_def only_slot_def)
    ultimately show ?thesis by blast
  qed
qed

lemma as_guard_snapshot: "as_guard_alive (snapshot_of (r, d)) = bd_guard_alive d"
  by (simp add: snapshot_of_def)

lemma recover_snapshots_world:
  assumes c: "store_contract (en_store env) opened" and "world_ok opened reqs w" "distinct (map fst es)"
    "\<forall>(r, d) \<in> set es. map_of (rg_entries (fst w)) r = Some d" "recover_snapshots env (map snapshot_of es) stats w = (res, w')"
  shows "world_ok opened reqs w'"
  using assms(2-)
proof (induction es arbitrary: stats w)
  case Nil
  then show ?case by simp
next
  case (Cons e es)
  obtain r d where e: "e = (r, d)" by (metis surj_pair)
  show ?case
  proof (cases "bd_guard_alive d")
    case True
    then show ?thesis using Cons.IH [of w stats] Cons.prems unfolding e by (simp add: as_guard_snapshot)
  next
    case False
    obtain r1 w1 where one: "recover_snapshot env (snapshot_of (r, d)) w = (r1, w1)" by (metis surj_pair)
    have m: "map_of (rg_entries (fst w)) r = Some d" using Cons.prems(3) e by auto
    note st = recover_snapshot_world [OF c Cons.prems(1) m False one]
    have "q \<noteq> r" if "(q, x) \<in> set es" for q x using that Cons.prems(2) e by (auto simp: image_iff)
    then have rest: "\<forall>(q, d) \<in> set es. map_of (rg_entries (fst w1)) q = Some d"
      using st Cons.prems(3) by (metis (mono_tags, lifting) case_prod_conv list.set_intros(2) old.prod.exhaust)
    have "w' = w1 \<or> (\<exists>stats1. recover_snapshots env (map snapshot_of es) stats1 w1 = (res, w'))"
      using Cons.prems(4) False one unfolding e by (cases r1) (simp_all add: then_run_def Let_def as_guard_snapshot, blast)
    moreover have "distinct (map fst es)" using Cons.prems(2) by simp
    ultimately show ?thesis using st Cons.IH [of w1] rest by blast
  qed
qed

lemma recovery_keeps_world:
  assumes c: "store_contract (en_store env) opened" and ok: "world_ok opened reqs w" and it: "iterates iter (rg_entries (fst w))"
    and r: "recover_budget_registry_once env iter n w = (res, w')"
  shows "world_ok opened reqs w'"
proof -
  let ?es = "take n (iter (rg_entries (fst w)))"
  have k: "distinct (map fst (rg_entries (fst w)))" using ok by (simp add: world_ok_def)
  then have dt: "distinct (map fst ?es)"
    using iterates_distinct_fst [OF it] by (simp add: take_map [symmetric] distinct_take)
  have "\<forall>(q, d) \<in> set ?es. map_of (rg_entries (fst w)) q = Some d"
    using k iterates_set [OF it] by (auto dest!: in_set_takeD)
  then show ?thesis
    using recover_snapshots_world [OF c ok dt] r by (simp add: recover_budget_registry_once_def snapshots_def take_map)
qed

section \<open>The gateway\<close>

text \<open>
  The requests that are under way, with the registry and the ledger they share. The ledger may also move by itself: a creation
  whose answer was lost can commit at any later time. If there is an entry for the request at that moment, the recovery will find the intent;
  the requests whose entry was already gone (a lookup had found nothing) are the ones in \<open>gw_late\<close>, a ghost
  variable: the source leaves their intents to the stale recovery of the database. A request is loaded with the
  shared state for a step and stored after it. When a request leaves, finished or cut off, its context is
  dropped, and with it the guard.
\<close>

record 's budget_gateway =
  gw_registry :: ActiveBudgetIntentRegistry
  gw_store :: 's
  gw_requests :: "string \<Rightarrow> 's budget_ctx option"
  gw_late :: "string set"

definition load :: "'s budget_gateway \<Rightarrow> 's budget_ctx \<Rightarrow> 's budget_ctx" where
  "load g ctx = set_registry (gw_registry g) (set_store (gw_store g) ctx)"

definition save :: "'s budget_ctx \<Rightarrow> 's budget_gateway \<Rightarrow> 's budget_gateway" where
  "save ctx g = g\<lparr>gw_registry := registry_of ctx, gw_store := store_of ctx, gw_requests := (gw_requests g)(id_of ctx := Some ctx)\<rparr>"

definition leave :: "string \<Rightarrow> 's budget_ctx \<Rightarrow> 's budget_gateway \<Rightarrow> 's budget_gateway" where
  "leave r ctx g =
     g\<lparr>gw_registry := (case Option.bind (request_of ctx) br_guard of None \<Rightarrow> gw_registry g | Some gd \<Rightarrow> drop_guard gd (gw_registry g)),
       gw_requests := (gw_requests g)(r := None)\<rparr>"

inductive gateway_step :: "'s budget_env \<Rightarrow> ('s \<Rightarrow> string \<Rightarrow> bool) \<Rightarrow> 's budget_gateway \<Rightarrow> 's budget_gateway \<Rightarrow> bool" for env opened where
  arrives: "gw_requests g (id_of ctx) = None \<Longrightarrow> request_of ctx = None \<Longrightarrow>
    gateway_step env opened g (g\<lparr>gw_requests := (gw_requests g)(id_of ctx := Some ctx)\<rparr>)"
| inspects: "gw_requests g r = Some ctx \<Longrightarrow> request_of ctx = None \<Longrightarrow>
    inspect_budget_before_quota env required runtime permit key protocol (load g ctx) = (res, ctx') \<Longrightarrow> gateway_step env opened g (save ctx' g)"
| serves: "gw_requests g r = Some ctx \<Longrightarrow> request_of ctx' = request_of ctx \<Longrightarrow> id_of ctx' = r \<Longrightarrow>
    gateway_step env opened g (g\<lparr>gw_requests := (gw_requests g)(r := Some ctx')\<rparr>)"
| dispatches: "gw_requests g r = Some ctx \<Longrightarrow> fresh_request ctx \<Longrightarrow>
    execute env inp (load g ctx) = (res, ctx') \<Longrightarrow> gateway_step env opened g (save ctx' g)"
| compensates: "gw_requests g r = Some ctx \<Longrightarrow> \<forall>b. request_of ctx = Some b \<longrightarrow> br_state b \<noteq> RequestPaused \<Longrightarrow>
    compensate env (load g ctx) = (res, ctx') \<Longrightarrow> gateway_step env opened g (save ctx' g)"
| finalizes: "gw_requests g r = Some ctx \<Longrightarrow> finalize env (load g ctx) = (res, ctx') \<Longrightarrow> gateway_step env opened g (save ctx' g)"
| leaves: "gw_requests g r = Some ctx \<Longrightarrow> gateway_step env opened g (leave r ctx g)"
| recovers: "iterates iter (rg_entries (gw_registry g)) \<Longrightarrow>
    recover_budget_registry_once env iter n (gw_registry g, gw_store g) = (res, rg, s) \<Longrightarrow>
    gateway_step env opened g (g\<lparr>gw_registry := rg, gw_store := s\<rparr>)"
| commits_late: "\<forall>q. opened s q \<longrightarrow> opened (gw_store g) q \<or> q = r \<Longrightarrow>
    gateway_step env opened g
      (g\<lparr>gw_store := s, gw_late := (if map_of (rg_entries (gw_registry g)) r = None then insert r (gw_late g) else gw_late g)\<rparr>)"

inductive gateway_reachable :: "'s budget_env \<Rightarrow> ('s \<Rightarrow> string \<Rightarrow> bool) \<Rightarrow> 's budget_gateway \<Rightarrow> bool" for env opened where
  starts: "registry_new max_entries = Inr rg \<Longrightarrow> \<forall>r. \<not> opened s r \<Longrightarrow>
    gateway_reachable env opened \<lparr>gw_registry = rg, gw_store = s, gw_requests = (\<lambda>_. None), gw_late = {}\<rparr>"
| moves: "gateway_reachable env opened g \<Longrightarrow> gateway_step env opened g g' \<Longrightarrow> gateway_reachable env opened g'"

definition budget_requests :: "'s budget_gateway \<Rightarrow> string \<Rightarrow> AiBudgetRequestContext option" where
  "budget_requests g r = Option.bind (gw_requests g r) request_of"

definition gateway_ok :: "('s \<Rightarrow> string \<Rightarrow> bool) \<Rightarrow> 's budget_gateway \<Rightarrow> bool" where
  "gateway_ok opened g =
     ((\<forall>r ctx. gw_requests g r = Some ctx \<longrightarrow> id_of ctx = r) \<and> world_ok opened (budget_requests g) (gw_registry g, gw_store g))"

lemma load_simps [simp]:
  "registry_of (load g ctx) = gw_registry g" "store_of (load g ctx) = gw_store g" "request_of (load g ctx) = request_of ctx"
  "rq_lifecycle (load g ctx) = rq_lifecycle ctx"
  by (simp_all add: load_def)

lemma load_ok:
  assumes "gateway_ok opened g" "gw_requests g r = Some ctx"
  shows "ctx_ok opened (load g ctx)" "id_of ctx = r"
proof -
  show "id_of ctx = r" using assms by (simp add: gateway_ok_def)
  then show "ctx_ok opened (load g ctx)"
    using assms by (auto simp: gateway_ok_def world_ok_def ctx_ok_def budget_requests_def dest!: spec [of _ r])
qed

lemma save_ok:
  assumes ok: "gateway_ok opened g" "gw_requests g r = Some ctx" and st: "step_ok opened (load g ctx) ctx'"
  shows "gateway_ok opened (save ctx' g)"
proof -
  have id: "id_of ctx = r" using load_ok [OF ok] by simp
  have id': "id_of ctx' = r" using st id by (simp add: step_ok_def others_kept_def)
  have "local_ok q (opened (store_of ctx') q) (slot_of ctx' q) (budget_requests (save ctx' g) q)" for q
  proof (cases "q = r")
    case True
    then show ?thesis using st id' by (simp add: step_ok_def ctx_ok_def budget_requests_def save_def)
  next
    case False
    have l: "local_ok q (opened (gw_store g) q) (map_of (rg_entries (gw_registry g)) q) (budget_requests g q)"
      using ok(1) by (simp add: gateway_ok_def world_ok_def)
    have "slot_of ctx' q = map_of (rg_entries (gw_registry g)) q" "opened (store_of ctx') q \<longrightarrow> opened (gw_store g) q"
      using st False id by (simp_all add: step_ok_def others_kept_def)
    then show ?thesis using local_ok_closes [OF l] False id' by (simp add: budget_requests_def save_def)
  qed
  then show ?thesis using ok(1) st id' by (simp add: gateway_ok_def world_ok_def save_def step_ok_def ctx_ok_def)
qed

lemma inspect_ok:
  assumes c: "store_contract (en_store env) opened" and ok: "ctx_ok opened ctx" and n: "request_of ctx = None"
    and r: "inspect_budget_before_quota env required runtime permit key protocol ctx = (res, ctx')"
  shows "step_ok opened ctx ctx'"
proof -
  obtain a s where a: "bs_inspect (en_store env) key (store_of ctx) = (a, s)" by (metis surj_pair)
  let ?c1 = "set_store s ctx"
  let ?c2 = "ext (\<lambda>x. x\<lparr>bx_request := Some (inspected key protocol)\<rparr>) ?c1"
  have s1: "step_ok opened ctx ?c1" using ok store_contractD(1) [OF c a] by (intro set_store_ok) auto
  have s2: "step_ok opened ctx ?c2"
    using s1 n by (auto simp: step_ok_def ctx_ok_def others_kept_def ext_def set_store_def local_ok_def guard_ok_def holds_guard_def inspected_def)
  have "(registry_of ctx' = registry_of ctx \<and> store_of ctx' = store_of ctx \<and> request_of ctx' = request_of ctx \<and> id_of ctx' = id_of ctx) \<or>
    (registry_of ctx' = registry_of ?c1 \<and> store_of ctx' = store_of ?c1 \<and> request_of ctx' = request_of ?c1 \<and> id_of ctx' = id_of ?c1) \<or> ctx' = ?c2"
    using r a by (auto simp: inspect_budget_before_quota_def Let_def split_beta split: if_splits sum.splits option.splits BudgetEligibility.splits)
  then show ?thesis using same_core [OF ok] step_cong [OF s1] s2 by blast
qed

lemma local_ok_abandon: "local_ok r opn slot req \<Longrightarrow> \<not> holds_guard req \<Longrightarrow> local_ok r opn slot None"
  by (auto simp: local_ok_def)

lemma leave_ok:
  assumes ok: "gateway_ok opened g" "gw_requests g r = Some ctx"
  shows "gateway_ok opened (leave r ctx g)"
proof -
  have c: "ctx_ok opened (load g ctx)" "id_of ctx = r" using load_ok [OF ok] by auto
  let ?rg = "gw_registry (leave r ctx g)"
  have keys: "distinct (map fst (rg_entries ?rg))" and others: "q \<noteq> r \<Longrightarrow> map_of (rg_entries ?rg) q = map_of (rg_entries (gw_registry g)) q" for q
    using c by (auto simp: leave_def drop_guard_def guard_dropped_def ctx_ok_def local_ok_def guard_ok_def update_conv' distinct_update
      split: Option.bind_splits option.splits)
  have "local_ok r (opened (gw_store g) r) (map_of (rg_entries ?rg) r) None"
  proof (cases "Option.bind (request_of ctx) br_guard")
    case None
    then have "local_ok r (opened (gw_store g) r) (map_of (rg_entries (gw_registry g)) r) None"
      using c local_ok_abandon [of r _ _ "request_of ctx"] by (auto simp: ctx_ok_def holds_guard_def)
    then show ?thesis using None by (simp add: leave_def)
  next
    case (Some gd)
    then obtain b d where b: "request_of ctx = Some b" "br_guard b = Some gd" "map_of (rg_entries (gw_registry g)) r = Some d"
      "gd_request_id gd = r" "\<not> gd_completed gd" "slot_ok r d"
      using c unfolding ctx_ok_def local_ok_def guard_ok_def by (cases "request_of ctx") auto
    then have "map_of (rg_entries ?rg) r = Some (d\<lparr>bd_guard_alive := False, bd_state := after_drop (bd_state d)\<rparr>)"
      by (simp add: leave_def drop_guard_def guard_dropped_def update_conv')
    then show ?thesis using b(6) unfolding local_ok_def by (simp add: slot_ok_def)
  qed
  then have "local_ok q (opened (gw_store g) q) (map_of (rg_entries ?rg) q) (budget_requests (leave r ctx g) q)" for q
    using ok(1) others by (cases "q = r") (auto simp: gateway_ok_def world_ok_def budget_requests_def leave_def)
  then show ?thesis using ok(1) keys by (auto simp: gateway_ok_def world_ok_def leave_def)
qed

text \<open>The intents that count: all but those that were committed when their entry was gone.\<close>

definition expected :: "('s \<Rightarrow> string \<Rightarrow> bool) \<Rightarrow> string set \<Rightarrow> 's \<Rightarrow> string \<Rightarrow> bool" where
  "expected opened late s q \<longleftrightarrow> opened s q \<and> q \<notin> late"

lemma expected_contract: "store_contract st opened \<Longrightarrow> store_contract st (expected opened late)"
  unfolding store_contract_def expected_def by (elim conjE, intro conjI allI impI) (metis+)

lemma save_late [simp]: "gw_late (save ctx g) = gw_late g" "gw_late (leave r ctx g) = gw_late g"
  by (simp_all add: save_def leave_def)

lemma commits_late_ok:
  assumes ok: "gateway_ok (expected opened (gw_late g)) g" and late: "\<forall>q. opened s q \<longrightarrow> opened (gw_store g) q \<or> q = r"
    and g': "g' = g\<lparr>gw_store := s, gw_late := (if map_of (rg_entries (gw_registry g)) r = None then insert r (gw_late g) else gw_late g)\<rparr>"
  shows "gateway_ok (expected opened (gw_late g')) g'"
proof -
  have "local_ok q (expected opened (gw_late g') s q) (map_of (rg_entries (gw_registry g)) q) (budget_requests g q)" for q
  proof -
    have l: "local_ok q (expected opened (gw_late g) (gw_store g) q) (map_of (rg_entries (gw_registry g)) q) (budget_requests g q)"
      using ok by (simp add: gateway_ok_def world_ok_def)
    show ?thesis
    proof (cases "q = r \<and> map_of (rg_entries (gw_registry g)) r \<noteq> None")
      case True
      then show ?thesis using l unfolding local_ok_def by blast
    next
      case False
      then have "expected opened (gw_late g') s q \<longrightarrow> expected opened (gw_late g) (gw_store g) q"
        using late by (auto simp: expected_def g' split: if_splits)
      then show ?thesis using local_ok_closes [OF l] by blast
    qed
  qed
  then show ?thesis using ok by (simp add: gateway_ok_def world_ok_def budget_requests_def g')
qed

lemma gateway_step_ok:
  assumes step: "gateway_step env opened g g'" and c: "store_contract (en_store env) opened" and ok: "gateway_ok (expected opened (gw_late g)) g"
  shows "gateway_ok (expected opened (gw_late g')) g'"
proof -
  note c' = expected_contract [OF c, of "gw_late g"]
  from step show ?thesis
  proof (cases rule: gateway_step.cases)
    case (arrives ctx)
    have "budget_requests g' = budget_requests g" using arrives by (auto simp: budget_requests_def)
    then show ?thesis using arrives ok by (simp add: gateway_ok_def)
  next
    case (inspects r ctx required runtime permit key protocol res ctx')
    have "step_ok (expected opened (gw_late g)) (load g ctx) ctx'"
      by (rule inspect_ok [OF c' load_ok(1) [OF ok inspects(2)] _ inspects(4)]) (simp add: inspects(3))
    from save_ok [OF ok inspects(2) this] show ?thesis using inspects(1) by simp
  next
    case (serves r ctx ctx')
    then have "budget_requests g' = budget_requests g" by (auto simp: budget_requests_def)
    then show ?thesis using serves ok by (simp add: gateway_ok_def)
  next
    case (dispatches r ctx inp res ctx')
    then have "fresh_request (load g ctx)" by (simp add: fresh_request_def)
    from execute_ok [OF c' load_ok(1) [OF ok dispatches(2)] this dispatches(4)]
    show ?thesis using save_ok [OF ok dispatches(2)] dispatches(1) by simp
  next
    case (compensates r ctx res ctx')
    then show ?thesis using save_ok [OF ok compensates(2)] compensate_ok [OF c' load_ok(1) [OF ok compensates(2)]] by simp
  next
    case (finalizes r ctx res ctx')
    then show ?thesis using save_ok [OF ok finalizes(2)] finalize_ok [OF c' load_ok(1) [OF ok finalizes(2)]] by simp
  next
    case (leaves r ctx)
    then show ?thesis using leave_ok [OF ok] by simp
  next
    case (recovers iter n res rg s)
    have "budget_requests g' = budget_requests g" using recovers(1) by (auto simp: budget_requests_def)
    then show ?thesis
      using recovery_keeps_world [OF c', of "budget_requests g" "(gw_registry g, gw_store g)" iter n res "(rg, s)"] recovers ok
      by (simp add: gateway_ok_def)
  next
    case (commits_late s r)
    then show ?thesis using commits_late_ok [OF ok] by blast
  qed
qed

lemma gateway_reachable_ok:
  assumes "gateway_reachable env opened g" "store_contract (en_store env) opened"
  shows "gateway_ok (expected opened (gw_late g)) g"
  using assms
proof (induction rule: gateway_reachable.induct)
  case (starts max_entries rg s)
  then have "rg_entries rg = []" by (auto simp: registry_new_def split: if_splits)
  then show ?case using starts by (simp add: gateway_ok_def world_ok_def local_ok_def budget_requests_def expected_def)
next
  case (moves g g')
  then show ?case using gateway_step_ok by blast
qed


text \<open>A ledger that keeps the ids of the open intents, and a request with its own prices.\<close>

definition ex_record :: "string \<Rightarrow> BudgetIntentRecord" where
  "ex_record r = \<lparr>ir_id = 7, ir_request_id = r, ir_state = IntentPrepared\<rparr>"

definition ex_store :: "string list budget_store" where
  "ex_store =
     \<lparr>bs_inspect = (\<lambda>_ s. (Some (Inr Eligible), s)),
      bs_create_intent = (\<lambda>c s. (Some (Inr \<lparr>bi_disposition = Created, bi_record = Some (ex_record (cb_request_id c))\<rparr>), List.insert (cb_request_id c) s)),
      bs_lookup_intent = (\<lambda>l s. (Some (Inr (if lk_request_id l \<in> set s then Some (ex_record (lk_request_id l)) else None)), s)),
      bs_mark_dispatching = (\<lambda>_ s. (Some (Inr \<lparr>bi_disposition = DispatchApplied, bi_record = None\<rparr>), s)),
      bs_settle = (\<lambda>c s. (Some (Inr SettlementApplied), removeAll (sb_request_id c) s))\<rparr>"

definition ex_opened :: "string list \<Rightarrow> string \<Rightarrow> bool" where
  "ex_opened s r = (r \<in> set s)"

lemma ex_store_contract: "store_contract ex_store ex_opened"
  by (auto simp: store_contract_def ex_store_def ex_opened_def opens_none_def found_none_def ex_record_def split: if_splits)

definition ex_budget_env :: "'s budget_store \<Rightarrow> 's budget_env" where
  "ex_budget_env st =
     \<lparr>en_store = st, en_catalog = \<lparr>pc_schema_version = 1, pc_catalog_version = ''v'', pc_snapshot_date = 0, pc_entries = []\<rparr>,
      en_node_id = 1, en_owner_session_id = 2, en_stale_after = 0, en_decimal = ex_decimal, en_print = (\<lambda>_. []),
      en_json = (\<lambda>_. Some ''{}''), en_sha256_hex = (\<lambda>_. ''h''), en_uuid = (\<lambda>_. ''u''), en_rate12 = (\<lambda>_. ''1''),
      en_date_naive = id, en_timestamp = Some, en_timestamp_millis = (\<lambda>_. ''t''), en_show_registry = (\<lambda>_. []), en_show_store = (\<lambda>_. [])\<rparr>"

definition ex_empty :: ActiveBudgetIntentRegistry where
  "ex_empty = \<lparr>rg_max_entries = 2, rg_entries = [], rg_active_entries = 0, rg_rejected_entries = 0, rg_field_limit_rejections = 0\<rparr>"

definition ex_budget_ctx :: "'s \<Rightarrow> AiBudgetRequestContext option \<Rightarrow> 's budget_ctx" where
  "ex_budget_ctx s b = request_ctx_new (lifecycle_new ''r1'' 0 0)
     \<lparr>bx_registry = ex_empty, bx_store = s, bx_request = b,
      bx_model = Some \<lparr>ms_provider_type = ''openai'', ms_model = \<lparr>am_id = 0, am_model_name = ''m'', am_input_cost = Some dec_zero,
        am_output_cost = Some dec_zero, am_created_at = None, am_updated_at = None\<rparr>, ms_estimated_prompt_tokens = 5\<rparr>,
      bx_usage = Some \<lparr>uc_pricing_features = default_features, uc_frozen_pricing = None, uc_finalized = False\<rparr>, bx_fact = None\<rparr>"

definition ex_dispatch :: dispatch_input where
  "ex_dispatch = \<lparr>di_owner_available = True, di_permit = Inr (), di_intent_id = 7\<rparr>"

abbreviation ex_inspected :: "'s \<Rightarrow> 's budget_ctx" where
  "ex_inspected s \<equiv> ex_budget_ctx s (Some (inspected 9 ProtoOpenAi))"

lemma full_override_matched:
  assumes "mo_input ov = Some a" "mo_output ov = Some b"
  shows "rp_status (resolve_snapshot f c p m t x ov default_features) = Matched \<and>
    (\<exists>y. rp_input (resolve_snapshot f c p m t x ov default_features) = Some y) \<and>
    (\<exists>y. rp_output (resolve_snapshot f c p m t x ov default_features) = Some y)"
  using assms by (simp add: resolve_snapshot_def Let_def default_features_def reason_set_def)

lemma ex_trim: "trim ''openai'' = ''openai''" "trim ''m'' = ''m''"
  by code_simp+

lemma override_prices [simp]:
  "mo_input (model_price_overrides env am pt mn t) = am_input_cost am" "mo_output (model_price_overrides env am pt mn t) = am_output_cost am"
  by (simp_all add: model_price_overrides_def Let_def)

lemma ex_pricing: "\<exists>p. build_pricing_snapshot (ex_budget_env st) (ex_budget_ctx s b) = Inr p"
  by (simp add: build_pricing_snapshot_def Let_def ex_budget_ctx_def request_ctx_new_def ex_trim full_override_matched)

lemmas ex_run =
  execute_def prepare_dispatch_def ext_def ex_budget_ctx_def request_ctx_new_def inspected_def ex_budget_env_def ex_dispatch_def
  freeze_pricing_snapshot_def install_guard_def create_command_of_def lifecycle_new_def registry_try_reserve_eq ex_empty_def
  validate_text_field_def validate_field_size_def MAX_REQUEST_ID_BYTES_def MAX_OPERATION_ID_BYTES_def MAX_FINGERPRINT_BYTES_def
  MAX_PRICING_SNAPSHOT_BYTES_def record_create_command_def validate_create_command_def validate_request_identity_def and_try_def
  fresh_entry_def then_run_def set_registry_def with_request_def create_intent_def set_store_def Let_def note_prepared_def
  with_guard_def mark_prepared_def transition_def ex_record_def commit_dispatch_def mark_dispatch_commit_pending_def
  mark_dispatching_def List.insert_def

lemma ex_request [simp]: "request_of (ex_budget_ctx s b) = b"
  by (simp add: ex_budget_ctx_def request_ctx_new_def)

lemma ex_dispatched:
  "\<exists>c. execute (ex_budget_env ex_store) ex_dispatch (ex_inspected []) = (Done (), c) \<and> store_of c = [''r1'']"
proof -
  obtain p where "build_pricing_snapshot (ex_budget_env ex_store) (ex_inspected []) = Inr p"
    using ex_pricing [of ex_store "[]"] by metis
  then show ?thesis by (simp add: ex_run ex_store_def)
qed


text \<open>
  The gap: a request that was told that its budget is paused keeps its create command but no guard. If a later
  hook aborts the dispatch, the compensation creates the intent again, with nobody to settle it, when the
  budget is no longer paused by then.
\<close>

definition ex_unpausing :: "(bool \<times> string list) budget_store" where
  "ex_unpausing =
     \<lparr>bs_inspect = (\<lambda>_ s. (Some (Inr Eligible), s)),
      bs_create_intent = (\<lambda>c (unpaused, s).
        if unpaused then (Some (Inr \<lparr>bi_disposition = Created, bi_record = Some (ex_record (cb_request_id c))\<rparr>), True, List.insert (cb_request_id c) s)
        else (Some (Inr \<lparr>bi_disposition = PausedIntent, bi_record = None\<rparr>), True, removeAll (cb_request_id c) s)),
      bs_lookup_intent = (\<lambda>l s. (Some (Inr (if lk_request_id l \<in> set (snd s) then Some (ex_record (lk_request_id l)) else None)), s)),
      bs_mark_dispatching = (\<lambda>_ s. (Some (Inr \<lparr>bi_disposition = DispatchApplied, bi_record = None\<rparr>), s)),
      bs_settle = (\<lambda>c s. (Some (Inr SettlementApplied), fst s, removeAll (sb_request_id c) (snd s)))\<rparr>"

lemma ex_unpausing_contract: "store_contract ex_unpausing (\<lambda>s. ex_opened (snd s))"
  by (auto simp: store_contract_def ex_unpausing_def ex_opened_def opens_none_def found_none_def ex_record_def split: if_splits prod.splits)

lemma paused_compensation_can_orphan:
  "\<exists>ctx ctx'. execute (ex_budget_env ex_unpausing) ex_dispatch (ex_inspected (False, [])) = (Done (), ctx) \<and>
     compensate (ex_budget_env ex_unpausing) ctx = (guard_missing, ctx') \<and> ex_opened (snd (store_of ctx')) ''r1'' \<and>
     map_of (rg_entries (registry_of ctx')) ''r1'' = None"
proof -
  obtain p where "build_pricing_snapshot (ex_budget_env ex_unpausing) (ex_inspected (False, [])) = Inr p"
    using ex_pricing [of ex_unpausing "(False, [])"] by metis
  then show ?thesis
    by (simp add: ex_run ex_unpausing_def pause_request_def acknowledge_budget_guard_def guard_acknowledge_def registry_acknowledge_eq
      compensate_def ensure_intent_for_safe_zero_def guard_missing_def ex_opened_def)
qed

end
