(* ===== verification/Budget_Recovery.thy ===== *)
theory Budget_Recovery
  imports Budget_System
begin

text \<open>
  What the recovery task achieves and what a settlement charges: a pass over the registry against a ledger that
  answers settles every abandoned entry, never as free of cost if the request may have reached its upstream,
  and the amount of a settlement is the cost of the tokens at the prices frozen before dispatch.
\<close>

section \<open>Recovery comes to an end\<close>

text \<open>A ledger that answers: lookups and settlements come back with a result.\<close>

definition ledger_answers :: "'s budget_store \<Rightarrow> bool" where
  "ledger_answers st =
     ((\<forall>l s. \<exists>x. fst (bs_lookup_intent st l s) = Some (Inr x)) \<and> (\<forall>c s. \<exists>x. fst (bs_settle st c s) = Some (Inr x)))"

lemma ledger_answersD:
  assumes "ledger_answers st"
  obtains (lookup) x s' where "bs_lookup_intent st l s = (Some (Inr x), s')"
  using assms unfolding ledger_answers_def by (metis prod.collapse)

lemma ledger_settles:
  assumes "ledger_answers st"
  obtains x s' where "bs_settle st c s = (Some (Inr x), s')"
  using assms unfolding ledger_answers_def by (metis prod.collapse)

lemma recovered_command_fields:
  "\<exists>c x reason. settlement_command env i vk r fp None (recovered_cost u) = Inr c \<and> sb_intent_id c = i \<and> sb_request_id c = r \<and>
    sb_operation_id c = ''budget-settle:v1:'' @ r \<and> sb_command_fingerprint c = en_sha256_hex env x \<and> sb_pricing_fingerprint c = fp \<and>
    co_reasons (sb_cost c) = [reason] \<and> length reason \<le> 43"
  by (cases u) (simp_all add: settlement_command_def recovered_cost_def unavailable_cost_def zero_cost_def Let_def, blast+)

lemma recovered_command:
  assumes "\<forall>x. length (en_sha256_hex env x) \<le> MAX_FINGERPRINT_BYTES" "length r + 17 \<le> MAX_OPERATION_ID_BYTES" "length fp \<le> MAX_FINGERPRINT_BYTES"
  obtains c where "settlement_command env i vk r fp None (recovered_cost u) = Inr c" "validate_settlement_command r c = Inr ()" "sb_intent_id c = i"
proof -
  obtain c x reason where c: "settlement_command env i vk r fp None (recovered_cost u) = Inr c" "sb_intent_id c = i" "sb_request_id c = r"
    "sb_operation_id c = ''budget-settle:v1:'' @ r" "sb_command_fingerprint c = en_sha256_hex env x" "sb_pricing_fingerprint c = fp"
    "co_reasons (sb_cost c) = [reason]" "length reason \<le> 43"
    using recovered_command_fields by metis
  have "validate_settlement_command r c = Inr ()"
    using assms c(3-)
    by (simp add: validate_settlement_command_def validate_request_identity_def validate_text_field_def validate_field_size_def and_try_def
      MAX_REQUEST_ID_BYTES_def MAX_OPERATION_ID_BYTES_def MAX_COST_REASONS_def MAX_COST_REASON_BYTES_def not_less)
  then show ?thesis using that c(1,2) by blast
qed

text \<open>What recovery needs of an abandoned entry.\<close>

definition recoverable_slot :: "(BudgetPricingSnapshot \<Rightarrow> string option) \<Rightarrow> string \<Rightarrow> ActiveBudgetIntentData \<Rightarrow> bool" where
  "recoverable_slot json r d = (entry_ok json r d \<and> bd_create_command d \<noteq> None \<and> length r + 17 \<le> MAX_OPERATION_ID_BYTES)"

lemma create_fingerprint: "validate_create_command json r c = Inr () \<Longrightarrow> length (cb_pricing_fingerprint c) \<le> MAX_FINGERPRINT_BYTES"
  by (auto simp: validate_create_command_def and_try_def validate_text_field_def validate_field_size_def split: sum.splits if_splits)

lemma settle_recovered_done:
  assumes sha: "\<forall>x. length (en_sha256_hex env x) \<le> MAX_FINGERPRINT_BYTES" and len: "length r + 17 \<le> MAX_OPERATION_ID_BYTES"
    and fp: "length (cb_pricing_fingerprint create) \<le> MAX_FINGERPRINT_BYTES"
    and d: "map_of (rg_entries rg) r = Some d" "bd_state d = NeedsSafeZero \<or> bd_state d = NeedsUnresolved" "bd_intent_id d = Some i"
    and sn: "as_request_id sn = r"
  shows "\<exists>k rg'. settle_recovered env sn create i b (rg, s) = (Done (Some k), rg', s) \<and> (\<forall>q. q \<noteq> r \<longrightarrow> map_of (rg_entries rg') q = map_of (rg_entries rg) q)"
proof -
  obtain c where c: "settlement_command env i (cb_virtual_key_id create) r (cb_pricing_fingerprint create) None (recovered_cost (recovered_unresolved sn b)) = Inr c"
    "validate_settlement_command r c = Inr ()" "sb_intent_id c = i"
    using recovered_command [OF sha len fp] by blast
  then show ?thesis
    using d sn by (auto simp: settle_recovered_def Let_def record_recovery_settlement_def checked_settlement_def transition_def update_conv')
qed

lemma recovery_command_done:
  assumes sha: "\<forall>x. length (en_sha256_hex env x) \<le> MAX_FINGERPRINT_BYTES" and ans: "ledger_answers (en_store env)"
    and d: "map_of (rg_entries rg) r = Some d" "recoverable_slot json r d" "\<not> bd_guard_alive d" "bd_settlement d = None"
  shows "\<exists>k rg' s'. recovery_settlement_command env (snapshot_of (r, d)) (rg, s) = (Done k, rg', s') \<and>
    (\<forall>q. q \<noteq> r \<longrightarrow> map_of (rg_entries rg') q = map_of (rg_entries rg) q)"
proof -
  let ?sn = "snapshot_of (r, d)"
  obtain create where create: "bd_create_command d = Some create" and ok: "entry_ok json r d" and len: "length r + 17 \<le> MAX_OPERATION_ID_BYTES"
    using d(2) by (auto simp: recoverable_slot_def)
  have fp: "length (cb_pricing_fingerprint create) \<le> MAX_FINGERPRINT_BYTES"
    using ok create create_fingerprint by (auto simp: entry_ok_def)
  have st: "bd_state d \<noteq> RetryWithFact" "recoverable (bd_state d)" "unidentified (bd_state d) = (bd_intent_id d = None)"
    using ok d(3,4) by (auto simp: entry_ok_def settlement_ok_def)
  show ?thesis
  proof (cases "bd_intent_id d")
    case (Some i)
    then have "bd_state d = NeedsSafeZero \<or> bd_state d = NeedsUnresolved" using st by (auto simp: recoverable_def unidentified_def)
    from settle_recovered_done [OF sha len fp d(1) this Some, of ?sn False s] show ?thesis
      using create Some by (auto simp: recovery_settlement_command_def identify_intent_def then_run_def snapshot_of_def)
  next
    case None
    then have n: "bd_state d = NeedsIntentLookup" using st by (auto simp: recoverable_def unidentified_def)
    obtain x s1 where a: "bs_lookup_intent (en_store env) (lookup_of create) s = (Some (Inr x), s1)" using ledger_answersD [OF ans] by metis
    show ?thesis
    proof (cases "\<exists>rec. x = Some rec \<and> (ir_state rec = IntentPrepared \<or> ir_state rec = IntentDispatching)")
      case False
      then show ?thesis using a create None
        by (cases x) (auto simp: recovery_settlement_command_def identify_intent_def then_run_def snapshot_of_def)
    next
      case True
      then obtain rec where rec: "x = Some rec" "ir_state rec = IntentPrepared \<or> ir_state rec = IntentDispatching" by blast
      let ?b = "ir_state rec = IntentDispatching"
      let ?d = "d\<lparr>bd_intent_id := Some (ir_id rec), bd_state := (if ?b then NeedsUnresolved else NeedsSafeZero)\<rparr>"
      let ?rg = "rg\<lparr>rg_entries := AList.update r ?d (rg_entries rg)\<rparr>"
      have m: "mark_recovered_intent r (ir_id rec) ?b rg = (Inr (), ?rg)"
        using d(1) n None by (simp add: mark_recovered_intent_def transition_def)
      have "map_of (rg_entries ?rg) r = Some ?d" "bd_state ?d = NeedsSafeZero \<or> bd_state ?d = NeedsUnresolved"
        "bd_intent_id ?d = Some (ir_id rec)" "as_request_id ?sn = r" by (simp_all add: update_conv' snapshot_of_def)
      from settle_recovered_done [OF sha len fp this, of ?b s1] obtain k rg' where
        k: "settle_recovered env ?sn create (ir_id rec) ?b (?rg, s1) = (Done (Some k), rg', s1)"
          "\<forall>q. q \<noteq> r \<longrightarrow> map_of (rg_entries rg') q = map_of (rg_entries ?rg) q"
        by blast
      have "identify_intent env ?sn create (rg, s) = (Done (Some (ir_id rec, ?b)), ?rg, s1)"
        using a rec m None by (auto simp: identify_intent_def snapshot_of_def)
      then have "recovery_settlement_command env ?sn (rg, s) = (Done (Some k), rg', s1)"
        using k(1) create by (simp add: recovery_settlement_command_def then_run_def snapshot_of_def)
      then show ?thesis using k(2) by (auto simp: update_conv')
    qed
  qed
qed

lemma recover_snapshot_done:
  assumes sha: "\<forall>x. length (en_sha256_hex env x) \<le> MAX_FINGERPRINT_BYTES" and ans: "ledger_answers (en_store env)"
    and d: "map_of (rg_entries rg) r = Some d" "recoverable_slot json r d" "\<not> bd_guard_alive d"
  shows "\<exists>rg' s'. recover_snapshot env (snapshot_of (r, d)) (rg, s) = (Done True, rg', s') \<and>
    map_of (rg_entries rg') = (map_of (rg_entries rg))(r := None)"
proof -
  let ?sn = "snapshot_of (r, d)"
  obtain k rg1 s1 where k: "(case as_settlement ?sn of Some c \<Rightarrow> (Done (Some c), rg, s) | None \<Rightarrow> recovery_settlement_command env ?sn (rg, s)) = (Done k, rg1, s1)"
    and o: "\<forall>q. q \<noteq> r \<longrightarrow> map_of (rg_entries rg1) q = map_of (rg_entries rg) q"
    using recovery_command_done [OF sha ans d, of s] by (cases "bd_settlement d") (auto simp: snapshot_of_def)
  have m: "map_of (rg_entries (registry_acknowledge r rg1)) = (map_of (rg_entries rg))(r := None)"
    using o by (auto simp: acknowledge_entries fun_eq_iff)
  have id: "as_request_id ?sn = r" by (simp add: snapshot_of_def)
  show ?thesis
  proof (cases k)
    case None
    then have "recover_snapshot env ?sn (rg, s) = (Done True, registry_acknowledge r rg1, s1)" using k id by (simp add: recover_snapshot_def)
    then show ?thesis using m by blast
  next
    case (Some c)
    obtain x s2 where "bs_settle (en_store env) c s1 = (Some (Inr x), s2)" using ledger_settles [OF ans] by metis
    then have "recover_snapshot env ?sn (rg, s) = (Done True, registry_acknowledge r rg1, s2)" using k Some id by (simp add: recover_snapshot_def)
    then show ?thesis using m by blast
  qed
qed

lemma recover_snapshots_done:
  assumes sha: "\<forall>x. length (en_sha256_hex env x) \<le> MAX_FINGERPRINT_BYTES" and ans: "ledger_answers (en_store env)"
    and "distinct (map fst es)" "\<forall>(r, d) \<in> set es. map_of (rg_entries rg) r = Some d \<and> (\<not> bd_guard_alive d \<longrightarrow> recoverable_slot json r d)"
  shows "\<exists>stats' rg' s'. recover_snapshots env (map snapshot_of es) stats (rg, s) = (Done stats', rg', s') \<and> bt_failed stats' = bt_failed stats \<and>
    (\<forall>q. map_of (rg_entries rg') q = (if \<exists>d. (q, d) \<in> set es \<and> \<not> bd_guard_alive d then None else map_of (rg_entries rg) q))"
  using assms(3-)
proof (induction es arbitrary: stats rg s)
  case Nil
  then show ?case by simp
next
  case (Cons e es)
  obtain r d where e: "e = (r, d)" by (metis surj_pair)
  have d: "map_of (rg_entries rg) r = Some d" "\<not> bd_guard_alive d \<longrightarrow> recoverable_slot json r d" "r \<notin> fst ` set es" "distinct (map fst es)"
    using Cons.prems e by auto
  show ?case
  proof (cases "bd_guard_alive d")
    case True
    obtain stats' rg' s' where x: "recover_snapshots env (map snapshot_of es) stats (rg, s) = (Done stats', rg', s')" "bt_failed stats' = bt_failed stats"
      "\<forall>q. map_of (rg_entries rg') q = (if \<exists>d. (q, d) \<in> set es \<and> \<not> bd_guard_alive d then None else map_of (rg_entries rg) q)"
      using Cons.IH [OF d(4), of rg stats s] Cons.prems(2) by auto
    moreover have "(\<exists>d'. (q, d') \<in> set (e # es) \<and> \<not> bd_guard_alive d') = (\<exists>d. (q, d) \<in> set es \<and> \<not> bd_guard_alive d)" for q
      using e True by auto
    ultimately show ?thesis using e True by (simp add: as_guard_snapshot)
  next
    case False
    obtain rg1 s1 where one: "recover_snapshot env (snapshot_of (r, d)) (rg, s) = (Done True, rg1, s1)"
      "map_of (rg_entries rg1) = (map_of (rg_entries rg))(r := None)"
      using recover_snapshot_done [OF sha ans d(1)] d(2) False by blast
    have rest: "\<forall>(q, x) \<in> set es. map_of (rg_entries rg1) q = Some x \<and> (\<not> bd_guard_alive x \<longrightarrow> recoverable_slot json q x)"
    proof (rule ballI)
      fix p assume p: "p \<in> set es"
      then have "fst p \<noteq> r" using d(3) by force
      then show "case p of (q, x) \<Rightarrow> map_of (rg_entries rg1) q = Some x \<and> (\<not> bd_guard_alive x \<longrightarrow> recoverable_slot json q x)"
        using Cons.prems(2) p one(2) by (auto split: prod.splits)
    qed
    let ?stats = "stats\<lparr>bt_scanned := bt_scanned stats + 1, bt_settled := bt_settled stats + 1\<rparr>"
    obtain stats' rg' s' where x: "recover_snapshots env (map snapshot_of es) ?stats (rg1, s1) = (Done stats', rg', s')" "bt_failed stats' = bt_failed ?stats"
      "\<forall>q. map_of (rg_entries rg') q = (if \<exists>d. (q, d) \<in> set es \<and> \<not> bd_guard_alive d then None else map_of (rg_entries rg1) q)"
      using Cons.IH [OF d(4) rest, of ?stats s1] by blast
    have "recover_snapshots env (map snapshot_of (e # es)) stats (rg, s) = (Done stats', rg', s')"
      using e False one(1) x(1) by (simp add: as_guard_snapshot then_run_def Let_def)
    moreover have "(\<exists>d'. (q, d') \<in> set (e # es) \<and> \<not> bd_guard_alive d') = (q = r \<or> (\<exists>d. (q, d) \<in> set es \<and> \<not> bd_guard_alive d))" for q
      using e False by auto
    ultimately show ?thesis using x(2,3) one(2) by auto
  qed
qed

text \<open>C18. Recovery comes to an end. From every registry that requests and recovery can leave behind, one pass over all
  entries against a ledger that answers settles or releases every abandoned entry: the pass returns, fails for no
  entry, and what is left is exactly what belongs to requests that are still under way. The request ids are those of
  the gateway (32 characters), fingerprints are hashes of at most 128 characters, and every entry has the create
  command that is recorded before the first call of the ledger.\<close>

theorem recovery_pass_settles_all:
  assumes reach: "registry_reachable (en_json env) (rg, guards)" and it: "iterates iter (rg_entries rg)" "length (rg_entries rg) \<le> n"
    and sha: "\<forall>x. length (en_sha256_hex env x) \<le> MAX_FINGERPRINT_BYTES" and ans: "ledger_answers (en_store env)"
    and entries: "\<forall>(r, d) \<in> set (rg_entries rg). length r = 32 \<and> bd_create_command d \<noteq> None"
  shows "\<exists>stats rg' s'. recover_budget_registry_once env iter n (rg, s) = (Done stats, rg', s') \<and> bt_failed stats = 0 \<and>
    (\<forall>r. map_of (rg_entries rg') r = (case map_of (rg_entries rg) r of Some d \<Rightarrow> if bd_guard_alive d then Some d else None | None \<Rightarrow> None))"
proof -
  have ok: "registry_ok (en_json env) (rg, guards)" using reach by (rule registry_reachable_ok)
  have k: "distinct (map fst (rg_entries rg))" using ok by (simp add: registry_ok_def)
  let ?es = "iter (rg_entries rg)"
  have es: "set ?es = set (rg_entries rg)" "length ?es = length (rg_entries rg)"
    using iterates_set [OF it(1)] it(1) by (auto simp: iterates_def dest: mset_eq_length)
  have "\<forall>(r, d) \<in> set ?es. map_of (rg_entries rg) r = Some d \<and> (\<not> bd_guard_alive d \<longrightarrow> recoverable_slot (en_json env) r d)"
    using es(1) k entries ok by (fastforce simp: recoverable_slot_def registry_ok_def MAX_OPERATION_ID_BYTES_def)
  from recover_snapshots_done [OF sha ans iterates_distinct_fst [OF it(1) k] this, of "\<lparr>bt_scanned = 0, bt_settled = 0, bt_failed = 0\<rparr>" s]
  obtain stats rg' s' where x: "recover_snapshots env (map snapshot_of ?es) \<lparr>bt_scanned = 0, bt_settled = 0, bt_failed = 0\<rparr> (rg, s) = (Done stats, rg', s')"
    "bt_failed stats = 0" "\<forall>q. map_of (rg_entries rg') q = (if \<exists>d. (q, d) \<in> set ?es \<and> \<not> bd_guard_alive d then None else map_of (rg_entries rg) q)"
    by auto
  have "recover_budget_registry_once env iter n (rg, s) = (Done stats, rg', s')"
    using x(1) it(2) es(2) by (simp add: recover_budget_registry_once_def snapshots_def take_map)
  moreover have "map_of (rg_entries rg') r = (case map_of (rg_entries rg) r of Some d \<Rightarrow> if bd_guard_alive d then Some d else None | None \<Rightarrow> None)" for r
  proof (cases "map_of (rg_entries rg) r")
    case None
    then show ?thesis using x(3) es(1) by (simp)
  next
    case (Some d)
    then have "(r, d') \<in> set ?es \<longleftrightarrow> d' = d" for d' using es(1) k by (metis map_of_eq_Some_iff option.inject)
    then show ?thesis using x(3) Some by simp
  qed
  ultimately show ?thesis using x(2) by blast
qed

definition ex_id :: string where
  "ex_id = ''0123456789abcdef0123456789abcdef''"

definition ex_create :: CreateBudgetIntent where
  "ex_create = \<lparr>cb_intent_id = 7, cb_virtual_key_id = 9, cb_request_id = ex_id, cb_operation_id = ''o'', cb_command_fingerprint = ''f'',
     cb_pricing_fingerprint = ''p'', cb_pricing_snapshot = \<lparr>bp_schema_version = 1, bp_provider_type = ''openai'', bp_model = ''m'',
       bp_input = None, bp_output = None, bp_max_prompt_tokens = None\<rparr>,
     cb_node_id = 1, cb_owner_session_id = 2, cb_stale_after = 0\<rparr>"

definition ex_abandoned :: ActiveBudgetIntentRegistry where
  "ex_abandoned = ex_empty\<lparr>rg_active_entries := 1, rg_entries := [(ex_id, \<lparr>bd_intent_id = None, bd_state = NeedsIntentLookup, bd_guard_alive = False,
     bd_create_command = Some ex_create, bd_settlement = None\<rparr>)]\<rparr>"

lemma ex_abandoned_reachable: "registry_reachable (\<lambda>_. Some ''{}'') (ex_abandoned, [])"
proof -
  let ?json = "\<lambda>_. Some ''{}''"
  define g where "g = \<lparr>gd_request_id = ex_id, gd_completed = False\<rparr>"
  define rg1 where "rg1 = ex_empty\<lparr>rg_active_entries := 1, rg_entries := [(ex_id, fresh_entry)]\<rparr>"
  define rg2 where "rg2 = ex_empty\<lparr>rg_active_entries := 1, rg_entries := [(ex_id, fresh_entry\<lparr>bd_create_command := Some ex_create\<rparr>)]\<rparr>"
  have "registry_reachable ?json (ex_empty, [])" by (rule registry_reachable.start [of 2]) (simp add: registry_new_def ex_empty_def)
  moreover have "registry_try_reserve ex_empty ex_id = (Inr g, rg1)"
    by (simp add: registry_try_reserve_eq validate_text_field_def validate_field_size_def registry_limits g_def rg1_def ex_empty_def ex_id_def)
  ultimately have 1: "registry_reachable ?json (rg1, [g])" by (metis registry_reachable.step registry_step.reserved)
  have "record_create_command ?json ex_create g rg1 = (Inr (), g, rg2)"
    by (simp add: record_create_command_def validate_create_command_def validate_request_identity_def validate_text_field_def validate_field_size_def
      registry_limits and_try_def g_def rg1_def rg2_def ex_create_def ex_id_def fresh_entry_def)
  then have "registry_step ?json (rg1, [g]) (Create (gd_request_id g) ex_create) (rg2, g # remove1 g [g])"
    by (intro registry_step.created) (simp_all add: g_def)
  then have 2: "registry_reachable ?json (rg2, [g])" using registry_reachable.step [OF 1] by simp
  have "registry_step ?json (rg2, [g]) (DropGuard (gd_request_id g)) (drop_guard g rg2, remove1 g [g])" by (rule registry_step.dropped) simp
  moreover have "drop_guard g rg2 = ex_abandoned"
    by (simp add: drop_guard_def guard_dropped_def g_def rg2_def ex_abandoned_def fresh_entry_def)
  ultimately show ?thesis using registry_reachable.step [OF 2] by simp
qed

lemma recovery_pass_settles_all_witness:
  "\<exists>stats rg' s'. recover_budget_registry_once (ex_budget_env ex_store) id 10 (ex_abandoned, [ex_id]) = (Done stats, rg', s') \<and> bt_failed stats = 0 \<and>
     map_of (rg_entries rg') ex_id = None"
proof -
  have reach: "registry_reachable (en_json (ex_budget_env ex_store)) (ex_abandoned, [])" by (simp add: ex_budget_env_def ex_abandoned_reachable)
  have "\<exists>stats rg' s'. recover_budget_registry_once (ex_budget_env ex_store) id 10 (ex_abandoned, [ex_id]) = (Done stats, rg', s') \<and> bt_failed stats = 0 \<and>
    (\<forall>r. map_of (rg_entries rg') r = (case map_of (rg_entries ex_abandoned) r of Some d \<Rightarrow> if bd_guard_alive d then Some d else None | None \<Rightarrow> None))"
    by (rule recovery_pass_settles_all [OF reach])
      (simp_all add: ex_budget_env_def iterates_def ex_abandoned_def ex_empty_def ex_id_def MAX_FINGERPRINT_BYTES_def
        ledger_answers_def ex_store_def)
  then show ?thesis by (fastforce simp: ex_abandoned_def)
qed

text \<open>C31. A request that may have reached its upstream is never settled as free of cost by recovery. If a request is
  cut off after it asked the ledger to commit its dispatch and before its settlement was fixed, the only command the
  recovery task can derive for the entry settles its intent as of unknown cost, which leaves it to
  reconciliation.\<close>

theorem dispatched_is_never_free:
  assumes g: "map_of (rg_entries rg) (gd_request_id g) = Some d" "\<not> gd_completed g"
    and st: "bd_state d = DispatchCommitPending \<or> bd_state d = ActiveDispatching" "bd_intent_id d = Some i" "bd_settlement d = None"
    and d': "map_of (rg_entries (drop_guard g rg)) (gd_request_id g) = Some d'"
    and r: "recovery_settlement_command env (snapshot_of (gd_request_id g, d')) (drop_guard g rg, s) = (Done k, w)"
  shows "\<exists>c. k = Some c \<and> sb_intent_id c = i \<and> sb_request_id c = gd_request_id g \<and>
    co_status (sb_cost c) = CostUnavailable \<and> co_amount_usd (sb_cost c) = None"
proof -
  have d: "bd_state d' = NeedsUnresolved" "bd_intent_id d' = Some i" "bd_create_command d' = bd_create_command d"
    using g st d' by (auto simp: drop_guard_def guard_dropped_def update_conv')
  then obtain create where "settle_recovered env (snapshot_of (gd_request_id g, d')) create i False (drop_guard g rg, s) = (Done k, w)"
    using r by (auto simp: recovery_settlement_command_def identify_intent_def snapshot_of_def then_run_def split: option.splits)
  then obtain c where "k = Some c" "settlement_command env i (cb_virtual_key_id create) (gd_request_id g) (cb_pricing_fingerprint create) None
      (unavailable_cost ''request_lifecycle_cancelled_after_dispatch'') = Inr c"
    using d by (auto simp: settle_recovered_def recovered_unresolved_def recovered_cost_def snapshot_of_def Let_def split: sum.splits prod.splits)
  then show ?thesis by (auto simp: settlement_command_def unavailable_cost_def Let_def)
qed

definition ex_dispatching :: ActiveBudgetIntentRegistry where
  "ex_dispatching = ex_empty\<lparr>rg_active_entries := 1, rg_entries := [(ex_id, \<lparr>bd_intent_id = Some 7, bd_state = ActiveDispatching, bd_guard_alive = True,
     bd_create_command = Some ex_create, bd_settlement = None\<rparr>)]\<rparr>"

lemma dispatched_is_never_free_witness:
  "\<exists>c w. recovery_settlement_command (ex_budget_env ex_store)
      (snapshot_of (ex_id, \<lparr>bd_intent_id = Some 7, bd_state = NeedsUnresolved, bd_guard_alive = False, bd_create_command = Some ex_create, bd_settlement = None\<rparr>))
      (drop_guard \<lparr>gd_request_id = ex_id, gd_completed = False\<rparr> ex_dispatching, [ex_id]) = (Done (Some c), w) \<and>
    sb_intent_id c = 7 \<and> co_status (sb_cost c) = CostUnavailable"
proof -
  let ?g = "\<lparr>gd_request_id = ex_id, gd_completed = False\<rparr>"
  let ?d = "\<lparr>bd_intent_id = Some 7, bd_state = NeedsUnresolved, bd_guard_alive = False, bd_create_command = Some ex_create, bd_settlement = None\<rparr>"
  let ?env = "ex_budget_env ex_store"
  have m: "map_of (rg_entries (drop_guard ?g ex_dispatching)) ex_id = Some ?d"
    by (simp add: drop_guard_def guard_dropped_def ex_dispatching_def)
  have "\<forall>x. length (en_sha256_hex ?env x) \<le> MAX_FINGERPRINT_BYTES" "length ex_id + 17 \<le> MAX_OPERATION_ID_BYTES"
    "length (cb_pricing_fingerprint ex_create) \<le> MAX_FINGERPRINT_BYTES" "as_request_id (snapshot_of (ex_id, ?d)) = ex_id"
    by (simp_all add: ex_budget_env_def MAX_FINGERPRINT_BYTES_def MAX_OPERATION_ID_BYTES_def ex_id_def ex_create_def snapshot_of_def)
  then obtain k rg' where k: "settle_recovered ?env (snapshot_of (ex_id, ?d)) ex_create 7 False (drop_guard ?g ex_dispatching, [ex_id]) = (Done (Some k), rg', [ex_id])"
    using settle_recovered_done [OF _ _ _ m, of ?env ex_create 7 "snapshot_of (ex_id, ?d)" False "[ex_id]"] by auto
  then have r: "recovery_settlement_command ?env (snapshot_of (ex_id, ?d)) (drop_guard ?g ex_dispatching, [ex_id]) = (Done (Some k), rg', [ex_id])"
    by (simp add: recovery_settlement_command_def identify_intent_def snapshot_of_def then_run_def)
  have "\<exists>c. Some k = Some c \<and> sb_intent_id c = 7 \<and> sb_request_id c = ex_id \<and> co_status (sb_cost c) = CostUnavailable \<and> co_amount_usd (sb_cost c) = None"
    using dispatched_is_never_free [of ex_dispatching ?g _ 7 ?d ?env "[ex_id]" "Some k"] m r by (simp add: ex_dispatching_def)
  then show ?thesis using r by auto
qed

section \<open>What is charged\<close>

lemma cost_from_fact_amount:
  assumes "cost_from_fact dl (Some f) r key True fp snap = (u, c)" "co_amount_usd c = Some amount"
  shows "uf_request_id f = r \<and> uf_virtual_key_id f = Some key \<and> uf_pricing_fingerprint f = Some fp \<and> u = Some (uf_id f) \<and>
    \<not> (case (bp_max_prompt_tokens snap, uf_prompt_tokens f) of (Some maximum, Some field) \<Rightarrow> maximum < tf_value field | _ \<Rightarrow> False) \<and>
    (let computed = calculate_cost dl \<lparr>rp_input = map_option price_of_unit (bp_input snap), rp_output = map_option price_of_unit (bp_output snap),
           rp_status = Matched, rp_unsupported_reasons = []\<rparr> (uf_prompt_tokens f) (uf_completion_tokens f) (uf_usage_source f) True
           (''invalid_token_value'' \<in> set (uf_usage_unavailable_reasons f))
     in cc_cost_usd computed = Some amount \<and> co_status c = cc_status computed \<and> opt_eq dec_eq (uf_cost_usd f) (Some amount))"
  using assms by (auto simp: cost_from_fact_def Let_def unavailable_cost_def split: if_splits)

lemma reason_set_empty: "reason_set cs = [] \<longleftrightarrow> (\<forall>c \<in> set cs. \<not> fst c)"
proof -
  have "set (reason_set cs) = snd ` {c \<in> set cs. fst c}" by (auto simp: reason_set_def)
  then show ?thesis by (metis (mono_tags, lifting) empty_Collect_eq image_is_empty set_empty)
qed

lemma calculated_cost_complete:
  assumes "cc_cost_usd (calculate_cost dl pricing prompt completion source True invalid) = Some amount"
  shows "\<not> invalid \<and> prompt \<noteq> None \<and> completion \<noteq> None \<and> rp_input pricing \<noteq> None \<and> rp_output pricing \<noteq> None"
  using assms by (auto simp: calculate_cost_def Let_def reason_set_empty split: if_splits)

lemma calculated_cost_fits:
  assumes "cc_cost_usd (calculate_cost dl pricing prompt completion source True invalid) = Some amount"
  shows "fits_numeric_28_12 amount \<and> cc_status (calculate_cost dl pricing prompt completion source True invalid) \<in> {Calculated, Estimated}"
  using assms by (auto simp: calculate_cost_def cost_arithmetic_def Let_def split: if_splits option.splits)

text \<open>An amount that fits its column is normalised without a change of its value.\<close>

lemma normalized_amount:
  assumes dl: "decimal_lib_ok dl" and fits: "fits_numeric_28_12 amount"
  shows "\<exists>charged. normalize_budget_amount dl amount = Inr charged \<and> dec_scale charged = 12 \<and> dec_val charged = dec_val amount"
proof -
  let ?n = "dl_normalize dl amount"
  have n: "dec_scale ?n \<le> dec_scale amount" "dec_val ?n = dec_val amount"
    and r: "dec_scale ?n \<le> 12 \<Longrightarrow> 0 \<le> dec_val ?n \<Longrightarrow> dec_val ?n < 10 ^ 16 \<Longrightarrow>
      dec_scale (dl_rescale12 dl ?n) = 12 \<and> dec_val (dl_rescale12 dl ?n) = dec_val ?n"
    using dl unfolding decimal_lib_ok_def by blast+
  have m: "dec_val MAX_NUMERIC_28_12 < 10 ^ 16" by (simp add: MAX_NUMERIC_28_12_def dec_val_def)
  have f: "dec_scale amount \<le> 12" "0 \<le> dec_val amount" "dec_val amount < 10 ^ 16"
    using fits m by (auto simp: fits_numeric_28_12_def dec_le_val)
  have "normalize_budget_amount dl amount = Inr (dl_rescale12 dl ?n)"
    using f n by (simp add: normalize_budget_amount_def Let_def dec_le_val)
  then show ?thesis using r f n by simp
qed

lemma settlement_keeps_amount:
  assumes "decimal_lib_ok (en_decimal env)" "fits_numeric_28_12 amount" "co_amount_usd c = Some amount" "co_status c \<in> {Calculated, Estimated}"
  shows "\<exists>command charged. settlement_command env intent_id key request_id fingerprint u c = Inr command \<and>
    sb_cost command = c\<lparr>co_amount_usd := Some charged\<rparr> \<and> dec_scale charged = 12 \<and> dec_val charged = dec_val amount \<and>
    sb_intent_id command = intent_id \<and> sb_virtual_key_id command = key \<and> sb_request_id command = request_id \<and>
    sb_pricing_fingerprint command = fingerprint \<and> sb_usage_fact_id command = u"
proof -
  obtain charged where "normalize_budget_amount (en_decimal env) amount = Inr charged" "dec_scale charged = 12" "dec_val charged = dec_val amount"
    using normalized_amount [OF assms(1,2)] by blast
  then show ?thesis using assms(3,4) by (auto simp: settlement_command_def Let_def)
qed

text \<open>C8. What is charged is what the call cost. When the cost taken from the usage fact of a request that reached its upstream has
  an amount, the settlement command built from it is never refused, and it charges this request and this key, in a number of twelve
  places, the exact cost of the tokens at the prices frozen before dispatch, rounded once to twelve places; the fact is the one of
  this request, of this key and of those prices, its prompt is within the limit they hold for, and the cost it claims is
  the same. This holds for up to a billion tokens each and prices up to ten thousand dollars.\<close>

theorem charged_amount_is_exact:
  assumes dl: "decimal_lib_ok (en_decimal env)" and fact: "cost_from_fact (en_decimal env) (Some f) request_id key True fingerprint snapshot = (u, c)"
    and amount: "co_amount_usd c = Some amount" and prices: "bp_input snapshot = Some pin" "bp_output snapshot = Some pout"
    and rates: "\<forall>q \<in> {pin, pout}. dec_scale (bu_usd_per_million q) \<le> 12 \<and> 0 \<le> dec_val (bu_usd_per_million q) \<and> dec_val (bu_usd_per_million q) \<le> 10 ^ 4"
    and tokens: "uf_prompt_tokens f = Some p" "uf_completion_tokens f = Some q" "0 \<le> tf_value p" "tf_value p \<le> 10 ^ 9" "0 \<le> tf_value q" "tf_value q \<le> 10 ^ 9"
  shows "\<exists>command charged. settlement_command env intent_id key request_id fingerprint u c = Inr command \<and>
    co_amount_usd (sb_cost command) = Some charged \<and> co_status (sb_cost command) \<in> {Calculated, Estimated} \<and>
    sb_intent_id command = intent_id \<and> sb_virtual_key_id command = key \<and> sb_request_id command = request_id \<and>
    sb_usage_fact_id command = Some (uf_id f) \<and>
    dec_scale charged = 12 \<and>
    dec_val charged = round12 ((of_int (tf_value p) * dec_val (bu_usd_per_million pin) + of_int (tf_value q) * dec_val (bu_usd_per_million pout)) / 10 ^ 6) \<and>
    opt_eq dec_eq (uf_cost_usd f) (Some charged) \<and>
    uf_request_id f = request_id \<and> uf_virtual_key_id f = Some key \<and> uf_pricing_fingerprint f = Some fingerprint \<and>
    (\<forall>maximum. bp_max_prompt_tokens snapshot = Some maximum \<longrightarrow> tf_value p \<le> maximum)"
proof -
  let ?dl = "en_decimal env"
  let ?pr = "\<lparr>rp_input = map_option price_of_unit (bp_input snapshot), rp_output = map_option price_of_unit (bp_output snapshot), rp_status = Matched, rp_unsupported_reasons = []\<rparr>"
  let ?inv = "''invalid_token_value'' \<in> set (uf_usage_unavailable_reasons f)"
  let ?exact = "(of_int (tf_value p) * dec_val (bu_usd_per_million pin) + of_int (tf_value q) * dec_val (bu_usd_per_million pout)) / 10 ^ 6"
  note x = cost_from_fact_amount [OF fact amount, unfolded Let_def]
  have cc: "cc_cost_usd (calculate_cost ?dl ?pr (Some p) (Some q) (uf_usage_source f) True ?inv) = Some amount" using x tokens(1,2) by simp
  then have inv: "\<not> ?inv" using calculated_cost_complete by blast
  have "\<exists>cost. calculate_cost ?dl ?pr (Some p) (Some q) (uf_usage_source f) True False =
      \<lparr>cc_cost_usd = Some cost, cc_status = (if uf_usage_source f = ProviderUsage then Calculated else Estimated), cc_unavailable_reasons = []\<rparr> \<and>
      dec_val cost = round12 ?exact \<and> \<bar>dec_val cost - ?exact\<bar> \<le> 1 / (2 * 10 ^ 12)"
    using rates tokens(3-) by (intro cost_is_exact [OF dl, of _ "price_of_unit pin" "price_of_unit pout"]) (simp_all add: prices price_of_unit_def)
  then have v: "dec_val amount = round12 ?exact" using cc inv by auto
  have s: "fits_numeric_28_12 amount" "co_status c \<in> {Calculated, Estimated}" using calculated_cost_fits [OF cc] x tokens(1,2) by simp_all
  obtain command charged where k: "settlement_command env intent_id key request_id fingerprint u c = Inr command"
    "sb_cost command = c\<lparr>co_amount_usd := Some charged\<rparr>" "dec_scale charged = 12" "dec_val charged = dec_val amount"
    "sb_intent_id command = intent_id" "sb_virtual_key_id command = key" "sb_request_id command = request_id" "sb_usage_fact_id command = u"
    using settlement_keeps_amount [OF dl s(1) amount s(2)] by blast
  have "opt_eq dec_eq (uf_cost_usd f) (Some charged)"
    using x k(4) by (cases "uf_cost_usd f") (simp_all add: dec_eq_val)
  then show ?thesis using k v s(2) x tokens(1) by (intro exI [of _ command] exI [of _ charged]) auto
qed

definition ex_unit :: "int \<Rightarrow> BudgetUnitPriceSnapshot" where
  "ex_unit n = unit_price (ex_price n)"

definition ex_pricing_snapshot :: BudgetPricingSnapshot where
  "ex_pricing_snapshot = \<lparr>bp_schema_version = 1, bp_provider_type = ''openai'', bp_model = ''m'', bp_input = Some (ex_unit 500),
     bp_output = Some (ex_unit 3000), bp_max_prompt_tokens = Some 272000\<rparr>"

definition ex_fact :: "Decimal \<Rightarrow> AiUsageFact" where
  "ex_fact cost = \<lparr>uf_id = 3, uf_request_id = ex_id, uf_virtual_key_id = Some 9, uf_prompt_tokens = Some (ex_tokens 1000),
     uf_completion_tokens = Some (ex_tokens 200), uf_total_tokens = None, uf_usage_source = ProviderUsage, uf_usage_unavailable_reasons = [],
     uf_input_price = Some (ex_price 500), uf_output_price = Some (ex_price 3000), uf_pricing_fingerprint = Some ''p'',
     uf_pricing_status = Matched, uf_cost_usd = Some cost, uf_cost_status = Calculated, uf_cost_unavailable_reasons = []\<rparr>"

theorem charged_amount_is_exact_witness:
  "\<exists>amount c command charged. cost_from_fact ex_decimal (Some (ex_fact amount)) ex_id 9 True ''p'' ex_pricing_snapshot = (Some 3, c) \<and>
     settlement_command ((ex_budget_env ex_store)\<lparr>en_decimal := ex_decimal\<rparr>) 7 9 ex_id ''p'' (Some 3) c = Inr command \<and>
     co_amount_usd (sb_cost command) = Some charged \<and> dec_val charged = 11 / 1000"
proof -
  let ?env = "(ex_budget_env ex_store)\<lparr>en_decimal := ex_decimal\<rparr>"
  obtain amount where a: "calculate_cost ex_decimal \<lparr>rp_input = Some (ex_price 500), rp_output = Some (ex_price 3000), rp_status = Matched, rp_unsupported_reasons = []\<rparr>
       (Some (ex_tokens 1000)) (Some (ex_tokens 200)) ProviderUsage True False =
     \<lparr>cc_cost_usd = Some amount, cc_status = Calculated, cc_unavailable_reasons = []\<rparr>"
    using ex_cost by blast
  have u: "price_of_unit (ex_unit n) = ex_price n" for n by (simp add: ex_unit_def unit_price_def price_of_unit_def)
  define c where "c = \<lparr>co_status = Calculated, co_amount_usd = Some amount, co_reasons = []\<rparr>"
  have e: "en_decimal ?env = ex_decimal" by simp
  have f: "cost_from_fact ex_decimal (Some (ex_fact amount)) ex_id 9 True ''p'' ex_pricing_snapshot = (Some 3, c)"
    using a by (simp add: cost_from_fact_def ex_fact_def ex_pricing_snapshot_def u price_eq_def dec_eq_def ex_tokens_def c_def)
  have p: "bu_usd_per_million (ex_unit n) = cents n" "dec_scale (cents n) = 12" "tf_value (ex_tokens n) = n" "dec_val (cents 500) = 5" "dec_val (cents 3000) = 30" for n
    by (simp_all add: ex_unit_def unit_price_def ex_price_def ex_tokens_def cents_def dec_val_def)
  have "\<lfloor>22000000001 / 2 :: rat\<rfloor> = 11000000000" by (rule floor_unique) simp_all
  then have r: "round12 (11 / 1000) = 11 / 1000" by (simp add: round12_def)
  have t: "bp_input ex_pricing_snapshot = Some (ex_unit 500)" "bp_output ex_pricing_snapshot = Some (ex_unit 3000)"
    "uf_prompt_tokens (ex_fact amount) = Some (ex_tokens 1000)" "uf_completion_tokens (ex_fact amount) = Some (ex_tokens 200)"
    "co_amount_usd c = Some amount"
    by (simp_all add: ex_pricing_snapshot_def ex_fact_def c_def)
  obtain command charged where "settlement_command ?env 7 9 ex_id ''p'' (Some 3) c = Inr command"
    "co_amount_usd (sb_cost command) = Some charged" "dec_val charged = 11 / 1000"
    using charged_amount_is_exact [of ?env "ex_fact amount" ex_id 9 "''p''" ex_pricing_snapshot "Some 3" c amount "ex_unit 500" "ex_unit 3000"
        "ex_tokens 1000" "ex_tokens 200" 7, unfolded e, OF ex_decimal_ok f t(5,1,2) _ t(3,4)] r
    by (auto simp: p)
  then show ?thesis using f by blast
qed

end
