(* ===== verification/Registry_Interleaving.thy ===== *)
theory Registry_Interleaving
  imports Budget_Registry
begin

text \<open>
  The capacity of the registry of budget intents when its operations overlap. In \<open>budget_registry.rs\<close> a reservation counts
  itself before it enters the map and an acknowledgement leaves the map before it is counted out, so other tasks see the states in
  between. Here every atomic access is a step of its own: the state has the registry and the operations that are between their
  two accesses.
\<close>

section \<open>Operations under way\<close>

text \<open>A reservation that is counted but not yet in the map; an operation that has yet to give back its place in the count.\<close>

datatype in_flight = Claimed string | Leaving

type_synonym counted_registry = "ActiveBudgetIntentRegistry \<times> in_flight multiset"

text \<open>A change of an entry that stays covers all transitions and the drop of a guard.\<close>

inductive counted_step :: "counted_registry \<Rightarrow> counted_registry \<Rightarrow> bool" where
  claim: "claim_slot rg = Some rg' \<Longrightarrow> counted_step (rg, p) (rg', add_mset (Claimed r) p)"
| enter: "enter_entry r rg = Some rg' \<Longrightarrow> counted_step (rg, add_mset (Claimed r) p) (rg', p)"
| occupied: "enter_entry r rg = None \<Longrightarrow> counted_step (rg, add_mset (Claimed r) p) (rg, add_mset Leaving p)"
| removed: "take_entry r rg = Some rg' \<Longrightarrow> counted_step (rg, p) (rg', add_mset Leaving p)"
| leave: "counted_step (rg, add_mset Leaving p) (release_slot rg, p)"
| rejected: "counted_step (rg, p) (record_rejection b rg, p)"
| changed: "map_of (rg_entries rg) r = Some d \<Longrightarrow>
    counted_step (rg, p) (rg\<lparr>rg_entries := AList.update r d' (rg_entries rg)\<rparr>, p)"

inductive counted_reachable :: "counted_registry \<Rightarrow> bool" where
  start: "registry_new n = Inr rg \<Longrightarrow> counted_reachable (rg, {#})"
| step: "counted_reachable s \<Longrightarrow> counted_step s s' \<Longrightarrow> counted_reachable s'"

section \<open>The count\<close>

definition count_ok :: "counted_registry \<Rightarrow> bool" where
  "count_ok s \<longleftrightarrow>
     (case s of (rg, p) \<Rightarrow>
        distinct (map fst (rg_entries rg)) \<and> unat (rg_active_entries rg) = length (rg_entries rg) + size p \<and>
        rg_active_entries rg \<le> rg_max_entries rg)"

lemma unat_suc: "a < b \<Longrightarrow> unat (a + 1) = Suc (unat a) \<and> a + 1 \<le> b" for a b :: usize
proof -
  have "unat b < 2 ^ 64" using unsigned_less [of b] by simp
  then show "a < b \<Longrightarrow> unat (a + 1) = Suc (unat a) \<and> a + 1 \<le> b"
    by (simp add: unat_word_ariths word_less_nat_alt word_le_nat_alt)
qed

lemma unat_pred: "0 < unat a \<Longrightarrow> unat (a - 1) = unat a - 1 \<and> a - 1 \<le> a" for a :: usize
  by (simp add: unat_sub word_le_nat_alt Suc_leI)

lemma counted_step_ok: "counted_step s s' \<Longrightarrow> count_ok s \<Longrightarrow> count_ok s'"
proof (induction rule: counted_step.induct)
  case (claim rg rg' p r)
  then show ?case using unat_suc [of "rg_active_entries rg" "rg_max_entries rg"]
    by (auto simp: count_ok_def claim_slot_def split: if_splits)
next
  case (enter r rg rg' p)
  then show ?case
    by (auto simp: count_ok_def enter_entry_def update_fresh map_of_eq_None_iff simp del: map_of_eq_Some_iff split: option.splits)
next
  case (removed r rg rg' p)
  then show ?case using length_delete [of "rg_entries rg" r]
    by (auto simp: count_ok_def take_entry_def distinct_delete simp del: map_of_eq_Some_iff split: option.splits)
next
  case (leave rg p)
  then show ?case using unat_pred [of "rg_active_entries rg"]
    by (auto simp: count_ok_def release_slot_def word_le_nat_alt)
next
  case (changed rg r d p d')
  then show ?case by (simp add: count_ok_def length_update_Some distinct_update)
qed (auto simp: count_ok_def record_rejection_def Let_def)

lemma counted_reachable_ok: "counted_reachable s \<Longrightarrow> count_ok s"
proof (induction rule: counted_reachable.induct)
  case (start n rg)
  then show ?case by (auto simp: registry_new_def count_ok_def split: if_splits)
qed (rule counted_step_ok)

text \<open>
  C30. The capacity of the registry holds in every interleaving of the atomic accesses of reservations,
  acknowledgements and changes of entries: the counter is the number of entries and of the operations between their two accesses, and
  never exceeds the capacity, so the registry never has more entries than that. A reservation finds no place exactly when entries and
  operations under way make up the capacity. When no operation is under way, a reservation with a well-formed id
  is refused as overloaded exactly when the registry is full, as a duplicate exactly when there is place and the request has an
  entry, and succeeds otherwise with a fresh entry; no entry is displaced by a refused one.
\<close>

theorem registry_capacity_is_exact:
  assumes "counted_reachable (rg, p)" and "r \<noteq> []" "length r \<le> MAX_REQUEST_ID_BYTES"
  shows "unat (rg_active_entries rg) = length (rg_entries rg) + size p \<and>
    length (rg_entries rg) + size p \<le> unat (rg_max_entries rg) \<and>
    (claim_slot rg = None \<longleftrightarrow> length (rg_entries rg) + size p = unat (rg_max_entries rg)) \<and>
    (p = {#} \<longrightarrow>
      (case registry_try_reserve rg r of
         (Inl e, rg') \<Rightarrow> rg_entries rg' = rg_entries rg \<and>
           (e = RegistryOverloaded \<and> length (rg_entries rg) = unat (rg_max_entries rg) \<or>
            e = DuplicateRequest \<and> length (rg_entries rg) < unat (rg_max_entries rg) \<and> r \<in> fst ` set (rg_entries rg))
       | (Inr g, rg') \<Rightarrow> length (rg_entries rg) < unat (rg_max_entries rg) \<and> r \<notin> fst ` set (rg_entries rg) \<and>
           rg_entries rg' = rg_entries rg @ [(r, fresh_entry)] \<and> gd_request_id g = r \<and> \<not> gd_completed g))"
proof -
  have D: "unat (rg_active_entries rg) = length (rg_entries rg) + size p" "unat (rg_active_entries rg) \<le> unat (rg_max_entries rg)"
    using counted_reachable_ok [OF assms(1)] by (auto simp: count_ok_def word_le_nat_alt)
  have c: "claim_slot rg = None \<longleftrightarrow> length (rg_entries rg) + size p = unat (rg_max_entries rg)"
    using D by (auto simp: claim_slot_def word_less_nat_alt)
  moreover have "case registry_try_reserve rg r of
         (Inl e, rg') \<Rightarrow> rg_entries rg' = rg_entries rg \<and>
           (e = RegistryOverloaded \<and> length (rg_entries rg) = unat (rg_max_entries rg) \<or>
            e = DuplicateRequest \<and> length (rg_entries rg) < unat (rg_max_entries rg) \<and> r \<in> fst ` set (rg_entries rg))
       | (Inr g, rg') \<Rightarrow> length (rg_entries rg) < unat (rg_max_entries rg) \<and> r \<notin> fst ` set (rg_entries rg) \<and>
           rg_entries rg' = rg_entries rg @ [(r, fresh_entry)] \<and> gd_request_id g = r \<and> \<not> gd_completed g" if "p = {#}"
    using D assms(2,3) that
    by (auto simp: registry_try_reserve_eq validate_text_field_def validate_field_size_def word_less_nat_alt update_fresh
        map_of_eq_None_iff simp del: map_of_eq_Some_iff split: option.splits)
      (metis domI dom_map_of_conv_image_fst)
  ultimately show ?thesis using D by simp
qed

text \<open>
  An interleaving in which a registry with a free place answers that it is overloaded: of the two places one is
  taken, and the other is counted for a repeated reservation that is about to fail.
\<close>

definition two_places :: ActiveBudgetIntentRegistry where
  "two_places = \<lparr>rg_max_entries = 2, rg_entries = [(''r1'', fresh_entry)], rg_active_entries = 2, rg_rejected_entries = 0,
     rg_field_limit_rejections = 0\<rparr>"

lemma two_places_reachable: "counted_reachable (two_places, {#Claimed ''r1''#})"
proof -
  let ?rg = "\<lambda>es n. \<lparr>rg_max_entries = 2, rg_entries = es, rg_active_entries = n, rg_rejected_entries = 0, rg_field_limit_rejections = 0\<rparr>"
  have "counted_reachable (?rg [] 0, {#})" by (rule counted_reachable.start [of 2]) (simp add: registry_new_def)
  then have "counted_reachable (?rg [] 1, {#Claimed ''r1''#})"
    by (rule counted_reachable.step) (rule counted_step.claim, simp add: claim_slot_def)
  then have "counted_reachable (?rg [(''r1'', fresh_entry)] 1, {#})"
    by (rule counted_reachable.step) (rule counted_step.enter, simp add: enter_entry_def)
  then have "counted_reachable (?rg [(''r1'', fresh_entry)] 2, {#Claimed ''r1''#})"
    by (rule counted_reachable.step) (rule counted_step.claim, simp add: claim_slot_def)
  then show ?thesis by (simp add: two_places_def)
qed

theorem registry_capacity_is_exact_witness:
  "claim_slot two_places = None \<and> unat (rg_active_entries two_places) = 2"
  using registry_capacity_is_exact [OF two_places_reachable, of "''r2''"]
  by (simp add: two_places_def MAX_REQUEST_ID_BYTES_def)

end
