(* ===== verification/AI_Request.thy ===== *)
theory AI_Request
  imports Budget_Enforcement
begin

text \<open>
  The request as the AI plugins see it: the identity of a virtual key (\<open>kong-ai/src/auth.rs\<close>,
  \<open>models.rs\<close>), the state of its quota (\<open>enforcement/quota.rs\<close>), and the extensions of a request that
  carries both beside the budget. The shared quota store is carried there too, as the ledger is in
  \<open>Budget_Enforcement\<close>; the fields of \<open>RequestCtx\<close> that only these plugins use (the body and what
  authentication found) are kept beside the extensions.
\<close>

section \<open>Virtual keys\<close>

text \<open>The fields of a stored key that authentication and enforcement read.\<close>

record AiVirtualKey =
  vk_id :: uuid
  vk_name :: string
  vk_key_hash :: string
  vk_key_prefix :: string
  vk_consumer_id :: "uuid option"
  vk_allowed_models :: "string list option"
  vk_tpm_limit :: "int option"
  vk_rpm_limit :: "int option"
  vk_budget_limit :: "Decimal option"
  vk_budget_pending_count :: int
  vk_budget_unresolved_count :: int
  vk_enabled :: bool
  vk_expires_at :: "int option"

record VirtualKeyPolicySnapshot =
  vp_rpm_limit :: "u64 option"
  vp_tpm_limit :: "u64 option"
  vp_budget_guard_required :: bool
  vp_accounting_blocked :: bool

definition non_zero :: "u64 \<Rightarrow> u64 option" where
  "non_zero n = (if n = 0 then None else Some n)"

text \<open>\<open>u64::try_from\<close> of a signed number, then \<open>NonZeroU64::new\<close>.\<close>

definition key_limit :: "int option \<Rightarrow> u64 option" where
  "key_limit v = Option.bind v (\<lambda>n. if n < 0 then None else non_zero (word_of_int n))"

definition policy_from_key :: "AiVirtualKey \<Rightarrow> VirtualKeyPolicySnapshot" where
  "policy_from_key key =
     \<lparr>vp_rpm_limit = key_limit (vk_rpm_limit key), vp_tpm_limit = key_limit (vk_tpm_limit key),
      vp_budget_guard_required =
        (vk_budget_limit key \<noteq> None \<or> 0 < vk_budget_pending_count key \<or> 0 < vk_budget_unresolved_count key),
      vp_accounting_blocked =
        (0 < vk_budget_unresolved_count key \<or> vk_budget_limit key = None \<and> 0 < vk_budget_pending_count key)\<rparr>"

record AiAuthContext =
  aa_virtual_key_id :: uuid
  aa_key_name :: string
  aa_key_prefix :: string
  aa_consumer_id :: "uuid option"
  aa_client_protocol :: AiClientProtocol
  aa_policy :: VirtualKeyPolicySnapshot

section \<open>The quota of a request\<close>

datatype QuotaSettlementState = NotRequired | SettlementPending | QuotaSettled | QuotaRetryRequired

record AiRateLimitRequestContext =
  qr_key :: RateLimitKey
  qr_limits :: QuotaLimits
  qr_protocol :: AiClientProtocol
  qr_reserved :: QuotaCharge
  qr_admission_snapshot :: "RateLimitSnapshot option"
  qr_response_snapshot :: "RateLimitSnapshot option"
  qr_rejection :: "ExceededDimension option"
  qr_reservation :: "ReservationToken option"
  qr_settlement_command :: "SettleCommand option"
  qr_settlement :: QuotaSettlementState
  qr_headers_emitted :: bool

definition no_charge :: QuotaCharge where
  "no_charge = \<lparr>qc_requests = 0, qc_tokens = 0\<rparr>"

definition quota_allowed ::
    "RateLimitKey \<Rightarrow> QuotaLimits \<Rightarrow> AiClientProtocol \<Rightarrow> QuotaCharge \<Rightarrow> ReservationToken \<Rightarrow> RateLimitSnapshot \<Rightarrow> AiRateLimitRequestContext" where
  "quota_allowed key limits protocol reserved reservation snapshot =
     \<lparr>qr_key = key, qr_limits = limits, qr_protocol = protocol, qr_reserved = reserved, qr_admission_snapshot = Some snapshot,
      qr_response_snapshot = None, qr_rejection = None, qr_reservation = Some reservation, qr_settlement_command = None,
      qr_settlement = SettlementPending, qr_headers_emitted = False\<rparr>"

definition quota_rejected ::
    "RateLimitKey \<Rightarrow> QuotaLimits \<Rightarrow> AiClientProtocol \<Rightarrow> QuotaCharge \<Rightarrow> ExceededDimension \<Rightarrow> RateLimitSnapshot \<Rightarrow> AiRateLimitRequestContext" where
  "quota_rejected key limits protocol reserved reason snapshot =
     \<lparr>qr_key = key, qr_limits = limits, qr_protocol = protocol, qr_reserved = reserved, qr_admission_snapshot = Some snapshot,
      qr_response_snapshot = None, qr_rejection = Some reason, qr_reservation = None, qr_settlement_command = None,
      qr_settlement = NotRequired, qr_headers_emitted = False\<rparr>"

definition quota_snapshot_only ::
    "RateLimitKey \<Rightarrow> QuotaLimits \<Rightarrow> AiClientProtocol \<Rightarrow> RateLimitSnapshot \<Rightarrow> AiRateLimitRequestContext" where
  "quota_snapshot_only key limits protocol snapshot =
     \<lparr>qr_key = key, qr_limits = limits, qr_protocol = protocol, qr_reserved = no_charge, qr_admission_snapshot = Some snapshot,
      qr_response_snapshot = None, qr_rejection = None, qr_reservation = None, qr_settlement_command = None,
      qr_settlement = NotRequired, qr_headers_emitted = False\<rparr>"

section \<open>The extensions\<close>

text \<open>
  \<open>ax_budget\<close> is the part the budget hooks work on (it has the model state and the usage fact),
  \<open>ax_total_tokens\<close> the field \<open>usage.total_tokens\<close> of that model state. \<open>ax_legacy\<close> is the context of the
  older limiter: key prefix and estimate.
\<close>

record ('s, 'q) ai_ext =
  ax_budget :: "'s budget_ext"
  ax_quota_store :: 'q
  ax_policy :: "AiPolicyChainSnapshot option"
  ax_auth :: "AiAuthContext option"
  ax_quota :: "AiRateLimitRequestContext option"
  ax_total_tokens :: "u64 option"
  ax_legacy :: "(string \<times> u64) option"
  ax_request_body :: "string option"
  ax_authenticated_consumer :: "Value option"
  ax_authenticated_credential :: "Value option"

type_synonym ('s, 'q) ai_ctx = "('s, 'q) ai_ext RequestCtx"

definition ai_ext_with :: "(('s, 'q) ai_ext \<Rightarrow> ('s, 'q) ai_ext) \<Rightarrow> ('s, 'q) ai_ctx \<Rightarrow> ('s, 'q) ai_ctx" where
  "ai_ext_with f ctx = ctx\<lparr>rq_extensions := f (rq_extensions ctx)\<rparr>"

text \<open>A request with other extensions, so that a part of them can be worked on by its own component.\<close>

definition retype :: "'y \<Rightarrow> 'x RequestCtx \<Rightarrow> 'y RequestCtx" where
  "retype x ctx =
     \<lparr>rq_lifecycle = rq_lifecycle ctx, rq_route_id = rq_route_id ctx, rq_route_name = rq_route_name ctx,
      rq_service_id = rq_service_id ctx, rq_service_name = rq_service_name ctx, rq_workspace_id = rq_workspace_id ctx,
      rq_consumer_id = rq_consumer_id ctx, rq_short_circuited = rq_short_circuited ctx, rq_exit_status = rq_exit_status ctx,
      rq_exit_body = rq_exit_body ctx, rq_exit_headers = rq_exit_headers ctx, rq_upstream_scheme = rq_upstream_scheme ctx,
      rq_upstream_target_host = rq_upstream_target_host ctx, rq_upstream_target_port = rq_upstream_target_port ctx,
      rq_upstream_dispatch_forbidden = rq_upstream_dispatch_forbidden ctx,
      rq_response_headers_to_set = rq_response_headers_to_set ctx,
      rq_response_headers_to_remove = rq_response_headers_to_remove ctx, rq_request_path = rq_request_path ctx,
      rq_request_headers = rq_request_headers ctx, rq_client_ip = rq_client_ip ctx, rq_response_status = rq_response_status ctx,
      rq_response_headers = rq_response_headers ctx, rq_failure_format = rq_failure_format ctx, rq_extensions = x\<rparr>"

definition on_budget :: "('s budget_ctx \<Rightarrow> 'r \<times> 's budget_ctx) \<Rightarrow> ('s, 'q) ai_ctx \<Rightarrow> 'r \<times> ('s, 'q) ai_ctx" where
  "on_budget f ctx =
     (case f (retype (ax_budget (rq_extensions ctx)) ctx) of
        (r, c) \<Rightarrow> (r, retype ((rq_extensions ctx)\<lparr>ax_budget := rq_extensions c\<rparr>) c))"

lemma retype_extensions [simp]: "rq_extensions (retype x ctx) = x"
  by (simp add: retype_def)

lemma retype_retype [simp]: "retype x (retype y ctx) = retype x ctx"
  by (simp add: retype_def)

lemma retype_same [simp]: "retype (rq_extensions ctx) ctx = ctx"
  by (simp add: retype_def)

lemma retype_lifecycle [simp]: "rq_lifecycle (retype x ctx) = rq_lifecycle ctx" "rq_short_circuited (retype x ctx) = rq_short_circuited ctx"
  by (simp_all add: retype_def)

text \<open>The parts of the extensions that a step on the budget leaves alone.\<close>

lemma on_budget_frame:
  assumes "on_budget f ctx = (r, ctx')"
  shows "ax_quota_store (rq_extensions ctx') = ax_quota_store (rq_extensions ctx)" "ax_policy (rq_extensions ctx') = ax_policy (rq_extensions ctx)"
    "ax_auth (rq_extensions ctx') = ax_auth (rq_extensions ctx)" "ax_quota (rq_extensions ctx') = ax_quota (rq_extensions ctx)"
  using assms by (auto simp: on_budget_def split: prod.splits)

end
