(* ===== verification/Key_Auth.thy ===== *)
theory Key_Auth
  imports AI_Request
begin

text \<open>
  Authentication by virtual keys: the authenticator with its cache (\<open>kong-ai/src/auth.rs\<close>) and the plugin
  \<open>ai-key-auth\<close> (\<open>plugins/ai_key_auth.rs\<close>). The cache is the third-party \<open>moka\<close> and the key table is behind the
  trait \<open>Dao\<close>: both are parameters, with what is relied on stated as \<open>cache_contract\<close>. So are the hash
  (SHA-256 in hexadecimal) and JSON. One lookup reads all its pages from one state of the table: the code
  awaits each page for itself, and a change of the table between two pages of one lookup is not covered
  (between lookups it is). \<open>now\<close> is the clock of the cache, \<open>utc\<close> the wall clock in seconds.
\<close>

section \<open>The authenticator\<close>

definition CACHE_TTL :: duration where
  "CACHE_TTL = from_secs 1"

definition MAX_LOOKUP_PAGES :: nat where
  "MAX_LOOKUP_PAGES = 100"

datatype AuthError = MissingKey | InvalidKey

record 'c key_cache =
  kc_get :: "string \<Rightarrow> duration \<Rightarrow> 'c \<Rightarrow> AiVirtualKey option option \<times> 'c"
  kc_insert :: "string \<Rightarrow> AiVirtualKey option \<Rightarrow> duration \<Rightarrow> 'c \<Rightarrow> 'c"
  kc_invalidate_all :: "'c \<Rightarrow> 'c"

text \<open>A page of the key table, filtered by the hash, from an offset: its rows and where the next one starts.\<close>

type_synonym 'd key_page = "'d \<Rightarrow> string \<Rightarrow> string option \<Rightarrow> KongError + AiVirtualKey list \<times> string option"

text \<open>Lists the pages to read, at most \<open>n\<close>, and looks for the hash in each.\<close>

fun find_pages :: "'d key_page \<Rightarrow> 'd \<Rightarrow> string \<Rightarrow> string option \<Rightarrow> nat \<Rightarrow> KongError + AiVirtualKey option" where
  "find_pages page d hash offset 0 = Inr None"
| "find_pages page d hash offset (Suc n) =
     (case page d hash offset of
        Inl e \<Rightarrow> Inl e
      | Inr (data, next_offset) \<Rightarrow>
          (case List.find (\<lambda>k. vk_key_hash k = hash) data of
             Some found \<Rightarrow> Inr (Some found)
           | None \<Rightarrow>
               (case next_offset of
                  Some next_page \<Rightarrow> find_pages page d hash (Some next_page) n
                | None \<Rightarrow> Inr None)))"

definition find_by_hash :: "'d key_page \<Rightarrow> 'd \<Rightarrow> string \<Rightarrow> KongError + AiVirtualKey option" where
  "find_by_hash page d hash = find_pages page d hash None MAX_LOOKUP_PAGES"

definition lookup_key ::
    "'c key_cache \<Rightarrow> 'd key_page \<Rightarrow> duration \<Rightarrow> 'd \<Rightarrow> string \<Rightarrow> 'c \<Rightarrow> (KongError + AiVirtualKey option) \<times> 'c" where
  "lookup_key cache page now d hash c =
     (case kc_get cache hash now c of
        (Some cached, c1) \<Rightarrow> (Inr cached, c1)
      | (None, c1) \<Rightarrow>
          (case find_by_hash page d hash of
             Inl e \<Rightarrow> (Inl e, c1)
           | Inr found \<Rightarrow> (Inr found, kc_insert cache hash found now c1)))"

definition judge_key :: "int \<Rightarrow> KongError + AiVirtualKey option \<Rightarrow> AuthError + AiVirtualKey" where
  "judge_key utc found =
     (case found of
        Inl _ \<Rightarrow> Inl InvalidKey
      | Inr None \<Rightarrow> Inl InvalidKey
      | Inr (Some key) \<Rightarrow>
          if \<not> vk_enabled key then Inl InvalidKey
          else (case vk_expires_at key of
                  Some expires_at \<Rightarrow> if expires_at \<le> utc then Inl InvalidKey else Inr key
                | None \<Rightarrow> Inr key))"

definition authenticate ::
    "'c key_cache \<Rightarrow> 'd key_page \<Rightarrow> (string \<Rightarrow> string) \<Rightarrow> int \<Rightarrow> duration \<Rightarrow> 'd \<Rightarrow> string \<Rightarrow> 'c \<Rightarrow> (AuthError + AiVirtualKey) \<times> 'c" where
  "authenticate cache page hash_key utc now d raw_key c =
     (if raw_key = [] then (Inl MissingKey, c)
      else case lookup_key cache page now d (hash_key raw_key) c of (found, c1) \<Rightarrow> (judge_key utc found, c1))"

definition model_allowed :: "string list \<Rightarrow> string \<Rightarrow> bool" where
  "model_allowed patterns model =
     (patterns = [] \<or>
      list_ex (\<lambda>pattern. case strip_suffix_str ''*'' pattern of
                 Some pre \<Rightarrow> starts_with model pre
               | None \<Rightarrow> pattern = model) patterns)"

section \<open>The plugin\<close>

record AiKeyAuthConfig =
  kac_key_header :: string
  kac_error_format :: string

definition key_auth_config_default :: AiKeyAuthConfig where
  "key_auth_config_default = \<lparr>kac_key_header = ''X-AI-Key'', kac_error_format = ''auto''\<rparr>"

datatype CredentialSource = BearerCredential | XApiKeyCredential | CustomCredential

record ('d, 'c) key_auth_env =
  ke_cache :: "'c key_cache"
  ke_page :: "'d key_page"
  ke_hash_key :: "string \<Rightarrow> string"
  ke_from_str :: "string \<Rightarrow> Value option"
  ke_print :: "Value \<Rightarrow> string"
  ke_uuid :: "uuid \<Rightarrow> string"

definition trimmed_header :: "string \<Rightarrow> 'x RequestCtx \<Rightarrow> string option" where
  "trimmed_header name ctx =
     (case map_of (rq_request_headers ctx) name of
        Some value \<Rightarrow> if trim value = [] then None else Some (trim value)
      | None \<Rightarrow> None)"

definition bearer_token :: "string \<Rightarrow> string option" where
  "bearer_token value =
     (case (case strip_prefix_str ''Bearer '' value of Some token \<Rightarrow> Some token | None \<Rightarrow> strip_prefix_str ''bearer '' value) of
        Some token \<Rightarrow> if trim token = [] then None else Some (trim token)
      | None \<Rightarrow> None)"

definition extract_credential :: "'x RequestCtx \<Rightarrow> AiKeyAuthConfig \<Rightarrow> (string \<times> CredentialSource) option" where
  "extract_credential ctx cfg =
     (case Option.bind (map_of (rq_request_headers ctx) ''authorization'') bearer_token of
        Some token \<Rightarrow> Some (token, BearerCredential)
      | None \<Rightarrow>
          (case trimmed_header ''x-api-key'' ctx of
             Some value \<Rightarrow> Some (value, XApiKeyCredential)
           | None \<Rightarrow>
               (let custom = to_lowercase (kac_key_header cfg)
                in if custom \<noteq> ''authorization'' \<and> custom \<noteq> ''x-api-key''
                   then map_option (\<lambda>value. (value, CustomCredential)) (trimmed_header custom ctx)
                   else None)))"

text \<open>The error dialect has the values of \<open>AiClientProtocol\<close>.\<close>

definition resolve_error_format :: "AiKeyAuthConfig \<Rightarrow> ('s, 'q) ai_ctx \<Rightarrow> CredentialSource option \<Rightarrow> AiClientProtocol" where
  "resolve_error_format cfg ctx src =
     (if kac_error_format cfg = ''anthropic'' then ProtoAnthropic
      else if kac_error_format cfg = ''openai'' then ProtoOpenAi
      else if kac_error_format cfg = ''auto'' then
        (case Option.bind (ax_policy (rq_extensions ctx)) pol_client_protocol of
           Some protocol \<Rightarrow> protocol
         | None \<Rightarrow>
             if src = Some XApiKeyCredential \<or> find_sub ''/v1/messages'' (rq_request_path ctx) \<noteq> None
             then ProtoAnthropic else ProtoOpenAi)
      else ProtoOpenAi)"

definition reject_key ::
    "(Value \<Rightarrow> string) \<Rightarrow> u16 \<Rightarrow> AiClientProtocol \<Rightarrow> string \<Rightarrow> string \<Rightarrow> string \<Rightarrow> string \<Rightarrow> 'x RequestCtx \<Rightarrow> 'x RequestCtx" where
  "reject_key print status format message openai_type openai_code anthropic_type ctx =
     (let body = (case format of
            ProtoOpenAi \<Rightarrow>
              JObject [(''error'', JObject [(''code'', JString openai_code), (''message'', JString message), (''type'', JString openai_type)])]
          | ProtoAnthropic \<Rightarrow>
              JObject [(''error'', JObject [(''message'', JString message), (''type'', JString anthropic_type)]), (''type'', JString ''error'')])
      in ctx\<lparr>rq_short_circuited := True, rq_exit_status := Some status, rq_exit_body := Some (print body),
             rq_exit_headers := Some [(''Content-Type'', ''application/json'')]\<rparr>)"

fun auth_error_text :: "AuthError \<Rightarrow> string \<times> string" where
  "auth_error_text MissingKey = (''missing API key'', ''missing_api_key'')"
| "auth_error_text InvalidKey = (''invalid API key'', ''invalid_api_key'')"

definition reject_auth :: "(Value \<Rightarrow> string) \<Rightarrow> AiClientProtocol \<Rightarrow> AuthError \<Rightarrow> 'x RequestCtx \<Rightarrow> 'x RequestCtx" where
  "reject_auth print format e =
     (case auth_error_text e of
        (message, code) \<Rightarrow> reject_key print 401 format message ''invalid_request_error'' code ''authentication_error'')"

definition requested_model :: "(string \<Rightarrow> Value option) \<Rightarrow> ('s, 'q) ai_ctx \<Rightarrow> string option" where
  "requested_model from_str ctx =
     Option.bind (ax_request_body (rq_extensions ctx)) (\<lambda>body.
       Option.bind (from_str body) (\<lambda>parsed. Option.bind (json_field ''model'' parsed) as_str))"

text \<open>What the request knows of the key from then on.\<close>

definition identify :: "(uuid \<Rightarrow> string) \<Rightarrow> AiClientProtocol \<Rightarrow> AiVirtualKey \<Rightarrow> ('s, 'q) ai_ctx \<Rightarrow> ('s, 'q) ai_ctx" where
  "identify show_uuid protocol key ctx =
     (let ctx1 = ai_ext_with (\<lambda>x. x\<lparr>ax_auth := Some
            \<lparr>aa_virtual_key_id = vk_id key, aa_key_name = vk_name key, aa_key_prefix = vk_key_prefix key,
             aa_consumer_id = vk_consumer_id key, aa_client_protocol = protocol, aa_policy = policy_from_key key\<rparr>\<rparr>) ctx;
          ctx2 = (case vk_consumer_id key of
              Some consumer \<Rightarrow> ai_ext_with (\<lambda>x. x\<lparr>ax_authenticated_consumer := Some (JObject [(''id'', JString (show_uuid consumer))])\<rparr>)
                (ctx1\<lparr>rq_consumer_id := Some consumer\<rparr>)
            | None \<Rightarrow> ctx1)
      in ai_ext_with (\<lambda>x. x\<lparr>ax_authenticated_credential :=
           Some (JObject [(''id'', JString (show_uuid (vk_id key))), (''name'', JString (vk_name key))])\<rparr>) ctx2)"

definition key_auth_access ::
    "('d, 'c) key_auth_env \<Rightarrow> int \<Rightarrow> duration \<Rightarrow> 'd \<Rightarrow> AiKeyAuthConfig \<Rightarrow> ('s, 'q) ai_ctx \<Rightarrow> 'c \<Rightarrow> ('s, 'q) ai_ctx \<times> 'c" where
  "key_auth_access env utc now d cfg ctx0 c =
     (let credential = extract_credential ctx0 cfg;
          format = resolve_error_format cfg ctx0 (map_option snd credential);
          ctx = ctx0\<lparr>rq_failure_format := Some (failure_format format)\<rparr>
      in case credential of
           None \<Rightarrow> (reject_auth (ke_print env) format MissingKey ctx, c)
         | Some (raw_key, _) \<Rightarrow>
             (case authenticate (ke_cache env) (ke_page env) (ke_hash_key env) utc now d raw_key c of
                (Inl e, c1) \<Rightarrow> (reject_auth (ke_print env) format e ctx, c1)
              | (Inr key, c1) \<Rightarrow>
                  (let ctx1 = identify (ke_uuid env) format key ctx
                   in case (vk_allowed_models key, requested_model (ke_from_str env) ctx1) of
                        (Some allowed, Some model) \<Rightarrow>
                          if model_allowed allowed model then (ctx1, c1)
                          else (reject_key (ke_print env) 403 format (''model `'' @ model @ ''` is not allowed for this API key'')
                                  ''invalid_request_error'' ''model_not_allowed'' ''permission_error'' ctx1, c1)
                      | _ \<Rightarrow> (ctx1, c1))))"

text \<open>The handler of the plugin: \<open>read_config\<close> is \<open>serde\<close>'s reading of the configuration.\<close>

definition AiKeyAuthPlugin_access ::
    "('d, 'c) key_auth_env \<Rightarrow> (Value \<Rightarrow> string + AiKeyAuthConfig) \<Rightarrow> int \<Rightarrow> duration \<Rightarrow> 'd \<Rightarrow> PluginConfig \<Rightarrow> ('s, 'q) ai_ctx \<Rightarrow> 'c \<Rightarrow>
     (KongError + unit) \<times> ('s, 'q) ai_ctx \<times> 'c" where
  "AiKeyAuthPlugin_access env read_config utc now d config ctx c =
     (case read_config (pc_config config) of
        Inl e \<Rightarrow> (Inl (PluginError (pc_name config) (''invalid plugin config: '' @ e)), ctx, c)
      | Inr cfg \<Rightarrow> (Inr (), key_auth_access env utc now d cfg ctx c))"

section \<open>Lookup\<close>

text \<open>The rows of the pages that a lookup may read, up to the first error.\<close>

fun pages_from :: "'d key_page \<Rightarrow> 'd \<Rightarrow> string \<Rightarrow> string option \<Rightarrow> nat \<Rightarrow> AiVirtualKey list" where
  "pages_from page d hash offset 0 = []"
| "pages_from page d hash offset (Suc n) =
     (case page d hash offset of
        Inl e \<Rightarrow> []
      | Inr (data, next_offset) \<Rightarrow>
          data @ (case next_offset of Some next_page \<Rightarrow> pages_from page d hash (Some next_page) n | None \<Rightarrow> []))"

lemma find_pages_rows:
  "find_pages page d hash offset n = Inr r \<Longrightarrow> r = List.find (\<lambda>k. vk_key_hash k = hash) (pages_from page d hash offset n)"
  by (induction page d hash offset n rule: find_pages.induct)
    (auto simp: find_append split: sum.splits prod.splits option.splits)

text \<open>A row that is found has the hash that was asked for, whatever the table did with the filter.\<close>

lemma found_has_hash: "find_by_hash page d hash = Inr (Some key) \<Longrightarrow> vk_key_hash key = hash"
  unfolding find_by_hash_def using find_pages_rows [of page d hash None MAX_LOOKUP_PAGES "Some key"]
  by (metis (mono_tags, lifting) find_Some_iff)

lemma judge_accepts:
  "judge_key utc found = Inr key \<longleftrightarrow> found = Inr (Some key) \<and> vk_enabled key \<and> (\<forall>e. vk_expires_at key = Some e \<longrightarrow> utc < e)"
  by (auto simp: judge_key_def split: sum.splits option.splits)

section \<open>The cache over time\<close>

text \<open>
  \<open>entries c\<close> are the entries a cache may still serve, with the moment they were inserted. An entry
  is served for less than \<open>CACHE_TTL\<close>; the cache may drop entries at any time.
\<close>

definition cache_contract :: "'c key_cache \<Rightarrow> ('c \<Rightarrow> (string \<times> duration \<times> AiVirtualKey option) set) \<Rightarrow> bool" where
  "cache_contract cache entries =
     (\<forall>c hash now.
        (\<forall>v. fst (kc_get cache hash now c) = Some v \<longrightarrow> (\<exists>t. (hash, t, v) \<in> entries c \<and> now < t + CACHE_TTL)) \<and>
        entries (snd (kc_get cache hash now c)) \<subseteq> entries c \<and>
        (\<forall>v. entries (kc_insert cache hash v now c) \<subseteq> insert (hash, now, v) (entries c)) \<and>
        entries (kc_invalidate_all cache c) = {})"

lemma cache_contractD:
  assumes "cache_contract cache entries"
  shows "kc_get cache hash now c = (Some v, c') \<Longrightarrow> \<exists>t. (hash, t, v) \<in> entries c \<and> now < t + CACHE_TTL"
    and "kc_get cache hash now c = (r, c') \<Longrightarrow> e \<in> entries c' \<Longrightarrow> e \<in> entries c"
    and "e \<in> entries (kc_insert cache hash v now c) \<Longrightarrow> e = (hash, now, v) \<or> e \<in> entries c"
    and "entries (kc_invalidate_all cache c) = {}"
  using assms unfolding cache_contract_def by (metis fst_conv, metis snd_conv subsetD, blast, blast)

text \<open>
  Lookups are not atomic: a task reads the table, and later stores what it read. \<open>aw_pending\<close> has the
  lookups in between, with the moment of the read; \<open>aw_past\<close> records which table there was when.
\<close>

record ('d, 'c) auth_world =
  aw_now :: duration
  aw_db :: 'd
  aw_cache :: 'c
  aw_pending :: "(string \<times> AiVirtualKey option \<times> duration) list"
  aw_past :: "(duration \<times> 'd) set"

inductive auth_step :: "'c key_cache \<Rightarrow> 'd key_page \<Rightarrow> ('d, 'c) auth_world \<Rightarrow> ('d, 'c) auth_world \<Rightarrow> bool" for cache page where
  tick: "aw_now w \<le> now \<Longrightarrow> auth_step cache page w (w\<lparr>aw_now := now, aw_past := insert (now, aw_db w) (aw_past w)\<rparr>)"
| change: "auth_step cache page w (w\<lparr>aw_db := d, aw_past := insert (aw_now w, d) (aw_past w)\<rparr>)"
| invalidate: "auth_step cache page w (w\<lparr>aw_cache := kc_invalidate_all cache (aw_cache w)\<rparr>)"
| get: "kc_get cache hash (aw_now w) (aw_cache w) = (r, c) \<Longrightarrow> auth_step cache page w (w\<lparr>aw_cache := c\<rparr>)"
| read: "find_by_hash page (aw_db w) hash = Inr found \<Longrightarrow>
    auth_step cache page w (w\<lparr>aw_pending := (hash, found, aw_now w) # aw_pending w\<rparr>)"
| store: "(hash, found, u) \<in> set (aw_pending w) \<Longrightarrow>
    auth_step cache page w (w\<lparr>aw_pending := remove1 (hash, found, u) (aw_pending w),
      aw_cache := kc_insert cache hash found (aw_now w) (aw_cache w)\<rparr>)"

inductive auth_reachable ::
    "'c key_cache \<Rightarrow> 'd key_page \<Rightarrow> ('c \<Rightarrow> (string \<times> duration \<times> AiVirtualKey option) set) \<Rightarrow> ('d, 'c) auth_world \<Rightarrow> bool"
  for cache page entries where
  start: "entries c = {} \<Longrightarrow> auth_reachable cache page entries
    \<lparr>aw_now = now, aw_db = d, aw_cache = c, aw_pending = [], aw_past = {(now, d)}\<rparr>"
| step: "auth_reachable cache page entries w \<Longrightarrow> auth_step cache page w w' \<Longrightarrow> auth_reachable cache page entries w'"

definition read_at :: "'d key_page \<Rightarrow> ('d, 'c) auth_world \<Rightarrow> string \<Rightarrow> AiVirtualKey option \<Rightarrow> duration \<Rightarrow> bool" where
  "read_at page w hash found u = (\<exists>d. (u, d) \<in> aw_past w \<and> find_by_hash page d hash = Inr found)"

definition auth_ok :: "'d key_page \<Rightarrow> ('c \<Rightarrow> (string \<times> duration \<times> AiVirtualKey option) set) \<Rightarrow> ('d, 'c) auth_world \<Rightarrow> bool" where
  "auth_ok page entries w =
     ((aw_now w, aw_db w) \<in> aw_past w \<and>
      (\<forall>(hash, found, u) \<in> set (aw_pending w). u \<le> aw_now w \<and> read_at page w hash found u) \<and>
      (\<forall>(hash, t, found) \<in> entries (aw_cache w). t \<le> aw_now w \<and> (\<exists>u \<le> t. read_at page w hash found u)))"

lemma read_at_mono: "read_at page w hash found u \<Longrightarrow> aw_past w \<subseteq> aw_past w' \<Longrightarrow> read_at page w' hash found u"
  by (auto simp: read_at_def)

lemma auth_ok_extend:
  assumes "auth_ok page entries w" "aw_past w \<subseteq> aw_past w'" "aw_now w \<le> aw_now w'" "(aw_now w', aw_db w') \<in> aw_past w'"
    and "\<And>hash found u. (hash, found, u) \<in> set (aw_pending w') \<Longrightarrow>
      (hash, found, u) \<in> set (aw_pending w) \<or> u = aw_now w' \<and> read_at page w' hash found u"
    and "\<And>hash t found. (hash, t, found) \<in> entries (aw_cache w') \<Longrightarrow>
      (hash, t, found) \<in> entries (aw_cache w) \<or> t = aw_now w' \<and> (\<exists>u \<le> t. read_at page w hash found u)"
  shows "auth_ok page entries w'"
proof -
  note mono = read_at_mono [OF _ assms(2)]
  have p: "u \<le> aw_now w \<and> read_at page w hash found u" if "(hash, found, u) \<in> set (aw_pending w)" for hash found u
    using assms(1) that by (auto simp: auth_ok_def)
  have c: "t \<le> aw_now w \<and> (\<exists>u \<le> t. read_at page w hash found u)" if "(hash, t, found) \<in> entries (aw_cache w)" for hash t found
    using assms(1) that by (auto simp: auth_ok_def)
  have "u \<le> aw_now w' \<and> read_at page w' hash found u" if "(hash, found, u) \<in> set (aw_pending w')" for hash found u
    using assms(5) [OF that] p [of hash found u] assms(3) mono [of page hash found u] by auto
  moreover have "t \<le> aw_now w' \<and> (\<exists>u \<le> t. read_at page w' hash found u)" if "(hash, t, found) \<in> entries (aw_cache w')" for hash t found
    using assms(6) [OF that] c [of hash t found] assms(3) mono [of page hash found] by (meson le_trans order_refl)
  ultimately show ?thesis using assms(4) unfolding auth_ok_def by blast
qed

lemma auth_step_ok:
  assumes "auth_step cache page w w'" "cache_contract cache entries" "auth_ok page entries w"
  shows "auth_ok page entries w'"
proof (rule auth_ok_extend [OF assms(3)])
  have now: "(aw_now w, aw_db w) \<in> aw_past w" using assms(3) by (simp add: auth_ok_def)
  show "aw_past w \<subseteq> aw_past w'" "aw_now w \<le> aw_now w'" "(aw_now w', aw_db w') \<in> aw_past w'"
    using assms(1) now by (cases; auto)+
  show "(hash, found, u) \<in> set (aw_pending w) \<or> u = aw_now w' \<and> read_at page w' hash found u"
    if "(hash, found, u) \<in> set (aw_pending w')" for hash found u
    using assms(1) that now by cases (auto simp: read_at_def dest: notin_set_remove1 set_remove1_subset [THEN subsetD])
  show "(hash, t, found) \<in> entries (aw_cache w) \<or> t = aw_now w' \<and> (\<exists>u \<le> t. read_at page w hash found u)"
    if e: "(hash, t, found) \<in> entries (aw_cache w')" for hash t found
    using assms(1)
  proof cases
    case (get hash r c)
    with cache_contractD(2) [OF assms(2) get(2)] e show ?thesis by simp
  next
    case (store h f u)
    then have "u \<le> aw_now w" "read_at page w h f u" using assms(3) by (auto simp: auth_ok_def)
    with cache_contractD(3) [OF assms(2)] e store(1) show ?thesis by fastforce
  qed (use e cache_contractD(4) [OF assms(2)] in auto)
qed

lemma auth_reachable_ok: "auth_reachable cache page entries w \<Longrightarrow> cache_contract cache entries \<Longrightarrow> auth_ok page entries w"
proof (induction rule: auth_reachable.induct)
  case (start c now d)
  then show ?case by (simp add: auth_ok_def)
next
  case (step w w')
  then show ?case using auth_step_ok by blast
qed

text \<open>
  C4. Who is let in: an accepted credential hashes to the stored hash of an enabled key that has not
  expired, and that key was read from the table at a moment \<open>u\<close>, stored at most one \<open>CACHE_TTL\<close> before now.
  This holds in every interleaving of requests, changes of the table, invalidations and lookups that
  are slow to store what they read, whatever the table does with the filter it is given.
\<close>

theorem accepted_key_was_stored:
  assumes "auth_reachable cache page entries w" and "cache_contract cache entries"
    and "authenticate cache page hash_key utc (aw_now w) (aw_db w) raw_key (aw_cache w) = (Inr key, c')"
  shows "raw_key \<noteq> [] \<and> vk_key_hash key = hash_key raw_key \<and> vk_enabled key \<and> (\<forall>e. vk_expires_at key = Some e \<longrightarrow> utc < e) \<and>
    (\<exists>u t. read_at page w (hash_key raw_key) (Some key) u \<and> u \<le> t \<and> t \<le> aw_now w \<and> aw_now w < t + CACHE_TTL)"
proof -
  have ok: "auth_ok page entries w" by (rule auth_reachable_ok [OF assms(1,2)])
  obtain found where l: "lookup_key cache page (aw_now w) (aw_db w) (hash_key raw_key) (aw_cache w) = (found, c')"
    and raw: "raw_key \<noteq> []" and j: "judge_key utc found = Inr key"
    using assms(3) by (auto simp: authenticate_def split: if_splits prod.splits)
  have key: "found = Inr (Some key)" "vk_enabled key" "\<forall>e. vk_expires_at key = Some e \<longrightarrow> utc < e"
    using j by (auto simp: judge_accepts)
  obtain g c1 where g: "kc_get cache (hash_key raw_key) (aw_now w) (aw_cache w) = (g, c1)" by force
  have "\<exists>u t. read_at page w (hash_key raw_key) (Some key) u \<and> u \<le> t \<and> t \<le> aw_now w \<and> aw_now w < t + CACHE_TTL"
  proof (cases g)
    case None
    with l g key(1) have "find_by_hash page (aw_db w) (hash_key raw_key) = Inr (Some key)"
      by (auto simp: lookup_key_def split: sum.splits)
    with ok show ?thesis
      by (intro exI [of _ "aw_now w"]) (auto simp: read_at_def auth_ok_def CACHE_TTL_def from_secs_def)
  next
    case (Some v)
    with l g key(1) have "v = Some key" by (simp add: lookup_key_def)
    with cache_contractD(1) [OF assms(2)] g Some ok show ?thesis by (fastforce simp: auth_ok_def)
  qed
  moreover from this have "vk_key_hash key = hash_key raw_key" using found_has_hash by (auto simp: read_at_def)
  ultimately show ?thesis using raw key by blast
qed

text \<open>A cache as a list of entries, newest first, and a table that ignores the filter.\<close>

definition ex_cache :: "(string \<times> duration \<times> AiVirtualKey option) list key_cache" where
  "ex_cache =
     \<lparr>kc_get = (\<lambda>hash now c.
        (map_option (\<lambda>e. snd (snd e)) (List.find (\<lambda>e. fst e = hash \<and> now < fst (snd e) + CACHE_TTL) c), c)),
      kc_insert = (\<lambda>hash v now c. (hash, now, v) # c), kc_invalidate_all = (\<lambda>_. [])\<rparr>"

lemma ex_cache_contract: "cache_contract ex_cache set"
  by (auto simp: cache_contract_def ex_cache_def find_Some_iff) (metis nth_mem fst_conv snd_conv)

definition ex_page :: "AiVirtualKey list key_page" where
  "ex_page d hash offset = Inr (d, None)"

definition ex_virtual_key :: AiVirtualKey where
  "ex_virtual_key =
     \<lparr>vk_id = 9, vk_name = ''team'', vk_key_hash = ''h1'', vk_key_prefix = ''sk'', vk_consumer_id = None, vk_allowed_models = Some [''gpt-4*''],
      vk_tpm_limit = Some 100, vk_rpm_limit = None, vk_budget_limit = None, vk_budget_pending_count = 0,
      vk_budget_unresolved_count = 0, vk_enabled = True, vk_expires_at = Some 50\<rparr>"

abbreviation ex_hash :: "string \<Rightarrow> string" where
  "ex_hash raw \<equiv> (if raw = ''sk-1'' then ''h1'' else ''h2'')"

definition ex_auth_world :: "(AiVirtualKey list, (string \<times> duration \<times> AiVirtualKey option) list) auth_world" where
  "ex_auth_world = \<lparr>aw_now = 5, aw_db = [ex_virtual_key], aw_cache = [], aw_pending = [], aw_past = {(5, [ex_virtual_key])}\<rparr>"

lemma ex_auth_reachable: "auth_reachable ex_cache ex_page set ex_auth_world"
  unfolding ex_auth_world_def by (rule auth_reachable.start) simp

lemma ex_found: "find_by_hash ex_page [ex_virtual_key] ''h1'' = Inr (Some ex_virtual_key)"
  by (simp add: find_by_hash_def MAX_LOOKUP_PAGES_def numeral_eq_Suc ex_page_def ex_virtual_key_def)

theorem accepted_key_was_stored_witness:
  "vk_key_hash ex_virtual_key = ex_hash ''sk-1'' \<and> vk_enabled ex_virtual_key \<and> (\<exists>u. read_at ex_page ex_auth_world ''h1'' (Some ex_virtual_key) u)"
proof -
  have "authenticate ex_cache ex_page ex_hash 49 (aw_now ex_auth_world) (aw_db ex_auth_world) ''sk-1'' (aw_cache ex_auth_world) =
      (Inr ex_virtual_key, [(''h1'', 5, Some ex_virtual_key)])"
    using ex_found by (simp add: authenticate_def lookup_key_def ex_cache_def ex_auth_world_def judge_key_def) (simp add: ex_virtual_key_def)
  from accepted_key_was_stored [OF ex_auth_reachable ex_cache_contract this] show ?thesis by auto
qed

text \<open>
  The bound cannot be improved to the last invalidation: a lookup that read the table before a key was
  disabled may store the key after the administration interface has emptied the cache, and the disabled
  key is then accepted until the entry expires.
\<close>

lemma invalidation_can_be_undone:
  "\<exists>w. auth_reachable ex_cache ex_page set w \<and> aw_db w = [ex_virtual_key\<lparr>vk_enabled := False\<rparr>] \<and>
     fst (authenticate ex_cache ex_page ex_hash 49 (aw_now w) (aw_db w) ''sk-1'' (aw_cache w)) = Inr ex_virtual_key"
proof -
  let ?d = "[ex_virtual_key\<lparr>vk_enabled := False\<rparr>]"
  let ?w1 = "ex_auth_world\<lparr>aw_pending := (''h1'', Some ex_virtual_key, aw_now ex_auth_world) # aw_pending ex_auth_world\<rparr>"
  let ?w2 = "?w1\<lparr>aw_db := ?d, aw_past := insert (aw_now ?w1, ?d) (aw_past ?w1)\<rparr>"
  let ?w3 = "?w2\<lparr>aw_cache := kc_invalidate_all ex_cache (aw_cache ?w2)\<rparr>"
  let ?w4 = "?w3\<lparr>aw_pending := remove1 (''h1'', Some ex_virtual_key, 5) (aw_pending ?w3),
    aw_cache := kc_insert ex_cache ''h1'' (Some ex_virtual_key) (aw_now ?w3) (aw_cache ?w3)\<rparr>"
  have "auth_reachable ex_cache ex_page set ?w1"
    by (rule auth_reachable.step [OF ex_auth_reachable auth_step.read]) (simp add: ex_auth_world_def ex_found)
  then have "auth_reachable ex_cache ex_page set ?w2" by (rule auth_reachable.step [OF _ auth_step.change])
  then have "auth_reachable ex_cache ex_page set ?w3" by (rule auth_reachable.step [OF _ auth_step.invalidate])
  then have "auth_reachable ex_cache ex_page set ?w4"
    by (rule auth_reachable.step [OF _ auth_step.store]) (simp add: ex_auth_world_def)
  moreover have "fst (authenticate ex_cache ex_page ex_hash 49 (aw_now ?w4) (aw_db ?w4) ''sk-1'' (aw_cache ?w4)) = Inr ex_virtual_key"
    by (simp add: authenticate_def lookup_key_def ex_cache_def ex_auth_world_def judge_key_def CACHE_TTL_def from_secs_def)
      (simp add: ex_virtual_key_def)
  ultimately show ?thesis by (intro exI [of _ ?w4]) (simp add: ex_auth_world_def)
qed

text \<open>The scheme of a credential is accepted in two spellings only.\<close>

lemma bearer_scheme_spellings:
  "bearer_token ''Bearer k'' = Some ''k'' \<and> bearer_token ''bearer k'' = Some ''k'' \<and> bearer_token ''BEARER k'' = None"
  by code_simp

section \<open>The plugin\<close>

lemma model_allowed_iff:
  "model_allowed patterns model \<longleftrightarrow>
     patterns = [] \<or> model \<in> set (filter (\<lambda>p. \<not> suffix ''*'' p) patterns) \<or> (\<exists>pre. pre @ ''*'' \<in> set patterns \<and> prefix pre model)"
proof -
  have "(case strip_suffix_str ''*'' p of Some pre \<Rightarrow> starts_with model pre | None \<Rightarrow> p = model) \<longleftrightarrow>
      (\<not> suffix ''*'' p \<and> p = model) \<or> (\<exists>pre. p = pre @ ''*'' \<and> prefix pre model)" for p
    by (auto simp: strip_suffix_str_def starts_with_def suffix_def)
  then show ?thesis unfolding model_allowed_def list_ex_iff by auto
qed

lemma ai_ext_with_simps [simp]:
  "rq_extensions (ai_ext_with f ctx) = f (rq_extensions ctx)" "rq_short_circuited (ai_ext_with f ctx) = rq_short_circuited ctx"
  "rq_exit_status (ai_ext_with f ctx) = rq_exit_status ctx" "rq_lifecycle (ai_ext_with f ctx) = rq_lifecycle ctx"
  by (simp_all add: ai_ext_with_def)

lemma identify_simps [simp]:
  "rq_short_circuited (identify su p key ctx) = rq_short_circuited ctx" "rq_exit_status (identify su p key ctx) = rq_exit_status ctx"
  "ax_auth (rq_extensions (identify su p key ctx)) = Some
     \<lparr>aa_virtual_key_id = vk_id key, aa_key_name = vk_name key, aa_key_prefix = vk_key_prefix key,
      aa_consumer_id = vk_consumer_id key, aa_client_protocol = p, aa_policy = policy_from_key key\<rparr>"
  "ax_request_body (rq_extensions (identify su p key ctx)) = ax_request_body (rq_extensions ctx)"
  by (simp_all add: identify_def Let_def split: option.split)

lemma reject_simps [simp]:
  "rq_short_circuited (reject_key print s f m t co a ctx)" "rq_exit_status (reject_key print s f m t co a ctx) = Some s"
  "rq_short_circuited (reject_auth print f e ctx)" "rq_exit_status (reject_auth print f e ctx) = Some 401"
  by (simp_all add: reject_auth_def reject_key_def Let_def split: prod.split)

text \<open>
  C13. A request that the plugin lets pass presented a credential that was accepted, carries the identity
  and the limits of exactly that key, and asks for no model outside the key's list; every other
  request is answered by the plugin itself.
\<close>

theorem passed_request_has_key:
  assumes "key_auth_access env utc now d cfg ctx c = (ctx', c')" and "\<not> rq_short_circuited ctx'"
  shows "\<exists>raw src key p. extract_credential ctx cfg = Some (raw, src) \<and>
    authenticate (ke_cache env) (ke_page env) (ke_hash_key env) utc now d raw c = (Inr key, c') \<and>
    ax_auth (rq_extensions ctx') = Some
      \<lparr>aa_virtual_key_id = vk_id key, aa_key_name = vk_name key, aa_key_prefix = vk_key_prefix key,
       aa_consumer_id = vk_consumer_id key, aa_client_protocol = p, aa_policy = policy_from_key key\<rparr> \<and>
    (\<forall>allowed model. vk_allowed_models key = Some allowed \<longrightarrow> requested_model (ke_from_str env) ctx = Some model \<longrightarrow> model_allowed allowed model)"
  using assms by (auto simp: key_auth_access_def Let_def requested_model_def split: option.splits prod.splits sum.splits if_splits)

definition ex_key_env :: "(AiVirtualKey list, (string \<times> duration \<times> AiVirtualKey option) list) key_auth_env" where
  "ex_key_env = \<lparr>ke_cache = ex_cache, ke_page = ex_page, ke_hash_key = (\<lambda>raw. ex_hash raw), ke_from_str = (\<lambda>_. None), ke_print = (\<lambda>_. []),
     ke_uuid = (\<lambda>_. [])\<rparr>"

definition ex_ai_ctx :: "ActiveBudgetIntentRegistry \<Rightarrow> 's \<Rightarrow> 'q \<Rightarrow> ('s, 'q) ai_ctx" where
  "ex_ai_ctx rg s q = (request_ctx_new (lifecycle_new ''r1'' 0 0)
     \<lparr>ax_budget = \<lparr>bx_registry = rg, bx_store = s, bx_request = None, bx_model = None, bx_usage = None, bx_fact = None\<rparr>,
      ax_quota_store = q, ax_policy = None, ax_auth = None, ax_quota = None, ax_total_tokens = None, ax_legacy = None,
      ax_request_body = None, ax_authenticated_consumer = None, ax_authenticated_credential = None\<rparr>)
     \<lparr>rq_request_headers := [(''x-api-key'', ''sk-1'')]\<rparr>"

lemma ex_passes:
  "\<not> rq_short_circuited (fst (key_auth_access ex_key_env 49 5 [ex_virtual_key] key_auth_config_default (ex_ai_ctx rg s q) []))"
proof -
  have e: "extract_credential (ex_ai_ctx rg s q) key_auth_config_default = Some (''sk-1'', XApiKeyCredential)"
    by (simp add: extract_credential_def trimmed_header_def ex_ai_ctx_def trim_def is_space_def)
  have a: "authenticate ex_cache ex_page ex_hash 49 5 [ex_virtual_key] ''sk-1'' [] = (Inr ex_virtual_key, [(''h1'', 5, Some ex_virtual_key)])"
    using ex_found by (simp add: authenticate_def lookup_key_def ex_cache_def judge_key_def) (simp add: ex_virtual_key_def)
  show ?thesis
    using a by (simp add: key_auth_access_def e Let_def ex_key_env_def requested_model_def)
      (simp add: ex_ai_ctx_def request_ctx_new_def split: option.split)
qed

theorem passed_request_has_key_witness:
  "\<exists>raw src key. extract_credential (ex_ai_ctx ex_budget_registry () ()) key_auth_config_default = Some (raw, src) \<and>
     fst (authenticate ex_cache ex_page (\<lambda>raw. ex_hash raw) 49 5 [ex_virtual_key] raw []) = Inr key"
proof -
  let ?a = "key_auth_access ex_key_env 49 5 [ex_virtual_key] key_auth_config_default (ex_ai_ctx ex_budget_registry () ()) []"
  obtain ctx' c' where "?a = (ctx', c')" by force
  with passed_request_has_key [OF this] ex_passes [of ex_budget_registry "()" "()"] show ?thesis by (auto simp: ex_key_env_def)
qed

lemma authenticate_error:
  "authenticate cache page hash_key utc now d raw c = (Inl e, c') \<Longrightarrow> e = (if raw = [] then MissingKey else InvalidKey)"
  by (auto simp: authenticate_def judge_key_def split: if_splits prod.splits sum.splits option.splits)

text \<open>What a lookup found is of no use: nothing, an error, or a key that is disabled or has expired.\<close>

definition unusable :: "int \<Rightarrow> KongError + AiVirtualKey option \<Rightarrow> bool" where
  "unusable utc found \<longleftrightarrow>
     (\<forall>key. found = Inr (Some key) \<longrightarrow> \<not> vk_enabled key \<or> (\<exists>e. vk_expires_at key = Some e \<and> e \<le> utc))"

lemma unusable_refused: "unusable utc found \<longleftrightarrow> judge_key utc found = Inl InvalidKey"
  by (auto simp: unusable_def judge_key_def split: sum.splits option.splits)

text \<open>The answer to a credential that is not accepted: a function of the request and the configuration alone.\<close>

definition invalid_key_body :: "AiClientProtocol \<Rightarrow> Value" where
  "invalid_key_body format =
     (case format of
        ProtoOpenAi \<Rightarrow> JObject [(''error'', JObject [(''code'', JString ''invalid_api_key''), (''message'', JString ''invalid API key''),
          (''type'', JString ''invalid_request_error'')])]
      | ProtoAnthropic \<Rightarrow> JObject [(''error'', JObject [(''message'', JString ''invalid API key''), (''type'', JString ''authentication_error'')]),
          (''type'', JString ''error'')])"

text \<open>
  C12. A refused credential says nothing about the keys. Whenever the credential of a request does not lead to a usable
  key (none has its hash, the key is disabled or has expired, or the table could not be read; from the cache or from the table), the
  request is stopped with status 401 and one fixed text, in the dialect that the request and the configuration alone
  determine; nothing else of the request is touched.
\<close>

theorem failed_authentication_is_opaque:
  assumes "extract_credential ctx cfg = Some (raw, src)" "raw \<noteq> []"
    and "lookup_key (ke_cache env) (ke_page env) now d (ke_hash_key env raw) c = (found, c')" "unusable utc found"
  shows "key_auth_access env utc now d cfg ctx c =
    (let format = resolve_error_format cfg ctx (Some src)
     in (ctx\<lparr>rq_failure_format := Some (failure_format format), rq_short_circuited := True, rq_exit_status := Some 401,
           rq_exit_body := Some (ke_print env (invalid_key_body format)),
           rq_exit_headers := Some [(''Content-Type'', ''application/json'')]\<rparr>, c'))"
proof -
  have a: "authenticate (ke_cache env) (ke_page env) (ke_hash_key env) utc now d raw c = (Inl InvalidKey, c')"
    using assms(2-4) by (simp add: authenticate_def unusable_refused)
  show ?thesis
    unfolding key_auth_access_def Let_def assms(1)
    by (simp add: a reject_auth_def reject_key_def invalid_key_body_def split: AiClientProtocol.split)
qed

text \<open>An unknown key, and a key that has expired.\<close>

theorem failed_authentication_is_opaque_witness:
  "rq_exit_status (fst (key_auth_access ex_key_env 49 5 [] key_auth_config_default (ex_ai_ctx ex_budget_registry () ()) [])) = Some 401 \<and>
   fst (key_auth_access ex_key_env 49 5 [] key_auth_config_default (ex_ai_ctx ex_budget_registry () ()) []) =
   fst (key_auth_access ex_key_env 50 5 [ex_virtual_key] key_auth_config_default (ex_ai_ctx ex_budget_registry () ()) [])"
proof -
  let ?ctx = "ex_ai_ctx ex_budget_registry () ()"
  have e: "extract_credential ?ctx key_auth_config_default = Some (''sk-1'', XApiKeyCredential)"
    by (simp add: extract_credential_def trimmed_header_def ex_ai_ctx_def trim_def is_space_def)
  have none: "find_by_hash ex_page [] ''h1'' = Inr None"
    by (simp add: find_by_hash_def MAX_LOOKUP_PAGES_def numeral_eq_Suc ex_page_def)
  have l1: "lookup_key (ke_cache ex_key_env) (ke_page ex_key_env) 5 [] (ke_hash_key ex_key_env ''sk-1'') [] = (Inr None, [(''h1'', 5, None)])"
    using none by (simp add: lookup_key_def ex_cache_def ex_key_env_def)
  have l2: "lookup_key (ke_cache ex_key_env) (ke_page ex_key_env) 5 [ex_virtual_key] (ke_hash_key ex_key_env ''sk-1'') [] =
      (Inr (Some ex_virtual_key), [(''h1'', 5, Some ex_virtual_key)])"
    using ex_found by (simp add: lookup_key_def ex_cache_def ex_key_env_def)
  have u: "unusable 49 (Inr None)" "unusable 50 (Inr (Some ex_virtual_key))"
    by (simp_all add: unusable_def) (simp add: ex_virtual_key_def)
  show ?thesis
    using failed_authentication_is_opaque [OF e _ l1 u(1)] failed_authentication_is_opaque [OF e _ l2 u(2)] by (simp add: Let_def)
qed

end
