(* ===== verification/Chat_Format.thy ===== *)
theory Chat_Format
  imports AI_Policy
begin

text \<open>
  The gateway's own form of a chat request, response and stream chunk
  (\<open>kong-ai/src/codec/openai_format.rs\<close>). A floating point number is kept as its bits, fields that were not
  recognised are in \<open>cr_extra\<close>.
\<close>

record FunctionDef =
  fd_name :: string
  fd_description :: "string option"
  fd_parameters :: "Value option"

record Tool =
  tl_tool_type :: string
  tl_function :: FunctionDef

record FunctionCall =
  fc_name :: string
  fc_arguments :: string

record ToolCall =
  tk_id :: string
  tk_call_type :: string
  tk_function :: FunctionCall

record Message =
  mg_role :: string
  mg_content :: "Value option"
  mg_tool_calls :: "ToolCall list option"
  mg_tool_call_id :: "string option"
  mg_name :: "string option"

record StreamOptions =
  so_include_usage :: "bool option"

record ChatRequest =
  cr_model :: string
  cr_messages :: "Message list"
  cr_temperature :: "u64 option"
  cr_max_tokens :: "u64 option"
  cr_top_p :: "u64 option"
  cr_top_k :: "u64 option"
  cr_stream :: "bool option"
  cr_stream_options :: "StreamOptions option"
  cr_tools :: "Tool list option"
  cr_tool_choice :: "Value option"
  cr_extra :: "(string \<times> Value) list"

text \<open>Objects with optional fields, in the order of their keys.\<close>

definition opt_field :: "string \<Rightarrow> ('a \<Rightarrow> Value) \<Rightarrow> 'a option \<Rightarrow> (string \<times> Value) list" where
  "opt_field key f v = (case v of None \<Rightarrow> [] | Some x \<Rightarrow> [(key, f x)])"

definition tool_value :: "Tool \<Rightarrow> Value" where
  "tool_value t =
     JObject [(''function'', JObject (opt_field ''description'' JString (fd_description (tl_function t)) @
                [(''name'', JString (fd_name (tl_function t)))] @ opt_field ''parameters'' id (fd_parameters (tl_function t)))),
              (''type'', JString (tl_tool_type t))]"

definition tool_call_value :: "ToolCall \<Rightarrow> Value" where
  "tool_call_value t =
     JObject [(''function'', JObject [(''arguments'', JString (fc_arguments (tk_function t))), (''name'', JString (fc_name (tk_function t)))]),
              (''id'', JString (tk_id t)), (''type'', JString (tk_call_type t))]"

end
