(* ===== verification/Token_Counting.thy ===== *)
theory Token_Counting
  imports Chat_Format
begin

text \<open>
  Counting the tokens of a prompt (\<open>kong-ai/src/token\<close>): the choice of a tokenizer by configuration,
  provider and model, the chain of fallbacks down to an estimate by length, the remote counting clients with
  their cache keys, and the encoding of a model name in a URL. Tokenizers, the HTTP client, hashing,
  the cache and the printing of JSON are third-party code and parameters; which local tokenizers are
  loaded, and whether an answer comes before the deadline, are arguments.
\<close>

section \<open>Text of a request\<close>

definition content_text :: "(Value \<Rightarrow> string) \<Rightarrow> Value \<Rightarrow> string" where
  "content_text print v =
     (case v of
        JString s \<Rightarrow> s
      | JArray parts \<Rightarrow> concat (map (\<lambda>p. case Option.bind (json_field ''text'' p) as_str of Some t \<Rightarrow> t @ '' '' | None \<Rightarrow> []) parts)
      | _ \<Rightarrow> print v)"

definition message_text :: "(Value \<Rightarrow> string) \<Rightarrow> Message \<Rightarrow> string" where
  "message_text print msg =
     (if mg_role msg = [] then [] else mg_role msg @ '':'') @
     (case mg_content msg of Some c \<Rightarrow> content_text print c | None \<Rightarrow> []) @
     (case mg_tool_calls msg of
        Some tcs \<Rightarrow> concat (map (\<lambda>tc. newline # fc_name (tk_function tc) @ '':'' @ fc_arguments (tk_function tc)) tcs)
      | None \<Rightarrow> [])"

definition extract_prompt_text :: "(Value \<Rightarrow> string) \<Rightarrow> ChatRequest \<Rightarrow> string" where
  "extract_prompt_text print request =
     foldl (\<lambda>buf msg. buf @ (if buf = [] then [] else [newline]) @ message_text print msg) [] (cr_messages request)"

definition NON_TEXT_EXTRA_KEYS :: "string list" where
  "NON_TEXT_EXTRA_KEYS = [''functions'', ''function_call'', ''response_format'', ''attachments'', ''audio'', ''document'', ''image'']"

definition NON_TEXT_PART_KEYS :: "string list" where
  "NON_TEXT_PART_KEYS = [''image_url'', ''image'', ''input_audio'', ''audio'', ''input_file'', ''file'', ''document'']"

definition part_is_non_text :: "Value \<Rightarrow> bool" where
  "part_is_non_text part =
     (case Option.bind (json_field ''type'' part) as_str of
        Some part_type \<Rightarrow> part_type \<noteq> ''text''
      | None \<Rightarrow> list_ex (\<lambda>key. json_field key part \<noteq> None) NON_TEXT_PART_KEYS)"

definition message_is_non_text :: "Message \<Rightarrow> bool" where
  "message_is_non_text msg =
     ((case mg_tool_calls msg of Some tcs \<Rightarrow> tcs \<noteq> [] | None \<Rightarrow> False) \<or>
      (case mg_content msg of
         None \<Rightarrow> False
       | Some (JArray parts) \<Rightarrow> list_ex part_is_non_text parts
       | Some (JString _) \<Rightarrow> False
       | Some JNull \<Rightarrow> False
       | Some _ \<Rightarrow> True))"

definition has_non_text_content :: "ChatRequest \<Rightarrow> bool" where
  "has_non_text_content request =
     ((case cr_tools request of Some tools \<Rightarrow> tools \<noteq> [] | None \<Rightarrow> False) \<or>
      cr_tool_choice request \<noteq> None \<or>
      list_ex (\<lambda>key. case map_of (cr_extra request) key of Some v \<Rightarrow> v \<noteq> JNull | None \<Rightarrow> False) NON_TEXT_EXTRA_KEYS \<or>
      list_ex message_is_non_text (cr_messages request))"

text \<open>Four bytes for a token, rounded up.\<close>

definition count_estimate :: "string \<Rightarrow> u64" where
  "count_estimate text = (word_of_nat (length text) + 3) div 4"

definition estimate_from_request :: "(Value \<Rightarrow> string) \<Rightarrow> ChatRequest \<Rightarrow> u64" where
  "estimate_from_request print request = count_estimate (extract_prompt_text print request)"

definition token_count :: "(string \<Rightarrow> string \<Rightarrow> u64 option) \<Rightarrow> string \<Rightarrow> string \<Rightarrow> u64 option \<Rightarrow> u64" where
  "token_count tiktoken model text provider_usage =
     (case provider_usage of
        Some usage \<Rightarrow> usage
      | None \<Rightarrow> (case tiktoken model text of Some n \<Rightarrow> n | None \<Rightarrow> count_estimate text))"

section \<open>Remote counting\<close>

record RemoteCountKey =
  rck_provider :: string
  rck_model :: string
  rck_has_non_text :: bool
  rck_prompt_sha256 :: string

text \<open>\<open>jsn\<close> and \<open>jsn_tools\<close> are \<open>serde_json::to_vec\<close>, which may fail.\<close>

record 'c token_lib =
  tx_print :: "Value \<Rightarrow> string"
  tx_json :: "Value \<Rightarrow> string option"
  tx_tools_json :: "Tool list \<Rightarrow> string option"
  tx_sha256 :: "string \<Rightarrow> string"
  tx_tiktoken :: "string \<Rightarrow> string \<Rightarrow> u64 option"
  tx_hf_encode :: "string \<Rightarrow> string \<Rightarrow> u64 option"
  tx_cache_get :: "RemoteCountKey \<Rightarrow> 'c \<Rightarrow> u64 option \<times> 'c"
  tx_cache_put :: "RemoteCountKey \<Rightarrow> u64 \<Rightarrow> 'c \<Rightarrow> 'c"

definition hashed_field :: "string \<Rightarrow> ('a \<Rightarrow> string option) \<Rightarrow> 'a option \<Rightarrow> string" where
  "hashed_field tag ser v = (case v of None \<Rightarrow> [] | Some x \<Rightarrow> tag @ (case ser x of Some bytes \<Rightarrow> bytes | None \<Rightarrow> []))"

definition key_preimage :: "'c token_lib \<Rightarrow> ChatRequest \<Rightarrow> string" where
  "key_preimage lib request =
     ''PROMPT|'' @ extract_prompt_text (tx_print lib) request @
     hashed_field ''|TOOLS|'' (tx_tools_json lib) (cr_tools request) @
     hashed_field ''|TOOL_CHOICE|'' (tx_json lib) (cr_tool_choice request) @
     concat (map (\<lambda>key. hashed_field (''|'' @ key @ ''|'') (tx_json lib) (map_of (cr_extra request) key))
       [''functions'', ''function_call'', ''response_format''])"

definition RemoteCountKey_new :: "'c token_lib \<Rightarrow> string \<Rightarrow> string \<Rightarrow> bool \<Rightarrow> ChatRequest \<Rightarrow> RemoteCountKey" where
  "RemoteCountKey_new lib provider model has_non_text request =
     \<lparr>rck_provider = provider, rck_model = model, rck_has_non_text = has_non_text,
      rck_prompt_sha256 = tx_sha256 lib (key_preimage lib request)\<rparr>"

text \<open>
  A client of one provider: its base URL and key, the request it sends and the field it reads. \<open>post\<close> sends
  a request and gives the JSON of a successful answer; \<open>None\<close> stands for an error, a timeout or another status.
\<close>

record http_post =
  hp_url :: string
  hp_headers :: "(string \<times> string) list"
  hp_body :: Value

record RemoteCountClient =
  cl_provider :: string
  cl_api_key :: "string option"
  cl_request :: "string \<Rightarrow> string \<Rightarrow> ChatRequest \<Rightarrow> http_post"
  cl_tokens :: "Value \<Rightarrow> u64 option"

definition remote_count ::
    "'c token_lib \<Rightarrow> (http_post \<Rightarrow> Value option) \<Rightarrow> RemoteCountClient \<Rightarrow> string \<Rightarrow> ChatRequest \<Rightarrow> bool \<Rightarrow> 'c \<Rightarrow> u64 option \<times> 'c" where
  "remote_count lib post client model request has_non_text c =
     (case cl_api_key client of
        None \<Rightarrow> (None, c)
      | Some api_key \<Rightarrow>
          (let key = RemoteCountKey_new lib (cl_provider client) model has_non_text request
           in case tx_cache_get lib key c of
                (Some n, c1) \<Rightarrow> (Some n, c1)
              | (None, c1) \<Rightarrow>
                  (case Option.bind (post (cl_request client api_key model request)) (cl_tokens client) of
                     None \<Rightarrow> (None, c1)
                   | Some tokens \<Rightarrow> (Some tokens, tx_cache_put lib key tokens c1))))"

definition openai_message :: "Message \<Rightarrow> Value" where
  "openai_message msg =
     JObject (opt_field ''content'' id (mg_content msg) @ opt_field ''name'' JString (mg_name msg) @ [(''role'', JString (mg_role msg))] @
       opt_field ''tool_call_id'' JString (mg_tool_call_id msg) @
       opt_field ''tool_calls'' (\<lambda>tcs. JArray (map tool_call_value tcs)) (mg_tool_calls msg))"

definition build_openai_responses_body :: "string \<Rightarrow> ChatRequest \<Rightarrow> Value" where
  "build_openai_responses_body model request =
     JObject (opt_field ''function_call'' id (map_of (cr_extra request) ''function_call'') @
       opt_field ''functions'' id (map_of (cr_extra request) ''functions'') @
       [(''input'', JArray (map openai_message (cr_messages request))), (''model'', JString model)] @
       opt_field ''tool_choice'' id (cr_tool_choice request) @
       opt_field ''tools'' (\<lambda>ts. JArray (map tool_value ts)) (cr_tools request))"

text \<open>The texts of the system messages, joined by line feeds; only string contents count.\<close>

definition system_text :: "ChatRequest \<Rightarrow> string" where
  "system_text request =
     foldl (\<lambda>buf s. buf @ (if buf = [] then [] else [newline]) @ s) []
       (List.map_filter (\<lambda>m. if mg_role m = ''system'' then Option.bind (mg_content m) as_str else None) (cr_messages request))"

definition anthropic_count_body :: "string \<Rightarrow> ChatRequest \<Rightarrow> Value" where
  "anthropic_count_body model request =
     JObject ([(''messages'', JArray (map (\<lambda>m. JObject (opt_field ''content'' id (mg_content m) @ [(''role'', JString (mg_role m))]))
                 (filter (\<lambda>m. mg_role m \<noteq> ''system'') (cr_messages request)))),
               (''model'', JString model)] @
       (if system_text request = [] then [] else [(''system'', JString (system_text request))]) @
       opt_field ''tools'' (\<lambda>ts. JArray (map tool_value ts)) (cr_tools request))"

definition gemini_text :: "(Value \<Rightarrow> string) \<Rightarrow> Value option \<Rightarrow> string" where
  "gemini_text print content =
     (case content of
        None \<Rightarrow> []
      | Some (JString s) \<Rightarrow> s
      | Some (JArray parts) \<Rightarrow>
          foldl (\<lambda>buf t. buf @ (if buf = [] then [] else '' '') @ t) []
            (List.map_filter (\<lambda>p. Option.bind (json_field ''text'' p) as_str) parts)
      | Some other \<Rightarrow> print other)"

definition gemini_count_body :: "(Value \<Rightarrow> string) \<Rightarrow> ChatRequest \<Rightarrow> Value" where
  "gemini_count_body print request =
     JObject ([(''contents'', JArray (map (\<lambda>m.
                 JObject [(''parts'', JArray [JObject [(''text'', JString (gemini_text print (mg_content m)))]]),
                          (''role'', JString (if mg_role m = ''assistant'' then ''model'' else ''user''))])
                 (filter (\<lambda>m. mg_role m \<noteq> ''system'') (cr_messages request))))] @
       (if system_text request = [] then []
        else [(''systemInstruction'', JObject [(''parts'', JArray [JObject [(''text'', JString (system_text request))]])])]))"

definition is_unreserved :: "char \<Rightarrow> bool" where
  "is_unreserved c =
     (let n = of_char c :: nat
      in 65 \<le> n \<and> n \<le> 90 \<or> 97 \<le> n \<and> n \<le> 122 \<or> 48 \<le> n \<and> n \<le> 57 \<or> c \<in> {CHR ''-'', CHR ''_'', CHR ''.'', CHR ''~''})"

definition upper_hex :: "nat \<Rightarrow> char" where
  "upper_hex n = (if n < 10 then char_of (48 + n) else char_of (55 + n))"

definition percent_encode_path_segment :: "string \<Rightarrow> string" where
  "percent_encode_path_segment input =
     concat (map (\<lambda>c. if is_unreserved c then [c]
                      else [CHR ''%'', upper_hex (of_char c div 16), upper_hex (of_char c mod 16)]) input)"

definition base_or :: "string option \<Rightarrow> string \<Rightarrow> string" where
  "base_or base dflt = (case base of Some b \<Rightarrow> b | None \<Rightarrow> dflt)"

definition OpenAiCountClient :: "string option \<Rightarrow> string option \<Rightarrow> RemoteCountClient" where
  "OpenAiCountClient base api_key =
     \<lparr>cl_provider = ''openai'', cl_api_key = api_key,
      cl_request = (\<lambda>key model request.
        \<lparr>hp_url = trim_end_matches (CHR ''/'') (base_or base ''https://api.openai.com'') @ ''/v1/responses/input_tokens'',
         hp_headers = [(''Authorization'', ''Bearer '' @ key), (''Content-Type'', ''application/json'')],
         hp_body = build_openai_responses_body model request\<rparr>),
      cl_tokens = (\<lambda>json.
        let usage = json_field ''usage'' json
        in case Option.bind (json_field ''input_tokens'' json) as_u64 of
             Some n \<Rightarrow> Some n
           | None \<Rightarrow>
               (case Option.bind (Option.bind usage (json_field ''input_tokens'')) as_u64 of
                  Some n \<Rightarrow> Some n
                | None \<Rightarrow> Option.bind (Option.bind usage (json_field ''prompt_tokens'')) as_u64))\<rparr>"

definition AnthropicCountClient :: "string option \<Rightarrow> string option \<Rightarrow> RemoteCountClient" where
  "AnthropicCountClient base api_key =
     \<lparr>cl_provider = ''anthropic'', cl_api_key = api_key,
      cl_request = (\<lambda>key model request.
        \<lparr>hp_url = trim_end_matches (CHR ''/'') (base_or base ''https://api.anthropic.com'') @ ''/v1/messages/count_tokens'',
         hp_headers = [(''x-api-key'', key), (''anthropic-version'', ''2023-06-01''), (''Content-Type'', ''application/json'')],
         hp_body = anthropic_count_body model request\<rparr>),
      cl_tokens = (\<lambda>json. Option.bind (json_field ''input_tokens'' json) as_u64)\<rparr>"

definition GeminiCountClient :: "(Value \<Rightarrow> string) \<Rightarrow> string option \<Rightarrow> string option \<Rightarrow> RemoteCountClient" where
  "GeminiCountClient print base api_key =
     \<lparr>cl_provider = ''gemini'', cl_api_key = api_key,
      cl_request = (\<lambda>key model request.
        \<lparr>hp_url = trim_end_matches (CHR ''/'') (base_or base ''https://generativelanguage.googleapis.com'') @ ''/v1beta/models/'' @
           percent_encode_path_segment model @ '':countTokens'',
         hp_headers = [(''x-goog-api-key'', key), (''Content-Type'', ''application/json'')],
         hp_body = gemini_count_body print request\<rparr>),
      cl_tokens = (\<lambda>json. Option.bind (json_field ''totalTokens'' json) as_u64)\<rparr>"

section \<open>The registry\<close>

datatype TokenizerStrategy = OpenAiStrategy | AnthropicStrategy | GeminiStrategy | HuggingFaceStrategy | TiktokenStrategy | EstimateStrategy

text \<open>A mapping that compiled: the test of its regular expression, the strategy and a repository.\<close>

type_synonym compiled_mapping = "(string \<Rightarrow> bool) \<times> TokenizerStrategy \<times> string option"

record TokenizerMapping =
  tm_pattern :: string
  tm_strategy :: TokenizerStrategy
  tm_hf_repo_id :: "string option"

definition compile_mappings :: "(string \<Rightarrow> (string \<Rightarrow> bool) option) \<Rightarrow> TokenizerMapping list \<Rightarrow> compiled_mapping list" where
  "compile_mappings regex_new =
     List.map_filter (\<lambda>m. map_option (\<lambda>re. (re, tm_strategy m, tm_hf_repo_id m)) (regex_new (tm_pattern m)))"

record TokenizerRegistry =
  tr_mappings :: "compiled_mapping list"
  tr_openai :: "RemoteCountClient option"
  tr_anthropic :: "RemoteCountClient option"
  tr_gemini :: "RemoteCountClient option"

record TokenizerConfig =
  tzc_per_request_deadline :: duration
  tzc_remote_count_timeout :: duration
  tzc_hf_cache_dir :: "string option"
  tzc_offline :: bool
  tzc_mappings :: "TokenizerMapping list"
  tzc_cache_capacity :: u64
  tzc_cache_ttl :: duration
  tzc_openai_endpoint :: "string option"
  tzc_openai_api_key :: "string option"
  tzc_anthropic_endpoint :: "string option"
  tzc_anthropic_api_key :: "string option"
  tzc_gemini_endpoint :: "string option"
  tzc_gemini_api_key :: "string option"

definition tokenizer_config_default :: TokenizerConfig where
  "tokenizer_config_default =
     \<lparr>tzc_per_request_deadline = 300000000, tzc_remote_count_timeout = from_secs 1, tzc_hf_cache_dir = None, tzc_offline = False,
      tzc_mappings = [], tzc_cache_capacity = 1024, tzc_cache_ttl = from_secs 60, tzc_openai_endpoint = None, tzc_openai_api_key = None,
      tzc_anthropic_endpoint = None, tzc_anthropic_api_key = None, tzc_gemini_endpoint = None, tzc_gemini_api_key = None\<rparr>"

text \<open>A client exists only with a key for its provider.\<close>

definition TokenizerRegistry_new ::
    "(Value \<Rightarrow> string) \<Rightarrow> (string \<Rightarrow> (string \<Rightarrow> bool) option) \<Rightarrow> TokenizerConfig \<Rightarrow> TokenizerRegistry" where
  "TokenizerRegistry_new print regex_new cfg =
     \<lparr>tr_mappings = compile_mappings regex_new (tzc_mappings cfg),
      tr_openai = map_option (\<lambda>_. OpenAiCountClient (tzc_openai_endpoint cfg) (tzc_openai_api_key cfg)) (tzc_openai_api_key cfg),
      tr_anthropic = map_option (\<lambda>_. AnthropicCountClient (tzc_anthropic_endpoint cfg) (tzc_anthropic_api_key cfg)) (tzc_anthropic_api_key cfg),
      tr_gemini = map_option (\<lambda>_. GeminiCountClient print (tzc_gemini_endpoint cfg) (tzc_gemini_api_key cfg)) (tzc_gemini_api_key cfg)\<rparr>"

definition contains_sub :: "string \<Rightarrow> string \<Rightarrow> bool" where
  "contains_sub s p = (find_sub p s \<noteq> None)"

definition infer_provider_type :: "string \<Rightarrow> string" where
  "infer_provider_type model =
     (let m = to_lowercase model
      in if list_ex (starts_with m) [''gpt-'', ''o1'', ''o3'', ''o4'', ''text-embedding-'', ''davinci'', ''babbage''] then ''openai''
         else if list_ex (starts_with m) [''claude-'', ''claude_''] then ''anthropic''
         else if starts_with m ''gemini'' then ''gemini''
         else if list_ex (contains_sub m) [''/'', ''qwen'', ''llama'', ''mistral'', ''deepseek'', ''yi-'', ''phi-''] then ''huggingface''
         else ''openai_compat'')"

fun first_mapping :: "string \<Rightarrow> compiled_mapping list \<Rightarrow> (TokenizerStrategy \<times> string option) option" where
  "first_mapping model [] = None"
| "first_mapping model ((re, r) # ms) = (if re model then Some r else first_mapping model ms)"

definition resolve_strategy :: "TokenizerRegistry \<Rightarrow> string \<Rightarrow> string \<Rightarrow> TokenizerStrategy" where
  "resolve_strategy reg provider_type model =
     (case first_mapping model (tr_mappings reg) of
        Some (strategy, _) \<Rightarrow> strategy
      | None \<Rightarrow>
          if provider_type = ''openai'' then OpenAiStrategy
          else if provider_type = ''anthropic'' then AnthropicStrategy
          else if provider_type = ''gemini'' then GeminiStrategy
          else if provider_type = ''huggingface'' then HuggingFaceStrategy
          else if provider_type = ''openai_compat'' then TiktokenStrategy
          else EstimateStrategy)"

definition openai_default_xenova_repo :: "string \<Rightarrow> string option" where
  "openai_default_xenova_repo model =
     (let m = to_lowercase model
      in if starts_with m ''gpt-4o'' then Some ''Xenova/gpt-4o''
         else if starts_with m ''gpt-4'' then Some ''Xenova/gpt-4''
         else if starts_with m ''gpt-3.5'' then Some ''Xenova/gpt-3.5-turbo''
         else None)"

text \<open>The repository of a model: the first mapping that matches if it names one, a built-in one, or the name itself if it has a slash.\<close>

definition resolve_hf_repo :: "TokenizerRegistry \<Rightarrow> string \<Rightarrow> string option" where
  "resolve_hf_repo reg model =
     (case first_mapping model (tr_mappings reg) of
        Some (_, Some repo) \<Rightarrow> Some repo
      | _ \<Rightarrow> if CHR ''/'' \<in> set model then Some model else None)"

definition resolve_openai_repo :: "TokenizerRegistry \<Rightarrow> string \<Rightarrow> string option" where
  "resolve_openai_repo reg model =
     (case first_mapping model (tr_mappings reg) of
        Some (_, Some repo) \<Rightarrow> Some repo
      | _ \<Rightarrow>
          (case openai_default_xenova_repo model of
             Some repo \<Rightarrow> Some repo
           | None \<Rightarrow> if CHR ''/'' \<in> set model then Some model else None))"

definition count_with_tiktoken :: "'c token_lib \<Rightarrow> string \<Rightarrow> ChatRequest \<Rightarrow> u64 option" where
  "count_with_tiktoken lib model request = tx_tiktoken lib model (extract_prompt_text (tx_print lib) request)"

definition hf_count :: "'c token_lib \<Rightarrow> (string \<Rightarrow> string option) \<Rightarrow> string \<Rightarrow> ChatRequest \<Rightarrow> u64 option" where
  "hf_count lib repo_resolver model request =
     (if has_non_text_content request then None
      else Option.bind (repo_resolver model) (\<lambda>repo. tx_hf_encode lib repo (extract_prompt_text (tx_print lib) request)))"

definition openai_count ::
    "'c token_lib \<Rightarrow> (http_post \<Rightarrow> Value option) \<Rightarrow> TokenizerRegistry \<Rightarrow> string \<Rightarrow> ChatRequest \<Rightarrow> 'c \<Rightarrow> u64 option \<times> 'c" where
  "openai_count lib post reg model request c =
     (let local = (case hf_count lib (resolve_openai_repo reg) model request of
            Some n \<Rightarrow> Some n
          | None \<Rightarrow> count_with_tiktoken lib model request)
      in case (has_non_text_content request, tr_openai reg) of
           (True, Some remote) \<Rightarrow>
             (case remote_count lib post remote model request True c of
                (Some n, c1) \<Rightarrow> (Some n, c1)
              | (None, c1) \<Rightarrow> (local, c1))
         | _ \<Rightarrow> (local, c))"

definition tokenizer_count ::
    "'c token_lib \<Rightarrow> (http_post \<Rightarrow> Value option) \<Rightarrow> TokenizerRegistry \<Rightarrow> TokenizerStrategy \<Rightarrow> string \<Rightarrow> ChatRequest \<Rightarrow> 'c \<Rightarrow> u64 option \<times> 'c" where
  "tokenizer_count lib post reg strategy model request c =
     (let remote = (\<lambda>client. case client of
            Some r \<Rightarrow> remote_count lib post r model request (has_non_text_content request) c
          | None \<Rightarrow> (None, c))
      in case strategy of
           OpenAiStrategy \<Rightarrow> openai_count lib post reg model request c
         | TiktokenStrategy \<Rightarrow> (count_with_tiktoken lib model request, c)
         | HuggingFaceStrategy \<Rightarrow> (hf_count lib (resolve_hf_repo reg) model request, c)
         | AnthropicStrategy \<Rightarrow> remote (tr_anthropic reg)
         | GeminiStrategy \<Rightarrow> remote (tr_gemini reg)
         | EstimateStrategy \<Rightarrow> (None, c))"

text \<open>\<open>in_time\<close>: the tokenizer answered before the deadline; otherwise its work is dropped where it stands.\<close>

definition count_prompt ::
    "'c token_lib \<Rightarrow> (http_post \<Rightarrow> Value option) \<Rightarrow> TokenizerRegistry \<Rightarrow> bool \<Rightarrow> string \<Rightarrow> string \<Rightarrow> ChatRequest \<Rightarrow> 'c \<Rightarrow> u64 \<times> 'c" where
  "count_prompt lib post reg in_time provider_type model request c =
     (if in_time
      then (case tokenizer_count lib post reg (resolve_strategy reg provider_type model) model request c of
              (Some n, c1) \<Rightarrow> (n, c1)
            | (None, c1) \<Rightarrow> (estimate_from_request (tx_print lib) request, c1))
      else (estimate_from_request (tx_print lib) request, c))"

definition count_prompt_from_body ::
    "'c token_lib \<Rightarrow> (http_post \<Rightarrow> Value option) \<Rightarrow> (string \<Rightarrow> ChatRequest option) \<Rightarrow> TokenizerRegistry \<Rightarrow> bool \<Rightarrow> string \<Rightarrow> string \<Rightarrow> string \<Rightarrow> 'c \<Rightarrow> u64 \<times> 'c" where
  "count_prompt_from_body lib post from_str reg in_time provider_type model body c =
     (case from_str body of
        Some req \<Rightarrow> count_prompt lib post reg in_time provider_type (if model = [] then cr_model req else model) req c
      | None \<Rightarrow> (count_estimate body, c))"

section \<open>Properties\<close>

lemma count_estimate_rounds_up: "length text < 2 ^ 64 - 3 \<Longrightarrow> unat (count_estimate text) = (length text + 3) div 4"
proof -
  assume "length text < 2 ^ 64 - 3"
  then have "unat (word_of_nat (length text) + 3 :: u64) = length text + 3"
    by (simp add: unat_word_ariths unat_of_nat)
  then show ?thesis by (simp add: count_estimate_def unat_div)
qed

text \<open>A request with more than text is never counted by a local tokenizer of text alone, unless \<open>tiktoken\<close> is asked.\<close>

lemma non_text_not_counted_locally:
  "has_non_text_content request \<Longrightarrow> resolve_strategy reg provider_type model = HuggingFaceStrategy \<Longrightarrow>
   fst (count_prompt lib post reg in_time provider_type model request c) = estimate_from_request (tx_print lib) request"
  by (simp add: count_prompt_def tokenizer_count_def hf_count_def)

subsection \<open>Model names in a URL\<close>

definition hex_value :: "char \<Rightarrow> nat" where
  "hex_value c = (let n = of_char c in if n < 58 then n - 48 else n - 55)"

fun percent_decode :: "string \<Rightarrow> string" where
  "percent_decode (c # h # l # s) =
     (if c = CHR ''%'' then char_of (16 * hex_value h + hex_value l) # percent_decode s else c # percent_decode (h # l # s))"
| "percent_decode s = s"

lemma upper_hex_code: "n < 16 \<Longrightarrow> of_char (upper_hex n) = (if n < 10 then 48 + n else 55 + n)"
  by (simp add: upper_hex_def)

lemma hex_value_digit: "n < 16 \<Longrightarrow> hex_value (upper_hex n) = n"
  by (simp add: hex_value_def upper_hex_code Let_def)

lemma upper_hex_unreserved: "n < 16 \<Longrightarrow> is_unreserved (upper_hex n)"
  unfolding is_unreserved_def Let_def by (simp add: upper_hex_code)

lemma decode_plain: "c \<noteq> CHR ''%'' \<Longrightarrow> percent_decode (c # s) = c # percent_decode s"
  by (cases s; cases "tl s") auto

lemma char_code_bound: "of_char c < (256 :: nat)"
  using of_char_mod_256 [of c, where 'a = nat] by (metis mod_less_divisor zero_less_numeral)

lemma hex_pair: "char_of (16 * hex_value (upper_hex (of_char c div 16)) + hex_value (upper_hex (of_char c mod 16))) = c"
proof -
  have "of_char c < (16 * 16 :: nat)" using char_code_bound [of c] by simp
  then have "of_char c div 16 < (16 :: nat)" by (rule less_mult_imp_div_less)
  then show ?thesis by (simp add: hex_value_digit)
qed

text \<open>
  A model name in the path of a counting request is one segment: whatever bytes the name has, the
  encoded text has only unreserved characters and percent signs (no slash, question mark, number sign,
  colon or space), so it cannot change the path or the query, and decoding gives the name back.
\<close>

theorem model_segment_roundtrips:
  "percent_decode (percent_encode_path_segment model) = model \<and>
   list_all (\<lambda>c. is_unreserved c \<or> c = CHR ''%'') (percent_encode_path_segment model) \<and>
   list_all (\<lambda>c. c \<notin> set (percent_encode_path_segment model)) [CHR ''/'', CHR ''?'', CHR ''#'', CHR '':'', CHR '' '']"
proof -
  have "percent_decode (percent_encode_path_segment model) = model"
  proof (induction model)
    case (Cons c model)
    have "\<not> is_unreserved CHR ''%''" by (simp add: is_unreserved_def)
    then have "is_unreserved c \<Longrightarrow> c \<noteq> CHR ''%''" by blast
    then show ?case
      using Cons.IH hex_pair [of c] by (auto simp: percent_encode_path_segment_def decode_plain)
  qed (simp add: percent_encode_path_segment_def)
  moreover have u: "\<forall>c \<in> set (percent_encode_path_segment model). is_unreserved c \<or> c = CHR ''%''"
    using char_code_bound
    by (auto simp: percent_encode_path_segment_def intro!: upper_hex_unreserved less_mult_imp_div_less split: if_splits)
  moreover have "\<not> is_unreserved c \<and> c \<noteq> CHR ''%''" if "c \<in> {CHR ''/'', CHR ''?'', CHR ''#'', CHR '':'', CHR '' ''}" for c
    using that by (auto simp: is_unreserved_def)
  ultimately show ?thesis by (auto simp: list_all_iff)
qed

subsection \<open>Cache keys\<close>

text \<open>
  The key of a cached count has the text of a request but nothing of its other parts: a request with one
  image and a request with the same text and any number of images share it, so the count of the first is
  the answer for the second.
\<close>

definition ex_image_request :: "nat \<Rightarrow> ChatRequest" where
  "ex_image_request n =
     \<lparr>cr_model = ''gpt-4o'', cr_messages = [\<lparr>mg_role = ''user'',
        mg_content = Some (JArray (JObject [(''text'', JString ''look''), (''type'', JString ''text'')] #
          replicate n (JObject [(''image_url'', JString ''u''), (''type'', JString ''image_url'')]))),
        mg_tool_calls = None, mg_tool_call_id = None, mg_name = None\<rparr>],
      cr_temperature = None, cr_max_tokens = None, cr_top_p = None, cr_top_k = None, cr_stream = None, cr_stream_options = None,
      cr_tools = None, cr_tool_choice = None, cr_extra = []\<rparr>"

lemma count_key_ignores_images:
  "0 < m \<Longrightarrow> 0 < n \<Longrightarrow>
   RemoteCountKey_new lib p model (has_non_text_content (ex_image_request m)) (ex_image_request m) =
   RemoteCountKey_new lib p model (has_non_text_content (ex_image_request n)) (ex_image_request n)"
proof -
  have t: "concat (replicate k []) = []" for k by (induction k) auto
  have "has_non_text_content (ex_image_request k)" if "0 < k" for k
    using that by (cases k)
      (auto simp: has_non_text_content_def message_is_non_text_def ex_image_request_def part_is_non_text_def json_field_def as_str_def)
  moreover have "key_preimage lib (ex_image_request k) = ''PROMPT|user:look ''" for k
    by (simp add: key_preimage_def hashed_field_def extract_prompt_text_def ex_image_request_def message_text_def content_text_def json_field_def
        as_str_def map_replicate_const t)
  ultimately show "0 < m \<Longrightarrow> 0 < n \<Longrightarrow> ?thesis" by (simp add: RemoteCountKey_new_def)
qed

end
