(* ===== verification/Quota_Enforcement.thy ===== *)
theory Quota_Enforcement
  imports Key_Auth Token_Counting RL_Recovery RL_Legacy
begin

text \<open>
  The quota of a request: the plugin \<open>ai-rate-limit\<close> (\<open>kong-ai/src/plugins/ai_rate_limit.rs\<close>), which admits a
  request after the budget was looked at, and the compensator and the finalizer that settle the
  reservation (\<open>enforcement/quota.rs\<close>). The quota store is the trait of \<open>RL_Recovery\<close>; its state is
  carried in the extensions. A panic of the store is a \<open>Crash\<close> of the piece that called it.
\<close>

section \<open>Errors\<close>

fun quota_error_contract :: "RateLimitStoreErrorKind \<Rightarrow> string \<times> string" where
  "quota_error_contract Corrupt = (''quota_backend_state_invalid'', ''Quota enforcement state is invalid.'')"
| "quota_error_contract Unsupported = (''quota_backend_unsupported'', ''Quota enforcement is not supported in this deployment mode.'')"
| "quota_error_contract Unavailable = (''quota_backend_unavailable'', ''Quota enforcement is temporarily unavailable.'')"
| "quota_error_contract Timeout = (''quota_backend_unavailable'', ''Quota enforcement is temporarily unavailable.'')"
| "quota_error_contract OutcomeUnknown = (''quota_backend_unavailable'', ''Quota enforcement is temporarily unavailable.'')"
| "quota_error_contract Overloaded = (''quota_backend_unavailable'', ''Quota enforcement is temporarily unavailable.'')"

definition quota_error_code :: "RateLimitStoreErrorKind \<Rightarrow> string" where
  "quota_error_code kind = fst (quota_error_contract kind)"

text \<open>
  The runtime: the quota store with its name space, or none in a deployment without one; the budget
  runtime as in \<open>Budget_Enforcement\<close>; how bodies are counted, and the printing of errors.
\<close>

record ('s, 'q) quota_env =
  qe_quota :: "('q quota_store \<times> string) option"
  qe_budget :: "'s budget_env"
  qe_budget_runtime :: "BudgetRuntimeUnavailable + unit"
  qe_permit :: "BudgetRuntimeUnavailable + unit"
  qe_registry :: "(string \<Rightarrow> string \<Rightarrow> string \<Rightarrow> u64) option"
  qe_from_str :: "string \<Rightarrow> Value option"
  qe_show :: "RateLimitStoreError \<Rightarrow> string"

abbreviation quota_of :: "('s, 'q) ai_ctx \<Rightarrow> AiRateLimitRequestContext option" where
  "quota_of ctx \<equiv> ax_quota (rq_extensions ctx)"

abbreviation quota_store_of :: "('s, 'q) ai_ctx \<Rightarrow> 'q" where
  "quota_store_of ctx \<equiv> ax_quota_store (rq_extensions ctx)"

definition set_quota_store :: "'q \<Rightarrow> ('s, 'q) ai_ctx \<Rightarrow> ('s, 'q) ai_ctx" where
  "set_quota_store q = ai_ext_with (\<lambda>x. x\<lparr>ax_quota_store := q\<rparr>)"

definition set_quota :: "AiRateLimitRequestContext \<Rightarrow> ('s, 'q) ai_ctx \<Rightarrow> ('s, 'q) ai_ctx" where
  "set_quota r = ai_ext_with (\<lambda>x. x\<lparr>ax_quota := Some r\<rparr>)"

definition with_quota :: "(AiRateLimitRequestContext \<Rightarrow> AiRateLimitRequestContext) \<Rightarrow> ('s, 'q) ai_ctx \<Rightarrow> ('s, 'q) ai_ctx" where
  "with_quota f = ai_ext_with (\<lambda>x. x\<lparr>ax_quota := map_option f (ax_quota x)\<rparr>)"

definition reject_quota_backend_error ::
    "('s, 'q) quota_env \<Rightarrow> AiClientProtocol \<Rightarrow> RateLimitStoreErrorKind \<Rightarrow> ('s, 'q) ai_ctx \<Rightarrow> ('s, 'q) ai_ctx" where
  "reject_quota_backend_error env protocol kind =
     (case quota_error_contract kind of
        (code, message) \<Rightarrow> reject_with_protocol_error (en_print (qe_budget env)) protocol 503 code message)"

section \<open>Access\<close>

record AiRateLimitConfig =
  rlc_limit_by :: string
  rlc_tpm_limit :: "u64 option"
  rlc_rpm_limit :: "u64 option"
  rlc_header_name :: string
  rlc_error_code :: u16
  rlc_error_message :: string

definition rate_limit_config_default :: AiRateLimitConfig where
  "rate_limit_config_default =
     \<lparr>rlc_limit_by = ''consumer'', rlc_tpm_limit = None, rlc_rpm_limit = None, rlc_header_name = ''X-AI-Key'', rlc_error_code = 429,
      rlc_error_message = ''AI rate limit exceeded''\<rparr>"

definition quota_protocol :: "('s, 'q) ai_ctx \<Rightarrow> AiClientProtocol" where
  "quota_protocol ctx =
     (case ax_auth (rq_extensions ctx) of
        Some auth \<Rightarrow> aa_client_protocol auth
      | None \<Rightarrow>
          (case Option.bind (ax_policy (rq_extensions ctx)) pol_client_protocol of
             Some p \<Rightarrow> p
           | None \<Rightarrow> ProtoOpenAi))"

text \<open>
  The tokens to reserve for the prompt: what an earlier plugin counted, the count of the token
  registry (with the provider guessed from the model in the body), or the estimate by length.
\<close>

definition compute_estimated_prompt_tokens :: "('s, 'q) quota_env \<Rightarrow> ('s, 'q) ai_ctx \<Rightarrow> u64" where
  "compute_estimated_prompt_tokens env ctx =
     (let given = (case bx_model (ax_budget (rq_extensions ctx)) of Some state \<Rightarrow> ms_estimated_prompt_tokens state | None \<Rightarrow> 0);
          body = (case ax_request_body (rq_extensions ctx) of Some b \<Rightarrow> b | None \<Rightarrow> [])
      in if 0 < given then given
         else if body = [] then 0
         else case qe_registry env of
                Some count_body \<Rightarrow>
                  (let model_name = (case Option.bind (qe_from_str env body) (\<lambda>v. Option.bind (json_field ''model'' v) as_str) of
                         Some m \<Rightarrow> m | None \<Rightarrow> [])
                   in count_body (infer_provider_type model_name) model_name body)
              | None \<Rightarrow> count_estimate body)"

definition limited :: "QuotaLimits \<Rightarrow> bool" where
  "limited limits = (ql_requests limits \<noteq> None \<or> ql_tokens limits \<noteq> None)"

definition config_limits :: "AiRateLimitConfig \<Rightarrow> QuotaLimits" where
  "config_limits cfg = \<lparr>ql_requests = Option.bind (rlc_rpm_limit cfg) non_zero, ql_tokens = Option.bind (rlc_tpm_limit cfg) non_zero\<rparr>"

definition minute_window :: WindowSpec where
  "minute_window = WindowSpec_fixed (from_secs 60)"

text \<open>Whose quota it is, and the limits; or the refusal. With a virtual key its identity comes along.\<close>

definition quota_subject ::
    "AiRateLimitMode \<Rightarrow> AiRateLimitConfig \<Rightarrow> ('s, 'q) ai_ctx \<Rightarrow>
     (u16 \<times> string \<times> string) + RateLimitSubject \<times> QuotaLimits \<times> AiAuthContext option" where
  "quota_subject mode cfg ctx =
     (case mode of
        VirtualKeyMode \<Rightarrow>
          (if (case ax_policy (rq_extensions ctx) of None \<Rightarrow> True | Some p \<Rightarrow> \<not> pol_has_ai_proxy p)
           then Inl (500, ''ai_policy_chain_invalid'', ''AI policy chain is missing ai-proxy'')
           else (case ax_auth (rq_extensions ctx) of
                   None \<Rightarrow> Inl (401, ''virtual_key_required'', ''A virtual key is required.'')
                 | Some auth \<Rightarrow>
                     Inr (VirtualKey (aa_virtual_key_id auth),
                          \<lparr>ql_requests = vp_rpm_limit (aa_policy auth), ql_tokens = vp_tpm_limit (aa_policy auth)\<rparr>, Some auth)))
      | GlobalMode \<Rightarrow> Inr (Global, config_limits cfg, None)
      | RouteMode \<Rightarrow>
          (case rq_route_id ctx of
             None \<Rightarrow> Inl (500, ''ai_policy_chain_invalid'', ''Route-scoped quota requires a matched route'')
           | Some route_id \<Rightarrow> Inr (RouteSubject route_id, config_limits cfg, None))
      | ConsumerMode \<Rightarrow> Inr (ConsumerSubject (rq_consumer_id ctx), config_limits cfg, None))"

text \<open>A key whose budget is exhausted is refused; its quota is only looked at, for the headers of the answer.\<close>

definition refuse_exhausted ::
    "('s, 'q) quota_env \<Rightarrow> AiClientProtocol \<Rightarrow> RateLimitSubject \<Rightarrow> QuotaLimits \<Rightarrow> ('s, 'q) ai_ctx \<Rightarrow> unit ran \<times> ('s, 'q) ai_ctx" where
  "refuse_exhausted env protocol subject limits ctx =
     (let exhausted = reject_with_protocol_error (en_print (qe_budget env)) protocol 403 ''budget_exhausted''
            ''The virtual key budget has been exhausted.''
      in if \<not> limited limits then (Done (), exhausted ctx)
         else case qe_quota env of
           None \<Rightarrow> (Done (), reject_quota_backend_error env protocol Unsupported ctx)
         | Some (store, ns) \<Rightarrow>
             (let key = RateLimitKey_new ns subject
              in case qs_inspect store (quota_store_of ctx) (QCurrent key minute_window limits) of
                   (r, q) \<Rightarrow>
                     (let ctx1 = set_quota_store q ctx
                      in case r of
                           Inr (RCurrent snap) \<Rightarrow>
                             (Done (), exhausted (set_quota (quota_snapshot_only key limits protocol snap) ctx1))
                         | Inr _ \<Rightarrow> (Done (), reject_quota_backend_error env protocol Corrupt ctx1)
                         | Inl (Err e) \<Rightarrow> (Done (), reject_quota_backend_error env protocol (er_kind e) ctx1)
                         | Inl Panicked \<Rightarrow> (Crash, ctx1))))"

definition admit_quota ::
    "('s, 'q) quota_env \<Rightarrow> AiRateLimitMode \<Rightarrow> AiRateLimitConfig \<Rightarrow> AiClientProtocol \<Rightarrow> RateLimitSubject \<Rightarrow> QuotaLimits \<Rightarrow>
     ('s, 'q) ai_ctx \<Rightarrow> unit ran \<times> ('s, 'q) ai_ctx" where
  "admit_quota env mode cfg protocol subject limits ctx =
     (if \<not> limited limits then (Done (), ctx)
      else case qe_quota env of
        None \<Rightarrow> (Done (), reject_quota_backend_error env protocol Unsupported ctx)
      | Some (store, ns) \<Rightarrow>
          (let key = RateLimitKey_new ns subject;
               estimated = (if ql_tokens limits \<noteq> None then compute_estimated_prompt_tokens env ctx else 0);
               reserved = \<lparr>qc_requests = 1, qc_tokens = estimated\<rparr>;
               command = \<lparr>ac_request_id = lc_request_id (rq_lifecycle ctx), ac_key = key, ac_window = minute_window, ac_limits = limits,
                  ac_reserve = reserved\<rparr>
           in case admit_with_recovery store (quota_store_of ctx) command of
                (r, q) \<Rightarrow>
                  (let ctx1 = set_quota_store q ctx
                   in case r of
                        Inr (Allowed reservation snap _) \<Rightarrow>
                          (Done (), set_quota (quota_allowed key limits protocol reserved reservation snap) ctx1)
                      | Inr (Rejected reason snap _) \<Rightarrow>
                          (let ctx2 = set_quota (quota_rejected key limits protocol reserved reason snap) ctx1;
                               print = en_print (qe_budget env)
                           in (Done (),
                               if mode = VirtualKeyMode
                               then (if reason = Tokens
                                     then reject_with_protocol_error print protocol 429 ''tokens_rate_limit_exceeded''
                                            ''Virtual key token rate limit exceeded.'' ctx2
                                     else reject_with_protocol_error print protocol 429 ''requests_rate_limit_exceeded''
                                            ''Virtual key request rate limit exceeded.'' ctx2)
                               else reject_with_protocol_error print protocol (rlc_error_code cfg) ''rate_limit_exceeded''
                                      (rlc_error_message cfg) ctx2))
                      | Inl (Err e) \<Rightarrow> (Done (), reject_quota_backend_error env protocol (er_kind e) ctx1)
                      | Inl Panicked \<Rightarrow> (Crash, ctx1))))"

text \<open>The outer sum is the plugin's own error, for a \<open>limit_by\<close> that is none of the modes.\<close>

definition access_runtime ::
    "('s, 'q) quota_env \<Rightarrow> AiRateLimitConfig \<Rightarrow> ('s, 'q) ai_ctx \<Rightarrow> (KongError + unit ran) \<times> ('s, 'q) ai_ctx" where
  "access_runtime env cfg ctx =
     (let protocol = quota_protocol ctx; print = en_print (qe_budget env); ok = (\<lambda>(r, c). (Inr r, c))
      in case parse_rate_limit_mode (rlc_limit_by cfg) of
           None \<Rightarrow> (Inl (PluginError ''ai-rate-limit'' ''invalid limit_by''), ctx)
         | Some mode \<Rightarrow>
             (case Option.bind (ax_policy (rq_extensions ctx)) pol_config_error of
                Some e \<Rightarrow>
                  (Inr (Done ()), reject_with_protocol_error print protocol 500 ''ai_policy_chain_invalid''
                     (if pce_code e = MissingAiProxy then ''AI policy chain is missing ai-proxy''
                      else ''AI policy chain configuration is invalid'') ctx)
              | None \<Rightarrow>
                  (case quota_subject mode cfg ctx of
                     Inl (status, code, message) \<Rightarrow> (Inr (Done ()), reject_with_protocol_error print protocol status code message ctx)
                   | Inr (subject, limits, None) \<Rightarrow> ok (admit_quota env mode cfg protocol subject limits ctx)
                   | Inr (subject, limits, Some auth) \<Rightarrow>
                       ok (then_run
                         (on_budget (inspect_budget_before_quota (qe_budget env) (vp_budget_guard_required (aa_policy auth))
                            (qe_budget_runtime env) (qe_permit env) (aa_virtual_key_id auth) protocol) ctx)
                         (\<lambda>outcome c. case outcome of
                            InspectContinue \<Rightarrow> admit_quota env mode cfg protocol subject limits c
                          | InspectRejected \<Rightarrow> (Done (), c)
                          | InspectExhausted \<Rightarrow> refuse_exhausted env protocol subject limits c)))))"

definition quota_header_filter :: "('s, 'q) ai_ctx \<Rightarrow> ('s, 'q) ai_ctx" where
  "quota_header_filter ctx =
     (case quota_of ctx of
        None \<Rightarrow> ctx
      | Some request \<Rightarrow>
          (let snap = (case qr_response_snapshot request of Some s \<Rightarrow> Some s | None \<Rightarrow> qr_admission_snapshot request);
               mode = (case qr_rejection request of Some reason \<Rightarrow> RejectedHeaders reason | None \<Rightarrow> AllowedHeaders);
               ctx1 = set_quota (request\<lparr>qr_headers_emitted := snap \<noteq> None\<rparr>) ctx
           in case snap of None \<Rightarrow> ctx1 | Some s \<Rightarrow> apply_quota_headers s mode ctx1))"

section \<open>Settlement\<close>

definition settlement_operation_id :: "string \<Rightarrow> string" where
  "settlement_operation_id request_id = ''quota-settle:v1:'' @ request_id"

definition observed_total_tokens :: "('s, 'q) ai_ctx \<Rightarrow> u64 option" where
  "observed_total_tokens ctx =
     (let x = rq_extensions ctx
      in case Option.bind (bx_fact (ax_budget x)) uf_total_tokens of
           Some field \<Rightarrow> if 0 \<le> tf_value field then Some (word_of_int (tf_value field)) else None
         | None \<Rightarrow> (case bx_model (ax_budget x) of Some _ \<Rightarrow> ax_total_tokens x | None \<Rightarrow> None))"

text \<open>The command of a request is fixed once; later calls send the same one again.\<close>

definition prepare_settlement ::
    "(AiRateLimitRequestContext \<Rightarrow> QuotaCharge) \<Rightarrow> ('s, 'q) ai_ctx \<Rightarrow> SettleCommand option \<times> ('s, 'q) ai_ctx" where
  "prepare_settlement charge ctx =
     (case quota_of ctx of
        None \<Rightarrow> (None, ctx)
      | Some request \<Rightarrow>
          if qr_settlement request = NotRequired \<or> qr_settlement request = QuotaSettled then (None, ctx)
          else case qr_settlement_command request of
            Some command \<Rightarrow> (Some command, ctx)
          | None \<Rightarrow>
              (case qr_reservation request of
                 None \<Rightarrow> (None, ctx)
               | Some reservation \<Rightarrow>
                   (let command = \<lparr>sc_operation_id = settlement_operation_id (lc_request_id (rq_lifecycle ctx)),
                          sc_reservation = reservation, sc_final_charge = charge request\<rparr>
                    in (Some command, set_quota (request\<lparr>qr_settlement_command := Some command\<rparr>) ctx))))"

definition prepare_zero_settlement :: "('s, 'q) ai_ctx \<Rightarrow> SettleCommand option \<times> ('s, 'q) ai_ctx" where
  "prepare_zero_settlement = prepare_settlement (\<lambda>_. no_charge)"

definition quota_final_settlement :: "('s, 'q) ai_ctx \<Rightarrow> SettleCommand option \<times> ('s, 'q) ai_ctx" where
  "quota_final_settlement ctx =
     (let upstream_attempted = lc_upstream_attempted (rq_lifecycle ctx); actual_total = observed_total_tokens ctx
      in prepare_settlement (\<lambda>request.
           \<lparr>qc_requests = 1,
            qc_tokens = (if upstream_attempted
                         then (case actual_total of Some t \<Rightarrow> t | None \<Rightarrow> qc_tokens (qr_reserved request))
                         else 0)\<rparr>) ctx)"

definition record_settlement_result :: "SettlementResult \<Rightarrow> ('s, 'q) ai_ctx \<Rightarrow> ('s, 'q) ai_ctx" where
  "record_settlement_result result =
     with_quota (\<lambda>r. r\<lparr>qr_response_snapshot := sr_snapshot result, qr_settlement := QuotaSettled\<rparr>)"

text \<open>\<open>unsettled\<close> is what is done to the request when the store refuses.\<close>

definition send_quota_settlement ::
    "('s, 'q) quota_env \<Rightarrow> (RateLimitStoreError \<Rightarrow> ('s, 'q) ai_ctx \<Rightarrow> ('s, 'q) ai_ctx) \<Rightarrow> SettleCommand option \<times> ('s, 'q) ai_ctx \<Rightarrow>
     unit ran \<times> ('s, 'q) ai_ctx" where
  "send_quota_settlement env unsettled prepared =
     (case prepared of
        (None, ctx) \<Rightarrow> (Done (), ctx)
      | (Some command, ctx) \<Rightarrow>
          (case qe_quota env of
             None \<Rightarrow> (Fail (hook_error ''quota_backend_unsupported'' ''quota runtime is unsupported''), ctx)
           | Some (store, _) \<Rightarrow>
               (case settle_with_recovery store (quota_store_of ctx) command of
                  (r, q) \<Rightarrow>
                    (let ctx1 = set_quota_store q ctx
                     in case r of
                          Inr result \<Rightarrow> (Done (), record_settlement_result result ctx1)
                        | Inl (Err e) \<Rightarrow> (Fail (hook_error (quota_error_code (er_kind e)) (qe_show env e)), unsettled e ctx1)
                        | Inl Panicked \<Rightarrow> (Crash, ctx1)))))"

definition quota_finalize :: "('s, 'q) quota_env \<Rightarrow> ('s, 'q) ai_ctx \<Rightarrow> unit ran \<times> ('s, 'q) ai_ctx" where
  "quota_finalize env ctx =
     send_quota_settlement env (\<lambda>_. with_quota (\<lambda>r. r\<lparr>qr_settlement := QuotaRetryRequired\<rparr>)) (quota_final_settlement ctx)"

definition hide_quota :: "('s, 'q) quota_env \<Rightarrow> RateLimitStoreError \<Rightarrow> ('s, 'q) ai_ctx \<Rightarrow> ('s, 'q) ai_ctx" where
  "hide_quota env e ctx =
     (let protocol = (case quota_of ctx of Some r \<Rightarrow> qr_protocol r | None \<Rightarrow> ProtoOpenAi);
          ctx1 = clear_quota_headers (with_quota (\<lambda>r. r\<lparr>qr_settlement := QuotaRetryRequired, qr_admission_snapshot := None,
             qr_response_snapshot := None\<rparr>) ctx)
      in if rq_short_circuited ctx1 then ctx1 else reject_quota_backend_error env protocol (er_kind e) ctx1)"

definition quota_compensate :: "('s, 'q) quota_env \<Rightarrow> ('s, 'q) ai_ctx \<Rightarrow> unit ran \<times> ('s, 'q) ai_ctx" where
  "quota_compensate env ctx = send_quota_settlement env (hide_quota env) (prepare_zero_settlement ctx)"

definition AiQuotaDispatchAbortCompensator :: "('s, 'q) quota_env \<Rightarrow> ('s, 'q) ai_ext RequestDispatchAbortHandler" where
  "AiQuotaDispatchAbortCompensator env =
     \<lparr>ah_name = ''ai-quota-dispatch-abort'', ah_domain = ''ai-quota'',
      ah_compensate = (\<lambda>_ ctx. case quota_compensate env ctx of (r, c) \<Rightarrow> (hook_result r, c))\<rparr>"

definition AiRateLimitFinalizer :: "('s, 'q) quota_env \<Rightarrow> ('s, 'q) ai_ext RequestFinalizer" where
  "AiRateLimitFinalizer env =
     \<lparr>fin_name = ''ai-rate-limit-finalizer'', fin_finalize = (\<lambda>_ ctx. case quota_finalize env ctx of (r, c) \<Rightarrow> (hook_result r, c))\<rparr>"

section \<open>The older limiter\<close>

text \<open>\<open>show\<close> prints an identifier; the limiter is the store of the extensions.\<close>

definition legacy_rate_key :: "(uuid \<Rightarrow> string) \<Rightarrow> AiRateLimitConfig \<Rightarrow> ('s, 'q) ai_ctx \<Rightarrow> string" where
  "legacy_rate_key show cfg ctx =
     (let shown = (\<lambda>i. case i of Some u \<Rightarrow> show u | None \<Rightarrow> [])
      in if rlc_limit_by cfg = ''global'' then ''global''
         else if rlc_limit_by cfg = ''route'' then ''route:'' @ shown (rq_route_id ctx)
         else if rlc_limit_by cfg = ''consumer'' then ''consumer:'' @ shown (rq_consumer_id ctx)
         else ''global'')"

definition legacy_reject ::
    "(Value \<Rightarrow> string) \<Rightarrow> AiRateLimitConfig \<Rightarrow> string \<Rightarrow> u64 \<Rightarrow> u64 \<Rightarrow> 'x RequestCtx \<Rightarrow> 'x RequestCtx" where
  "legacy_reject print cfg field current limit ctx =
     ctx\<lparr>rq_short_circuited := True, rq_exit_status := Some (rlc_error_code cfg),
         rq_exit_body := Some (print (JObject [(field, JNumber (PosInt current)), (''limit'', JNumber (PosInt limit)),
           (''message'', JString (rlc_error_message cfg))]))\<rparr>"

definition legacy_tokens ::
    "('s, MemoryRateLimiter) quota_env \<Rightarrow> AiRateLimitConfig \<Rightarrow> duration \<Rightarrow> string \<Rightarrow> ('s, MemoryRateLimiter) ai_ctx \<Rightarrow> ('s, MemoryRateLimiter) ai_ctx" where
  "legacy_tokens env cfg now rate_key ctx =
     (case rlc_tpm_limit cfg of
        None \<Rightarrow> ctx
      | Some tpm_limit \<Rightarrow>
          (let estimated = compute_estimated_prompt_tokens env ctx
           in case check_and_increment (quota_store_of ctx) (rate_key @ '':tpm'') tpm_limit estimated now of
                ((allowed, current), l) \<Rightarrow>
                  (let ctx1 = set_quota_store l ctx
                   in if allowed then ai_ext_with (\<lambda>x. x\<lparr>ax_legacy := Some (rate_key, estimated)\<rparr>) ctx1
                      else legacy_reject (en_print (qe_budget env)) cfg ''current_tpm'' current tpm_limit ctx1)))"

definition access_legacy ::
    "('s, MemoryRateLimiter) quota_env \<Rightarrow> (uuid \<Rightarrow> string) \<Rightarrow> AiRateLimitConfig \<Rightarrow> duration \<Rightarrow> ('s, MemoryRateLimiter) ai_ctx \<Rightarrow> ('s, MemoryRateLimiter) ai_ctx" where
  "access_legacy env show cfg now ctx =
     (let rate_key = legacy_rate_key show cfg ctx
      in case rlc_rpm_limit cfg of
           None \<Rightarrow> legacy_tokens env cfg now rate_key ctx
         | Some rpm_limit \<Rightarrow>
             (case check_and_increment (quota_store_of ctx) (rate_key @ '':rpm'') rpm_limit 1 now of
                ((allowed, current), l) \<Rightarrow>
                  (let ctx1 = set_quota_store l ctx
                   in if allowed then legacy_tokens env cfg now rate_key ctx1
                      else legacy_reject (en_print (qe_budget env)) cfg ''current_rpm'' current rpm_limit ctx1)))"

definition legacy_log :: "AiRateLimitConfig \<Rightarrow> duration \<Rightarrow> ('s, MemoryRateLimiter) ai_ctx \<Rightarrow> ('s, MemoryRateLimiter) ai_ctx" where
  "legacy_log cfg now ctx =
     (case (ax_legacy (rq_extensions ctx), bx_model (ax_budget (rq_extensions ctx))) of
        (Some (rate_key, estimated), Some _) \<Rightarrow>
          if rlc_tpm_limit cfg = None then ctx
          else
            (let actual = (case ax_total_tokens (rq_extensions ctx) of Some t \<Rightarrow> t | None \<Rightarrow> 0);
                 key = rate_key @ '':tpm''
             in if estimated < actual then set_quota_store (increment (quota_store_of ctx) key (actual - estimated) now) ctx
                else if actual < estimated then set_quota_store (decrement (quota_store_of ctx) key (estimated - actual) now) ctx
                else ctx)
      | _ \<Rightarrow> ctx)"

section \<open>The plugin\<close>

text \<open>\<open>read_config\<close> is \<open>serde\<close>'s reading of a configuration that passed validation.\<close>

definition AiRateLimitPlugin_config ::
    "(Value \<Rightarrow> string + AiRateLimitConfig) \<Rightarrow> PluginConfig \<Rightarrow> KongError + AiRateLimitConfig" where
  "AiRateLimitPlugin_config read_config pcfg =
     (case validate_ai_rate_limit_config (pc_config pcfg) of
        Inl e \<Rightarrow> Inl (PluginError (pc_name pcfg) (verror_to_string e))
      | Inr _ \<Rightarrow>
          (case read_config (pc_config pcfg) of
             Inl e \<Rightarrow> Inl (PluginError (pc_name pcfg) (''invalid plugin config: '' @ e))
           | Inr cfg \<Rightarrow> Inr cfg))"

definition AiRateLimitPlugin_access ::
    "('s, 'q) quota_env \<Rightarrow> (Value \<Rightarrow> string + AiRateLimitConfig) \<Rightarrow> PluginConfig \<Rightarrow> ('s, 'q) ai_ctx \<Rightarrow> (KongError + unit ran) \<times> ('s, 'q) ai_ctx" where
  "AiRateLimitPlugin_access env read_config pcfg ctx =
     (case AiRateLimitPlugin_config read_config pcfg of
        Inl e \<Rightarrow> (Inl e, ctx)
      | Inr cfg \<Rightarrow> access_runtime env cfg ctx)"

end
