(* ===== verification/Quota_Laws.thy ===== *)
theory Quota_Laws
  imports Quota_Enforcement
begin

text \<open>
  What the quota of a request promises: a request goes on only with a reservation or without a limit,
  its reservation is settled by one command however often hooks run, and a refused dispatch gets back
  exactly what it had reserved.
\<close>

section \<open>Frames\<close>

lemma quota_frame [simp]:
  "rq_lifecycle (set_quota_store q ctx) = rq_lifecycle ctx" "rq_short_circuited (set_quota_store q ctx) = rq_short_circuited ctx"
  "quota_of (set_quota_store q ctx) = quota_of ctx" "quota_store_of (set_quota_store q ctx) = q"
  "rq_lifecycle (set_quota r ctx) = rq_lifecycle ctx" "rq_short_circuited (set_quota r ctx) = rq_short_circuited ctx"
  "quota_of (set_quota r ctx) = Some r" "quota_store_of (set_quota r ctx) = quota_store_of ctx"
  "rq_lifecycle (with_quota f ctx) = rq_lifecycle ctx" "rq_short_circuited (with_quota f ctx) = rq_short_circuited ctx"
  "quota_of (with_quota f ctx) = map_option f (quota_of ctx)" "quota_store_of (with_quota f ctx) = quota_store_of ctx"
  by (simp_all add: set_quota_store_def set_quota_def with_quota_def)

lemma reject_frame [simp]:
  "rq_short_circuited (reject_with_protocol_error print p s co m ctx)" "rq_lifecycle (reject_with_protocol_error print p s co m ctx) = rq_lifecycle ctx"
  "rq_extensions (reject_with_protocol_error print p s co m ctx) = rq_extensions ctx"
  by (simp_all add: reject_with_protocol_error_def)

lemma backend_frame [simp]:
  "rq_short_circuited (reject_quota_backend_error env p k ctx)" "rq_lifecycle (reject_quota_backend_error env p k ctx) = rq_lifecycle ctx"
  "rq_extensions (reject_quota_backend_error env p k ctx) = rq_extensions ctx"
  by (simp_all add: reject_quota_backend_error_def split: prod.split)

lemma upsert_frame: "rq_lifecycle (foldl (\<lambda>c h. upsert_header (fst h) (snd h) c) ctx hs) = rq_lifecycle ctx \<and>
    rq_extensions (foldl (\<lambda>c h. upsert_header (fst h) (snd h) c) ctx hs) = rq_extensions ctx"
  by (induction hs arbitrary: ctx) (simp_all add: upsert_header_def)

lemma headers_frame [simp]:
  "rq_lifecycle (clear_quota_headers ctx) = rq_lifecycle ctx" "rq_extensions (clear_quota_headers ctx) = rq_extensions ctx"
  "rq_short_circuited (clear_quota_headers ctx) = rq_short_circuited ctx"
  "rq_lifecycle (apply_quota_headers s m ctx) = rq_lifecycle ctx" "rq_extensions (apply_quota_headers s m ctx) = rq_extensions ctx"
  by (simp_all add: clear_quota_headers_def apply_quota_headers_def upsert_frame Let_def)

section \<open>Admission\<close>

lemma inspect_outcome:
  assumes "inspect_budget_before_quota env g rt pm vk p ctx = (r, ctx')"
  shows "rq_lifecycle ctx' = rq_lifecycle ctx" "r = Done InspectRejected \<Longrightarrow> rq_short_circuited ctx'"
    "bx_model (rq_extensions ctx') = bx_model (rq_extensions ctx)"
  using assms
  by (auto simp: inspect_budget_before_quota_def Let_def set_store_def ext_def reject_store_error_def
      split: if_splits sum.splits prod.splits option.splits BudgetEligibility.splits)

lemma refused_exhausted:
  "refuse_exhausted env p subject limits ctx = (Done (), ctx') \<Longrightarrow> rq_short_circuited ctx'"
  by (auto simp: refuse_exhausted_def Let_def split: if_splits option.splits prod.splits sum.splits failure.splits InspectResult.splits)

text \<open>
  What the ledger must have said of a key whose budget is guarded, before its request goes on: the runtime was there,
  a place for the call was free, and the key is eligible, or its budget is paused.
\<close>

definition budget_cleared :: "('s, 'q) quota_env \<Rightarrow> AiAuthContext \<Rightarrow> ('s, 'q) ai_ctx \<Rightarrow> bool" where
  "budget_cleared env auth ctx \<longleftrightarrow>
     qe_budget_runtime env = Inr () \<and> qe_permit env = Inr () \<and>
     fst (bs_inspect (en_store (qe_budget env)) (aa_virtual_key_id auth) (bx_store (ax_budget (rq_extensions ctx))))
       \<in> {Some (Inr Eligible), Some (Inr PausedBudget)}"

lemma inspection_clears:
  assumes "inspect_budget_before_quota env True rt pm vk p ctx = (Done InspectContinue, ctx')"
  shows "rt = Inr () \<and> pm = Inr () \<and> fst (bs_inspect (en_store env) vk (store_of ctx)) \<in> {Some (Inr Eligible), Some (Inr PausedBudget)}"
  using assms
  by (auto simp: inspect_budget_before_quota_def Let_def split: if_splits sum.splits prod.splits option.splits BudgetEligibility.splits)

text \<open>What an admission is: the command that is sent, and what the request keeps of the grant.\<close>

definition quota_granted ::
    "('s, 'q) quota_env \<Rightarrow> RateLimitSubject \<Rightarrow> QuotaLimits \<Rightarrow> ('s, 'q) ai_ctx \<Rightarrow> ('s, 'q) ai_ctx \<Rightarrow> bool" where
  "quota_granted env subject limits ctx ctx' =
     (\<exists>store ns t sn rp p. qe_quota env = Some (store, ns) \<and>
        (let tokens = (if ql_tokens limits = None then 0 else compute_estimated_prompt_tokens env ctx);
             reserved = \<lparr>qc_requests = 1, qc_tokens = tokens\<rparr>
         in admit_with_recovery store (quota_store_of ctx)
              \<lparr>ac_request_id = lc_request_id (rq_lifecycle ctx), ac_key = RateLimitKey_new ns subject, ac_window = minute_window,
               ac_limits = limits, ac_reserve = reserved\<rparr> = (Inr (Allowed t sn rp), quota_store_of ctx') \<and>
            quota_of ctx' = Some (quota_allowed (RateLimitKey_new ns subject) limits p reserved t sn)))"

lemma admit_quota_cases:
  assumes "admit_quota env mode cfg p subject limits ctx = (Done (), ctx')" "\<not> rq_short_circuited ctx'"
  shows "\<not> limited limits \<and> ctx' = ctx \<or> limited limits \<and> quota_granted env subject limits ctx ctx'"
  using assms
  by (fastforce simp: admit_quota_def quota_granted_def Let_def split: if_splits option.splits prod.splits sum.splits failure.splits AdmissionDecision.splits)

text \<open>
  C6. No request passes by its quota or its budget: one that the plugin lets go on belongs to a known subject, and
  either that subject has no limit, and the store was not called, or the store granted a reservation for one
  request and, where tokens are limited, the estimated tokens of the prompt, which the request keeps. If the subject is a virtual key whose
  policy asks for the budget guard, then the ledger was asked before and answered that the key is eligible or its budget paused: a key that is
  exhausted, unknown or refused there, or a ledger that cannot be reached, never lets a request go on.
\<close>

theorem passed_request_is_admitted:
  assumes "access_runtime env cfg ctx = (Inr (Done ()), ctx')" and "\<not> rq_short_circuited ctx'"
  shows "\<exists>mode subject limits auth. parse_rate_limit_mode (rlc_limit_by cfg) = Some mode \<and>
    quota_subject mode cfg ctx = Inr (subject, limits, auth) \<and>
    (\<not> limited limits \<and> quota_store_of ctx' = quota_store_of ctx \<and> quota_of ctx' = quota_of ctx \<or>
     limited limits \<and> quota_granted env subject limits ctx ctx') \<and>
    (\<forall>a. auth = Some a \<and> vp_budget_guard_required (aa_policy a) \<longrightarrow> budget_cleared env a ctx)"
proof -
  obtain mode where m: "parse_rate_limit_mode (rlc_limit_by cfg) = Some mode"
    using assms by (auto simp: access_runtime_def Let_def split: option.splits)
  have none: "Option.bind (ax_policy (rq_extensions ctx)) pol_config_error = None"
    using assms m by (auto simp: access_runtime_def Let_def split: option.splits)
  obtain subject limits auth where q: "quota_subject mode cfg ctx = Inr (subject, limits, auth)"
    using assms m none by (cases "quota_subject mode cfg ctx") (auto simp: access_runtime_def Let_def split: prod.splits)
  have "(\<not> limited limits \<and> quota_store_of ctx' = quota_store_of ctx \<and> quota_of ctx' = quota_of ctx \<or>
     limited limits \<and> quota_granted env subject limits ctx ctx') \<and>
    (\<forall>a. auth = Some a \<and> vp_budget_guard_required (aa_policy a) \<longrightarrow> budget_cleared env a ctx)"
  proof (cases auth)
    case None
    with assms m none q have "admit_quota env mode cfg (quota_protocol ctx) subject limits ctx = (Done (), ctx')"
      by (auto simp: access_runtime_def Let_def split: prod.splits)
    from admit_quota_cases [OF this assms(2)] show ?thesis using None by auto
  next
    case (Some a)
    let ?i = "inspect_budget_before_quota (qe_budget env) (vp_budget_guard_required (aa_policy a)) (qe_budget_runtime env) (qe_permit env)
      (aa_virtual_key_id a) (quota_protocol ctx)"
    obtain r c where i: "on_budget ?i ctx = (r, c)" by force
    from assms m none q Some i obtain outcome where o: "r = Done outcome" and
      run: "(case outcome of InspectContinue \<Rightarrow> admit_quota env mode cfg (quota_protocol ctx) subject limits c
         | InspectRejected \<Rightarrow> (Done (), c) | InspectExhausted \<Rightarrow> refuse_exhausted env (quota_protocol ctx) subject limits c) = (Done (), ctx')"
      by (auto simp: access_runtime_def Let_def then_run_def split: prod.splits ran.splits)
    obtain c0 where c0: "?i (retype (ax_budget (rq_extensions ctx)) ctx) = (Done outcome, c0)"
        "c = retype ((rq_extensions ctx)\<lparr>ax_budget := rq_extensions c0\<rparr>) c0"
      using i o by (auto simp: on_budget_def split: prod.splits)
    have f: "rq_lifecycle c = rq_lifecycle ctx" "quota_of c = quota_of ctx" "quota_store_of c = quota_store_of ctx"
      using inspect_outcome(1) [OF c0(1)] c0(2) by simp_all
    have e: "compute_estimated_prompt_tokens env c = compute_estimated_prompt_tokens env ctx"
      using inspect_outcome(3) [OF c0(1)] c0(2) by (simp add: compute_estimated_prompt_tokens_def)
    have o: "outcome = InspectContinue"
      using run assms(2) inspect_outcome(2) [OF c0(1)] c0(2) by (cases outcome) (auto dest: refused_exhausted)
    with run have "admit_quota env mode cfg (quota_protocol ctx) subject limits c = (Done (), ctx')" by simp
    from admit_quota_cases [OF this assms(2)] f e
    have "\<not> limited limits \<and> quota_store_of ctx' = quota_store_of ctx \<and> quota_of ctx' = quota_of ctx \<or>
      limited limits \<and> quota_granted env subject limits ctx ctx'" by (auto simp: quota_granted_def)
    moreover have "budget_cleared env a ctx" if "vp_budget_guard_required (aa_policy a)"
      using inspection_clears [of "qe_budget env"] c0(1) that unfolding o budget_cleared_def by fastforce
    ultimately show ?thesis using Some by auto
  qed
  with m q show ?thesis by blast
qed

section \<open>Settlement\<close>

text \<open>A store that also records the settlements it is sent.\<close>

definition logged :: "'q quota_store \<Rightarrow> ('q \<times> SettleCommand list) quota_store" where
  "logged store =
     \<lparr>qs_admit = (\<lambda>(q, l) c. case qs_admit store q c of (r, q') \<Rightarrow> (r, q', l)),
      qs_settle = (\<lambda>(q, l) c. case qs_settle store q c of (r, q') \<Rightarrow> (r, q', l @ [c])),
      qs_inspect = (\<lambda>(q, l) c. case qs_inspect store q c of (r, q') \<Rightarrow> (r, q', l))\<rparr>"

lemma logged_ops:
  "qs_admit (logged store) s c = (r, s') \<Longrightarrow> snd s' = snd s" "qs_inspect (logged store) s i = (r', s') \<Longrightarrow> snd s' = snd s"
  "qs_settle (logged store) s d = (r'', s') \<Longrightarrow> snd s' = snd s @ [d]"
  by (auto simp: logged_def split: prod.splits)

lemma logged_admission:
  assumes "admit_with_recovery (logged store) s c = (r, s')"
  shows "snd s' = snd s"
proof -
  have i: "inspect_admission (logged store) s1 c = (r1, s2) \<Longrightarrow> snd s2 = snd s1" for s1 r1 s2
    by (auto simp: inspect_admission_def split: prod.splits sum.splits InspectResult.splits dest: logged_ops(2))
  have "recover_admission (logged store) s1 c e = (r1, s2) \<Longrightarrow> snd s2 = snd s1" for s1 e r1 s2
    by (auto simp: recover_admission_def Let_def split: prod.splits sum.splits option.splits if_splits dest!: i logged_ops(1))
  then show ?thesis
    using assms by (auto simp: admit_with_recovery_def split: prod.splits sum.splits failure.splits if_splits dest: logged_ops(1))
qed

lemma logged_settlement:
  assumes "settle_with_recovery (logged store) s c = (r, s')"
  shows "set (snd s') \<subseteq> insert c (set (snd s))"
proof -
  have i: "inspect_settlement (logged store) s1 c = (r1, s2) \<Longrightarrow> snd s2 = snd s1" for s1 r1 s2
    by (auto simp: inspect_settlement_def split: prod.splits sum.splits InspectResult.splits dest: logged_ops(2))
  have q: "qs_settle (logged store) s1 c = (r1, s2) \<Longrightarrow> set (snd s2) \<subseteq> insert c (set (snd s1))" for s1 r1 s2
    by (auto dest: logged_ops(3))
  have "set (snd s2) \<subseteq> insert c (set (snd s1))" if "recover_settlement (logged store) s1 c e = (r1, s2)" for s1 e r1 s2
  proof -
    obtain ra sa where a: "inspect_settlement (logged store) s1 c = (ra, sa)" by (meson surj_pair)
    obtain rb sb where b: "qs_settle (logged store) sa c = (rb, sb)" by (meson surj_pair)
    obtain rc sc where d: "inspect_settlement (logged store) sb c = (rc, sc)" by (meson surj_pair)
    have "s2 = sa \<or> s2 = sb \<or> s2 = sc"
      using that a b d by (auto simp: recover_settlement_def Let_def split: sum.splits option.splits if_splits)
    with i [OF a] q [OF b] i [OF d] show ?thesis by auto
  qed
  note recover = this
  obtain ra sa where a: "qs_settle (logged store) s c = (ra, sa)" by (meson surj_pair)
  have "s' = sa \<or> (\<exists>e. recover_settlement (logged store) sa c e = (r, s'))"
    using assms a by (auto simp: settle_with_recovery_def split: sum.splits failure.splits if_splits)
  with q [OF a] recover show ?thesis by blast
qed

lemma access_frame:
  assumes "access_runtime env cfg ctx = (r, ctx')" "qe_quota env = Some (logged store, ns)" "quota_of ctx = None"
  shows "snd (quota_store_of ctx') = snd (quota_store_of ctx) \<and> rq_lifecycle ctx' = rq_lifecycle ctx \<and>
    (\<forall>q. quota_of ctx' = Some q \<longrightarrow> qr_settlement_command q = None)"
proof -
  let ?ok = "\<lambda>c'. snd (quota_store_of c') = snd (quota_store_of ctx) \<and> rq_lifecycle c' = rq_lifecycle ctx \<and>
    (\<forall>q. quota_of c' = Some q \<longrightarrow> qr_settlement_command q = None)"
  have admit: "?ok c'" if "admit_quota env mode cfg p subject limits c = (x, c')" "?ok c" for mode p subject limits c x c'
    using that assms(2)
    by (auto simp: admit_quota_def Let_def quota_allowed_def quota_rejected_def dest: logged_admission
        split: if_splits prod.splits sum.splits failure.splits AdmissionDecision.splits)
  have exhausted: "?ok c'" if "refuse_exhausted env p subject limits c = (x, c')" "?ok c" for p subject limits c x c'
    using that assms(2)
    by (auto simp: refuse_exhausted_def Let_def quota_snapshot_only_def dest: logged_ops(2)
        split: if_splits prod.splits sum.splits failure.splits InspectResult.splits)
  have inspect: "?ok c'" if "on_budget (inspect_budget_before_quota be g rt pm vk p) ctx = (x, c')" for be g rt pm vk p x c'
    using that assms(3) by (auto simp: on_budget_def dest: inspect_outcome(1) split: prod.splits)
  have start: "?ok ctx" using assms(3) by simp
  show ?thesis
    using assms(1) start
    by (auto simp: access_runtime_def Let_def then_run_def dest!: admit exhausted inspect
        split: option.splits sum.splits prod.splits ran.splits BudgetInspectionOutcome.splits)
qed

text \<open>
  The life of one request between the plugin and the hooks: it is admitted once, then headers,
  compensation and finalization run in any order and number, and everything else may happen in between
  (other requests use the store, the upstream is attempted, usage is observed).
\<close>

inductive quota_life ::
    "('s, 'q \<times> SettleCommand list) quota_env \<Rightarrow> ('s, 'q \<times> SettleCommand list) ai_ctx \<Rightarrow> ('s, 'q \<times> SettleCommand list) ai_ctx \<Rightarrow> bool"
  for env ctx0 where
  begins: "quota_life env ctx0 ctx0"
| accesses: "quota_life env ctx0 ctx \<Longrightarrow> quota_of ctx = None \<Longrightarrow> access_runtime env cfg ctx = (r, ctx') \<Longrightarrow> quota_life env ctx0 ctx'"
| filters: "quota_life env ctx0 ctx \<Longrightarrow> quota_life env ctx0 (quota_header_filter ctx)"
| compensates: "quota_life env ctx0 ctx \<Longrightarrow> quota_compensate env ctx = (r', ctx') \<Longrightarrow> quota_life env ctx0 ctx'"
| finalizes: "quota_life env ctx0 ctx \<Longrightarrow> quota_finalize env ctx = (r', ctx') \<Longrightarrow> quota_life env ctx0 ctx'"
| elsewhere: "quota_life env ctx0 ctx \<Longrightarrow> quota_of ctx' = quota_of ctx \<Longrightarrow> snd (quota_store_of ctx') = snd (quota_store_of ctx) \<Longrightarrow>
    lc_request_id (rq_lifecycle ctx') = lc_request_id (rq_lifecycle ctx) \<Longrightarrow> quota_life env ctx0 ctx'"

definition fair_charge :: "QuotaCharge \<Rightarrow> bool" where
  "fair_charge c = (c = no_charge \<or> qc_requests c = 1)"

definition command_ok :: "string \<Rightarrow> AiRateLimitRequestContext \<Rightarrow> SettleCommand \<Rightarrow> bool" where
  "command_ok rid q c = (qr_settlement_command q = Some c \<and> sc_operation_id c = settlement_operation_id rid \<and>
     qr_reservation q = Some (sc_reservation c) \<and> fair_charge (sc_final_charge c))"

definition life_ok :: "string \<Rightarrow> ('s, 'q \<times> SettleCommand list) ai_ctx \<Rightarrow> bool" where
  "life_ok rid ctx =
     (lc_request_id (rq_lifecycle ctx) = rid \<and>
      (case quota_of ctx of
         None \<Rightarrow> snd (quota_store_of ctx) = []
       | Some q \<Rightarrow>
           (case qr_settlement_command q of
              None \<Rightarrow> snd (quota_store_of ctx) = []
            | Some c \<Rightarrow> set (snd (quota_store_of ctx)) \<subseteq> {c} \<and> command_ok rid q c)))"

lemma life_ok_cong:
  "life_ok rid ctx \<Longrightarrow> lc_request_id (rq_lifecycle ctx') = lc_request_id (rq_lifecycle ctx) \<Longrightarrow>
   snd (quota_store_of ctx') = snd (quota_store_of ctx) \<Longrightarrow>
   rel_option (\<lambda>q q'. qr_settlement_command q' = qr_settlement_command q \<and> qr_reservation q' = qr_reservation q) (quota_of ctx) (quota_of ctx') \<Longrightarrow>
   life_ok rid ctx'"
  by (auto simp: life_ok_def command_ok_def option_rel_Some1 option_rel_Some2 split: option.splits)

lemma prepared_ok:
  assumes "prepare_settlement charge ctx = (command, ctx')" "life_ok rid ctx" "\<And>q. fair_charge (charge q)"
  shows "life_ok rid ctx' \<and> (\<forall>c. command = Some c \<longrightarrow> (\<exists>q. quota_of ctx' = Some q \<and> command_ok rid q c))"
  using assms
  by (auto simp: prepare_settlement_def life_ok_def command_ok_def Let_def split: option.splits if_splits)

lemma sent_ok:
  assumes "send_quota_settlement env unsettled (command, ctx) = (r, ctx')" "qe_quota env = Some (logged store, ns)" "life_ok rid ctx"
    and "\<And>c. command = Some c \<Longrightarrow> \<exists>q. quota_of ctx = Some q \<and> command_ok rid q c"
    and "\<And>e c. life_ok rid c \<Longrightarrow> life_ok rid (unsettled e c)"
  shows "life_ok rid ctx'"
proof (cases command)
  case None
  with assms(1,3) show ?thesis by (simp add: send_quota_settlement_def)
next
  case (Some c)
  obtain q where q: "quota_of ctx = Some q" "command_ok rid q c" using assms(4) Some by blast
  obtain x s' where x: "settle_with_recovery (logged store) (quota_store_of ctx) c = (x, s')" by (meson surj_pair)
  have "life_ok rid (set_quota_store s' ctx)"
    using logged_settlement [OF x] assms(3) q by (auto simp: life_ok_def command_ok_def)
  moreover from this have "life_ok rid (record_settlement_result res (set_quota_store s' ctx))" for res
    by (rule life_ok_cong) (use q in \<open>simp_all add: record_settlement_result_def\<close>)
  ultimately show ?thesis
    using assms(1,2,5) Some x by (auto simp: send_quota_settlement_def Let_def split: sum.splits failure.splits)
qed

lemma hide_quota_ok: "life_ok rid ctx \<Longrightarrow> life_ok rid (hide_quota env e ctx)"
  by (erule life_ok_cong) (simp_all add: hide_quota_def Let_def option.rel_map option.rel_refl)

lemma quota_life_ok:
  assumes "quota_life env ctx0 ctx" "qe_quota env = Some (logged store, ns)" "quota_of ctx0 = None" "snd (quota_store_of ctx0) = []"
  shows "life_ok (lc_request_id (rq_lifecycle ctx0)) ctx"
  using assms(1)
proof induction
  case begins
  show ?case using assms(3,4) by (simp add: life_ok_def)
next
  case (accesses ctx cfg r ctx')
  from access_frame [OF accesses(3) assms(2) accesses(2)] accesses(2,4) show ?case by (auto simp: life_ok_def split: option.splits)
next
  case (filters ctx)
  from filters(2) show ?case
    by (rule life_ok_cong) (auto simp: quota_header_filter_def Let_def option.rel_refl split: option.splits)
next
  case (compensates ctx r' ctx')
  obtain command c where p: "prepare_zero_settlement ctx = (command, c)" by (meson surj_pair)
  have "fair_charge no_charge" by (simp add: fair_charge_def)
  note ok = prepared_ok [OF p [unfolded prepare_zero_settlement_def] compensates(3) this]
  show ?case
    by (rule sent_ok [OF compensates(2) [unfolded quota_compensate_def p] assms(2)]) (use ok hide_quota_ok in auto)
next
  case (finalizes ctx r' ctx')
  obtain command c where p: "quota_final_settlement ctx = (command, c)" by (meson surj_pair)
  have ok: "life_ok (lc_request_id (rq_lifecycle ctx0)) c \<and>
      (\<forall>d. command = Some d \<longrightarrow> (\<exists>q. quota_of c = Some q \<and> command_ok (lc_request_id (rq_lifecycle ctx0)) q d))"
    by (rule prepared_ok [OF p [unfolded quota_final_settlement_def Let_def] finalizes(3)]) (simp add: fair_charge_def)
  have "life_ok rid (with_quota (\<lambda>r. r\<lparr>qr_settlement := QuotaRetryRequired\<rparr>) c)" if "life_ok rid c" for rid and c :: "('a, 'b \<times> SettleCommand list) ai_ctx"
    using that by (rule life_ok_cong) (simp_all add: option.rel_map option.rel_refl)
  then show ?case
    by (intro sent_ok [OF finalizes(2) [unfolded quota_finalize_def p] assms(2)]) (use ok in auto)
next
  case (elsewhere ctx ctx')
  show ?case by (rule life_ok_cong [OF elsewhere(5,4,3)]) (simp add: elsewhere(2) option.rel_refl)
qed

text \<open>
  C5. The reservation of a request is settled by one command: however often compensation and
  finalization run, fail and run again, and whatever happens in between, all settlements that reach the
  store are the same command, with the request's operation id and its own reservation, and it charges
  either nothing or one request. Once settled, or when there is nothing to settle, the store is left alone.
\<close>

theorem settled_by_one_command:
  assumes "quota_life env ctx0 ctx" and "qe_quota env = Some (logged store, ns)" and "quota_of ctx0 = None" and "snd (quota_store_of ctx0) = []"
  shows "(\<forall>c \<in> set (snd (quota_store_of ctx)). \<forall>d \<in> set (snd (quota_store_of ctx)). c = d) \<and>
    (\<forall>c \<in> set (snd (quota_store_of ctx)). \<exists>q. quota_of ctx = Some q \<and> qr_settlement_command q = Some c \<and>
       sc_operation_id c = settlement_operation_id (lc_request_id (rq_lifecycle ctx0)) \<and> qr_reservation q = Some (sc_reservation c) \<and>
       (sc_final_charge c = no_charge \<or> qc_requests (sc_final_charge c) = 1)) \<and>
    (\<forall>q. quota_of ctx = Some q \<longrightarrow> qr_settlement q \<in> {NotRequired, QuotaSettled} \<longrightarrow>
       quota_compensate env ctx = (Done (), ctx) \<and> quota_finalize env ctx = (Done (), ctx))"
proof -
  have ok: "life_ok (lc_request_id (rq_lifecycle ctx0)) ctx" by (rule quota_life_ok [OF assms])
  have "quota_compensate env ctx = (Done (), ctx) \<and> quota_finalize env ctx = (Done (), ctx)"
    if "quota_of ctx = Some q" "qr_settlement q \<in> {NotRequired, QuotaSettled}" for q
    using that by (auto simp: quota_compensate_def quota_finalize_def prepare_zero_settlement_def quota_final_settlement_def Let_def
        prepare_settlement_def send_quota_settlement_def)
  moreover have "\<exists>q. quota_of ctx = Some q \<and> command_ok (lc_request_id (rq_lifecycle ctx0)) q c \<and> set (snd (quota_store_of ctx)) \<subseteq> {c}"
    if "c \<in> set (snd (quota_store_of ctx))" for c
    using ok that by (auto simp: life_ok_def split: option.splits)
  ultimately show ?thesis unfolding command_ok_def fair_charge_def by (intro conjI) (blast, metis, blast)
qed

section \<open>Refunds\<close>

text \<open>
  C11. A refused dispatch costs no quota: compensation in the window of the admission takes from each
  limited count exactly what the request had reserved, without underflow, marks the request as settled, shows
  the client the counts after the refund, and leaves nothing for the finalizer to do.
\<close>

theorem refused_dispatch_is_refunded:
  assumes "reachable s" and "qe_quota env = Some (memory_store clock ids fate, ns)" and "quota_store_of ctx = (s, n)" and "fate n = Answered"
    and "quota_of ctx = Some q" and "qr_settlement q = SettlementPending" and "qr_settlement_command q = None" and "qr_reservation q = Some t"
    and "lookup_record s (re_key t) (re_request_id t) = Some r" and "ar_decision r = Allowed t sn rp" and "live r"
    and "window_of s (re_key t) = Some w" and "w_identity w = re_window t" and "now_mono (clock n) < w_reset_mono w"
    and "validate_key (re_key t) = None" and "now_mono (clock n) + settlement_retry_grace (config s) \<le> DURATION_MAX"
  shows "\<exists>ctx' s' w' q'. quota_compensate env ctx = (Done (), ctx') \<and> quota_store_of ctx' = (s', Suc n) \<and>
    window_of s' (re_key t) = Some w' \<and> w_identity w' = w_identity w \<and>
    unat (w_requests_used w') = unat (w_requests_used w) -
      (if ql_requests (re_limits_at_admission t) = None then 0 else unat (qc_requests (re_reserved t))) \<and>
    unat (w_tokens_used w') = unat (w_tokens_used w) -
      (if ql_tokens (re_limits_at_admission t) = None then 0 else unat (qc_tokens (re_reserved t))) \<and>
    quota_of ctx' = Some q' \<and> qr_settlement q' = QuotaSettled \<and>
    qr_response_snapshot q' = Some (snapshot w' (re_limits_at_admission t) (clock n)) \<and>
    quota_finalize env ctx' = (Done (), ctx')"
proof -
  let ?c = "\<lparr>sc_operation_id = settlement_operation_id (lc_request_id (rq_lifecycle ctx)), sc_reservation = t, sc_final_charge = no_charge\<rparr>"
  have fits: "unat a - unat b + unat (0 :: u64) < 2 ^ 64" for a b :: u64 using unsigned_less [of a, where 'a = nat] by simp
  obtain s' w' where set: "settle s ?c (clock n) =
       (Inr \<lparr>sr_disposition = Applied, sr_snapshot = Some (snapshot w' (re_limits_at_admission t) (clock n))\<rparr>, s')"
     and w': "window_of s' (re_key t) = Some w'" "w_identity w' = w_identity w"
     "unat (w_requests_used w') = (if ql_requests (re_limits_at_admission t) = None then unat (w_requests_used w)
        else unat (w_requests_used w) - unat (qc_requests (re_reserved t)) + unat (qc_requests (sc_final_charge ?c)))"
     "unat (w_tokens_used w') = (if ql_tokens (re_limits_at_admission t) = None then unat (w_tokens_used w)
        else unat (w_tokens_used w) - unat (qc_tokens (re_reserved t)) + unat (qc_tokens (sc_final_charge ?c)))"
    using settle_open_window [OF assms(1,9-14) _ _ assms(15,16), of ?c] fits
    by (force simp: settlement_operation_id_def no_charge_def)
  let ?q = "q\<lparr>qr_settlement_command := Some ?c\<rparr>"
  let ?res = "\<lparr>sr_disposition = Applied, sr_snapshot = Some (snapshot w' (re_limits_at_admission t) (clock n))\<rparr>"
  let ?ctx = "record_settlement_result ?res (set_quota_store (s', Suc n) (set_quota ?q ctx))"
  have p: "prepare_zero_settlement ctx = (Some ?c, set_quota ?q ctx)"
    using assms(5-8) by (simp add: prepare_zero_settlement_def prepare_settlement_def Let_def)
  have "settle_with_recovery (memory_store clock ids fate) (s, n) ?c = (Inr ?res, s', Suc n)"
    using set assms(4) by (simp add: settle_with_recovery_def memory_store_def deliver_def)
  then have "quota_compensate env ctx = (Done (), ?ctx)"
    using p assms(2,3) by (simp add: quota_compensate_def send_quota_settlement_def Let_def)
  moreover have q': "quota_of ?ctx = Some (?q\<lparr>qr_response_snapshot := sr_snapshot ?res, qr_settlement := QuotaSettled\<rparr>)"
    "quota_store_of ?ctx = (s', Suc n)" by (simp_all add: record_settlement_result_def)
  moreover have "quota_finalize env ?ctx = (Done (), ?ctx)"
    unfolding quota_finalize_def quota_final_settlement_def Let_def prepare_settlement_def q'(1) by (simp add: send_quota_settlement_def)
  moreover have "qc_requests (sc_final_charge ?c) = 0" "qc_tokens (sc_final_charge ?c) = 0" by (simp_all add: no_charge_def)
  ultimately show ?thesis using w' by (intro exI [of _ ?ctx] exI [of _ s'] exI [of _ w']) simp
qed

section \<open>Witnesses\<close>

definition ex_quota_env :: "'q quota_store \<Rightarrow> 's budget_env \<Rightarrow> ('s, 'q) quota_env" where
  "ex_quota_env store be = \<lparr>qe_quota = Some (store, ''ns''), qe_budget = be, qe_budget_runtime = Inr (), qe_permit = Inr (),
     qe_registry = None, qe_from_str = (\<lambda>_. None), qe_show = (\<lambda>_. [])\<rparr>"

definition ex_rate_config :: AiRateLimitConfig where
  "ex_rate_config = rate_limit_config_default\<lparr>rlc_limit_by := ''global'', rlc_rpm_limit := Some 2, rlc_tpm_limit := Some 100\<rparr>"

text \<open>A body of 240 bytes, so an estimate of 60 tokens.\<close>

definition ex_quota_ctx :: "'q \<Rightarrow> (unit, 'q) ai_ctx" where
  "ex_quota_ctx q = ai_ext_with (\<lambda>x. x\<lparr>ax_request_body := Some (replicate 240 (CHR ''a''))\<rparr>) (ex_ai_ctx ex_budget_registry () q)"

abbreviation ex_memory :: "(Store \<times> nat) quota_store" where
  "ex_memory \<equiv> memory_store (\<lambda>n. ex_now (10 + 10 * n)) (\<lambda>_. ex_ids) (\<lambda>_. Answered)"

definition ex_granted :: "AiRateLimitRequestContext" where
  "ex_granted = quota_allowed ex_key \<lparr>ql_requests = Some 2, ql_tokens = Some 100\<rparr> ProtoOpenAi \<lparr>qc_requests = 1, qc_tokens = 60\<rparr> ex_token ex_snapshot"

lemma ex_quota_ctx_simps [simp]:
  "quota_of (ex_quota_ctx q) = None" "quota_store_of (ex_quota_ctx q) = q" "lc_request_id (rq_lifecycle (ex_quota_ctx q)) = ''r1''"
  "\<not> rq_short_circuited (ex_quota_ctx q)"
  by (simp_all add: ex_quota_ctx_def ex_ai_ctx_def request_ctx_new_def lifecycle_new_def)

lemma ex_access:
  "access_runtime (ex_quota_env ex_memory be) ex_rate_config (ex_quota_ctx (ex_store, 0)) =
   (Inr (Done ()), set_quota ex_granted (set_quota_store (ex_store1, 1) (ex_quota_ctx (ex_store, 0))))"
proof -
  have c: "\<lparr>ac_request_id = ''r1'', ac_key = RateLimitKey_new ''ns'' Global, ac_window = minute_window,
      ac_limits = \<lparr>ql_requests = Some 2, ql_tokens = Some 100\<rparr>, ac_reserve = \<lparr>qc_requests = 1, qc_tokens = 60\<rparr>\<rparr> = ex_admit ''r1'' 60"
    by (simp add: ex_admit_def ex_key_def minute_window_def)
  have a: "admit_with_recovery ex_memory (ex_store, 0) (ex_admit ''r1'' 60) = (Inr (Allowed ex_token ex_snapshot False), ex_store1, 1)"
    using ex_admitted by (simp add: admit_with_recovery_def memory_store_def deliver_def)
  have e: "compute_estimated_prompt_tokens (ex_quota_env ex_memory be) (ex_quota_ctx (ex_store, 0)) = 60"
    by (simp add: compute_estimated_prompt_tokens_def ex_quota_ctx_def ex_ai_ctx_def ex_quota_env_def count_estimate_def request_ctx_new_def Let_def)
  have qq: "qe_quota (ex_quota_env ex_memory be) = Some (ex_memory, ''ns'')" by (simp add: ex_quota_env_def)
  have l: "config_limits ex_rate_config = \<lparr>ql_requests = Some 2, ql_tokens = Some 100\<rparr>"
    by (simp add: config_limits_def ex_rate_config_def non_zero_def)
  have p: "quota_protocol (ex_quota_ctx (ex_store, 0)) = ProtoOpenAi" "ax_policy (rq_extensions (ex_quota_ctx (ex_store, 0))) = None"
    by (simp_all add: quota_protocol_def ex_quota_ctx_def ex_ai_ctx_def request_ctx_new_def)
  have "admit_quota (ex_quota_env ex_memory be) GlobalMode ex_rate_config ProtoOpenAi Global \<lparr>ql_requests = Some 2, ql_tokens = Some 100\<rparr>
      (ex_quota_ctx (ex_store, 0)) = (Done (), set_quota ex_granted (set_quota_store (ex_store1, 1) (ex_quota_ctx (ex_store, 0))))"
    using a by (simp add: admit_quota_def limited_def e c qq Let_def ex_granted_def ex_key_def)
  then show ?thesis
    by (simp add: access_runtime_def p quota_subject_def l parse_rate_limit_mode_def Let_def) (simp add: ex_rate_config_def)
qed

theorem passed_request_is_admitted_witness:
  "\<forall>be. \<exists>subject limits. quota_granted (ex_quota_env ex_memory be) subject limits (ex_quota_ctx (ex_store, 0))
     (set_quota ex_granted (set_quota_store (ex_store1, 1) (ex_quota_ctx (ex_store, 0))))"
proof
  fix be :: "unit budget_env"
  have "\<not> rq_short_circuited (set_quota ex_granted (set_quota_store (ex_store1, 1) (ex_quota_ctx (ex_store, 0))))" by simp
  from passed_request_is_admitted [OF ex_access this, of be]
  show "\<exists>subject limits. quota_granted (ex_quota_env ex_memory be) subject limits (ex_quota_ctx (ex_store, 0))
     (set_quota ex_granted (set_quota_store (ex_store1, 1) (ex_quota_ctx (ex_store, 0))))" by auto
qed

theorem settled_by_one_command_witness:
  "\<forall>be cfg. let env = ex_quota_env (logged ex_memory) be;
       ctx = snd (quota_finalize env (snd (quota_compensate env (snd (access_runtime env cfg (ex_quota_ctx ((ex_store, 0), [])))))))
     in list_all (\<lambda>c. list_all (\<lambda>d. c = d) (snd (quota_store_of ctx))) (snd (quota_store_of ctx))"
proof (intro allI)
  fix be :: "unit budget_env" and cfg
  let ?env = "ex_quota_env (logged ex_memory) be" and ?c0 = "ex_quota_ctx ((ex_store, 0), [])"
  let ?c1 = "snd (access_runtime ?env cfg ?c0)"
  let ?c2 = "snd (quota_compensate ?env ?c1)"
  let ?c3 = "snd (quota_finalize ?env ?c2)"
  have "quota_life ?env ?c0 ?c1" by (rule accesses [OF begins]) (simp, rule prod.collapse [symmetric])
  then have "quota_life ?env ?c0 ?c2" by (rule compensates) (rule prod.collapse [symmetric])
  then have "quota_life ?env ?c0 ?c3" by (rule finalizes) (rule prod.collapse [symmetric])
  from settled_by_one_command [OF this, of ex_memory "''ns''"]
  show "let env = ?env; ctx = snd (quota_finalize env (snd (quota_compensate env (snd (access_runtime env cfg ?c0)))))
     in list_all (\<lambda>c. list_all (\<lambda>d. c = d) (snd (quota_store_of ctx))) (snd (quota_store_of ctx))"
    by (simp add: list_all_iff Let_def ex_quota_env_def)
qed

theorem refused_dispatch_is_refunded_witness:
  "\<forall>be. \<exists>ctx' s' w'. quota_compensate (ex_quota_env ex_memory be) (set_quota ex_granted (set_quota_store (ex_store1, 1) (ex_quota_ctx (ex_store, 0)))) =
       (Done (), ctx') \<and> quota_store_of ctx' = (s', 2) \<and> window_of s' ex_key = Some w' \<and> unat (w_requests_used w') = 0 \<and> unat (w_tokens_used w') = 0"
proof
  fix be :: "unit budget_env"
  let ?ctx = "set_quota ex_granted (set_quota_store (ex_store1, 1) (ex_quota_ctx (ex_store, 0)))"
  have t: "re_key ex_token = ex_key" "re_request_id ex_token = ''r1''" by (simp_all add: ex_token_def)
  have d: "ar_decision ex_record = Allowed ex_token ex_snapshot False" by (simp add: ex_record_def)
  have k: "validate_key ex_key = None" by (simp add: ex_key_def RateLimitKey_new_def validate_key_def RATE_LIMIT_SCHEMA_VERSION_def)
  have q: "qe_quota (ex_quota_env ex_memory be) = Some (ex_memory, ''ns'')" by (simp add: ex_quota_env_def)
  have g: "qr_settlement ex_granted = SettlementPending" "qr_settlement_command ex_granted = None" "qr_reservation ex_granted = Some ex_token"
    by (simp_all add: ex_granted_def quota_allowed_def)
  from refused_dispatch_is_refunded [of ex_store1 _ _ _ _ _ ?ctx 1 ex_granted ex_token, unfolded t,
      OF ex_reachable(2) q _ _ _ g ex_lookup(1) d ex_live ex_lookup(2) _ _ k]
  show "\<exists>ctx' s' w'. quota_compensate (ex_quota_env ex_memory be) ?ctx =
       (Done (), ctx') \<and> quota_store_of ctx' = (s', 2) \<and> window_of s' ex_key = Some w' \<and> unat (w_requests_used w') = 0 \<and> unat (w_tokens_used w') = 0"
    using ex_clock by (fastforce simp: ex_window_def ex_token_def ex_now_def)
qed

end
