(* ===== verification/Config_Listen.thy ===== *)
theory Config_Listen
  imports Kong_Text
begin

text \<open>
  Listen directives, from \<open>kong-config/src/listen.rs\<close>: the address with its modifiers, reading it from
  text, printing it, and the comma separated list of them. Reading slices the text at positions it has
  searched for; one such slice has its ends the wrong way round when the text starts with a closing
  bracket, which stops the program. So a reader returns an option: \<open>None\<close> stands for the panic, and
  inside it a sum for the \<open>Result\<close> of the source. The laws: a directive that was read prints to one that is
  read as the same address, up to the three modifiers the printer leaves out; and a list of
  directives is read as the list of what its parts are read as.
\<close>

record listen_addr =
  la_address :: string
  la_ssl :: bool
  la_http2 :: bool
  la_reuseport :: bool
  la_proxy_protocol :: bool
  la_backlog :: "nat option"
  la_deferred :: bool
  la_rcvbuf :: "nat option"
  la_sndbuf :: "nat option"
  la_bind :: bool
  la_ip :: string
  la_port :: nat

definition default_listen_addr :: listen_addr where
  "default_listen_addr = \<lparr>la_address = ''0.0.0.0:8000'', la_ssl = False, la_http2 = False,
     la_reuseport = False, la_proxy_protocol = False, la_backlog = None, la_deferred = False,
     la_rcvbuf = None, la_sndbuf = None, la_bind = False, la_ip = ''0.0.0.0'', la_port = 8000\<rparr>"

datatype listen_error =
    ListenerDisabled
  | EmptyListenAddress
  | InvalidPort
  | InvalidAddress
  | InvalidBacklog
  | InvalidRcvbuf
  | InvalidSndbuf

type_synonym 'a listen_parsed = "(listen_error + 'a) option"

abbreviation u16_max :: nat where
  "u16_max \<equiv> 65535"

abbreviation u32_max :: nat where
  "u32_max \<equiv> 4294967295"

section \<open>Reading\<close>

definition number_or :: "listen_error \<Rightarrow> nat \<Rightarrow> string \<Rightarrow> listen_error + nat" where
  "number_or e m s = (case parse_unsigned m s of None \<Rightarrow> Inl e | Some n \<Rightarrow> Inr n)"

text \<open>The address and the port of the first word.\<close>

definition parse_ip_port :: "string \<Rightarrow> (string \<times> nat) listen_parsed" where
  "parse_ip_port a =
     (if starts_with a ''unix:'' then Some (Inr (a, 0))
      else case find_sub '']'' a of
        Some b \<Rightarrow>
          if b = 0 then None
          else let ip = drop 1 (take b a) in
            if b + 2 < length a
            then Some (map_sum id (Pair ip) (number_or InvalidPort u16_max (drop (b + 2) a)))
            else Some (Inr (ip, la_port default_listen_addr))
      | None \<Rightarrow>
          (case rfind_char (CHR '':'') a of
             Some c \<Rightarrow> Some (map_sum id (Pair (take c a)) (number_or InvalidPort u16_max (drop (c + 1) a)))
           | None \<Rightarrow> Some (map_sum id (Pair ''0.0.0.0'') (number_or InvalidAddress u16_max a))))"

definition format_address :: "string \<Rightarrow> nat \<Rightarrow> string" where
  "format_address ip port = ip @ '':'' @ nat_to_string port"

text \<open>One modifier; an unknown one is only logged.\<close>

definition apply_modifier :: "string \<Rightarrow> listen_addr \<Rightarrow> listen_error + listen_addr" where
  "apply_modifier w l =
     (if w = ''ssl'' then Inr (l\<lparr>la_ssl := True\<rparr>)
      else if w = ''http2'' then Inr (l\<lparr>la_http2 := True\<rparr>)
      else if w = ''reuseport'' then Inr (l\<lparr>la_reuseport := True\<rparr>)
      else if w = ''proxy_protocol'' then Inr (l\<lparr>la_proxy_protocol := True\<rparr>)
      else if w = ''deferred'' then Inr (l\<lparr>la_deferred := True\<rparr>)
      else if w = ''bind'' then Inr (l\<lparr>la_bind := True\<rparr>)
      else if starts_with w ''backlog=''
        then map_sum id (\<lambda>n. l\<lparr>la_backlog := Some n\<rparr>) (number_or InvalidBacklog u32_max (drop 8 w))
      else if starts_with w ''rcvbuf=''
        then map_sum id (\<lambda>n. l\<lparr>la_rcvbuf := Some n\<rparr>) (number_or InvalidRcvbuf u32_max (drop 7 w))
      else if starts_with w ''sndbuf=''
        then map_sum id (\<lambda>n. l\<lparr>la_sndbuf := Some n\<rparr>) (number_or InvalidSndbuf u32_max (drop 7 w))
      else Inr l)"

fun apply_modifiers :: "string list \<Rightarrow> listen_addr \<Rightarrow> listen_error + listen_addr" where
  "apply_modifiers [] l = Inr l"
| "apply_modifiers (w # ws) l =
     (case apply_modifier w l of Inl e \<Rightarrow> Inl e | Inr l' \<Rightarrow> apply_modifiers ws l')"

definition listen_at :: "string \<Rightarrow> nat \<Rightarrow> listen_addr" where
  "listen_at ip port =
     default_listen_addr\<lparr>la_address := format_address ip port, la_ip := ip, la_port := port\<rparr>"

definition listen_from_str :: "string \<Rightarrow> listen_addr listen_parsed" where
  "listen_from_str t =
     (let s = trim t in
      if s = ''off'' then Some (Inl ListenerDisabled)
      else case split_whitespace s of
        [] \<Rightarrow> Some (Inl EmptyListenAddress)
      | a # mods \<Rightarrow>
          (case parse_ip_port a of
             None \<Rightarrow> None
           | Some (Inl e) \<Rightarrow> Some (Inl e)
           | Some (Inr (ip, port)) \<Rightarrow> Some (apply_modifiers mods (listen_at ip port))))"

text \<open>The list of directives stops at the first one that is refused.\<close>

fun parse_listen_parts :: "string list \<Rightarrow> listen_addr list listen_parsed" where
  "parse_listen_parts [] = Some (Inr [])"
| "parse_listen_parts (p # ps) =
     (let q = trim p in
      if q = [] then parse_listen_parts ps
      else case listen_from_str q of
        None \<Rightarrow> None
      | Some (Inl e) \<Rightarrow> Some (Inl e)
      | Some (Inr l) \<Rightarrow> map_option (map_sum id (Cons l)) (parse_listen_parts ps))"

definition parse_listen_addresses :: "string \<Rightarrow> listen_addr list listen_parsed" where
  "parse_listen_addresses t =
     (let s = trim t in
      if s = ''off'' \<or> s = [] then Some (Inr [])
      else parse_listen_parts (split_char (CHR '','') s))"

section \<open>Printing\<close>

definition flag_word :: "bool \<Rightarrow> string \<Rightarrow> string" where
  "flag_word b w = (if b then '' '' @ w else [])"

definition display_listen :: "listen_addr \<Rightarrow> string" where
  "display_listen l =
     la_address l @ flag_word (la_ssl l) ''ssl'' @ flag_word (la_http2 l) ''http2'' @
     flag_word (la_reuseport l) ''reuseport'' @ flag_word (la_proxy_protocol l) ''proxy_protocol'' @
     flag_word (la_deferred l) ''deferred'' @
     (case la_backlog l of None \<Rightarrow> [] | Some n \<Rightarrow> '' backlog='' @ nat_to_string n)"

section \<open>The printed words\<close>

definition option_words :: "listen_addr \<Rightarrow> string list" where
  "option_words l =
     (if la_ssl l then [''ssl''] else []) @ (if la_http2 l then [''http2''] else []) @
     (if la_reuseport l then [''reuseport''] else []) @
     (if la_proxy_protocol l then [''proxy_protocol''] else []) @
     (if la_deferred l then [''deferred''] else []) @
     (case la_backlog l of None \<Rightarrow> [] | Some n \<Rightarrow> [''backlog='' @ nat_to_string n])"

lemma join_prefix_words: "join '' '' (w # ws) = w @ concat (map (\<lambda>v. '' '' @ v) ws)"
  by (induction ws arbitrary: w) auto

lemma display_words: "display_listen l = join '' '' (la_address l # option_words l)"
  unfolding join_prefix_words by (simp add: display_listen_def option_words_def flag_word_def split: option.splits)

lemma space_free_words:
  "w \<in> set (option_words l) \<Longrightarrow> w \<noteq> [] \<and> (\<forall>c \<in> set w. \<not> is_space c)"
  by (auto simp: option_words_def is_space_def number_not_space [unfolded is_space_def]
      split: if_splits option.splits dest: number_not_space)

text \<open>What the printer writes: the other three modifiers are lost.\<close>

definition printed_part :: "listen_addr \<Rightarrow> listen_addr" where
  "printed_part l = l\<lparr>la_rcvbuf := None, la_sndbuf := None, la_bind := False\<rparr>"

lemma modifiers_append:
  "apply_modifiers (us @ ws) l = (case apply_modifiers us l of Inl e \<Rightarrow> Inl e | Inr l' \<Rightarrow> apply_modifiers ws l')"
  by (induction us arbitrary: l) (auto split: sum.splits)

lemma backlog_modifier:
  "n \<le> u32_max \<Longrightarrow> apply_modifier (''backlog='' @ nat_to_string n) l = Inr (l\<lparr>la_backlog := Some n\<rparr>)"
  by (simp add: apply_modifier_def starts_with_def number_or_def parse_print)

lemma flag_modifiers:
  "apply_modifier ''ssl'' l = Inr (l\<lparr>la_ssl := True\<rparr>)"
  "apply_modifier ''http2'' l = Inr (l\<lparr>la_http2 := True\<rparr>)"
  "apply_modifier ''reuseport'' l = Inr (l\<lparr>la_reuseport := True\<rparr>)"
  "apply_modifier ''proxy_protocol'' l = Inr (l\<lparr>la_proxy_protocol := True\<rparr>)"
  "apply_modifier ''deferred'' l = Inr (l\<lparr>la_deferred := True\<rparr>)"
  by (simp_all add: apply_modifier_def)

text \<open>The invariant of an address that was read.\<close>

definition read_address :: "listen_addr \<Rightarrow> bool" where
  "read_address l \<longleftrightarrow> la_address l = format_address (la_ip l) (la_port l) \<and> la_port l \<le> u16_max \<and>
     (\<forall>c \<in> set (la_ip l). \<not> is_space c) \<and>
     (\<forall>n. la_backlog l = Some n \<longrightarrow> n \<le> u32_max)"

lemma read_back_options:
  assumes "read_address l"
  shows "apply_modifiers (option_words l) (listen_at (la_ip l) (la_port l)) = Inr (printed_part l)"
  using assms
  by (cases l) (auto simp: option_words_def modifiers_append flag_modifiers
      backlog_modifier [unfolded append_Cons append_Nil] listen_at_def
      default_listen_addr_def printed_part_def read_address_def split: option.splits)

section \<open>What is read\<close>

lemma listen_cases:
  assumes "listen_from_str t = Some (Inr l)"
  obtains a mods ip port where "split_whitespace (trim t) = a # mods" "parse_ip_port a = Some (Inr (ip, port))"
    "apply_modifiers mods (listen_at ip port) = Inr l"
  using assms unfolding listen_from_str_def Let_def by (auto split: if_splits list.splits option.splits sum.splits)

lemma number_or_Inr: "number_or e m s = Inr n \<longleftrightarrow> parse_unsigned m s = Some n"
  by (simp add: number_or_def split: option.splits)

lemma map_sum_Inr: "map_sum f g x = Inr y \<longleftrightarrow> (\<exists>z. x = Inr z \<and> y = g z)"
  by (cases x) auto

lemma parse_unsigned_bound: "parse_unsigned m s = Some n \<Longrightarrow> n \<le> m"
  by (auto simp: parse_unsigned_def Let_def split: prod.splits if_splits option.splits)

lemma parsed_port: "parse_ip_port a = Some (Inr (ip, port)) \<Longrightarrow> port \<le> u16_max"
  by (auto simp: parse_ip_port_def Let_def map_sum_Inr number_or_Inr default_listen_addr_def
      dest: parse_unsigned_bound split: if_splits option.splits)

lemma parsed_ip: "parse_ip_port a = Some (Inr (ip, port)) \<Longrightarrow> set ip \<subseteq> set a \<union> set ''0.0.0.0''"
  by (auto simp: parse_ip_port_def Let_def map_sum_Inr split: if_splits option.splits
      dest!: in_set_takeD in_set_dropD)

lemma ip_without_bracket:
  assumes "parse_ip_port a = Some (Inr (ip, port))" "\<not> starts_with a ''unix:''"
  shows "CHR '']'' \<notin> set ip"
proof (cases "find_sub '']'' a")
  case None
  then have "CHR '']'' \<notin> set a" by (simp add: find_sub_single_None)
  then show ?thesis using parsed_ip [OF assms(1)] by auto
next
  case (Some b)
  have "CHR '']'' \<notin> set (take b a)"
  proof
    assume "CHR '']'' \<in> set (take b a)"
    then obtain m where m: "m < b" "m < length a" "a ! m = CHR '']''" by (auto simp: in_set_conv_nth)
    then have "prefix '']'' (drop m a)" using Cons_nth_drop_Suc [of m a] by (metis Cons_prefix_Cons Nil_prefix)
    with find_sub_least [OF Some m(1)] show False by simp
  qed
  then show ?thesis using assms Some
    by (auto simp: parse_ip_port_def Let_def map_sum_Inr split: if_splits dest: in_set_dropD)
qed

lemma split_whitespace_no_space: "w \<in> set (split_whitespace s) \<Longrightarrow> c \<in> set w \<Longrightarrow> \<not> is_space c"
proof (induction s arbitrary: w)
  case (Cons x xs)
  note IH = Cons.IH
  show ?case
  proof (cases "is_space x")
    case True
    then show ?thesis using Cons.prems IH by simp
  next
    case False
    then show ?thesis using Cons.prems IH
      by (cases xs; cases "split_whitespace xs") (fastforce simp del: split_whitespace.simps(2) simp: split_whitespace.simps(2) [of x] split: if_splits)+
  qed
qed simp

text \<open>A modifier leaves the address alone, and a backlog that was read fits.\<close>

lemma modifier_keeps:
  assumes "apply_modifier w l = Inr l'" "read_address l"
  shows "read_address l' \<and> la_ip l' = la_ip l \<and> la_port l' = la_port l"
  using assms
  by (auto simp: apply_modifier_def read_address_def map_sum_Inr number_or_Inr dest: parse_unsigned_bound split: if_splits)

lemma modifiers_keep:
  assumes "apply_modifiers ws l = Inr l'" "read_address l"
  shows "read_address l' \<and> la_ip l' = la_ip l \<and> la_port l' = la_port l"
  using assms by (induction ws arbitrary: l) (auto split: sum.splits dest!: modifier_keeps)

lemma modifiers_ip: "apply_modifiers ws l = Inr l' \<Longrightarrow> la_ip l' = la_ip l"
proof (induction ws arbitrary: l)
  case (Cons w ws)
  then obtain k where k: "apply_modifier w l = Inr k" "apply_modifiers ws k = Inr l'" by (auto split: sum.splits)
  then have "la_ip k = la_ip l" by (auto simp: apply_modifier_def map_sum_Inr split: if_splits)
  then show ?case using Cons.IH [OF k(2)] by simp
qed simp

lemma read_address_of_str:
  assumes "listen_from_str t = Some (Inr l)"
  shows "read_address l"
proof -
  obtain a mods ip port where w: "split_whitespace (trim t) = a # mods"
    and p: "parse_ip_port a = Some (Inr (ip, port))" and m: "apply_modifiers mods (listen_at ip port) = Inr l"
    using assms by (rule listen_cases)
  have "\<forall>c \<in> set a. \<not> is_space c" using w split_whitespace_no_space [of a "trim t"] by auto
  then have "\<forall>c \<in> set ip. \<not> is_space c" using parsed_ip [OF p] by (auto simp: is_space_def)
  then have "read_address (listen_at ip port)"
    using parsed_port [OF p] by (simp add: read_address_def listen_at_def default_listen_addr_def)
  then show ?thesis using modifiers_keep [OF m] by simp
qed

section \<open>What is printed is read back\<close>

lemma number_no_char: "\<not> is_digit c \<Longrightarrow> c \<notin> set (nat_to_string n)"
  using digits_nat_to_string [of n] by auto

lemma parse_printed_address:
  assumes "CHR '']'' \<notin> set ip" "port \<le> u16_max" "\<not> starts_with (format_address ip port) ''unix:''"
  shows "parse_ip_port (format_address ip port) = Some (Inr (ip, port))"
proof -
  have "find_sub '']'' (format_address ip port) = None"
    using assms(1) number_no_char [OF not_digit(4)] by (simp add: find_sub_single_None format_address_def)
  moreover have "rfind_char (CHR '':'') (format_address ip port) = Some (length ip)"
    using rfind_char_last [OF number_no_char [OF not_digit(2)], of ip port] by (simp add: format_address_def)
  ultimately show ?thesis using assms
    by (simp add: parse_ip_port_def number_or_def parse_print format_address_def)
qed

lemma format_address_word:
  assumes "\<forall>c \<in> set ip. \<not> is_space c"
  shows "format_address ip port \<noteq> [] \<and> (\<forall>c \<in> set (format_address ip port). \<not> is_space c)"
  using assms by (auto simp: format_address_def dest: number_not_space) (simp add: is_space_def)

lemma trim_words:
  assumes "\<forall>w \<in> set ws. w \<noteq> [] \<and> (\<forall>c \<in> set w. \<not> is_space c)"
  shows "trim (join '' '' ws) = join '' '' ws"
proof (cases ws)
  case (Cons v vs)
  have "\<not> is_space (hd (join '' '' ws))" using assms unfolding Cons join_prefix_words by (cases v) auto
  moreover have "\<not> is_space (last (join '' '' ws))"
    using assms unfolding Cons join_prefix_words
    by (cases vs rule: rev_cases) auto
  ultimately show ?thesis by (simp add: trim_idle)
qed (simp add: trim_def)

lemma display_trim:
  assumes "read_address l"
  shows "trim (display_listen l) = display_listen l"
    and "split_whitespace (display_listen l) = la_address l # option_words l"
    and "display_listen l \<noteq> ''off'' \<and> display_listen l \<noteq> []"
proof -
  have w: "\<forall>w \<in> set (la_address l # option_words l). w \<noteq> [] \<and> (\<forall>c \<in> set w. \<not> is_space c)"
    using assms format_address_word [of "la_ip l" "la_port l"] space_free_words by (auto simp: read_address_def)
  show "trim (display_listen l) = display_listen l" unfolding display_words by (rule trim_words [OF w])
  show "split_whitespace (display_listen l) = la_address l # option_words l"
    unfolding display_words by (rule split_whitespace_join [OF w])
  have "CHR '':'' \<in> set (display_listen l)"
    using assms by (simp add: display_listen_def read_address_def format_address_def)
  then show "display_listen l \<noteq> ''off'' \<and> display_listen l \<noteq> []" by auto
qed

lemma display_read_back:
  assumes "read_address l" "CHR '']'' \<notin> set (la_ip l)" "\<not> starts_with (la_address l) ''unix:''"
  shows "listen_from_str (display_listen l) = Some (Inr (printed_part l))"
proof -
  have a: "la_address l = format_address (la_ip l) (la_port l)" "la_port l \<le> u16_max"
    using assms(1) by (auto simp: read_address_def)
  have "parse_ip_port (la_address l) = Some (Inr (la_ip l, la_port l))"
    using parse_printed_address assms a by simp
  then show ?thesis
    using display_trim [OF assms(1)] read_back_options [OF assms(1)] by (simp add: listen_from_str_def Let_def)
qed

text \<open>
  Reading a listen directive, printing it and reading the result gives the same listener: the same
  address and port, the same flags and the same backlog. The exceptions are in the
  statement: unix sockets, and the modifiers \<open>rcvbuf\<close>, \<open>sndbuf\<close> and \<open>bind\<close>, which are not printed.
\<close>

theorem listen_roundtrip:
  assumes "listen_from_str t = Some (Inr l)" "\<not> starts_with (la_address l) ''unix:''"
  shows "listen_from_str (display_listen l) = Some (Inr (printed_part l))"
proof -
  obtain a mods ip port where p: "parse_ip_port a = Some (Inr (ip, port))"
    and m: "apply_modifiers mods (listen_at ip port) = Inr l"
    using assms(1) by (rule listen_cases)
  have r: "read_address l" by (rule read_address_of_str [OF assms(1)])
  have i: "la_ip l = ip" using modifiers_ip [OF m] by (simp add: listen_at_def)
  have "\<not> starts_with a ''unix:''"
  proof
    assume u: "starts_with a ''unix:''"
    then have "ip = a" using p by (simp add: parse_ip_port_def)
    then show False using u i r assms(2) by (auto simp: starts_with_def read_address_def format_address_def)
  qed
  then have "CHR '']'' \<notin> set (la_ip l)" using ip_without_bracket [OF p] i by simp
  then show ?thesis using display_read_back [OF r] assms(2) by simp
qed

lemmas evaluate_listen = parse_ip_port_def starts_with_def number_or_def parse_unsigned_def read_char_def
  apply_modifier_def is_space_def

text \<open>The round trip on a directive with a bracketed address.\<close>

theorem listen_roundtrip_witness:
  "let t = ''  [::1]:8443 http2 ssl  reuseport backlog=16384'' in
   case listen_from_str t of Some (Inr l) \<Rightarrow>
     la_ip l = ''::1'' \<and> la_port l = 8443 \<and> listen_from_str (display_listen l) = Some (Inr (printed_part l)) | _ \<Rightarrow> False"
proof -
  define t where "t = ''  [::1]:8443 http2 ssl  reuseport backlog=16384''"
  define l where "l = (listen_at ''::1'' 8443)\<lparr>la_ssl := True, la_http2 := True, la_reuseport := True, la_backlog := Some 16384\<rparr>"
  have t: "trim t = ''[::1]:8443 http2 ssl  reuseport backlog=16384''" by (simp add: t_def trim_def is_space_def)
  have w: "split_whitespace (trim t) = [''[::1]:8443'', ''http2'', ''ssl'', ''reuseport'', ''backlog=16384'']"
    unfolding t by (simp add: is_space_def)
  have "parse_ip_port ''[::1]:8443'' = Some (Inr (''::1'', 8443))" by (simp add: evaluate_listen)
  moreover have "apply_modifiers [''http2'', ''ssl'', ''reuseport'', ''backlog=16384''] (listen_at ''::1'' 8443) = Inr l"
    unfolding l_def by (simp add: evaluate_listen)
  ultimately have r: "listen_from_str t = Some (Inr l)"
    unfolding listen_from_str_def Let_def w by (simp add: t del: apply_modifiers.simps)
  have u: "\<not> starts_with (la_address l) ''unix:''"
    unfolding l_def by (simp add: listen_at_def format_address_def starts_with_def)
  show ?thesis using listen_roundtrip [OF r u] r unfolding t_def [symmetric] by (simp add: l_def listen_at_def)
qed

section \<open>Where the reader stops the program\<close>

text \<open>A closing bracket at the start makes the slice of the address end before it begins.\<close>

lemma closing_bracket_panics: "listen_from_str '']:8000'' = None"
  by code_simp

text \<open>That is the only way: the reader returns on every other first word.\<close>

lemma listen_panics_iff:
  "listen_from_str t = None \<longleftrightarrow> (\<exists>a mods. split_whitespace (trim t) = a # mods \<and> starts_with a '']'')"
proof (cases "trim t = ''off''")
  case True
  moreover have "split_whitespace ''off'' = [''off'']" by code_simp
  ultimately show ?thesis by (simp add: listen_from_str_def starts_with_def del: split_whitespace.simps)
next
  case False
  have p: "parse_ip_port a = None \<longleftrightarrow> starts_with a '']''" for a
    by (cases a) (auto simp: parse_ip_port_def starts_with_def Let_def split: option.splits)
  show ?thesis
  proof (cases "split_whitespace (trim t)")
    case (Cons a mods)
    then have "listen_from_str t = None \<longleftrightarrow> parse_ip_port a = None"
      using False by (auto simp: listen_from_str_def Let_def split: option.splits sum.splits)
    then show ?thesis using Cons p by simp
  qed (use False in \<open>simp add: listen_from_str_def\<close>)
qed

end
