(* ===== verification/Config_Fields.thy ===== *)
theory Config_Fields
  imports Config_Listen
begin

text \<open>
  The settings of the gateway, from \<open>kong-config/src/config.rs\<close>, in three tables that follow the three places
  the source lists them: the fields of the structure with their types, the defaults, and the
  branches of \<open>set\<close> with how each reads its text. A configuration is a map from field names to
  values. The tables are split by the sections of the source. The field \<open>tracing_sampling_rate\<close>, the only
  floating point number, is left out.
\<close>

section \<open>Types and values\<close>

datatype cluster_role = Traditional | ControlPlane | DataPlane

fun role_from_str :: "string \<Rightarrow> cluster_role option" where
  "role_from_str s =
     (if s = ''traditional'' then Some Traditional
      else if s = ''control_plane'' then Some ControlPlane
      else if s = ''data_plane'' then Some DataPlane
      else None)"

fun display_role :: "cluster_role \<Rightarrow> string" where
  "display_role Traditional = ''traditional''"
| "display_role ControlPlane = ''control_plane''"
| "display_role DataPlane = ''data_plane''"

datatype field_type =
    T_String | T_OptString | T_Bool | T_OptBool | T_U16 | T_U32 | T_U64 | T_Usize | T_I64
  | T_OptU16 | T_OptU32 | T_OptU64 | T_Listen | T_Strings | T_Role

datatype config_value =
    C_String string
  | C_OptString "string option"
  | C_Bool bool
  | C_OptBool "bool option"
  | C_Num nat
  | C_OptNum "nat option"
  | C_Int int
  | C_Listen "listen_addr list"
  | C_Strings "string list"
  | C_Role cluster_role

abbreviation u64_limit :: nat where
  "u64_limit \<equiv> 18446744073709551615"

text \<open>The largest value of an integer type (\<open>usize\<close> has 64 bits).\<close>

fun type_max :: "field_type \<Rightarrow> nat" where
  "type_max T_U16 = u16_max"
| "type_max T_OptU16 = u16_max"
| "type_max T_U32 = u32_max"
| "type_max T_OptU32 = u32_max"
| "type_max T_I64 = 9223372036854775807"
| "type_max _ = u64_limit"

fun has_type :: "field_type \<Rightarrow> config_value \<Rightarrow> bool" where
  "has_type t (C_String _) = (t = T_String)"
| "has_type t (C_OptString _) = (t = T_OptString)"
| "has_type t (C_Bool _) = (t = T_Bool)"
| "has_type t (C_OptBool _) = (t = T_OptBool)"
| "has_type t (C_Num n) = (t \<in> {T_U16, T_U32, T_U64, T_Usize} \<and> n \<le> type_max t)"
| "has_type t (C_OptNum n) =
     (t \<in> {T_OptU16, T_OptU32, T_OptU64} \<and> (case n of None \<Rightarrow> True | Some k \<Rightarrow> k \<le> type_max t))"
| "has_type t (C_Int i) = (t = T_I64 \<and> - 9223372036854775808 \<le> i \<and> i \<le> 9223372036854775807)"
| "has_type t (C_Listen _) = (t = T_Listen)"
| "has_type t (C_Strings _) = (t = T_Strings)"
| "has_type t (C_Role _) = (t = T_Role)"

section \<open>The readers\<close>

definition parse_bool :: "string \<Rightarrow> bool" where
  "parse_bool value = (to_lowercase (trim value) \<in> set [''on'', ''true'', ''yes'', ''1''])"

definition parse_array :: "string \<Rightarrow> string list" where
  "parse_array value =
     (let t = trim value in
      if t = [] \<or> t = ''off'' then [] else filter (\<lambda>s. s \<noteq> []) (map trim (split_char (CHR '','') t)))"

definition none_if_empty :: "string \<Rightarrow> string option" where
  "none_if_empty value = (let v = trim value in if v = [] then None else Some v)"

definition parse_header_list :: "string \<Rightarrow> string list" where
  "parse_header_list value =
     (let t = trim value in
      if t = [] \<or> t = ''off'' then []
      else filter (\<lambda>s. CHR '':'' \<in> set s) (map trim (split_char (CHR '','') t)))"

text \<open>\<open>parse::<i64>\<close>: a sign is optional.\<close>

definition parse_i64 :: "string \<Rightarrow> int option" where
  "parse_i64 s =
     (case read_char (CHR ''-'') s of
        Some r \<Rightarrow>
          (case read_char (CHR ''+'') r of
             Some _ \<Rightarrow> None
           | None \<Rightarrow> map_option (\<lambda>n. - int n) (parse_unsigned 9223372036854775808 r))
      | None \<Rightarrow> map_option int (parse_unsigned 9223372036854775807 s))"

definition is_alphabetic :: "char \<Rightarrow> bool" where
  "is_alphabetic c = (let n = of_char c :: nat in 65 \<le> n \<and> n \<le> 90 \<or> 97 \<le> n \<and> n \<le> 122)"

definition trim_end_letters :: "string \<Rightarrow> string" where
  "trim_end_letters s = rev (dropWhile is_alphabetic (rev s))"

definition real_ip_header_names :: "string list" where
  "real_ip_header_names =
     [''X-Real-IP'', ''X-Forwarded-For'', ''X-Forwarded-Proto'', ''X-Forwarded-Host'', ''X-Forwarded-Port'',
      ''X-Forwarded-Path'', ''X-Forwarded-Prefix'']"

definition parse_real_ip_headers :: "string \<Rightarrow> string list" where
  "parse_real_ip_headers value =
     (let v = to_lowercase (trim value) in
      if v \<in> set [''on'', ''true'', ''yes'', ''1''] then real_ip_header_names
      else if v \<in> set [''off'', ''false'', ''no'', ''0'', []] then []
      else parse_array value)"

text \<open>\<open>parse_listen_addresses(value).unwrap_or_default()\<close>: a refused directive leaves no listener.\<close>

definition listen_or_empty :: "string \<Rightarrow> listen_addr list option" where
  "listen_or_empty value =
     (case parse_listen_addresses value of
        None \<Rightarrow> None
      | Some (Inl _) \<Rightarrow> Some []
      | Some (Inr ls) \<Rightarrow> Some ls)"

definition default_listen :: "string \<Rightarrow> listen_addr list" where
  "default_listen value = (case listen_or_empty value of Some ls \<Rightarrow> ls | None \<Rightarrow> [])"

datatype reader =
    AsText | AsLowerText | AsOptText | AsBool | AsSomeBool | AsListen | AsArray | AsHeaderList
  | AsHeaderTokens | AsRealIpHeaders | AsRole | IfNumber | NumberOr nat | SecondsOr nat

text \<open>What a branch of \<open>set\<close> does with its text: store a value, keep the old one, or panic.\<close>

datatype reading = Store config_value | Keep | Panics

definition number_value :: "field_type \<Rightarrow> string \<Rightarrow> nat \<Rightarrow> config_value" where
  "number_value t s n =
     (if t = T_I64 then C_Int (case parse_i64 s of Some i \<Rightarrow> i | None \<Rightarrow> int n)
      else C_Num (case parse_unsigned (type_max t) s of Some k \<Rightarrow> k | None \<Rightarrow> n))"

fun read_value :: "reader \<Rightarrow> field_type \<Rightarrow> string \<Rightarrow> reading" where
  "read_value AsText t s = Store (C_String s)"
| "read_value AsLowerText t s = Store (C_String (to_lowercase s))"
| "read_value AsOptText t s = Store (C_OptString (none_if_empty s))"
| "read_value AsBool t s = Store (C_Bool (parse_bool s))"
| "read_value AsSomeBool t s = Store (C_OptBool (Some (parse_bool s)))"
| "read_value AsListen t s = (case listen_or_empty s of Some ls \<Rightarrow> Store (C_Listen ls) | None \<Rightarrow> Panics)"
| "read_value AsArray t s = Store (C_Strings (parse_array s))"
| "read_value AsHeaderTokens t s = Store (C_Strings (parse_array s))"
| "read_value AsHeaderList t s = Store (C_Strings (parse_header_list s))"
| "read_value AsRealIpHeaders t s = Store (C_Strings (parse_real_ip_headers s))"
| "read_value AsRole t s = (case role_from_str s of Some r \<Rightarrow> Store (C_Role r) | None \<Rightarrow> Keep)"
| "read_value IfNumber t s = Store (C_OptNum (parse_unsigned (type_max t) s))"
| "read_value (NumberOr n) t s = Store (number_value t s n)"
| "read_value (SecondsOr n) t s = Store (number_value t (trim_end_letters s) n)"

section \<open>The fields of the structure\<close>

definition general_fields :: "(string \<times> field_type) list" where
  "general_fields =
    [(''prefix'', T_String), (''log_level'', T_String), (''node_id'', T_OptString),
     (''anonymous_reports'', T_Bool)]"

definition listeners_fields :: "(string \<times> field_type) list" where
  "listeners_fields =
    [(''proxy_listen'', T_Listen), (''admin_listen'', T_Listen), (''status_listen'', T_Listen),
     (''stream_listen'', T_Listen), (''admin_gui_listen'', T_Listen), (''admin_gui_url'', T_String)]"

definition logs_fields :: "(string \<times> field_type) list" where
  "logs_fields =
    [(''proxy_access_log'', T_String), (''proxy_error_log'', T_String), (''admin_access_log'', T_String),
     (''admin_error_log'', T_String), (''status_access_log'', T_String), (''status_error_log'', T_String),
     (''proxy_stream_access_log'', T_String), (''proxy_stream_error_log'', T_String)]"

definition database_fields :: "(string \<times> field_type) list" where
  "database_fields =
    [(''database'', T_String), (''pg_host'', T_String), (''pg_port'', T_U16), (''pg_database'', T_String),
     (''pg_user'', T_String), (''pg_password'', T_OptString), (''pg_schema'', T_OptString),
     (''pg_timeout'', T_U64), (''pg_ssl'', T_Bool), (''pg_ssl_verify'', T_Bool),
     (''pg_max_concurrent_queries'', T_U32), (''pg_semaphore_timeout'', T_U64),
     (''pg_keepalive_timeout'', T_OptU64), (''pg_pool_size'', T_OptU32), (''pg_backlog'', T_OptU32)]"

definition replica_fields :: "(string \<times> field_type) list" where
  "replica_fields =
    [(''pg_ro_host'', T_OptString), (''pg_ro_port'', T_OptU16), (''pg_ro_database'', T_OptString),
     (''pg_ro_user'', T_OptString), (''pg_ro_password'', T_OptString), (''pg_ro_schema'', T_OptString),
     (''pg_ro_timeout'', T_OptU64), (''pg_ro_ssl'', T_OptBool), (''pg_ro_ssl_verify'', T_OptBool),
     (''pg_ro_max_concurrent_queries'', T_OptU32), (''pg_ro_semaphore_timeout'', T_OptU64),
     (''pg_ro_keepalive_timeout'', T_OptU64), (''pg_ro_pool_size'', T_OptU32),
     (''pg_ro_backlog'', T_OptU32)]"

definition dbless_fields :: "(string \<times> field_type) list" where
  "dbless_fields =
    [(''declarative_config'', T_OptString), (''declarative_config_string'', T_OptString),
     (''role'', T_Role)]"

definition caching_fields :: "(string \<times> field_type) list" where
  "caching_fields =
    [(''mem_cache_size'', T_String), (''db_cache_ttl'', T_U64), (''db_cache_neg_ttl'', T_OptU64),
     (''db_resurrect_ttl'', T_U64), (''db_cache_warmup_entities'', T_Strings),
     (''db_update_frequency'', T_U64), (''db_update_propagation'', T_U64),
     (''nginx_main_worker_shutdown_timeout'', T_U64)]"

definition dns_fields :: "(string \<times> field_type) list" where
  "dns_fields =
    [(''dns_resolver'', T_Strings), (''dns_hostsfile'', T_String), (''dns_order'', T_Strings),
     (''dns_valid_ttl'', T_OptU64), (''dns_stale_ttl'', T_U64), (''dns_cache_size'', T_U32),
     (''dns_not_found_ttl'', T_U64), (''dns_error_ttl'', T_U64), (''dns_no_sync'', T_Bool)]"

definition tls_fields :: "(string \<times> field_type) list" where
  "tls_fields =
    [(''ssl_cipher_suite'', T_String), (''ssl_ciphers'', T_OptString), (''ssl_protocols'', T_String),
     (''ssl_prefer_server_ciphers'', T_Bool), (''ssl_dhparam'', T_OptString),
     (''ssl_session_tickets'', T_Bool), (''ssl_session_timeout'', T_String),
     (''ssl_session_cache_size'', T_String), (''ssl_cert'', T_Strings), (''ssl_cert_key'', T_Strings),
     (''admin_ssl_cert'', T_Strings), (''admin_ssl_cert_key'', T_Strings),
     (''status_ssl_cert'', T_Strings), (''status_ssl_cert_key'', T_Strings), (''client_ssl'', T_Bool),
     (''client_ssl_cert'', T_OptString), (''client_ssl_cert_key'', T_OptString),
     (''lua_ssl_trusted_certificate'', T_Strings), (''lua_ssl_verify_depth'', T_U32),
     (''lua_ssl_protocols'', T_String)]"

definition http_fields :: "(string \<times> field_type) list" where
  "http_fields =
    [(''headers'', T_Strings), (''headers_upstream'', T_Strings), (''trusted_ips'', T_Strings),
     (''real_ip_header'', T_String), (''real_ip_recursive'', T_Bool),
     (''upstream_keepalive_pool_size'', T_U32), (''upstream_keepalive_max_requests'', T_U32),
     (''upstream_keepalive_idle_timeout'', T_U64)]"

definition routing_fields :: "(string \<times> field_type) list" where
  "routing_fields =
    [(''router_flavor'', T_String), (''worker_consistency'', T_String),
     (''worker_state_update_frequency'', T_U64)]"

definition plugins_fields :: "(string \<times> field_type) list" where
  "plugins_fields =
    [(''plugins'', T_Strings), (''vaults'', T_Strings), (''lua_socket_pool_size'', T_U32),
     (''lua_package_path'', T_String), (''lua_package_cpath'', T_OptString),
     (''lua_max_req_headers'', T_U32), (''lua_max_resp_headers'', T_U32), (''lua_max_uri_args'', T_U32),
     (''lua_max_post_args'', T_U32)]"

definition worker_fields :: "(string \<times> field_type) list" where
  "worker_fields =
    [(''nginx_user'', T_String), (''nginx_worker_processes'', T_String), (''nginx_daemon'', T_Bool),
     (''error_default_type'', T_String), (''port_maps'', T_Strings)]"

definition hybrid_fields :: "(string \<times> field_type) list" where
  "hybrid_fields =
    [(''cluster_control_plane'', T_String), (''cluster_listen'', T_Listen), (''cluster_mtls'', T_String),
     (''cluster_cert'', T_OptString), (''cluster_cert_key'', T_OptString),
     (''cluster_ca_cert'', T_OptString), (''cluster_server_name'', T_OptString),
     (''cluster_data_plane_purge_delay'', T_U64)]"

definition proxying_fields :: "(string \<times> field_type) list" where
  "proxying_fields =
    [(''tracing_instrumentations'', T_Strings), (''proxy_real_ip_headers'', T_Strings),
     (''proxy_hide_server_header'', T_Bool), (''proxy_response_headers'', T_Strings)]"

definition tokenizer_fields :: "(string \<times> field_type) list" where
  "tokenizer_fields =
    [(''ai_tokenizer_enabled'', T_Bool), (''ai_tokenizer_per_request_deadline_ms'', T_U64),
     (''ai_tokenizer_remote_count_timeout_ms'', T_U64), (''ai_tokenizer_cache_capacity'', T_U64),
     (''ai_tokenizer_cache_ttl_seconds'', T_U64), (''ai_tokenizer_offline'', T_Bool),
     (''ai_tokenizer_cache_dir'', T_OptString), (''ai_tokenizer_openai_endpoint'', T_OptString),
     (''ai_tokenizer_openai_api_key'', T_OptString), (''ai_tokenizer_anthropic_endpoint'', T_OptString),
     (''ai_tokenizer_anthropic_api_key'', T_OptString), (''ai_tokenizer_gemini_endpoint'', T_OptString),
     (''ai_tokenizer_gemini_api_key'', T_OptString)]"

definition compression_fields :: "(string \<times> field_type) list" where
  "compression_fields =
    [(''ai_context_compression_headroom_url'', T_OptString),
     (''ai_context_compression_health_timeout_ms'', T_U64),
     (''ai_context_compression_health_ttl_ms'', T_U64), (''ai_context_compression_store_scope'', T_String)]"

definition usage_fields :: "(string \<times> field_type) list" where
  "usage_fields =
    [(''ai_usage_queue_capacity'', T_Usize), (''ai_usage_batch_size'', T_Usize),
     (''ai_usage_flush_interval_ms'', T_U64), (''ai_usage_shutdown_timeout_ms'', T_U64),
     (''ai_usage_dbless_capacity'', T_Usize)]"

definition quota_fields :: "(string \<times> field_type) list" where
  "quota_fields =
    [(''ai_enforcement_namespace'', T_String), (''ai_quota_memory_max_buckets'', T_Usize),
     (''ai_quota_memory_max_records'', T_Usize), (''ai_quota_memory_max_records_per_bucket'', T_Usize),
     (''ai_quota_memory_max_live_reservations'', T_Usize),
     (''ai_quota_memory_recovery_headroom'', T_Usize), (''ai_quota_max_request_lifetime_ms'', T_U64),
     (''ai_quota_settlement_retry_grace_ms'', T_U64), (''ai_quota_cleanup_interval_ms'', T_U64),
     (''ai_quota_cleanup_scan_batch'', T_Usize), (''ai_lifecycle_dispatch_timeout_ms'', T_U64),
     (''ai_lifecycle_abort_timeout_ms'', T_U64), (''ai_lifecycle_finalizer_timeout_ms'', T_U64)]"

definition budget_fields :: "(string \<times> field_type) list" where
  "budget_fields =
    [(''ai_budget_pg_pool_size'', T_U32), (''ai_budget_heartbeat_pg_pool_size'', T_U32),
     (''ai_budget_admin_pg_pool_size'', T_U32), (''ai_budget_max_concurrent_ops'', T_U32),
     (''ai_budget_recovery_reserved_ops'', T_U32), (''ai_budget_recovery_scan_batch'', T_U32),
     (''ai_budget_operation_timeout_ms'', T_U64), (''ai_budget_lock_timeout_ms'', T_U64),
     (''ai_budget_owner_lease_seconds'', T_U64), (''ai_budget_owner_heartbeat_ms'', T_U64),
     (''ai_budget_intent_stale_grace_seconds'', T_U64), (''ai_budget_active_intent_capacity'', T_Usize),
     (''ai_budget_checkpoint_interval_seconds'', T_U64),
     (''ai_budget_checkpoint_soft_tail_events'', T_I64), (''ai_budget_checkpoint_hard_tail_events'', T_I64)]"

definition config_fields :: "(string \<times> field_type) list" where
  "config_fields =
     general_fields @ listeners_fields @ logs_fields @ database_fields @ replica_fields @
     dbless_fields @ caching_fields @ dns_fields @ tls_fields @ http_fields @
     routing_fields @ plugins_fields @ worker_fields @ hybrid_fields @ proxying_fields @
     tokenizer_fields @ compression_fields @ usage_fields @ quota_fields @ budget_fields"

section \<open>The defaults\<close>

definition general_defaults :: "(string \<times> config_value) list" where
  "general_defaults =
    [(''prefix'', C_String ''/usr/local/kong/''), (''log_level'', C_String ''notice''),
     (''node_id'', C_OptString None), (''anonymous_reports'', C_Bool True)]"

definition listeners_defaults :: "(string \<times> config_value) list" where
  "listeners_defaults =
    [
     (''proxy_listen'', C_Listen (default_listen ''0.0.0.0:8000 reuseport backlog=16384, 0.0.0.0:8443 http2 ssl reuseport backlog=16384'')),
     (''admin_listen'', C_Listen (default_listen ''127.0.0.1:8001 reuseport backlog=16384, 127.0.0.1:8444 http2 ssl reuseport backlog=16384'')),
     (''status_listen'', C_Listen (default_listen ''127.0.0.1:8007 reuseport backlog=16384'')),
     (''stream_listen'', C_Listen (default_listen ''off'')),
     (''admin_gui_listen'', C_Listen (default_listen ''0.0.0.0:8002, 0.0.0.0:8445 ssl'')),
     (''admin_gui_url'', C_String ''http://localhost:8002'')]"

definition logs_defaults :: "(string \<times> config_value) list" where
  "logs_defaults =
    [(''proxy_access_log'', C_String ''logs/access.log''),
     (''proxy_error_log'', C_String ''logs/error.log''),
     (''admin_access_log'', C_String ''logs/admin_access.log''),
     (''admin_error_log'', C_String ''logs/error.log''), (''status_access_log'', C_String ''off''),
     (''status_error_log'', C_String ''logs/status_error.log''),
     (''proxy_stream_access_log'', C_String ''logs/stream_access.log''),
     (''proxy_stream_error_log'', C_String ''logs/stream_error.log'')]"

definition database_defaults :: "(string \<times> config_value) list" where
  "database_defaults =
    [(''database'', C_String ''postgres''), (''pg_host'', C_String ''127.0.0.1''),
     (''pg_port'', C_Num 5432), (''pg_database'', C_String ''kong''), (''pg_user'', C_String ''kong''),
     (''pg_password'', C_OptString None), (''pg_schema'', C_OptString None), (''pg_timeout'', C_Num 5000),
     (''pg_ssl'', C_Bool False), (''pg_ssl_verify'', C_Bool False),
     (''pg_max_concurrent_queries'', C_Num 0), (''pg_semaphore_timeout'', C_Num 60000),
     (''pg_keepalive_timeout'', C_OptNum None), (''pg_pool_size'', C_OptNum None),
     (''pg_backlog'', C_OptNum None)]"

definition replica_defaults :: "(string \<times> config_value) list" where
  "replica_defaults =
    [(''pg_ro_host'', C_OptString None), (''pg_ro_port'', C_OptNum None),
     (''pg_ro_database'', C_OptString None), (''pg_ro_user'', C_OptString None),
     (''pg_ro_password'', C_OptString None), (''pg_ro_schema'', C_OptString None),
     (''pg_ro_timeout'', C_OptNum None), (''pg_ro_ssl'', C_OptBool None),
     (''pg_ro_ssl_verify'', C_OptBool None), (''pg_ro_max_concurrent_queries'', C_OptNum None),
     (''pg_ro_semaphore_timeout'', C_OptNum None), (''pg_ro_keepalive_timeout'', C_OptNum None),
     (''pg_ro_pool_size'', C_OptNum None), (''pg_ro_backlog'', C_OptNum None)]"

definition dbless_defaults :: "(string \<times> config_value) list" where
  "dbless_defaults =
    [(''declarative_config'', C_OptString None), (''declarative_config_string'', C_OptString None),
     (''role'', C_Role Traditional)]"

definition caching_defaults :: "(string \<times> config_value) list" where
  "caching_defaults =
    [(''mem_cache_size'', C_String ''128m''), (''db_cache_ttl'', C_Num 0),
     (''db_cache_neg_ttl'', C_OptNum None), (''db_resurrect_ttl'', C_Num 30),
     (''db_cache_warmup_entities'', C_Strings [''services'']), (''db_update_frequency'', C_Num 5),
     (''db_update_propagation'', C_Num 0), (''nginx_main_worker_shutdown_timeout'', C_Num 10)]"

definition dns_defaults :: "(string \<times> config_value) list" where
  "dns_defaults =
    [(''dns_resolver'', C_Strings []), (''dns_hostsfile'', C_String ''/etc/hosts''),
     (''dns_order'', C_Strings [''LAST'', ''SRV'', ''A'', ''CNAME'']), (''dns_valid_ttl'', C_OptNum None),
     (''dns_stale_ttl'', C_Num 3600), (''dns_cache_size'', C_Num 10000), (''dns_not_found_ttl'', C_Num 30),
     (''dns_error_ttl'', C_Num 1), (''dns_no_sync'', C_Bool False)]"

definition tls_defaults :: "(string \<times> config_value) list" where
  "tls_defaults =
    [(''ssl_cipher_suite'', C_String ''intermediate''), (''ssl_ciphers'', C_OptString None),
     (''ssl_protocols'', C_String ''TLSv1.2 TLSv1.3''), (''ssl_prefer_server_ciphers'', C_Bool True),
     (''ssl_dhparam'', C_OptString None), (''ssl_session_tickets'', C_Bool True),
     (''ssl_session_timeout'', C_String ''1d''), (''ssl_session_cache_size'', C_String ''10m''),
     (''ssl_cert'', C_Strings []), (''ssl_cert_key'', C_Strings []), (''admin_ssl_cert'', C_Strings []),
     (''admin_ssl_cert_key'', C_Strings []), (''status_ssl_cert'', C_Strings []),
     (''status_ssl_cert_key'', C_Strings []), (''client_ssl'', C_Bool False),
     (''client_ssl_cert'', C_OptString None), (''client_ssl_cert_key'', C_OptString None),
     (''lua_ssl_trusted_certificate'', C_Strings [''system'']), (''lua_ssl_verify_depth'', C_Num 1),
     (''lua_ssl_protocols'', C_String ''TLSv1.2 TLSv1.3'')]"

definition http_defaults :: "(string \<times> config_value) list" where
  "http_defaults =
    [(''headers'', C_Strings [''server_tokens'', ''latency_tokens'', ''x-kong-request-id'']),
     (''headers_upstream'', C_Strings [''x-kong-request-id'']), (''trusted_ips'', C_Strings []),
     (''real_ip_header'', C_String ''X-Real-IP''), (''real_ip_recursive'', C_Bool False),
     (''upstream_keepalive_pool_size'', C_Num 512), (''upstream_keepalive_max_requests'', C_Num 10000),
     (''upstream_keepalive_idle_timeout'', C_Num 60)]"

definition routing_defaults :: "(string \<times> config_value) list" where
  "routing_defaults =
    [(''router_flavor'', C_String ''traditional_compatible''),
     (''worker_consistency'', C_String ''eventual''), (''worker_state_update_frequency'', C_Num 5)]"

definition plugins_defaults :: "(string \<times> config_value) list" where
  "plugins_defaults =
    [(''plugins'', C_Strings [''bundled'']), (''vaults'', C_Strings [''bundled'']),
     (''lua_socket_pool_size'', C_Num 256), (''lua_package_path'', C_String ''./?.lua;./?/init.lua;''),
     (''lua_package_cpath'', C_OptString None), (''lua_max_req_headers'', C_Num 100),
     (''lua_max_resp_headers'', C_Num 100), (''lua_max_uri_args'', C_Num 100),
     (''lua_max_post_args'', C_Num 100)]"

definition worker_defaults :: "(string \<times> config_value) list" where
  "worker_defaults =
    [(''nginx_user'', C_String ''kong kong''), (''nginx_worker_processes'', C_String ''auto''),
     (''nginx_daemon'', C_Bool True), (''error_default_type'', C_String ''text/plain''),
     (''port_maps'', C_Strings [])]"

definition hybrid_defaults :: "(string \<times> config_value) list" where
  "hybrid_defaults =
    [(''cluster_control_plane'', C_String ''127.0.0.1:8005''),
     (''cluster_listen'', C_Listen (default_listen ''0.0.0.0:8005'')),
     (''cluster_mtls'', C_String ''shared''), (''cluster_cert'', C_OptString None),
     (''cluster_cert_key'', C_OptString None), (''cluster_ca_cert'', C_OptString None),
     (''cluster_server_name'', C_OptString None), (''cluster_data_plane_purge_delay'', C_Num 1209600)]"

definition proxying_defaults :: "(string \<times> config_value) list" where
  "proxying_defaults =
    [(''tracing_instrumentations'', C_Strings [''off'']),
     (''proxy_real_ip_headers'', C_Strings real_ip_header_names),
     (''proxy_hide_server_header'', C_Bool False), (''proxy_response_headers'', C_Strings [])]"

definition tokenizer_defaults :: "(string \<times> config_value) list" where
  "tokenizer_defaults =
    [(''ai_tokenizer_enabled'', C_Bool True), (''ai_tokenizer_per_request_deadline_ms'', C_Num 300),
     (''ai_tokenizer_remote_count_timeout_ms'', C_Num 1000), (''ai_tokenizer_cache_capacity'', C_Num 1024),
     (''ai_tokenizer_cache_ttl_seconds'', C_Num 60), (''ai_tokenizer_offline'', C_Bool False),
     (''ai_tokenizer_cache_dir'', C_OptString None), (''ai_tokenizer_openai_endpoint'', C_OptString None),
     (''ai_tokenizer_openai_api_key'', C_OptString None),
     (''ai_tokenizer_anthropic_endpoint'', C_OptString None),
     (''ai_tokenizer_anthropic_api_key'', C_OptString None),
     (''ai_tokenizer_gemini_endpoint'', C_OptString None),
     (''ai_tokenizer_gemini_api_key'', C_OptString None)]"

definition compression_defaults :: "(string \<times> config_value) list" where
  "compression_defaults =
    [(''ai_context_compression_headroom_url'', C_OptString None),
     (''ai_context_compression_health_timeout_ms'', C_Num 200),
     (''ai_context_compression_health_ttl_ms'', C_Num 1000),
     (''ai_context_compression_store_scope'', C_String ''local'')]"

definition usage_defaults :: "(string \<times> config_value) list" where
  "usage_defaults =
    [(''ai_usage_queue_capacity'', C_Num 8192), (''ai_usage_batch_size'', C_Num 256),
     (''ai_usage_flush_interval_ms'', C_Num 500), (''ai_usage_shutdown_timeout_ms'', C_Num 5000),
     (''ai_usage_dbless_capacity'', C_Num 10000)]"

definition quota_defaults :: "(string \<times> config_value) list" where
  "quota_defaults =
    [(''ai_enforcement_namespace'', C_String ''default''), (''ai_quota_memory_max_buckets'', C_Num 100000),
     (''ai_quota_memory_max_records'', C_Num 2000000),
     (''ai_quota_memory_max_records_per_bucket'', C_Num 100000),
     (''ai_quota_memory_max_live_reservations'', C_Num 200000),
     (''ai_quota_memory_recovery_headroom'', C_Num 50000),
     (''ai_quota_max_request_lifetime_ms'', C_Num (15 * 60 * 1000)),
     (''ai_quota_settlement_retry_grace_ms'', C_Num (5 * 60 * 1000)),
     (''ai_quota_cleanup_interval_ms'', C_Num 30000), (''ai_quota_cleanup_scan_batch'', C_Num 4096),
     (''ai_lifecycle_dispatch_timeout_ms'', C_Num 2000), (''ai_lifecycle_abort_timeout_ms'', C_Num 2000),
     (''ai_lifecycle_finalizer_timeout_ms'', C_Num 5000)]"

definition budget_defaults :: "(string \<times> config_value) list" where
  "budget_defaults =
    [(''ai_budget_pg_pool_size'', C_Num 10), (''ai_budget_heartbeat_pg_pool_size'', C_Num 1),
     (''ai_budget_admin_pg_pool_size'', C_Num 2), (''ai_budget_max_concurrent_ops'', C_Num 8),
     (''ai_budget_recovery_reserved_ops'', C_Num 2), (''ai_budget_recovery_scan_batch'', C_Num 100),
     (''ai_budget_operation_timeout_ms'', C_Num 2000), (''ai_budget_lock_timeout_ms'', C_Num 500),
     (''ai_budget_owner_lease_seconds'', C_Num 30), (''ai_budget_owner_heartbeat_ms'', C_Num 5000),
     (''ai_budget_intent_stale_grace_seconds'', C_Num 60),
     (''ai_budget_active_intent_capacity'', C_Num 50000),
     (''ai_budget_checkpoint_interval_seconds'', C_Num 60),
     (''ai_budget_checkpoint_soft_tail_events'', C_Int 10000),
     (''ai_budget_checkpoint_hard_tail_events'', C_Int 100000)]"

definition config_defaults :: "(string \<times> config_value) list" where
  "config_defaults =
     general_defaults @ listeners_defaults @ logs_defaults @ database_defaults @ replica_defaults @
     dbless_defaults @ caching_defaults @ dns_defaults @ tls_defaults @ http_defaults @
     routing_defaults @ plugins_defaults @ worker_defaults @ hybrid_defaults @ proxying_defaults @
     tokenizer_defaults @ compression_defaults @ usage_defaults @ quota_defaults @ budget_defaults"

section \<open>The branches of set\<close>

definition general_readers :: "(string \<times> reader) list" where
  "general_readers =
    [(''prefix'', AsText), (''log_level'', AsText), (''node_id'', AsOptText),
     (''anonymous_reports'', AsBool)]"

definition listeners_readers :: "(string \<times> reader) list" where
  "listeners_readers =
    [(''proxy_listen'', AsListen), (''admin_listen'', AsListen), (''status_listen'', AsListen),
     (''stream_listen'', AsListen), (''admin_gui_listen'', AsListen), (''admin_gui_url'', AsText)]"

definition logs_readers :: "(string \<times> reader) list" where
  "logs_readers =
    [(''proxy_access_log'', AsText), (''proxy_error_log'', AsText), (''admin_access_log'', AsText),
     (''admin_error_log'', AsText), (''status_access_log'', AsText), (''status_error_log'', AsText),
     (''proxy_stream_access_log'', AsText), (''proxy_stream_error_log'', AsText)]"

definition database_readers :: "(string \<times> reader) list" where
  "database_readers =
    [(''database'', AsText), (''pg_host'', AsText), (''pg_port'', NumberOr 5432),
     (''pg_database'', AsText), (''pg_user'', AsText), (''pg_password'', AsOptText),
     (''pg_schema'', AsOptText), (''pg_timeout'', NumberOr 5000), (''pg_ssl'', AsBool),
     (''pg_ssl_verify'', AsBool), (''pg_max_concurrent_queries'', NumberOr 0),
     (''pg_semaphore_timeout'', NumberOr 60000), (''pg_keepalive_timeout'', IfNumber),
     (''pg_pool_size'', IfNumber), (''pg_backlog'', IfNumber)]"

definition replica_readers :: "(string \<times> reader) list" where
  "replica_readers =
    [(''pg_ro_host'', AsOptText), (''pg_ro_port'', IfNumber), (''pg_ro_database'', AsOptText),
     (''pg_ro_user'', AsOptText), (''pg_ro_password'', AsOptText), (''pg_ro_schema'', AsOptText),
     (''pg_ro_timeout'', IfNumber), (''pg_ro_ssl'', AsSomeBool), (''pg_ro_ssl_verify'', AsSomeBool),
     (''pg_ro_max_concurrent_queries'', IfNumber), (''pg_ro_semaphore_timeout'', IfNumber),
     (''pg_ro_keepalive_timeout'', IfNumber), (''pg_ro_pool_size'', IfNumber),
     (''pg_ro_backlog'', IfNumber)]"

definition dbless_readers :: "(string \<times> reader) list" where
  "dbless_readers =
    [(''declarative_config'', AsOptText), (''declarative_config_string'', AsOptText), (''role'', AsRole)]"

definition caching_readers :: "(string \<times> reader) list" where
  "caching_readers =
    [(''mem_cache_size'', AsText), (''db_cache_ttl'', NumberOr 0), (''db_cache_neg_ttl'', IfNumber),
     (''db_resurrect_ttl'', NumberOr 30), (''db_cache_warmup_entities'', AsArray),
     (''db_update_frequency'', NumberOr 5), (''db_update_propagation'', NumberOr 0),
     (''nginx_main_worker_shutdown_timeout'', SecondsOr 10)]"

definition dns_readers :: "(string \<times> reader) list" where
  "dns_readers =
    [(''dns_resolver'', AsArray), (''dns_hostsfile'', AsText), (''dns_order'', AsArray),
     (''dns_valid_ttl'', IfNumber), (''dns_stale_ttl'', NumberOr 3600),
     (''dns_cache_size'', NumberOr 10000), (''dns_not_found_ttl'', NumberOr 30),
     (''dns_error_ttl'', NumberOr 1), (''dns_no_sync'', AsBool)]"

definition tls_readers :: "(string \<times> reader) list" where
  "tls_readers =
    [(''ssl_cipher_suite'', AsText), (''ssl_ciphers'', AsOptText), (''ssl_protocols'', AsText),
     (''ssl_prefer_server_ciphers'', AsBool), (''ssl_dhparam'', AsOptText),
     (''ssl_session_tickets'', AsBool), (''ssl_session_timeout'', AsText),
     (''ssl_session_cache_size'', AsText), (''ssl_cert'', AsArray), (''ssl_cert_key'', AsArray),
     (''admin_ssl_cert'', AsArray), (''admin_ssl_cert_key'', AsArray), (''status_ssl_cert'', AsArray),
     (''status_ssl_cert_key'', AsArray), (''client_ssl'', AsBool), (''client_ssl_cert'', AsOptText),
     (''client_ssl_cert_key'', AsOptText), (''lua_ssl_trusted_certificate'', AsArray),
     (''lua_ssl_verify_depth'', NumberOr 1), (''lua_ssl_protocols'', AsText)]"

definition http_readers :: "(string \<times> reader) list" where
  "http_readers =
    [(''headers'', AsHeaderTokens), (''headers_upstream'', AsArray), (''trusted_ips'', AsArray),
     (''real_ip_header'', AsText), (''real_ip_recursive'', AsBool),
     (''upstream_keepalive_pool_size'', NumberOr 512),
     (''upstream_keepalive_max_requests'', NumberOr 10000),
     (''upstream_keepalive_idle_timeout'', NumberOr 60)]"

definition routing_readers :: "(string \<times> reader) list" where
  "routing_readers =
    [(''router_flavor'', AsText), (''worker_consistency'', AsText),
     (''worker_state_update_frequency'', NumberOr 5)]"

definition plugins_readers :: "(string \<times> reader) list" where
  "plugins_readers =
    [(''plugins'', AsArray), (''vaults'', AsArray), (''lua_socket_pool_size'', NumberOr 256),
     (''lua_package_path'', AsText), (''lua_package_cpath'', AsOptText),
     (''lua_max_req_headers'', NumberOr 100), (''lua_max_resp_headers'', NumberOr 100),
     (''lua_max_uri_args'', NumberOr 100), (''lua_max_post_args'', NumberOr 100)]"

definition worker_readers :: "(string \<times> reader) list" where
  "worker_readers =
    [(''nginx_user'', AsText), (''nginx_worker_processes'', AsText), (''nginx_daemon'', AsBool),
     (''error_default_type'', AsText), (''port_maps'', AsArray)]"

definition hybrid_readers :: "(string \<times> reader) list" where
  "hybrid_readers =
    [(''cluster_control_plane'', AsText), (''cluster_listen'', AsListen), (''cluster_mtls'', AsText),
     (''cluster_cert'', AsOptText), (''cluster_cert_key'', AsOptText), (''cluster_ca_cert'', AsOptText),
     (''cluster_server_name'', AsOptText), (''cluster_data_plane_purge_delay'', NumberOr 1209600)]"

definition proxying_readers :: "(string \<times> reader) list" where
  "proxying_readers =
    [(''tracing_instrumentations'', AsArray), (''proxy_real_ip_headers'', AsRealIpHeaders),
     (''proxy_hide_server_header'', AsBool), (''proxy_response_headers'', AsHeaderList)]"

definition tokenizer_readers :: "(string \<times> reader) list" where
  "tokenizer_readers =
    [(''ai_tokenizer_enabled'', AsBool), (''ai_tokenizer_per_request_deadline_ms'', NumberOr 300),
     (''ai_tokenizer_remote_count_timeout_ms'', NumberOr 1000),
     (''ai_tokenizer_cache_capacity'', NumberOr 1024), (''ai_tokenizer_cache_ttl_seconds'', NumberOr 60),
     (''ai_tokenizer_offline'', AsBool), (''ai_tokenizer_cache_dir'', AsOptText),
     (''ai_tokenizer_openai_endpoint'', AsOptText), (''ai_tokenizer_openai_api_key'', AsOptText),
     (''ai_tokenizer_anthropic_endpoint'', AsOptText), (''ai_tokenizer_anthropic_api_key'', AsOptText),
     (''ai_tokenizer_gemini_endpoint'', AsOptText), (''ai_tokenizer_gemini_api_key'', AsOptText)]"

definition compression_readers :: "(string \<times> reader) list" where
  "compression_readers =
    [(''ai_context_compression_headroom_url'', AsOptText),
     (''ai_context_compression_health_timeout_ms'', NumberOr 200),
     (''ai_context_compression_health_ttl_ms'', NumberOr 1000),
     (''ai_context_compression_store_scope'', AsLowerText)]"

definition usage_readers :: "(string \<times> reader) list" where
  "usage_readers =
    [(''ai_usage_queue_capacity'', NumberOr 0), (''ai_usage_batch_size'', NumberOr 0),
     (''ai_usage_flush_interval_ms'', NumberOr 0), (''ai_usage_shutdown_timeout_ms'', NumberOr 0),
     (''ai_usage_dbless_capacity'', NumberOr 0)]"

definition quota_readers :: "(string \<times> reader) list" where
  "quota_readers =
    [(''ai_enforcement_namespace'', AsText), (''ai_quota_memory_max_buckets'', NumberOr 100000),
     (''ai_quota_memory_max_records'', NumberOr 2000000),
     (''ai_quota_memory_max_records_per_bucket'', NumberOr 100000),
     (''ai_quota_memory_max_live_reservations'', NumberOr 200000),
     (''ai_quota_memory_recovery_headroom'', NumberOr 50000),
     (''ai_quota_max_request_lifetime_ms'', NumberOr (15 * 60 * 1000)),
     (''ai_quota_settlement_retry_grace_ms'', NumberOr (5 * 60 * 1000)),
     (''ai_quota_cleanup_interval_ms'', NumberOr 30000), (''ai_quota_cleanup_scan_batch'', NumberOr 4096),
     (''ai_lifecycle_dispatch_timeout_ms'', NumberOr 2000),
     (''ai_lifecycle_abort_timeout_ms'', NumberOr 2000),
     (''ai_lifecycle_finalizer_timeout_ms'', NumberOr 5000)]"

definition budget_readers :: "(string \<times> reader) list" where
  "budget_readers =
    [(''ai_budget_pg_pool_size'', NumberOr 10), (''ai_budget_heartbeat_pg_pool_size'', NumberOr 1),
     (''ai_budget_admin_pg_pool_size'', NumberOr 2), (''ai_budget_max_concurrent_ops'', NumberOr 8),
     (''ai_budget_recovery_reserved_ops'', NumberOr 2), (''ai_budget_recovery_scan_batch'', NumberOr 100),
     (''ai_budget_operation_timeout_ms'', NumberOr 2000), (''ai_budget_lock_timeout_ms'', NumberOr 500),
     (''ai_budget_owner_lease_seconds'', NumberOr 30), (''ai_budget_owner_heartbeat_ms'', NumberOr 5000),
     (''ai_budget_intent_stale_grace_seconds'', NumberOr 60),
     (''ai_budget_active_intent_capacity'', NumberOr 50000),
     (''ai_budget_checkpoint_interval_seconds'', NumberOr 60),
     (''ai_budget_checkpoint_soft_tail_events'', NumberOr 10000),
     (''ai_budget_checkpoint_hard_tail_events'', NumberOr 100000)]"

definition config_readers :: "(string \<times> reader) list" where
  "config_readers =
     general_readers @ listeners_readers @ logs_readers @ database_readers @ replica_readers @
     dbless_readers @ caching_readers @ dns_readers @ tls_readers @ http_readers @
     routing_readers @ plugins_readers @ worker_readers @ hybrid_readers @ proxying_readers @
     tokenizer_readers @ compression_readers @ usage_readers @ quota_readers @ budget_readers"

section \<open>The three tables agree\<close>

lemmas field_tables = general_fields_def listeners_fields_def logs_fields_def database_fields_def replica_fields_def
  dbless_fields_def caching_fields_def dns_fields_def tls_fields_def http_fields_def routing_fields_def
  plugins_fields_def worker_fields_def hybrid_fields_def proxying_fields_def tokenizer_fields_def
  compression_fields_def usage_fields_def quota_fields_def budget_fields_def

lemmas default_tables = general_defaults_def listeners_defaults_def logs_defaults_def database_defaults_def replica_defaults_def
  dbless_defaults_def caching_defaults_def dns_defaults_def tls_defaults_def http_defaults_def routing_defaults_def
  plugins_defaults_def worker_defaults_def hybrid_defaults_def proxying_defaults_def tokenizer_defaults_def
  compression_defaults_def usage_defaults_def quota_defaults_def budget_defaults_def

lemmas reader_tables = general_readers_def listeners_readers_def logs_readers_def database_readers_def replica_readers_def
  dbless_readers_def caching_readers_def dns_readers_def tls_readers_def http_readers_def routing_readers_def
  plugins_readers_def worker_readers_def hybrid_readers_def proxying_readers_def tokenizer_readers_def
  compression_readers_def usage_readers_def quota_readers_def budget_readers_def

text \<open>
  Every field has a branch in \<open>set\<close> and a default, in the same order.
\<close>

lemma fields_have_readers: "map fst config_readers = map fst config_fields"
  by (simp add: config_readers_def config_fields_def field_tables reader_tables)

lemma fields_have_defaults: "map fst config_defaults = map fst config_fields"
  by (simp add: config_defaults_def config_fields_def field_tables default_tables)

text \<open>Each reader and each default is of its field's type.\<close>

fun reader_fits :: "field_type \<Rightarrow> reader \<Rightarrow> bool" where
  "reader_fits t AsText = (t = T_String)"
| "reader_fits t AsLowerText = (t = T_String)"
| "reader_fits t AsOptText = (t = T_OptString)"
| "reader_fits t AsBool = (t = T_Bool)"
| "reader_fits t AsSomeBool = (t = T_OptBool)"
| "reader_fits t AsListen = (t = T_Listen)"
| "reader_fits t AsArray = (t = T_Strings)"
| "reader_fits t AsHeaderTokens = (t = T_Strings)"
| "reader_fits t AsHeaderList = (t = T_Strings)"
| "reader_fits t AsRealIpHeaders = (t = T_Strings)"
| "reader_fits t AsRole = (t = T_Role)"
| "reader_fits t IfNumber = (t \<in> {T_OptU16, T_OptU32, T_OptU64})"
| "reader_fits t (NumberOr n) = (t \<in> {T_U16, T_U32, T_U64, T_Usize, T_I64} \<and> n \<le> type_max t)"
| "reader_fits t (SecondsOr n) = (t \<in> {T_U16, T_U32, T_U64, T_Usize, T_I64} \<and> n \<le> type_max t)"

lemma readers_fit: "list_all2 (\<lambda>(_, t) (_, r). reader_fits t r) config_fields config_readers"
  by (simp add: config_readers_def config_fields_def field_tables reader_tables)

lemma defaults_fit: "list_all2 (\<lambda>(_, t) (_, v). has_type t v) config_fields config_defaults"
  by (simp add: config_defaults_def config_fields_def field_tables default_tables)

text \<open>Looking up a concrete key.\<close>

lemma lookup_cons: "map_of ((a, b) # xs) k = (if a = k then Some b else map_of xs k)"
  by auto

lemmas evaluate_lookup = append.simps lookup_cons list.inject char.inject simp_thms if_True if_False list.distinct

end
