(* ===== verification/Config_File.thy ===== *)
theory Config_File
  imports Kong_Text "HOL-Library.AList"
begin

text \<open>
  The text of \<open>kong.conf\<close>, from \<open>kong-config/src/parser.rs\<close>: lines of the form key = value, comments,
  quotes; the variables of the environment that override them; and the keys whose values are hidden in
  logs. The hash map the source builds is an association list with distinct keys. The environment is the list of its variables. \<open>None\<close> stands for the panic of a slice
  whose ends are the wrong way round.
\<close>

type_synonym raw_conf = "(string \<times> string) list"

abbreviation squote :: char where
  "squote \<equiv> CHR 0x27"

abbreviation dquote :: char where
  "dquote \<equiv> CHR 0x22"

abbreviation hash :: char where
  "hash \<equiv> CHR 0x23"

definition SENSITIVE_KEYS :: "string list" where
  "SENSITIVE_KEYS = [''pg_password'', ''pg_ro_password'', ''proxy_server'', ''declarative_config_string'',
     ''cluster_cert_key'', ''ssl_cert_key'', ''admin_ssl_cert_key'', ''admin_gui_ssl_cert_key'',
     ''status_ssl_cert_key'', ''client_ssl_cert_key'']"

text \<open>The scan for a comment: the position, the quotes that are open and the byte before.\<close>

fun scan_comment :: "nat \<Rightarrow> bool \<Rightarrow> bool \<Rightarrow> char option \<Rightarrow> string \<Rightarrow> nat option" where
  "scan_comment i sq dq before [] = None"
| "scan_comment i sq dq before (c # cs) =
     (if c = squote \<and> \<not> dq then scan_comment (Suc i) (\<not> sq) dq (Some c) cs
      else if c = dquote \<and> \<not> sq then scan_comment (Suc i) sq (\<not> dq) (Some c) cs
      else if c = hash \<and> \<not> sq \<and> \<not> dq \<and> before = Some (CHR '' '') then Some i
      else scan_comment (Suc i) sq dq (Some c) cs)"

definition find_inline_comment :: "string \<Rightarrow> nat option" where
  "find_inline_comment v = scan_comment 0 False False None v"

definition quoted_by :: "char \<Rightarrow> string \<Rightarrow> bool" where
  "quoted_by q v \<longleftrightarrow> v \<noteq> [] \<and> hd v = q \<and> last v = q"

text \<open>\<open>value[1..value.len() - 1]\<close>\<close>

definition inner_slice :: "string \<Rightarrow> string option" where
  "inner_slice v = (if length v - 1 < 1 then None else Some (butlast (tl v)))"

definition unquote_value :: "string \<Rightarrow> string option" where
  "unquote_value v = (if quoted_by dquote v \<or> quoted_by squote v then inner_slice v else Some v)"

definition strip_comment :: "string \<Rightarrow> string" where
  "strip_comment v = (case find_inline_comment v of Some i \<Rightarrow> trim (take i v) | None \<Rightarrow> v)"

definition parse_key_value :: "string \<Rightarrow> (string \<times> string) option option" where
  "parse_key_value line =
     (case find_sub ''='' line of
        None \<Rightarrow> Some None
      | Some eq \<Rightarrow>
          let key = trim (take eq line); value = strip_comment (trim (drop (eq + 1) line)) in
          (case unquote_value value of
             None \<Rightarrow> None
           | Some v \<Rightarrow> Some (if key = [] then None else Some (key, v))))"

fun conf_lines :: "string list \<Rightarrow> raw_conf \<Rightarrow> raw_conf option" where
  "conf_lines [] acc = Some acc"
| "conf_lines (l # ls) acc =
     (let line = trim l in
      if line = [] \<or> starts_with line [hash] then conf_lines ls acc
      else case parse_key_value line of
        None \<Rightarrow> None
      | Some None \<Rightarrow> conf_lines ls acc
      | Some (Some kv) \<Rightarrow> conf_lines ls (AList.update (fst kv) (snd kv) acc))"

definition parse_conf_file :: "string \<Rightarrow> raw_conf option" where
  "parse_conf_file content = conf_lines (lines content) []"

text \<open>The environment: \<open>KONG_PG_HOST\<close> sets \<open>pg_host\<close>.\<close>

fun env_overrides :: "(string \<times> string) list \<Rightarrow> raw_conf \<Rightarrow> raw_conf" where
  "env_overrides [] acc = acc"
| "env_overrides ((k, v) # vars) acc =
     (case strip_prefix_str ''KONG_'' k of
        Some r \<Rightarrow> env_overrides vars (AList.update (to_lowercase r) v acc)
      | None \<Rightarrow> env_overrides vars acc)"

definition collect_env_overrides :: "(string \<times> string) list \<Rightarrow> raw_conf" where
  "collect_env_overrides vars = env_overrides vars []"

definition is_sensitive :: "string \<Rightarrow> bool" where
  "is_sensitive key = (key \<in> set SENSITIVE_KEYS)"

definition display_value :: "string \<Rightarrow> string \<Rightarrow> string" where
  "display_value key value = (if is_sensitive key then ''******'' else value)"

section \<open>Keys stay distinct\<close>

lemma conf_lines_distinct:
  "conf_lines ls acc = Some kvs \<Longrightarrow> distinct (map fst acc) \<Longrightarrow> distinct (map fst kvs)"
proof (induction ls arbitrary: acc)
  case (Cons l ls)
  then show ?case by (auto simp: Let_def distinct_update split: if_splits option.splits)
qed simp

lemma parse_conf_distinct: "parse_conf_file content = Some kvs \<Longrightarrow> distinct (map fst kvs)"
  by (auto simp: parse_conf_file_def intro: conf_lines_distinct)

lemma env_distinct: "distinct (map fst acc) \<Longrightarrow> distinct (map fst (env_overrides vars acc))"
  by (induction vars acc rule: env_overrides.induct) (auto simp: distinct_update split: option.splits)

lemma collect_env_distinct: "distinct (map fst (collect_env_overrides vars))"
  by (simp add: collect_env_overrides_def env_distinct)

section \<open>A written line is read back\<close>

text \<open>Keys and values that need no quoting.\<close>

definition plain_key :: "string \<Rightarrow> bool" where
  "plain_key k \<longleftrightarrow> k \<noteq> [] \<and> \<not> is_space (hd k) \<and> \<not> is_space (last k) \<and> hd k \<noteq> hash \<and>
     CHR ''='' \<notin> set k \<and> newline \<notin> set k"

definition plain_value :: "string \<Rightarrow> bool" where
  "plain_value v \<longleftrightarrow> v \<noteq> [] \<and> \<not> is_space (hd v) \<and> \<not> is_space (last v) \<and>
     newline \<notin> set v \<and> hash \<notin> set v \<and> squote \<notin> set v \<and> dquote \<notin> set v"

definition conf_line :: "string \<times> string \<Rightarrow> string" where
  "conf_line kv = fst kv @ '' = '' @ snd kv"

definition render_conf :: "raw_conf \<Rightarrow> string" where
  "render_conf kvs = concat (map (\<lambda>kv. conf_line kv @ [newline]) kvs)"

lemma conf_scan_plain: "hash \<notin> set v \<Longrightarrow> scan_comment i sq dq b v = None"
  by (induction v arbitrary: i sq dq b) auto

lemma trim_surround:
  assumes "s \<noteq> []" "\<not> is_space (hd s)" "\<not> is_space (last s)"
  shows "trim ('' '' @ s) = s" "trim (s @ '' '') = s" "trim s = s"
proof -
  have "dropWhile is_space (s @ t) = s @ t" for t using assms by (cases s) auto
  then have "dropWhile is_space s = s" "dropWhile is_space (s @ '' '') = s @ '' ''" by (metis append_Nil2, blast)
  moreover have "dropWhile is_space (rev s) = rev s" using assms by (cases s rule: rev_cases) auto
  ultimately show "trim ('' '' @ s) = s" "trim (s @ '' '') = s" "trim s = s"
    using assms by (simp_all add: trim_def is_space_def [of "CHR '' ''"] dropWhile_append3)
qed

lemma parse_plain_line:
  assumes "plain_key k" "plain_value v"
  shows "parse_key_value (conf_line (k, v)) = Some (Some (k, v))"
proof -
  have "find_sub ''='' ((k @ '' '') @ CHR ''='' # '' '' @ v) = Some (length (k @ '' ''))"
    using assms(1) by (intro find_sub_single) (auto simp: plain_key_def)
  then have f: "find_sub ''='' (conf_line (k, v)) = Some (Suc (length k))" by (simp add: conf_line_def)
  have "trim (take (Suc (length k)) (conf_line (k, v))) = k"
    using trim_surround(2) [of k] assms(1) by (simp add: conf_line_def plain_key_def)
  moreover have "trim (drop (Suc (length k) + 1) (conf_line (k, v))) = v"
    using trim_surround(1) [of v] assms(2) by (simp add: conf_line_def plain_value_def)
  moreover have "strip_comment v = v"
    using assms(2) by (simp add: strip_comment_def find_inline_comment_def plain_value_def conf_scan_plain)
  moreover have "unquote_value v = Some v"
  proof -
    have "hd v \<noteq> squote" "hd v \<noteq> dquote" using assms(2) by (cases v; auto simp: plain_value_def)+
    then show ?thesis by (simp add: unquote_value_def quoted_by_def)
  qed
  ultimately show ?thesis using assms(1) by (simp add: parse_key_value_def f plain_key_def Let_def)
qed

lemma conf_line_shape:
  assumes "plain_key k" "plain_value v"
  shows "trim (conf_line (k, v)) = conf_line (k, v)" "conf_line (k, v) \<noteq> []"
    "\<not> starts_with (conf_line (k, v)) [hash]" "newline \<notin> set (conf_line (k, v))"
    "strip_cr (conf_line (k, v)) = conf_line (k, v)"
proof -
  have "hd (conf_line (k, v)) = hd k" "last (conf_line (k, v)) = last v"
    using assms by (simp_all add: conf_line_def plain_key_def plain_value_def)
  then show "trim (conf_line (k, v)) = conf_line (k, v)" "strip_cr (conf_line (k, v)) = conf_line (k, v)"
    using assms by (auto simp: trim_idle plain_key_def plain_value_def strip_cr_def is_space_def)
  show "conf_line (k, v) \<noteq> []" by (simp add: conf_line_def)
  show "newline \<notin> set (conf_line (k, v))"
    using assms by (auto simp: conf_line_def plain_key_def plain_value_def)
  show "\<not> starts_with (conf_line (k, v)) [hash]"
    using assms(1) by (cases k) (auto simp: starts_with_def conf_line_def plain_key_def)
qed

lemma lines_render:
  "\<forall>(k, v) \<in> set kvs. plain_key k \<and> plain_value v \<Longrightarrow> lines (render_conf kvs) = map conf_line kvs"
proof (induction kvs)
  case (Cons kv kvs)
  obtain k v where kv: "kv = (k, v)" by (cases kv)
  have p: "plain_key k" "plain_value v" using Cons.prems kv by auto
  show ?case using Cons conf_line_shape [OF p]
    by (simp add: lines_def render_conf_def kv lines_from_line)
qed (simp add: lines_def render_conf_def)

lemma update_new: "k \<notin> fst ` set acc \<Longrightarrow> AList.update k v acc = acc @ [(k, v)]"
  by (induction acc) auto

lemma conf_lines_render:
  assumes "\<forall>(k, v) \<in> set kvs. plain_key k \<and> plain_value v" "distinct (map fst (acc @ kvs))"
  shows "conf_lines (map conf_line kvs) acc = Some (acc @ kvs)"
  using assms
proof (induction kvs arbitrary: acc)
  case (Cons kv kvs)
  obtain k v where kv: "kv = (k, v)" by (cases kv)
  have p: "plain_key k" "plain_value v" using Cons.prems kv by auto
  have "AList.update k v acc = acc @ [(k, v)]" using Cons.prems(2) kv by (auto simp: update_new)
  then show ?case using Cons conf_line_shape [OF p] parse_plain_line [OF p] by (simp add: kv)
qed simp

text \<open>
  The configuration parser reads back what is written: a file with one line for each of
  any list of settings with distinct keys parses to exactly those settings.
\<close>

theorem conf_file_roundtrip:
  assumes "distinct (map fst kvs)" "\<forall>(k, v) \<in> set kvs. plain_key k \<and> plain_value v"
  shows "parse_conf_file (render_conf kvs) = Some kvs"
  using conf_lines_render [OF assms(2), of "[]"] assms lines_render [OF assms(2)] by (simp add: parse_conf_file_def)

text \<open>The round trip on a port and a listen directive.\<close>

theorem conf_file_roundtrip_witness:
  "parse_conf_file (render_conf [(''pg_port'', ''5432''), (''proxy_listen'', ''0.0.0.0:8000 ssl'')]) =
     Some [(''pg_port'', ''5432''), (''proxy_listen'', ''0.0.0.0:8000 ssl'')]"
  by (rule conf_file_roundtrip) (simp_all add: plain_key_def plain_value_def is_space_def)

section \<open>Where the parser stops the program\<close>

text \<open>The parser panics on a line exactly when its value is one quote.\<close>

lemma unquote_value_None: "unquote_value v = None \<longleftrightarrow> v = [dquote] \<or> v = [squote]"
  by (cases v; cases "tl v") (auto simp: unquote_value_def quoted_by_def inner_slice_def)

lemma conf_lone_quote_panics: "parse_conf_file (''pg_password = '' @ [dquote]) = None"
  by code_simp

text \<open>Secrets of the token counters are not among the keys whose values are hidden.\<close>

lemma api_keys_are_displayed:
  "k \<in> {''ai_tokenizer_openai_api_key'', ''ai_tokenizer_anthropic_api_key'', ''ai_tokenizer_gemini_api_key''} \<Longrightarrow>
   display_value k v = v"
  by (auto simp: display_value_def is_sensitive_def SENSITIVE_KEYS_def)

end
