(* ===== verification/Kong_Config.thy ===== *)
theory Kong_Config
  imports Config_Fields Config_File
begin

text \<open>
  The configuration of the gateway, from \<open>kong-config/src/config.rs\<close> and \<open>kong-config/src/lib.rs\<close>: setting a
  field from text, applying a whole map of texts, loading (defaults, then the file, then the
  environment), and validating. A hash map is iterated in an order the program does not control, so \<open>apply_raw\<close>
  takes the entries in the order of the iteration and the laws say when that order does not matter. The
  files of the host are a function from paths to what reading them gives. \<open>None\<close> stands for a panic.
\<close>

record kong_config =
  cfg_fields :: "string \<rightharpoonup> config_value"
  nginx_directives :: "string \<rightharpoonup> string"
  cfg_raw :: "string \<rightharpoonup> string"

definition default_config :: kong_config where
  "default_config = \<lparr>cfg_fields = map_of config_defaults, nginx_directives = Map.empty, cfg_raw = Map.empty\<rparr>"

section \<open>Setting\<close>

text \<open>The branch of \<open>headers\<close> clears \<open>headers_upstream\<close> too when its text is off.\<close>

definition store_field :: "reader \<Rightarrow> string \<Rightarrow> string \<Rightarrow> config_value \<Rightarrow> kong_config \<Rightarrow> kong_config" where
  "store_field r key value v cfg =
     (let cfg' = cfg\<lparr>cfg_fields := (cfg_fields cfg)(key \<mapsto> v)\<rparr> in
      if r = AsHeaderTokens \<and> trim value = ''off''
      then cfg'\<lparr>cfg_fields := (cfg_fields cfg')(''headers_upstream'' \<mapsto> C_Strings [])\<rparr>
      else cfg')"

definition reading_of :: "string \<Rightarrow> string \<Rightarrow> (reader \<times> reading) option" where
  "reading_of key value =
     (case (map_of config_readers key, map_of config_fields key) of
        (Some r, Some t) \<Rightarrow> Some (r, read_value r t (trim value))
      | _ \<Rightarrow> None)"

definition set_config :: "string \<Rightarrow> string \<Rightarrow> kong_config \<Rightarrow> kong_config option" where
  "set_config key value cfg =
     (case reading_of key value of
        Some (r, Store v) \<Rightarrow> Some (store_field r key (trim value) v cfg)
      | Some (r, Keep) \<Rightarrow> Some cfg
      | Some (r, Panics) \<Rightarrow> None
      | None \<Rightarrow>
          if starts_with key ''nginx_''
          then Some (cfg\<lparr>nginx_directives := (nginx_directives cfg)(key \<mapsto> trim value)\<rparr>)
          else Some cfg)"

fun set_all :: "raw_conf \<Rightarrow> kong_config \<Rightarrow> kong_config option" where
  "set_all [] cfg = Some cfg"
| "set_all ((k, v) # kvs) cfg = (case set_config k v cfg of None \<Rightarrow> None | Some cfg' \<Rightarrow> set_all kvs cfg')"

definition apply_raw :: "raw_conf \<Rightarrow> kong_config \<Rightarrow> kong_config option" where
  "apply_raw kvs cfg =
     (case set_all kvs cfg of
        None \<Rightarrow> None
      | Some cfg' \<Rightarrow> Some (cfg'\<lparr>cfg_raw := cfg_raw cfg' ++ map_of kvs\<rparr>))"

section \<open>Reading fields\<close>

definition text_of :: "kong_config \<Rightarrow> string \<Rightarrow> string" where
  "text_of cfg k = (case cfg_fields cfg k of Some (C_String s) \<Rightarrow> s | _ \<Rightarrow> [])"

definition opt_text_of :: "kong_config \<Rightarrow> string \<Rightarrow> string option" where
  "opt_text_of cfg k = (case cfg_fields cfg k of Some (C_OptString s) \<Rightarrow> s | _ \<Rightarrow> None)"

definition bool_of :: "kong_config \<Rightarrow> string \<Rightarrow> bool" where
  "bool_of cfg k = (case cfg_fields cfg k of Some (C_Bool b) \<Rightarrow> b | _ \<Rightarrow> False)"

definition opt_bool_of :: "kong_config \<Rightarrow> string \<Rightarrow> bool option" where
  "opt_bool_of cfg k = (case cfg_fields cfg k of Some (C_OptBool b) \<Rightarrow> b | _ \<Rightarrow> None)"

definition num_of :: "kong_config \<Rightarrow> string \<Rightarrow> nat" where
  "num_of cfg k = (case cfg_fields cfg k of Some (C_Num n) \<Rightarrow> n | _ \<Rightarrow> 0)"

definition opt_num_of :: "kong_config \<Rightarrow> string \<Rightarrow> nat option" where
  "opt_num_of cfg k = (case cfg_fields cfg k of Some (C_OptNum n) \<Rightarrow> n | _ \<Rightarrow> None)"

definition int_of :: "kong_config \<Rightarrow> string \<Rightarrow> int" where
  "int_of cfg k = (case cfg_fields cfg k of Some (C_Int i) \<Rightarrow> i | _ \<Rightarrow> 0)"

definition texts_of :: "kong_config \<Rightarrow> string \<Rightarrow> string list" where
  "texts_of cfg k = (case cfg_fields cfg k of Some (C_Strings ss) \<Rightarrow> ss | _ \<Rightarrow> [])"

definition role_of :: "kong_config \<Rightarrow> cluster_role" where
  "role_of cfg = (case cfg_fields cfg ''role'' of Some (C_Role r) \<Rightarrow> r | _ \<Rightarrow> Traditional)"

definition effective_pg_ro_host :: "kong_config \<Rightarrow> string option" where
  "effective_pg_ro_host cfg = opt_text_of cfg ''pg_ro_host''"

definition effective_pg_ro_port :: "kong_config \<Rightarrow> nat" where
  "effective_pg_ro_port cfg = (case opt_num_of cfg ''pg_ro_port'' of Some p \<Rightarrow> p | None \<Rightarrow> num_of cfg ''pg_port'')"

definition effective_pg_ro_database :: "kong_config \<Rightarrow> string" where
  "effective_pg_ro_database cfg =
     (case opt_text_of cfg ''pg_ro_database'' of Some s \<Rightarrow> s | None \<Rightarrow> text_of cfg ''pg_database'')"

definition effective_pg_ro_user :: "kong_config \<Rightarrow> string" where
  "effective_pg_ro_user cfg =
     (case opt_text_of cfg ''pg_ro_user'' of Some s \<Rightarrow> s | None \<Rightarrow> text_of cfg ''pg_user'')"

definition effective_pg_ro_password :: "kong_config \<Rightarrow> string option" where
  "effective_pg_ro_password cfg =
     (if opt_text_of cfg ''pg_ro_password'' \<noteq> None then opt_text_of cfg ''pg_ro_password''
      else opt_text_of cfg ''pg_password'')"

definition effective_pg_ro_ssl :: "kong_config \<Rightarrow> bool" where
  "effective_pg_ro_ssl cfg = (case opt_bool_of cfg ''pg_ro_ssl'' of Some b \<Rightarrow> b | None \<Rightarrow> bool_of cfg ''pg_ssl'')"

definition effective_pg_ro_ssl_verify :: "kong_config \<Rightarrow> bool" where
  "effective_pg_ro_ssl_verify cfg =
     (case opt_bool_of cfg ''pg_ro_ssl_verify'' of Some b \<Rightarrow> b | None \<Rightarrow> bool_of cfg ''pg_ssl_verify'')"

definition is_dbless :: "kong_config \<Rightarrow> bool" where
  "is_dbless cfg = (text_of cfg ''database'' = ''off'')"

definition is_control_plane :: "kong_config \<Rightarrow> bool" where
  "is_control_plane cfg = (role_of cfg = ControlPlane)"

definition is_data_plane :: "kong_config \<Rightarrow> bool" where
  "is_data_plane cfg = (role_of cfg = DataPlane)"

text \<open>
  Sizes: the product is a 64 bit one and has no check of its own; \<open>None\<close> is the overflow, a panic in a build with overflow
  checks.
\<close>

definition scaled_size :: "string \<Rightarrow> nat \<Rightarrow> nat option" where
  "scaled_size num factor =
     (let n = (case parse_unsigned u64_limit (trim num) of Some k \<Rightarrow> k | None \<Rightarrow> 0) * factor in
      if u64_limit < n then None else Some n)"

definition parse_size_string :: "string \<Rightarrow> nat option" where
  "parse_size_string t =
     (let s = to_lowercase (trim t) in
      case strip_suffix_str ''g'' s of
        Some num \<Rightarrow> scaled_size num (1024 * 1024 * 1024)
      | None \<Rightarrow>
          (case strip_suffix_str ''m'' s of
             Some num \<Rightarrow> scaled_size num (1024 * 1024)
           | None \<Rightarrow>
               (case strip_suffix_str ''k'' s of
                  Some num \<Rightarrow> scaled_size num 1024
                | None \<Rightarrow> Some (case parse_unsigned u64_limit s of Some k \<Rightarrow> k | None \<Rightarrow> 0))))"

definition mem_cache_size_bytes :: "kong_config \<Rightarrow> nat option" where
  "mem_cache_size_bytes cfg = parse_size_string (text_of cfg ''mem_cache_size'')"

definition BUNDLED_PLUGINS :: "string list" where
  "BUNDLED_PLUGINS =
     [''cors'', ''grpc-gateway'', ''grpc-web'', ''ip-restriction'', ''request-size-limiting'', ''acl'', ''basic-auth'',
      ''hmac-auth'', ''jwt'', ''key-auth'', ''ldap-auth'', ''oauth2'', ''session'', ''bot-detection'',
      ''request-termination'', ''correlation-id'', ''zipkin'', ''opentelemetry'', ''prometheus'', ''datadog'',
      ''statsd'', ''request-transformer'', ''response-transformer'', ''rate-limiting'', ''response-ratelimiting'',
      ''azure-functions'', ''aws-lambda'', ''pre-function'', ''post-function'', ''tcp-log'', ''udp-log'',
      ''http-log'', ''file-log'', ''syslog'', ''loggly'', ''acme'', ''ai-proxy'', ''ai-prompt-template'',
      ''ai-prompt-decorator'', ''ai-prompt-guard'', ''ai-key-auth'', ''ai-rate-limit'', ''ai-context-compression'',
      ''ai-request-transformer'', ''ai-response-transformer'', ''proxy-cache'', ''xml-threat-protection'',
      ''redirect'', ''standard-webhooks'']"

definition loaded_plugins :: "kong_config \<Rightarrow> string list" where
  "loaded_plugins cfg =
     concat (map (\<lambda>p. if p = ''bundled'' then BUNDLED_PLUGINS else [p]) (texts_of cfg ''plugins''))"

section \<open>Validation\<close>

datatype validation_error =
    UnsupportedDatabase string
  | InvalidLogLevel string
  | InvalidRouterFlavor string
  | ControlPlaneInMemory
  | ControlPlaneWithoutCertificate
  | DataPlaneWithDatabase
  | DataPlaneWithoutControlPlane
  | DataPlaneWithoutCertificate
  | PkiWithoutCaCertificate
  | InvalidWorkerConsistency string
  | UsageQueueCapacityZero
  | UsageQueueCapacityTooLarge
  | UsageBatchSizeZero
  | UsageBatchSizeTooLarge
  | UsageBatchAboveQueue
  | UsageFlushIntervalZero
  | UsageShutdownTimeoutZero
  | UsageDblessCapacityZero
  | UsageDblessCapacityTooLarge
  | BudgetTimeouts
  | BudgetPools
  | BudgetLease
  | BudgetThresholds

datatype config_error = FileNotFound string | IoError string | ValidationError validation_error

definition sat_add :: "nat \<Rightarrow> nat \<Rightarrow> nat \<Rightarrow> nat" where
  "sat_add m x y = min m (x + y)"

definition sat_mul :: "nat \<Rightarrow> nat \<Rightarrow> nat \<Rightarrow> nat" where
  "sat_mul m x y = min m (x * y)"

definition check_role :: "kong_config \<Rightarrow> validation_error option" where
  "check_role cfg =
     (let no_cert = opt_text_of cfg ''cluster_cert'' = None \<or> opt_text_of cfg ''cluster_cert_key'' = None in
      case role_of cfg of
        ControlPlane \<Rightarrow>
          if text_of cfg ''database'' = ''off'' then Some ControlPlaneInMemory
          else if no_cert then Some ControlPlaneWithoutCertificate else None
      | DataPlane \<Rightarrow>
          if text_of cfg ''database'' \<noteq> ''off'' then Some DataPlaneWithDatabase
          else if text_of cfg ''cluster_control_plane'' = [] then Some DataPlaneWithoutControlPlane
          else if no_cert then Some DataPlaneWithoutCertificate else None
      | Traditional \<Rightarrow> None)"

definition AI_USAGE_QUEUE_CAPACITY_MAX :: nat where
  "AI_USAGE_QUEUE_CAPACITY_MAX = 1000000"

definition AI_USAGE_BATCH_SIZE_MAX :: nat where
  "AI_USAGE_BATCH_SIZE_MAX = 1129"

definition AI_USAGE_DBLESS_CAPACITY_MAX :: nat where
  "AI_USAGE_DBLESS_CAPACITY_MAX = 1000000"

definition check_usage :: "kong_config \<Rightarrow> validation_error option" where
  "check_usage cfg =
     (let queue = num_of cfg ''ai_usage_queue_capacity''; batch = num_of cfg ''ai_usage_batch_size'';
          dbless = num_of cfg ''ai_usage_dbless_capacity'' in
      if queue = 0 then Some UsageQueueCapacityZero
      else if AI_USAGE_QUEUE_CAPACITY_MAX < queue then Some UsageQueueCapacityTooLarge
      else if batch = 0 then Some UsageBatchSizeZero
      else if AI_USAGE_BATCH_SIZE_MAX < batch then Some UsageBatchSizeTooLarge
      else if queue < batch then Some UsageBatchAboveQueue
      else if num_of cfg ''ai_usage_flush_interval_ms'' = 0 then Some UsageFlushIntervalZero
      else if num_of cfg ''ai_usage_shutdown_timeout_ms'' = 0 then Some UsageShutdownTimeoutZero
      else if dbless = 0 then Some UsageDblessCapacityZero
      else if AI_USAGE_DBLESS_CAPACITY_MAX < dbless then Some UsageDblessCapacityTooLarge
      else None)"

definition check_budget_pools :: "kong_config \<Rightarrow> validation_error option" where
  "check_budget_pools cfg =
     (let operation = num_of cfg ''ai_budget_operation_timeout_ms''; lock = num_of cfg ''ai_budget_lock_timeout_ms'';
          pool = num_of cfg ''ai_budget_pg_pool_size''; heartbeat = num_of cfg ''ai_budget_heartbeat_pg_pool_size'';
          admin = num_of cfg ''ai_budget_admin_pg_pool_size'';
          reserved = num_of cfg ''ai_budget_recovery_reserved_ops'';
          ops = num_of cfg ''ai_budget_max_concurrent_ops'' in
      if operation = 0 \<or> lock = 0 \<or> operation < lock then Some BudgetTimeouts
      else if pool < 2 \<or> heartbeat \<noteq> 1 \<or> admin = 0 \<or> reserved = 0 \<or> pool \<le> reserved \<or> ops = 0 \<or>
        pool - reserved < ops \<or> 256 < sat_add u32_max (sat_add u32_max pool heartbeat) admin
        then Some BudgetPools
      else None)"

definition check_budget_lease :: "kong_config \<Rightarrow> validation_error option" where
  "check_budget_lease cfg =
     (let lease = num_of cfg ''ai_budget_owner_lease_seconds''; beat = num_of cfg ''ai_budget_owner_heartbeat_ms'' in
      if lease = 0 \<or> beat = 0 \<or> sat_mul u64_limit lease 1000 \<le> sat_mul u64_limit beat 3 \<or>
        sat_mul u64_limit lease 1000 - beat
          \<le> sat_add u64_limit (num_of cfg ''pg_timeout'') (num_of cfg ''ai_budget_operation_timeout_ms'')
        then Some BudgetLease
      else None)"

definition check_budget_thresholds :: "kong_config \<Rightarrow> validation_error option" where
  "check_budget_thresholds cfg =
     (let scan = num_of cfg ''ai_budget_recovery_scan_batch'';
          soft = int_of cfg ''ai_budget_checkpoint_soft_tail_events'';
          hard = int_of cfg ''ai_budget_checkpoint_hard_tail_events'' in
      if num_of cfg ''ai_budget_intent_stale_grace_seconds'' = 0 \<or>
        num_of cfg ''ai_budget_active_intent_capacity'' = 0 \<or> scan = 0 \<or> 10000 < scan \<or>
        num_of cfg ''ai_budget_checkpoint_interval_seconds'' = 0 \<or> soft \<le> 0 \<or> hard \<le> soft \<or> hard \<le> 0
        then Some BudgetThresholds
      else None)"

definition check_names :: "kong_config \<Rightarrow> validation_error option" where
  "check_names cfg =
     (if text_of cfg ''database'' \<notin> set [''postgres'', ''off''] then Some (UnsupportedDatabase (text_of cfg ''database''))
      else if text_of cfg ''log_level'' \<notin>
        set [''debug'', ''info'', ''notice'', ''warn'', ''error'', ''crit'', ''alert'', ''emerg'']
        then Some (InvalidLogLevel (text_of cfg ''log_level''))
      else if text_of cfg ''router_flavor'' \<notin> set [''traditional'', ''traditional_compatible'', ''expressions'']
        then Some (InvalidRouterFlavor (text_of cfg ''router_flavor''))
      else None)"

definition check_consistency :: "kong_config \<Rightarrow> validation_error option" where
  "check_consistency cfg =
     (if text_of cfg ''cluster_mtls'' = ''pki'' \<and> opt_text_of cfg ''cluster_ca_cert'' = None
        then Some PkiWithoutCaCertificate
      else if text_of cfg ''worker_consistency'' \<notin> set [''strict'', ''eventual'']
        then Some (InvalidWorkerConsistency (text_of cfg ''worker_consistency''))
      else None)"

text \<open>The checks in the order of the source; the first that fails is reported.\<close>

definition config_checks :: "(kong_config \<Rightarrow> validation_error option) list" where
  "config_checks =
     [check_names, check_role, check_consistency, check_usage, check_budget_pools, check_budget_lease,
      check_budget_thresholds]"

fun first_error :: "(kong_config \<Rightarrow> validation_error option) list \<Rightarrow> kong_config \<Rightarrow> validation_error + unit" where
  "first_error [] cfg = Inr ()"
| "first_error (c # cs) cfg = (case c cfg of Some e \<Rightarrow> Inl e | None \<Rightarrow> first_error cs cfg)"

definition validate_config :: "kong_config \<Rightarrow> validation_error + unit" where
  "validate_config cfg = first_error config_checks cfg"

section \<open>Loading\<close>

definition validated :: "kong_config \<Rightarrow> config_error + kong_config" where
  "validated cfg = (case validate_config cfg of Inl e \<Rightarrow> Inl (ValidationError e) | Inr _ \<Rightarrow> Inr cfg)"

text \<open>A file of the host: absent, unreadable, or its text. \<open>ord\<close> is the order in which a hash map is iterated.\<close>

datatype host_file = Missing | Unreadable string | Contents string

definition finish_load :: "(raw_conf \<Rightarrow> raw_conf) \<Rightarrow> raw_conf option \<Rightarrow> (string \<times> string) list \<Rightarrow>
    (config_error + kong_config) option" where
  "finish_load ord file_conf vars =
     (let env_conf = collect_env_overrides vars in
      case (case file_conf of None \<Rightarrow> Some default_config | Some kvs \<Rightarrow> apply_raw (ord kvs) default_config) of
        None \<Rightarrow> None
      | Some cfg \<Rightarrow>
          (case (if env_conf = [] then Some cfg else apply_raw (ord env_conf) cfg) of
             None \<Rightarrow> None
           | Some cfg' \<Rightarrow> Some (validated cfg')))"

definition find_default_conf :: "(string \<Rightarrow> host_file) \<Rightarrow> string option" where
  "find_default_conf files = find (\<lambda>p. files p \<noteq> Missing) [''/etc/kong/kong.conf'', ''/etc/kong.conf'']"

definition load_conf_file :: "(string \<Rightarrow> host_file) \<Rightarrow> string \<Rightarrow> (config_error + raw_conf) option" where
  "load_conf_file files path =
     (case files path of
        Contents s \<Rightarrow> map_option Inr (parse_conf_file s)
      | Unreadable e \<Rightarrow> Some (Inl (IoError e))
      | Missing \<Rightarrow> Some (Inl (IoError ''No such file or directory'')))"

definition load_config :: "(raw_conf \<Rightarrow> raw_conf) \<Rightarrow> (string \<Rightarrow> host_file) \<Rightarrow> (string \<times> string) list \<Rightarrow>
    string option \<Rightarrow> (config_error + kong_config) option" where
  "load_config ord files vars conf_path =
     (case conf_path of
        Some path \<Rightarrow>
          if files path = Missing then Some (Inl (FileNotFound path))
          else (case load_conf_file files path of
                  None \<Rightarrow> None
                | Some (Inl e) \<Rightarrow> Some (Inl e)
                | Some (Inr kvs) \<Rightarrow> finish_load ord (Some kvs) vars)
      | None \<Rightarrow>
          (case find_default_conf files of
             None \<Rightarrow> finish_load ord None vars
           | Some path \<Rightarrow>
               (case load_conf_file files path of
                  None \<Rightarrow> None
                | Some (Inl e) \<Rightarrow> Some (Inl e)
                | Some (Inr kvs) \<Rightarrow> finish_load ord (Some kvs) vars)))"

definition load_config_from_string :: "(raw_conf \<Rightarrow> raw_conf) \<Rightarrow> string \<Rightarrow> (string \<times> string) list \<Rightarrow>
    (config_error + kong_config) option" where
  "load_config_from_string ord content vars =
     (case parse_conf_file content of
        None \<Rightarrow> None
      | Some kvs \<Rightarrow>
          (case apply_raw (ord kvs) default_config of
             None \<Rightarrow> None
           | Some cfg \<Rightarrow> map_option validated (apply_raw (ord (collect_env_overrides vars)) cfg)))"

end
