(* ===== verification/Config_Laws.thy ===== *)
theory Config_Laws
  imports Kong_Config
begin

text \<open>
  The laws of the configuration: every field keeps its type; the value of a field after a map
  was applied, which shows that the environment overrides the file, the file the defaults, and that the
  order of the hash map matters for one pair of keys only; what a validated
  configuration guarantees to the budget store; and what becomes of numbers that cannot be read.
\<close>

section \<open>Looking up the tables\<close>

lemma aligned_lookup:
  assumes "map fst xs = map fst ys" "list_all2 (\<lambda>(_, a) (_, b). P a b) xs ys" "map_of xs k = Some a"
  shows "\<exists>b. map_of ys k = Some b \<and> P a b"
  using assms
proof (induction xs arbitrary: ys)
  case (Cons x xs)
  then obtain y ys' where "ys = y # ys'" by (cases ys) auto
  with Cons show ?case by (cases x; cases y) (auto split: if_splits)
qed simp

lemma aligned_None: "map fst xs = map fst ys \<Longrightarrow> map_of xs k = None \<longleftrightarrow> map_of ys k = None"
  by (metis map_of_eq_None_iff set_map)

lemma reader_of_field:
  "map_of config_fields k = Some t \<Longrightarrow> \<exists>r. map_of config_readers k = Some r \<and> reader_fits t r"
  by (rule aligned_lookup [OF _ readers_fit]) (simp_all add: fields_have_readers)

lemma default_of_field:
  "map_of config_fields k = Some t \<Longrightarrow> \<exists>v. map_of config_defaults k = Some v \<and> has_type t v"
  by (rule aligned_lookup [OF _ defaults_fit]) (simp_all add: fields_have_defaults)

lemma reading_cases:
  "(map_of config_fields k = None \<and> reading_of k v = None) \<or>
   (\<exists>t r. map_of config_fields k = Some t \<and> map_of config_readers k = Some r \<and> reader_fits t r \<and>
      reading_of k v = Some (r, read_value r t (trim v)))"
proof (cases "map_of config_fields k")
  case (Some t)
  then show ?thesis using reader_of_field [OF Some] by (auto simp: reading_of_def)
qed (auto simp: reading_of_def split: option.splits)

section \<open>Types are kept\<close>

lemma number_value_typed:
  assumes "t \<in> {T_U16, T_U32, T_U64, T_Usize, T_I64}" "n \<le> type_max t"
  shows "has_type t (number_value t s n)"
proof (cases "t = T_I64")
  case True
  have "parse_i64 s = Some i \<Longrightarrow> - 9223372036854775808 \<le> i \<and> i \<le> 9223372036854775807" for i
    by (auto simp: parse_i64_def split: option.splits dest: parse_unsigned_bound)
  then show ?thesis using True assms(2) by (auto simp: number_value_def split: option.splits)
next
  case False
  then show ?thesis using assms by (auto simp: number_value_def split: option.splits dest: parse_unsigned_bound)
qed

lemma read_value_typed: "reader_fits t r \<Longrightarrow> read_value r t s = Store v \<Longrightarrow> has_type t v"
  by (cases r)
    (auto simp: number_value_typed split: option.splits dest: parse_unsigned_bound simp del: role_from_str.simps)

definition well_typed :: "kong_config \<Rightarrow> bool" where
  "well_typed cfg \<longleftrightarrow>
     list_all (\<lambda>(k, t). case cfg_fields cfg k of Some v \<Rightarrow> has_type (the (map_of config_fields k)) v | None \<Rightarrow> False) config_fields"

lemma well_typed_iff:
  "well_typed cfg \<longleftrightarrow> (\<forall>k t. map_of config_fields k = Some t \<longrightarrow> (\<exists>v. cfg_fields cfg k = Some v \<and> has_type t v))"
proof
  assume w: "well_typed cfg"
  show "\<forall>k t. map_of config_fields k = Some t \<longrightarrow> (\<exists>v. cfg_fields cfg k = Some v \<and> has_type t v)"
  proof (intro allI impI)
    fix k t assume t: "map_of config_fields k = Some t"
    then have "(k, t) \<in> set config_fields" by (rule map_of_SomeD)
    with w t show "\<exists>v. cfg_fields cfg k = Some v \<and> has_type t v"
      unfolding well_typed_def list_all_iff by (force split: option.splits)
  qed
next
  assume a: "\<forall>k t. map_of config_fields k = Some t \<longrightarrow> (\<exists>v. cfg_fields cfg k = Some v \<and> has_type t v)"
  have "\<exists>u. map_of config_fields k = Some u" if "(k, t) \<in> set config_fields" for k t
    using that by (metis fst_conv image_eqI map_of_eq_None_iff option.exhaust)
  with a show "well_typed cfg" unfolding well_typed_def list_all_iff by fastforce
qed

lemma default_well_typed: "well_typed default_config"
  by (simp add: well_typed_iff default_config_def default_of_field)

lemma headers_upstream_type: "map_of config_fields ''headers_upstream'' = Some T_Strings"
  by (simp only: config_fields_def field_tables evaluate_lookup)

lemma set_well_typed:
  assumes "well_typed cfg" "set_config k v cfg = Some cfg'"
  shows "well_typed cfg'"
  using reading_cases [of k v]
proof
  assume "map_of config_fields k = None \<and> reading_of k v = None"
  then show ?thesis using assms by (auto simp: set_config_def well_typed_def split: if_splits)
next
  assume "\<exists>t r. map_of config_fields k = Some t \<and> map_of config_readers k = Some r \<and> reader_fits t r \<and>
      reading_of k v = Some (r, read_value r t (trim v))"
  then obtain t r where t: "map_of config_fields k = Some t" "reader_fits t r"
    "reading_of k v = Some (r, read_value r t (trim v))" by blast
  show ?thesis
  proof (cases "read_value r t (trim v)")
    case (Store x)
    then have "has_type t x" using read_value_typed t by blast
    then show ?thesis using assms t Store headers_upstream_type
      by (auto simp: set_config_def store_field_def well_typed_iff Let_def)
  qed (use assms t in \<open>auto simp: set_config_def\<close>)
qed

lemma set_all_well_typed: "well_typed cfg \<Longrightarrow> set_all kvs cfg = Some cfg' \<Longrightarrow> well_typed cfg'"
proof (induction kvs arbitrary: cfg)
  case (Cons kv kvs)
  then show ?case by (cases kv) (auto split: option.splits dest: set_well_typed)
qed simp

lemma apply_raw_well_typed: "well_typed cfg \<Longrightarrow> apply_raw kvs cfg = Some cfg' \<Longrightarrow> well_typed cfg'"
  by (auto simp: apply_raw_def well_typed_def split: option.splits dest: set_all_well_typed [unfolded well_typed_def])

section \<open>The value of a field after a map was applied\<close>

text \<open>What an entry of the map leaves in its own field.\<close>

definition written :: "string \<Rightarrow> string \<Rightarrow> config_value option \<Rightarrow> config_value option" where
  "written k v old = (case reading_of k v of Some (_, Store x) \<Rightarrow> Some x | _ \<Rightarrow> old)"

abbreviation upstream_key :: string where
  "upstream_key \<equiv> ''headers_upstream''"

definition clears_upstream :: "string \<Rightarrow> string \<Rightarrow> bool" where
  "clears_upstream k v \<longleftrightarrow> (\<exists>x. reading_of k v = Some (AsHeaderTokens, x)) \<and> trim (trim v) = ''off''"

lemma set_field:
  assumes "set_config k v cfg = Some cfg'"
  shows "cfg_fields cfg' j =
    (if j = upstream_key \<and> clears_upstream k v then Some (C_Strings [])
     else if j = k then written k v (cfg_fields cfg k) else cfg_fields cfg j)"
  using reading_cases [of k v]
proof
  assume "map_of config_fields k = None \<and> reading_of k v = None"
  then show ?thesis using assms
    by (auto simp: set_config_def written_def clears_upstream_def split: if_splits)
next
  assume "\<exists>t r. map_of config_fields k = Some t \<and> map_of config_readers k = Some r \<and> reader_fits t r \<and>
      reading_of k v = Some (r, read_value r t (trim v))"
  then obtain t r where r: "reading_of k v = Some (r, read_value r t (trim v))" by blast
  show ?thesis
  proof (cases "read_value r t (trim v)")
    case (Store x)
    then show ?thesis using assms r
      by (auto simp: set_config_def store_field_def written_def clears_upstream_def Let_def)
  next
    case Keep
    then have "r \<noteq> AsHeaderTokens" by auto
    then show ?thesis using assms r Keep by (auto simp: set_config_def written_def clears_upstream_def)
  qed (use assms r in \<open>simp add: set_config_def\<close>)
qed

lemma set_directives:
  assumes "set_config k v cfg = Some cfg'"
  shows "nginx_directives cfg' = (if reading_of k v = None \<and> starts_with k ''nginx_''
      then (nginx_directives cfg)(k \<mapsto> trim v) else nginx_directives cfg)"
    and "cfg_raw cfg' = cfg_raw cfg"
  using assms by (auto simp: set_config_def store_field_def Let_def split: option.splits reading.splits if_splits)

lemma set_panics: "set_config k v cfg = None \<longleftrightarrow> (\<exists>r. reading_of k v = Some (r, Panics))"
  by (auto simp: set_config_def split: option.splits reading.splits)

lemma set_all_field:
  assumes "set_all kvs cfg = Some cfg'" "distinct (map fst kvs)"
    "j = upstream_key \<Longrightarrow> \<forall>(k, v) \<in> set kvs. \<not> clears_upstream k v"
  shows "cfg_fields cfg' j =
    (case map_of kvs j of None \<Rightarrow> cfg_fields cfg j | Some v \<Rightarrow> written j v (cfg_fields cfg j))"
  using assms
proof (induction kvs arbitrary: cfg)
  case (Cons kv kvs)
  obtain k v where kv: "kv = (k, v)" by (cases kv)
  then obtain c where c: "set_config k v cfg = Some c" "set_all kvs c = Some cfg'"
    using Cons.prems(1) by (auto split: option.splits)
  have IH: "cfg_fields cfg' j = (case map_of kvs j of None \<Rightarrow> cfg_fields c j | Some v \<Rightarrow> written j v (cfg_fields c j))"
    using Cons.IH [OF c(2)] Cons.prems by auto
  have f: "cfg_fields c j = (if j = k then written k v (cfg_fields cfg k) else cfg_fields cfg j)"
    using set_field [OF c(1), of j] Cons.prems(3) kv by auto
  show ?case
  proof (cases "j = k")
    case True
    then have "map_of kvs j = None" using Cons.prems(2) kv by (simp add: map_of_eq_None_iff)
    then show ?thesis using IH f kv True by simp
  qed (use IH f kv in \<open>auto split: option.splits\<close>)
qed simp

lemma set_all_directives:
  assumes "set_all kvs cfg = Some cfg'" "distinct (map fst kvs)"
  shows "nginx_directives cfg' j =
    (case map_of kvs j of
       Some v \<Rightarrow> if reading_of j v = None \<and> starts_with j ''nginx_'' then Some (trim v) else nginx_directives cfg j
     | None \<Rightarrow> nginx_directives cfg j)"
    and "cfg_raw cfg' = cfg_raw cfg"
  using assms
proof (induction kvs arbitrary: cfg)
  case (Cons kv kvs)
  obtain k v where kv: "kv = (k, v)" by (cases kv)
  {
    case 1
    then obtain c where c: "set_config k v cfg = Some c" "set_all kvs c = Some cfg'"
      using kv by (auto split: option.splits)
    have "map_of kvs k = None" using 1 kv by (simp add: map_of_eq_None_iff)
    then show ?case using Cons.IH(1) [OF c(2)] 1 kv set_directives(1) [OF c(1)] by (auto split: option.splits)
  next
    case 2
    then obtain c where c: "set_config k v cfg = Some c" "set_all kvs c = Some cfg'"
      using kv by (auto split: option.splits)
    then show ?case using Cons.IH(2) [OF c(2)] 2 kv set_directives(2) [OF c(1)] by simp
  }
qed simp_all

lemma set_all_panics:
  "set_all kvs cfg = None \<longleftrightarrow> (\<exists>(k, v) \<in> set kvs. \<exists>r. reading_of k v = Some (r, Panics))"
proof (induction kvs arbitrary: cfg)
  case (Cons kv kvs)
  obtain k v where kv: "kv = (k, v)" by (cases kv)
  show ?case
  proof (cases "set_config k v cfg")
    case None
    then show ?thesis using set_panics [of k v cfg] by (auto simp: kv)
  next
    case (Some c)
    then have "\<nexists>r. reading_of k v = Some (r, Panics)" using set_panics [of k v cfg] by auto
    then show ?thesis using Some Cons.IH [of c] by (simp add: kv)
  qed
qed simp

text \<open>Without an entry of its own, \<open>headers_upstream\<close> is cleared when some entry clears it.\<close>

lemma set_all_upstream:
  assumes "set_all kvs cfg = Some cfg'" "upstream_key \<notin> fst ` set kvs"
  shows "cfg_fields cfg' upstream_key =
    (if \<exists>(k, v) \<in> set kvs. clears_upstream k v then Some (C_Strings []) else cfg_fields cfg upstream_key)"
  using assms
proof (induction kvs arbitrary: cfg)
  case (Cons kv kvs)
  obtain k v where kv: "kv = (k, v)" by (cases kv)
  then obtain c where c: "set_config k v cfg = Some c" "set_all kvs c = Some cfg'"
    using Cons.prems(1) by (auto split: option.splits)
  have f: "cfg_fields c upstream_key = (if clears_upstream k v then Some (C_Strings []) else cfg_fields cfg upstream_key)"
    using set_field [OF c(1), of upstream_key] Cons.prems(2) kv by auto
  have "cfg_fields cfg' upstream_key =
      (if \<exists>(k, v) \<in> set kvs. clears_upstream k v then Some (C_Strings []) else cfg_fields c upstream_key)"
    using Cons.IH [OF c(2)] Cons.prems(2) by auto
  then show ?case unfolding f kv by auto
qed simp

section \<open>The order of a hash map\<close>

lemma same_entries:
  assumes "set_all kvs cfg = Some c" "set_all kvs' cfg = Some c'" "set kvs' = set kvs"
    "distinct (map fst kvs)" "distinct (map fst kvs')"
    "upstream_key \<in> fst ` set kvs \<Longrightarrow> \<forall>(k, v) \<in> set kvs. \<not> clears_upstream k v"
  shows "c' = c"
proof -
  have m: "map_of kvs' = map_of kvs" using assms(3-5) map_of_inject_set by blast
  have "cfg_fields c' j = cfg_fields c j" for j
  proof (cases "j = upstream_key \<and> upstream_key \<notin> fst ` set kvs")
    case True
    then show ?thesis using set_all_upstream [OF assms(1)] set_all_upstream [OF assms(2)] assms(3) by simp
  next
    case False
    then have "j = upstream_key \<Longrightarrow> \<forall>(k, v) \<in> set kvs. \<not> clears_upstream k v" using assms(6) by blast
    then show ?thesis
      using set_all_field [OF assms(1,4), of j] set_all_field [OF assms(2,5), of j] assms(3) m by simp
  qed
  moreover have "nginx_directives c' = nginx_directives c"
    using set_all_directives(1) [OF assms(1,4)] set_all_directives(1) [OF assms(2,5)] m by (intro ext) simp
  moreover have "cfg_raw c' = cfg_raw c"
    using set_all_directives(2) [OF assms(1,4)] set_all_directives(2) [OF assms(2,5)] by simp
  ultimately show ?thesis by (intro kong_config.equality) auto
qed

text \<open>
  C28. Applying a map of settings gives the same configuration, or the same panic, in whatever order the hash
  map is iterated, unless it holds both \<open>headers = off\<close> and a value for \<open>headers_upstream\<close>.
\<close>

theorem apply_order_irrelevant:
  assumes "distinct (map fst kvs)" "distinct (map fst kvs')" "set kvs' = set kvs"
    "''headers_upstream'' \<in> fst ` set kvs \<Longrightarrow> \<forall>(k, v) \<in> set kvs. \<not> clears_upstream k v"
  shows "apply_raw kvs' cfg = apply_raw kvs cfg"
proof -
  have m: "map_of kvs' = map_of kvs" using assms(1-3) map_of_inject_set by blast
  show ?thesis
  proof (cases "set_all kvs cfg")
    case None
    then have "set_all kvs' cfg = None" using set_all_panics [of kvs cfg] set_all_panics [of kvs' cfg] assms(3) by simp
    then show ?thesis using None by (simp add: apply_raw_def)
  next
    case (Some c)
    then have "set_all kvs' cfg \<noteq> None" using set_all_panics [of kvs cfg] set_all_panics [of kvs' cfg] assms(3) by simp
    then obtain c' where c': "set_all kvs' cfg = Some c'" by auto
    have "c' = c" by (rule same_entries [OF Some c' assms(3,1,2,4)])
    then show ?thesis using Some c' m by (simp add: apply_raw_def)
  qed
qed

text \<open>The exception is real: with both keys the result depends on the order.\<close>

lemma headers_reading:
  "reading_of ''headers'' ''off'' = Some (AsHeaderTokens, Store (C_Strings []))"
  "reading_of ''headers_upstream'' ''x-id'' = Some (AsArray, Store (C_Strings [''x-id'']))"
proof -
  have "map_of config_readers ''headers'' = Some AsHeaderTokens" "map_of config_readers ''headers_upstream'' = Some AsArray"
    "map_of config_fields ''headers'' = Some T_Strings" "map_of config_fields ''headers_upstream'' = Some T_Strings"
    by (simp_all only: config_readers_def config_fields_def field_tables reader_tables evaluate_lookup)
  moreover have "parse_array (trim ''off'') = []" "parse_array (trim ''x-id'') = [''x-id'']" by code_simp+
  ultimately show "reading_of ''headers'' ''off'' = Some (AsHeaderTokens, Store (C_Strings []))"
    "reading_of ''headers_upstream'' ''x-id'' = Some (AsArray, Store (C_Strings [''x-id'']))"
    by (simp_all add: reading_of_def)
qed

lemma headers_order_matters:
  "apply_raw [(''headers'', ''off''), (''headers_upstream'', ''x-id'')] cfg \<noteq>
   apply_raw [(''headers_upstream'', ''x-id''), (''headers'', ''off'')] cfg"
proof -
  have o: "trim ''off'' = ''off''" by code_simp
  then have "set_config ''headers'' ''off'' c =
      Some (c\<lparr>cfg_fields := (cfg_fields c)(''headers'' \<mapsto> C_Strings [], upstream_key \<mapsto> C_Strings [])\<rparr>)" for c
    by (simp add: set_config_def headers_reading store_field_def)
  moreover have "set_config upstream_key ''x-id'' c =
      Some (c\<lparr>cfg_fields := (cfg_fields c)(upstream_key \<mapsto> C_Strings [''x-id''])\<rparr>)" for c
    by (simp add: set_config_def headers_reading store_field_def)
  ultimately have
    "map_option (\<lambda>c. cfg_fields c upstream_key) (apply_raw [(''headers'', ''off''), (upstream_key, ''x-id'')] cfg) = Some (Some (C_Strings [''x-id'']))"
    "map_option (\<lambda>c. cfg_fields c upstream_key) (apply_raw [(upstream_key, ''x-id''), (''headers'', ''off'')] cfg) = Some (Some (C_Strings []))"
    by (simp_all add: apply_raw_def)
  then show ?thesis by auto
qed

text \<open>Two settings in both orders.\<close>

theorem apply_order_irrelevant_witness:
  "apply_raw [(''headers'', ''off''), (''pg_port'', ''5433'')] default_config =
   apply_raw [(''pg_port'', ''5433''), (''headers'', ''off'')] default_config"
  by (rule apply_order_irrelevant) auto

section \<open>Precedence\<close>

definition overridden :: "raw_conf \<Rightarrow> string \<Rightarrow> config_value option \<Rightarrow> config_value option" where
  "overridden kvs k old = (case map_of kvs k of None \<Rightarrow> old | Some v \<Rightarrow> written k v old)"

lemma apply_raw_field:
  assumes "apply_raw kvs cfg = Some cfg'" "distinct (map fst kvs)" "k \<noteq> upstream_key"
  shows "cfg_fields cfg' k = overridden kvs k (cfg_fields cfg k)"
proof -
  obtain c where c: "set_all kvs cfg = Some c" "cfg' = c\<lparr>cfg_raw := cfg_raw c ++ map_of kvs\<rparr>"
    using assms(1) by (auto simp: apply_raw_def split: option.splits)
  then show ?thesis using set_all_field [OF c(1) assms(2), of k] assms(3) by (simp add: overridden_def)
qed

lemma validated_Inr: "validated c = Inr c' \<longleftrightarrow> c' = c \<and> validate_config c = Inr ()"
  by (cases "validate_config c") (auto simp: validated_def)

text \<open>The settings of the configuration file: the one that is named, else one of the default paths, else none.\<close>

definition file_settings :: "(string \<Rightarrow> host_file) \<Rightarrow> string option \<Rightarrow> raw_conf option" where
  "file_settings files conf_path =
     (case (case conf_path of Some p \<Rightarrow> Some p | None \<Rightarrow> find_default_conf files) of
        None \<Rightarrow> Some []
      | Some p \<Rightarrow> (case files p of Contents s \<Rightarrow> parse_conf_file s | _ \<Rightarrow> None))"

lemma apply_nothing: "apply_raw [] cfg = Some cfg"
  by (simp add: apply_raw_def)

lemma load_conf_file_Inr: "load_conf_file files p = Some (Inr kvs) \<longleftrightarrow> (\<exists>s. files p = Contents s \<and> parse_conf_file s = Some kvs)"
  by (auto simp: load_conf_file_def split: host_file.splits)

lemma load_config_steps:
  assumes "load_config ord files vars conf_path = Some (Inr cfg)" "ord [] = []"
  shows "\<exists>kvs c. file_settings files conf_path = Some kvs \<and> distinct (map fst kvs) \<and>
    apply_raw (ord kvs) default_config = Some c \<and> apply_raw (ord (collect_env_overrides vars)) c = Some cfg"
proof -
  obtain conf where f: "finish_load ord conf vars = Some (Inr cfg)"
    and s: "file_settings files conf_path = Some (case conf of None \<Rightarrow> [] | Some kvs \<Rightarrow> kvs)"
    using assms(1)
    by (auto simp: load_config_def file_settings_def load_conf_file_Inr split: option.splits sum.splits if_splits)
  let ?kvs = "case conf of None \<Rightarrow> [] | Some kvs \<Rightarrow> kvs"
  obtain c where "apply_raw (ord ?kvs) default_config = Some c" "apply_raw (ord (collect_env_overrides vars)) c = Some cfg"
    using f assms(2)
    by (auto simp: finish_load_def Let_def validated_Inr apply_nothing split: option.splits if_splits)
  moreover have "distinct (map fst ?kvs)"
    using s parse_conf_distinct by (auto simp: file_settings_def split: option.splits host_file.splits)
  ultimately show ?thesis using s by blast
qed

text \<open>
  C14. Loading merges by priority: for every setting (other than \<open>headers_upstream\<close>, which \<open>headers\<close> may clear) the
  loaded value is what the environment says, else what the configuration file says (the named one, or the first of the default paths), else
  the default. The order of the hash maps plays no role.
\<close>

theorem load_precedence:
  assumes "\<And>kvs. iterates ord kvs" "load_config ord files vars conf_path = Some (Inr cfg)" "k \<noteq> ''headers_upstream''"
  shows "\<exists>file. file_settings files conf_path = Some file \<and>
    cfg_fields cfg k = overridden (collect_env_overrides vars) k (overridden file k (map_of config_defaults k))"
proof -
  let ?env = "collect_env_overrides vars"
  have "ord [] = []" using assms(1) [of "[]"] by (simp add: iterates_def)
  from load_config_steps [OF assms(2) this] obtain kvs c
    where fs: "file_settings files conf_path = Some kvs" and fd: "distinct (map fst kvs)"
      and c: "apply_raw (ord kvs) default_config = Some c" "apply_raw (ord ?env) c = Some cfg" by blast
  have ed: "distinct (map fst ?env)" by (rule collect_env_distinct)
  have "cfg_fields cfg k = overridden (ord ?env) k (cfg_fields c k)"
    using apply_raw_field [OF c(2)] assms(1,3) ed by (simp add: iterates_distinct_fst)
  moreover have "cfg_fields c k = overridden (ord kvs) k (cfg_fields default_config k)"
    using apply_raw_field [OF c(1)] assms(1,3) fd by (simp add: iterates_distinct_fst)
  ultimately show ?thesis
    using fs iterates_map_of [OF assms(1) fd] iterates_map_of [OF assms(1) ed]
    by (simp add: overridden_def default_config_def)
qed

section \<open>What validation guarantees\<close>

lemma first_error_Inr: "first_error cs cfg = Inr u \<longleftrightarrow> (\<forall>c \<in> set cs. c cfg = None)"
  by (induction cs) (auto split: option.splits)

lemma validate_Inr:
  "validate_config cfg = Inr u \<longleftrightarrow> check_names cfg = None \<and> check_role cfg = None \<and> check_consistency cfg = None \<and>
     check_usage cfg = None \<and> check_budget_pools cfg = None \<and> check_budget_lease cfg = None \<and>
     check_budget_thresholds cfg = None"
  by (simp add: validate_config_def first_error_Inr config_checks_def del: first_error.simps)

text \<open>
  C25. In a validated configuration an owner of the budget ledger loses its lease only after three missed heartbeats,
  a connection and one operation fit into the lease after a heartbeat, the requests and the recovery
  share the pool without exceeding it, all pools together stay within 256 connections, and a lock wait ends before its
  operation. The inequalities are those of the numbers: the saturating arithmetic of the check hides no overflow.
\<close>

theorem validated_budget_limits:
  assumes "validate_config cfg = Inr ()"
  shows "3 * num_of cfg ''ai_budget_owner_heartbeat_ms'' < 1000 * num_of cfg ''ai_budget_owner_lease_seconds'' \<and>
    num_of cfg ''pg_timeout'' + num_of cfg ''ai_budget_operation_timeout_ms'' +
      num_of cfg ''ai_budget_owner_heartbeat_ms'' < 1000 * num_of cfg ''ai_budget_owner_lease_seconds'' \<and>
    num_of cfg ''ai_budget_max_concurrent_ops'' + num_of cfg ''ai_budget_recovery_reserved_ops''
      \<le> num_of cfg ''ai_budget_pg_pool_size'' \<and>
    num_of cfg ''ai_budget_pg_pool_size'' + num_of cfg ''ai_budget_heartbeat_pg_pool_size'' +
      num_of cfg ''ai_budget_admin_pg_pool_size'' \<le> 256 \<and>
    0 < num_of cfg ''ai_budget_lock_timeout_ms'' \<and>
    num_of cfg ''ai_budget_lock_timeout_ms'' \<le> num_of cfg ''ai_budget_operation_timeout_ms''"
proof (intro conjI)
  have l: "check_budget_lease cfg = None" and p: "check_budget_pools cfg = None" using assms by (simp_all add: validate_Inr)
  note lease = l [unfolded check_budget_lease_def Let_def sat_mul_def sat_add_def min_def]
  note pools = p [unfolded check_budget_pools_def Let_def sat_add_def min_def]
  show "3 * num_of cfg ''ai_budget_owner_heartbeat_ms'' < 1000 * num_of cfg ''ai_budget_owner_lease_seconds''"
    using lease by (auto split: if_splits)
  show "num_of cfg ''pg_timeout'' + num_of cfg ''ai_budget_operation_timeout_ms'' +
      num_of cfg ''ai_budget_owner_heartbeat_ms'' < 1000 * num_of cfg ''ai_budget_owner_lease_seconds''"
    using lease by (auto split: if_splits)
  show "num_of cfg ''ai_budget_max_concurrent_ops'' + num_of cfg ''ai_budget_recovery_reserved_ops''
      \<le> num_of cfg ''ai_budget_pg_pool_size''" using pools by (auto split: if_splits)
  show "num_of cfg ''ai_budget_pg_pool_size'' + num_of cfg ''ai_budget_heartbeat_pg_pool_size'' +
      num_of cfg ''ai_budget_admin_pg_pool_size'' \<le> 256" using pools by (auto split: if_splits)
  show "0 < num_of cfg ''ai_budget_lock_timeout_ms''"
    "num_of cfg ''ai_budget_lock_timeout_ms'' \<le> num_of cfg ''ai_budget_operation_timeout_ms''"
    using pools by (auto split: if_splits)
qed

section \<open>Numbers that cannot be read\<close>

definition usage_keys :: "string list" where
  "usage_keys = map fst usage_fields"

text \<open>The readers of numbers, what they fall back to, and the text they read.\<close>

fun falls_back :: "reader \<Rightarrow> string \<Rightarrow> config_value \<Rightarrow> bool" where
  "falls_back (NumberOr n) k v = (v = C_Num n \<or> v = C_Int (int n) \<or> k \<in> set usage_keys \<and> n = 0)"
| "falls_back (SecondsOr n) k v = (v = C_Num n \<or> v = C_Int (int n))"
| "falls_back IfNumber k v = (v = C_OptNum None)"
| "falls_back _ k v = True"

fun number_text :: "reader \<Rightarrow> string \<Rightarrow> string option" where
  "number_text (NumberOr n) v = Some (trim v)"
| "number_text (SecondsOr n) v = Some (trim_end_letters (trim v))"
| "number_text IfNumber v = Some (trim v)"
| "number_text _ v = None"

lemma fallback_is_default:
  "list_all2 (\<lambda>(k, r) (_, v). falls_back r k v) config_readers config_defaults"
  by (simp add: config_defaults_def config_readers_def reader_tables default_tables usage_keys_def usage_fields_def)

lemma zero_usage_refused:
  assumes "k \<in> set usage_keys" "num_of cfg k = 0"
  shows "validate_config cfg \<noteq> Inr ()"
proof -
  have "k \<in> {''ai_usage_queue_capacity'', ''ai_usage_batch_size'', ''ai_usage_flush_interval_ms'',
      ''ai_usage_shutdown_timeout_ms'', ''ai_usage_dbless_capacity''}"
    using assms(1) by (auto simp: usage_keys_def usage_fields_def)
  then have "check_usage cfg \<noteq> None" using assms(2) by (auto simp: check_usage_def Let_def)
  then show ?thesis by (simp add: validate_Inr)
qed

definition unreadable :: "field_type \<Rightarrow> string \<Rightarrow> bool" where
  "unreadable t s = (if t = T_I64 then parse_i64 s = None else parse_unsigned (type_max t) s = None)"

lemma fallback_of:
  assumes "map_of config_readers k = Some r"
  shows "\<exists>v. map_of config_defaults k = Some v \<and> falls_back r k v"
proof -
  have "map fst config_readers = map fst config_defaults" by (simp add: fields_have_readers fields_have_defaults)
  moreover have "list_all2 (\<lambda>(_, a) (_, b). falls_back (snd a) (fst a) b)
      (map (\<lambda>(k, r). (k, (k, r))) config_readers) config_defaults"
    using fallback_is_default by (simp add: list.rel_map case_prod_unfold)
  moreover have "map_of (map (\<lambda>(k, r). (k, (k, r))) xs) k = map_option (Pair k) (map_of xs k)" for xs :: "(string \<times> reader) list"
    by (induction xs) auto
  ultimately show ?thesis
    using aligned_lookup [of "map (\<lambda>(k, r). (k, (k, r))) config_readers" config_defaults _ k "(k, r)"] assms
    by (fastforce simp: case_prod_unfold comp_def)
qed

lemma unreadable_default:
  assumes "unreadable t s" "has_type t d" "d = C_Num n \<or> d = C_Int (int n)"
  shows "number_value t s n = d"
  using assms by (auto simp: number_value_def unreadable_def)

text \<open>
  C29. A number that cannot be read never takes effect in another form. It concerns every integer setting, required or
  optional: if the text of the setting is not a number, or is too large for the field, then the field gets the documented
  default (an optional one: no value), or the whole configuration is refused. The text that is read is the trimmed value; for
  the shutdown timeout of the workers it is the value without its trailing letters. (The sampling rate of traces, a floating
  point number, is not modelled.)
\<close>

theorem unreadable_number_is_harmless:
  assumes "map_of config_readers k = Some r" "map_of config_fields k = Some t" "number_text r v = Some s" "unreadable t s"
    "set_config k v cfg = Some cfg'"
  shows "cfg_fields cfg' k = cfg_fields default_config k \<or> validate_config cfg' \<noteq> Inr ()"
proof -
  obtain d where d: "map_of config_defaults k = Some d" "falls_back r k d" using fallback_of [OF assms(1)] by blast
  have td: "has_type t d" using default_of_field [OF assms(2)] d(1) by auto
  have f: "cfg_fields cfg' k = written k v (cfg_fields cfg k)" if "r \<noteq> AsHeaderTokens" "\<not> (k = upstream_key \<and> clears_upstream k v)"
    using set_field [OF assms(5), of k] that by auto
  have r: "reading_of k v = Some (r, read_value r t (trim v))" using assms(1,2) by (simp add: reading_of_def)
  then have nc: "\<not> clears_upstream k v" "r \<noteq> AsHeaderTokens" using assms(3) by (auto simp: clears_upstream_def)
  have w: "cfg_fields cfg' k = written k v (cfg_fields cfg k)" using f nc by simp
  have zero: "validate_config cfg' \<noteq> Inr ()" if "k \<in> set usage_keys" "cfg_fields cfg' k = Some (C_Num 0) \<or> cfg_fields cfg' k = Some (C_Int 0)"
    using zero_usage_refused [OF that(1), of cfg'] that(2) by (auto simp: num_of_def)
  show ?thesis
  proof (cases r)
    case (NumberOr n)
    have s: "s = trim v" using assms(3) NumberOr by simp
    have nv: "number_value t s n = (if t = T_I64 then C_Int (int n) else C_Num n)"
      using assms(4) by (auto simp: number_value_def unreadable_def)
    show ?thesis
      using d td w r NumberOr unreadable_default [OF assms(4) td, of n] zero
      by (auto simp: written_def default_config_def s nv [unfolded s] split: if_splits)
  next
    case (SecondsOr n)
    then show ?thesis using d td w r assms(3) unreadable_default [OF assms(4) td, of n]
      by (auto simp: written_def default_config_def)
  next
    case IfNumber
    then have "t \<noteq> T_I64" using td d(2) by auto
    then show ?thesis using IfNumber d w r assms(3,4) by (auto simp: written_def default_config_def unreadable_def)
  qed (use assms(3) in auto)
qed

section \<open>The defaults are valid\<close>

lemma default_lookups:
  "map_of config_defaults ''cluster_cert'' = Some (C_OptString None)"
  "map_of config_defaults ''cluster_cert_key'' = Some (C_OptString None)"
  "map_of config_defaults ''database'' = Some (C_String ''postgres'')"
  "map_of config_defaults ''cluster_control_plane'' = Some (C_String ''127.0.0.1:8005'')"
  "map_of config_defaults ''ai_usage_queue_capacity'' = Some (C_Num 8192)"
  "map_of config_defaults ''ai_usage_batch_size'' = Some (C_Num 256)"
  "map_of config_defaults ''ai_usage_dbless_capacity'' = Some (C_Num 10000)"
  "map_of config_defaults ''ai_usage_flush_interval_ms'' = Some (C_Num 500)"
  "map_of config_defaults ''ai_usage_shutdown_timeout_ms'' = Some (C_Num 5000)"
  "map_of config_defaults ''ai_budget_operation_timeout_ms'' = Some (C_Num 2000)"
  "map_of config_defaults ''ai_budget_lock_timeout_ms'' = Some (C_Num 500)"
  "map_of config_defaults ''ai_budget_pg_pool_size'' = Some (C_Num 10)"
  "map_of config_defaults ''ai_budget_heartbeat_pg_pool_size'' = Some (C_Num 1)"
  "map_of config_defaults ''ai_budget_admin_pg_pool_size'' = Some (C_Num 2)"
  "map_of config_defaults ''ai_budget_recovery_reserved_ops'' = Some (C_Num 2)"
  "map_of config_defaults ''ai_budget_max_concurrent_ops'' = Some (C_Num 8)"
  "map_of config_defaults ''ai_budget_owner_lease_seconds'' = Some (C_Num 30)"
  "map_of config_defaults ''ai_budget_owner_heartbeat_ms'' = Some (C_Num 5000)"
  "map_of config_defaults ''pg_timeout'' = Some (C_Num 5000)"
  "map_of config_defaults ''ai_budget_recovery_scan_batch'' = Some (C_Num 100)"
  "map_of config_defaults ''ai_budget_checkpoint_soft_tail_events'' = Some (C_Int 10000)"
  "map_of config_defaults ''ai_budget_checkpoint_hard_tail_events'' = Some (C_Int 100000)"
  "map_of config_defaults ''ai_budget_intent_stale_grace_seconds'' = Some (C_Num 60)"
  "map_of config_defaults ''ai_budget_active_intent_capacity'' = Some (C_Num 50000)"
  "map_of config_defaults ''ai_budget_checkpoint_interval_seconds'' = Some (C_Num 60)"
  "map_of config_defaults ''log_level'' = Some (C_String ''notice'')"
  "map_of config_defaults ''router_flavor'' = Some (C_String ''traditional_compatible'')"
  "map_of config_defaults ''cluster_mtls'' = Some (C_String ''shared'')"
  "map_of config_defaults ''cluster_ca_cert'' = Some (C_OptString None)"
  "map_of config_defaults ''worker_consistency'' = Some (C_String ''eventual'')"
  "map_of config_defaults ''role'' = Some (C_Role Traditional)"
  by (simp_all only: config_defaults_def default_tables evaluate_lookup)

lemmas field_readers = num_of_def int_of_def text_of_def opt_text_of_def role_of_def

lemma default_checks:
  "check_names default_config = None" "check_role default_config = None" "check_consistency default_config = None"
  "check_usage default_config = None" "check_budget_pools default_config = None"
  "check_budget_lease default_config = None" "check_budget_thresholds default_config = None"
  by (simp_all add: check_names_def check_role_def check_consistency_def check_usage_def check_budget_pools_def
      check_budget_lease_def check_budget_thresholds_def field_readers default_config_def default_lookups
      AI_USAGE_QUEUE_CAPACITY_MAX_def AI_USAGE_BATCH_SIZE_MAX_def AI_USAGE_DBLESS_CAPACITY_MAX_def
      sat_add_def sat_mul_def)

lemma default_valid: "validate_config default_config = Inr ()"
  by (simp add: validate_Inr default_checks)

text \<open>The limits of the defaults.\<close>

theorem validated_budget_limits_witness:
  "3 * num_of default_config ''ai_budget_owner_heartbeat_ms'' <
     1000 * num_of default_config ''ai_budget_owner_lease_seconds'' \<and>
   num_of default_config ''ai_budget_max_concurrent_ops'' = 8"
  using validated_budget_limits [OF default_valid] by (simp add: num_of_def default_config_def default_lookups)

text \<open>A port that is not a number.\<close>

lemma pg_port_entry:
  "map_of config_readers ''pg_port'' = Some (NumberOr 5432)" "map_of config_fields ''pg_port'' = Some T_U16"
  "map_of config_defaults ''pg_port'' = Some (C_Num 5432)"
  by (simp_all only: config_readers_def config_fields_def config_defaults_def field_tables reader_tables default_tables
      evaluate_lookup)

lemma unreadable_port: "unreadable T_U16 (trim ''54-32'')"
  by (simp add: unreadable_def parse_unsigned_def trim_def is_space_def read_char_def)

theorem unreadable_number_is_harmless_witness:
  "case set_config ''pg_port'' ''54-32'' default_config of
     Some cfg \<Rightarrow> cfg_fields cfg ''pg_port'' = Some (C_Num 5432) \<or> validate_config cfg \<noteq> Inr () | None \<Rightarrow> False"
proof -
  obtain cfg where c: "set_config ''pg_port'' ''54-32'' default_config = Some cfg"
    using pg_port_entry by (cases "set_config ''pg_port'' ''54-32'' default_config")
      (auto simp: set_panics reading_of_def)
  show ?thesis
    using unreadable_number_is_harmless [OF pg_port_entry(1,2) _ unreadable_port c] c pg_port_entry(3)
    by (simp add: default_config_def)
qed

text \<open>A port in the file and another in the environment.\<close>

theorem load_precedence_witness:
  "case load_config id (\<lambda>_. Contents (render_conf [(''pg_port'', ''6000'')])) [(''KONG_PG_PORT'', ''7000'')] None of
     Some (Inr cfg) \<Rightarrow> cfg_fields cfg ''pg_port'' = Some (C_Num 7000) | _ \<Rightarrow> False"
proof -
  have i: "iterates id m" for m :: raw_conf by (simp add: iterates_def)
  have f: "parse_conf_file (render_conf [(''pg_port'', ''6000'')]) = Some [(''pg_port'', ''6000'')]"
    by code_simp
  have e: "collect_env_overrides [(''KONG_PG_PORT'', ''7000'')] = [(''pg_port'', ''7000'')]"
    by code_simp
  have r: "reading_of ''pg_port'' ''6000'' = Some (NumberOr 5432, Store (C_Num 6000))"
    "reading_of ''pg_port'' ''7000'' = Some (NumberOr 5432, Store (C_Num 7000))"
    by (simp_all add: reading_of_def pg_port_entry number_value_def parse_unsigned_def trim_def is_space_def read_char_def)
  define cfg where "cfg = \<lparr>cfg_fields = (map_of config_defaults)(''pg_port'' \<mapsto> C_Num 7000),
    nginx_directives = Map.empty, cfg_raw = [''pg_port'' \<mapsto> ''7000'']\<rparr>"
  have n: "num_of cfg k = (if k = ''pg_port'' then 7000 else num_of default_config k)" for k
    by (simp add: num_of_def cfg_def default_config_def)
  have o: "text_of cfg k = (if k = ''pg_port'' then [] else text_of default_config k)"
    "opt_text_of cfg k = (if k = ''pg_port'' then None else opt_text_of default_config k)"
    "int_of cfg k = (if k = ''pg_port'' then 0 else int_of default_config k)" "role_of cfg = role_of default_config" for k
    by (simp_all add: text_of_def opt_text_of_def int_of_def role_of_def cfg_def default_config_def)
  note same = n o list.inject char.inject simp_thms list.distinct if_False
  have "check_names cfg = check_names default_config" "check_role cfg = check_role default_config"
    "check_consistency cfg = check_consistency default_config" "check_usage cfg = check_usage default_config"
    "check_budget_pools cfg = check_budget_pools default_config"
    "check_budget_lease cfg = check_budget_lease default_config"
    "check_budget_thresholds cfg = check_budget_thresholds default_config"
    by (simp_all only: check_names_def check_role_def check_consistency_def check_usage_def
        check_budget_pools_def check_budget_lease_def check_budget_thresholds_def same)
  then have "validate_config cfg = Inr ()" by (simp add: validate_Inr default_checks)
  then have l: "load_config id (\<lambda>_. Contents (render_conf [(''pg_port'', ''6000'')])) [(''KONG_PG_PORT'', ''7000'')] None = Some (Inr cfg)"
    by (simp add: load_config_def find_default_conf_def load_conf_file_def finish_load_def f e apply_raw_def set_config_def r
        store_field_def validated_Inr default_config_def cfg_def)
  show ?thesis using load_precedence [OF i l, of "''pg_port''"] l by (auto simp: file_settings_def find_default_conf_def f e overridden_def written_def r)
qed

end
