(* ===== verification/Dbless_Store.thy ===== *)
theory Dbless_Store
  imports Key_Auth "HOL-Library.AList"
begin

text \<open>
  The database of a gateway without one, from \<open>kong-db/src/dbless.rs\<close>: a declarative configuration is
  loaded into tables with an index of names and one of foreign keys, and the data access interface of
  \<open>kong-core/src/traits/dao.rs\<close> reads them. Hash maps of tables are maps; a table, which is
  also listed, is an association list with distinct keys. Parameters stand for the crates: the text form of
  identifiers, base64, the JSON form of a list of strings, the conversion of an entity, and the
  random identifiers. Texts of errors are shortened. Page sizes are natural numbers: the source adds
  one to a size, which the administration interface limits to a thousand. A poisoned lock is left out: nothing panics while one is
  held.
\<close>

section \<open>Pages and keys\<close>

datatype TagFilterMode = TagAnd | TagOr

record page_params =
  pp_size :: nat
  pp_offset :: "string option"
  pp_tags :: "string list option"
  pp_tags_mode :: TagFilterMode
  pp_filters :: "(string \<times> string) list"

definition default_page_params :: page_params where
  "default_page_params = \<lparr>pp_size = 100, pp_offset = None, pp_tags = None, pp_tags_mode = TagAnd, pp_filters = []\<rparr>"

record 'e page =
  pg_data :: "'e list"
  pg_offset :: "string option"
  pg_next :: "string option"

datatype PrimaryKey = IdKey uuid | EndpointKey string

record 'e db_codec =
  dc_parse_uuid :: "string \<Rightarrow> uuid option"
  dc_uuid_text :: "uuid \<Rightarrow> string"
  dc_b64_encode :: "string \<Rightarrow> string"
  dc_b64_decode :: "string \<Rightarrow> string option"
  dc_print_list :: "string list \<Rightarrow> string"
  dc_parse_list :: "string \<Rightarrow> string list option"
  dc_from_value :: "Value \<Rightarrow> 'e option"
  dc_to_value :: "'e \<Rightarrow> Value"

definition from_str_or_uuid :: "'e db_codec \<Rightarrow> string \<Rightarrow> PrimaryKey" where
  "from_str_or_uuid cd s = (case dc_parse_uuid cd s of Some u \<Rightarrow> IdKey u | None \<Rightarrow> EndpointKey s)"

section \<open>The store\<close>

type_synonym table = "(uuid \<times> Value) list"

record dbless_store =
  ds_data :: "string \<rightharpoonup> table"
  ds_endpoint_keys :: "string \<rightharpoonup> (string \<rightharpoonup> uuid)"
  ds_foreign_keys :: "string \<Rightarrow> string \<Rightarrow> uuid \<rightharpoonup> uuid list"

definition dbless_new :: dbless_store where
  "dbless_new = \<lparr>ds_data = Map.empty, ds_endpoint_keys = Map.empty, ds_foreign_keys = (\<lambda>_ _. Map.empty)\<rparr>"

definition SUPPORTED_FORMAT_VERSIONS :: "string list" where
  "SUPPORTED_FORMAT_VERSIONS = [''1.1'', ''2.1'', ''3.0'']"

definition entity_types :: "(string \<times> string) list" where
  "entity_types =
     [(''services'', ''name''), (''routes'', ''name''), (''consumers'', ''username''), (''upstreams'', ''name''),
      (''targets'', []), (''plugins'', []), (''certificates'', []), (''snis'', ''name''), (''ca_certificates'', []),
      (''vaults'', ''prefix''), (''key_sets'', ''name''), (''keys'', ''name''), (''ai_providers'', ''name''),
      (''ai_models'', []), (''ai_virtual_keys'', ''name'')]"

text \<open>The identifier in a field of an object; the errors of the source are never shown.\<close>

definition extract_uuid :: "'e db_codec \<Rightarrow> Value \<Rightarrow> string \<Rightarrow> uuid option" where
  "extract_uuid cd json field =
     Option.bind (Option.bind (json_field field json) as_str) (dc_parse_uuid cd)"

definition fk_fields :: "string \<Rightarrow> string list" where
  "fk_fields table_name =
     (if table_name = ''routes'' then [''service'']
      else if table_name = ''targets'' then [''upstream'']
      else if table_name = ''plugins'' then [''route'', ''service'', ''consumer'']
      else if table_name = ''snis'' then [''certificate'']
      else if table_name = ''keys'' then [''set'']
      else if table_name = ''ai_models'' then [''provider_id'']
      else if table_name = ''ai_virtual_keys'' then [''consumer_id'']
      else [])"

text \<open>A reference is an object with an identifier, or the identifier itself.\<close>

definition fk_target :: "'e db_codec \<Rightarrow> Value \<Rightarrow> string \<Rightarrow> uuid option" where
  "fk_target cd entity fk_field =
     Option.bind (json_field fk_field entity) (\<lambda>fk_obj.
       case fk_obj of
         JObject obj \<Rightarrow> extract_uuid cd fk_obj ''id''
       | _ \<Rightarrow> Option.bind (as_str fk_obj) (dc_parse_uuid cd))"

definition push_fk :: "uuid \<Rightarrow> uuid \<Rightarrow> (uuid \<rightharpoonup> uuid list) \<Rightarrow> (uuid \<rightharpoonup> uuid list)" where
  "push_fk fk_id entity_id m =
     m(fk_id \<mapsto> (case m fk_id of None \<Rightarrow> [] | Some ids \<Rightarrow> ids) @ [entity_id])"

fun index_fks :: "'e db_codec \<Rightarrow> Value \<Rightarrow> uuid \<Rightarrow> string list \<Rightarrow> (string \<Rightarrow> uuid \<rightharpoonup> uuid list) \<Rightarrow>
    (string \<Rightarrow> uuid \<rightharpoonup> uuid list)" where
  "index_fks cd entity entity_id [] fks = fks"
| "index_fks cd entity entity_id (f # fs) fks =
     index_fks cd entity entity_id fs
       (case fk_target cd entity f of
          Some fk_id \<Rightarrow> fks(f := push_fk fk_id entity_id (fks f))
        | None \<Rightarrow> fks)"

definition build_fk_index :: "'e db_codec \<Rightarrow> string \<Rightarrow> Value \<Rightarrow> (string \<Rightarrow> string \<Rightarrow> uuid \<rightharpoonup> uuid list) \<Rightarrow>
    (string \<Rightarrow> string \<Rightarrow> uuid \<rightharpoonup> uuid list)" where
  "build_fk_index cd table_name entity foreign_keys =
     (case extract_uuid cd entity ''id'' of
        None \<Rightarrow> foreign_keys
      | Some entity_id \<Rightarrow>
          foreign_keys(table_name :=
            index_fks cd entity entity_id (fk_fields table_name) (foreign_keys table_name)))"

section \<open>Loading\<close>

text \<open>\<open>Map::insert\<close> of serde_json, whose keys are in byte order.\<close>

definition json_insert :: "string \<Rightarrow> Value \<Rightarrow> json_map \<Rightarrow> json_map" where
  "json_insert k v m =
     (if map_of m k = None then insert_by (\<lambda>a b. cmp_string (fst a) (fst b)) (k, v) m
      else map (\<lambda>(j, w). if j = k then (j, v) else (j, w)) m)"

definition with_id :: "'e db_codec \<Rightarrow> uuid \<Rightarrow> Value \<Rightarrow> Value" where
  "with_id cd uid entity =
     (case entity of JObject obj \<Rightarrow> JObject (json_insert ''id'' (JString (dc_uuid_text cd uid)) obj) | _ \<Rightarrow> entity)"

text \<open>The entity with its identifier; a missing or unreadable one is replaced by a random one.\<close>

definition identified :: "'e db_codec \<Rightarrow> (nat \<Rightarrow> uuid) \<Rightarrow> nat \<Rightarrow> Value \<Rightarrow> uuid \<times> Value \<times> nat" where
  "identified cd supply n entity =
     (case extract_uuid cd entity ''id'' of
        Some uid \<Rightarrow> (uid, entity, n)
      | None \<Rightarrow> (supply n, with_id cd (supply n) entity, Suc n))"

definition index_endpoint_key :: "string \<Rightarrow> uuid \<Rightarrow> Value \<Rightarrow> (string \<rightharpoonup> uuid) \<Rightarrow> (string \<rightharpoonup> uuid)" where
  "index_endpoint_key endpoint_key uid entity eks =
     (if endpoint_key = [] then eks
      else case Option.bind (json_field endpoint_key entity) as_str of
        Some v \<Rightarrow> eks(v \<mapsto> uid)
      | None \<Rightarrow> eks)"

definition load_entity :: "'e db_codec \<Rightarrow> (nat \<Rightarrow> uuid) \<Rightarrow> string \<Rightarrow> string \<Rightarrow> Value \<Rightarrow> dbless_store \<times> nat \<Rightarrow>
    dbless_store \<times> nat" where
  "load_entity cd supply table_name endpoint_key json s =
     (case s of (st, n) \<Rightarrow>
      case identified cd supply n json of (uid, entity, n') \<Rightarrow>
        (let table = (case ds_data st table_name of Some t \<Rightarrow> t | None \<Rightarrow> []);
             eks = (case ds_endpoint_keys st table_name of Some m \<Rightarrow> m | None \<Rightarrow> Map.empty) in
         (\<lparr>ds_data = (ds_data st)(table_name \<mapsto> AList.update uid entity table),
           ds_endpoint_keys = (ds_endpoint_keys st)(table_name \<mapsto> index_endpoint_key endpoint_key uid entity eks),
           ds_foreign_keys = build_fk_index cd table_name entity (ds_foreign_keys st)\<rparr>, n')))"

text \<open>\<open>entry(...).or_default()\<close> for both maps of a table.\<close>

definition open_table :: "string \<Rightarrow> dbless_store \<Rightarrow> dbless_store" where
  "open_table table_name st =
     st\<lparr>ds_data := (ds_data st)(table_name \<mapsto> (case ds_data st table_name of Some t \<Rightarrow> t | None \<Rightarrow> [])),
        ds_endpoint_keys := (ds_endpoint_keys st)(table_name \<mapsto>
          (case ds_endpoint_keys st table_name of Some m \<Rightarrow> m | None \<Rightarrow> Map.empty))\<rparr>"

definition load_table :: "'e db_codec \<Rightarrow> (nat \<Rightarrow> uuid) \<Rightarrow> string \<Rightarrow> string \<Rightarrow> Value list \<Rightarrow> dbless_store \<times> nat \<Rightarrow>
    dbless_store \<times> nat" where
  "load_table cd supply table_name endpoint_key arr s =
     (case s of (st, n) \<Rightarrow> fold (load_entity cd supply table_name endpoint_key) arr (open_table table_name st, n))"

fun load_tables :: "'e db_codec \<Rightarrow> (nat \<Rightarrow> uuid) \<Rightarrow> json_map \<Rightarrow> (string \<times> string) list \<Rightarrow> dbless_store \<times> nat \<Rightarrow>
    (KongError + unit) \<times> dbless_store" where
  "load_tables cd supply obj [] s = (Inr (), fst s)"
| "load_tables cd supply obj ((table_name, endpoint_key) # types) s =
     (case map_of obj table_name of
        None \<Rightarrow> load_tables cd supply obj types s
      | Some entities \<Rightarrow>
          (case entities of
             JArray arr \<Rightarrow> load_tables cd supply obj types (load_table cd supply table_name endpoint_key arr s)
           | _ \<Rightarrow> (Inl (ConfigError (table_name @ '' must be an array'')), fst s)))"

definition check_format_version :: "json_map \<Rightarrow> KongError + unit" where
  "check_format_version obj =
     (case map_of obj ''_format_version'' of
        None \<Rightarrow> Inr ()
      | Some version \<Rightarrow>
          (case as_str version of
             None \<Rightarrow> Inl (ConfigError ''_format_version must be a string'')
           | Some v \<Rightarrow>
               if v \<in> set SUPPORTED_FORMAT_VERSIONS then Inr ()
               else Inl (ConfigError (''unsupported format_version: '' @ v))))"

text \<open>The store is cleared before its new content is read.\<close>

definition load_from_json :: "'e db_codec \<Rightarrow> (nat \<Rightarrow> uuid) \<Rightarrow> Value \<Rightarrow> dbless_store \<Rightarrow>
    (KongError + unit) \<times> dbless_store" where
  "load_from_json cd supply config st =
     (case as_object config of
        None \<Rightarrow> (Inl (ConfigError ''declarative config must be an object''), st)
      | Some obj \<Rightarrow>
          (case check_format_version obj of
             Inl e \<Rightarrow> (Inl e, st)
           | Inr _ \<Rightarrow> load_tables cd supply obj entity_types (dbless_new, 0)))"

text \<open>A file is read and parsed as JSON, also when its name says that it is YAML.\<close>

definition load_from_file :: "'e db_codec \<Rightarrow> (nat \<Rightarrow> uuid) \<Rightarrow> (string \<Rightarrow> string option) \<Rightarrow> (string \<Rightarrow> Value option) \<Rightarrow>
    string \<Rightarrow> dbless_store \<Rightarrow> (KongError + unit) \<times> dbless_store" where
  "load_from_file cd supply read_file parse_json path st =
     (case read_file path of
        None \<Rightarrow> (Inl (ConfigError ''cannot read declarative config''), st)
      | Some content \<Rightarrow>
          (case parse_json content of
             None \<Rightarrow>
               (Inl (ConfigError (if ends_with path ''.yml'' \<or> ends_with path ''.yaml'' then ''YAML parsing failed''
                  else ''JSON parsing failed'')), st)
           | Some config \<Rightarrow> load_from_json cd supply config st))"

section \<open>Reading\<close>

definition get_entity :: "dbless_store \<Rightarrow> string \<Rightarrow> uuid \<Rightarrow> Value option" where
  "get_entity st table_name uid = Option.bind (ds_data st table_name) (\<lambda>t. map_of t uid)"

definition get_entity_by_endpoint_key :: "dbless_store \<Rightarrow> string \<Rightarrow> string \<Rightarrow> Value option" where
  "get_entity_by_endpoint_key st table_name key_value =
     (case Option.bind (ds_endpoint_keys st table_name) (\<lambda>m. m key_value) of
        Some uid \<Rightarrow> get_entity st table_name uid
      | None \<Rightarrow> None)"

text \<open>The identifiers after an offset, in order.\<close>

definition after_offset :: "uuid option \<Rightarrow> uuid list \<Rightarrow> uuid list" where
  "after_offset offset ids = (case offset of None \<Rightarrow> ids | Some o' \<Rightarrow> dropWhile (\<lambda>uid. \<not> o' < uid) ids)"

definition list_page :: "'e db_codec \<Rightarrow> table \<Rightarrow> uuid list \<Rightarrow> uuid option \<Rightarrow> nat \<Rightarrow> Value list \<times> uuid option" where
  "list_page cd table ids offset limit =
     (let rest = after_offset offset (sort ids);
          result = List.map_filter (map_of table) (take limit rest) in
      (result,
       if limit < length rest \<and> result \<noteq> [] then extract_uuid cd (last result) ''id'' else None))"

definition list_entities :: "'e db_codec \<Rightarrow> dbless_store \<Rightarrow> string \<Rightarrow> uuid option \<Rightarrow> nat \<Rightarrow> Value list \<times> uuid option" where
  "list_entities cd st table_name offset limit =
     (case ds_data st table_name of
        None \<Rightarrow> ([], None)
      | Some table \<Rightarrow> list_page cd table (map fst table) offset limit)"

definition list_by_foreign_key :: "'e db_codec \<Rightarrow> dbless_store \<Rightarrow> string \<Rightarrow> string \<Rightarrow> uuid \<Rightarrow> uuid option \<Rightarrow> nat \<Rightarrow>
    Value list \<times> uuid option" where
  "list_by_foreign_key cd st table_name fk_field fk_value offset limit =
     (case ds_foreign_keys st table_name fk_field fk_value of
        None \<Rightarrow> ([], None)
      | Some ids \<Rightarrow>
          (case ds_data st table_name of
             None \<Rightarrow> ([], None)
           | Some table \<Rightarrow> list_page cd table ids offset limit))"

section \<open>The data access interface\<close>

definition encode_offset :: "'e db_codec \<Rightarrow> uuid \<Rightarrow> string" where
  "encode_offset cd uid = dc_b64_encode cd (dc_print_list cd [dc_uuid_text cd uid])"

definition decode_offset :: "'e db_codec \<Rightarrow> string \<Rightarrow> uuid option" where
  "decode_offset cd token =
     Option.bind (dc_b64_decode cd token) (\<lambda>json.
       Option.bind (dc_parse_list cd json) (\<lambda>arr. dc_parse_uuid cd (case arr of [] \<Rightarrow> [] | s # _ \<Rightarrow> s)))"

definition read_only :: "KongError + 'a" where
  "read_only = Inl (DatabaseError ''db-less mode does not support writes'')"

definition dbless_insert :: "'e \<Rightarrow> KongError + 'e" where
  "dbless_insert entity = read_only"

definition dbless_update :: "PrimaryKey \<Rightarrow> Value \<Rightarrow> KongError + 'e" where
  "dbless_update pk entity = read_only"

definition dbless_upsert :: "PrimaryKey \<Rightarrow> 'e \<Rightarrow> KongError + 'e" where
  "dbless_upsert pk entity = read_only"

definition dbless_delete :: "PrimaryKey \<Rightarrow> KongError + unit" where
  "dbless_delete pk = read_only"

definition decode_entity :: "'e db_codec \<Rightarrow> Value \<Rightarrow> KongError + 'e" where
  "decode_entity cd v =
     (case dc_from_value cd v of Some e \<Rightarrow> Inr e | None \<Rightarrow> Inl (SerializationError ''deserialization failed''))"

fun decode_entities :: "'e db_codec \<Rightarrow> Value list \<Rightarrow> KongError + 'e list" where
  "decode_entities cd [] = Inr []"
| "decode_entities cd (v # vs) =
     and_then (decode_entity cd v) (\<lambda>e. and_then (decode_entities cd vs) (\<lambda>es. Inr (e # es)))"

definition dbless_select :: "'e db_codec \<Rightarrow> dbless_store \<Rightarrow> string \<Rightarrow> PrimaryKey \<Rightarrow> KongError + 'e option" where
  "dbless_select cd st table_name pk =
     (let json =
        (case pk of
           IdKey uid \<Rightarrow> get_entity st table_name uid
         | EndpointKey key \<Rightarrow>
             (case dc_parse_uuid cd key of
                Some uid \<Rightarrow> get_entity st table_name uid
              | None \<Rightarrow> get_entity_by_endpoint_key st table_name key)) in
      case json of
        None \<Rightarrow> Inr None
      | Some v \<Rightarrow> and_then (decode_entity cd v) (\<lambda>e. Inr (Some e)))"

definition field_matches :: "(string \<times> string) list \<Rightarrow> Value \<Rightarrow> bool" where
  "field_matches filters v =
     list_all (\<lambda>(field, expected). Option.bind (json_field field v) as_str = Some expected) filters"

definition next_url :: "string \<Rightarrow> nat \<Rightarrow> string \<Rightarrow> string" where
  "next_url table_name sz o' =
     (if sz \<noteq> pp_size default_page_params
      then ''/'' @ table_name @ ''?offset='' @ o' @ ''&size='' @ nat_to_string sz
      else ''/'' @ table_name @ ''?offset='' @ o')"

definition make_page :: "'e db_codec \<Rightarrow> string \<Rightarrow> nat \<Rightarrow> 'e list \<Rightarrow> uuid option \<Rightarrow> 'e page" where
  "make_page cd table_name sz data next_id =
     (let offset = map_option (encode_offset cd) next_id in
      \<lparr>pg_data = data, pg_offset = offset, pg_next = map_option (next_url table_name sz) offset\<rparr>)"

text \<open>With filters, ten times as many rows are read and filtered; the tags are not looked at.\<close>

definition dbless_page :: "'e db_codec \<Rightarrow> dbless_store \<Rightarrow> string \<Rightarrow> page_params \<Rightarrow> KongError + 'e page" where
  "dbless_page cd st table_name params =
     (let offset_uuid = Option.bind (pp_offset params) (decode_offset cd);
          filters = pp_filters params;
          fetch_size = (if filters = [] then pp_size params else pp_size params * 10) in
      case list_entities cd st table_name offset_uuid fetch_size of
        (entities_json, next_offset) \<Rightarrow>
          (let filtered_json = (if filters = [] then entities_json else filter (field_matches filters) entities_json);
               has_next = (if filters = [] then next_offset \<noteq> None else pp_size params < length filtered_json);
               page_data = (if has_next then take (pp_size params) filtered_json else filtered_json) in
           and_then (decode_entities cd page_data) (\<lambda>data.
             Inr (make_page cd table_name (pp_size params) data
               (if filters = [] then next_offset
                else if has_next \<and> data \<noteq> [] then extract_uuid cd (dc_to_value cd (last data)) ''id''
                else None)))))"

definition dbless_select_by_foreign_key :: "'e db_codec \<Rightarrow> dbless_store \<Rightarrow> string \<Rightarrow> string \<Rightarrow> uuid \<Rightarrow> page_params \<Rightarrow>
    KongError + 'e page" where
  "dbless_select_by_foreign_key cd st table_name fk_field fk_value params =
     (let offset_uuid = Option.bind (pp_offset params) (decode_offset cd) in
      case list_by_foreign_key cd st table_name fk_field fk_value offset_uuid (pp_size params) of
        (entities_json, next_offset) \<Rightarrow>
          and_then (decode_entities cd entities_json) (\<lambda>data.
            Inr (make_page cd table_name (pp_size params) data next_offset)))"

end
