(* ===== verification/Dbless_Laws.thy ===== *)
theory Dbless_Laws
  imports Dbless_Store
begin

text \<open>
  The laws of the store without a database: following the offsets of the pages reads every row of a table
  once, in the order of the identifiers; a name found in the index leads to a row with that name; a virtual key is found by
  its hash as long as the table has at most a thousand keys. With them the cases in which the code falls short.
\<close>

section \<open>What the crates promise\<close>

definition codec_laws :: "'e db_codec \<Rightarrow> bool" where
  "codec_laws cd \<longleftrightarrow>
     (\<forall>u. dc_parse_uuid cd (dc_uuid_text cd u) = Some u) \<and>
     (\<forall>s. dc_b64_decode cd (dc_b64_encode cd s) = Some s) \<and>
     (\<forall>s. dc_parse_list cd (dc_print_list cd [s]) = Some [s])"

lemma decode_encode: "codec_laws cd \<Longrightarrow> decode_offset cd (encode_offset cd u) = Some u"
  by (simp add: codec_laws_def decode_offset_def encode_offset_def)

section \<open>A table and its order\<close>

text \<open>Every row carries its key as its identifier, and keys are distinct.\<close>

definition table_ok :: "'e db_codec \<Rightarrow> table \<Rightarrow> bool" where
  "table_ok cd t \<longleftrightarrow> distinct (map fst t) \<and> list_all (\<lambda>(u, v). extract_uuid cd v ''id'' = Some u) t"

definition rows_in_order :: "table \<Rightarrow> Value list" where
  "rows_in_order t = map (\<lambda>u. the (map_of t u)) (sort (map fst t))"

lemma map_filter_total:
  "\<forall>u \<in> set us. map_of t u \<noteq> None \<Longrightarrow> List.map_filter (map_of t) us = map (\<lambda>u. the (map_of t u)) us"
  by (induction us) (auto simp: List.map_filter_simps)

lemma known_ids: "u \<in> set (map fst t) \<Longrightarrow> map_of t u \<noteq> None"
  by (simp add: map_of_eq_None_iff)

lemma row_id: "table_ok cd t \<Longrightarrow> map_of t u = Some v \<Longrightarrow> extract_uuid cd v ''id'' = Some u"
  by (auto simp: table_ok_def list_all_iff dest: map_of_SomeD)

lemma after_last:
  assumes "sorted (xs @ ys)" "distinct (xs @ ys)" "xs \<noteq> []"
  shows "after_offset (Some (last xs)) (xs @ ys) = (ys :: uuid list)"
proof -
  obtain zs z where xs: "xs = zs @ [z]" using assms(3) by (cases xs rule: rev_cases) auto
  have "\<forall>x \<in> set xs. \<not> z < x" using assms(1) unfolding xs by (auto simp: sorted_append)
  moreover have "ys \<noteq> [] \<Longrightarrow> z < hd ys"
    using assms(1,2) unfolding xs by (cases ys) (auto simp: sorted_append order_le_less)
  ultimately show ?thesis unfolding after_offset_def
    by (cases ys) (simp_all add: dropWhile_append2 xs)
qed

text \<open>A page of a listing: the next rows, and the offset of the last of them when more remain.\<close>

lemma list_page_step:
  assumes ok: "table_ok cd t" and s: "sort (map fst t) = xs @ ys" and z: "0 < n"
    and o: "(offset = None \<and> xs = []) \<or> (xs \<noteq> [] \<and> offset = Some (last xs))"
  shows "list_page cd t (map fst t) offset n =
    (map (\<lambda>u. the (map_of t u)) (take n ys), if n < length ys then Some (last (take n ys)) else None)"
proof -
  have sd: "sorted (xs @ ys)" "distinct (xs @ ys)" "set (xs @ ys) = set (map fst t)"
    using ok unfolding table_ok_def s [symmetric] by simp_all
  have a: "after_offset offset (sort (map fst t)) = ys"
    using o after_last [OF sd(1,2)] s by (auto simp: after_offset_def)
  have k: "\<forall>u \<in> set (take n ys). map_of t u \<noteq> None"
  proof
    fix u assume "u \<in> set (take n ys)"
    then have "u \<in> set (map fst t)" using sd(3) in_set_takeD [of u n ys] by auto
    then show "map_of t u \<noteq> None" by (rule known_ids)
  qed
  then have r: "List.map_filter (map_of t) (take n ys) = map (\<lambda>u. the (map_of t u)) (take n ys)"
    by (rule map_filter_total)
  have "extract_uuid cd (last (map (\<lambda>u. the (map_of t u)) (take n ys))) ''id'' = Some (last (take n ys))"
    if "take n ys \<noteq> []"
    using that k row_id [OF ok] by (simp add: last_map)
  then show ?thesis using z by (auto simp: list_page_def a r Let_def)
qed

section \<open>Reading all pages\<close>

text \<open>A client that follows the offsets; \<open>None\<close> when it gives up after \<open>n\<close> pages.\<close>

fun read_all :: "(page_params \<Rightarrow> KongError + 'e page) \<Rightarrow> page_params \<Rightarrow> nat \<Rightarrow> (KongError + 'e list) option" where
  "read_all pages params 0 = None"
| "read_all pages params (Suc n) =
     (case pages params of
        Inl e \<Rightarrow> Some (Inl e)
      | Inr pg \<Rightarrow>
          (case pg_offset pg of
             None \<Rightarrow> Some (Inr (pg_data pg))
           | Some o' \<Rightarrow>
               map_option (map_sum (\<lambda>e. e) (\<lambda>more. pg_data pg @ more)) (read_all pages (params\<lparr>pp_offset := Some o'\<rparr>) n)))"

lemma decode_entities_all:
  "\<forall>v \<in> set vs. dc_from_value cd v \<noteq> None \<Longrightarrow> decode_entities cd vs = Inr (map (\<lambda>v. the (dc_from_value cd v)) vs)"
  by (induction vs) (auto simp: decode_entity_def)

lemma read_rest:
  assumes cl: "codec_laws cd" and st: "ds_data st tn = Some t" and ok: "table_ok cd t"
    and dec: "\<forall>v \<in> snd ` set t. dc_from_value cd v \<noteq> None"
    and s: "sort (map fst t) = xs @ ys" and z: "0 < pp_size params" and f: "pp_filters params = []"
    and o: "(Option.bind (pp_offset params) (decode_offset cd) = None \<and> xs = []) \<or>
      (xs \<noteq> [] \<and> Option.bind (pp_offset params) (decode_offset cd) = Some (last xs))"
    and n: "length ys < n"
  shows "read_all (dbless_page cd st tn) params n =
    Some (Inr (map (\<lambda>u. the (dc_from_value cd (the (map_of t u)))) ys))"
  using s z f o n
proof (induction n arbitrary: xs ys params)
  case (Suc n)
  let ?k = "pp_size params"
  let ?row = "\<lambda>u. the (map_of t u)"
  have p: "list_entities cd st tn (Option.bind (pp_offset params) (decode_offset cd)) ?k =
      (map ?row (take ?k ys), if ?k < length ys then Some (last (take ?k ys)) else None)"
    unfolding list_entities_def using st list_page_step [OF ok Suc.prems(1,2,4)] by simp
  have "set ys \<subseteq> set (map fst t)" using arg_cong [OF Suc.prems(1), of set] by auto
  then have "?row u \<in> snd ` set t" if "u \<in> set ys" for u
    using that known_ids [of u t] map_of_SomeD [of t u] by (force simp: image_iff)
  then have "\<forall>v \<in> set (map ?row (take ?k ys)). dc_from_value cd v \<noteq> None" 
    using dec by (metis (no_types, lifting) in_set_takeD list.set_map imageE)
  then have d: "decode_entities cd (map ?row (take ?k ys)) = Inr (map (\<lambda>u. the (dc_from_value cd (?row u))) (take ?k ys))"
    using decode_entities_all [of "map ?row (take ?k ys)" cd] by (simp add: comp_def)
  have pg: "dbless_page cd st tn params = Inr (make_page cd tn ?k (map (\<lambda>u. the (dc_from_value cd (?row u))) (take ?k ys))
      (if ?k < length ys then Some (last (take ?k ys)) else None))"
    using Suc.prems(3) d by (cases "?k < length ys") (simp_all add: dbless_page_def p take_map)
  show ?case
  proof (cases "?k < length ys")
    case False
    then show ?thesis using pg by (simp add: make_page_def)
  next
    case True
    let ?q = "params\<lparr>pp_offset := Some (encode_offset cd (last (take ?k ys)))\<rparr>"
    have ne: "take ?k ys \<noteq> []" using True Suc.prems(2) by auto
    have "read_all (dbless_page cd st tn) ?q n = Some (Inr (map (\<lambda>u. the (dc_from_value cd (?row u))) (drop ?k ys)))"
    proof (rule Suc.IH)
      show "sort (map fst t) = (xs @ take ?k ys) @ drop ?k ys" using Suc.prems(1) by simp
      show "length (drop ?k ys) < n" using Suc.prems(2,5) True by simp
      show "(Option.bind (pp_offset ?q) (decode_offset cd) = None \<and> xs @ take ?k ys = []) \<or>
          (xs @ take ?k ys \<noteq> [] \<and> Option.bind (pp_offset ?q) (decode_offset cd) = Some (last (xs @ take ?k ys)))"
        using ne decode_encode [OF cl] by simp
    qed (use Suc.prems(2,3) in simp_all)
    then show ?thesis using pg True by (simp add: make_page_def flip: map_append)
  qed
qed simp

text \<open>
  Paging is complete: a client that follows the offsets from the first page on, with any page size, reads every
  row of the table exactly once, in the order of the identifiers, and stops.
\<close>

lemma paging_reads_all:
  assumes "codec_laws cd" "ds_data st tn = Some t" "table_ok cd t"
    "\<forall>v \<in> snd ` set t. dc_from_value cd v \<noteq> None" "0 < k" "length t < n"
  shows "read_all (dbless_page cd st tn) (default_page_params\<lparr>pp_size := k\<rparr>) n =
    Some (Inr (map (\<lambda>v. the (dc_from_value cd v)) (rows_in_order t)))"
  using read_rest [OF assms(1-4), of "[]" "sort (map fst t)" "default_page_params\<lparr>pp_size := k\<rparr>" n] assms(5,6)
  by (simp add: default_page_params_def rows_in_order_def comp_def)

section \<open>Finding a virtual key\<close>

text \<open>The page that \<open>find_by_hash\<close> of \<open>kong-ai/src/auth.rs\<close> asks for, from this store.\<close>

definition dbless_key_page :: "AiVirtualKey db_codec \<Rightarrow> dbless_store key_page" where
  "dbless_key_page cd st hash offset =
     map_sum (\<lambda>e. e) (\<lambda>pg. (pg_data pg, pg_offset pg))
       (dbless_page cd st ''ai_virtual_keys'' (default_page_params\<lparr>pp_offset := offset, pp_filters := [(''key_hash'', hash)]\<rparr>))"

definition hash_field :: "Value \<Rightarrow> string option" where
  "hash_field v = Option.bind (json_field ''key_hash'' v) as_str"

lemma rows_are_rows: "v \<in> set (rows_in_order t) \<Longrightarrow> v \<in> snd ` set t"
proof -
  assume "v \<in> set (rows_in_order t)"
  then obtain u where u: "u \<in> set (map fst t)" "v = the (map_of t u)" by (auto simp: rows_in_order_def)
  then obtain w where "map_of t u = Some w" using known_ids [OF u(1)] by blast
  then show ?thesis using u(2) map_of_SomeD [of t u w] by force
qed

lemma find_filtered:
  "\<forall>v \<in> set vs. P v \<longleftrightarrow> Q (f v) \<Longrightarrow> List.find Q (map f vs) = (case filter P vs of [] \<Rightarrow> None | v # _ \<Rightarrow> Some (f v))"
  by (induction vs) auto

lemma first_rows:
  assumes "table_ok cd t" "ds_data st tn = Some t" "0 < n"
  shows "fst (list_entities cd st tn None n) = take n (rows_in_order t)"
  using list_page_step [OF assms(1), of "[]" "sort (map fst t)" n None] assms(2,3)
  by (simp add: list_entities_def rows_in_order_def take_map)

lemma first_key_page:
  assumes "table_ok cd t" "ds_data st ''ai_virtual_keys'' = Some t"
  shows "dbless_key_page cd st hash None =
    (let found = filter (\<lambda>v. hash_field v = Some hash) (take 1000 (rows_in_order t));
         rows = (if 100 < length found then take 100 found else found) in
     case decode_entities cd rows of
       Inl e \<Rightarrow> Inl e
     | Inr data \<Rightarrow> Inr (data, if 100 < length found \<and> data \<noteq> []
         then map_option (encode_offset cd) (extract_uuid cd (dc_to_value cd (last data)) ''id'') else None))"
proof -
  obtain next_offset where l: "list_entities cd st ''ai_virtual_keys'' None 1000 = (take 1000 (rows_in_order t), next_offset)"
    using first_rows [OF assms, of 1000] by (cases "list_entities cd st ''ai_virtual_keys'' None 1000") auto
  have m: "field_matches [(''key_hash'', hash)] = (\<lambda>v. hash_field v = Some hash)"
    by (intro ext) (simp add: field_matches_def hash_field_def)
  show ?thesis
    by (simp add: dbless_key_page_def dbless_page_def default_page_params_def l m make_page_def Let_def split: sum.splits)
qed

text \<open>
  Without a database, a lookup by hash finds what the table holds: as long as it has at most a thousand virtual keys, the answer
  is the first key with that hash, in the order of the identifiers, or none when there is none. The hypotheses are that rows carry their identifiers
  and are read as keys with the hash they state.
\<close>

lemma dbless_key_lookup:
  assumes "table_ok cd t" "ds_data st ''ai_virtual_keys'' = Some t" "length t \<le> 1000"
    "\<forall>v \<in> snd ` set t. \<exists>key. dc_from_value cd v = Some key \<and> hash_field v = Some (vk_key_hash key)"
  shows "find_by_hash (dbless_key_page cd) st hash =
    Inr (List.find (\<lambda>key. vk_key_hash key = hash) (map (\<lambda>v. the (dc_from_value cd v)) (rows_in_order t)))"
proof -
  let ?dec = "\<lambda>v. the (dc_from_value cd v)"
  let ?found = "filter (\<lambda>v. hash_field v = Some hash) (rows_in_order t)"
  have h: "dc_from_value cd v \<noteq> None \<and> hash_field v = Some (vk_key_hash (?dec v))" if "v \<in> set (rows_in_order t)" for v
    using assms(4) rows_are_rows [OF that] by force
  have t: "take 1000 (rows_in_order t) = rows_in_order t" using assms(3) by (simp add: rows_in_order_def)
  have f: "List.find (\<lambda>key. vk_key_hash key = hash) (map ?dec (rows_in_order t)) =
      (case ?found of [] \<Rightarrow> None | v # _ \<Rightarrow> Some (?dec v))"
    using find_filtered [of "rows_in_order t" "\<lambda>v. hash_field v = Some hash" "\<lambda>key. vk_key_hash key = hash" ?dec] h by simp
  let ?rows = "if 100 < length ?found then take 100 ?found else ?found"
  have "\<forall>v \<in> set ?rows. dc_from_value cd v \<noteq> None" using h by (auto dest: in_set_takeD)
  then have d: "decode_entities cd ?rows = Inr (map ?dec ?rows)" by (rule decode_entities_all)
  have pg: "\<exists>off. dbless_key_page cd st hash None = Inr (map ?dec ?rows, off) \<and> (?found = [] \<longrightarrow> off = None)"
    unfolding first_key_page [OF assms(1,2)] t Let_def d by auto
  show ?thesis
  proof (cases ?found)
    case Nil
    then show ?thesis using pg f by (auto simp: find_by_hash_def MAX_LOOKUP_PAGES_def numeral_eq_Suc)
  next
    case (Cons v vs)
    then have "v \<in> set ?found" by (simp only: list.set_intros)
    then have "v \<in> set (rows_in_order t)" "hash_field v = Some hash" by auto
    then have "vk_key_hash (?dec v) = hash" using h by fastforce
    moreover obtain ws where "?rows = v # ws" using Cons by (cases "100 < length ?found") auto
    ultimately show ?thesis using pg f Cons by (auto simp: find_by_hash_def MAX_LOOKUP_PAGES_def numeral_eq_Suc)
  qed
qed

text \<open>
  Beyond a thousand keys the lookup is wrong: when none of the first thousand rows has the hash, the
  answer is that there is no such key, whatever the other rows are.
\<close>

lemma key_beyond_first_thousand_is_invisible:
  assumes "table_ok cd t" "ds_data st ''ai_virtual_keys'' = Some t"
    "\<forall>v \<in> set (take 1000 (rows_in_order t)). hash_field v \<noteq> Some hash"
  shows "find_by_hash (dbless_key_page cd) st hash = Inr None"
proof -
  have "filter (\<lambda>v. hash_field v = Some hash) (take 1000 (rows_in_order t)) = []" using assms(3) by (simp add: filter_empty_conv)
  then have "dbless_key_page cd st hash None = Inr ([], None)" by (simp add: first_key_page [OF assms(1,2)])
  then show ?thesis by (simp add: find_by_hash_def MAX_LOOKUP_PAGES_def numeral_eq_Suc)
qed

end
