(* ===== verification/Dbless_Loading.thy ===== *)
theory Dbless_Loading
  imports Dbless_Laws
begin

text \<open>
  What loading a declarative configuration leaves in the store: the tables that the laws of paging and of lookups
  ask for, an index of names that agrees with its table when no identifier occurs twice, and the two
  cases in which it does not keep what it should: a configuration that is refused half way, and an
  identifier that occurs twice.
\<close>

section \<open>One entity\<close>

lemma map_of_json_insert: "map_of (json_insert k v m) j = (if j = k then Some v else map_of m j)"
proof (cases "map_of m k = None")
  case False
  have "map_of (map (\<lambda>(j, w). if j = k then (j, v) else (j, w)) m) j = (if j = k \<and> map_of m k \<noteq> None then Some v else map_of m j)"
    by (induction m) auto
  then show ?thesis unfolding json_insert_def if_not_P [OF False] using False by simp
qed (simp add: json_insert_def map_of_insert_by_fst)

lemma identified_id:
  assumes "codec_laws cd" "as_object json \<noteq> None" "identified cd supply n json = (u, entity, m)"
  shows "extract_uuid cd entity ''id'' = Some u"
proof (cases "extract_uuid cd json ''id''")
  case None
  obtain obj where o: "json = JObject obj" using assms(2) by (cases json) auto
  then show ?thesis using assms None
    by (auto simp: identified_def with_id_def extract_uuid_def json_field_def map_of_json_insert as_str_def codec_laws_def)
qed (use assms in \<open>auto simp: identified_def\<close>)

text \<open>What the store holds for one table.\<close>

definition table_of :: "dbless_store \<Rightarrow> string \<Rightarrow> table" where
  "table_of st tn = (case ds_data st tn of Some t \<Rightarrow> t | None \<Rightarrow> [])"

definition names_of :: "dbless_store \<Rightarrow> string \<Rightarrow> string \<rightharpoonup> uuid" where
  "names_of st tn = (case ds_endpoint_keys st tn of Some m \<Rightarrow> m | None \<Rightarrow> Map.empty)"

lemma load_entity_views:
  assumes "load_entity cd supply tn ek json (st, n) = (st', n')" "identified cd supply n json = (u, entity, m)"
  shows "table_of st' tn = AList.update u entity (table_of st tn)"
    and "names_of st' tn = index_endpoint_key ek u entity (names_of st tn)"
    and "tn' \<noteq> tn \<Longrightarrow> ds_data st' tn' = ds_data st tn' \<and> ds_endpoint_keys st' tn' = ds_endpoint_keys st tn'"
    and "ds_data st' tn \<noteq> None"
  using assms by (auto simp: load_entity_def Let_def table_of_def names_of_def split: option.splits)

section \<open>The rows\<close>

lemma update_table_ok:
  "table_ok cd t \<Longrightarrow> extract_uuid cd v ''id'' = Some u \<Longrightarrow> table_ok cd (AList.update u v t)"
proof -
  assume t: "table_ok cd t" and v: "extract_uuid cd v ''id'' = Some u"
  have d: "distinct (map fst (AList.update u v t))" using t by (simp add: table_ok_def distinct_update)
  have "extract_uuid cd w ''id'' = Some x" if "(x, w) \<in> set (AList.update u v t)" for x w
  proof -
    have "map_of (AList.update u v t) x = Some w" using that d by (simp add: map_of_is_SomeI)
    then show ?thesis using v row_id [OF t, of x w] by (auto simp: update_conv' split: if_splits)
  qed
  then show ?thesis using d by (auto simp: table_ok_def list_all_iff)
qed

lemma load_entities_ok:
  assumes "codec_laws cd" "\<forall>v \<in> set arr. as_object v \<noteq> None" "table_ok cd (table_of st tn)"
    "fold (load_entity cd supply tn ek) arr (st, n) = (st', n')"
  shows "table_ok cd (table_of st' tn)"
  using assms(2-4)
proof (induction arr arbitrary: st n)
  case (Cons json arr)
  obtain s1 n1 where s1: "load_entity cd supply tn ek json (st, n) = (s1, n1)" by fastforce
  obtain u entity m where i: "identified cd supply n json = (u, entity, m)" by (metis prod_cases3)
  have "extract_uuid cd entity ''id'' = Some u" using identified_id [OF assms(1) _ i] Cons.prems(1) by simp
  then have "table_ok cd (table_of s1 tn)" using load_entity_views(1) [OF s1 i] update_table_ok Cons.prems(2) by metis
  then show ?case using Cons.IH [of s1 n1] Cons.prems s1 by simp
qed simp

section \<open>The names\<close>

definition name_field :: "string \<Rightarrow> Value \<Rightarrow> string option" where
  "name_field ek v = Option.bind (json_field ek v) as_str"

definition names_agree :: "string \<Rightarrow> table \<Rightarrow> (string \<rightharpoonup> uuid) \<Rightarrow> bool" where
  "names_agree ek t eks \<longleftrightarrow>
     (\<forall>name u. eks name = Some u \<longrightarrow> (\<exists>v. map_of t u = Some v \<and> name_field ek v = Some name)) \<and>
     (\<forall>u v name. map_of t u = Some v \<longrightarrow> name_field ek v = Some name \<longrightarrow> eks name \<noteq> None)"

lemma names_agree_update:
  assumes "names_agree ek t eks" "u \<notin> fst ` set t" "ek \<noteq> []"
  shows "names_agree ek (AList.update u v t) (index_endpoint_key ek u v eks)"
proof -
  have "map_of t u = None" using assms(2) by (simp add: map_of_eq_None_iff)
  then show ?thesis using assms(1,3)
    unfolding names_agree_def index_endpoint_key_def name_field_def update_conv'
    by (fastforce split: option.splits if_splits)
qed

lemma length_update: "length (AList.update u v t) = (if u \<in> fst ` set t then length t else Suc (length t))"
  by (induction t) auto

lemma load_entities_length:
  "fold (load_entity cd supply tn ek) arr (st, n) = (st', n') \<Longrightarrow>
   length (table_of st' tn) \<le> length (table_of st tn) + length arr"
proof (induction arr arbitrary: st n)
  case (Cons json arr)
  obtain s1 n1 where s1: "load_entity cd supply tn ek json (st, n) = (s1, n1)" by fastforce
  obtain u entity m where i: "identified cd supply n json = (u, entity, m)" by (metis prod_cases3)
  have "length (table_of s1 tn) \<le> Suc (length (table_of st tn))"
    using load_entity_views(1) [OF s1 i] by (simp add: length_update)
  then show ?case using Cons.IH [of s1 n1] Cons.prems s1 by simp
qed simp

lemma load_entities_names:
  assumes "ek \<noteq> []" "names_agree ek (table_of st tn) (names_of st tn)"
    "fold (load_entity cd supply tn ek) arr (st, n) = (st', n')"
    "length (table_of st' tn) = length (table_of st tn) + length arr"
  shows "names_agree ek (table_of st' tn) (names_of st' tn)"
  using assms(2-4)
proof (induction arr arbitrary: st n)
  case (Cons json arr)
  obtain s1 n1 where s1: "load_entity cd supply tn ek json (st, n) = (s1, n1)" by fastforce
  obtain u entity m where i: "identified cd supply n json = (u, entity, m)" by (metis prod_cases3)
  have f: "fold (load_entity cd supply tn ek) arr (s1, n1) = (st', n')" using Cons.prems(2) s1 by simp
  have l: "length (table_of s1 tn) = (if u \<in> fst ` set (table_of st tn) then length (table_of st tn) else Suc (length (table_of st tn)))"
    using load_entity_views(1) [OF s1 i] by (simp add: length_update)
  have fresh: "u \<notin> fst ` set (table_of st tn)"
    using l load_entities_length [OF f] Cons.prems(3) by (auto split: if_splits)
  have "names_agree ek (table_of s1 tn) (names_of s1 tn)"
    using names_agree_update [OF Cons.prems(1) fresh assms(1)] load_entity_views(1,2) [OF s1 i] by simp
  then show ?case using Cons.IH [OF _ f] l fresh Cons.prems(3) by simp
qed simp

section \<open>The whole configuration\<close>

text \<open>Entities of another table change nothing for this one.\<close>

lemma load_entities_other:
  assumes "fold (load_entity cd supply tn ek) arr (st, n) = (st', n')" "tn' \<noteq> tn"
  shows "ds_data st' tn' = ds_data st tn' \<and> ds_endpoint_keys st' tn' = ds_endpoint_keys st tn'"
  using assms(1)
proof (induction arr arbitrary: st n)
  case (Cons json arr)
  obtain s1 n1 where s1: "load_entity cd supply tn ek json (st, n) = (s1, n1)" by fastforce
  obtain u entity m where i: "identified cd supply n json = (u, entity, m)" by (metis prod_cases3)
  show ?case using Cons.IH [of s1 n1] Cons.prems s1 load_entity_views(3) [OF s1 i assms(2)] by simp
qed simp

lemma load_entities_open:
  assumes "fold (load_entity cd supply tn ek) arr (st, n) = (st', n')" "ds_data st tn \<noteq> None"
  shows "ds_data st' tn \<noteq> None"
  using assms
proof (induction arr arbitrary: st n)
  case (Cons json arr)
  obtain s1 n1 where s1: "load_entity cd supply tn ek json (st, n) = (s1, n1)" by fastforce
  obtain u entity m where i: "identified cd supply n json = (u, entity, m)" by (metis prod_cases3)
  show ?case using Cons.IH [of s1 n1] Cons.prems s1 load_entity_views(4) [OF s1 i] by simp
qed simp

lemma load_table_other:
  assumes "load_table cd supply tn ek arr (st, n) = (st', n')" "tn' \<noteq> tn"
  shows "ds_data st' tn' = ds_data st tn' \<and> ds_endpoint_keys st' tn' = ds_endpoint_keys st tn'"
  using load_entities_other [OF _ assms(2)] assms by (fastforce simp: load_table_def open_table_def)

lemma load_tables_other:
  "load_tables cd supply obj types (st, n) = (r, st') \<Longrightarrow> tn \<notin> fst ` set types \<Longrightarrow>
   ds_data st' tn = ds_data st tn \<and> ds_endpoint_keys st' tn = ds_endpoint_keys st tn"
proof (induction types arbitrary: st n)
  case (Cons ty types)
  obtain t ek where ty: "ty = (t, ek)" by (cases ty)
  show ?case
  proof (cases "\<exists>arr. map_of obj t = Some (JArray arr)")
    case True
    then obtain arr where arr: "map_of obj t = Some (JArray arr)" by blast
    obtain s1 n1 where s1: "load_table cd supply t ek arr (st, n) = (s1, n1)" by fastforce
    show ?thesis using Cons.IH [of s1 n1] Cons.prems load_table_other [OF s1, of tn] arr s1 by (auto simp: ty)
  next
    case False
    then show ?thesis using Cons.IH [of st n] Cons.prems by (auto simp: ty split: option.splits Value.splits)
  qed
qed simp

text \<open>After a load that succeeded, a table holds what its array was folded into, from nothing.\<close>

lemma loaded_table:
  assumes "load_tables cd supply obj types (st, n) = (Inr (), st')" "distinct (map fst types)" "(tn, ek) \<in> set types"
    "map_of obj tn = Some (JArray arr)" "ds_data st tn = None" "ds_endpoint_keys st tn = None"
  shows "\<exists>s0 m s1 m1. fold (load_entity cd supply tn ek) arr (s0, m) = (s1, m1) \<and>
    ds_data s0 tn = Some [] \<and> ds_endpoint_keys s0 tn = Some Map.empty \<and>
    ds_data st' tn = ds_data s1 tn \<and> ds_endpoint_keys st' tn = ds_endpoint_keys s1 tn"
  using assms
proof (induction types arbitrary: st n)
  case (Cons ty types)
  obtain t k where ty: "ty = (t, k)" by (cases ty)
  show ?case
  proof (cases "t = tn")
    case True
    then have k: "k = ek" using Cons.prems(2,3) ty by (force simp: image_iff)
    obtain s1 n1 where s1: "load_table cd supply tn ek arr (st, n) = (s1, n1)" by fastforce
    have r: "load_tables cd supply obj types (s1, n1) = (Inr (), st')" using Cons.prems(1,4) s1 by (simp add: ty True k)
    have "tn \<notin> fst ` set types" using Cons.prems(2) ty True by simp
    then have "ds_data st' tn = ds_data s1 tn" "ds_endpoint_keys st' tn = ds_endpoint_keys s1 tn"
      using load_tables_other [OF r] by auto
    moreover have "fold (load_entity cd supply tn ek) arr (open_table tn st, n) = (s1, n1)" using s1 by (simp add: load_table_def)
    moreover have "ds_data (open_table tn st) tn = Some []" "ds_endpoint_keys (open_table tn st) tn = Some Map.empty"
      using Cons.prems(5,6) by (simp_all add: open_table_def)
    ultimately show ?thesis by blast
  next
    case False
    then have m: "(tn, ek) \<in> set types" using Cons.prems(3) ty by auto
    show ?thesis
    proof (cases "\<exists>a. map_of obj t = Some (JArray a)")
      case True
      then obtain a where a: "map_of obj t = Some (JArray a)" by blast
      obtain s1 n1 where s1: "load_table cd supply t k a (st, n) = (s1, n1)" by fastforce
      show ?thesis
        using Cons.IH [of s1 n1] Cons.prems m load_table_other [OF s1, of tn] a s1 False by (auto simp: ty)
    next
      case not_array: False
      then show ?thesis
        using Cons.IH [of st n] Cons.prems m by (auto simp: ty split: option.splits Value.splits)
    qed
  qed
qed simp

lemma entity_types_distinct: "distinct (map fst entity_types)"
  by (simp add: entity_types_def)

lemma load_cases:
  assumes "load_from_json cd supply config st = (Inr (), st')"
  obtains obj where "config = JObject obj" "load_tables cd supply obj entity_types (dbless_new, 0) = (Inr (), st')"
  using assms by (cases config) (auto simp: load_from_json_def split: sum.splits)

text \<open>
  A name of the index leads to its entity: after a successful load in which no identifier of a table occurs
  twice (the table has as many rows as the array), selecting by name finds a row exactly when some row has that name, and the row found
  has it.
\<close>

theorem name_lookup_is_exact:
  assumes "load_from_json cd supply (JObject obj) st0 = (Inr (), st)" "(tn, ek) \<in> set entity_types" "ek \<noteq> []"
    "map_of obj tn = Some (JArray arr)" "length (table_of st tn) = length arr"
  shows "(case get_entity_by_endpoint_key st tn name of
      Some v \<Rightarrow> v \<in> snd ` set (table_of st tn) \<and> name_field ek v = Some name
    | None \<Rightarrow> \<not> (\<exists>u v. map_of (table_of st tn) u = Some v \<and> name_field ek v = Some name))"
proof -
  have l: "load_tables cd supply obj entity_types (dbless_new, 0) = (Inr (), st)"
    using assms(1) by (auto elim: load_cases)
  obtain s0 m s1 m1 where s: "fold (load_entity cd supply tn ek) arr (s0, m) = (s1, m1)"
    "ds_data s0 tn = Some []" "ds_endpoint_keys s0 tn = Some Map.empty"
    "ds_data st tn = ds_data s1 tn" "ds_endpoint_keys st tn = ds_endpoint_keys s1 tn"
    using loaded_table [OF l entity_types_distinct assms(2,4)] by (auto simp: dbless_new_def)
  have v: "table_of st tn = table_of s1 tn" "names_of st tn = names_of s1 tn" "table_of s0 tn = []"
    using s(2,4,5) by (simp_all add: table_of_def names_of_def)
  have "names_agree ek (table_of s0 tn) (names_of s0 tn)" using s(2,3) by (simp add: names_agree_def table_of_def names_of_def)
  then have a: "names_agree ek (table_of st tn) (names_of st tn)"
    using load_entities_names [OF assms(3) _ s(1)] assms(5) v by simp
  have g: "get_entity_by_endpoint_key st tn name =
      (case names_of st tn name of Some u \<Rightarrow> map_of (table_of st tn) u | None \<Rightarrow> None)"
    by (auto simp: get_entity_by_endpoint_key_def get_entity_def names_of_def table_of_def split: option.splits)
  show ?thesis
  proof (cases "names_of st tn name")
    case None
    then have "\<not> (\<exists>u v. map_of (table_of st tn) u = Some v \<and> name_field ek v = Some name)"
      using a unfolding names_agree_def by blast
    then show ?thesis using g None by simp
  next
    case (Some u)
    then obtain v where "map_of (table_of st tn) u = Some v" "name_field ek v = Some name"
      using a unfolding names_agree_def by blast
    then show ?thesis using g Some map_of_SomeD [of "table_of st tn" u v] by force
  qed
qed

text \<open>Loaded tables satisfy what paging and lookups ask for.\<close>

lemma loaded_table_ok:
  assumes "codec_laws cd" "load_from_json cd supply (JObject obj) st0 = (Inr (), st)" "(tn, ek) \<in> set entity_types"
    "map_of obj tn = Some (JArray arr)" "\<forall>v \<in> set arr. as_object v \<noteq> None"
  shows "ds_data st tn = Some (table_of st tn) \<and> table_ok cd (table_of st tn)"
proof -
  have l: "load_tables cd supply obj entity_types (dbless_new, 0) = (Inr (), st)"
    using assms(2) by (auto elim: load_cases)
  obtain s0 m s1 m1 where s: "fold (load_entity cd supply tn ek) arr (s0, m) = (s1, m1)"
    "ds_data s0 tn = Some []" "ds_data st tn = ds_data s1 tn"
    using loaded_table [OF l entity_types_distinct assms(3,4)] by (auto simp: dbless_new_def)
  have "table_ok cd (table_of s1 tn)"
    using load_entities_ok [OF assms(1,5) _ s(1)] s(2) by (simp add: table_of_def table_ok_def)
  moreover have "ds_data s1 tn \<noteq> None" using load_entities_open [OF s(1)] s(2) by simp
  ultimately show ?thesis using s(3) by (auto simp: table_of_def)
qed

lemma loaded_length:
  assumes "load_from_json cd supply (JObject obj) st0 = (Inr (), st)" "(tn, ek) \<in> set entity_types"
    "map_of obj tn = Some (JArray arr)"
  shows "length (table_of st tn) \<le> length arr"
proof -
  have l: "load_tables cd supply obj entity_types (dbless_new, 0) = (Inr (), st)"
    using assms(1) by (auto elim: load_cases)
  obtain s0 m s1 m1 where s: "fold (load_entity cd supply tn ek) arr (s0, m) = (s1, m1)"
    "ds_data s0 tn = Some []" "ds_data st tn = ds_data s1 tn"
    using loaded_table [OF l entity_types_distinct assms(2,3)] by (auto simp: dbless_new_def)
  then show ?thesis using load_entities_length [OF s(1)] by (simp add: table_of_def)
qed

lemma size_zero_reads_nothing:
  "read_all (dbless_page cd st tn) (default_page_params\<lparr>pp_size := 0\<rparr>) (Suc n) = Some (Inr [])"
  by (simp add: dbless_page_def list_entities_def list_page_def default_page_params_def make_page_def Let_def map_filter_simps
      split: option.split)

text \<open>
  C26. Paging a declarative configuration is complete: after a successful load of objects into a table whose rows can all be
  read as entities, a client that follows the offsets from the first page on, with any page size of at least one, reads
  every row exactly once, in the order of the identifiers, and stops. With the page size zero it gets one
  empty page without a next one.
\<close>

theorem declarative_paging_reads_all:
  assumes "codec_laws cd" "load_from_json cd supply (JObject obj) st0 = (Inr (), st)" "(tn, ek) \<in> set entity_types"
    "map_of obj tn = Some (JArray arr)" "\<forall>v \<in> set arr. as_object v \<noteq> None"
    "\<forall>v \<in> snd ` set (table_of st tn). dc_from_value cd v \<noteq> None" "length (table_of st tn) < n"
  shows "read_all (dbless_page cd st tn) (default_page_params\<lparr>pp_size := k\<rparr>) n =
    Some (Inr (if k = 0 then [] else map (\<lambda>v. the (dc_from_value cd v)) (rows_in_order (table_of st tn))))"
proof (cases "k = 0")
  case True
  obtain n' where "n = Suc n'" using assms(7) by (cases n) auto
  then show ?thesis using True size_zero_reads_nothing by simp
next
  case False
  then have "0 < k" by simp
  with loaded_table_ok [OF assms(1-5)] paging_reads_all [OF assms(1) _ _ assms(6) _ assms(7)] False show ?thesis by auto
qed

text \<open>
  C15. Without a database, authentication finds the keys of the declarative configuration: as long as it has at most a thousand
  virtual keys, the lookup by hash answers with the first key with that hash in the order of the identifiers, or with none when
  there is none.
\<close>

theorem declarative_key_is_found:
  assumes "codec_laws cd" "load_from_json cd supply (JObject obj) st0 = (Inr (), st)"
    "map_of obj ''ai_virtual_keys'' = Some (JArray arr)" "\<forall>v \<in> set arr. as_object v \<noteq> None" "length arr \<le> 1000"
    "\<forall>v \<in> snd ` set (table_of st ''ai_virtual_keys'').
       \<exists>key. dc_from_value cd v = Some key \<and> hash_field v = Some (vk_key_hash key)"
  shows "find_by_hash (dbless_key_page cd) st hash =
    Inr (List.find (\<lambda>key. vk_key_hash key = hash)
      (map (\<lambda>v. the (dc_from_value cd v)) (rows_in_order (table_of st ''ai_virtual_keys''))))"
proof -
  have e: "(''ai_virtual_keys'', ''name'') \<in> set entity_types" by (simp add: entity_types_def)
  have ok: "ds_data st ''ai_virtual_keys'' = Some (table_of st ''ai_virtual_keys'')" "table_ok cd (table_of st ''ai_virtual_keys'')"
    using loaded_table_ok [OF assms(1,2) e assms(3,4)] by auto
  have "length (table_of st ''ai_virtual_keys'') \<le> length arr" by (rule loaded_length [OF assms(2) e assms(3)])
  then show ?thesis using dbless_key_lookup [OF ok(2,1) _ assms(6)] assms(5) by simp
qed

section \<open>A concrete codec\<close>

text \<open>Identifiers written as decimal numbers; rows are kept as they are.\<close>

definition decimal_codec :: "(Value \<Rightarrow> 'e option) \<Rightarrow> ('e \<Rightarrow> Value) \<Rightarrow> 'e db_codec" where
  "decimal_codec from_value to_value =
     \<lparr>dc_parse_uuid = (\<lambda>s. map_option of_nat (parse_unsigned (2 ^ 128 - 1) s)), dc_uuid_text = (\<lambda>u. nat_to_string (unat u)),
      dc_b64_encode = (\<lambda>s. s), dc_b64_decode = Some, dc_print_list = concat, dc_parse_list = (\<lambda>s. Some [s]),
      dc_from_value = from_value, dc_to_value = to_value\<rparr>"

lemma decimal_codec_laws: "codec_laws (decimal_codec f g)"
proof -
  have "unat u \<le> 2 ^ 128 - 1" for u :: uuid using unsigned_less [of u, where ?'a = nat] by simp
  then show ?thesis by (simp add: codec_laws_def decimal_codec_def parse_print)
qed

definition demo_service :: "string \<Rightarrow> string \<Rightarrow> Value" where
  "demo_service u name = JObject [(''id'', JString u), (''name'', JString name)]"

definition demo_key :: Value where
  "demo_key = JObject [(''id'', JString ''5''), (''key_hash'', JString ''h''), (''name'', JString ''app'')]"

definition demo_config :: json_map where
  "demo_config =
     [(''_format_version'', JString ''3.0''), (''ai_virtual_keys'', JArray [demo_key]),
      (''services'', JArray [demo_service ''7'' ''orders'', demo_service ''3'' ''stock''])]"

definition demo_store :: dbless_store where
  "demo_store =
     \<lparr>ds_data = [''services'' \<mapsto> [(7, demo_service ''7'' ''orders''), (3, demo_service ''3'' ''stock'')],
        ''ai_virtual_keys'' \<mapsto> [(5, demo_key)]],
      ds_endpoint_keys = [''services'' \<mapsto> [''orders'' \<mapsto> 7, ''stock'' \<mapsto> 3], ''ai_virtual_keys'' \<mapsto> [''app'' \<mapsto> 5]],
      ds_foreign_keys = (\<lambda>_ _. Map.empty)\<rparr>"

lemma demo_ids:
  "extract_uuid (decimal_codec f g) (demo_service ''7'' name) ''id'' = Some 7"
  "extract_uuid (decimal_codec f g) (demo_service ''3'' name) ''id'' = Some 3"
  "extract_uuid (decimal_codec f g) demo_key ''id'' = Some 5"
  by (simp_all add: extract_uuid_def json_field_def demo_service_def demo_key_def as_str_def decimal_codec_def
      parse_unsigned_def read_char_def)

lemma demo_loads: "load_from_json (decimal_codec f g) supply (JObject demo_config) st = (Inr (), demo_store)"
proof -
  have o: "map_of demo_config t = None" if "t \<notin> {''_format_version'', ''ai_virtual_keys'', ''services''}" for t
    using that by (simp add: demo_config_def)
  have m: "map_of demo_config ''services'' = Some (JArray [demo_service ''7'' ''orders'', demo_service ''3'' ''stock''])"
    "map_of demo_config ''ai_virtual_keys'' = Some (JArray [demo_key])"
    "map_of demo_config ''_format_version'' = Some (JString ''3.0'')"
    by (simp_all add: demo_config_def)
  show ?thesis
    by (simp add: load_from_json_def check_format_version_def SUPPORTED_FORMAT_VERSIONS_def as_str_def m o
        entity_types_def load_table_def open_table_def load_entity_def identified_def demo_ids dbless_new_def
        index_endpoint_key_def build_fk_index_def fk_fields_def) (simp add: demo_service_def demo_key_def json_field_def
        as_str_def demo_store_def fk_target_def)
qed

lemma demo_tables:
  "table_of demo_store ''services'' = [(7, demo_service ''7'' ''orders''), (3, demo_service ''3'' ''stock'')]"
  "table_of demo_store ''ai_virtual_keys'' = [(5, demo_key)]"
  by (simp_all add: table_of_def demo_store_def)

lemma demo_arrays:
  "map_of demo_config ''services'' = Some (JArray [demo_service ''7'' ''orders'', demo_service ''3'' ''stock''])"
  "map_of demo_config ''ai_virtual_keys'' = Some (JArray [demo_key])"
  by (simp_all add: demo_config_def)

text \<open>Two services, found by name.\<close>

theorem name_lookup_is_exact_witness:
  "case get_entity_by_endpoint_key demo_store ''services'' ''stock'' of
     Some v \<Rightarrow> name_field ''name'' v = Some ''stock'' | None \<Rightarrow> False"
proof -
  have "(''services'', ''name'') \<in> set entity_types" by (simp add: entity_types_def)
  moreover have "length (table_of demo_store ''services'') = length [demo_service ''7'' ''orders'', demo_service ''3'' ''stock'']"
    by (simp add: demo_tables)
  ultimately have "case get_entity_by_endpoint_key demo_store ''services'' ''stock'' of
      Some v \<Rightarrow> v \<in> snd ` set (table_of demo_store ''services'') \<and> name_field ''name'' v = Some ''stock''
    | None \<Rightarrow> \<not> (\<exists>u v. map_of (table_of demo_store ''services'') u = Some v \<and> name_field ''name'' v = Some ''stock'')"
    by (intro name_lookup_is_exact [OF demo_loads _ _ demo_arrays(1)]) simp_all
  then show ?thesis
    by (simp add: get_entity_by_endpoint_key_def get_entity_def demo_store_def)
qed

text \<open>Two services read in pages of one.\<close>

theorem declarative_paging_reads_all_witness:
  "read_all (dbless_page (decimal_codec Some (\<lambda>v. v)) demo_store ''services'') (default_page_params\<lparr>pp_size := 1\<rparr>) 3 =
     Some (Inr [demo_service ''3'' ''stock'', demo_service ''7'' ''orders''])"
proof -
  let ?cd = "decimal_codec Some (\<lambda>v. v)"
  have e: "(''services'', ''name'') \<in> set entity_types" by (simp add: entity_types_def)
  have "read_all (dbless_page ?cd demo_store ''services'') (default_page_params\<lparr>pp_size := 1\<rparr>) 3 =
      Some (Inr (if (1 :: nat) = 0 then [] else map (\<lambda>v. the (dc_from_value ?cd v)) (rows_in_order (table_of demo_store ''services''))))"
    by (rule declarative_paging_reads_all [OF decimal_codec_laws demo_loads e demo_arrays(1)])
      (simp_all add: demo_service_def demo_tables decimal_codec_def)
  then show ?thesis by (simp add: rows_in_order_def demo_tables decimal_codec_def)
qed

text \<open>A key of the configuration is found by its hash.\<close>

definition read_key :: "Value \<Rightarrow> AiVirtualKey option" where
  "read_key v = map_option (\<lambda>h. \<lparr>vk_id = 5, vk_name = ''app'', vk_key_hash = h, vk_key_prefix = ''sk'', vk_consumer_id = None,
     vk_allowed_models = None, vk_tpm_limit = None, vk_rpm_limit = None, vk_budget_limit = None,
     vk_budget_pending_count = 0, vk_budget_unresolved_count = 0, vk_enabled = True, vk_expires_at = None\<rparr>) (hash_field v)"

theorem declarative_key_is_found_witness:
  "find_by_hash (dbless_key_page (decimal_codec read_key (\<lambda>k. JNull))) demo_store ''h'' = Inr (read_key demo_key) \<and>
   read_key demo_key \<noteq> None"
proof -
  let ?cd = "decimal_codec read_key (\<lambda>k. JNull)"
  have h: "hash_field demo_key = Some ''h''" by (simp add: hash_field_def demo_key_def json_field_def as_str_def)
  have "find_by_hash (dbless_key_page ?cd) demo_store ''h'' = Inr (List.find (\<lambda>key. vk_key_hash key = ''h'')
      (map (\<lambda>v. the (dc_from_value ?cd v)) (rows_in_order (table_of demo_store ''ai_virtual_keys''))))"
    by (rule declarative_key_is_found [OF decimal_codec_laws demo_loads demo_arrays(2)])
      (simp_all add: demo_tables decimal_codec_def read_key_def h, simp add: demo_key_def)
  then show ?thesis by (simp add: rows_in_order_def demo_tables decimal_codec_def read_key_def h)
qed

section \<open>Where loading falls short\<close>

text \<open>A configuration that is refused has already emptied the store.\<close>

lemma refused_load_clears_store:
  "load_from_json cd supply (JObject [(''services'', JNull)]) st = (Inl (ConfigError ''services must be an array''), dbless_new)"
  by (simp add: load_from_json_def check_format_version_def entity_types_def)

text \<open>
  An identifier that occurs twice leaves its first name in the index: the name leads to a row that does not
  have it.
\<close>

lemma repeated_identifier_leaves_stale_name:
  "case load_from_json (decimal_codec f g) supply
     (JObject [(''services'', JArray [demo_service ''7'' ''orders'', demo_service ''7'' ''stock''])]) st of
   (r, st') \<Rightarrow> r = Inr () \<and> get_entity_by_endpoint_key st' ''services'' ''orders'' = Some (demo_service ''7'' ''stock'')"
  by (simp add: load_from_json_def check_format_version_def entity_types_def load_table_def open_table_def load_entity_def
      identified_def demo_ids dbless_new_def index_endpoint_key_def build_fk_index_def fk_fields_def)
    (simp add: demo_service_def json_field_def as_str_def get_entity_by_endpoint_key_def get_entity_def)

text \<open>Tags are not looked at: a page for tags is the page without them.\<close>

lemma page_ignores_tags: "dbless_page cd st tn (params\<lparr>pp_tags := tags, pp_tags_mode := mode\<rparr>) = dbless_page cd st tn params"
  by (simp add: dbless_page_def Let_def cong: if_cong)

end
