(* ===== verification/Spillable_Buffer.thy ===== *)
theory Spillable_Buffer
  imports Kong_Strings
begin

text \<open>
  The buffer for request and response bodies, from \<open>kong-proxy/src/spillable_buffer.rs\<close>: it keeps bytes
  in memory up to a threshold and then moves them to a temporary file. What the file system does is an argument of
  each operation: whether a file could be created, and for each write whether it succeeded or how many
  bytes it left behind. The law: whatever the file system does before the move, the bytes that were appended come back; after it
  they come back when the writes succeed. The exception is the code's own: a failed write to the
  file is only logged, and the bytes are missing.
\<close>

definition DEFAULT_THRESHOLD :: nat where
  "DEFAULT_THRESHOLD = 10 * 1024 * 1024"

datatype buffer_state = Memory string | File string nat

record spillable_buffer =
  sb_state :: buffer_state
  sb_threshold :: nat

definition sb_new :: spillable_buffer where
  "sb_new = \<lparr>sb_state = Memory [], sb_threshold = DEFAULT_THRESHOLD\<rparr>"

definition sb_with_threshold :: "nat \<Rightarrow> spillable_buffer" where
  "sb_with_threshold n = \<lparr>sb_state = Memory [], sb_threshold = n\<rparr>"

definition sb_from_bytes :: "string \<Rightarrow> spillable_buffer" where
  "sb_from_bytes bytes = \<lparr>sb_state = Memory bytes, sb_threshold = DEFAULT_THRESHOLD\<rparr>"

text \<open>The answers of the file system to one operation.\<close>

datatype write_outcome = WroteAll | WroteOnly nat

record disk =
  dk_create :: bool
  dk_first :: write_outcome
  dk_second :: write_outcome

fun written_bytes :: "write_outcome \<Rightarrow> string \<Rightarrow> string" where
  "written_bytes WroteAll bytes = bytes"
| "written_bytes (WroteOnly n) bytes = take n bytes"

definition sb_extend :: "disk \<Rightarrow> string \<Rightarrow> spillable_buffer \<Rightarrow> spillable_buffer" where
  "sb_extend dk bytes sb =
     (case sb_state sb of
        Memory buf \<Rightarrow>
          if sb_threshold sb < length buf + length bytes then
            if dk_create dk then
              if dk_first dk \<noteq> WroteAll then sb\<lparr>sb_state := Memory (buf @ bytes)\<rparr>
              else if dk_second dk \<noteq> WroteAll then sb\<lparr>sb_state := Memory (buf @ bytes)\<rparr>
              else sb\<lparr>sb_state := File (buf @ bytes) (length buf + length bytes)\<rparr>
            else sb\<lparr>sb_state := Memory (buf @ bytes)\<rparr>
          else sb\<lparr>sb_state := Memory (buf @ bytes)\<rparr>
      | File content len \<Rightarrow>
          sb\<lparr>sb_state := File (content @ written_bytes (dk_first dk) bytes) (len + length bytes)\<rparr>)"

text \<open>Reading back: the seek may fail, and the read may end early.\<close>

definition sb_finish :: "bool \<Rightarrow> write_outcome \<Rightarrow> spillable_buffer \<Rightarrow> string" where
  "sb_finish seek_ok reading sb =
     (case sb_state sb of
        Memory buf \<Rightarrow> buf
      | File content len \<Rightarrow> if seek_ok then written_bytes reading content else [])"

fun sb_extend_all :: "(disk \<times> string) list \<Rightarrow> spillable_buffer \<Rightarrow> spillable_buffer" where
  "sb_extend_all [] sb = sb"
| "sb_extend_all ((dk, bytes) # ops) sb = sb_extend_all ops (sb_extend dk bytes sb)"

definition sb_bytes :: "spillable_buffer \<Rightarrow> string" where
  "sb_bytes sb = (case sb_state sb of Memory buf \<Rightarrow> buf | File content _ \<Rightarrow> content)"

definition spilled :: "spillable_buffer \<Rightarrow> bool" where
  "spilled sb = (case sb_state sb of Memory _ \<Rightarrow> False | File _ _ \<Rightarrow> True)"

text \<open>One append keeps all bytes, unless it is to the file and the write fails.\<close>

lemma extend_bytes:
  "(spilled sb \<Longrightarrow> dk_first dk = WroteAll) \<Longrightarrow> sb_bytes (sb_extend dk bytes sb) = sb_bytes sb @ bytes"
  by (auto simp: sb_extend_def sb_bytes_def spilled_def split: buffer_state.splits)

lemma extend_spilled: "spilled (sb_extend dk bytes sb) \<Longrightarrow> \<not> spilled sb \<Longrightarrow> dk_first dk = WroteAll \<and> dk_create dk"
  by (auto simp: sb_extend_def spilled_def split: buffer_state.splits if_splits)

text \<open>The length that is recorded is that of the bytes, unless a write to the file failed.\<close>

definition sb_ok :: "spillable_buffer \<Rightarrow> bool" where
  "sb_ok sb = (case sb_state sb of Memory _ \<Rightarrow> True | File content len \<Rightarrow> length content = len \<and> sb_threshold sb < len)"

lemma extend_ok: "sb_ok sb \<Longrightarrow> (spilled sb \<Longrightarrow> dk_first dk = WroteAll) \<Longrightarrow> sb_ok (sb_extend dk bytes sb)"
  by (auto simp: sb_extend_def sb_ok_def spilled_def split: buffer_state.splits)

lemma extend_all_ok:
  "sb_ok sb \<Longrightarrow> \<forall>(dk, _) \<in> set ops. dk_first dk = WroteAll \<Longrightarrow>
   sb_ok (sb_extend_all ops sb) \<and> sb_bytes (sb_extend_all ops sb) = sb_bytes sb @ concat (map snd ops)"
  by (induction ops sb rule: sb_extend_all.induct) (auto simp: extend_ok extend_bytes)

lemma extend_all_threshold: "sb_threshold (sb_extend_all ops sb) = sb_threshold sb"
  by (induction ops sb rule: sb_extend_all.induct) (auto simp: sb_extend_def split: buffer_state.splits)

text \<open>
  C27. A body comes back as it was appended, whatever the threshold and the sizes of the pieces, in memory or through the
  file, whether or not a file can be created, as long as the writes to the file and the final read succeed; and the
  file is used only above the threshold.
\<close>

theorem body_comes_back:
  assumes "\<forall>(dk, _) \<in> set ops. dk_first dk = WroteAll"
  shows "sb_finish True WroteAll (sb_extend_all ops (sb_with_threshold n)) = concat (map snd ops) \<and>
    (spilled (sb_extend_all ops (sb_with_threshold n)) \<longrightarrow> n < length (concat (map snd ops)))"
proof -
  let ?sb = "sb_extend_all ops (sb_with_threshold n)"
  have "sb_ok (sb_with_threshold n)" by (simp add: sb_ok_def sb_with_threshold_def)
  then have a: "sb_ok ?sb" "sb_bytes ?sb = concat (map snd ops)"
    using extend_all_ok [OF _ assms, of "sb_with_threshold n"] by (simp_all add: sb_bytes_def sb_with_threshold_def)
  moreover have "sb_threshold ?sb = n" by (simp add: extend_all_threshold sb_with_threshold_def)
  ultimately show ?thesis by (auto simp: sb_finish_def sb_bytes_def spilled_def sb_ok_def split: buffer_state.splits)
qed

text \<open>A body of seven bytes through a file.\<close>

theorem body_comes_back_witness:
  "let dk = \<lparr>dk_create = True, dk_first = WroteAll, dk_second = WroteAll\<rparr> in
   sb_finish True WroteAll (sb_extend_all [(dk, ''abcd''), (dk, ''xyz'')] (sb_with_threshold 3)) = ''abcdxyz''"
  using body_comes_back [of "[(\<lparr>dk_create = True, dk_first = WroteAll, dk_second = WroteAll\<rparr>, ''abcd''),
    (\<lparr>dk_create = True, dk_first = WroteAll, dk_second = WroteAll\<rparr>, ''xyz'')]" 3] by simp

text \<open>Without a file the body stays in memory, whatever the disk answers.\<close>

lemma memory_body_comes_back:
  assumes "\<forall>(dk, _) \<in> set ops. \<not> dk_create dk" "\<not> spilled sb"
  shows "sb_finish b r (sb_extend_all ops sb) = sb_bytes sb @ concat (map snd ops)"
  using assms
proof (induction ops sb rule: sb_extend_all.induct)
  case (1 sb)
  then show ?case by (auto simp: sb_finish_def sb_bytes_def spilled_def split: buffer_state.splits)
next
  case (2 dk bytes ops sb)
  have "\<not> spilled (sb_extend dk bytes sb)" using 2 extend_spilled by fastforce
  then show ?case using 2 extend_bytes [of sb dk bytes] by simp
qed

text \<open>A write to the file that fails loses bytes, and the body that comes back is another one.\<close>

lemma failed_write_corrupts_body:
  "let dk = \<lparr>dk_create = True, dk_first = WroteAll, dk_second = WroteAll\<rparr>;
       sb = sb_extend_all [(dk, ''abcd''), (dk\<lparr>dk_first := WroteOnly 1\<rparr>, ''xy''), (dk, ''z'')] (sb_with_threshold 3)
   in sb_finish True WroteAll sb = ''abcdxz''"
  by (simp add: sb_with_threshold_def sb_extend_def sb_finish_def)

end
