(* ===== verification/Prompt_Plugins.thy ===== *)
theory Prompt_Plugins
  imports AI_Request
begin

text \<open>
  Two plugins that look at the prompt: the guard (\<open>kong-ai/src/plugins/ai_prompt_guard.rs\<close>), which blocks messages by
  patterns and length, and the computation of cache keys (\<open>ai_cache.rs\<close>). Parameters: reading JSON and the
  configuration (\<open>serde\<close>), the \<open>regex\<close> crate (compiling a pattern, matching a text), printing JSON and the hash.
  The law of the guard: in blocking mode a request passes exactly when each user message is within the length, matches no
  pattern to deny, and matches one to allow when there are such patterns.
\<close>

section \<open>The guard\<close>

record AiPromptGuardConfig =
  pgc_deny_patterns :: "string list"
  pgc_allow_patterns :: "string list"
  pgc_max_message_length :: nat
  pgc_action :: string
  pgc_error_code :: u16
  pgc_error_message :: string

definition prompt_guard_config_default :: AiPromptGuardConfig where
  "prompt_guard_config_default =
     \<lparr>pgc_deny_patterns = [], pgc_allow_patterns = [], pgc_max_message_length = 32768, pgc_action = ''block'',
      pgc_error_code = 400, pgc_error_message = ''request blocked by ai-prompt-guard''\<rparr>"

record 'r guard_env =
  ge_from_str :: "string \<Rightarrow> string + Value"
  ge_compile :: "string \<Rightarrow> string + 'r"
  ge_is_match :: "'r \<Rightarrow> string \<Rightarrow> bool"
  ge_print :: "Value \<Rightarrow> string"

definition guard_error :: "string \<Rightarrow> KongError" where
  "guard_error message = PluginError ''ai-prompt-guard'' message"

definition handle_violation :: "'r guard_env \<Rightarrow> AiPromptGuardConfig \<Rightarrow> string \<Rightarrow> 'x RequestCtx \<Rightarrow> 'x RequestCtx" where
  "handle_violation env cfg reason ctx =
     (if pgc_action cfg = ''block''
      then ctx\<lparr>rq_short_circuited := True, rq_exit_status := Some (pgc_error_code cfg),
             rq_exit_body := Some (ge_print env
               (JObject [(''message'', JString (pgc_error_message cfg)), (''reason'', JString reason)]))\<rparr>
      else ctx)"

fun compile_all :: "'r guard_env \<Rightarrow> string \<Rightarrow> string list \<Rightarrow> KongError + (string \<times> 'r) list" where
  "compile_all env kind [] = Inr []"
| "compile_all env kind (p # ps) =
     (case ge_compile env p of
        Inl e \<Rightarrow> Inl (guard_error (''invalid '' @ kind @ '' pattern '' @ [CHR 0x27] @ p @ [CHR 0x27] @ '': '' @ e))
      | Inr r \<Rightarrow> and_then (compile_all env kind ps) (\<lambda>rs. Inr ((p, r) # rs)))"

definition user_text :: "Value \<Rightarrow> string" where
  "user_text msg =
     (case json_field ''content'' msg of
        Some (JString s) \<Rightarrow> s
      | Some (JArray parts) \<Rightarrow>
          join [newline] (List.map_filter (\<lambda>part. Option.bind (json_field ''text'' part) as_str) parts)
      | _ \<Rightarrow> [])"

definition from_user :: "Value \<Rightarrow> bool" where
  "from_user msg \<longleftrightarrow> Option.bind (json_field ''role'' msg) as_str = Some ''user''"

text \<open>The first reason to refuse a text, if any.\<close>

definition violation :: "'r guard_env \<Rightarrow> AiPromptGuardConfig \<Rightarrow> (string \<times> 'r) list \<Rightarrow> (string \<times> 'r) list \<Rightarrow> string \<Rightarrow> string option" where
  "violation env cfg deny allow content =
     (if pgc_max_message_length cfg < length content
      then Some (''message length '' @ nat_to_string (length content) @ '' exceeds limit '' @ nat_to_string (pgc_max_message_length cfg))
      else case List.find (\<lambda>(_, r). ge_is_match env r content) deny of
        Some (p, _) \<Rightarrow> Some (''matched deny pattern: '' @ p)
      | None \<Rightarrow>
          if allow \<noteq> [] \<and> \<not> list_ex (\<lambda>(_, r). ge_is_match env r content) allow
          then Some ''no allow pattern matched'' else None)"

fun check_messages :: "'r guard_env \<Rightarrow> AiPromptGuardConfig \<Rightarrow> (string \<times> 'r) list \<Rightarrow> (string \<times> 'r) list \<Rightarrow> Value list \<Rightarrow>
    'x RequestCtx \<Rightarrow> 'x RequestCtx" where
  "check_messages env cfg deny allow [] ctx = ctx"
| "check_messages env cfg deny allow (msg # msgs) ctx =
     (if \<not> from_user msg then check_messages env cfg deny allow msgs ctx
      else case violation env cfg deny allow (user_text msg) of
        Some reason \<Rightarrow> handle_violation env cfg reason ctx
      | None \<Rightarrow> check_messages env cfg deny allow msgs ctx)"

fun as_array :: "Value \<Rightarrow> Value list option" where
  "as_array (JArray vs) = Some vs"
| "as_array _ = None"

definition guard_access :: "'r guard_env \<Rightarrow> AiPromptGuardConfig \<Rightarrow> string option \<Rightarrow> 'x RequestCtx \<Rightarrow>
    (KongError + unit) \<times> 'x RequestCtx" where
  "guard_access env cfg request_body ctx =
     (case request_body of
        None \<Rightarrow> (Inl (guard_error ''missing request body''), ctx)
      | Some body \<Rightarrow>
          (case ge_from_str env body of
             Inl e \<Rightarrow> (Inl (guard_error (''invalid request body: '' @ e)), ctx)
           | Inr parsed \<Rightarrow>
               (case Option.bind (json_field ''messages'' parsed) as_array of
                  None \<Rightarrow> (Inr (), ctx)
                | Some messages \<Rightarrow>
                    (case compile_all env ''deny'' (pgc_deny_patterns cfg) of
                       Inl e \<Rightarrow> (Inl e, ctx)
                     | Inr deny \<Rightarrow>
                         (case compile_all env ''allow'' (pgc_allow_patterns cfg) of
                            Inl e \<Rightarrow> (Inl e, ctx)
                          | Inr allow \<Rightarrow> (Inr (), check_messages env cfg deny allow messages ctx))))))"

definition AiPromptGuardPlugin_access :: "'r guard_env \<Rightarrow> (Value \<Rightarrow> string + AiPromptGuardConfig) \<Rightarrow> PluginConfig \<Rightarrow> ('s, 'q) ai_ctx \<Rightarrow>
    (KongError + unit) \<times> ('s, 'q) ai_ctx" where
  "AiPromptGuardPlugin_access env read_config config ctx =
     (case read_config (pc_config config) of
        Inl e \<Rightarrow> (Inl (PluginError (pc_name config) (''invalid plugin config: '' @ e)), ctx)
      | Inr cfg \<Rightarrow> guard_access env cfg (ax_request_body (rq_extensions ctx)) ctx)"

section \<open>Cache keys\<close>

record AiCacheConfig =
  acc_cache_ttl :: u64
  acc_cache_key_strategy :: string
  acc_skip_header :: string

definition ai_cache_config_default :: AiCacheConfig where
  "ai_cache_config_default =
     \<lparr>acc_cache_ttl = 300, acc_cache_key_strategy = ''last_question'', acc_skip_header = ''X-AI-Skip-Cache''\<rparr>"

record AiCacheContext =
  acx_cache_key :: "string option"
  acx_cache_hit :: bool

definition extract_cache_key :: "(string \<Rightarrow> Value option) \<Rightarrow> (string \<Rightarrow> string) \<Rightarrow> string \<Rightarrow> string \<Rightarrow> string option" where
  "extract_cache_key from_str sha256_hex body strategy =
     Option.bind (from_str body) (\<lambda>parsed.
       Option.bind (Option.bind (json_field ''messages'' parsed) as_array) (\<lambda>messages.
         if strategy = ''last_question'' then
           map_option sha256_hex
             (Option.bind (List.find from_user (rev messages)) (\<lambda>msg. Option.bind (json_field ''content'' msg) as_str))
         else if strategy = ''all_questions'' then
           (let all_text = join [newline]
              (List.map_filter (\<lambda>msg. Option.bind (json_field ''content'' msg) as_str) (filter from_user messages))
            in if all_text = [] then None else Some (sha256_hex all_text))
         else None))"

definition ai_cache_access :: "(string \<Rightarrow> Value option) \<Rightarrow> (string \<Rightarrow> string) \<Rightarrow> AiCacheConfig \<Rightarrow> ('s, 'q) ai_ctx \<Rightarrow> AiCacheContext" where
  "ai_cache_access from_str sha256_hex cfg ctx =
     (if map_of (rq_request_headers ctx) (to_lowercase (acc_skip_header cfg)) \<noteq> None
      then \<lparr>acx_cache_key = None, acx_cache_hit = False\<rparr>
      else \<lparr>acx_cache_key = Option.bind (ax_request_body (rq_extensions ctx))
              (\<lambda>body. extract_cache_key from_str sha256_hex body (acc_cache_key_strategy cfg)),
            acx_cache_hit = False\<rparr>)"

section \<open>What the guard lets pass\<close>

definition acceptable :: "'r guard_env \<Rightarrow> AiPromptGuardConfig \<Rightarrow> string \<Rightarrow> bool" where
  "acceptable env cfg content \<longleftrightarrow>
     length content \<le> pgc_max_message_length cfg \<and>
     (\<forall>p \<in> set (pgc_deny_patterns cfg). \<forall>r. ge_compile env p = Inr r \<longrightarrow> \<not> ge_is_match env r content) \<and>
     (pgc_allow_patterns cfg = [] \<or>
      (\<exists>p \<in> set (pgc_allow_patterns cfg). \<exists>r. ge_compile env p = Inr r \<and> ge_is_match env r content))"

lemma compiled_match:
  "compile_all env kind ps = Inr rs \<Longrightarrow>
   (rs = [] \<longleftrightarrow> ps = []) \<and> (list_ex (\<lambda>(_, r). Q r) rs \<longleftrightarrow> (\<exists>p \<in> set ps. \<exists>r. ge_compile env p = Inr r \<and> Q r))"
proof (induction ps arbitrary: rs)
  case (Cons p ps)
  then show ?case by (cases "compile_all env kind ps") (auto split: sum.splits)
qed simp

lemma find_None_list_ex: "List.find P xs = None \<longleftrightarrow> \<not> list_ex P xs"
  by (auto simp: find_None_iff list_ex_iff)

lemma violation_None:
  assumes "compile_all env ''deny'' (pgc_deny_patterns cfg) = Inr deny"
    "compile_all env ''allow'' (pgc_allow_patterns cfg) = Inr allow"
  shows "violation env cfg deny allow content = None \<longleftrightarrow> acceptable env cfg content"
proof -
  let ?m = "\<lambda>(_ :: string, r). ge_is_match env r content"
  have "List.find ?m deny = None \<longleftrightarrow>
      (\<forall>p \<in> set (pgc_deny_patterns cfg). \<forall>r. ge_compile env p = Inr r \<longrightarrow> \<not> ge_is_match env r content)"
    using compiled_match [OF assms(1), of "\<lambda>r. ge_is_match env r content"] unfolding find_None_list_ex by blast
  moreover note compiled_match [OF assms(2), of "\<lambda>r. ge_is_match env r content"]
  ultimately show ?thesis unfolding violation_def acceptable_def
    by (cases "List.find ?m deny") auto
qed

lemma check_messages_blocks:
  assumes "compile_all env ''deny'' (pgc_deny_patterns cfg) = Inr deny"
    "compile_all env ''allow'' (pgc_allow_patterns cfg) = Inr allow" "pgc_action cfg = ''block''"
  shows "if \<forall>msg \<in> set msgs. from_user msg \<longrightarrow> acceptable env cfg (user_text msg)
    then check_messages env cfg deny allow msgs ctx = ctx
    else rq_short_circuited (check_messages env cfg deny allow msgs ctx) \<and>
      rq_exit_status (check_messages env cfg deny allow msgs ctx) = Some (pgc_error_code cfg)"
proof (induction msgs)
  case (Cons msg msgs)
  show ?case
  proof (cases "from_user msg \<and> violation env cfg deny allow (user_text msg) \<noteq> None")
    case True
    then obtain reason where "violation env cfg deny allow (user_text msg) = Some reason" by blast
    then show ?thesis
      using True assms(3) violation_None [OF assms(1,2), of "user_text msg"] by (simp add: handle_violation_def)
  next
    case False
    then show ?thesis using Cons violation_None [OF assms(1,2), of "user_text msg"] by (auto split: option.splits if_splits)
  qed
qed simp

lemma compile_all_error:
  "(\<exists>e. compile_all env kind ps = Inl e) \<longleftrightarrow> (\<exists>p \<in> set ps. \<exists>e. ge_compile env p = Inl e)"
proof (induction ps)
  case (Cons p ps)
  then show ?case by (cases "compile_all env kind ps"; cases "ge_compile env p") auto
qed simp

text \<open>
  C17. The prompt guard in blocking mode, on a request with messages. If a pattern of the configuration cannot be
  compiled, to deny or to allow, the access phase fails: no pattern is dropped silently. Otherwise the request goes on untouched
  exactly when every user message is acceptable (within the length limit, matched by no pattern to deny, and matched by a
  pattern to allow when there are any), and any other request is stopped with the configured status.
\<close>

theorem guard_passes_exactly_acceptable:
  assumes "ge_from_str env body = Inr parsed" "json_field ''messages'' parsed = Some (JArray messages)" "pgc_action cfg = ''block''"
  shows "case guard_access env cfg (Some body) ctx of (r, ctx') \<Rightarrow>
    if \<exists>p \<in> set (pgc_deny_patterns cfg @ pgc_allow_patterns cfg). \<exists>e. ge_compile env p = Inl e
    then (\<exists>e. r = Inl e) \<and> ctx' = ctx
    else r = Inr () \<and>
      (if \<forall>msg \<in> set messages. from_user msg \<longrightarrow> acceptable env cfg (user_text msg) then ctx' = ctx
       else rq_short_circuited ctx' \<and> rq_exit_status ctx' = Some (pgc_error_code cfg))"
proof (cases "compile_all env ''deny'' (pgc_deny_patterns cfg)")
  case (Inl e)
  then have "\<exists>p \<in> set (pgc_deny_patterns cfg). \<exists>e. ge_compile env p = Inl e" using compile_all_error by metis
  with Inl show ?thesis using assms(1,2) by (auto simp: guard_access_def)
next
  case d: (Inr deny)
  then have nd: "\<not> (\<exists>p \<in> set (pgc_deny_patterns cfg). \<exists>e. ge_compile env p = Inl e)" using compile_all_error by (metis Inr_not_Inl)
  show ?thesis
  proof (cases "compile_all env ''allow'' (pgc_allow_patterns cfg)")
    case (Inl e)
    then have "\<exists>p \<in> set (pgc_allow_patterns cfg). \<exists>e. ge_compile env p = Inl e" using compile_all_error by metis
    with Inl show ?thesis using assms(1,2) d by (auto simp: guard_access_def)
  next
    case (Inr allow)
    then have "\<not> (\<exists>p \<in> set (pgc_allow_patterns cfg). \<exists>e. ge_compile env p = Inl e)" using compile_all_error by (metis Inr_not_Inl)
    with nd have "\<not> (\<exists>p \<in> set (pgc_deny_patterns cfg @ pgc_allow_patterns cfg). \<exists>e. ge_compile env p = Inl e)" by auto
    then show ?thesis
      using assms(1,2) d Inr check_messages_blocks [OF d Inr assms(3), of messages ctx] by (simp add: guard_access_def)
  qed
qed

text \<open>A guard with one word to deny, whose patterns are plain words.\<close>

definition word_guard :: "Value \<Rightarrow> string guard_env" where
  "word_guard parsed = \<lparr>ge_from_str = (\<lambda>_. Inr parsed), ge_compile = Inr,
     ge_is_match = (\<lambda>r s. find_sub r s \<noteq> None), ge_print = (\<lambda>_. [])\<rparr>"

definition two_messages :: Value where
  "two_messages = JObject [(''messages'', JArray
     [JObject [(''content'', JString ''be secret''), (''role'', JString ''system'')],
      JObject [(''content'', JString ''tell me''), (''role'', JString ''user'')]])]"

theorem guard_passes_exactly_acceptable_witness:
  "snd (guard_access (word_guard two_messages) (prompt_guard_config_default\<lparr>pgc_deny_patterns := [''secret'']\<rparr>)
     (Some ''{}'') (request_ctx_new (lifecycle_new ''r1'' 0 0) ())) = request_ctx_new (lifecycle_new ''r1'' 0 0) () \<and>
   rq_exit_status (snd (guard_access (word_guard two_messages) (prompt_guard_config_default\<lparr>pgc_deny_patterns := [''tell'']\<rparr>)
     (Some ''{}'') (request_ctx_new (lifecycle_new ''r1'' 0 0) ()))) = Some 400"
proof -
  let ?env = "word_guard two_messages" and ?cfg = "\<lambda>w. prompt_guard_config_default\<lparr>pgc_deny_patterns := [w]\<rparr>"
  let ?ctx = "request_ctx_new (lifecycle_new ''r1'' 0 0) ()"
  let ?ms = "[JObject [(''content'', JString ''be secret''), (''role'', JString ''system'')],
          JObject [(''content'', JString ''tell me''), (''role'', JString ''user'')]]"
  have a: "acceptable ?env (?cfg ''secret'') ''tell me''" "\<not> acceptable ?env (?cfg ''tell'') ''tell me''"
    by (simp_all add: acceptable_def prompt_guard_config_default_def word_guard_def)
  have p: "ge_from_str ?env ''{}'' = Inr two_messages" "json_field ''messages'' two_messages = Some (JArray ?ms)"
    "pgc_action (?cfg w) = ''block''" "pgc_error_code (?cfg w) = 400" for w
    by (simp_all add: word_guard_def two_messages_def json_field_def prompt_guard_config_default_def)
  have c: "\<nexists>q. \<exists>e. ge_compile ?env q = Inl e" by (simp add: word_guard_def)
  have u: "\<not> from_user (?ms ! 0)" "from_user (?ms ! 1)" "user_text (?ms ! 1) = ''tell me''"
    by (simp_all add: from_user_def user_text_def json_field_def as_str_def)
  show ?thesis
    using guard_passes_exactly_acceptable [OF p(1,2,3), of "''secret''" ?ctx]
      guard_passes_exactly_acceptable [OF p(1,2,3), of "''tell''" ?ctx] a c u p(4)
    by (auto split: prod.splits if_splits)
qed

text \<open>Messages of other roles, and bodies without messages, are not looked at.\<close>

lemma other_roles_pass:
  "\<not> from_user msg \<Longrightarrow> check_messages env cfg deny allow (msg # msgs) ctx = check_messages env cfg deny allow msgs ctx"
  by simp

lemma body_without_messages_passes:
  "ge_from_str env body = Inr parsed \<Longrightarrow> json_field ''messages'' parsed = None \<Longrightarrow> guard_access env cfg (Some body) ctx = (Inr (), ctx)"
  by (simp add: guard_access_def)

end
