(* ===== verification/Model_Resolver.thy ===== *)
theory Model_Resolver
  imports AI_Models AI_Pricing Request_Lifecycle
begin

text \<open>
  The resolver of model groups, from \<open>kong-ai/src/provider/resolver.rs\<close>: it reads the rows of a group and their
  providers from the database, keeps the balancer it builds for a while, and keeps it longer, with its rotation and
  cooldowns, when a new read finds the same rows. The tables are parameters (a page of models, a provider), as is
  printing rows as JSON, which keeps what the balancer reads of them apart. A resolution is one step: the
  source holds a lock while it loads. The loop over
  the pages may run forever in principle; \<open>None\<close> is then its value.
\<close>

section \<open>Rows\<close>

record 'j stored_model = AiModel +
  am_provider_id :: uuid
  am_input_cost :: "Decimal option"
  am_output_cost :: "Decimal option"
  am_max_tokens :: "int option"
  am_config :: 'j
  am_ws_id :: "uuid option"
  am_created_at :: "int option"
  am_updated_at :: "int option"
  am_tags :: "string list option"

record 'j stored_provider = "'j AiProviderConfig" +
  ap_default_model :: "string option"
  ap_config :: 'j
  ap_ws_id :: "uuid option"
  ap_created_at :: "int option"
  ap_updated_at :: "int option"
  ap_tags :: "string list option"

definition DEFAULT_REFRESH_INTERVAL :: duration where
  "DEFAULT_REFRESH_INTERVAL = from_secs 2"

type_synonym 'j row_pair = "'j stored_model \<times> 'j stored_provider"

text \<open>The tables, and the printed form of the rows of a group (the bytes are of type \<open>'f\<close>).\<close>

record ('j, 'f) resolver_env =
  re_page :: "string \<Rightarrow> string option \<Rightarrow> KongError + 'j stored_model list \<times> string option"
  re_provider :: "uuid \<Rightarrow> KongError + 'j stored_provider option"
  re_to_vec :: "'j row_pair list \<Rightarrow> string + 'f"

record ('j, 'f) CachedGroup =
  cg_loaded_at :: duration
  cg_signature :: 'f
  cg_balancer :: "'j ModelGroupBalancer"

type_synonym ('j, 'f) group_cache = "string \<rightharpoonup> ('j, 'f) CachedGroup"

definition group_not_found :: "string \<Rightarrow> KongError" where
  "group_not_found group_name =
     PluginError ''ai-proxy'' (''no enabled AI models/providers found for model group '' @ [CHR 0x27] @ group_name @ [CHR 0x27])"

section \<open>Loading a group\<close>

definition in_group :: "string \<Rightarrow> 'j stored_model \<Rightarrow> bool" where
  "in_group group_name model \<longleftrightarrow> am_enabled model \<and> am_ws_id model = None \<and> am_name model = group_name"

text \<open>The loop over the pages; it has no result if the table always names another page.\<close>

partial_function (option) group_models ::
    "('j, 'f) resolver_env \<Rightarrow> string \<Rightarrow> string option \<Rightarrow> (KongError + 'j stored_model list) option" where
  "group_models env group_name offset =
     (case re_page env group_name offset of
        Inl e \<Rightarrow> Some (Inl e)
      | Inr (data, next_offset) \<Rightarrow>
          (case next_offset of
             None \<Rightarrow> Some (Inr (filter (in_group group_name) data))
           | Some o' \<Rightarrow>
               Option.bind (group_models env group_name (Some o')) (\<lambda>r.
                 Some (case r of Inl e \<Rightarrow> Inl e | Inr others \<Rightarrow> Inr (filter (in_group group_name) data @ others)))))"

text \<open>Each provider is read once; what was read is kept for the rest of the group.\<close>

fun group_pairs :: "('j, 'f) resolver_env \<Rightarrow> (uuid \<rightharpoonup> 'j stored_provider option) \<Rightarrow> 'j stored_model list \<Rightarrow> KongError + 'j row_pair list" where
  "group_pairs env seen [] = Inr []"
| "group_pairs env seen (model # models) =
     (case (case seen (am_provider_id model) of Some cached \<Rightarrow> Inr cached | None \<Rightarrow> re_provider env (am_provider_id model)) of
        Inl e \<Rightarrow> Inl e
      | Inr provider \<Rightarrow>
          (case group_pairs env (seen(am_provider_id model \<mapsto> provider)) models of
             Inl e \<Rightarrow> Inl e
           | Inr pairs \<Rightarrow>
               Inr (case provider of
                      Some p \<Rightarrow> if ap_enabled p \<and> ap_ws_id p = None then (model, p) # pairs else pairs
                    | None \<Rightarrow> pairs)))"

definition plain_pair :: "'j row_pair \<Rightarrow> AiModel \<times> 'j AiProviderConfig" where
  "plain_pair mp = (AiModel.truncate (fst mp), AiProviderConfig.truncate (snd mp))"

text \<open>The fingerprint of a group leaves out timestamps and tags.\<close>

definition normalized :: "'j row_pair \<Rightarrow> 'j row_pair" where
  "normalized mp =
     ((fst mp)\<lparr>am_created_at := None, am_updated_at := None, am_tags := None\<rparr>,
      (snd mp)\<lparr>ap_created_at := None, ap_updated_at := None, ap_tags := None\<rparr>)"

definition group_signature :: "('j, 'f) resolver_env \<Rightarrow> 'j row_pair list \<Rightarrow> KongError + 'f" where
  "group_signature env pairs =
     (case re_to_vec env (map normalized pairs) of
        Inl e \<Rightarrow> Inl (InternalError (''failed to fingerprint AI model group: '' @ e))
      | Inr bytes \<Rightarrow> Inr bytes)"

definition cached_group :: "duration \<Rightarrow> duration \<Rightarrow> string \<Rightarrow> ('j, 'f) group_cache \<Rightarrow> 'j ModelGroupBalancer option" where
  "cached_group refresh now group_name cache =
     Option.bind (cache group_name) (\<lambda>entry. if now - cg_loaded_at entry < refresh then Some (cg_balancer entry) else None)"

definition install_group :: "('j, 'f) resolver_env \<Rightarrow> duration \<Rightarrow> string \<Rightarrow> 'j row_pair list \<Rightarrow> ('j, 'f) group_cache \<Rightarrow>
    (KongError + 'j ModelGroupBalancer) \<times> ('j, 'f) group_cache" where
  "install_group env now group_name pairs0 cache =
     (let pairs = sort_key (\<lambda>mp. am_id (fst mp)) pairs0 in
      if pairs = [] then (Inl (group_not_found group_name), cache(group_name := None))
      else case group_signature env pairs of
        Inl e \<Rightarrow> (Inl e, cache)
      | Inr signature \<Rightarrow>
          (case cache group_name of
             Some entry \<Rightarrow>
               if cg_signature entry = signature
               then (Inr (cg_balancer entry), cache(group_name \<mapsto> entry\<lparr>cg_loaded_at := now\<rparr>))
               else (let b = group_new (map plain_pair pairs) in
                     (Inr b, cache(group_name \<mapsto> \<lparr>cg_loaded_at = now, cg_signature = signature, cg_balancer = b\<rparr>)))
           | None \<Rightarrow>
               (let b = group_new (map plain_pair pairs) in
                (Inr b, cache(group_name \<mapsto> \<lparr>cg_loaded_at = now, cg_signature = signature, cg_balancer = b\<rparr>)))))"

definition load_group :: "('j, 'f) resolver_env \<Rightarrow> duration \<Rightarrow> string \<Rightarrow> ('j, 'f) group_cache \<Rightarrow>
    ((KongError + 'j ModelGroupBalancer) \<times> ('j, 'f) group_cache) option" where
  "load_group env now group_name cache =
     (case group_models env group_name None of
        None \<Rightarrow> None
      | Some (Inl e) \<Rightarrow> Some (Inl e, cache)
      | Some (Inr models) \<Rightarrow>
          (case group_pairs env Map.empty models of
             Inl e \<Rightarrow> Some (Inl e, cache)
           | Inr pairs \<Rightarrow> Some (install_group env now group_name pairs cache)))"

section \<open>Resolving\<close>

text \<open>The balancer is shared with the cache: its new position is the position of the cached one.\<close>

definition keep_balancer :: "string \<Rightarrow> 'j ModelGroupBalancer \<Rightarrow> ('j, 'f) group_cache \<Rightarrow> ('j, 'f) group_cache" where
  "keep_balancer group_name b cache =
     (case cache group_name of Some entry \<Rightarrow> cache(group_name \<mapsto> entry\<lparr>cg_balancer := b\<rparr>) | None \<Rightarrow> cache)"

definition select_from :: "duration \<Rightarrow> string \<Rightarrow> u64 option \<Rightarrow> 'j ModelGroupBalancer \<Rightarrow> ('j, 'f) group_cache \<Rightarrow>
    (KongError + AiModel \<times> 'j AiProviderConfig) outcome \<times> ('j, 'f) group_cache" where
  "select_from now group_name prompt_tokens b cache =
     (case select_for b now prompt_tokens of
        (r, b') \<Rightarrow>
          (case r of
             Panic \<Rightarrow> Panic
           | Ret (Inl _) \<Rightarrow> Ret (Inl (group_not_found group_name))
           | Ret (Inr e) \<Rightarrow> Ret (Inr (me_model e, me_provider_config e)),
           keep_balancer group_name b' cache))"

definition resolve_for :: "('j, 'f) resolver_env \<Rightarrow> duration \<Rightarrow> duration \<Rightarrow> string \<Rightarrow> u64 option \<Rightarrow> ('j, 'f) group_cache \<Rightarrow>
    ((KongError + AiModel \<times> 'j AiProviderConfig) outcome \<times> ('j, 'f) group_cache) option" where
  "resolve_for env refresh now group_name prompt_tokens cache =
     (case cached_group refresh now group_name cache of
        Some b \<Rightarrow> Some (select_from now group_name prompt_tokens b cache)
      | None \<Rightarrow>
          (case load_group env now group_name cache of
             None \<Rightarrow> None
           | Some (Inl e, cache') \<Rightarrow> Some (Ret (Inl e), cache')
           | Some (Inr b, cache') \<Rightarrow> Some (select_from now group_name prompt_tokens b cache')))"

definition resolve_group :: "('j, 'f) resolver_env \<Rightarrow> duration \<Rightarrow> duration \<Rightarrow> string \<Rightarrow> ('j, 'f) group_cache \<Rightarrow>
    ((KongError + AiModel \<times> 'j AiProviderConfig) outcome \<times> ('j, 'f) group_cache) option" where
  "resolve_group env refresh now group_name cache = resolve_for env refresh now group_name None cache"

section \<open>Pairs come from the tables\<close>

text \<open>The pages of the table, from an offset to the end: an error, or all their rows.\<close>

inductive pages_of :: "('j, 'f) resolver_env \<Rightarrow> string \<Rightarrow> string option \<Rightarrow> 'j stored_model list \<Rightarrow> bool" for env group_name where
  last_page: "re_page env group_name offset = Inr (data, None) \<Longrightarrow> pages_of env group_name offset data"
| more_pages: "re_page env group_name offset = Inr (data, Some o') \<Longrightarrow> pages_of env group_name (Some o') rest \<Longrightarrow>
    pages_of env group_name offset (data @ rest)"

lemma group_models_reads:
  "pages_of env g offset rows \<Longrightarrow> group_models env g offset = Some (Inr (filter (in_group g) rows))"
proof (induction rule: pages_of.induct)
  case (last_page offset data)
  then show ?case by (subst group_models.simps) simp
next
  case (more_pages offset data o' rest)
  then show ?case by (subst group_models.simps) simp
qed

text \<open>What a group serves: the enabled rows with its name and no workspace, each with its enabled provider without workspace.\<close>

definition serving :: "('j, 'f) resolver_env \<Rightarrow> string \<Rightarrow> 'j stored_model list \<Rightarrow> 'j row_pair set" where
  "serving env g rows =
     {(m, p). m \<in> set rows \<and> am_enabled m \<and> am_ws_id m = None \<and> am_name m = g \<and>
        re_provider env (am_provider_id m) = Inr (Some p) \<and> ap_enabled p \<and> ap_ws_id p = None}"

definition providers_answer :: "('j, 'f) resolver_env \<Rightarrow> 'j stored_model list \<Rightarrow> bool" where
  "providers_answer env rows \<longleftrightarrow> (\<forall>m \<in> set rows. \<exists>p. re_provider env (am_provider_id m) = Inr p)"

lemma serving_filter: "serving env g (filter (in_group g) rows) = serving env g rows"
  by (auto simp: serving_def in_group_def)

lemma serving_Cons:
  assumes "in_group g m" "re_provider env (am_provider_id m) = Inr x"
  shows "serving env g (m # ms) =
    (case x of Some p \<Rightarrow> if ap_enabled p \<and> ap_ws_id p = None then {(m, p)} else {} | None \<Rightarrow> {}) \<union> serving env g ms"
  using assms by (auto simp: serving_def in_group_def split: option.splits)

lemma group_pairs_serve:
  assumes "\<forall>m \<in> set ms. in_group g m" "providers_answer env ms"
    "\<forall>u x. seen u = Some x \<longrightarrow> re_provider env u = Inr x"
  shows "\<exists>ps. group_pairs env seen ms = Inr ps \<and> set ps = serving env g ms"
  using assms
proof (induction ms arbitrary: seen)
  case Nil
  then show ?case by (simp add: serving_def)
next
  case (Cons m ms)
  obtain x where x: "re_provider env (am_provider_id m) = Inr x" using Cons.prems(2) by (auto simp: providers_answer_def)
  then have s: "(case seen (am_provider_id m) of Some cached \<Rightarrow> Inr cached | None \<Rightarrow> re_provider env (am_provider_id m)) = Inr x"
    using Cons.prems(3) by (auto split: option.splits)
  have "\<exists>qs. group_pairs env (seen(am_provider_id m \<mapsto> x)) ms = Inr qs \<and> set qs = serving env g ms"
    by (rule Cons.IH) (use Cons.prems x in \<open>auto simp: providers_answer_def\<close>)
  then show ?case using s serving_Cons [of g m env x ms] x Cons.prems(1) by (auto split: option.splits)
qed

section \<open>The cache\<close>

text \<open>The models and providers of a balancer, without their health.\<close>

definition members :: "'j ModelGroupBalancer \<Rightarrow> (AiModel \<times> 'j AiProviderConfig) list" where
  "members b = map (\<lambda>e. (me_model e, me_provider_config e)) (mb_entries b)"

lemma members_group_new: "set (members (group_new ps)) = set ps"
proof -
  have "members (group_new ps) = map (\<lambda>e. (me_model e, me_provider_config e))
      (sort_by entry_order (map (\<lambda>(m, p). \<lparr>me_model = m, me_provider_config = p, me_health = health_reset\<rparr>) ps))"
    by (simp add: members_def group_new_def)
  then show ?thesis by (force simp: image_image case_prod_unfold)
qed

lemma select_keeps_entries: "select_for b now pt = (r, b') \<Longrightarrow> mb_entries b' = mb_entries b"
  by (auto simp: select_for_def select_tiers_spec split: if_splits option.splits)

lemma picked_is_candidate: "cs \<noteq> [] \<Longrightarrow> pick_candidate cs n = Ret e \<Longrightarrow> e \<in> set cs"
  by (auto simp: pick_candidate_def Let_def split: if_splits option.splits)

lemma tier_member:
  "select_tiers b now pt ps = (Ret (Inr e), b') \<Longrightarrow> e \<in> set (mb_entries b)"
proof (induction ps)
  case (Cons p ps)
  let ?cs = "filter (\<lambda>e. am_priority (me_model e) = p \<and> usable now pt e) (mb_entries b)"
  show ?case
  proof (cases "?cs = []")
    case False
    then have "pick_candidate ?cs (mb_counter b) = Ret e"
      using Cons.prems by (cases "pick_candidate ?cs (mb_counter b)") (simp_all add: Let_def)
    then have "e \<in> set ?cs" by (rule picked_is_candidate [OF False])
    then show ?thesis by simp
  qed (use Cons in \<open>simp add: Let_def\<close>)
qed simp

lemma selected_is_entry: "select_for b now pt = (Ret (Inr e), b') \<Longrightarrow> e \<in> set (mb_entries b)"
  unfolding select_for_def by (simp split: if_splits) (rule tier_member)

text \<open>
  The invariant of the cache: the members of a group are those of the rows that its signature is the fingerprint of. Printing
  rows never fails and keeps apart what the balancer reads of them.
\<close>

definition cache_ok :: "('j, 'f) resolver_env \<Rightarrow> ('j, 'f) group_cache \<Rightarrow> bool" where
  "cache_ok env cache \<longleftrightarrow> (\<forall>g entry. cache g = Some entry \<longrightarrow>
     (\<exists>pairs. group_signature env pairs = Inr (cg_signature entry) \<and> set (members (cg_balancer entry)) = plain_pair ` set pairs))"

definition faithful_fingerprint :: "('j, 'f) resolver_env \<Rightarrow> bool" where
  "faithful_fingerprint env \<longleftrightarrow>
     (\<forall>ps. \<exists>bytes. re_to_vec env ps = Inr bytes) \<and>
     (\<forall>ps qs. re_to_vec env ps = re_to_vec env qs \<longrightarrow> map plain_pair ps = map plain_pair qs)"

lemma plain_normalized [simp]: "plain_pair (normalized mp) = plain_pair mp"
  by (simp add: plain_pair_def normalized_def AiModel.defs AiProviderConfig.defs)

lemma same_signature:
  assumes "faithful_fingerprint env" "group_signature env ps = Inr sig" "group_signature env qs = Inr sig"
  shows "plain_pair ` set ps = plain_pair ` set qs"
proof -
  have "re_to_vec env (map normalized ps) = Inr sig" "re_to_vec env (map normalized qs) = Inr sig"
    using assms(2,3) by (auto simp: group_signature_def split: sum.splits)
  then have "map plain_pair (map normalized ps) = map plain_pair (map normalized qs)"
    using assms(1) unfolding faithful_fingerprint_def by metis
  then have "map plain_pair ps = map plain_pair qs" by (simp add: comp_def)
  then show ?thesis by (metis set_map)
qed

lemma signature_exists: "faithful_fingerprint env \<Longrightarrow> \<exists>sig. group_signature env ps = Inr sig"
  unfolding faithful_fingerprint_def group_signature_def by (metis sum.simps(6))

definition fresh_group :: "duration \<Rightarrow> 'f \<Rightarrow> 'j ModelGroupBalancer \<Rightarrow> ('j, 'f) CachedGroup" where
  "fresh_group now sig b = \<lparr>cg_loaded_at = now, cg_signature = sig, cg_balancer = b\<rparr>"

lemma install_group_spec:
  assumes "pairs \<noteq> []" "cache_ok env cache" "faithful_fingerprint env"
  shows "\<exists>b cache' entry. install_group env now g pairs cache = (Inr b, cache') \<and> cache_ok env cache' \<and>
    cache' g = Some entry \<and> cg_loaded_at entry = now \<and> cg_balancer entry = b \<and> set (members b) = plain_pair ` set pairs"
proof -
  let ?ps = "sort_key (\<lambda>mp. am_id (fst mp)) pairs"
  have ne: "?ps \<noteq> []" using assms(1) by (metis set_empty set_sort)
  obtain sig where sig: "group_signature env ?ps = Inr sig" using signature_exists [OF assms(3)] by blast
  show ?thesis
  proof (cases "\<exists>entry. cache g = Some entry \<and> cg_signature entry = sig")
    case True
    then obtain entry where e: "cache g = Some entry" "cg_signature entry = sig" by blast
    obtain qs where q: "group_signature env qs = Inr sig" "set (members (cg_balancer entry)) = plain_pair ` set qs"
      using assms(2) e unfolding cache_ok_def by blast
    have "install_group env now g pairs cache = (Inr (cg_balancer entry), cache(g \<mapsto> entry\<lparr>cg_loaded_at := now\<rparr>))"
      using ne e sig by (simp add: install_group_def)
    moreover have "cache_ok env (cache(g \<mapsto> entry\<lparr>cg_loaded_at := now\<rparr>))" using assms(2) e(1) by (auto simp: cache_ok_def)
    moreover have "plain_pair ` set qs = plain_pair ` set pairs" using same_signature [OF assms(3) q(1) sig] by simp
    ultimately show ?thesis using q(2)
      by (intro exI [of _ "cg_balancer entry"] exI [of _ "cache(g \<mapsto> entry\<lparr>cg_loaded_at := now\<rparr>)"] exI [of _ "entry\<lparr>cg_loaded_at := now\<rparr>"]) simp
  next
    case False
    let ?b = "group_new (map plain_pair ?ps)"
    have i: "install_group env now g pairs cache = (Inr ?b, cache(g \<mapsto> fresh_group now sig ?b))"
      using ne sig False by (auto simp: install_group_def fresh_group_def Let_def split: option.splits)
    have m: "set (members ?b) = plain_pair ` set ?ps" by (simp add: members_group_new)
    have "cache_ok env (cache(g \<mapsto> fresh_group now sig ?b))" using assms(2) sig m by (auto simp: cache_ok_def fresh_group_def)
    then show ?thesis using i m by (auto simp: fresh_group_def)
  qed
qed

lemma keep_balancer_ok:
  assumes "cache_ok env cache" "\<And>entry. cache g = Some entry \<Longrightarrow> members b = members (cg_balancer entry)"
  shows "cache_ok env (keep_balancer g b cache)"
  using assms by (auto simp: cache_ok_def keep_balancer_def split: option.splits)

lemma select_from_ok:
  assumes "cache_ok env cache" "\<And>entry. cache g = Some entry \<Longrightarrow> members b = members (cg_balancer entry)"
    "select_from now g pt b cache = (r, cache')"
  shows "cache_ok env cache'" "\<And>mp. r = Ret (Inr mp) \<Longrightarrow> mp \<in> set (members b)"
    "\<And>entry. cache g = Some entry \<Longrightarrow> \<exists>entry'. cache' g = Some entry' \<and> cg_loaded_at entry' = cg_loaded_at entry \<and>
       members (cg_balancer entry') = members b"
proof -
  obtain r' b' where s: "select_for b now pt = (r', b')" by fastforce
  have m: "members b' = members b" using select_keeps_entries [OF s] by (simp add: members_def)
  have c: "cache' = keep_balancer g b' cache" using assms(3) s by (simp add: select_from_def)
  show "cache_ok env cache'" unfolding c by (rule keep_balancer_ok) (use assms(1,2) m in auto)
  show "mp \<in> set (members b)" if mp: "r = Ret (Inr mp)" for mp
  proof -
    obtain e where "r' = Ret (Inr e)" "mp = (me_model e, me_provider_config e)"
      using mp assms(3) s by (cases r') (auto simp: select_from_def split: sum.splits)
    then show ?thesis using selected_is_entry [of b now pt e b'] s by (auto simp: members_def)
  qed
  show "\<exists>entry'. cache' g = Some entry' \<and> cg_loaded_at entry' = cg_loaded_at entry \<and> members (cg_balancer entry') = members b"
    if "cache g = Some entry" for entry
    using that m by (simp add: c keep_balancer_def)
qed

lemma load_group_spec:
  assumes "pages_of env g None rows" "providers_answer env rows" "cache_ok env cache" "faithful_fingerprint env"
  shows "if serving env g rows = {}
    then load_group env now g cache = Some (Inl (group_not_found g), cache(g := None))
    else \<exists>b cache' entry. load_group env now g cache = Some (Inr b, cache') \<and> cache_ok env cache' \<and>
      cache' g = Some entry \<and> cg_loaded_at entry = now \<and> cg_balancer entry = b \<and> set (members b) = plain_pair ` serving env g rows"
proof -
  let ?ms = "filter (in_group g) rows"
  obtain ps where ps: "group_pairs env Map.empty ?ms = Inr ps" "set ps = serving env g rows"
    using group_pairs_serve [of ?ms g env Map.empty] assms(2) by (auto simp: providers_answer_def serving_filter)
  have l: "load_group env now g cache = Some (install_group env now g ps cache)"
    using ps(1) group_models_reads [OF assms(1)] by (simp add: load_group_def)
  show ?thesis
  proof (cases "ps = []")
    case True
    then show ?thesis using l ps(2) by (simp add: install_group_def)
  next
    case False
    then have "serving env g rows \<noteq> {}" using ps(2) by force
    then show ?thesis using install_group_spec [OF False assms(3,4), of now g] l ps(2) by auto
  qed
qed

text \<open>The answer of a resolution, as the balancer of a group gives it.\<close>

definition answer_of :: "string \<Rightarrow> duration \<Rightarrow> u64 option \<Rightarrow> 'j ModelGroupBalancer \<Rightarrow> (KongError + AiModel \<times> 'j AiProviderConfig) outcome" where
  "answer_of g now pt b =
     (case fst (select_for b now pt) of
        Panic \<Rightarrow> Panic
      | Ret (Inl _) \<Rightarrow> Ret (Inl (group_not_found g))
      | Ret (Inr e) \<Rightarrow> Ret (Inr (me_model e, me_provider_config e)))"

lemma select_from_answer: "select_from now g pt b cache = (r, cache') \<Longrightarrow> r = answer_of g now pt b"
  by (auto simp: select_from_def answer_of_def split: prod.splits)

text \<open>
  C16. What the resolver serves is current. When there is no kept group, or it is older than the refresh interval, and the pages
  of the table come to an end and its providers can be read, a resolution returns: with the error that the group was not found
  if no row of the table serves the group, and otherwise the group kept from now on has exactly the models of the rows that
  are in the table now, enabled, without workspace, under the name of the group, each with the provider its row names, enabled and
  without workspace; the answer is what the balancer of a group of exactly these models selects, and a model that is returned is one
  of them. Within the interval the answer is what the balancer of the kept group selects, and a model that is returned is a member of
  it. The cache stays consistent.
\<close>

theorem resolved_model_is_current:
  assumes "pages_of env g None rows" "providers_answer env rows" "cache_ok env cache" "faithful_fingerprint env"
  shows "\<exists>r cache'. resolve_for env refresh now g pt cache = Some (r, cache') \<and> cache_ok env cache' \<and>
    (case cached_group refresh now g cache of
       Some b \<Rightarrow> r = answer_of g now pt b \<and> (\<forall>mp. r = Ret (Inr mp) \<longrightarrow> mp \<in> set (members b))
     | None \<Rightarrow>
         if serving env g rows = {} then r = Ret (Inl (group_not_found g)) \<and> cache' g = None
         else (\<exists>entry. cache' g = Some entry \<and> cg_loaded_at entry = now \<and>
                 set (members (cg_balancer entry)) = plain_pair ` serving env g rows) \<and>
              (\<exists>b. set (members b) = plain_pair ` serving env g rows \<and> r = answer_of g now pt b) \<and>
              (\<forall>mp. r = Ret (Inr mp) \<longrightarrow> mp \<in> plain_pair ` serving env g rows))"
proof (cases "cached_group refresh now g cache")
  case (Some b)
  obtain r cache' where s: "select_from now g pt b cache = (r, cache')" by fastforce
  have "cache g = Some entry \<Longrightarrow> members b = members (cg_balancer entry)" for entry
    using Some by (auto simp: cached_group_def split: if_splits)
  from select_from_ok(1,2) [OF assms(3) this s] show ?thesis
    using Some s select_from_answer [OF s] by (simp add: resolve_for_def)
next
  case None
  show ?thesis
  proof (cases "serving env g rows = {}")
    case True
    then have "load_group env now g cache = Some (Inl (group_not_found g), cache(g := None))"
      using load_group_spec [OF assms, of now] by simp
    then show ?thesis using None True assms(3) by (auto simp: resolve_for_def cache_ok_def)
  next
    case False
    then obtain b c entry where l: "load_group env now g cache = Some (Inr b, c)" "cache_ok env c" "c g = Some entry"
      "cg_loaded_at entry = now" "cg_balancer entry = b" "set (members b) = plain_pair ` serving env g rows"
      using load_group_spec [OF assms, of now] by auto
    obtain r cache' where s: "select_from now g pt b c = (r, cache')" by fastforce
    have "members b = members (cg_balancer e)" if "c g = Some e" for e using that l(3,5) by simp
    note ok = select_from_ok [OF l(2) this s]
    obtain entry' where "cache' g = Some entry'" "cg_loaded_at entry' = now" "members (cg_balancer entry') = members b"
      using ok(3) [OF _ l(3)] l(4) by auto
    then show ?thesis using None False l ok(1,2) s select_from_answer [OF s] by (auto simp: resolve_for_def)
  qed
qed

text \<open>A group of two pages, with one model that is enabled and one that is not, resolved for the first time.\<close>

definition demo_model :: "unit stored_model" where
  "demo_model = \<lparr>am_id = 1, am_name = ''chat'', am_model_name = ''gpt'', am_priority = 0, am_weight = 0, am_max_input_tokens = None,
     am_enabled = True, am_provider_id = 9, am_input_cost = None, am_output_cost = None, am_max_tokens = None, am_config = (),
     am_ws_id = None, am_created_at = None, am_updated_at = None, am_tags = None\<rparr>"

definition demo_provider :: "unit stored_provider" where
  "demo_provider = \<lparr>ap_id = 9, ap_name = ''openai'', ap_provider_type = ''openai'', ap_endpoint_url = None, ap_auth_config = (),
     ap_enabled = True, ap_default_model = None, ap_config = (), ap_ws_id = None, ap_created_at = None, ap_updated_at = None, ap_tags = None\<rparr>"

definition demo_resolver :: "(unit, unit row_pair list) resolver_env" where
  "demo_resolver =
     \<lparr>re_page = (\<lambda>_ offset. if offset = None then Inr ([demo_model\<lparr>am_id := 2, am_enabled := False\<rparr>], Some ''2'') else Inr ([demo_model], None)),
      re_provider = (\<lambda>u. Inr (if u = 9 then Some demo_provider else None)), re_to_vec = Inr\<rparr>"

theorem resolved_model_is_current_witness:
  "\<exists>r cache entry. resolve_for demo_resolver (from_secs 2) 0 ''chat'' None Map.empty = Some (r, cache) \<and> cache ''chat'' = Some entry \<and>
     set (members (cg_balancer entry)) = {plain_pair (demo_model, demo_provider)}"
proof -
  let ?rows = "[demo_model\<lparr>am_id := 2, am_enabled := False\<rparr>] @ [demo_model]"
  have p: "pages_of demo_resolver ''chat'' None ?rows"
    by (rule pages_of.more_pages [where o' = "''2''"], simp add: demo_resolver_def)
      (rule pages_of.last_page, simp add: demo_resolver_def)
  have a: "providers_answer demo_resolver ?rows" by (simp add: providers_answer_def demo_resolver_def)
  have f: "faithful_fingerprint demo_resolver" by (simp add: faithful_fingerprint_def demo_resolver_def)
  have k: "cache_ok demo_resolver Map.empty" by (simp add: cache_ok_def)
  have s: "serving demo_resolver ''chat'' ?rows = {(demo_model, demo_provider)}"
    by (auto simp: serving_def demo_resolver_def demo_model_def demo_provider_def)
  show ?thesis
    using resolved_model_is_current [OF p a k f, of "from_secs 2" 0 None] unfolding s by (auto simp: cached_group_def)
qed

text \<open>A refresh that finds the same rows, up to timestamps and tags, keeps the balancer, with its rotation and its cooldowns.\<close>

lemma unchanged_group_keeps_rotation:
  assumes "cache g = Some entry" "pairs \<noteq> []"
    "group_signature env (sort_key (\<lambda>mp. am_id (fst mp)) pairs) = Inr (cg_signature entry)"
  shows "install_group env now g pairs cache = (Inr (cg_balancer entry), cache(g \<mapsto> entry\<lparr>cg_loaded_at := now\<rparr>))"
proof -
  have "sort_key (\<lambda>mp. am_id (fst mp)) pairs \<noteq> []" using assms(2) by (metis set_empty set_sort)
  then show ?thesis using assms by (simp add: install_group_def)
qed

end
