(* ===== verification/Spec2Isabelle.thy ===== *)
theory Spec2Isabelle
  imports RL_Quota RL_Recovery RL_Legacy Stream_Router AI_Models Proxy_Pipeline SSE_Parser Budget_Recovery Registry_Interleaving Quota_Laws
    Config_Laws Dbless_Loading Spillable_Buffer Prompt_Plugins Model_Resolver
begin

text \<open>
  A verification library for kong-rust, an API and AI gateway. A request enters the proxy, is matched
  to a route, runs through the plugins configured for it, may be charged against token and request
  quotas, is given an upstream target (or, for AI traffic, a model), passes the dispatch hooks, and
  leaves. The library models the parts of the gateway that decide, as executable definitions
  translated from the Rust sources, and proves what each part promises to the others.

  \<^bold>\<open>Foundations.\<close> \<open>Kong_Prelude\<close>: machine integers with Rust's checked and saturating arithmetic,
  durations, panics as values, \<open>Ordering\<close> and the stable \<open>sort_by\<close> (locale \<open>comparator\<close>, interpreted for
  every sort of the program), association lists as hash maps, iteration orders. \<open>Kong_Strings\<close> and
  \<open>Kong_Text\<close>: the string functions of the standard library on ASCII text, with the laws that reading and
  printing rest on.

  \<^bold>\<open>Quotas\<close> (\<open>kong-ai/src/ratelimit\<close>). \<open>RL_Types\<close> has the types of \<open>types.rs\<close>, \<open>store.rs\<close> and
  \<open>metrics.rs\<close>. \<open>RL_Memory\<close> is \<open>memory.rs\<close>, with every operation of \<open>MemoryRateLimitStore\<close> as a step on one
  record and every \<open>unreachable!\<close> and \<open>expect\<close> of them as a branch that panics; \<open>RL_Bucket\<close> and
  \<open>RL_Invariant\<close> prove the invariant of buckets, windows, idempotency
  records, leases and cleanup tickets (locale \<open>bucket_operation\<close>, interpreted for admission, settlement
  and inspection); \<open>RL_Quota\<close> has the theorems: limits are never oversold,
  settlement corrects exactly, repeated commands replay, statistics are exact and bounded, cleanup
  reclaims everything that expired, and no branch that panics is taken. \<open>RL_Examples\<close> has the store the
  witnesses share. \<open>RL_Recovery\<close> is \<open>orchestration.rs\<close>: over an
  unreliable link to the store (locale \<open>admission_store\<close>, interpreted on the memory store) a request
  is charged at most once. \<open>RL_Legacy\<close> is the older \<open>MemoryRateLimiter\<close>.

  \<^bold>\<open>Routing\<close> (\<open>kong-router/src\<close>). \<open>Routing_Types\<close> has the request, match and route types;
  \<open>Traditional_Router\<close> is \<open>traditional.rs\<close> (the search by categories finds the same route as a
  search of the routes in their order, and that is a best one), \<open>Expression_Router\<close> is
  \<open>expressions.rs\<close> with the parser and its panics and \<open>lib.rs\<close>, \<open>Stream_Router\<close> is \<open>stream.rs\<close>.
  Regular expressions and the eviction of the route cache are parameters.

  \<^bold>\<open>Upstreams\<close> (\<open>kong-proxy/src\<close>). \<open>Health\<close> is \<open>health.rs\<close>: the counters of a target implement a verdict
  on its event history, and runs of failures and successes do what the thresholds say. \<open>Load_Balancer\<close> is
  \<open>balancer.rs\<close>; \<open>Balancer_Fairness\<close> shows that a turn of the
  weighted wheel gives each target its share, \<open>Balancer_Selection\<close> that all algorithms choose healthy
  targets (locale \<open>target_selector\<close> with four interpretations), consistent hashing with minimal
  movement, and least connections. \<open>Spillable_Buffer\<close> is \<open>spillable_buffer.rs\<close>: bodies come back as they
  were written, from memory or from the temporary file.

  \<^bold>\<open>Models\<close> (\<open>kong-ai/src/provider\<close>). \<open>AI_Weighted\<close> is \<open>weighted.rs\<close>: the closed form equals an
  explicit interleaved schedule. \<open>AI_Models\<close> is \<open>balancer.rs\<close> and \<open>router.rs\<close>: priority tiers, cooldowns
  as a function of the reports, first-match routing of model names. \<open>Model_Resolver\<close> is \<open>resolver.rs\<close>: a
  resolved model is one of the rows the table has, unless the answer comes from a cached read that is
  young enough. The tables and the fingerprint of rows are parameters (\<open>faithful_fingerprint\<close>).

  \<^bold>\<open>Plugins and proxy.\<close> \<open>Request_Lifecycle\<close> is the record of a request in \<open>kong-core/src/traits/plugin.rs\<close>
  and the errors of \<open>error.rs\<close> (locale \<open>keeps_strongest\<close>, interpreted for termination hints and
  transport errors). \<open>Plugin_Config\<close> is \<open>config_validation.rs\<close>, \<open>Plugin_System\<close> the executor of
  \<open>kong-plugin-system/src/lib.rs\<close>: the chain of a request and the run of a phase, stated against
  the step relation \<open>chain_run\<close>. \<open>Dispatch_Hooks\<close> is the last gate before the upstream, stated against
  \<open>hooks_clear\<close> and, for a refused dispatch, \<open>compensated\<close>. \<open>Proxy_Pipeline\<close> composes router, plugins,
  balancers and hooks to the request filter of
  \<open>kong-proxy/src/lib.rs\<close>; its reachable states are an inductive predicate over table updates and
  requests, and its theorems span the components: what is forwarded was mediated by all of them,
  precomputed chains are current, the filter itself does not panic.

  \<^bold>\<open>AI requests\<close> (\<open>kong-ai/src\<close>). \<open>AI_Request\<close> has what the AI plugins keep of a request. \<open>Key_Auth\<close> is
  \<open>auth.rs\<close> and the plugin \<open>ai-key-auth\<close>: a key is accepted only if the table had it, enabled and not
  expired, within the life of a cache entry; failures look alike. The cache and the table are
  parameters (\<open>cache_contract\<close>), and one lookup sees one state of the table. \<open>AI_Policy\<close> is
  \<open>enforcement/policy.rs\<close> and \<open>response.rs\<close>. \<open>Chat_Format\<close> and \<open>Token_Counting\<close> are the chat format and
  the modules under \<open>token\<close>. \<open>Quota_Enforcement\<close> is the plugin \<open>ai-rate-limit\<close> with the compensator and
  the finalizer of \<open>enforcement/quota.rs\<close>; \<open>Quota_Laws\<close> shows that a request passes only with an
  admission for its estimate (or without a limit) and with its budget looked at, that one
  frozen command settles it, and that a refused dispatch is refunded. \<open>Prompt_Plugins\<close> is the guard of
  prompts and the computation of cache keys. \<open>SSE_Parser\<close> is \<open>codec/sse.rs\<close>: chunk boundaries do not
  matter (locale \<open>framing\<close>, interpreted for both formats) and plain events survive the wire.

  \<^bold>\<open>Budgets\<close> (\<open>kong-ai/src/usage\<close>, \<open>budget\<close> and \<open>enforcement\<close>). \<open>Usage_Types\<close>, \<open>AI_Pricing\<close> and
  \<open>AI_Pricing_Laws\<close> are the price list and the cost of a call over a decimal library (\<open>decimal_lib_ok\<close>).
  \<open>Budget_Registry\<close> is \<open>budget_registry.rs\<close>: entries, guards, limits of size; \<open>Registry_Interleaving\<close> its
  capacity when reservations and acknowledgements overlap. \<open>Budget_Enforcement\<close> is \<open>enforcement/budget.rs\<close>
  around the ledger, which is the parameter \<open>budget_store\<close>: a call may take effect and not come back.
  \<open>Budget_Safety\<close> states what the ledger promises (\<open>store_contract\<close>) and shows for one request, and
  \<open>Budget_System\<close> for a whole gateway of requests, recovery and late commits (\<open>gw_late\<close>), that no open
  intent is left without an entry and somebody to settle it, except those that committed late, which
  only the database's recovery of stale intents closes. \<open>Budget_Recovery\<close>: a recovery pass settles every
  abandoned entry, a request that may have been dispatched is never free, and the amount charged is the
  exact cost, normalized.

  \<^bold>\<open>Configuration and storage.\<close> \<open>Config_Listen\<close>, \<open>Config_File\<close>, \<open>Config_Fields\<close>, \<open>Kong_Config\<close> are
  \<open>kong-config/src\<close>: listen directives, the file and the environment, the settings as three tables, loading and
  validation. \<open>Config_Laws\<close>: precedence, order independence of the hash map with its one exception, what
  validation guarantees, numbers that cannot be read. \<open>Dbless_Store\<close> is \<open>kong-db/src/dbless.rs\<close>, with the
  crates as the parameter \<open>db_codec\<close> (\<open>codec_laws\<close>); \<open>Dbless_Laws\<close> and \<open>Dbless_Loading\<close>: paging
  reads every row once, in order, and declared keys are found.

  \<^bold>\<open>Conventions.\<close> A struct is a record with a prefix per type, an enum a datatype; \<open>'a outcome\<close> has
  \<open>Panic\<close> where the code can panic, sums and options stand for \<open>Result\<close> and \<open>Option\<close>. Integers that
  can wrap are words of their width. Operations on shared state under a lock or an atomic are
  single steps; an interleaving is a sequence of steps. Time, randomness, hashing and the order of
  hash maps are arguments, as is all third-party code, with what is relied on as named hypotheses.
  Where the code awaits an answer that may not come, the answer is an option, so that a task can be
  cut off at each such point. Loops are structural or have a termination proof, except the paging of the
  resolver, which is a \<open>partial_function (option)\<close>; the theorem about it proves that it returns.

  \<^bold>\<open>Bounds.\<close> Lists that the code counts in a machine word are assumed to fit it: fewer than
  \<open>2 ^ 32\<close> models in a group or targets in a rule, fewer than \<open>2 ^ 32\<close> reports on a model, fewer than
  \<open>2 ^ 31\<close> reports to the health checker, target weights of an upstream that sum below \<open>2 ^ 31\<close>
  (the code adds them as \<open>i32\<close> and checks single weights only). Text is ASCII where the code slices it.

  \<^bold>\<open>Not modelled.\<close> The callbacks of the proxy after the request filter (headers, bodies, logging), the
  stream proxy, TLS and DNS move bytes through third-party crates. The budget ledger, the
  PostgreSQL access and its migrations and the administration interface are SQL and HTTP: what they compute
  is decided by the database. The cluster protocol is network I/O, the Lua bridge drives a foreign
  interpreter, \<open>ai-proxy\<close> and the provider codecs translate JSON dialects. The enforcement runtime builds
  shared objects of \<open>tokio\<close>. The accounting of usage (collector, ring store, writer) is pure code that is
  not modelled yet. Of the modelled parts these details are left out: panics inside plugin handlers and
  observers, which nothing catches; a change of the key table between two pages of one lookup; the
  setting \<open>tracing_sampling_rate\<close> (a floating point number); telemetry counters and log lines.
\<close>

end
